(* ===== verification/Prelude.thy ===== *)
theory Prelude
  imports Main "HOL-Library.AList" "HOL-Library.Word" "HOL-Library.Char_ord"
    "HOL-Library.List_Lexorder" "HOL-Library.Multiset"
begin

text \<open>
  Shared vocabulary of the development: results with errors as values, the part of Go's
  \<^verbatim>\<open>strings\<close> package the sources use, Go maps as association lists with distinct keys, the
  platform functions that depend on the operating system or on Unicode tables, and the
  generic lemmas the component theories rest on.

  A Go \<open>string\<close> is a sequence of bytes, here a \<open>char list\<close>. A function returning
  \<open>(T, error)\<close> is a function into \<open>'e + 'a\<close>, with \<open>Inl\<close> for the error; one returning
  \<open>(T, bool)\<close> is a function into \<open>'a option\<close>. A Go map is an association list with
  distinct keys whose order is one iteration order of the map: every theorem that
  mentions such a list holds for all orders of it.
\<close>

named_theorems result_simps \<open>rules that decompose a chain of fallible calls\<close>
named_theorems early_return \<open>rules that invert a successful chain of early returns\<close>
named_theorems gomap_simps \<open>lookup laws of Go maps\<close>

section \<open>Results\<close>

text \<open>The early-return idiom \<^verbatim>\<open>x, err := f(); if err != nil { return err }\<close>.\<close>

definition and_then :: "'e + 'a \<Rightarrow> ('a \<Rightarrow> 'e + 'b) \<Rightarrow> 'e + 'b" where
  "and_then r f = (case r of Inl e \<Rightarrow> Inl e | Inr a \<Rightarrow> f a)"

lemma and_then_Inl [simp]: "and_then (Inl e) f = Inl e"
  by (simp add: and_then_def)

lemma and_then_Inr [simp]: "and_then (Inr a) f = f a"
  by (simp add: and_then_def)

lemma and_then_eq_Inr [result_simps]:
  "and_then r f = Inr b \<longleftrightarrow> (\<exists>a. r = Inr a \<and> f a = Inr b)"
  by (cases r) auto

lemma and_then_eq_Inl:
  "and_then r f = Inl e \<longleftrightarrow> r = Inl e \<or> (\<exists>a. r = Inr a \<and> f a = Inl e)"
  by (cases r) auto

lemma and_then_cong [fundef_cong]:
  "r = r' \<Longrightarrow> (\<And>a. r' = Inr a \<Longrightarrow> f a = f' a) \<Longrightarrow> and_then r f = and_then r' f'"
  by (cases r') auto

lemma if_Inl_eq_Inr [result_simps]:
  "(if b then Inl e else r) = Inr a \<longleftrightarrow> \<not> b \<and> r = Inr a"
  by auto

text \<open>The same rules for a \<open>case\<close> whose failing branch returns an error.\<close>

lemma case_error_eq_Inr [early_return]:
  "(case r of Inl e \<Rightarrow> Inl (f e) | Inr a \<Rightarrow> k a) = Inr x \<longleftrightarrow> (\<exists>a. r = Inr a \<and> k a = Inr x)"
  by (cases r) auto

lemma case_missing_eq_Inr [early_return]:
  "(case v of None \<Rightarrow> Inl e | Some a \<Rightarrow> k a) = Inr x \<longleftrightarrow> (\<exists>a. v = Some a \<and> k a = Inr x)"
  by (cases v) auto

lemmas early_return_chain [early_return] = and_then_eq_Inr if_Inl_eq_Inr

text \<open>The success test of a result.\<close>

definition is_ok :: "'e + 'a \<Rightarrow> bool" where
  "is_ok r = (case r of Inl _ \<Rightarrow> False | Inr _ \<Rightarrow> True)"

lemma is_ok_simps [simp]: "is_ok (Inr a)" "\<not> is_ok (Inl e)"
  by (simp_all add: is_ok_def)

lemma is_ok_iff: "is_ok r \<longleftrightarrow> (\<exists>a. r = Inr a)"
  by (cases r) auto

lemma is_ok_and_then [simp]: "is_ok (and_then r (\<lambda>a. Inr (f a))) = is_ok r"
  by (cases r) auto

text \<open>A validation loop: the first error stops it.\<close>

fun check_all :: "('a \<Rightarrow> 'e + unit) \<Rightarrow> 'a list \<Rightarrow> 'e + unit" where
  "check_all f [] = Inr ()"
| "check_all f (x # xs) = and_then (f x) (\<lambda>_. check_all f xs)"

lemma check_all_ok [result_simps]:
  "check_all f xs = Inr u \<longleftrightarrow> (\<forall>x \<in> set xs. f x = Inr ())"
  by (induction xs) (auto simp: result_simps)

text \<open>A loop that fills a slice with the results of a fallible call.\<close>

fun map_result :: "('a \<Rightarrow> 'e + 'b) \<Rightarrow> 'a list \<Rightarrow> 'e + 'b list" where
  "map_result f [] = Inr []"
| "map_result f (x # xs) = and_then (f x) (\<lambda>y. and_then (map_result f xs) (\<lambda>ys. Inr (y # ys)))"

lemma map_result_ok: "map_result f xs = Inr ys \<longleftrightarrow> list_all2 (\<lambda>x y. f x = Inr y) xs ys"
proof (induction xs arbitrary: ys)
  case (Cons x xs)
  then show ?case by (cases ys) (auto simp: result_simps)
qed auto

lemma list_all2_in_right: "list_all2 P xs ys \<Longrightarrow> y \<in> set ys \<Longrightarrow> \<exists>x \<in> set xs. P x y"
  by (metis in_set_conv_nth list_all2_conv_all_nth)

section \<open>Strings\<close>

text \<open>
  \<^verbatim>\<open>strings.TrimSpace\<close> removes leading and trailing code points with the Unicode property
  White Space. In UTF-8 they are the byte sequences below: six ASCII bytes, U+0085,
  U+00A0, U+1680, U+2000 to U+200A, U+2028, U+2029, U+202F, U+205F and U+3000.
\<close>

definition ascii_space :: string where
  "ascii_space = [CHR 0x09, CHR 0x0A, CHR 0x0B, CHR 0x0C, CHR 0x0D, CHR 0x20]"

definition wide_space :: "string list" where
  "wide_space =
     [[CHR 0xC2, CHR 0x85], [CHR 0xC2, CHR 0xA0], [CHR 0xE1, CHR 0x9A, CHR 0x80]] @
     map (\<lambda>c. [CHR 0xE2, CHR 0x80, c])
       [CHR 0x80, CHR 0x81, CHR 0x82, CHR 0x83, CHR 0x84, CHR 0x85, CHR 0x86, CHR 0x87,
        CHR 0x88, CHR 0x89, CHR 0x8A, CHR 0xA8, CHR 0xA9, CHR 0xAF] @
     [[CHR 0xE2, CHR 0x81, CHR 0x9F], [CHR 0xE3, CHR 0x80, CHR 0x80]]"

definition white_space :: "string list" where
  "white_space = map (\<lambda>c. [c]) ascii_space @ wide_space"

definition HasPrefix :: "string \<Rightarrow> string \<Rightarrow> bool" where
  "HasPrefix s p \<longleftrightarrow> take (length p) s = p"

function strip_leading :: "string list \<Rightarrow> string \<Rightarrow> string" where
  "strip_leading ws s =
     (case find (\<lambda>w. w \<noteq> [] \<and> HasPrefix s w) ws of
        None \<Rightarrow> s
      | Some w \<Rightarrow> strip_leading ws (drop (length w) s))"
  by pat_completeness auto
termination
proof (relation "measure (\<lambda>(ws, s). length s)", goal_cases)
  case (2 ws s w)
  then have "w \<noteq> [] \<and> HasPrefix s w" by (auto simp: find_Some_iff)
  then have "0 < length w" and "0 < length s" by (auto simp: HasPrefix_def)
  then show ?case by simp
qed simp

declare strip_leading.simps [simp del]

definition TrimSpace :: "string \<Rightarrow> string" where
  "TrimSpace s =
     rev (strip_leading (map rev white_space) (rev (strip_leading white_space s)))"

text \<open>\<^verbatim>\<open>strings.TrimRight(s, "/")\<close> and friends, for one-byte separators.\<close>

definition TrimRight :: "string \<Rightarrow> char \<Rightarrow> string" where
  "TrimRight s c = rev (dropWhile (\<lambda>x. x = c) (rev s))"

definition HasSuffix :: "string \<Rightarrow> string \<Rightarrow> bool" where
  "HasSuffix s x = HasPrefix (rev s) (rev x)"

definition TrimSuffix :: "string \<Rightarrow> string \<Rightarrow> string" where
  "TrimSuffix s x = (if HasSuffix s x then take (length s - length x) s else s)"

text \<open>\<^verbatim>\<open>strings.Cut\<close>: the parts around the first separator and whether it occurs.\<close>

definition Cut :: "string \<Rightarrow> char \<Rightarrow> string \<times> string \<times> bool" where
  "Cut s c =
     (if c \<in> set s then (takeWhile (\<lambda>x. x \<noteq> c) s, tl (dropWhile (\<lambda>x. x \<noteq> c) s), True)
      else (s, [], False))"

fun Split :: "string \<Rightarrow> char \<Rightarrow> string list" where
  "Split [] c = [[]]"
| "Split (x # xs) c =
     (if x = c then [] # Split xs c
      else (case Split xs c of [] \<Rightarrow> [[x]] | w # ws \<Rightarrow> (x # w) # ws))"

text \<open>\<^verbatim>\<open>strings.Join\<close>.\<close>

fun JoinWith :: "string list \<Rightarrow> string \<Rightarrow> string" where
  "JoinWith [] sep = []"
| "JoinWith [w] sep = w"
| "JoinWith (w # ws) sep = w @ sep @ JoinWith ws sep"

definition TrimPrefix :: "string \<Rightarrow> string \<Rightarrow> string" where
  "TrimPrefix s p = (if HasPrefix s p then drop (length p) s else s)"

definition lower_letters :: string where "lower_letters = ''abcdefghijklmnopqrstuvwxyz''"
definition upper_letters :: string where "upper_letters = ''ABCDEFGHIJKLMNOPQRSTUVWXYZ''"
definition digits :: string where "digits = ''0123456789''"
definition alnum :: string where "alnum = lower_letters @ upper_letters @ digits"

text \<open>Decimal digits, as the verb \<^verbatim>\<open>%d\<close> prints a non-negative integer.\<close>

fun decimal :: "nat \<Rightarrow> string" where
  "decimal n = (if n < 10 then [digits ! n] else decimal (n div 10) @ [digits ! (n mod 10)])"

declare decimal.simps [simp del]

text \<open>
  A formatted message: literal text, or a format with its arguments. Errors carry the
  arguments of \<^verbatim>\<open>%q\<close> verbs unformatted.
\<close>

datatype message = Text string | Sprintf string "string list"

section \<open>Platform functions\<close>

text \<open>
  What the sources take from the platform and what depends on it: lower-casing of strings
  with non-ASCII code points (Unicode tables), \<^verbatim>\<open>net/url.Parse\<close> (the scheme, the host
  and whether user information is present, or an error) and \<^verbatim>\<open>path/filepath.IsAbs\<close>.
\<close>

record parsed_url =
  url_scheme :: string
  url_host :: string
  url_has_user :: bool

record platform =
  unicode_lower :: "string \<Rightarrow> string"
  url_Parse :: "string \<Rightarrow> parsed_url option"
  filepath_IsAbs :: "string \<Rightarrow> bool"

definition ascii_char :: "char \<Rightarrow> bool" where
  "ascii_char c \<longleftrightarrow> \<not> digit7 c"

definition ascii_lower :: "char \<Rightarrow> char" where
  "ascii_lower c = (case map_of (zip upper_letters lower_letters) c of None \<Rightarrow> c | Some d \<Rightarrow> d)"

definition ToLower :: "platform \<Rightarrow> string \<Rightarrow> string" where
  "ToLower p s = (if list_all ascii_char s then map ascii_lower s else unicode_lower p s)"

section \<open>Lemmas on strings\<close>

lemma HasPrefix_Nil [simp]: "HasPrefix s []"
  by (simp add: HasPrefix_def)

lemma HasPrefix_Cons [simp]:
  "HasPrefix [] (c # p) = False" "HasPrefix (d # s) (c # p) \<longleftrightarrow> d = c \<and> HasPrefix s p"
  by (auto simp: HasPrefix_def)

lemma HasPrefix_iff: "HasPrefix s p \<longleftrightarrow> (\<exists>t. s = p @ t)"
  by (metis HasPrefix_def append_take_drop_id append_eq_conv_conj)

lemma HasPrefix_append: "HasPrefix s p \<Longrightarrow> HasPrefix (s @ t) p"
  by (auto simp: HasPrefix_iff)

text \<open>Nothing in \<open>ws\<close> can be stripped from the front of \<open>s\<close>.\<close>

definition stripped :: "string list \<Rightarrow> string \<Rightarrow> bool" where
  "stripped ws s \<longleftrightarrow> (\<forall>w \<in> set ws. w \<noteq> [] \<longrightarrow> \<not> HasPrefix s w)"

lemma strip_leading_stripped: "stripped ws (strip_leading ws s)"
proof (induction ws s rule: strip_leading.induct)
  case (1 ws s)
  then show ?case
    by (subst strip_leading.simps)
      (auto simp: stripped_def find_None_iff split: option.split)
qed

lemma strip_leading_id: "stripped ws s \<Longrightarrow> strip_leading ws s = s"
  by (subst strip_leading.simps) (auto simp: stripped_def find_Some_iff split: option.split)

lemma strip_leading_suffix: "\<exists>u. s = u @ strip_leading ws s"
proof (induction ws s rule: strip_leading.induct)
  case (1 ws s)
  show ?case
  proof (cases "find (\<lambda>w. w \<noteq> [] \<and> HasPrefix s w) ws")
    case None
    then show ?thesis by (simp add: strip_leading.simps [of ws s])
  next
    case (Some w)
    then obtain u where "drop (length w) s = u @ strip_leading ws (drop (length w) s)"
      using 1 by blast
    then have "s = (take (length w) s @ u) @ strip_leading ws (drop (length w) s)"
      by (metis append_assoc append_take_drop_id)
    with Some show ?thesis unfolding strip_leading.simps [of ws s] by (metis option.simps(5))
  qed
qed

lemma stripped_prefix: "stripped ws (s @ t) \<Longrightarrow> stripped ws s"
  by (auto simp: stripped_def dest: HasPrefix_append)

lemma TrimSpace_idem [simp]: "TrimSpace (TrimSpace s) = TrimSpace s"
proof -
  let ?l = "strip_leading white_space s"
  let ?r = "strip_leading (map rev white_space) (rev ?l)"
  obtain u where "rev ?l = u @ ?r" using strip_leading_suffix by blast
  then have "?l = rev ?r @ rev u" by (metis rev_append rev_rev_ident)
  then have "stripped white_space (rev ?r)"
    by (metis strip_leading_stripped stripped_prefix)
  then have "strip_leading white_space (rev ?r) = rev ?r" by (rule strip_leading_id)
  moreover have "strip_leading (map rev white_space) ?r = ?r"
    by (intro strip_leading_id strip_leading_stripped)
  ultimately show ?thesis by (simp add: TrimSpace_def)
qed

text \<open>A string whose first and last bytes are ASCII and not spaces is left alone.\<close>

definition solid_char :: "char \<Rightarrow> bool" where
  "solid_char c \<longleftrightarrow> ascii_char c \<and> c \<notin> set ascii_space"

lemma wide_space_edges: "w \<in> set wide_space \<Longrightarrow> w \<noteq> [] \<and> \<not> ascii_char (hd w) \<and> \<not> ascii_char (last w)"
  by (auto simp: wide_space_def ascii_char_def)

lemma white_space_edges:
  assumes "w \<in> set white_space"
  shows "w \<noteq> [] \<and> \<not> solid_char (hd w) \<and> \<not> solid_char (last w)"
  using assms wide_space_edges by (auto simp: white_space_def solid_char_def)

lemma HasPrefix_hd: "HasPrefix s w \<Longrightarrow> w \<noteq> [] \<Longrightarrow> s \<noteq> [] \<and> hd s = hd w"
  by (auto simp: HasPrefix_iff)

lemma TrimSpace_solid:
  assumes "s = [] \<or> solid_char (hd s) \<and> solid_char (last s)"
  shows "TrimSpace s = s"
proof -
  have "stripped white_space s"
    using assms white_space_edges by (fastforce simp: stripped_def dest: HasPrefix_hd)
  moreover have "stripped (map rev white_space) (rev s)"
    using assms white_space_edges
    by (fastforce simp: stripped_def hd_rev dest: HasPrefix_hd)
  ultimately show ?thesis by (simp add: TrimSpace_def strip_leading_id)
qed

lemma solid_alnum: "c \<in> set alnum \<Longrightarrow> solid_char c"
  by (auto simp: alnum_def lower_letters_def upper_letters_def digits_def
      solid_char_def ascii_char_def ascii_space_def)

section \<open>Lemmas on Go maps\<close>

abbreviation gomap :: "('k \<times> 'v) list \<Rightarrow> bool" where
  "gomap m \<equiv> distinct (map fst m)"

lemmas [gomap_simps] = update_conv' delete_conv'

lemma gomap_update [intro]: "gomap m \<Longrightarrow> gomap (AList.update k v m)"
  by (rule distinct_update)

lemma gomap_delete [intro]: "gomap m \<Longrightarrow> gomap (AList.delete k m)"
  by (rule distinct_delete)

lemma gomap_in_set: "gomap m \<Longrightarrow> (k, v) \<in> set m \<longleftrightarrow> map_of m k = Some v"
  by (simp add: map_of_eq_Some_iff)

lemma set_update_gomap:
  "gomap m \<Longrightarrow> set (AList.update k v m) = insert (k, v) {x \<in> set m. fst x \<noteq> k}"
  by (induction m) (auto simp: rev_image_eqI)

lemma set_delete_gomap: "set (AList.delete k m) = {x \<in> set m. fst x \<noteq> k}"
  by (auto simp: AList.delete_eq)

lemma map_of_fold_update_in:
  assumes "distinct (map k xs)" and "x \<in> set xs"
  shows "map_of (fold (\<lambda>x. AList.update (k x) (f x)) xs m) (k x) = Some (f x)"
  using assms
proof (induction xs arbitrary: m)
  case (Cons y ys)
  have "map_of (fold (\<lambda>x. AList.update (k x) (f x)) ys m') i = map_of m' i"
    if "i \<notin> k ` set ys" for m' i
    using that by (induction ys arbitrary: m') (auto simp: update_conv')
  with Cons show ?case by (auto simp: update_conv')
qed simp

lemma map_of_fold_update_out:
  "i \<notin> k ` set xs \<Longrightarrow> map_of (fold (\<lambda>x. AList.update (k x) (f x)) xs m) i = map_of m i"
  by (induction xs arbitrary: m) (auto simp: update_conv')

lemma gomap_fold_update:
  "gomap m \<Longrightarrow> gomap (fold (\<lambda>x. AList.update (k x) (f x)) xs m)"
  by (induction xs arbitrary: m) (auto intro: distinct_update)

lemma fold_update_keys:
  "fst ` set (fold (\<lambda>x. AList.update (k x) (f x)) xs m) = fst ` set m \<union> k ` set xs"
  by (induction xs arbitrary: m) (auto simp: dom_update)

text \<open>Two maps are equal when they have the same entries, whatever their orders.\<close>

lemma gomap_same_entries:
  assumes "gomap m" and "gomap n" and "map_of m = map_of n"
  shows "mset m = mset n"
proof -
  have "set m = set n"
    using assms by (metis map_of_eq_Some_iff surj_pair subset_antisym subsetI)
  moreover have "distinct m" and "distinct n"
    using assms(1,2) by (simp_all add: distinct_map)
  ultimately show ?thesis by (simp add: set_eq_iff_mset_eq_distinct)
qed

lemma distinct_concat_unique:
  "distinct (concat (map f xs)) \<Longrightarrow> x \<in> set xs \<Longrightarrow> y \<in> set xs \<Longrightarrow> i \<in> set (f x) \<Longrightarrow> i \<in> set (f y) \<Longrightarrow>
     x = y"
  by (induction xs) auto

lemma fold_update_triv:
  "(\<And>x. x \<in> set xs \<Longrightarrow> map_of m (k x) = Some (f x)) \<Longrightarrow> fold (\<lambda>x. AList.update (k x) (f x)) xs m = m"
  by (induction xs) (simp_all add: update_triv)

lemma distinct_map_slots:
  assumes "\<And>y. length (filter (\<lambda>x. f x = y) xs) \<le> 1"
  shows "distinct (map f xs)"
  using assms
proof (induction xs)
  case (Cons x xs)
  have "filter (\<lambda>z. f z = f x) xs = []" using Cons.prems [of "f x"] by simp
  then have "f x \<notin> f ` set xs" by (auto simp: filter_empty_conv)
  moreover have "length (filter (\<lambda>x. f x = y) xs) \<le> 1" for y
    using Cons.prems [of y] by (auto split: if_splits)
  ultimately show ?case using Cons.IH by simp
qed simp

end
