(* ===== verification/Credential_Ref.thy ===== *)
theory Credential_Ref
  imports Prelude
begin

text \<open>
  Credential references (\<^verbatim>\<open>src/internal/domain/credentialref/ref.go\<close>): a locator string
  classified by its scheme prefix. \<open>KindZero\<close> is the empty \<open>Kind\<close> of the zero \<open>Ref\<close>.
\<close>

datatype Kind = KindZero | KindEmpty | KindSecret | KindSecretFile | KindEnv | KindFile | KindOther

record Ref =
  ref_raw :: string
  ref_norm :: string
  ref_kind :: Kind

definition zeroRef :: Ref where
  "zeroRef = \<lparr>ref_raw = [], ref_norm = [], ref_kind = KindZero\<rparr>"

text \<open>The locator is a bare scheme word, or starts with the scheme and a colon.\<close>

definition has_scheme :: "string \<Rightarrow> string \<Rightarrow> bool" where
  "has_scheme n w \<longleftrightarrow> n = w \<or> n = w @ '':'' \<or> HasPrefix n (w @ '':'')"

definition classify :: "string \<Rightarrow> Kind" where
  "classify n =
     (if n = [] then KindEmpty
      else if has_scheme n ''file'' \<or> HasPrefix n ''/'' \<or> HasPrefix n ''~/'' then KindFile
      else if has_scheme n ''env'' then KindEnv
      else if has_scheme n ''secretfile'' then KindSecretFile
      else if has_scheme n ''secret'' then KindSecret
      else KindOther)"

definition credentialref_Parse :: "platform \<Rightarrow> string \<Rightarrow> Ref" where
  "credentialref_Parse p raw =
     (let normalized = ToLower p (TrimSpace raw)
      in \<lparr>ref_raw = raw, ref_norm = normalized, ref_kind = classify normalized\<rparr>)"

definition ref_String :: "Ref \<Rightarrow> string" where
  "ref_String r = TrimSpace (ref_raw r)"

definition IsFileRef :: "Ref \<Rightarrow> bool" where
  "IsFileRef r \<longleftrightarrow> ref_kind r = KindFile"

definition IsEmptyFileSelection :: "Ref \<Rightarrow> bool" where
  "IsEmptyFileSelection r =
     (if ref_kind r \<noteq> KindFile then False
      else if ref_norm r = ''file'' \<or> ref_norm r = ''file:'' then True
      else if HasPrefix (ref_norm r) ''file:''
        then TrimSpace (TrimPrefix (ref_norm r) ''file:'') = []
      else False)"

section \<open>Lemmas\<close>

text \<open>Parsing the printed form of a reference classifies it in the same way.\<close>

lemma Parse_String:
  "ref_String (credentialref_Parse p (ref_String r)) = ref_String r"
  "ref_kind (credentialref_Parse p (ref_String (credentialref_Parse p raw)))
    = ref_kind (credentialref_Parse p raw)"
  by (simp_all add: credentialref_Parse_def ref_String_def Let_def)

lemma ref_String_Parse [simp]: "ref_String (credentialref_Parse p raw) = TrimSpace raw"
  by (simp add: credentialref_Parse_def ref_String_def Let_def)

lemma ref_String_zeroRef [simp]: "ref_String zeroRef = []"
  by (simp add: zeroRef_def ref_String_def TrimSpace_solid)

end
