(* ===== verification/Routing_Connection.thy ===== *)
theory Routing_Connection
  imports Credential_Ref
begin

text \<open>
  Durable provider connections (\<^verbatim>\<open>src/internal/routing/connection.go\<close>), the errors of the
  routing package (\<^verbatim>\<open>errors.go\<close>) and its URL values (\<^verbatim>\<open>model.go\<close>). A connection is the
  sealed sum of four shapes; an absent interface value is \<open>None\<close>.
\<close>

section \<open>Errors\<close>

text \<open>
  The sentinel errors of \<^verbatim>\<open>errors.go\<close>, each with the message it is wrapped with.
  \<open>External\<close> is an error of a construction fact supplied by the caller.
\<close>

datatype routing_error =
    InvariantError string message
  | ErrNotFound message
  | ErrConflict message
  | ErrLastRoute message
  | ErrDefaultReplacementRequired
  | ErrEmptyRequestedRoute
  | External message

definition pathError :: "string \<Rightarrow> message \<Rightarrow> routing_error + 'a" where
  "pathError path msg = Inl (InvariantError path msg)"

lemma pathError_neq_Inr [simp]: "pathError p m \<noteq> Inr x" "Inr x \<noteq> pathError p m"
  by (simp_all add: pathError_def)

lemma if_pathError_eq_Inr [result_simps]:
  "(if b then pathError p m else r) = Inr a \<longleftrightarrow> \<not> b \<and> r = Inr a"
  "(if b then r else pathError p m) = Inr a \<longleftrightarrow> b \<and> r = Inr a"
  by auto

section \<open>URLs\<close>

definition ParseURL :: "platform \<Rightarrow> string \<Rightarrow> string \<Rightarrow> routing_error + string" where
  "ParseURL p path raw =
     (let raw = TrimSpace raw; bad = Text ''must be an absolute HTTP(S) URL without user info''
      in case url_Parse p raw of
           None \<Rightarrow> pathError path bad
         | Some u \<Rightarrow>
             if url_host u = [] \<or> url_scheme u \<noteq> ''http'' \<and> url_scheme u \<noteq> ''https'' \<or>
               url_has_user u
             then pathError path bad
             else Inr (TrimRight raw (CHR ''/'')))"

section \<open>Credentials\<close>

definition envCredentialNamePattern :: "string \<Rightarrow> bool" where
  "envCredentialNamePattern s \<longleftrightarrow>
     s \<noteq> [] \<and> hd s \<in> set (lower_letters @ upper_letters @ ''_'') \<and>
     list_all (\<lambda>c. c \<in> set (alnum @ ''_'')) (tl s)"

definition credentialNamePattern :: "string \<Rightarrow> bool" where
  "credentialNamePattern s \<longleftrightarrow>
     list_all (\<lambda>w. w \<noteq> [] \<and> list_all (\<lambda>c. c \<in> set (alnum @ ''._-'')) w) (Split s (CHR ''/''))"

text \<open>The shared branch of \<open>KindSecret\<close> and \<open>KindSecretFile\<close>.\<close>

definition parseSecretName :: "string \<Rightarrow> string \<Rightarrow> Ref \<Rightarrow> routing_error + Ref" where
  "parseSecretName path payload ref =
     (if \<not> credentialNamePattern payload
      then pathError path (Text ''credential name must contain URL-safe non-empty path segments'')
      else if list_ex (\<lambda>w. w = ''.'' \<or> w = ''..'') (Split payload (CHR ''/''))
      then pathError path (Text ''credential name cannot contain ambiguous path segments'')
      else Inr ref)"

definition parseCredential :: "platform \<Rightarrow> string \<Rightarrow> string \<Rightarrow> routing_error + Ref" where
  "parseCredential p path raw =
     (let ref = credentialref_Parse p raw; locator = ref_String ref;
          (_, payload, found) = Cut locator (CHR '':'')
      in if locator = [] \<or> ref_kind ref = KindOther
         then pathError path (Text ''credential reference must use a supported locator scheme'')
         else if found \<and> TrimSpace payload = []
         then pathError path (Text ''credential locator payload is required'')
         else if \<not> found \<and> \<not> HasPrefix locator ''/'' \<and> \<not> HasPrefix locator ''~/''
         then pathError path (Text ''credential locator must include its payload'')
         else
           let payload = TrimSpace payload
           in case ref_kind ref of
                KindEnv \<Rightarrow>
                  if \<not> envCredentialNamePattern payload
                  then pathError path (Text ''environment credential name is invalid'')
                  else Inr ref
              | KindFile \<Rightarrow>
                  let filePath = (if found then payload else locator)
                  in if \<not> filepath_IsAbs p filePath \<and> \<not> HasPrefix filePath ''~/''
                     then pathError path
                       (Text ''credential file path must be absolute or home-relative'')
                     else Inr ref
              | KindSecret \<Rightarrow> parseSecretName path payload ref
              | KindSecretFile \<Rightarrow> parseSecretName path payload ref
              | _ \<Rightarrow> Inr ref)"

section \<open>Connections\<close>

datatype ConnectionShape =
    ConnectionShapeInvalid | ConnectionShapeStandard | ConnectionShapeZAI
  | ConnectionShapeBedrock | ConnectionShapeCustom

datatype CustomAuth = CustomHeaderAuth (auth_name: string) (auth_credential: Ref)

datatype Connection =
    StandardConnection (conn_provider: string) (std_locator: string) (std_credential: Ref)
  | ZAIConnection (conn_provider: string) (zai_access: string) (zai_credential: Ref)
  | BedrockConnection (conn_provider: string) (bedrock_region: string)
      (bedrock_endpoint: string) (bedrock_credential: "Ref option")
  | CustomConnection (conn_provider: string) (custom_base_url: string)
      (custom_auth: "CustomAuth option")

definition customAuthEqual :: "CustomAuth option \<Rightarrow> CustomAuth option \<Rightarrow> bool" where
  "customAuthEqual l r =
     (case l of
        Some (CustomHeaderAuth n c) \<Rightarrow>
          (case r of
             Some (CustomHeaderAuth n' c') \<Rightarrow> n = n' \<and> ref_String c = ref_String c'
           | None \<Rightarrow> False)
      | None \<Rightarrow> r = None)"

text \<open>\<open>BedrockConnection.Credential\<close>: the zero reference when none is held.\<close>

definition bedrockCredential :: "Ref option \<Rightarrow> Ref" where
  "bedrockCredential c = (case c of None \<Rightarrow> zeroRef | Some r \<Rightarrow> r)"

definition connectionsEqual :: "Connection option \<Rightarrow> Connection option \<Rightarrow> bool" where
  "connectionsEqual l r =
     (case (l, r) of
        (Some (StandardConnection p u c), Some (StandardConnection p' u' c')) \<Rightarrow>
          p = p' \<and> u = u' \<and> ref_String c = ref_String c'
      | (Some (ZAIConnection p a c), Some (ZAIConnection p' a' c')) \<Rightarrow>
          p = p' \<and> a = a' \<and> ref_String c = ref_String c'
      | (Some (BedrockConnection p g e c), Some (BedrockConnection p' g' e' c')) \<Rightarrow>
          p = p' \<and> g = g' \<and> e = e' \<and>
          ref_String (bedrockCredential c) = ref_String (bedrockCredential c')
      | (Some (CustomConnection p u a), Some (CustomConnection p' u' a')) \<Rightarrow>
          p = p' \<and> u = u' \<and> customAuthEqual a a'
      | _ \<Rightarrow> False)"

definition NewStandardConnection ::
    "platform \<Rightarrow> string \<Rightarrow> string \<Rightarrow> string \<Rightarrow> routing_error + Connection" where
  "NewStandardConnection p provider rawLocator rawCredential =
     (let path = ''connection.'' @ provider
      in and_then (if TrimSpace rawLocator \<noteq> [] then ParseURL p (path @ ''.base_url'') rawLocator
                   else Inr [])
           (\<lambda>locator.
         and_then (if TrimSpace rawCredential \<noteq> []
                   then parseCredential p (path @ ''.credential'') rawCredential
                   else Inr zeroRef)
           (\<lambda>credential. Inr (StandardConnection provider locator credential))))"

definition ZAIAccessGeneralAPI :: string where "ZAIAccessGeneralAPI = ''general_api''"
definition ZAIAccessCodingPlan :: string where "ZAIAccessCodingPlan = ''coding_plan''"

definition ZAIAccesses :: "string list" where
  "ZAIAccesses = [ZAIAccessGeneralAPI, ZAIAccessCodingPlan]"

definition ParseZAIAccess :: "string \<Rightarrow> routing_error + string" where
  "ParseZAIAccess raw =
     (let access = TrimSpace raw
      in if access = ZAIAccessGeneralAPI \<or> access = ZAIAccessCodingPlan then Inr access
         else pathError ''connection.zai.access'' (Sprintf ''unsupported access %q'' [raw]))"

definition zaiLabel :: "string \<Rightarrow> string" where
  "zaiLabel a =
     (if a = ZAIAccessGeneralAPI then ''General API''
      else if a = ZAIAccessCodingPlan then ''Coding Plan'' else [])"

definition NewZAIConnection ::
    "platform \<Rightarrow> string \<Rightarrow> string \<Rightarrow> string \<Rightarrow> routing_error + Connection" where
  "NewZAIConnection p provider access raw =
     and_then (ParseZAIAccess access) (\<lambda>normalized.
     and_then (parseCredential p (''connection.'' @ provider @ ''.credential'') raw) (\<lambda>ref.
       Inr (ZAIConnection provider normalized ref)))"

definition zaiBaseURL :: "string \<Rightarrow> string" where
  "zaiBaseURL access =
     (if access = ZAIAccessGeneralAPI then ''https://api.z.ai/api/paas/v4''
      else if access = ZAIAccessCodingPlan then ''https://api.z.ai/api/coding/paas/v4''
      else [])"

text \<open>\<^verbatim>\<open>^[a-z]{2}(?:-gov)?-[a-z]+-\d$\<close>, read off the segments between the dashes.\<close>

definition bedrockRegionPattern :: "string \<Rightarrow> bool" where
  "bedrockRegionPattern s =
     (let tail = (\<lambda>a b c. length a = 2 \<and> list_all (\<lambda>x. x \<in> set lower_letters) a \<and>
            b \<noteq> [] \<and> list_all (\<lambda>x. x \<in> set lower_letters) b \<and>
            length c = 1 \<and> list_all (\<lambda>x. x \<in> set digits) c)
      in case Split s (CHR ''-'') of
           [a, b, c] \<Rightarrow> tail a b c
         | [a, g, b, c] \<Rightarrow> g = ''gov'' \<and> tail a b c
         | _ \<Rightarrow> False)"

definition ParseBedrockRegion :: "string \<Rightarrow> routing_error + string" where
  "ParseBedrockRegion raw =
     (let raw = TrimSpace raw
      in if \<not> bedrockRegionPattern raw
         then pathError ''connection.bedrock.region'' (Text ''invalid AWS region'')
         else Inr raw)"

definition NewBedrockConnection ::
    "platform \<Rightarrow> string \<Rightarrow> string \<Rightarrow> string \<Rightarrow> string \<Rightarrow> routing_error + Connection" where
  "NewBedrockConnection p provider region endpoint rawCredential =
     (if region = []
      then pathError ''connection.bedrock.region'' (Text ''region is required'')
      else let endpoint = TrimSpace endpoint
      in if endpoint = []
         then pathError ''connection.bedrock.endpoint'' (Text ''endpoint is required'')
         else and_then
           (if TrimSpace rawCredential \<noteq> []
            then and_then
              (parseCredential p (''connection.'' @ provider @ ''.credential'') rawCredential)
              (\<lambda>parsed. Inr (Some parsed))
            else Inr None)
           (\<lambda>ref. Inr (BedrockConnection provider region endpoint ref)))"

text \<open>\<^verbatim>\<open>^[!#$%&'*+.^_`|~0-9A-Za-z-]+$\<close>: an HTTP header name.\<close>

definition headerNamePattern :: "string \<Rightarrow> bool" where
  "headerNamePattern s \<longleftrightarrow>
     s \<noteq> [] \<and>
     list_all (\<lambda>c. c \<in> set (alnum @ ''!#$%&*+.^_|~-'' @ [CHR 0x27, CHR 0x60])) s"

definition NewCustomHeaderAuth :: "platform \<Rightarrow> string \<Rightarrow> string \<Rightarrow> routing_error + CustomAuth" where
  "NewCustomHeaderAuth p name raw =
     (let name = TrimSpace name
      in if \<not> headerNamePattern name
         then pathError ''connection.custom.auth.header.name'' (Text ''invalid HTTP header name'')
         else and_then (parseCredential p ''connection.custom.auth.header.credential'' raw)
           (\<lambda>ref. Inr (CustomHeaderAuth name ref)))"

definition NewCustomConnection ::
    "platform \<Rightarrow> string \<Rightarrow> string \<Rightarrow> CustomAuth option \<Rightarrow> routing_error + Connection" where
  "NewCustomConnection p provider baseURL auth =
     and_then (ParseURL p (''connection.'' @ provider @ ''.base_url'') baseURL)
       (\<lambda>u. Inr (CustomConnection provider u auth))"

section \<open>What a constructed connection satisfies\<close>

text \<open>A credential reference that names one of the four supported sources.\<close>

definition supported_ref :: "Ref \<Rightarrow> bool" where
  "supported_ref r \<longleftrightarrow> ref_kind r \<in> {KindEnv, KindFile, KindSecret, KindSecretFile}"

fun auth_ok :: "CustomAuth \<Rightarrow> bool" where
  "auth_ok (CustomHeaderAuth n c) \<longleftrightarrow> headerNamePattern n \<and> supported_ref c"

fun connection_ok :: "Connection \<Rightarrow> bool" where
  "connection_ok (StandardConnection p u c) \<longleftrightarrow> c = zeroRef \<or> supported_ref c"
| "connection_ok (ZAIConnection p a c) \<longleftrightarrow> a \<in> set ZAIAccesses \<and> supported_ref c"
| "connection_ok (BedrockConnection p g e c) \<longleftrightarrow>
     bedrockRegionPattern g \<and> e \<noteq> [] \<and> (\<forall>r. c = Some r \<longrightarrow> supported_ref r)"
| "connection_ok (CustomConnection p u a) \<longleftrightarrow> (\<forall>h. a = Some h \<longrightarrow> auth_ok h)"

fun shape_of :: "Connection \<Rightarrow> ConnectionShape" where
  "shape_of (StandardConnection _ _ _) = ConnectionShapeStandard"
| "shape_of (ZAIConnection _ _ _) = ConnectionShapeZAI"
| "shape_of (BedrockConnection _ _ _ _) = ConnectionShapeBedrock"
| "shape_of (CustomConnection _ _ _) = ConnectionShapeCustom"

lemma classify_empty [simp]: "classify n = KindEmpty \<longleftrightarrow> n = []"
  by (simp add: classify_def)

lemma classify_neq_zero [simp]: "classify n \<noteq> KindZero"
  by (simp add: classify_def)

text \<open>Lower-casing maps each code point to a code point: it never empties a string.\<close>

definition platform_ok :: "platform \<Rightarrow> bool" where
  "platform_ok p \<longleftrightarrow> (\<forall>s. s \<noteq> [] \<longrightarrow> unicode_lower p s \<noteq> [])"

lemma ToLower_nonempty: "platform_ok p \<Longrightarrow> s \<noteq> [] \<Longrightarrow> ToLower p s \<noteq> []"
  unfolding ToLower_def platform_ok_def by (metis map_is_Nil_conv)

lemma parseCredential_accepts:
  assumes "parseCredential p path raw = Inr r"
  shows "r = credentialref_Parse p raw \<and> TrimSpace raw \<noteq> [] \<and> ref_kind r \<noteq> KindOther"
proof -
  obtain b payload found where cut: "Cut (TrimSpace raw) (CHR '':'') = (b, payload, found)"
    by (cases "Cut (TrimSpace raw) (CHR '':'')") auto
  show ?thesis
    using assms unfolding parseCredential_def parseSecretName_def Let_def ref_String_Parse cut
      prod.case
    by (simp split: if_splits Kind.splits)
qed

lemma parseCredential_supported:
  assumes "parseCredential p path raw = Inr r" and "platform_ok p"
  shows "supported_ref r"
proof -
  note acc = parseCredential_accepts [OF assms(1)]
  then have "ToLower p (TrimSpace raw) \<noteq> []" using ToLower_nonempty [OF assms(2)] by blast
  then have "ref_kind r \<noteq> KindEmpty" and "ref_kind r \<noteq> KindZero"
    using acc by (simp_all add: credentialref_Parse_def Let_def)
  with acc show ?thesis by (cases "ref_kind r") (simp_all add: supported_ref_def)
qed

lemma NewStandardConnection_ok:
  assumes "NewStandardConnection p provider loc cred = Inr c" and "platform_ok p"
  shows "connection_ok c \<and> shape_of c = ConnectionShapeStandard \<and> conn_provider c = provider"
  using assms
  by (auto simp: NewStandardConnection_def Let_def result_simps parseCredential_supported
      split: if_splits)

lemma ParseZAIAccess_ok: "ParseZAIAccess raw = Inr a \<Longrightarrow> a \<in> set ZAIAccesses"
  by (auto simp: ParseZAIAccess_def ZAIAccesses_def Let_def split: if_splits)

lemma NewZAIConnection_ok:
  assumes "NewZAIConnection p provider access cred = Inr c" and "platform_ok p"
  shows "connection_ok c \<and> shape_of c = ConnectionShapeZAI \<and> conn_provider c = provider"
  using assms ParseZAIAccess_ok parseCredential_supported
  by (fastforce simp: NewZAIConnection_def result_simps)

lemma ParseBedrockRegion_ok: "ParseBedrockRegion raw = Inr g \<Longrightarrow> bedrockRegionPattern g"
  by (auto simp: ParseBedrockRegion_def Let_def split: if_splits)

lemma NewBedrockConnection_ok:
  assumes "NewBedrockConnection p provider region endpoint cred = Inr c" and "platform_ok p"
    and "bedrockRegionPattern region"
  shows "connection_ok c \<and> shape_of c = ConnectionShapeBedrock \<and> conn_provider c = provider"
  using assms
  by (auto simp: NewBedrockConnection_def Let_def result_simps parseCredential_supported
      split: if_splits)

lemma NewCustomHeaderAuth_ok:
  assumes "NewCustomHeaderAuth p name raw = Inr h" and "platform_ok p"
  shows "auth_ok h"
  using assms
  by (auto simp: NewCustomHeaderAuth_def Let_def result_simps parseCredential_supported
      split: if_splits)

lemma NewCustomConnection_ok:
  assumes "NewCustomConnection p provider url auth = Inr c"
    and "\<And>h. auth = Some h \<Longrightarrow> auth_ok h"
  shows "connection_ok c \<and> shape_of c = ConnectionShapeCustom \<and> conn_provider c = provider"
  using assms by (auto simp: NewCustomConnection_def result_simps)

lemmas connection_constructors_ok =
  NewStandardConnection_ok NewZAIConnection_ok NewBedrockConnection_ok NewCustomConnection_ok

section \<open>Equality of durable configuration\<close>

lemma customAuthEqual_refl [simp]: "customAuthEqual a a"
  by (auto simp: customAuthEqual_def split: option.split CustomAuth.split)

lemma connectionsEqual_refl [simp]: "connectionsEqual (Some c) (Some c)"
  by (cases c) (simp_all add: connectionsEqual_def)

lemma connectionsEqual_None [simp]:
  "\<not> connectionsEqual None r" "\<not> connectionsEqual l None"
  by (auto simp: connectionsEqual_def split: option.split Connection.split)

text \<open>
  The durable identity of a connection: its shape and the fields that are compared, with
  credentials in their printed form.
\<close>

fun durable :: "Connection \<Rightarrow> ConnectionShape \<times> string list \<times> (string \<times> string) option" where
  "durable (StandardConnection p u c) = (ConnectionShapeStandard, [p, u, ref_String c], None)"
| "durable (ZAIConnection p a c) = (ConnectionShapeZAI, [p, a, ref_String c], None)"
| "durable (BedrockConnection p g e c) =
     (ConnectionShapeBedrock, [p, g, e, ref_String (bedrockCredential c)], None)"
| "durable (CustomConnection p u a) =
     (ConnectionShapeCustom, [p, u],
      map_option (\<lambda>h. (auth_name h, ref_String (auth_credential h))) a)"

lemma customAuthEqual_iff:
  "customAuthEqual a b \<longleftrightarrow>
     map_option (\<lambda>h. (auth_name h, ref_String (auth_credential h))) a =
     map_option (\<lambda>h. (auth_name h, ref_String (auth_credential h))) b"
proof (cases a)
  case (Some h)
  then show ?thesis by (cases h; cases b) (auto simp: customAuthEqual_def split: CustomAuth.split)
qed (simp add: customAuthEqual_def)

lemma connectionsEqual_iff: "connectionsEqual (Some l) (Some r) \<longleftrightarrow> durable l = durable r"
  by (cases l; cases r) (simp_all add: connectionsEqual_def customAuthEqual_iff)

end
