(* ===== verification/Routing_Model.thy ===== *)
theory Routing_Model
  imports Routing_Connection
begin

text \<open>
  The routing aggregate (\<^verbatim>\<open>src/internal/routing/model.go\<close>): identifiers, targets, tiers,
  routes, workspaces and the configuration, with their constructors and validation.
  The single-field wrapper structs (\<open>WorkspaceSlug\<close>, \<open>RouteName\<close>, \<open>TargetID\<close>,
  \<open>UpstreamModel\<close>, \<open>URL\<close>) are their field; the zero value is the empty string. Values
  are immutable here, so the \<open>clone\<close> methods of the source, which copy slices and maps,
  are the identity.
\<close>

section \<open>Identifiers\<close>

definition PublicDefaultRouteID :: string where "PublicDefaultRouteID = ''default''"

text \<open>\<^verbatim>\<open>^[a-z0-9](?:[a-z0-9-]{0,61}[a-z0-9])?$\<close>\<close>

definition workspaceSlugPattern :: "string \<Rightarrow> bool" where
  "workspaceSlugPattern s \<longleftrightarrow>
     s \<noteq> [] \<and> length s \<le> 63 \<and> hd s \<in> set (lower_letters @ digits) \<and>
     last s \<in> set (lower_letters @ digits) \<and>
     list_all (\<lambda>c. c \<in> set (lower_letters @ digits @ ''-'')) s"

text \<open>\<^verbatim>\<open>^[A-Za-z0-9][A-Za-z0-9._-]{0,127}$\<close>\<close>

definition commandIDPattern :: "string \<Rightarrow> bool" where
  "commandIDPattern s \<longleftrightarrow>
     s \<noteq> [] \<and> length s \<le> 128 \<and> hd s \<in> set alnum \<and>
     list_all (\<lambda>c. c \<in> set (alnum @ ''._-'')) (tl s)"

definition ParseWorkspaceSlug :: "string \<Rightarrow> routing_error + string" where
  "ParseWorkspaceSlug raw =
     (let raw = TrimSpace raw
      in if \<not> workspaceSlugPattern raw
         then pathError ''workspace.slug'' (Text ''must be a lowercase path slug'')
         else Inr raw)"

definition ParseRouteName :: "string \<Rightarrow> routing_error + string" where
  "ParseRouteName raw =
     (if raw \<noteq> TrimSpace raw \<or> \<not> commandIDPattern raw \<or> raw = ''.'' \<or> raw = ''..''
      then pathError ''route.name'' (Text ''must be a URL-safe command identifier'')
      else if raw = PublicDefaultRouteID
      then pathError ''route.name''
        (Sprintf ''%q is reserved for default-route selection'' [PublicDefaultRouteID])
      else Inr raw)"

definition ParseTargetID :: "string \<Rightarrow> routing_error + string" where
  "ParseTargetID raw =
     (if raw \<noteq> TrimSpace raw \<or> \<not> commandIDPattern raw \<or> raw = ''.'' \<or> raw = ''..''
      then pathError ''target.id'' (Text ''must be a URL-safe command identifier'')
      else Inr raw)"

definition ParseUpstreamModel :: "string \<Rightarrow> routing_error + string" where
  "ParseUpstreamModel raw =
     (let raw = TrimSpace raw
      in if raw = [] then pathError ''target.model'' (Text ''upstream model is required'')
         else Inr raw)"

text \<open>The catalog predicates are functions that may be nil.\<close>

type_synonym ProviderSupport = "(string \<Rightarrow> bool) option"
type_synonym ProtocolSupport = "(string \<Rightarrow> string \<Rightarrow> bool) option"

definition ParseProvider :: "string \<Rightarrow> ProviderSupport \<Rightarrow> routing_error + string" where
  "ParseProvider raw supports =
     (let raw = TrimSpace raw
      in if raw = [] \<or> (case supports of None \<Rightarrow> True | Some f \<Rightarrow> \<not> f raw)
         then pathError ''connection.provider'' (Text ''provider is unsupported'')
         else Inr raw)"

record Protocol =
  protocol_value :: string
  protocol_provider :: string

definition ParseProtocol :: "string \<Rightarrow> string \<Rightarrow> ProtocolSupport \<Rightarrow> routing_error + Protocol" where
  "ParseProtocol raw provider supports =
     (let raw = TrimSpace raw
      in if raw = []
         then pathError ''target.protocol'' (Text ''a concrete protocol is required'')
         else if (case supports of None \<Rightarrow> True | Some f \<Rightarrow> \<not> f provider raw)
         then pathError ''target.protocol''
           (Sprintf ''protocol %q is unsupported for provider %q'' [raw, provider])
         else Inr \<lparr>protocol_value = raw, protocol_provider = provider\<rparr>)"

section \<open>Targets, tiers and routes\<close>

type_synonym TargetVersion = "64 word"

definition initialTargetVersion :: TargetVersion where "initialTargetVersion = 1"

record Target =
  target_id :: string
  target_version :: TargetVersion
  target_model :: string
  target_protocol :: Protocol
  target_connection :: "Connection option"

definition zeroTarget :: Target where
  "zeroTarget = \<lparr>target_id = [], target_version = 0, target_model = [],
     target_protocol = \<lparr>protocol_value = [], protocol_provider = []\<rparr>, target_connection = None\<rparr>"

definition target_validate :: "Target \<Rightarrow> routing_error + unit" where
  "target_validate t =
     (if target_id t = [] then pathError ''target.id'' (Text ''target ID is required'')
      else if target_version t = 0
      then pathError ''target.version'' (Text ''target version is required'')
      else if target_model t = []
      then pathError ''target.model'' (Text ''upstream model is required'')
      else if protocol_value (target_protocol t) = []
      then pathError ''target.protocol'' (Text ''concrete protocol is required'')
      else case target_connection t of
             None \<Rightarrow> pathError ''target.connection''
               (Text ''exactly one connection variant is required'')
           | Some c \<Rightarrow>
               if conn_provider c = []
               then pathError ''target.connection''
                 (Text ''exactly one connection variant is required'')
               else if protocol_provider (target_protocol t) \<noteq> conn_provider c
               then pathError ''target.protocol''
                 (Sprintf ''provider %q contradicts connection provider %q''
                   [protocol_provider (target_protocol t), conn_provider c])
               else Inr ())"

definition RestoreTarget ::
    "string \<Rightarrow> TargetVersion \<Rightarrow> string \<Rightarrow> Protocol \<Rightarrow> Connection option \<Rightarrow> routing_error + Target" where
  "RestoreTarget tid version model protocol connection =
     (let target = \<lparr>target_id = tid, target_version = version, target_model = model,
            target_protocol = protocol, target_connection = connection\<rparr>
      in and_then (target_validate target) (\<lambda>_. Inr target))"

definition NewTarget ::
    "string \<Rightarrow> string \<Rightarrow> Protocol \<Rightarrow> Connection option \<Rightarrow> routing_error + Target" where
  "NewTarget tid model protocol connection =
     (let target = \<lparr>target_id = tid, target_version = initialTargetVersion, target_model = model,
            target_protocol = protocol, target_connection = connection\<rparr>
      in and_then (target_validate target) (\<lambda>_. Inr target))"

type_synonym Tier = "Target list"

text \<open>The loop over targets that both \<open>NewTier\<close> and \<open>Route.validate\<close> run, with the IDs seen.\<close>

fun admit_targets :: "string \<Rightarrow> string list \<Rightarrow> Target list \<Rightarrow> routing_error + string list" where
  "admit_targets path seen [] = Inr seen"
| "admit_targets path seen (t # ts) =
     and_then (target_validate t) (\<lambda>_.
       if target_id t \<in> set seen
       then pathError path (Text (''duplicate target ID '' @ target_id t))
       else admit_targets path (target_id t # seen) ts)"

definition NewTier :: "Target list \<Rightarrow> routing_error + Tier" where
  "NewTier targets =
     (if targets = [] then pathError ''tier.targets'' (Text ''tier must contain a target'')
      else and_then (admit_targets ''tier.targets'' [] targets) (\<lambda>_. Inr targets))"

record Route =
  route_name :: string
  route_tiers :: "Tier list"

definition zeroRoute :: Route where
  "zeroRoute = \<lparr>route_name = [], route_tiers = []\<rparr>"

fun admit_tiers :: "string \<Rightarrow> nat \<Rightarrow> string list \<Rightarrow> Tier list \<Rightarrow> routing_error + string list" where
  "admit_tiers name i seen [] = Inr seen"
| "admit_tiers name i seen (tier # tiers) =
     (if tier = []
      then pathError (''routes.'' @ name @ ''.tiers['' @ decimal i @ ''].targets'')
        (Text ''tier must contain a target'')
      else and_then (admit_targets (''routes.'' @ name @ ''.targets'') seen tier) (\<lambda>seen'.
        admit_tiers name (Suc i) seen' tiers))"

definition route_validate :: "Route \<Rightarrow> routing_error + unit" where
  "route_validate r =
     (if route_name r = [] then pathError ''route.name'' (Text ''route name is required'')
      else if route_tiers r = []
      then pathError (''routes.'' @ route_name r @ ''.tiers'') (Text ''route must contain a tier'')
      else and_then (admit_tiers (route_name r) 0 [] (route_tiers r)) (\<lambda>_. Inr ()))"

definition NewRoute :: "string \<Rightarrow> Tier list \<Rightarrow> routing_error + Route" where
  "NewRoute name tiers =
     (let route = \<lparr>route_name = name, route_tiers = tiers\<rparr>
      in and_then (route_validate route) (\<lambda>_. Inr route))"

text \<open>All targets of a route, in fallback order.\<close>

definition route_targets :: "Route \<Rightarrow> Target list" where
  "route_targets r = concat (route_tiers r)"

section \<open>Workspaces and the configuration\<close>

record Workspace =
  ws_slug :: string
  ws_default :: string
  ws_routes :: "(string \<times> Route) list"
  ws_generations :: "(string \<times> TargetVersion) list"

type_synonym Config = "(string \<times> Workspace) list"

text \<open>The innermost loop of \<open>Workspace.validate\<close>: the target IDs seen so far and their routes.\<close>

fun claim_targets ::
    "string \<Rightarrow> string \<Rightarrow> (string \<times> string) list \<Rightarrow> Target list \<Rightarrow> routing_error + (string \<times> string) list" where
  "claim_targets slug name seen [] = Inr seen"
| "claim_targets slug name seen (t # ts) =
     (case map_of seen (target_id t) of
        Some previous \<Rightarrow>
          pathError (''workspaces.'' @ slug @ ''.routes.'' @ name @ ''.targets'')
            (Sprintf ''target ID %q duplicates route %q'' [target_id t, previous])
      | None \<Rightarrow> claim_targets slug name (AList.update (target_id t) name seen) ts)"

fun validate_routes ::
    "string \<Rightarrow> (string \<times> string) list \<Rightarrow> (string \<times> Route) list \<Rightarrow> routing_error + unit" where
  "validate_routes slug seen [] = Inr ()"
| "validate_routes slug seen ((name, route) # rs) =
     (if name \<noteq> route_name route
      then pathError (''workspaces.'' @ slug @ ''.routes'')
        (Text ''route key does not match route name'')
      else and_then (route_validate route) (\<lambda>_.
        and_then (claim_targets slug name seen (route_targets route)) (\<lambda>seen'.
          validate_routes slug seen' rs)))"

definition workspace_validate :: "Workspace \<Rightarrow> routing_error + unit" where
  "workspace_validate w =
     (if ws_slug w = [] then pathError ''workspace.slug'' (Text ''workspace slug is required'')
      else if ws_routes w = []
      then pathError (''workspaces.'' @ ws_slug w @ ''.routes'')
        (Text ''persisted workspace must contain a route'')
      else if map_of (ws_routes w) (ws_default w) = None
      then pathError (''workspaces.'' @ ws_slug w @ ''.default_route'')
        (Text ''must name an existing route'')
      else validate_routes (ws_slug w) [] (ws_routes w))"

fun copy_generations ::
    "(string \<times> TargetVersion) list \<Rightarrow> (string \<times> TargetVersion) list \<Rightarrow>
     routing_error + (string \<times> TargetVersion) list" where
  "copy_generations acc [] = Inr acc"
| "copy_generations acc ((tid, version) # gs) =
     (if tid = [] \<or> version = 0
      then pathError ''workspace.target_generations''
        (Text ''target ID and generation must be valid'')
      else copy_generations (AList.update tid version acc) gs)"

fun record_targets ::
    "(string \<times> TargetVersion) list \<Rightarrow> Target list \<Rightarrow> routing_error + (string \<times> TargetVersion) list" where
  "record_targets g [] = Inr g"
| "record_targets g (t # ts) =
     (case map_of g (target_id t) of
        Some previous \<Rightarrow>
          if previous \<noteq> target_version t
          then pathError (''workspace.target_generations.'' @ target_id t)
            (Text ''must equal the active target version'')
          else record_targets (AList.update (target_id t) (target_version t) g) ts
      | None \<Rightarrow> record_targets (AList.update (target_id t) (target_version t) g) ts)"

fun record_routes ::
    "(string \<times> Route) list \<Rightarrow> (string \<times> TargetVersion) list \<Rightarrow> Route list \<Rightarrow>
     routing_error + (string \<times> Route) list \<times> (string \<times> TargetVersion) list" where
  "record_routes m g [] = Inr (m, g)"
| "record_routes m g (r # rs) =
     (if map_of m (route_name r) \<noteq> None
      then pathError (''workspace.routes.'' @ route_name r) (Text ''duplicate route'')
      else and_then (record_targets g (route_targets r)) (\<lambda>g'.
        record_routes (AList.update (route_name r) r m) g' rs))"

definition RestoreWorkspace ::
    "string \<Rightarrow> string \<Rightarrow> Route list \<Rightarrow> (string \<times> TargetVersion) list \<Rightarrow> routing_error + Workspace" where
  "RestoreWorkspace slug defaultRoute routes generations =
     and_then (copy_generations [] generations) (\<lambda>g.
     and_then (record_routes [] g routes) (\<lambda>(m, g').
       let workspace = \<lparr>ws_slug = slug, ws_default = defaultRoute, ws_routes = m,
             ws_generations = g'\<rparr>
       in and_then (workspace_validate workspace) (\<lambda>_. Inr workspace)))"

definition NewWorkspace :: "string \<Rightarrow> string \<Rightarrow> Route list \<Rightarrow> routing_error + Workspace" where
  "NewWorkspace slug defaultRoute routes = RestoreWorkspace slug defaultRoute routes []"

fun add_workspaces :: "Config \<Rightarrow> Workspace list \<Rightarrow> routing_error + Config" where
  "add_workspaces c [] = Inr c"
| "add_workspaces c (w # ws) =
     and_then (workspace_validate w) (\<lambda>_.
       if map_of c (ws_slug w) \<noteq> None
       then pathError (''workspaces.'' @ ws_slug w) (Text ''duplicate workspace'')
       else add_workspaces (AList.update (ws_slug w) w c) ws)"

definition NewConfig :: "Workspace list \<Rightarrow> routing_error + Config" where
  "NewConfig workspaces = add_workspaces [] workspaces"

definition Workspaces :: "Config \<Rightarrow> Workspace list" where
  "Workspaces c = map snd c"

definition Routes :: "Workspace \<Rightarrow> Route list" where
  "Routes w = map snd (ws_routes w)"

definition lookup_route :: "Workspace \<Rightarrow> string \<Rightarrow> Route" where
  "lookup_route w name = (case map_of (ws_routes w) name of None \<Rightarrow> zeroRoute | Some r \<Rightarrow> r)"

definition ResolveRoute :: "Workspace \<Rightarrow> string \<Rightarrow> routing_error + Route" where
  "ResolveRoute w requested =
     (if TrimSpace requested = [] then Inl ErrEmptyRequestedRoute
      else if requested = PublicDefaultRouteID then Inr (lookup_route w (ws_default w))
      else case ParseRouteName requested of
             Inr name \<Rightarrow>
               (case map_of (ws_routes w) name of
                  Some route \<Rightarrow> Inr route
                | None \<Rightarrow> Inr (lookup_route w (ws_default w)))
           | Inl _ \<Rightarrow> Inr (lookup_route w (ws_default w)))"

section \<open>Well-formedness\<close>

definition target_ok :: "Target \<Rightarrow> bool" where
  "target_ok t \<longleftrightarrow>
     target_id t \<noteq> [] \<and> target_version t \<noteq> 0 \<and> target_model t \<noteq> [] \<and>
     protocol_value (target_protocol t) \<noteq> [] \<and>
     (\<exists>c. target_connection t = Some c \<and> conn_provider c \<noteq> [] \<and>
        protocol_provider (target_protocol t) = conn_provider c)"

definition tier_ok :: "Tier \<Rightarrow> bool" where
  "tier_ok ts \<longleftrightarrow> ts \<noteq> [] \<and> (\<forall>t \<in> set ts. target_ok t) \<and> distinct (map target_id ts)"

definition route_ok :: "Route \<Rightarrow> bool" where
  "route_ok r \<longleftrightarrow>
     route_name r \<noteq> [] \<and> route_tiers r \<noteq> [] \<and> [] \<notin> set (route_tiers r) \<and>
     (\<forall>t \<in> set (route_targets r). target_ok t) \<and> distinct (map target_id (route_targets r))"

definition routes_ids :: "(string \<times> Route) list \<Rightarrow> string list" where
  "routes_ids rs = concat (map (\<lambda>(_, r). map target_id (route_targets r)) rs)"

definition workspace_ok :: "Workspace \<Rightarrow> bool" where
  "workspace_ok w \<longleftrightarrow>
     ws_slug w \<noteq> [] \<and> ws_routes w \<noteq> [] \<and> ws_default w \<in> fst ` set (ws_routes w) \<and>
     (\<forall>(n, r) \<in> set (ws_routes w). n = route_name r \<and> route_ok r) \<and>
     distinct (routes_ids (ws_routes w))"

text \<open>The generation ledger covers every active target with its version.\<close>

definition ledger_ok :: "Workspace \<Rightarrow> bool" where
  "ledger_ok w \<longleftrightarrow>
     gomap (ws_routes w) \<and> gomap (ws_generations w) \<and>
     (\<forall>(i, v) \<in> set (ws_generations w). i \<noteq> [] \<and> v \<noteq> 0) \<and>
     (\<forall>r \<in> snd ` set (ws_routes w). \<forall>t \<in> set (route_targets r).
        map_of (ws_generations w) (target_id t) = Some (target_version t))"

definition config_ok :: "Config \<Rightarrow> bool" where
  "config_ok c \<longleftrightarrow> gomap c \<and> (\<forall>(s, w) \<in> set c. s = ws_slug w \<and> workspace_ok w \<and> ledger_ok w)"

section \<open>Validation decides well-formedness\<close>

lemma target_validate_iff [result_simps]: "target_validate t = Inr u \<longleftrightarrow> target_ok t"
  by (auto simp: target_validate_def target_ok_def split: option.splits if_splits)

lemma admit_targets_iff:
  "admit_targets path seen ts = Inr seen' \<longleftrightarrow>
     (\<forall>t \<in> set ts. target_ok t) \<and> distinct (map target_id ts) \<and>
     set (map target_id ts) \<inter> set seen = {} \<and> seen' = rev (map target_id ts) @ seen"
proof (induction ts arbitrary: seen)
  case (Cons t ts)
  then show ?case by (auto simp: result_simps)
qed auto

lemma admit_tiers_iff:
  "admit_tiers name i seen tiers = Inr seen' \<longleftrightarrow>
     [] \<notin> set tiers \<and> (\<forall>t \<in> set (concat tiers). target_ok t) \<and>
     distinct (map target_id (concat tiers)) \<and>
     set (map target_id (concat tiers)) \<inter> set seen = {} \<and>
     seen' = rev (map target_id (concat tiers)) @ seen"
proof (induction tiers arbitrary: i seen)
  case (Cons tier tiers)
  define xs where "xs = map target_id tier"
  define ys where "ys = map target_id (concat tiers)"
  show ?case
    unfolding admit_tiers.simps result_simps admit_targets_iff Cons.IH concat.simps map_append
    by (fold xs_def ys_def) auto
qed auto

lemma route_validate_iff [result_simps]: "route_validate r = Inr u \<longleftrightarrow> route_ok r"
  by (auto simp: route_validate_def route_ok_def route_targets_def result_simps admit_tiers_iff)

lemma NewRoute_iff [result_simps]:
  "NewRoute name tiers = Inr r \<longleftrightarrow>
     r = \<lparr>route_name = name, route_tiers = tiers\<rparr> \<and> route_ok r"
  by (auto simp: NewRoute_def Let_def result_simps)

lemma NewTier_iff [result_simps]: "NewTier ts = Inr tier \<longleftrightarrow> tier = ts \<and> tier_ok ts"
  by (auto simp: NewTier_def tier_ok_def result_simps admit_targets_iff)

lemma RestoreTarget_iff [result_simps]:
  "RestoreTarget tid v m pr cn = Inr t \<longleftrightarrow>
     t = \<lparr>target_id = tid, target_version = v, target_model = m, target_protocol = pr,
       target_connection = cn\<rparr> \<and> target_ok t"
  by (auto simp: RestoreTarget_def Let_def result_simps)

lemma NewTarget_Restore: "NewTarget tid m pr cn = RestoreTarget tid initialTargetVersion m pr cn"
  by (simp add: NewTarget_def RestoreTarget_def)

lemma claim_targets_iff:
  "claim_targets slug name seen ts = Inr seen' \<longleftrightarrow>
     distinct (map target_id ts) \<and> set (map target_id ts) \<inter> fst ` set seen = {} \<and>
     seen' = fold (\<lambda>t. AList.update (target_id t) name) ts seen"
proof (induction ts arbitrary: seen)
  case (Cons t ts)
  show ?case
  proof (cases "map_of seen (target_id t)")
    case None
    then have "target_id t \<notin> fst ` set seen" by (simp add: map_of_eq_None_iff)
    with None show ?thesis by (auto simp: Cons.IH dom_update)
  next
    case (Some p)
    then have "target_id t \<in> fst ` set seen" by (force dest: map_of_SomeD)
    with Some show ?thesis by auto
  qed
qed auto

lemma claimed_ids:
  "fst ` set (fold (\<lambda>t. AList.update (target_id t) name) ts seen) =
     fst ` set seen \<union> set (map target_id ts)"
  by (induction ts arbitrary: seen) (auto simp: dom_update)

lemma validate_routes_iff:
  "validate_routes slug seen rs = Inr () \<longleftrightarrow>
     (\<forall>(n, r) \<in> set rs. n = route_name r \<and> route_ok r) \<and> distinct (routes_ids rs) \<and>
     set (routes_ids rs) \<inter> fst ` set seen = {}"
proof (induction rs arbitrary: seen)
  case (Cons nr rs)
  obtain n r where nr: "nr = (n, r)" by (cases nr)
  define xs where "xs = map target_id (route_targets r)"
  have ids: "routes_ids (nr # rs) = xs @ routes_ids rs" by (simp add: nr routes_ids_def xs_def)
  show ?case
    unfolding nr ids [unfolded nr] validate_routes.simps result_simps claim_targets_iff
      and_then_Inr
    by (fold xs_def) (auto simp: Cons.IH claimed_ids simp flip: xs_def)
qed (simp add: routes_ids_def)

lemma workspace_validate_iff [result_simps]: "workspace_validate w = Inr u \<longleftrightarrow> workspace_ok w"
  by (auto simp: workspace_validate_def workspace_ok_def validate_routes_iff result_simps
      map_of_eq_None_iff)

section \<open>Concrete targets\<close>

definition sample_target :: "string \<Rightarrow> TargetVersion \<Rightarrow> string \<Rightarrow> Target" where
  "sample_target i v model = \<lparr>target_id = i, target_version = v, target_model = model,
     target_protocol = \<lparr>protocol_value = ''responses'', protocol_provider = ''openai''\<rparr>,
     target_connection = Some (StandardConnection ''openai'' ''https://api.openai.com/v1''
       \<lparr>ref_raw = ''env:KEY'', ref_norm = ''env:key'', ref_kind = KindEnv\<rparr>)\<rparr>"

definition sample_route :: "string \<Rightarrow> Target \<Rightarrow> string \<times> Route" where
  "sample_route n t = (n, \<lparr>route_name = n, route_tiers = [[t]]\<rparr>)"

lemma sample_target_simps [simp]:
  "target_id (sample_target i v m) = i" "target_version (sample_target i v m) = v"
  "i \<noteq> [] \<Longrightarrow> v \<noteq> 0 \<Longrightarrow> m \<noteq> [] \<Longrightarrow> target_ok (sample_target i v m)"
  by (simp_all add: sample_target_def target_ok_def)

end
