(* ===== verification/Routing_Reconcile.thy ===== *)
theory Routing_Reconcile
  imports Routing_Model
begin

text \<open>
  Route reconciliation (\<^verbatim>\<open>src/internal/routing/reconcile.go\<close> and \<open>TargetSettings\<close> of
  \<^verbatim>\<open>edit.go\<close>): a complete desired route is materialized against the current one. Targets
  match by identifier; a changed backend configuration advances the version once.
\<close>

record TargetSettings =
  set_model :: string
  set_protocol :: Protocol
  set_connection :: "Connection option"

definition settingsEqual :: "TargetSettings \<Rightarrow> TargetSettings \<Rightarrow> bool" where
  "settingsEqual s other \<longleftrightarrow>
     set_model s = set_model other \<and> set_protocol s = set_protocol other \<and>
     connectionsEqual (set_connection s) (set_connection other)"

record TargetSpec =
  spec_id :: string
  spec_settings :: TargetSettings

type_synonym TierSpec = "TargetSpec list"
type_synonym RouteSpec = "TierSpec list"

definition settings_of :: "Target \<Rightarrow> TargetSettings" where
  "settings_of t = \<lparr>set_model = target_model t, set_protocol = target_protocol t,
     set_connection = target_connection t\<rparr>"

definition target_spec :: "Target \<Rightarrow> TargetSpec" where
  "target_spec t = \<lparr>spec_id = target_id t, spec_settings = settings_of t\<rparr>"

definition Spec :: "Route \<Rightarrow> RouteSpec" where
  "Spec r = map (map target_spec) (route_tiers r)"

text \<open>\<open>^TargetVersion(0)\<close>, the largest version.\<close>

definition maxVersion :: TargetVersion where "maxVersion = - 1"

definition targetFromSpec ::
    "TargetSpec \<Rightarrow> Target \<Rightarrow> TargetVersion \<Rightarrow> routing_error + Target" where
  "targetFromSpec spec current highest =
     and_then (NewTarget (spec_id spec) (set_model (spec_settings spec))
         (set_protocol (spec_settings spec)) (set_connection (spec_settings spec)))
       (\<lambda>target.
         if target_id current = [] then
           if highest = maxVersion
           then pathError ''target.version'' (Text ''target version exhausted'')
           else if highest > 0 then Inr (target\<lparr>target_version := highest + 1\<rparr>)
           else Inr target
         else if settingsEqual (settings_of current) (spec_settings spec)
         then Inr (target\<lparr>target_version := target_version current\<rparr>)
         else if target_version current = maxVersion
         then pathError ''target.version'' (Text ''target version exhausted'')
         else Inr (target\<lparr>target_version := target_version current + 1\<rparr>))"

text \<open>Go's map reads: the zero value for a missing key.\<close>

definition get_target :: "(string \<times> Target) list \<Rightarrow> string \<Rightarrow> Target" where
  "get_target m i = (case map_of m i of None \<Rightarrow> zeroTarget | Some t \<Rightarrow> t)"

definition get_version :: "(string \<times> TargetVersion) list \<Rightarrow> string \<Rightarrow> TargetVersion" where
  "get_version m i = (case map_of m i of None \<Rightarrow> 0 | Some v \<Rightarrow> v)"

definition existing_targets :: "Route \<Rightarrow> (string \<times> Target) list" where
  "existing_targets r = fold (\<lambda>t. AList.update (target_id t) t) (route_targets r) []"

definition route_history :: "Route \<Rightarrow> (string \<times> TargetVersion) list" where
  "route_history r =
     fold (\<lambda>t. AList.update (target_id t) (target_version t)) (route_targets r) []"

fun apply_targets ::
    "string \<Rightarrow> (string \<times> Target) list \<Rightarrow> (string \<times> TargetVersion) list \<Rightarrow> nat \<Rightarrow> string list \<Rightarrow>
     TargetSpec list \<Rightarrow> routing_error + string list \<times> Target list" where
  "apply_targets path existing history j seen [] = Inr (seen, [])"
| "apply_targets path existing history j seen (spec # specs) =
     (let targetPath = path @ ''['' @ decimal j @ '']''
      in if spec_id spec = []
         then pathError (targetPath @ ''.id'') (Text ''target ID is required'')
         else if spec_id spec \<in> set seen
         then pathError (targetPath @ ''.id'')
           (Text (''duplicate target ID '' @ spec_id spec))
         else and_then
           (targetFromSpec spec (get_target existing (spec_id spec))
             (get_version history (spec_id spec)))
           (\<lambda>target. and_then
             (apply_targets path existing history (Suc j) (spec_id spec # seen) specs)
             (\<lambda>(seen', targets). Inr (seen', target # targets))))"

fun apply_tiers ::
    "string \<Rightarrow> (string \<times> Target) list \<Rightarrow> (string \<times> TargetVersion) list \<Rightarrow> nat \<Rightarrow> string list \<Rightarrow>
     TierSpec list \<Rightarrow> routing_error + Tier list" where
  "apply_tiers name existing history i seen [] = Inr []"
| "apply_tiers name existing history i seen (tierSpec # tierSpecs) =
     (let path = ''routes.'' @ name @ ''.tiers['' @ decimal i @ ''].targets''
      in if tierSpec = [] then pathError path (Text ''tier must contain a target'')
         else and_then (apply_targets path existing history 0 seen tierSpec)
           (\<lambda>(seen', targets). and_then (NewTier targets)
             (\<lambda>tier. and_then (apply_tiers name existing history (Suc i) seen' tierSpecs)
               (\<lambda>tiers. Inr (tier # tiers)))))"

definition applyRouteSpec ::
    "Route \<Rightarrow> RouteSpec \<Rightarrow> (string \<times> TargetVersion) list \<Rightarrow> routing_error + Route" where
  "applyRouteSpec current desired history =
     (if route_name current = []
      then pathError ''route.name'' (Text ''route name is required'')
      else if desired = []
      then pathError (''routes.'' @ route_name current @ ''.tiers'')
        (Text ''route must contain a tier'')
      else and_then
        (apply_tiers (route_name current) (existing_targets current) history 0 [] desired)
        (\<lambda>tiers. NewRoute (route_name current) tiers))"

definition ApplyRouteSpec :: "Route \<Rightarrow> RouteSpec \<Rightarrow> routing_error + Route" where
  "ApplyRouteSpec current desired = applyRouteSpec current desired (route_history current)"

section \<open>Version arithmetic\<close>

lemma unat_next_version: "v \<noteq> maxVersion \<Longrightarrow> unat (v + 1) = unat v + 1"
proof -
  assume "v \<noteq> maxVersion"
  then have "1 + v \<noteq> 0" unfolding maxVersion_def by (metis add.commute eq_neg_iff_add_eq_0)
  then show ?thesis by (simp add: unatSuc add.commute)
qed

lemma word_pos_iff: "(v :: TargetVersion) > 0 \<longleftrightarrow> v \<noteq> 0"
  by (simp add: word_gt_0)

section \<open>Settings\<close>

lemma settingsEqual_durable:
  assumes "settingsEqual s u"
  shows "set_model s = set_model u \<and> set_protocol s = set_protocol u \<and>
    map_option durable (set_connection s) = map_option durable (set_connection u)"
proof -
  obtain c d where "set_connection s = Some c" "set_connection u = Some d"
    using assms connectionsEqual_None unfolding settingsEqual_def by (metis not_None_eq)
  with assms show ?thesis by (simp add: settingsEqual_def connectionsEqual_iff)
qed

text \<open>The effective configuration that a target version identifies.\<close>

definition effective :: "Target \<Rightarrow>
    string \<times> Protocol \<times> (ConnectionShape \<times> string list \<times> (string \<times> string) option) option" where
  "effective t = (target_model t, target_protocol t, map_option durable (target_connection t))"

lemma settingsEqual_effective:
  "settingsEqual (settings_of t) (settings_of u) \<Longrightarrow> effective t = effective u"
  using settingsEqual_durable by (fastforce simp: effective_def settings_of_def)

lemma settingsEqual_refl: "target_ok t \<Longrightarrow> settingsEqual (settings_of t) (settings_of t)"
  by (auto simp: settingsEqual_def settings_of_def target_ok_def)

section \<open>One target\<close>

text \<open>The target that a specification describes, at a version.\<close>

definition target_at :: "TargetSpec \<Rightarrow> TargetVersion \<Rightarrow> Target" where
  "target_at spec v = \<lparr>target_id = spec_id spec, target_version = v,
     target_model = set_model (spec_settings spec),
     target_protocol = set_protocol (spec_settings spec),
     target_connection = set_connection (spec_settings spec)\<rparr>"

lemma target_at_simps [simp]:
  "target_id (target_at spec v) = spec_id spec" "target_version (target_at spec v) = v"
  "settings_of (target_at spec v) = spec_settings spec"
  "target_at spec v\<lparr>target_version := w\<rparr> = target_at spec w"
  by (simp_all add: target_at_def settings_of_def)

lemma target_at_spec: "target_at (target_spec t) (target_version t) = t"
  by (simp add: target_at_def target_spec_def settings_of_def)

lemma target_ok_version: "v \<noteq> 0 \<Longrightarrow> w \<noteq> 0 \<Longrightarrow> target_ok (target_at spec v) \<longleftrightarrow> target_ok (target_at spec w)"
  by (simp add: target_ok_def target_at_def)

lemma NewTarget_at [result_simps]:
  "NewTarget (spec_id spec) (set_model (spec_settings spec)) (set_protocol (spec_settings spec))
      (set_connection (spec_settings spec)) = Inr t \<longleftrightarrow>
     t = target_at spec initialTargetVersion \<and> target_ok t"
  by (auto simp: NewTarget_Restore RestoreTarget_iff target_at_def)

text \<open>The version rule of reconciliation.\<close>

definition next_version :: "TargetSpec \<Rightarrow> Target \<Rightarrow> TargetVersion \<Rightarrow> TargetVersion option" where
  "next_version spec current highest =
     (if target_id current = [] then (if highest = maxVersion then None else Some (highest + 1))
      else if settingsEqual (settings_of current) (spec_settings spec)
      then Some (target_version current)
      else if target_version current = maxVersion then None
      else Some (target_version current + 1))"

lemma targetFromSpec_iff:
  "targetFromSpec spec current highest = Inr t \<longleftrightarrow>
     target_ok (target_at spec initialTargetVersion) \<and>
     (\<exists>v. next_version spec current highest = Some v \<and> t = target_at spec v)"
  by (auto simp: targetFromSpec_def next_version_def result_simps initialTargetVersion_def
      word_pos_iff split: if_splits)

lemma next_version_nonzero:
  assumes "next_version spec current highest = Some v"
    and "target_id current \<noteq> [] \<Longrightarrow> target_version current \<noteq> 0"
  shows "v \<noteq> 0"
proof -
  have "w + 1 \<noteq> 0" if "w \<noteq> maxVersion" for w :: TargetVersion
    using that unfolding maxVersion_def by (metis eq_neg_iff_add_eq_0)
  with assms show ?thesis by (auto simp: next_version_def split: if_splits)
qed

section \<open>Whole routes\<close>

lemma map_of_fold_update:
  assumes "distinct (map k xs)" and "set (map k xs) \<inter> fst ` set m = {}"
  shows "fold (\<lambda>x. AList.update (k x) (f x)) xs m = m @ map (\<lambda>x. (k x, f x)) xs"
  using assms
proof (induction xs arbitrary: m)
  case (Cons x xs)
  have "AList.update a b m = m @ [(a, b)]" if "a \<notin> fst ` set m" for a b
    using that by (induction m) auto
  with Cons show ?case by auto
qed simp

lemma existing_targets_eq:
  "distinct (map target_id (route_targets r)) \<Longrightarrow>
     existing_targets r = map (\<lambda>t. (target_id t, t)) (route_targets r)"
  by (simp add: existing_targets_def map_of_fold_update)

lemma route_history_eq:
  "distinct (map target_id (route_targets r)) \<Longrightarrow>
     route_history r = map (\<lambda>t. (target_id t, target_version t)) (route_targets r)"
  by (simp add: route_history_def map_of_fold_update)

lemma get_target_existing:
  assumes "distinct (map target_id (route_targets r))" and "t \<in> set (route_targets r)"
  shows "get_target (existing_targets r) (target_id t) = t"
proof -
  have "map_of (map (\<lambda>t. (target_id t, t)) (route_targets r)) (target_id t) = Some t"
    using assms by (intro map_of_is_SomeI) (auto simp: comp_def)
  with assms(1) show ?thesis by (simp add: get_target_def existing_targets_eq)
qed

lemma get_target_missing:
  "i \<notin> target_id ` set (route_targets r) \<Longrightarrow> get_target (existing_targets r) i = zeroTarget"
proof -
  assume "i \<notin> target_id ` set (route_targets r)"
  then have "map_of (existing_targets r) i = None"
    by (simp add: existing_targets_def map_of_eq_None_iff fold_update_keys)
  then show ?thesis by (simp add: get_target_def)
qed

text \<open>Each target of the result stands at the place of its specification, at its next version.\<close>

definition reconciled ::
    "(string \<times> Target) list \<Rightarrow> (string \<times> TargetVersion) list \<Rightarrow> TargetSpec \<Rightarrow> Target \<Rightarrow> bool" where
  "reconciled existing history spec t \<longleftrightarrow>
     (\<exists>v. next_version spec (get_target existing (spec_id spec)) (get_version history (spec_id spec))
        = Some v \<and> t = target_at spec v)"

lemma apply_targets_reconciled:
  "apply_targets path existing history j seen specs = Inr (seen', ts) \<Longrightarrow>
     list_all2 (reconciled existing history) specs ts"
proof (induction specs arbitrary: j seen seen' ts)
  case (Cons spec specs)
  then show ?case
    by (auto simp: Let_def result_simps targetFromSpec_iff reconciled_def split: if_splits)
qed simp

lemma apply_tiers_reconciled:
  "apply_tiers name existing history i seen specs = Inr tiers \<Longrightarrow>
     list_all2 (list_all2 (reconciled existing history)) specs tiers"
proof (induction specs arbitrary: i seen tiers)
  case (Cons spec specs)
  then show ?case
    by (auto simp: Let_def result_simps dest!: apply_targets_reconciled split: if_splits)
qed simp

lemma applyRouteSpec_reconciled:
  assumes "applyRouteSpec current desired history = Inr r"
  shows "route_name r = route_name current \<and> route_ok r \<and>
    list_all2 (list_all2 (reconciled (existing_targets current) history)) desired (route_tiers r)"
  using assms
  by (auto simp: applyRouteSpec_def result_simps dest: apply_tiers_reconciled)

lemma apply_targets_self:
  assumes "\<And>t. t \<in> set ts \<Longrightarrow> target_ok t \<and> get_target existing (target_id t) = t"
    and "distinct (map target_id ts)" and "set (map target_id ts) \<inter> set seen = {}"
  shows "apply_targets path existing history j seen (map target_spec ts) =
    Inr (rev (map target_id ts) @ seen, ts)"
  using assms
proof (induction ts arbitrary: j seen)
  case (Cons t ts)
  have t: "target_ok t" "get_target existing (target_id t) = t" using Cons.prems(1) by auto
  have "target_ok (target_at (target_spec t) initialTargetVersion)"
    using t(1) target_ok_version [of "target_version t" initialTargetVersion "target_spec t"]
    by (simp add: target_at_spec initialTargetVersion_def target_ok_def)
  moreover have "next_version (target_spec t) t h = Some (target_version t)" for h
    using t(1) settingsEqual_refl [OF t(1)]
    by (auto simp: next_version_def target_spec_def target_ok_def)
  ultimately have "targetFromSpec (target_spec t) t h = Inr t" for h
    by (simp add: targetFromSpec_iff target_at_spec)
  moreover have "spec_id (target_spec t) = target_id t" by (simp add: target_spec_def)
  ultimately show ?case
    using Cons t by (simp add: Let_def target_ok_def)
qed simp

lemma apply_tiers_self:
  assumes "\<And>t. t \<in> set (concat tiers) \<Longrightarrow> target_ok t \<and> get_target existing (target_id t) = t"
    and "distinct (map target_id (concat tiers))"
    and "set (map target_id (concat tiers)) \<inter> set seen = {}" and "[] \<notin> set tiers"
  shows "apply_tiers name existing history i seen (map (map target_spec) tiers) = Inr tiers"
  using assms
proof (induction tiers arbitrary: i seen)
  case (Cons tier tiers)
  have "apply_targets path existing history 0 seen (map target_spec tier) =
      Inr (rev (map target_id tier) @ seen, tier)" for path
    by (rule apply_targets_self) (use Cons.prems in auto)
  moreover have "NewTier tier = Inr tier"
    using Cons.prems by (auto simp: NewTier_iff tier_ok_def)
  moreover have "apply_tiers name existing history (Suc i) (rev (map target_id tier) @ seen)
      (map (map target_spec) tiers) = Inr tiers"
  proof (rule Cons.IH)
    show "set (map target_id (concat tiers)) \<inter> set (rev (map target_id tier) @ seen) = {}"
      using Cons.prems(2,3) unfolding concat.simps map_append distinct_append set_append set_rev
      by blast
  qed (use Cons.prems in auto)
  ultimately show ?case using Cons.prems by (auto simp: Let_def)
qed simp

lemma applyRouteSpec_self:
  assumes "route_ok r"
  shows "applyRouteSpec r (Spec r) history = Inr r"
proof -
  have "apply_tiers (route_name r) (existing_targets r) history 0 [] (Spec r) = Inr (route_tiers r)"
    unfolding Spec_def
    by (rule apply_tiers_self)
      (use assms in \<open>auto simp: route_ok_def route_targets_def intro!: get_target_existing\<close>)
  moreover have "NewRoute (route_name r) (route_tiers r) = Inr r"
    using assms by (simp add: NewRoute_iff)
  ultimately show ?thesis
    using assms by (auto simp: applyRouteSpec_def route_ok_def Spec_def)
qed

end
