(* ===== verification/Routing_Edit.thy ===== *)
theory Routing_Edit
  imports Routing_Reconcile
begin

text \<open>
  Edits of the configuration (\<^verbatim>\<open>src/internal/routing/edit.go\<close> and the configuration
  method of \<^verbatim>\<open>reconcile.go\<close>). Every edit computes a candidate and constructs a validated
  aggregate from it; an error leaves the configuration as it was.
\<close>

record WorkspaceSeed =
  seed_Slug :: string
  seed_Route :: string
  seed_Target :: Target

definition workspace_exists :: "string \<Rightarrow> routing_error" where
  "workspace_exists s = ErrConflict (Sprintf ''workspace %q already exists'' [s])"

definition workspace_missing :: "string \<Rightarrow> routing_error" where
  "workspace_missing s = ErrNotFound (Sprintf ''workspace %q'' [s])"

definition route_exists :: "string \<Rightarrow> routing_error" where
  "route_exists n = ErrConflict (Sprintf ''route %q already exists'' [n])"

definition route_missing :: "string \<Rightarrow> routing_error" where
  "route_missing n = ErrNotFound (Sprintf ''route %q'' [n])"

definition CreateWorkspace :: "Config \<Rightarrow> WorkspaceSeed \<Rightarrow> routing_error + Config" where
  "CreateWorkspace c seed =
     (if map_of c (seed_Slug seed) \<noteq> None then Inl (workspace_exists (seed_Slug seed))
      else and_then (NewTier [seed_Target seed]) (\<lambda>tier.
        and_then (NewRoute (seed_Route seed) [tier]) (\<lambda>route.
        and_then (NewWorkspace (seed_Slug seed) (seed_Route seed) [route]) (\<lambda>workspace.
          NewConfig (Workspaces c @ [workspace])))))"

definition RenameWorkspace :: "Config \<Rightarrow> string \<Rightarrow> string \<Rightarrow> routing_error + Config" where
  "RenameWorkspace c from to =
     (case map_of c from of
        None \<Rightarrow> Inl (workspace_missing from)
      | Some workspace \<Rightarrow>
          if map_of c to \<noteq> None then Inl (workspace_exists to)
          else NewConfig (Workspaces
            (AList.update to (workspace\<lparr>ws_slug := to\<rparr>) (AList.delete from c))))"

definition DeleteWorkspace :: "Config \<Rightarrow> string \<Rightarrow> routing_error + Config" where
  "DeleteWorkspace c slug =
     (if map_of c slug = None then Inl (workspace_missing slug)
      else NewConfig (Workspaces (AList.delete slug c)))"

definition editWorkspace ::
    "Config \<Rightarrow> string \<Rightarrow> (Workspace \<Rightarrow> routing_error + Workspace) \<Rightarrow> routing_error + Config" where
  "editWorkspace c slug edit =
     (case map_of c slug of
        None \<Rightarrow> Inl (workspace_missing slug)
      | Some workspace \<Rightarrow> and_then (edit workspace) (\<lambda>next.
          NewConfig (Workspaces (AList.update slug next c))))"

text \<open>The closing call of every workspace edit: reconstruct and validate the candidate.\<close>

definition restore :: "Workspace \<Rightarrow> routing_error + Workspace" where
  "restore w = RestoreWorkspace (ws_slug w) (ws_default w) (Routes w) (ws_generations w)"

text \<open>The first step of \<open>CreateRoute\<close>: a target ID with a history takes the next generation.\<close>

definition nextGeneration :: "Workspace \<Rightarrow> Target \<Rightarrow> routing_error + Target" where
  "nextGeneration w first =
     (let highest = get_version (ws_generations w) (target_id first)
      in if highest > 0 then
           if highest = maxVersion
           then pathError ''target.version'' (Text ''target version exhausted'')
           else RestoreTarget (target_id first) (highest + 1) (target_model first)
             (target_protocol first) (target_connection first)
         else Inr first)"

definition createRoute :: "string \<Rightarrow> Target \<Rightarrow> Workspace \<Rightarrow> routing_error + Workspace" where
  "createRoute name first w =
     (if map_of (ws_routes w) name \<noteq> None then Inl (route_exists name)
      else and_then (nextGeneration w first) (\<lambda>first.
        and_then (NewTier [first]) (\<lambda>tier.
        and_then (NewRoute name [tier]) (\<lambda>route.
          restore (w\<lparr>ws_routes := AList.update name route (ws_routes w),
            ws_generations :=
              AList.update (target_id first) (target_version first) (ws_generations w)\<rparr>)))))"

definition CreateRoute :: "Config \<Rightarrow> string \<Rightarrow> string \<Rightarrow> Target \<Rightarrow> routing_error + Config" where
  "CreateRoute c slug name first = editWorkspace c slug (createRoute name first)"

definition renameRoute :: "string \<Rightarrow> string \<Rightarrow> Workspace \<Rightarrow> routing_error + Workspace" where
  "renameRoute from to w =
     (case map_of (ws_routes w) from of
        None \<Rightarrow> Inl (route_missing from)
      | Some route \<Rightarrow>
          if map_of (ws_routes w) to \<noteq> None then Inl (route_exists to)
          else restore (w\<lparr>ws_routes :=
              AList.update to (route\<lparr>route_name := to\<rparr>) (AList.delete from (ws_routes w)),
            ws_default := (if ws_default w = from then to else ws_default w)\<rparr>))"

definition RenameRoute :: "Config \<Rightarrow> string \<Rightarrow> string \<Rightarrow> string \<Rightarrow> routing_error + Config" where
  "RenameRoute c slug from to = editWorkspace c slug (renameRoute from to)"

definition setDefaultRoute :: "string \<Rightarrow> Workspace \<Rightarrow> routing_error + Workspace" where
  "setDefaultRoute name w =
     (if map_of (ws_routes w) name = None then Inl (route_missing name)
      else restore (w\<lparr>ws_default := name\<rparr>))"

definition SetDefaultRoute :: "Config \<Rightarrow> string \<Rightarrow> string \<Rightarrow> routing_error + Config" where
  "SetDefaultRoute c slug name = editWorkspace c slug (setDefaultRoute name)"

definition deleteRoute :: "string \<Rightarrow> string option \<Rightarrow> Workspace \<Rightarrow> routing_error + Workspace" where
  "deleteRoute name replacement w =
     (if map_of (ws_routes w) name = None then Inl (route_missing name)
      else if length (ws_routes w) = 1
      then Inl (ErrLastRoute (Text ''delete the workspace instead''))
      else and_then
        (if ws_default w = name then
           case replacement of
             None \<Rightarrow> Inl ErrDefaultReplacementRequired
           | Some r \<Rightarrow>
               if r = name
               then Inl (ErrConflict (Text ''replacement must differ from deleted route''))
               else if map_of (ws_routes w) r = None
               then Inl (ErrNotFound (Sprintf ''replacement route %q'' [r]))
               else Inr r
         else Inr (ws_default w))
        (\<lambda>d. restore (w\<lparr>ws_default := d, ws_routes := AList.delete name (ws_routes w)\<rparr>)))"

definition DeleteRoute ::
    "Config \<Rightarrow> string \<Rightarrow> string \<Rightarrow> string option \<Rightarrow> routing_error + Config" where
  "DeleteRoute c slug name replacement = editWorkspace c slug (deleteRoute name replacement)"

definition editRoute ::
    "Config \<Rightarrow> string \<Rightarrow> string \<Rightarrow> (Route \<Rightarrow> routing_error + Route) \<Rightarrow> routing_error + Config" where
  "editRoute c slug routeName edit =
     editWorkspace c slug (\<lambda>w.
       case map_of (ws_routes w) routeName of
         None \<Rightarrow> Inl (route_missing routeName)
       | Some route \<Rightarrow> and_then (edit route) (\<lambda>next.
           restore (w\<lparr>ws_routes := AList.update routeName next (ws_routes w)\<rparr>)))"

definition replaceRoute :: "string \<Rightarrow> RouteSpec \<Rightarrow> Workspace \<Rightarrow> routing_error + Workspace" where
  "replaceRoute routeName desired w =
     (case map_of (ws_routes w) routeName of
        None \<Rightarrow> Inl (route_missing routeName)
      | Some current \<Rightarrow> and_then (applyRouteSpec current desired (ws_generations w)) (\<lambda>next.
          restore (w\<lparr>ws_routes := AList.update routeName next (ws_routes w),
            ws_generations :=
              fold (\<lambda>t. AList.update (target_id t) (target_version t)) (route_targets next)
                (ws_generations w)\<rparr>)))"

definition ConfigApplyRouteSpec ::
    "Config \<Rightarrow> string \<Rightarrow> string \<Rightarrow> RouteSpec \<Rightarrow> routing_error + Config" where
  "ConfigApplyRouteSpec c slug routeName desired =
     editWorkspace c slug (replaceRoute routeName desired)"

section \<open>Reconstruction of a candidate\<close>

lemma update_fresh: "k \<notin> fst ` set m \<Longrightarrow> AList.update k v m = m @ [(k, v)]"
  by (induction m) auto

lemma map_of_update: "map_of (AList.update k v m) i = (if i = k then Some v else map_of m i)"
  by (simp add: update_conv')

lemma copy_generations_iff:
  "gomap (acc @ gs) \<Longrightarrow> copy_generations acc gs = Inr g \<longleftrightarrow>
     (\<forall>(i, v) \<in> set gs. i \<noteq> [] \<and> v \<noteq> 0) \<and> g = acc @ gs"
proof (induction gs arbitrary: acc)
  case (Cons iv gs)
  obtain i v where iv: "iv = (i, v)" by (cases iv)
  from Cons.prems have "AList.update i v acc = acc @ [(i, v)]"
    unfolding iv by (intro update_fresh) (auto simp: rev_image_eqI)
  with Cons show ?case by (auto simp: iv result_simps)
qed auto

lemma record_targets_covered:
  assumes "\<forall>t \<in> set ts. target_id t \<in> fst ` set g"
  shows "record_targets g ts = Inr g' \<longleftrightarrow>
    g' = g \<and> (\<forall>t \<in> set ts. map_of g (target_id t) = Some (target_version t))"
  using assms
proof (induction ts)
  case (Cons t ts)
  then obtain v where "map_of g (target_id t) = Some v"
    by (metis list.set_intros(1) map_of_eq_None_iff not_None_eq)
  with Cons show ?case by (auto simp: update_triv)
qed auto

lemma record_routes_covered:
  assumes "\<forall>r \<in> set rs. \<forall>t \<in> set (route_targets r). target_id t \<in> fst ` set g"
  shows "record_routes m g rs = Inr (m', g') \<longleftrightarrow>
    g' = g \<and> m' = m @ map (\<lambda>r. (route_name r, r)) rs \<and>
    distinct (map route_name rs) \<and> set (map route_name rs) \<inter> fst ` set m = {} \<and>
    (\<forall>r \<in> set rs. \<forall>t \<in> set (route_targets r).
       map_of g (target_id t) = Some (target_version t))"
  using assms
proof (induction rs arbitrary: m)
  case (Cons r rs)
  show ?case
  proof (cases "route_name r \<in> fst ` set m")
    case True
    then show ?thesis by (auto simp: map_of_eq_None_iff)
  next
    case False
    then have "map_of m (route_name r) = None" by (simp add: map_of_eq_None_iff)
    with False Cons show ?thesis
      by (auto simp: result_simps record_targets_covered update_fresh)
  qed
qed auto

text \<open>
  A candidate whose maps are keyed correctly and whose ledger names every active target is
  accepted exactly when it is well-formed, and then reconstructed as it is.
\<close>

definition candidate :: "Workspace \<Rightarrow> bool" where
  "candidate w \<longleftrightarrow>
     gomap (ws_routes w) \<and> gomap (ws_generations w) \<and>
     (\<forall>(n, r) \<in> set (ws_routes w). n = route_name r \<and>
        (\<forall>t \<in> set (route_targets r). target_id t \<in> fst ` set (ws_generations w)))"

lemma restore_iff:
  assumes "candidate w"
  shows "restore w = Inr w' \<longleftrightarrow> w' = w \<and> workspace_ok w \<and> ledger_ok w"
proof -
  have names: "map (\<lambda>r. (route_name r, r)) (Routes w) = ws_routes w"
    using assms unfolding candidate_def Routes_def map_map
    by (intro map_idI) auto
  have keys: "map route_name (Routes w) = map fst (ws_routes w)"
    by (metis (no_types, lifting) fst_conv list.map_comp list.map_cong0 names comp_def)
  have covered: "\<forall>r \<in> set (Routes w). \<forall>t \<in> set (route_targets r).
      target_id t \<in> fst ` set (ws_generations w)"
    using assms unfolding candidate_def Routes_def by fastforce
  have same: "\<lparr>ws_slug = ws_slug w, ws_default = ws_default w, ws_routes = ws_routes w,
      ws_generations = ws_generations w\<rparr> = w" by simp
  have "restore w = Inr w' \<longleftrightarrow>
      (\<forall>(i, v) \<in> set (ws_generations w). i \<noteq> [] \<and> v \<noteq> 0) \<and>
      (\<forall>r \<in> set (Routes w). \<forall>t \<in> set (route_targets r).
         map_of (ws_generations w) (target_id t) = Some (target_version t)) \<and>
      w' = w \<and> workspace_ok w"
    using assms
    unfolding restore_def RestoreWorkspace_def result_simps
    by (auto simp: copy_generations_iff record_routes_covered [OF covered] names keys
        candidate_def Let_def result_simps same split: prod.splits)
  also have "\<dots> \<longleftrightarrow> w' = w \<and> workspace_ok w \<and> ledger_ok w"
    using assms by (auto simp: ledger_ok_def candidate_def Routes_def)
  finally show ?thesis .
qed

lemma ok_candidate: "workspace_ok w \<Longrightarrow> ledger_ok w \<Longrightarrow> candidate w"
proof -
  assume w: "workspace_ok w" "ledger_ok w"
  have "target_id t \<in> fst ` set (ws_generations w)"
    if "(n, r) \<in> set (ws_routes w)" "t \<in> set (route_targets r)" for n r t
  proof -
    have "map_of (ws_generations w) (target_id t) = Some (target_version t)"
      using w(2) that unfolding ledger_ok_def by (metis image_eqI snd_conv)
    then show ?thesis by (metis map_of_eq_None_iff option.distinct(1))
  qed
  with w show ?thesis by (auto simp: candidate_def workspace_ok_def ledger_ok_def)
qed

lemma add_workspaces_iff:
  "add_workspaces c ws = Inr c' \<longleftrightarrow>
     (\<forall>w \<in> set ws. workspace_ok w) \<and> distinct (map ws_slug ws) \<and>
     set (map ws_slug ws) \<inter> fst ` set c = {} \<and> c' = c @ map (\<lambda>w. (ws_slug w, w)) ws"
proof (induction ws arbitrary: c)
  case (Cons w ws)
  show ?case
  proof (cases "ws_slug w \<in> fst ` set c")
    case True
    then show ?thesis by (auto simp: result_simps map_of_eq_None_iff)
  next
    case False
    then have "map_of c (ws_slug w) = None" by (simp add: map_of_eq_None_iff)
    with False show ?thesis by (auto simp: result_simps Cons.IH update_fresh)
  qed
qed auto

text \<open>A configuration keyed by slug is accepted exactly when its workspaces are well-formed.\<close>

lemma NewConfig_iff:
  assumes "gomap c" and "\<forall>(s, w) \<in> set c. s = ws_slug w"
  shows "NewConfig (Workspaces c) = Inr c' \<longleftrightarrow> c' = c \<and> (\<forall>w \<in> snd ` set c. workspace_ok w)"
proof -
  have c: "map (\<lambda>w. (ws_slug w, w)) (Workspaces c) = c"
    using assms(2) unfolding Workspaces_def map_map by (intro map_idI) auto
  then have "map ws_slug (Workspaces c) = map fst c"
    by (metis (no_types, lifting) fst_conv list.map_comp list.map_cong0 comp_def)
  moreover have "set (Workspaces c) = snd ` set c" by (simp add: Workspaces_def)
  ultimately show ?thesis
    using c assms(1) unfolding NewConfig_def add_workspaces_iff by auto
qed

section \<open>What one edit does to a workspace\<close>

definition active_targets :: "Workspace \<Rightarrow> Target set" where
  "active_targets w = (\<Union>r \<in> snd ` set (ws_routes w). set (route_targets r))"

definition generation :: "Workspace \<Rightarrow> string \<Rightarrow> nat" where
  "generation w i = unat (get_version (ws_generations w) i)"

text \<open>
  The law of target identity: generations never go back, and a target that is active after
  the edit either was active before it at the same version and with the same effective
  configuration, or has a version that is newer than every generation recorded for its ID.
\<close>

definition evolves :: "Workspace \<Rightarrow> Workspace \<Rightarrow> bool" where
  "evolves w w' \<longleftrightarrow>
     (\<forall>i. generation w i \<le> generation w' i) \<and>
     (\<forall>t' \<in> active_targets w'.
        (\<exists>t \<in> active_targets w. target_id t = target_id t' \<and>
           target_version t = target_version t' \<and> effective t = effective t') \<or>
        generation w (target_id t') < unat (target_version t'))"

lemma evolves_frame:
  assumes "ws_generations w' = ws_generations w" and "active_targets w' \<subseteq> active_targets w"
  shows "evolves w w'"
  using assms by (auto simp: evolves_def generation_def)

lemma generation_active:
  "ledger_ok w \<Longrightarrow> t \<in> active_targets w \<Longrightarrow> generation w (target_id t) = unat (target_version t)"
  unfolding ledger_ok_def active_targets_def generation_def get_version_def by fastforce

text \<open>What the edits of one workspace promise to the configuration.\<close>

locale workspace_edit =
  fixes edit :: "Workspace \<Rightarrow> routing_error + Workspace"
  assumes edit_result:
    "workspace_ok w \<Longrightarrow> ledger_ok w \<Longrightarrow> edit w = Inr w' \<Longrightarrow>
       workspace_ok w' \<and> ledger_ok w' \<and> ws_slug w' = ws_slug w \<and> evolves w w'"
begin

lemma editWorkspace_result:
  assumes "config_ok c" and "editWorkspace c slug edit = Inr c'"
  shows "\<exists>w w'. map_of c slug = Some w \<and> edit w = Inr w' \<and> c' = AList.update slug w' c \<and>
    config_ok c' \<and> evolves w w'"
proof -
  from assms(2) obtain w w' where w: "map_of c slug = Some w" and e: "edit w = Inr w'"
    and n: "NewConfig (Workspaces (AList.update slug w' c)) = Inr c'"
    by (auto simp: editWorkspace_def result_simps split: option.splits)
  from w have "(slug, w) \<in> set c" by (rule map_of_SomeD)
  with assms(1) have ok: "slug = ws_slug w" "workspace_ok w" "ledger_ok w" and g: "gomap c"
    by (auto simp: config_ok_def)
  note r = edit_result [OF ok(2,3) e]
  have set': "set (AList.update slug w' c) = insert (slug, w') {x \<in> set c. fst x \<noteq> slug}"
    using g by (rule set_update_gomap)
  have keyed: "\<forall>(s, v) \<in> set (AList.update slug w' c). s = ws_slug v"
    using assms(1) ok(1) r unfolding set' config_ok_def by auto
  have "c' = AList.update slug w' c"
    using n NewConfig_iff [OF gomap_update [OF g] keyed] by simp
  moreover have "config_ok (AList.update slug w' c)"
    using assms(1) ok(1) r g unfolding config_ok_def set' by (auto intro: distinct_update)
  ultimately show ?thesis using w e r by blast
qed

end

section \<open>The edits keep the law\<close>

lemma renameRoute_result:
  assumes "workspace_ok w" and "ledger_ok w" and "renameRoute from to w = Inr w'"
  shows "workspace_ok w' \<and> ledger_ok w' \<and> ws_slug w' = ws_slug w \<and> evolves w w'"
proof -
  from assms(3) obtain r where r: "map_of (ws_routes w) from = Some r"
    and new: "map_of (ws_routes w) to = None"
    by (auto simp: renameRoute_def split: option.splits if_splits)
  define d where "d = (if ws_default w = from then to else ws_default w)"
  define v where "v = w\<lparr>ws_routes := AList.update to (r\<lparr>route_name := to\<rparr>)
    (AList.delete from (ws_routes w)), ws_default := d\<rparr>"
  have g: "gomap (ws_routes w)" using assms(2) by (simp add: ledger_ok_def)
  have set_v: "set (ws_routes v) = insert (to, r\<lparr>route_name := to\<rparr>)
      {x \<in> set (ws_routes w). fst x \<noteq> from \<and> fst x \<noteq> to}"
    using g by (auto simp: v_def set_update_gomap distinct_delete set_delete_gomap)
  have rw: "(from, r) \<in> set (ws_routes w)" using r by (rule map_of_SomeD)
  have "candidate w" using assms(1,2) by (rule ok_candidate)
  then have "candidate v"
    using rw g unfolding candidate_def set_v
    by (auto simp: v_def route_targets_def intro!: distinct_update distinct_delete)
  moreover have "restore v = Inr w'"
    using assms(3) r new by (simp add: renameRoute_def v_def d_def)
  ultimately have w': "w' = v" "workspace_ok w'" "ledger_ok w'" by (simp_all add: restore_iff)
  have "active_targets v \<subseteq> active_targets w"
    using rw unfolding active_targets_def set_v by (auto simp: route_targets_def) force+
  then have "evolves w v" by (intro evolves_frame) (simp add: v_def)
  with w' show ?thesis by (simp add: v_def)
qed

lemma setDefaultRoute_result:
  assumes "workspace_ok w" and "ledger_ok w" and "setDefaultRoute name w = Inr w'"
  shows "workspace_ok w' \<and> ledger_ok w' \<and> ws_slug w' = ws_slug w \<and> evolves w w'"
proof -
  define v where "v = w\<lparr>ws_default := name\<rparr>"
  have "candidate v" using ok_candidate [OF assms(1,2)] by (simp add: candidate_def v_def)
  moreover have "restore v = Inr w'"
    using assms(3) by (simp add: setDefaultRoute_def v_def split: if_splits)
  ultimately have w': "w' = v" "workspace_ok w'" "ledger_ok w'" by (simp_all add: restore_iff)
  have "evolves w v" by (rule evolves_frame) (simp_all add: v_def active_targets_def)
  with w' show ?thesis by (simp add: v_def)
qed

lemma deleteRoute_result:
  assumes "workspace_ok w" and "ledger_ok w" and "deleteRoute name replacement w = Inr w'"
  shows "workspace_ok w' \<and> ledger_ok w' \<and> ws_slug w' = ws_slug w \<and> evolves w w'"
proof -
  obtain d where r: "restore (w\<lparr>ws_default := d, ws_routes := AList.delete name (ws_routes w)\<rparr>)
      = Inr w'"
    using assms(3) unfolding deleteRoute_def result_simps by blast
  define v where "v = w\<lparr>ws_default := d, ws_routes := AList.delete name (ws_routes w)\<rparr>"
  have "candidate v"
    using ok_candidate [OF assms(1,2)]
    by (auto simp: candidate_def v_def set_delete_gomap intro: distinct_delete)
  then have w': "w' = v" "workspace_ok w'" "ledger_ok w'"
    using r by (simp_all add: restore_iff v_def)
  have "evolves w v"
    by (rule evolves_frame) (auto simp: v_def active_targets_def set_delete_gomap)
  with w' show ?thesis by (simp add: v_def)
qed

lemma nextGeneration_fresh:
  assumes "nextGeneration w first = Inr t" and "target_ok t"
  shows "generation w (target_id t) < unat (target_version t)"
proof (cases "get_version (ws_generations w) (target_id first) = 0")
  case True
  with assms have "t = first" by (simp add: nextGeneration_def)
  with True assms(2) show ?thesis by (simp add: generation_def target_ok_def unat_gt_0)
next
  case False
  with assms(1) show ?thesis
    by (auto simp: nextGeneration_def Let_def word_pos_iff RestoreTarget_iff generation_def
        unat_next_version split: if_splits)
qed

lemma createRoute_result:
  assumes "workspace_ok w" and "ledger_ok w" and "createRoute name first w = Inr w'"
  shows "workspace_ok w' \<and> ledger_ok w' \<and> ws_slug w' = ws_slug w \<and> evolves w w'"
proof -
  obtain t where t: "nextGeneration w first = Inr t" and ok: "target_ok t"
    and r: "restore (w\<lparr>ws_routes :=
          AList.update name \<lparr>route_name = name, route_tiers = [[t]]\<rparr> (ws_routes w),
        ws_generations := AList.update (target_id t) (target_version t) (ws_generations w)\<rparr>)
      = Inr w'"
    using assms(3) by (auto simp: createRoute_def result_simps tier_ok_def)
  define v where "v = w\<lparr>ws_routes :=
        AList.update name \<lparr>route_name = name, route_tiers = [[t]]\<rparr> (ws_routes w),
      ws_generations := AList.update (target_id t) (target_version t) (ws_generations w)\<rparr>"
  have g: "gomap (ws_routes w)" "gomap (ws_generations w)"
    using assms(2) by (simp_all add: ledger_ok_def)
  have set_v: "set (ws_routes v) =
      insert (name, \<lparr>route_name = name, route_tiers = [[t]]\<rparr>) {x \<in> set (ws_routes w). fst x \<noteq> name}"
    using g(1) by (simp add: v_def set_update_gomap)
  have "candidate v"
    using ok_candidate [OF assms(1,2)] g unfolding candidate_def set_v
    by (auto simp: v_def route_targets_def dom_update intro: distinct_update)
  then have w': "w' = v" "workspace_ok w'" "ledger_ok w'"
    using r by (simp_all add: restore_iff v_def)
  have fresh: "generation w (target_id t) < unat (target_version t)"
    using nextGeneration_fresh [OF t ok] .
  have "generation v i = (if i = target_id t then unat (target_version t) else generation w i)" for i
    by (simp add: v_def generation_def get_version_def map_of_update)
  then have "generation w i \<le> generation v i" for i using fresh by auto
  moreover have "active_targets v \<subseteq> insert t (active_targets w)"
    unfolding active_targets_def set_v by (auto simp: route_targets_def)
  ultimately have "evolves w v" using fresh by (auto simp: evolves_def)
  with w' show ?thesis by (simp add: v_def)
qed

lemma reconciled_version:
  assumes "ledger_ok w" and "(n, r) \<in> set (ws_routes w)" and "route_ok r"
    and "reconciled (existing_targets r) (ws_generations w) spec t"
  shows "(\<exists>u \<in> set (route_targets r). target_id u = target_id t \<and>
      target_version u = target_version t \<and> effective u = effective t) \<or>
    generation w (target_id t) < unat (target_version t)"
proof -
  have d: "distinct (map target_id (route_targets r))" using assms(3) by (simp add: route_ok_def)
  from assms(4) obtain v where t: "t = target_at spec v" and
    v: "next_version spec (get_target (existing_targets r) (spec_id spec))
      (get_version (ws_generations w) (spec_id spec)) = Some v"
    by (auto simp: reconciled_def)
  show ?thesis
  proof (cases "spec_id spec \<in> target_id ` set (route_targets r)")
    case True
    then obtain u where u: "u \<in> set (route_targets r)" "target_id u = spec_id spec" by auto
    have cur: "get_target (existing_targets r) (spec_id spec) = u"
      using get_target_existing [OF d u(1)] u(2) by simp
    have "target_ok u" using assms(3) u(1) by (simp add: route_ok_def)
    then have ne: "target_id u \<noteq> []" by (simp add: target_ok_def)
    have gen: "generation w (target_id u) = unat (target_version u)"
      by (rule generation_active [OF assms(1)])
        (use assms(2) u(1) in \<open>force simp: active_targets_def\<close>)
    show ?thesis
    proof (cases "settingsEqual (settings_of u) (spec_settings spec)")
      case True
      then have "effective u = effective t"
        using settingsEqual_effective [of u t] by (simp add: t)
      with True v u ne show ?thesis by (auto simp: cur next_version_def t)
    next
      case False
      with v ne have "v = target_version u + 1" "target_version u \<noteq> maxVersion"
        by (auto simp: cur next_version_def split: if_splits)
      then show ?thesis using gen u(2) by (simp add: t unat_next_version)
    qed
  next
    case False
    then have "get_target (existing_targets r) (spec_id spec) = zeroTarget"
      by (rule get_target_missing)
    with v have "v = get_version (ws_generations w) (spec_id spec) + 1"
      "get_version (ws_generations w) (spec_id spec) \<noteq> maxVersion"
      by (auto simp: next_version_def zeroTarget_def split: if_splits)
    then show ?thesis by (simp add: t generation_def unat_next_version)
  qed
qed

lemma replaceRoute_result:
  assumes "workspace_ok w" and "ledger_ok w" and "replaceRoute name desired w = Inr w'"
  shows "workspace_ok w' \<and> ledger_ok w' \<and> ws_slug w' = ws_slug w \<and> evolves w w'"
proof -
  from assms(3) obtain r nxt where r: "map_of (ws_routes w) name = Some r"
    and a: "applyRouteSpec r desired (ws_generations w) = Inr nxt"
    and res: "restore (w\<lparr>ws_routes := AList.update name nxt (ws_routes w),
      ws_generations := fold (\<lambda>t. AList.update (target_id t) (target_version t))
        (route_targets nxt) (ws_generations w)\<rparr>) = Inr w'"
    by (auto simp: replaceRoute_def result_simps split: option.splits)
  define v where "v = w\<lparr>ws_routes := AList.update name nxt (ws_routes w),
      ws_generations := fold (\<lambda>t. AList.update (target_id t) (target_version t))
        (route_targets nxt) (ws_generations w)\<rparr>"
  have rw: "(name, r) \<in> set (ws_routes w)" using r by (rule map_of_SomeD)
  then have rok: "route_ok r" and rn: "route_name r = name"
    using assms(1) by (auto simp: workspace_ok_def)
  note nx = applyRouteSpec_reconciled [OF a]
  have g: "gomap (ws_routes w)" "gomap (ws_generations w)"
    using assms(2) by (simp_all add: ledger_ok_def)
  have set_v: "set (ws_routes v) = insert (name, nxt) {x \<in> set (ws_routes w). fst x \<noteq> name}"
    using g(1) by (simp add: v_def set_update_gomap)
  have "candidate v"
    using ok_candidate [OF assms(1,2)] g nx rn unfolding candidate_def set_v
    by (auto simp: v_def fold_update_keys intro: distinct_update gomap_fold_update)
  then have w': "w' = v" "workspace_ok w'" "ledger_ok w'"
    using res by (simp_all add: restore_iff v_def)
  have law: "(\<exists>u \<in> set (route_targets r). target_id u = target_id t \<and>
      target_version u = target_version t \<and> effective u = effective t) \<or>
      generation w (target_id t) < unat (target_version t)"
    if tn: "t \<in> set (route_targets nxt)" for t
  proof -
    from tn obtain tier where "tier \<in> set (route_tiers nxt)" "t \<in> set tier"
      by (auto simp: route_targets_def)
    then obtain spec where "reconciled (existing_targets r) (ws_generations w) spec t"
      using nx by (meson list_all2_in_right)
    then show ?thesis by (rule reconciled_version [OF assms(2) rw rok])
  qed
  have act_r: "set (route_targets r) \<subseteq> active_targets w"
    using rw by (force simp: active_targets_def)
  have d: "distinct (map target_id (route_targets nxt))" using nx by (simp add: route_ok_def)
  have "generation w i \<le> generation v i" for i
  proof (cases "i \<in> target_id ` set (route_targets nxt)")
    case True
    then obtain t where t: "t \<in> set (route_targets nxt)" "i = target_id t" by auto
    have "generation v i = unat (target_version t)"
      using map_of_fold_update_in [OF d t(1), of target_version "ws_generations w"]
      by (simp add: v_def generation_def get_version_def t(2))
    then show ?thesis
      using law [OF t(1)] act_r generation_active [OF assms(2)] t(2) by fastforce
  next
    case False
    then show ?thesis
      by (simp add: v_def generation_def get_version_def map_of_fold_update_out)
  qed
  moreover have "active_targets v \<subseteq> set (route_targets nxt) \<union> active_targets w"
    unfolding active_targets_def set_v by auto
  ultimately have "evolves w v" using law act_r by (fastforce simp: evolves_def)
  with w' show ?thesis by (simp add: v_def)
qed

interpretation create_route: workspace_edit "createRoute name first" for name first
  by unfold_locales (rule createRoute_result)

interpretation rename_route: workspace_edit "renameRoute from to" for "from" to
  by unfold_locales (rule renameRoute_result)

interpretation set_default: workspace_edit "setDefaultRoute name" for name
  by unfold_locales (rule setDefaultRoute_result)

interpretation delete_route: workspace_edit "deleteRoute name replacement" for name replacement
  by unfold_locales (rule deleteRoute_result)

interpretation replace_route: workspace_edit "replaceRoute name desired" for name desired
  by unfold_locales (rule replaceRoute_result)

lemmas edit_results =
  create_route.editWorkspace_result rename_route.editWorkspace_result
  set_default.editWorkspace_result delete_route.editWorkspace_result
  replace_route.editWorkspace_result

end
