(* ===== verification/Routing_History.thy ===== *)
theory Routing_History
  imports Routing_Edit
begin

text \<open>
  Histories of configurations: the public edits of \<^verbatim>\<open>src/internal/routing/edit.go\<close> and
  \<^verbatim>\<open>reconcile.go\<close> as the steps of a state machine, the invariant of every reachable
  configuration and the law of target identity along a history.
\<close>

datatype config_edit =
    ECreateWorkspace WorkspaceSeed
  | ERenameWorkspace string string
  | EDeleteWorkspace string
  | ECreateRoute string string Target
  | ERenameRoute string string string
  | ESetDefaultRoute string string
  | EDeleteRoute string string "string option"
  | EApplyRouteSpec string string RouteSpec

fun apply_edit :: "Config \<Rightarrow> config_edit \<Rightarrow> routing_error + Config" where
  "apply_edit c (ECreateWorkspace seed) = CreateWorkspace c seed"
| "apply_edit c (ERenameWorkspace from to) = RenameWorkspace c from to"
| "apply_edit c (EDeleteWorkspace slug) = DeleteWorkspace c slug"
| "apply_edit c (ECreateRoute slug name first) = CreateRoute c slug name first"
| "apply_edit c (ERenameRoute slug from to) = RenameRoute c slug from to"
| "apply_edit c (ESetDefaultRoute slug name) = SetDefaultRoute c slug name"
| "apply_edit c (EDeleteRoute slug name replacement) = DeleteRoute c slug name replacement"
| "apply_edit c (EApplyRouteSpec slug name desired) = ConfigApplyRouteSpec c slug name desired"

text \<open>The edit ends the life of the workspace at the slug, or begins one there.\<close>

fun replaces_workspace :: "string \<Rightarrow> config_edit \<Rightarrow> bool" where
  "replaces_workspace slug (ECreateWorkspace seed) \<longleftrightarrow> seed_Slug seed = slug"
| "replaces_workspace slug (ERenameWorkspace from to) \<longleftrightarrow> slug \<in> {from, to}"
| "replaces_workspace slug (EDeleteWorkspace s) \<longleftrightarrow> s = slug"
| "replaces_workspace slug _ \<longleftrightarrow> False"

inductive config_reachable :: "Config \<Rightarrow> bool" where
  empty: "config_reachable []"
| edit: "config_reachable c \<Longrightarrow> apply_edit c e = Inr c' \<Longrightarrow> config_reachable c'"

text \<open>A history of edits during which the workspace at the slug lives on.\<close>

inductive workspace_history :: "string \<Rightarrow> Config \<Rightarrow> Config \<Rightarrow> bool" for slug where
  start: "workspace_history slug c c"
| later: "workspace_history slug c d \<Longrightarrow> apply_edit d e = Inr d' \<Longrightarrow>
    \<not> replaces_workspace slug e \<Longrightarrow> workspace_history slug c d'"

section \<open>Edits of the set of workspaces\<close>

lemma CreateWorkspace_result:
  assumes "config_ok c" and "CreateWorkspace c seed = Inr c'"
  shows "config_ok c' \<and> (\<forall>s. s \<noteq> seed_Slug seed \<longrightarrow> map_of c' s = map_of c s)"
proof -
  obtain w where new: "map_of c (seed_Slug seed) = None"
    and w: "NewWorkspace (seed_Slug seed) (seed_Route seed)
      [\<lparr>route_name = seed_Route seed, route_tiers = [[seed_Target seed]]\<rparr>] = Inr w"
    and n: "NewConfig (Workspaces c @ [w]) = Inr c'"
    and ok: "tier_ok [seed_Target seed]"
    using assms(2) by (auto simp: CreateWorkspace_def result_simps)
  have w': "ws_slug w = seed_Slug seed" "workspace_ok w" "ledger_ok w"
    using w ok
    by (auto simp: NewWorkspace_def RestoreWorkspace_def Let_def result_simps route_targets_def
        ledger_ok_def tier_ok_def target_ok_def)
  let ?d = "c @ [(seed_Slug seed, w)]"
  have g: "gomap ?d" using assms(1) new by (auto simp: config_ok_def map_of_eq_None_iff)
  have keyed: "\<forall>(s, v) \<in> set ?d. s = ws_slug v" using assms(1) w' by (auto simp: config_ok_def)
  have "Workspaces ?d = Workspaces c @ [w]" by (simp add: Workspaces_def)
  with n have "NewConfig (Workspaces ?d) = Inr c'" by simp
  then have "c' = ?d" by (rule NewConfig_iff [OF g keyed, THEN iffD1, THEN conjunct1])
  moreover have "config_ok ?d" using assms(1) g w' by (auto simp: config_ok_def)
  moreover have "map_of ?d s = map_of c s" if "s \<noteq> seed_Slug seed" for s
    using that by (simp add: map_add_def split: option.split)
  ultimately show ?thesis by simp
qed

lemma RenameWorkspace_result:
  assumes "config_ok c" and "RenameWorkspace c from to = Inr c'"
  shows "config_ok c' \<and> (\<forall>s. s \<notin> {from, to} \<longrightarrow> map_of c' s = map_of c s)"
proof -
  obtain w where w: "map_of c from = Some w" and new: "map_of c to = None"
    and n: "NewConfig (Workspaces
      (AList.update to (w\<lparr>ws_slug := to\<rparr>) (AList.delete from c))) = Inr c'"
    using assms(2) by (auto simp: RenameWorkspace_def split: option.splits if_splits)
  let ?d = "AList.update to (w\<lparr>ws_slug := to\<rparr>) (AList.delete from c)"
  have g: "gomap ?d" using assms(1) by (auto simp: config_ok_def intro: distinct_update distinct_delete)
  have set_d: "set ?d = insert (to, w\<lparr>ws_slug := to\<rparr>) {x \<in> set c. fst x \<noteq> from \<and> fst x \<noteq> to}"
    using assms(1)
    by (auto simp: set_update_gomap distinct_delete set_delete_gomap config_ok_def)
  have "(from, w) \<in> set c" using w by (rule map_of_SomeD)
  with assms(1) have "ledger_ok w" by (auto simp: config_ok_def)
  then have led: "ledger_ok (w\<lparr>ws_slug := to\<rparr>)" 
    unfolding ledger_ok_def by (cases w) fastforce
  have keyed: "\<forall>(s, v) \<in> set ?d. s = ws_slug v"
    using assms(1) unfolding set_d config_ok_def by auto
  have c': "c' = ?d" "\<forall>v \<in> snd ` set ?d. workspace_ok v"
    using NewConfig_iff [OF g keyed, THEN iffD1, OF n] by blast+
  have "config_ok ?d"
    unfolding config_ok_def using g keyed c'(2) led assms(1)
    unfolding set_d config_ok_def by auto
  moreover have "map_of ?d s = map_of c s" if "s \<notin> {from, to}" for s
    using that by (simp add: gomap_simps)
  ultimately show ?thesis using c'(1) by simp
qed

lemma DeleteWorkspace_result:
  assumes "config_ok c" and "DeleteWorkspace c slug = Inr c'"
  shows "config_ok c' \<and> c' = AList.delete slug c"
proof -
  have g: "gomap (AList.delete slug c)" using assms(1) by (auto simp: config_ok_def)
  have "\<forall>(s, v) \<in> set (AList.delete slug c). s = ws_slug v"
    using assms(1) by (auto simp: config_ok_def set_delete_gomap)
  moreover have "NewConfig (Workspaces (AList.delete slug c)) = Inr c'"
    using assms(2) by (simp add: DeleteWorkspace_def split: if_splits)
  ultimately have "c' = AList.delete slug c" using NewConfig_iff [OF g] by blast
  with assms(1) g show ?thesis by (auto simp: config_ok_def set_delete_gomap)
qed

lemmas edit_defs = CreateRoute_def RenameRoute_def SetDefaultRoute_def DeleteRoute_def
  ConfigApplyRouteSpec_def

text \<open>
  An edit that succeeds keeps the configuration well-formed; an edit that does not replace
  the workspace at a slug leaves it as it is or evolves it.
\<close>

definition lives_on :: "string \<Rightarrow> Config \<Rightarrow> Config \<Rightarrow> bool" where
  "lives_on slug c c' \<longleftrightarrow> map_of c' slug = map_of c slug \<or>
     (\<exists>w w'. map_of c slug = Some w \<and> map_of c' slug = Some w' \<and> evolves w w')"

lemma lives_on_update:
  "map_of c s = Some w \<Longrightarrow> evolves w w' \<Longrightarrow> lives_on slug c (AList.update s w' c)"
  by (simp add: lives_on_def map_of_update)

lemma apply_edit_result:
  assumes "config_ok c" and "apply_edit c e = Inr c'"
  shows "config_ok c' \<and> (\<not> replaces_workspace slug e \<longrightarrow> lives_on slug c c')"
proof (cases e)
  case (ECreateWorkspace seed)
  with assms CreateWorkspace_result [of c seed c'] show ?thesis by (simp add: lives_on_def)
next
  case (ERenameWorkspace "from" to)
  with assms RenameWorkspace_result [of c "from" to c'] show ?thesis by (simp add: lives_on_def)
next
  case (EDeleteWorkspace s)
  with assms DeleteWorkspace_result [of c s c'] show ?thesis
    by (auto simp: lives_on_def delete_conv')
next
  case (ECreateRoute s name first)
  with assms create_route.editWorkspace_result [of c s name first c'] show ?thesis
    by (auto simp: edit_defs intro: lives_on_update)
next
  case (ERenameRoute s "from" to)
  with assms rename_route.editWorkspace_result [of c s "from" to c'] show ?thesis
    by (auto simp: edit_defs intro: lives_on_update)
next
  case (ESetDefaultRoute s name)
  with assms set_default.editWorkspace_result [of c s name c'] show ?thesis
    by (auto simp: edit_defs intro: lives_on_update)
next
  case (EDeleteRoute s name replacement)
  with assms delete_route.editWorkspace_result [of c s name replacement c'] show ?thesis
    by (auto simp: edit_defs intro: lives_on_update)
next
  case (EApplyRouteSpec s name desired)
  with assms replace_route.editWorkspace_result [of c s name desired c'] show ?thesis
    by (auto simp: edit_defs intro: lives_on_update)
qed

section \<open>Target identity along a history\<close>

lemma evolves_refl: "evolves w w"
  by (auto simp: evolves_def)

lemma evolves_trans: "evolves u v \<Longrightarrow> evolves v w \<Longrightarrow> evolves u w"
proof -
  assume uv: "evolves u v" and vw: "evolves v w"
  have le: "generation u i \<le> generation v i" for i using uv by (simp add: evolves_def)
  have "(\<exists>t \<in> active_targets u. target_id t = target_id t' \<and>
      target_version t = target_version t' \<and> effective t = effective t') \<or>
      generation u (target_id t') < unat (target_version t')" if "t' \<in> active_targets w" for t'
    using that vw uv le [of "target_id t'"] unfolding evolves_def
    by (metis (no_types, lifting) le_less_trans)
  then show ?thesis using uv vw le_trans unfolding evolves_def by blast
qed

lemma history_evolves:
  assumes "workspace_history slug c d" and "config_ok c" and "map_of c slug = Some w"
  shows "config_ok d \<and> (\<exists>v. map_of d slug = Some v \<and> evolves w v)"
  using assms
proof (induction rule: workspace_history.induct)
  case (start c)
  then show ?case by (auto intro: evolves_refl)
next
  case (later c d e d')
  then obtain v where "config_ok d" "map_of d slug = Some v" "evolves w v" by blast
  with later.hyps(2,3) apply_edit_result [of d e d' slug] show ?case
    by (auto simp: lives_on_def intro: evolves_trans)
qed

lemma active_target_unique:
  assumes "workspace_ok w" and "t \<in> active_targets w" and "u \<in> active_targets w"
    and "target_id t = target_id u"
  shows "t = u"
proof -
  obtain n r m q where r: "(n, r) \<in> set (ws_routes w)" "t \<in> set (route_targets r)"
    and q: "(m, q) \<in> set (ws_routes w)" "u \<in> set (route_targets q)"
    using assms(2,3) by (auto simp: active_targets_def)
  have "(n, r) = (m, q)"
    by (rule distinct_concat_unique [where f = "\<lambda>(_, r). map target_id (route_targets r)"
          and xs = "ws_routes w" and i = "target_id t"])
      (use assms(1,4) r q in \<open>auto simp: workspace_ok_def routes_ids_def rev_image_eqI\<close>)
  moreover have "inj_on target_id (set (route_targets r))"
    using assms(1) r(1) by (auto simp: workspace_ok_def route_ok_def distinct_map)
  ultimately show ?thesis using r(2) q(2) assms(4) by (auto dest: inj_onD)
qed

lemma evolves_version:
  assumes "workspace_ok w" and "ledger_ok w" and "evolves w v"
    and "t \<in> active_targets w" and "u \<in> active_targets v"
    and "target_id t = target_id u" and "target_version t = target_version u"
  shows "effective t = effective u"
proof -
  have "generation w (target_id u) = unat (target_version u)"
    using generation_active [OF assms(2,4)] assms(6,7) by simp
  then obtain t' where "t' \<in> active_targets w" "target_id t' = target_id u"
    "effective t' = effective u"
    using assms(3,5) unfolding evolves_def by fastforce
  with active_target_unique [OF assms(1,4)] assms(6) show ?thesis by metis
qed

lemma config_ok_workspace:
  "config_ok c \<Longrightarrow> map_of c slug = Some w \<Longrightarrow> ws_slug w = slug \<and> workspace_ok w \<and> ledger_ok w"
  by (auto simp: config_ok_def dest!: map_of_SomeD)

lemma reachable_ok: "config_reachable c \<Longrightarrow> config_ok c"
proof (induction rule: config_reachable.induct)
  case empty
  show ?case by (simp add: config_ok_def)
next
  case (edit c e c')
  then show ?case by (blast dest: apply_edit_result)
qed

section \<open>The version rule\<close>

definition version_rule :: "Route \<Rightarrow> (string \<times> TargetVersion) list \<Rightarrow> TargetSpec \<Rightarrow> Target \<Rightarrow> bool" where
  "version_rule current history spec t \<longleftrightarrow>
     target_id t = spec_id spec \<and> settings_of t = spec_settings spec \<and>
     (if spec_id spec \<in> target_id ` set (route_targets current)
      then \<forall>u \<in> set (route_targets current). target_id u = spec_id spec \<longrightarrow>
        unat (target_version t) = unat (target_version u) +
          (if settingsEqual (settings_of u) (spec_settings spec) then 0 else 1)
      else unat (target_version t) = unat (get_version history (spec_id spec)) + 1)"

lemma reconciled_version_rule:
  assumes "route_ok current" and "reconciled (existing_targets current) history spec t"
  shows "version_rule current history spec t"
proof -
  from assms(2) obtain v where t: "t = target_at spec v"
    and v: "next_version spec (get_target (existing_targets current) (spec_id spec))
      (get_version history (spec_id spec)) = Some v"
    by (auto simp: reconciled_def)
  show ?thesis
  proof (cases "spec_id spec \<in> target_id ` set (route_targets current)")
    case True
    have "unat v = unat (target_version u) +
        (if settingsEqual (settings_of u) (spec_settings spec) then 0 else 1)"
      if u: "u \<in> set (route_targets current)" "target_id u = spec_id spec" for u
    proof -
      have "get_target (existing_targets current) (target_id u) = u"
        by (rule get_target_existing) (use assms(1) u(1) in \<open>auto simp: route_ok_def\<close>)
      moreover have "target_id u \<noteq> []"
        using assms(1) u(1) by (auto simp: route_ok_def target_ok_def)
      ultimately show ?thesis
        using v u(2) by (auto simp: next_version_def unat_next_version split: if_splits)
    qed
    with True show ?thesis by (simp add: version_rule_def t)
  next
    case False
    then show ?thesis
      using v get_target_missing [OF False]
      by (auto simp: version_rule_def t next_version_def zeroTarget_def unat_next_version
          split: if_splits)
  qed
qed

section \<open>Properties\<close>

text \<open>
  C1: every configuration that any sequence of public edits can build from the empty one is
  well-formed: unique slugs, routes and target IDs per workspace, non-empty routes and
  tiers, valid targets, a default route that exists, and a generation ledger that holds
  every active target's version.
\<close>

theorem reachable_config_ok: "config_reachable c \<Longrightarrow> config_ok c"
  by (rule reachable_ok)

text \<open>
  C2: a target version identifies one effective configuration for as long as its workspace
  lives: two targets with the same ID and version, active at two moments of a history of
  edits, have the same model, protocol and durable connection. Deleting a target or a route
  and adding it again cannot revive a version for other settings.
\<close>

theorem target_version_identifies:
  assumes "config_reachable c" and "workspace_history slug c d"
    and "map_of c slug = Some w" and "map_of d slug = Some v"
    and "t \<in> active_targets w" and "u \<in> active_targets v"
    and "target_id t = target_id u" and "target_version t = target_version u"
  shows "effective t = effective u"
proof -
  have c: "config_ok c" using assms(1) by (rule reachable_ok)
  have "evolves w v" using history_evolves [OF assms(2) c assms(3)] assms(4) by simp
  then show ?thesis
    using config_ok_workspace [OF c assms(3)] assms(5-8) by (blast intro: evolves_version)
qed

text \<open>
  Applying a route's own specification is the identity on the whole configuration: no
  version advances, no generation is recorded, nothing is reordered.
\<close>

theorem apply_own_spec:
  assumes "config_reachable c" and "map_of c slug = Some w" and "map_of (ws_routes w) name = Some r"
  shows "ConfigApplyRouteSpec c slug name (Spec r) = Inr c"
proof -
  have c: "config_ok c" using assms(1) by (rule reachable_ok)
  note w = config_ok_workspace [OF c assms(2)]
  have rw: "(name, r) \<in> set (ws_routes w)" using assms(3) by (rule map_of_SomeD)
  then have r: "route_ok r" using w by (auto simp: workspace_ok_def)
  have "map_of (ws_generations w) (target_id t) = Some (target_version t)"
    if "t \<in> set (route_targets r)" for t
    using w rw that unfolding ledger_ok_def by (metis image_eqI snd_conv)
  then have g: "fold (\<lambda>t. AList.update (target_id t) (target_version t)) (route_targets r)
      (ws_generations w) = ws_generations w"
    by (rule fold_update_triv)
  have "restore w = Inr w" using w ok_candidate restore_iff by blast
  then have "replaceRoute name (Spec r) w = Inr w"
    using assms(3) g by (simp add: replaceRoute_def applyRouteSpec_self [OF r] update_triv)
  moreover have "NewConfig (Workspaces c) = Inr c"
    by (rule NewConfig_iff [THEN iffD2]) (use c in \<open>auto simp: config_ok_def\<close>)
  ultimately show ?thesis
    using assms(2) by (simp add: ConfigApplyRouteSpec_def editWorkspace_def update_triv)
qed

text \<open>
  C38: the version rule of reconciliation. When a desired route is accepted, its result has
  one target per specification, in the same tiers and order; each target carries the
  specified ID and settings, and its version is the current one when the current target of
  that ID has equal settings, the current one plus one (never wrapping around) when they
  differ, and one more than the highest recorded generation when the route has no such
  target.
\<close>

theorem reconcile_versions:
  assumes "route_ok current" and "applyRouteSpec current desired history = Inr r"
  shows "route_name r = route_name current \<and> route_ok r \<and>
    list_all2 (list_all2 (version_rule current history)) desired (route_tiers r)"
proof -
  have "list_all2 (list_all2 (version_rule current history)) desired (route_tiers r)"
    using applyRouteSpec_reconciled [OF assms(2)] reconciled_version_rule [OF assms(1)]
    by (auto elim!: list_all2_mono)
  then show ?thesis using applyRouteSpec_reconciled [OF assms(2)] by simp
qed

text \<open>
  A changed target whose version is the largest one is refused; the version never wraps
  around to a value that another configuration had.
\<close>

theorem version_exhausted:
  assumes "target_ok current" and "target_id current = spec_id spec"
    and "target_version current = maxVersion"
    and "\<not> settingsEqual (settings_of current) (spec_settings spec)"
  shows "\<exists>e. targetFromSpec spec current highest = Inl e"
proof (cases "targetFromSpec spec current highest")
  case (Inr t)
  with assms show ?thesis
    unfolding targetFromSpec_iff by (auto simp: next_version_def target_ok_def)
qed blast

text \<open>
  Resolving a requested route. In every workspace of a reachable configuration a blank
  name is the only error; any other name resolves to a well-formed route of the workspace,
  to the route of that name when there is one, and to the default route otherwise.
\<close>

theorem ResolveRoute_total:
  assumes "config_reachable c" and "map_of c slug = Some w"
  shows "ResolveRoute w requested =
    (if TrimSpace requested = [] then Inl ErrEmptyRequestedRoute
     else if is_ok (ParseRouteName requested) \<and> requested \<in> fst ` set (ws_routes w)
     then Inr (lookup_route w requested)
     else Inr (lookup_route w (ws_default w))) \<and>
    (\<forall>r. ResolveRoute w requested = Inr r \<longrightarrow> route_ok r \<and> r \<in> snd ` set (ws_routes w))"
proof -
  have w: "workspace_ok w" "ledger_ok w"
    using config_ok_workspace [OF reachable_ok [OF assms(1)] assms(2)] by simp_all
  have found: "route_ok (lookup_route w n) \<and> lookup_route w n \<in> snd ` set (ws_routes w)"
    if "n \<in> fst ` set (ws_routes w)" for n
  proof -
    from that obtain r where r: "map_of (ws_routes w) n = Some r"
      by (metis map_of_eq_None_iff not_None_eq)
    then have "(n, r) \<in> set (ws_routes w)" by (rule map_of_SomeD)
    with r w(1) show ?thesis by (force simp: lookup_route_def workspace_ok_def)
  qed
  have d: "ws_default w \<in> fst ` set (ws_routes w)" using w(1) by (simp add: workspace_ok_def)
  have parsed: "n = requested" if "ParseRouteName requested = Inr n" for n
    using that by (auto simp: ParseRouteName_def pathError_def split: if_splits)
  have eq: "ResolveRoute w requested =
    (if TrimSpace requested = [] then Inl ErrEmptyRequestedRoute
     else if is_ok (ParseRouteName requested) \<and> requested \<in> fst ` set (ws_routes w)
     then Inr (lookup_route w requested)
     else Inr (lookup_route w (ws_default w)))"
  proof (cases "ParseRouteName requested")
    case (Inl e)
    then show ?thesis by (simp add: ResolveRoute_def)
  next
    case (Inr n)
    with parsed have n: "n = requested" by simp
    have "requested \<noteq> PublicDefaultRouteID"
      using Inr by (auto simp: ParseRouteName_def pathError_def split: if_splits)
    moreover have "requested \<in> fst ` set (ws_routes w) \<longleftrightarrow> map_of (ws_routes w) requested \<noteq> None"
      by (simp add: map_of_eq_None_iff)
    ultimately show ?thesis
      using Inr n by (simp add: ResolveRoute_def lookup_route_def split: option.split)
  qed
  then show ?thesis using found d by auto
qed

section \<open>Deleting a route\<close>

text \<open>The default route after a deletion, if the deletion may proceed.\<close>

definition remaining_default :: "Workspace \<Rightarrow> string \<Rightarrow> string option \<Rightarrow> string option" where
  "remaining_default w name replacement =
     (if ws_default w \<noteq> name then Some (ws_default w)
      else case replacement of
        None \<Rightarrow> None
      | Some r \<Rightarrow> if r \<noteq> name \<and> r \<in> fst ` set (ws_routes w) then Some r else None)"

lemma distinct_routes_ids_filter:
  "distinct (routes_ids rs) \<Longrightarrow> distinct (routes_ids (filter P rs))"
proof (induction rs)
  case (Cons r rs)
  obtain n q where r: "r = (n, q)" by (cases r)
  have ids: "routes_ids ((n, q) # xs) = map target_id (route_targets q) @ routes_ids xs" for xs
    by (simp add: routes_ids_def)
  have "set (routes_ids (filter P rs)) \<subseteq> set (routes_ids rs)" by (auto simp: routes_ids_def)
  with Cons show ?case unfolding r filter.simps ids distinct_append
    by (auto simp only: ids distinct_append split: if_split)
qed simp

lemma without_route_ok:
  assumes "workspace_ok w" and "ledger_ok w" and "1 < length (ws_routes w)"
    and "remaining_default w name replacement = Some d"
  defines "v \<equiv> w\<lparr>ws_default := d, ws_routes := AList.delete name (ws_routes w)\<rparr>"
  shows "workspace_ok v \<and> ledger_ok v"
proof -
  have g: "gomap (ws_routes w)" using assms(2) by (simp add: ledger_ok_def)
  have set_v: "set (ws_routes v) = {x \<in> set (ws_routes w). fst x \<noteq> name}"
    by (simp add: v_def set_delete_gomap)
  have d: "d \<noteq> name" "d \<in> fst ` set (ws_routes w)"
    using assms(1,4)
    by (auto simp: remaining_default_def workspace_ok_def split: if_splits option.splits)
  then have dv: "d \<in> fst ` set (ws_routes v)" unfolding set_v by auto
  have "workspace_ok v"
    unfolding workspace_ok_def
  proof (intro conjI)
    show "ws_slug v \<noteq> []" using assms(1) by (simp add: v_def workspace_ok_def)
    show "ws_routes v \<noteq> []" using dv by auto
    show "ws_default v \<in> fst ` set (ws_routes v)" using dv by (simp add: v_def)
    show "\<forall>(n, r) \<in> set (ws_routes v). n = route_name r \<and> route_ok r"
      using assms(1) unfolding set_v by (auto simp: workspace_ok_def)
    show "distinct (routes_ids (ws_routes v))"
      using assms(1) by (simp add: v_def AList.delete_eq distinct_routes_ids_filter workspace_ok_def)
  qed
  moreover have "ledger_ok v"
  proof -
    have "snd ` set (ws_routes v) \<subseteq> snd ` set (ws_routes w)" unfolding set_v by auto
    moreover have "gomap (ws_routes v)" using g by (simp add: v_def distinct_delete)
    moreover have "ws_generations v = ws_generations w" by (simp add: v_def)
    ultimately show ?thesis using assms(2) unfolding ledger_ok_def by auto
  qed
  ultimately show ?thesis ..
qed

lemma deleteRoute_iff:
  assumes "workspace_ok w" and "ledger_ok w"
  shows "deleteRoute name replacement w = Inr v \<longleftrightarrow>
    name \<in> fst ` set (ws_routes w) \<and> 1 < length (ws_routes w) \<and>
    (\<exists>d. remaining_default w name replacement = Some d \<and>
       v = w\<lparr>ws_default := d, ws_routes := AList.delete name (ws_routes w)\<rparr>)"
proof -
  have some: "map_of (ws_routes w) n = None \<longleftrightarrow> n \<notin> fst ` set (ws_routes w)" for n
    by (simp add: map_of_eq_None_iff)
  have len: "length (ws_routes w) \<noteq> 1 \<longleftrightarrow> 1 < length (ws_routes w)"
    using assms(1) by (cases "ws_routes w") (auto simp: workspace_ok_def)
  have keep: "restore (w\<lparr>ws_default := d, ws_routes := AList.delete name (ws_routes w)\<rparr>) =
      Inr (w\<lparr>ws_default := d, ws_routes := AList.delete name (ws_routes w)\<rparr>)"
    if "1 < length (ws_routes w)" "remaining_default w name replacement = Some d" for d
    using without_route_ok [OF assms that] ok_candidate restore_iff by blast
  have "deleteRoute name replacement w =
      (if name \<notin> fst ` set (ws_routes w) then Inl (route_missing name)
       else if length (ws_routes w) = 1
       then Inl (ErrLastRoute (Text ''delete the workspace instead''))
       else case remaining_default w name replacement of
         Some d \<Rightarrow> restore (w\<lparr>ws_default := d, ws_routes := AList.delete name (ws_routes w)\<rparr>)
       | None \<Rightarrow> (case replacement of None \<Rightarrow> Inl ErrDefaultReplacementRequired
           | Some r \<Rightarrow> if r = name
               then Inl (ErrConflict (Text ''replacement must differ from deleted route''))
               else Inl (ErrNotFound (Sprintf ''replacement route %q'' [r]))))"
    unfolding deleteRoute_def remaining_default_def some by (simp split: option.split)
  then show ?thesis using keep len by (auto split: option.splits if_splits)
qed

lemma editWorkspace_ok:
  assumes "config_ok c" and "map_of c slug = Some w" and "edit w = Inr v"
    and "workspace_ok v" and "ws_slug v = ws_slug w"
  shows "editWorkspace c slug edit = Inr (AList.update slug v c)"
proof -
  have g: "gomap c" using assms(1) by (simp add: config_ok_def)
  have s: "slug = ws_slug w" using config_ok_workspace [OF assms(1,2)] by simp
  have set': "set (AList.update slug v c) = insert (slug, v) {x \<in> set c. fst x \<noteq> slug}"
    using g by (rule set_update_gomap)
  have "\<forall>(k, u) \<in> set (AList.update slug v c). k = ws_slug u \<and> workspace_ok u"
    using assms(1,4,5) unfolding set' config_ok_def by (auto simp: s)
  then have "NewConfig (Workspaces (AList.update slug v c)) = Inr (AList.update slug v c)"
    using g by (intro NewConfig_iff [THEN iffD2]) (auto intro: distinct_update)
  then show ?thesis using assms(2,3) by (simp add: editWorkspace_def)
qed

text \<open>
  Deleting a route succeeds exactly when the route exists, is not the last one, and, if
  it is the default, a different existing replacement is named. The result keeps every other
  route, workspace and all recorded generations.
\<close>

theorem DeleteRoute_exact:
  assumes "config_reachable c" and "map_of c slug = Some w"
  shows "DeleteRoute c slug name replacement = Inr c' \<longleftrightarrow>
    name \<in> fst ` set (ws_routes w) \<and> 1 < length (ws_routes w) \<and>
    (\<exists>d. remaining_default w name replacement = Some d \<and>
       c' = AList.update slug
         (w\<lparr>ws_default := d, ws_routes := AList.delete name (ws_routes w)\<rparr>) c)"
    (is "?l = ?r")
proof -
  have c: "config_ok c" using assms(1) by (rule reachable_ok)
  note w = config_ok_workspace [OF c assms(2)]
  note iff = deleteRoute_iff [of w name replacement]
  show ?thesis
  proof
    assume ?l
    then show ?r
      using delete_route.editWorkspace_result [OF c, of slug name replacement c'] assms(2) w iff
      by (auto simp: DeleteRoute_def)
  next
    assume r: ?r
    then obtain d where d: "remaining_default w name replacement = Some d"
      and c': "c' = AList.update slug
        (w\<lparr>ws_default := d, ws_routes := AList.delete name (ws_routes w)\<rparr>) c" by blast
    let ?v = "w\<lparr>ws_default := d, ws_routes := AList.delete name (ws_routes w)\<rparr>"
    have "deleteRoute name replacement w = Inr ?v" using r d w iff by blast
    moreover have "workspace_ok ?v" using without_route_ok r d w by blast
    ultimately show ?l
      unfolding c' DeleteRoute_def by (intro editWorkspace_ok [OF c assms(2)]) simp_all
  qed
qed

section \<open>A concrete history\<close>

text \<open>
  A workspace with one route; a second route is added for target \<open>b\<close>, deleted, and added
  again with another model: target \<open>b\<close> then has version 2.
\<close>

definition sample_config :: "(string \<times> Route) list \<Rightarrow> (string \<times> TargetVersion) list \<Rightarrow> Config" where
  "sample_config rs gs =
     [(''dev'', \<lparr>ws_slug = ''dev'', ws_default = ''main'', ws_routes = rs, ws_generations = gs\<rparr>)]"

definition cfg1 :: Config where
  "cfg1 = sample_config [sample_route ''main'' (sample_target ''a'' 1 ''gpt'')] [(''a'', 1)]"

definition cfg2 :: Config where
  "cfg2 = sample_config [sample_route ''main'' (sample_target ''a'' 1 ''gpt''),
     sample_route ''side'' (sample_target ''b'' 1 ''gpt'')] [(''a'', 1), (''b'', 1)]"

definition cfg3 :: Config where
  "cfg3 = sample_config [sample_route ''main'' (sample_target ''a'' 1 ''gpt'')] [(''a'', 1), (''b'', 1)]"

definition cfg4 :: Config where
  "cfg4 = sample_config [sample_route ''main'' (sample_target ''a'' 1 ''gpt''),
     sample_route ''side'' (sample_target ''b'' 2 ''other'')] [(''a'', 1), (''b'', 2)]"

lemma sample_edits:
  "apply_edit [] (ECreateWorkspace \<lparr>seed_Slug = ''dev'', seed_Route = ''main'',
     seed_Target = sample_target ''a'' 1 ''gpt''\<rparr>) = Inr cfg1"
  "apply_edit cfg1 (ECreateRoute ''dev'' ''side'' (sample_target ''b'' 1 ''gpt'')) = Inr cfg2"
  "apply_edit cfg2 (EDeleteRoute ''dev'' ''side'' None) = Inr cfg3"
  "apply_edit cfg3 (ECreateRoute ''dev'' ''side'' (sample_target ''b'' 1 ''other'')) = Inr cfg4"
  by code_simp+

lemma sample_reachable:
  "config_reachable cfg1" "config_reachable cfg2" "config_reachable cfg3" "config_reachable cfg4"
proof -
  show 1: "config_reachable cfg1"
    by (rule config_reachable.edit [OF config_reachable.empty sample_edits(1)])
  show 2: "config_reachable cfg2" by (rule config_reachable.edit [OF 1 sample_edits(2)])
  show 3: "config_reachable cfg3" by (rule config_reachable.edit [OF 2 sample_edits(3)])
  show "config_reachable cfg4" by (rule config_reachable.edit [OF 3 sample_edits(4)])
qed

lemma sample_history: "workspace_history ''dev'' cfg1 cfg4"
proof -
  have 1: "workspace_history ''dev'' cfg1 cfg1" by (rule workspace_history.start)
  have 2: "workspace_history ''dev'' cfg1 cfg2"
    by (rule workspace_history.later [OF 1 sample_edits(2)]) simp
  have 3: "workspace_history ''dev'' cfg1 cfg3"
    by (rule workspace_history.later [OF 2 sample_edits(3)]) simp
  show ?thesis by (rule workspace_history.later [OF 3 sample_edits(4)]) simp
qed

theorem reachable_config_ok_witness: "config_reachable cfg4 \<and> config_ok cfg4"
  using reachable_config_ok [of cfg4] sample_reachable by blast

lemma cfg_dev:
  "map_of cfg1 ''dev'' = Some (snd (hd cfg1))" "map_of cfg2 ''dev'' = Some (snd (hd cfg2))"
  "map_of cfg4 ''dev'' = Some (snd (hd cfg4))"
  by (simp_all add: cfg1_def cfg2_def cfg4_def sample_config_def)

theorem target_version_identifies_witness:
  "workspace_history ''dev'' cfg1 cfg4 \<and>
   sample_target ''a'' 1 ''gpt'' \<in> active_targets (snd (hd cfg4)) \<and>
   effective (sample_target ''a'' 1 ''gpt'') = effective (sample_target ''a'' 1 ''gpt'')"
proof -
  have a: "sample_target ''a'' 1 ''gpt'' \<in> active_targets (snd (hd cfg1))"
    "sample_target ''a'' 1 ''gpt'' \<in> active_targets (snd (hd cfg4))"
    by (simp_all add: cfg1_def cfg4_def sample_config_def sample_route_def active_targets_def
        route_targets_def)
  show ?thesis
    using target_version_identifies [OF sample_reachable(1) sample_history cfg_dev(1,3) a refl refl]
      sample_history a by blast
qed

theorem apply_own_spec_witness:
  "ConfigApplyRouteSpec cfg4 ''dev'' ''side''
     (Spec (snd (sample_route ''side'' (sample_target ''b'' 2 ''other'')))) = Inr cfg4"
  by (rule apply_own_spec [OF sample_reachable(4) cfg_dev(3)])
    (simp add: cfg4_def sample_config_def sample_route_def)

theorem reconcile_versions_witness:
  "list_all2 (list_all2 (version_rule (snd (sample_route ''side'' (sample_target ''b'' 2 ''other'')))
       [(''b'', 2), (''c'', 7)]))
     [[target_spec (sample_target ''b'' 1 ''new'')], [target_spec (sample_target ''c'' 1 ''gpt'')]]
     [[sample_target ''b'' 3 ''new''], [sample_target ''c'' 8 ''gpt'']]"
proof -
  have "route_ok (snd (sample_route ''side'' (sample_target ''b'' 2 ''other'')))"
    by (simp add: sample_route_def sample_target_def route_ok_def route_targets_def target_ok_def)
  moreover have "applyRouteSpec (snd (sample_route ''side'' (sample_target ''b'' 2 ''other'')))
     [[target_spec (sample_target ''b'' 1 ''new'')], [target_spec (sample_target ''c'' 1 ''gpt'')]]
     [(''b'', 2), (''c'', 7)] =
     Inr \<lparr>route_name = ''side'',
       route_tiers = [[sample_target ''b'' 3 ''new''], [sample_target ''c'' 8 ''gpt'']]\<rparr>"
    by code_simp
  ultimately show ?thesis using reconcile_versions by fastforce
qed

theorem version_exhausted_witness:
  "\<exists>e. targetFromSpec (target_spec (sample_target ''b'' 1 ''new''))
     (sample_target ''b'' maxVersion ''other'') 0 = Inl e"
  by (rule version_exhausted)
    (simp_all add: sample_target_def target_ok_def maxVersion_def target_spec_def settings_of_def
      settingsEqual_def)

theorem ResolveRoute_total_witness:
  "ResolveRoute (snd (hd cfg4)) ''unknown'' = Inr (snd (sample_route ''main''
     (sample_target ''a'' 1 ''gpt'')))"
proof -
  have "''unknown'' \<notin> fst ` set (ws_routes (snd (hd cfg4)))"
    "lookup_route (snd (hd cfg4)) (ws_default (snd (hd cfg4))) =
       snd (sample_route ''main'' (sample_target ''a'' 1 ''gpt''))"
    "TrimSpace ''unknown'' \<noteq> []"
    by (simp add: cfg4_def sample_config_def sample_route_def lookup_route_def) code_simp+
  then show ?thesis
    using ResolveRoute_total [OF sample_reachable(4) cfg_dev(3), of "''unknown''"] by simp
qed

theorem DeleteRoute_exact_witness:
  "DeleteRoute cfg2 ''dev'' ''main'' (Some ''side'') = Inr
     (AList.update ''dev'' ((snd (hd cfg2))\<lparr>ws_default := ''side'',
        ws_routes := AList.delete ''main'' (ws_routes (snd (hd cfg2)))\<rparr>) cfg2)"
proof -
  have "''main'' \<in> fst ` set (ws_routes (snd (hd cfg2)))" "1 < length (ws_routes (snd (hd cfg2)))"
    "remaining_default (snd (hd cfg2)) ''main'' (Some ''side'') = Some ''side''"
    by (simp_all add: cfg2_def sample_config_def sample_route_def remaining_default_def)
  then show ?thesis
    using DeleteRoute_exact [OF sample_reachable(2) cfg_dev(2)] by blast
qed

end
