(* ===== verification/Routing_Finalize.thy ===== *)
theory Routing_Finalize
  imports Routing_Model
begin

text \<open>
  Finalization of raw target and connection input
  (\<^verbatim>\<open>src/internal/routing/finalize.go\<close>), the one interpretation path of persistence and
  operator transports. The provider catalog enters as construction facts: functions that
  may be nil.
\<close>

record StandardConnectionDraft =
  sd_Locator :: string
  sd_Credential :: string

record ZAIConnectionDraft =
  zd_Access :: string
  zd_Credential :: string

record BedrockConnectionDraft =
  bd_Region :: string
  bd_Endpoint :: string
  bd_Credential :: string

record CustomHeaderDraft =
  hd_Name :: string
  hd_Credential :: string

record CustomConnectionDraft =
  cd_BaseURL :: string
  cd_Header :: "CustomHeaderDraft option"

record ConnectionDraft =
  cdr_Provider :: string
  cdr_Standard :: "StandardConnectionDraft option"
  cdr_ZAI :: "ZAIConnectionDraft option"
  cdr_Bedrock :: "BedrockConnectionDraft option"
  cdr_Custom :: "CustomConnectionDraft option"

record TargetDraft =
  td_ID :: string
  td_Model :: string
  td_Protocol :: string
  td_Connection :: ConnectionDraft

text \<open>\<open>NormalizeAzureProjectLocator\<close> is a field of the facts that no code of the package reads.\<close>

record TargetConstructionFacts =
  ProviderSupported :: ProviderSupport
  fact_ConnectionShape :: "(string \<Rightarrow> ConnectionShape option) option"
  ValidateStandardConnection ::
    "(string \<Rightarrow> StandardConnectionDraft \<Rightarrow> routing_error + StandardConnectionDraft) option"
  ProtocolSupported :: ProtocolSupport
  NormalizeProtocol :: "(string \<Rightarrow> string \<Rightarrow> message + string) option"
  DerivedProtocol :: "(string \<Rightarrow> string option) option"
  NormalizeAzureProjectLocator :: "(string \<Rightarrow> message + string) option"
  BedrockRegionSupported :: "(string \<Rightarrow> bool) option"

definition finalizeHeader ::
    "platform \<Rightarrow> CustomHeaderDraft option \<Rightarrow> routing_error + CustomAuth option" where
  "finalizeHeader p h =
     (case h of None \<Rightarrow> Inr None
      | Some header \<Rightarrow> and_then (NewCustomHeaderAuth p (hd_Name header) (hd_Credential header))
          (\<lambda>auth. Inr (Some auth)))"

text \<open>The exhaustive switch over the durable shapes.\<close>

definition finalizeShape ::
    "platform \<Rightarrow> ConnectionDraft \<Rightarrow> TargetConstructionFacts \<Rightarrow> string \<Rightarrow> ConnectionShape \<Rightarrow>
     routing_error + Connection" where
  "finalizeShape p draft facts provider shape =
     (case shape of
        ConnectionShapeStandard \<Rightarrow>
          (case cdr_Standard draft of
             None \<Rightarrow> pathError ''target.connection''
               (Text ''provider connection details are required'')
           | Some standardDraft \<Rightarrow>
               (case ValidateStandardConnection facts of
                  None \<Rightarrow> pathError ''connection.provider''
                    (Text ''provider connection validation is unavailable'')
                | Some validate \<Rightarrow> and_then (validate provider standardDraft)
                    (\<lambda>standard. NewStandardConnection p provider
                      (sd_Locator standard) (sd_Credential standard))))
      | ConnectionShapeZAI \<Rightarrow>
          (case cdr_ZAI draft of
             None \<Rightarrow> pathError ''target.connection''
               (Text ''provider access selection is required'')
           | Some zai \<Rightarrow> and_then (ParseZAIAccess (zd_Access zai))
               (\<lambda>access. NewZAIConnection p provider access (zd_Credential zai)))
      | ConnectionShapeBedrock \<Rightarrow>
          (case cdr_Bedrock draft of
             None \<Rightarrow> pathError ''target.connection''
               (Text ''provider region and endpoint are required'')
           | Some bedrock \<Rightarrow>
               if (case BedrockRegionSupported facts of None \<Rightarrow> True
                   | Some supported \<Rightarrow> \<not> supported (bd_Region bedrock))
               then pathError ''connection.bedrock.region''
                 (Sprintf ''unsupported region %q'' [bd_Region bedrock])
               else and_then (ParseBedrockRegion (bd_Region bedrock))
                 (\<lambda>region. NewBedrockConnection p provider region
                   (bd_Endpoint bedrock) (bd_Credential bedrock)))
      | ConnectionShapeCustom \<Rightarrow>
          (case cdr_Custom draft of
             None \<Rightarrow> pathError ''target.connection''
               (Text ''provider endpoint configuration is required'')
           | Some custom \<Rightarrow> and_then (finalizeHeader p (cd_Header custom))
               (\<lambda>auth. NewCustomConnection p provider (cd_BaseURL custom) auth))
      | _ \<Rightarrow> pathError ''connection.provider''
          (Text ''provider connection requirements are unsupported''))"

definition presentDrafts :: "ConnectionDraft \<Rightarrow> nat" where
  "presentDrafts draft = length (filter (\<lambda>present. present)
     [cdr_Standard draft \<noteq> None, cdr_ZAI draft \<noteq> None, cdr_Bedrock draft \<noteq> None,
      cdr_Custom draft \<noteq> None])"

definition FinalizeConnection ::
    "platform \<Rightarrow> ConnectionDraft \<Rightarrow> TargetConstructionFacts \<Rightarrow> routing_error + Connection" where
  "FinalizeConnection p draft facts =
     and_then (ParseProvider (cdr_Provider draft) (ProviderSupported facts)) (\<lambda>provider.
       case fact_ConnectionShape facts of
         None \<Rightarrow> pathError ''connection.provider''
           (Text ''provider connection requirements are unavailable'')
       | Some shapeOf \<Rightarrow>
           (case shapeOf provider of
              None \<Rightarrow> pathError ''connection.provider''
                (Text ''provider connection requirements are unsupported'')
            | Some shape \<Rightarrow>
                if presentDrafts draft \<noteq> 1
                then pathError ''target.connection''
                  (Text ''exactly one provider connection is required'')
                else finalizeShape p draft facts provider shape))"

text \<open>The protocol of a target: normalized, then derived or parsed.\<close>

definition finalizeProtocol ::
    "string \<Rightarrow> string \<Rightarrow> TargetConstructionFacts \<Rightarrow> routing_error + Protocol" where
  "finalizeProtocol raw provider facts =
     and_then (case NormalizeProtocol facts of
         None \<Rightarrow> Inr (TrimSpace raw)
       | Some normalizer \<Rightarrow>
           (case normalizer provider (TrimSpace raw) of
              Inl e \<Rightarrow> pathError ''target.protocol'' e
            | Inr normalized \<Rightarrow> Inr normalized))
       (\<lambda>rawProtocol.
         case (case DerivedProtocol facts of None \<Rightarrow> None | Some derive \<Rightarrow> derive provider) of
           Some derivedProtocol \<Rightarrow>
             if rawProtocol \<noteq> []
             then pathError ''target.protocol''
               (Text ''provider protocol is derived and must be omitted'')
             else ParseProtocol derivedProtocol provider (ProtocolSupported facts)
         | None \<Rightarrow> ParseProtocol rawProtocol provider (ProtocolSupported facts))"

definition FinalizeTarget ::
    "platform \<Rightarrow> TargetDraft \<Rightarrow> TargetConstructionFacts \<Rightarrow> routing_error + Target" where
  "FinalizeTarget p draft facts =
     and_then (ParseTargetID (td_ID draft)) (\<lambda>tid.
     and_then (ParseUpstreamModel (td_Model draft)) (\<lambda>model.
     and_then (FinalizeConnection p (td_Connection draft) facts) (\<lambda>connection.
     and_then (finalizeProtocol (td_Protocol draft) (conn_provider connection) facts) (\<lambda>protocol.
       NewTarget tid model protocol (Some connection)))))"

section \<open>What finalization guarantees\<close>

text \<open>The result fits the catalog facts it was finalized with.\<close>

definition fits_facts :: "TargetConstructionFacts \<Rightarrow> Connection \<Rightarrow> bool" where
  "fits_facts facts c \<longleftrightarrow>
     (\<exists>supports shapeOf. ProviderSupported facts = Some supports \<and> supports (conn_provider c) \<and>
        fact_ConnectionShape facts = Some shapeOf \<and>
        shapeOf (conn_provider c) = Some (shape_of c))"

definition draft_shape :: "ConnectionDraft \<Rightarrow> ConnectionShape \<Rightarrow> bool" where
  "draft_shape draft shape \<longleftrightarrow>
     (cdr_Standard draft \<noteq> None \<longleftrightarrow> shape = ConnectionShapeStandard) \<and>
     (cdr_ZAI draft \<noteq> None \<longleftrightarrow> shape = ConnectionShapeZAI) \<and>
     (cdr_Bedrock draft \<noteq> None \<longleftrightarrow> shape = ConnectionShapeBedrock) \<and>
     (cdr_Custom draft \<noteq> None \<longleftrightarrow> shape = ConnectionShapeCustom)"

lemma ParseProvider_iff [result_simps]:
  "ParseProvider raw supports = Inr provider \<longleftrightarrow>
     provider = TrimSpace raw \<and> provider \<noteq> [] \<and> (\<exists>f. supports = Some f \<and> f provider)"
  by (auto simp: ParseProvider_def Let_def split: option.splits if_splits)

lemma ParseProtocol_iff [result_simps]:
  "ParseProtocol raw provider supports = Inr q \<longleftrightarrow>
     TrimSpace raw \<noteq> [] \<and> (\<exists>f. supports = Some f \<and> f provider (TrimSpace raw)) \<and>
     q = \<lparr>protocol_value = TrimSpace raw, protocol_provider = provider\<rparr>"
  by (auto simp: ParseProtocol_def Let_def split: option.splits if_splits)

lemma finalizeHeader_ok:
  "finalizeHeader p h = Inr auth \<Longrightarrow> platform_ok p \<Longrightarrow> auth = Some a \<Longrightarrow> auth_ok a"
  by (auto simp: finalizeHeader_def result_simps NewCustomHeaderAuth_ok split: option.splits)

lemma finalizeShape_ok:
  assumes "finalizeShape p draft facts provider shape = Inr c" and "platform_ok p"
    and "presentDrafts draft = 1"
  shows "connection_ok c \<and> shape_of c = shape \<and> conn_provider c = provider \<and>
    draft_shape draft shape"
proof (cases shape)
  case ConnectionShapeStandard
  then obtain d and v :: StandardConnectionDraft where "cdr_Standard draft = Some d"
    and v: "NewStandardConnection p provider (sd_Locator v) (sd_Credential v) = Inr c"
    using assms(1) by (auto simp: finalizeShape_def result_simps split: option.splits)
  then show ?thesis
    using NewStandardConnection_ok [OF v assms(2)] assms(3) ConnectionShapeStandard
    by (auto simp: draft_shape_def presentDrafts_def split: if_splits)
next
  case ConnectionShapeZAI
  then obtain d a where "cdr_ZAI draft = Some d"
    and v: "NewZAIConnection p provider a (zd_Credential d) = Inr c"
    using assms(1) by (auto simp: finalizeShape_def result_simps split: option.splits)
  then show ?thesis
    using NewZAIConnection_ok [OF v assms(2)] assms(3) ConnectionShapeZAI
    by (auto simp: draft_shape_def presentDrafts_def split: if_splits)
next
  case ConnectionShapeBedrock
  then obtain d r where "cdr_Bedrock draft = Some d"
    and r: "ParseBedrockRegion (bd_Region d) = Inr r"
    and v: "NewBedrockConnection p provider r (bd_Endpoint d) (bd_Credential d) = Inr c"
    using assms(1) by (auto simp: finalizeShape_def result_simps split: option.splits if_splits)
  then show ?thesis
    using NewBedrockConnection_ok [OF v assms(2) ParseBedrockRegion_ok [OF r]] assms(3)
      ConnectionShapeBedrock
    by (auto simp: draft_shape_def presentDrafts_def split: if_splits)
next
  case ConnectionShapeCustom
  then obtain d a where "cdr_Custom draft = Some d"
    and a: "finalizeHeader p (cd_Header d) = Inr a"
    and v: "NewCustomConnection p provider (cd_BaseURL d) a = Inr c"
    using assms(1) by (auto simp: finalizeShape_def result_simps split: option.splits)
  then show ?thesis
    using NewCustomConnection_ok [OF v finalizeHeader_ok [OF a assms(2)]] assms(3)
      ConnectionShapeCustom
    by (auto simp: draft_shape_def presentDrafts_def split: if_splits)
qed (use assms(1) in \<open>simp add: finalizeShape_def\<close>)

lemma FinalizeConnection_ok:
  assumes "FinalizeConnection p draft facts = Inr c" and "platform_ok p"
  shows "connection_ok c \<and> conn_provider c = TrimSpace (cdr_Provider draft) \<and>
    fits_facts facts c \<and> draft_shape draft (shape_of c)"
proof -
  from assms(1) obtain supports shapeOf shape where
    s: "ProviderSupported facts = Some supports" "supports (TrimSpace (cdr_Provider draft))"
    and f: "fact_ConnectionShape facts = Some shapeOf"
      "shapeOf (TrimSpace (cdr_Provider draft)) = Some shape"
    and one: "presentDrafts draft = 1"
    and c: "finalizeShape p draft facts (TrimSpace (cdr_Provider draft)) shape = Inr c"
    by (auto simp: FinalizeConnection_def result_simps split: option.splits)
  show ?thesis
    using finalizeShape_ok [OF c assms(2) one] s f by (auto simp: fits_facts_def)
qed

lemma finalizeProtocol_ok:
  assumes "finalizeProtocol raw provider facts = Inr q"
  shows "protocol_provider q = provider \<and> protocol_value q \<noteq> [] \<and>
    (\<exists>f. ProtocolSupported facts = Some f \<and> f provider (protocol_value q)) \<and>
    (\<forall>derive d. DerivedProtocol facts = Some derive \<longrightarrow> derive provider = Some d \<longrightarrow>
       protocol_value q = TrimSpace d)"
  using assms
  by (auto simp: finalizeProtocol_def result_simps split: option.splits sum.splits if_splits)

text \<open>
  C39: a raw target that finalization accepts is a valid target of version 1 with the given
  ID and trimmed model; its connection has exactly the durable shape the catalog demands of
  the provider and satisfies that shape's constraints; its protocol belongs to the same
  provider, is supported for it, and is the derived one whenever the catalog derives it.
\<close>

theorem FinalizeTarget_sound:
  assumes "platform_ok p" and "FinalizeTarget p draft facts = Inr t"
  shows "target_ok t \<and> target_id t = td_ID draft \<and> target_version t = 1 \<and>
    target_model t = TrimSpace (td_Model draft) \<and>
    (\<exists>c. target_connection t = Some c \<and> connection_ok c \<and> fits_facts facts c \<and>
       draft_shape (td_Connection draft) (shape_of c) \<and>
       conn_provider c = TrimSpace (cdr_Provider (td_Connection draft)) \<and>
       (\<exists>f. ProtocolSupported facts = Some f \<and>
          f (conn_provider c) (protocol_value (target_protocol t))) \<and>
       (\<forall>derive d. DerivedProtocol facts = Some derive \<longrightarrow>
          derive (conn_provider c) = Some d \<longrightarrow>
          protocol_value (target_protocol t) = TrimSpace d))"
proof -
  from assms(2) obtain c q where
    tid: "ParseTargetID (td_ID draft) = Inr (td_ID draft)"
    and c: "FinalizeConnection p (td_Connection draft) facts = Inr c"
    and q: "finalizeProtocol (td_Protocol draft) (conn_provider c) facts = Inr q"
    and t: "NewTarget (td_ID draft) (TrimSpace (td_Model draft)) q (Some c) = Inr t"
    by (auto simp: FinalizeTarget_def result_simps ParseTargetID_def ParseUpstreamModel_def
        Let_def split: if_splits)
  have "target_ok t" "t = \<lparr>target_id = td_ID draft, target_version = 1,
      target_model = TrimSpace (td_Model draft), target_protocol = q,
      target_connection = Some c\<rparr>"
    using t by (auto simp: NewTarget_Restore RestoreTarget_iff initialTargetVersion_def)
  then show ?thesis
    using FinalizeConnection_ok [OF c assms(1)] finalizeProtocol_ok [OF q] by simp
qed

section \<open>A concrete finalization\<close>

definition sample_platform :: platform where
  "sample_platform = \<lparr>unicode_lower = (\<lambda>s. s),
     url_Parse = (\<lambda>s. if HasPrefix s ''https://'' then
        Some \<lparr>url_scheme = ''https'', url_host = drop 8 s, url_has_user = False\<rparr> else None),
     filepath_IsAbs = (\<lambda>s. HasPrefix s ''/'')\<rparr>"

definition sample_facts :: TargetConstructionFacts where
  "sample_facts = \<lparr>ProviderSupported = Some (\<lambda>s. s = ''openai''),
     fact_ConnectionShape = Some (\<lambda>s. Some ConnectionShapeStandard),
     ValidateStandardConnection = Some (\<lambda>_ d. Inr d),
     ProtocolSupported = Some (\<lambda>_ s. s = ''responses''),
     NormalizeProtocol = None, DerivedProtocol = None, NormalizeAzureProjectLocator = None,
     BedrockRegionSupported = None\<rparr>"

definition sample_draft :: TargetDraft where
  "sample_draft = \<lparr>td_ID = ''a'', td_Model = '' gpt '', td_Protocol = ''responses'',
     td_Connection = \<lparr>cdr_Provider = ''openai'',
       cdr_Standard = Some \<lparr>sd_Locator = ''https://api.openai.com/v1/'', sd_Credential = ''env:KEY''\<rparr>,
       cdr_ZAI = None, cdr_Bedrock = None, cdr_Custom = None\<rparr>\<rparr>"

theorem FinalizeTarget_sound_witness:
  "FinalizeTarget sample_platform sample_draft sample_facts = Inr (sample_target ''a'' 1 ''gpt'') \<and>
   target_ok (sample_target ''a'' 1 ''gpt'') \<and> target_version (sample_target ''a'' 1 ''gpt'') = 1"
proof -
  have p: "platform_ok sample_platform" by (simp add: platform_ok_def sample_platform_def)
  have t: "FinalizeTarget sample_platform sample_draft sample_facts =
      Inr (sample_target ''a'' 1 ''gpt'')" by code_simp
  show ?thesis using FinalizeTarget_sound [OF p t] t by blast
qed

section \<open>Direct file paths with a colon\<close>

lemma Cut_colon: "c \<notin> set before \<Longrightarrow> Cut (before @ c # after) c = (before, after, True)"
  by (induction before) (auto simp: Cut_def)

text \<open>
  A credential locator that is a direct absolute file path is cut at its first colon
  like a scheme locator: the path is classified as a file reference, yet it is refused
  whenever the text after the colon is not itself an absolute or home-relative path.
\<close>

theorem direct_path_colon_refused:
  assumes "TrimSpace raw = CHR ''/'' # dir @ CHR '':'' # rest" and "CHR '':'' \<notin> set dir"
    and "list_all ascii_char (TrimSpace raw)" and "TrimSpace rest \<noteq> []"
    and "\<not> filepath_IsAbs p (TrimSpace rest)" and "\<not> HasPrefix (TrimSpace rest) ''~/''"
  shows "IsFileRef (credentialref_Parse p raw) \<and>
    parseCredential p path raw =
      pathError path (Text ''credential file path must be absolute or home-relative'')"
proof -
  have low: "ToLower p (TrimSpace raw) = CHR ''/'' # map ascii_lower (dir @ CHR '':'' # rest)"
    using assms(3) unfolding ToLower_def assms(1) by (simp add: ascii_lower_def) code_simp
  have kind: "ref_kind (credentialref_Parse p raw) = KindFile"
    unfolding credentialref_Parse_def Let_def low
    by (simp add: classify_def has_scheme_def HasPrefix_def)
  have "Cut (TrimSpace raw) (CHR '':'') = (CHR ''/'' # dir, rest, True)"
    unfolding assms(1) using Cut_colon [of "CHR '':''" "CHR ''/'' # dir" rest] assms(2) by simp
  then show ?thesis
    using kind assms(4-6) assms(1) unfolding parseCredential_def IsFileRef_def ref_String_Parse
    by (simp add: Let_def)
qed

theorem direct_path_colon_refused_witness:
  "IsFileRef (credentialref_Parse sample_platform ''/keys:prod'') \<and>
   parseCredential sample_platform ''credential'' ''/keys:prod'' =
     pathError ''credential'' (Text ''credential file path must be absolute or home-relative'')"
  by (rule direct_path_colon_refused [where dir = "''keys''" and rest = "''prod''"]) code_simp+

end
