(* ===== verification/Provider_Failure.thy ===== *)
theory Provider_Failure
  imports Prelude
begin

text \<open>
  Failures of provider calls (\<^verbatim>\<open>src/internal/provider/failure.go\<close>) over the error values of
  \<^verbatim>\<open>src/internal/domain/canonical/errors.go\<close>.

  A non-nil Go error is a tree: the dynamic types the code distinguishes are constructors, and
  \<open>Wrapped\<close> stands for every other error with the errors it unwraps to
  (\<^verbatim>\<open>fmt.Errorf\<close> with \<^verbatim>\<open>%w\<close>, \<^verbatim>\<open>errors.Join\<close>). \<open>err_chain\<close> is the pre-order walk of
  \<^verbatim>\<open>errors.As\<close> and \<^verbatim>\<open>errors.Is\<close>. Instants and durations are integers in nanoseconds; the zero
  \<^verbatim>\<open>time.Time\<close> is 0.
\<close>

section \<open>Errors\<close>

datatype ErrorCode =
    ErrorCodeInternal | ErrorCodeUnsupportedEndpoint | ErrorCodeUnsupportedOperation
  | ErrorCodeUnsupportedDelivery | ErrorCodeBadEndpoint | ErrorCodeBadRequest
  | ErrorCodeUnknownTarget | ErrorCodeNotImplemented | ErrorCodeNoAvailableTarget
  | ErrorCodeProviderTimeout | ErrorCodeProviderUnavailable | ErrorCodeOther string

datatype BackendErrorClass =
    BackendErrorClassToolChoiceUnsupported | BackendErrorClassContinuationReferenceInvalid
  | BackendErrorClassOther string

record BackendErrorDetail =
  bd_Code :: string
  bd_Type :: string
  bd_Message :: string
  bd_Param :: string
  bd_RequestID :: string

record BackendErrorFields =
  be_TargetID :: string
  be_StatusCode :: int
  be_Message :: string
  be_RetryAfterHeaderValue :: string
  be_ProviderError :: "BackendErrorDetail option"

text \<open>\<open>ExecutionInvalid\<close> stands for every value outside the three constants, zero included.\<close>

datatype ExecutionPossibility =
    ExecutionInvalid | ExecutionNotDispatched | ExecutionRejectedBeforeExecution
  | ExecutionMayHaveOccurred

datatype go_error =
    ContextCanceled
  | ContextDeadlineExceeded
  | NetError bool bool "go_error option"
      \<comment> \<open>\<open>Timeout()\<close>; whether its \<open>Is\<close> method reports the context deadline; its cause\<close>
  | BackendError BackendErrorFields
  | ClassifiedBackendError BackendErrorClass BackendErrorFields
  | CanonicalError ErrorCode message "go_error option"
  | AttemptFailureError ExecutionPossibility "go_error option"
  | UnavailableError "go_error option"
  | TimeoutError "go_error option"
  | RejectedError "go_error option"
  | TargetUnavailableError "go_error option"
  | TargetIncompatibleError "go_error option"
  | InvalidRequestError "go_error option"
  | CancelledError "go_error option"
  | InternalError "go_error option"
  | Staged string go_error
  | Panicked string \<comment> \<open>a panic of the called code\<close>
  | Wrapped message "go_error list"

text \<open>
  A panic is no error value: whoever calls the code that panics does not get a result. The
  models propagate it past every handler of errors.
\<close>

fun is_panic :: "go_error \<Rightarrow> bool" where
  "is_panic (Panicked _) \<longleftrightarrow> True" | "is_panic _ \<longleftrightarrow> False"

definition no_panic :: "go_error + 'a \<Rightarrow> bool" where
  "no_panic r \<longleftrightarrow> (\<forall>e. r = Inl e \<longrightarrow> \<not> is_panic e)"

lemma no_panic_simps [simp]: "no_panic (Inr a)" "no_panic (Inl e) \<longleftrightarrow> \<not> is_panic e"
  by (simp_all add: no_panic_def)

lemma no_panic_and_then:
  "no_panic r \<Longrightarrow> (\<And>a. r = Inr a \<Longrightarrow> no_panic (f a)) \<Longrightarrow> no_panic (and_then r f)"
  by (cases r) simp_all

fun err_chain :: "go_error \<Rightarrow> go_error list" where
  "err_chain (ClassifiedBackendError c b) = [ClassifiedBackendError c b, BackendError b]"
| "err_chain (NetError t d (Some e)) = NetError t d (Some e) # err_chain e"
| "err_chain (CanonicalError k m (Some e)) = CanonicalError k m (Some e) # err_chain e"
| "err_chain (AttemptFailureError x (Some e)) = AttemptFailureError x (Some e) # err_chain e"
| "err_chain (UnavailableError (Some e)) = UnavailableError (Some e) # err_chain e"
| "err_chain (TimeoutError (Some e)) = TimeoutError (Some e) # err_chain e"
| "err_chain (RejectedError (Some e)) = RejectedError (Some e) # err_chain e"
| "err_chain (TargetUnavailableError (Some e)) = TargetUnavailableError (Some e) # err_chain e"
| "err_chain (TargetIncompatibleError (Some e)) = TargetIncompatibleError (Some e) # err_chain e"
| "err_chain (InvalidRequestError (Some e)) = InvalidRequestError (Some e) # err_chain e"
| "err_chain (CancelledError (Some e)) = CancelledError (Some e) # err_chain e"
| "err_chain (InternalError (Some e)) = InternalError (Some e) # err_chain e"
| "err_chain (Staged s e) = Staged s e # err_chain e"
| "err_chain (Wrapped m es) = Wrapped m es # concat (map err_chain es)"
| "err_chain e = [e]"

text \<open>\<^verbatim>\<open>errors.As\<close> finds the first error of the wanted type; \<^verbatim>\<open>errors.Is\<close> searches for a value.\<close>

definition errors_As :: "(go_error \<Rightarrow> 'a option) \<Rightarrow> go_error \<Rightarrow> 'a option" where
  "errors_As sel e = (case List.map_filter sel (err_chain e) of [] \<Rightarrow> None | x # _ \<Rightarrow> Some x)"

definition is_canceled :: "go_error \<Rightarrow> bool" where
  "is_canceled e \<longleftrightarrow> list_ex (\<lambda>x. x = ContextCanceled) (err_chain e)"

definition is_deadline :: "go_error \<Rightarrow> bool" where
  "is_deadline e \<longleftrightarrow> list_ex (\<lambda>x. case x of ContextDeadlineExceeded \<Rightarrow> True
     | NetError _ d _ \<Rightarrow> d | _ \<Rightarrow> False) (err_chain e)"

fun sel_backend :: "go_error \<Rightarrow> BackendErrorFields option" where
  "sel_backend (BackendError b) = Some b"
| "sel_backend _ = None"

fun sel_class :: "go_error \<Rightarrow> BackendErrorClass option" where
  "sel_class (ClassifiedBackendError c _) = Some c"
| "sel_class _ = None"

fun sel_canonical :: "go_error \<Rightarrow> ErrorCode option" where
  "sel_canonical (CanonicalError k _ _) = Some k"
| "sel_canonical _ = None"

fun sel_attempt :: "go_error \<Rightarrow> (ExecutionPossibility \<times> go_error option) option" where
  "sel_attempt (AttemptFailureError x c) = Some (x, c)"
| "sel_attempt _ = None"

fun sel_net :: "go_error \<Rightarrow> bool option" where
  "sel_net (NetError t _ _) = Some t"
| "sel_net ContextDeadlineExceeded = Some True"
| "sel_net _ = None"

fun is_unavailable :: "go_error \<Rightarrow> bool" where
  "is_unavailable (UnavailableError _) \<longleftrightarrow> True" | "is_unavailable _ \<longleftrightarrow> False"

fun is_timeout :: "go_error \<Rightarrow> bool" where
  "is_timeout (TimeoutError _) \<longleftrightarrow> True" | "is_timeout _ \<longleftrightarrow> False"

fun is_rejected :: "go_error \<Rightarrow> bool" where
  "is_rejected (RejectedError _) \<longleftrightarrow> True" | "is_rejected _ \<longleftrightarrow> False"

fun is_target_unavailable :: "go_error \<Rightarrow> bool" where
  "is_target_unavailable (TargetUnavailableError _) \<longleftrightarrow> True" | "is_target_unavailable _ \<longleftrightarrow> False"

fun is_target_incompatible :: "go_error \<Rightarrow> bool" where
  "is_target_incompatible (TargetIncompatibleError _) \<longleftrightarrow> True"
| "is_target_incompatible _ \<longleftrightarrow> False"

text \<open>The types with a \<open>providerFailure\<close> method.\<close>

fun is_classified :: "go_error \<Rightarrow> bool" where
  "is_classified (UnavailableError _) \<longleftrightarrow> True"
| "is_classified (RejectedError _) \<longleftrightarrow> True"
| "is_classified (InvalidRequestError _) \<longleftrightarrow> True"
| "is_classified (CancelledError _) \<longleftrightarrow> True"
| "is_classified (InternalError _) \<longleftrightarrow> True"
| "is_classified _ \<longleftrightarrow> False"

text \<open>\<^verbatim>\<open>errors.As\<close> with a target of which only the type matters.\<close>

definition has_err :: "(go_error \<Rightarrow> bool) \<Rightarrow> go_error \<Rightarrow> bool" where
  "has_err P e \<longleftrightarrow> list_ex P (err_chain e)"

definition IsBackendErrorClass :: "go_error \<Rightarrow> BackendErrorClass \<Rightarrow> bool" where
  "IsBackendErrorClass e class =
     (case errors_As sel_class e of None \<Rightarrow> False | Some c \<Rightarrow> c = class)"

definition canonical_Error :: "ErrorCode \<Rightarrow> string \<Rightarrow> go_error" where
  "canonical_Error code msg = CanonicalError code (Text msg) None"

definition BadRequest :: "string \<Rightarrow> go_error" where
  "BadRequest msg = canonical_Error ErrorCodeBadRequest msg"

text \<open>\<^verbatim>\<open>canonical.NewBackendError\<close> of an error without a \<^verbatim>\<open>Retry-After\<close> header.\<close>

definition backend_error :: "string \<Rightarrow> int \<Rightarrow> string \<Rightarrow> go_error" where
  "backend_error targetID statusCode message' =
     BackendError \<lparr>be_TargetID = targetID, be_StatusCode = statusCode, be_Message = message',
       be_RetryAfterHeaderValue = [], be_ProviderError = None\<rparr>"

definition canonical_InternalError :: "string \<Rightarrow> go_error" where
  "canonical_InternalError msg = canonical_Error ErrorCodeInternal msg"

text \<open>\<^verbatim>\<open>fmt.Errorf\<close> without and with a wrapped cause.\<close>

definition Errorf :: "string \<Rightarrow> string list \<Rightarrow> go_error" where
  "Errorf format args = Wrapped (Sprintf format args) []"

definition Errorw :: "string \<Rightarrow> string list \<Rightarrow> go_error \<Rightarrow> go_error" where
  "Errorw format args cause = Wrapped (Sprintf format args) [cause]"

text \<open>
  \<^verbatim>\<open>BadRequest(err.Error())\<close>: the text of an error becomes the message of a client error.
\<close>

fun error_text :: "go_error \<Rightarrow> message" where
  "error_text (Wrapped m _) = m"
| "error_text (CanonicalError _ m _) = m"
| "error_text _ = Text []"

definition BadRequestOf :: "go_error \<Rightarrow> go_error" where
  "BadRequestOf e = CanonicalError ErrorCodeBadRequest (error_text e) None"

text \<open>\<open>TerminalErrorCode\<close>: no code for nil, for a backend failure and for cancellation.\<close>

definition TerminalErrorCode :: "go_error option \<Rightarrow> ErrorCode option" where
  "TerminalErrorCode err =
     (case err of
        None \<Rightarrow> None
      | Some e \<Rightarrow>
          (case errors_As sel_canonical e of
             Some code \<Rightarrow> Some code
           | None \<Rightarrow>
               if errors_As sel_backend e \<noteq> None then None
               else if is_canceled e then None
               else Some ErrorCodeInternal))"

text \<open>\<open>StageResponseFailure\<close> of \<^verbatim>\<open>src/internal/wire/codec.go\<close>: one diagnostic stage, never on cancellation.\<close>

fun is_staged :: "go_error \<Rightarrow> bool" where
  "is_staged (Staged _ _) \<longleftrightarrow> True" | "is_staged _ \<longleftrightarrow> False"

definition StageResponseFailure :: "string \<Rightarrow> go_error \<Rightarrow> go_error" where
  "StageResponseFailure stage e =
     (if is_canceled e then e else if has_err is_staged e then e else Staged stage e)"

section \<open>Classification\<close>

definition normalizeFailureCause :: "go_error \<Rightarrow> go_error" where
  "normalizeFailureCause e =
     (if has_err is_classified e then e
      else if is_canceled e \<or> is_deadline e then CancelledError (Some e)
      else case errors_As sel_backend e of
        Some b \<Rightarrow>
          (let status = be_StatusCode b
           in if status = 408 \<or> status = 425 \<or> status = 429 \<or> 500 \<le> status \<and> status \<le> 599
              then UnavailableError (Some e)
              else if 400 \<le> status then RejectedError (Some e)
              else InternalError (Some e))
      | None \<Rightarrow>
          (case errors_As sel_canonical e of
             Some code \<Rightarrow>
               if code = ErrorCodeInternal then InternalError (Some e)
               else InvalidRequestError (Some e)
           | None \<Rightarrow> InternalError (Some e)))"

text \<open>A valid \<open>AttemptFailure\<close> is its execution possibility with its cause.\<close>

type_synonym AttemptFailure = "ExecutionPossibility \<times> go_error"

definition AsAttemptFailure :: "go_error \<Rightarrow> AttemptFailure option" where
  "AsAttemptFailure e =
     (case errors_As sel_attempt e of
        Some (x, Some c) \<Rightarrow> if x = ExecutionInvalid then None else Some (x, c)
      | _ \<Rightarrow> None)"

definition attempt_error :: "AttemptFailure \<Rightarrow> go_error" where
  "attempt_error f = AttemptFailureError (fst f) (Some (snd f))"

definition newAttemptFailure :: "ExecutionPossibility \<Rightarrow> go_error \<Rightarrow> AttemptFailure" where
  "newAttemptFailure execution cause =
     (let cause = (case AsAttemptFailure cause of Some (_, c) \<Rightarrow> c | None \<Rightarrow> cause)
      in (execution, normalizeFailureCause cause))"

definition AttemptNotDispatched :: "go_error \<Rightarrow> AttemptFailure" where
  "AttemptNotDispatched = newAttemptFailure ExecutionNotDispatched"

definition AttemptRejectedBeforeExecution :: "go_error \<Rightarrow> AttemptFailure" where
  "AttemptRejectedBeforeExecution = newAttemptFailure ExecutionRejectedBeforeExecution"

definition AttemptMayHaveExecuted :: "go_error \<Rightarrow> AttemptFailure" where
  "AttemptMayHaveExecuted = newAttemptFailure ExecutionMayHaveOccurred"

text \<open>The wrappers keep nil.\<close>

definition Unavailable :: "go_error option \<Rightarrow> go_error option" where
  "Unavailable err = map_option (\<lambda>e. UnavailableError (Some e)) err"

definition TimedOut :: "go_error option \<Rightarrow> go_error option" where
  "TimedOut err = (case err of None \<Rightarrow> None | Some e \<Rightarrow> Unavailable (Some (TimeoutError (Some e))))"

definition Rejected :: "go_error option \<Rightarrow> go_error option" where
  "Rejected err = map_option (\<lambda>e. RejectedError (Some e)) err"

definition TargetUnavailable :: "go_error option \<Rightarrow> go_error option" where
  "TargetUnavailable err = map_option (\<lambda>e. TargetUnavailableError (Some e)) err"

definition TargetIncompatible :: "go_error option \<Rightarrow> go_error option" where
  "TargetIncompatible err = map_option (\<lambda>e. TargetIncompatibleError (Some e)) err"

text \<open>
  \<open>TransportFailure\<close> of a failed attempt: the context is \<open>None\<close> for nil, otherwise its
  \<open>Err()\<close>; the transport error is present, as the callers pass one.
\<close>

definition TransportFailure :: "go_error option option \<Rightarrow> go_error \<Rightarrow> AttemptFailure" where
  "TransportFailure ctx e =
     (case ctx of
        Some (Some c) \<Rightarrow> AttemptMayHaveExecuted (CancelledError (Some c))
      | _ \<Rightarrow>
          if is_deadline e \<or> errors_As sel_net e = Some True
          then AttemptMayHaveExecuted (UnavailableError (Some (TimeoutError (Some e))))
          else AttemptMayHaveExecuted (UnavailableError (Some e)))"

definition NormalizeFailure :: "go_error option \<Rightarrow> go_error option" where
  "NormalizeFailure err =
     (case err of
        None \<Rightarrow> None
      | Some e \<Rightarrow>
          (case AsAttemptFailure e of
             Some f \<Rightarrow> Some (attempt_error f)
           | None \<Rightarrow> Some (normalizeFailureCause e)))"

section \<open>Retry timing\<close>

definition Second :: int where "Second = 1000000000"

text \<open>\<^verbatim>\<open>strconv.ParseUint(raw, 10, 63)\<close>\<close>

definition ParseUint63 :: "string \<Rightarrow> int option" where
  "ParseUint63 s =
     (if s = [] \<or> \<not> list_all (\<lambda>c. c \<in> set digits) s then None
      else let v = foldl (\<lambda>acc c. 10 * acc + (of_char c - 48)) 0 s
        in if v < 2 ^ 63 then Some v else None)"

text \<open>\<open>parse_time\<close> is \<^verbatim>\<open>http.ParseTime\<close>.\<close>

definition RetryNotBefore :: "(string \<Rightarrow> int option) \<Rightarrow> go_error \<Rightarrow> int \<Rightarrow> int option" where
  "RetryNotBefore parse_time e now =
     (case errors_As sel_backend e of
        None \<Rightarrow> None
      | Some b \<Rightarrow>
          (let raw = TrimSpace (be_RetryAfterHeaderValue b)
           in if raw = [] then None
              else case ParseUint63 raw of
                Some seconds \<Rightarrow>
                  if seconds > (2 ^ 63 - 1) div Second then None
                  else Some (now + seconds * Second)
              | None \<Rightarrow>
                  (case parse_time raw of
                     None \<Rightarrow> None
                   | Some deadline \<Rightarrow> if deadline \<le> now then None else Some deadline)))"

section \<open>Walking error trees\<close>

lemma err_chain_self: "e \<in> set (err_chain e)"
  by (cases e rule: err_chain.cases) simp_all

lemma err_chain_nonempty [simp]: "err_chain e \<noteq> []"
  using err_chain_self [of e] by (metis empty_iff list.set(1))

text \<open>What a wrapper of one cause adds to the walk.\<close>

lemma has_err_wrappers [simp]:
  "has_err P (UnavailableError (Some e)) \<longleftrightarrow> P (UnavailableError (Some e)) \<or> has_err P e"
  "has_err P (TimeoutError (Some e)) \<longleftrightarrow> P (TimeoutError (Some e)) \<or> has_err P e"
  "has_err P (RejectedError (Some e)) \<longleftrightarrow> P (RejectedError (Some e)) \<or> has_err P e"
  "has_err P (InvalidRequestError (Some e)) \<longleftrightarrow> P (InvalidRequestError (Some e)) \<or> has_err P e"
  "has_err P (CancelledError (Some e)) \<longleftrightarrow> P (CancelledError (Some e)) \<or> has_err P e"
  "has_err P (InternalError (Some e)) \<longleftrightarrow> P (InternalError (Some e)) \<or> has_err P e"
  "has_err P (AttemptFailureError x (Some e)) \<longleftrightarrow> P (AttemptFailureError x (Some e)) \<or> has_err P e"
  "has_err P (Staged s e) \<longleftrightarrow> P (Staged s e) \<or> has_err P e"
  by (simp_all add: has_err_def)

lemma errors_As_wrappers [simp]:
  "errors_As sel (UnavailableError (Some e)) =
     (case sel (UnavailableError (Some e)) of None \<Rightarrow> errors_As sel e | Some x \<Rightarrow> Some x)"
  "errors_As sel (TimeoutError (Some e)) =
     (case sel (TimeoutError (Some e)) of None \<Rightarrow> errors_As sel e | Some x \<Rightarrow> Some x)"
  "errors_As sel (RejectedError (Some e)) =
     (case sel (RejectedError (Some e)) of None \<Rightarrow> errors_As sel e | Some x \<Rightarrow> Some x)"
  "errors_As sel (InvalidRequestError (Some e)) =
     (case sel (InvalidRequestError (Some e)) of None \<Rightarrow> errors_As sel e | Some x \<Rightarrow> Some x)"
  "errors_As sel (CancelledError (Some e)) =
     (case sel (CancelledError (Some e)) of None \<Rightarrow> errors_As sel e | Some x \<Rightarrow> Some x)"
  "errors_As sel (InternalError (Some e)) =
     (case sel (InternalError (Some e)) of None \<Rightarrow> errors_As sel e | Some x \<Rightarrow> Some x)"
  "errors_As sel (AttemptFailureError x (Some e)) =
     (case sel (AttemptFailureError x (Some e)) of None \<Rightarrow> errors_As sel e | Some x \<Rightarrow> Some x)"
  by (simp_all add: errors_As_def List.map_filter_simps split: option.split)

lemma normalize_classified: "has_err is_classified (normalizeFailureCause e)"
  by (auto simp: normalizeFailureCause_def Let_def split: option.split)

lemma normalize_idem [simp]:
  "normalizeFailureCause (normalizeFailureCause e) = normalizeFailureCause e"
  using normalize_classified [of e] by (simp add: normalizeFailureCause_def)

lemma AsAttemptFailure_attempt_error [simp]:
  "AsAttemptFailure (attempt_error f) = (if fst f = ExecutionInvalid then None else Some f)"
  by (simp add: AsAttemptFailure_def attempt_error_def)

lemma AsAttemptFailure_execution: "AsAttemptFailure e = Some (x, c) \<Longrightarrow> x \<noteq> ExecutionInvalid"
  by (auto simp: AsAttemptFailure_def split: option.splits if_splits)

lemma newAttemptFailure_simps [simp]:
  "fst (newAttemptFailure x e) = x" "has_err is_classified (snd (newAttemptFailure x e))"
  by (simp_all add: newAttemptFailure_def Let_def normalize_classified)

text \<open>The class that a complete backend status selects.\<close>

lemma normalize_backend:
  assumes "\<not> has_err is_classified e" and "\<not> is_canceled e" and "\<not> is_deadline e"
    and "errors_As sel_backend e = Some b"
  shows "normalizeFailureCause e =
    (if be_StatusCode b \<in> {408, 425, 429} \<union> {500..599} then UnavailableError (Some e)
     else if 400 \<le> be_StatusCode b then RejectedError (Some e) else InternalError (Some e))"
  using assms by (simp add: normalizeFailureCause_def Let_def)

section \<open>Properties\<close>

text \<open>
  Normalization closes the failure vocabulary and is idempotent. The result of
  normalizing any error is a validated attempt fact or carries one of the five provider
  failure classes, and normalizing it again changes nothing; an attempt fact built by the
  constructors keeps the execution possibility it was built with, is found again through
  any error that carries it first, and its cause carries a failure class.
\<close>

theorem NormalizeFailure_closed:
  "(\<exists>n. NormalizeFailure (Some e) = Some n \<and> NormalizeFailure (Some n) = Some n \<and>
      ((\<exists>f. AsAttemptFailure n = Some f) \<or> has_err is_classified n)) \<and>
   AsAttemptFailure (attempt_error (AttemptNotDispatched e)) = Some (AttemptNotDispatched e) \<and>
   AsAttemptFailure (attempt_error (AttemptRejectedBeforeExecution e)) =
     Some (AttemptRejectedBeforeExecution e) \<and>
   AsAttemptFailure (attempt_error (AttemptMayHaveExecuted e)) = Some (AttemptMayHaveExecuted e) \<and>
   has_err is_classified (snd (AttemptMayHaveExecuted e)) \<and>
   fst (AttemptMayHaveExecuted e) = ExecutionMayHaveOccurred"
proof -
  have "\<exists>n. NormalizeFailure (Some e) = Some n \<and> NormalizeFailure (Some n) = Some n \<and>
      ((\<exists>f. AsAttemptFailure n = Some f) \<or> has_err is_classified n)"
  proof (cases "AsAttemptFailure e")
    case None
    show ?thesis
    proof (cases "AsAttemptFailure (normalizeFailureCause e)")
      case None
      with \<open>AsAttemptFailure e = None\<close> show ?thesis
        by (simp add: NormalizeFailure_def normalize_classified)
    next
      case (Some f)
      have "AsAttemptFailure (normalizeFailureCause e) = AsAttemptFailure e"
        by (simp add: normalizeFailureCause_def AsAttemptFailure_def Let_def split: option.split)
      with None Some show ?thesis by simp
    qed
  next
    case (Some f)
    then have "fst f \<noteq> ExecutionInvalid" by (cases f) (auto dest: AsAttemptFailure_execution)
    with Some show ?thesis by (simp add: NormalizeFailure_def)
  qed
  then show ?thesis
    by (simp add: AttemptNotDispatched_def AttemptRejectedBeforeExecution_def
        AttemptMayHaveExecuted_def)
qed

text \<open>
  A transport failure is classified without losing invocation cancellation: a cancelled
  context gives a cancelled failure whatever the transport reported; otherwise the failure is
  an availability failure, marked as a timeout exactly when the transport reported one. The
  call may always have executed.
\<close>

theorem TransportFailure_class:
  assumes "AsAttemptFailure e = None" and "\<And>c. ctx = Some (Some c) \<Longrightarrow> AsAttemptFailure c = None"
  shows "TransportFailure ctx e = (ExecutionMayHaveOccurred,
    (case ctx of Some (Some c) \<Rightarrow> CancelledError (Some c)
     | _ \<Rightarrow> if is_deadline e \<or> errors_As sel_net e = Some True
         then UnavailableError (Some (TimeoutError (Some e))) else UnavailableError (Some e)))"
proof -
  have "AsAttemptFailure (CancelledError (Some c)) = AsAttemptFailure c"
    "AsAttemptFailure (UnavailableError (Some c)) = AsAttemptFailure c"
    "AsAttemptFailure (TimeoutError (Some c)) = AsAttemptFailure c" for c
    by (simp_all add: AsAttemptFailure_def)
  with assms show ?thesis
    by (simp add: TransportFailure_def AttemptMayHaveExecuted_def newAttemptFailure_def
        normalizeFailureCause_def split: option.split)
qed

lemma digit_nonneg: "c \<in> set digits \<Longrightarrow> (0 :: int) \<le> of_char c - 48"
  by (auto simp: digits_def)

lemma decimal_nonneg:
  "list_all (\<lambda>c. c \<in> set digits) s \<Longrightarrow> 0 \<le> (a :: int) \<Longrightarrow>
     0 \<le> foldl (\<lambda>acc c. 10 * acc + (of_char c - 48)) a s"
proof (induction s arbitrary: a)
  case (Cons c s)
  have "(0 :: int) \<le> of_char c - 48" using Cons.prems(1) by (intro digit_nonneg) simp
  then have "0 \<le> 10 * a + (of_char c - 48)" using Cons.prems(2) by linarith
  moreover have "list_all (\<lambda>c. c \<in> set digits) s" using Cons.prems(1) by simp
  ultimately show ?case using Cons.IH by (simp only: foldl_Cons)
qed simp

lemma ParseUint63_nonneg: "ParseUint63 s = Some n \<Longrightarrow> 0 \<le> n"
  using decimal_nonneg [of s 0] by (simp add: ParseUint63_def Let_def split: if_splits)

text \<open>
  A retry hint never lies in the past, is absent without a backend error, and a numeric
  hint is taken exactly, within the range of a duration: the product with one second does
  not overflow 63 bits.
\<close>

theorem RetryNotBefore_bounds:
  assumes "RetryNotBefore parse_time e now = Some t"
  shows "now \<le> t \<and> (\<exists>b. errors_As sel_backend e = Some b \<and>
    (\<forall>n. ParseUint63 (TrimSpace (be_RetryAfterHeaderValue b)) = Some n \<longrightarrow>
       t = now + n * Second \<and> 0 \<le> n \<and> n * Second < 2 ^ 63))"
  using assms
  by (auto simp: RetryNotBefore_def Let_def Second_def dest: ParseUint63_nonneg
      split: option.splits if_splits)

section \<open>Concrete failures\<close>

definition sample_backend :: BackendErrorFields where
  "sample_backend = \<lparr>be_TargetID = ''a'', be_StatusCode = 429, be_Message = ''slow down'',
     be_RetryAfterHeaderValue = '' 30 '', be_ProviderError = None\<rparr>"

theorem TransportFailure_class_witness:
  "TransportFailure (Some None) (NetError True False None) = (ExecutionMayHaveOccurred,
     UnavailableError (Some (TimeoutError (Some (NetError True False None)))))"
proof -
  have "AsAttemptFailure (NetError True False None) = None" by code_simp
  from TransportFailure_class [of "NetError True False None" "Some None", OF this]
  show ?thesis by (simp add: errors_As_def List.map_filter_simps)
qed

theorem RetryNotBefore_bounds_witness:
  "RetryNotBefore (\<lambda>_. None) (BackendError sample_backend) 5 = Some 30000000005 \<and>
   (5 :: int) \<le> 30000000005"
proof -
  have "TrimSpace '' 30 '' = ''30''" by code_simp
  moreover have "ParseUint63 ''30'' = Some 30" by (simp add: ParseUint63_def digits_def)
  ultimately have r:
    "RetryNotBefore (\<lambda>_. None) (BackendError sample_backend) 5 = Some 30000000005"
    by (simp add: RetryNotBefore_def errors_As_def List.map_filter_simps sample_backend_def
        Second_def)
  show ?thesis using RetryNotBefore_bounds [OF r] r by blast
qed

end
