(* ===== verification/Provider_Target.thy ===== *)
theory Provider_Target
  imports Provider_Failure Routing_Model
begin

text \<open>
  The execution projection of a routing target: \<^verbatim>\<open>src/internal/provider/target.go\<close>,
  \<^verbatim>\<open>src/internal/delivery/delivery.go\<close> and \<^verbatim>\<open>src/internal/exchange/exchange_path_record.go\<close>.
  The functions of the provider profile catalog are the fields of the record \<open>catalog\<close>.
  A panic of a snapshot constructor is the error \<open>Panicked\<close>.
\<close>

section \<open>Delivery\<close>

datatype DeliveryMode = Buffered | Streaming | DeliveryModeInvalid

record Delivery =
  dl_Mode :: DeliveryMode
  dl_Framing :: string
  dl_IncludeUsageFrame :: bool

definition BufferedDelivery :: Delivery where
  "BufferedDelivery = \<lparr>dl_Mode = Buffered, dl_Framing = [], dl_IncludeUsageFrame = False\<rparr>"

definition StreamingDelivery :: "string \<Rightarrow> Delivery" where
  "StreamingDelivery framing =
     \<lparr>dl_Mode = Streaming, dl_Framing = framing, dl_IncludeUsageFrame = False\<rparr>"

definition delivery_Validate :: "Delivery \<Rightarrow> message + unit" where
  "delivery_Validate d =
     (case dl_Mode d of
        Buffered \<Rightarrow>
          if dl_Framing d \<noteq> [] \<or> dl_IncludeUsageFrame d
          then Inl (Text ''buffered delivery requires no framing'') else Inr ()
      | Streaming \<Rightarrow>
          if dl_Framing d \<in> {''sse'', ''websocket'', ''ndjson''} then Inr ()
          else Inl (Text ''streaming delivery requires explicit framing'')
      | DeliveryModeInvalid \<Rightarrow> Inl (Text ''delivery mode is invalid''))"

datatype Conversion = Passthrough | CollectStreamToDocument | SynthesizeDocumentToStream

definition DeriveConversion :: "Delivery \<Rightarrow> Delivery \<Rightarrow> Conversion" where
  "DeriveConversion client provider =
     (if dl_Mode client = Buffered \<and> dl_Mode provider = Streaming then CollectStreamToDocument
      else if dl_Mode client = Streaming \<and> dl_Mode provider = Buffered
      then SynthesizeDocumentToStream
      else Passthrough)"

section \<open>Target snapshots\<close>

datatype targetOptions = targetOptionsNone | targetOptionsCustom string | targetOptionsBedrock string

record TargetSnapshot =
  ts_TargetID :: string
  ts_TargetVersion :: TargetVersion
  ts_ProviderSpec :: string
  ts_BaseURL :: string
  ts_CredentialRef :: string
  ts_options :: targetOptions
  ts_Model :: string
  ts_ProtocolKind :: string
  ts_ProviderProtocol :: string
  ts_ProviderDelivery :: Delivery

definition zeroSnapshot :: TargetSnapshot where
  "zeroSnapshot = \<lparr>ts_TargetID = [], ts_TargetVersion = 0, ts_ProviderSpec = [], ts_BaseURL = [],
     ts_CredentialRef = [], ts_options = targetOptionsNone, ts_Model = [], ts_ProtocolKind = [],
     ts_ProviderProtocol = [], ts_ProviderDelivery = BufferedDelivery\<rparr>"

definition AuthHeader :: "TargetSnapshot \<Rightarrow> string" where
  "AuthHeader t = (case ts_options t of targetOptionsCustom h \<Rightarrow> h | _ \<Rightarrow> [])"

definition snapshot_BedrockRegion :: "TargetSnapshot \<Rightarrow> string" where
  "snapshot_BedrockRegion t = (case ts_options t of targetOptionsBedrock r \<Rightarrow> r | _ \<Rightarrow> [])"

definition validateProviderOptions :: "TargetSnapshot \<Rightarrow> message + unit" where
  "validateProviderOptions t =
     (if TrimSpace (ts_ProviderSpec t) = ''bedrock'' then
        (case ts_options t of
           targetOptionsBedrock r \<Rightarrow> if TrimSpace r = []
             then Inl (Text ''bedrock target requires Bedrock options with a signing region'')
             else Inr ()
         | _ \<Rightarrow> Inl (Text ''bedrock target requires Bedrock options with a signing region''))
      else if TrimSpace (ts_ProviderSpec t) = ''custom'' then
        (case ts_options t of
           targetOptionsCustom h \<Rightarrow> Inr ()
         | _ \<Rightarrow> Inl (Text ''custom target requires Custom options''))
      else
        (case ts_options t of
           targetOptionsNone \<Rightarrow> Inr ()
         | _ \<Rightarrow> Inl (Sprintf ''provider %q cannot carry provider-specific target options''
             [ts_ProviderSpec t])))"

definition executable_kinds :: "string list" where
  "executable_kinds = [''chat_completions'', ''responses'', ''messages'', ''interactions'']"

definition ValidateExecutionProtocol :: "TargetSnapshot \<Rightarrow> message + unit" where
  "ValidateExecutionProtocol t =
     and_then (validateProviderOptions t) (\<lambda>_.
       let providerProtocol = TrimSpace (ts_ProviderProtocol t);
           streaming = HasSuffix providerProtocol ''_stream'';
           semantic = TrimSuffix providerProtocol ''_stream''
       in if providerProtocol = [] \<or> ts_ProtocolKind t = []
          then Inl (Text ''provider execution protocol is incomplete'')
          else if ts_ProtocolKind t \<notin> set executable_kinds then
            if ts_ProtocolKind t = ''generate_content''
            then Inl (Text ''generate_content is a client-ingress-only protocol'')
            else Inl (Sprintf ''provider protocol kind %q is unsupported'' [ts_ProtocolKind t])
          else case delivery_Validate (ts_ProviderDelivery t) of
            Inl e \<Rightarrow> Inl (Text ''provider delivery is invalid'')
          | Inr _ \<Rightarrow>
              if semantic \<noteq> ts_ProtocolKind t
              then Inl (Sprintf ''provider protocol %q contradicts protocol kind %q''
                [providerProtocol, ts_ProtocolKind t])
              else if streaming then
                if ts_ProviderDelivery t \<noteq> StreamingDelivery ''sse''
                then Inl (Sprintf ''streaming provider protocol %q requires SSE delivery''
                  [providerProtocol])
                else Inr ()
              else if ts_ProviderDelivery t \<noteq> BufferedDelivery
              then Inl (Sprintf ''buffered provider protocol %q requires buffered delivery''
                [providerProtocol])
              else Inr ())"

definition newTargetSnapshot ::
    "string \<Rightarrow> string \<Rightarrow> string \<Rightarrow> string \<Rightarrow> string \<Rightarrow> string \<Rightarrow> Delivery \<Rightarrow> TargetSnapshot" where
  "newTargetSnapshot targetID providerSpec baseURL credentialRef protocol providerProtocol
      providerDelivery =
     \<lparr>ts_TargetID = targetID, ts_TargetVersion = 1, ts_ProviderSpec = providerSpec,
      ts_BaseURL = baseURL, ts_CredentialRef = credentialRef, ts_options = targetOptionsNone,
      ts_Model = [], ts_ProtocolKind = protocol, ts_ProviderProtocol = providerProtocol,
      ts_ProviderDelivery = providerDelivery\<rparr>"

definition NewTargetSnapshot ::
    "string \<Rightarrow> string \<Rightarrow> string \<Rightarrow> string \<Rightarrow> string \<Rightarrow> string \<Rightarrow> Delivery \<Rightarrow>
     go_error + TargetSnapshot" where
  "NewTargetSnapshot targetID providerSpec baseURL credentialRef protocol providerProtocol
      providerDelivery =
     (if TrimSpace providerSpec \<in> {''bedrock'', ''custom''}
      then Inl (Panicked ''provider-specific target requires its specialized constructor'')
      else Inr (newTargetSnapshot targetID providerSpec baseURL credentialRef protocol
        providerProtocol providerDelivery))"

definition NewCustomTargetSnapshot ::
    "string \<Rightarrow> string \<Rightarrow> string \<Rightarrow> string \<Rightarrow> string \<Rightarrow> string \<Rightarrow> Delivery \<Rightarrow> TargetSnapshot" where
  "NewCustomTargetSnapshot targetID baseURL credentialRef protocol providerProtocol authHeader
      providerDelivery =
     (newTargetSnapshot targetID ''custom'' baseURL credentialRef protocol providerProtocol
        providerDelivery)\<lparr>ts_options := targetOptionsCustom (TrimSpace authHeader)\<rparr>"

definition NewBedrockTargetSnapshot ::
    "string \<Rightarrow> string \<Rightarrow> string \<Rightarrow> string \<Rightarrow> string \<Rightarrow> string \<Rightarrow> Delivery \<Rightarrow>
     go_error + TargetSnapshot" where
  "NewBedrockTargetSnapshot targetID baseURL credentialRef protocol providerProtocol region
      providerDelivery =
     (if TrimSpace region = [] then Inl (Panicked ''bedrock target requires a signing region'')
      else Inr ((newTargetSnapshot targetID ''bedrock'' baseURL credentialRef protocol
        providerProtocol providerDelivery)
          \<lparr>ts_options := targetOptionsBedrock (TrimSpace region)\<rparr>))"

section \<open>The provider path of a target\<close>

record protocolSpec =
  spec_Kind :: string
  spec_Delivery :: Delivery

record catalog =
  NormalizeProviderProtocolForSpec :: "string \<Rightarrow> string \<Rightarrow> string + string"
  ProviderProtocolSpecForSpec :: "string \<Rightarrow> string \<Rightarrow> protocolSpec option"
  DefaultExecuteBaseURL :: "string \<Rightarrow> string"
  ResolveBedrockEndpoint :: "string \<Rightarrow> string \<Rightarrow> string \<Rightarrow> string + string"

definition BadEndpoint :: "string \<Rightarrow> go_error" where
  "BadEndpoint msg = canonical_Error ErrorCodeBadEndpoint msg"

definition ProviderTargetFromConnection ::
    "catalog \<Rightarrow> string \<Rightarrow> Connection \<Rightarrow> string \<Rightarrow> go_error + TargetSnapshot" where
  "ProviderTargetFromConnection cat targetID connection providerProtocol =
     (let providerSpec = conn_provider connection
      in case NormalizeProviderProtocolForSpec cat providerSpec providerProtocol of
           Inl e \<Rightarrow> Inl (BadEndpoint e)
         | Inr normalized \<Rightarrow>
             (case ProviderProtocolSpecForSpec cat providerSpec normalized of
                None \<Rightarrow> Inl (BadEndpoint ''selected provider protocol is unsupported'')
              | Some spec \<Rightarrow>
                  (case connection of
                     StandardConnection _ locator credential \<Rightarrow>
                       NewTargetSnapshot targetID providerSpec
                         (if locator \<noteq> [] then locator
                          else DefaultExecuteBaseURL cat providerSpec)
                         (ref_String credential) (spec_Kind spec) normalized (spec_Delivery spec)
                   | ZAIConnection _ access credential \<Rightarrow>
                       NewTargetSnapshot targetID providerSpec (zaiBaseURL access)
                         (ref_String credential) (spec_Kind spec) normalized (spec_Delivery spec)
                   | BedrockConnection _ region endpoint credential \<Rightarrow>
                       (case ResolveBedrockEndpoint cat endpoint region (spec_Kind spec) of
                          Inl e \<Rightarrow> Inl (BadEndpoint e)
                        | Inr baseURL \<Rightarrow> NewBedrockTargetSnapshot targetID baseURL
                            (ref_String (bedrockCredential credential)) (spec_Kind spec)
                            normalized region (spec_Delivery spec))
                   | CustomConnection _ baseURL auth \<Rightarrow>
                       Inr (NewCustomTargetSnapshot targetID baseURL
                         (case auth of None \<Rightarrow> [] | Some h \<Rightarrow> ref_String (auth_credential h))
                         (spec_Kind spec) normalized
                         (case auth of None \<Rightarrow> [] | Some h \<Rightarrow> auth_name h)
                         (spec_Delivery spec)))))"

text \<open>\<open>toProviderTarget\<close>; a target without a connection panics on its nil interface.\<close>

definition toProviderTarget :: "catalog \<Rightarrow> Target \<Rightarrow> go_error + TargetSnapshot" where
  "toProviderTarget cat target =
     (case target_connection target of
        None \<Rightarrow> Inl (Panicked ''nil connection'')
      | Some connection \<Rightarrow>
          and_then (ProviderTargetFromConnection cat (target_id target) connection
              (protocol_value (target_protocol target)))
            (\<lambda>snapshot. Inr (snapshot\<lparr>ts_TargetVersion := target_version target\<rparr>)))"

record providerPath =
  path_target :: TargetSnapshot
  path_delivery :: Delivery

definition resolveProviderPath :: "catalog \<Rightarrow> Target \<Rightarrow> go_error + providerPath" where
  "resolveProviderPath cat target =
     and_then (toProviderTarget cat target) (\<lambda>routable.
       let modelID = target_model target
       in if modelID = []
          then Inl (BadRequest ''selected provider model is not configured'')
          else let routable = routable\<lparr>ts_Model := modelID\<rparr>
          in if ts_ProviderProtocol routable \<noteq> protocol_value (target_protocol target)
             then Inl (BadEndpoint ''provider protocol projection is incoherent'')
             else case ValidateExecutionProtocol routable of
               Inl e \<Rightarrow> Inl (CanonicalError ErrorCodeBadEndpoint e None)
             | Inr _ \<Rightarrow> Inr \<lparr>path_target = routable, path_delivery = ts_ProviderDelivery routable\<rparr>)"

section \<open>The projection is faithful\<close>

text \<open>The one credential locator a connection holds.\<close>

fun connection_credential :: "Connection \<Rightarrow> string" where
  "connection_credential (StandardConnection _ _ c) = ref_String c"
| "connection_credential (ZAIConnection _ _ c) = ref_String c"
| "connection_credential (BedrockConnection _ _ _ c) = ref_String (bedrockCredential c)"
| "connection_credential (CustomConnection _ _ a) =
     (case a of None \<Rightarrow> [] | Some h \<Rightarrow> ref_String (auth_credential h))"

fun connection_options :: "Connection \<Rightarrow> targetOptions" where
  "connection_options (BedrockConnection _ g _ _) = targetOptionsBedrock (TrimSpace g)"
| "connection_options (CustomConnection _ _ a) =
     targetOptionsCustom (TrimSpace (case a of None \<Rightarrow> [] | Some h \<Rightarrow> auth_name h))"
| "connection_options _ = targetOptionsNone"

text \<open>The provider keys that select a connection shape of their own.\<close>

definition shape_key :: "Connection \<Rightarrow> bool" where
  "shape_key c \<longleftrightarrow>
     (conn_provider c = ''bedrock'' \<longleftrightarrow> shape_of c = ConnectionShapeBedrock) \<and>
     (conn_provider c = ''custom'' \<longleftrightarrow> shape_of c = ConnectionShapeCustom) \<and>
     TrimSpace (conn_provider c) = conn_provider c"

lemma ProviderTargetFromConnection_fields:
  assumes "ProviderTargetFromConnection cat i c q = Inr t"
  shows "ts_TargetID t = i \<and> ts_CredentialRef t = connection_credential c \<and>
    ts_options t = connection_options c \<and> (shape_key c \<longrightarrow> ts_ProviderSpec t = conn_provider c)"
  using assms
  by (cases c) (auto simp: ProviderTargetFromConnection_def Let_def NewTargetSnapshot_def
      NewBedrockTargetSnapshot_def NewCustomTargetSnapshot_def newTargetSnapshot_def shape_key_def
      split: sum.splits option.splits if_splits)

lemma Split_nonempty [simp]: "Split s c \<noteq> []"
  by (induction s) (auto split: list.split)

lemma Split_hd: "hd (Split s c) \<noteq> [] \<Longrightarrow> s \<noteq> [] \<and> hd s = hd (hd (Split s c))"
  by (cases s) (auto split: list.splits if_splits)

lemma Split_blank: "Split s c = [[]] \<longleftrightarrow> s = []"
  by (cases s) (auto split: list.split)

lemma Split_last: "last (Split s c) \<noteq> [] \<Longrightarrow> s \<noteq> [] \<and> last s = last (last (Split s c))"
proof (induction s)
  case (Cons x xs)
  obtain w ws where w: "Split xs c = w # ws" by (cases "Split xs c") auto
  with Cons Split_blank [of xs c] show ?case
    by (cases "x = c"; cases "ws = []") (auto split: if_splits)
qed simp

lemma bedrock_region_solid:
  assumes "bedrockRegionPattern g"
  shows "TrimSpace g = g \<and> g \<noteq> []"
proof -
  have e: "hd (Split g (CHR ''-'')) \<noteq> [] \<and> hd (hd (Split g (CHR ''-''))) \<in> set lower_letters \<and>
      last (Split g (CHR ''-'')) \<noteq> [] \<and> last (last (Split g (CHR ''-''))) \<in> set digits"
    using assms
    by (auto simp: bedrockRegionPattern_def Let_def list_all_iff length_Suc_conv
        eval_nat_numeral split: list.splits)
  have g: "g \<noteq> []" "hd g \<in> set lower_letters" "last g \<in> set digits"
    using Split_hd [of g "CHR ''-''"] Split_last [of g "CHR ''-''"] e by auto
  then have "solid_char (hd g) \<and> solid_char (last g)"
    by (intro conjI solid_alnum) (simp_all add: alnum_def)
  then show ?thesis using g(1) TrimSpace_solid by blast
qed

lemma ProviderTargetFromConnection_no_panic:
  assumes "connection_ok c" and "shape_key c"
  shows "ProviderTargetFromConnection cat i c q \<noteq> Inl (Panicked m)"
  using assms
  by (cases c) (auto simp: ProviderTargetFromConnection_def Let_def NewTargetSnapshot_def
      NewBedrockTargetSnapshot_def BadEndpoint_def canonical_Error_def shape_key_def
      dest: bedrock_region_solid split: sum.splits option.splits)

lemma resolveProviderPath_target:
  assumes "resolveProviderPath cat t = Inr path"
  shows "ts_TargetID (path_target path) = target_id t \<and>
    ts_TargetVersion (path_target path) = target_version t \<and>
    ts_Model (path_target path) = target_model t"
proof -
  from assms obtain c r where c: "target_connection t = Some c"
    and r: "ProviderTargetFromConnection cat (target_id t) c (protocol_value (target_protocol t)) =
      Inr r"
    by (auto simp: resolveProviderPath_def toProviderTarget_def result_simps split: option.splits)
  have "path_target path = r\<lparr>ts_TargetVersion := target_version t, ts_Model := target_model t\<rparr>"
    using assms c r
    by (auto simp: resolveProviderPath_def toProviderTarget_def Let_def
        split: sum.splits if_splits)
  then show ?thesis using ProviderTargetFromConnection_fields [OF r] by simp
qed

section \<open>Properties\<close>

text \<open>
  The execution projection of a target is faithful. A resolved provider path carries the
  target's own ID, version, model and protocol, the credential and the provider options of
  exactly its connection, and a delivery that its protocol name implies: server-sent events
  for the streaming variants, buffered otherwise.
\<close>

theorem resolveProviderPath_faithful:
  assumes "resolveProviderPath cat t = Inr path"
  shows "\<exists>c. target_connection t = Some c \<and>
    ts_TargetID (path_target path) = target_id t \<and>
    ts_TargetVersion (path_target path) = target_version t \<and>
    ts_Model (path_target path) = target_model t \<and>
    ts_ProviderProtocol (path_target path) = protocol_value (target_protocol t) \<and>
    ts_CredentialRef (path_target path) = connection_credential c \<and>
    ts_options (path_target path) = connection_options c \<and>
    path_delivery path = ts_ProviderDelivery (path_target path) \<and>
    path_delivery path =
      (if HasSuffix (TrimSpace (protocol_value (target_protocol t))) ''_stream''
       then StreamingDelivery ''sse'' else BufferedDelivery)"
proof -
  from assms obtain c r where c: "target_connection t = Some c"
    and r: "ProviderTargetFromConnection cat (target_id t) c (protocol_value (target_protocol t)) =
      Inr r"
    by (auto simp: resolveProviderPath_def toProviderTarget_def result_simps split: option.splits)
  define u where "u = r\<lparr>ts_TargetVersion := target_version t, ts_Model := target_model t\<rparr>"
  have rest: "ts_ProviderProtocol u = protocol_value (target_protocol t)"
    "\<forall>e. ValidateExecutionProtocol u \<noteq> Inl e"
    "path = \<lparr>path_target = u, path_delivery = ts_ProviderDelivery u\<rparr>"
    using assms c r
    by (auto simp: resolveProviderPath_def toProviderTarget_def Let_def u_def
        split: sum.splits if_splits)
  then have p: "path_target path = u" "path_delivery path = ts_ProviderDelivery (path_target path)"
    and q: "ts_ProviderProtocol r = protocol_value (target_protocol t)"
    and v': "\<forall>e. ValidateExecutionProtocol (path_target path) \<noteq> Inl e"
    by (simp_all add: u_def)
  have v: "ValidateExecutionProtocol (path_target path) = Inr ()"
    using v' by (cases "ValidateExecutionProtocol (path_target path)") auto
  have "ts_ProviderProtocol (path_target path) = protocol_value (target_protocol t)"
    by (simp add: p u_def q)
  then have "ts_ProviderDelivery (path_target path) =
      (if HasSuffix (TrimSpace (protocol_value (target_protocol t))) ''_stream''
       then StreamingDelivery ''sse'' else BufferedDelivery)"
    using v by (auto simp: ValidateExecutionProtocol_def Let_def result_simps
        split: sum.splits if_splits)
  then show ?thesis
    using c p q ProviderTargetFromConnection_fields [OF r] by (auto simp: u_def)
qed

text \<open>
  No panic. For a valid connection whose provider key belongs to its shape, projecting a
  target to its execution snapshot never reaches a panic of the snapshot constructors.
\<close>

theorem toProviderTarget_no_panic:
  assumes "target_connection t = Some c" and "connection_ok c" and "shape_key c"
  shows "toProviderTarget cat t \<noteq> Inl (Panicked m)"
  using ProviderTargetFromConnection_no_panic [OF assms(2,3)] assms(1)
  by (cases "ProviderTargetFromConnection cat (target_id t) c (protocol_value (target_protocol t))")
    (auto simp: toProviderTarget_def)

text \<open>A target with a valid connection whose provider key belongs to its shape.\<close>

definition projectable :: "Target \<Rightarrow> bool" where
  "projectable t \<longleftrightarrow>
     (case target_connection t of None \<Rightarrow> False | Some c \<Rightarrow> connection_ok c \<and> shape_key c)"

lemma resolveProviderPath_no_panic:
  assumes "projectable t"
  shows "no_panic (resolveProviderPath cat t)"
proof -
  obtain c where c: "target_connection t = Some c" "connection_ok c" "shape_key c"
    using assms by (auto simp: projectable_def split: option.splits)
  have "no_panic (ProviderTargetFromConnection cat i c q)" for i q
    using ProviderTargetFromConnection_no_panic [OF c(2,3), of cat i q]
    by (auto simp: no_panic_def elim: is_panic.elims)
  then have "no_panic (toProviderTarget cat t)"
    by (auto simp: toProviderTarget_def c(1) intro: no_panic_and_then)
  then show ?thesis
    unfolding resolveProviderPath_def
    by (rule no_panic_and_then)
      (auto simp: Let_def BadRequest_def BadEndpoint_def canonical_Error_def split: sum.split)
qed

section \<open>A concrete projection\<close>

definition sample_catalog :: catalog where
  "sample_catalog = \<lparr>NormalizeProviderProtocolForSpec = (\<lambda>_ q. Inr q),
     ProviderProtocolSpecForSpec = (\<lambda>_ q. Some \<lparr>spec_Kind = TrimSuffix q ''_stream'',
       spec_Delivery = (if HasSuffix q ''_stream'' then StreamingDelivery ''sse''
         else BufferedDelivery)\<rparr>),
     DefaultExecuteBaseURL = (\<lambda>_. ''https://api.openai.com/v1''),
     ResolveBedrockEndpoint = (\<lambda>e _ _. Inr e)\<rparr>"

definition sample_snapshot :: TargetSnapshot where
  "sample_snapshot = \<lparr>ts_TargetID = ''a'', ts_TargetVersion = 3, ts_ProviderSpec = ''openai'',
     ts_BaseURL = ''https://api.openai.com/v1'', ts_CredentialRef = ''env:KEY'',
     ts_options = targetOptionsNone, ts_Model = ''gpt'', ts_ProtocolKind = ''responses'',
     ts_ProviderProtocol = ''responses'', ts_ProviderDelivery = BufferedDelivery\<rparr>"

theorem resolveProviderPath_faithful_witness:
  "resolveProviderPath sample_catalog (sample_target ''a'' 3 ''gpt'') =
     Inr \<lparr>path_target = sample_snapshot, path_delivery = BufferedDelivery\<rparr> \<and>
   ts_TargetVersion sample_snapshot = 3"
proof -
  have r: "resolveProviderPath sample_catalog (sample_target ''a'' 3 ''gpt'') =
     Inr \<lparr>path_target = sample_snapshot, path_delivery = BufferedDelivery\<rparr>" by code_simp
  show ?thesis using resolveProviderPath_faithful [OF r] r by auto
qed

theorem toProviderTarget_no_panic_witness:
  "toProviderTarget sample_catalog (sample_target ''a'' 3 ''gpt'') \<noteq> Inl (Panicked ''x'')"
proof -
  have trim: "TrimSpace ''openai'' = ''openai''" by code_simp
  show ?thesis
    by (rule toProviderTarget_no_panic, simp add: sample_target_def)
      (simp_all add: shape_key_def supported_ref_def trim)
qed

end
