(* ===== verification/Target_Backoff.thy ===== *)
theory Target_Backoff
  imports Provider_Failure Routing_Model
begin

text \<open>
  The process-wide availability ledger (\<^verbatim>\<open>src/internal/exchange/target_backoff.go\<close>). The two
  maps of the ledger are functions into options, which makes the loops over them pointwise
  and independent of the iteration order. Each operation holds the mutex for its whole body,
  so a concurrent run is a sequence of operations; the clock reading of an operation is an
  argument. Sequence numbers, epochs and in-flight counts are natural numbers: they count
  the calls of one process, far below the range of \<^verbatim>\<open>uint64\<close>.
\<close>

definition initialTargetBackoff :: int where "initialTargetBackoff = Second"
definition maximumTargetBackoff :: int where "maximumTargetBackoff = 15 * 60 * Second"
definition targetBackoffStale :: int where "targetBackoffStale = maximumTargetBackoff"

record targetBackoffKey =
  bk_workspace :: string
  bk_targetID :: string
  bk_targetVersion :: TargetVersion

datatype targetBackoffClass =
    targetBackoffNone | targetBackoffTransport | targetBackoffUnavailable
  | targetBackoffIncompatible

record targetBackoffRecord =
  rec_delay :: int
  rec_until :: int
  rec_class :: targetBackoffClass

definition zeroRecord :: targetBackoffRecord where
  "zeroRecord = \<lparr>rec_delay = 0, rec_until = 0, rec_class = targetBackoffNone\<rparr>"

record targetObservation =
  ob_key :: targetBackoffKey
  ob_sequence :: nat
  ob_epoch :: nat
  ob_suppressed :: bool

record targetObservationState =
  st_nextSequence :: nat
  st_latestReachable :: nat
  st_latestIngress :: nat
  st_latestSuppression :: nat
  st_epoch :: nat
  st_inFlight :: nat

definition zeroState :: targetObservationState where
  "zeroState = \<lparr>st_nextSequence = 0, st_latestReachable = 0, st_latestIngress = 0,
     st_latestSuppression = 0, st_epoch = 0, st_inFlight = 0\<rparr>"

text \<open>The generations (target ID and version) that a snapshot suppresses.\<close>

type_synonym targetBackoffSnapshot = "string \<times> TargetVersion \<Rightarrow> bool"

definition snapshot_active :: "targetBackoffSnapshot \<Rightarrow> Target \<Rightarrow> bool" where
  "snapshot_active s target = s (target_id target, target_version target)"

record targetBackoffLedger =
  lg_records :: "targetBackoffKey \<Rightarrow> targetBackoffRecord option"
  lg_observations :: "targetBackoffKey \<Rightarrow> targetObservationState option"

definition newTargetBackoffLedger :: targetBackoffLedger where
  "newTargetBackoffLedger = \<lparr>lg_records = (\<lambda>_. None), lg_observations = (\<lambda>_. None)\<rparr>"

text \<open>Map reads: the zero value for a missing key.\<close>

definition get_record :: "targetBackoffLedger \<Rightarrow> targetBackoffKey \<Rightarrow> targetBackoffRecord" where
  "get_record l k = (case lg_records l k of None \<Rightarrow> zeroRecord | Some r \<Rightarrow> r)"

definition get_state :: "targetBackoffLedger \<Rightarrow> targetBackoffKey \<Rightarrow> targetObservationState" where
  "get_state l k = (case lg_observations l k of None \<Rightarrow> zeroState | Some s \<Rightarrow> s)"

definition put_record ::
    "targetBackoffKey \<Rightarrow> targetBackoffRecord \<Rightarrow> targetBackoffLedger \<Rightarrow> targetBackoffLedger" where
  "put_record k r l = l\<lparr>lg_records := (lg_records l)(k \<mapsto> r)\<rparr>"

definition drop_record :: "targetBackoffKey \<Rightarrow> targetBackoffLedger \<Rightarrow> targetBackoffLedger" where
  "drop_record k l = l\<lparr>lg_records := (lg_records l)(k := None)\<rparr>"

section \<open>Operations\<close>

definition nextTargetBackoff :: "int \<Rightarrow> int" where
  "nextTargetBackoff current =
     (if current \<le> 0 then initialTargetBackoff
      else if current \<ge> maximumTargetBackoff div 2 then maximumTargetBackoff
      else current * 2)"

definition expired :: "int \<Rightarrow> targetBackoffRecord \<Rightarrow> bool" where
  "expired now r \<longleftrightarrow> \<not> now < rec_until r + targetBackoffStale"

definition cleanup :: "int \<Rightarrow> targetBackoffLedger \<Rightarrow> targetBackoffLedger" where
  "cleanup now l =
     \<lparr>lg_records = (\<lambda>k. case lg_records l k of
        None \<Rightarrow> None | Some r \<Rightarrow> if expired now r then None else Some r),
      lg_observations = (\<lambda>k. case lg_records l k of
        None \<Rightarrow> lg_observations l k
      | Some r \<Rightarrow> if expired now r \<and> st_inFlight (get_state l k) = 0 then None
          else lg_observations l k)\<rparr>"

definition snapshot ::
    "int \<Rightarrow> string \<Rightarrow> targetBackoffLedger \<Rightarrow> targetBackoffSnapshot \<times> targetBackoffLedger" where
  "snapshot now workspace l =
     (let l = cleanup now l
      in (\<lambda>(i, v). case lg_records l
            \<lparr>bk_workspace = workspace, bk_targetID = i, bk_targetVersion = v\<rparr> of
            None \<Rightarrow> False | Some r \<Rightarrow> now < rec_until r, l))"

definition begin_call ::
    "int \<Rightarrow> targetBackoffKey \<Rightarrow> targetBackoffLedger \<Rightarrow> targetObservation \<times> targetBackoffLedger" where
  "begin_call now key l =
     (let l = cleanup now l;
          state = get_state l key;
          state = state\<lparr>st_nextSequence := st_nextSequence state + 1,
            st_inFlight := st_inFlight state + 1\<rparr>;
          l = l\<lparr>lg_observations := (lg_observations l)(key \<mapsto> state)\<rparr>
      in (\<lparr>ob_key = key, ob_sequence = st_nextSequence state, ob_epoch = st_epoch state,
           ob_suppressed = now < rec_until (get_record l key)\<rparr>, l))"

definition finishObservation ::
    "targetBackoffKey \<Rightarrow> targetObservationState \<Rightarrow> targetBackoffLedger \<Rightarrow> targetBackoffLedger" where
  "finishObservation key state l =
     (if st_inFlight state = 0 \<and> lg_records l key = None
      then l\<lparr>lg_observations := (lg_observations l)(key := None)\<rparr>
      else l\<lparr>lg_observations := (lg_observations l)(key \<mapsto> state)\<rparr>)"

text \<open>What a call reports to the ledger: ingress, a failure with its cause, or any other event.\<close>

datatype call_event = IngressReceived | CallFailed go_error | OtherEvent

definition observe_ingress ::
    "targetObservation \<Rightarrow> targetObservationState \<times> targetBackoffLedger \<Rightarrow>
     targetObservationState \<times> targetBackoffLedger" where
  "observe_ingress ob = (\<lambda>(state, l).
     let state = state\<lparr>st_latestReachable := max (st_latestReachable state) (ob_sequence ob),
           st_latestIngress := max (st_latestIngress state) (ob_sequence ob)\<rparr>
     in (state, if ob_sequence ob > st_latestSuppression state
                then drop_record (ob_key ob) l else l))"

text \<open>\<open>hint\<close> is what \<open>RetryNotBefore\<close> extracts from the cause.\<close>

definition observe_unavailable ::
    "int \<Rightarrow> int option \<Rightarrow> targetObservation \<Rightarrow> targetObservationState \<times> targetBackoffLedger \<Rightarrow>
     targetObservationState \<times> targetBackoffLedger" where
  "observe_unavailable now hint ob = (\<lambda>(state, l).
     if ob_sequence ob \<le> st_latestReachable state then (state, l)
     else
       let state = state\<lparr>st_latestSuppression :=
             max (st_latestSuppression state) (ob_sequence ob)\<rparr>;
           record' = get_record l (ob_key ob);
           record' = (if rec_class record' = targetBackoffNone
             then record'\<lparr>rec_class := targetBackoffTransport\<rparr> else record');
           fresh = (ob_epoch ob = st_epoch state \<and> \<not> ob_suppressed ob);
           record' = (if fresh then record'\<lparr>rec_delay := nextTargetBackoff (rec_delay record')\<rparr>
             else record');
           deadline = (if fresh then now + rec_delay record' else rec_until record');
           state = (if fresh then state\<lparr>st_epoch := st_epoch state + 1\<rparr> else state);
           deadline = (case hint of
             Some hinted \<Rightarrow> if hinted > deadline then hinted else deadline | None \<Rightarrow> deadline);
           record' = record'\<lparr>rec_until := deadline\<rparr>
       in (state, if rec_until record' \<noteq> 0 then put_record (ob_key ob) record' l else l))"

definition observe_rejected ::
    "int \<Rightarrow> go_error \<Rightarrow> targetObservation \<Rightarrow> targetObservationState \<times> targetBackoffLedger \<Rightarrow>
     targetObservationState \<times> targetBackoffLedger" where
  "observe_rejected now cause ob = (\<lambda>(state, l).
     let state = state\<lparr>st_latestReachable := max (st_latestReachable state) (ob_sequence ob)\<rparr>;
         record' = get_record l (ob_key ob);
         incompatible = has_err is_target_incompatible cause
     in if has_err is_target_unavailable cause \<or> incompatible then
          if ob_sequence ob \<le> st_latestIngress state \<or>
             ob_sequence ob \<le> st_latestSuppression state then
            (state, if incompatible \<and>
               rec_class record' \<in> {targetBackoffTransport, targetBackoffUnavailable}
             then put_record (ob_key ob) (record'\<lparr>rec_class := targetBackoffIncompatible\<rparr>) l
             else l)
          else
            let state = state\<lparr>st_latestSuppression := ob_sequence ob\<rparr>;
                record' = (if incompatible
                  then record'\<lparr>rec_class := targetBackoffIncompatible\<rparr>
                  else if rec_class record' \<noteq> targetBackoffIncompatible
                  then record'\<lparr>rec_class := targetBackoffUnavailable\<rparr> else record');
                fresh = (ob_epoch ob = st_epoch state \<and> \<not> ob_suppressed ob);
                record' = (if fresh
                  then record'\<lparr>rec_delay := nextTargetBackoff (rec_delay record'),
                    rec_until := now + nextTargetBackoff (rec_delay record')\<rparr>
                  else record');
                state = (if fresh then state\<lparr>st_epoch := st_epoch state + 1\<rparr> else state)
            in (state, put_record (ob_key ob) record' l)
        else if rec_class record' = targetBackoffTransport \<and>
          ob_sequence ob > st_latestSuppression state
        then (state, drop_record (ob_key ob) l)
        else (state, l))"

definition observe_event ::
    "(string \<Rightarrow> int option) \<Rightarrow> int \<Rightarrow> targetObservation \<Rightarrow> call_event \<Rightarrow>
     targetObservationState \<times> targetBackoffLedger \<Rightarrow>
     targetObservationState \<times> targetBackoffLedger" where
  "observe_event parse_time now ob event sl =
     (case event of
        IngressReceived \<Rightarrow> observe_ingress ob sl
      | CallFailed cause \<Rightarrow>
          if has_err is_unavailable cause
          then observe_unavailable now (RetryNotBefore parse_time cause now) ob sl
          else if has_err is_rejected cause then observe_rejected now cause ob sl
          else sl
      | OtherEvent \<Rightarrow> sl)"

definition observe ::
    "(string \<Rightarrow> int option) \<Rightarrow> int \<Rightarrow> targetObservation \<Rightarrow> call_event \<Rightarrow>
     targetBackoffLedger \<Rightarrow> targetBackoffLedger" where
  "observe parse_time now ob event l =
     (case lg_observations l (ob_key ob) of
        None \<Rightarrow> l
      | Some state \<Rightarrow>
          let state = (if st_inFlight state > 0
                then state\<lparr>st_inFlight := st_inFlight state - 1\<rparr> else state);
              (state, l) = observe_event parse_time now ob event (state, cleanup now l)
          in finishObservation (ob_key ob) state l)"

section \<open>The backoff sequence\<close>

lemmas backoff_constants =
  initialTargetBackoff_def maximumTargetBackoff_def targetBackoffStale_def Second_def

definition delay_ok :: "targetBackoffRecord \<Rightarrow> bool" where
  "delay_ok r \<longleftrightarrow> rec_delay r = 0 \<or>
     initialTargetBackoff \<le> rec_delay r \<and> rec_delay r \<le> maximumTargetBackoff"

lemma nextTargetBackoff_bounds:
  "d = 0 \<or> initialTargetBackoff \<le> d \<Longrightarrow>
     initialTargetBackoff \<le> nextTargetBackoff d \<and> nextTargetBackoff d \<le> maximumTargetBackoff"
  by (auto simp: nextTargetBackoff_def backoff_constants)

lemma delay_ok_simps [simp]:
  "delay_ok (r\<lparr>rec_class := c\<rparr>) = delay_ok r" "delay_ok (r\<lparr>rec_until := u\<rparr>) = delay_ok r"
  "delay_ok zeroRecord"
  "delay_ok r \<Longrightarrow> delay_ok (r'\<lparr>rec_delay := nextTargetBackoff (rec_delay r)\<rparr>)"
  "delay_ok r \<Longrightarrow>
     delay_ok (r'\<lparr>rec_delay := nextTargetBackoff (rec_delay r), rec_until := u\<rparr>)"
  using nextTargetBackoff_bounds [of "rec_delay r"] by (auto simp: delay_ok_def zeroRecord_def)

section \<open>What evidence may do to the ledger\<close>

text \<open>
  The contract of one piece of evidence for an observation: it only touches the record of
  its own key, keeps the call counters, advances the epoch by at most one, and keeps delays
  in range.
\<close>

locale evidence =
  fixes ob :: targetObservation
    and step :: "targetObservationState \<times> targetBackoffLedger \<Rightarrow>
      targetObservationState \<times> targetBackoffLedger"
  assumes frame: "step (s, l) = (s', l') \<Longrightarrow>
      lg_observations l' = lg_observations l \<and>
      (\<forall>k. k \<noteq> ob_key ob \<longrightarrow> lg_records l' k = lg_records l k)"
    and counters: "step (s, l) = (s', l') \<Longrightarrow>
      st_nextSequence s' = st_nextSequence s \<and> st_inFlight s' = st_inFlight s"
    and epochs: "step (s, l) = (s', l') \<Longrightarrow> st_epoch s \<le> st_epoch s' \<and> st_epoch s' \<le> st_epoch s + 1"
    and delays: "step (s, l) = (s', l') \<Longrightarrow> (\<And>k r. lg_records l k = Some r \<Longrightarrow> delay_ok r) \<Longrightarrow>
      lg_records l' k = Some r \<Longrightarrow> delay_ok r"

lemma get_record_ok: "(\<And>k r. lg_records l k = Some r \<Longrightarrow> delay_ok r) \<Longrightarrow> delay_ok (get_record l k)"
  by (auto simp: get_record_def split: option.split)

lemma put_record_simps [simp]:
  "lg_observations (put_record k r l) = lg_observations l"
  "lg_records (put_record k r l) i = (if i = k then Some r else lg_records l i)"
  by (simp_all add: put_record_def)

lemma drop_record_simps [simp]:
  "lg_observations (drop_record k l) = lg_observations l"
  "lg_records (drop_record k l) i = (if i = k then None else lg_records l i)"
  by (simp_all add: drop_record_def)

interpretation ingress: evidence ob "observe_ingress ob" for ob
  by unfold_locales (auto simp: observe_ingress_def Let_def split: if_splits)

interpretation unavailable: evidence ob "observe_unavailable now hint ob" for now hint ob
proof
  fix s l s' l'
  assume a: "observe_unavailable now hint ob (s, l) = (s', l')"
  show "lg_observations l' = lg_observations l \<and>
      (\<forall>k. k \<noteq> ob_key ob \<longrightarrow> lg_records l' k = lg_records l k)"
    using a by (auto simp: observe_unavailable_def Let_def split: if_splits)
  show "st_nextSequence s' = st_nextSequence s \<and> st_inFlight s' = st_inFlight s"
    using a by (auto simp: observe_unavailable_def Let_def split: if_splits)
  show "st_epoch s \<le> st_epoch s' \<and> st_epoch s' \<le> st_epoch s + 1"
    using a by (auto simp: observe_unavailable_def Let_def split: if_splits)
  fix k r
  assume ok: "\<And>k r. lg_records l k = Some r \<Longrightarrow> delay_ok r" and r: "lg_records l' k = Some r"
  show "delay_ok r"
    using a r ok get_record_ok [OF ok]
    by (auto simp: observe_unavailable_def Let_def split: if_splits)
qed

interpretation rejected: evidence ob "observe_rejected now cause ob" for now cause ob
proof
  fix s l s' l'
  assume a: "observe_rejected now cause ob (s, l) = (s', l')"
  show "lg_observations l' = lg_observations l \<and>
      (\<forall>k. k \<noteq> ob_key ob \<longrightarrow> lg_records l' k = lg_records l k)"
    using a by (auto simp: observe_rejected_def Let_def split: if_splits)
  show "st_nextSequence s' = st_nextSequence s \<and> st_inFlight s' = st_inFlight s"
    using a by (auto simp: observe_rejected_def Let_def split: if_splits)
  show "st_epoch s \<le> st_epoch s' \<and> st_epoch s' \<le> st_epoch s + 1"
    using a by (auto simp: observe_rejected_def Let_def split: if_splits)
  fix k r
  assume ok: "\<And>k r. lg_records l k = Some r \<Longrightarrow> delay_ok r" and r: "lg_records l' k = Some r"
  show "delay_ok r"
    using a r ok get_record_ok [OF ok]
    by (auto simp: observe_rejected_def Let_def split: if_splits)
qed

interpretation event: evidence ob "observe_event parse_time now ob e" for parse_time now ob e
proof
  fix s l s' l'
  assume a: "observe_event parse_time now ob e (s, l) = (s', l')"
  show "lg_observations l' = lg_observations l \<and>
      (\<forall>k. k \<noteq> ob_key ob \<longrightarrow> lg_records l' k = lg_records l k)"
    using a ingress.frame unavailable.frame rejected.frame
    by (simp add: observe_event_def split: call_event.splits if_splits; blast)
  show "st_nextSequence s' = st_nextSequence s \<and> st_inFlight s' = st_inFlight s"
    using a ingress.counters unavailable.counters rejected.counters
    by (simp add: observe_event_def split: call_event.splits if_splits; blast)
  show "st_epoch s \<le> st_epoch s' \<and> st_epoch s' \<le> st_epoch s + 1"
    using a ingress.epochs unavailable.epochs rejected.epochs
    by (simp add: observe_event_def split: call_event.splits if_splits; metis)
  fix k r
  assume ok: "\<And>k r. lg_records l k = Some r \<Longrightarrow> delay_ok r" and r: "lg_records l' k = Some r"
  show "delay_ok r"
    using a r ok ingress.delays [OF _ ok] unavailable.delays [OF _ ok] rejected.delays [OF _ ok]
    by (simp add: observe_event_def split: call_event.splits if_splits; blast)
qed

section \<open>Runs of the ledger\<close>

text \<open>
  Any interleaving of concurrent exchanges: operations in the order in which they take the
  mutex, each with an arbitrary clock reading, together with the observations of the calls
  that are still under way.
\<close>

inductive ledger_run :: "targetBackoffLedger \<Rightarrow> targetObservation list \<Rightarrow> bool" where
  init: "ledger_run newTargetBackoffLedger []"
| snap: "ledger_run l out \<Longrightarrow> snapshot now workspace l = (s, l') \<Longrightarrow> ledger_run l' out"
| begin_call: "ledger_run l out \<Longrightarrow> begin_call now key l = (ob, l') \<Longrightarrow> ledger_run l' (ob # out)"
| finish: "ledger_run l out \<Longrightarrow> ob \<in> set out \<Longrightarrow> l' = observe parse_time now ob e l \<Longrightarrow>
    ledger_run l' (remove1 ob out)"

definition pending :: "targetBackoffKey \<Rightarrow> targetObservation list \<Rightarrow> nat" where
  "pending k out = length (filter (\<lambda>ob. ob_key ob = k) out)"

definition ledger_inv :: "targetBackoffLedger \<Rightarrow> targetObservation list \<Rightarrow> bool" where
  "ledger_inv l out \<longleftrightarrow>
     (\<forall>k. st_inFlight (get_state l k) = pending k out) \<and>
     (\<forall>k. (lg_observations l k \<noteq> None) = (pending k out > 0 \<or> lg_records l k \<noteq> None)) \<and>
     (\<forall>ob \<in> set out. 0 < ob_sequence ob \<and>
        ob_sequence ob \<le> st_nextSequence (get_state l (ob_key ob)) \<and>
        ob_epoch ob \<le> st_epoch (get_state l (ob_key ob))) \<and>
     distinct (map (\<lambda>ob. (ob_key ob, ob_sequence ob)) out) \<and>
     (\<forall>k r. lg_records l k = Some r \<longrightarrow> delay_ok r)"

lemma ledger_invD:
  assumes "ledger_inv l out"
  shows "st_inFlight (get_state l k) = pending k out"
    and "(lg_observations l k \<noteq> None) = (pending k out > 0 \<or> lg_records l k \<noteq> None)"
    and "ob \<in> set out \<Longrightarrow> 0 < ob_sequence ob \<and>
      ob_sequence ob \<le> st_nextSequence (get_state l (ob_key ob)) \<and>
      ob_epoch ob \<le> st_epoch (get_state l (ob_key ob))"
    and "distinct (map (\<lambda>ob. (ob_key ob, ob_sequence ob)) out)"
    and "lg_records l k = Some r \<Longrightarrow> delay_ok r"
  using assms unfolding ledger_inv_def by blast+

lemma pending_simps [simp]:
  "pending k [] = 0" "pending k (ob # out) = (if ob_key ob = k then 1 else 0) + pending k out"
  by (simp_all add: pending_def)

lemma pending_remove1:
  "ob \<in> set out \<Longrightarrow> pending k (remove1 ob out) = pending k out - (if ob_key ob = k then 1 else 0)"
proof (induction out)
  case (Cons a out)
  have "ob \<in> set out \<Longrightarrow> ob_key ob = k \<Longrightarrow> 0 < pending k out"
    unfolding pending_def by (auto simp: filter_empty_conv)
  with Cons show ?case by auto
qed simp

lemma pending_pos: "0 < pending k out \<longleftrightarrow> (\<exists>ob \<in> set out. ob_key ob = k)"
  unfolding pending_def by (auto simp: filter_empty_conv)

lemma cleanup_observations:
  assumes "st_inFlight (get_state l k) > 0"
  shows "lg_observations (cleanup now l) k = lg_observations l k"
  using assms by (simp add: cleanup_def split: option.split)

lemma cleanup_get_state:
  "get_state (cleanup now l) k = get_state l k \<or>
   get_state (cleanup now l) k = zeroState \<and> st_inFlight (get_state l k) = 0"
  by (auto simp: cleanup_def get_state_def split: option.split)

lemma cleanup_records:
  "lg_records (cleanup now l) k = Some r \<Longrightarrow> lg_records l k = Some r"
  by (auto simp: cleanup_def split: option.splits if_splits)

lemma cleanup_inv: "ledger_inv l out \<Longrightarrow> ledger_inv (cleanup now l) out"
proof -
  assume inv: "ledger_inv l out"
  have state: "get_state (cleanup now l) k = get_state l k" if "0 < pending k out" for k
    using cleanup_observations [of l k] that ledger_invD(1) [OF inv, of k]
    by (simp add: get_state_def)
  have flight: "st_inFlight (get_state (cleanup now l) k) = pending k out" for k
    using cleanup_get_state [of now l k] ledger_invD(1) [OF inv, of k]
    by (auto simp: zeroState_def)
  have obs: "(lg_observations (cleanup now l) k \<noteq> None) =
      (pending k out > 0 \<or> lg_records (cleanup now l) k \<noteq> None)" for k
    using ledger_invD(1,2) [OF inv, of k] by (auto simp: cleanup_def split: option.split)
  have "\<forall>ob \<in> set out. 0 < ob_sequence ob \<and>
      ob_sequence ob \<le> st_nextSequence (get_state (cleanup now l) (ob_key ob)) \<and>
      ob_epoch ob \<le> st_epoch (get_state (cleanup now l) (ob_key ob))"
  proof
    fix ob
    assume ob: "ob \<in> set out"
    then have "0 < pending (ob_key ob) out" by (auto simp: pending_pos)
    with state ledger_invD(3) [OF inv ob] show "0 < ob_sequence ob \<and>
      ob_sequence ob \<le> st_nextSequence (get_state (cleanup now l) (ob_key ob)) \<and>
      ob_epoch ob \<le> st_epoch (get_state (cleanup now l) (ob_key ob))"
      by simp
  qed
  with flight obs ledger_invD(4,5) [OF inv] show ?thesis
    unfolding ledger_inv_def by (blast dest: cleanup_records)
qed

lemma begin_call_inv:
  assumes "ledger_inv l out" and "begin_call now key l = (ob, l')"
  shows "ledger_inv l' (ob # out)"
proof -
  define c where "c = cleanup now l"
  define s where "s = (get_state c key)\<lparr>st_nextSequence := st_nextSequence (get_state c key) + 1,
    st_inFlight := st_inFlight (get_state c key) + 1\<rparr>"
  have inv: "ledger_inv c out" unfolding c_def using assms(1) by (rule cleanup_inv)
  have l': "l' = c\<lparr>lg_observations := (lg_observations c)(key \<mapsto> s)\<rparr>"
    and ob: "ob_key ob = key" "ob_sequence ob = st_nextSequence s" "ob_epoch ob = st_epoch s"
    using assms(2) by (auto simp: begin_call_def Let_def c_def s_def)
  have st: "get_state l' k = (if k = key then s else get_state c k)" for k
    by (simp add: l' get_state_def)
  have s: "st_epoch s = st_epoch (get_state c key)"
    "st_nextSequence s = Suc (st_nextSequence (get_state c key))"
    "st_inFlight s = Suc (st_inFlight (get_state c key))" by (simp_all add: s_def)
  have fresh: "(key, st_nextSequence s) \<notin> (\<lambda>ob. (ob_key ob, ob_sequence ob)) ` set out"
    using ledger_invD(3) [OF inv] s(2) by fastforce
  show ?thesis
    unfolding ledger_inv_def
  proof (intro conjI allI ballI)
    fix k
    show "st_inFlight (get_state l' k) = pending k (ob # out)"
      using ledger_invD(1) [OF inv, of k] by (simp add: st s ob)
    show "(lg_observations l' k \<noteq> None) = (pending k (ob # out) > 0 \<or> lg_records l' k \<noteq> None)"
      using ledger_invD(2) [OF inv, of k] by (simp add: l' ob)
  next
    fix o'
    assume "o' \<in> set (ob # out)"
    then consider "o' = ob" | "o' \<in> set out" by auto
    then have "0 < ob_sequence o' \<and> ob_sequence o' \<le> st_nextSequence (get_state l' (ob_key o')) \<and>
        ob_epoch o' \<le> st_epoch (get_state l' (ob_key o'))"
    proof cases
      case 2
      then show ?thesis using ledger_invD(3) [OF inv 2] by (auto simp: st s)
    qed (simp add: st s ob)
    then show "0 < ob_sequence o'"
      "ob_sequence o' \<le> st_nextSequence (get_state l' (ob_key o'))"
      "ob_epoch o' \<le> st_epoch (get_state l' (ob_key o'))" by simp_all
  next
    show "distinct (map (\<lambda>ob. (ob_key ob, ob_sequence ob)) (ob # out))"
      using ledger_invD(4) [OF inv] fresh by (simp add: ob)
  next
    fix k r
    show "lg_records l' k = Some r \<longrightarrow> delay_ok r" using ledger_invD(5) [OF inv] by (simp add: l')
  qed
qed

lemma observe_inv:
  assumes "ledger_inv l out" and ob: "ob \<in> set out"
  shows "ledger_inv (observe parse_time now ob e l) (remove1 ob out)"
proof -
  define k0 where "k0 = ob_key ob"
  define c where "c = cleanup now l"
  have inv: "ledger_inv c out" unfolding c_def using assms(1) by (rule cleanup_inv)
  have pos: "0 < pending k0 out" using ob by (auto simp: pending_pos k0_def)
  obtain s where s: "lg_observations l k0 = Some s"
    using ledger_invD(2) [OF assms(1), of k0] pos by auto
  have sc: "lg_observations c k0 = Some s"
    using s pos ledger_invD(1) [OF assms(1), of k0] cleanup_observations [of l k0]
    by (simp add: c_def)
  have fl: "st_inFlight s = pending k0 out"
    using ledger_invD(1) [OF inv, of k0] sc by (simp add: get_state_def)
  define s0 where "s0 = s\<lparr>st_inFlight := st_inFlight s - 1\<rparr>"
  obtain s' d where ev: "observe_event parse_time now ob e (s0, c) = (s', d)" by fastforce
  note frame = event.frame [OF ev] and counters = event.counters [OF ev]
    and epochs = event.epochs [OF ev]
  have delays: "delay_ok r" if "lg_records d k = Some r" for k r
    using event.delays [OF ev ledger_invD(5) [OF inv] that] .
  define f where "f = finishObservation k0 s' d"
  have l': "observe parse_time now ob e l = f"
    using s fl pos ev by (simp add: observe_def k0_def [symmetric] f_def s0_def c_def)
  have obs: "lg_observations f k = (if k = k0
      then (if st_inFlight s' = 0 \<and> lg_records d k0 = None then None else Some s')
      else lg_observations c k)" for k
    using frame by (simp add: f_def finishObservation_def)
  have recs: "lg_records f = lg_records d" by (simp add: f_def finishObservation_def)
  have fl': "st_inFlight s' = pending k0 out - 1" using counters fl by (simp add: s0_def)
  have pend: "pending k (remove1 ob out) = pending k out - (if k = k0 then 1 else 0)" for k
    using pending_remove1 [OF ob] by (auto simp: k0_def)
  have st: "get_state f k = get_state c k" if "k \<noteq> k0" for k
    using that by (simp add: get_state_def obs)
  show ?thesis
    unfolding l' ledger_inv_def
  proof (intro conjI allI ballI)
    fix k
    show "st_inFlight (get_state f k) = pending k (remove1 ob out)"
      using ledger_invD(1) [OF inv, of k] fl'
      by (cases "k = k0") (simp_all add: get_state_def obs pend zeroState_def)
    show "(lg_observations f k \<noteq> None) =
        (pending k (remove1 ob out) > 0 \<or> lg_records f k \<noteq> None)"
      using ledger_invD(2) [OF inv, of k] fl' frame
      by (cases "k = k0") (auto simp: obs pend recs k0_def)
  next
    fix o'
    assume o': "o' \<in> set (remove1 ob out)"
    then have in_out: "o' \<in> set out" using set_remove1_subset by fastforce
    then have seq: "0 < ob_sequence o' \<and> ob_sequence o' \<le> st_nextSequence (get_state c (ob_key o')) \<and>
        ob_epoch o' \<le> st_epoch (get_state c (ob_key o'))"
      by (rule ledger_invD(3) [OF inv])
    show "0 < ob_sequence o'" using seq by simp
    have alive: "get_state f k0 = s'" if "ob_key o' = k0"
    proof -
      have "0 < pending k0 (remove1 ob out)" using o' that by (auto simp: pending_pos)
      then show ?thesis using fl' pend [of k0] by (simp add: get_state_def obs)
    qed
    have c0: "get_state c k0 = s" by (simp add: get_state_def sc)
    show "ob_sequence o' \<le> st_nextSequence (get_state f (ob_key o'))"
      using seq alive c0 counters st by (cases "ob_key o' = k0") (auto simp: s0_def)
    show "ob_epoch o' \<le> st_epoch (get_state f (ob_key o'))"
      using seq alive c0 epochs st by (cases "ob_key o' = k0") (auto simp: s0_def)
  next
    show "distinct (map (\<lambda>ob. (ob_key ob, ob_sequence ob)) (remove1 ob out))"
      using ledger_invD(4) [OF inv] set_remove1_subset [of ob out]
      unfolding distinct_map by (auto intro: distinct_remove1 elim: inj_on_subset)
  next
    fix k r
    show "lg_records f k = Some r \<longrightarrow> delay_ok r" using delays by (simp add: recs)
  qed
qed

lemma ledger_run_inv: "ledger_run l out \<Longrightarrow> ledger_inv l out"
proof (induction rule: ledger_run.induct)
  case init
  show ?case
    by (simp add: ledger_inv_def newTargetBackoffLedger_def get_state_def zeroState_def)
next
  case (snap l out now workspace s l')
  then show ?case by (auto simp: snapshot_def Let_def intro: cleanup_inv)
next
  case (begin_call l out now key ob l')
  then show ?case by (blast intro: begin_call_inv)
next
  case (finish l out ob l' parse_time now e)
  then show ?case by (simp add: observe_inv)
qed

lemma snapshot_iff:
  "snapshot_active (fst (snapshot now workspace l)) t \<longleftrightarrow>
     (\<exists>r. lg_records l \<lparr>bk_workspace = workspace, bk_targetID = target_id t,
        bk_targetVersion = target_version t\<rparr> = Some r \<and> now < rec_until r)"
  by (auto simp: snapshot_active_def snapshot_def Let_def cleanup_def expired_def
      backoff_constants split: option.splits if_splits)

lemma nextTargetBackoff_iterate:
  "(nextTargetBackoff ^^ Suc n) 0 = min (2 ^ n * initialTargetBackoff) maximumTargetBackoff"
proof (induction n)
  case 0
  show ?case by (simp add: nextTargetBackoff_def backoff_constants)
next
  case (Suc n)
  have pos: "(1 :: int) \<le> 2 ^ n" by simp
  have "(nextTargetBackoff ^^ Suc (Suc n)) 0 =
      nextTargetBackoff (min (2 ^ n * initialTargetBackoff) maximumTargetBackoff)"
    using Suc by simp
  also have "\<dots> = min (2 ^ Suc n * initialTargetBackoff) maximumTargetBackoff"
    using pos by (auto simp: nextTargetBackoff_def backoff_constants min_def)
  finally show ?case .
qed

section \<open>Properties\<close>

text \<open>
  C37: for every interleaving of concurrent calls, the ledger counts exactly the calls under
  way per target generation, keeps an observation state exactly while a call is under way or
  a backoff record exists (so it does not grow without bound), hands out distinct sequence
  numbers to concurrent calls, and keeps every backoff delay between one second and fifteen
  minutes once it is set.
\<close>

theorem ledger_accounting:
  assumes "ledger_run l out"
  shows "st_inFlight (get_state l k) = pending k out \<and>
    (lg_observations l k = None \<longleftrightarrow> pending k out = 0 \<and> lg_records l k = None) \<and>
    distinct (map (\<lambda>ob. (ob_key ob, ob_sequence ob)) out) \<and>
    (\<forall>r. lg_records l k = Some r \<longrightarrow> delay_ok r)"
proof -
  note inv = ledger_run_inv [OF assms]
  show ?thesis using ledger_invD(1,2) [OF inv, of k] ledger_invD(4,5) [OF inv] by auto
qed

text \<open>
  The exponential sequence. The delay after the n-th fresh failure epoch is \<open>2 ^ (n - 1)\<close>
  seconds, capped at fifteen minutes.
\<close>

theorem backoff_sequence:
  "(nextTargetBackoff ^^ Suc n) 0 = min (2 ^ n * Second) (15 * 60 * Second)"
  using nextTargetBackoff_iterate [of n]
  by (simp only: initialTargetBackoff_def maximumTargetBackoff_def)

text \<open>
  A batch of concurrent calls advances the backoff at most once. An unavailability report
  whose observation is of an earlier epoch, or was made while the target was already
  suppressed, changes neither the epoch nor the delay, and cannot shorten the suppression.
\<close>

theorem stale_epoch_no_advance:
  assumes "ob_epoch ob \<noteq> st_epoch s \<or> ob_suppressed ob"
    and "observe_unavailable now hint ob (s, l) = (s', l')"
  shows "st_epoch s' = st_epoch s \<and>
    rec_delay (get_record l' (ob_key ob)) = rec_delay (get_record l (ob_key ob)) \<and>
    rec_until (get_record l (ob_key ob)) \<le> rec_until (get_record l' (ob_key ob))"
proof (cases "ob_sequence ob \<le> st_latestReachable s")
  case True
  with assms(2) show ?thesis by (simp add: observe_unavailable_def)
next
  case False
  define r where "r = get_record l (ob_key ob)"
  define u where "u = (case hint of Some h \<Rightarrow> if h > rec_until r then h else rec_until r
    | None \<Rightarrow> rec_until r)"
  have u: "rec_until r \<le> u" by (simp add: u_def split: option.split)
  define c where "c = (if rec_class r = targetBackoffNone then r\<lparr>rec_class := targetBackoffTransport\<rparr>
    else r)"
  have c: "rec_delay c = rec_delay r" "rec_until c = rec_until r" by (simp_all add: c_def)
  have "observe_unavailable now hint ob (s, l) =
      (s\<lparr>st_latestSuppression := max (st_latestSuppression s) (ob_sequence ob)\<rparr>,
       if u \<noteq> 0 then put_record (ob_key ob) (c\<lparr>rec_until := u\<rparr>) l else l)"
    using assms(1)
  proof
    assume "ob_epoch ob \<noteq> st_epoch s"
    then show ?thesis
      using False unfolding c_def u_def r_def
      by (cases hint) (simp_all add: observe_unavailable_def Let_def)
  next
    assume "ob_suppressed ob"
    then show ?thesis
      using False unfolding c_def u_def r_def
      by (cases hint) (simp_all add: observe_unavailable_def Let_def)
  qed
  then have s': "st_epoch s' = st_epoch s"
    and l': "l' = (if u \<noteq> 0 then put_record (ob_key ob) (c\<lparr>rec_until := u\<rparr>) l else l)"
    using assms(2) by auto
  have "get_record l' (ob_key ob) = (if u \<noteq> 0 then c\<lparr>rec_until := u\<rparr> else r)"
    by (simp add: l' get_record_def put_record_def r_def)
  then show ?thesis using s' u c by (auto simp: r_def [symmetric])
qed

text \<open>
  Stale evidence is ignored. An unavailability report for a call that was admitted no
  later than a call already known to have reached the target changes nothing; ingress for a
  call admitted no later than the latest suppression leaves the suppression in place, and
  ingress for a later call lifts it.
\<close>

theorem stale_evidence_ignored:
  "(ob_sequence ob \<le> st_latestReachable s \<longrightarrow> observe_unavailable now hint ob (s, l) = (s, l)) \<and>
   lg_records (snd (observe_ingress ob (s, l))) (ob_key ob) =
     (if ob_sequence ob \<le> st_latestSuppression s then lg_records l (ob_key ob) else None)"
  by (simp add: observe_unavailable_def observe_ingress_def Let_def)

text \<open>
  Evidence stays with its target generation: reporting the result of a call changes no
  record of another workspace, target or target version, other than dropping records that
  ended more than fifteen minutes ago.
\<close>

theorem observe_frame:
  assumes "k \<noteq> ob_key ob"
  shows "lg_records (observe parse_time now ob e l) k = lg_records l k \<or>
    lg_records (observe parse_time now ob e l) k = None \<and>
    (\<exists>r. lg_records l k = Some r \<and> rec_until r + maximumTargetBackoff \<le> now)"
proof (cases "lg_observations l (ob_key ob)")
  case None
  then show ?thesis by (simp add: observe_def)
next
  case (Some s)
  define s0 where "s0 = (if st_inFlight s > 0 then s\<lparr>st_inFlight := st_inFlight s - 1\<rparr> else s)"
  obtain s' d where ev: "observe_event parse_time now ob e (s0, cleanup now l) = (s', d)"
    by fastforce
  have "lg_records (observe parse_time now ob e l) k = lg_records d k"
    using Some ev by (simp add: observe_def s0_def [symmetric] finishObservation_def)
  also have "\<dots> = lg_records (cleanup now l) k" using event.frame [OF ev] assms by blast
  finally show ?thesis
    by (auto simp: cleanup_def expired_def targetBackoffStale_def split: option.split)
qed

section \<open>Concrete runs\<close>

definition key1 :: targetBackoffKey where
  "key1 = \<lparr>bk_workspace = ''dev'', bk_targetID = ''a'', bk_targetVersion = 1\<rparr>"

definition failA :: call_event where
  "failA = CallFailed (UnavailableError (Some (BackendError
     \<lparr>be_TargetID = ''a'', be_StatusCode = 429, be_Message = ''busy'',
       be_RetryAfterHeaderValue = ''3600'', be_ProviderError = None\<rparr>)))"

definition failB :: call_event where "failB = CallFailed (UnavailableError None)"

text \<open>Two calls begin; the second fails; a third begins after the backoff; the first fails late.\<close>

definition callA :: "targetObservation \<times> targetBackoffLedger" where
  "callA = begin_call 1 key1 newTargetBackoffLedger"

definition callC :: "targetObservation \<times> targetBackoffLedger" where
  "callC = begin_call 1 key1 (snd callA)"

definition failedC :: targetBackoffLedger where
  "failedC = observe (\<lambda>_. None) 1 (fst callC) failB (snd callC)"

definition callB :: "targetObservation \<times> targetBackoffLedger" where
  "callB = begin_call 2000000001 key1 failedC"

definition failedA :: targetBackoffLedger where
  "failedA = observe (\<lambda>_. None) 2000000001 (fst callA) failA (snd callB)"

lemma sample_run:
  "ledger_run (snd callC) [fst callC, fst callA]" "ledger_run failedA [fst callB]"
proof -
  have 1: "ledger_run (snd callA) [fst callA]"
    by (rule ledger_run.begin_call [OF ledger_run.init]) (simp add: callA_def)
  show 2: "ledger_run (snd callC) [fst callC, fst callA]"
    by (rule ledger_run.begin_call [OF 1]) (simp add: callC_def)
  have "ledger_run failedC (remove1 (fst callC) [fst callC, fst callA])"
    by (rule ledger_run.finish [OF 2]) (simp_all add: failedC_def)
  then have 3: "ledger_run failedC [fst callA]" by simp
  have 4: "ledger_run (snd callB) [fst callB, fst callA]"
    by (rule ledger_run.begin_call [OF 3]) (simp add: callB_def)
  have "ledger_run failedA (remove1 (fst callA) [fst callB, fst callA])"
    by (rule ledger_run.finish [OF 4]) (simp_all add: failedA_def)
  moreover have "remove1 (fst callA) [fst callB, fst callA] = [fst callB]" by code_simp
  ultimately show "ledger_run failedA [fst callB]" by simp
qed

text \<open>
  A retry hint of the provider can be lost. There is a run in which a call of an earlier
  epoch reports a \<^verbatim>\<open>Retry-After\<close> of one hour, and the failure without a hint of a later call,
  which began before that report, then replaces the hour by the next exponential delay:
  the target is attempted again long before the instant the provider asked for.
\<close>

theorem retry_hint_shortened:
  "\<exists>l out ob now. ledger_run l out \<and> ob \<in> set out \<and>
     rec_until (get_record l (ob_key ob)) = now + 3600 * Second \<and>
     rec_until (get_record (observe (\<lambda>_. None) now ob (CallFailed (UnavailableError None)) l)
       (ob_key ob)) = now + 2 * Second"
proof (intro exI conjI)
  show "ledger_run failedA [fst callB]" by (rule sample_run(2))
  show "fst callB \<in> set [fst callB]" by simp
  show "rec_until (get_record failedA (ob_key (fst callB))) = 2000000001 + 3600 * Second"
    by code_simp
  show "rec_until (get_record (observe (\<lambda>_. None) 2000000001 (fst callB)
      (CallFailed (UnavailableError None)) failedA) (ob_key (fst callB))) = 2000000001 + 2 * Second"
    by code_simp
qed

theorem ledger_accounting_witness:
  "st_inFlight (get_state failedA key1) = 1 \<and> pending key1 [fst callB] = 1"
proof -
  have "pending key1 [fst callB] = 1" by code_simp
  then show ?thesis using ledger_accounting [OF sample_run(2), of key1] by simp
qed

theorem stale_epoch_no_advance_witness:
  "st_epoch (fst (observe_unavailable 9 (Some 50) (fst callA)
     (get_state failedC key1, failedC))) = 1"
proof -
  obtain s l where e: "observe_unavailable 9 (Some 50) (fst callA)
      (get_state failedC key1, failedC) = (s, l)" by fastforce
  have "ob_epoch (fst callA) \<noteq> st_epoch (get_state failedC key1)"
    "st_epoch (get_state failedC key1) = 1" by code_simp+
  with stale_epoch_no_advance [OF _ e] show ?thesis by (simp add: e)
qed

theorem stale_evidence_ignored_witness:
  "observe_unavailable 9 None (fst callA) (zeroState\<lparr>st_latestReachable := 1\<rparr>, failedC) =
     (zeroState\<lparr>st_latestReachable := 1\<rparr>, failedC)"
proof -
  have "ob_sequence (fst callA) \<le> st_latestReachable (zeroState\<lparr>st_latestReachable := 1\<rparr>)"
    by code_simp
  then show ?thesis using stale_evidence_ignored by blast
qed

theorem observe_frame_witness:
  "lg_records (observe (\<lambda>_. None) 9 (fst callA) failA failedC) (key1\<lparr>bk_targetVersion := 2\<rparr>) = None"
proof -
  have "key1\<lparr>bk_targetVersion := 2\<rparr> \<noteq> ob_key (fst callA)" by code_simp
  moreover have "lg_records failedC (key1\<lparr>bk_targetVersion := 2\<rparr>) = None" by code_simp
  ultimately show ?thesis using observe_frame by metis
qed

end
