(* ===== verification/Target_Knowledge.thy ===== *)
theory Target_Knowledge
  imports Prelude
begin

text \<open>
  Empirical knowledge about target dialects: the attempt-private reader of
  \<^verbatim>\<open>src/internal/provider/target_facts.go\<close> and the process-wide set of proven rejections of
  \<^verbatim>\<open>src/internal/exchange/target_knowledge.go\<close>. A lookup is a function that may be nil; since
  the set behind it may change between two reads, every read is given the lookup of its
  moment.
\<close>

datatype TargetFact =
    AcceptsParallelToolCallsFalse | AcceptsMaxCompletionTokens | AcceptsReasoningEffortMax
  | AcceptsReasoningDisabled | AcceptsFunctionCallOutputArray | AcceptsChatStreamIncludeUsage
  | AcceptsResponsesReasoningContextAllTurns

text \<open>The value of the constant, which orders the facts.\<close>

fun fact_index :: "TargetFact \<Rightarrow> nat" where
  "fact_index AcceptsParallelToolCallsFalse = 1"
| "fact_index AcceptsMaxCompletionTokens = 2"
| "fact_index AcceptsReasoningEffortMax = 3"
| "fact_index AcceptsReasoningDisabled = 4"
| "fact_index AcceptsFunctionCallOutputArray = 5"
| "fact_index AcceptsChatStreamIncludeUsage = 6"
| "fact_index AcceptsResponsesReasoningContextAllTurns = 7"

lemma fact_index_inj: "fact_index f = fact_index g \<longleftrightarrow> f = g"
  by (cases f; cases g; simp)

type_synonym TargetFactLookup = "TargetFact \<Rightarrow> bool option"
type_synonym FactReads = "(TargetFact \<times> bool) list"

definition read_fact :: "TargetFactLookup option \<Rightarrow> TargetFact \<Rightarrow> FactReads \<Rightarrow> bool \<times> FactReads" where
  "read_fact lookup ft reads =
     (case map_of reads ft of
        Some value \<Rightarrow> (value, reads)
      | None \<Rightarrow>
          let value = (case lookup of None \<Rightarrow> True
            | Some f \<Rightarrow> (case f ft of None \<Rightarrow> True | Some known \<Rightarrow> known))
          in (value, AList.update ft value reads))"

text \<open>The reads of one encoding, in order, each with the lookup of its moment.\<close>

fun read_facts ::
    "(TargetFactLookup option \<times> TargetFact) list \<Rightarrow> FactReads \<Rightarrow> bool list \<times> FactReads" where
  "read_facts [] reads = ([], reads)"
| "read_facts ((lookup, ft) # rest) reads =
     (let (value, reads') = read_fact lookup ft reads; (values, reads'') = read_facts rest reads'
      in (value # values, reads''))"

section \<open>Proven rejections\<close>

record targetExceptionGeneration =
  gen_workspace :: string
  gen_targetID :: string
  gen_targetVersion :: "64 word"

type_synonym targetExceptions = "(targetExceptionGeneration \<times> TargetFact) set"

definition exceptions_lookup ::
    "targetExceptions \<Rightarrow> targetExceptionGeneration \<Rightarrow> TargetFactLookup" where
  "exceptions_lookup k generation ft = (if (generation, ft) \<in> k then Some False else None)"

definition exceptions_observe ::
    "targetExceptionGeneration \<Rightarrow> TargetFact \<Rightarrow> bool \<Rightarrow> targetExceptions \<Rightarrow> targetExceptions" where
  "exceptions_observe generation ft preferredAccepted k =
     (if preferredAccepted then k - {(generation, ft)} else insert (generation, ft) k)"

section \<open>Reads are stable\<close>

lemma read_fact_keeps:
  "map_of reads g = Some v \<Longrightarrow> map_of (snd (read_fact lookup f reads)) g = Some v"
  by (auto simp: read_fact_def Let_def update_conv' split: option.split)

lemma read_fact_records: "map_of (snd (read_fact lookup f reads)) f = Some (fst (read_fact lookup f reads))"
  by (auto simp: read_fact_def Let_def update_conv' split: option.split)

lemma read_facts_Cons:
  "read_facts (q # qs) reads =
     (let r = read_fact (fst q) (snd q) reads
      in (fst r # fst (read_facts qs (snd r)), snd (read_facts qs (snd r))))"
  by (cases q) (simp add: split_beta Let_def)

lemma read_facts_keeps:
  "map_of reads g = Some v \<Longrightarrow> map_of (snd (read_facts qs reads)) g = Some v"
  by (induction qs arbitrary: reads) (auto simp: read_facts_Cons read_fact_keeps Let_def simp del: read_facts.simps(2))

lemma read_facts_records:
  "list_all2 (\<lambda>(_, ft) value. map_of (snd (read_facts qs reads)) ft = Some value)
     qs (fst (read_facts qs reads))"
proof (induction qs arbitrary: reads)
  case (Cons q qs)
  obtain lookup ft where q: "q = (lookup, ft)" by (cases q)
  have "map_of (snd (read_facts qs (snd (read_fact lookup ft reads)))) ft =
      Some (fst (read_fact lookup ft reads))"
    by (rule read_facts_keeps) (rule read_fact_records)
  with Cons [of "snd (read_fact lookup ft reads)"] show ?case
    by (simp add: q read_facts_Cons Let_def del: read_facts.simps)
qed simp

lemma read_facts_domain:
  "fst ` set (snd (read_facts qs reads)) = fst ` set reads \<union> snd ` set qs"
proof (induction qs arbitrary: reads)
  case (Cons q qs)
  obtain lookup ft where q: "q = (lookup, ft)" by (cases q)
  have "fst ` set (snd (read_fact lookup ft reads)) = insert ft (fst ` set reads)"
  proof (cases "map_of reads ft")
    case (Some v)
    then have "ft \<in> fst ` set reads" by (metis map_of_eq_None_iff option.distinct(1))
    with Some show ?thesis by (auto simp: read_fact_def)
  qed (simp add: read_fact_def Let_def dom_update)
  with Cons show ?case by (auto simp: q read_facts_Cons Let_def simp del: read_facts.simps)
qed simp

section \<open>The latest observation decides\<close>

fun last_observation ::
    "(targetExceptionGeneration \<times> TargetFact) \<Rightarrow>
     (targetExceptionGeneration \<times> TargetFact \<times> bool) list \<Rightarrow> bool option" where
  "last_observation k [] = None"
| "last_observation k ((g, f, accepted) # rest) =
     (case last_observation k rest of
        Some v \<Rightarrow> Some v
      | None \<Rightarrow> if (g, f) = k then Some accepted else None)"

lemma fold_exceptions_member:
  "k \<in> fold (\<lambda>(g, f, accepted). exceptions_observe g f accepted) obs ex \<longleftrightarrow>
     (case last_observation k obs of None \<Rightarrow> k \<in> ex | Some accepted \<Rightarrow> \<not> accepted)"
proof (induction obs arbitrary: ex)
  case (Cons o' obs)
  obtain g f a where "o' = (g, f, a)" by (cases o')
  with Cons show ?case
    by (cases "last_observation k obs"; cases a) (auto simp: exceptions_observe_def)
qed simp

section \<open>Properties\<close>

text \<open>
  One encoding sees each fact with one value: whatever the shared knowledge does
  between two reads, every answer the reader gave is the value its final snapshot records
  for the fact, and the snapshot names exactly the facts that were read.
\<close>

theorem fact_reads_stable:
  "list_all2 (\<lambda>(_, ft) value. map_of (snd (read_facts qs [])) ft = Some value)
     qs (fst (read_facts qs [])) \<and>
   fst ` set (snd (read_facts qs [])) = snd ` set qs"
  using read_facts_records [of qs "[]"] read_facts_domain [of qs "[]"] by simp

text \<open>
  The shared set of rejections answers every lookup by the latest observation of exactly
  that target generation and fact: the preferred projection after an acceptance or without
  an observation, the alternative after a rejection. Observations of other generations or
  facts never matter.
\<close>

theorem exceptions_latest:
  "exceptions_lookup (fold (\<lambda>(g, f, accepted). exceptions_observe g f accepted) obs {}) gen ft =
     (if last_observation (gen, ft) obs = Some False then Some False else None)"
  by (auto simp: exceptions_lookup_def fold_exceptions_member split: option.split)

end
