(* ===== verification/Affinity.thy ===== *)
theory Affinity
  imports Prelude
begin

text \<open>
  Execution affinity and cache locality (\<^verbatim>\<open>src/internal/domain/executionaffinity/key.go\<close>,
  \<^verbatim>\<open>src/internal/domain/cachelocality/key.go\<close>). SHA-256 is the parameter \<open>hash\<close> from byte
  strings to byte strings; the text encodings of a digest, \<^verbatim>\<open>base64.RawURLEncoding\<close> and
  \<^verbatim>\<open>hex\<close>, are the parameters \<open>b64\<close> and \<open>hex\<close>. What is proved is about the byte strings that
  are hashed.
\<close>

section \<open>Length-prefixed frames\<close>

text \<open>The last \<open>k\<close> bytes of a number, most significant first: \<^verbatim>\<open>binary.BigEndian.PutUint64\<close> for 8.\<close>

fun big_endian :: "nat \<Rightarrow> nat \<Rightarrow> string" where
  "big_endian 0 n = []"
| "big_endian (Suc k) n = big_endian k (n div 256) @ [char_of (n mod 256)]"

definition writeFrame :: "string \<Rightarrow> string" where
  "writeFrame value = big_endian 8 (length value) @ value"

definition frames :: "string list \<Rightarrow> string" where
  "frames vs = concat (map writeFrame vs)"

lemma length_big_endian [simp]: "length (big_endian k n) = k"
  by (induction k arbitrary: n) simp_all

lemma big_endian_inj: "big_endian k m = big_endian k n \<Longrightarrow> m mod 256 ^ k = n mod 256 ^ k"
proof (induction k arbitrary: m n)
  case (Suc k)
  have "big_endian k (m div 256) @ [char_of (m mod 256)] =
      big_endian k (n div 256) @ [char_of (n mod 256)]" using Suc.prems by simp
  then have h: "big_endian k (m div 256) = big_endian k (n div 256)"
    and l: "char_of (m mod 256) = (char_of (n mod 256) :: char)" by blast+
  have "m div 256 mod 256 ^ k = n div 256 mod 256 ^ k" using h by (rule Suc.IH)
  moreover have "m mod 256 = n mod 256"
    using arg_cong [OF l, of "of_char :: char \<Rightarrow> nat"] unfolding of_char_of by simp
  ultimately show ?case unfolding power_Suc mod_mult2_eq by simp
qed simp

text \<open>Every byte string a process can hold is shorter than \<open>2 ^ 64\<close>.\<close>

definition addressable :: "string \<Rightarrow> bool" where
  "addressable v \<longleftrightarrow> length v < 2 ^ 64"

lemma writeFrame_inj:
  assumes "writeFrame v @ r = writeFrame w @ s" and "addressable v" and "addressable w"
  shows "v = w \<and> r = s"
proof -
  have "big_endian 8 (length v) = big_endian 8 (length w)"
    using assms(1) unfolding writeFrame_def by (simp add: append_eq_append_conv)
  then have "length v mod 256 ^ 8 = length w mod 256 ^ 8" by (rule big_endian_inj)
  then have "length v = length w" using assms(2,3) by (simp add: addressable_def)
  with assms(1) show ?thesis unfolding writeFrame_def by simp
qed

lemma writeFrame_nonempty [simp]: "writeFrame v \<noteq> []"
  by (metis append_is_Nil_conv length_0_conv length_big_endian writeFrame_def zero_neq_numeral)

lemma frames_inj:
  "frames vs = frames ws \<Longrightarrow> \<forall>v \<in> set vs. addressable v \<Longrightarrow> \<forall>w \<in> set ws. addressable w \<Longrightarrow> vs = ws"
proof (induction vs arbitrary: ws)
  case Nil
  then show ?case by (cases ws) (auto simp: frames_def)
next
  case (Cons v vs)
  then obtain w ws' where ws: "ws = w # ws'" by (cases ws) (auto simp: frames_def)
  have "writeFrame v @ frames vs = writeFrame w @ frames ws'"
    using Cons.prems(1) by (simp add: frames_def ws)
  then have "v = w \<and> frames vs = frames ws'"
    by (rule writeFrame_inj) (use Cons.prems ws in auto)
  with Cons ws show ?case by auto
qed

section \<open>Execution affinity\<close>

definition deriveDomain :: string where "deriveDomain = ''swobu/thread-id/v1''"
definition projectDomain :: string where "projectDomain = ''swobu/thread-projection/v1''"

type_synonym affinity_key = string

definition zeroKey :: affinity_key where "zeroKey = replicate 32 (CHR 0x00)"

definition affinity_IsZero :: "affinity_key \<Rightarrow> bool" where
  "affinity_IsZero key \<longleftrightarrow> key = zeroKey"

definition Derive :: "(string \<Rightarrow> string) \<Rightarrow> string \<Rightarrow> string list \<Rightarrow> message + affinity_key" where
  "Derive hash namespace parts =
     (if namespace = [] then Inl (Text ''execution-affinity derivation namespace is empty'')
      else Inr (hash (frames (deriveDomain # namespace # parts))))"

definition Project ::
    "(string \<Rightarrow> string) \<Rightarrow> (string \<Rightarrow> string) \<Rightarrow> string \<Rightarrow> affinity_key \<Rightarrow> message + string" where
  "Project hash b64 namespace key =
     (if namespace = [] then Inl (Text ''execution-affinity projection namespace is empty'')
      else if affinity_IsZero key then Inl (Text ''execution-affinity key is zero'')
      else Inr (b64 (hash (frames [projectDomain, namespace, key]))))"

section \<open>Cache locality\<close>

definition derivedDomain :: string where "derivedDomain = ''cache-affinity:v1''"

definition Derived :: "(string \<Rightarrow> string) \<Rightarrow> (string \<Rightarrow> string) \<Rightarrow> string \<Rightarrow> string \<Rightarrow> string" where
  "Derived hash hex workspace affinity =
     ''swobu_'' @ hex (hash (derivedDomain @ [CHR 0x00] @ workspace @ [CHR 0x00] @ affinity))"

definition FromExecutionAffinity ::
    "(string \<Rightarrow> string) \<Rightarrow> (string \<Rightarrow> string) \<Rightarrow> affinity_key \<Rightarrow> message + string" where
  "FromExecutionAffinity hash b64 key =
     and_then (Project hash b64 ''cache-locality/v1'' key)
       (\<lambda>projected. Inr (''swobu_'' @ projected))"

definition locality_IsZero :: "string \<Rightarrow> bool" where
  "locality_IsZero k \<longleftrightarrow> k = []"

section \<open>Properties\<close>

text \<open>
  Affinity keys are derived from an unambiguous byte string. If the hash does not collide
  on the two byte strings, two derivations give the same key only for the same namespace and
  the same list of parts, however the parts split a text; and no derivation is ever confused
  with a projection of a key.
\<close>

theorem affinity_unambiguous:
  assumes "inj_on hash {frames (deriveDomain # n # ps), frames (deriveDomain # m # qs),
      frames [projectDomain, m, k]}"
    and "\<forall>v \<in> set (n # m # k # ps @ qs). addressable v" and "n \<noteq> []" and "m \<noteq> []"
  shows "(Derive hash n ps = Derive hash m qs \<longleftrightarrow> n = m \<and> ps = qs) \<and>
    Derive hash n ps \<noteq> Inr (hash (frames [projectDomain, m, k]))"
proof -
  have d: "addressable deriveDomain" "addressable projectDomain"
    by (simp_all add: addressable_def deriveDomain_def projectDomain_def)
  have eq: "frames (deriveDomain # n # ps) = frames (deriveDomain # m # qs) \<longleftrightarrow> n = m \<and> ps = qs"
    using frames_inj [of "deriveDomain # n # ps" "deriveDomain # m # qs"] d assms(2) by auto
  have ne: "frames (deriveDomain # n # ps) \<noteq> frames [projectDomain, m, k]"
    using frames_inj [of "deriveDomain # n # ps" "[projectDomain, m, k]"] d assms(2)
    by (auto simp: deriveDomain_def projectDomain_def)
  show ?thesis
    using assms(1,3,4) eq ne by (auto simp: Derive_def inj_on_eq_iff)
qed

theorem affinity_unambiguous_witness:
  "Derive (\<lambda>s. s) ''ns'' [''ab'', ''c''] \<noteq> Derive (\<lambda>s. s) ''ns'' [''a'', ''bc'']"
  using affinity_unambiguous [of "\<lambda>s. s" "''ns''" "[''ab'', ''c'']" "''ns''" "[''a'', ''bc'']" "''k''"]
  by (simp add: addressable_def)

end
