(* ===== verification/Compat.thy ===== *)
theory Compat
  imports Prelude
begin

text \<open>
  Evidence of non-exact transformations (\<^verbatim>\<open>src/internal/compat/change.go\<close>). A capability path
  is a string; an occurrence is represented by its key, which is all the package compares.
\<close>

datatype ChangeKind = Approximation | Omission | ChangeKindInvalid

record Change =
  cg_Capability :: string
  cg_Occurrence :: string
  cg_Kind :: ChangeKind

definition change_Validate :: "Change \<Rightarrow> string + unit" where
  "change_Validate c =
     (if cg_Capability c = [] then Inl ''compatibility change capability is empty''
      else case cg_Kind c of
        Approximation \<Rightarrow> Inr ()
      | Omission \<Rightarrow> Inr ()
      | ChangeKindInvalid \<Rightarrow> Inl ''compatibility change kind is invalid'')"

fun validate_changes :: "nat \<Rightarrow> Change list \<Rightarrow> (nat \<times> string) + unit" where
  "validate_changes index [] = Inr ()"
| "validate_changes index (c # cs) =
     (case change_Validate c of
        Inl e \<Rightarrow> Inl (index, e)
      | Inr _ \<Rightarrow> validate_changes (Suc index) cs)"

text \<open>The error names the first invalid change by its index.\<close>

definition ValidateChanges :: "Change list \<Rightarrow> (nat \<times> string) + unit" where
  "ValidateChanges = validate_changes 0"

definition same_change :: "Change \<Rightarrow> Change \<Rightarrow> bool" where
  "same_change a b \<longleftrightarrow> cg_Capability a = cg_Capability b \<and> cg_Occurrence a = cg_Occurrence b \<and>
     cg_Kind a = cg_Kind b"

definition AppendUnique :: "Change list \<Rightarrow> Change \<Rightarrow> Change list" where
  "AppendUnique changes change =
     (if list_ex (\<lambda>existing. same_change existing change) changes then changes
      else changes @ [change])"

definition change_ok :: "Change \<Rightarrow> bool" where
  "change_ok c \<longleftrightarrow> cg_Capability c \<noteq> [] \<and> cg_Kind c \<noteq> ChangeKindInvalid"

lemma change_Validate_iff: "change_Validate c = Inr u \<longleftrightarrow> change_ok c"
  by (auto simp: change_Validate_def change_ok_def split: ChangeKind.split)

lemma validate_changes_iff: "validate_changes i cs = Inr u \<longleftrightarrow> list_all change_ok cs"
proof (induction cs arbitrary: i)
  case (Cons c cs)
  then show ?case
    using change_Validate_iff [of c "()"] by (cases "change_Validate c") auto
qed simp

lemma ValidateChanges_iff: "ValidateChanges cs = Inr u \<longleftrightarrow> list_all change_ok cs"
  by (simp add: ValidateChanges_def validate_changes_iff)

lemma same_change_eq: "same_change a b \<longleftrightarrow> a = b"
  by (cases a; cases b) (simp add: same_change_def)

lemma AppendUnique_eq: "AppendUnique cs c = (if c \<in> set cs then cs else cs @ [c])"
  by (auto simp: AppendUnique_def same_change_eq list_ex_iff)

text \<open>
  Collecting changes with \<open>AppendUnique\<close> records each semantic fact once: the collected list
  has no duplicates, holds exactly the observed changes, and keeps the order of their first
  observation.
\<close>

theorem AppendUnique_collects:
  "distinct (foldl AppendUnique [] cs) \<and> set (foldl AppendUnique [] cs) = set cs \<and>
   foldl AppendUnique [] cs = rev (remdups (rev cs))"
proof -
  have "foldl AppendUnique [] cs = rev (remdups (rev cs))"
    by (induction cs rule: rev_induct) (simp_all add: AppendUnique_eq)
  then show ?thesis by simp
qed

end
