(* ===== verification/Routing_Plan.thy ===== *)
theory Routing_Plan
  imports Routing_Model
begin

text \<open>
  The attempt plan of a route (\<^verbatim>\<open>src/internal/routing/plan.go\<close>): the targets of each tier in a
  pseudo-random order that is seeded from the placement key, the route name and the tier
  index, tiers concatenated in fallback order.

  SHA-256 and the generator of \<^verbatim>\<open>math/rand\<close> are functions of a record: \<open>sha256\<close> hashes the
  seed text, and \<open>draw seed n i\<close> is the index that \<open>Shuffle(n)\<close> draws at position \<open>i\<close> from a
  source with that seed. Their documented contract, \<open>draw seed n i \<le> i\<close>, is
  \<open>randomness_ok\<close>.
\<close>

unbundle bit_operations_syntax

record randomness =
  sha256 :: "string \<Rightarrow> 8 word list"
  draw :: "64 word \<Rightarrow> nat \<Rightarrow> nat \<Rightarrow> nat"

definition randomness_ok :: "randomness \<Rightarrow> bool" where
  "randomness_ok rnd \<longleftrightarrow> (\<forall>seed n i. draw rnd seed n i \<le> i)"

text \<open>\<^verbatim>\<open>binary.LittleEndian.Uint64\<close>\<close>

definition LittleEndian_Uint64 :: "8 word list \<Rightarrow> 64 word" where
  "LittleEndian_Uint64 b =
     fold (\<lambda>i acc. acc OR push_bit (8 * i) (ucast (b ! i))) [0..<8] 0"

definition swap :: "nat \<Rightarrow> nat \<Rightarrow> 'a list \<Rightarrow> 'a list" where
  "swap i j xs = xs[i := xs ! j, j := xs ! i]"

text \<open>The loop of \<^verbatim>\<open>rand.Shuffle\<close>, from the last position down to position 1.\<close>

fun shuffle_from :: "(nat \<Rightarrow> nat) \<Rightarrow> nat \<Rightarrow> 'a list \<Rightarrow> 'a list" where
  "shuffle_from d 0 xs = xs"
| "shuffle_from d (Suc i) xs = shuffle_from d i (swap (Suc i) (d (Suc i)) xs)"

definition Shuffle :: "(nat \<Rightarrow> nat) \<Rightarrow> 'a list \<Rightarrow> 'a list" where
  "Shuffle d xs = shuffle_from d (length xs - 1) xs"

definition tierSeed :: "randomness \<Rightarrow> string \<Rightarrow> string \<Rightarrow> nat \<Rightarrow> 64 word" where
  "tierSeed rnd placementKey name tierIndex =
     LittleEndian_Uint64 (take 8 (sha256 rnd
       (placementKey @ [CHR 0x00] @ name @ [CHR 0x00] @ decimal tierIndex)))"

text \<open>
  One tier. The comparison of target IDs is Go's bytewise string order; targets of a valid
  tier have distinct IDs, so the order that \<^verbatim>\<open>sort.Slice\<close> produces is unique.
\<close>

definition planTier :: "randomness \<Rightarrow> string \<Rightarrow> string \<Rightarrow> nat \<Rightarrow> Tier \<Rightarrow> Target list" where
  "planTier rnd placementKey name tierIndex tier =
     (let targets = sort_key target_id tier
      in Shuffle (draw rnd (tierSeed rnd placementKey name tierIndex) (length targets)) targets)"

fun plan_tiers :: "randomness \<Rightarrow> string \<Rightarrow> string \<Rightarrow> nat \<Rightarrow> Tier list \<Rightarrow> Target list" where
  "plan_tiers rnd placementKey name tierIndex [] = []"
| "plan_tiers rnd placementKey name tierIndex (tier # tiers) =
     planTier rnd placementKey name tierIndex tier @
     plan_tiers rnd placementKey name (Suc tierIndex) tiers"

definition BuildPlan :: "randomness \<Rightarrow> string \<Rightarrow> Route \<Rightarrow> Target list" where
  "BuildPlan rnd placementKey r = plan_tiers rnd placementKey (route_name r) 0 (route_tiers r)"

section \<open>Shuffling permutes\<close>

lemma length_swap [simp]: "length (swap i j xs) = length xs"
  by (simp add: swap_def)

lemma mset_swap_indices:
  "i < length xs \<Longrightarrow> j < length xs \<Longrightarrow> mset (swap i j xs) = mset xs"
  unfolding swap_def by (rule mset_swap)

lemma mset_shuffle_from:
  "i < length xs \<Longrightarrow> (\<And>k. d k \<le> k) \<Longrightarrow> mset (shuffle_from d i xs) = mset xs"
proof (induction i arbitrary: xs)
  case (Suc i)
  have "d (Suc i) < length xs" using Suc.prems by (meson le_less_trans)
  with Suc show ?case by (simp add: mset_swap_indices)
qed simp

lemma mset_Shuffle: "(\<And>k. d k \<le> k) \<Longrightarrow> mset (Shuffle d xs) = mset xs"
  unfolding Shuffle_def by (cases "xs = []") (simp_all add: mset_shuffle_from)

lemma mset_planTier: "randomness_ok rnd \<Longrightarrow> mset (planTier rnd key name i tier) = mset tier"
  by (simp add: planTier_def Let_def mset_Shuffle randomness_ok_def)

lemma mset_plan_tiers:
  "randomness_ok rnd \<Longrightarrow> mset (plan_tiers rnd key name i tiers) = mset (concat tiers)"
  by (induction tiers arbitrary: i) (simp_all add: mset_planTier)

lemma set_BuildPlan: "randomness_ok rnd \<Longrightarrow> set (BuildPlan rnd key r) = set (route_targets r)"
  unfolding BuildPlan_def route_targets_def by (rule mset_eq_setD, rule mset_plan_tiers)

text \<open>The length needs no contract of the generator.\<close>

lemma length_shuffle_from [simp]: "length (shuffle_from d i xs) = length xs"
  by (induction i arbitrary: xs) simp_all

lemma length_planTier [simp]: "length (planTier rnd key name i tier) = length tier"
  by (simp add: planTier_def Shuffle_def Let_def)

lemma length_plan_tiers: "length (plan_tiers rnd key name i tiers) = length (concat tiers)"
  by (induction tiers arbitrary: i) simp_all

lemma length_BuildPlan: "length (BuildPlan rnd key r) = length (route_targets r)"
  by (simp add: BuildPlan_def route_targets_def length_plan_tiers)

text \<open>The plan falls into one block per tier.\<close>

lemma plan_blocks:
  "randomness_ok rnd \<Longrightarrow>
     \<exists>blocks. plan_tiers rnd key name i tiers = concat blocks \<and>
       list_all2 (\<lambda>block tier. mset block = mset tier) blocks tiers"
proof (induction tiers arbitrary: i)
  case (Cons tier tiers)
  then obtain blocks where "plan_tiers rnd key name (Suc i) tiers = concat blocks"
    "list_all2 (\<lambda>block tier. mset block = mset tier) blocks tiers" by blast
  then show ?case
    using Cons.prems
    by (intro exI [of _ "planTier rnd key name i tier # blocks"]) (simp add: mset_planTier)
qed simp

lemma sort_key_unique:
  assumes "distinct (map k xs)" and "mset xs = mset ys"
  shows "sort_key k xs = sort_key k ys"
proof -
  have s: "set xs = set ys" using assms(2) by (rule mset_eq_setD)
  have "mset (map k xs) = mset (map k ys)" using assms(2) by simp
  then have "distinct (map k ys)" using assms(1) by (metis mset_eq_imp_distinct_iff)
  then show ?thesis
    using assms s
    by (intro map_sorted_distinct_set_unique [where f = k])
      (simp_all add: distinct_map sort_key_simps)
qed

lemma plan_tiers_position:
  assumes "list_all2 (\<lambda>t u. mset t = mset u) tiers tiers'"
    and "\<forall>t \<in> set tiers. distinct (map target_id t)"
  shows "plan_tiers rnd key name i tiers = plan_tiers rnd key name i tiers'"
  using assms
proof (induction arbitrary: i rule: list_all2_induct)
  case (Cons t ts u us)
  have "sort_key target_id t = sort_key target_id u"
    by (rule sort_key_unique) (use Cons in simp_all)
  with Cons show ?case by (simp add: planTier_def)
qed simp

section \<open>Properties\<close>

text \<open>
  The plan of a route contains exactly the targets of the route, tier after tier in
  fallback order, each tier's block a permutation of the tier; no target is lost, repeated
  or taken from elsewhere.
\<close>

theorem BuildPlan_tiers:
  assumes "randomness_ok rnd"
  shows "\<exists>blocks. BuildPlan rnd key r = concat blocks \<and>
    list_all2 (\<lambda>block tier. mset block = mset tier) blocks (route_tiers r) \<and>
    mset (BuildPlan rnd key r) = mset (route_targets r)"
  using plan_blocks [OF assms] mset_plan_tiers [OF assms]
  unfolding BuildPlan_def route_targets_def by metis

text \<open>
  The position of a target inside its tier carries no meaning: two valid routes with the
  same name whose tiers hold the same targets in different orders have the same plan for
  every placement key.
\<close>

theorem BuildPlan_position_free:
  assumes "route_ok r" and "route_name r' = route_name r"
    and "list_all2 (\<lambda>t u. mset t = mset u) (route_tiers r) (route_tiers r')"
  shows "BuildPlan rnd key r = BuildPlan rnd key r'"
proof -
  have "distinct (map target_id t)" if "t \<in> set (route_tiers r)" for t
  proof -
    have "distinct (concat (map (map target_id) (route_tiers r)))"
      using assms(1) by (simp add: route_ok_def route_targets_def map_concat)
    with that show ?thesis unfolding distinct_concat_iff by simp
  qed
  then show ?thesis unfolding BuildPlan_def assms(2) by (intro plan_tiers_position assms(3)) blast
qed

section \<open>A concrete plan\<close>

definition sample_randomness :: randomness where
  "sample_randomness = \<lparr>sha256 = (\<lambda>_. replicate 32 7), draw = (\<lambda>_ _ i. i div 2)\<rparr>"

definition sample_tiers :: "Target list \<Rightarrow> Route" where
  "sample_tiers ts = \<lparr>route_name = ''main'', route_tiers = [ts, [sample_target ''z'' 1 ''m'']]\<rparr>"

theorem BuildPlan_tiers_witness:
  "map target_id (BuildPlan sample_randomness ''key'' (sample_tiers
     [sample_target ''c'' 1 ''m'', sample_target ''a'' 1 ''m'', sample_target ''b'' 1 ''m''])) =
     [''c'', ''a'', ''b'', ''z''] \<and>
   mset (BuildPlan sample_randomness ''key'' (sample_tiers [sample_target ''c'' 1 ''m''])) =
     mset (route_targets (sample_tiers [sample_target ''c'' 1 ''m'']))"
proof
  have "randomness_ok sample_randomness" by (simp add: randomness_ok_def sample_randomness_def)
  then show "mset (BuildPlan sample_randomness ''key'' (sample_tiers [sample_target ''c'' 1 ''m''])) =
     mset (route_targets (sample_tiers [sample_target ''c'' 1 ''m'']))"
    using BuildPlan_tiers by blast
qed code_simp

theorem BuildPlan_position_free_witness:
  "BuildPlan sample_randomness ''key'' (sample_tiers
     [sample_target ''a'' 1 ''m'', sample_target ''b'' 1 ''m'']) =
   BuildPlan sample_randomness ''key'' (sample_tiers
     [sample_target ''b'' 1 ''m'', sample_target ''a'' 1 ''m''])"
  by (rule BuildPlan_position_free)
    (simp_all add: sample_tiers_def route_ok_def route_targets_def)

end
