(* ===== verification/Exchange_State.thy ===== *)
theory Exchange_State
  imports Provider_Target Target_Backoff Target_Knowledge Affinity Compat Routing_Plan
begin

text \<open>
  The control state of one exchange (\<^verbatim>\<open>src/internal/exchange/exchange_state.go\<close>), its events and
  commands, and the ledger of provider call attempts (\<^verbatim>\<open>provider_call_attempt.go\<close>).

  Requests, drafts, documents, ingress, responses, checkpoints and MCP runs are values the
  reducer only passes on; they all have the type \<open>'p\<close>. Nil pointers are \<open>None\<close>. Errors that
  the reducer returns for a violated invariant are \<open>invariant_error\<close>.
\<close>

definition invariant_error :: "string \<Rightarrow> go_error" where
  "invariant_error msg = Wrapped (Text (''exchange invariant: '' @ msg)) []"

definition canonical_Internal :: "string \<Rightarrow> go_error" where
  "canonical_Internal msg = canonical_Error ErrorCodeInternal msg"

section \<open>Provider calls\<close>

record 'p Backend =
  bk_Target :: TargetSnapshot
  bk_Codec :: "'p option"
  bk_Transport :: "'p option"

definition backend_Validate :: "'p Backend \<Rightarrow> bool" where
  "backend_Validate b \<longleftrightarrow>
     ts_ProviderSpec (bk_Target b) \<noteq> [] \<and> ts_TargetID (bk_Target b) \<noteq> [] \<and>
     ts_TargetVersion (bk_Target b) \<noteq> 0 \<and> ts_Model (bk_Target b) \<noteq> [] \<and>
     is_ok (ValidateExecutionProtocol (bk_Target b)) \<and>
     bk_Codec b \<noteq> None \<and> bk_Transport b \<noteq> None"

record 'p ProviderRequest =
  rq_ExchangeID :: string
  rq_CacheLocality :: string
  rq_ExecutionAffinity :: affinity_key
  rq_HasNextRouteCandidate :: bool
  rq_Canonical :: 'p
  rq_PreviousHistory :: "'p option"
  rq_Delivery :: Delivery
  rq_ToolNames :: 'p

datatype providerRequestChoice =
  providerRequestPreferred | providerRequestFullHistory | providerRequestReprojected

record providerCallSelection =
  sel_candidateIndex :: int
  sel_requestChoice :: providerRequestChoice

text \<open>\<open>Previous\<close> and \<open>Request\<close> of a history advance.\<close>

type_synonym 'p historyAdvance = "'p option \<times> 'p"

record 'p providerCall =
  pc_backend :: "'p Backend"
  pc_request :: "'p ProviderRequest"
  pc_document :: 'p
  pc_clientCodec :: 'p
  pc_clientDelivery :: Delivery
  pc_exchangeID :: string
  pc_workspaceSlug :: string
  pc_fullRequest :: 'p
  pc_decodeContext :: 'p
  pc_advance :: "'p historyAdvance option"
  pc_storageReuse :: 'p
  pc_executionAffinity :: affinity_key
  pc_delayClientHandoff :: bool
  pc_providerRound :: int
  pc_targetGeneration :: targetExceptionGeneration
  pc_factReads :: FactReads

section \<open>Attempts\<close>

datatype providerCallAttemptStatus =
  providerCallAttemptCalling | providerCallAttemptFailed | providerCallAttemptHandoffReady

record providerCallAttempt =
  at_candidateIndex :: int
  at_target :: TargetSnapshot
  at_requestChoice :: providerRequestChoice
  at_providerRound :: int
  at_nativePreviousResponse :: bool
  at_targetGeneration :: targetExceptionGeneration
  at_factReads :: FactReads
  at_requestChanges :: "Change list"
  at_status :: providerCallAttemptStatus
  at_failure :: "AttemptFailure option"

definition attempt_terminal :: "providerCallAttempt \<Rightarrow> bool" where
  "attempt_terminal a \<longleftrightarrow>
     at_status a = providerCallAttemptFailed \<or> at_status a = providerCallAttemptHandoffReady"

section \<open>Phases, events and commands\<close>

record 'p callingMCP =
  mp_selection :: providerCallSelection
  mp_target :: TargetSnapshot
  mp_client :: 'p
  mp_continuation :: 'p
  mp_calls :: "'p list"
  mp_results :: "'p list"
  mp_next :: int

datatype 'p phase =
    startingPhase
  | loadingCheckpointPhase bool 'p \<comment> \<open>explicit; the reference or the history\<close>
  | preparingMCPPhase
  | callingProviderPhase int "'p providerCall"
  | resolvingTargetFactsPhase int "'p Backend"
  | callingMCPPhase "'p callingMCP"
  | completedPhase 'p TargetSnapshot
  | failedPhase go_error TargetSnapshot

datatype 'p exchangeEvent =
    exchangeStarted
  | checkpointLoaded 'p bool "go_error option" \<comment> \<open>record, found, err\<close>
  | mcpPrepared 'p "'p option" "Change list" "go_error option"
  | mcpBatchStarted "go_error option"
  | providerIngressReceived int 'p
  | providerCallFailed int go_error
  | targetFactsCharacterized int targetExceptionGeneration FactReads
  | mcpToolReturned 'p "go_error option"

datatype 'p command =
    loadCheckpointCommand string bool 'p
  | prepareMCPCommand 'p 'p
  | callProviderCommand int "'p Backend" 'p
  | characterizeTargetFactsCommand int TargetSnapshot targetExceptionGeneration "TargetFact list"
      "'p Backend"
  | callMCPCommand "'p option" 'p
  | beginMCPBatchCommand "'p option" "'p list"

section \<open>The state\<close>

record 'p exchangeInput =
  in_exchangeID :: string
  in_clientDelivery :: Delivery
  in_request :: 'p
  in_rebasedRequest :: "('p \<times> 'p) option" \<comment> \<open>\<open>Request\<close> and \<open>Previous\<close>\<close>
  in_requestFingerprint :: 'p
  in_mcpAccess :: 'p
  in_explicitCacheLocality :: string
  in_explicitExecutionAffinity :: affinity_key
  in_workspace :: Workspace

record routePlan =
  rp_name :: string
  rp_targets :: "Target list"

definition route_at :: "routePlan \<Rightarrow> int \<Rightarrow> Target option" where
  "route_at r index =
     (if index < 0 \<or> index \<ge> int (length (rp_targets r)) then None
      else Some (rp_targets r ! nat index))"

record 'p exchangeState =
  xs_input :: "'p exchangeInput"
  xs_swobuResponseID :: string
  xs_draft :: "'p option"
  xs_prepared :: "'p option"
  xs_mediaFetchCache :: 'p
  xs_route :: routePlan
  xs_providerCallAttempts :: "providerCallAttempt list"
  xs_evaluatedCandidateCount :: int
  xs_phase :: "'p phase"
  xs_advance :: "'p historyAdvance option"
  xs_storageReuse :: 'p
  xs_executionAffinity :: affinity_key
  xs_mcp :: "'p option"
  xs_providerUsage :: "'p list"
  xs_effectiveChanges :: "Change list"
  xs_cacheLocality :: string
  xs_reusablePrefix :: 'p
  xs_previousRequest :: "'p option"
  xs_targetBackoff :: targetBackoffSnapshot

type_synonym 'p reducerOutcome = "'p exchangeState \<times> 'p command option"

text \<open>A transition that ends the exchange with a problem.\<close>

definition fail_exchange :: "'p exchangeState \<Rightarrow> go_error \<Rightarrow> TargetSnapshot \<Rightarrow> 'p reducerOutcome" where
  "fail_exchange s problem target = (s\<lparr>xs_phase := failedPhase problem target\<rparr>, None)"

section \<open>The attempt ledger\<close>

definition providerCallAttemptIndex :: "'p exchangeState \<Rightarrow> int \<Rightarrow> nat option" where
  "providerCallAttemptIndex s tid =
     (let index = tid - 1
      in if index < 0 \<or> index \<ge> int (length (xs_providerCallAttempts s)) then None
         else Some (nat index))"

definition findProviderCallAttempt :: "'p exchangeState \<Rightarrow> int \<Rightarrow> providerCallAttempt option" where
  "findProviderCallAttempt s tid =
     map_option (\<lambda>index. xs_providerCallAttempts s ! index) (providerCallAttemptIndex s tid)"

definition failProviderCallAttempt ::
    "'p exchangeState \<Rightarrow> int \<Rightarrow> go_error \<Rightarrow> go_error + 'p exchangeState" where
  "failProviderCallAttempt s tid failure =
     (case AsAttemptFailure failure of
        None \<Rightarrow> Inl (invariant_error ''provider call attempt has invalid failure facts'')
      | Some fact' \<Rightarrow>
          (case providerCallAttemptIndex s tid of
             None \<Rightarrow> Inl (invariant_error ''provider call attempt is unknown'')
           | Some index \<Rightarrow>
               let attempts = xs_providerCallAttempts s
               in if at_status (attempts ! index) \<noteq> providerCallAttemptCalling
                  then Inl (invariant_error ''provider call attempt is already terminal'')
                  else Inr (s\<lparr>xs_providerCallAttempts := attempts[index := (attempts ! index)
                    \<lparr>at_status := providerCallAttemptFailed, at_failure := Some fact'\<rparr>]\<rparr>)))"

definition completeProviderCallAttempt ::
    "'p exchangeState \<Rightarrow> int \<Rightarrow> go_error + 'p exchangeState" where
  "completeProviderCallAttempt s tid =
     (case providerCallAttemptIndex s tid of
        None \<Rightarrow> Inl (invariant_error ''provider call attempt is unknown'')
      | Some index \<Rightarrow>
          let attempts = xs_providerCallAttempts s
          in if at_status (attempts ! index) \<noteq> providerCallAttemptCalling
             then Inl (invariant_error ''provider call attempt is already terminal'')
             else Inr (s\<lparr>xs_providerCallAttempts := attempts[index := (attempts ! index)
               \<lparr>at_status := providerCallAttemptHandoffReady\<rparr>]\<rparr>))"

text \<open>The provider call operation that an attempt consumes.\<close>

definition operation :: "providerCallAttempt \<Rightarrow> int \<times> providerRequestChoice \<times> int" where
  "operation a = (at_candidateIndex a, at_requestChoice a, at_providerRound a)"

definition nativePreviousResponseSent :: "'p ProviderRequest \<Rightarrow> bool" where
  "nativePreviousResponseSent request \<longleftrightarrow> rq_PreviousHistory request \<noteq> None"

definition beginProviderCallAttempt ::
    "'p exchangeState \<Rightarrow> providerCallSelection \<Rightarrow> 'p providerCall \<Rightarrow> Change list \<Rightarrow>
     go_error + 'p reducerOutcome" where
  "beginProviderCallAttempt s selection call requestChanges =
     (case ValidateChanges requestChanges of
        Inl _ \<Rightarrow> Inl (invariant_error ''provider request changes are invalid'')
      | Inr _ \<Rightarrow>
          if list_ex (\<lambda>prior. at_candidateIndex prior = sel_candidateIndex selection \<and>
              at_requestChoice prior = sel_requestChoice selection \<and>
              at_providerRound prior = pc_providerRound call) (xs_providerCallAttempts s)
          then Inl (invariant_error ''provider call operation was already consumed'')
          else
            let attemptID = int (length (xs_providerCallAttempts s)) + 1;
                attempt = \<lparr>at_candidateIndex = sel_candidateIndex selection,
                  at_target = bk_Target (pc_backend call),
                  at_requestChoice = sel_requestChoice selection,
                  at_providerRound = pc_providerRound call,
                  at_nativePreviousResponse = nativePreviousResponseSent (pc_request call),
                  at_targetGeneration = pc_targetGeneration call,
                  at_factReads = pc_factReads call,
                  at_requestChanges = requestChanges,
                  at_status = providerCallAttemptCalling,
                  at_failure = None\<rparr>
            in Inr (s\<lparr>xs_providerCallAttempts := xs_providerCallAttempts s @ [attempt],
                  xs_phase := callingProviderPhase attemptID call\<rparr>,
                Some (callProviderCommand attemptID (pc_backend call) (pc_document call))))"

end
