(* ===== verification/Exchange_Reduce.thy ===== *)
theory Exchange_Reduce
  imports Exchange_State
begin

text \<open>
  The reducer of one exchange: \<^verbatim>\<open>exchange_state.go\<close>, \<^verbatim>\<open>mcp_preparation.go\<close>, \<^verbatim>\<open>mcp_tool_loop.go\<close>
  and the preparation of provider calls in \<^verbatim>\<open>provider_call.go\<close> under
  \<^verbatim>\<open>src/internal/exchange/\<close>.

  The record \<open>services\<close> holds what the reducer calls in other packages: the catalog, the
  continuity and canonical packages, the backend codecs, the MCP run and the decoding of
  ingress. A transition takes the services of its moment, so nothing is assumed about their
  answers being the same twice. The reducer's one effect on shared state, observing resolved
  target facts, is a state-passing argument \<open>targetExceptions\<close>. Logging is left out.
  \<open>sv_ConfigureCompatibility\<close> attaches the changes known at completion to the response;
  changes that a stream reports later reach its completion through the response itself.
\<close>

text \<open>A decoded provider response: handed off as a stream, or complete and held back.\<close>

datatype 'p completion = handedOff 'p | delayed 'p 'p

record 'p services =
  sv_catalog :: catalog
  sv_randomness :: randomness
  sv_hash :: "string \<Rightarrow> string"
  sv_b64 :: "string \<Rightarrow> string"
  sv_hasCheckpointStore :: bool
  sv_hasResponseIDs :: bool
  sv_Model :: "'p \<Rightarrow> string"
  sv_PreviousSwobuResponseID :: "'p \<Rightarrow> go_error + 'p option"
  sv_PrepareBegin :: "'p \<Rightarrow> go_error + 'p"
  sv_PrepareResume :: "'p \<Rightarrow> 'p \<Rightarrow> go_error + 'p"
  sv_ReuseCheckpoint :: "'p \<Rightarrow> 'p"
  sv_ReuseVisibleHistory :: "'p \<Rightarrow> 'p \<Rightarrow> 'p \<Rightarrow> 'p"
  sv_record_History :: "'p \<Rightarrow> 'p option"
  sv_record_ExecutionAffinity :: "'p \<Rightarrow> affinity_key"
  sv_record_Request :: "'p \<Rightarrow> 'p"
  sv_history_Scheme :: "'p \<Rightarrow> string"
  sv_fingerprint_Scheme :: "'p \<Rightarrow> string"
  sv_draft_Current :: "'p \<Rightarrow> 'p"
  sv_draft_Finalize :: "'p \<Rightarrow> 'p \<Rightarrow> string + 'p"
  sv_resolved_Request :: "'p \<Rightarrow> 'p"
  sv_PreviousHistory :: "'p \<Rightarrow> string \<Rightarrow> TargetVersion \<Rightarrow> 'p option"
  sv_ContinueAfterLocalResult :: "'p \<Rightarrow> 'p \<Rightarrow> 'p list \<Rightarrow> string + 'p"
  sv_unknownReusablePrefix :: 'p
  sv_reusablePrefixEvidence :: "'p \<Rightarrow> 'p \<Rightarrow> 'p"
  sv_ResolveBackend :: "TargetSnapshot \<Rightarrow> go_error + 'p Backend"
  sv_ClientCodec :: "'p option"
  sv_mcp_AttemptRequest :: "'p \<Rightarrow> 'p \<Rightarrow> go_error + 'p"
  sv_mcp_Calls :: "'p option \<Rightarrow> 'p \<Rightarrow> go_error + 'p list"
  sv_projectOpaqueReplay ::
    "'p \<Rightarrow> string \<Rightarrow> TargetVersion \<Rightarrow> go_error + 'p \<times> bool \<times> Change list"
  sv_BuildAttemptToolNames :: "'p \<Rightarrow> go_error + 'p \<times> Change list"
  sv_bindRequestToTarget :: "'p \<Rightarrow> string \<Rightarrow> 'p"
  sv_ExecutionContract :: "Delivery \<Rightarrow> Delivery \<Rightarrow> string + unit"
  sv_Encode :: "'p Backend \<Rightarrow> 'p ProviderRequest \<Rightarrow> TargetFactLookup \<Rightarrow> 'p \<Rightarrow>
    (go_error + 'p) \<times> Change list \<times> TargetFact list \<times> 'p"
  sv_delayClientHandoffFor :: "'p option \<Rightarrow> 'p \<Rightarrow> go_error + bool"
  sv_completeProviderCall ::
    "'p providerCall \<Rightarrow> 'p \<Rightarrow> string \<Rightarrow> (go_error + 'p completion) \<times> Change list \<times> Change list"
  sv_Usage :: "'p \<Rightarrow> 'p"
  sv_WithSumOfUsage :: "'p list \<Rightarrow> 'p \<Rightarrow> 'p"
  sv_handoffCompleted :: "'p providerCall \<Rightarrow> 'p \<Rightarrow> 'p \<Rightarrow> go_error + 'p"
  sv_ConfigureCompatibility :: "Change list \<Rightarrow> 'p \<Rightarrow> 'p"

section \<open>Choosing provider calls\<close>

text \<open>\<open>nextEligibleRouteCandidate\<close>: the first candidate from \<open>start\<close> that is not suppressed.\<close>

function nextEligible :: "routePlan \<Rightarrow> targetBackoffSnapshot \<Rightarrow> int \<Rightarrow> providerCallSelection option" where
  "nextEligible route backoff index =
     (case route_at route index of
        None \<Rightarrow> None
      | Some target \<Rightarrow>
          if snapshot_active backoff target then nextEligible route backoff (index + 1)
          else Some \<lparr>sel_candidateIndex = index, sel_requestChoice = providerRequestPreferred\<rparr>)"
  by pat_completeness auto
termination
  by (relation "measure (\<lambda>(route, backoff, index). nat (int (length (rp_targets route)) - index))")
    (auto simp: route_at_def split: if_splits)

declare nextEligible.simps [simp del]

definition nextEligibleRouteCandidate ::
    "'p exchangeState \<Rightarrow> int \<Rightarrow> providerCallSelection option" where
  "nextEligibleRouteCandidate s start = nextEligible (xs_route s) (xs_targetBackoff s) start"

definition nextRouteCandidate ::
    "'p exchangeState \<Rightarrow> providerCallSelection \<Rightarrow> providerCallSelection option" where
  "nextRouteCandidate s selection = nextEligibleRouteCandidate s (sel_candidateIndex selection + 1)"

definition candidateRoundDispatchCount :: "providerCallAttempt list \<Rightarrow> int \<Rightarrow> int \<Rightarrow> nat" where
  "candidateRoundDispatchCount attempts candidateIndex providerRound =
     length (filter (\<lambda>a. at_candidateIndex a = candidateIndex \<and> at_providerRound a = providerRound)
       attempts)"

definition nativeReferenceFailureAdmitsFullHistory :: "providerCallAttempt \<Rightarrow> bool" where
  "nativeReferenceFailureAdmitsFullHistory a =
     (case at_failure a of
        None \<Rightarrow> False
      | Some (execution, cause) \<Rightarrow>
          execution = ExecutionRejectedBeforeExecution \<and> at_nativePreviousResponse a \<and>
          has_err is_rejected cause \<and>
          IsBackendErrorClass cause BackendErrorClassContinuationReferenceInvalid)"

definition selectSameTargetAlternative ::
    "providerCallAttempt list \<Rightarrow> providerCallSelection option" where
  "selectSameTargetAlternative attempts =
     (if attempts = [] then None
      else let last' = last attempts
        in if candidateRoundDispatchCount attempts (at_candidateIndex last')
              (at_providerRound last') \<ge> 2 then None
           else if nativeReferenceFailureAdmitsFullHistory last'
           then Some \<lparr>sel_candidateIndex = at_candidateIndex last',
             sel_requestChoice = providerRequestFullHistory\<rparr>
           else None)"

definition providerRecoveryPermitted :: "providerCallAttempt \<Rightarrow> bool" where
  "providerRecoveryPermitted a =
     (case at_failure a of
        None \<Rightarrow> False
      | Some (execution, _) \<Rightarrow> \<not> at_providerRound a > 0 \<and> execution \<noteq> ExecutionInvalid)"

definition providerFailureAdvancesCandidate :: "go_error \<Rightarrow> bool" where
  "providerFailureAdvancesCandidate e \<longleftrightarrow> has_err is_unavailable e \<or> has_err is_rejected e"

definition candidatePreparationCanAdvance :: "go_error \<Rightarrow> bool" where
  "candidatePreparationCanAdvance e \<longleftrightarrow> has_err is_unavailable e"

text \<open>A terminal attempt without a failure has been handed off and was excluded before.\<close>

definition selectNextProviderCall :: "'p exchangeState \<Rightarrow> providerCallSelection option" where
  "selectNextProviderCall s =
     (let attempts = xs_providerCallAttempts s
      in if attempts = [] then nextEligibleRouteCandidate s 0
         else let last' = last attempts
         in if \<not> attempt_terminal last' \<or> at_status last' = providerCallAttemptHandoffReady
            then None
            else case selectSameTargetAlternative attempts of
              Some alternative \<Rightarrow> Some alternative
            | None \<Rightarrow>
                if \<not> providerRecoveryPermitted last' then None
                else (case at_failure last' of
                  None \<Rightarrow> None
                | Some (_, cause) \<Rightarrow>
                    if providerFailureAdvancesCandidate cause
                    then nextEligibleRouteCandidate s (at_candidateIndex last' + 1)
                    else None))"

definition noAvailableTarget :: go_error where
  "noAvailableTarget = canonical_Error ErrorCodeNoAvailableTarget
     ''no currently available configured target can serve the request''"

text \<open>The problem a client sees for the cause of the last attempt.\<close>

definition terminalProblem :: "go_error \<Rightarrow> go_error" where
  "terminalProblem problem =
     (if has_err is_timeout problem
      then canonical_Error ErrorCodeProviderTimeout
        ''provider did not respond before the configured deadline''
      else if has_err is_unavailable problem \<and> errors_As sel_backend problem = None
      then canonical_Error ErrorCodeProviderUnavailable ''provider transport was unavailable''
      else problem)"

text \<open>The last attempt's failure is dereferenced; \<open>None\<close> there would be a nil dereference.\<close>

definition terminateProviderExecution :: "'p exchangeState \<Rightarrow> go_error + 'p reducerOutcome" where
  "terminateProviderExecution s =
     (let attempts = xs_providerCallAttempts s
      in if attempts = [] then
           if rp_targets (xs_route s) \<noteq> []
           then Inr (fail_exchange (s\<lparr>xs_evaluatedCandidateCount :=
               int (length (rp_targets (xs_route s)))\<rparr>) noAvailableTarget zeroSnapshot)
           else Inr (fail_exchange s (BadEndpoint ''no viable provider candidate'') zeroSnapshot)
         else case at_failure (last attempts) of
           None \<Rightarrow> Inl (Panicked ''nil failure'')
         | Some (_, cause) \<Rightarrow>
             Inr (fail_exchange s (terminalProblem cause) (at_target (last attempts))))"

section \<open>Preparing a provider call\<close>

definition providerHistoryHandleEligible :: "providerRequestChoice \<Rightarrow> bool \<Rightarrow> bool" where
  "providerHistoryHandleEligible choice replayChanged \<longleftrightarrow>
     choice \<noteq> providerRequestFullHistory \<and> \<not> replayChanged"

definition hasNextRouteCandidate :: "'p exchangeState \<Rightarrow> providerCallSelection \<Rightarrow> bool" where
  "hasNextRouteCandidate s selection \<longleftrightarrow>
     nextEligibleRouteCandidate s (sel_candidateIndex selection + 1) \<noteq> None"

definition validateCheckpointRuntime :: "'p services \<Rightarrow> go_error + unit" where
  "validateCheckpointRuntime sv =
     (if \<not> sv_hasCheckpointStore sv
      then Inl (Wrapped (Text ''exchange checkpoint store is required'') [])
      else if \<not> sv_hasResponseIDs sv
      then Inl (Wrapped (Text ''exchange response id generator is required'') [])
      else Inr ())"

definition validateCheckpointInput :: "'p services \<Rightarrow> string \<Rightarrow> go_error + unit" where
  "validateCheckpointInput sv workspaceSlug =
     and_then (validateCheckpointRuntime sv) (\<lambda>_.
       if TrimSpace workspaceSlug = []
       then Inl (Wrapped (Text ''exchange checkpoint workspace slug is required'') [])
       else Inr ())"

text \<open>Everything of \<open>prepareProviderCall\<close> up to the target: its errors report no target.\<close>

definition preparePath ::
    "'p services \<Rightarrow> 'p exchangeState \<Rightarrow> providerCallSelection \<Rightarrow> go_error + providerPath" where
  "preparePath sv s selection =
     (case route_at (xs_route s) (sel_candidateIndex selection) of
        None \<Rightarrow> Inl (invariant_error ''provider candidate index is outside route plan'')
      | Some target \<Rightarrow> resolveProviderPath (sv_catalog sv) target)"

text \<open>The steps between the target and the encoding: they leave the fetch cache as it was.\<close>

definition prepareRequest ::
    "'p services \<Rightarrow> 'p exchangeState \<Rightarrow> providerCallSelection \<Rightarrow> providerPath \<Rightarrow>
     go_error + 'p Backend \<times> 'p \<times> 'p \<times> 'p ProviderRequest \<times> Change list" where
  "prepareRequest sv s selection path =
     (let target = path_target path; slug = ws_slug (in_workspace (xs_input s))
      in and_then (sv_ResolveBackend sv target) (\<lambda>backend.
         if \<not> backend_Validate backend
         then Inl (canonical_Internal ''required provider backend is incomplete'')
         else if bk_Target backend \<noteq> target
         then Inl (canonical_Internal
           ''resolved provider backend changed target execution projection'')
         else case sv_ClientCodec sv of
           None \<Rightarrow> Inl (canonical_Internal ''required client codec not resolved'')
         | Some clientCodec \<Rightarrow>
         (case xs_prepared s of
           None \<Rightarrow> Inl (Panicked ''nil resolved request'')
         | Some resolved \<Rightarrow>
         and_then (case xs_mcp s of
             None \<Rightarrow> Inr (sv_resolved_Request sv resolved)
           | Some run \<Rightarrow> sv_mcp_AttemptRequest sv run (sv_resolved_Request sv resolved))
           (\<lambda>attemptRequest0.
         and_then (sv_projectOpaqueReplay sv attemptRequest0 (ts_TargetID target)
             (ts_TargetVersion target))
           (\<lambda>(attemptRequest, replayChanged, replayChanges).
         and_then (sv_BuildAttemptToolNames sv attemptRequest) (\<lambda>(toolNames, namingChanges).
         and_then (validateCheckpointInput sv slug) (\<lambda>_.
         case sv_ExecutionContract sv (in_clientDelivery (xs_input s)) (path_delivery path) of
           Inl e \<Rightarrow> Inl (BadRequest (''execution contract is invalid: '' @ e))
         | Inr _ \<Rightarrow>
             Inr (backend, clientCodec, attemptRequest,
               \<lparr>rq_ExchangeID = in_exchangeID (xs_input s),
                rq_CacheLocality = xs_cacheLocality s,
                rq_ExecutionAffinity = xs_executionAffinity s,
                rq_HasNextRouteCandidate = hasNextRouteCandidate s selection,
                rq_Canonical = sv_bindRequestToTarget sv attemptRequest (ts_Model target),
                rq_PreviousHistory =
                  (if providerHistoryHandleEligible (sel_requestChoice selection) replayChanged
                   then sv_PreviousHistory sv resolved (ts_TargetID target)
                     (ts_TargetVersion target)
                   else None),
                rq_Delivery = path_delivery path,
                rq_ToolNames = toolNames\<rparr>,
               replayChanges @ namingChanges))))))))"

type_synonym 'p prepared_call =
  "(go_error + 'p providerCall) \<times> TargetSnapshot \<times> Change list \<times> 'p"

definition prepareProviderCall ::
    "'p services \<Rightarrow> targetExceptions \<Rightarrow> 'p exchangeState \<Rightarrow> providerCallSelection \<Rightarrow>
     'p prepared_call" where
  "prepareProviderCall sv ex s selection =
     (case preparePath sv s selection of
        Inl e \<Rightarrow> (Inl e, zeroSnapshot, [], xs_mediaFetchCache s)
      | Inr path \<Rightarrow>
          (case prepareRequest sv s selection path of
             Inl e \<Rightarrow> (Inl e, path_target path, [], xs_mediaFetchCache s)
           | Inr (backend, clientCodec, attemptRequest, request, requestChanges) \<Rightarrow>
               let target = path_target path; slug = ws_slug (in_workspace (xs_input s));
                   generation = \<lparr>gen_workspace = slug, gen_targetID = ts_TargetID target,
                     gen_targetVersion = ts_TargetVersion target\<rparr>;
                   lookup = exceptions_lookup ex generation;
                   (result, changes, factsRead, fetchCache) =
                     sv_Encode sv backend request lookup (xs_mediaFetchCache s);
                   factReads = snd (read_facts (map (\<lambda>f. (Some lookup, f)) factsRead) []);
                   requestChanges = requestChanges @ changes
               in (case result of
                     Inl e \<Rightarrow> (Inl (Wrapped (Text ''provider request encoding'') [e]), target,
                       requestChanges, fetchCache)
                   | Inr document \<Rightarrow>
                       (case sv_delayClientHandoffFor sv (xs_mcp s) (rq_Canonical request) of
                          Inl e \<Rightarrow> (Inl e, target, requestChanges, fetchCache)
                        | Inr delay \<Rightarrow>
                            (Inr \<lparr>pc_backend = backend, pc_request = request,
                               pc_document = document, pc_clientCodec = clientCodec,
                               pc_clientDelivery = in_clientDelivery (xs_input s),
                               pc_exchangeID = in_exchangeID (xs_input s),
                               pc_workspaceSlug = slug,
                               pc_fullRequest = sv_resolved_Request sv (the (xs_prepared s)),
                               pc_decodeContext =
                                 sv_bindRequestToTarget sv attemptRequest (ts_Model target),
                               pc_advance = xs_advance s, pc_storageReuse = xs_storageReuse s,
                               pc_executionAffinity = xs_executionAffinity s,
                               pc_delayClientHandoff = delay,
                               pc_providerRound = int (length (xs_providerUsage s)),
                               pc_targetGeneration = generation,
                               pc_factReads = factReads\<rparr>,
                             target, requestChanges, fetchCache)))))"

section \<open>Advancing provider execution\<close>

text \<open>
  The loop of \<open>advanceProviderExecutionFrom\<close>: a candidate whose preparation is unavailable
  gives way to the next eligible one. A panic of the preparation (a target without a
  connection, or with a connection that its snapshot constructor refuses) leaves the loop and
  the reducer. The candidate index grows with every turn, and the
  route is fixed, so the loop ends; \<open>fuel\<close> counts the candidates left, and one more than the
  length of the route is always enough (\<open>advanceFrom_fuel\<close>).
\<close>

definition evaluate_candidate :: "providerCallSelection \<Rightarrow> 'p exchangeState \<Rightarrow> 'p exchangeState" where
  "evaluate_candidate selection s =
     (if sel_candidateIndex selection + 1 > xs_evaluatedCandidateCount s
      then s\<lparr>xs_evaluatedCandidateCount := sel_candidateIndex selection + 1\<rparr> else s)"

fun advanceFrom ::
    "nat \<Rightarrow> 'p services \<Rightarrow> targetExceptions \<Rightarrow> 'p exchangeState \<Rightarrow> providerCallSelection \<Rightarrow>
     (go_error + 'p reducerOutcome) option" where
  "advanceFrom 0 sv ex s selection = None"
| "advanceFrom (Suc fuel) sv ex s selection =
     (let s = evaluate_candidate selection s;
          (result, target, requestChanges, fetchCache) = prepareProviderCall sv ex s selection;
          s = s\<lparr>xs_mediaFetchCache := fetchCache\<rparr>
      in case result of
           Inr call \<Rightarrow> Some (beginProviderCallAttempt s selection call requestChanges)
         | Inl e \<Rightarrow>
             if is_panic e then Some (Inl e)
             else (case (if candidatePreparationCanAdvance e then nextRouteCandidate s selection
                    else None) of
                Some next' \<Rightarrow> advanceFrom fuel sv ex s next'
              | None \<Rightarrow> Some (Inr (fail_exchange s e target))))"

definition advanceProviderExecutionFrom ::
    "'p services \<Rightarrow> targetExceptions \<Rightarrow> 'p exchangeState \<Rightarrow> providerCallSelection \<Rightarrow>
     go_error + 'p reducerOutcome" where
  "advanceProviderExecutionFrom sv ex s selection =
     the (advanceFrom (length (rp_targets (xs_route s)) + 2) sv ex s selection)"

definition advanceProviderExecution ::
    "'p services \<Rightarrow> targetExceptions \<Rightarrow> 'p exchangeState \<Rightarrow> go_error + 'p reducerOutcome" where
  "advanceProviderExecution sv ex s =
     (if xs_prepared s = None
      then Inl (invariant_error ''provider preparation requires resolved continuity request'')
      else case selectNextProviderCall s of
        None \<Rightarrow> terminateProviderExecution s
      | Some selection \<Rightarrow> advanceProviderExecutionFrom sv ex s selection)"

section \<open>Starting and preparation\<close>

definition beginMCPPreparation :: "'p services \<Rightarrow> 'p exchangeState \<Rightarrow> go_error + 'p reducerOutcome" where
  "beginMCPPreparation sv s =
     (case xs_draft s of
        None \<Rightarrow> Inl (invariant_error ''MCP preparation requires a continuity draft'')
      | Some draft \<Rightarrow>
          Inr (s\<lparr>xs_phase := preparingMCPPhase\<rparr>,
            Some (prepareMCPCommand (sv_draft_Current sv draft) (in_mcpAccess (xs_input s)))))"

text \<open>The message of the only error \<open>ResolveRoute\<close> returns, and those of a locality.\<close>

definition applyRoutePlan :: "'p services \<Rightarrow> 'p exchangeState \<Rightarrow> message + 'p exchangeState" where
  "applyRoutePlan sv s =
     (case ResolveRoute (in_workspace (xs_input s)) (sv_Model sv (in_request (xs_input s))) of
        Inl _ \<Rightarrow> Inl (Text ''requested route is empty'')
      | Inr route \<Rightarrow>
          and_then (if \<not> locality_IsZero (in_explicitCacheLocality (xs_input s))
              then Inr (in_explicitCacheLocality (xs_input s))
              else FromExecutionAffinity (sv_hash sv) (sv_b64 sv) (xs_executionAffinity s))
            (\<lambda>locality. Inr (s\<lparr>xs_cacheLocality := locality,
               xs_route := \<lparr>rp_name = route_name route,
                 rp_targets = BuildPlan (sv_randomness sv) locality route\<rparr>\<rparr>)))"

definition planAndPrepare :: "'p services \<Rightarrow> 'p exchangeState \<Rightarrow> go_error + 'p reducerOutcome" where
  "planAndPrepare sv s =
     (case applyRoutePlan sv s of
        Inl e \<Rightarrow> Inr (fail_exchange s (CanonicalError ErrorCodeBadRequest e None) zeroSnapshot)
      | Inr s \<Rightarrow> beginMCPPreparation sv s)"

definition beginNewExchange :: "'p services \<Rightarrow> 'p exchangeState \<Rightarrow> go_error + 'p reducerOutcome" where
  "beginNewExchange sv s =
     (case sv_PrepareBegin sv (in_request (xs_input s)) of
        Inl e \<Rightarrow> Inr (fail_exchange s e zeroSnapshot)
      | Inr draft \<Rightarrow>
          planAndPrepare sv (s\<lparr>xs_draft := Some draft,
            xs_advance := (case xs_advance s of
              None \<Rightarrow> Some (None, in_requestFingerprint (xs_input s)) | Some a \<Rightarrow> Some a)\<rparr>))"

definition genesisAffinity :: "'p services \<Rightarrow> 'p exchangeState \<Rightarrow> go_error + affinity_key" where
  "genesisAffinity sv s =
     (case Derive (sv_hash sv) ''swobu/genesis-response/v1''
         [ws_slug (in_workspace (xs_input s)), xs_swobuResponseID s] of
        Inl m \<Rightarrow> Inl (Wrapped m []) | Inr k \<Rightarrow> Inr k)"

definition reduceStarting ::
    "'p services \<Rightarrow> 'p exchangeState \<Rightarrow> 'p exchangeEvent \<Rightarrow> go_error + 'p reducerOutcome" where
  "reduceStarting sv s event =
     (case event of
        exchangeStarted \<Rightarrow>
          (let slug = ws_slug (in_workspace (xs_input s))
           in case sv_PreviousSwobuResponseID sv (in_request (xs_input s)) of
                Inl e \<Rightarrow> Inr (fail_exchange s e zeroSnapshot)
              | Inr (Some reference) \<Rightarrow>
                  Inr (s\<lparr>xs_phase := loadingCheckpointPhase True reference\<rparr>,
                    Some (loadCheckpointCommand slug True reference))
              | Inr None \<Rightarrow>
                  (case in_rebasedRequest (xs_input s) of
                     Some (_, previous) \<Rightarrow>
                       Inr (s\<lparr>xs_phase := loadingCheckpointPhase False previous\<rparr>,
                         Some (loadCheckpointCommand slug False previous))
                   | None \<Rightarrow>
                       if \<not> affinity_IsZero (in_explicitExecutionAffinity (xs_input s))
                       then beginNewExchange sv (s\<lparr>xs_executionAffinity :=
                         in_explicitExecutionAffinity (xs_input s)\<rparr>)
                       else and_then (genesisAffinity sv s) (\<lambda>derived.
                         beginNewExchange sv (s\<lparr>xs_executionAffinity := derived\<rparr>))))
      | _ \<Rightarrow> Inl (invariant_error ''starting phase received another event''))"

text \<open>The draft of a loaded checkpoint, with the state its three cases leave behind.\<close>

definition prepareLoaded ::
    "'p services \<Rightarrow> 'p exchangeState \<Rightarrow> bool \<Rightarrow> 'p \<Rightarrow> 'p \<Rightarrow> bool \<Rightarrow>
     go_error + 'p exchangeState \<times> (go_error + 'p)" where
  "prepareLoaded sv s explicit key record' found =
     (let input = xs_input s; fingerprint = in_requestFingerprint input
      in if explicit then
           Inr (s\<lparr>xs_storageReuse := sv_ReuseCheckpoint sv record',
             xs_advance := (case sv_record_History sv record' of
               Some history \<Rightarrow>
                 if sv_history_Scheme sv history = sv_fingerprint_Scheme sv fingerprint
                 then Some (Some history, fingerprint) else xs_advance s
             | None \<Rightarrow> xs_advance s)\<rparr>,
             sv_PrepareResume sv (in_request input) record')
         else case in_rebasedRequest input of
           None \<Rightarrow> Inl (Panicked ''nil rebased request'')
         | Some (rebased, _) \<Rightarrow>
             if found then
               Inr (s\<lparr>xs_storageReuse := sv_ReuseCheckpoint sv record',
                 xs_advance := Some (Some key, fingerprint)\<rparr>,
                 sv_PrepareResume sv rebased record')
             else and_then
               (if affinity_IsZero (in_explicitExecutionAffinity input) then genesisAffinity sv s
                else Inr (in_explicitExecutionAffinity input))
               (\<lambda>affinity. Inr (s\<lparr>xs_executionAffinity := affinity,
                 xs_storageReuse := sv_ReuseVisibleHistory sv key (in_request input) rebased,
                 xs_advance := Some (Some key, fingerprint)\<rparr>,
                 sv_PrepareBegin sv (in_request input))))"

text \<open>The affinity of a resumed exchange; a failed derivation leaves the zero key.\<close>

definition resumedAffinity :: "'p services \<Rightarrow> 'p exchangeState \<Rightarrow> 'p \<Rightarrow> affinity_key" where
  "resumedAffinity sv s record' =
     (if \<not> affinity_IsZero (in_explicitExecutionAffinity (xs_input s))
      then in_explicitExecutionAffinity (xs_input s)
      else if \<not> affinity_IsZero (sv_record_ExecutionAffinity sv record')
      then sv_record_ExecutionAffinity sv record'
      else case genesisAffinity sv s of Inl _ \<Rightarrow> zeroKey | Inr k \<Rightarrow> k)"

definition reduceLoadingCheckpoint ::
    "'p services \<Rightarrow> 'p exchangeState \<Rightarrow> bool \<Rightarrow> 'p \<Rightarrow> 'p exchangeEvent \<Rightarrow>
     go_error + 'p reducerOutcome" where
  "reduceLoadingCheckpoint sv s explicit key event =
     (case event of
        checkpointLoaded record' found err \<Rightarrow>
          (case err of
             Some e \<Rightarrow> Inr (fail_exchange s e zeroSnapshot)
           | None \<Rightarrow>
               if explicit \<and> \<not> found
               then Inr (fail_exchange s (BadRequest ''unknown previous_response_id'') zeroSnapshot)
               else and_then (prepareLoaded sv s explicit key record' found) (\<lambda>(s, draft).
                 case draft of
                   Inl e \<Rightarrow> Inr (fail_exchange s e zeroSnapshot)
                 | Inr draft \<Rightarrow>
                     let s = s\<lparr>xs_draft := Some draft\<rparr>;
                         s = (if found \<or> explicit
                           then s\<lparr>xs_executionAffinity := resumedAffinity sv s record',
                             xs_previousRequest := Some (sv_record_Request sv record')\<rparr>
                           else s)
                     in planAndPrepare sv s))
      | _ \<Rightarrow> Inl (invariant_error ''loading checkpoint received another event''))"

definition reducePreparingMCP ::
    "'p services \<Rightarrow> targetExceptions \<Rightarrow> 'p exchangeState \<Rightarrow> 'p exchangeEvent \<Rightarrow>
     go_error + 'p reducerOutcome" where
  "reducePreparingMCP sv ex s event =
     (case event of
        mcpPrepared full run changes err \<Rightarrow>
          (case err of
             Some e \<Rightarrow> Inr (fail_exchange s e zeroSnapshot)
           | None \<Rightarrow>
               (case xs_draft s of
                  None \<Rightarrow> Inl (Panicked ''nil draft'')
                | Some draft \<Rightarrow>
                    (case sv_draft_Finalize sv draft full of
                       Inl e \<Rightarrow> Inr (fail_exchange s (canonical_Internal
                         (''MCP preparation changed resolved request layout: '' @ e)) zeroSnapshot)
                     | Inr next' \<Rightarrow>
                         advanceProviderExecution sv ex (s\<lparr>xs_draft := None,
                           xs_prepared := Some next',
                           xs_reusablePrefix := (case xs_previousRequest s of
                             None \<Rightarrow> sv_unknownReusablePrefix sv
                           | Some previous \<Rightarrow> sv_reusablePrefixEvidence sv previous
                               (sv_resolved_Request sv next')),
                           xs_mcp := run,
                           xs_effectiveChanges := xs_effectiveChanges s @ changes\<rparr>))))
      | _ \<Rightarrow> Inl (invariant_error ''preparing MCP received another event''))"

section \<open>Calling\<close>

definition beginMCPBatch ::
    "'p exchangeState \<Rightarrow> 'p callingMCP \<Rightarrow> go_error + 'p reducerOutcome" where
  "beginMCPBatch s phase' =
     (if mp_calls phase' = [] then Inl (canonical_Internal ''MCP call batch is empty'')
      else if xs_mcp s = None
      then Inl (canonical_Internal ''MCP call batch requires a request-scoped runtime'')
      else Inr (s\<lparr>xs_phase := callingMCPPhase phase'\<rparr>,
        Some (beginMCPBatchCommand (xs_mcp s) (mp_calls phase'))))"

definition beginMCPCall ::
    "'p exchangeState \<Rightarrow> 'p callingMCP \<Rightarrow> go_error + 'p reducerOutcome" where
  "beginMCPCall s phase' =
     (if mp_next phase' < 0 \<or> mp_next phase' \<ge> int (length (mp_calls phase'))
      then Inl (invariant_error ''MCP call index is outside the fixed batch'')
      else if xs_mcp s = None
      then Inl (canonical_Internal ''MCP call requires a request-scoped runtime'')
      else Inr (s\<lparr>xs_phase := callingMCPPhase phase'\<rparr>,
        Some (callMCPCommand (xs_mcp s) (mp_calls phase' ! nat (mp_next phase')))))"

definition targetFactCharacterizationAdmitted ::
    "providerCallAttempt \<Rightarrow> AttemptFailure \<Rightarrow> bool" where
  "targetFactCharacterizationAdmitted attempt failure \<longleftrightarrow>
     providerRecoveryPermitted (attempt\<lparr>at_failure := Some failure\<rparr>) \<and>
     at_factReads attempt \<noteq> [] \<and> has_err is_rejected (snd failure)"

definition sortedTargetFacts :: "FactReads \<Rightarrow> TargetFact list" where
  "sortedTargetFacts reads = sort_key fact_index (map fst reads)"

definition reduceCallFailed ::
    "'p services \<Rightarrow> targetExceptions \<Rightarrow> 'p exchangeState \<Rightarrow> int \<Rightarrow> 'p providerCall \<Rightarrow>
     providerCallAttempt \<Rightarrow> go_error \<Rightarrow> go_error + 'p reducerOutcome" where
  "reduceCallFailed sv ex s attemptID call attempt failure =
     and_then (failProviderCallAttempt s attemptID failure) (\<lambda>s.
       case AsAttemptFailure failure of
         None \<Rightarrow> Inl (Panicked ''unreachable'')
       | Some fact' \<Rightarrow>
           if targetFactCharacterizationAdmitted attempt fact'
           then Inr (s\<lparr>xs_phase := resolvingTargetFactsPhase attemptID (pc_backend call)\<rparr>,
             Some (characterizeTargetFactsCommand attemptID (bk_Target (pc_backend call))
               (at_targetGeneration attempt) (sortedTargetFacts (at_factReads attempt))
               (pc_backend call)))
           else advanceProviderExecution sv ex s)"

definition reduceIngress ::
    "'p services \<Rightarrow> targetExceptions \<Rightarrow> 'p exchangeState \<Rightarrow> int \<Rightarrow> 'p providerCall \<Rightarrow>
     providerCallAttempt \<Rightarrow> 'p \<Rightarrow> go_error + 'p reducerOutcome" where
  "reduceIngress sv ex s attemptID call attempt ingress =
     (case sv_completeProviderCall sv call ingress (xs_swobuResponseID s) of
        (Inl e, _, _) \<Rightarrow>
          and_then (failProviderCallAttempt s attemptID (attempt_error (AttemptMayHaveExecuted e)))
            (\<lambda>s. advanceProviderExecution sv ex s)
      | (Inr (handedOff response), initial, _) \<Rightarrow>
          and_then (completeProviderCallAttempt s attemptID) (\<lambda>s.
            Inr (s\<lparr>xs_phase := completedPhase (sv_ConfigureCompatibility sv
                (xs_effectiveChanges s @ at_requestChanges attempt @ initial) response)
              (at_target attempt)\<rparr>, None))
      | (Inr (delayed client continuation), initial, progressive) \<Rightarrow>
          and_then (completeProviderCallAttempt s attemptID) (\<lambda>s.
            let s = s\<lparr>xs_effectiveChanges := xs_effectiveChanges s @
                  at_requestChanges attempt @ initial @ progressive\<rparr>;
                rounds = xs_providerUsage s @ [sv_Usage sv client]
            in case sv_mcp_Calls sv (xs_mcp s) client of
                 Inl e \<Rightarrow> Inr (fail_exchange s e (at_target attempt))
               | Inr calls \<Rightarrow>
                   if calls \<noteq> [] then
                     beginMCPBatch (s\<lparr>xs_providerUsage := rounds\<rparr>)
                       \<lparr>mp_selection = \<lparr>sel_candidateIndex = at_candidateIndex attempt,
                          sel_requestChoice = providerRequestPreferred\<rparr>,
                        mp_target = at_target attempt, mp_client = client,
                        mp_continuation = continuation, mp_calls = calls, mp_results = [],
                        mp_next = 0\<rparr>
                   else
                     (case sv_handoffCompleted sv call (sv_WithSumOfUsage sv rounds client)
                         (sv_WithSumOfUsage sv rounds continuation) of
                        Inl e \<Rightarrow> Inr (fail_exchange s e (at_target attempt))
                      | Inr response \<Rightarrow>
                          Inr (s\<lparr>xs_phase := completedPhase
                            (sv_ConfigureCompatibility sv (xs_effectiveChanges s) response)
                            (at_target attempt)\<rparr>, None))))"

definition reduceCallingProvider ::
    "'p services \<Rightarrow> targetExceptions \<Rightarrow> 'p exchangeState \<Rightarrow> int \<Rightarrow> 'p providerCall \<Rightarrow>
     'p exchangeEvent \<Rightarrow> go_error + 'p reducerOutcome" where
  "reduceCallingProvider sv ex s attemptID call event =
     (case findProviderCallAttempt s attemptID of
        None \<Rightarrow> Inl (invariant_error ''active provider call attempt is unknown'')
      | Some attempt \<Rightarrow>
          (case event of
             providerCallFailed tid failure \<Rightarrow>
               if tid \<noteq> attemptID
               then Inl (invariant_error ''another provider call attempt returned'')
               else reduceCallFailed sv ex s attemptID call attempt failure
           | providerIngressReceived tid ingress \<Rightarrow>
               if tid \<noteq> attemptID
               then Inl (invariant_error ''another provider call attempt returned'')
               else reduceIngress sv ex s attemptID call attempt ingress
           | _ \<Rightarrow> Inl (invariant_error ''calling provider received another event'')))"

definition observe_resolutions ::
    "targetExceptionGeneration \<Rightarrow> FactReads \<Rightarrow> targetExceptions \<Rightarrow> targetExceptions" where
  "observe_resolutions generation resolutions =
     fold (\<lambda>(f, value). exceptions_observe generation f value) resolutions"

definition resolutions_change :: "FactReads \<Rightarrow> FactReads \<Rightarrow> bool" where
  "resolutions_change reads resolutions \<longleftrightarrow>
     list_ex (\<lambda>(f, value). case map_of reads f of None \<Rightarrow> False | Some used \<Rightarrow> used \<noteq> value)
       resolutions"

definition reduceResolvingTargetFacts ::
    "'p services \<Rightarrow> targetExceptions \<Rightarrow> 'p exchangeState \<Rightarrow> int \<Rightarrow> 'p exchangeEvent \<Rightarrow>
     go_error + 'p reducerOutcome \<times> targetExceptions" where
  "reduceResolvingTargetFacts sv ex s attemptID event =
     (case event of
        targetFactsCharacterized tid generation resolutions \<Rightarrow>
          if tid \<noteq> attemptID
          then Inl (invariant_error ''resolving target facts received another attempt'')
          else (case findProviderCallAttempt s attemptID of
            None \<Rightarrow> Inl (invariant_error ''target fact resolution attempt is not failed'')
          | Some attempt \<Rightarrow>
              if at_failure attempt = None
              then Inl (invariant_error ''target fact resolution attempt is not failed'')
              else if generation \<noteq> at_targetGeneration attempt
              then Inl (invariant_error ''characterized target generation changed'')
              else
                let ex = observe_resolutions generation resolutions ex;
                    changed = resolutions_change (at_factReads attempt) resolutions
                in and_then
                  (if changed \<and> candidateRoundDispatchCount (xs_providerCallAttempts s)
                      (at_candidateIndex attempt) (at_providerRound attempt) < 2
                   then advanceProviderExecutionFrom sv ex s
                     \<lparr>sel_candidateIndex = at_candidateIndex attempt,
                      sel_requestChoice = providerRequestReprojected\<rparr>
                   else advanceProviderExecution sv ex s)
                  (\<lambda>outcome. Inr (outcome, ex)))
      | _ \<Rightarrow> Inl (invariant_error ''resolving target facts received another event''))"

definition reduceCallingMCP ::
    "'p services \<Rightarrow> targetExceptions \<Rightarrow> 'p exchangeState \<Rightarrow> 'p callingMCP \<Rightarrow> 'p exchangeEvent \<Rightarrow>
     go_error + 'p reducerOutcome" where
  "reduceCallingMCP sv ex s phase' event =
     (case event of
        mcpBatchStarted err \<Rightarrow>
          (case err of
             Some e \<Rightarrow> Inr (fail_exchange s e (mp_target phase'))
           | None \<Rightarrow> beginMCPCall s phase')
      | mcpToolReturned result err \<Rightarrow>
          (case err of
             Some e \<Rightarrow> Inr (fail_exchange s e (mp_target phase'))
           | None \<Rightarrow>
               let phase' = phase'\<lparr>mp_results := mp_results phase' @ [result],
                     mp_next := mp_next phase' + 1\<rparr>
               in if mp_next phase' < int (length (mp_calls phase')) then beginMCPCall s phase'
                  else case xs_prepared s of
                    None \<Rightarrow> Inl (Panicked ''nil resolved request'')
                  | Some prepared \<Rightarrow>
                      (case sv_ContinueAfterLocalResult sv prepared (mp_continuation phase')
                          (mp_results phase') of
                         Inl e \<Rightarrow> Inr (fail_exchange s (canonical_Internal
                           (''MCP tool loop produced invalid complete history: '' @ e))
                           (mp_target phase'))
                       | Inr next' \<Rightarrow>
                           let s = s\<lparr>xs_prepared := Some next'\<rparr>;
                               (result, target, requestChanges, fetchCache) =
                                 prepareProviderCall sv ex s (mp_selection phase');
                               s = s\<lparr>xs_mediaFetchCache := fetchCache\<rparr>
                           in (case result of
                                 Inl e \<Rightarrow> if is_panic e then Inl e
                                   else Inr (fail_exchange s e target)
                               | Inr call \<Rightarrow> beginProviderCallAttempt s (mp_selection phase')
                                   call requestChanges)))
      | _ \<Rightarrow> Inl (invariant_error ''calling MCP received another event''))"

section \<open>The reducer\<close>

definition keep_exceptions ::
    "targetExceptions \<Rightarrow> go_error + 'p reducerOutcome \<Rightarrow>
     go_error + 'p reducerOutcome \<times> targetExceptions" where
  "keep_exceptions ex r = map_sum (\<lambda>e. e) (\<lambda>outcome. (outcome, ex)) r"

definition reduce ::
    "'p services \<Rightarrow> targetExceptions \<Rightarrow> 'p exchangeState \<Rightarrow> 'p exchangeEvent \<Rightarrow>
     go_error + 'p reducerOutcome \<times> targetExceptions" where
  "reduce sv ex s event =
     (case xs_phase s of
        startingPhase \<Rightarrow> keep_exceptions ex (reduceStarting sv s event)
      | loadingCheckpointPhase explicit key \<Rightarrow>
          keep_exceptions ex (reduceLoadingCheckpoint sv s explicit key event)
      | preparingMCPPhase \<Rightarrow> keep_exceptions ex (reducePreparingMCP sv ex s event)
      | callingProviderPhase attemptID call \<Rightarrow>
          keep_exceptions ex (reduceCallingProvider sv ex s attemptID call event)
      | resolvingTargetFactsPhase attemptID _ \<Rightarrow>
          reduceResolvingTargetFacts sv ex s attemptID event
      | callingMCPPhase phase' \<Rightarrow> keep_exceptions ex (reduceCallingMCP sv ex s phase' event)
      | completedPhase _ _ \<Rightarrow> Inl (invariant_error ''terminal phase received an event'')
      | failedPhase _ _ \<Rightarrow> Inl (invariant_error ''terminal phase received an event''))"

end
