(* ===== verification/Exchange_Invariant.thy ===== *)
theory Exchange_Invariant
  imports Exchange_Reduce
begin

text \<open>
  What the transitions of \<open>Exchange_Reduce\<close> do to the attempt ledger: the effect of choosing,
  preparing and dispatching provider calls, and the invariant of the control state that
  every transition keeps.
\<close>

section \<open>Eligible candidates\<close>

definition eligible :: "'p exchangeState \<Rightarrow> int \<Rightarrow> bool" where
  "eligible s i \<longleftrightarrow>
     (\<exists>t. route_at (xs_route s) i = Some t \<and> \<not> snapshot_active (xs_targetBackoff s) t)"

lemma nextEligible_Some:
  assumes "nextEligible route backoff i = Some sel"
  shows "i \<le> sel_candidateIndex sel \<and> sel_requestChoice sel = providerRequestPreferred \<and>
    (\<exists>t. route_at route (sel_candidateIndex sel) = Some t \<and> \<not> snapshot_active backoff t)"
  using assms
proof (induction route backoff i rule: nextEligible.induct)
  case (1 route backoff i)
  note step = nextEligible.simps [of route backoff i]
  show ?case
  proof (cases "route_at route i")
    case None
    with 1(2) show ?thesis by (simp add: step)
  next
    case (Some t)
    with 1(2) 1(1) [OF Some] show ?thesis
      by (cases "snapshot_active backoff t") (auto simp: step)
  qed
qed

lemma nextEligibleRouteCandidate_Some:
  "nextEligibleRouteCandidate s i = Some sel \<Longrightarrow>
     i \<le> sel_candidateIndex sel \<and> sel_requestChoice sel = providerRequestPreferred \<and>
     eligible s (sel_candidateIndex sel)"
  unfolding nextEligibleRouteCandidate_def eligible_def by (rule nextEligible_Some)

lemma eligible_range: "eligible s i \<Longrightarrow> 0 \<le> i \<and> i < int (length (rp_targets (xs_route s)))"
  by (auto simp: eligible_def route_at_def split: if_splits)

section \<open>Prepared calls\<close>

text \<open>The target of a call or attempt is the exact generation of its candidate in the plan.\<close>

definition planned_target ::
    "'p exchangeState \<Rightarrow> int \<Rightarrow> TargetSnapshot \<Rightarrow> targetExceptionGeneration \<Rightarrow> bool" where
  "planned_target s i snapshot' generation' \<longleftrightarrow>
     (\<exists>t. route_at (xs_route s) i = Some t \<and>
        ts_TargetID snapshot' = target_id t \<and> ts_TargetVersion snapshot' = target_version t \<and>
        ts_Model snapshot' = target_model t \<and>
        generation' = \<lparr>gen_workspace = ws_slug (in_workspace (xs_input s)),
          gen_targetID = target_id t, gen_targetVersion = target_version t\<rparr>)"

lemma preparePath_Inr:
  assumes "preparePath sv s sel = Inr path"
  shows "\<exists>t. route_at (xs_route s) (sel_candidateIndex sel) = Some t \<and>
    ts_TargetID (path_target path) = target_id t \<and>
    ts_TargetVersion (path_target path) = target_version t \<and>
    ts_Model (path_target path) = target_model t"
proof -
  obtain t where "route_at (xs_route s) (sel_candidateIndex sel) = Some t"
    "resolveProviderPath (sv_catalog sv) t = Inr path"
    using assms by (auto simp: preparePath_def split: option.splits)
  moreover from this(2) have "ts_TargetID (path_target path) = target_id t \<and>
      ts_TargetVersion (path_target path) = target_version t \<and>
      ts_Model (path_target path) = target_model t"
    by (rule resolveProviderPath_target)
  ultimately show ?thesis by blast
qed

lemma prepareRequest_Inr:
  assumes "prepareRequest sv s sel path = Inr (backend, codec, req, rq, changes)"
  shows "bk_Target backend = path_target path \<and> xs_prepared s \<noteq> None \<and>
    (sel_requestChoice sel = providerRequestFullHistory \<longrightarrow> rq_PreviousHistory rq = None)"
  using assms unfolding prepareRequest_def Let_def
  by (auto simp: early_return case_prod_beta providerHistoryHandleEligible_def)

lemma prepareProviderCall_Inr:
  assumes "prepareProviderCall sv ex s sel = (Inr call, t, changes, cache)"
  shows "planned_target s (sel_candidateIndex sel) (bk_Target (pc_backend call))
      (pc_targetGeneration call) \<and>
    pc_providerRound call = int (length (xs_providerUsage s)) \<and>
    (sel_requestChoice sel = providerRequestFullHistory \<longrightarrow>
       rq_PreviousHistory (pc_request call) = None)"
proof -
  obtain path where p: "preparePath sv s sel = Inr path"
    using assms by (auto simp: prepareProviderCall_def split: sum.splits)
  obtain b c r rq ch where r: "prepareRequest sv s sel path = Inr (b, c, r, rq, ch)"
    using assms p by (auto simp: prepareProviderCall_def split: sum.splits)
  have call: "pc_backend call = b" "pc_request call = rq"
    "pc_providerRound call = int (length (xs_providerUsage s))"
    "pc_targetGeneration call = \<lparr>gen_workspace = ws_slug (in_workspace (xs_input s)),
       gen_targetID = ts_TargetID (path_target path),
       gen_targetVersion = ts_TargetVersion (path_target path)\<rparr>"
    using assms p r
    by (auto simp: prepareProviderCall_def Let_def split: sum.splits prod.splits)
  show ?thesis
    using preparePath_Inr [OF p] prepareRequest_Inr [OF r] call
    by (auto simp: planned_target_def)
qed

section \<open>Dispatching\<close>

text \<open>The part of the state that choosing and dispatching a call leaves alone.\<close>

definition control :: "'p exchangeState \<Rightarrow>
    'p exchangeInput \<times> routePlan \<times> targetBackoffSnapshot \<times> 'p list \<times> 'p option \<times> 'p option" where
  "control s = (xs_input s, xs_route s, xs_targetBackoff s, xs_providerUsage s, xs_prepared s,
     xs_mcp s)"

text \<open>One call of the selection has been dispatched.\<close>

definition dispatched ::
    "'p exchangeState \<Rightarrow> providerCallSelection \<Rightarrow> 'p exchangeState \<Rightarrow> 'p command option \<Rightarrow> bool" where
  "dispatched s sel s' cmd \<longleftrightarrow>
     control s' = control s \<and>
     (\<exists>a call. xs_providerCallAttempts s' = xs_providerCallAttempts s @ [a] \<and>
        operation a =
          (sel_candidateIndex sel, sel_requestChoice sel, int (length (xs_providerUsage s))) \<and>
        operation a \<notin> operation ` set (xs_providerCallAttempts s) \<and>
        at_status a = providerCallAttemptCalling \<and> at_failure a = None \<and>
        at_target a = bk_Target (pc_backend call) \<and>
        planned_target s (sel_candidateIndex sel) (at_target a) (at_targetGeneration a) \<and>
        (sel_requestChoice sel = providerRequestFullHistory \<longrightarrow> \<not> at_nativePreviousResponse a) \<and>
        xs_phase s' =
          callingProviderPhase (int (length (xs_providerCallAttempts s)) + 1) call \<and>
        cmd = Some (callProviderCommand (int (length (xs_providerCallAttempts s)) + 1)
          (pc_backend call) (pc_document call)))"

definition ended :: "'p exchangeState \<Rightarrow> 'p exchangeState \<Rightarrow> 'p command option \<Rightarrow> bool" where
  "ended s s' cmd \<longleftrightarrow>
     control s' = control s \<and> xs_providerCallAttempts s' = xs_providerCallAttempts s \<and>
     cmd = None \<and> (\<exists>e t. xs_phase s' = failedPhase e t)"

lemma control_updates [simp]:
  "control (s\<lparr>xs_mediaFetchCache := c\<rparr>) = control s"
  "control (s\<lparr>xs_evaluatedCandidateCount := n\<rparr>) = control s"
  "control (s\<lparr>xs_phase := p\<rparr>) = control s"
  "control (s\<lparr>xs_providerCallAttempts := as\<rparr>) = control s"
  "control (evaluate_candidate sel s) = control s"
  by (simp_all add: control_def evaluate_candidate_def)

lemma evaluate_candidate_simps [simp]:
  "xs_providerCallAttempts (evaluate_candidate sel s) = xs_providerCallAttempts s"
  "xs_phase (evaluate_candidate sel s) = xs_phase s"
  by (simp_all add: evaluate_candidate_def)

lemma control_cong:
  assumes "control s = control s'"
  shows "xs_input s = xs_input s'" "xs_route s = xs_route s'"
    "xs_targetBackoff s = xs_targetBackoff s'" "xs_providerUsage s = xs_providerUsage s'"
    "xs_prepared s = xs_prepared s'" "xs_mcp s = xs_mcp s'"
    "planned_target s = planned_target s'" "eligible s = eligible s'"
proof -
  show eqs: "xs_input s = xs_input s'" "xs_route s = xs_route s'"
    "xs_targetBackoff s = xs_targetBackoff s'" "xs_providerUsage s = xs_providerUsage s'"
    "xs_prepared s = xs_prepared s'" "xs_mcp s = xs_mcp s'"
    using assms by (simp_all add: control_def)
  show "planned_target s = planned_target s'" "eligible s = eligible s'"
    by (intro ext, simp add: planned_target_def eqs) (intro ext, simp add: eligible_def eqs)
qed

lemma beginProviderCallAttempt_dispatched:
  assumes "beginProviderCallAttempt s sel call ch = Inr (s', cmd)"
    and "planned_target s (sel_candidateIndex sel) (bk_Target (pc_backend call))
      (pc_targetGeneration call)"
    and "pc_providerRound call = int (length (xs_providerUsage s))"
    and "sel_requestChoice sel = providerRequestFullHistory \<longrightarrow>
      rq_PreviousHistory (pc_request call) = None"
  shows "dispatched s sel s' cmd"
proof -
  define n where "n = int (length (xs_providerCallAttempts s)) + 1"
  define a where "a = \<lparr>at_candidateIndex = sel_candidateIndex sel,
      at_target = bk_Target (pc_backend call), at_requestChoice = sel_requestChoice sel,
      at_providerRound = pc_providerRound call,
      at_nativePreviousResponse = nativePreviousResponseSent (pc_request call),
      at_targetGeneration = pc_targetGeneration call, at_factReads = pc_factReads call,
      at_requestChanges = ch, at_status = providerCallAttemptCalling, at_failure = None\<rparr>"
  have fresh: "\<not> list_ex (\<lambda>prior. at_candidateIndex prior = sel_candidateIndex sel \<and>
      at_requestChoice prior = sel_requestChoice sel \<and>
      at_providerRound prior = pc_providerRound call) (xs_providerCallAttempts s)"
    and s': "s' = s\<lparr>xs_providerCallAttempts := xs_providerCallAttempts s @ [a],
      xs_phase := callingProviderPhase n call\<rparr>"
    and cmd: "cmd = Some (callProviderCommand n (pc_backend call) (pc_document call))"
    using assms(1)
    by (auto simp: beginProviderCallAttempt_def Let_def a_def n_def split: sum.splits if_splits)
  have "operation a \<notin> operation ` set (xs_providerCallAttempts s)"
    using fresh by (auto simp: operation_def a_def list_ex_iff)
  moreover have "control s' = control s" by (simp add: s' control_def)
  ultimately show ?thesis
    using assms(2-4) unfolding dispatched_def
    by (intro conjI exI [of _ a] exI [of _ call])
      (simp_all add: s' cmd n_def operation_def a_def nativePreviousResponseSent_def)
qed

section \<open>Advancing\<close>

text \<open>
  The calls that the ledger admits next: of an eligible candidate that no attempt of the
  current provider round has passed, either its first one, with the preferred request, or its
  second and last one, after the failure of the first.
\<close>

definition current_round :: "'p exchangeState \<Rightarrow> int" where
  "current_round s = int (length (xs_providerUsage s))"

abbreviation dispatches :: "'p exchangeState \<Rightarrow> int \<Rightarrow> nat" where
  "dispatches s i \<equiv> candidateRoundDispatchCount (xs_providerCallAttempts s) i (current_round s)"

definition follows :: "int \<Rightarrow> int \<Rightarrow> providerCallAttempt \<Rightarrow> bool" where
  "follows r i a \<longleftrightarrow> at_providerRound a < r \<or> at_providerRound a = r \<and> at_candidateIndex a \<le> i"

text \<open>
  When a call may follow an attempt. After a failure: the same candidate once more if the
  provider rejected the request, or a later candidate if the failure is of a class that
  advances; and this only in the first provider round, or when a native reference was
  refused. After a response held back for tools: the same candidate in the next round.
\<close>

definition succeeds :: "providerCallAttempt \<Rightarrow> int \<Rightarrow> providerRequestChoice \<Rightarrow> int \<Rightarrow> bool" where
  "succeeds a i choice r =
     (case at_failure a of
        Some (_, cause) \<Rightarrow>
          r = at_providerRound a \<and>
          (i = at_candidateIndex a \<and> choice \<noteq> providerRequestPreferred \<and>
             has_err is_rejected cause \<or>
           at_candidateIndex a < i \<and> choice = providerRequestPreferred \<and>
             providerFailureAdvancesCandidate cause) \<and>
          (at_providerRound a = 0 \<or> nativeReferenceFailureAdmitsFullHistory a)
      | None \<Rightarrow>
          at_status a = providerCallAttemptHandoffReady \<and> r = at_providerRound a + 1 \<and>
          i = at_candidateIndex a \<and> choice = providerRequestPreferred)"

definition succeeds_last :: "'p exchangeState \<Rightarrow> providerCallSelection \<Rightarrow> bool" where
  "succeeds_last s sel \<longleftrightarrow> xs_providerCallAttempts s = [] \<or>
     succeeds (last (xs_providerCallAttempts s)) (sel_candidateIndex sel) (sel_requestChoice sel)
       (current_round s)"

definition admissible :: "'p exchangeState \<Rightarrow> providerCallSelection \<Rightarrow> bool" where
  "admissible s sel \<longleftrightarrow>
     eligible s (sel_candidateIndex sel) \<and>
     list_all (follows (current_round s) (sel_candidateIndex sel)) (xs_providerCallAttempts s) \<and>
     succeeds_last s sel \<and>
     (if sel_requestChoice sel = providerRequestPreferred
      then dispatches s (sel_candidateIndex sel) = 0
      else dispatches s (sel_candidateIndex sel) = 1)"

lemma dispatches_zero:
  "candidateRoundDispatchCount as i r = 0 \<longleftrightarrow>
     (\<forall>a \<in> set as. \<not> (at_candidateIndex a = i \<and> at_providerRound a = r))"
  by (auto simp: candidateRoundDispatchCount_def filter_empty_conv)

lemma admissible_later:
  assumes "list_all (follows (current_round s) i) (xs_providerCallAttempts s)"
    and "i < sel_candidateIndex sel" "sel_requestChoice sel = providerRequestPreferred"
    and "eligible s (sel_candidateIndex sel)" "succeeds_last s sel"
  shows "admissible s sel"
  using assms by (fastforce simp: admissible_def dispatches_zero list_all_iff follows_def)

text \<open>After a failure a later candidate may follow whenever an earlier one might have.\<close>

definition after_failure :: "'p exchangeState \<Rightarrow> bool" where
  "after_failure s \<longleftrightarrow> xs_providerCallAttempts s = [] \<or>
     at_failure (last (xs_providerCallAttempts s)) \<noteq> None"

lemma succeeds_later:
  assumes "succeeds_last s sel" "after_failure s"
    and "sel_candidateIndex sel < sel_candidateIndex sel'"
    and "sel_requestChoice sel' = providerRequestPreferred"
  shows "succeeds_last s sel'"
  using assms
  by (auto simp: succeeds_last_def succeeds_def after_failure_def
      providerFailureAdvancesCandidate_def)

lemma invariant_error_plain [simp]:
  "\<not> has_err is_unavailable (invariant_error m)"
  by (simp add: has_err_def invariant_error_def)

lemma candidate_out_of_range:
  "sel_candidateIndex sel < 0 \<Longrightarrow> fst (prepareProviderCall sv ex s sel) =
     Inl (invariant_error ''provider candidate index is outside route plan'')"
  by (simp add: prepareProviderCall_def preparePath_def route_at_def)

text \<open>The fuel of the loop suffices.\<close>

lemma advanceFrom_fuel:
  assumes "0 < fuel"
    and "0 \<le> sel_candidateIndex sel \<Longrightarrow>
      nat (int (length (rp_targets (xs_route s))) - sel_candidateIndex sel) < fuel"
  shows "\<exists>r. advanceFrom fuel sv ex s sel = Some r"
  using assms
proof (induction fuel arbitrary: s sel)
  case (Suc fuel)
  obtain result t ch cache where p: "prepareProviderCall sv ex (evaluate_candidate sel s) sel =
      (result, t, ch, cache)" by (metis prod_cases4)
  define s1 where "s1 = (evaluate_candidate sel s)\<lparr>xs_mediaFetchCache := cache\<rparr>"
  have c: "control s1 = control s" by (simp add: s1_def)
  show ?case
  proof (cases "\<exists>e next'. result = Inl e \<and> candidatePreparationCanAdvance e \<and>
      nextRouteCandidate s1 sel = Some next'")
    case True
    then obtain e next' where n: "result = Inl e" "candidatePreparationCanAdvance e"
      "nextRouteCandidate s1 sel = Some next'" by blast
    have "0 \<le> sel_candidateIndex sel"
      using candidate_out_of_range [of sel sv ex "evaluate_candidate sel s"] n p
      by (force simp: candidatePreparationCanAdvance_def)
    moreover have "sel_candidateIndex sel < sel_candidateIndex next'"
      "sel_candidateIndex next' < int (length (rp_targets (xs_route s1)))"
      using nextEligibleRouteCandidate_Some [of s1 "sel_candidateIndex sel + 1" next'] n(3)
        eligible_range [of s1 "sel_candidateIndex next'"]
      by (simp_all add: nextRouteCandidate_def)
    ultimately have "\<exists>r. advanceFrom fuel sv ex s1 next' = Some r"
      using Suc.prems(2) control_cong(2) [OF c] by (intro Suc.IH) auto
    then show ?thesis using n p by (auto simp: s1_def Let_def)
  next
    case False
    then show ?thesis
      using p by (cases result) (auto simp: s1_def Let_def split: option.splits)
  qed
qed simp

text \<open>The outcome of the loop: one admissible call is dispatched, or the exchange ends.\<close>

lemma advanceFrom_outcome:
  assumes "advanceFrom fuel sv ex s sel = Some (Inr (s', cmd))" and "admissible s sel"
    and "after_failure s"
  shows "ended s s' cmd \<or> (\<exists>sel'. admissible s sel' \<and> dispatched s sel' s' cmd)"
  using assms
proof (induction fuel arbitrary: s sel)
  case (Suc fuel)
  obtain result t ch cache where p: "prepareProviderCall sv ex (evaluate_candidate sel s) sel =
      (result, t, ch, cache)" by (metis prod_cases4)
  define s1 where "s1 = (evaluate_candidate sel s)\<lparr>xs_mediaFetchCache := cache\<rparr>"
  have c: "control s1 = control s" "xs_providerCallAttempts s1 = xs_providerCallAttempts s"
    by (simp_all add: s1_def)
  note cc = control_cong [OF c(1)]
  have same: "admissible s1 = admissible s" "dispatched s1 = dispatched s" "ended s1 = ended s"
    by (intro ext, simp add: admissible_def succeeds_last_def dispatched_def ended_def
        current_round_def c cc)+
  have after: "after_failure s1" using Suc.prems(3) by (simp add: after_failure_def c)
  show ?case
  proof (cases result)
    case (Inr call)
    have b: "beginProviderCallAttempt s1 sel call ch = Inr (s', cmd)"
      using Suc.prems(1) p Inr by (simp add: s1_def)
    have e: "control s1 = control (evaluate_candidate sel s)" by (simp add: s1_def)
    have "dispatched s1 sel s' cmd"
      using prepareProviderCall_Inr [OF p [unfolded Inr]]
      by (intro beginProviderCallAttempt_dispatched [OF b]) (simp_all add: control_cong(4,7) [OF e])
    then show ?thesis using Suc.prems(2) same by auto
  next
    case (Inl e)
    show ?thesis
    proof (cases "candidatePreparationCanAdvance e \<and> nextRouteCandidate s1 sel \<noteq> None")
      case True
      then obtain next' where n: "nextRouteCandidate s1 sel = Some next'" by blast
      have "admissible s1 sel" using Suc.prems(2) same(1) by simp
      then have "admissible s1 next'"
        using nextEligibleRouteCandidate_Some [of s1 "sel_candidateIndex sel + 1" next'] n
          succeeds_later [OF _ after, of sel next']
        by (intro admissible_later [of s1 "sel_candidateIndex sel"])
          (auto simp: nextRouteCandidate_def admissible_def)
      moreover have "advanceFrom fuel sv ex s1 next' = Some (Inr (s', cmd))"
        using Suc.prems(1) p Inl True n by (simp add: s1_def Let_def split: if_splits)
      ultimately show ?thesis using Suc.IH [of s1 next'] same after by simp
    next
      case False
      then have "fail_exchange s1 e t = (s', cmd)"
        using Suc.prems(1) p Inl by (auto simp: s1_def Let_def split: option.splits if_splits)
      then show ?thesis using c by (auto simp: ended_def fail_exchange_def)
    qed
  qed
qed simp

section \<open>The attempt ledger\<close>

definition attempt_ok :: "'p exchangeState \<Rightarrow> providerCallAttempt \<Rightarrow> bool" where
  "attempt_ok s a \<longleftrightarrow>
     eligible s (at_candidateIndex a) \<and>
     planned_target s (at_candidateIndex a) (at_target a) (at_targetGeneration a) \<and>
     0 \<le> at_providerRound a \<and>
     (at_requestChoice a = providerRequestFullHistory \<longrightarrow> \<not> at_nativePreviousResponse a) \<and>
     (at_status a = providerCallAttemptFailed \<longleftrightarrow> at_failure a \<noteq> None)"

definition in_order :: "providerCallAttempt \<Rightarrow> providerCallAttempt \<Rightarrow> bool" where
  "in_order a b \<longleftrightarrow> follows (at_providerRound b) (at_candidateIndex b) a"

definition follows_attempt :: "providerCallAttempt \<Rightarrow> providerCallAttempt \<Rightarrow> bool" where
  "follows_attempt a b \<longleftrightarrow> succeeds a (at_candidateIndex b) (at_requestChoice b) (at_providerRound b)"

text \<open>
  The first call of a candidate in a round is the preferred one, and there are at most two.
\<close>

definition dispatch_ok :: "providerCallAttempt list \<Rightarrow> int \<Rightarrow> int \<Rightarrow> bool" where
  "dispatch_ok as i r =
     (case filter (\<lambda>a. at_candidateIndex a = i \<and> at_providerRound a = r) as of
        [] \<Rightarrow> True
      | [a] \<Rightarrow> at_requestChoice a = providerRequestPreferred
      | [a, b] \<Rightarrow> at_requestChoice a = providerRequestPreferred \<and>
          at_requestChoice b \<noteq> providerRequestPreferred
      | _ \<Rightarrow> False)"

definition call_ledger_ok :: "'p exchangeState \<Rightarrow> bool" where
  "call_ledger_ok s \<longleftrightarrow>
     list_all (attempt_ok s) (xs_providerCallAttempts s) \<and>
     list_all attempt_terminal (butlast (xs_providerCallAttempts s)) \<and>
     sorted_wrt in_order (xs_providerCallAttempts s) \<and>
     distinct (map operation (xs_providerCallAttempts s)) \<and>
     successively follows_attempt (xs_providerCallAttempts s) \<and>
     (\<forall>i r. dispatch_ok (xs_providerCallAttempts s) i r)"

lemma call_ledger_okD:
  assumes "call_ledger_ok s"
  shows "list_all (attempt_ok s) (xs_providerCallAttempts s)"
    "list_all attempt_terminal (butlast (xs_providerCallAttempts s))"
    "sorted_wrt in_order (xs_providerCallAttempts s)"
    "distinct (map operation (xs_providerCallAttempts s))"
    "dispatch_ok (xs_providerCallAttempts s) i r"
    "successively follows_attempt (xs_providerCallAttempts s)"
  using assms by (simp_all add: call_ledger_ok_def)

lemma dispatch_ok_count: "dispatch_ok as i r \<Longrightarrow> candidateRoundDispatchCount as i r \<le> 2"
  by (auto simp: dispatch_ok_def candidateRoundDispatchCount_def split: list.splits)

lemma dispatch_ok_append:
  assumes "dispatch_ok as i r"
    and "at_candidateIndex a = i \<Longrightarrow> at_providerRound a = r \<Longrightarrow>
      (if at_requestChoice a = providerRequestPreferred then candidateRoundDispatchCount as i r = 0
       else candidateRoundDispatchCount as i r = 1)"
  shows "dispatch_ok (as @ [a]) i r"
  using assms
  by (auto simp: dispatch_ok_def candidateRoundDispatchCount_def length_Suc_conv
      split: list.splits if_splits)

lemma attempt_ok_cong: "control s = control s' \<Longrightarrow> attempt_ok s = attempt_ok s'"
  using control_cong(7,8) [of s s'] by (intro ext) (simp add: attempt_ok_def)

text \<open>Dispatching an admissible call keeps the ledger in order.\<close>

lemma dispatched_ledger:
  assumes "call_ledger_ok s" "list_all attempt_terminal (xs_providerCallAttempts s)"
    and "admissible s sel" "dispatched s sel s' cmd"
  shows "call_ledger_ok s'"
proof -
  obtain a where a: "xs_providerCallAttempts s' = xs_providerCallAttempts s @ [a]"
    "operation a = (sel_candidateIndex sel, sel_requestChoice sel, current_round s)"
    "operation a \<notin> operation ` set (xs_providerCallAttempts s)"
    "at_status a = providerCallAttemptCalling" "at_failure a = None"
    "planned_target s (sel_candidateIndex sel) (at_target a) (at_targetGeneration a)"
    "sel_requestChoice sel = providerRequestFullHistory \<longrightarrow> \<not> at_nativePreviousResponse a"
    and c: "control s' = control s"
    using assms(4) by (auto simp: dispatched_def current_round_def)
  have o: "at_candidateIndex a = sel_candidateIndex sel" "at_requestChoice a = sel_requestChoice sel"
    "at_providerRound a = current_round s" using a(2) by (simp_all add: operation_def)
  note adm = assms(3) [unfolded admissible_def]
  have "attempt_ok s a" using a adm o by (simp add: attempt_ok_def current_round_def)
  moreover have "dispatch_ok (xs_providerCallAttempts s') i r" for i r
    unfolding a(1) using call_ledger_okD(5) [OF assms(1)] adm o by (intro dispatch_ok_append) auto
  moreover have "list_all (\<lambda>b. in_order b a) (xs_providerCallAttempts s)"
    using adm o by (simp add: in_order_def)
  moreover have "successively follows_attempt (xs_providerCallAttempts s')"
    using call_ledger_okD(6) [OF assms(1)] adm o a(1)
    by (auto simp: successively_append_iff follows_attempt_def succeeds_last_def)
  ultimately show ?thesis
    using call_ledger_okD(1,3,4) [OF assms(1)] assms(2) a(1,3) attempt_ok_cong [OF c]
    by (simp add: call_ledger_ok_def sorted_wrt_append list_all_iff)
qed

text \<open>Settling the last attempt keeps the ledger in order.\<close>

definition settle :: "providerCallAttemptStatus \<Rightarrow> AttemptFailure option \<Rightarrow> 'p exchangeState \<Rightarrow> 'p exchangeState" where
  "settle st f s = s\<lparr>xs_providerCallAttempts :=
     butlast (xs_providerCallAttempts s) @
       [(last (xs_providerCallAttempts s))\<lparr>at_status := st, at_failure := f\<rparr>]\<rparr>"

lemma settle_simps [simp]:
  "control (settle st f s) = control s"
  "xs_providerCallAttempts (settle st f s) = butlast (xs_providerCallAttempts s) @
       [(last (xs_providerCallAttempts s))\<lparr>at_status := st, at_failure := f\<rparr>]"
  "xs_prepared (settle st f s) = xs_prepared s" "xs_mcp (settle st f s) = xs_mcp s"
  "xs_providerUsage (settle st f s) = xs_providerUsage s"
  "current_round (settle st f s) = current_round s"
  "xs_phase (settle st f s) = xs_phase s" "xs_route (settle st f s) = xs_route s"
  by (simp_all add: settle_def current_round_def)

lemma dispatch_ok_update:
  assumes "at_candidateIndex b = at_candidateIndex a" "at_providerRound b = at_providerRound a"
    "at_requestChoice b = at_requestChoice a"
  shows "dispatch_ok (as @ [b]) i r = dispatch_ok (as @ [a]) i r"
  using assms by (auto simp: dispatch_ok_def split: list.splits)

lemma settle_ledger:
  assumes "call_ledger_ok s" "xs_providerCallAttempts s \<noteq> []"
    and "st = providerCallAttemptFailed \<longleftrightarrow> f \<noteq> None"
  shows "call_ledger_ok (settle st f s)"
proof -
  define as where "as = butlast (xs_providerCallAttempts s)"
  define a where "a = last (xs_providerCallAttempts s)"
  have s: "xs_providerCallAttempts s = as @ [a]" using assms(2) by (simp add: as_def a_def)
  define b where "b = a\<lparr>at_status := st, at_failure := f\<rparr>"
  have b: "xs_providerCallAttempts (settle st f s) = as @ [b]" by (simp add: as_def a_def b_def)
  have "attempt_ok s b" using call_ledger_okD(1) [OF assms(1)] s assms(3)
    by (simp add: attempt_ok_def b_def)
  moreover have "operation b = operation a" by (simp add: operation_def b_def)
  moreover have "in_order x b = in_order x a" "follows_attempt x b = follows_attempt x a" for x
    by (simp_all add: in_order_def follows_attempt_def b_def)
  moreover have "dispatch_ok (as @ [b]) i r" for i r
    using call_ledger_okD(5) [OF assms(1), of i r] s dispatch_ok_update [of b a as i r]
    by (simp add: b_def)
  moreover have "attempt_ok (settle st f s) = attempt_ok s" by (rule attempt_ok_cong) simp
  ultimately show ?thesis
    using call_ledger_okD(1-4) [OF assms(1)] call_ledger_okD(6) [OF assms(1)] b s
    by (simp add: call_ledger_ok_def sorted_wrt_append successively_append_iff)
qed

end
