(* ===== verification/Exchange_Safety.thy ===== *)
theory Exchange_Safety
  imports Exchange_Invariant
begin

text \<open>
  The invariant of one exchange: every transition of \<open>reduce\<close> keeps the attempt ledger in
  order and the phase consistent with it and with the command it waits for.
\<close>

section \<open>The invariant\<close>

abbreviation last_attempt :: "'p exchangeState \<Rightarrow> providerCallAttempt" where
  "last_attempt s \<equiv> last (xs_providerCallAttempts s)"

definition unstarted :: "'p exchangeState \<Rightarrow> bool" where
  "unstarted s \<longleftrightarrow> xs_providerCallAttempts s = [] \<and> xs_providerUsage s = []"

text \<open>The last attempt of the current provider round has the given status.\<close>

definition at_last :: "providerCallAttemptStatus \<Rightarrow> int \<Rightarrow> 'p exchangeState \<Rightarrow> bool" where
  "at_last st lag s \<longleftrightarrow>
     xs_providerCallAttempts s \<noteq> [] \<and> at_status (last_attempt s) = st \<and>
     at_providerRound (last_attempt s) + lag = current_round s"

definition mcp_ok :: "'p exchangeState \<Rightarrow> 'p callingMCP \<Rightarrow> bool" where
  "mcp_ok s m \<longleftrightarrow>
     mp_selection m = \<lparr>sel_candidateIndex = at_candidateIndex (last_attempt s),
       sel_requestChoice = providerRequestPreferred\<rparr> \<and>
     mp_target m = at_target (last_attempt s) \<and>
     0 \<le> mp_next m \<and> mp_next m < int (length (mp_calls m)) \<and>
     int (length (mp_results m)) = mp_next m"

text \<open>The failed attempt whose target facts are being resolved.\<close>

definition characterizable :: "providerCallAttempt \<Rightarrow> bool" where
  "characterizable a =
     (case at_failure a of None \<Rightarrow> False | Some ft \<Rightarrow> targetFactCharacterizationAdmitted a ft)"

text \<open>No transition leads back to the starting phase.\<close>

fun phase_ok :: "'p exchangeState \<Rightarrow> 'p command option \<Rightarrow> 'p phase \<Rightarrow> bool" where
  "phase_ok s cmd startingPhase \<longleftrightarrow> False"
| "phase_ok s cmd (loadingCheckpointPhase explicit key) \<longleftrightarrow>
     unstarted s \<and> (explicit \<or> in_rebasedRequest (xs_input s) \<noteq> None) \<and>
     cmd = Some (loadCheckpointCommand (ws_slug (in_workspace (xs_input s))) explicit key)"
| "phase_ok s cmd preparingMCPPhase \<longleftrightarrow>
     unstarted s \<and> xs_draft s \<noteq> None \<and>
     (\<exists>full. cmd = Some (prepareMCPCommand full (in_mcpAccess (xs_input s))))"
| "phase_ok s cmd (callingProviderPhase attemptID call) \<longleftrightarrow>
     at_last providerCallAttemptCalling 0 s \<and> xs_prepared s \<noteq> None \<and>
     attemptID = int (length (xs_providerCallAttempts s)) \<and>
     at_target (last_attempt s) = bk_Target (pc_backend call) \<and>
     cmd = Some (callProviderCommand attemptID (pc_backend call) (pc_document call))"
| "phase_ok s cmd (resolvingTargetFactsPhase attemptID backend) \<longleftrightarrow>
     at_last providerCallAttemptFailed 0 s \<and> xs_prepared s \<noteq> None \<and>
     attemptID = int (length (xs_providerCallAttempts s)) \<and>
     characterizable (last_attempt s) \<and>
     cmd = Some (characterizeTargetFactsCommand attemptID (at_target (last_attempt s))
       (at_targetGeneration (last_attempt s))
       (sortedTargetFacts (at_factReads (last_attempt s))) backend)"
| "phase_ok s cmd (callingMCPPhase m) \<longleftrightarrow>
     at_last providerCallAttemptHandoffReady 1 s \<and> xs_prepared s \<noteq> None \<and>
     xs_mcp s \<noteq> None \<and> mcp_ok s m \<and>
     (cmd = Some (callMCPCommand (xs_mcp s) (mp_calls m ! nat (mp_next m))) \<or>
      cmd = Some (beginMCPBatchCommand (xs_mcp s) (mp_calls m)) \<and> mp_next m = 0)"
| "phase_ok s cmd (completedPhase response target) \<longleftrightarrow>
     at_last providerCallAttemptHandoffReady 0 s \<and> target = at_target (last_attempt s) \<and>
     cmd = None"
| "phase_ok s cmd (failedPhase problem target) \<longleftrightarrow>
     list_all attempt_terminal (xs_providerCallAttempts s) \<and> cmd = None"

definition exchange_inv :: "'p exchangeState \<Rightarrow> 'p command option \<Rightarrow> bool" where
  "exchange_inv s cmd \<longleftrightarrow> call_ledger_ok s \<and> phase_ok s cmd (xs_phase s)"

text \<open>Between two calls: the last attempt, if there is one, has failed in this round.\<close>

definition resting :: "'p exchangeState \<Rightarrow> bool" where
  "resting s \<longleftrightarrow> call_ledger_ok s \<and> xs_prepared s \<noteq> None \<and>
     (unstarted s \<or> at_last providerCallAttemptFailed 0 s)"

lemma terminal_last:
  assumes "call_ledger_ok s" "xs_providerCallAttempts s \<noteq> []" "attempt_terminal (last_attempt s)"
  shows "list_all attempt_terminal (xs_providerCallAttempts s)"
proof -
  have "xs_providerCallAttempts s = butlast (xs_providerCallAttempts s) @ [last_attempt s]"
    using assms(2) by simp
  moreover have "list_all attempt_terminal (butlast (xs_providerCallAttempts s) @ [last_attempt s])"
    using call_ledger_okD(2) [OF assms(1)] assms(3) by simp
  ultimately show ?thesis by simp
qed

lemma resting_terminal: "resting s \<Longrightarrow> list_all attempt_terminal (xs_providerCallAttempts s)"
  using terminal_last [of s]
  by (auto simp: resting_def unstarted_def at_last_def attempt_terminal_def)

lemma ledger_last:
  assumes "call_ledger_ok s" "xs_providerCallAttempts s \<noteq> []"
  shows "attempt_ok s (last_attempt s)"
    and "list_all (follows (at_providerRound (last_attempt s)) (at_candidateIndex (last_attempt s)))
      (xs_providerCallAttempts s)"
    and "0 < candidateRoundDispatchCount (xs_providerCallAttempts s)
      (at_candidateIndex (last_attempt s)) (at_providerRound (last_attempt s))"
proof -
  obtain as a where s: "xs_providerCallAttempts s = as @ [a]"
    using assms(2) by (metis append_butlast_last_id)
  show "attempt_ok s (last_attempt s)" using call_ledger_okD(1) [OF assms(1)] s by simp
  show "list_all (follows (at_providerRound (last_attempt s)) (at_candidateIndex (last_attempt s)))
      (xs_providerCallAttempts s)"
    using call_ledger_okD(3) [OF assms(1)] s
    by (simp add: sorted_wrt_append in_order_def follows_def list_all_iff)
  show "0 < candidateRoundDispatchCount (xs_providerCallAttempts s)
      (at_candidateIndex (last_attempt s)) (at_providerRound (last_attempt s))"
    by (simp add: s candidateRoundDispatchCount_def)
qed

lemma resting_after_failure: "resting s \<Longrightarrow> after_failure s"
  using ledger_last(1) [of s]
  by (auto simp: resting_def unstarted_def at_last_def after_failure_def attempt_ok_def)

section \<open>Selections are admissible\<close>

lemma admissible_retry:
  assumes "call_ledger_ok s" "at_last st 0 s"
    and "dispatches s (at_candidateIndex (last_attempt s)) < 2"
    and "sel_candidateIndex sel = at_candidateIndex (last_attempt s)"
    and "sel_requestChoice sel \<noteq> providerRequestPreferred"
    and "at_failure (last_attempt s) = Some (x, cause)" "has_err is_rejected cause"
    and "at_providerRound (last_attempt s) = 0 \<or>
      nativeReferenceFailureAdmitsFullHistory (last_attempt s)"
  shows "admissible s sel"
  using ledger_last [OF assms(1)] assms(2-8)
  by (auto simp: admissible_def at_last_def attempt_ok_def succeeds_last_def succeeds_def)

lemma selectNextProviderCall_admissible:
  assumes "resting s" "selectNextProviderCall s = Some sel"
  shows "admissible s sel"
proof (cases "xs_providerCallAttempts s = []")
  case True
  then have "nextEligibleRouteCandidate s 0 = Some sel"
    using assms(2) by (simp add: selectNextProviderCall_def)
  from nextEligibleRouteCandidate_Some [OF this] True show ?thesis
    by (simp add: admissible_def candidateRoundDispatchCount_def succeeds_last_def)
next
  case False
  then have l: "call_ledger_ok s" "at_last providerCallAttemptFailed 0 s"
    using assms(1) by (auto simp: resting_def unstarted_def)
  then have round: "at_providerRound (last_attempt s) = current_round s" by (simp add: at_last_def)
  obtain x cause where f: "at_failure (last_attempt s) = Some (x, cause)"
    using ledger_last(1) [OF l(1) False] l(2) by (auto simp: attempt_ok_def at_last_def)
  show ?thesis
  proof (cases "selectSameTargetAlternative (xs_providerCallAttempts s)")
    case (Some alt)
    then have "sel = alt"
      using assms(2) False by (auto simp: selectNextProviderCall_def Let_def split: if_splits)
    moreover have "nativeReferenceFailureAdmitsFullHistory (last_attempt s)"
      using Some False by (auto simp: selectSameTargetAlternative_def Let_def split: if_splits)
    ultimately show ?thesis
      using Some False round f
      by (intro admissible_retry [OF l, of sel x cause])
        (auto simp: selectSameTargetAlternative_def Let_def nativeReferenceFailureAdmitsFullHistory_def
          split: if_splits)
  next
    case None
    then have n: "nextEligibleRouteCandidate s (at_candidateIndex (last_attempt s) + 1) = Some sel"
      and "providerRecoveryPermitted (last_attempt s)" "providerFailureAdvancesCandidate cause"
      using assms(2) False f
      by (auto simp: selectNextProviderCall_def Let_def split: if_splits option.splits)
    moreover have "0 \<le> at_providerRound (last_attempt s)"
      using ledger_last(1) [OF l(1) False] by (simp add: attempt_ok_def)
    ultimately have "succeeds_last s sel"
      using nextEligibleRouteCandidate_Some [OF n] f round
      by (auto simp: succeeds_last_def succeeds_def providerRecoveryPermitted_def)
    with nextEligibleRouteCandidate_Some [OF n] show ?thesis
      using ledger_last(2) [OF l(1) False] round
      by (intro admissible_later [of s "at_candidateIndex (last_attempt s)"]) auto
  qed
qed

section \<open>Advancing keeps the invariant\<close>

lemma dispatched_inv:
  assumes "call_ledger_ok s" "list_all attempt_terminal (xs_providerCallAttempts s)"
    and "xs_prepared s \<noteq> None" "admissible s sel" "dispatched s sel s' cmd"
  shows "exchange_inv s' cmd"
proof -
  have "call_ledger_ok s'" using dispatched_ledger [OF assms(1,2,4,5)] .
  moreover have "phase_ok s' cmd (xs_phase s')"
    using assms(5,3) control_cong(4,5) [of s' s]
    by (auto simp: dispatched_def at_last_def current_round_def operation_def)
  ultimately show ?thesis by (simp add: exchange_inv_def)
qed

lemma call_ledger_ok_cong:
  assumes "control s' = control s" "xs_providerCallAttempts s' = xs_providerCallAttempts s"
  shows "call_ledger_ok s' = call_ledger_ok s"
  using attempt_ok_cong [OF assms(1)] assms(2) by (simp add: call_ledger_ok_def)

lemma ended_inv:
  assumes "call_ledger_ok s" "list_all attempt_terminal (xs_providerCallAttempts s)" "ended s s' cmd"
  shows "exchange_inv s' cmd"
  using assms call_ledger_ok_cong [of s' s] by (auto simp: exchange_inv_def ended_def)

lemma advanceProviderExecutionFrom_inv:
  assumes "call_ledger_ok s" "list_all attempt_terminal (xs_providerCallAttempts s)"
    and "xs_prepared s \<noteq> None" "admissible s sel" "after_failure s"
    and "advanceProviderExecutionFrom sv ex s sel = Inr (s', cmd)"
  shows "exchange_inv s' cmd"
proof -
  have "\<exists>r. advanceFrom (length (rp_targets (xs_route s)) + 2) sv ex s sel = Some r"
    by (rule advanceFrom_fuel) auto
  then have "advanceFrom (length (rp_targets (xs_route s)) + 2) sv ex s sel = Some (Inr (s', cmd))"
    using assms(6) by (auto simp only: advanceProviderExecutionFrom_def option.sel)
  from advanceFrom_outcome [OF this assms(4,5)] show ?thesis
    using ended_inv [OF assms(1,2)] dispatched_inv [OF assms(1-3)] by blast
qed

lemma terminateProviderExecution_ended:
  assumes "terminateProviderExecution s = Inr (s', cmd)"
  shows "ended s s' cmd"
  using assms
  by (auto simp: terminateProviderExecution_def fail_exchange_def ended_def Let_def
      split: if_splits option.splits)

lemma advanceProviderExecution_inv:
  assumes "resting s" "advanceProviderExecution sv ex s = Inr (s', cmd)"
  shows "exchange_inv s' cmd"
proof (cases "selectNextProviderCall s")
  case None
  then have "terminateProviderExecution s = Inr (s', cmd)"
    using assms by (auto simp: advanceProviderExecution_def resting_def)
  from terminateProviderExecution_ended [OF this] show ?thesis
    using ended_inv resting_terminal [OF assms(1)] assms(1) by (auto simp: resting_def)
next
  case (Some sel)
  then have "advanceProviderExecutionFrom sv ex s sel = Inr (s', cmd)"
    using assms by (auto simp: advanceProviderExecution_def resting_def)
  moreover have "call_ledger_ok s" "xs_prepared s \<noteq> None"
    using assms(1) by (simp_all add: resting_def)
  ultimately show ?thesis
    using advanceProviderExecutionFrom_inv resting_terminal [OF assms(1)]
      selectNextProviderCall_admissible [OF assms(1) Some] resting_after_failure [OF assms(1)]
    by blast
qed

section \<open>Settling the active attempt\<close>

lemma update_last:
  "xs \<noteq> [] \<Longrightarrow> xs[length xs - Suc 0 := y] = butlast xs @ [y]"
  by (metis One_nat_def list_update_length length_butlast append_butlast_last_id)

lemma active_index:
  assumes "xs_providerCallAttempts s \<noteq> []"
  shows "providerCallAttemptIndex s (int (length (xs_providerCallAttempts s))) =
      Some (length (xs_providerCallAttempts s) - 1)"
    and "findProviderCallAttempt s (int (length (xs_providerCallAttempts s))) =
      Some (last_attempt s)"
proof -
  have "0 < length (xs_providerCallAttempts s)" using assms by simp
  then show i: "providerCallAttemptIndex s (int (length (xs_providerCallAttempts s))) =
      Some (length (xs_providerCallAttempts s) - 1)"
    by (auto simp: providerCallAttemptIndex_def Let_def nat_diff_distrib)
  show "findProviderCallAttempt s (int (length (xs_providerCallAttempts s))) =
      Some (last_attempt s)"
    using assms by (simp add: findProviderCallAttempt_def i last_conv_nth)
qed

lemma failProviderCallAttempt_active:
  assumes "xs_providerCallAttempts s \<noteq> []"
    and "at_status (last_attempt s) = providerCallAttemptCalling"
  shows "failProviderCallAttempt s (int (length (xs_providerCallAttempts s))) failure =
    (case AsAttemptFailure failure of
       None \<Rightarrow> Inl (invariant_error ''provider call attempt has invalid failure facts'')
     | Some ft \<Rightarrow> Inr (settle providerCallAttemptFailed (Some ft) s))"
  using assms
  by (simp add: failProviderCallAttempt_def active_index settle_def update_last last_conv_nth
      Let_def
      split: option.split)

lemma completeProviderCallAttempt_active:
  assumes "xs_providerCallAttempts s \<noteq> []"
    and "at_status (last_attempt s) = providerCallAttemptCalling"
    and "at_failure (last_attempt s) = None"
  shows "completeProviderCallAttempt s (int (length (xs_providerCallAttempts s))) =
    Inr (settle providerCallAttemptHandoffReady None s)"
proof -
  have "(last_attempt s)\<lparr>at_status := providerCallAttemptHandoffReady, at_failure := None\<rparr> =
      (last_attempt s)\<lparr>at_status := providerCallAttemptHandoffReady\<rparr>"
    using assms(3) by (cases "last_attempt s") simp
  then show ?thesis
    using assms(1,2)
    by (simp add: completeProviderCallAttempt_def active_index settle_def update_last last_conv_nth
      Let_def)
qed

lemma settle_at_last:
  assumes "at_last st' lag s"
  shows "at_last st lag (settle st f s)"
  using assms by (simp add: at_last_def)

lemma settle_resting:
  assumes "call_ledger_ok s" "at_last providerCallAttemptCalling 0 s" "xs_prepared s \<noteq> None"
  shows "resting (settle providerCallAttemptFailed (Some ft) s)"
  using assms settle_ledger [of s providerCallAttemptFailed "Some ft"] settle_at_last [OF assms(2)]
  by (simp add: resting_def at_last_def)

section \<open>Handlers keep the invariant\<close>

lemma call_ledger_empty: "xs_providerCallAttempts s = [] \<Longrightarrow> call_ledger_ok s"
  by (simp add: call_ledger_ok_def dispatch_ok_def)

lemma unstarted_failed: "unstarted s \<Longrightarrow> exchange_inv (s\<lparr>xs_phase := failedPhase e t\<rparr>) None"
  by (simp add: exchange_inv_def unstarted_def call_ledger_empty)

lemma unstarted_fail_exchange:
  "fail_exchange s e t = (s', cmd) \<Longrightarrow> unstarted s \<Longrightarrow> exchange_inv s' cmd"
  using unstarted_failed by (auto simp: fail_exchange_def)

lemma planAndPrepare_inv:
  assumes "planAndPrepare sv s = Inr (s', cmd)" "unstarted s" "xs_draft s \<noteq> None"
  shows "exchange_inv s' cmd"
proof (cases "applyRoutePlan sv s")
  case (Inl e)
  then show ?thesis
    using assms unstarted_fail_exchange by (auto simp: planAndPrepare_def)
next
  case (Inr s1)
  then have "unstarted s1" "xs_draft s1 \<noteq> None"
    using assms(2,3) by (auto simp: applyRoutePlan_def early_return unstarted_def)
  then show ?thesis
    using assms(1) Inr
    by (auto simp: planAndPrepare_def beginMCPPreparation_def exchange_inv_def unstarted_def
        call_ledger_empty)
qed

lemma beginNewExchange_inv:
  assumes "beginNewExchange sv s = Inr (s', cmd)" "unstarted s"
  shows "exchange_inv s' cmd"
  using assms planAndPrepare_inv unstarted_fail_exchange [OF _ assms(2)]
  by (cases "sv_PrepareBegin sv (in_request (xs_input s))")
    (auto simp: beginNewExchange_def unstarted_def elim!: planAndPrepare_inv)

lemma reduceStarting_inv:
  assumes "reduceStarting sv s event = Inr (s', cmd)" "unstarted s"
  shows "exchange_inv s' cmd"
proof -
  have new: "exchange_inv s' cmd"
    if "beginNewExchange sv (s\<lparr>xs_executionAffinity := k\<rparr>) = Inr (s', cmd)" for k
    using beginNewExchange_inv [OF that] assms(2) by (simp add: unstarted_def)
  show ?thesis
    using assms new unstarted_fail_exchange [OF _ assms(2)]
    by (auto simp: reduceStarting_def Let_def early_return exchange_inv_def unstarted_def
        call_ledger_empty split: exchangeEvent.splits sum.splits option.splits if_splits)
qed

lemma reduceLoadingCheckpoint_inv:
  assumes "reduceLoadingCheckpoint sv s explicit key event = Inr (s', cmd)" "unstarted s"
  shows "exchange_inv s' cmd"
proof -
  obtain rec found err where e: "event = checkpointLoaded rec found err"
    using assms(1) by (auto simp: reduceLoadingCheckpoint_def split: exchangeEvent.splits)
  show ?thesis
  proof (cases "err \<noteq> None \<or> explicit \<and> \<not> found")
    case True
    then show ?thesis
      using assms(1) e unstarted_fail_exchange [OF _ assms(2)]
      by (auto simp: reduceLoadingCheckpoint_def split: option.splits if_splits)
  next
    case False
    then obtain s1 d where p: "prepareLoaded sv s explicit key rec found = Inr (s1, d)"
      using assms(1) e by (auto simp: reduceLoadingCheckpoint_def early_return split: if_splits)
    then have u: "unstarted s1"
      using assms(2)
      by (auto simp: prepareLoaded_def Let_def early_return unstarted_def split: if_splits)
    show ?thesis
    proof (cases d)
      case (Inl x)
      then show ?thesis
        using assms(1) e False p unstarted_fail_exchange [OF _ u]
        by (auto simp: reduceLoadingCheckpoint_def)
    next
      case (Inr draft)
      then show ?thesis
        using assms(1) e False p u
        by (auto simp: reduceLoadingCheckpoint_def Let_def unstarted_def split: if_splits
            elim!: planAndPrepare_inv)
    qed
  qed
qed

lemma reducePreparingMCP_inv:
  assumes "reducePreparingMCP sv ex s event = Inr (s', cmd)" "unstarted s"
  shows "exchange_inv s' cmd"
proof -
  have adv: "exchange_inv s' cmd"
    if "advanceProviderExecution sv ex (s\<lparr>xs_draft := None, xs_prepared := Some n,
      xs_reusablePrefix := p, xs_mcp := r, xs_effectiveChanges := c\<rparr>) = Inr (s', cmd)" for n p r c
    using advanceProviderExecution_inv [OF _ that] assms(2)
    by (simp add: resting_def unstarted_def call_ledger_empty)
  obtain full run ch err where e: "event = mcpPrepared full run ch err"
    using assms(1) by (auto simp: reducePreparingMCP_def split: exchangeEvent.splits)
  show ?thesis
  proof (cases err)
    case None
    then obtain draft where d: "xs_draft s = Some draft"
      using assms(1) e by (auto simp: reducePreparingMCP_def early_return)
    show ?thesis
      using assms(1) e None d adv unstarted_fail_exchange [OF _ assms(2)]
      by (cases "sv_draft_Finalize sv draft full") (auto simp: reducePreparingMCP_def)
  next
    case (Some x)
    then show ?thesis
      using assms(1) e unstarted_fail_exchange [OF _ assms(2)]
      by (auto simp: reducePreparingMCP_def)
  qed
qed

text \<open>A settled exchange that ends.\<close>

lemma fail_exchange_inv:
  assumes "fail_exchange s e t = (s', cmd)" "call_ledger_ok s"
    and "list_all attempt_terminal (xs_providerCallAttempts s)"
  shows "exchange_inv s' cmd"
  using assms by (intro ended_inv [of s]) (auto simp: fail_exchange_def ended_def)

lemma admitted_settled:
  "targetFactCharacterizationAdmitted (a\<lparr>at_status := st, at_failure := f\<rparr>) ft =
     targetFactCharacterizationAdmitted a ft"
  by (simp add: targetFactCharacterizationAdmitted_def providerRecoveryPermitted_def)

lemma reduceCallFailed_inv:
  assumes "call_ledger_ok s" "at_last providerCallAttemptCalling 0 s" "xs_prepared s \<noteq> None"
    and "at_target (last_attempt s) = bk_Target (pc_backend call)"
    and "reduceCallFailed sv ex s (int (length (xs_providerCallAttempts s))) call
      (last_attempt s) failure = Inr (s', cmd)"
  shows "exchange_inv s' cmd"
proof -
  have ne: "xs_providerCallAttempts s \<noteq> []"
    "at_status (last_attempt s) = providerCallAttemptCalling"
    using assms(2) by (simp_all add: at_last_def)
  obtain ft where ft: "AsAttemptFailure failure = Some ft"
    using assms(5) by (auto simp: reduceCallFailed_def failProviderCallAttempt_active [OF ne]
        early_return)
  define s1 where "s1 = settle providerCallAttemptFailed (Some ft) s"
  have r: "resting s1" unfolding s1_def using assms(1-3) by (rule settle_resting)
  have red: "reduceCallFailed sv ex s (int (length (xs_providerCallAttempts s))) call
      (last_attempt s) failure =
    (if targetFactCharacterizationAdmitted (last_attempt s) ft
     then Inr (s1\<lparr>xs_phase := resolvingTargetFactsPhase
         (int (length (xs_providerCallAttempts s))) (pc_backend call)\<rparr>,
       Some (characterizeTargetFactsCommand (int (length (xs_providerCallAttempts s)))
         (bk_Target (pc_backend call)) (at_targetGeneration (last_attempt s))
         (sortedTargetFacts (at_factReads (last_attempt s))) (pc_backend call)))
     else advanceProviderExecution sv ex s1)"
    by (simp add: reduceCallFailed_def failProviderCallAttempt_active [OF ne] ft s1_def)
  show ?thesis
  proof (cases "targetFactCharacterizationAdmitted (last_attempt s) ft")
    case True
    have "at_last providerCallAttemptFailed 0 s1" "xs_prepared s1 \<noteq> None" "call_ledger_ok s1"
      using settle_at_last [OF assms(2)] assms(3) r by (simp_all add: s1_def resting_def)
    then show ?thesis
      using assms(4,5) ne call_ledger_ok_cong [of s' s1] unfolding red
      by (auto simp: True exchange_inv_def at_last_def s1_def current_round_def
          characterizable_def admitted_settled)
  next
    case False
    then show ?thesis using assms(5) advanceProviderExecution_inv [OF r] by (simp add: red)
  qed
qed

lemma call_ledger_frame:
  assumes "xs_input s' = xs_input s" "xs_route s' = xs_route s"
    "xs_targetBackoff s' = xs_targetBackoff s"
    "xs_providerCallAttempts s' = xs_providerCallAttempts s"
  shows "call_ledger_ok s' = call_ledger_ok s"
proof -
  have "attempt_ok s' = attempt_ok s"
    by (intro ext) (simp add: attempt_ok_def planned_target_def eligible_def assms)
  then show ?thesis by (simp add: call_ledger_ok_def assms)
qed

lemma call_ledger_updates [simp]:
  "call_ledger_ok (s\<lparr>xs_providerUsage := u\<rparr>) = call_ledger_ok s"
  "call_ledger_ok (s\<lparr>xs_effectiveChanges := c\<rparr>) = call_ledger_ok s"
  "call_ledger_ok (s\<lparr>xs_prepared := r\<rparr>) = call_ledger_ok s"
  "call_ledger_ok (s\<lparr>xs_mediaFetchCache := m\<rparr>) = call_ledger_ok s"
  "call_ledger_ok (s\<lparr>xs_phase := p\<rparr>) = call_ledger_ok s"
  by (rule call_ledger_frame; simp)+

lemma at_last_terminal:
  assumes "call_ledger_ok s" "at_last st lag s" "st \<noteq> providerCallAttemptCalling"
  shows "list_all attempt_terminal (xs_providerCallAttempts s)"
  using assms by (intro terminal_last) (cases st; auto simp: at_last_def attempt_terminal_def)+

lemma beginMCPBatch_inv:
  assumes "beginMCPBatch s m = Inr (s', cmd)" "call_ledger_ok s"
    and "at_last providerCallAttemptHandoffReady 1 s" "xs_prepared s \<noteq> None"
    and "mcp_ok s (m\<lparr>mp_calls := [mp_client m]\<rparr>)" "mp_next m = 0"
  shows "exchange_inv s' cmd"
  using assms
  by (auto simp: beginMCPBatch_def early_return exchange_inv_def at_last_def mcp_ok_def
      current_round_def)

lemma beginMCPCall_inv:
  assumes "beginMCPCall s m = Inr (s', cmd)" "call_ledger_ok s"
    and "at_last providerCallAttemptHandoffReady 1 s" "xs_prepared s \<noteq> None" "mcp_ok s m"
  shows "exchange_inv s' cmd"
  using assms
  by (auto simp: beginMCPCall_def early_return exchange_inv_def at_last_def mcp_ok_def
      current_round_def)

lemma may_have_executed [simp]: "fst (AttemptMayHaveExecuted e) = ExecutionMayHaveOccurred"
  by (simp add: AttemptMayHaveExecuted_def)

lemma reduceIngress_inv:
  assumes "call_ledger_ok s" "at_last providerCallAttemptCalling 0 s" "xs_prepared s \<noteq> None"
    and "reduceIngress sv ex s (int (length (xs_providerCallAttempts s))) call
      (last_attempt s) ingress = Inr (s', cmd)"
  shows "exchange_inv s' cmd"
proof -
  have ne: "xs_providerCallAttempts s \<noteq> []"
    "at_status (last_attempt s) = providerCallAttemptCalling"
    using assms(2) by (simp_all add: at_last_def)
  then have none: "at_failure (last_attempt s) = None"
    using ledger_last(1) [OF assms(1) ne(1)]
    by (cases "at_failure (last_attempt s)") (auto simp: attempt_ok_def)
  obtain result initial progressive where comp:
    "sv_completeProviderCall sv call ingress (xs_swobuResponseID s) = (result, initial, progressive)"
    by (metis prod_cases3)
  note red = assms(4) [unfolded reduceIngress_def comp
      completeProviderCallAttempt_active [OF ne none], simplified]
  define s1 where "s1 = settle providerCallAttemptHandoffReady None s"
  have l1: "call_ledger_ok s1" unfolding s1_def using settle_ledger [OF assms(1) ne(1)] by simp
  have r1: "at_last providerCallAttemptHandoffReady 0 s1"
    unfolding s1_def by (rule settle_at_last [OF assms(2)])
  have t1: "at_target (last_attempt s1) = at_target (last_attempt s)"
    "at_candidateIndex (last_attempt s1) = at_candidateIndex (last_attempt s)"
    "xs_prepared s1 \<noteq> None" using assms(3) by (simp_all add: s1_def)
  have fails: "exchange_inv s' cmd"
    if "fail_exchange (s1\<lparr>xs_effectiveChanges := c\<rparr>) e t = (s', cmd)" for c e t
    using fail_exchange_inv [OF that] l1 at_last_terminal [OF l1 r1] by simp
  show ?thesis
  proof (cases result)
    case (Inl e)
    show ?thesis
      using red advanceProviderExecution_inv [OF settle_resting [OF assms(1-3)]]
      by (simp add: Inl failProviderCallAttempt_active [OF ne])
  next
    case (Inr completion)
    show ?thesis
    proof (cases completion)
      case (handedOff response)
      then show ?thesis
        using red Inr l1 r1 t1
        by (auto simp: exchange_inv_def s1_def [symmetric] at_last_def current_round_def)
    next
      case (delayed client continuation)
      define s2 where "s2 = s1\<lparr>xs_effectiveChanges := xs_effectiveChanges s1 @
        at_requestChanges (last_attempt s) @ initial @ progressive\<rparr>"
      have s2: "call_ledger_ok s2" "at_last providerCallAttemptHandoffReady 0 s2"
        "xs_prepared s2 \<noteq> None" "last_attempt s2 = last_attempt s1"
        using l1 r1 t1 by (simp_all add: s2_def at_last_def current_round_def)
      have fail2: "exchange_inv s' cmd" if "fail_exchange s2 e t = (s', cmd)" for e t
        using fails that by (simp add: s2_def)
      define rounds where "rounds = xs_providerUsage s2 @ [sv_Usage sv client]"
      define m where "m = \<lparr>mp_selection = \<lparr>sel_candidateIndex = at_candidateIndex (last_attempt s),
          sel_requestChoice = providerRequestPreferred\<rparr>, mp_target = at_target (last_attempt s),
        mp_client = client, mp_continuation = continuation, mp_calls = [], mp_results = [],
        mp_next = 0\<rparr>"
      have red2: "(case sv_mcp_Calls sv (xs_mcp s2) client of
          Inl e \<Rightarrow> Inr (fail_exchange s2 e (at_target (last_attempt s)))
        | Inr calls \<Rightarrow>
            if calls \<noteq> [] then
              beginMCPBatch (s2\<lparr>xs_providerUsage := rounds\<rparr>) (m\<lparr>mp_calls := calls\<rparr>)
            else (case sv_handoffCompleted sv call (sv_WithSumOfUsage sv rounds client)
                (sv_WithSumOfUsage sv rounds continuation) of
              Inl e \<Rightarrow> Inr (fail_exchange s2 e (at_target (last_attempt s)))
            | Inr response \<Rightarrow> Inr (s2\<lparr>xs_phase := completedPhase
                (sv_ConfigureCompatibility sv (xs_effectiveChanges s2) response)
                (at_target (last_attempt s))\<rparr>, None))) = Inr (s', cmd)"
        using red unfolding Inr delayed
        by (cases "sv_mcp_Calls sv (xs_mcp s) client")
          (auto simp: Let_def s1_def s2_def m_def rounds_def split: sum.splits if_splits)
      show ?thesis
      proof (cases "sv_mcp_Calls sv (xs_mcp s2) client")
        case (Inl e)
        then show ?thesis using red2 fail2 by simp
      next
        case (Inr calls)
        show ?thesis
        proof (cases "calls = []")
          case True
          then show ?thesis
            using red2 Inr fail2 s2 t1
            by (cases "sv_handoffCompleted sv call (sv_WithSumOfUsage sv rounds client)
                (sv_WithSumOfUsage sv rounds continuation)")
              (auto simp: exchange_inv_def at_last_def current_round_def)
        next
          case False
          then show ?thesis
            using red2 Inr s2 t1
            by (intro beginMCPBatch_inv [of "s2\<lparr>xs_providerUsage := rounds\<rparr>"
                  "m\<lparr>mp_calls := calls\<rparr>"])
              (auto simp: at_last_def mcp_ok_def current_round_def m_def rounds_def)
        qed
      qed
    qed
  qed
qed

lemma reduceCallingProvider_inv:
  assumes "exchange_inv s cmd0" "xs_phase s = callingProviderPhase attemptID call"
    and "reduceCallingProvider sv ex s attemptID call event = Inr (s', cmd)"
  shows "exchange_inv s' cmd"
proof -
  have i: "call_ledger_ok s" "at_last providerCallAttemptCalling 0 s" "xs_prepared s \<noteq> None"
    "attemptID = int (length (xs_providerCallAttempts s))"
    "at_target (last_attempt s) = bk_Target (pc_backend call)"
    using assms(1,2) by (simp_all add: exchange_inv_def)
  have "findProviderCallAttempt s attemptID = Some (last_attempt s)"
    using i(2,4) active_index(2) [of s] by (simp add: at_last_def)
  then show ?thesis
    using assms(3) i reduceCallFailed_inv [OF i(1-3,5)] reduceIngress_inv [OF i(1-3)]
    by (auto simp: reduceCallingProvider_def split: exchangeEvent.splits if_splits)
qed

lemma reduceResolvingTargetFacts_cases:
  assumes "exchange_inv s cmd0" "xs_phase s = resolvingTargetFactsPhase attemptID backend"
    and "reduceResolvingTargetFacts sv ex s attemptID event = Inr ((s', cmd), ex')"
  shows "resting s \<and>
    ((\<exists>ex1. advanceProviderExecution sv ex1 s = Inr (s', cmd)) \<or>
     (\<exists>ex1 sel. admissible s sel \<and> advanceProviderExecutionFrom sv ex1 s sel = Inr (s', cmd)))"
proof -
  have i: "call_ledger_ok s" "at_last providerCallAttemptFailed 0 s" "xs_prepared s \<noteq> None"
    "attemptID = int (length (xs_providerCallAttempts s))" "characterizable (last_attempt s)"
    using assms(1,2) by (simp_all add: exchange_inv_def)
  then have r: "resting s" by (simp add: resting_def)
  obtain x cause where ft: "at_failure (last_attempt s) = Some (x, cause)" "has_err is_rejected cause"
    "\<not> at_providerRound (last_attempt s) > 0"
    using i(5) by (auto simp: characterizable_def targetFactCharacterizationAdmitted_def
        providerRecoveryPermitted_def split: option.splits)
  moreover have "0 \<le> at_providerRound (last_attempt s)"
    using ledger_last(1) [OF i(1)] i(2) by (simp add: attempt_ok_def at_last_def)
  ultimately have zero: "at_providerRound (last_attempt s) = 0" by simp
  have f: "findProviderCallAttempt s attemptID = Some (last_attempt s)"
    using i(2,4) active_index(2) [of s] by (simp add: at_last_def)
  obtain gen res where e: "event = targetFactsCharacterized attemptID gen res"
    using assms(3)
    by (auto simp: reduceResolvingTargetFacts_def split: exchangeEvent.splits if_splits)
  have round: "at_providerRound (last_attempt s) = current_round s" using i(2) by (simp add: at_last_def)
  define sel where "sel = \<lparr>sel_candidateIndex = at_candidateIndex (last_attempt s),
    sel_requestChoice = providerRequestReprojected\<rparr>"
  define ex1 where "ex1 = observe_resolutions gen res ex"
  have "advanceProviderExecution sv ex1 s = Inr (s', cmd) \<or>
      dispatches s (at_candidateIndex (last_attempt s)) < 2 \<and>
      advanceProviderExecutionFrom sv ex1 s sel = Inr (s', cmd)"
    using assms(3) f e round
    by (auto simp: reduceResolvingTargetFacts_def Let_def early_return sel_def ex1_def
        split: if_splits)
  then show ?thesis
    using r admissible_retry [OF i(1,2), of sel x cause] ft zero by (auto simp: sel_def)
qed

lemma reduceResolvingTargetFacts_inv:
  assumes "exchange_inv s cmd0" "xs_phase s = resolvingTargetFactsPhase attemptID backend"
    and "reduceResolvingTargetFacts sv ex s attemptID event = Inr ((s', cmd), ex')"
  shows "exchange_inv s' cmd"
proof -
  have r: "resting s" using reduceResolvingTargetFacts_cases [OF assms] by blast
  then have l: "call_ledger_ok s" "xs_prepared s \<noteq> None" by (simp_all add: resting_def)
  show ?thesis
    using reduceResolvingTargetFacts_cases [OF assms] advanceProviderExecution_inv [OF r]
      advanceProviderExecutionFrom_inv [OF l(1) resting_terminal [OF r] l(2) _
        resting_after_failure [OF r]]
    by blast
qed

text \<open>The next provider round is admissible for the candidate that asked for tools.\<close>

lemma admissible_round:
  assumes "call_ledger_ok s" "at_last providerCallAttemptHandoffReady 1 s" "mcp_ok s m"
  shows "admissible s (mp_selection m)"
proof -
  have ne: "xs_providerCallAttempts s \<noteq> []" using assms(2) by (simp add: at_last_def)
  have "\<forall>a \<in> set (xs_providerCallAttempts s). at_providerRound a < current_round s"
    using ledger_last(2) [OF assms(1) ne] assms(2)
    by (auto simp: list_all_iff follows_def at_last_def)
  then show ?thesis
    using ledger_last(1) [OF assms(1) ne] assms(2,3)
    by (cases "at_failure (last_attempt s)")
      (auto simp: admissible_def mcp_ok_def dispatches_zero list_all_iff follows_def
        attempt_ok_def succeeds_last_def succeeds_def at_last_def)
qed

lemma admissible_frame:
  assumes "xs_input s' = xs_input s" "xs_route s' = xs_route s"
    "xs_targetBackoff s' = xs_targetBackoff s" "xs_providerUsage s' = xs_providerUsage s"
    "xs_providerCallAttempts s' = xs_providerCallAttempts s"
  shows "admissible s' sel = admissible s sel"
  by (simp add: admissible_def succeeds_last_def eligible_def current_round_def assms)

lemma reduceCallingMCP_inv:
  assumes "exchange_inv s cmd0" "xs_phase s = callingMCPPhase m"
    and "reduceCallingMCP sv ex s m event = Inr (s', cmd)"
  shows "exchange_inv s' cmd"
proof -
  have i: "call_ledger_ok s" "at_last providerCallAttemptHandoffReady 1 s" "xs_prepared s \<noteq> None"
    "mcp_ok s m"
    using assms(1,2) by (simp_all add: exchange_inv_def)
  have t: "list_all attempt_terminal (xs_providerCallAttempts s)"
    using at_last_terminal [OF i(1,2)] by simp
  have fails: "exchange_inv s' cmd" if "fail_exchange s e x = (s', cmd)" for e x
    using fail_exchange_inv [OF that i(1) t] .
  consider err where "event = mcpBatchStarted err" | r err where "event = mcpToolReturned r err"
    using assms(3) by (auto simp: reduceCallingMCP_def split: exchangeEvent.splits)
  then show ?thesis
  proof cases
    case (1 err)
    then show ?thesis
      using assms(3) fails beginMCPCall_inv [OF _ i]
      by (cases err) (auto simp: reduceCallingMCP_def)
  next
    case (2 r err)
    define m1 where "m1 = m\<lparr>mp_results := mp_results m @ [r], mp_next := mp_next m + 1\<rparr>"
    show ?thesis
    proof (cases "err = None \<and> mp_next m1 \<ge> int (length (mp_calls m1))")
      case False
      then show ?thesis
        using assms(3) 2 fails i beginMCPCall_inv [OF _ i(1-3), of m1]
        by (cases err) (auto simp: reduceCallingMCP_def Let_def m1_def mcp_ok_def)
    next
      case True
      obtain p where p: "xs_prepared s = Some p" using i(3) by blast
      show ?thesis
      proof (cases "sv_ContinueAfterLocalResult sv p (mp_continuation m1) (mp_results m1)")
        case (Inl e)
        then show ?thesis
          using assms(3) 2 True p fails by (auto simp: reduceCallingMCP_def Let_def m1_def)
      next
        case (Inr n)
        define s1 where "s1 = s\<lparr>xs_prepared := Some n\<rparr>"
        obtain result tg ch cache where call:
          "prepareProviderCall sv ex s1 (mp_selection m) = (result, tg, ch, cache)"
          by (metis prod_cases4)
        define s2 where "s2 = s1\<lparr>xs_mediaFetchCache := cache\<rparr>"
        have s2: "call_ledger_ok s2" "xs_prepared s2 \<noteq> None" "admissible s2 (mp_selection m)"
          "list_all attempt_terminal (xs_providerCallAttempts s2)"
          using i(1) t admissible_round [OF i(1,2,4)] admissible_frame [of s2 s]
          by (simp_all add: s2_def s1_def)
        have red: "(case result of Inl e \<Rightarrow> if is_panic e then Inl e else Inr (fail_exchange s2 e tg)
            | Inr c \<Rightarrow> beginProviderCallAttempt s2 (mp_selection m) c ch) = Inr (s', cmd)"
          using assms(3) 2 True p Inr call
          by (cases result)
            (simp_all add: reduceCallingMCP_def Let_def m1_def s1_def s2_def split: if_splits)
        have c: "control s2 = control s1" by (simp add: s2_def)
        show ?thesis
        proof (cases result)
          case (Inl e)
          then show ?thesis
            using red fail_exchange_inv [OF _ s2(1,4)] by (simp split: if_splits)
        next
          case (Inr c')
          have "dispatched s2 (mp_selection m) s' cmd"
            using prepareProviderCall_Inr [OF call [unfolded Inr]] red Inr
            by (intro beginProviderCallAttempt_dispatched [of s2 _ c' ch])
              (simp_all add: control_cong(4,7) [OF c])
          then show ?thesis using dispatched_inv [OF s2(1,4,2,3)] by blast
        qed
      qed
    qed
  qed
qed

lemma keep_exceptions_Inr [simp]:
  "keep_exceptions ex r = Inr (outcome, ex') \<longleftrightarrow> r = Inr outcome \<and> ex' = ex"
  by (cases r) (auto simp: keep_exceptions_def)

definition fresh_state :: "'p exchangeState \<Rightarrow> bool" where
  "fresh_state s \<longleftrightarrow> xs_phase s = startingPhase \<and> unstarted s"

lemma reduce_fresh:
  assumes "fresh_state s" "reduce sv ex s event = Inr ((s', cmd), ex')"
  shows "exchange_inv s' cmd"
  using assms reduceStarting_inv by (auto simp: reduce_def fresh_state_def)

lemma reduce_inv:
  assumes "exchange_inv s cmd0" "reduce sv ex s event = Inr ((s', cmd), ex')"
  shows "exchange_inv s' cmd"
proof (cases "xs_phase s")
  case startingPhase
  then show ?thesis using assms(1) by (simp add: exchange_inv_def)
next
  case (loadingCheckpointPhase x y)
  then have "unstarted s" using assms(1) by (simp add: exchange_inv_def)
  then show ?thesis
    using assms(2) loadingCheckpointPhase reduceLoadingCheckpoint_inv by (auto simp: reduce_def)
next
  case preparingMCPPhase
  then have "unstarted s" using assms(1) by (simp add: exchange_inv_def)
  then show ?thesis
    using assms(2) preparingMCPPhase reducePreparingMCP_inv by (auto simp: reduce_def)
next
  case (callingProviderPhase x y)
  then show ?thesis using assms reduceCallingProvider_inv [OF assms(1)] by (auto simp: reduce_def)
next
  case (resolvingTargetFactsPhase x y)
  then show ?thesis
    using assms reduceResolvingTargetFacts_inv [OF assms(1)] by (auto simp: reduce_def)
next
  case (callingMCPPhase x)
  then show ?thesis using assms reduceCallingMCP_inv [OF assms(1)] by (auto simp: reduce_def)
qed (use assms(2) in \<open>simp_all add: reduce_def\<close>)

end
