(* ===== verification/Exchange_Loop.thy ===== *)
theory Exchange_Loop
  imports Exchange_Safety
begin

text \<open>
  The driver of one exchange (\<^verbatim>\<open>src/internal/exchange/exchange_loop.go\<close>): executing commands,
  the loop over \<open>reduce\<close> and the terminal output.

  What happens outside the exchange is an argument. A \<open>moment\<close> of the environment holds the
  services and the I/O of one turn of the loop, the readings of the clock, and what
  concurrent exchanges do to the shared backoff ledger and the shared target exceptions
  between the accesses of this exchange. Logging and in-flight traffic evidence are left out:
  they return nothing to the loop.
\<close>

section \<open>Commands\<close>

record 'p io =
  io_Get :: "string \<Rightarrow> 'p \<Rightarrow> 'p \<times> bool \<times> go_error option"
  io_FindByHistory :: "string \<Rightarrow> 'p \<Rightarrow> 'p \<times> bool \<times> go_error option"
  io_Open :: "'p \<Rightarrow> 'p \<Rightarrow> 'p \<times> 'p option \<times> Change list \<times> go_error option"
  io_Send :: "'p Backend \<Rightarrow> 'p \<Rightarrow> go_error + 'p"
  io_CharacterizeTargetFact :: "'p Backend \<Rightarrow> TargetFact \<Rightarrow> bool option"
    \<comment> \<open>\<open>None\<close> when the resolution is not conclusive\<close>
  io_Call :: "'p option \<Rightarrow> 'p \<Rightarrow> 'p \<times> go_error option"
  io_BeginBatch :: "'p option \<Rightarrow> 'p list \<Rightarrow> go_error option"

definition characterize ::
    "(TargetFact \<Rightarrow> bool option) \<Rightarrow> TargetFact list \<Rightarrow> FactReads" where
  "characterize resolve facts =
     fold (\<lambda>f resolutions. case resolve f of
         None \<Rightarrow> resolutions | Some value \<Rightarrow> AList.update f value resolutions) facts []"

text \<open>A transport error without attempt facts is a panic.\<close>

definition executeCommand :: "'p io \<Rightarrow> 'p command \<Rightarrow> go_error + 'p exchangeEvent" where
  "executeCommand io cmd =
     (case cmd of
        loadCheckpointCommand workspaceSlug explicit key \<Rightarrow>
          (let (record', found, err) =
             (if explicit then io_Get io workspaceSlug key else io_FindByHistory io workspaceSlug key)
           in Inr (checkpointLoaded record' found err))
      | prepareMCPCommand full access \<Rightarrow>
          (let (full', run, changes, err) = io_Open io full access
           in Inr (mcpPrepared full' run changes err))
      | callProviderCommand attemptID backend document \<Rightarrow>
          (case io_Send io backend document of
             Inl err \<Rightarrow>
               (case AsAttemptFailure err of
                  None \<Rightarrow> Inl (Panicked ''bound provider transport returned no attempt facts'')
                | Some failure \<Rightarrow> Inr (providerCallFailed attemptID (attempt_error failure)))
           | Inr ingress \<Rightarrow> Inr (providerIngressReceived attemptID ingress))
      | characterizeTargetFactsCommand attemptID target generation facts backend \<Rightarrow>
          Inr (targetFactsCharacterized attemptID generation
            (characterize (io_CharacterizeTargetFact io backend) facts))
      | callMCPCommand run call \<Rightarrow>
          (let (result, err) = io_Call io run call in Inr (mcpToolReturned result err))
      | beginMCPBatchCommand run calls \<Rightarrow> Inr (mcpBatchStarted (io_BeginBatch io run calls)))"

section \<open>Terminal output\<close>

record terminalRoutingEvidence =
  ev_providerCallCount :: nat
  ev_fallbackRecovered :: bool
  ev_possibleDuplicateExecution :: bool

definition attempt_may_have_executed :: "providerCallAttempt \<Rightarrow> bool" where
  "attempt_may_have_executed a =
     (case at_failure a of None \<Rightarrow> False | Some (execution, _) \<Rightarrow>
        execution = ExecutionMayHaveOccurred)"

definition summarizeRoutingEvidence ::
    "providerCallAttempt list \<Rightarrow> int \<Rightarrow> bool \<Rightarrow> terminalRoutingEvidence" where
  "summarizeRoutingEvidence attempts candidateCount completed =
     \<lparr>ev_providerCallCount = length attempts,
      ev_fallbackRecovered = (completed \<and> candidateCount > 1),
      ev_possibleDuplicateExecution = list_ex attempt_may_have_executed (butlast attempts)\<rparr>"

record 'p TrafficEvidenceInput =
  te_input :: "'p exchangeInput"
  te_routeName :: string
  te_target :: TargetSnapshot
  te_response :: "'p option"
  te_routing :: terminalRoutingEvidence
  te_reusablePrefix :: 'p

text \<open>\<open>Compatibility\<close>, the completion that the response itself carries, is left out.\<close>

record 'p RequestOutput =
  ro_Response :: "'p option"
  ro_Target :: TargetSnapshot
  ro_TrafficEvidence :: "'p TrafficEvidenceInput option"
  ro_AttemptCount :: nat

definition emptyOutput :: "'p RequestOutput" where
  "emptyOutput = \<lparr>ro_Response = None, ro_Target = zeroSnapshot, ro_TrafficEvidence = None,
     ro_AttemptCount = 0\<rparr>"

definition terminalRequestOutput ::
    "'p exchangeInput \<Rightarrow> 'p option \<Rightarrow> TargetSnapshot \<Rightarrow> string \<Rightarrow> terminalRoutingEvidence \<Rightarrow> 'p \<Rightarrow>
     'p RequestOutput" where
  "terminalRequestOutput input response target routeName routing reusablePrefix =
     \<lparr>ro_Response = response, ro_Target = target,
      ro_TrafficEvidence =
        (if ts_TargetID target \<noteq> [] then
           Some \<lparr>te_input = input, te_routeName = routeName, te_target = target,
             te_response = response, te_routing = routing, te_reusablePrefix = reusablePrefix\<rparr>
         else None),
      ro_AttemptCount = ev_providerCallCount routing\<rparr>"

definition terminalReusablePrefix :: "'p \<Rightarrow> 'p exchangeState \<Rightarrow> 'p" where
  "terminalReusablePrefix native s =
     (if xs_providerCallAttempts s \<noteq> [] \<and>
         at_nativePreviousResponse (last (xs_providerCallAttempts s))
      then native else xs_reusablePrefix s)"

section \<open>Log classification\<close>

datatype log_level = LevelDebug | LevelWarn | LevelError

fun is_invalid_request :: "go_error \<Rightarrow> bool" where
  "is_invalid_request (InvalidRequestError _) \<longleftrightarrow> True" | "is_invalid_request _ \<longleftrightarrow> False"

fun is_cancelled :: "go_error \<Rightarrow> bool" where
  "is_cancelled (CancelledError _) \<longleftrightarrow> True" | "is_cancelled _ \<longleftrightarrow> False"

definition providerFailureLogClassification :: "go_error option \<Rightarrow> string \<times> log_level" where
  "providerFailureLogClassification err =
     (case NormalizeFailure err of
        None \<Rightarrow> (''internal'', LevelError)
      | Some e \<Rightarrow>
          if has_err is_unavailable e then (''unavailable'', LevelWarn)
          else if has_err is_rejected e then (''rejected'', LevelWarn)
          else if has_err is_invalid_request e then (''invalid_request'', LevelWarn)
          else if has_err is_cancelled e then (''canceled'', LevelDebug)
          else (''internal'', LevelError))"

fun executionValue :: "ExecutionPossibility \<Rightarrow> string" where
  "executionValue ExecutionNotDispatched = ''not_dispatched''"
| "executionValue ExecutionRejectedBeforeExecution = ''rejected_before_execution''"
| "executionValue ExecutionMayHaveOccurred = ''may_have_occurred''"
| "executionValue ExecutionInvalid = ''unknown''"

section \<open>The loop\<close>

record 'p moment =
  mo_services :: "'p services"
  mo_io :: "'p io"
  mo_begin :: int
  mo_observe :: int
  mo_parse_time :: "string \<Rightarrow> int option"
  mo_exceptions :: "targetExceptions \<Rightarrow> targetExceptions"
  mo_before :: "targetBackoffLedger \<Rightarrow> targetBackoffLedger"
  mo_during :: "targetObservation \<Rightarrow> targetBackoffLedger \<Rightarrow> targetBackoffLedger"
    \<comment> \<open>while the call of the given observation is under way\<close>
  mo_error_text :: "go_error \<Rightarrow> string" \<comment> \<open>\<open>Error()\<close>\<close>
  mo_NativeReusablePrefix :: 'p

type_synonym shared = "targetBackoffLedger \<times> targetExceptions"

text \<open>
  A panic, or the output with its error; in either case the MCP run that the deferred call
  closes, and the shared state.
\<close>

type_synonym 'p run_result =
  "(go_error + 'p RequestOutput \<times> go_error option) \<times> 'p option \<times> shared"

definition call_report :: "'p exchangeEvent \<Rightarrow> call_event" where
  "call_report event =
     (case event of
        providerIngressReceived _ _ \<Rightarrow> IngressReceived
      | providerCallFailed _ failure \<Rightarrow>
          (case AsAttemptFailure failure of Some (_, cause) \<Rightarrow> CallFailed cause
           | None \<Rightarrow> OtherEvent)
      | _ \<Rightarrow> OtherEvent)"

definition observation_key :: "'p exchangeInput \<Rightarrow> 'p Backend \<Rightarrow> targetBackoffKey" where
  "observation_key input backend =
     \<lparr>bk_workspace = ws_slug (in_workspace input), bk_targetID = ts_TargetID (bk_Target backend),
      bk_targetVersion = ts_TargetVersion (bk_Target backend)\<rparr>"

text \<open>A provider call is bracketed by the begin and the observation of the backoff ledger.\<close>

definition performCommand ::
    "'p moment \<Rightarrow> 'p exchangeInput \<Rightarrow> 'p command \<Rightarrow> targetBackoffLedger \<Rightarrow>
     (go_error + 'p exchangeEvent) \<times> targetBackoffLedger" where
  "performCommand m input cmd ledger =
     (case cmd of
        callProviderCommand attemptID backend document \<Rightarrow>
          (let (ob, ledger) = begin_call (mo_begin m) (observation_key input backend)
                 (mo_before m ledger);
               ledger = mo_during m ob ledger
           in case executeCommand (mo_io m) cmd of
                Inl e \<Rightarrow> (Inl e, ledger)
              | Inr event \<Rightarrow> (Inr event,
                  observe (mo_parse_time m) (mo_observe m) ob (call_report event) ledger))
      | _ \<Rightarrow> (executeCommand (mo_io m) cmd, ledger))"

fun runLoop ::
    "nat \<Rightarrow> nat \<Rightarrow> (nat \<Rightarrow> 'p moment) \<Rightarrow> shared \<Rightarrow> 'p exchangeState \<Rightarrow> 'p exchangeEvent \<Rightarrow>
     'p run_result" where
  "runLoop 0 steps env sh s event =
     (Inr (emptyOutput, Some (canonical_Internal ''exchange transition limit reached'')),
      xs_mcp s, sh)"
| "runLoop (Suc fuel) steps env sh s event =
     (let m = env steps; (ledger, ex) = sh
      in case reduce (mo_services m) (mo_exceptions m ex) s event of
           Inl e \<Rightarrow>
             (if is_panic e then Inl e
              else Inr (emptyOutput, Some (canonical_Internal (mo_error_text m e))),
              xs_mcp s, ledger, mo_exceptions m ex)
         | Inr ((s, cmd), ex) \<Rightarrow>
             (case xs_phase s of
                completedPhase response target \<Rightarrow>
                  (Inr (terminalRequestOutput (xs_input s) (Some response) target
                     (rp_name (xs_route s))
                     (summarizeRoutingEvidence (xs_providerCallAttempts s)
                       (xs_evaluatedCandidateCount s) True)
                     (terminalReusablePrefix (mo_NativeReusablePrefix m) s), None),
                   xs_mcp s, ledger, ex)
              | failedPhase problem target \<Rightarrow>
                  (Inr (terminalRequestOutput (xs_input s) None target (rp_name (xs_route s))
                     (summarizeRoutingEvidence (xs_providerCallAttempts s)
                       (xs_evaluatedCandidateCount s) False)
                     (terminalReusablePrefix (mo_NativeReusablePrefix m) s), Some problem),
                   xs_mcp s, ledger, ex)
              | _ \<Rightarrow>
                  (case cmd of
                     None \<Rightarrow> (Inr (emptyOutput, Some (canonical_Internal
                       ''exchange invariant: active phase produced no command'')),
                       xs_mcp s, ledger, ex)
                   | Some c \<Rightarrow>
                       (case performCommand m (xs_input s) c ledger of
                          (Inl e, ledger) \<Rightarrow> (Inl e, xs_mcp s, ledger, ex)
                        | (Inr event, ledger) \<Rightarrow>
                            runLoop fuel (Suc steps) env (ledger, ex) s event))))"

text \<open>The initial state; \<open>zero\<close> is the zero value of every field that holds a plain value.\<close>

definition initial_state ::
    "'p \<Rightarrow> 'p exchangeInput \<Rightarrow> string \<Rightarrow> Change list \<Rightarrow> targetBackoffSnapshot \<Rightarrow> 'p exchangeState" where
  "initial_state zero input responseID ingressChanges backoff =
     \<lparr>xs_input = input, xs_swobuResponseID = responseID, xs_draft = None, xs_prepared = None,
      xs_mediaFetchCache = zero, xs_route = \<lparr>rp_name = [], rp_targets = []\<rparr>,
      xs_providerCallAttempts = [], xs_evaluatedCandidateCount = 0, xs_phase = startingPhase,
      xs_advance = None, xs_storageReuse = zero, xs_executionAffinity = zeroKey, xs_mcp = None,
      xs_providerUsage = [], xs_effectiveChanges = ingressChanges, xs_cacheLocality = [],
      xs_reusablePrefix = zero, xs_previousRequest = None, xs_targetBackoff = backoff\<rparr>"

definition runExchange ::
    "(nat \<Rightarrow> 'p moment) \<Rightarrow> int \<Rightarrow> 'p \<Rightarrow> 'p exchangeInput \<Rightarrow> Change list \<Rightarrow> go_error + string \<Rightarrow>
     shared \<Rightarrow> 'p run_result" where
  "runExchange env now zero input ingressChanges newResponseID sh =
     (case validateCheckpointRuntime (mo_services (env 0)) of
        Inl e \<Rightarrow> (Inr (emptyOutput, Some e), None, sh)
      | Inr _ \<Rightarrow>
          (case ValidateChanges ingressChanges of
             Inl (index, e) \<Rightarrow> (Inr (emptyOutput, Some (CanonicalError ErrorCodeInternal
               (Sprintf ''compatibility change %d: %w'' [e]) None)), None, sh)
           | Inr _ \<Rightarrow>
               (case newResponseID of
                  Inl e \<Rightarrow> (Inr (emptyOutput, Some e), None, sh)
                | Inr responseID \<Rightarrow>
                    let (ledger, ex) = sh;
                        (backoff, ledger) = snapshot now (ws_slug (in_workspace input)) ledger
                    in runLoop 1000 0 env (ledger, ex)
                         (initial_state zero input responseID ingressChanges backoff)
                         exchangeStarted)))"

section \<open>Runs\<close>

text \<open>
  The states an exchange passes through, with the command each waits for. Services, I/O and
  the shared target exceptions may be different at every step.
\<close>

inductive exchange_run :: "'p exchangeState \<Rightarrow> 'p exchangeState \<Rightarrow> 'p command option \<Rightarrow> bool"
  for s0 where
  start: "reduce sv ex s0 exchangeStarted = Inr ((s, cmd), ex') \<Longrightarrow> exchange_run s0 s cmd"
| step: "exchange_run s0 s (Some c) \<Longrightarrow> executeCommand io c = Inr event \<Longrightarrow>
    reduce sv ex s event = Inr ((s', cmd), ex') \<Longrightarrow> exchange_run s0 s' cmd"

lemma initial_fresh: "fresh_state (initial_state zero input rid ch backoff)"
  by (simp add: fresh_state_def initial_state_def unstarted_def)

lemma exchange_run_inv:
  assumes "exchange_run (initial_state zero input rid ch backoff) s cmd"
  shows "exchange_inv s cmd"
  using assms
proof induction
  case (start sv ex s cmd ex')
  show ?case by (rule reduce_fresh [OF initial_fresh start])
next
  case (step s c io event sv ex s' cmd ex')
  show ?case by (rule reduce_inv [OF step.IH step.hyps(3)])
qed

section \<open>Progress\<close>

text \<open>
  What the reducer relies on: reported compatibility changes are valid, as their constructors
  make them, a nil MCP run has no calls, and the services return their errors and do not
  panic.
\<close>

definition services_return :: "'p services \<Rightarrow> bool" where
  "services_return sv \<longleftrightarrow>
     (\<forall>r. no_panic (sv_PreviousSwobuResponseID sv r)) \<and> (\<forall>r. no_panic (sv_PrepareBegin sv r)) \<and>
     (\<forall>r p. no_panic (sv_PrepareResume sv r p)) \<and> (\<forall>t. no_panic (sv_ResolveBackend sv t)) \<and>
     (\<forall>run r. no_panic (sv_mcp_AttemptRequest sv run r)) \<and>
     (\<forall>run c. no_panic (sv_mcp_Calls sv run c)) \<and>
     (\<forall>r i v. no_panic (sv_projectOpaqueReplay sv r i v)) \<and>
     (\<forall>r. no_panic (sv_BuildAttemptToolNames sv r)) \<and>
     (\<forall>b r l c. no_panic (fst (sv_Encode sv b r l c))) \<and>
     (\<forall>run r. no_panic (sv_delayClientHandoffFor sv run r)) \<and>
     (\<forall>c i r. no_panic (fst (sv_completeProviderCall sv c i r))) \<and>
     (\<forall>c r q. no_panic (sv_handoffCompleted sv c r q))"

definition services_ok :: "'p services \<Rightarrow> bool" where
  "services_ok sv \<longleftrightarrow>
     (\<forall>r i v q b ch. sv_projectOpaqueReplay sv r i v = Inr (q, b, ch) \<longrightarrow> list_all change_ok ch) \<and>
     (\<forall>r n ch. sv_BuildAttemptToolNames sv r = Inr (n, ch) \<longrightarrow> list_all change_ok ch) \<and>
     (\<forall>b r l c. list_all change_ok (fst (snd (sv_Encode sv b r l c)))) \<and>
     (\<forall>c. sv_mcp_Calls sv None c = Inr []) \<and> services_return sv"

lemma prepareRequest_changes:
  assumes "services_ok sv" "prepareRequest sv s sel path = Inr (b, c, r, rq, ch)"
  shows "list_all change_ok ch"
  using assms unfolding prepareRequest_def Let_def
  by (auto simp: early_return case_prod_beta services_ok_def)

lemma prepareProviderCall_changes:
  assumes "services_ok sv" "prepareProviderCall sv ex s sel = (Inr call, t, ch, cache)"
  shows "list_all change_ok ch"
proof -
  obtain path where p: "preparePath sv s sel = Inr path"
    using assms(2) by (auto simp: prepareProviderCall_def split: sum.splits)
  obtain b c r rq ch0 where r: "prepareRequest sv s sel path = Inr (b, c, r, rq, ch0)"
    using assms(2) p by (auto simp: prepareProviderCall_def split: sum.splits)
  obtain l res ch1 f c' where e: "sv_Encode sv b rq l (xs_mediaFetchCache s) = (res, ch1, f, c')"
    "ch = ch0 @ ch1"
    using assms(2) p r
    by (auto simp: prepareProviderCall_def Let_def split: sum.splits prod.splits)
  have "list_all change_ok (fst (snd (sv_Encode sv b rq l (xs_mediaFetchCache s))))"
    using assms(1) by (simp add: services_ok_def)
  then show ?thesis using prepareRequest_changes [OF assms(1) r] e by simp
qed

text \<open>
  Preparing a call panics for a planned target that does not project, and on a missing
  resolved request; with neither, it returns.
\<close>

definition plan_projects :: "'p exchangeState \<Rightarrow> bool" where
  "plan_projects s \<longleftrightarrow> list_all projectable (rp_targets (xs_route s))"

lemma plan_projects_cong: "xs_route s' = xs_route s \<Longrightarrow> plan_projects s' = plan_projects s"
  by (simp add: plan_projects_def)

lemma services_okD:
  "services_ok sv \<Longrightarrow> services_return sv" "services_ok sv \<Longrightarrow> sv_mcp_Calls sv None c = Inr []"
  by (simp_all add: services_ok_def)

lemma preparePath_no_panic:
  assumes "plan_projects s"
  shows "no_panic (preparePath sv s sel)"
proof (cases "route_at (xs_route s) (sel_candidateIndex sel)")
  case None
  then show ?thesis by (simp add: preparePath_def invariant_error_def)
next
  case (Some t)
  then have "t \<in> set (rp_targets (xs_route s))" by (auto simp: route_at_def split: if_splits)
  then have "projectable t" using assms by (simp add: plan_projects_def list_all_iff)
  from resolveProviderPath_no_panic [OF this] show ?thesis by (simp add: preparePath_def Some)
qed

lemma validateCheckpointInput_no_panic: "no_panic (validateCheckpointInput sv slug)"
  by (auto simp: validateCheckpointInput_def validateCheckpointRuntime_def)

lemma prepareRequest_no_panic:
  assumes "services_return sv" "xs_prepared s \<noteq> None"
  shows "no_panic (prepareRequest sv s sel path)"
  using assms unfolding prepareRequest_def Let_def services_return_def
  by (auto intro!: no_panic_and_then validateCheckpointInput_no_panic
      simp: canonical_Internal_def canonical_Error_def BadRequest_def split: option.split sum.split)

lemma prepareProviderCall_no_panic:
  assumes "services_return sv" "plan_projects s" "xs_prepared s \<noteq> None"
  shows "no_panic (fst (prepareProviderCall sv ex s sel))"
proof -
  have d: "\<not> is_panic e" if "sv_delayClientHandoffFor sv run r = Inl e" for run r e
    using assms(1) that by (simp add: services_return_def no_panic_def)
  show ?thesis
  proof (cases "preparePath sv s sel")
    case (Inl e)
    then show ?thesis
      using preparePath_no_panic [OF assms(2), of sv sel] by (simp add: prepareProviderCall_def)
  next
    case (Inr path)
    then show ?thesis
      using prepareRequest_no_panic [OF assms(1,3), of sel path] d
      by (cases "prepareRequest sv s sel path")
        (auto simp: prepareProviderCall_def Let_def split: sum.split prod.split)
  qed
qed

lemma admissible_fresh:
  assumes "admissible s sel" "call_ledger_ok s" "a \<in> set (xs_providerCallAttempts s)"
    "at_candidateIndex a = sel_candidateIndex sel" "at_providerRound a = current_round s"
  shows "at_requestChoice a \<noteq> sel_requestChoice sel"
proof -
  define as where "as = filter (\<lambda>a. at_candidateIndex a = sel_candidateIndex sel \<and>
    at_providerRound a = current_round s) (xs_providerCallAttempts s)"
  have "a \<in> set as" using assms(3-5) by (simp add: as_def)
  moreover have "length as = (if sel_requestChoice sel = providerRequestPreferred then 0 else 1)"
    using assms(1)
    by (auto simp: admissible_def candidateRoundDispatchCount_def as_def split: if_splits)
  moreover have "case as of [] \<Rightarrow> True | [a] \<Rightarrow> at_requestChoice a = providerRequestPreferred
      | _ \<Rightarrow> True"
    using call_ledger_okD(5) [OF assms(2), of "sel_candidateIndex sel" "current_round s"]
    by (auto simp: dispatch_ok_def as_def split: list.splits)
  ultimately show ?thesis by (cases as) (auto split: if_splits)
qed

lemma beginProviderCallAttempt_total:
  assumes "admissible s sel" "call_ledger_ok s" "list_all change_ok ch"
    and "pc_providerRound call = current_round s"
  shows "is_ok (beginProviderCallAttempt s sel call ch)"
proof -
  have "ValidateChanges ch = Inr ()" using assms(3) by (simp add: ValidateChanges_iff)
  moreover have "\<not> list_ex (\<lambda>prior. at_candidateIndex prior = sel_candidateIndex sel \<and>
      at_requestChoice prior = sel_requestChoice sel \<and>
      at_providerRound prior = pc_providerRound call) (xs_providerCallAttempts s)"
    using admissible_fresh [OF assms(1,2)] assms(4) by (auto simp: list_ex_iff)
  ultimately show ?thesis by (simp add: beginProviderCallAttempt_def Let_def)
qed

lemma advanceFrom_total:
  assumes "services_ok sv" "admissible s sel" "call_ledger_ok s" "after_failure s"
    and "plan_projects s" "xs_prepared s \<noteq> None"
    and "advanceFrom fuel sv ex s sel = Some r"
  shows "is_ok r"
  using assms(2-)
proof (induction fuel arbitrary: s sel)
  case (Suc fuel)
  obtain result t ch cache where p: "prepareProviderCall sv ex (evaluate_candidate sel s) sel =
      (result, t, ch, cache)" by (metis prod_cases4)
  define s1 where "s1 = (evaluate_candidate sel s)\<lparr>xs_mediaFetchCache := cache\<rparr>"
  have c: "control s1 = control s" "xs_providerCallAttempts s1 = xs_providerCallAttempts s"
    by (simp_all add: s1_def)
  note cc = control_cong [OF c(1)]
  have s1: "admissible s1 sel" "call_ledger_ok s1" "after_failure s1"
    using Suc.prems(1-3) call_ledger_ok_cong [OF c] admissible_frame [of s1 s] cc c(2)
    by (simp_all add: after_failure_def)
  have s1': "plan_projects s1" "xs_prepared s1 \<noteq> None"
    using Suc.prems(4,5) cc(2) by (simp_all add: plan_projects_def s1_def evaluate_candidate_def)
  have "no_panic (fst (prepareProviderCall sv ex (evaluate_candidate sel s) sel))"
    using Suc.prems(4,5) services_okD(1) [OF assms(1)]
    by (intro prepareProviderCall_no_panic) (simp_all add: plan_projects_def evaluate_candidate_def)
  then have np: "no_panic result" by (simp add: p)
  show ?case
  proof (cases result)
    case (Inr call)
    have "pc_providerRound call = current_round s1"
      using prepareProviderCall_Inr [OF p [unfolded Inr]]
      by (simp add: current_round_def s1_def)
    then show ?thesis
      using Suc.prems(6) p Inr prepareProviderCall_changes [OF assms(1) p [unfolded Inr]]
        beginProviderCallAttempt_total [OF s1(1,2)]
      by (auto simp: s1_def Let_def)
  next
    case (Inl e)
    show ?thesis
    proof (cases "candidatePreparationCanAdvance e \<and> nextRouteCandidate s1 sel \<noteq> None")
      case True
      then obtain next' where n: "nextRouteCandidate s1 sel = Some next'" by blast
      have "admissible s1 next'"
        using nextEligibleRouteCandidate_Some [of s1 "sel_candidateIndex sel + 1" next'] n
          succeeds_later [OF _ s1(3), of sel next'] s1(1)
        by (intro admissible_later [of s1 "sel_candidateIndex sel"])
          (auto simp: nextRouteCandidate_def admissible_def)
      then show ?thesis
        using Suc.IH [of s1 next'] Suc.prems(6) s1 s1' p Inl True n np
        by (simp add: s1_def Let_def)
    next
      case False
      then show ?thesis
        using Suc.prems(6) p Inl np by (auto simp: s1_def Let_def split: option.splits if_splits)
    qed
  qed
qed simp

lemma advanceProviderExecutionFrom_total:
  assumes "services_ok sv" "admissible s sel" "call_ledger_ok s" "after_failure s"
    and "plan_projects s" "xs_prepared s \<noteq> None"
  shows "is_ok (advanceProviderExecutionFrom sv ex s sel)"
proof -
  have "\<exists>r. advanceFrom (length (rp_targets (xs_route s)) + 2) sv ex s sel = Some r"
    by (rule advanceFrom_fuel) auto
  then obtain r where r: "advanceFrom (length (rp_targets (xs_route s)) + 2) sv ex s sel = Some r"
    by blast
  from advanceFrom_total [OF assms r] show ?thesis
    using r by (auto simp only: advanceProviderExecutionFrom_def option.sel)
qed

text \<open>A candidate without a connection panics, and the panic passes through the reducer.\<close>

lemma unprojectable_target_panics:
  assumes "route_at (xs_route s) (sel_candidateIndex sel) = Some t" "target_connection t = None"
  shows "advanceProviderExecutionFrom sv ex s sel = Inl (Panicked ''nil connection'')"
  using assms
  by (simp add: advanceProviderExecutionFrom_def numeral_2_eq_2 prepareProviderCall_def
      preparePath_def evaluate_candidate_def resolveProviderPath_def toProviderTarget_def Let_def)

lemma advanceProviderExecution_total:
  assumes "services_ok sv" "resting s" "plan_projects s"
  shows "is_ok (advanceProviderExecution sv ex s)"
proof (cases "selectNextProviderCall s")
  case None
  have "xs_providerCallAttempts s = [] \<or> at_failure (last_attempt s) \<noteq> None"
    using resting_after_failure [OF assms(2)] by (simp add: after_failure_def)
  then show ?thesis
    using None assms(2)
    by (auto simp: advanceProviderExecution_def terminateProviderExecution_def Let_def resting_def)
next
  case (Some sel)
  have "call_ledger_ok s" "xs_prepared s \<noteq> None" using assms(2) by (simp_all add: resting_def)
  then show ?thesis
    using advanceProviderExecutionFrom_total [OF assms(1), of s sel ex] Some
      selectNextProviderCall_admissible [OF assms(2) Some] resting_after_failure [OF assms(2)]
      assms(3)
    by (auto simp: advanceProviderExecution_def)
qed

lemma genesisAffinity_total: "\<exists>k. genesisAffinity sv s = Inr k"
  by (simp add: genesisAffinity_def Derive_def)

lemma planAndPrepare_total:
  assumes "xs_draft s \<noteq> None"
  shows "is_ok (planAndPrepare sv s)"
proof (cases "applyRoutePlan sv s")
  case (Inr s1)
  then have "xs_draft s1 \<noteq> None" using assms by (auto simp: applyRoutePlan_def early_return)
  then show ?thesis using Inr by (auto simp: planAndPrepare_def beginMCPPreparation_def)
qed (simp add: planAndPrepare_def)

lemma beginNewExchange_total: "is_ok (beginNewExchange sv s)"
  by (cases "sv_PrepareBegin sv (in_request (xs_input s))")
    (simp_all add: beginNewExchange_def planAndPrepare_total)

lemma reduceStarting_total: "is_ok (reduceStarting sv s exchangeStarted)"
  using beginNewExchange_total genesisAffinity_total [of sv s]
  by (auto simp: reduceStarting_def Let_def split: sum.split option.split)

lemma prepareLoaded_total:
  assumes "explicit \<or> in_rebasedRequest (xs_input s) \<noteq> None"
  shows "\<exists>s' d. prepareLoaded sv s explicit key rec found = Inr (s', d)"
proof -
  obtain k where "genesisAffinity sv s = Inr k" using genesisAffinity_total by blast
  then show ?thesis
    using assms by (auto simp: prepareLoaded_def Let_def split: option.split)
qed

lemma reduceLoadingCheckpoint_total:
  assumes "explicit \<or> in_rebasedRequest (xs_input s) \<noteq> None"
  shows "is_ok (reduceLoadingCheckpoint sv s explicit key (checkpointLoaded rec found err))"
proof -
  obtain s1 d where "prepareLoaded sv s explicit key rec found = Inr (s1, d)"
    using prepareLoaded_total [OF assms] by blast
  then show ?thesis
    by (cases d) (auto simp: reduceLoadingCheckpoint_def Let_def planAndPrepare_total
        split: option.split)
qed

lemma reducePreparingMCP_total:
  assumes "services_ok sv" "unstarted s" "xs_draft s \<noteq> None" "plan_projects s"
  shows "is_ok (reducePreparingMCP sv ex s (mcpPrepared full run ch err))"
proof -
  obtain draft where d: "xs_draft s = Some draft" using assms(3) by blast
  have adv: "is_ok (advanceProviderExecution sv ex (s\<lparr>xs_draft := None, xs_prepared := Some n,
      xs_reusablePrefix := p, xs_mcp := r, xs_effectiveChanges := c\<rparr>))" for n p r c
    using assms(2,4)
    by (intro advanceProviderExecution_total [OF assms(1)])
      (simp_all add: resting_def unstarted_def call_ledger_empty plan_projects_def)
  show ?thesis
    using d adv by (cases err; cases "sv_draft_Finalize sv draft full")
      (auto simp: reducePreparingMCP_def)
qed

lemma attempt_error_facts:
  "AsAttemptFailure e = Some ft \<Longrightarrow> fst ft \<noteq> ExecutionInvalid"
  by (auto simp: AsAttemptFailure_def split: option.splits prod.splits if_splits)

lemma settle_projects: "plan_projects s \<Longrightarrow> plan_projects (settle st f s)"
  by (simp add: plan_projects_def)

lemma reduceCallFailed_total:
  assumes "services_ok sv" "call_ledger_ok s" "at_last providerCallAttemptCalling 0 s"
    "xs_prepared s \<noteq> None" "plan_projects s" "AsAttemptFailure failure = Some ft"
  shows "is_ok (reduceCallFailed sv ex s (int (length (xs_providerCallAttempts s))) call
    (last_attempt s) failure)"
proof -
  have ne: "xs_providerCallAttempts s \<noteq> []"
    "at_status (last_attempt s) = providerCallAttemptCalling"
    using assms(3) by (simp_all add: at_last_def)
  show ?thesis
    using advanceProviderExecution_total [OF assms(1) settle_resting [OF assms(2-4)]
        settle_projects [OF assms(5)], of ex ft]
    by (auto simp: reduceCallFailed_def failProviderCallAttempt_active [OF ne] assms(6))
qed

lemma reduceIngress_total:
  assumes "services_ok sv" "call_ledger_ok s" "at_last providerCallAttemptCalling 0 s"
    "xs_prepared s \<noteq> None" "plan_projects s"
  shows "is_ok (reduceIngress sv ex s (int (length (xs_providerCallAttempts s))) call
    (last_attempt s) ingress)"
proof -
  have ne: "xs_providerCallAttempts s \<noteq> []"
    "at_status (last_attempt s) = providerCallAttemptCalling"
    using assms(3) by (simp_all add: at_last_def)
  then have none: "at_failure (last_attempt s) = None"
    using ledger_last(1) [OF assms(2) ne(1)]
    by (cases "at_failure (last_attempt s)") (auto simp: attempt_ok_def)
  obtain result initial progressive where comp:
    "sv_completeProviderCall sv call ingress (xs_swobuResponseID s) = (result, initial, progressive)"
    by (metis prod_cases3)
  show ?thesis
  proof (cases result)
    case (Inl e)
    then show ?thesis
      using advanceProviderExecution_total [OF assms(1) settle_resting [OF assms(2-4)]
          settle_projects [OF assms(5)], of ex]
      by (simp add: reduceIngress_def comp failProviderCallAttempt_active [OF ne])
  next
    case (Inr completion)
    have batch: "is_ok (beginMCPBatch s' (m\<lparr>mp_calls := calls\<rparr>))"
      if "calls \<noteq> []" "xs_mcp s' \<noteq> None" for s' :: "'a exchangeState" and m calls
      using that by (auto simp: beginMCPBatch_def)
    have run: "xs_mcp s \<noteq> None" if "sv_mcp_Calls sv (xs_mcp s) client = Inr calls" "calls \<noteq> []"
      for client calls
      using that services_okD(2) [OF assms(1)] by (cases "xs_mcp s") auto
    show ?thesis
      using Inr run
      by (cases completion)
        (auto simp: reduceIngress_def comp completeProviderCallAttempt_active [OF ne none] Let_def
          beginMCPBatch_def split: sum.splits)
  qed
qed

lemma reduceResolvingTargetFacts_total:
  assumes "services_ok sv" "exchange_inv s (Some c)"
    "xs_phase s = resolvingTargetFactsPhase attemptID backend"
    "event = targetFactsCharacterized attemptID (at_targetGeneration (last_attempt s)) res"
    "plan_projects s"
  shows "is_ok (reduceResolvingTargetFacts sv ex s attemptID event)"
proof -
  have i: "call_ledger_ok s" "at_last providerCallAttemptFailed 0 s" "xs_prepared s \<noteq> None"
    "attemptID = int (length (xs_providerCallAttempts s))" "characterizable (last_attempt s)"
    using assms(2,3) by (simp_all add: exchange_inv_def)
  then have r: "resting s" by (simp add: resting_def)
  obtain x cause where ft: "at_failure (last_attempt s) = Some (x, cause)" "has_err is_rejected cause"
    "\<not> at_providerRound (last_attempt s) > 0"
    using i(5) by (auto simp: characterizable_def targetFactCharacterizationAdmitted_def
        providerRecoveryPermitted_def split: option.splits)
  moreover have "0 \<le> at_providerRound (last_attempt s)"
    "at_providerRound (last_attempt s) = current_round s"
    using ledger_last(1) [OF i(1)] i(2) by (simp_all add: attempt_ok_def at_last_def)
  ultimately have zero: "at_providerRound (last_attempt s) = 0" "current_round s = 0" by simp_all
  have f: "findProviderCallAttempt s attemptID = Some (last_attempt s)"
    using i(2,4) active_index(2) [of s] by (simp add: at_last_def)
  define sel where "sel = \<lparr>sel_candidateIndex = at_candidateIndex (last_attempt s),
    sel_requestChoice = providerRequestReprojected\<rparr>"
  have "is_ok (advanceProviderExecutionFrom sv ex' s sel)"
    if "dispatches s (at_candidateIndex (last_attempt s)) < 2" for ex'
    using that ft zero
    by (intro advanceProviderExecutionFrom_total [OF assms(1) _ i(1) resting_after_failure [OF r]
          assms(5) i(3)]
        admissible_retry [OF i(1,2), of sel x cause]) (simp_all add: sel_def)
  then show ?thesis
    using advanceProviderExecution_total [OF assms(1) r assms(5)] f ft zero
    by (auto simp: reduceResolvingTargetFacts_def assms(4) Let_def sel_def)
qed

lemma reduceCallingMCP_total:
  assumes "services_ok sv" "exchange_inv s (Some c)" "xs_phase s = callingMCPPhase m"
    "event = mcpBatchStarted err \<or> event = mcpToolReturned r err" "plan_projects s"
  shows "is_ok (reduceCallingMCP sv ex s m event)"
proof -
  have i: "call_ledger_ok s" "at_last providerCallAttemptHandoffReady 1 s" "xs_prepared s \<noteq> None"
    "mcp_ok s m" "xs_mcp s \<noteq> None"
    using assms(2,3) by (simp_all add: exchange_inv_def)
  obtain p where p: "xs_prepared s = Some p" using i(3) by blast
  have nx: "0 \<le> mp_next m" "mp_next m < int (length (mp_calls m))"
    using i(4) by (simp_all add: mcp_ok_def)
  have call: "is_ok (beginMCPCall s m')"
    if "0 \<le> mp_next m'" "mp_next m' < int (length (mp_calls m'))" for m'
    using that i(5) by (simp add: beginMCPCall_def)
  have round: "is_ok (case prepareProviderCall sv ex (s\<lparr>xs_prepared := Some n\<rparr>) (mp_selection m) of
      (result, target, requestChanges, fetchCache) \<Rightarrow>
        (case result of
           Inl e \<Rightarrow> if is_panic e then Inl e else Inr (fail_exchange
             (s\<lparr>xs_prepared := Some n, xs_mediaFetchCache := fetchCache\<rparr>) e target)
         | Inr call \<Rightarrow> beginProviderCallAttempt
             (s\<lparr>xs_prepared := Some n, xs_mediaFetchCache := fetchCache\<rparr>)
             (mp_selection m') call requestChanges))"
    if m': "mp_selection m' = mp_selection m" for n m'
  proof -
    obtain result tg ch cache where c: "prepareProviderCall sv ex (s\<lparr>xs_prepared := Some n\<rparr>)
        (mp_selection m) = (result, tg, ch, cache)" by (metis prod_cases4)
    have "no_panic (fst (prepareProviderCall sv ex (s\<lparr>xs_prepared := Some n\<rparr>) (mp_selection m)))"
      using assms(5) services_okD(1) [OF assms(1)]
      by (intro prepareProviderCall_no_panic) (simp_all add: plan_projects_def)
    then have np: "no_panic result" by (simp add: c)
    define s2 where "s2 = s\<lparr>xs_prepared := Some n, xs_mediaFetchCache := cache\<rparr>"
    have s2: "admissible s2 (mp_selection m)" "call_ledger_ok s2"
      using i(1) admissible_round [OF i(1,2,4)] admissible_frame [of s2 s] by (simp_all add: s2_def)
    show ?thesis
    proof (cases result)
      case (Inr x)
      have "pc_providerRound x = current_round s2"
        using prepareProviderCall_Inr [OF c [unfolded Inr]]
        by (simp add: current_round_def s2_def)
      then show ?thesis
        using beginProviderCallAttempt_total [OF s2] c Inr
          prepareProviderCall_changes [OF assms(1) c [unfolded Inr]]
        by (simp add: s2_def m')
    qed (use np in \<open>simp add: c\<close>)
  qed
  show ?thesis
  proof (cases err)
    case (Some e)
    then show ?thesis using assms(4) by (auto simp: reduceCallingMCP_def)
  next
    case None
    then show ?thesis
      using assms(4) nx call call [of "m\<lparr>mp_results := mp_results m @ [r], mp_next := mp_next m + 1\<rparr>"]
        p round [of "m\<lparr>mp_results := mp_results m @ [r], mp_next := mp_next m + 1\<rparr>"]
      by (cases "sv_ContinueAfterLocalResult sv p (mp_continuation m) (mp_results m @ [r])")
        (auto simp: reduceCallingMCP_def Let_def)
  qed
qed

lemma keep_exceptions_total [simp]: "is_ok (keep_exceptions ex r) = is_ok r"
  by (cases r) (auto simp: keep_exceptions_def)

lemma reduce_answers:
  assumes "services_ok sv" "exchange_inv s (Some c)" "executeCommand io c = Inr event"
    and "plan_projects s"
  shows "is_ok (reduce sv ex s event)"
proof (cases "xs_phase s")
  case (loadingCheckpointPhase explicit key)
  then have c: "c = loadCheckpointCommand (ws_slug (in_workspace (xs_input s))) explicit key"
    and e: "explicit \<or> in_rebasedRequest (xs_input s) \<noteq> None"
    using assms(2) by (simp_all add: exchange_inv_def)
  obtain rec found err where "event = checkpointLoaded rec found err"
    using assms(3) c by (auto simp: executeCommand_def Let_def split: prod.splits)
  then show ?thesis
    using reduceLoadingCheckpoint_total [OF e]
    by (simp add: reduce_def loadingCheckpointPhase)
next
  case preparingMCPPhase
  then obtain full where c: "c = prepareMCPCommand full (in_mcpAccess (xs_input s))"
    and u: "unstarted s" "xs_draft s \<noteq> None"
    using assms(2) by (auto simp: exchange_inv_def)
  obtain f run ch err where "event = mcpPrepared f run ch err"
    using assms(3) c by (auto simp: executeCommand_def Let_def split: prod.splits)
  then show ?thesis
    using reducePreparingMCP_total [OF assms(1) u assms(4)]
    by (simp add: reduce_def preparingMCPPhase)
next
  case (callingProviderPhase attemptID call)
  then have i: "call_ledger_ok s" "at_last providerCallAttemptCalling 0 s" "xs_prepared s \<noteq> None"
    and id: "attemptID = int (length (xs_providerCallAttempts s))"
    and c: "c = callProviderCommand attemptID (pc_backend call) (pc_document call)"
    using assms(2) by (simp_all add: exchange_inv_def)
  have f: "findProviderCallAttempt s attemptID = Some (last_attempt s)"
    using i(2) id active_index(2) [of s] by (simp add: at_last_def)
  consider e ft where "event = providerCallFailed attemptID (attempt_error ft)"
      "AsAttemptFailure e = Some ft"
    | ingress where "event = providerIngressReceived attemptID ingress"
    using assms(3) c by (auto simp: executeCommand_def split: sum.splits option.splits)
  then have "is_ok (reduceCallingProvider sv ex s attemptID call event)"
    using reduceCallFailed_total [OF assms(1) i assms(4)] reduceIngress_total [OF assms(1) i assms(4)]
      attempt_error_facts
    by cases (auto simp: reduceCallingProvider_def f [unfolded id] id)
  then show ?thesis
    by (simp add: reduce_def callingProviderPhase)
next
  case (resolvingTargetFactsPhase attemptID backend)
  then have c: "\<exists>t f b. c = characterizeTargetFactsCommand attemptID t
      (at_targetGeneration (last_attempt s)) f b"
    using assms(2) by (auto simp: exchange_inv_def)
  then obtain res where "event = targetFactsCharacterized attemptID
      (at_targetGeneration (last_attempt s)) res"
    using assms(3) by (auto simp: executeCommand_def)
  then show ?thesis
    using reduceResolvingTargetFacts_total [OF assms(1,2) resolvingTargetFactsPhase _ assms(4)]
    by (simp add: reduce_def resolvingTargetFactsPhase)
next
  case (callingMCPPhase m)
  then have "(\<exists>call. c = callMCPCommand (xs_mcp s) call) \<or>
      c = beginMCPBatchCommand (xs_mcp s) (mp_calls m)"
    using assms(2) by (auto simp: exchange_inv_def)
  then obtain r err where "event = mcpBatchStarted err \<or> event = mcpToolReturned r err"
    using assms(3) by (auto simp: executeCommand_def Let_def split: prod.splits)
  from reduceCallingMCP_total [OF assms(1,2) callingMCPPhase this assms(4)] show ?thesis
    by (simp add: reduce_def callingMCPPhase)
qed (use assms(2) in \<open>simp_all add: exchange_inv_def\<close>)

end
