(* ===== verification/Exchange_Properties.thy ===== *)
theory Exchange_Properties
  imports Exchange_Loop
begin

text \<open>
  What an exchange promises: which targets it calls and in which order, how many calls it
  makes, that no internal invariant error and no panic is reachable, and that it ends.
\<close>

section \<open>What a transition keeps\<close>

text \<open>
  The input and the snapshot of suppressed targets are fixed when the exchange starts; the
  route plan is set only from a route that the workspace resolves, with one of the sources of
  randomness \<open>R\<close>.
\<close>

definition plan_of :: "randomness set \<Rightarrow> 'p exchangeInput \<Rightarrow> routePlan \<Rightarrow> bool" where
  "plan_of R input plan \<longleftrightarrow>
     (\<exists>requested rnd locality route. rnd \<in> R \<and>
        ResolveRoute (in_workspace input) requested = Inr route \<and>
        plan = \<lparr>rp_name = route_name route, rp_targets = BuildPlan rnd locality route\<rparr>)"

lemma plan_ofI:
  "rnd \<in> R \<Longrightarrow> ResolveRoute (in_workspace input) requested = Inr route \<Longrightarrow>
     plan_of R input \<lparr>rp_name = route_name route, rp_targets = BuildPlan rnd locality route\<rparr>"
  unfolding plan_of_def by blast

definition advances :: "randomness set \<Rightarrow> 'p exchangeState \<Rightarrow> 'p exchangeState \<Rightarrow> bool" where
  "advances R s s' \<longleftrightarrow>
     xs_input s' = xs_input s \<and> xs_targetBackoff s' = xs_targetBackoff s \<and>
     (xs_route s' = xs_route s \<or> plan_of R (xs_input s') (xs_route s'))"

lemma advances_refl [simp]: "advances R s s"
  by (simp add: advances_def)

lemma advances_trans: "advances R s s1 \<Longrightarrow> advances R s1 s2 \<Longrightarrow> advances R s s2"
  by (auto simp: advances_def)

lemma advances_updates [simp]:
  "advances R s0 (s\<lparr>xs_mediaFetchCache := c\<rparr>) \<longleftrightarrow> advances R s0 s"
  "advances R s0 (s\<lparr>xs_evaluatedCandidateCount := n\<rparr>) \<longleftrightarrow> advances R s0 s"
  "advances R s0 (s\<lparr>xs_phase := p\<rparr>) \<longleftrightarrow> advances R s0 s"
  "advances R s0 (s\<lparr>xs_providerCallAttempts := as\<rparr>) \<longleftrightarrow> advances R s0 s"
  "advances R s0 (s\<lparr>xs_draft := d\<rparr>) \<longleftrightarrow> advances R s0 s"
  "advances R s0 (s\<lparr>xs_prepared := r\<rparr>) \<longleftrightarrow> advances R s0 s"
  "advances R s0 (s\<lparr>xs_advance := a\<rparr>) \<longleftrightarrow> advances R s0 s"
  "advances R s0 (s\<lparr>xs_executionAffinity := k\<rparr>) \<longleftrightarrow> advances R s0 s"
  "advances R s0 (s\<lparr>xs_storageReuse := u\<rparr>) \<longleftrightarrow> advances R s0 s"
  "advances R s0 (s\<lparr>xs_previousRequest := q\<rparr>) \<longleftrightarrow> advances R s0 s"
  "advances R s0 (s\<lparr>xs_reusablePrefix := x\<rparr>) \<longleftrightarrow> advances R s0 s"
  "advances R s0 (s\<lparr>xs_mcp := m\<rparr>) \<longleftrightarrow> advances R s0 s"
  "advances R s0 (s\<lparr>xs_effectiveChanges := e\<rparr>) \<longleftrightarrow> advances R s0 s"
  "advances R s0 (s\<lparr>xs_providerUsage := v\<rparr>) \<longleftrightarrow> advances R s0 s"
  "advances R s0 (s\<lparr>xs_cacheLocality := l\<rparr>) \<longleftrightarrow> advances R s0 s"
  "advances R s0 (evaluate_candidate sel s) \<longleftrightarrow> advances R s0 s"
  by (simp_all add: advances_def evaluate_candidate_def)

text \<open>A transition that succeeds keeps all this.\<close>

definition keeps :: "randomness set \<Rightarrow> 'p exchangeState \<Rightarrow> go_error + 'p reducerOutcome \<Rightarrow> bool" where
  "keeps R s r = (case r of Inl _ \<Rightarrow> True | Inr (s', _) \<Rightarrow> advances R s s')"

lemma keeps_simps [simp]:
  "keeps R s (Inl e)" "keeps R s (Inr (s', cmd)) \<longleftrightarrow> advances R s s'"
  "keeps R s (Inr (fail_exchange s' e t)) \<longleftrightarrow> advances R s s'"
  by (simp_all add: keeps_def fail_exchange_def)

lemma keepsD: "keeps R s r \<Longrightarrow> r = Inr (s', cmd) \<Longrightarrow> advances R s s'"
  by simp

lemma keeps_trans: "advances R s s1 \<Longrightarrow> keeps R s1 r \<Longrightarrow> keeps R s r"
  by (cases r) (auto simp: keeps_def intro: advances_trans)

lemma keeps_and_then:
  assumes "\<And>s1. r = Inr s1 \<Longrightarrow> advances R s s1" "\<And>s1. advances R s s1 \<Longrightarrow> keeps R s (f s1)"
  shows "keeps R s (and_then r f)"
  using assms by (cases r) auto

lemma beginProviderCallAttempt_keeps: "keeps R s (beginProviderCallAttempt s sel call ch)"
  by (auto simp: beginProviderCallAttempt_def Let_def split: sum.split)

lemma advanceFrom_keeps: "advanceFrom fuel sv ex s sel = Some r \<Longrightarrow> keeps R s r"
proof (induction fuel arbitrary: s sel)
  case (Suc fuel)
  obtain result t ch cache where p: "prepareProviderCall sv ex (evaluate_candidate sel s) sel =
      (result, t, ch, cache)" by (metis prod_cases4)
  define s1 where "s1 = (evaluate_candidate sel s)\<lparr>xs_mediaFetchCache := cache\<rparr>"
  have f: "advances R s s1" by (simp add: s1_def)
  show ?case
    using Suc.prems p Suc.IH [of s1] keeps_trans [OF f, of r]
      beginProviderCallAttempt_keeps [of R s1 sel _ ch]
    by (auto simp: s1_def Let_def split: sum.splits option.splits if_splits)
qed simp

lemma advanceProviderExecutionFrom_keeps: "keeps R s (advanceProviderExecutionFrom sv ex s sel)"
proof -
  have "\<exists>r. advanceFrom (length (rp_targets (xs_route s)) + 2) sv ex s sel = Some r"
    by (rule advanceFrom_fuel) auto
  then show ?thesis
    using advanceFrom_keeps by (auto simp only: advanceProviderExecutionFrom_def option.sel)
qed

lemma advanceProviderExecution_keeps: "keeps R s (advanceProviderExecution sv ex s)"
  using advanceProviderExecutionFrom_keeps
  by (auto simp: advanceProviderExecution_def terminateProviderExecution_def Let_def
      split: option.split)

lemma advance_keeps: "advances R s s1 \<Longrightarrow> keeps R s (advanceProviderExecution sv ex s1)"
  by (rule keeps_trans [OF _ advanceProviderExecution_keeps])

lemma planAndPrepare_keeps:
  assumes "advances R s s1" "sv_randomness sv \<in> R"
  shows "keeps R s (planAndPrepare sv s1)"
proof -
  have "advances R s s2" if "applyRoutePlan sv s1 = Inr s2" for s2
    using that assms by (auto simp: applyRoutePlan_def early_return advances_def intro: plan_ofI)
  then show ?thesis
    using assms
    by (auto simp: planAndPrepare_def beginMCPPreparation_def split: sum.split option.split)
qed

lemma reduceStarting_keeps:
  assumes "sv_randomness sv \<in> R"
  shows "keeps R s (reduceStarting sv s event)"
proof -
  have "keeps R s (beginNewExchange sv (s\<lparr>xs_executionAffinity := k\<rparr>))" for k
    using assms by (auto simp: beginNewExchange_def planAndPrepare_keeps split: sum.split)
  then show ?thesis
    by (auto simp: reduceStarting_def Let_def and_then_def
        split: exchangeEvent.split sum.split option.split)
qed

lemma reduceLoadingCheckpoint_keeps:
  assumes "sv_randomness sv \<in> R"
  shows "keeps R s (reduceLoadingCheckpoint sv s explicit key event)"
proof -
  have "advances R s s1" if "prepareLoaded sv s explicit key rec found = Inr (s1, d)"
    for rec found s1 d
    using that by (auto simp: prepareLoaded_def Let_def early_return split: if_splits)
  then show ?thesis
    using assms by (auto simp: reduceLoadingCheckpoint_def Let_def and_then_def planAndPrepare_keeps
        split: exchangeEvent.split sum.split option.split)
qed

lemma reducePreparingMCP_keeps: "keeps R s (reducePreparingMCP sv ex s event)"
  by (auto simp: reducePreparingMCP_def advance_keeps
      split: exchangeEvent.split sum.split option.split)

lemma failProviderCallAttempt_evolves:
  "failProviderCallAttempt s tid e = Inr s1 \<Longrightarrow> advances R s s1"
  by (auto simp: failProviderCallAttempt_def Let_def split: option.splits if_splits)

lemma completeProviderCallAttempt_evolves:
  "completeProviderCallAttempt s tid = Inr s1 \<Longrightarrow> advances R s s1"
  by (auto simp: completeProviderCallAttempt_def Let_def split: option.splits if_splits)

lemma beginMCPBatch_keeps: "advances R s s1 \<Longrightarrow> keeps R s (beginMCPBatch s1 m)"
  by (simp add: beginMCPBatch_def)

lemma beginMCPCall_keeps: "keeps R s (beginMCPCall s m)"
  by (simp add: beginMCPCall_def)

lemma reduceCallFailed_keeps: "keeps R s (reduceCallFailed sv ex s tid call attempt failure)"
  unfolding reduceCallFailed_def
  by (rule keeps_and_then) (auto simp: failProviderCallAttempt_evolves advance_keeps
      split: option.split)

lemma reduceIngress_keeps: "keeps R s (reduceIngress sv ex s tid call attempt ingress)"
proof -
  obtain result initial progressive where comp:
    "sv_completeProviderCall sv call ingress (xs_swobuResponseID s) = (result, initial, progressive)"
    by (metis prod_cases3)
  show ?thesis
  proof (cases result)
    case (Inl e)
    then show ?thesis
      unfolding reduceIngress_def comp
      by (simp, intro keeps_and_then) (auto simp: failProviderCallAttempt_evolves advance_keeps)
  next
    case (Inr completion)
    then show ?thesis
      unfolding reduceIngress_def comp
      by (cases completion; simp; intro keeps_and_then)
        (auto simp: completeProviderCallAttempt_evolves beginMCPBatch_keeps Let_def split: sum.split)
  qed
qed

lemma reduceCallingMCP_keeps: "keeps R s (reduceCallingMCP sv ex s m event)"
proof -
  have "keeps R s (beginProviderCallAttempt s1 sel call ch)" if "advances R s s1" for s1 sel call ch
    using that by (rule keeps_trans [OF _ beginProviderCallAttempt_keeps])
  then show ?thesis
    by (auto simp: reduceCallingMCP_def Let_def beginMCPCall_keeps
        split: exchangeEvent.split sum.split option.split prod.split)
qed

lemma reduce_evolves:
  assumes "reduce sv ex s event = Inr ((s', cmd), ex')" "sv_randomness sv \<in> R"
  shows "advances R s s'"
proof -
  have res: "advances R s s'"
    if "reduceResolvingTargetFacts sv ex s tid event = Inr ((s', cmd), ex')" for tid
    using that
    by (auto simp: reduceResolvingTargetFacts_def Let_def early_return
        split: exchangeEvent.splits if_splits option.splits
        dest: keepsD [OF advanceProviderExecutionFrom_keeps] keepsD [OF advanceProviderExecution_keeps])
  show ?thesis
    using assms res
    by (auto simp: reduce_def reduceCallingProvider_def
        split: phase.splits option.splits exchangeEvent.splits if_splits
        dest: keepsD [OF reduceStarting_keeps] keepsD [OF reduceLoadingCheckpoint_keeps]
          keepsD [OF reducePreparingMCP_keeps] keepsD [OF reduceCallFailed_keeps]
          keepsD [OF reduceIngress_keeps] keepsD [OF reduceCallingMCP_keeps])
qed

lemma exchange_run_evolves: "exchange_run s0 s cmd \<Longrightarrow> advances UNIV s0 s"
  by (induction rule: exchange_run.induct) (auto dest: reduce_evolves intro: advances_trans)

text \<open>A plan holds targets of the workspace, so it projects if they do.\<close>

definition workspace_projects :: "Workspace \<Rightarrow> bool" where
  "workspace_projects w \<longleftrightarrow>
     (\<forall>r \<in> snd ` set (ws_routes w). list_all projectable (route_targets r))"

lemma ResolveRoute_projects:
  assumes "ResolveRoute w requested = Inr route" "workspace_projects w"
  shows "list_all projectable (route_targets route)"
proof -
  have "list_all projectable (route_targets (lookup_route w name))" for name
    using assms(2) by (force simp: lookup_route_def zeroRoute_def route_targets_def
        workspace_projects_def dest: map_of_SomeD split: option.split)
  moreover have "list_all projectable (route_targets r)" if "map_of (ws_routes w) name = Some r"
    for name r
    using assms(2) that by (force simp: workspace_projects_def dest: map_of_SomeD)
  ultimately show ?thesis
    using assms(1) by (auto simp: ResolveRoute_def split: if_splits sum.splits option.splits)
qed

lemma reduce_projects:
  assumes "reduce sv ex s event = Inr ((s', cmd), ex')" "randomness_ok (sv_randomness sv)"
    and "workspace_projects (in_workspace (xs_input s))" "plan_projects s"
  shows "plan_projects s'"
proof -
  have a: "advances {sv_randomness sv} s s'" using reduce_evolves [OF assms(1)] by simp
  show ?thesis
  proof (cases "xs_route s' = xs_route s")
    case True
    then show ?thesis using assms(4) plan_projects_cong by blast
  next
    case False
    then obtain requested locality route where
      "ResolveRoute (in_workspace (xs_input s)) requested = Inr route"
      "rp_targets (xs_route s') = BuildPlan (sv_randomness sv) locality route"
      using a by (auto simp: advances_def plan_of_def)
    then show ?thesis
      using ResolveRoute_projects [OF _ assms(3)] set_BuildPlan [OF assms(2)]
      by (simp add: plan_projects_def list_all_iff)
  qed
qed

section \<open>Counting calls\<close>

lemma dispatch_slots:
  assumes "\<And>i r. dispatch_ok as i r"
  shows "distinct (map (\<lambda>a. (at_candidateIndex a, at_providerRound a,
    at_requestChoice a = providerRequestPreferred)) as)" (is "distinct (map ?f as)")
proof -
  have "length (filter (\<lambda>a. ?f a = (i, r, b)) as) \<le> 1" for i r b
  proof -
    define bs where "bs = filter (\<lambda>a. at_candidateIndex a = i \<and> at_providerRound a = r) as"
    have "filter (\<lambda>a. ?f a = (i, r, b)) as =
        filter (\<lambda>a. (at_requestChoice a = providerRequestPreferred) = b) bs"
      by (auto simp: bs_def intro: filter_cong)
    moreover have "case bs of [] \<Rightarrow> True
      | [a] \<Rightarrow> at_requestChoice a = providerRequestPreferred
      | [a, b] \<Rightarrow> at_requestChoice a = providerRequestPreferred \<and>
          at_requestChoice b \<noteq> providerRequestPreferred
      | _ \<Rightarrow> False"
      using assms [of i r] by (simp add: dispatch_ok_def bs_def)
    ultimately show ?thesis by (auto split: list.splits)
  qed
  then show ?thesis by (intro distinct_map_slots) (auto simp del: length_filter_le)
qed

text \<open>At most two calls per candidate and provider round.\<close>

lemma calls_per_round:
  assumes "call_ledger_ok s"
  shows "length (filter (\<lambda>a. at_providerRound a = r) (xs_providerCallAttempts s)) \<le>
    2 * length (rp_targets (xs_route s))"
proof -
  define as where "as = filter (\<lambda>a. at_providerRound a = r) (xs_providerCallAttempts s)"
  define len where "len = int (length (rp_targets (xs_route s)))"
  define f where "f = (\<lambda>a :: providerCallAttempt. (at_candidateIndex a, at_providerRound a,
    at_requestChoice a = providerRequestPreferred))"
  have "f a \<in> {0..<len} \<times> {r} \<times> UNIV" if "a \<in> set as" for a
    using call_ledger_okD(1) [OF assms(1)] that eligible_range [of s "at_candidateIndex a"]
    by (auto simp: list_all_iff attempt_ok_def f_def len_def as_def)
  then have "set (map f as) \<subseteq> {0..<len} \<times> {r} \<times> UNIV" by (simp add: image_subset_iff)
  then have "card (set (map f as)) \<le> card ({0..<len} \<times> {r} \<times> (UNIV :: bool set))"
    by (intro card_mono) simp_all
  moreover have "distinct (map f (xs_providerCallAttempts s))"
    unfolding f_def by (rule dispatch_slots) (rule call_ledger_okD(5) [OF assms(1)])
  then have "distinct (map f as)" by (simp add: as_def distinct_map_filter)
  then have "card (set (map f as)) = length as" by (metis distinct_card length_map)
  ultimately show ?thesis
    by (simp add: card_cartesian_product len_def as_def)
qed

section \<open>The loop returns the outcome of a run\<close>

text \<open>The event that the loop hands to \<open>reduce\<close> next.\<close>

definition awaited :: "'p exchangeState \<Rightarrow> 'p exchangeState \<Rightarrow> 'p exchangeEvent \<Rightarrow> bool" where
  "awaited s0 s event \<longleftrightarrow>
     s = s0 \<and> event = exchangeStarted \<or>
     (\<exists>c io. exchange_run s0 s (Some c) \<and> executeCommand io c = Inr event)"

lemma awaited_run:
  "awaited s0 s event \<Longrightarrow> reduce sv ex s event = Inr ((s', cmd), ex') \<Longrightarrow> exchange_run s0 s' cmd"
  unfolding awaited_def by (auto intro: exchange_run.intros)

lemma awaited_input: "awaited s0 s event \<Longrightarrow> xs_input s = xs_input s0"
  using exchange_run_evolves by (auto simp: awaited_def advances_def)

lemma awaited_total:
  assumes "services_ok sv" "awaited (initial_state zero input rid ch backoff) s event"
    and "plan_projects s"
  shows "is_ok (reduce sv ex s event)"
  using assms(2) unfolding awaited_def
proof
  assume s: "s = initial_state zero input rid ch backoff \<and> event = exchangeStarted"
  then have "xs_phase s = startingPhase" by (simp add: initial_state_def)
  then show ?thesis using s reduceStarting_total by (simp add: reduce_def)
next
  assume "\<exists>c io. exchange_run (initial_state zero input rid ch backoff) s (Some c) \<and>
    executeCommand io c = Inr event"
  then obtain c io where "exchange_run (initial_state zero input rid ch backoff) s (Some c)"
    and e: "executeCommand io c = Inr event" by blast
  from reduce_answers [OF assms(1) exchange_run_inv [OF this(1)] e assms(3)] show ?thesis .
qed

text \<open>
  What the environment guarantees: sound services with a shuffle that draws within its
  bounds, transports that report attempt facts, and stores and MCP servers that return their
  errors and do not panic.
\<close>

definition returned :: "go_error option \<Rightarrow> bool" where
  "returned err \<longleftrightarrow> (\<forall>e. err = Some e \<longrightarrow> \<not> is_panic e)"

definition io_returns :: "'p io \<Rightarrow> bool" where
  "io_returns io \<longleftrightarrow>
     (\<forall>slug k. returned (snd (snd (io_Get io slug k)))) \<and>
     (\<forall>slug k. returned (snd (snd (io_FindByHistory io slug k)))) \<and>
     (\<forall>r a. returned (snd (snd (snd (io_Open io r a))))) \<and>
     (\<forall>run c. returned (snd (io_Call io run c))) \<and>
     (\<forall>run cs. returned (io_BeginBatch io run cs))"

definition environment_ok :: "(nat \<Rightarrow> 'p moment) \<Rightarrow> bool" where
  "environment_ok env \<longleftrightarrow> (\<forall>k. services_ok (mo_services (env k)) \<and>
     randomness_ok (sv_randomness (mo_services (env k))) \<and> io_returns (mo_io (env k)) \<and>
     (\<forall>b d e. io_Send (mo_io (env k)) b d = Inl e \<longrightarrow> AsAttemptFailure e \<noteq> None))"

lemma executeCommand_total:
  assumes "environment_ok env"
  shows "is_ok (executeCommand (mo_io (env k)) c)"
proof -
  have "\<forall>b d e. io_Send (mo_io (env k)) b d = Inl e \<longrightarrow> AsAttemptFailure e \<noteq> None"
    using assms by (simp add: environment_ok_def)
  then show ?thesis
    by (cases c) (fastforce simp: executeCommand_def Let_def case_prod_beta split: sum.split option.split)+
qed

lemma performCommand_result:
  "fst (performCommand m input c ledger) = executeCommand (mo_io m) c"
  by (cases c) (auto simp: performCommand_def Let_def case_prod_beta split: sum.split)

text \<open>The output of a run that has reached a terminal phase.\<close>

definition finished ::
    "'p exchangeState \<Rightarrow> 'p RequestOutput \<Rightarrow> go_error option \<Rightarrow> bool" where
  "finished s out err \<longleftrightarrow>
     ro_AttemptCount out = length (xs_providerCallAttempts s) \<and>
     (case xs_phase s of
        completedPhase response target \<Rightarrow>
          err = None \<and> ro_Response out = Some response \<and> ro_Target out = target
      | failedPhase problem target \<Rightarrow>
          err = Some problem \<and> ro_Response out = None \<and> ro_Target out = target
      | _ \<Rightarrow> False)"

definition limit_reached :: go_error where
  "limit_reached = canonical_Internal ''exchange transition limit reached''"

fun terminal_phase :: "'p phase \<Rightarrow> bool" where
  "terminal_phase (completedPhase _ _) \<longleftrightarrow> True"
| "terminal_phase (failedPhase _ _) \<longleftrightarrow> True"
| "terminal_phase _ \<longleftrightarrow> False"

text \<open>One turn of the loop.\<close>

lemma runLoop_turn:
  assumes "environment_ok env" "awaited s0 s event" "s0 = initial_state zero input rid ch backoff"
    and "workspace_projects (in_workspace input)" "plan_projects s"
  obtains
    (ends) s' cmd ex' out err where "exchange_run s0 s' cmd" "terminal_phase (xs_phase s')"
      "finished s' out err"
      "runLoop (Suc fuel) k env (ledger, ex) s event = (Inr (out, err), xs_mcp s', ledger, ex')"
      "reduce (mo_services (env k)) (mo_exceptions (env k) ex) s event = Inr ((s', cmd), ex')"
  | (continues) s' ex' c event' where "exchange_run s0 s' (Some c)"
      "\<not> terminal_phase (xs_phase s')" "awaited s0 s' event'"
      "runLoop (Suc fuel) k env (ledger, ex) s event =
         runLoop fuel (Suc k) env (snd (performCommand (env k) (xs_input s') c ledger), ex') s' event'"
      "reduce (mo_services (env k)) (mo_exceptions (env k) ex) s event = Inr ((s', Some c), ex')"
      "plan_projects s'"
proof -
  have ok: "services_ok (mo_services (env k))" "randomness_ok (sv_randomness (mo_services (env k)))"
    using assms(1) by (simp_all add: environment_ok_def)
  then have "is_ok (reduce (mo_services (env k)) (mo_exceptions (env k) ex) s event)"
    by (intro awaited_total [OF _ assms(2) [unfolded assms(3)] assms(5)])
  then obtain s' cmd ex' where
    r: "reduce (mo_services (env k)) (mo_exceptions (env k) ex) s event = Inr ((s', cmd), ex')"
    by (auto simp: is_ok_iff)
  have run: "exchange_run s0 s' cmd" using awaited_run [OF assms(2) r] .
  then have inv: "exchange_inv s' cmd" unfolding assms(3) by (rule exchange_run_inv)
  have "xs_input s = input" using awaited_input [OF assms(2)] by (simp add: assms(3) initial_state_def)
  then have projects: "plan_projects s'"
    using reduce_projects [OF r ok(2)] assms(4,5) by simp
  have t: "\<exists>out err. runLoop (Suc fuel) k env (ledger, ex) s event =
      (Inr (out, err), xs_mcp s', ledger, ex') \<and> finished s' out err"
    if "terminal_phase (xs_phase s')"
    using that r
    by (cases "xs_phase s'")
      (auto simp: finished_def terminalRequestOutput_def summarizeRoutingEvidence_def Let_def)
  have n: "\<exists>c event'. cmd = Some c \<and> executeCommand (mo_io (env k)) c = Inr event' \<and>
      awaited s0 s' event' \<and> runLoop (Suc fuel) k env (ledger, ex) s event =
         runLoop fuel (Suc k) env (snd (performCommand (env k) (xs_input s') c ledger), ex') s' event'"
    if nt: "\<not> terminal_phase (xs_phase s')"
  proof -
    have "\<exists>c. cmd = Some c" using nt inv run
      by (cases "xs_phase s'") (auto simp: exchange_inv_def)
    then obtain c where c: "cmd = Some c" by blast
    obtain event' where e: "executeCommand (mo_io (env k)) c = Inr event'"
      using executeCommand_total [OF assms(1)] by (auto simp: is_ok_iff)
    have "awaited s0 s' event'" using run c e by (auto simp: awaited_def)
    moreover obtain l1 where "performCommand (env k) (xs_input s') c ledger = (Inr event', l1)"
      using performCommand_result [of "env k" "xs_input s'" c ledger] e
      by (cases "performCommand (env k) (xs_input s') c ledger") simp
    then have "runLoop (Suc fuel) k env (ledger, ex) s event =
        runLoop fuel (Suc k) env (snd (performCommand (env k) (xs_input s') c ledger), ex') s' event'"
      using r c nt by (cases "xs_phase s'") (simp_all add: Let_def)
    ultimately show ?thesis using c e by blast
  qed
  show thesis
  proof (cases "terminal_phase (xs_phase s')")
    case True
    then show thesis using ends [OF run True _ _ r] t by blast
  next
    case False
    then show thesis using continues [OF _ False _ _ _ projects] n run r by blast
  qed
qed

lemma runLoop_outcome:
  assumes "environment_ok env" "s0 = initial_state zero input rid ch backoff"
    and "workspace_projects (in_workspace input)" "awaited s0 s event" "plan_projects s"
  shows "\<exists>out err. fst (runLoop fuel k env sh s event) = Inr (out, err) \<and>
    ((\<exists>s'. exchange_run s0 s' None \<and> finished s' out err) \<or>
     (out, err) = (emptyOutput, Some limit_reached))"
  using assms(4,5)
proof (induction fuel arbitrary: k sh s event)
  case 0
  then show ?case by (simp add: limit_reached_def)
next
  case (Suc fuel)
  obtain ledger ex where sh: "sh = (ledger, ex)" by (cases sh)
  from assms(1) Suc.prems(1) assms(2,3) Suc.prems(2) show ?case
  proof (cases rule: runLoop_turn [where fuel = fuel and k = k and ledger = ledger and ex = ex])
    case (ends s' cmd ex' out err)
    have "exchange_inv s' cmd" using ends(1) unfolding assms(2) by (rule exchange_run_inv)
    then have "cmd = None" using ends(2) by (cases "xs_phase s'") (auto simp: exchange_inv_def)
    then show ?thesis using ends(1,3,4) sh by (intro exI [of _ out] exI [of _ err]) auto
  next
    case (continues s' ex' c event')
    from Suc.IH [OF continues(3,6)] show ?thesis unfolding sh continues(4) .
  qed
qed

section \<open>The backoff ledger is left balanced\<close>

text \<open>
  Concurrent exchanges share the ledger. In every gap they may do what they like on it, as
  long as the ledger stays one of an interleaving of calls and the call that this exchange
  has under way is not observed by others: \<open>before\<close> and \<open>during\<close> give the calls of the others
  under way after a gap from those under way before it.
\<close>

type_synonym gap = "targetBackoffLedger \<Rightarrow> targetObservation list \<Rightarrow> targetObservation list"

definition interleaved ::
    "(nat \<Rightarrow> 'p moment) \<Rightarrow> (nat \<Rightarrow> gap) \<Rightarrow> (nat \<Rightarrow> targetObservation \<Rightarrow> gap) \<Rightarrow> bool" where
  "interleaved env before during \<longleftrightarrow> (\<forall>k l ob out.
     (ledger_run l out \<longrightarrow> ledger_run (mo_before (env k) l) (before k l out)) \<and>
     (ledger_run l (ob # out) \<longrightarrow> ledger_run (mo_during (env k) ob l) (ob # during k ob l out)))"

text \<open>The calls of the others, as only their own gaps change them.\<close>

inductive others ::
    "(nat \<Rightarrow> gap) \<Rightarrow> (nat \<Rightarrow> targetObservation \<Rightarrow> gap) \<Rightarrow> targetObservation list \<Rightarrow>
     targetObservation list \<Rightarrow> bool" for before during out where
  start: "others before during out out"
| before: "others before during out x \<Longrightarrow> others before during out (before k l x)"
| during: "others before during out x \<Longrightarrow> others before during out (during k ob l x)"

lemma performCommand_ledger:
  assumes "environment_ok env" "interleaved env before during" "ledger_run l x"
    and "others before during out x"
  shows "\<exists>y. others before during out y \<and> ledger_run (snd (performCommand (env k) input c l)) y"
proof (cases c)
  case (callProviderCommand tid backend document)
  obtain ob l1 where b: "begin_call (mo_begin (env k)) (observation_key input backend)
      (mo_before (env k) l) = (ob, l1)" by (metis surj_pair)
  define y where "y = during k ob l1 (before k l x)"
  have "ledger_run (mo_before (env k) l) (before k l x)"
    using assms(2,3) by (simp add: interleaved_def)
  then have "ledger_run l1 (ob # before k l x)" using b by (rule ledger_run.begin_call)
  then have d: "ledger_run (mo_during (env k) ob l1) (ob # y)"
    using assms(2) by (simp add: interleaved_def y_def)
  obtain event where e: "executeCommand (mo_io (env k)) c = Inr event"
    using executeCommand_total [OF assms(1)] by (auto simp: is_ok_iff)
  have "ledger_run (observe (mo_parse_time (env k)) (mo_observe (env k)) ob (call_report event)
      (mo_during (env k) ob l1)) (remove1 ob (ob # y))"
    using d by (rule ledger_run.finish) simp_all
  moreover have "others before during out y"
    unfolding y_def by (intro others.during others.before assms(4))
  ultimately show ?thesis using callProviderCommand b e by (auto simp: performCommand_def)
qed (use assms(3,4) in \<open>auto simp: performCommand_def\<close>)

text \<open>Every way out of the loop leaves the ledger with the calls of the others.\<close>

lemma runLoop_ledger:
  assumes "environment_ok env" "interleaved env before during"
    and "ledger_run (fst sh) x" "others before during out x"
  shows "\<exists>y. others before during out y \<and>
    ledger_run (fst (snd (snd (runLoop fuel k env sh s event)))) y"
  using assms(3,4)
proof (induction fuel arbitrary: k sh s event x)
  case (Suc fuel)
  obtain ledger ex where sh: "sh = (ledger, ex)" by (cases sh)
  have same: "\<exists>y. others before during out y \<and> ledger_run ledger y" using Suc.prems sh by auto
  show ?case
  proof (cases "reduce (mo_services (env k)) (mo_exceptions (env k) ex) s event")
    case (Inl e)
    then show ?thesis using same by (simp add: sh Let_def)
  next
    case (Inr r)
    obtain s' cmd ex' where r: "r = ((s', cmd), ex')" by (metis prod.exhaust)
    show ?thesis
    proof (cases "terminal_phase (xs_phase s') \<or> cmd = None")
      case True
      then show ?thesis using same Inr r by (cases "xs_phase s'") (auto simp: sh Let_def)
    next
      case False
      then obtain c where c: "cmd = Some c" by blast
      obtain event' where "executeCommand (mo_io (env k)) c = Inr event'"
        using executeCommand_total [OF assms(1)] by (auto simp: is_ok_iff)
      then obtain l1 where p: "performCommand (env k) (xs_input s') c ledger = (Inr event', l1)"
        using performCommand_result [of "env k" "xs_input s'" c ledger]
        by (cases "performCommand (env k) (xs_input s') c ledger") simp
      obtain y where "others before during out y" "ledger_run l1 y"
        using performCommand_ledger [OF assms(1,2), of ledger x out k "xs_input s'" c] Suc.prems sh p
        by auto
      then show ?thesis
        using Suc.IH [of "(l1, ex')" y "Suc k" s' event'] False Inr r c p
        by (cases "xs_phase s'") (simp_all add: sh Let_def)
    qed
  qed
qed auto

section \<open>Termination without tools\<close>

text \<open>
  Without calls to remote tools there is one provider round, every transition moves to a
  later phase, and the number of attempts is bounded; so the loop ends within its limit.
\<close>

definition tool_free :: "'p services \<Rightarrow> bool" where
  "tool_free sv \<longleftrightarrow> (\<forall>run client calls. sv_mcp_Calls sv run client = Inr calls \<longrightarrow> calls = [])"

fun rank :: "'p phase \<Rightarrow> int" where
  "rank (loadingCheckpointPhase _ _) = 1"
| "rank preparingMCPPhase = 2"
| "rank (callingProviderPhase attemptID _) = 1 + 2 * attemptID"
| "rank (resolvingTargetFactsPhase attemptID _) = 2 + 2 * attemptID"
| "rank _ = 0"

text \<open>Where an advance leads: to the next call of the same round, or to the end.\<close>

definition advanced :: "'p exchangeState \<Rightarrow> 'p exchangeState \<Rightarrow> bool" where
  "advanced s s' \<longleftrightarrow>
     terminal_phase (xs_phase s') \<or>
     (\<exists>call. xs_phase s' = callingProviderPhase (int (length (xs_providerCallAttempts s)) + 1) call) \<and>
     xs_providerUsage s' = xs_providerUsage s"

lemma ended_advanced: "ended s s' cmd \<Longrightarrow> advanced s s'"
  by (auto simp: ended_def advanced_def)

lemma dispatched_advanced: "dispatched s sel s' cmd \<Longrightarrow> advanced s s'"
  using control_cong(4) [of s' s] by (auto simp: dispatched_def advanced_def)

lemma advanceProviderExecutionFrom_advanced:
  assumes "advanceProviderExecutionFrom sv ex s sel = Inr (s', cmd)" "admissible s sel"
    "after_failure s"
  shows "advanced s s'"
proof -
  have "\<exists>r. advanceFrom (length (rp_targets (xs_route s)) + 2) sv ex s sel = Some r"
    by (rule advanceFrom_fuel) auto
  then have "advanceFrom (length (rp_targets (xs_route s)) + 2) sv ex s sel = Some (Inr (s', cmd))"
    using assms(1) by (auto simp only: advanceProviderExecutionFrom_def option.sel)
  from advanceFrom_outcome [OF this assms(2,3)] show ?thesis
    using ended_advanced dispatched_advanced by metis
qed

lemma advanceProviderExecution_advanced:
  assumes "advanceProviderExecution sv ex s = Inr (s', cmd)" "resting s"
  shows "advanced s s'"
proof (cases "selectNextProviderCall s")
  case None
  then have "terminateProviderExecution s = Inr (s', cmd)"
    using assms by (auto simp: advanceProviderExecution_def resting_def)
  then show ?thesis by (intro ended_advanced [of s s' cmd] terminateProviderExecution_ended)
next
  case (Some sel)
  then have "advanceProviderExecutionFrom sv ex s sel = Inr (s', cmd)"
    using assms by (auto simp: advanceProviderExecution_def resting_def)
  then show ?thesis
    using selectNextProviderCall_admissible [OF assms(2) Some] resting_after_failure [OF assms(2)]
    by (rule advanceProviderExecutionFrom_advanced)
qed

lemma planAndPrepare_phase:
  "planAndPrepare sv s = Inr (s', cmd) \<Longrightarrow>
     terminal_phase (xs_phase s') \<or> xs_phase s' = preparingMCPPhase"
  by (auto simp: planAndPrepare_def beginMCPPreparation_def fail_exchange_def early_return
      split: sum.splits)

lemma reduceStarting_phase:
  assumes "reduceStarting sv s event = Inr (s', cmd)"
  shows "terminal_phase (xs_phase s') \<or> xs_phase s' = preparingMCPPhase \<or>
    (\<exists>e k. xs_phase s' = loadingCheckpointPhase e k)"
proof -
  have new: "terminal_phase (xs_phase s') \<or> xs_phase s' = preparingMCPPhase"
    if "beginNewExchange sv s1 = Inr (s', cmd)" for s1
    using that by (cases "sv_PrepareBegin sv (in_request (xs_input s1))")
      (auto simp: beginNewExchange_def fail_exchange_def dest: planAndPrepare_phase)
  show ?thesis
    using assms new
    by (auto simp: reduceStarting_def Let_def early_return fail_exchange_def
        split: exchangeEvent.splits sum.splits option.splits if_splits)
qed

lemma reduceLoadingCheckpoint_phase:
  assumes "reduceLoadingCheckpoint sv s explicit key event = Inr (s', cmd)"
  shows "terminal_phase (xs_phase s') \<or> xs_phase s' = preparingMCPPhase"
proof -
  obtain rec found err where e: "event = checkpointLoaded rec found err"
    using assms by (auto simp: reduceLoadingCheckpoint_def split: exchangeEvent.splits)
  show ?thesis
  proof (cases "err \<noteq> None \<or> explicit \<and> \<not> found")
    case True
    then show ?thesis
      using assms e
      by (auto simp: reduceLoadingCheckpoint_def fail_exchange_def split: option.splits if_splits)
  next
    case False
    then obtain s1 d where "prepareLoaded sv s explicit key rec found = Inr (s1, d)"
      using assms e by (auto simp: reduceLoadingCheckpoint_def early_return split: if_splits)
    then show ?thesis
      using assms e False
      by (cases d) (auto simp: reduceLoadingCheckpoint_def Let_def fail_exchange_def
          split: if_splits dest!: planAndPrepare_phase)
  qed
qed

lemma reducePreparingMCP_advanced:
  assumes "reducePreparingMCP sv ex s event = Inr (s', cmd)" "unstarted s"
  shows "advanced s s'"
proof -
  have adv: "advanced s s'"
    if "advanceProviderExecution sv ex (s\<lparr>xs_draft := None, xs_prepared := Some n,
      xs_reusablePrefix := p, xs_mcp := r, xs_effectiveChanges := c\<rparr>) = Inr (s', cmd)" for n p r c
    using advanceProviderExecution_advanced [OF that] assms(2)
    by (simp add: resting_def unstarted_def call_ledger_empty advanced_def)
  obtain full run ch err where e: "event = mcpPrepared full run ch err"
    using assms(1) by (auto simp: reducePreparingMCP_def split: exchangeEvent.splits)
  show ?thesis
  proof (cases err)
    case None
    then obtain draft where d: "xs_draft s = Some draft"
      using assms(1) e by (auto simp: reducePreparingMCP_def early_return)
    show ?thesis
      using assms(1) e None d adv
      by (cases "sv_draft_Finalize sv draft full")
        (auto simp: reducePreparingMCP_def advanced_def fail_exchange_def)
  next
    case (Some x)
    then show ?thesis
      using assms(1) e by (auto simp: reducePreparingMCP_def advanced_def fail_exchange_def)
  qed
qed

lemma settle_advanced [simp]:
  "xs_providerCallAttempts s \<noteq> [] \<Longrightarrow> advanced (settle st f s) s' \<longleftrightarrow> advanced s s'"
  by (cases "xs_providerCallAttempts s" rule: rev_cases) (simp_all add: advanced_def)

lemma reduceCallingProvider_rank:
  assumes "exchange_inv s cmd0" "xs_phase s = callingProviderPhase attemptID call" "tool_free sv"
    and "reduceCallingProvider sv ex s attemptID call event = Inr (s', cmd)"
  shows "advanced s s' \<or>
    xs_phase s' = resolvingTargetFactsPhase attemptID (pc_backend call) \<and>
    xs_providerUsage s' = xs_providerUsage s"
proof -
  have i: "call_ledger_ok s" "at_last providerCallAttemptCalling 0 s" "xs_prepared s \<noteq> None"
    and id: "attemptID = int (length (xs_providerCallAttempts s))"
    using assms(1,2) by (simp_all add: exchange_inv_def)
  have ne: "xs_providerCallAttempts s \<noteq> []"
    "at_status (last_attempt s) = providerCallAttemptCalling"
    using i(2) by (simp_all add: at_last_def)
  have none: "at_failure (last_attempt s) = None"
    using ledger_last(1) [OF i(1) ne(1)] ne(2)
    by (cases "at_failure (last_attempt s)") (auto simp: attempt_ok_def)
  have f: "findProviderCallAttempt s (int (length (xs_providerCallAttempts s))) =
      Some (last_attempt s)" using active_index(2) [OF ne(1)] .
  have adv: "advanced s s'"
    if "advanceProviderExecution sv ex (settle providerCallAttemptFailed (Some ft) s) = Inr (s', cmd)"
    for ft
    using advanceProviderExecution_advanced [OF that settle_resting [OF i]] ne(1) by simp
  consider failure where "event = providerCallFailed attemptID failure"
      "reduceCallFailed sv ex s attemptID call (last_attempt s) failure = Inr (s', cmd)"
    | ingress where "event = providerIngressReceived attemptID ingress"
      "reduceIngress sv ex s attemptID call (last_attempt s) ingress = Inr (s', cmd)"
    using assms(4) f id
    by (auto simp: reduceCallingProvider_def split: exchangeEvent.splits if_splits)
  then show ?thesis
  proof cases
    case (1 failure)
    then show ?thesis
      using adv unfolding id
      by (auto simp: reduceCallFailed_def failProviderCallAttempt_active [OF ne] early_return
          split: if_splits)
  next
    case (2 ingress)
    obtain result initial progressive where comp:
      "sv_completeProviderCall sv call ingress (xs_swobuResponseID s) = (result, initial, progressive)"
      by (metis prod_cases3)
    note red = 2(2) [unfolded id reduceIngress_def comp
        completeProviderCallAttempt_active [OF ne none], simplified]
    show ?thesis
    proof (cases result)
      case (Inl e)
      then show ?thesis using red adv by (simp add: failProviderCallAttempt_active [OF ne])
    next
      case (Inr completion)
      show ?thesis
        using red Inr assms(3)
        by (cases completion)
          (auto simp: advanced_def fail_exchange_def Let_def tool_free_def split: sum.splits if_splits)
    qed
  qed
qed

lemma reduceResolvingTargetFacts_advanced:
  assumes "exchange_inv s cmd0" "xs_phase s = resolvingTargetFactsPhase attemptID backend"
    and "reduceResolvingTargetFacts sv ex s attemptID event = Inr ((s', cmd), ex')"
  shows "advanced s s'"
proof -
  have r: "resting s" using reduceResolvingTargetFacts_cases [OF assms] by blast
  show ?thesis
    using reduceResolvingTargetFacts_cases [OF assms] advanceProviderExecution_advanced [OF _ r]
      advanceProviderExecutionFrom_advanced [OF _ _ resting_after_failure [OF r]]
    by blast
qed

lemma reduce_rank:
  assumes "fresh_state s \<or> exchange_inv s cmd0" "xs_providerUsage s = []" "tool_free sv"
    and "reduce sv ex s event = Inr ((s', cmd), ex')"
  shows "terminal_phase (xs_phase s') \<or>
    rank (xs_phase s) < rank (xs_phase s') \<and> xs_providerUsage s' = []"
proof -
  have inv: "exchange_inv s' cmd" using assms(1,4) reduce_fresh reduce_inv by metis
  have early: "xs_providerUsage s' = []"
    if "xs_phase s' = preparingMCPPhase \<or> (\<exists>e k. xs_phase s' = loadingCheckpointPhase e k)"
    using that inv by (auto simp: exchange_inv_def unstarted_def)
  have adv: "?thesis" if "advanced s s'" "rank (xs_phase s) < 3 + 2 * int (length (xs_providerCallAttempts s))"
    using that assms(2) by (auto simp: advanced_def)
  show ?thesis
  proof (cases "xs_phase s")
    case startingPhase
    have "xs_phase s' = preparingMCPPhase \<or>
        (\<exists>e k. xs_phase s' = loadingCheckpointPhase e k) \<or> terminal_phase (xs_phase s')"
      using assms(4) startingPhase reduceStarting_phase [of sv s event s' cmd]
      by (auto simp: reduce_def)
    then show ?thesis using startingPhase early by auto
  next
    case (loadingCheckpointPhase explicit key)
    then have "terminal_phase (xs_phase s') \<or> xs_phase s' = preparingMCPPhase"
      using assms(4) reduceLoadingCheckpoint_phase [of sv s explicit key event s' cmd]
      by (auto simp: reduce_def)
    then show ?thesis using early loadingCheckpointPhase by auto
  next
    case preparingMCPPhase
    then have "unstarted s" using assms(1) by (auto simp: exchange_inv_def fresh_state_def)
    then have "advanced s s'"
      using assms(4) preparingMCPPhase reducePreparingMCP_advanced [of sv ex s event s' cmd]
      by (auto simp: reduce_def)
    then show ?thesis using adv preparingMCPPhase by simp
  next
    case (callingProviderPhase attemptID call)
    then have i: "exchange_inv s cmd0" using assms(1) by (auto simp: fresh_state_def)
    then have id: "attemptID = int (length (xs_providerCallAttempts s))"
      using callingProviderPhase by (simp add: exchange_inv_def)
    have "reduceCallingProvider sv ex s attemptID call event = Inr (s', cmd)"
      using assms(4) callingProviderPhase by (simp add: reduce_def)
    from reduceCallingProvider_rank [OF i callingProviderPhase assms(3) this] show ?thesis
      using adv callingProviderPhase id assms(2) by auto
  next
    case (resolvingTargetFactsPhase attemptID backend)
    then have i: "exchange_inv s cmd0" using assms(1) by (auto simp: fresh_state_def)
    then have id: "attemptID = int (length (xs_providerCallAttempts s))"
      using resolvingTargetFactsPhase by (simp add: exchange_inv_def)
    have "reduceResolvingTargetFacts sv ex s attemptID event = Inr ((s', cmd), ex')"
      using assms(4) resolvingTargetFactsPhase by (simp add: reduce_def)
    from reduceResolvingTargetFacts_advanced [OF i resolvingTargetFactsPhase this] show ?thesis
      using adv resolvingTargetFactsPhase id by simp
  next
    case (callingMCPPhase m)
    then have i: "call_ledger_ok s" "at_last providerCallAttemptHandoffReady 1 s"
      using assms(1) by (auto simp: fresh_state_def exchange_inv_def)
    then have "0 \<le> at_providerRound (last_attempt s)"
      using ledger_last(1) [OF i(1)] by (simp add: at_last_def attempt_ok_def)
    then show ?thesis using i(2) assms(2) by (simp add: at_last_def current_round_def)
  qed (use assms(4) in \<open>simp_all add: reduce_def\<close>)
qed

definition routes_within :: "nat \<Rightarrow> Workspace \<Rightarrow> bool" where
  "routes_within n w \<longleftrightarrow>
     (\<forall>requested route. ResolveRoute w requested = Inr route \<longrightarrow> length (route_targets route) \<le> n)"

lemma run_route_length:
  assumes "exchange_run (initial_state zero input rid ch backoff) s cmd"
    "routes_within n (in_workspace input)"
  shows "length (rp_targets (xs_route s)) \<le> n"
proof -
  have "advances UNIV (initial_state zero input rid ch backoff) s" using assms(1) by (rule exchange_run_evolves)
  then show ?thesis
    using assms(2)
    by (auto simp: advances_def initial_state_def plan_of_def routes_within_def length_BuildPlan)
qed

lemma single_round_rank:
  assumes "exchange_inv s cmd" "xs_providerUsage s = []" "\<not> terminal_phase (xs_phase s)"
    "length (rp_targets (xs_route s)) \<le> n"
  shows "rank (xs_phase s) \<le> 2 + 4 * int n"
proof -
  have "length (xs_providerCallAttempts s) \<le> 2 * n"
    if l: "at_last st 0 s"  for st
  proof -
    have ok: "call_ledger_ok s" using assms(1) by (simp add: exchange_inv_def)
    have ne: "xs_providerCallAttempts s \<noteq> []" and z: "at_providerRound (last_attempt s) = 0"
      using l assms(2) by (simp_all add: at_last_def current_round_def)
    have "at_providerRound a = 0" if "a \<in> set (xs_providerCallAttempts s)" for a
      using ledger_last(2) [OF ok ne] call_ledger_okD(1) [OF ok] that z
      by (fastforce simp: list_all_iff follows_def attempt_ok_def)
    then have "filter (\<lambda>a. at_providerRound a = 0) (xs_providerCallAttempts s) =
        xs_providerCallAttempts s" by (intro filter_True) simp
    then show ?thesis using calls_per_round [OF ok, of 0] assms(4) by simp
  qed
  then show ?thesis
    using assms(1,3) by (cases "xs_phase s") (force simp: exchange_inv_def)+
qed

lemma runLoop_ends:
  assumes "environment_ok env" "\<And>k. tool_free (mo_services (env k))"
    and "s0 = initial_state zero input rid ch backoff" "routes_within n (in_workspace input)"
    and "workspace_projects (in_workspace input)" "plan_projects s"
    and "awaited s0 s event" "fresh_state s \<or> (\<exists>cmd. exchange_inv s cmd)"
    and "xs_providerUsage s = []" "2 + 4 * int n - rank (xs_phase s) < int fuel"
  shows "\<exists>s' out err. fst (runLoop fuel k env sh s event) = Inr (out, err) \<and>
    exchange_run s0 s' None \<and> finished s' out err"
  using assms(6-)
proof (induction fuel arbitrary: k sh s event)
  case 0
  have "rank (xs_phase s) \<le> 2 + 4 * int n"
  proof (cases "fresh_state s \<or> terminal_phase (xs_phase s)")
    case True
    then show ?thesis by (cases "xs_phase s") (auto simp: fresh_state_def)
  next
    case False
    then obtain cmd where "exchange_inv s cmd" using "0.prems"(3) by blast
    moreover have "length (rp_targets (xs_route s)) \<le> n"
      using "0.prems"(2) False assms(3,4) run_route_length
      by (auto simp: awaited_def initial_fresh)
    ultimately show ?thesis using single_round_rank "0.prems"(4) False by blast
  qed
  then show ?case using "0.prems"(5) by simp
next
  case (Suc fuel)
  obtain ledger ex where sh: "sh = (ledger, ex)" by (cases sh)
  from assms(1) Suc.prems(2) assms(3,5) Suc.prems(1) show ?case
  proof (cases rule: runLoop_turn [where fuel = fuel and k = k and ledger = ledger and ex = ex])
    case (ends s' cmd ex' out err)
    have "exchange_inv s' cmd" using ends(1) unfolding assms(3) by (rule exchange_run_inv)
    then have "cmd = None" using ends(2) by (cases "xs_phase s'") (auto simp: exchange_inv_def)
    then show ?thesis using ends(1,3,4) sh by auto
  next
    case (continues s' ex' c event')
    have inv: "exchange_inv s' (Some c)"
      using continues(1) unfolding assms(3) by (rule exchange_run_inv)
    have "rank (xs_phase s) < rank (xs_phase s') \<and> xs_providerUsage s' = []"
      using reduce_rank [OF _ Suc.prems(4) assms(2) continues(5)] continues(2) Suc.prems(3) by blast
    then show ?thesis
      unfolding sh continues(4) using Suc.prems(5) inv by (intro Suc.IH [OF continues(6,3)]) auto
  qed
qed

end
