(* ===== verification/Exchange_Claims.thy ===== *)
theory Exchange_Claims
  imports Exchange_Properties
begin

text \<open>
  The properties of the exchange, and a concrete exchange on which they are evaluated: a
  route with two targets, whose first target is unavailable.
\<close>

section \<open>A concrete exchange\<close>

definition sample_services :: "nat services" where
  "sample_services = \<lparr>sv_catalog = sample_catalog, sv_randomness = \<lparr>sha256 = (\<lambda>_. replicate 32 0), draw = (\<lambda>_ _ i. i)\<rparr>,
     sv_hash = (\<lambda>_. ''digest''), sv_b64 = (\<lambda>x. x), sv_hasCheckpointStore = True,
     sv_hasResponseIDs = True, sv_Model = (\<lambda>_. ''main''),
     sv_PreviousSwobuResponseID = (\<lambda>_. Inr None), sv_PrepareBegin = (\<lambda>r. Inr r),
     sv_PrepareResume = (\<lambda>r _. Inr r), sv_ReuseCheckpoint = (\<lambda>r. r),
     sv_ReuseVisibleHistory = (\<lambda>k _ _. k), sv_record_History = (\<lambda>_. None),
     sv_record_ExecutionAffinity = (\<lambda>_. zeroKey), sv_record_Request = (\<lambda>r. r),
     sv_history_Scheme = (\<lambda>_. []), sv_fingerprint_Scheme = (\<lambda>_. []),
     sv_draft_Current = (\<lambda>d. d), sv_draft_Finalize = (\<lambda>_ r. Inr r),
     sv_resolved_Request = (\<lambda>r. r), sv_PreviousHistory = (\<lambda>_ _ _. None),
     sv_ContinueAfterLocalResult = (\<lambda>r _ _. Inr (r + 1)), sv_unknownReusablePrefix = 0,
     sv_reusablePrefixEvidence = (\<lambda>_ _. 1),
     sv_ResolveBackend = (\<lambda>t. Inr \<lparr>bk_Target = t, bk_Codec = Some 0, bk_Transport = Some 0\<rparr>),
     sv_ClientCodec = Some 0, sv_mcp_AttemptRequest = (\<lambda>_ r. Inr r),
     sv_mcp_Calls = (\<lambda>_ _. Inr []), sv_projectOpaqueReplay = (\<lambda>r _ _. Inr (r, False, [])),
     sv_BuildAttemptToolNames = (\<lambda>r. Inr (r, [])), sv_bindRequestToTarget = (\<lambda>r _. r),
     sv_ExecutionContract = (\<lambda>_ _. Inr ()), sv_Encode = (\<lambda>_ _ _ c. (Inr 5, [], [], c)),
     sv_delayClientHandoffFor = (\<lambda>_ _. Inr False),
     sv_completeProviderCall = (\<lambda>_ ingress _. (Inr (handedOff ingress), [], [])),
     sv_Usage = (\<lambda>_. 0), sv_WithSumOfUsage = (\<lambda>_ r. r),
     sv_handoffCompleted = (\<lambda>_ r _. Inr r), sv_ConfigureCompatibility = (\<lambda>_ r. r)\<rparr>"

definition sample_io :: "nat io" where
  "sample_io = \<lparr>io_Get = (\<lambda>_ _. (0, False, None)), io_FindByHistory = (\<lambda>_ _. (0, False, None)),
     io_Open = (\<lambda>r _. (r, None, [], None)),
     io_Send = (\<lambda>b _. if ts_TargetID (bk_Target b) = ''a''
       then Inl (attempt_error (AttemptNotDispatched (UnavailableError None))) else Inr 7),
     io_CharacterizeTargetFact = (\<lambda>_ _. None), io_Call = (\<lambda>_ _. (0, None)),
     io_BeginBatch = (\<lambda>_ _. None)\<rparr>"

text \<open>A call that another exchange begins on the ledger before every call of this one.\<close>

definition sample_other :: targetBackoffKey where
  "sample_other = \<lparr>bk_workspace = ''v'', bk_targetID = ''z'', bk_targetVersion = 1\<rparr>"

definition sample_before :: "nat \<Rightarrow> gap" where
  "sample_before k l out = fst (begin_call 3 sample_other l) # out"

definition sample_during :: "nat \<Rightarrow> targetObservation \<Rightarrow> gap" where
  "sample_during k ob l out = out"

definition sample_moment :: "nat moment" where
  "sample_moment = \<lparr>mo_services = sample_services, mo_io = sample_io, mo_begin = 10,
     mo_observe = 20, mo_parse_time = (\<lambda>_. None), mo_exceptions = (\<lambda>x. x),
     mo_before = snd \<circ> begin_call 3 sample_other, mo_during = (\<lambda>_ l. l), mo_error_text = (\<lambda>_. []),
     mo_NativeReusablePrefix = 2\<rparr>"

definition sample_workspace :: Workspace where
  "sample_workspace = \<lparr>ws_slug = ''w'', ws_default = ''main'',
     ws_routes = [(''main'', \<lparr>route_name = ''main'', route_tiers =
       [[sample_target ''a'' 1 ''gpt'', sample_target ''b'' 1 ''gpt'']]\<rparr>)],
     ws_generations = []\<rparr>"

definition sample_input :: "nat exchangeInput" where
  "sample_input = \<lparr>in_exchangeID = ''x'', in_clientDelivery = BufferedDelivery, in_request = 3,
     in_rebasedRequest = None, in_requestFingerprint = 4, in_mcpAccess = 0,
     in_explicitCacheLocality = ''locality'', in_explicitExecutionAffinity = ''affinity'',
     in_workspace = sample_workspace\<rparr>"

definition sample_initial :: "nat exchangeState" where
  "sample_initial = initial_state 0 sample_input ''resp'' [] (\<lambda>_. False)"

definition sample_env :: "nat \<Rightarrow> nat moment" where
  "sample_env = (\<lambda>_. sample_moment)"

definition outcome1 :: "(nat exchangeState \<times> nat command option) \<times> targetExceptions" where
  "outcome1 = projr (reduce sample_services {} sample_initial exchangeStarted)"

definition event1 :: "nat exchangeEvent" where
  "event1 = projr (executeCommand sample_io (the (snd (fst outcome1))))"

definition outcome2 :: "(nat exchangeState \<times> nat command option) \<times> targetExceptions" where
  "outcome2 = projr (reduce sample_services {} (fst (fst outcome1)) event1)"

definition event2 :: "nat exchangeEvent" where
  "event2 = projr (executeCommand sample_io (the (snd (fst outcome2))))"

definition outcome3 :: "(nat exchangeState \<times> nat command option) \<times> targetExceptions" where
  "outcome3 = projr (reduce sample_services {} (fst (fst outcome2)) event2)"

definition sample_state :: "nat exchangeState" where "sample_state = fst (fst outcome3)"

definition sample_command :: "nat command option" where "sample_command = snd (fst outcome3)"

text \<open>Each step of the exchange, evaluated.\<close>

definition step_ok ::
    "nat exchangeState \<Rightarrow> nat exchangeEvent \<Rightarrow> bool" where
  "step_ok s event = (case reduce sample_services {} s event of
     Inr ((_, Some c), _) \<Rightarrow> is_ok (executeCommand sample_io c) | _ \<Rightarrow> False)"

lemma step_okD:
  assumes "step_ok s event"
  defines "r \<equiv> projr (reduce sample_services {} s event)"
  shows "reduce sample_services {} s event = Inr ((fst (fst r), snd (fst r)), snd r)"
    "snd (fst r) = Some (the (snd (fst r)))"
    "executeCommand sample_io (the (snd (fst r))) =
       Inr (projr (executeCommand sample_io (the (snd (fst r)))))"
  using assms
  by (auto simp: step_ok_def is_ok_iff split: sum.splits option.splits prod.splits)

lemma sample_steps:
  "step_ok sample_initial exchangeStarted" "step_ok (fst (fst outcome1)) event1"
  "step_ok (fst (fst outcome2)) event2"
  by code_simp+

lemma sample_attempts:
  "map (\<lambda>a. (at_candidateIndex a, at_failure a = None)) (xs_providerCallAttempts sample_state) =
     [(0, False), (1, True)]"
  by code_simp

lemma sample_exchange_run: "exchange_run sample_initial sample_state sample_command"
proof -
  note step1 = step_okD [OF sample_steps(1), folded outcome1_def, folded event1_def]
  note step2 = step_okD [OF sample_steps(2), folded outcome2_def, folded event2_def]
  note step3 = step_okD [OF sample_steps(3), folded outcome3_def]
  have "exchange_run sample_initial (fst (fst outcome1)) (Some (the (snd (fst outcome1))))"
    using exchange_run.start [OF step1(1)] step1(2) by simp
  from exchange_run.step [OF this step1(3) step2(1)] step2(2)
  have "exchange_run sample_initial (fst (fst outcome2)) (Some (the (snd (fst outcome2))))" by simp
  from exchange_run.step [OF this step2(3) step3(1)] show ?thesis
    by (simp add: sample_state_def sample_command_def)
qed

lemma sample_command_Some: "\<exists>c. sample_command = Some c"
  using step_okD(2) [OF sample_steps(3), folded outcome3_def] by (auto simp: sample_command_def)

lemma sample_services_ok: "services_ok sample_services" "tool_free sample_services"
  "randomness_ok (sv_randomness sample_services)"
  by (auto simp: services_ok_def services_return_def tool_free_def sample_services_def
      randomness_ok_def)

lemma sample_environment: "environment_ok sample_env"
  "interleaved sample_env sample_before sample_during"
proof -
  have "fst (AttemptNotDispatched e) \<noteq> ExecutionInvalid" for e
    by (simp add: AttemptNotDispatched_def)
  then show "environment_ok sample_env"
    using sample_services_ok(1,3)
    by (auto simp: environment_ok_def sample_env_def sample_moment_def sample_io_def
        io_returns_def returned_def split: if_splits)
qed (auto simp: interleaved_def sample_env_def sample_moment_def sample_before_def
    sample_during_def intro: ledger_run.begin_call)

lemma sample_projects: "workspace_projects (in_workspace sample_input)"
  "plan_projects (initial_state 0 sample_input ''resp'' [] backoff)"
proof -
  have trim: "TrimSpace ''openai'' = ''openai''" by code_simp
  then show "workspace_projects (in_workspace sample_input)"
    by (simp add: workspace_projects_def sample_input_def sample_workspace_def route_targets_def
        projectable_def sample_target_def shape_key_def supported_ref_def)
qed (simp add: plan_projects_def initial_state_def)

section \<open>Properties\<close>

lemma initial_projects: "plan_projects (initial_state zero input rid ch backoff)"
  by (simp add: plan_projects_def initial_state_def)

text \<open>
  C3: an exchange calls only targets it is allowed to call. In every reachable state, each
  provider call attempt went to a target of the plan of a route that the workspace resolves,
  in the exact generation (ID, version and model) that the plan holds, and never to a
  generation that the backoff snapshot of the exchange suppresses.
\<close>

theorem exchange_calls_planned:
  assumes "exchange_run (initial_state zero input rid ch backoff) s cmd"
    and "a \<in> set (xs_providerCallAttempts s)"
  shows "\<exists>requested rnd locality route t.
    ResolveRoute (in_workspace input) requested = Inr route \<and>
    rp_targets (xs_route s) = BuildPlan rnd locality route \<and>
    route_at (xs_route s) (at_candidateIndex a) = Some t \<and>
    ts_TargetID (at_target a) = target_id t \<and> ts_TargetVersion (at_target a) = target_version t \<and>
    ts_Model (at_target a) = target_model t \<and> \<not> backoff (target_id t, target_version t)"
proof -
  have e: "advances UNIV (initial_state zero input rid ch backoff) s"
    using assms(1) by (rule exchange_run_evolves)
  have "exchange_inv s cmd" using assms(1) by (rule exchange_run_inv)
  then have "attempt_ok s a"
    using assms(2) call_ledger_okD(1) [of s] by (auto simp: exchange_inv_def list_all_iff)
  then obtain t where t: "route_at (xs_route s) (at_candidateIndex a) = Some t"
    "\<not> snapshot_active (xs_targetBackoff s) t" "ts_TargetID (at_target a) = target_id t"
    "ts_TargetVersion (at_target a) = target_version t" "ts_Model (at_target a) = target_model t"
    by (auto simp: attempt_ok_def eligible_def planned_target_def)
  have "rp_targets (xs_route s) \<noteq> []" using t(1) by (auto simp: route_at_def split: if_splits)
  then have "plan_of UNIV input (xs_route s)"
    using e by (auto simp: advances_def initial_state_def)
  then obtain requested rnd locality route where
    "ResolveRoute (in_workspace input) requested = Inr route"
    "rp_targets (xs_route s) = BuildPlan rnd locality route"
    by (auto simp: plan_of_def)
  moreover have "\<not> backoff (target_id t, target_version t)"
    using t(2) e by (simp add: advances_def initial_state_def snapshot_active_def)
  ultimately show ?thesis using t by blast
qed

text \<open>
  C4: failover is ordered and justified. Two consecutive attempts of an exchange are related in
  one of three ways: the first failed with a rejection and the second is the one further
  request to the same target; or the first failed as unavailable or rejected and the second
  goes to a later target of the plan; or the first response was held back for tool calls and
  the second continues with the same target in the next provider round. After a tool round
  only a refused native reference admits another call in the round.
\<close>

theorem exchange_failover_justified:
  assumes "exchange_run (initial_state zero input rid ch backoff) s cmd"
    and "Suc k < length (xs_providerCallAttempts s)"
    and "a = xs_providerCallAttempts s ! k" and "b = xs_providerCallAttempts s ! Suc k"
  shows "case at_failure a of
      Some (_, cause) \<Rightarrow>
        at_providerRound b = at_providerRound a \<and>
        (at_candidateIndex b = at_candidateIndex a \<and>
           at_requestChoice b \<noteq> providerRequestPreferred \<and> has_err is_rejected cause \<or>
         at_candidateIndex a < at_candidateIndex b \<and>
           (has_err is_unavailable cause \<or> has_err is_rejected cause)) \<and>
        (at_providerRound a = 0 \<or> nativeReferenceFailureAdmitsFullHistory a)
    | None \<Rightarrow>
        at_status a = providerCallAttemptHandoffReady \<and>
        at_providerRound b = at_providerRound a + 1 \<and>
        at_candidateIndex b = at_candidateIndex a"
proof -
  have "exchange_inv s cmd" using assms(1) by (rule exchange_run_inv)
  then have "successively follows_attempt (xs_providerCallAttempts s)"
    by (simp add: exchange_inv_def call_ledger_okD(6))
  then have "follows_attempt a b"
    using assms(2-) by (simp add: successively_conv_nth)
  then show ?thesis
    by (auto simp: follows_attempt_def succeeds_def providerFailureAdvancesCandidate_def
        split: option.split)
qed

text \<open>
  C5: the number of provider calls is bounded. In every provider round an exchange calls each
  target of its plan at most twice, and makes at most two calls per target of the plan; no
  call operation (target, form of request, round) is ever issued twice.
\<close>

theorem exchange_calls_bounded:
  assumes "exchange_run (initial_state zero input rid ch backoff) s cmd"
  shows "candidateRoundDispatchCount (xs_providerCallAttempts s) i r \<le> 2 \<and>
    length (filter (\<lambda>a. at_providerRound a = r) (xs_providerCallAttempts s)) \<le>
      2 * length (rp_targets (xs_route s)) \<and>
    distinct (map operation (xs_providerCallAttempts s))"
proof -
  have "exchange_inv s cmd" using assms(1) by (rule exchange_run_inv)
  then have l: "call_ledger_ok s" by (simp add: exchange_inv_def)
  show ?thesis
    using dispatch_ok_count [OF call_ledger_okD(5) [OF l]] calls_per_round [OF l]
      call_ledger_okD(4) [OF l] by blast
qed

text \<open>
  C6: no internal invariant error and no panic is reachable. Whenever an exchange waits for a
  command, the event that executing the command produces is one that the reducer accepts: it
  returns a next state, and neither an error nor a panic, whatever the services answer. The
  services are sound (\<open>services_ok\<close>: they return and do not panic, the compatibility changes
  they report are valid, and a missing MCP run has no calls), and every target of the plan has
  a valid connection of its provider's shape (\<open>plan_projects\<close>); for a target without one the
  reducer panics, as the code does (\<open>unprojectable_target_panics\<close>).
\<close>

theorem reduce_progress:
  assumes "exchange_run (initial_state zero input rid ch backoff) s (Some c)"
    and "executeCommand io c = Inr event" and "services_ok sv" and "plan_projects s"
  shows "\<exists>s' cmd ex'. reduce sv ex s event = Inr ((s', cmd), ex') \<and>
    exchange_run (initial_state zero input rid ch backoff) s' cmd"
proof -
  have "is_ok (reduce sv ex s event)"
    by (rule reduce_answers [OF assms(3) exchange_run_inv [OF assms(1)] assms(2,4)])
  then obtain s' cmd ex' where "reduce sv ex s event = Inr ((s', cmd), ex')"
    by (auto simp: is_ok_iff)
  then show ?thesis using exchange_run.step [OF assms(1,2)] by blast
qed

text \<open>
  C10: what \<open>runExchange\<close> returns, for a workspace all of whose targets have a valid connection
  of their provider's shape (\<open>workspace_projects\<close>) and an environment that satisfies
  \<open>environment_ok\<close> (the services and the I/O return their errors and do not panic, reported
  changes are valid, the shuffle draws within its bounds, and a transport error carries its
  attempt facts). It never panics and never reports an invariant error: it returns either the
  output of a run that has reached a terminal phase (a response and no error, or no response
  and the problem, with the target and the number of provider calls of that run), or the error
  of the transition limit.
\<close>

theorem runExchange_outcome:
  assumes "environment_ok env" and "workspace_projects (in_workspace input)"
    and "validateCheckpointRuntime (mo_services (env 0)) = Inr ()"
    and "ValidateChanges ch = Inr ()"
  shows "\<exists>out err. fst (runExchange env now zero input ch (Inr rid) (ledger, ex)) = Inr (out, err) \<and>
    ((\<exists>s. exchange_run (initial_state zero input rid ch
          (fst (snapshot now (ws_slug (in_workspace input)) ledger))) s None \<and> finished s out err) \<or>
     (out, err) = (emptyOutput, Some limit_reached))"
proof -
  obtain backoff l where s: "snapshot now (ws_slug (in_workspace input)) ledger = (backoff, l)"
    by (metis surj_pair)
  have "awaited (initial_state zero input rid ch backoff) (initial_state zero input rid ch backoff)
      exchangeStarted" by (simp add: awaited_def)
  from runLoop_outcome [OF assms(1) refl assms(2) this initial_projects] show ?thesis
    by (simp add: runExchange_def assms(3,4) s)
qed

text \<open>
  C11: an exchange that calls no remote tools ends by itself. In a sound environment
  (\<open>environment_ok\<close>), for a workspace all of whose targets have a valid connection of their
  provider's shape and none of whose routes has more than 249 targets, the loop reaches a
  terminal phase before its limit of 1000 transitions, whatever the providers answer.
\<close>

theorem runExchange_terminates:
  assumes "environment_ok env" and "\<And>k. tool_free (mo_services (env k))"
    and "validateCheckpointRuntime (mo_services (env 0)) = Inr ()" and "ValidateChanges ch = Inr ()"
    and "routes_within 249 (in_workspace input)" and "workspace_projects (in_workspace input)"
  shows "\<exists>s out err. fst (runExchange env now zero input ch (Inr rid) (ledger, ex)) = Inr (out, err) \<and>
    exchange_run (initial_state zero input rid ch
      (fst (snapshot now (ws_slug (in_workspace input)) ledger))) s None \<and> finished s out err"
proof -
  obtain backoff l where s: "snapshot now (ws_slug (in_workspace input)) ledger = (backoff, l)"
    by (metis surj_pair)
  define s0 where "s0 = initial_state zero input rid ch backoff"
  have "awaited s0 s0 exchangeStarted" "fresh_state s0" "xs_providerUsage s0 = []"
    "rank (xs_phase s0) = 0"
    by (simp_all add: awaited_def s0_def initial_fresh) (simp_all add: initial_state_def)
  then have "\<exists>s out err. fst (runLoop 1000 0 env (l, ex) s0 exchangeStarted) = Inr (out, err) \<and>
      exchange_run s0 s None \<and> finished s out err"
    by (intro runLoop_ends [OF assms(1,2) s0_def assms(5,6)])
      (auto simp: s0_def initial_projects)
  then show ?thesis by (auto simp: runExchange_def assms(3,4) s s0_def simp del: runLoop.simps)
qed


section \<open>The properties on the concrete exchange\<close>

lemma sample_initial_eq:
  "sample_initial = initial_state 0 sample_input ''resp'' [] (\<lambda>_. False)"
  by (rule sample_initial_def)

lemmas sample_exchange_run' = sample_exchange_run [unfolded sample_initial_eq]

lemma sample_two:
  obtains a b where "xs_providerCallAttempts sample_state = [a, b]" "at_candidateIndex a = 0"
    "at_failure a \<noteq> None" "at_candidateIndex b = 1"
  using sample_attempts by auto

lemma sample_runtime: "validateCheckpointRuntime (mo_services (sample_env 0)) = Inr ()"
  by (simp add: validateCheckpointRuntime_def sample_env_def sample_moment_def sample_services_def)

lemma sample_changes: "ValidateChanges [] = Inr ()"
  by (simp add: ValidateChanges_iff)

lemma sample_routes: "routes_within 249 (in_workspace sample_input)"
proof -
  have "route = zeroRoute \<or> route = snd (hd (ws_routes sample_workspace))"
    if "ResolveRoute sample_workspace requested = Inr route" for requested route
    using that by (auto simp: ResolveRoute_def sample_workspace_def lookup_route_def
        split: if_splits sum.splits option.splits)
  then show ?thesis
    by (fastforce simp: routes_within_def sample_input_def sample_workspace_def zeroRoute_def
        route_targets_def)
qed

lemma sample_plan: "plan_projects sample_state"
proof -
  have trim: "TrimSpace ''openai'' = ''openai''" by code_simp
  have "rp_targets (xs_route sample_state) =
      [sample_target ''a'' 1 ''gpt'', sample_target ''b'' 1 ''gpt'']" by code_simp
  then show ?thesis
    by (simp add: plan_projects_def projectable_def sample_target_def shape_key_def
        supported_ref_def trim)
qed

theorem exchange_calls_planned_witness:
  "\<exists>a t. a \<in> set (xs_providerCallAttempts sample_state) \<and> at_candidateIndex a = 0 \<and>
     ts_TargetID (at_target a) = target_id t \<and> route_at (xs_route sample_state) 0 = Some t"
proof -
  obtain a b where ab: "xs_providerCallAttempts sample_state = [a, b]" "at_candidateIndex a = 0"
    by (rule sample_two)
  then have a: "a \<in> set (xs_providerCallAttempts sample_state)" by simp
  from exchange_calls_planned [OF sample_exchange_run' a] a ab(2) show ?thesis by metis
qed

theorem exchange_failover_justified_witness:
  "\<exists>a b x cause. xs_providerCallAttempts sample_state = [a, b] \<and> at_failure a = Some (x, cause) \<and>
     at_providerRound b = at_providerRound a \<and> at_candidateIndex a < at_candidateIndex b \<and>
     (has_err is_unavailable cause \<or> has_err is_rejected cause)"
proof -
  obtain a b where ab: "xs_providerCallAttempts sample_state = [a, b]" "at_candidateIndex a = 0"
    "at_failure a \<noteq> None" "at_candidateIndex b = 1"
    by (rule sample_two)
  obtain x cause where f: "at_failure a = Some (x, cause)" using ab(3) by auto
  have "Suc 0 < length (xs_providerCallAttempts sample_state)" by (simp add: ab(1))
  from exchange_failover_justified [OF sample_exchange_run' this refl refl] show ?thesis
    by (intro exI [of _ a] exI [of _ b] exI [of _ x] exI [of _ cause]) (simp add: ab(1,2,4) f)
qed

theorem exchange_calls_bounded_witness:
  "candidateRoundDispatchCount (xs_providerCallAttempts sample_state) 0 0 \<le> 2 \<and>
   length (xs_providerCallAttempts sample_state) = 2"
proof -
  have "length (xs_providerCallAttempts sample_state) = 2"
    using arg_cong [OF sample_attempts, of length] by simp
  then show ?thesis using exchange_calls_bounded [OF sample_exchange_run'] by blast
qed

theorem reduce_progress_witness:
  "\<exists>c event s' cmd ex'. sample_command = Some c \<and> executeCommand sample_io c = Inr event \<and>
     reduce sample_services {} sample_state event = Inr ((s', cmd), ex')"
proof -
  obtain c where c: "sample_command = Some c" using sample_command_Some by blast
  have "is_ok (executeCommand (mo_io (sample_env 0)) c)"
    by (rule executeCommand_total [OF sample_environment(1)])
  then obtain event where e: "executeCommand sample_io c = Inr event"
    by (auto simp: is_ok_iff sample_env_def sample_moment_def)
  from reduce_progress [OF sample_exchange_run' [unfolded c] e sample_services_ok(1) sample_plan, of "{}"] c e
  show ?thesis by blast
qed

theorem runExchange_outcome_witness:
  "\<exists>out err. fst (runExchange sample_env 5 0 sample_input [] (Inr ''resp'')
     (newTargetBackoffLedger, {})) = Inr (out, err)"
  using runExchange_outcome [OF sample_environment(1) sample_projects(1) sample_runtime
      sample_changes] by blast

theorem runExchange_terminates_witness:
  "\<exists>s out err. fst (runExchange sample_env 5 0 sample_input [] (Inr ''resp'')
     (newTargetBackoffLedger, {})) = Inr (out, err) \<and> finished s out err"
proof -
  have "tool_free (mo_services (sample_env k))" for k
    using sample_services_ok(2) by (simp add: sample_env_def sample_moment_def)
  from runExchange_terminates [OF sample_environment(1) this sample_runtime sample_changes
      sample_routes sample_projects(1)] show ?thesis by blast
qed


end
