(* ===== verification/Canonical_JSON.thy ===== *)
theory Canonical_JSON
  imports Provider_Failure
begin

text \<open>
  The deterministic JSON objects of the canonical model
  (\<^verbatim>\<open>src/internal/domain/canonical/json_object.go\<close>).

  \<^verbatim>\<open>encoding/json\<close> is a parameter: \<open>json_decode\<close> reads one value with \<^verbatim>\<open>UseNumber\<close>, keeping
  the members of an object in order and with their repetitions, as the token stream does, and
  \<open>json_quote\<close> is \<^verbatim>\<open>json.Marshal\<close> of a string. What the sources do themselves is modelled:
  the refusal of repeated keys, the recursive ordering of members and the compact rendering.
\<close>

section \<open>Canonical objects\<close>

datatype json =
    JNull
  | JBool bool
  | JNumber string
  | JString string
  | JArray "json list"
  | JObject "(string \<times> json) list"

record json_codec =
  json_decode :: "string \<Rightarrow> go_error + json"
  json_quote :: "string \<Rightarrow> string"

text \<open>The elements written with a separator before all but the first.\<close>

fun commas :: "string list \<Rightarrow> string" where
  "commas [] = []"
| "commas [w] = w"
| "commas (w # ws) = w @ '','' @ commas ws"

fun canonicalizeJSONValue :: "(string \<Rightarrow> string) \<Rightarrow> json \<Rightarrow> go_error + string"
  and canonicalizeJSONArray :: "(string \<Rightarrow> string) \<Rightarrow> json list \<Rightarrow> go_error + string list"
  and canonicalizeJSONObject ::
    "(string \<Rightarrow> string) \<Rightarrow> string list \<Rightarrow> (string \<times> json) list \<Rightarrow> go_error + (string \<times> string) list"
where
  "canonicalizeJSONValue q JNull = Inr ''null''"
| "canonicalizeJSONValue q (JBool b) = Inr (if b then ''true'' else ''false'')"
| "canonicalizeJSONValue q (JNumber n) = Inr n"
| "canonicalizeJSONValue q (JString s) = Inr (q s)"
| "canonicalizeJSONValue q (JArray vs) =
     and_then (canonicalizeJSONArray q vs) (\<lambda>ws. Inr (''['' @ commas ws @ '']''))"
| "canonicalizeJSONValue q (JObject ms) =
     and_then (canonicalizeJSONObject q [] ms) (\<lambda>members.
       Inr (''{'' @ commas (map (\<lambda>(k, v). q k @ '':'' @ v) (sort_key fst members)) @ ''}''))"
| "canonicalizeJSONArray q [] = Inr []"
| "canonicalizeJSONArray q (v # vs) =
     and_then (canonicalizeJSONValue q v) (\<lambda>w.
       and_then (canonicalizeJSONArray q vs) (\<lambda>ws. Inr (w # ws)))"
| "canonicalizeJSONObject q seen [] = Inr []"
| "canonicalizeJSONObject q seen ((k, v) # ms) =
     (if k \<in> set seen then Inl (Errorf ''parse JSON object: duplicate key %q'' [k])
      else and_then (canonicalizeJSONValue q v) (\<lambda>w.
        and_then (canonicalizeJSONObject q (k # seen) ms) (\<lambda>members. Inr ((k, w) # members))))"

text \<open>A canonical object is its bytes; the zero \<^verbatim>\<open>JSONObject\<close> is empty.\<close>

type_synonym JSONObject = string

definition ParseJSONObject :: "json_codec \<Rightarrow> string \<Rightarrow> go_error + JSONObject" where
  "ParseJSONObject codec raw =
     (case json_decode codec raw of
        Inl e \<Rightarrow> Inl (Errorw ''parse JSON object: %w'' [] e)
      | Inr (JObject ms) \<Rightarrow> canonicalizeJSONValue (json_quote codec) (JObject ms)
      | Inr _ \<Rightarrow> Inl (Errorf ''parse JSON object: top-level value is not an object'' []))"

definition EmptyJSONObject :: JSONObject where
  "EmptyJSONObject = ''{}''"

definition object_IsEmpty :: "JSONObject \<Rightarrow> bool" where
  "object_IsEmpty o' \<longleftrightarrow> o' = [] \<or> o' = ''{}''"

end
