(* ===== verification/Canonical_Tool.thy ===== *)
theory Canonical_Tool
  imports Canonical_JSON
begin

text \<open>
  Tools of the canonical model (\<^verbatim>\<open>src/internal/domain/canonical\<close>): keys
  (\<^verbatim>\<open>tool_ontology.go\<close>), declarations (\<^verbatim>\<open>tool_declarations.go\<close>), remote sources
  (\<^verbatim>\<open>mcp.go\<close>), ordered sets (\<^verbatim>\<open>tool_set.go\<close>), the invocation policy (\<^verbatim>\<open>tool_policy.go\<close>) and the
  batching policy (\<^verbatim>\<open>tool_call_batch.go\<close>).

  A struct with exclusive private branches is a datatype with one constructor per branch and
  one for the zero value: the constructors of the package fill exactly one branch. Values are
  immutable, so the \<open>Clone\<close> methods are the identity, except where they normalise
  (\<open>policy_Clone\<close>). \<^verbatim>\<open>Specified[T]\<close> is an option.
\<close>

section \<open>Strings\<close>

text \<open>\<^verbatim>\<open>strings.Trim(s, "/")\<close>, \<^verbatim>\<open>strings.Contains\<close>, \<^verbatim>\<open>strings.LastIndex\<close> and \<^verbatim>\<open>strings.Join\<close>.\<close>

definition Trim :: "string \<Rightarrow> char \<Rightarrow> string" where
  "Trim s c = TrimRight (dropWhile (\<lambda>x. x = c) s) c"

fun Contains :: "string \<Rightarrow> string \<Rightarrow> bool" where
  "Contains [] sub = (sub = [])"
| "Contains (x # s) sub = (HasPrefix (x # s) sub \<or> Contains s sub)"

definition split_last :: "string \<Rightarrow> char \<Rightarrow> (string \<times> string) option" where
  "split_last s c =
     (if c \<in> set s
      then Some (rev (tl (dropWhile (\<lambda>x. x \<noteq> c) (rev s))), rev (takeWhile (\<lambda>x. x \<noteq> c) (rev s)))
      else None)"

fun Join :: "string list \<Rightarrow> char \<Rightarrow> string" where
  "Join [] c = []"
| "Join [w] c = w"
| "Join (w # ws) c = w @ c # Join ws c"

section \<open>Keys\<close>

type_synonym ToolKind = string

abbreviation ToolKindFunction :: ToolKind where "ToolKindFunction \<equiv> ''function''"
abbreviation ToolKindCustom :: ToolKind where "ToolKindCustom \<equiv> ''custom''"
abbreviation ToolKindWebSearch :: ToolKind where "ToolKindWebSearch \<equiv> ''web_search''"
abbreviation ToolKindNamespace :: ToolKind where "ToolKindNamespace \<equiv> ''namespace''"
abbreviation ToolKindDiscovery :: ToolKind where "ToolKindDiscovery \<equiv> ''tool_search''"
abbreviation ToolKindMCP :: ToolKind where "ToolKindMCP \<equiv> ''mcp''"

definition tool_kinds :: "ToolKind list" where
  "tool_kinds = [ToolKindFunction, ToolKindCustom, ToolKindWebSearch, ToolKindNamespace,
     ToolKindDiscovery, ToolKindMCP]"

record ToolKey =
  tk_namespace :: string
  tk_kind :: ToolKind
  tk_name :: string

definition zeroToolKey :: ToolKey where
  "zeroToolKey = \<lparr>tk_namespace = [], tk_kind = [], tk_name = []\<rparr>"

definition key_IsZero :: "ToolKey \<Rightarrow> bool" where
  "key_IsZero k \<longleftrightarrow> tk_namespace k = [] \<and> tk_kind k = [] \<and> tk_name k = []"

definition NewToolKey :: "string \<Rightarrow> ToolKind \<Rightarrow> string \<Rightarrow> go_error + ToolKey" where
  "NewToolKey namespace kind name =
     (let namespace = Trim (TrimSpace namespace) CHR ''/''; name = Trim (TrimSpace name) CHR ''/''
      in if namespace = [] \<or> name = []
         then Inl (BadRequest ''canonical tool key requires namespace and name'')
         else if kind \<notin> set tool_kinds then Inl (BadRequest ''canonical tool key kind is invalid'')
         else if Contains namespace ''//'' \<or> Contains name ''/''
         then Inl (BadRequest ''canonical tool key namespace or name is invalid'')
         else Inr \<lparr>tk_namespace = namespace, tk_kind = kind, tk_name = name\<rparr>)"

definition key_String :: "ToolKey \<Rightarrow> string" where
  "key_String k =
     (if tk_namespace k \<noteq> [] \<and> tk_kind k \<noteq> [] \<and> tk_name k \<noteq> []
      then ''tool:v1/'' @ tk_namespace k @ ''/'' @ tk_kind k @ ''/'' @ tk_name k else [])"

definition ParseToolKey :: "string \<Rightarrow> go_error + ToolKey" where
  "ParseToolKey raw =
     (let trimmed = TrimSpace raw
      in if \<not> HasPrefix trimmed ''tool:v1/'' then Inl (BadRequest ''canonical tool key is invalid'')
         else let parts = Split (TrimPrefix trimmed ''tool:v1/'') CHR ''/''
         in if length parts < 3 then Inl (BadRequest ''canonical tool key is invalid'')
            else NewToolKey (Join (take (length parts - 2) parts) CHR ''/'')
              (parts ! (length parts - 2)) (parts ! (length parts - 1)))"

definition NewRequestToolKey :: "ToolKind \<Rightarrow> string \<Rightarrow> go_error + ToolKey" where
  "NewRequestToolKey kind qualifiedName =
     (if qualifiedName = [] \<or> TrimSpace qualifiedName \<noteq> qualifiedName \<or>
         HasPrefix qualifiedName ''/'' \<or> HasSuffix qualifiedName ''/''
      then Inl (BadRequest ''canonical request tool key is invalid'')
      else let derived = (case split_last qualifiedName CHR ''/'' of
             Some (namespace, name) \<Rightarrow> NewToolKey namespace kind name
           | None \<Rightarrow> NewToolKey ''request'' kind qualifiedName)
      in case ParseToolKey qualifiedName of
           Inr parsed \<Rightarrow> if tk_kind parsed = kind then Inr parsed else derived
         | Inl _ \<Rightarrow> derived)"

text \<open>The fixed keys; their constructors cannot fail.\<close>

definition ToolDiscoveryKey :: ToolKey where
  "ToolDiscoveryKey =
     \<lparr>tk_namespace = ''request'', tk_kind = ToolKindDiscovery, tk_name = ''tool_search''\<rparr>"

definition WebSearchToolKey :: ToolKey where
  "WebSearchToolKey =
     \<lparr>tk_namespace = ''request'', tk_kind = ToolKindWebSearch, tk_name = ''web_search''\<rparr>"

definition HistoricalScopedToolKey :: "string \<Rightarrow> string \<Rightarrow> ToolKind \<Rightarrow> go_error + ToolKey" where
  "HistoricalScopedToolKey namespace name kind =
     (if namespace = [] \<or> TrimSpace namespace \<noteq> namespace \<or> name = [] \<or> TrimSpace name \<noteq> name
      then Inl (BadRequest ''canonical historical scoped tool call identity is invalid'')
      else case NewToolKey namespace kind name of
        Inl _ \<Rightarrow> Inl (BadRequest ''canonical historical scoped tool call identity is invalid'')
      | Inr key \<Rightarrow> Inr key)"

definition ToolIdentityFromWire :: "string \<Rightarrow> ToolKind \<Rightarrow> go_error + ToolKey" where
  "ToolIdentityFromWire raw kind =
     (if raw = [] \<or> TrimSpace raw \<noteq> raw
      then Inl (BadRequest ''canonical wire tool identity is invalid'')
      else NewRequestToolKey kind raw)"

section \<open>Remote sources\<close>

record MCPToolFilter =
  mf_toolNames :: "string list option"
  mf_readOnly :: "bool option"

record MCPApproval =
  ma_kind :: string
  ma_always :: "MCPToolFilter option"
  ma_never :: "MCPToolFilter option"

record MCPSource =
  ms_kind :: string
  ms_reference :: string
  ms_allowedTools :: "string list option"
  ms_approval :: MCPApproval
  ms_loading :: string
  ms_allowedCallers :: "string list option"

fun normalize_names :: "string \<Rightarrow> string list \<Rightarrow> string list \<Rightarrow> go_error + string list" where
  "normalize_names subject seen [] = Inr []"
| "normalize_names subject seen (raw # rest) =
     (let value = TrimSpace raw
      in if value = [] then Inl (BadRequest (subject @ '' name is empty''))
         else if value \<in> set seen
         then Inl (BadRequest (subject @ '' names contain a duplicate''))
         else and_then (normalize_names subject (value # seen) rest) (\<lambda>vs. Inr (value # vs)))"

definition normalizeMCPNames ::
    "string list option \<Rightarrow> string \<Rightarrow> go_error + string list option" where
  "normalizeMCPNames values subject =
     (case values of
        None \<Rightarrow> Inr None
      | Some raw \<Rightarrow> and_then (normalize_names subject [] raw) (\<lambda>vs. Inr (Some vs)))"

definition NewMCPToolFilter ::
    "string list option \<Rightarrow> bool option \<Rightarrow> go_error + MCPToolFilter" where
  "NewMCPToolFilter toolNames readOnly =
     and_then (normalizeMCPNames toolNames ''canonical MCP approval tool'') (\<lambda>names.
       Inr \<lparr>mf_toolNames = names, mf_readOnly = readOnly\<rparr>)"

definition NewMCPApprovalFilter ::
    "MCPToolFilter option \<Rightarrow> MCPToolFilter option \<Rightarrow> go_error + MCPApproval" where
  "NewMCPApprovalFilter always never =
     (if always = None \<and> never = None
      then Inl (BadRequest ''canonical MCP approval policy is empty'')
      else Inr \<lparr>ma_kind = ''filter'', ma_always = always, ma_never = never\<rparr>)"

definition newMCPSource ::
    "string \<Rightarrow> string \<Rightarrow> string list option \<Rightarrow> MCPApproval \<Rightarrow> string \<Rightarrow> string list option \<Rightarrow>
     go_error + MCPSource" where
  "newMCPSource kind reference allowedTools approval loading allowedCallers =
     (let reference = TrimSpace reference
      in if reference = [] then Inl (BadRequest ''canonical remote MCP source is invalid'')
         else if kind \<notin> {''url'', ''connector_id'', ''tunnel_id''}
         then Inl (BadRequest ''canonical MCP source kind is invalid'')
         else and_then (normalizeMCPNames allowedTools ''canonical MCP allowed tool'') (\<lambda>allowed.
           and_then (normalizeMCPNames allowedCallers ''canonical MCP allowed caller'') (\<lambda>callers.
           if ma_kind approval \<notin> {''never'', ''always'', ''filter''}
           then Inl (BadRequest ''canonical MCP approval policy is invalid'')
           else let loading = (if loading = [] then ''eager'' else loading)
           in if loading \<noteq> ''eager'' \<and> loading \<noteq> ''deferred''
              then Inl (BadRequest ''canonical MCP loading policy is invalid'')
              else Inr \<lparr>ms_kind = kind, ms_reference = reference, ms_allowedTools = allowed,
                ms_approval = approval, ms_loading = loading, ms_allowedCallers = callers\<rparr>)))"

definition filter_equivalent :: "MCPToolFilter \<Rightarrow> MCPToolFilter \<Rightarrow> bool" where
  "filter_equivalent f g \<longleftrightarrow> mf_toolNames f = mf_toolNames g \<and> mf_readOnly f = mf_readOnly g"

definition filters_match :: "MCPToolFilter option \<Rightarrow> MCPToolFilter option \<Rightarrow> bool" where
  "filters_match a b =
     (case (a, b) of (None, None) \<Rightarrow> True | (Some f, Some g) \<Rightarrow> filter_equivalent f g | _ \<Rightarrow> False)"

definition approval_equivalent :: "MCPApproval \<Rightarrow> MCPApproval \<Rightarrow> bool" where
  "approval_equivalent a b \<longleftrightarrow> ma_kind a = ma_kind b \<and>
     filters_match (ma_always a) (ma_always b) \<and> filters_match (ma_never a) (ma_never b)"

definition source_Equivalent :: "MCPSource \<Rightarrow> MCPSource \<Rightarrow> bool" where
  "source_Equivalent s t \<longleftrightarrow> ms_kind s = ms_kind t \<and> ms_reference s = ms_reference t \<and>
     ms_allowedTools s = ms_allowedTools t \<and> approval_equivalent (ms_approval s) (ms_approval t) \<and>
     ms_loading s = ms_loading t \<and> ms_allowedCallers s = ms_allowedCallers t"

section \<open>Declarations\<close>

text \<open>Schemas and formats are optional canonical objects.\<close>

type_synonym ToolSchema = "JSONObject option"
type_synonym ToolFormat = "JSONObject option"

definition RawObject :: "JSONObject option \<Rightarrow> string" where
  "RawObject o' = (case o' of None \<Rightarrow> [] | Some s \<Rightarrow> s)"

text \<open>The enumerations of \<^verbatim>\<open>schema_contract.go\<close> and of the declarations are \<^verbatim>\<open>uint8\<close> values.\<close>

record SchemaContract =
  sc_Profile :: "8 word"
  sc_Conformance :: "8 word"

abbreviation SchemaProfileUnspecified :: "8 word" where "SchemaProfileUnspecified \<equiv> 0"
abbreviation SchemaProfileUnprofiled :: "8 word" where "SchemaProfileUnprofiled \<equiv> 3"
abbreviation SchemaConformanceEnforced :: "8 word" where "SchemaConformanceEnforced \<equiv> 2"
abbreviation WebSearchAccessLive :: "8 word" where "WebSearchAccessLive \<equiv> 3"

text \<open>\<open>DiscoveryExecutorNone\<close> stands for every value outside the two constants.\<close>

datatype DiscoveryExecutor =
  DiscoveryExecutorNone | DiscoveryExecutorClient | DiscoveryExecutorProvider

datatype ToolDiscoveryQueryKind =
    ToolDiscoveryQueryNone | ToolDiscoveryQueryStructured | ToolDiscoveryQueryRegex
  | ToolDiscoveryQueryNaturalLanguage

datatype ToolDeclaration =
    zeroDeclaration
  | function_tool ToolKey string ToolSchema SchemaContract
  | custom_tool ToolKey string ToolFormat
  | web_search_tool "8 word"
  | namespace_tool ToolKey string "ToolDeclaration list"
  | discovery_tool string ToolSchema DiscoveryExecutor ToolDiscoveryQueryKind
  | mcp_tool ToolKey string MCPSource "ToolDeclaration list"

fun decl_Kind :: "ToolDeclaration \<Rightarrow> ToolKind" where
  "decl_Kind zeroDeclaration = []"
| "decl_Kind (function_tool _ _ _ _) = ToolKindFunction"
| "decl_Kind (custom_tool _ _ _) = ToolKindCustom"
| "decl_Kind (web_search_tool _) = ToolKindWebSearch"
| "decl_Kind (namespace_tool _ _ _) = ToolKindNamespace"
| "decl_Kind (discovery_tool _ _ _ _) = ToolKindDiscovery"
| "decl_Kind (mcp_tool _ _ _ _) = ToolKindMCP"

fun decl_Key :: "ToolDeclaration \<Rightarrow> ToolKey" where
  "decl_Key zeroDeclaration = zeroToolKey"
| "decl_Key (function_tool k _ _ _) = k"
| "decl_Key (custom_tool k _ _) = k"
| "decl_Key (web_search_tool _) = WebSearchToolKey"
| "decl_Key (namespace_tool k _ _) = k"
| "decl_Key (discovery_tool _ _ _ _) = ToolDiscoveryKey"
| "decl_Key (mcp_tool k _ _ _) = k"

text \<open>\<open>buildToolSet\<close>: declaration order, and the index of each key's spelling.\<close>

record ToolSet =
  set_ordered :: "ToolDeclaration list"
  set_byKey :: "(string \<times> nat) list"

definition zeroToolSet :: ToolSet where
  "zeroToolSet = \<lparr>set_ordered = [], set_byKey = []\<rparr>"

fun index_keys :: "nat \<Rightarrow> (string \<times> nat) list \<Rightarrow> ToolDeclaration list \<Rightarrow> go_error + (string \<times> nat) list" where
  "index_keys i byKey [] = Inr byKey"
| "index_keys i byKey (d # ds) =
     (let key = key_String (decl_Key d)
      in if decl_Kind d = [] \<or> key = []
         then Inl (Errorf ''canonical tool set contains an invalid declaration'' [])
         else if map_of byKey key \<noteq> None
         then Inl (Errorf ''canonical tool set contains duplicate key %q'' [key])
         else index_keys (Suc i) (AList.update key i byKey) ds)"

definition NewToolSet :: "ToolDeclaration list \<Rightarrow> go_error + ToolSet" where
  "NewToolSet ordered =
     and_then (index_keys 0 [] ordered) (\<lambda>byKey. Inr \<lparr>set_ordered = ordered, set_byKey = byKey\<rparr>)"

definition set_Lookup :: "ToolSet \<Rightarrow> ToolKey \<Rightarrow> ToolDeclaration option" where
  "set_Lookup s key =
     (case map_of (set_byKey s) (key_String key) of
        None \<Rightarrow> None
      | Some i \<Rightarrow> if i < length (set_ordered s) then Some (set_ordered s ! i) else None)"

definition NewFunctionTool ::
    "ToolKey \<Rightarrow> string \<Rightarrow> ToolSchema \<Rightarrow> SchemaContract \<Rightarrow> go_error + ToolDeclaration" where
  "NewFunctionTool key description inputSchema contract =
     (if key_IsZero key \<or> tk_kind key \<noteq> ToolKindFunction
      then Inl (Errorf ''canonical function tool requires a function key'' [])
      else if inputSchema = None \<or> sc_Profile contract = SchemaProfileUnspecified
      then Inl (Errorf ''canonical function tool requires an input schema contract'' [])
      else if sc_Profile contract > SchemaProfileUnprofiled \<or>
        sc_Conformance contract > SchemaConformanceEnforced
      then Inl (Errorf ''canonical function tool schema conformance is invalid'' [])
      else Inr (function_tool key (TrimSpace description) inputSchema contract))"

definition NewCustomTool :: "ToolKey \<Rightarrow> string \<Rightarrow> ToolFormat \<Rightarrow> go_error + ToolDeclaration" where
  "NewCustomTool key description format =
     (if key_IsZero key \<or> tk_kind key \<noteq> ToolKindCustom
      then Inl (Errorf ''canonical custom tool requires a custom key'' [])
      else Inr (custom_tool key (TrimSpace description) format))"

definition NewWebSearchDeclarationWithAccess :: "8 word \<Rightarrow> go_error + ToolDeclaration" where
  "NewWebSearchDeclarationWithAccess mode =
     (if mode > WebSearchAccessLive
      then Inl (Errorf ''canonical web-search access mode is invalid'' [])
      else Inr (web_search_tool mode))"

definition NewToolDiscoveryToolWithQuery ::
    "string \<Rightarrow> ToolSchema \<Rightarrow> DiscoveryExecutor \<Rightarrow> ToolDiscoveryQueryKind \<Rightarrow>
     go_error + ToolDeclaration" where
  "NewToolDiscoveryToolWithQuery description inputSchema executor queryKind =
     (if inputSchema = None \<or> executor = DiscoveryExecutorNone
      then Inl (Errorf ''canonical tool discovery declaration is invalid'' [])
      else if queryKind = ToolDiscoveryQueryNone
      then Inl (Errorf ''canonical tool discovery query kind is invalid'' [])
      else Inr (discovery_tool (TrimSpace description) inputSchema executor queryKind))"

definition newToolNamespace ::
    "ToolKey \<Rightarrow> string \<Rightarrow> ToolDeclaration list \<Rightarrow> go_error + ToolDeclaration" where
  "newToolNamespace key description tools =
     (if key_IsZero key \<or> tk_kind key \<noteq> ToolKindNamespace
      then Inl (Errorf ''canonical tool namespace declaration is invalid'' [])
      else case NewToolSet tools of
        Inl e \<Rightarrow> Inl (Errorw ''canonical tool namespace declaration is invalid: %w'' [] e)
      | Inr children \<Rightarrow>
          if list_ex (\<lambda>c. decl_Kind c = ToolKindMCP) (set_ordered children)
          then Inl (Errorf ''canonical MCP tool source cannot be nested'' [])
          else Inr (namespace_tool key (TrimSpace description) (set_ordered children)))"

definition NewMCPToolSource ::
    "ToolKey \<Rightarrow> string \<Rightarrow> MCPSource \<Rightarrow> ToolDeclaration list \<Rightarrow> go_error + ToolDeclaration" where
  "NewMCPToolSource key description source tools =
     (if key_IsZero key \<or> tk_kind key \<noteq> ToolKindMCP
      then Inl (Errorf ''canonical MCP tool source requires an MCP key'' [])
      else case NewToolSet tools of
        Inl e \<Rightarrow> Inl (Errorw ''canonical MCP tool source catalog is invalid: %w'' [] e)
      | Inr children \<Rightarrow>
          if list_ex (\<lambda>c. decl_Kind c \<noteq> ToolKindFunction) (set_ordered children)
          then Inl (Errorf ''canonical MCP tool source catalog requires function tools'' [])
          else Inr (mcp_tool key (TrimSpace description) source (set_ordered children)))"

text \<open>\<open>Equivalent\<close>: equality of meaning, used when a tool is declared again.\<close>

fun Equivalent :: "ToolDeclaration \<Rightarrow> ToolDeclaration \<Rightarrow> bool"
  and all_Equivalent :: "ToolDeclaration list \<Rightarrow> ToolDeclaration list \<Rightarrow> bool" where
  "Equivalent (function_tool k d s c) (function_tool k' d' s' c') \<longleftrightarrow>
     k = k' \<and> d = d' \<and> RawObject s = RawObject s' \<and> c = c'"
| "Equivalent (custom_tool k d f) (custom_tool k' d' f') \<longleftrightarrow>
     k = k' \<and> d = d' \<and> RawObject f = RawObject f'"
| "Equivalent (namespace_tool k d ts) (namespace_tool k' d' ts') \<longleftrightarrow>
     k = k' \<and> d = d' \<and> length ts = length ts' \<and> all_Equivalent ts ts'"
| "Equivalent (discovery_tool d s e q) (discovery_tool d' s' e' q') \<longleftrightarrow>
     d = d' \<and> RawObject s = RawObject s' \<and> e = e' \<and> q = q'"
| "Equivalent (mcp_tool k d src ts) (mcp_tool k' d' src' ts') \<longleftrightarrow>
     k = k' \<and> d = d' \<and> source_Equivalent src src' \<and> length ts = length ts' \<and> all_Equivalent ts ts'"
| "Equivalent (web_search_tool m) (web_search_tool m') \<longleftrightarrow> m = m'"
| "Equivalent _ _ \<longleftrightarrow> False"
| "all_Equivalent (t # ts) (t' # ts') \<longleftrightarrow> Equivalent t t' \<and> all_Equivalent ts ts'"
| "all_Equivalent _ _ \<longleftrightarrow> True"

fun callableToolDeclarations :: "ToolDeclaration list \<Rightarrow> ToolDeclaration list" where
  "callableToolDeclarations [] = []"
| "callableToolDeclarations (mcp_tool k d s ts # rest) =
     mcp_tool k d s ts # callableToolDeclarations ts @ callableToolDeclarations rest"
| "callableToolDeclarations (namespace_tool k d ts # rest) =
     callableToolDeclarations ts @ callableToolDeclarations rest"
| "callableToolDeclarations (t # rest) = t # callableToolDeclarations rest"

text \<open>The common loop of \<open>ResolveToolDeclarationByKey\<close> and \<open>resolvePlainToolDeclarationByName\<close>.\<close>

fun resolve_matching ::
    "(ToolDeclaration \<Rightarrow> bool) \<Rightarrow> ToolDeclaration option \<Rightarrow> ToolDeclaration list \<Rightarrow>
     go_error + ToolDeclaration option" where
  "resolve_matching P found [] = Inr found"
| "resolve_matching P found (t # ts) =
     (if \<not> P t then resolve_matching P found ts
      else case found of
        Some f \<Rightarrow>
          if decl_Key f \<noteq> decl_Key t \<or> decl_Kind f \<noteq> decl_Kind t
          then Inl (BadRequest ''canonical request tool references are ambiguous'')
          else resolve_matching P (Some t) ts
      | None \<Rightarrow> resolve_matching P (Some t) ts)"

definition specific_matches :: "string \<Rightarrow> ToolDeclaration \<Rightarrow> bool" where
  "specific_matches specific t \<longleftrightarrow> \<not> (specific \<noteq> [] \<and> decl_Kind t \<noteq> specific)"

definition ResolveToolDeclarationByKey ::
    "platform \<Rightarrow> ToolDeclaration list \<Rightarrow> ToolKey \<Rightarrow> string \<Rightarrow> go_error + ToolDeclaration \<times> string" where
  "ResolveToolDeclarationByKey p tools key specificType =
     (if key_IsZero key
      then Inl (BadRequest ''canonical request tool references require a tool key'')
      else let specific = ToLower p (TrimSpace specificType)
      in and_then (resolve_matching (\<lambda>t. decl_Key t = key \<and> specific_matches specific t) None
             (callableToolDeclarations tools)) (\<lambda>found.
           case found of
             None \<Rightarrow> Inl (BadRequest ''canonical request tool references an undeclared tool'')
           | Some t \<Rightarrow> Inr (t, decl_Kind t)))"

definition ResolveToolDeclarationByName ::
    "platform \<Rightarrow> ToolDeclaration list \<Rightarrow> string \<Rightarrow> string \<Rightarrow> go_error + ToolDeclaration \<times> string" where
  "ResolveToolDeclarationByName p tools name specificType =
     (let trimmed = TrimSpace name
      in if trimmed = []
         then Inl (BadRequest ''canonical request tool references require a name'')
         else let specific = ToLower p (TrimSpace (ToLower p (TrimSpace specificType)))
         in and_then (resolve_matching
                (\<lambda>t. specific_matches specific t \<and> TrimSpace (tk_name (decl_Key t)) = trimmed) None
                (callableToolDeclarations tools)) (\<lambda>found.
              case found of
                None \<Rightarrow> Inl (BadRequest ''canonical request tool references are undeclared tool'')
              | Some t \<Rightarrow> Inr (t, decl_Kind t)))"

section \<open>Policies\<close>

abbreviation ToolPolicyNone :: string where "ToolPolicyNone \<equiv> ''none''"
abbreviation ToolPolicyAuto :: string where "ToolPolicyAuto \<equiv> ''auto''"
abbreviation ToolPolicyRequired :: string where "ToolPolicyRequired \<equiv> ''required''"
abbreviation ToolPolicySpecific :: string where "ToolPolicySpecific \<equiv> ''specific''"

record ToolPolicy =
  tp_Mode :: string
  tp_Specific :: "ToolKey option"

definition ParseToolPolicyMode :: "platform \<Rightarrow> string \<Rightarrow> string option" where
  "ParseToolPolicyMode p raw =
     (let normalized = ToLower p (TrimSpace raw)
      in if normalized \<in> set [ToolPolicyNone, ToolPolicyAuto, ToolPolicyRequired, ToolPolicySpecific]
         then Some normalized else None)"

definition normalizeToolPolicyMode :: "platform \<Rightarrow> string \<Rightarrow> string" where
  "normalizeToolPolicyMode p mode =
     (case ParseToolPolicyMode p mode of Some parsed \<Rightarrow> parsed | None \<Rightarrow> ToolPolicyNone)"

definition NewToolPolicy :: "platform \<Rightarrow> string \<Rightarrow> ToolKey option \<Rightarrow> ToolPolicy" where
  "NewToolPolicy p mode specific =
     (case specific of
        None \<Rightarrow> \<lparr>tp_Mode = normalizeToolPolicyMode p mode, tp_Specific = None\<rparr>
      | Some key \<Rightarrow> \<lparr>tp_Mode = ToolPolicySpecific, tp_Specific = Some key\<rparr>)"

definition policy_Clone :: "platform \<Rightarrow> ToolPolicy \<Rightarrow> ToolPolicy" where
  "policy_Clone p policy = NewToolPolicy p (tp_Mode policy) (tp_Specific policy)"

definition SpecificID :: "ToolPolicy \<Rightarrow> ToolKey option" where
  "SpecificID policy =
     (case tp_Specific policy of
        None \<Rightarrow> None | Some k \<Rightarrow> if key_IsZero k then None else Some k)"

definition policy_Validate :: "ToolPolicy \<Rightarrow> go_error + unit" where
  "policy_Validate policy =
     (if tp_Mode policy \<in> set [ToolPolicyNone, ToolPolicyAuto, ToolPolicyRequired] then
        (if SpecificID policy \<noteq> None
         then Inl (BadRequest ''tool policy specific tool requires specific mode'') else Inr ())
      else if tp_Mode policy = ToolPolicySpecific then
        (if SpecificID policy = None
         then Inl (BadRequest ''tool policy specific mode requires a tool id'') else Inr ())
      else Inl (BadRequest ''tool policy mode is invalid''))"

definition ValidateForTools ::
    "platform \<Rightarrow> ToolPolicy \<Rightarrow> ToolDeclaration list \<Rightarrow> go_error + unit" where
  "ValidateForTools p policy tools =
     and_then (policy_Validate policy) (\<lambda>_.
       if tp_Mode policy \<in> set [ToolPolicyRequired, ToolPolicySpecific] \<and> tools = []
       then Inl (BadRequest ''tool policy requires a non-empty effective tool set'')
       else if tp_Mode policy = ToolPolicySpecific
       then let key = (case SpecificID policy of Some k \<Rightarrow> k | None \<Rightarrow> zeroToolKey)
         in and_then (ResolveToolDeclarationByKey p tools key (tk_kind key)) (\<lambda>_. Inr ())
       else Inr ())"

type_synonym ToolCallBatchPolicy = string

definition batch_Validate :: "ToolCallBatchPolicy \<Rightarrow> go_error + unit" where
  "batch_Validate mode =
     (if mode \<in> set [[], ''at_most_one''] then Inr ()
      else Inl (BadRequest ''tool call batch policy mode is invalid''))"

end
