(* ===== verification/Canonical_Item.thy ===== *)
theory Canonical_Item
  imports Canonical_Tool
begin

text \<open>
  The ordered items of the canonical model (\<^verbatim>\<open>src/internal/domain/canonical\<close>): content parts
  (\<^verbatim>\<open>content_part.go\<close>), web-search values (\<^verbatim>\<open>web_search_lifecycle.go\<close>), opaque reasoning
  (\<^verbatim>\<open>opaque_thinking.go\<close>), items and their validating constructors (\<^verbatim>\<open>item.go\<close>) and response
  references (\<^verbatim>\<open>response_ref.go\<close>). \<^verbatim>\<open>net/url.Parse\<close> is a parameter of the two URL
  constructors.
\<close>

section \<open>Web search\<close>

record web_url = parsed_url +
  url_hostname :: string
  url_fragment :: string

type_synonym WebURL = string

definition NewWebURL :: "(string \<Rightarrow> web_url option) \<Rightarrow> string \<Rightarrow> go_error + WebURL" where
  "NewWebURL parse raw =
     (if raw = [] \<or> TrimSpace raw \<noteq> raw then Inl (BadRequest ''canonical web URL is invalid'')
      else let invalid =
             BadRequest ''canonical web URL must be absolute HTTP(S) without credentials''
      in case parse raw of
           None \<Rightarrow> Inl invalid
         | Some u \<Rightarrow>
             if url_host u = [] \<or> url_hostname u = [] \<or> url_has_user u \<or>
               url_scheme u \<noteq> ''http'' \<and> url_scheme u \<noteq> ''https''
             then Inl invalid else Inr raw)"

abbreviation WebSearchActionSearch :: string where "WebSearchActionSearch \<equiv> ''search''"
abbreviation WebSearchActionOpenPage :: string where "WebSearchActionOpenPage \<equiv> ''open_page''"
abbreviation WebSearchActionFindInPage :: string where
  "WebSearchActionFindInPage \<equiv> ''find_in_page''"

record WebSearchCall =
  wc_Action :: string
  wc_Queries :: "string list"
  wc_URL :: "WebURL option"
  wc_Match :: "string option"
  wc_interactionsReplay :: string

definition search_Validate :: "WebSearchCall \<Rightarrow> go_error + unit" where
  "search_Validate c =
     (if list_ex (\<lambda>q. TrimSpace q = []) (wc_Queries c)
      then Inl (BadRequest ''canonical web-search query is empty'')
      else if wc_URL c = Some [] then Inl (BadRequest ''canonical web-search call URL is invalid'')
      else if (case wc_Match c of None \<Rightarrow> False | Some m \<Rightarrow> TrimSpace m = [])
      then Inl (BadRequest ''canonical web-search find match is empty'')
      else if wc_Action c = WebSearchActionSearch then
        (if wc_URL c \<noteq> None \<or> wc_Match c \<noteq> None
         then Inl (BadRequest ''canonical web-search search action cannot carry URL or match'')
         else Inr ())
      else if wc_Action c = WebSearchActionOpenPage then
        (if wc_URL c = None \<or> wc_Queries c \<noteq> [] \<or> wc_Match c \<noteq> None
         then Inl (BadRequest ''canonical web-search open-page action has invalid fields'')
         else Inr ())
      else if wc_Action c = WebSearchActionFindInPage then
        (if wc_URL c = None \<or> wc_Match c = None \<or> wc_Queries c \<noteq> []
         then Inl (BadRequest ''canonical web-search find-in-page action has invalid fields'')
         else Inr ())
      else Inl (BadRequest ''canonical web-search action is invalid''))"

definition NewInteractionsWebSearchCall ::
    "WebSearchCall \<Rightarrow> string \<Rightarrow> go_error + WebSearchCall" where
  "NewInteractionsWebSearchCall call replay =
     and_then (search_Validate call) (\<lambda>_.
       if replay = [] then Inl (BadRequest ''interactions web-search call replay is empty'')
       else Inr (call\<lparr>wc_interactionsReplay := replay\<rparr>))"

record WebSource =
  wsrc_URL :: WebURL
  wsrc_Title :: "string option"
  wsrc_messagesReplay :: string

definition NewWebSource :: "WebURL \<Rightarrow> string option \<Rightarrow> go_error + WebSource" where
  "NewWebSource url title =
     (if url = [] then Inl (BadRequest ''canonical web source requires a URL'')
      else if (case title of None \<Rightarrow> False | Some t \<Rightarrow> TrimSpace t = [])
      then Inl (BadRequest ''canonical web source title is empty'')
      else Inr \<lparr>wsrc_URL = url, wsrc_Title = title, wsrc_messagesReplay = []\<rparr>)"

definition NewMessagesWebSource ::
    "WebURL \<Rightarrow> string option \<Rightarrow> string \<Rightarrow> go_error + WebSource" where
  "NewMessagesWebSource url title replay =
     and_then (NewWebSource url title) (\<lambda>source.
       if replay = [] then Inl (BadRequest ''messages web source replay is empty'')
       else Inr (source\<lparr>wsrc_messagesReplay := replay\<rparr>))"

definition source_validate :: "WebSource \<Rightarrow> go_error + unit" where
  "source_validate s = and_then (NewWebSource (wsrc_URL s) (wsrc_Title s)) (\<lambda>_. Inr ())"

record WebSearchResult =
  wr_sources :: "WebSource list"
  wr_failure :: "string option"
  wr_interactionsReplay :: string

definition result_valid :: "WebSearchResult \<Rightarrow> bool" where
  "result_valid r =
     (case wr_failure r of
        Some f \<Rightarrow> wr_sources r = [] \<and> TrimSpace f \<noteq> []
      | None \<Rightarrow> list_all (\<lambda>s. is_ok (source_validate s)) (wr_sources r))"

definition NewWebSearchResult :: "WebSource list \<Rightarrow> go_error + WebSearchResult" where
  "NewWebSearchResult sources =
     (case check_all source_validate sources of
        Inl e \<Rightarrow> Inl (Errorw ''canonical web-search source %d: %w'' [] e)
      | Inr _ \<Rightarrow> Inr \<lparr>wr_sources = sources, wr_failure = None, wr_interactionsReplay = []\<rparr>)"

definition NewWebSearchFailureResult :: "string \<Rightarrow> go_error + WebSearchResult" where
  "NewWebSearchFailureResult msg =
     (if TrimSpace msg = [] then Inl (BadRequest ''canonical web-search failure message is empty'')
      else Inr \<lparr>wr_sources = [], wr_failure = Some msg, wr_interactionsReplay = []\<rparr>)"

definition WithInteractionsReplay ::
    "WebSearchResult \<Rightarrow> string \<Rightarrow> go_error + WebSearchResult" where
  "WithInteractionsReplay r replay =
     (if \<not> result_valid r then Inl (BadRequest ''canonical web-search result is invalid'')
      else if replay = [] then Inl (BadRequest ''interactions web-search result replay is empty'')
      else Inr (r\<lparr>wr_interactionsReplay := replay\<rparr>))"

record WebCitation =
  cit_Source :: WebSource
  cit_Excerpt :: "string option"
  cit_Start :: "32 word option"
  cit_End :: "32 word option"

text \<open>\<^verbatim>\<open>utf8.RuneStart\<close>: every byte that is not a continuation byte.\<close>

definition RuneStart :: "char \<Rightarrow> bool" where
  "RuneStart c \<longleftrightarrow> of_char c div 64 \<noteq> (2 :: nat)"

definition utf8Boundary :: "string \<Rightarrow> nat \<Rightarrow> bool" where
  "utf8Boundary text offset \<longleftrightarrow> offset = 0 \<or> offset = length text \<or>
     0 < offset \<and> offset < length text \<and> RuneStart (text ! offset)"

definition citation_validate :: "string \<Rightarrow> WebCitation \<Rightarrow> go_error + unit" where
  "citation_validate text c =
     and_then (source_validate (cit_Source c)) (\<lambda>_.
       if (case cit_Excerpt c of None \<Rightarrow> False | Some x \<Rightarrow> TrimSpace x = [])
       then Inl (BadRequest ''canonical web citation excerpt is empty'')
       else case (cit_Start c, cit_End c) of
         (None, None) \<Rightarrow> Inr ()
       | (Some s, Some e) \<Rightarrow>
           if s \<ge> e \<or> unat e > length text \<or> \<not> utf8Boundary text (unat s) \<or>
             \<not> utf8Boundary text (unat e)
           then Inl (BadRequest ''canonical web citation offsets are invalid UTF-8 byte boundaries'')
           else Inr ()
       | _ \<Rightarrow> Inl (BadRequest ''canonical web citation offsets must both be present or absent''))"

section \<open>Content parts\<close>

datatype ImageSource = zeroImageSource | url_image string | inline_image string string

record ImagePart =
  im_source :: ImageSource
  im_detail :: "string option"

datatype MessagePart = zeroPart | text_part string "WebCitation list" | image_part ImagePart

datatype ToolResultPart =
  zeroResultPart | text_result_part string | image_result_part ImagePart

abbreviation PartKindText :: string where "PartKindText \<equiv> ''text''"
abbreviation PartKindImage :: string where "PartKindImage \<equiv> ''image''"

fun part_Kind :: "MessagePart \<Rightarrow> string" where
  "part_Kind zeroPart = []"
| "part_Kind (text_part _ _) = PartKindText"
| "part_Kind (image_part i) = (if im_source i = zeroImageSource then [] else PartKindImage)"

fun result_part_Kind :: "ToolResultPart \<Rightarrow> string" where
  "result_part_Kind zeroResultPart = []"
| "result_part_Kind (text_result_part _) = PartKindText"
| "result_part_Kind (image_result_part i) =
     (if im_source i = zeroImageSource then [] else PartKindImage)"

fun part_Text :: "MessagePart \<Rightarrow> string option" where
  "part_Text (text_part t _) = Some t"
| "part_Text _ = None"

definition NewCitedTextMessagePart :: "string \<Rightarrow> WebCitation list \<Rightarrow> go_error + MessagePart" where
  "NewCitedTextMessagePart text citations =
     (case check_all (citation_validate text) citations of
        Inl e \<Rightarrow> Inl (Errorw ''canonical web citation %d: %w'' [] e)
      | Inr _ \<Rightarrow> Inr (text_part text citations))"

definition validateImageDetail :: "string option \<Rightarrow> go_error + unit" where
  "validateImageDetail detail =
     (case detail of
        None \<Rightarrow> Inr ()
      | Some v \<Rightarrow> if v \<in> set [''low'', ''high'', ''original''] then Inr ()
          else Inl (Errorf ''canonical image detail %q is unsupported'' [v]))"

definition NewURLImage ::
    "(string \<Rightarrow> web_url option) \<Rightarrow> string \<Rightarrow> string option \<Rightarrow> go_error + ImagePart" where
  "NewURLImage parse rawURL detail =
     (if rawURL = [] \<or> TrimSpace rawURL \<noteq> rawURL
      then Inl (Errorf ''canonical image URL must be absolute HTTP(S)'' [])
      else let invalid =
             Errorf ''canonical image URL must be absolute HTTP(S) without credentials'' []
      in case parse rawURL of
           None \<Rightarrow> Inl invalid
         | Some u \<Rightarrow>
             if url_host u = [] \<or> url_has_user u \<or>
               url_scheme u \<noteq> ''http'' \<and> url_scheme u \<noteq> ''https''
             then Inl invalid
             else if url_fragment u \<noteq> []
             then Inl (Errorf ''canonical image URL must not contain a fragment'' [])
             else and_then (validateImageDetail detail) (\<lambda>_.
               Inr \<lparr>im_source = url_image rawURL, im_detail = detail\<rparr>))"

definition NewInlineImage :: "string \<Rightarrow> string \<Rightarrow> string option \<Rightarrow> go_error + ImagePart" where
  "NewInlineImage mediaType data detail =
     (if mediaType \<notin> set [''image/jpeg'', ''image/png'', ''image/gif'', ''image/webp'']
      then Inl (Errorf ''canonical inline image media type %q is unsupported'' [mediaType])
      else if data = [] then Inl (Errorf ''canonical inline image data is empty'' [])
      else and_then (validateImageDetail detail) (\<lambda>_.
        Inr \<lparr>im_source = inline_image mediaType data, im_detail = detail\<rparr>))"

text \<open>\<open>cloneValidatedMessageParts\<close> and its counterpart for results: no part without a branch.\<close>

definition validated_parts :: "MessagePart list \<Rightarrow> go_error + MessagePart list" where
  "validated_parts parts =
     (if list_ex (\<lambda>x. part_Kind x = []) parts
      then Inl (Errorf ''canonical message part %d has no valid branch'' []) else Inr parts)"

definition validated_result_parts :: "ToolResultPart list \<Rightarrow> go_error + ToolResultPart list" where
  "validated_result_parts parts =
     (if list_ex (\<lambda>x. result_part_Kind x = []) parts
      then Inl (Errorf ''canonical tool result part %d has no valid branch'' []) else Inr parts)"

section \<open>Opaque reasoning\<close>

datatype opaqueThinkingKind =
    opaqueThinkingNone | opaqueThinkingMessages | opaqueThinkingProviderChat
  | opaqueThinkingResponses | opaqueThinkingInteractions

record OpaqueThinking =
  ot_kind :: opaqueThinkingKind
  ot_raw :: string
  ot_providerChatScope :: string
  ot_responsesItemID :: string
  ot_origin :: "(string \<times> 64 word) option"

definition zeroOpaque :: OpaqueThinking where
  "zeroOpaque = \<lparr>ot_kind = opaqueThinkingNone, ot_raw = [], ot_providerChatScope = [],
     ot_responsesItemID = [], ot_origin = None\<rparr>"

definition opaque_IsZero :: "OpaqueThinking \<Rightarrow> bool" where
  "opaque_IsZero o' \<longleftrightarrow> ot_kind o' = opaqueThinkingNone \<and> ot_raw o' = [] \<and>
     ot_providerChatScope o' = [] \<and> ot_responsesItemID o' = [] \<and> ot_origin o' = None"

definition NewResponsesOpaqueThinking :: "string \<Rightarrow> string \<Rightarrow> go_error + OpaqueThinking" where
  "NewResponsesOpaqueThinking encryptedContent itemID =
     (if encryptedContent = [] then Inl (BadRequest ''responses encrypted reasoning is empty'')
      else Inr (zeroOpaque\<lparr>ot_kind := opaqueThinkingResponses, ot_raw := encryptedContent,
        ot_responsesItemID := itemID\<rparr>))"

definition newOpaqueThinking ::
    "opaqueThinkingKind \<Rightarrow> string \<Rightarrow> string \<Rightarrow> go_error + OpaqueThinking" where
  "newOpaqueThinking kind raw emptyMessage =
     (if raw = [] then Inl (BadRequest emptyMessage)
      else Inr (zeroOpaque\<lparr>ot_kind := kind, ot_raw := raw\<rparr>))"

definition NewProviderChatOpaqueThinking :: "string \<Rightarrow> string \<Rightarrow> go_error + OpaqueThinking" where
  "NewProviderChatOpaqueThinking scope raw =
     (if scope = [] then Inl (BadRequest ''provider Chat opaque thinking scope is empty'')
      else if raw = [] then Inl (BadRequest ''provider Chat opaque thinking is empty'')
      else Inr (zeroOpaque\<lparr>ot_kind := opaqueThinkingProviderChat, ot_raw := raw,
        ot_providerChatScope := scope\<rparr>))"

definition opaque_withTargetOrigin ::
    "OpaqueThinking \<Rightarrow> string \<Rightarrow> 64 word \<Rightarrow> go_error + OpaqueThinking" where
  "opaque_withTargetOrigin o' targetID targetVersion =
     (if opaque_IsZero o' then Inr zeroOpaque
      else if targetID = [] \<or> targetVersion = 0
      then Inl (Errorf ''target origin requires non-empty targetID and non-zero targetVersion'' [])
      else case ot_origin o' of
        Some origin \<Rightarrow>
          if origin = (targetID, targetVersion) then Inr o'
          else Inl (Errorf ''opaque thinking cannot be rebound to a different target''
            [fst origin, targetID])
      | None \<Rightarrow> Inr (o'\<lparr>ot_origin := Some (targetID, targetVersion)\<rparr>))"

definition MatchesTarget :: "OpaqueThinking \<Rightarrow> string \<Rightarrow> 64 word \<Rightarrow> bool" where
  "MatchesTarget o' targetID targetVersion \<longleftrightarrow>
     \<not> opaque_IsZero o' \<and> targetID \<noteq> [] \<and> targetVersion \<noteq> 0 \<and>
     ot_origin o' = Some (targetID, targetVersion)"

text \<open>The replay bytes are released only to the branch, and the scope, that owns them.\<close>

definition replay_Messages :: "OpaqueThinking \<Rightarrow> string option" where
  "replay_Messages o' =
     (if ot_kind o' \<noteq> opaqueThinkingMessages \<or> ot_raw o' = [] then None else Some (ot_raw o'))"

definition replay_Interactions :: "OpaqueThinking \<Rightarrow> string option" where
  "replay_Interactions o' =
     (if ot_kind o' \<noteq> opaqueThinkingInteractions \<or> ot_raw o' = [] then None else Some (ot_raw o'))"

definition replay_ProviderChat :: "OpaqueThinking \<Rightarrow> string \<Rightarrow> string option" where
  "replay_ProviderChat o' scope =
     (if ot_kind o' \<noteq> opaqueThinkingProviderChat \<or> scope = [] \<or> scope \<noteq> ot_providerChatScope o' \<or>
       ot_raw o' = [] then None else Some (ot_raw o'))"

definition replay_Responses :: "OpaqueThinking \<Rightarrow> (string \<times> string) option" where
  "replay_Responses o' =
     (if ot_kind o' \<noteq> opaqueThinkingResponses \<or> ot_raw o' = [] then None
      else Some (ot_raw o', ot_responsesItemID o'))"

definition opaque_validate :: "OpaqueThinking \<Rightarrow> go_error + unit" where
  "opaque_validate o' =
     (if opaque_IsZero o' then Inr ()
      else if ot_kind o' = opaqueThinkingNone \<or> ot_raw o' = []
      then Inl (Errorf ''opaque thinking is invalid'' [])
      else if (ot_kind o' = opaqueThinkingProviderChat) \<noteq> (ot_providerChatScope o' \<noteq> [])
      then Inl (Errorf ''provider Chat opaque thinking scope is invalid'' [])
      else if ot_responsesItemID o' \<noteq> [] \<and> ot_kind o' \<noteq> opaqueThinkingResponses
      then Inl (Errorf ''responses reasoning id on a non-responses opaque thinking'' [])
      else case ot_origin o' of
        None \<Rightarrow> Inr ()
      | Some (targetID, targetVersion) \<Rightarrow>
          if targetID = [] \<or> targetVersion = 0
          then Inl (Errorf ''opaque thinking replay origin is invalid'' []) else Inr ())"

section \<open>Response references\<close>

type_synonym SwobuResponseID = string

definition responseID_IsZero :: "SwobuResponseID \<Rightarrow> bool" where
  "responseID_IsZero i \<longleftrightarrow> TrimSpace i = []"

record ResponsesContinuation =
  rc_ProviderResponseID :: string
  rc_TargetID :: string
  rc_TargetVersion :: "64 word"

record InteractionsContinuation =
  ic_ProviderInteractionID :: string
  ic_TargetID :: string
  ic_TargetVersion :: "64 word"

record ResponseRef =
  rr_SwobuID :: SwobuResponseID
  rr_Responses :: "ResponsesContinuation option"
  rr_Interactions :: "InteractionsContinuation option"

definition responses_ValidateBound :: "ResponsesContinuation \<Rightarrow> go_error + unit" where
  "responses_ValidateBound r =
     (if TrimSpace (rc_ProviderResponseID r) = []
      then Inl (Errorf ''Responses native reference requires a provider response ID'' [])
      else if TrimSpace (rc_TargetID r) = []
      then Inl (Errorf ''Responses native reference requires a target ID'' [])
      else if rc_TargetVersion r = 0
      then Inl (Errorf ''Responses native reference requires a target version'' [])
      else Inr ())"

definition interactions_ValidateBound :: "InteractionsContinuation \<Rightarrow> go_error + unit" where
  "interactions_ValidateBound r =
     (if TrimSpace (ic_ProviderInteractionID r) = []
      then Inl (Errorf ''Interactions native reference requires a provider interaction ID'' [])
      else if TrimSpace (ic_TargetID r) = []
      then Inl (Errorf ''Interactions native reference requires a target ID'' [])
      else if ic_TargetVersion r = 0
      then Inl (Errorf ''Interactions native reference requires a target version'' [])
      else Inr ())"

definition ValidatePreviousResponseSelector :: "ResponseRef \<Rightarrow> go_error + unit" where
  "ValidatePreviousResponseSelector r =
     (if responseID_IsZero (rr_SwobuID r)
      then Inl (Errorf ''response reference requires a Swobu response ID'' []) else Inr ())"

definition ValidateCommittedResponse :: "ResponseRef \<Rightarrow> go_error + unit" where
  "ValidateCommittedResponse r =
     (if responseID_IsZero (rr_SwobuID r)
      then Inl (Errorf ''committed response requires a Swobu response ID'' [])
      else and_then
        (case rr_Responses r of None \<Rightarrow> Inr () | Some c \<Rightarrow> responses_ValidateBound c) (\<lambda>_.
        and_then
          (case rr_Interactions r of None \<Rightarrow> Inr () | Some c \<Rightarrow> interactions_ValidateBound c) (\<lambda>_.
          if rr_Responses r \<noteq> None \<and> rr_Interactions r \<noteq> None
          then Inl (Errorf ''committed response cannot carry multiple native continuations'' [])
          else Inr ())))"

definition responses_AppliesTo :: "ResponsesContinuation \<Rightarrow> string \<Rightarrow> 64 word \<Rightarrow> bool" where
  "responses_AppliesTo r targetID targetVersion \<longleftrightarrow> is_ok (responses_ValidateBound r) \<and>
     rc_TargetID r = targetID \<and> rc_TargetVersion r = targetVersion"

definition interactions_AppliesTo :: "InteractionsContinuation \<Rightarrow> string \<Rightarrow> 64 word \<Rightarrow> bool" where
  "interactions_AppliesTo r targetID targetVersion \<longleftrightarrow> is_ok (interactions_ValidateBound r) \<and>
     ic_TargetID r = targetID \<and> ic_TargetVersion r = targetVersion"

definition NewResponsesItemID :: "string \<Rightarrow> go_error + string" where
  "NewResponsesItemID raw =
     (if raw = [] \<or> TrimSpace raw \<noteq> raw then Inl (Errorf ''responses item id is blank'' [])
      else Inr raw)"

section \<open>Items\<close>

datatype ContextScope = ContextScopeHistory | ContextScopeRequest | ContextScopeOther

type_synonym MessageRole = string

abbreviation MessageRoleUser :: MessageRole where "MessageRoleUser \<equiv> ''user''"
abbreviation MessageRoleAssistant :: MessageRole where "MessageRoleAssistant \<equiv> ''assistant''"
abbreviation MessageRoleSystem :: MessageRole where "MessageRoleSystem \<equiv> ''system''"
abbreviation MessageRoleDeveloper :: MessageRole where "MessageRoleDeveloper \<equiv> ''developer''"

definition validMessageRole :: "MessageRole \<Rightarrow> bool" where
  "validMessageRole role \<longleftrightarrow> role \<in> set [MessageRoleUser, MessageRoleAssistant, MessageRoleSystem,
     MessageRoleDeveloper]"

definition validContextScope :: "ContextScope \<Rightarrow> bool" where
  "validContextScope scope \<longleftrightarrow> scope = ContextScopeHistory \<or> scope = ContextScopeRequest"

record MessageItem =
  mi_role :: MessageRole
  mi_content :: "MessagePart list"
  mi_scope :: ContextScope

text \<open>The deferred set of \<open>ToolVisibilityRefinements\<close> is listed without repetition.\<close>

type_synonym ToolVisibilityRefinements = "ToolKey list"

record ToolDeclarationsItem =
  di_tools :: ToolSet
  di_scope :: ContextScope
  di_visibility :: ToolVisibilityRefinements

type_synonym ToolCallID = string

datatype ToolInput =
  zeroInput | object_input JSONObject | text_input string | web_search_input WebSearchCall

record ToolCallItem =
  tc_callID :: ToolCallID
  tc_tool :: ToolKey
  tc_input :: ToolInput
  tc_discoveryExecutor :: DiscoveryExecutor
  tc_responsesNullCallID :: bool
  tc_responsesWebSearch :: "string option"

datatype ToolResultBranch = content_result "ToolResultPart list" bool | search_result WebSearchResult

record ToolResultItem =
  tr_callID :: ToolCallID
  tr_branch :: ToolResultBranch

record ToolDiscoveryResultItem =
  td_callID :: ToolCallID
  td_tools :: ToolSet
  td_failure :: "(string option \<times> string) option"
  td_executor :: DiscoveryExecutor
  td_visibility :: ToolVisibilityRefinements
  td_responsesNullCallID :: bool

record ReasoningPart =
  rp_kind :: string
  rp_text :: string

record ReasoningItem =
  ri_parts :: "ReasoningPart list"
  ri_opaque :: OpaqueThinking

datatype CanonicalItem =
    zeroItem
  | message_item MessageItem
  | declarations_item ToolDeclarationsItem
  | tool_call_item ToolCallItem
  | tool_result_item ToolResultItem
  | discovery_result_item ToolDiscoveryResultItem
  | reasoning_item ReasoningItem

datatype ItemKind =
    ItemKindNone | ItemKindMessage | ItemKindToolDeclarations | ItemKindToolCall
  | ItemKindToolResult | ItemKindToolDiscoveryResult | ItemKindReasoning

fun item_Kind :: "CanonicalItem \<Rightarrow> ItemKind" where
  "item_Kind zeroItem = ItemKindNone"
| "item_Kind (message_item _) = ItemKindMessage"
| "item_Kind (declarations_item _) = ItemKindToolDeclarations"
| "item_Kind (tool_call_item _) = ItemKindToolCall"
| "item_Kind (tool_result_item _) = ItemKindToolResult"
| "item_Kind (discovery_result_item _) = ItemKindToolDiscoveryResult"
| "item_Kind (reasoning_item _) = ItemKindReasoning"

datatype TurnOwner = TurnOwnerNone | TurnOwnerUser | TurnOwnerAssistant

fun is_search_result :: "ToolResultItem \<Rightarrow> bool" where
  "is_search_result r = (case tr_branch r of search_result _ \<Rightarrow> True | _ \<Rightarrow> False)"

fun Owner :: "CanonicalItem \<Rightarrow> TurnOwner" where
  "Owner (message_item m) =
     (if mi_role m = MessageRoleUser then TurnOwnerUser
      else if mi_role m = MessageRoleAssistant then TurnOwnerAssistant else TurnOwnerNone)"
| "Owner (tool_call_item _) = TurnOwnerAssistant"
| "Owner (tool_result_item r) = (if is_search_result r then TurnOwnerAssistant else TurnOwnerUser)"
| "Owner (discovery_result_item r) =
     (if td_executor r = DiscoveryExecutorProvider then TurnOwnerAssistant else TurnOwnerUser)"
| "Owner (reasoning_item _) = TurnOwnerAssistant"
| "Owner _ = TurnOwnerNone"

subsection \<open>Constructors\<close>

definition NewToolCallID :: "string \<Rightarrow> go_error + ToolCallID" where
  "NewToolCallID raw =
     (if raw = [] \<or> TrimSpace raw \<noteq> raw then Inl (Errorf ''canonical tool call id is empty'' [])
      else Inr raw)"

definition deferrableToolKind :: "ToolKind \<Rightarrow> bool" where
  "deferrableToolKind kind \<longleftrightarrow>
     kind = ToolKindFunction \<or> kind = ToolKindCustom \<or> kind = ToolKindWebSearch"

fun deferrable_keys :: "ToolDeclaration list \<Rightarrow> ToolKey list" where
  "deferrable_keys [] = []"
| "deferrable_keys (namespace_tool k d ts # rest) = deferrable_keys ts @ deferrable_keys rest"
| "deferrable_keys (t # rest) =
     (if deferrableToolKind (decl_Kind t) then [decl_Key t] else []) @ deferrable_keys rest"

definition deferrableToolKeys :: "ToolSet \<Rightarrow> ToolKey list" where
  "deferrableToolKeys tools = deferrable_keys (set_ordered tools)"

definition NewToolVisibilityRefinements ::
    "ToolSet \<Rightarrow> ToolKey list \<Rightarrow> go_error + ToolVisibilityRefinements" where
  "NewToolVisibilityRefinements tools deferred =
     and_then (check_all (\<lambda>key.
         if key_IsZero key \<or> \<not> deferrableToolKind (tk_kind key)
         then Inl (Errorf ''deferred tool visibility requires a deferrable tool key'' [])
         else if key \<notin> set (deferrableToolKeys tools)
         then Inl (Errorf ''deferred tool visibility references an undeclared tool'' [])
         else Inr ()) deferred)
       (\<lambda>_. Inr (remdups deferred))"

definition NewScopedMessageItem ::
    "MessageRole \<Rightarrow> MessagePart list \<Rightarrow> ContextScope \<Rightarrow> go_error + CanonicalItem" where
  "NewScopedMessageItem role content scope =
     (if \<not> validMessageRole role then Inl (Errorf ''canonical message role %q is invalid'' [role])
      else if \<not> validContextScope scope
      then Inl (Errorf ''canonical message context scope is invalid'' [])
      else if scope = ContextScopeRequest \<and> role \<noteq> MessageRoleSystem \<and> role \<noteq> MessageRoleDeveloper
      then Inl (Errorf ''canonical request-scoped messages require system or developer role'' [])
      else if role \<noteq> MessageRoleUser \<and> list_ex (\<lambda>x. part_Kind x = PartKindImage) content
      then Inl (Errorf ''canonical image messages require user role'' [])
      else and_then (validated_parts content) (\<lambda>cloned.
        Inr (message_item \<lparr>mi_role = role, mi_content = cloned, mi_scope = scope\<rparr>)))"

definition NewToolDeclarationsItemWithVisibility ::
    "ToolSet \<Rightarrow> ContextScope \<Rightarrow> ToolVisibilityRefinements \<Rightarrow> go_error + CanonicalItem" where
  "NewToolDeclarationsItemWithVisibility tools scope visibility =
     (if \<not> validContextScope scope
      then Inl (Errorf ''canonical tool declaration context scope is invalid'' [])
      else and_then (NewToolVisibilityRefinements tools visibility) (\<lambda>validated.
        Inr (declarations_item \<lparr>di_tools = tools, di_scope = scope, di_visibility = validated\<rparr>)))"

definition NewToolCallItem ::
    "ToolCallID \<Rightarrow> ToolKey \<Rightarrow> ToolInput \<Rightarrow> go_error + CanonicalItem" where
  "NewToolCallItem callID tool input =
     (if callID = [] then Inl (Errorf ''canonical tool call requires a call id'' [])
      else if key_IsZero tool then Inl (Errorf ''canonical tool call requires a valid tool key'' [])
      else if input = zeroInput
      then Inl (Errorf ''canonical tool call requires exactly one input branch'' [])
      else let call = Inr (tool_call_item \<lparr>tc_callID = callID, tc_tool = tool, tc_input = input,
             tc_discoveryExecutor = DiscoveryExecutorNone, tc_responsesNullCallID = False,
             tc_responsesWebSearch = None\<rparr>)
      in if tk_kind tool = ToolKindFunction then
           (case input of object_input _ \<Rightarrow> call
            | _ \<Rightarrow> Inl (Errorf ''canonical function call requires object input'' []))
         else if tk_kind tool = ToolKindDiscovery
         then Inl (Errorf ''canonical tool discovery call requires explicit execution ownership'' [])
         else if tk_kind tool = ToolKindCustom then
           (case input of text_input _ \<Rightarrow> call
            | _ \<Rightarrow> Inl (Errorf ''canonical custom tool call requires text input'' []))
         else if tk_kind tool = ToolKindWebSearch then
           (case input of web_search_input _ \<Rightarrow> call
            | _ \<Rightarrow> Inl (Errorf ''canonical web-search call requires web-search input'' []))
         else Inl (Errorf ''canonical tool kind %q is not callable'' [tk_kind tool]))"

definition NewToolDiscoveryCallItemWithResponses ::
    "ToolCallID \<Rightarrow> ToolInput \<Rightarrow> DiscoveryExecutor \<Rightarrow> bool \<Rightarrow> go_error + CanonicalItem" where
  "NewToolDiscoveryCallItemWithResponses callID input executor wireCallIDNull =
     (if callID = [] \<or> executor = DiscoveryExecutorNone
      then Inl (Errorf ''canonical tool discovery call is invalid'' [])
      else if wireCallIDNull \<and> executor \<noteq> DiscoveryExecutorProvider
      then Inl (Errorf ''only provider-executed Responses discovery may omit its wire call id'' [])
      else case input of
        object_input _ \<Rightarrow> Inr (tool_call_item \<lparr>tc_callID = callID, tc_tool = ToolDiscoveryKey,
          tc_input = input, tc_discoveryExecutor = executor,
          tc_responsesNullCallID = wireCallIDNull, tc_responsesWebSearch = None\<rparr>)
      | _ \<Rightarrow> Inl (Errorf ''canonical tool discovery call requires object input'' []))"

definition NewToolResultItem ::
    "ToolCallID \<Rightarrow> ToolResultPart list \<Rightarrow> bool \<Rightarrow> go_error + CanonicalItem" where
  "NewToolResultItem callID content isError =
     (if callID = [] then Inl (Errorf ''canonical tool result requires a call id'' [])
      else and_then (validated_result_parts content) (\<lambda>cloned.
        Inr (tool_result_item \<lparr>tr_callID = callID, tr_branch = content_result cloned isError\<rparr>)))"

definition NewWebSearchResultItem :: "ToolCallID \<Rightarrow> WebSearchResult \<Rightarrow> go_error + CanonicalItem" where
  "NewWebSearchResultItem callID result =
     (if callID = [] then Inl (Errorf ''canonical web-search result requires a call id'' [])
      else if \<not> result_valid result then Inl (Errorf ''canonical web-search result is invalid'' [])
      else Inr (tool_result_item \<lparr>tr_callID = callID, tr_branch = search_result result\<rparr>))"

definition NewToolDiscoveryResultItemWithVisibilityWireID ::
    "ToolCallID \<Rightarrow> ToolSet \<Rightarrow> DiscoveryExecutor \<Rightarrow> ToolVisibilityRefinements \<Rightarrow> bool \<Rightarrow>
     go_error + CanonicalItem" where
  "NewToolDiscoveryResultItemWithVisibilityWireID callID tools executor visibility wireCallIDNull =
     (if callID = [] \<or> executor = DiscoveryExecutorNone
      then Inl (Errorf ''canonical tool discovery result requires a call id'' [])
      else if wireCallIDNull \<and> executor \<noteq> DiscoveryExecutorProvider
      then Inl (Errorf ''only provider-executed Responses discovery may omit its wire call id'' [])
      else and_then (NewToolVisibilityRefinements tools visibility) (\<lambda>validated.
        Inr (discovery_result_item \<lparr>td_callID = callID, td_tools = tools, td_failure = None,
          td_executor = executor, td_visibility = validated,
          td_responsesNullCallID = wireCallIDNull\<rparr>)))"

definition NewToolDiscoveryFailureItem ::
    "ToolCallID \<Rightarrow> DiscoveryExecutor \<Rightarrow> string option \<Rightarrow> string \<Rightarrow> go_error + CanonicalItem" where
  "NewToolDiscoveryFailureItem callID executor code msg =
     (if callID = [] \<or> executor = DiscoveryExecutorNone
      then Inl (Errorf ''canonical tool discovery failure requires a call id'' [])
      else Inr (discovery_result_item \<lparr>td_callID = callID, td_tools = zeroToolSet,
        td_failure = Some (map_option TrimSpace code, TrimSpace msg), td_executor = executor,
        td_visibility = [], td_responsesNullCallID = False\<rparr>))"

definition reasoning_part_ok :: "ReasoningPart \<Rightarrow> go_error + unit" where
  "reasoning_part_ok part =
     (if rp_kind part \<noteq> ''summary'' \<and> rp_kind part \<noteq> ''trace''
      then Inl (Errorf ''canonical reasoning part %d kind %q is invalid'' [rp_kind part])
      else if rp_text part = [] then Inl (Errorf ''canonical reasoning part %d text is empty'' [])
      else Inr ())"

definition NewReasoningItem :: "ReasoningPart list \<Rightarrow> OpaqueThinking \<Rightarrow> go_error + CanonicalItem" where
  "NewReasoningItem parts opaque' =
     and_then (check_all reasoning_part_ok parts) (\<lambda>_.
       and_then (opaque_validate opaque') (\<lambda>_.
         if parts = [] \<and> opaque_IsZero opaque'
         then Inl (Errorf ''canonical reasoning item requires readable parts or opaque thinking'' [])
         else Inr (reasoning_item \<lparr>ri_parts = parts, ri_opaque = opaque'\<rparr>)))"

definition reasoning_withTargetOrigin ::
    "ReasoningItem \<Rightarrow> string \<Rightarrow> 64 word \<Rightarrow> go_error + CanonicalItem" where
  "reasoning_withTargetOrigin r targetID targetVersion =
     (if opaque_IsZero (ri_opaque r) then NewReasoningItem (ri_parts r) (ri_opaque r)
      else and_then (opaque_withTargetOrigin (ri_opaque r) targetID targetVersion) (\<lambda>bound.
        NewReasoningItem (ri_parts r) bound))"

definition item_withTargetOrigin ::
    "CanonicalItem \<Rightarrow> string \<Rightarrow> 64 word \<Rightarrow> go_error + CanonicalItem" where
  "item_withTargetOrigin i targetID targetVersion =
     (case i of reasoning_item r \<Rightarrow> reasoning_withTargetOrigin r targetID targetVersion
      | _ \<Rightarrow> Inr i)"

definition retainToolVisibilityRefinements ::
    "ToolSet \<Rightarrow> ToolVisibilityRefinements \<Rightarrow> go_error + ToolVisibilityRefinements" where
  "retainToolVisibilityRefinements after deferred =
     (if deferred = [] then Inr []
      else NewToolVisibilityRefinements after
        (filter (\<lambda>k. k \<in> set (deferrableToolKeys after)) deferred))"

definition WithTools ::
    "ToolDiscoveryResultItem \<Rightarrow> ToolSet \<Rightarrow> go_error + ToolDiscoveryResultItem" where
  "WithTools r tools =
     (if td_failure r \<noteq> None then Inr r
      else and_then (retainToolVisibilityRefinements tools (td_visibility r)) (\<lambda>visibility.
        and_then (NewToolDiscoveryResultItemWithVisibilityWireID (td_callID r) tools (td_executor r)
            visibility (td_responsesNullCallID r)) (\<lambda>item.
          case item of discovery_result_item result \<Rightarrow> Inr result | _ \<Rightarrow> Inr r)))"

definition NewToolCallItemWithResponsesWebSearch ::
    "ToolCallID \<Rightarrow> ToolKey \<Rightarrow> ToolInput \<Rightarrow> string option \<Rightarrow> go_error + CanonicalItem" where
  "NewToolCallItemWithResponsesWebSearch callID tool input refinement =
     and_then (NewToolCallItem callID tool input) (\<lambda>item.
       case item of
         tool_call_item call \<Rightarrow> Inr (tool_call_item (call\<lparr>tc_responsesWebSearch := refinement\<rparr>))
       | _ \<Rightarrow> Inr item)"

end
