(* ===== verification/Canonical_Response.thy ===== *)
theory Canonical_Response
  imports Canonical_Item
begin

text \<open>
  Tool effects and completed responses (\<^verbatim>\<open>src/internal/domain/canonical\<close>): the matcher of calls
  and results (\<^verbatim>\<open>tool_effect_matcher.go\<close>), token accounting (\<^verbatim>\<open>token_usage.go\<close>) and the
  validated terminal value of a provider call (\<^verbatim>\<open>canonical_response.go\<close>).
\<close>

section \<open>Effects\<close>

text \<open>\<open>te_ResultIndex\<close> is \<open>-1\<close> while the call is pending.\<close>

record ToolEffect =
  te_CallIndex :: int
  te_ResultIndex :: int
  te_CallID :: ToolCallID
  te_Kind :: ToolKind
  te_Executor :: "DiscoveryExecutor option"

record ToolEffectMatcher =
  em_effects :: "ToolEffect list"
  em_pending :: "(ToolCallID \<times> nat) list"

definition newMatcher :: ToolEffectMatcher where
  "newMatcher = \<lparr>em_effects = [], em_pending = []\<rparr>"

definition call_DiscoveryExecutor :: "ToolCallItem \<Rightarrow> DiscoveryExecutor option" where
  "call_DiscoveryExecutor c =
     (if tk_kind (tc_tool c) \<noteq> ToolKindDiscovery \<or> tc_discoveryExecutor c = DiscoveryExecutorNone
      then None else Some (tc_discoveryExecutor c))"

definition acceptCall ::
    "int \<Rightarrow> ToolCallItem \<Rightarrow> ToolEffectMatcher \<Rightarrow> go_error + ToolEffectMatcher" where
  "acceptCall index call m =
     (let i = tc_callID call; kind = tk_kind (tc_tool call);
          effect = \<lparr>te_CallIndex = index, te_ResultIndex = -1, te_CallID = i, te_Kind = kind,
            te_Executor = None\<rparr>;
          add = (\<lambda>e. m\<lparr>em_effects := em_effects m @ [e],
            em_pending := AList.update i (length (em_effects m)) (em_pending m)\<rparr>)
      in if map_of (em_pending m) i \<noteq> None
         then Inl (Errorf ''tool call repeats a pending id %q'' [i])
         else if kind \<in> set [ToolKindFunction, ToolKindCustom, ToolKindWebSearch]
         then Inr (add effect)
         else if kind = ToolKindDiscovery then
           (case call_DiscoveryExecutor call of
              None \<Rightarrow> Inl (Errorf ''tool-discovery call %q has no execution owner'' [i])
            | Some executor \<Rightarrow> Inr (add (effect\<lparr>te_Executor := Some executor\<rparr>)))
         else Inl (Errorf ''tool call %q has non-callable kind %q'' [i, kind]))"

definition pendingEffect ::
    "ToolCallID \<Rightarrow> ToolEffectMatcher \<Rightarrow> go_error + ToolEffect \<times> nat" where
  "pendingEffect i m =
     (case map_of (em_pending m) i of
        None \<Rightarrow> Inl (Errorf ''tool result has no pending call id %q'' [i])
      | Some k \<Rightarrow> Inr (em_effects m ! k, k))"

definition complete :: "int \<Rightarrow> nat \<Rightarrow> ToolEffectMatcher \<Rightarrow> ToolEffect \<times> ToolEffectMatcher" where
  "complete resultIndex k m =
     (let effect = (em_effects m ! k)\<lparr>te_ResultIndex := resultIndex\<rparr>
      in (effect, m\<lparr>em_effects := (em_effects m)[k := effect],
           em_pending := AList.delete (te_CallID effect) (em_pending m)\<rparr>))"

definition acceptToolResult ::
    "int \<Rightarrow> ToolResultItem \<Rightarrow> ToolEffectMatcher \<Rightarrow> go_error + ToolEffect \<times> ToolEffectMatcher" where
  "acceptToolResult index result m =
     and_then (pendingEffect (tr_callID result) m) (\<lambda>(effect, k).
       if te_Kind effect \<in> set [ToolKindFunction, ToolKindCustom] then
         (if is_search_result result
          then Inl (Errorf ''web-search result does not match pending %s call id %q''
            [te_Kind effect, te_CallID effect])
          else Inr (complete index k m))
       else if te_Kind effect = ToolKindWebSearch then
         (if \<not> is_search_result result
          then Inl (Errorf ''content result does not match pending web-search call id %q''
            [te_CallID effect])
          else Inr (complete index k m))
       else if te_Kind effect = ToolKindDiscovery
       then Inl (Errorf ''tool result does not match pending discovery call id %q''
         [te_CallID effect])
       else Inl (Errorf ''tool result has invalid pending call kind %q for id %q''
         [te_Kind effect, te_CallID effect]))"

definition acceptDiscoveryResult ::
    "int \<Rightarrow> ToolDiscoveryResultItem \<Rightarrow> ToolEffectMatcher \<Rightarrow>
     go_error + ToolEffect \<times> ToolEffectMatcher" where
  "acceptDiscoveryResult index result m =
     and_then (pendingEffect (td_callID result) m) (\<lambda>(effect, k).
       if te_Kind effect \<noteq> ToolKindDiscovery
       then Inl (Errorf ''tool-discovery result does not match pending %s call id %q''
         [te_Kind effect, te_CallID effect])
       else if te_Executor effect \<noteq> Some (td_executor result)
       then Inl (Errorf ''tool-discovery result execution owner differs from call id %q''
         [te_CallID effect])
       else Inr (complete index k m))"

fun Accept ::
    "int \<Rightarrow> CanonicalItem \<Rightarrow> ToolEffectMatcher \<Rightarrow> go_error + ToolEffect option \<times> ToolEffectMatcher"
where
  "Accept index (tool_call_item call) m =
     and_then (acceptCall index call m) (\<lambda>m. Inr (None, m))"
| "Accept index (tool_result_item r) m =
     and_then (acceptToolResult index r m) (\<lambda>(e, m). Inr (Some e, m))"
| "Accept index (discovery_result_item r) m =
     and_then (acceptDiscoveryResult index r m) (\<lambda>(e, m). Inr (Some e, m))"
| "Accept index _ m = Inr (None, m)"

definition Pending :: "ToolEffectMatcher \<Rightarrow> ToolEffect list" where
  "Pending m = sort_key te_CallIndex (map (\<lambda>(_, k). em_effects m ! k) (em_pending m))"

fun accept_items ::
    "nat \<Rightarrow> CanonicalItem list \<Rightarrow> ToolEffectMatcher \<Rightarrow> go_error + ToolEffectMatcher" where
  "accept_items k [] m = Inr m"
| "accept_items k (item # items) m =
     and_then (Accept (int k) item m) (\<lambda>(_, m). accept_items (Suc k) items m)"

definition MatchToolEffects :: "CanonicalItem list \<Rightarrow> go_error + ToolEffect list" where
  "MatchToolEffects items = and_then (accept_items 0 items newMatcher) (\<lambda>m. Inr (em_effects m))"

section \<open>Token usage\<close>

text \<open>A counter that is not known is absent. Go's \<^verbatim>\<open>int\<close> is a 64-bit two's complement value.\<close>

record TokenUsage =
  tu_input :: "int option"
  tu_output :: "int option"
  tu_reasoning :: "int option"
  tu_cacheRead :: "int option"
  tu_cacheWrite :: "int option"

definition NewUnknownTokenUsage :: TokenUsage where
  "NewUnknownTokenUsage = \<lparr>tu_input = None, tu_output = None, tu_reasoning = None,
     tu_cacheRead = None, tu_cacheWrite = None\<rparr>"

definition negative_count :: "int option \<Rightarrow> bool" where
  "negative_count v = (case v of None \<Rightarrow> False | Some n \<Rightarrow> n < 0)"

definition NewTokenUsage ::
    "int option \<Rightarrow> int option \<Rightarrow> int option \<Rightarrow> int option \<Rightarrow> int option \<Rightarrow> go_error + TokenUsage" where
  "NewTokenUsage input output reasoning cacheRead cacheWrite =
     (if negative_count input then Inl (Errorf ''input tokens must not be negative'' [])
      else if negative_count output then Inl (Errorf ''output tokens must not be negative'' [])
      else if negative_count reasoning
      then Inl (Errorf ''reasoning tokens must not be negative'' [])
      else if negative_count cacheRead
      then Inl (Errorf ''cache read tokens must not be negative'' [])
      else if negative_count cacheWrite
      then Inl (Errorf ''cache write tokens must not be negative'' [])
      else Inr \<lparr>tu_input = input, tu_output = output, tu_reasoning = reasoning,
        tu_cacheRead = cacheRead, tu_cacheWrite = cacheWrite\<rparr>)"

definition wrap64 :: "int \<Rightarrow> int" where
  "wrap64 n = sint (word_of_int n :: 64 word)"

definition TotalKnownTokens :: "TokenUsage \<Rightarrow> int option" where
  "TotalKnownTokens u =
     (case (tu_input u, tu_output u) of
        (Some i, Some j) \<Rightarrow> Some (wrap64 (i + j)) | _ \<Rightarrow> None)"

text \<open>The accumulator of one counter: its total and whether every round knew it.\<close>

definition add_count :: "int option \<Rightarrow> int \<times> bool \<Rightarrow> int \<times> bool" where
  "add_count v = (\<lambda>(acc, known).
     case v of None \<Rightarrow> (acc, False) | Some n \<Rightarrow> (wrap64 (acc + n), known))"

definition sum_count :: "int option list \<Rightarrow> int option" where
  "sum_count vs = (case fold add_count vs (0, True) of (acc, known) \<Rightarrow>
     if known then Some acc else None)"

definition SumTokenUsage :: "TokenUsage list \<Rightarrow> TokenUsage" where
  "SumTokenUsage rounds =
     (if rounds = [] then NewUnknownTokenUsage
      else case NewTokenUsage (sum_count (map tu_input rounds)) (sum_count (map tu_output rounds))
          (sum_count (map tu_reasoning rounds)) (sum_count (map tu_cacheRead rounds))
          (sum_count (map tu_cacheWrite rounds)) of
        Inr usage \<Rightarrow> usage | Inl _ \<Rightarrow> NewUnknownTokenUsage)"

section \<open>Completed responses\<close>

abbreviation CompletionCompleted :: string where "CompletionCompleted \<equiv> ''completed''"
abbreviation CompletionIncomplete :: string where "CompletionIncomplete \<equiv> ''incomplete''"
abbreviation CompletionDeclined :: string where "CompletionDeclined \<equiv> ''declined''"
abbreviation CompletionFailed :: string where "CompletionFailed \<equiv> ''failed''"

record Completion =
  cmp_class :: string
  cmp_reason :: string

definition zeroCompletion :: Completion where
  "zeroCompletion = \<lparr>cmp_class = [], cmp_reason = []\<rparr>"

definition completion_validate :: "Completion \<Rightarrow> go_error + unit" where
  "completion_validate c =
     (if cmp_class c \<notin> set [CompletionCompleted, CompletionIncomplete, CompletionDeclined,
          CompletionFailed]
      then Inl (Errorf ''canonical response completion class is invalid'' [])
      else if TrimSpace (cmp_reason c) = []
      then Inl (Errorf ''canonical response completion reason is required'' [])
      else Inr ())"

record CanonicalResponse =
  cr_response :: ResponseRef
  cr_model :: string
  cr_items :: "CanonicalItem list"
  cr_completion :: Completion
  cr_usage :: TokenUsage

definition validateResponseItem :: "CanonicalItem \<Rightarrow> go_error + unit" where
  "validateResponseItem item =
     (case item of
        message_item m \<Rightarrow>
          if mi_role m \<noteq> MessageRoleAssistant
          then Inl (Errorf ''canonical response item %d must be an assistant message'' []) else Inr ()
      | tool_call_item _ \<Rightarrow> Inr ()
      | reasoning_item _ \<Rightarrow>
          if Owner item \<noteq> TurnOwnerAssistant
          then Inl (Errorf ''canonical response item %d is invalid reasoning'' []) else Inr ()
      | tool_result_item r \<Rightarrow>
          if \<not> is_search_result r
          then Inl (Errorf ''canonical response item %d is a request-only tool result'' [])
          else Inr ()
      | discovery_result_item r \<Rightarrow>
          if td_executor r \<noteq> DiscoveryExecutorProvider
          then Inl (Errorf ''canonical response item %d is an invalid tool-discovery result'' [])
          else Inr ()
      | _ \<Rightarrow> Inl (Errorf ''canonical response item %d kind %q is unsupported'' []))"

text \<open>The response effect guard is a matcher with a settlement rule.\<close>

definition unsettled :: "ToolEffect \<Rightarrow> bool" where
  "unsettled e \<longleftrightarrow> te_Kind e = ToolKindWebSearch \<or>
     te_Kind e = ToolKindDiscovery \<and> te_Executor e = Some DiscoveryExecutorProvider"

definition RequireSettled :: "ToolEffectMatcher \<Rightarrow> go_error + unit" where
  "RequireSettled g =
     check_all (\<lambda>e.
       if te_Kind e = ToolKindWebSearch
       then Inl (Errorf ''web-search call has no provider result'' [])
       else if unsettled e
       then Inl (Errorf ''provider-executed tool-discovery call has no provider result'' [])
       else Inr ()) (Pending g)"

fun validate_response_items ::
    "nat \<Rightarrow> CanonicalItem list \<Rightarrow> ToolEffectMatcher \<Rightarrow> go_error + ToolEffectMatcher" where
  "validate_response_items k [] g = Inr g"
| "validate_response_items k (item # items) g =
     and_then (validateResponseItem item) (\<lambda>_.
       case Accept (int k) item g of
         Inl e \<Rightarrow> Inl (Errorw ''canonical response item %d %w'' [] e)
       | Inr (_, g) \<Rightarrow> validate_response_items (Suc k) items g)"

definition validateResponseItems :: "CanonicalItem list \<Rightarrow> go_error + ToolEffectMatcher" where
  "validateResponseItems items = validate_response_items 0 items newMatcher"

definition NewCanonicalResponse ::
    "ResponseRef \<Rightarrow> string \<Rightarrow> CanonicalItem list \<Rightarrow> Completion \<Rightarrow> TokenUsage \<Rightarrow>
     go_error + CanonicalResponse" where
  "NewCanonicalResponse response model items completion usage =
     (if responseID_IsZero (rr_SwobuID response)
      then Inl (Errorf ''canonical response identity is required'' [])
      else if TrimSpace model = [] then Inl (Errorf ''canonical response model is required'' [])
      else and_then (completion_validate completion) (\<lambda>_.
        and_then (validateResponseItems items) (\<lambda>effects.
        and_then (if cmp_class completion = CompletionCompleted then RequireSettled effects
            else Inr ()) (\<lambda>_.
          Inr \<lparr>cr_response = response, cr_model = model, cr_items = items,
            cr_completion = completion, cr_usage = usage\<rparr>))))"

definition WithUsage :: "CanonicalResponse \<Rightarrow> TokenUsage \<Rightarrow> CanonicalResponse" where
  "WithUsage o' usage = o'\<lparr>cr_usage := usage\<rparr>"

definition WithReasoningPrelude :: "CanonicalResponse \<Rightarrow> CanonicalItem \<Rightarrow> go_error + CanonicalResponse" where
  "WithReasoningPrelude o' item =
     (case item of
        reasoning_item continuation \<Rightarrow>
          (let rebuild = (\<lambda>items. NewCanonicalResponse (cr_response o') (cr_model o') items
                 (cr_completion o') (cr_usage o'))
           in case cr_items o' of
                reasoning_item visible # rest \<Rightarrow>
                  and_then (NewReasoningItem (ri_parts visible) (ri_opaque continuation))
                    (\<lambda>merged. rebuild (merged # rest))
              | items \<Rightarrow> rebuild (item # items))
      | _ \<Rightarrow> Inl (Errorf ''checkpoint reasoning prelude is invalid'' []))"

definition BindResponseOpaqueThinking ::
    "CanonicalResponse \<Rightarrow> string \<Rightarrow> 64 word \<Rightarrow> go_error + CanonicalResponse" where
  "BindResponseOpaqueThinking response targetID targetVersion =
     and_then (map_result (\<lambda>item. item_withTargetOrigin item targetID targetVersion)
         (cr_items response)) (\<lambda>items.
       NewCanonicalResponse (cr_response response) (cr_model response) items
         (cr_completion response) (cr_usage response))"

section \<open>What the matcher establishes\<close>

fun is_call :: "CanonicalItem \<Rightarrow> bool" where
  "is_call (tool_call_item _) \<longleftrightarrow> True" | "is_call _ \<longleftrightarrow> False"

fun is_result :: "CanonicalItem \<Rightarrow> bool" where
  "is_result (tool_result_item _) \<longleftrightarrow> True"
| "is_result (discovery_result_item _) \<longleftrightarrow> True"
| "is_result _ \<longleftrightarrow> False"

text \<open>The result items that answer a call.\<close>

fun answers :: "ToolEffect \<Rightarrow> CanonicalItem \<Rightarrow> bool" where
  "answers e (tool_result_item r) \<longleftrightarrow> tr_callID r = te_CallID e \<and>
     (if is_search_result r then te_Kind e = ToolKindWebSearch
      else te_Kind e = ToolKindFunction \<or> te_Kind e = ToolKindCustom)"
| "answers e (discovery_result_item r) \<longleftrightarrow> td_callID r = te_CallID e \<and>
     te_Kind e = ToolKindDiscovery \<and> te_Executor e = Some (td_executor r)"
| "answers e _ \<longleftrightarrow> False"

definition call_indices :: "CanonicalItem list \<Rightarrow> int list" where
  "call_indices items = map int (filter (\<lambda>i. is_call (items ! i)) [0..<length items])"

text \<open>One effect read against the items: its call, and its result if it has one.\<close>

definition effect_ok :: "CanonicalItem list \<Rightarrow> ToolEffect \<Rightarrow> bool" where
  "effect_ok items e \<longleftrightarrow>
     (\<exists>i c. te_CallIndex e = int i \<and> i < length items \<and> items ! i = tool_call_item c \<and>
        te_CallID e = tc_callID c \<and> te_Kind e = tk_kind (tc_tool c) \<and>
        te_Executor e = call_DiscoveryExecutor c) \<and>
     (te_ResultIndex e = -1 \<or>
      (\<exists>r. te_ResultIndex e = int r \<and> te_CallIndex e < int r \<and> r < length items \<and>
         answers e (items ! r)))"

definition reserved :: "ToolEffect list \<Rightarrow> bool" where
  "reserved es \<longleftrightarrow> (\<forall>j k. j < k \<longrightarrow> k < length es \<longrightarrow> te_CallID (es ! j) = te_CallID (es ! k) \<longrightarrow>
     te_ResultIndex (es ! j) \<noteq> -1 \<and> te_ResultIndex (es ! j) < te_CallIndex (es ! k))"

definition results_matched :: "CanonicalItem list \<Rightarrow> ToolEffect list \<Rightarrow> bool" where
  "results_matched items es \<longleftrightarrow>
     (\<forall>r < length items. is_result (items ! r) \<longrightarrow>
        (\<exists>!k. k < length es \<and> te_ResultIndex (es ! k) = int r))"

definition pending_ok :: "ToolEffectMatcher \<Rightarrow> bool" where
  "pending_ok m \<longleftrightarrow> gomap (em_pending m) \<and>
     (\<forall>i k. map_of (em_pending m) i = Some k \<longleftrightarrow> k < length (em_effects m) \<and>
        te_CallID (em_effects m ! k) = i \<and> te_ResultIndex (em_effects m ! k) = -1)"

definition matcher_ok :: "CanonicalItem list \<Rightarrow> ToolEffectMatcher \<Rightarrow> bool" where
  "matcher_ok items m \<longleftrightarrow>
     map te_CallIndex (em_effects m) = call_indices items \<and>
     list_all (effect_ok items) (em_effects m) \<and> reserved (em_effects m) \<and>
     results_matched items (em_effects m) \<and> pending_ok m"

lemma call_indices_snoc:
  "call_indices (items @ [item]) =
     call_indices items @ (if is_call item then [int (length items)] else [])"
  by (auto simp: call_indices_def nth_append intro: filter_cong)

lemma effect_ok_snoc: "effect_ok items e \<Longrightarrow> effect_ok (items @ [item]) e"
  unfolding effect_ok_def by (metis (no_types, lifting) length_append_singleton less_SucI nth_append)

lemma results_matched_skip:
  "results_matched items es \<Longrightarrow> \<not> is_result item \<Longrightarrow> results_matched (items @ [item]) es"
  by (auto simp: results_matched_def nth_append less_Suc_eq)

lemma new_matcher_ok: "matcher_ok [] newMatcher"
  by (simp add: matcher_ok_def newMatcher_def call_indices_def reserved_def results_matched_def
      pending_ok_def)

lemma skip_matcher_ok:
  "matcher_ok items m \<Longrightarrow> \<not> is_call item \<Longrightarrow> \<not> is_result item \<Longrightarrow> matcher_ok (items @ [item]) m"
  by (auto simp: matcher_ok_def call_indices_snoc list_all_iff effect_ok_snoc results_matched_skip)

text \<open>The two ways in which a matcher changes: a new pending call, and a completed one.\<close>

lemma acceptCall_cases:
  assumes "acceptCall index call m = Inr m'"
  shows "map_of (em_pending m) (tc_callID call) = None \<and>
    m' = m\<lparr>em_effects := em_effects m @ [\<lparr>te_CallIndex = index, te_ResultIndex = -1,
        te_CallID = tc_callID call, te_Kind = tk_kind (tc_tool call),
        te_Executor = call_DiscoveryExecutor call\<rparr>],
      em_pending := AList.update (tc_callID call) (length (em_effects m)) (em_pending m)\<rparr>"
  using assms
  by (auto simp: acceptCall_def Let_def call_DiscoveryExecutor_def split: if_splits option.splits)

lemma pending_ok_call:
  assumes "pending_ok m" and "map_of (em_pending m) (te_CallID e) = None" and "te_ResultIndex e = -1"
  shows "pending_ok (m\<lparr>em_effects := em_effects m @ [e],
    em_pending := AList.update (te_CallID e) (length (em_effects m)) (em_pending m)\<rparr>)"
proof -
  have "\<And>k. \<not> (k < length (em_effects m) \<and> te_CallID (em_effects m ! k) = te_CallID e \<and>
      te_ResultIndex (em_effects m ! k) = -1)"
    using assms(1,2) unfolding pending_ok_def by (metis option.distinct(1))
  then show ?thesis
    using assms by (auto simp: pending_ok_def update_conv' nth_append less_Suc_eq)
qed

lemma call_matcher_ok:
  assumes ok: "matcher_ok items m" and a: "acceptCall (int (length items)) call m = Inr m'"
  shows "matcher_ok (items @ [tool_call_item call]) m'"
proof -
  define e where "e = (\<lparr>te_CallIndex = int (length items), te_ResultIndex = -1,
    te_CallID = tc_callID call, te_Kind = tk_kind (tc_tool call),
    te_Executor = call_DiscoveryExecutor call\<rparr> :: ToolEffect)"
  let ?items = "items @ [tool_call_item call]"
  note m' = acceptCall_cases [OF a, folded e_def]
  have fresh: "map_of (em_pending m) (te_CallID e) = None" using m' by (simp add: e_def)
  have es: "em_effects m' = em_effects m @ [e]" using m' by simp
  have old: "list_all (effect_ok items) (em_effects m)" "reserved (em_effects m)"
    "results_matched items (em_effects m)" "pending_ok m"
    "map te_CallIndex (em_effects m) = call_indices items"
    using ok by (simp_all add: matcher_ok_def)
  have e_ok: "effect_ok ?items e" by (auto simp: effect_ok_def e_def nth_append)
  have answered: "te_ResultIndex (em_effects m ! j) \<noteq> -1"
    if "j < length (em_effects m)" "te_CallID (em_effects m ! j) = te_CallID e" for j
    using fresh old(4) that unfolding pending_ok_def by (metis option.distinct(1))
  have earlier: "te_ResultIndex (em_effects m ! j) < int (length items)"
    if "j < length (em_effects m)" for j
    using old(1) that by (auto simp: list_all_length effect_ok_def)
  have "reserved (em_effects m')"
    using old(2) answered earlier unfolding es reserved_def
    by (auto simp: nth_append e_def less_Suc_eq)
  moreover have "results_matched ?items (em_effects m')"
    unfolding results_matched_def es
  proof (intro allI impI)
    fix r assume r: "r < length ?items" "is_result (?items ! r)"
    then have "r < length items" "is_result (items ! r)" by (auto simp: nth_append less_Suc_eq)
    then obtain k where k: "k < length (em_effects m)" "te_ResultIndex (em_effects m ! k) = int r"
      and u: "\<And>j. j < length (em_effects m) \<Longrightarrow> te_ResultIndex (em_effects m ! j) = int r \<Longrightarrow> j = k"
      using old(3) unfolding results_matched_def by blast
    show "\<exists>!k. k < length (em_effects m @ [e]) \<and> te_ResultIndex ((em_effects m @ [e]) ! k) = int r"
    proof (rule ex1I [of _ k])
      show "k < length (em_effects m @ [e]) \<and> te_ResultIndex ((em_effects m @ [e]) ! k) = int r"
        using k by (simp add: nth_append)
      fix j assume j: "j < length (em_effects m @ [e]) \<and>
        te_ResultIndex ((em_effects m @ [e]) ! j) = int r"
      then have "j < length (em_effects m)"
        by (cases "j = length (em_effects m)") (simp_all add: e_def)
      then show "j = k" using j u [of j] by (simp add: nth_append)
    qed
  qed
  moreover have "pending_ok m'"
    using pending_ok_call [OF old(4) fresh] m' by (simp add: e_def)
  moreover have "list_all (effect_ok ?items) (em_effects m')"
    using old(1) e_ok effect_ok_snoc by (auto simp: es list_all_iff)
  ultimately show ?thesis
    using old(5) by (simp add: matcher_ok_def es call_indices_snoc) (simp add: e_def)
qed

lemma pending_ok_complete:
  assumes ok: "pending_ok m" and k: "map_of (em_pending m) i = Some k" and r: "r \<noteq> -1"
  shows "pending_ok (snd (complete r k m))"
proof -
  have k': "k < length (em_effects m)" "te_CallID (em_effects m ! k) = i"
    "te_ResultIndex (em_effects m ! k) = -1"
    using ok k by (auto simp: pending_ok_def)
  show ?thesis
    unfolding pending_ok_def
  proof (intro conjI allI)
    show "gomap (em_pending (snd (complete r k m)))"
      using ok by (simp add: pending_ok_def complete_def Let_def gomap_delete)
    fix i' k'
    have "k' = k" if "k' < length (em_effects m)" "te_CallID (em_effects m ! k') = i"
      "te_ResultIndex (em_effects m ! k') = -1"
      using ok k that unfolding pending_ok_def by (metis option.inject)
    then show "map_of (em_pending (snd (complete r k m))) i' = Some k' \<longleftrightarrow>
        k' < length (em_effects (snd (complete r k m))) \<and>
        te_CallID (em_effects (snd (complete r k m)) ! k') = i' \<and>
        te_ResultIndex (em_effects (snd (complete r k m)) ! k') = -1"
      using ok k k' r
      by (auto simp: complete_def Let_def delete_conv' nth_list_update pending_ok_def)
  qed
qed

lemma complete_matcher_ok:
  assumes ok: "matcher_ok items m" and k: "map_of (em_pending m) i = Some k"
    and item: "answers (em_effects m ! k) item"
  shows "matcher_ok (items @ [item]) (snd (complete (int (length items)) k m))"
proof -
  let ?es = "em_effects m" and ?m = "snd (complete (int (length items)) k m)"
  define e where "e = (?es ! k)\<lparr>te_ResultIndex := int (length items)\<rparr>"
  have old: "list_all (effect_ok items) ?es" "reserved ?es" "results_matched items ?es"
    "pending_ok m" "map te_CallIndex ?es = call_indices items"
    using ok by (simp_all add: matcher_ok_def)
  have kp: "k < length ?es" "te_ResultIndex (?es ! k) = -1"
    using old(4) k by (auto simp: pending_ok_def)
  have es: "em_effects ?m = ?es[k := e]" by (simp add: complete_def Let_def e_def)
  have same: "te_CallID (?es[k := e] ! j) = te_CallID (?es ! j)"
    "te_CallIndex (?es[k := e] ! j) = te_CallIndex (?es ! j)" if "j < length ?es" for j
    using that kp(1) by (auto simp: nth_list_update e_def)
  have kind: "is_result item" "\<not> is_call item" using item by (cases item; simp)+
  have "answers e item" using item by (cases item) (simp_all add: e_def)
  moreover have "effect_ok items (?es ! k)" using old(1) kp(1) by (simp add: list_all_length)
  ultimately have e_ok: "effect_ok (items @ [item]) e"
    by (auto simp: effect_ok_def e_def nth_append)
  have "list_all (effect_ok (items @ [item])) (?es[k := e])"
    using old(1) e_ok effect_ok_snoc kp(1) by (simp add: list_all_length nth_list_update)
  moreover have "reserved (?es[k := e])"
    unfolding reserved_def
  proof (intro allI impI)
    fix i j assume ij: "i < j" "j < length (?es[k := e])"
      "te_CallID (?es[k := e] ! i) = te_CallID (?es[k := e] ! j)"
    then have a: "te_ResultIndex (?es ! i) \<noteq> -1 \<and> te_ResultIndex (?es ! i) < te_CallIndex (?es ! j)"
      using old(2) unfolding reserved_def by (simp add: same)
    then have "i \<noteq> k" using kp(2) by blast
    then show "te_ResultIndex (?es[k := e] ! i) \<noteq> -1 \<and>
        te_ResultIndex (?es[k := e] ! i) < te_CallIndex (?es[k := e] ! j)"
      using a ij(2) by (simp add: same)
  qed
  moreover have "results_matched (items @ [item]) (?es[k := e])"
    unfolding results_matched_def
  proof (intro allI impI)
    fix r assume r: "r < length (items @ [item])" "is_result ((items @ [item]) ! r)"
    show "\<exists>!j. j < length (?es[k := e]) \<and> te_ResultIndex (?es[k := e] ! j) = int r"
    proof (cases "r = length items")
      case True
      have "te_ResultIndex (?es ! j) \<noteq> int r" if "j < length ?es" for j
        using old(1) that by (auto simp: list_all_length effect_ok_def True)
      then show ?thesis
        by (intro ex1I [of _ k]) (use kp in \<open>auto simp: nth_list_update e_def True split: if_splits\<close>)
    next
      case False
      then have "r < length items" "is_result (items ! r)" using r by (auto simp: nth_append)
      then have one: "\<exists>!j. j < length ?es \<and> te_ResultIndex (?es ! j) = int r"
        using old(3) unfolding results_matched_def by blast
      have "te_ResultIndex (?es[k := e] ! j) = int r \<longleftrightarrow> te_ResultIndex (?es ! j) = int r" for j
        using kp False by (cases "j = k") (simp_all add: e_def)
      with one show ?thesis by simp
    qed
  qed
  moreover have "pending_ok ?m" using pending_ok_complete [OF old(4) k] by simp
  moreover have "map te_CallIndex (?es[k := e]) = map te_CallIndex ?es"
    using same by (auto intro: nth_equalityI)
  ultimately show ?thesis
    using old(5) kind by (simp add: matcher_ok_def es call_indices_snoc)
qed

lemma acceptToolResult_cases:
  assumes "acceptToolResult index r m = Inr (e, m')"
  shows "\<exists>k. map_of (em_pending m) (tr_callID r) = Some k \<and> m' = snd (complete index k m) \<and>
    (te_CallID (em_effects m ! k) = tr_callID r \<longrightarrow> answers (em_effects m ! k) (tool_result_item r))"
  using assms
  by (auto simp: acceptToolResult_def pendingEffect_def complete_def Let_def early_return
      split: if_splits)

lemma acceptDiscoveryResult_cases:
  assumes "acceptDiscoveryResult index r m = Inr (e, m')"
  shows "\<exists>k. map_of (em_pending m) (td_callID r) = Some k \<and> m' = snd (complete index k m) \<and>
    (te_CallID (em_effects m ! k) = td_callID r \<longrightarrow>
       answers (em_effects m ! k) (discovery_result_item r))"
  using assms
  by (auto simp: acceptDiscoveryResult_def pendingEffect_def complete_def Let_def early_return
      split: if_splits)

lemma Accept_matcher_ok:
  assumes "matcher_ok items m" and "Accept (int (length items)) item m = Inr (e, m')"
  shows "matcher_ok (items @ [item]) m'"
proof (cases item)
  case (tool_call_item c)
  then show ?thesis using assms call_matcher_ok by (auto simp: result_simps)
next
  case (tool_result_item r)
  then obtain e' where "acceptToolResult (int (length items)) r m = Inr (e', m')"
    using assms(2) by (auto simp: result_simps)
  from acceptToolResult_cases [OF this] obtain k where
    k: "map_of (em_pending m) (tr_callID r) = Some k" "m' = snd (complete (int (length items)) k m)"
    "te_CallID (em_effects m ! k) = tr_callID r \<longrightarrow> answers (em_effects m ! k) (tool_result_item r)"
    by blast
  then have "te_CallID (em_effects m ! k) = tr_callID r"
    using assms(1) by (simp add: matcher_ok_def pending_ok_def)
  then show ?thesis using complete_matcher_ok [OF assms(1) k(1)] k by (simp add: tool_result_item)
next
  case (discovery_result_item r)
  then obtain e' where "acceptDiscoveryResult (int (length items)) r m = Inr (e', m')"
    using assms(2) by (auto simp: result_simps)
  from acceptDiscoveryResult_cases [OF this] obtain k where
    k: "map_of (em_pending m) (td_callID r) = Some k" "m' = snd (complete (int (length items)) k m)"
    "te_CallID (em_effects m ! k) = td_callID r \<longrightarrow>
       answers (em_effects m ! k) (discovery_result_item r)"
    by blast
  then have "te_CallID (em_effects m ! k) = td_callID r"
    using assms(1) by (simp add: matcher_ok_def pending_ok_def)
  then show ?thesis
    using complete_matcher_ok [OF assms(1) k(1)] k by (simp add: discovery_result_item)
qed (use assms skip_matcher_ok in auto)

lemma accept_items_ok:
  "accept_items (length done) items m = Inr m' \<Longrightarrow> matcher_ok done m \<Longrightarrow> matcher_ok (done @ items) m'"
proof (induction items arbitrary: "done" m)
  case (Cons item items)
  then obtain e m1 where a: "Accept (int (length done)) item m = Inr (e, m1)"
    and r: "accept_items (Suc (length done)) items m1 = Inr m'" by (auto simp: result_simps)
  have "matcher_ok (done @ [item]) m1" using Cons.prems(2) a by (rule Accept_matcher_ok)
  with Cons.IH [of "done @ [item]" m1] r show ?case by simp
qed simp

text \<open>
  C32: what \<open>MatchToolEffects\<close> establishes. When it accepts an item list, its effects are exactly
  the calls of the list in order; each effect names the call at its index, with its id, kind and
  execution owner; every result item is the result of exactly one effect, whose call precedes
  it, has the same id and is of the kind, and owner, that the result answers; and a call id is
  reserved: a later call with the same id comes after the result of the earlier one.
\<close>

theorem MatchToolEffects_sound:
  assumes "MatchToolEffects items = Inr effects"
  shows "map te_CallIndex effects = call_indices items \<and> list_all (effect_ok items) effects \<and>
    results_matched items effects \<and> reserved effects"
proof -
  obtain m where "accept_items 0 items newMatcher = Inr m" "effects = em_effects m"
    using assms by (auto simp: MatchToolEffects_def result_simps)
  with accept_items_ok [of "[]" items newMatcher m] new_matcher_ok show ?thesis
    by (simp add: matcher_ok_def)
qed

definition sample_call :: "string \<Rightarrow> CanonicalItem" where
  "sample_call i = tool_call_item \<lparr>tc_callID = i, tc_tool = \<lparr>tk_namespace = ''request'',
     tk_kind = ToolKindFunction, tk_name = ''f''\<rparr>, tc_input = object_input ''{}'',
     tc_discoveryExecutor = DiscoveryExecutorNone, tc_responsesNullCallID = False,
     tc_responsesWebSearch = None\<rparr>"

definition sample_answer :: "string \<Rightarrow> CanonicalItem" where
  "sample_answer i = tool_result_item \<lparr>tr_callID = i,
     tr_branch = content_result [text_result_part ''ok''] False\<rparr>"

theorem MatchToolEffects_sound_witness:
  "\<exists>e f. MatchToolEffects [sample_call ''a'', sample_answer ''a'', sample_call ''a''] = Inr [e, f] \<and>
     te_ResultIndex e = 1 \<and> te_ResultIndex f = -1 \<and>
     reserved [e, f] \<and> results_matched [sample_call ''a'', sample_answer ''a'', sample_call ''a''] [e, f]"
proof -
  define e where "e = (\<lparr>te_CallIndex = 0, te_ResultIndex = 1, te_CallID = ''a'',
    te_Kind = ToolKindFunction, te_Executor = None\<rparr> :: ToolEffect)"
  define f where "f = (\<lparr>te_CallIndex = 2, te_ResultIndex = -1, te_CallID = ''a'',
    te_Kind = ToolKindFunction, te_Executor = None\<rparr> :: ToolEffect)"
  have r: "MatchToolEffects [sample_call ''a'', sample_answer ''a'', sample_call ''a''] = Inr [e, f]"
    unfolding e_def f_def by code_simp
  from MatchToolEffects_sound [OF r] r show ?thesis
    by (intro exI [of _ e] exI [of _ f]) (simp add: e_def f_def)
qed

section \<open>Sums of usage\<close>

lemma wrap64_id: "0 \<le> n \<Longrightarrow> n < 2 ^ 63 \<Longrightarrow> wrap64 n = n"
  unfolding wrap64_def by (simp add: sint_sbintrunc' signed_take_bit_int_eq_self)

text \<open>A counter is summed exactly when every round knows it and the sum fits.\<close>

definition exact_sum :: "int option list \<Rightarrow> int option" where
  "exact_sum vs = (if None \<in> set vs then None else Some (sum_list (map the vs)))"

lemma fold_add_count:
  assumes "\<forall>v \<in> set vs. \<not> negative_count v" and "0 \<le> acc"
    and "acc + sum_list (map the (filter (\<lambda>v. v \<noteq> None) vs)) < 2 ^ 63"
  shows "fold add_count vs (acc, known) =
    (acc + sum_list (map the (filter (\<lambda>v. v \<noteq> None) vs)), known \<and> None \<notin> set vs)"
  using assms
proof (induction vs arbitrary: acc known)
  case (Cons v vs)
  have nonneg: "0 \<le> sum_list (map the (filter (\<lambda>v. v \<noteq> None) vs))"
    using Cons.prems(1) by (intro sum_list_nonneg) (auto simp: negative_count_def)
  show ?case
  proof (cases v)
    case (Some n)
    then have "0 \<le> n" "acc + n < 2 ^ 63"
      using Cons.prems nonneg by (auto simp: negative_count_def)
    then show ?thesis
      using Cons.IH [of "acc + n" known] Cons.prems Some
      by (simp add: add_count_def wrap64_id add.assoc)
  qed (use Cons in \<open>simp add: add_count_def\<close>)
qed simp

lemma sum_count_exact:
  assumes "\<forall>v \<in> set vs. \<not> negative_count v"
    and "sum_list (map the (filter (\<lambda>v. v \<noteq> None) vs)) < 2 ^ 63"
  shows "sum_count vs = exact_sum vs"
proof -
  have "filter (\<lambda>v. v \<noteq> None) vs = vs" if "None \<notin> set vs"
    using that by (metis (mono_tags) filter_True)
  then show ?thesis
    using fold_add_count [OF assms(1), of 0 True] assms(2)
    by (auto simp: sum_count_def exact_sum_def)
qed

definition usage_ok :: "TokenUsage \<Rightarrow> bool" where
  "usage_ok u \<longleftrightarrow> \<not> negative_count (tu_input u) \<and> \<not> negative_count (tu_output u) \<and>
     \<not> negative_count (tu_reasoning u) \<and> \<not> negative_count (tu_cacheRead u) \<and>
     \<not> negative_count (tu_cacheWrite u)"

lemma NewTokenUsage_ok:
  "NewTokenUsage a b c d e = Inr u \<Longrightarrow> usage_ok u"
  by (auto simp: NewTokenUsage_def usage_ok_def split: if_splits)

text \<open>The known counts of one counter over the rounds fit in an \<^verbatim>\<open>int\<close>.\<close>

definition sum_fits :: "int option list \<Rightarrow> bool" where
  "sum_fits vs \<longleftrightarrow> sum_list (map the (filter (\<lambda>v. v \<noteq> None) vs)) < 2 ^ 63"

lemma exact_sum_nonneg: "\<forall>v \<in> set vs. \<not> negative_count v \<Longrightarrow> \<not> negative_count (exact_sum vs)"
  by (auto simp: exact_sum_def negative_count_def not_less intro!: sum_list_nonneg)
    (metis option.case_eq_if not_less)

lemma SumTokenUsage_exact:
  assumes "rounds \<noteq> []" and "\<forall>u \<in> set rounds. usage_ok u"
    and "\<forall>f \<in> {tu_input, tu_output, tu_reasoning, tu_cacheRead, tu_cacheWrite}.
      sum_fits (map f rounds)"
  shows "SumTokenUsage rounds = \<lparr>tu_input = exact_sum (map tu_input rounds),
    tu_output = exact_sum (map tu_output rounds), tu_reasoning = exact_sum (map tu_reasoning rounds),
    tu_cacheRead = exact_sum (map tu_cacheRead rounds),
    tu_cacheWrite = exact_sum (map tu_cacheWrite rounds)\<rparr>"
proof -
  have "sum_count (map f rounds) = exact_sum (map f rounds) \<and> \<not> negative_count (exact_sum (map f rounds))"
    if "f \<in> {tu_input, tu_output, tu_reasoning, tu_cacheRead, tu_cacheWrite}" for f
  proof -
    have "\<forall>v \<in> set (map f rounds). \<not> negative_count v"
      using assms(2) that by (auto simp: usage_ok_def)
    with assms(3) that show ?thesis
      unfolding sum_fits_def by (metis sum_count_exact exact_sum_nonneg)
  qed
  then show ?thesis using assms(1) by (simp add: SumTokenUsage_def NewTokenUsage_def)
qed

end
