(* ===== verification/Canonical_Request.thy ===== *)
theory Canonical_Request
  imports Canonical_Response
begin

text \<open>
  Requests of the canonical model (\<^verbatim>\<open>src/internal/domain/canonical\<close>): the request-scoped prelude
  and the tool environment (\<^verbatim>\<open>context.go\<close>), output formats (\<^verbatim>\<open>output_format.go\<close>), requests
  (\<^verbatim>\<open>request.go\<close>) and the validation of a materialised request (\<^verbatim>\<open>request_validation.go\<close>).

  The generation and reasoning controls are carried through unchanged by everything modelled
  here; they are the type parameter \<open>'c\<close>.
\<close>

section \<open>Prelude and history\<close>

record RequestPrelude =
  pl_items :: "CanonicalItem list"
  pl_directives :: "CanonicalItem list"
  pl_declarations :: "CanonicalItem list"
  pl_toolsFirst :: bool

fun itemScope :: "CanonicalItem \<Rightarrow> ContextScope" where
  "itemScope (message_item m) = mi_scope m"
| "itemScope (declarations_item d) = di_scope d"
| "itemScope _ = ContextScopeHistory"

abbreviation request_scoped :: "CanonicalItem \<Rightarrow> bool" where
  "request_scoped item \<equiv> itemScope item = ContextScopeRequest"

text \<open>The bands of the prelude: at most one change between directives and declarations.\<close>

fun split_bands ::
    "string \<Rightarrow> nat \<Rightarrow> CanonicalItem list \<Rightarrow> RequestPrelude \<Rightarrow> go_error + RequestPrelude" where
  "split_bands previousBand transitions [] pl = Inr pl"
| "split_bands previousBand transitions (item # items) pl =
     and_then (case item of
         message_item _ \<Rightarrow> Inr (''directive'', pl\<lparr>pl_directives := pl_directives pl @ [item]\<rparr>)
       | declarations_item _ \<Rightarrow> Inr (''tools'', pl\<lparr>pl_declarations := pl_declarations pl @ [item]\<rparr>)
       | _ \<Rightarrow> Inl (Errorf ''canonical request prelude contains an unsupported context item'' []))
     (\<lambda>(band, pl).
       let pl = (if previousBand = [] then pl\<lparr>pl_toolsFirst := (band = ''tools'')\<rparr> else pl)
       in if previousBand \<noteq> [] \<and> previousBand \<noteq> band then
            (if Suc transitions > 1
             then Inl (Errorf ''canonical request prelude context bands must not alternate'' [])
             else split_bands band (Suc transitions) items pl)
          else split_bands band transitions items pl)"

definition SplitRequestPrelude ::
    "CanonicalItem list \<Rightarrow> go_error + RequestPrelude \<times> CanonicalItem list" where
  "SplitRequestPrelude items =
     (let prelude = takeWhile request_scoped items; history = dropWhile request_scoped items
      in if list_ex request_scoped history
         then Inl (Errorf ''canonical request-scoped context at position %d follows history'' [])
         else and_then (split_bands [] 0 prelude \<lparr>pl_items = prelude, pl_directives = [],
             pl_declarations = [], pl_toolsFirst = False\<rparr>) (\<lambda>pl. Inr (pl, history)))"

definition RetainedHistory :: "CanonicalItem list \<Rightarrow> CanonicalItem list" where
  "RetainedHistory items = filter (\<lambda>item. \<not> request_scoped item) items"

section \<open>The tool environment\<close>

record resolvedTool =
  rt_declaration :: ToolDeclaration
  rt_parent :: ToolKey

record ToolEnvironment =
  env_declarations :: ToolSet
  env_byKey :: "(ToolKey \<times> resolvedTool) list"

definition ambiguous :: "ToolDeclaration \<Rightarrow> go_error" where
  "ambiguous d =
     Errorf ''canonical tool environment has ambiguous declaration %q'' [key_String (decl_Key d)]"

text \<open>A declaration already known is idempotent when it means the same and has the same owner.\<close>

definition admit ::
    "ToolDeclaration \<Rightarrow> ToolKey \<Rightarrow> (ToolKey \<times> resolvedTool) list \<Rightarrow>
     go_error + (ToolKey \<times> resolvedTool) list option" where
  "admit d parent byKey =
     (case map_of byKey (decl_Key d) of
        Some prior \<Rightarrow>
          if \<not> Equivalent (rt_declaration prior) d \<or> rt_parent prior \<noteq> parent
          then Inl (ambiguous d) else Inr None
      | None \<Rightarrow> Inr (Some (AList.update (decl_Key d)
          \<lparr>rt_declaration = d, rt_parent = parent\<rparr> byKey)))"

fun observe_tool ::
    "ToolDeclaration \<Rightarrow> ToolKey \<Rightarrow> (ToolKey \<times> resolvedTool) list \<Rightarrow>
     go_error + (ToolKey \<times> resolvedTool) list"
  and observe_tools ::
    "ToolDeclaration list \<Rightarrow> ToolKey \<Rightarrow> (ToolKey \<times> resolvedTool) list \<Rightarrow>
     go_error + (ToolKey \<times> resolvedTool) list" where
  "observe_tool (mcp_tool k d s ts) parent byKey =
     and_then (admit (mcp_tool k d s ts) parent byKey) (\<lambda>r.
       case r of None \<Rightarrow> Inr byKey | Some m \<Rightarrow> observe_tools ts k m)"
| "observe_tool (namespace_tool k d ts) parent byKey =
     and_then (admit (namespace_tool k d ts) parent byKey) (\<lambda>r.
       case r of None \<Rightarrow> Inr byKey | Some m \<Rightarrow> observe_tools ts k m)"
| "observe_tool d parent byKey =
     and_then (admit d parent byKey) (\<lambda>r. case r of None \<Rightarrow> Inr byKey | Some m \<Rightarrow> Inr m)"
| "observe_tools [] parent byKey = Inr byKey"
| "observe_tools (d # ds) parent byKey =
     and_then (observe_tool d parent byKey) (\<lambda>m. observe_tools ds parent m)"

fun add_declarations ::
    "ToolDeclaration list \<Rightarrow> ToolDeclaration list \<times> (ToolKey \<times> resolvedTool) list \<Rightarrow>
     go_error + ToolDeclaration list \<times> (ToolKey \<times> resolvedTool) list" where
  "add_declarations [] st = Inr st"
| "add_declarations (d # ds) (ordered, byKey) =
     (case map_of byKey (decl_Key d) of
        Some prior \<Rightarrow>
          if \<not> Equivalent (rt_declaration prior) d \<or> \<not> key_IsZero (rt_parent prior)
          then Inl (ambiguous d) else add_declarations ds (ordered, byKey)
      | None \<Rightarrow> and_then (observe_tool d zeroToolKey byKey) (\<lambda>m.
          add_declarations ds (ordered @ [d], m)))"

definition contribution :: "CanonicalItem \<Rightarrow> ToolDeclaration list" where
  "contribution item =
     (case item of
        declarations_item d \<Rightarrow> set_ordered (di_tools d)
      | discovery_result_item r \<Rightarrow> set_ordered (td_tools r)
      | _ \<Rightarrow> [])"

fun fold_contributions ::
    "CanonicalItem list \<Rightarrow> ToolDeclaration list \<times> (ToolKey \<times> resolvedTool) list \<Rightarrow>
     go_error + ToolDeclaration list \<times> (ToolKey \<times> resolvedTool) list" where
  "fold_contributions [] st = Inr st"
| "fold_contributions (item # items) st =
     and_then (add_declarations (contribution item) st) (\<lambda>st. fold_contributions items st)"

definition ToolEnvironmentAt :: "CanonicalItem list \<Rightarrow> int \<Rightarrow> go_error + ToolEnvironment" where
  "ToolEnvironmentAt items before =
     (if before < 0 \<or> before > int (length items)
      then Inl (Errorf ''canonical tool environment position is out of range'' [])
      else and_then (fold_contributions (take (nat before) items) ([], [])) (\<lambda>(ordered, byKey).
        and_then (NewToolSet ordered) (\<lambda>declarations.
          Inr \<lparr>env_declarations = declarations, env_byKey = byKey\<rparr>)))"

definition env_IsEmpty :: "ToolEnvironment \<Rightarrow> bool" where
  "env_IsEmpty e \<longleftrightarrow> set_ordered (env_declarations e) = []"

definition env_Lookup :: "ToolEnvironment \<Rightarrow> ToolKey \<Rightarrow> ToolDeclaration option" where
  "env_Lookup e key = map_option rt_declaration (map_of (env_byKey e) key)"

section \<open>Output formats\<close>

record OutputFormat =
  of_Kind :: string
  of_Name :: string
  of_Description :: string
  of_Schema :: string
  of_SchemaContract :: SchemaContract

definition zeroContract :: SchemaContract where
  "zeroContract = \<lparr>sc_Profile = 0, sc_Conformance = 0\<rparr>"

definition zeroOutputFormat :: OutputFormat where
  "zeroOutputFormat = \<lparr>of_Kind = [], of_Name = [], of_Description = [], of_Schema = [],
     of_SchemaContract = zeroContract\<rparr>"

definition name_char :: "char \<Rightarrow> bool" where
  "name_char c \<longleftrightarrow> c \<in> set alnum \<or> c = CHR ''_'' \<or> c = CHR ''-''"

definition validateOutputFormatName :: "string \<Rightarrow> go_error + unit" where
  "validateOutputFormatName name =
     (if length name > 64 then Inl (BadRequest ''output format name is too long'')
      else if \<not> list_all name_char name
      then Inl (BadRequest ''output format name contains invalid characters'')
      else Inr ())"

definition validateOutputFormatSchema :: "json_codec \<Rightarrow> string \<Rightarrow> go_error + unit" where
  "validateOutputFormatSchema codec raw =
     (let trimmed = TrimSpace raw
      in if trimmed = [] \<or> trimmed = ''null''
         then Inl (BadRequest ''output format schema is required'')
         else case json_decode codec trimmed of
           Inl _ \<Rightarrow> Inl (BadRequest ''output format schema is invalid'')
         | Inr (JObject _) \<Rightarrow> Inr ()
         | Inr _ \<Rightarrow> Inl (BadRequest ''output format schema must be a JSON object''))"

definition NewOutputFormat :: "json_codec \<Rightarrow> OutputFormat \<Rightarrow> go_error + OutputFormat" where
  "NewOutputFormat codec params =
     (let kind = TrimSpace (of_Kind params);
          decorated = (TrimSpace (of_Schema params) \<noteq> [] \<or> TrimSpace (of_Name params) \<noteq> [] \<or>
            TrimSpace (of_Description params) \<noteq> [] \<or> of_SchemaContract params \<noteq> zeroContract)
      in if kind = [] then
           (if decorated then Inl (BadRequest ''output format is invalid'')
            else Inr zeroOutputFormat)
         else if kind = ''text'' then
           (if decorated then Inl (BadRequest
              ''output format text does not accept schema, description, or strict mode'')
            else Inr (zeroOutputFormat\<lparr>of_Kind := ''text''\<rparr>))
         else if kind = ''json_object'' then
           (if decorated then Inl (BadRequest
              ''output format json_object does not accept schema, description, or strict mode'')
            else Inr (zeroOutputFormat\<lparr>of_Kind := ''json_object''\<rparr>))
         else if kind = ''json_schema'' then
           (let name = TrimSpace (of_Name params)
            in and_then (validateOutputFormatName name) (\<lambda>_.
              let description = TrimSpace (of_Description params);
                  schemaRaw = TrimSpace (of_Schema params)
              in and_then (validateOutputFormatSchema codec schemaRaw) (\<lambda>_.
                if sc_Profile (of_SchemaContract params) = SchemaProfileUnspecified \<or>
                  sc_Profile (of_SchemaContract params) > SchemaProfileUnprofiled \<or>
                  sc_Conformance (of_SchemaContract params) > SchemaConformanceEnforced
                then Inl (BadRequest ''output format schema contract is invalid'')
                else Inr \<lparr>of_Kind = ''json_schema'', of_Name = name,
                  of_Description = description, of_Schema = schemaRaw,
                  of_SchemaContract = of_SchemaContract params\<rparr>)))
         else Inl (BadRequest ''output format kind is invalid''))"

definition output_Validate :: "json_codec \<Rightarrow> OutputFormat \<Rightarrow> go_error + unit" where
  "output_Validate codec f = and_then (NewOutputFormat codec f) (\<lambda>_. Inr ())"

section \<open>Requests\<close>

record 'c CanonicalRequest =
  rq_model :: "string option"
  rq_items :: "CanonicalItem list"
  rq_previousResponse :: "ResponseRef option"
  rq_toolPolicy :: "ToolPolicy option"
  rq_toolBatch :: "ToolCallBatchPolicy option"
  rq_controls :: 'c
  rq_outputFormat :: "OutputFormat option"
  rq_store :: "bool option"

text \<open>
  \<open>NewCanonicalRequest\<close> normalises the two bands whose copy is not the identity.
  \<^verbatim>\<open>RequestParams\<close> has the fields of the request.
\<close>

definition NewCanonicalRequest :: "platform \<Rightarrow> 'c CanonicalRequest \<Rightarrow> 'c CanonicalRequest" where
  "NewCanonicalRequest p params =
     params\<lparr>rq_model := map_option TrimSpace (rq_model params),
       rq_toolPolicy := map_option (policy_Clone p) (rq_toolPolicy params)\<rparr>"

definition WithItems ::
    "platform \<Rightarrow> 'c CanonicalRequest \<Rightarrow> CanonicalItem list \<Rightarrow> 'c CanonicalRequest" where
  "WithItems p r items = NewCanonicalRequest p (r\<lparr>rq_items := items\<rparr>)"

definition rq_Model :: "'c CanonicalRequest \<Rightarrow> string" where
  "rq_Model r = (case rq_model r of None \<Rightarrow> [] | Some m \<Rightarrow> m)"

definition rq_ToolPolicy :: "platform \<Rightarrow> 'c CanonicalRequest \<Rightarrow> ToolPolicy" where
  "rq_ToolPolicy p r =
     policy_Clone p (case rq_toolPolicy r of Some t \<Rightarrow> t | None \<Rightarrow> \<lparr>tp_Mode = [], tp_Specific = None\<rparr>)"

definition EffectiveToolPolicy :: "platform \<Rightarrow> 'c CanonicalRequest \<Rightarrow> go_error + ToolPolicy" where
  "EffectiveToolPolicy p r =
     (if rq_toolPolicy r \<noteq> None then Inr (rq_ToolPolicy p r)
      else and_then (ToolEnvironmentAt (rq_items r) (int (length (rq_items r)))) (\<lambda>tools.
        if \<not> env_IsEmpty tools then Inr (NewToolPolicy p ToolPolicyAuto None)
        else Inr (NewToolPolicy p ToolPolicyNone None)))"

definition PersistenceEligible :: "'c CanonicalRequest \<Rightarrow> bool" where
  "PersistenceEligible r = (case rq_store r of None \<Rightarrow> True | Some store \<Rightarrow> store)"

section \<open>Validation of a materialised request\<close>

fun scan_items ::
    "nat \<Rightarrow> bool \<Rightarrow> CanonicalItem list \<Rightarrow> ToolEffectMatcher \<Rightarrow> go_error + bool" where
  "scan_items k meaningful [] m = Inr meaningful"
| "scan_items k meaningful (item # items) m =
     (case Accept (int k) item m of
        Inl e \<Rightarrow> Inl (CanonicalError ErrorCodeBadRequest
          (Sprintf ''canonical request item %d has invalid tool-effect correlation: %v'' []) None)
      | Inr (_, m) \<Rightarrow>
          (case item of
             zeroItem \<Rightarrow> Inl (CanonicalError ErrorCodeBadRequest
               (Sprintf ''canonical request item %d is invalid'' []) None)
           | declarations_item _ \<Rightarrow> scan_items (Suc k) meaningful items m
           | _ \<Rightarrow> scan_items (Suc k) True items m))"

definition ValidateMaterializedRequest ::
    "platform \<Rightarrow> json_codec \<Rightarrow> 'c CanonicalRequest \<Rightarrow> go_error + unit" where
  "ValidateMaterializedRequest p codec request =
     (let items = rq_items request
      in case SplitRequestPrelude items of
           Inl e \<Rightarrow> Inl (BadRequestOf e)
         | Inr _ \<Rightarrow>
         (case ToolEnvironmentAt items (int (length items)) of
            Inl e \<Rightarrow> Inl (BadRequestOf e)
          | Inr environment \<Rightarrow>
          (case EffectiveToolPolicy p request of
             Inl e \<Rightarrow> Inl (BadRequestOf e)
           | Inr policy \<Rightarrow>
           (case ValidateForTools p policy (set_ordered (env_declarations environment)) of
              Inl e \<Rightarrow> Inl (BadRequestOf e)
            | Inr _ \<Rightarrow>
              and_then (case rq_toolBatch request of None \<Rightarrow> Inr () | Some b \<Rightarrow> batch_Validate b) (\<lambda>_.
              and_then (case rq_outputFormat request of
                  None \<Rightarrow> Inr () | Some f \<Rightarrow> output_Validate codec f) (\<lambda>_.
              and_then (scan_items 0 (rq_previousResponse request \<noteq> None) items newMatcher)
                (\<lambda>meaningful.
                  if \<not> meaningful
                  then Inl (BadRequest
                    ''canonical request has no content, effect, or continuation after projection'')
                  else Inr ())))))))"

section \<open>Facts about requests\<close>

lemma RetainedHistory_append [simp]: "RetainedHistory (xs @ ys) = RetainedHistory xs @ RetainedHistory ys"
  by (simp add: RetainedHistory_def)

lemma RetainedHistory_idem [simp]: "RetainedHistory (RetainedHistory xs) = RetainedHistory xs"
  by (simp add: RetainedHistory_def)

lemma RetainedHistory_prelude: "list_all request_scoped xs \<Longrightarrow> RetainedHistory xs = []"
  by (simp add: RetainedHistory_def list_all_iff filter_empty_conv)

lemma split_bands_items: "split_bands b t items pl = Inr pl' \<Longrightarrow> pl_items pl' = pl_items pl"
proof (induction items arbitrary: b t pl)
  case (Cons item items)
  then show ?case
    by (cases item) (fastforce simp: Let_def split: if_splits)+
qed simp

lemma SplitRequestPrelude_ok:
  assumes "SplitRequestPrelude items = Inr (pl, history)"
  shows "pl_items pl @ history = items" and "RetainedHistory items = history"
    and "list_all request_scoped (pl_items pl)" and "RetainedHistory history = history"
    and "pl_items pl = takeWhile request_scoped items"
proof -
  have ok: "\<not> list_ex request_scoped (dropWhile request_scoped items)"
    and h: "history = dropWhile request_scoped items"
    and pl: "pl_items pl = takeWhile request_scoped items"
    using assms by (auto simp: SplitRequestPrelude_def Let_def result_simps dest: split_bands_items split: if_splits)
  show "pl_items pl @ history = items" using h pl by simp
  show scoped: "list_all request_scoped (pl_items pl)" by (auto simp: pl list_all_iff dest: set_takeWhileD)
  have "\<forall>x \<in> set history. \<not> request_scoped x" using ok unfolding list_ex_iff h by blast
  then show r: "RetainedHistory history = history" unfolding RetainedHistory_def by (rule filter_True)
  have "RetainedHistory (pl_items pl @ history) = history"
    using r RetainedHistory_prelude [OF scoped] by simp
  then show "RetainedHistory items = history" unfolding pl h takeWhile_dropWhile_id .
  show "pl_items pl = takeWhile request_scoped items" by (rule pl)
qed

text \<open>Constructing a request from a constructed one changes nothing.\<close>

lemma policy_modes_lower:
  "list_all (\<lambda>m. TrimSpace m = m \<and> list_all ascii_char m \<and> map ascii_lower m = m)
     [ToolPolicyNone, ToolPolicyAuto, ToolPolicyRequired, ToolPolicySpecific]"
  by code_simp

lemma policy_mode_fixed:
  assumes "m \<in> set [ToolPolicyNone, ToolPolicyAuto, ToolPolicyRequired, ToolPolicySpecific]"
  shows "normalizeToolPolicyMode p m = m"
proof -
  have "TrimSpace m = m \<and> list_all ascii_char m \<and> map ascii_lower m = m"
    using bspec [OF policy_modes_lower [unfolded list_all_iff] assms] unfolding list_all_iff .
  then have "ToLower p (TrimSpace m) = m" by (simp add: ToLower_def)
  then have "ParseToolPolicyMode p m = Some m"
    unfolding ParseToolPolicyMode_def Let_def by (simp only: assms if_True)
  then show ?thesis by (simp add: normalizeToolPolicyMode_def)
qed

lemma normalizeToolPolicyMode_range:
  "normalizeToolPolicyMode p m \<in> set [ToolPolicyNone, ToolPolicyAuto, ToolPolicyRequired, ToolPolicySpecific]"
  by (simp add: normalizeToolPolicyMode_def ParseToolPolicyMode_def Let_def)

lemma policy_Clone_idem [simp]: "policy_Clone p (policy_Clone p t) = policy_Clone p t"
  using policy_mode_fixed [OF normalizeToolPolicyMode_range]
  by (cases "tp_Specific t") (simp_all add: policy_Clone_def NewToolPolicy_def)

lemma NewCanonicalRequest_idem [simp]:
  "NewCanonicalRequest p (NewCanonicalRequest p r) = NewCanonicalRequest p r"
  by (simp add: NewCanonicalRequest_def option.map_comp comp_def)

lemma NewCanonicalRequest_items [simp]:
  "rq_items (NewCanonicalRequest p r) = rq_items r"
  "NewCanonicalRequest p (r\<lparr>rq_items := its\<rparr>) = (NewCanonicalRequest p r)\<lparr>rq_items := its\<rparr>"
  by (simp_all add: NewCanonicalRequest_def)

end
