(* ===== verification/Canonical_Stream.thy ===== *)
theory Canonical_Stream
  imports Canonical_Request
begin

text \<open>
  Response streams of the canonical model (\<^verbatim>\<open>src/internal/domain/canonical\<close>): events
  (\<^verbatim>\<open>event_metadata_fields.go\<close>), the item assembler (\<^verbatim>\<open>item_stream_assembler.go\<close>), the lifecycle
  validator (\<^verbatim>\<open>validated_response_stream.go\<close>), identity binding
  (\<^verbatim>\<open>response_identity_stream.go\<close>), the fold and the incremental projector
  (\<^verbatim>\<open>response_fold.go\<close>, \<^verbatim>\<open>response_projector.go\<close>), the retained projection
  (\<^verbatim>\<open>envelope_projector.go\<close>) and the synthesis of events from a buffered response
  (\<^verbatim>\<open>envelope_synthesize.go\<close>).

  Item and part ordinals are \<^verbatim>\<open>uint32\<close>. Event times and the diagnostic metadata other than the
  native identifier play no part in any decision and are left out. The readers stop at the first
  error of a stream, so a failing step returns the error only.
\<close>

section \<open>Events\<close>

datatype EventKind =
    EventEnvelopeStart | EventEnvelopeEnd | EventItemStart | EventContentStart | EventTextDelta
  | EventArgsDelta | EventItemCompleted | EventResponseIdentity | EventUsage | EventFinish
  | EventError | EventOther string

datatype ItemStartPayload =
  zeroStart | message_start MessageRole | tool_call_start ToolCallID ToolKey

fun start_Kind :: "ItemStartPayload \<Rightarrow> ItemKind" where
  "start_Kind zeroStart = ItemKindNone"
| "start_Kind (message_start _) = ItemKindMessage"
| "start_Kind (tool_call_start i k) =
     (if i = [] \<or> key_IsZero k then ItemKindNone else ItemKindToolCall)"

definition NewMessageStart :: "MessageRole \<Rightarrow> go_error + ItemStartPayload" where
  "NewMessageStart author =
     (if validMessageRole author then Inr (message_start author)
      else Inl (Errorf ''canonical message start role %q is invalid'' [author]))"

definition NewToolCallStart :: "ToolCallID \<Rightarrow> ToolKey \<Rightarrow> go_error + ItemStartPayload" where
  "NewToolCallStart callID tool =
     (if callID = [] \<or> key_IsZero tool
      then Inl (Errorf ''canonical tool-call start requires call and tool identities'' [])
      else Inr (tool_call_start callID tool))"

datatype ItemEventPayload =
    item_start ItemStartPayload
  | content_start string
  | text_delta string
  | args_delta string
  | item_completed CanonicalItem

record ItemEvent =
  ie_item :: "32 word"
  ie_part :: "32 word"
  ie_payload :: "ItemEventPayload option"

abbreviation EnvResponse :: string where "EnvResponse \<equiv> ''response''"
abbreviation EnvelopeStatusCompleted :: string where "EnvelopeStatusCompleted \<equiv> ''completed''"
abbreviation EnvelopeStatusError :: string where "EnvelopeStatusError \<equiv> ''error''"

text \<open>The dynamic types a payload may have; \<open>other_payload\<close> is any other.\<close>

datatype Payload =
    envelope_start string string
  | response_identity ResponseRef
  | item_event ItemEvent
  | usage_payload TokenUsage
  | finish_payload Completion
  | error_payload string string bool
  | envelope_end string string
  | other_payload

record Event =
  ev_ExchangeID :: string
  ev_Seq :: int
  ev_Kind :: EventKind
  ev_EnvID :: string
  ev_ParentID :: string
  ev_Payload :: Payload
  ev_NativeID :: string

section \<open>The item assembler\<close>

record itemStreamPartState =
  ps_kind :: string
  ps_text :: string

record itemStreamState =
  ss_start :: ItemStartPayload
  ss_args :: string
  ss_parts :: "(32 word \<times> itemStreamPartState) list"
  ss_completed :: "CanonicalItem option"

type_synonym itemStreamAssembler = "(32 word \<times> itemStreamState) list"

definition zeroItemState :: itemStreamState where
  "zeroItemState = \<lparr>ss_start = zeroStart, ss_args = [], ss_parts = [], ss_completed = None\<rparr>"

text \<open>Results and reasoning may cross the stream as one completed artifact.\<close>

definition atomic_kind :: "ItemKind \<Rightarrow> bool" where
  "atomic_kind k \<longleftrightarrow> k = ItemKindToolResult \<or> k = ItemKindToolDiscoveryResult \<or> k = ItemKindReasoning"

fun part_mismatch ::
    "(32 word \<times> itemStreamPartState) list \<Rightarrow> nat \<Rightarrow> MessagePart list \<Rightarrow> go_error + unit" where
  "part_mismatch parts ordinal [] = Inr ()"
| "part_mismatch parts ordinal (completedPart # rest) =
     (case map_of parts (of_nat ordinal) of
        None \<Rightarrow> Inl (Errorf ''completed content part %d kind does not match streamed content'' [])
      | Some streamed \<Rightarrow>
          if part_Kind completedPart \<noteq> ps_kind streamed
          then Inl (Errorf ''completed content part %d kind does not match streamed content'' [])
          else if (case part_Text completedPart of None \<Rightarrow> False | Some t \<Rightarrow> t \<noteq> ps_text streamed)
          then Inl (Errorf ''completed content part %d text does not match streamed text'' [])
          else part_mismatch parts (Suc ordinal) rest)"

definition validate_message :: "itemStreamState \<Rightarrow> MessageItem \<Rightarrow> go_error + unit" where
  "validate_message state m =
     (if (case ss_start state of message_start author \<Rightarrow> mi_role m \<noteq> author | _ \<Rightarrow> mi_role m \<noteq> [])
      then Inl (Errorf ''completed author %q does not match started author %q'' [mi_role m])
      else if length (mi_content m) \<noteq> length (ss_parts state)
      then Inl (Errorf
        ''completed content part count %d does not match streamed part count %d'' [])
      else part_mismatch (ss_parts state) 0 (mi_content m))"

definition validate_tool_call :: "json_codec \<Rightarrow> itemStreamState \<Rightarrow> ToolCallItem \<Rightarrow> go_error + unit" where
  "validate_tool_call codec state c =
     (case (case ss_start state of tool_call_start i k \<Rightarrow> (i, k) | _ \<Rightarrow> ([], zeroToolKey)) of
        (startID, startTool) \<Rightarrow>
          if tc_callID c \<noteq> startID
          then Inl (Errorf ''completed CallID %q does not match started CallID %q'' [tc_callID c, startID])
          else if tc_tool c \<noteq> startTool
          then Inl (Errorf ''completed tool reference does not match started tool reference'' [])
          else (case tc_input c of
             object_input object \<Rightarrow>
               if ParseJSONObject codec (ss_args state) = Inr object then Inr ()
               else Inl (Errorf ''completed object arguments do not match streamed deltas'' [])
           | text_input t \<Rightarrow>
               if t \<noteq> ss_args state
               then Inl (Errorf ''completed text arguments do not match streamed deltas'' [])
               else Inr ()
           | web_search_input _ \<Rightarrow>
               if ss_args state \<noteq> []
               then Inl (Errorf
                 ''completed web-search input conflicts with untyped argument deltas'' [])
               else Inr ()
           | zeroInput \<Rightarrow> Inl (Errorf ''completed tool input has no supported branch'' [])))"

definition validateCompletedItem ::
    "json_codec \<Rightarrow> itemStreamState \<Rightarrow> CanonicalItem \<Rightarrow> go_error + unit" where
  "validateCompletedItem codec state item =
     (if atomic_kind (item_Kind item) \<and> start_Kind (ss_start state) = ItemKindNone then Inr ()
      else if item_Kind item \<noteq> start_Kind (ss_start state)
      then Inl (Errorf ''completed kind %q does not match started kind %q'' [])
      else case item of
        message_item m \<Rightarrow> validate_message state m
      | tool_call_item c \<Rightarrow> validate_tool_call codec state c
      | _ \<Rightarrow> Inl (Errorf ''completed item kind %q is unsupported'' []))"

definition content_open :: "itemStreamState option \<Rightarrow> itemStreamState option" where
  "content_open st =
     (case st of
        None \<Rightarrow> None
      | Some s \<Rightarrow> if ss_completed s \<noteq> None \<or> start_Kind (ss_start s) \<noteq> ItemKindMessage then None
          else Some s)"

definition asm_start ::
    "ItemEvent \<Rightarrow> itemStreamAssembler \<Rightarrow> go_error + itemStreamAssembler" where
  "asm_start event a =
     (case ie_payload event of
        Some (item_start start) \<Rightarrow>
          if start_Kind start = ItemKindNone
          then Inl (Errorf ''item.start ordinal %d has invalid payload %T'' [])
          else if map_of a (ie_item event) \<noteq> None
          then Inl (Errorf ''item.start ordinal %d is duplicated'' [])
          else Inr (AList.update (ie_item event) (zeroItemState\<lparr>ss_start := start\<rparr>) a)
      | _ \<Rightarrow> Inl (Errorf ''item.start ordinal %d has invalid payload %T'' []))"

definition asm_args ::
    "ItemEvent \<Rightarrow> itemStreamAssembler \<Rightarrow> go_error + itemStreamAssembler" where
  "asm_args event a =
     (case ie_payload event of
        Some (args_delta delta) \<Rightarrow>
          (case map_of a (ie_item event) of
             None \<Rightarrow> Inl (Errorf ''args.delta ordinal %d has no open tool-call start'' [])
           | Some s \<Rightarrow>
               if start_Kind (ss_start s) \<noteq> ItemKindToolCall \<or> ss_completed s \<noteq> None
               then Inl (Errorf ''args.delta ordinal %d has no open tool-call start'' [])
               else Inr (AList.update (ie_item event) (s\<lparr>ss_args := ss_args s @ delta\<rparr>) a))
      | _ \<Rightarrow> Inl (Errorf ''args.delta ordinal %d has payload %T'' []))"

definition asm_content ::
    "ItemEvent \<Rightarrow> itemStreamAssembler \<Rightarrow> go_error + itemStreamAssembler" where
  "asm_content event a =
     (case content_open (map_of a (ie_item event)) of
        None \<Rightarrow> Inl (Errorf ''%s ordinal %d has no open content-bearing item start'' [])
      | Some s \<Rightarrow>
          (case ie_payload event of
             Some (content_start kind) \<Rightarrow>
               if map_of (ss_parts s) (ie_part event) \<noteq> None
               then Inl (Errorf ''content.start item ordinal %d part ordinal %d is duplicated'' [])
               else if ie_part event \<noteq> of_nat (length (ss_parts s))
               then Inl (Errorf ''content.start item ordinal %d part ordinal %d is non-contiguous'' [])
               else if kind = []
               then Inl (Errorf ''content.start item ordinal %d part ordinal %d: %w'' [])
               else Inr (AList.update (ie_item event) (s\<lparr>ss_parts :=
                 AList.update (ie_part event) \<lparr>ps_kind = kind, ps_text = []\<rparr> (ss_parts s)\<rparr>) a)
           | _ \<Rightarrow> Inl (Errorf ''content.start ordinal %d has payload %T'' [])))"

definition asm_text ::
    "ItemEvent \<Rightarrow> itemStreamAssembler \<Rightarrow> go_error + itemStreamAssembler" where
  "asm_text event a =
     (case content_open (map_of a (ie_item event)) of
        None \<Rightarrow> Inl (Errorf ''%s ordinal %d has no open content-bearing item start'' [])
      | Some s \<Rightarrow>
          (case ie_payload event of
             Some (text_delta delta) \<Rightarrow>
               (case map_of (ss_parts s) (ie_part event) of
                  None \<Rightarrow> Inl (Errorf
                    ''text.delta item ordinal %d part ordinal %d has no open text content'' [])
                | Some part \<Rightarrow>
                    if ps_kind part \<noteq> PartKindText
                    then Inl (Errorf
                      ''text.delta item ordinal %d part ordinal %d has no open text content'' [])
                    else Inr (AList.update (ie_item event) (s\<lparr>ss_parts := AList.update (ie_part event)
                      (part\<lparr>ps_text := ps_text part @ delta\<rparr>) (ss_parts s)\<rparr>) a))
           | _ \<Rightarrow> Inl (Errorf ''text.delta ordinal %d has payload %T'' [])))"

definition asm_completed ::
    "json_codec \<Rightarrow> ItemEvent \<Rightarrow> itemStreamAssembler \<Rightarrow> go_error + itemStreamAssembler" where
  "asm_completed codec event a =
     (case ie_payload event of
        Some (item_completed item) \<Rightarrow>
          if item_Kind item = ItemKindNone
          then Inl (Errorf ''item.completed ordinal %d has invalid payload %T'' [])
          else and_then (case map_of a (ie_item event) of
              Some s \<Rightarrow> Inr s
            | None \<Rightarrow> if atomic_kind (item_Kind item) then Inr zeroItemState
                else Inl (Errorf ''item.completed ordinal %d has no start'' [])) (\<lambda>s.
            if ss_completed s \<noteq> None
            then Inl (Errorf ''item.completed ordinal %d is duplicated'' [])
            else (case validateCompletedItem codec s item of
               Inl e \<Rightarrow> Inl (Errorw ''item.completed ordinal %d: %w'' [] e)
             | Inr _ \<Rightarrow> Inr (AList.update (ie_item event) (s\<lparr>ss_completed := Some item\<rparr>) a)))
      | _ \<Rightarrow> Inl (Errorf ''item.completed ordinal %d has invalid payload %T'' []))"

definition asm_apply ::
    "json_codec \<Rightarrow> EventKind \<Rightarrow> ItemEvent \<Rightarrow> itemStreamAssembler \<Rightarrow> go_error + itemStreamAssembler" where
  "asm_apply codec kind event a =
     (if ie_payload event = None then Inl (Errorf ''%s item ordinal %d has no payload'' [])
      else case kind of
        EventItemStart \<Rightarrow> asm_start event a
      | EventArgsDelta \<Rightarrow> asm_args event a
      | EventContentStart \<Rightarrow> asm_content event a
      | EventTextDelta \<Rightarrow> asm_text event a
      | EventItemCompleted \<Rightarrow> asm_completed codec event a
      | _ \<Rightarrow> Inl (Errorf ''item event kind %q is unsupported'' []))"

definition completed_at :: "itemStreamAssembler \<Rightarrow> nat \<Rightarrow> CanonicalItem" where
  "completed_at a i =
     (case map_of a (of_nat i) of
        None \<Rightarrow> zeroItem
      | Some s \<Rightarrow> (case ss_completed s of None \<Rightarrow> zeroItem | Some item \<Rightarrow> item))"

definition completedItems :: "itemStreamAssembler \<Rightarrow> go_error + CanonicalItem list" where
  "completedItems a =
     (if list_ex (\<lambda>(_, s). ss_completed s = None) a
      then Inl (Errorf ''item ordinal %d has no ItemCompleted checkpoint'' [])
      else let ordinals = sort (map (\<lambda>(ordinal, _). unat ordinal) a)
      in if ordinals \<noteq> [0..<length ordinals]
         then Inl (Errorf ''item ordinal %d is non-contiguous; expected %d'' [])
         else Inr (map (completed_at a) ordinals))"

section \<open>The validated stream\<close>

record ValidatedResponseStream =
  vs_responseID :: string
  vs_identitySeen :: bool
  vs_itemsSeen :: bool
  vs_finishSeen :: bool
  vs_completion :: Completion
  vs_usageSeen :: bool
  vs_errorSeen :: bool
  vs_assembler :: "itemStreamAssembler option"
  vs_responseDone :: bool
  vs_lastSequence :: int
  vs_effectGuard :: ToolEffectMatcher

definition NewValidatedResponseStream :: ValidatedResponseStream where
  "NewValidatedResponseStream = \<lparr>vs_responseID = [], vs_identitySeen = False,
     vs_itemsSeen = False, vs_finishSeen = False, vs_completion = zeroCompletion,
     vs_usageSeen = False, vs_errorSeen = False, vs_assembler = None, vs_responseDone = False,
     vs_lastSequence = 0, vs_effectGuard = newMatcher\<rparr>"

definition foreign :: "Event \<Rightarrow> ValidatedResponseStream \<Rightarrow> bool" where
  "foreign event r \<longleftrightarrow> ev_ParentID event \<noteq> [] \<or>
     ev_EnvID event \<noteq> [] \<and> ev_EnvID event \<noteq> vs_responseID r"

definition requireOpenResponseEvent :: "Event \<Rightarrow> ValidatedResponseStream \<Rightarrow> go_error + unit" where
  "requireOpenResponseEvent event r =
     (if vs_responseID r = [] \<or> vs_assembler r = None
      then Inl (Errorf ''%s has no open response envelope'' [])
      else if \<not> vs_identitySeen r then Inl (Errorf ''%s arrived before response.identity'' [])
      else if foreign event r
      then Inl (Errorf ''%s envelope %q contradicts response %q'' [ev_EnvID event, vs_responseID r])
      else Inr ())"

definition applyEnvelopeStart ::
    "Event \<Rightarrow> ValidatedResponseStream \<Rightarrow> go_error + ValidatedResponseStream" where
  "applyEnvelopeStart event r =
     (case ev_Payload event of
        envelope_start kind model \<Rightarrow>
          if kind \<noteq> EnvResponse then Inl (Errorf ''envelope kind %q is unsupported'' [kind])
          else if ev_EnvID event = [] \<or> ev_ParentID event \<noteq> [] \<or> vs_responseID r \<noteq> []
          then Inl (Errorf
            ''response envelope %q opened outside the single-response stream contract'' [ev_EnvID event])
          else Inr (r\<lparr>vs_responseID := ev_EnvID event, vs_assembler := Some [],
            vs_effectGuard := newMatcher\<rparr>)
      | _ \<Rightarrow> Inl (Errorf ''envelope.start payload type %T is unsupported'' []))"

definition applyResponseIdentity ::
    "Event \<Rightarrow> ValidatedResponseStream \<Rightarrow> go_error + ValidatedResponseStream" where
  "applyResponseIdentity event r =
     (if vs_responseID r = [] \<or> vs_assembler r = None
      then Inl (Errorf ''response.identity has no open response envelope'' [])
      else if vs_identitySeen r then Inl (Errorf ''response.identity is duplicated'' [])
      else if vs_itemsSeen r then Inl (Errorf ''response.identity arrived after item delivery'' [])
      else case ev_Payload event of
        response_identity ref \<Rightarrow>
          if responseID_IsZero (rr_SwobuID ref)
          then Inl (Errorf ''response.identity requires a non-empty Swobu response ID'' [])
          else if foreign event r
          then Inl (Errorf ''response.identity envelope %q contradicts response %q''
            [ev_EnvID event, vs_responseID r])
          else Inr (r\<lparr>vs_identitySeen := True\<rparr>)
      | _ \<Rightarrow> Inl (Errorf ''response.identity payload type %T is unsupported'' []))"

definition validateResponseItemEvent :: "EventKind \<Rightarrow> ItemEvent \<Rightarrow> go_error + unit" where
  "validateResponseItemEvent kind event =
     (if kind = EventItemStart then
        (case ie_payload event of
           Some (item_start (message_start author)) \<Rightarrow>
             if author \<noteq> MessageRoleAssistant
             then Inl (Errorf ''response message item %d must be assistant-authored'' [])
             else Inr ()
         | _ \<Rightarrow> Inr ())
      else if kind = EventItemCompleted then
        (case ie_payload event of
           Some (item_completed item) \<Rightarrow> validateResponseItem item
         | _ \<Rightarrow> Inr ())
      else Inr ())"

definition guard_item ::
    "EventKind \<Rightarrow> ItemEvent \<Rightarrow> ToolEffectMatcher \<Rightarrow> go_error + ToolEffectMatcher" where
  "guard_item kind event g =
     (case (kind, ie_payload event) of
        (EventItemCompleted, Some (item_completed item)) \<Rightarrow>
          (case Accept (int (unat (ie_item event))) item g of
             Inl e \<Rightarrow> Inl (Errorw ''response tool lifecycle at item %d is invalid: %w'' [] e)
           | Inr (_, g) \<Rightarrow> Inr g)
      | _ \<Rightarrow> Inr g)"

definition applyItemEvent ::
    "json_codec \<Rightarrow> Event \<Rightarrow> ValidatedResponseStream \<Rightarrow> go_error + ValidatedResponseStream" where
  "applyItemEvent codec event r =
     and_then (requireOpenResponseEvent event r) (\<lambda>_.
       if vs_finishSeen r \<or> vs_errorSeen r
       then Inl (Errorf ''%s arrived after terminal response semantics'' [])
       else case ev_Payload event of
         item_event itemEvent \<Rightarrow>
           if ev_EnvID event \<noteq> [] \<or> ev_ParentID event \<noteq> []
           then Inl (Errorf ''%s must be addressed only by ItemPosition'' [])
           else and_then (validateResponseItemEvent (ev_Kind event) itemEvent) (\<lambda>_.
             and_then (case vs_assembler r of
                 None \<Rightarrow> Inl (Errorf ''%s has no open response envelope'' [])
               | Some a \<Rightarrow> asm_apply codec (ev_Kind event) itemEvent a) (\<lambda>a.
             and_then (guard_item (ev_Kind event) itemEvent (vs_effectGuard r)) (\<lambda>g.
               Inr (r\<lparr>vs_assembler := Some a, vs_effectGuard := g, vs_itemsSeen := True\<rparr>))))
       | _ \<Rightarrow> Inl (Errorf ''%s payload type %T is unsupported'' []))"

definition applyUsage ::
    "Event \<Rightarrow> ValidatedResponseStream \<Rightarrow> go_error + ValidatedResponseStream" where
  "applyUsage event r =
     and_then (requireOpenResponseEvent event r) (\<lambda>_.
       if vs_usageSeen r then Inl (Errorf ''response usage is duplicated'' [])
       else if vs_errorSeen r then Inl (Errorf ''response usage arrived after terminal error'' [])
       else case ev_Payload event of
         usage_payload _ \<Rightarrow> Inr (r\<lparr>vs_usageSeen := True\<rparr>)
       | _ \<Rightarrow> Inl (Errorf ''usage payload type %T is unsupported'' []))"

definition applyFinish ::
    "Event \<Rightarrow> ValidatedResponseStream \<Rightarrow> go_error + ValidatedResponseStream" where
  "applyFinish event r =
     and_then (requireOpenResponseEvent event r) (\<lambda>_.
       if vs_finishSeen r then Inl (Errorf ''response finish is duplicated'' [])
       else if vs_errorSeen r then Inl (Errorf ''response finish conflicts with terminal error'' [])
       else case ev_Payload event of
         finish_payload completion \<Rightarrow>
           and_then (completion_validate completion) (\<lambda>_.
             Inr (r\<lparr>vs_finishSeen := True, vs_completion := completion\<rparr>))
       | _ \<Rightarrow> Inl (Errorf ''finish payload type %T is unsupported'' []))"

definition applyError ::
    "Event \<Rightarrow> ValidatedResponseStream \<Rightarrow> go_error + ValidatedResponseStream" where
  "applyError event r =
     and_then (requireOpenResponseEvent event r) (\<lambda>_.
       if vs_errorSeen r then Inl (Errorf ''response error is duplicated'' [])
       else if vs_finishSeen r then Inl (Errorf ''response error conflicts with finish'' [])
       else case ev_Payload event of
         error_payload _ _ _ \<Rightarrow> Inr (r\<lparr>vs_errorSeen := True\<rparr>)
       | _ \<Rightarrow> Inl (Errorf ''error payload type %T is unsupported'' []))"

definition validateTerminalStatus :: "string \<Rightarrow> ValidatedResponseStream \<Rightarrow> go_error + unit" where
  "validateTerminalStatus status r =
     (if status = EnvelopeStatusCompleted then
        (if \<not> vs_identitySeen r
         then Inl (Errorf ''response completed without response.identity'' [])
         else and_then (case vs_assembler r of
             None \<Rightarrow> Inl (Panicked ''nil assembler'') | Some a \<Rightarrow> completedItems a) (\<lambda>_.
           if vs_errorSeen r
           then Inl (Errorf ''completed response conflicts with terminal error'' [])
           else if \<not> vs_finishSeen r
           then Inl (Errorf ''completed response requires finish'' [])
           else if cmp_class (vs_completion r) = CompletionCompleted then
             (case RequireSettled (vs_effectGuard r) of
                Inl e \<Rightarrow> Inl (Errorw
                  ''completed response has an unresolved provider effect: %w'' [] e)
              | Inr _ \<Rightarrow> Inr ())
           else Inr ()))
      else if status = EnvelopeStatusError then
        (if \<not> vs_errorSeen r
         then Inl (Errorf ''error response completed without terminal error'' []) else Inr ())
      else Inl (Errorf ''response envelope status %q is unsupported'' [status]))"

definition applyEnvelopeEnd ::
    "Event \<Rightarrow> ValidatedResponseStream \<Rightarrow> go_error + ValidatedResponseStream" where
  "applyEnvelopeEnd event r =
     (case ev_Payload event of
        envelope_end kind status \<Rightarrow>
          if kind \<noteq> EnvResponse \<or> vs_responseID r = [] \<or> ev_EnvID event \<noteq> vs_responseID r \<or>
            ev_ParentID event \<noteq> []
          then Inl (Errorf ''response envelope %q closed without ownership'' [ev_EnvID event])
          else and_then (validateTerminalStatus status r) (\<lambda>_.
            Inr (r\<lparr>vs_responseID := [], vs_responseDone := True\<rparr>))
      | _ \<Rightarrow> Inl (Errorf ''envelope.end payload type %T is unsupported'' []))"

definition vs_dispatch ::
    "json_codec \<Rightarrow> Event \<Rightarrow> ValidatedResponseStream \<Rightarrow> go_error + ValidatedResponseStream" where
  "vs_dispatch codec event r =
     (case ev_Kind event of
        EventEnvelopeStart \<Rightarrow> applyEnvelopeStart event r
      | EventResponseIdentity \<Rightarrow> applyResponseIdentity event r
      | EventItemStart \<Rightarrow> applyItemEvent codec event r
      | EventContentStart \<Rightarrow> applyItemEvent codec event r
      | EventTextDelta \<Rightarrow> applyItemEvent codec event r
      | EventArgsDelta \<Rightarrow> applyItemEvent codec event r
      | EventItemCompleted \<Rightarrow> applyItemEvent codec event r
      | EventUsage \<Rightarrow> applyUsage event r
      | EventFinish \<Rightarrow> applyFinish event r
      | EventError \<Rightarrow> applyError event r
      | EventEnvelopeEnd \<Rightarrow> applyEnvelopeEnd event r
      | EventOther k \<Rightarrow> Inl (Errorf ''response event kind %q is unsupported'' [k]))"

definition vs_apply ::
    "json_codec \<Rightarrow> Event \<Rightarrow> ValidatedResponseStream \<Rightarrow> go_error + ValidatedResponseStream" where
  "vs_apply codec event r =
     (if vs_responseDone r then Inl (Errorf ''%s arrived after response completion'' [])
      else if ev_Seq event > 0 then
        (if ev_Seq event \<le> vs_lastSequence r
         then Inl (Errorf ''response event sequence regressed from %d to %d'' [])
         else vs_dispatch codec event (r\<lparr>vs_lastSequence := ev_Seq event\<rparr>))
      else vs_dispatch codec event r)"

text \<open>What a reader's \<open>Next\<close> returns: an event, the end of the stream, or an error.\<close>

datatype pulled = pulled_event Event | pulled_EOF | pulled_error go_error

definition validated_Next ::
    "json_codec \<Rightarrow> pulled \<Rightarrow> ValidatedResponseStream \<Rightarrow> pulled \<times> ValidatedResponseStream" where
  "validated_Next codec upstream r =
     (case upstream of
        pulled_EOF \<Rightarrow>
          (if \<not> vs_responseDone r
           then pulled_error (Errorf
             ''provider response stream ended before terminal response envelope'' [])
           else pulled_EOF, r)
      | pulled_error e \<Rightarrow> (pulled_error e, r)
      | pulled_event event \<Rightarrow>
          (case vs_apply codec event r of
             Inl e \<Rightarrow> (pulled_error e, r)
           | Inr r' \<Rightarrow> (pulled_event event, r')))"

text \<open>The state after a sequence of events, all of them accepted.\<close>

fun validate_events ::
    "json_codec \<Rightarrow> Event list \<Rightarrow> ValidatedResponseStream \<Rightarrow> go_error + ValidatedResponseStream" where
  "validate_events codec [] r = Inr r"
| "validate_events codec (e # es) r = and_then (vs_apply codec e r) (validate_events codec es)"

section \<open>Identity binding\<close>

record ResponseBinding =
  rb_SwobuID :: SwobuResponseID
  rb_TargetID :: string
  rb_TargetVersion :: "64 word"

definition bind_ref :: "ResponseBinding \<Rightarrow> ResponseRef \<Rightarrow> ResponseRef" where
  "bind_ref b ref =
     ref\<lparr>rr_SwobuID := rb_SwobuID b,
       rr_Responses := map_option (\<lambda>c. c\<lparr>rc_TargetID := rb_TargetID b,
         rc_TargetVersion := rb_TargetVersion b\<rparr>) (rr_Responses ref),
       rr_Interactions := map_option (\<lambda>c. c\<lparr>ic_TargetID := rb_TargetID b,
         ic_TargetVersion := rb_TargetVersion b\<rparr>) (rr_Interactions ref)\<rparr>"

definition bind_event :: "ResponseBinding \<Rightarrow> Event \<Rightarrow> go_error + Event" where
  "bind_event b event =
     (case (ev_Kind event, ev_Payload event) of
        (EventResponseIdentity, response_identity ref) \<Rightarrow>
          Inr (event\<lparr>ev_Payload := response_identity (bind_ref b ref), ev_NativeID := []\<rparr>)
      | (EventItemCompleted, item_event ie) \<Rightarrow>
          (case ie_payload ie of
             Some (item_completed item) \<Rightarrow>
               if item_Kind item = ItemKindReasoning \<and> rb_TargetID b \<noteq> [] \<and> rb_TargetVersion b \<noteq> 0
               then and_then (item_withTargetOrigin item (rb_TargetID b) (rb_TargetVersion b))
                 (\<lambda>bound. Inr (event\<lparr>ev_Payload :=
                   item_event (ie\<lparr>ie_payload := Some (item_completed bound)\<rparr>)\<rparr>))
               else Inr event
           | _ \<Rightarrow> Inr event)
      | _ \<Rightarrow> Inr event)"

definition bound_Next :: "ResponseBinding \<Rightarrow> pulled \<Rightarrow> pulled" where
  "bound_Next b upstream =
     (case upstream of
        pulled_event event \<Rightarrow>
          (case bind_event b event of Inl e \<Rightarrow> pulled_error e | Inr event' \<Rightarrow> pulled_event event')
      | other \<Rightarrow> other)"

section \<open>The response fold\<close>

record responseFold =
  rf_assembler :: itemStreamAssembler
  rf_usage :: TokenUsage
  rf_completion :: Completion
  rf_response :: ResponseRef
  rf_model :: string

definition zeroResponseRef :: ResponseRef where
  "zeroResponseRef = \<lparr>rr_SwobuID = [], rr_Responses = None, rr_Interactions = None\<rparr>"

definition newResponseFold :: responseFold where
  "newResponseFold = \<lparr>rf_assembler = [], rf_usage = NewUnknownTokenUsage,
     rf_completion = zeroCompletion, rf_response = zeroResponseRef, rf_model = []\<rparr>"

definition fold_start :: "string \<Rightarrow> string \<Rightarrow> responseFold \<Rightarrow> go_error + responseFold" where
  "fold_start kind model f =
     (if kind \<noteq> EnvResponse
      then Inl (Errorf ''response fold requires response envelope, got kind %q'' [kind])
      else Inr (f\<lparr>rf_model := model\<rparr>))"

definition fold_item :: "json_codec \<Rightarrow> Event \<Rightarrow> responseFold \<Rightarrow> go_error + responseFold" where
  "fold_item codec event f =
     (case ev_Payload event of
        item_event itemEvent \<Rightarrow>
          and_then (asm_apply codec (ev_Kind event) itemEvent (rf_assembler f)) (\<lambda>a.
            Inr (f\<lparr>rf_assembler := a\<rparr>))
      | _ \<Rightarrow> Inl (Errorf ''%s payload type %T is unsupported'' []))"

definition fold_apply :: "json_codec \<Rightarrow> Event \<Rightarrow> responseFold \<Rightarrow> go_error + responseFold" where
  "fold_apply codec event f =
     (case ev_Kind event of
        EventResponseIdentity \<Rightarrow>
          (case ev_Payload event of
             response_identity ref \<Rightarrow> Inr (f\<lparr>rf_response := ref\<rparr>)
           | _ \<Rightarrow> Inl (Errorf ''response.identity payload type %T is unsupported'' []))
      | EventItemStart \<Rightarrow> fold_item codec event f
      | EventContentStart \<Rightarrow> fold_item codec event f
      | EventTextDelta \<Rightarrow> fold_item codec event f
      | EventArgsDelta \<Rightarrow> fold_item codec event f
      | EventItemCompleted \<Rightarrow> fold_item codec event f
      | EventUsage \<Rightarrow>
          (case ev_Payload event of
             usage_payload usage \<Rightarrow> Inr (f\<lparr>rf_usage := usage\<rparr>)
           | _ \<Rightarrow> Inl (Errorf ''usage payload type %T is unsupported'' []))
      | EventFinish \<Rightarrow>
          (case ev_Payload event of
             finish_payload completion \<Rightarrow> Inr (f\<lparr>rf_completion := completion\<rparr>)
           | _ \<Rightarrow> Inl (Errorf ''finish payload type %T is unsupported'' []))
      | EventError \<Rightarrow>
          (case ev_Payload event of
             error_payload code msg _ \<Rightarrow>
               Inl (Errorf ''canonical response stream error %s: %s'' [code, msg])
           | _ \<Rightarrow> Inl (Errorf ''error payload type %T is unsupported'' []))
      | _ \<Rightarrow> Inl (Errorf ''response projection event kind %q is unsupported'' []))"

definition responseOutput :: "responseFold \<Rightarrow> go_error + CanonicalResponse" where
  "responseOutput f =
     and_then (completedItems (rf_assembler f)) (\<lambda>items.
       NewCanonicalResponse (rf_response f) (rf_model f) items (rf_completion f) (rf_usage f))"

section \<open>The incremental projector\<close>

record ResponseProjector =
  pj_binding :: SwobuResponseID
  pj_fold :: responseFold
  pj_openResponse :: string
  pj_started :: bool
  pj_ended :: bool
  pj_err :: "go_error option"

definition NewResponseProjector :: "ResponseBinding \<Rightarrow> ResponseProjector" where
  "NewResponseProjector b = \<lparr>pj_binding = rb_SwobuID b, pj_fold = newResponseFold,
     pj_openResponse = [], pj_started = False, pj_ended = False, pj_err = None\<rparr>"

text \<open>One event's effect on a projector with no recorded error.\<close>

definition project_event :: "json_codec \<Rightarrow> Event \<Rightarrow> ResponseProjector \<Rightarrow> go_error + ResponseProjector" where
  "project_event codec event p =
     (case ev_Kind event of
        EventEnvelopeStart \<Rightarrow>
          (case ev_Payload event of
             envelope_start kind model \<Rightarrow>
               if kind \<noteq> EnvResponse
               then Inl (Errorf ''projector is scoped to response envelopes, got kind %q'' [kind])
               else if pj_started p
               then Inl (Errorf ''response envelope %q opened while %q is still open''
                 [ev_EnvID event, pj_openResponse p])
               else and_then (fold_start kind model (pj_fold p)) (\<lambda>f.
                 Inr (p\<lparr>pj_openResponse := ev_EnvID event, pj_started := True, pj_fold := f\<rparr>))
           | _ \<Rightarrow> Inl (Errorf ''envelope.start payload type %T is unsupported'' []))
      | EventResponseIdentity \<Rightarrow>
          (case ev_Payload event of
             response_identity ref \<Rightarrow>
               if pj_binding p \<noteq> [] \<and> rr_SwobuID ref \<noteq> pj_binding p
               then Inl (Errorf ''response identity %q does not match checkpoint %q''
                 [rr_SwobuID ref, pj_binding p])
               else and_then (fold_apply codec event (pj_fold p)) (\<lambda>f. Inr (p\<lparr>pj_fold := f\<rparr>))
           | _ \<Rightarrow> Inl (Errorf ''response.identity payload type %T is unsupported'' []))
      | EventEnvelopeEnd \<Rightarrow>
          (case ev_Payload event of
             envelope_end kind status \<Rightarrow>
               if kind \<noteq> EnvResponse
               then Inl (Errorf ''projector is scoped to response envelopes, got end kind %q'' [kind])
               else if \<not> pj_started p \<or> pj_openResponse p \<noteq> ev_EnvID event
               then Inl (Errorf ''response envelope end %q does not match the open response''
                 [ev_EnvID event])
               else if status \<noteq> EnvelopeStatusCompleted
               then Inl (Errorf ''canonical response did not complete successfully: %s'' [status])
               else Inr (p\<lparr>pj_openResponse := [], pj_ended := True\<rparr>)
           | _ \<Rightarrow> Inl (Errorf ''envelope.end payload type %T is unsupported'' []))
      | EventOther k \<Rightarrow> Inl (Errorf ''response projection event kind %q is unsupported'' [k])
      | _ \<Rightarrow> and_then (fold_apply codec event (pj_fold p)) (\<lambda>f. Inr (p\<lparr>pj_fold := f\<rparr>)))"

definition projector_Apply ::
    "json_codec \<Rightarrow> Event \<Rightarrow> ResponseProjector \<Rightarrow> go_error option \<times> ResponseProjector" where
  "projector_Apply codec event p =
     (case pj_err p of
        Some e \<Rightarrow> (Some e, p)
      | None \<Rightarrow>
          if pj_ended p
          then (Some (Errorf ''response projector received event %q after envelope end'' []), p)
          else (case project_event codec event p of
             Inl e \<Rightarrow> (Some e, p\<lparr>pj_err := Some e\<rparr>)
           | Inr p' \<Rightarrow> (None, p')))"

definition projector_Done :: "ResponseProjector \<Rightarrow> go_error + CanonicalResponse" where
  "projector_Done p =
     (case pj_err p of
        Some e \<Rightarrow> Inl e
      | None \<Rightarrow>
          if \<not> pj_ended p
          then Inl (Errorf ''response projector was not closed by a completed envelope end'' [])
          else responseOutput (pj_fold p))"

text \<open>\<open>ProjectStream\<close> over the events a reader returns before its end or its error.\<close>

fun project_loop ::
    "json_codec \<Rightarrow> Event list \<Rightarrow> go_error \<Rightarrow> ResponseProjector \<Rightarrow> go_error + CanonicalResponse" where
  "project_loop codec [] last' p = Inl last'"
| "project_loop codec (event # events) last' p =
     (case projector_Apply codec event p of
        (Some e, _) \<Rightarrow> Inl e
      | (None, p') \<Rightarrow>
          if ev_Kind event = EventEnvelopeEnd then projector_Done p'
          else project_loop codec events last' p')"

definition ProjectStream ::
    "json_codec \<Rightarrow> Event list \<Rightarrow> go_error \<Rightarrow> ResponseBinding \<Rightarrow> go_error + CanonicalResponse" where
  "ProjectStream codec events last' binding =
     project_loop codec events last' (NewResponseProjector binding)"

section \<open>The retained projection\<close>

record envelopeOpenProjection =
  eo_kind :: string
  eo_parent :: string
  eo_evs :: "Event list"

type_synonym open_envelopes = "(string \<times> envelopeOpenProjection) list"

text \<open>
  \<open>appendToAncestors\<close> follows the parents of an envelope. A chain without repetition visits each
  open envelope once; when the fuel, one more than their number, runs out, the chain is a cycle
  and the loop of the code does not return: the value is \<open>None\<close>.
\<close>

fun append_ancestors :: "nat \<Rightarrow> string \<Rightarrow> Event \<Rightarrow> open_envelopes \<Rightarrow> open_envelopes option" where
  "append_ancestors 0 current event open' = None"
| "append_ancestors (Suc fuel) current event open' =
     (if current = [] then Some open'
      else case map_of open' current of
        None \<Rightarrow> Some open'
      | Some state \<Rightarrow>
          append_ancestors fuel (eo_parent state) event
            (AList.update current (state\<lparr>eo_evs := eo_evs state @ [event]\<rparr>) open'))"

definition appendToAncestors :: "string \<Rightarrow> Event \<Rightarrow> open_envelopes \<Rightarrow> open_envelopes option" where
  "appendToAncestors i event open' = append_ancestors (Suc (length open')) i event open'"

record ClosedEnvelope =
  ce_ID :: string
  ce_Kind :: string
  ce_Events :: "Event list"

text \<open>\<open>ReadClosedEnvelope\<close>; \<open>None\<close> when it does not return.\<close>

fun read_closed ::
    "Event list \<Rightarrow> go_error \<Rightarrow> string \<Rightarrow> open_envelopes \<Rightarrow> string \<Rightarrow>
     (go_error + ClosedEnvelope) option" where
  "read_closed [] last' kind open' openResponse = Some (Inl last')"
| "read_closed (event # events) last' kind open' openResponse =
     (case ev_Kind event of
        EventEnvelopeStart \<Rightarrow>
          (case ev_Payload event of
             envelope_start k model \<Rightarrow>
               if map_of open' (ev_EnvID event) \<noteq> None
               then Some (Inl (Errorf ''envelope %q is already open'' [ev_EnvID event]))
               else if k = EnvResponse \<and> openResponse \<noteq> []
               then Some (Inl (Errorf
                 ''response envelope %q opened while response %q is still open'' [ev_EnvID event, openResponse]))
               else (case appendToAncestors (ev_EnvID event) event
                   (AList.update (ev_EnvID event)
                     \<lparr>eo_kind = k, eo_parent = ev_ParentID event, eo_evs = []\<rparr> open') of
                 None \<Rightarrow> None
               | Some open'' \<Rightarrow> read_closed events last' kind open''
                   (if k = EnvResponse then ev_EnvID event else openResponse))
           | _ \<Rightarrow> Some (Inl (Errorf ''envelope.start payload type %T is unsupported'' [])))
      | EventEnvelopeEnd \<Rightarrow>
          (case ev_Payload event of
             envelope_end k status \<Rightarrow>
               (case map_of open' (ev_EnvID event) of
                  None \<Rightarrow> Some (Inl (Errorf ''close for unknown envelope %q'' [ev_EnvID event]))
                | Some _ \<Rightarrow>
                    (case appendToAncestors (ev_EnvID event) event open' of
                       None \<Rightarrow> None
                     | Some open'' \<Rightarrow>
                         (case map_of open'' (ev_EnvID event) of
                            None \<Rightarrow> Some (Inl (Panicked ''nil envelope''))
                          | Some state \<Rightarrow>
                              if k = EnvResponse \<and> openResponse \<noteq> ev_EnvID event
                              then Some (Inl (Errorf
                                ''response envelope %q does not own the open response stream'' [ev_EnvID event]))
                              else if k = kind
                              then Some (Inr \<lparr>ce_ID = ev_EnvID event, ce_Kind = kind,
                                ce_Events = eo_evs state\<rparr>)
                              else read_closed events last' kind
                                (AList.delete (ev_EnvID event) open'')
                                (if k = EnvResponse then [] else openResponse))))
           | _ \<Rightarrow> Some (Inl (Errorf ''envelope.end payload type %T is unsupported'' [])))
      | _ \<Rightarrow>
          (case ev_Payload event of
             item_event _ \<Rightarrow>
               if openResponse = []
               then Some (Inl (Errorf ''%s item event has no open response envelope'' []))
               else (case map_of open' openResponse of
                  None \<Rightarrow> Some (Inl (Panicked ''nil envelope''))
                | Some state \<Rightarrow> read_closed events last' kind
                    (AList.update openResponse (state\<lparr>eo_evs := eo_evs state @ [event]\<rparr>) open')
                    openResponse)
           | _ \<Rightarrow>
               (case appendToAncestors (ev_EnvID event) event open' of
                  None \<Rightarrow> None
                | Some open'' \<Rightarrow> read_closed events last' kind open'' openResponse)))"

definition ReadClosedEnvelope ::
    "Event list \<Rightarrow> go_error \<Rightarrow> string \<Rightarrow> (go_error + ClosedEnvelope) option" where
  "ReadClosedEnvelope events last' kind = read_closed events last' kind [] []"

fun project_closed :: "json_codec \<Rightarrow> Event list \<Rightarrow> responseFold \<Rightarrow> go_error + responseFold" where
  "project_closed codec [] f = Inr f"
| "project_closed codec (event # events) f =
     and_then (case ev_Kind event of
         EventEnvelopeStart \<Rightarrow>
           (case ev_Payload event of
              envelope_start kind model \<Rightarrow>
                if kind = EnvResponse then fold_start kind model f else Inr f
            | _ \<Rightarrow> Inl (Errorf ''envelope.start payload type %T is unsupported'' []))
       | EventEnvelopeEnd \<Rightarrow> Inr f
       | EventOther k \<Rightarrow> Inl (Errorf ''response projection event kind %q is unsupported'' [k])
       | _ \<Rightarrow> fold_apply codec event f)
       (project_closed codec events)"

definition ProjectResponse :: "json_codec \<Rightarrow> ClosedEnvelope \<Rightarrow> go_error + CanonicalResponse" where
  "ProjectResponse codec e =
     (if ce_Kind e \<noteq> EnvResponse then Inl (Errorf ''closed envelope is not a response'' [])
      else and_then (project_closed codec (ce_Events e) newResponseFold) responseOutput)"

section \<open>Synthesis\<close>

text \<open>The events of one item, without their sequence numbers.\<close>

definition item_ev :: "EventKind \<Rightarrow> nat \<Rightarrow> nat \<Rightarrow> ItemEventPayload \<Rightarrow> EventKind \<times> Payload" where
  "item_ev kind ordinal part payload =
     (kind, item_event \<lparr>ie_item = of_nat ordinal, ie_part = of_nat part, ie_payload = Some payload\<rparr>)"

fun part_events :: "nat \<Rightarrow> nat \<Rightarrow> MessagePart list \<Rightarrow> (EventKind \<times> Payload) list" where
  "part_events ordinal k [] = []"
| "part_events ordinal k (part # parts) =
     item_ev EventContentStart ordinal k (content_start (part_Kind part)) #
     (case part_Text part of
        Some t \<Rightarrow> [item_ev EventTextDelta ordinal k (text_delta t)] | None \<Rightarrow> []) @
     part_events ordinal (Suc k) parts"

definition start_events :: "nat \<Rightarrow> CanonicalItem \<Rightarrow> (EventKind \<times> Payload) list" where
  "start_events ordinal item =
     (case item of
        message_item m \<Rightarrow>
          item_ev EventItemStart ordinal 0 (item_start (message_start (mi_role m))) #
          part_events ordinal 0 (mi_content m)
      | tool_call_item c \<Rightarrow>
          item_ev EventItemStart ordinal 0 (item_start (tool_call_start (tc_callID c) (tc_tool c))) #
          (case tc_input c of
             object_input object \<Rightarrow> [item_ev EventArgsDelta ordinal 0 (args_delta object)]
           | text_input t \<Rightarrow> [item_ev EventArgsDelta ordinal 0 (args_delta t)]
           | _ \<Rightarrow> [])
      | _ \<Rightarrow> [])"

definition item_events :: "nat \<Rightarrow> CanonicalItem \<Rightarrow> (EventKind \<times> Payload) list" where
  "item_events ordinal item =
     (case item of
        zeroItem \<Rightarrow> [(EventError, error_payload ''invalid_canonical_item''
          ''canonical response contains an invalid item'' False)]
      | declarations_item _ \<Rightarrow> [(EventError, error_payload ''invalid_canonical_item''
          ''canonical response contains an invalid item'' False)]
      | _ \<Rightarrow> start_events ordinal item @
          [item_ev EventItemCompleted ordinal 0 (item_completed item)])"

fun items_events :: "nat \<Rightarrow> CanonicalItem list \<Rightarrow> (EventKind \<times> Payload) list" where
  "items_events ordinal [] = []"
| "items_events ordinal (item # items) =
     item_events ordinal item @ items_events (Suc ordinal) items"

definition response_scoped :: "EventKind \<Rightarrow> bool" where
  "response_scoped kind \<longleftrightarrow> kind \<in> {EventEnvelopeStart, EventEnvelopeEnd, EventResponseIdentity,
     EventUsage, EventFinish, EventError}"

fun number_events :: "string \<Rightarrow> string \<Rightarrow> int \<Rightarrow> (EventKind \<times> Payload) list \<Rightarrow> Event list" where
  "number_events exchangeID responseID seq [] = []"
| "number_events exchangeID responseID seq ((kind, payload) # rest) =
     \<lparr>ev_ExchangeID = exchangeID, ev_Seq = seq, ev_Kind = kind,
       ev_EnvID = (if response_scoped kind then responseID else []), ev_ParentID = [],
       ev_Payload = payload, ev_NativeID = []\<rparr> #
     number_events exchangeID responseID (seq + 1) rest"

definition response_events ::
    "ResponseRef \<Rightarrow> string \<Rightarrow> CanonicalItem list \<Rightarrow> Completion \<Rightarrow> TokenUsage \<Rightarrow> (EventKind \<times> Payload) list" where
  "response_events ref model items completion usage =
     [(EventEnvelopeStart, envelope_start EnvResponse model),
      (EventResponseIdentity, response_identity ref)] @
     items_events 0 items @
     [(EventUsage, usage_payload usage), (EventFinish, finish_payload completion),
      (EventEnvelopeEnd, envelope_end EnvResponse EnvelopeStatusCompleted)]"

definition SynthesizeResponseEnvelopeEvents ::
    "string \<Rightarrow> ResponseRef \<Rightarrow> string \<Rightarrow> CanonicalItem list \<Rightarrow> Completion \<Rightarrow> TokenUsage \<Rightarrow> Event list" where
  "SynthesizeResponseEnvelopeEvents exchangeID ref model items completion usage =
     number_events exchangeID (exchangeID @ '':response:0'') 1
       (response_events ref model items completion usage)"

end
