(* ===== verification/Canonical_Projection.thy ===== *)
theory Canonical_Projection
  imports Canonical_Stream
begin

text \<open>
  What the stream machinery guarantees: a buffered response synthesised into events passes the
  lifecycle validator and is projected back to itself; the incremental projector and the
  retained projection agree; and what the validator admits.
\<close>

section \<open>Ordinals\<close>

lemma AList_update_new: "k \<notin> fst ` set al \<Longrightarrow> AList.update k v al = al @ [(k, v)]"
  by (induction al) auto

lemma AList_update_last: "k \<notin> fst ` set al \<Longrightarrow> AList.update k v (al @ [(k, w)]) = al @ [(k, v)]"
  by (induction al) auto

lemma map_of_last: "k \<notin> fst ` set al \<Longrightarrow> (m ++ map_of al) k = m k"
  by (simp add: map_add_dom_app_simps(3) dom_map_of_conv_image_fst)

lemma map_of_new: "k \<notin> fst ` set al \<Longrightarrow> map_of al k = None"
  by (simp add: map_of_eq_None_iff)

lemmas ordinal_simps = AList_update_new AList_update_last map_of_last map_of_new

text \<open>A list of values stored at the ordinals \<open>0, 1, \<dots>\<close>.\<close>

definition at_ordinals :: "('a \<Rightarrow> 'b) \<Rightarrow> 'a list \<Rightarrow> (32 word \<times> 'b) list" where
  "at_ordinals f xs = map (\<lambda>(i, x). (of_nat i, f x)) (List.enumerate 0 xs)"

lemma at_ordinals_Nil [simp]: "at_ordinals f [] = []"
  by (simp add: at_ordinals_def)

lemma at_ordinals_snoc: "at_ordinals f (xs @ [x]) = at_ordinals f xs @ [(of_nat (length xs), f x)]"
  by (simp add: at_ordinals_def enumerate_append_eq)

lemma length_at_ordinals [simp]: "length (at_ordinals f xs) = length xs"
  by (simp add: at_ordinals_def)

lemma unat_ordinal [simp]: "i < 2 ^ 32 \<Longrightarrow> unat (of_nat i :: 32 word) = i"
  by (simp add: unsigned_of_nat take_bit_nat_eq_self)

lemma ordinal_inj: "i < 2 ^ 32 \<Longrightarrow> j < 2 ^ 32 \<Longrightarrow> (of_nat i :: 32 word) = of_nat j \<longleftrightarrow> i = j"
  by (metis unat_ordinal)

lemma at_ordinals_keys: "fst ` set (at_ordinals f xs) = of_nat ` {..<length xs}"
  by (induction xs rule: rev_induct) (simp_all add: at_ordinals_snoc lessThan_Suc)

lemma ordinal_fresh: "length xs < 2 ^ 32 \<Longrightarrow> of_nat (length xs) \<notin> fst ` set (at_ordinals f xs)"
  by (auto simp: at_ordinals_keys ordinal_inj)

lemma map_of_at_ordinals:
  "length xs \<le> 2 ^ 32 \<Longrightarrow> i < length xs \<Longrightarrow> map_of (at_ordinals f xs) (of_nat i) = Some (f (xs ! i))"
proof (induction xs rule: rev_induct)
  case (snoc x xs)
  show ?case
  proof (cases "i = length xs")
    case True
    then show ?thesis using snoc.prems ordinal_fresh [of xs f] by (simp add: at_ordinals_snoc map_of_last)
  next
    case False
    then have "i < length xs" using snoc.prems by simp
    with snoc show ?thesis by (simp add: at_ordinals_snoc map_add_Some_iff nth_append)
  qed
qed simp

section \<open>Synthesised items through the assembler\<close>

text \<open>
  What the constructors guarantee of an item of a response: content parts with a branch, and for
  a call its identities and an input branch; a canonical object is read back as itself.
\<close>

fun wf_item :: "json_codec \<Rightarrow> CanonicalItem \<Rightarrow> bool" where
  "wf_item codec (message_item m) \<longleftrightarrow>
     list_all (\<lambda>x. part_Kind x \<noteq> []) (mi_content m) \<and> length (mi_content m) < 2 ^ 32"
| "wf_item codec (tool_call_item c) \<longleftrightarrow> tc_callID c \<noteq> [] \<and> \<not> key_IsZero (tc_tool c) \<and>
     (case tc_input c of
        zeroInput \<Rightarrow> False | object_input object \<Rightarrow> ParseJSONObject codec object = Inr object
      | _ \<Rightarrow> True)"
| "wf_item codec _ \<longleftrightarrow> True"

fun asm_run ::
    "json_codec \<Rightarrow> (EventKind \<times> Payload) list \<Rightarrow> itemStreamAssembler \<Rightarrow> go_error + itemStreamAssembler" where
  "asm_run codec [] a = Inr a"
| "asm_run codec ((kind, item_event ie) # evs) a = and_then (asm_apply codec kind ie a) (asm_run codec evs)"
| "asm_run codec ((kind, _) # evs) a = Inl (Errorf ''%s payload type %T is unsupported'' [])"

lemma asm_run_append:
  "asm_run codec (es @ fs) a = and_then (asm_run codec es a) (asm_run codec fs)"
  by (induction codec es a rule: asm_run.induct) (auto simp: and_then_def split: sum.split)

definition streamed_part :: "MessagePart \<Rightarrow> itemStreamPartState" where
  "streamed_part part = \<lparr>ps_kind = part_Kind part,
     ps_text = (case part_Text part of None \<Rightarrow> [] | Some t \<Rightarrow> t)\<rparr>"

definition streamed_state :: "CanonicalItem \<Rightarrow> itemStreamState" where
  "streamed_state item =
     (case item of
        message_item m \<Rightarrow> \<lparr>ss_start = message_start (mi_role m), ss_args = [],
          ss_parts = at_ordinals streamed_part (mi_content m), ss_completed = Some item\<rparr>
      | tool_call_item c \<Rightarrow> \<lparr>ss_start = tool_call_start (tc_callID c) (tc_tool c),
          ss_args = (case tc_input c of object_input object \<Rightarrow> object | text_input t \<Rightarrow> t | _ \<Rightarrow> []),
          ss_parts = [], ss_completed = Some item\<rparr>
      | _ \<Rightarrow> zeroItemState\<lparr>ss_completed := Some item\<rparr>)"

lemma part_Text_kind: "part_Text x = Some t \<Longrightarrow> part_Kind x = PartKindText"
  by (cases x) auto

lemma run_part_events:
  assumes "of_nat n \<notin> fst ` set a" and "list_all (\<lambda>x. part_Kind x \<noteq> []) parts"
    and "length (sent @ parts) < 2 ^ 32" and "start_Kind (ss_start s) = ItemKindMessage"
    and "ss_completed s = None" and "ss_parts s = at_ordinals streamed_part sent"
  shows "asm_run codec (part_events n (length sent) parts) (a @ [(of_nat n, s)]) =
    Inr (a @ [(of_nat n, s\<lparr>ss_parts := at_ordinals streamed_part (sent @ parts)\<rparr>)])"
  using assms
proof (induction parts arbitrary: sent s)
  case Nil
  then show ?case by simp
next
  case (Cons part parts)
  let ?s = "s\<lparr>ss_parts := at_ordinals streamed_part (sent @ [part])\<rparr>"
  have fresh: "of_nat (length sent) \<notin> fst ` set (at_ordinals streamed_part sent)"
    using Cons.prems(3) by (intro ordinal_fresh) simp
  have step: "asm_run codec (item_ev EventContentStart n (length sent) (content_start (part_Kind part)) #
      (case part_Text part of
         Some t \<Rightarrow> [item_ev EventTextDelta n (length sent) (text_delta t)] | None \<Rightarrow> []))
      (a @ [(of_nat n, s)]) = Inr (a @ [(of_nat n, ?s)])"
    using Cons.prems fresh part_Text_kind [of part]
    by (cases "part_Text part")
      (simp_all add: item_ev_def asm_apply_def asm_content_def asm_text_def content_open_def
        ordinal_simps at_ordinals_snoc streamed_part_def [of part])
  have "asm_run codec (part_events n (length (sent @ [part])) parts) (a @ [(of_nat n, ?s)]) =
      Inr (a @ [(of_nat n, ?s\<lparr>ss_parts := at_ordinals streamed_part ((sent @ [part]) @ parts)\<rparr>)])"
    by (rule Cons.IH) (use Cons.prems in simp_all)
  moreover have "part_events n (length sent) (part # parts) =
      (item_ev EventContentStart n (length sent) (content_start (part_Kind part)) #
      (case part_Text part of
         Some t \<Rightarrow> [item_ev EventTextDelta n (length sent) (text_delta t)] | None \<Rightarrow> [])) @
      part_events n (length (sent @ [part])) parts" by simp
  ultimately show ?case by (simp only: asm_run_append step and_then_Inr) simp
qed

lemma part_mismatch_streamed:
  assumes "length (sent @ parts) \<le> 2 ^ 32"
  shows "part_mismatch (at_ordinals streamed_part (sent @ parts)) (length sent) parts = Inr ()"
  using assms
proof (induction parts arbitrary: sent)
  case (Cons part parts)
  have "map_of (at_ordinals streamed_part (sent @ part # parts)) (of_nat (length sent)) =
      Some (streamed_part part)"
    using map_of_at_ordinals [of "sent @ part # parts" "length sent" streamed_part] Cons.prems
    by simp
  moreover have "part_mismatch (at_ordinals streamed_part ((sent @ [part]) @ parts))
      (length (sent @ [part])) parts = Inr ()"
    by (rule Cons.IH) (use Cons.prems in simp)
  ultimately show ?case by (auto simp: streamed_part_def [of part] split: option.split)
qed simp

lemma completes:
  assumes "of_nat n \<notin> fst ` set a" and "ss_completed s = None"
    and "validateCompletedItem codec s item = Inr ()" and "item_Kind item \<noteq> ItemKindNone"
  shows "asm_run codec [item_ev EventItemCompleted n 0 (item_completed item)] (a @ [(of_nat n, s)]) =
    Inr (a @ [(of_nat n, s\<lparr>ss_completed := Some item\<rparr>)])"
  using assms
  by (simp add: item_ev_def asm_apply_def asm_completed_def ordinal_simps)

lemma completes_alone:
  assumes "of_nat n \<notin> fst ` set a" and "atomic_kind (item_Kind item)"
  shows "asm_run codec [item_ev EventItemCompleted n 0 (item_completed item)] a =
    Inr (a @ [(of_nat n, zeroItemState\<lparr>ss_completed := Some item\<rparr>)])"
proof -
  have "item_Kind item \<noteq> ItemKindNone" using assms(2) by (auto simp: atomic_kind_def)
  then show ?thesis
    using assms by (simp add: item_ev_def asm_apply_def asm_completed_def ordinal_simps
        validateCompletedItem_def zeroItemState_def)
qed

lemma run_item_events:
  assumes fresh: "of_nat n \<notin> fst ` set a" and wf: "wf_item codec item"
    and ok: "validateResponseItem item = Inr ()"
  shows "asm_run codec (item_events n item) a = Inr (a @ [(of_nat n, streamed_state item)])"
proof (cases item)
  case (message_item m)
  let ?s = "zeroItemState\<lparr>ss_start := message_start (mi_role m)\<rparr>"
  let ?t = "?s\<lparr>ss_parts := at_ordinals streamed_part (mi_content m)\<rparr>"
  have "asm_run codec (part_events n (length ([] :: MessagePart list)) (mi_content m))
      (a @ [(of_nat n, ?s)]) = Inr (a @ [(of_nat n, ?t)])"
    using run_part_events [OF fresh, of "mi_content m" "[]" ?s codec] wf message_item
    by (simp add: zeroItemState_def)
  moreover have "asm_run codec [item_ev EventItemStart n 0 (item_start (message_start (mi_role m)))] a =
      Inr (a @ [(of_nat n, ?s)])"
    using fresh by (simp add: item_ev_def asm_apply_def asm_start_def ordinal_simps)
  moreover have "validateCompletedItem codec ?t item = Inr ()"
    using part_mismatch_streamed [of "[]" "mi_content m"] wf message_item
    by (simp add: validateCompletedItem_def validate_message_def atomic_kind_def)
  then have "asm_run codec [item_ev EventItemCompleted n 0 (item_completed item)]
      (a @ [(of_nat n, ?t)]) = Inr (a @ [(of_nat n, ?t\<lparr>ss_completed := Some item\<rparr>)])"
    by (intro completes [OF fresh]) (simp_all add: zeroItemState_def message_item)
  moreover have "item_events n item =
      [item_ev EventItemStart n 0 (item_start (message_start (mi_role m)))] @
      part_events n (length ([] :: MessagePart list)) (mi_content m) @
      [item_ev EventItemCompleted n 0 (item_completed item)]"
    by (simp add: item_events_def start_events_def message_item)
  ultimately show ?thesis
    by (simp only: asm_run_append and_then_Inr)
      (simp add: streamed_state_def message_item zeroItemState_def)
next
  case (tool_call_item c)
  let ?args = "case tc_input c of object_input object \<Rightarrow> object | text_input t \<Rightarrow> t | _ \<Rightarrow> []"
  let ?t = "zeroItemState\<lparr>ss_start := tool_call_start (tc_callID c) (tc_tool c), ss_args := ?args\<rparr>"
  have "asm_run codec (start_events n item) a = Inr (a @ [(of_nat n, ?t)])"
    using fresh wf tool_call_item
    by (cases "tc_input c") (simp_all add: start_events_def item_ev_def asm_apply_def asm_start_def
        asm_args_def ordinal_simps zeroItemState_def)
  moreover have "validateCompletedItem codec ?t item = Inr ()"
    using wf tool_call_item
    by (cases "tc_input c") (simp_all add: validateCompletedItem_def validate_tool_call_def
        atomic_kind_def)
  then have "asm_run codec [item_ev EventItemCompleted n 0 (item_completed item)]
      (a @ [(of_nat n, ?t)]) = Inr (a @ [(of_nat n, ?t\<lparr>ss_completed := Some item\<rparr>)])"
    by (intro completes [OF fresh]) (simp_all add: zeroItemState_def tool_call_item)
  moreover have "item_events n item =
      start_events n item @ [item_ev EventItemCompleted n 0 (item_completed item)]"
    by (simp add: item_events_def tool_call_item)
  ultimately show ?thesis
    by (simp only: asm_run_append and_then_Inr)
      (simp add: streamed_state_def tool_call_item zeroItemState_def)
next
  case (tool_result_item r)
  then show ?thesis
    using completes_alone [OF fresh, of item codec]
    by (simp add: item_events_def start_events_def streamed_state_def atomic_kind_def)
next
  case (discovery_result_item r)
  then show ?thesis
    using completes_alone [OF fresh, of item codec]
    by (simp add: item_events_def start_events_def streamed_state_def atomic_kind_def)
next
  case (reasoning_item r)
  then show ?thesis
    using completes_alone [OF fresh, of item codec]
    by (simp add: item_events_def start_events_def streamed_state_def atomic_kind_def)
qed (use ok in \<open>simp_all add: validateResponseItem_def\<close>)

lemma run_items_events:
  assumes "list_all (wf_item codec) items" and "list_all (\<lambda>i. validateResponseItem i = Inr ()) items"
    and "length (sent @ items) < 2 ^ 32"
  shows "asm_run codec (items_events (length sent) items) (at_ordinals streamed_state sent) =
    Inr (at_ordinals streamed_state (sent @ items))"
  using assms
proof (induction items arbitrary: sent)
  case (Cons item items)
  have "of_nat (length sent) \<notin> fst ` set (at_ordinals streamed_state sent)"
    using Cons.prems(3) by (intro ordinal_fresh) simp
  then have "asm_run codec (item_events (length sent) item) (at_ordinals streamed_state sent) =
      Inr (at_ordinals streamed_state (sent @ [item]))"
    using run_item_events Cons.prems by (simp add: at_ordinals_snoc)
  moreover have "asm_run codec (items_events (length (sent @ [item])) items)
      (at_ordinals streamed_state (sent @ [item])) =
      Inr (at_ordinals streamed_state ((sent @ [item]) @ items))"
    by (rule Cons.IH) (use Cons.prems in simp_all)
  ultimately show ?case by (simp add: asm_run_append)
qed simp

lemma completedItems_streamed:
  assumes "length items < 2 ^ 32"
  shows "completedItems (at_ordinals streamed_state items) = Inr items"
proof -
  have done': "ss_completed (streamed_state item) = Some item" for item
    by (cases item) (simp_all add: streamed_state_def)
  have "snd x \<in> streamed_state ` set items" if "x \<in> set (at_ordinals streamed_state items)" for x
    using that by (auto simp: at_ordinals_def in_set_enumerate_eq)
  then have c: "\<not> list_ex (\<lambda>(_, s). ss_completed s = None) (at_ordinals streamed_state items)"
    using done' by (fastforce simp: list_ex_iff)
  have "map (\<lambda>(ordinal, _). unat ordinal) (at_ordinals streamed_state items) = [0..<length items]"
  proof (rule nth_equalityI)
    fix i assume "i < length (map (\<lambda>(ordinal, _). unat ordinal) (at_ordinals streamed_state items))"
    then show "map (\<lambda>(ordinal, _). unat ordinal) (at_ordinals streamed_state items) ! i =
        [0..<length items] ! i"
      using assms by (simp add: at_ordinals_def nth_enumerate_eq)
  qed simp
  moreover have "map (completed_at (at_ordinals streamed_state items)) [0..<length items] = items"
    using assms by (intro nth_equalityI) (simp_all add: completed_at_def map_of_at_ordinals done')
  ultimately show ?thesis using c by (simp add: completedItems_def)
qed

section \<open>The synthesised stream through validator and projector\<close>

lemma number_events_append:
  "number_events x rid seq (es @ fs) =
     number_events x rid seq es @ number_events x rid (seq + int (length es)) fs"
  by (induction es arbitrary: seq) (auto simp: algebra_simps)

lemma validate_events_append:
  "validate_events codec (es @ fs) r = and_then (validate_events codec es r) (validate_events codec fs)"
proof (induction es arbitrary: r)
  case (Cons e es)
  then show ?case by (cases "vs_apply codec e r") simp_all
qed simp

text \<open>The effect guard over the completed items of a list of events.\<close>

fun guard_run ::
    "(EventKind \<times> Payload) list \<Rightarrow> ToolEffectMatcher \<Rightarrow> go_error + ToolEffectMatcher" where
  "guard_run [] g = Inr g"
| "guard_run ((kind, item_event ie) # evs) g = and_then (guard_item kind ie g) (guard_run evs)"
| "guard_run (_ # evs) g = guard_run evs g"

lemma guard_run_append: "guard_run (es @ fs) g = and_then (guard_run es g) (guard_run fs)"
  by (induction es g rule: guard_run.induct) (auto simp: and_then_def split: sum.split)

fun item_scoped :: "EventKind \<times> Payload \<Rightarrow> bool" where
  "item_scoped (kind, item_event ie) \<longleftrightarrow>
     kind \<in> {EventItemStart, EventContentStart, EventTextDelta, EventArgsDelta, EventItemCompleted} \<and>
     validateResponseItemEvent kind ie = Inr ()"
| "item_scoped _ \<longleftrightarrow> False"

text \<open>A validator inside the response, before its terminal semantics.\<close>

definition stream_open ::
    "string \<Rightarrow> itemStreamAssembler \<Rightarrow> ToolEffectMatcher \<Rightarrow> int \<Rightarrow> ValidatedResponseStream \<Rightarrow> bool" where
  "stream_open rid a g seq r \<longleftrightarrow> vs_responseID r = rid \<and> rid \<noteq> [] \<and> vs_identitySeen r \<and>
     \<not> vs_finishSeen r \<and> \<not> vs_errorSeen r \<and> \<not> vs_usageSeen r \<and> vs_assembler r = Some a \<and>
     \<not> vs_responseDone r \<and> vs_effectGuard r = g \<and> vs_lastSequence r < seq \<and> 0 < seq"

lemma item_event_step:
  assumes "stream_open rid a g seq r" and "item_scoped (kind, item_event ie)"
    and "asm_apply codec kind ie a = Inr a'" and "guard_item kind ie g = Inr g'"
  shows "\<exists>r'. vs_apply codec \<lparr>ev_ExchangeID = x, ev_Seq = seq, ev_Kind = kind, ev_EnvID = [],
      ev_ParentID = [], ev_Payload = item_event ie, ev_NativeID = []\<rparr> r = Inr r' \<and>
    stream_open rid a' g' (seq + 1) r'"
proof -
  let ?e = "\<lparr>ev_ExchangeID = x, ev_Seq = seq, ev_Kind = kind, ev_EnvID = [],
      ev_ParentID = [], ev_Payload = item_event ie, ev_NativeID = []\<rparr> :: Event"
  let ?r = "r\<lparr>vs_lastSequence := seq\<rparr>"
  have "vs_apply codec ?e r = applyItemEvent codec ?e ?r"
    using assms(1,2) by (auto simp: vs_apply_def vs_dispatch_def stream_open_def)
  also have "\<dots> = Inr (?r\<lparr>vs_assembler := Some a', vs_effectGuard := g', vs_itemsSeen := True\<rparr>)"
    using assms
    by (simp add: applyItemEvent_def requireOpenResponseEvent_def foreign_def stream_open_def)
  finally show ?thesis using assms(1) by (simp add: stream_open_def)
qed

lemma item_list_validates:
  assumes "stream_open rid a g seq r" and "list_all item_scoped evs"
    and "asm_run codec evs a = Inr a'" and "guard_run evs g = Inr g'"
  shows "\<exists>r'. validate_events codec (number_events x rid seq evs) r = Inr r' \<and>
    stream_open rid a' g' (seq + int (length evs)) r'"
  using assms
proof (induction evs arbitrary: a g seq r)
  case (Cons ev evs)
  then obtain kind ie where ev: "ev = (kind, item_event ie)"
    by (cases ev rule: item_scoped.cases) auto
  then obtain a1 g1 where run: "asm_apply codec kind ie a = Inr a1" "asm_run codec evs a1 = Inr a'"
      "guard_item kind ie g = Inr g1" "guard_run evs g1 = Inr g'"
    using Cons.prems by (auto simp: result_simps)
  have kind: "\<not> response_scoped kind" using Cons.prems ev by (auto simp: response_scoped_def)
  obtain r1 where r1: "vs_apply codec \<lparr>ev_ExchangeID = x, ev_Seq = seq, ev_Kind = kind,
      ev_EnvID = [], ev_ParentID = [], ev_Payload = item_event ie, ev_NativeID = []\<rparr> r = Inr r1"
      "stream_open rid a1 g1 (seq + 1) r1"
    using item_event_step [OF Cons.prems(1) _ run(1,3)] Cons.prems(2) ev by auto
  from Cons.IH [OF r1(2) _ run(2,4)] Cons.prems(2) obtain r2 where
    "validate_events codec (number_events x rid (seq + 1) evs) r1 = Inr r2"
    "stream_open rid a' g' (seq + 1 + int (length evs)) r2" by auto
  with r1(1) show ?case by (auto simp: ev kind algebra_simps)
qed auto

lemma guard_run_skip:
  "list_all (\<lambda>(kind, _). kind \<noteq> EventItemCompleted) evs \<Longrightarrow> guard_run evs g = Inr g"
  by (induction evs g rule: guard_run.induct) (auto simp: guard_item_def split: EventKind.split)

lemma part_events_scoped: "list_all item_scoped (part_events n k parts)"
  "list_all (\<lambda>(kind, _). kind \<noteq> EventItemCompleted) (part_events n k parts)"
  by (induction n k parts rule: part_events.induct)
    (auto simp: item_ev_def validateResponseItemEvent_def split: option.split)

lemma item_events_scoped:
  assumes "validateResponseItem item = Inr ()"
  shows "list_all item_scoped (item_events n item) \<and>
    guard_run (item_events n item) g =
      guard_run [item_ev EventItemCompleted n 0 (item_completed item)] g"
proof -
  have "item_events n item = start_events n item @ [item_ev EventItemCompleted n 0 (item_completed item)]"
    using assms by (cases item) (simp_all add: item_events_def validateResponseItem_def)
  moreover have "list_all item_scoped (start_events n item)"
    using assms part_events_scoped(1)
    by (cases item) (auto simp: start_events_def item_ev_def validateResponseItemEvent_def
        validateResponseItem_def split: ToolInput.split if_splits)
  moreover have "list_all (\<lambda>(kind, _). kind \<noteq> EventItemCompleted) (start_events n item)"
    using part_events_scoped(2)
    by (cases item) (auto simp: start_events_def item_ev_def split: ToolInput.split)
  moreover have "item_scoped (item_ev EventItemCompleted n 0 (item_completed item))"
    using assms by (simp add: item_ev_def validateResponseItemEvent_def)
  ultimately show ?thesis by (simp add: guard_run_append guard_run_skip)
qed

lemma validate_response_items_sound:
  "validate_response_items k items g = Inr g' \<Longrightarrow> list_all (\<lambda>i. validateResponseItem i = Inr ()) items"
proof (induction items arbitrary: k g)
  case (Cons item items)
  then show ?case by (auto simp: result_simps split: sum.splits)
qed simp

lemma items_events_scoped:
  assumes "validate_response_items n items g = Inr g'" and "n + length items < 2 ^ 32"
  shows "list_all item_scoped (items_events n items) \<and> guard_run (items_events n items) g = Inr g'"
  using assms
proof (induction items arbitrary: n g)
  case (Cons item items)
  then obtain e g1 where ok: "validateResponseItem item = Inr ()"
    and acc: "Accept (int n) item g = Inr (e, g1)"
    and rest: "validate_response_items (Suc n) items g1 = Inr g'"
    by (auto simp: result_simps split: sum.splits)
  have "guard_run [item_ev EventItemCompleted n 0 (item_completed item)] g = Inr g1"
    using acc Cons.prems(2) by (simp add: item_ev_def guard_item_def)
  moreover have "list_all item_scoped (items_events (Suc n) items) \<and>
      guard_run (items_events (Suc n) items) g1 = Inr g'"
    by (rule Cons.IH [OF rest]) (use Cons.prems(2) in simp)
  ultimately show ?case
    using item_events_scoped [OF ok, of n g] by (simp add: guard_run_append)
qed simp

lemma NewCanonicalResponse_ok:
  assumes "NewCanonicalResponse ref model items completion usage = Inr response"
  obtains g where "\<not> responseID_IsZero (rr_SwobuID ref)" "completion_validate completion = Inr ()"
    "validate_response_items 0 items newMatcher = Inr g"
    "cmp_class completion = CompletionCompleted \<longrightarrow> RequireSettled g = Inr ()"
  using assms
  by (auto simp: NewCanonicalResponse_def validateResponseItems_def early_return split: if_splits)

text \<open>The events around the items.\<close>

lemma stream_opens:
  assumes "\<not> responseID_IsZero (rr_SwobuID ref)" and "rid \<noteq> []"
  shows "\<exists>r. validate_events codec (number_events x rid 1
      [(EventEnvelopeStart, envelope_start EnvResponse model),
       (EventResponseIdentity, response_identity ref)]) NewValidatedResponseStream = Inr r \<and>
    stream_open rid [] newMatcher 3 r"
  using assms
  by (simp add: vs_apply_def vs_dispatch_def applyEnvelopeStart_def applyResponseIdentity_def
      foreign_def NewValidatedResponseStream_def stream_open_def response_scoped_def)

lemma stream_closes:
  assumes "stream_open rid a g seq r" and "completedItems a = Inr items"
    and "completion_validate completion = Inr ()"
    and "cmp_class completion = CompletionCompleted \<longrightarrow> RequireSettled g = Inr ()"
  shows "\<exists>r'. validate_events codec (number_events x rid seq
      [(EventUsage, usage_payload usage), (EventFinish, finish_payload completion),
       (EventEnvelopeEnd, envelope_end EnvResponse EnvelopeStatusCompleted)]) r = Inr r' \<and>
    vs_responseDone r'"
  using assms
  by (simp add: vs_apply_def vs_dispatch_def applyUsage_def applyFinish_def applyEnvelopeEnd_def
      requireOpenResponseEvent_def validateTerminalStatus_def foreign_def stream_open_def
      response_scoped_def)

lemma synthesized_validates:
  assumes "NewCanonicalResponse ref model items completion usage = Inr response"
    and "list_all (wf_item codec) items" and "length items < 2 ^ 32"
  shows "\<exists>r. validate_events codec
      (SynthesizeResponseEnvelopeEvents x ref model items completion usage)
      NewValidatedResponseStream = Inr r \<and> vs_responseDone r"
proof -
  let ?rid = "x @ '':response:0''" and ?n = "3 + int (length (items_events 0 items))"
  obtain g where g: "\<not> responseID_IsZero (rr_SwobuID ref)" "completion_validate completion = Inr ()"
    "validate_response_items 0 items newMatcher = Inr g"
    "cmp_class completion = CompletionCompleted \<longrightarrow> RequireSettled g = Inr ()"
    using assms(1) by (rule NewCanonicalResponse_ok)
  obtain r where r: "validate_events codec (number_events x ?rid 1
      [(EventEnvelopeStart, envelope_start EnvResponse model),
       (EventResponseIdentity, response_identity ref)]) NewValidatedResponseStream = Inr r"
    "stream_open ?rid [] newMatcher 3 r"
    using stream_opens [OF g(1), of ?rid codec x model] by auto
  have run: "asm_run codec (items_events 0 items) [] = Inr (at_ordinals streamed_state items)"
    using run_items_events [OF assms(2) validate_response_items_sound [OF g(3)], of "[]"] assms(3)
    by simp
  have "list_all item_scoped (items_events 0 items)" "guard_run (items_events 0 items) newMatcher = Inr g"
    using items_events_scoped [OF g(3)] assms(3) by simp_all
  from item_list_validates [OF r(2) this(1) run this(2), of x] obtain r1 where
    r1: "validate_events codec (number_events x ?rid 3 (items_events 0 items)) r = Inr r1"
    "stream_open ?rid (at_ordinals streamed_state items) g ?n r1" by auto
  from stream_closes [OF r1(2) completedItems_streamed [OF assms(3)] g(2,4), of codec x usage]
  obtain r2 where r2: "validate_events codec (number_events x ?rid ?n
      [(EventUsage, usage_payload usage), (EventFinish, finish_payload completion),
       (EventEnvelopeEnd, envelope_end EnvResponse EnvelopeStatusCompleted)]) r1 = Inr r2"
    "vs_responseDone r2" by auto
  have "SynthesizeResponseEnvelopeEvents x ref model items completion usage =
      number_events x ?rid 1 [(EventEnvelopeStart, envelope_start EnvResponse model),
       (EventResponseIdentity, response_identity ref)] @
      number_events x ?rid 3 (items_events 0 items) @ number_events x ?rid ?n
      [(EventUsage, usage_payload usage), (EventFinish, finish_payload completion),
       (EventEnvelopeEnd, envelope_end EnvResponse EnvelopeStatusCompleted)]"
    unfolding SynthesizeResponseEnvelopeEvents_def response_events_def number_events_append
    by simp
  then show ?thesis using r(1) r1(1) r2 by (simp only: validate_events_append and_then_Inr) simp
qed

text \<open>A projector inside the response.\<close>

definition projecting :: "string \<Rightarrow> ResponseProjector \<Rightarrow> bool" where
  "projecting rid p \<longleftrightarrow> pj_err p = None \<and> \<not> pj_ended p \<and> pj_started p \<and> pj_openResponse p = rid"

lemma project_item_list:
  assumes "projecting rid p" and "list_all item_scoped evs"
    and "asm_run codec evs (rf_assembler (pj_fold p)) = Inr a'"
  shows "project_loop codec (number_events x rid seq evs @ rest) last' p =
    project_loop codec rest last' (p\<lparr>pj_fold := (pj_fold p)\<lparr>rf_assembler := a'\<rparr>\<rparr>)"
  using assms
proof (induction evs arbitrary: p seq)
  case (Cons ev evs)
  then obtain kind ie where ev: "ev = (kind, item_event ie)"
    by (cases ev rule: item_scoped.cases) auto
  then obtain a1 where run: "asm_apply codec kind ie (rf_assembler (pj_fold p)) = Inr a1"
      "asm_run codec evs a1 = Inr a'"
    using Cons.prems by (auto simp: result_simps)
  let ?p = "p\<lparr>pj_fold := (pj_fold p)\<lparr>rf_assembler := a1\<rparr>\<rparr>"
  have step: "project_loop codec (number_events x rid seq (ev # evs) @ rest) last' p =
      project_loop codec (number_events x rid (seq + 1) evs @ rest) last' ?p"
    using Cons.prems run(1)
    by (auto simp: ev projector_Apply_def project_event_def fold_apply_def fold_item_def
        projecting_def)
  have "project_loop codec (number_events x rid (seq + 1) evs @ rest) last' ?p =
      project_loop codec rest last' (?p\<lparr>pj_fold := (pj_fold ?p)\<lparr>rf_assembler := a'\<rparr>\<rparr>)"
    by (rule Cons.IH) (use Cons.prems run(2) in \<open>simp_all add: projecting_def\<close>)
  then show ?case by (simp add: step)
qed auto

lemma synthesized_projects:
  assumes "NewCanonicalResponse ref model items completion usage = Inr response"
    and "list_all (wf_item codec) items" and "length items < 2 ^ 32"
    and "rb_SwobuID b = [] \<or> rb_SwobuID b = rr_SwobuID ref"
  shows "ProjectStream codec (SynthesizeResponseEnvelopeEvents x ref model items completion usage)
    last' b = Inr response"
proof -
  let ?rid = "x @ '':response:0''" and ?n = "3 + int (length (items_events 0 items))"
  define f where "f = newResponseFold\<lparr>rf_model := model, rf_response := ref\<rparr>"
  define p where "p = (NewResponseProjector b)\<lparr>pj_openResponse := ?rid, pj_started := True,
    pj_fold := f\<rparr>"
  obtain g where g: "validate_response_items 0 items newMatcher = Inr g"
    using assms(1) by (rule NewCanonicalResponse_ok)
  have run: "asm_run codec (items_events 0 items) (rf_assembler (pj_fold p)) =
      Inr (at_ordinals streamed_state items)"
    using run_items_events [OF assms(2) validate_response_items_sound [OF g], of "[]"] assms(3)
    by (simp add: p_def f_def newResponseFold_def)
  have scoped: "list_all item_scoped (items_events 0 items)"
    using items_events_scoped [OF g] assms(3) by simp
  have p: "projecting ?rid p" by (simp add: projecting_def p_def NewResponseProjector_def)
  have "ProjectStream codec (SynthesizeResponseEnvelopeEvents x ref model items completion usage)
      last' b = project_loop codec (number_events x ?rid 3 (items_events 0 items) @
      number_events x ?rid ?n [(EventUsage, usage_payload usage), (EventFinish, finish_payload completion),
       (EventEnvelopeEnd, envelope_end EnvResponse EnvelopeStatusCompleted)]) last' p"
    using assms(4)
    by (auto simp: ProjectStream_def SynthesizeResponseEnvelopeEvents_def response_events_def
        number_events_append projector_Apply_def project_event_def fold_start_def fold_apply_def
        p_def f_def NewResponseProjector_def response_scoped_def algebra_simps)
  also have "\<dots> = responseOutput (f\<lparr>rf_assembler := at_ordinals streamed_state items,
      rf_usage := usage, rf_completion := completion\<rparr>)"
    unfolding project_item_list [OF p scoped run]
    by (simp add: projector_Apply_def project_event_def fold_apply_def projector_Done_def
        p_def NewResponseProjector_def response_scoped_def)
  also have "\<dots> = NewCanonicalResponse ref model items completion usage"
    using assms(3) by (simp add: responseOutput_def completedItems_streamed f_def)
  finally show ?thesis using assms(1) by simp
qed

text \<open>
  C31: a buffered response survives its own stream. A response accepted by
  \<open>NewCanonicalResponse\<close>, whose items are as their constructors build them, is turned by
  \<open>SynthesizeResponseEnvelopeEvents\<close> into events that \<open>ValidatedResponseStream\<close> accepts one by one
  up to a completed end, and that \<open>ProjectStream\<close> folds back into exactly the same response.
\<close>

theorem synthesize_roundtrip:
  assumes "NewCanonicalResponse ref model items completion usage = Inr response"
    and "list_all (wf_item codec) items" and "length items < 2 ^ 32"
    and "rb_SwobuID b = [] \<or> rb_SwobuID b = rr_SwobuID ref"
  shows "(\<exists>r. validate_events codec
        (SynthesizeResponseEnvelopeEvents x ref model items completion usage)
        NewValidatedResponseStream = Inr r \<and> vs_responseDone r) \<and>
    ProjectStream codec (SynthesizeResponseEnvelopeEvents x ref model items completion usage)
      last' b = Inr response"
  using synthesized_validates [OF assms(1-3)] synthesized_projects [OF assms] by blast

definition sample_codec :: json_codec where
  "sample_codec = \<lparr>json_decode = (\<lambda>s. if s = ''{}'' then Inr (JObject [])
     else Inl (Errorf ''invalid character'' [])), json_quote = (\<lambda>s. [CHR 0x22] @ s @ [CHR 0x22])\<rparr>"

definition sample_ref :: ResponseRef where
  "sample_ref = \<lparr>rr_SwobuID = ''resp'', rr_Responses = None, rr_Interactions = None\<rparr>"

definition sample_message :: CanonicalItem where
  "sample_message = message_item \<lparr>mi_role = MessageRoleAssistant,
     mi_content = [text_part ''hello'' [], text_part ''world'' []], mi_scope = ContextScopeHistory\<rparr>"

definition sample_completion :: Completion where
  "sample_completion = \<lparr>cmp_class = CompletionCompleted, cmp_reason = ''stop''\<rparr>"

definition sample_binding :: ResponseBinding where
  "sample_binding = \<lparr>rb_SwobuID = ''resp'', rb_TargetID = ''t'', rb_TargetVersion = 1\<rparr>"

definition sample_response :: CanonicalResponse where
  "sample_response = \<lparr>cr_response = sample_ref, cr_model = ''gpt'',
     cr_items = [sample_message, sample_call ''a''], cr_completion = sample_completion,
     cr_usage = NewUnknownTokenUsage\<rparr>"

lemma sample_response_ok:
  "NewCanonicalResponse sample_ref ''gpt'' [sample_message, sample_call ''a''] sample_completion
     NewUnknownTokenUsage = Inr sample_response"
  by code_simp

lemma sample_items_wf: "list_all (wf_item sample_codec) [sample_message, sample_call ''a'']"
  by (simp add: sample_message_def sample_call_def sample_codec_def key_IsZero_def
      ParseJSONObject_def)

theorem synthesize_roundtrip_witness:
  "ProjectStream sample_codec (SynthesizeResponseEnvelopeEvents ''x'' sample_ref ''gpt''
     [sample_message, sample_call ''a''] sample_completion NewUnknownTokenUsage)
     ContextCanceled sample_binding = Inr sample_response"
  using synthesize_roundtrip [OF sample_response_ok sample_items_wf, of sample_binding "''x''"
    ContextCanceled]
  by (simp add: sample_binding_def sample_ref_def)

section \<open>Incremental and retained projection\<close>

text \<open>
  An event between the start and the end of a response envelope: an item event, or an event of
  the response with its envelope id.
\<close>

definition inner_event :: "string \<Rightarrow> Event \<Rightarrow> bool" where
  "inner_event rid e \<longleftrightarrow>
     ev_Kind e \<noteq> EventEnvelopeStart \<and> ev_Kind e \<noteq> EventEnvelopeEnd \<and>
     (case ev_Payload e of item_event _ \<Rightarrow> True | _ \<Rightarrow> ev_EnvID e = rid)"

lemma read_closed_inner:
  assumes "list_all (inner_event rid) mid" and "rid \<noteq> []" and "eo_parent st = []"
  shows "read_closed (mid @ rest) last' kind [(rid, st)] rid =
    read_closed rest last' kind [(rid, st\<lparr>eo_evs := eo_evs st @ mid\<rparr>)] rid"
  using assms
proof (induction mid arbitrary: st)
  case (Cons e mid)
  have "read_closed ((e # mid) @ rest) last' kind [(rid, st)] rid =
      read_closed (mid @ rest) last' kind [(rid, st\<lparr>eo_evs := eo_evs st @ [e]\<rparr>)] rid"
    using Cons.prems
    by (cases "ev_Kind e"; cases "ev_Payload e")
      (simp_all add: inner_event_def appendToAncestors_def)
  then show ?case using Cons by simp
qed simp

lemma project_loop_inner:
  assumes "list_all (inner_event rid) mid" and "projecting rid p" and "pj_binding p = []"
    and "ev_Kind fin = EventEnvelopeEnd" and "ev_EnvID fin = rid"
    and "ev_Payload fin = envelope_end EnvResponse EnvelopeStatusCompleted"
  shows "project_loop codec (mid @ [fin]) last' p =
    and_then (project_closed codec (mid @ [fin]) (pj_fold p)) responseOutput"
  using assms
proof (induction mid arbitrary: p)
  case Nil
  then show ?case
    by (simp add: projector_Apply_def project_event_def projector_Done_def projecting_def)
next
  case (Cons e mid)
  have kind: "ev_Kind e \<noteq> EventEnvelopeStart" "ev_Kind e \<noteq> EventEnvelopeEnd"
    using Cons.prems(1) by (simp_all add: inner_event_def)
  show ?case
  proof (cases "fold_apply codec e (pj_fold p)")
    case (Inl err)
    then show ?thesis
      using Cons.prems kind
      by (cases "ev_Kind e"; cases "ev_Payload e")
        (simp_all add: projector_Apply_def project_event_def projecting_def fold_apply_def)
  next
    case (Inr f)
    then have "\<not> (\<exists>k. ev_Kind e = EventOther k)" by (auto simp: fold_apply_def)
    moreover from Inr have "project_event codec e p = Inr (p\<lparr>pj_fold := f\<rparr>)"
      using Cons.prems(3) kind calculation
      by (cases "ev_Kind e"; cases "ev_Payload e") (simp_all add: project_event_def fold_apply_def)
    moreover have "project_loop codec (mid @ [fin]) last' (p\<lparr>pj_fold := f\<rparr>) =
        and_then (project_closed codec (mid @ [fin]) f) responseOutput"
      using Cons.IH [of "p\<lparr>pj_fold := f\<rparr>"] Cons.prems by (simp add: projecting_def)
    ultimately show ?thesis
      using Inr Cons.prems(2) kind
      by (cases "ev_Kind e") (simp_all add: projector_Apply_def projecting_def)
  qed
qed

text \<open>What the validator knows of an accepted stream.\<close>

lemma vs_apply_inner:
  assumes "vs_apply codec e r = Inr r'" and "vs_responseID r = rid" and "rid \<noteq> []"
    and "\<not> vs_responseDone r'" and "response_scoped (ev_Kind e) \<longrightarrow> ev_EnvID e \<noteq> []"
  shows "inner_event rid e \<and> vs_responseID r' = rid"
proof -
  define r0 where "r0 = (if ev_Seq e > 0 then r\<lparr>vs_lastSequence := ev_Seq e\<rparr> else r)"
  have d: "vs_dispatch codec e r0 = Inr r'" and id: "vs_responseID r0 = rid"
    using assms(1,2) by (auto simp: vs_apply_def r0_def split: if_splits)
  show ?thesis
    using d assms(3-5) id
    by (cases "ev_Kind e"; cases "ev_Payload e")
      (auto simp: vs_dispatch_def inner_event_def applyEnvelopeStart_def applyResponseIdentity_def
        applyItemEvent_def applyUsage_def applyFinish_def applyError_def applyEnvelopeEnd_def
        requireOpenResponseEvent_def foreign_def response_scoped_def early_return split: if_splits)
qed

lemma vs_done_stays: "vs_responseDone r \<Longrightarrow> vs_apply codec e r \<noteq> Inr r'"
  by (simp add: vs_apply_def)

lemma validated_inner:
  assumes "validate_events codec (mid @ [fin]) r = Inr r'" and "vs_responseID r = rid" and "rid \<noteq> []"
    and "\<forall>e \<in> set (mid @ [fin]). response_scoped (ev_Kind e) \<longrightarrow> ev_EnvID e \<noteq> []"
  shows "list_all (inner_event rid) mid \<and>
    (\<exists>r1. vs_responseID r1 = rid \<and> vs_apply codec fin r1 = Inr r')"
  using assms
proof (induction mid arbitrary: r)
  case (Cons e mid)
  then obtain r1 where r1: "vs_apply codec e r = Inr r1" "validate_events codec (mid @ [fin]) r1 = Inr r'"
    by (auto simp: result_simps)
  obtain e' r2 where "vs_apply codec e' r1 = Inr r2"
    using r1(2) by (cases "mid @ [fin]") (auto simp: result_simps)
  then have "\<not> vs_responseDone r1" using vs_done_stays by blast
  then have "inner_event rid e \<and> vs_responseID r1 = rid"
    using vs_apply_inner [OF r1(1) Cons.prems(2,3)] Cons.prems(4) by simp
  with Cons.IH [OF r1(2) _ Cons.prems(3)] Cons.prems(4) show ?case by simp
qed (auto simp: result_simps)

lemma validated_start:
  assumes "vs_apply codec e NewValidatedResponseStream = Inr r"
  shows "\<exists>model. ev_Kind e = EventEnvelopeStart \<and> ev_EnvID e \<noteq> [] \<and> ev_ParentID e = [] \<and>
    ev_Payload e = envelope_start EnvResponse model \<and> vs_responseID r = ev_EnvID e"
  using assms
  by (cases "ev_Kind e"; cases "ev_Payload e")
    (auto simp: vs_apply_def vs_dispatch_def applyEnvelopeStart_def applyResponseIdentity_def
      applyItemEvent_def applyUsage_def applyFinish_def applyError_def applyEnvelopeEnd_def
      requireOpenResponseEvent_def NewValidatedResponseStream_def early_return split: if_splits)

lemma validated_end:
  assumes "vs_apply codec e r = Inr r'" and "ev_Kind e = EventEnvelopeEnd"
  shows "\<exists>status. ev_EnvID e = vs_responseID r \<and> ev_Payload e = envelope_end EnvResponse status"
  using assms
  by (cases "ev_Payload e")
    (auto simp: vs_apply_def vs_dispatch_def applyEnvelopeEnd_def early_return split: if_splits)

lemma validated_shape:
  assumes "validate_events codec (first # mid @ [fin]) NewValidatedResponseStream = Inr r"
    and "ev_Kind fin = EventEnvelopeEnd"
    and "ev_Payload fin = envelope_end kind EnvelopeStatusCompleted"
    and "\<forall>e \<in> set mid. response_scoped (ev_Kind e) \<longrightarrow> ev_EnvID e \<noteq> []"
  obtains rid model where "rid \<noteq> []" "ev_Kind first = EventEnvelopeStart" "ev_EnvID first = rid"
    "ev_ParentID first = []" "ev_Payload first = envelope_start EnvResponse model"
    "list_all (inner_event rid) mid" "ev_EnvID fin = rid" "kind = EnvResponse"
proof -
  obtain r1 where r1: "vs_apply codec first NewValidatedResponseStream = Inr r1"
    "validate_events codec (mid @ [fin]) r1 = Inr r" using assms(1) by (auto simp: result_simps)
  obtain model where first: "ev_Kind first = EventEnvelopeStart" "ev_EnvID first \<noteq> []"
    "ev_ParentID first = []" "ev_Payload first = envelope_start EnvResponse model"
    "vs_responseID r1 = ev_EnvID first" using validated_start [OF r1(1)] by blast
  obtain r2 r3 where r2: "validate_events codec mid r1 = Inr r2" "vs_apply codec fin r2 = Inr r3"
    using r1(2) by (auto simp: validate_events_append result_simps)
  then have "ev_EnvID fin = vs_responseID r2 \<and> kind = EnvResponse \<and> vs_responseID r2 \<noteq> []"
    using assms(2,3)
    by (auto simp: vs_apply_def vs_dispatch_def applyEnvelopeEnd_def early_return split: if_splits)
  then have fin: "kind = EnvResponse" "ev_EnvID fin \<noteq> []" by auto
  have "list_all (inner_event (ev_EnvID first)) mid" "ev_EnvID fin = ev_EnvID first"
    using validated_inner [OF r1(2) first(5) first(2)] assms(2,4) fin validated_end [of codec fin]
    by auto
  with first fin that show ?thesis by metis
qed

lemma ReadClosedEnvelope_response:
  assumes "rid \<noteq> []" and "ev_Kind first = EventEnvelopeStart" and "ev_EnvID first = rid"
    and "ev_ParentID first = []" and "ev_Payload first = envelope_start EnvResponse model"
    and "list_all (inner_event rid) mid" and "ev_Kind fin = EventEnvelopeEnd"
    and "ev_EnvID fin = rid" and "ev_Payload fin = envelope_end EnvResponse status"
  shows "ReadClosedEnvelope (first # mid @ [fin]) last' EnvResponse =
    Some (Inr \<lparr>ce_ID = rid, ce_Kind = EnvResponse, ce_Events = first # mid @ [fin]\<rparr>)"
proof -
  have "ReadClosedEnvelope (first # mid @ [fin]) last' EnvResponse =
      read_closed (mid @ [fin]) last' EnvResponse
        [(rid, \<lparr>eo_kind = EnvResponse, eo_parent = [], eo_evs = [first]\<rparr>)] rid"
    using assms by (simp add: ReadClosedEnvelope_def appendToAncestors_def)
  also have "\<dots> = Some (Inr \<lparr>ce_ID = rid, ce_Kind = EnvResponse, ce_Events = first # mid @ [fin]\<rparr>)"
    using assms(1,7-9) by (simp add: read_closed_inner [OF assms(6,1)] appendToAncestors_def)
  finally show ?thesis .
qed

text \<open>
  C30: the incremental projector is the retained projection. On a stream that the validator
  accepts to a completed end, whose response events carry their envelope id, the projector
  without a binding returns what \<open>ReadClosedEnvelope\<close> followed by \<open>ProjectResponse\<close> returns, error
  or response, and the retained reader returns.
\<close>

theorem projector_equivalence:
  assumes "validate_events codec (first # mid @ [fin]) NewValidatedResponseStream = Inr r"
    and "ev_Kind fin = EventEnvelopeEnd"
    and "ev_Payload fin = envelope_end kind EnvelopeStatusCompleted"
    and "\<forall>e \<in> set mid. response_scoped (ev_Kind e) \<longrightarrow> ev_EnvID e \<noteq> []"
    and "rb_SwobuID b = []"
  shows "\<exists>closed. ReadClosedEnvelope (first # mid @ [fin]) last' EnvResponse = Some (Inr closed) \<and>
    ProjectStream codec (first # mid @ [fin]) last' b = ProjectResponse codec closed"
proof -
  obtain rid model where s: "rid \<noteq> []" "ev_Kind first = EventEnvelopeStart" "ev_EnvID first = rid"
    "ev_ParentID first = []" "ev_Payload first = envelope_start EnvResponse model"
    "list_all (inner_event rid) mid" "ev_EnvID fin = rid" "kind = EnvResponse"
    using assms(1-4) by (rule validated_shape)
  define p where "p = (NewResponseProjector b)\<lparr>pj_openResponse := rid, pj_started := True,
    pj_fold := newResponseFold\<lparr>rf_model := model\<rparr>\<rparr>"
  have "ProjectStream codec (first # mid @ [fin]) last' b = project_loop codec (mid @ [fin]) last' p"
    using s
    by (simp add: ProjectStream_def projector_Apply_def project_event_def fold_start_def p_def
        NewResponseProjector_def)
  also have "\<dots> = and_then (project_closed codec (mid @ [fin]) (pj_fold p)) responseOutput"
    using assms(2,3,5) s
    by (intro project_loop_inner [OF s(6)])
      (simp_all add: p_def projecting_def NewResponseProjector_def)
  also have "\<dots> = ProjectResponse codec
      \<lparr>ce_ID = rid, ce_Kind = EnvResponse, ce_Events = first # mid @ [fin]\<rparr>"
    using s by (simp add: ProjectResponse_def fold_start_def p_def)
  finally show ?thesis
    using ReadClosedEnvelope_response [OF s(1-6) assms(2) s(7)] assms(3) s(8) by blast
qed

definition sample_zero_binding :: ResponseBinding where
  "sample_zero_binding = \<lparr>rb_SwobuID = [], rb_TargetID = [], rb_TargetVersion = 0\<rparr>"

definition sample_event :: "EventKind \<Rightarrow> string \<Rightarrow> Payload \<Rightarrow> Event" where
  "sample_event kind rid payload = \<lparr>ev_ExchangeID = ''x'', ev_Seq = 0, ev_Kind = kind,
     ev_EnvID = rid, ev_ParentID = [], ev_Payload = payload, ev_NativeID = []\<rparr>"

abbreviation sample_first :: Event where
  "sample_first \<equiv> sample_event EventEnvelopeStart ''r'' (envelope_start EnvResponse ''gpt'')"

abbreviation sample_fin :: Event where
  "sample_fin \<equiv>
     sample_event EventEnvelopeEnd ''r'' (envelope_end EnvResponse EnvelopeStatusCompleted)"

definition sample_mid :: "string \<Rightarrow> Event list" where
  "sample_mid rid = [sample_event EventResponseIdentity rid (response_identity sample_ref),
     sample_event EventFinish rid (finish_payload sample_completion)]"

lemma sample_stream_ok:
  "is_ok (validate_events sample_codec (sample_first # sample_mid ''r'' @ [sample_fin])
     NewValidatedResponseStream)"
  by code_simp

theorem projector_equivalence_witness:
  "\<exists>closed. ReadClosedEnvelope (sample_first # sample_mid ''r'' @ [sample_fin]) ContextCanceled
       EnvResponse = Some (Inr closed) \<and>
     is_ok (ProjectStream sample_codec (sample_first # sample_mid ''r'' @ [sample_fin])
       ContextCanceled sample_zero_binding) \<and>
     ProjectStream sample_codec (sample_first # sample_mid ''r'' @ [sample_fin])
       ContextCanceled sample_zero_binding = ProjectResponse sample_codec closed"
proof -
  obtain r where r: "validate_events sample_codec (sample_first # sample_mid ''r'' @ [sample_fin])
      NewValidatedResponseStream = Inr r" using sample_stream_ok by (auto simp: is_ok_iff)
  have "is_ok (ProjectStream sample_codec (sample_first # sample_mid ''r'' @ [sample_fin])
      ContextCanceled sample_zero_binding)" by code_simp
  moreover have "ev_Kind sample_fin = EventEnvelopeEnd"
    "ev_Payload sample_fin = envelope_end EnvResponse EnvelopeStatusCompleted"
    "\<forall>e \<in> set (sample_mid ''r''). response_scoped (ev_Kind e) \<longrightarrow> ev_EnvID e \<noteq> []"
    "rb_SwobuID sample_zero_binding = []"
    by (simp_all add: sample_event_def sample_mid_def sample_zero_binding_def)
  ultimately show ?thesis using projector_equivalence [OF r, of EnvResponse] by blast
qed

text \<open>
  The envelope ids matter: the validator accepts response events without one, the incremental
  projector folds them, and the retained reader drops them, so that the two projections differ.
\<close>

lemma projections_differ:
  "is_ok (validate_events sample_codec (sample_first # sample_mid [] @ [sample_fin])
     NewValidatedResponseStream) \<and>
   is_ok (ProjectStream sample_codec (sample_first # sample_mid [] @ [sample_fin]) ContextCanceled
     sample_zero_binding) \<and>
   (case ReadClosedEnvelope (sample_first # sample_mid [] @ [sample_fin]) ContextCanceled EnvResponse of
      Some (Inr closed) \<Rightarrow> \<not> is_ok (ProjectResponse sample_codec closed) | _ \<Rightarrow> False)"
  by code_simp

text \<open>
  Completion order and item order: the validator correlates effects in the order in which items
  complete, the response constructor in the order of the items. A search call that completes
  before its result, at a later position, is delivered whole and cannot be projected.
\<close>

definition sample_search_call :: CanonicalItem where
  "sample_search_call = tool_call_item \<lparr>tc_callID = ''s'', tc_tool = WebSearchToolKey,
     tc_input = web_search_input \<lparr>wc_Action = WebSearchActionSearch, wc_Queries = [''q''],
       wc_URL = None, wc_Match = None, wc_interactionsReplay = []\<rparr>,
     tc_discoveryExecutor = DiscoveryExecutorNone, tc_responsesNullCallID = False,
     tc_responsesWebSearch = None\<rparr>"

definition sample_search_result :: CanonicalItem where
  "sample_search_result = tool_result_item \<lparr>tr_callID = ''s'',
     tr_branch = search_result \<lparr>wr_sources = [], wr_failure = None, wr_interactionsReplay = []\<rparr>\<rparr>"

definition sample_item_event :: "EventKind \<Rightarrow> 32 word \<Rightarrow> ItemEventPayload \<Rightarrow> Event" where
  "sample_item_event kind ordinal payload = sample_event kind []
     (item_event \<lparr>ie_item = ordinal, ie_part = 0, ie_payload = Some payload\<rparr>)"

definition sample_crossed :: "Event list" where
  "sample_crossed = [sample_first,
     sample_event EventResponseIdentity ''r'' (response_identity sample_ref),
     sample_item_event EventItemStart 1 (item_start (tool_call_start ''s'' WebSearchToolKey)),
     sample_item_event EventItemCompleted 1 (item_completed sample_search_call),
     sample_item_event EventItemCompleted 0 (item_completed sample_search_result),
     sample_event EventFinish ''r'' (finish_payload sample_completion), sample_fin]"

lemma crossed_items_admitted:
  "is_ok (validate_events sample_codec sample_crossed NewValidatedResponseStream) \<and>
   \<not> is_ok (ProjectStream sample_codec sample_crossed ContextCanceled sample_zero_binding)"
  by code_simp

section \<open>What is checkpointed is what was streamed\<close>

text \<open>The item events of a stream, and the text and arguments streamed at an ordinal.\<close>

definition item_trace :: "Event list \<Rightarrow> (EventKind \<times> ItemEvent) list" where
  "item_trace es = List.map_filter
     (\<lambda>e. case ev_Payload e of item_event ie \<Rightarrow> Some (ev_Kind e, ie) | _ \<Rightarrow> None) es"

fun text_of :: "32 word \<Rightarrow> 32 word \<Rightarrow> EventKind \<times> ItemEvent \<Rightarrow> string" where
  "text_of n k (kind, ie) =
     (if kind = EventTextDelta \<and> ie_item ie = n \<and> ie_part ie = k
      then (case ie_payload ie of Some (text_delta t) \<Rightarrow> t | _ \<Rightarrow> []) else [])"

fun args_of :: "32 word \<Rightarrow> EventKind \<times> ItemEvent \<Rightarrow> string" where
  "args_of n (kind, ie) =
     (if kind = EventArgsDelta \<and> ie_item ie = n
      then (case ie_payload ie of Some (args_delta t) \<Rightarrow> t | _ \<Rightarrow> []) else [])"

definition text_deltas :: "32 word \<Rightarrow> 32 word \<Rightarrow> (EventKind \<times> ItemEvent) list \<Rightarrow> string" where
  "text_deltas n k tr = concat (map (text_of n k) tr)"

definition args_deltas :: "32 word \<Rightarrow> (EventKind \<times> ItemEvent) list \<Rightarrow> string" where
  "args_deltas n tr = concat (map (args_of n) tr)"

lemma deltas_snoc [simp]:
  "text_deltas n k (tr @ [x]) = text_deltas n k tr @ text_of n k x"
  "args_deltas n (tr @ [x]) = args_deltas n tr @ args_of n x"
  by (simp_all add: text_deltas_def args_deltas_def)

lemma deltas_Nil [simp]: "text_deltas n k [] = []" "args_deltas n [] = []"
  by (simp_all add: text_deltas_def args_deltas_def)

lemma validate_tool_call_completed [simp]:
  "validate_tool_call codec (s\<lparr>ss_completed := x\<rparr>) c = validate_tool_call codec s c"
  by (cases "ss_start s"; cases "tc_input c") (simp_all add: validate_tool_call_def)

lemma validateCompletedItem_completed [simp]:
  "validateCompletedItem codec (s\<lparr>ss_completed := x\<rparr>) item = validateCompletedItem codec s item"
  by (cases item) (simp_all add: validateCompletedItem_def validate_message_def)

text \<open>One item's accumulator against the trace.\<close>

definition state_ok ::
    "json_codec \<Rightarrow> (EventKind \<times> ItemEvent) list \<Rightarrow> 32 word \<Rightarrow> itemStreamState option \<Rightarrow> bool" where
  "state_ok codec tr n st =
     (case st of
        None \<Rightarrow> args_deltas n tr = [] \<and> (\<forall>k. text_deltas n k tr = [])
      | Some s \<Rightarrow> args_deltas n tr = ss_args s \<and>
          (\<forall>k. text_deltas n k tr =
             (case map_of (ss_parts s) k of None \<Rightarrow> [] | Some p \<Rightarrow> ps_text p)) \<and>
          (case ss_completed s of
             None \<Rightarrow> True | Some item \<Rightarrow> validateCompletedItem codec s item = Inr ()))"

definition completed_kept ::
    "(EventKind \<times> ItemEvent) list \<Rightarrow> itemStreamAssembler \<Rightarrow> bool" where
  "completed_kept tr a \<longleftrightarrow> (\<forall>ie item. (EventItemCompleted, ie) \<in> set tr \<longrightarrow>
     ie_payload ie = Some (item_completed item) \<longrightarrow>
     (\<exists>s. map_of a (ie_item ie) = Some s \<and> ss_completed s = Some item))"

definition trace_ok ::
    "json_codec \<Rightarrow> (EventKind \<times> ItemEvent) list \<Rightarrow> itemStreamAssembler \<Rightarrow> bool" where
  "trace_ok codec tr a \<longleftrightarrow> (\<forall>n. state_ok codec tr n (map_of a n)) \<and> completed_kept tr a"

lemma trace_ok_update:
  assumes "trace_ok codec tr a" and "\<forall>m k. m \<noteq> n \<longrightarrow> text_of m k x = [] \<and> args_of m x = []"
    and "state_ok codec (tr @ [x]) n (Some s)"
    and "\<forall>s0. map_of a n = Some s0 \<longrightarrow> ss_completed s0 = None"
    and "fst x = EventItemCompleted \<longrightarrow> (\<forall>item. ie_payload (snd x) = Some (item_completed item) \<longrightarrow>
       ie_item (snd x) = n \<and> ss_completed s = Some item)"
  shows "trace_ok codec (tr @ [x]) (AList.update n s a)"
  unfolding trace_ok_def
proof (intro conjI allI)
  fix m
  show "state_ok codec (tr @ [x]) m (map_of (AList.update n s a) m)"
  proof (cases "m = n")
    case False
    moreover have "state_ok codec tr m (map_of a m)" using assms(1) unfolding trace_ok_def by metis
    ultimately show ?thesis
      using assms(2) by (simp add: state_ok_def update_conv' cong: option.case_cong)
  qed (use assms(3) in \<open>simp add: update_conv'\<close>)
  have "ie_item ie \<noteq> n \<and> (\<exists>s. map_of a (ie_item ie) = Some s \<and> ss_completed s = Some item)"
    if "(EventItemCompleted, ie) \<in> set tr" "ie_payload ie = Some (item_completed item)" for ie item
    using assms(1,4) that unfolding trace_ok_def completed_kept_def
    by (metis option.distinct(1))
  then show "completed_kept (tr @ [x]) (AList.update n s a)"
    using assms(5) by (cases x) (auto simp: completed_kept_def update_conv')
qed

lemma asm_start_trace:
  assumes "trace_ok codec tr a" and "asm_start ie a = Inr a'"
  shows "trace_ok codec (tr @ [(EventItemStart, ie)]) a'"
proof -
  obtain start where s: "map_of a (ie_item ie) = None"
    "a' = AList.update (ie_item ie) (zeroItemState\<lparr>ss_start := start\<rparr>) a"
    using assms(2) by (auto simp: asm_start_def split: option.splits ItemEventPayload.splits if_splits)
  have "state_ok codec tr (ie_item ie) None" using assms(1) s(1) unfolding trace_ok_def by metis
  then have "state_ok codec (tr @ [(EventItemStart, ie)]) (ie_item ie)
      (Some (zeroItemState\<lparr>ss_start := start\<rparr>))"
    by (simp add: state_ok_def zeroItemState_def)
  then show ?thesis unfolding s(2) by (intro trace_ok_update assms(1)) (simp_all add: s(1))
qed

lemma asm_args_trace:
  assumes "trace_ok codec tr a" and "asm_args ie a = Inr a'"
  shows "trace_ok codec (tr @ [(EventArgsDelta, ie)]) a'"
proof -
  obtain delta s where s: "ie_payload ie = Some (args_delta delta)"
    "map_of a (ie_item ie) = Some s" "ss_completed s = None"
    "a' = AList.update (ie_item ie) (s\<lparr>ss_args := ss_args s @ delta\<rparr>) a"
    using assms(2) by (auto simp: asm_args_def split: option.splits ItemEventPayload.splits if_splits)
  have "state_ok codec tr (ie_item ie) (Some s)" using assms(1) s(2) unfolding trace_ok_def by metis
  then have "state_ok codec (tr @ [(EventArgsDelta, ie)]) (ie_item ie)
      (Some (s\<lparr>ss_args := ss_args s @ delta\<rparr>))"
    using s(1,3) by (simp add: state_ok_def)
  then show ?thesis
    unfolding s(4) by (intro trace_ok_update assms(1)) (simp_all add: s(2,3))
qed

lemma content_open_eq:
  "content_open st = Some s \<longleftrightarrow> st = Some s \<and> ss_completed s = None \<and>
     start_Kind (ss_start s) = ItemKindMessage"
  by (auto simp: content_open_def split: option.splits)

lemma asm_content_trace:
  assumes "trace_ok codec tr a" and "asm_content ie a = Inr a'"
  shows "trace_ok codec (tr @ [(EventContentStart, ie)]) a'"
proof -
  obtain kind s where s: "map_of a (ie_item ie) = Some s" "ss_completed s = None"
    "map_of (ss_parts s) (ie_part ie) = None"
    "a' = AList.update (ie_item ie) (s\<lparr>ss_parts := AList.update (ie_part ie)
       \<lparr>ps_kind = kind, ps_text = []\<rparr> (ss_parts s)\<rparr>) a"
    using assms(2) by (auto simp: asm_content_def content_open_eq
        split: option.splits ItemEventPayload.splits if_splits)
  have "state_ok codec tr (ie_item ie) (Some s)" using assms(1) s(1) unfolding trace_ok_def by metis
  then have "state_ok codec (tr @ [(EventContentStart, ie)]) (ie_item ie)
      (Some (s\<lparr>ss_parts := AList.update (ie_part ie)
         \<lparr>ps_kind = kind, ps_text = []\<rparr> (ss_parts s)\<rparr>))"
    using s(2,3) by (simp add: state_ok_def update_conv')
  then show ?thesis
    unfolding s(4) by (intro trace_ok_update assms(1)) (simp_all add: s(1,2))
qed

lemma asm_text_trace:
  assumes "trace_ok codec tr a" and "asm_text ie a = Inr a'"
  shows "trace_ok codec (tr @ [(EventTextDelta, ie)]) a'"
proof -
  obtain delta part s where s: "map_of a (ie_item ie) = Some s" "ss_completed s = None"
    "ie_payload ie = Some (text_delta delta)" "map_of (ss_parts s) (ie_part ie) = Some part"
    "a' = AList.update (ie_item ie) (s\<lparr>ss_parts := AList.update (ie_part ie)
       (part\<lparr>ps_text := ps_text part @ delta\<rparr>) (ss_parts s)\<rparr>) a"
    using assms(2) by (auto simp: asm_text_def content_open_eq
        split: option.splits ItemEventPayload.splits if_splits)
  have "state_ok codec tr (ie_item ie) (Some s)" using assms(1) s(1) unfolding trace_ok_def by metis
  then have "state_ok codec (tr @ [(EventTextDelta, ie)]) (ie_item ie)
      (Some (s\<lparr>ss_parts := AList.update (ie_part ie)
         (part\<lparr>ps_text := ps_text part @ delta\<rparr>) (ss_parts s)\<rparr>))"
    using s(2-4) by (simp add: state_ok_def update_conv')
  then show ?thesis
    unfolding s(5) by (intro trace_ok_update assms(1)) (simp_all add: s(1,2))
qed

lemma asm_completed_trace:
  assumes "trace_ok codec tr a" and "asm_completed codec ie a = Inr a'"
  shows "trace_ok codec (tr @ [(EventItemCompleted, ie)]) a'"
proof -
  obtain item where p: "ie_payload ie = Some (item_completed item)"
    using assms(2) by (auto simp: asm_completed_def split: option.splits ItemEventPayload.splits)
  obtain s where s: "ie_payload ie = Some (item_completed item)"
    "map_of a (ie_item ie) = Some s \<or> map_of a (ie_item ie) = None \<and> s = zeroItemState"
    "ss_completed s = None" "validateCompletedItem codec s item = Inr ()"
    "a' = AList.update (ie_item ie) (s\<lparr>ss_completed := Some item\<rparr>) a"
    using assms(2) by (cases "map_of a (ie_item ie)")
      (auto simp: asm_completed_def p early_return split: if_splits)
  have "state_ok codec tr (ie_item ie) (map_of a (ie_item ie))"
    using assms(1) unfolding trace_ok_def by metis
  then have "state_ok codec tr (ie_item ie) (Some s)"
    using s(2) by (auto simp: state_ok_def zeroItemState_def)
  then have "state_ok codec (tr @ [(EventItemCompleted, ie)]) (ie_item ie)
      (Some (s\<lparr>ss_completed := Some item\<rparr>))"
    using s(3,4) by (simp add: state_ok_def)
  moreover have "\<forall>s0. map_of a (ie_item ie) = Some s0 \<longrightarrow> ss_completed s0 = None"
    using s(2,3) by auto
  ultimately show ?thesis
    unfolding s(5) by (intro trace_ok_update assms(1)) (simp_all add: s(1))
qed

lemma asm_apply_trace:
  assumes "trace_ok codec tr a" and "asm_apply codec kind ie a = Inr a'"
  shows "trace_ok codec (tr @ [(kind, ie)]) a'"
  using assms asm_start_trace asm_args_trace asm_content_trace asm_text_trace asm_completed_trace
  by (cases kind) (auto simp: asm_apply_def split: if_splits)

lemma validate_events_trace:
  assumes "validate_events codec es NewValidatedResponseStream = Inr r"
  shows "(case vs_assembler r of None \<Rightarrow> item_trace es = [] \<and> vs_responseID r = []
    | Some a \<Rightarrow> trace_ok codec (item_trace es) a \<and> (vs_responseID r \<noteq> [] \<or> vs_responseDone r))"
  using assms
proof (induction es arbitrary: r rule: rev_induct)
  case Nil
  then show ?case by (auto simp: item_trace_def NewValidatedResponseStream_def List.map_filter_simps)
next
  case (snoc e es)
  then obtain r0 where r0: "validate_events codec es NewValidatedResponseStream = Inr r0"
    "vs_apply codec e r0 = Inr r" by (auto simp: validate_events_append result_simps)
  note IH = snoc.IH [OF r0(1)]
  define r1 where "r1 = (if ev_Seq e > 0 then r0\<lparr>vs_lastSequence := ev_Seq e\<rparr> else r0)"
  have d: "vs_dispatch codec e r1 = Inr r" and nd: "\<not> vs_responseDone r0"
    using r0(2) by (auto simp: vs_apply_def r1_def split: if_splits)
  have same: "vs_assembler r1 = vs_assembler r0" "vs_responseID r1 = vs_responseID r0"
    "vs_responseDone r1 = vs_responseDone r0" by (simp_all add: r1_def)
  have tr: "item_trace (es @ [e]) = item_trace es @
      (case ev_Payload e of item_event ie \<Rightarrow> [(ev_Kind e, ie)] | _ \<Rightarrow> [])"
    by (cases "ev_Payload e") (simp_all add: item_trace_def List.map_filter_simps List.map_filter_def)
  have empty: "trace_ok codec [] []"
    by (simp add: trace_ok_def state_ok_def completed_kept_def)
  show ?case
    using d IH nd same empty asm_apply_trace
    by (cases "ev_Kind e"; cases "ev_Payload e")
      (auto simp: tr vs_dispatch_def applyEnvelopeStart_def applyResponseIdentity_def
        applyItemEvent_def applyUsage_def applyFinish_def applyError_def applyEnvelopeEnd_def
        requireOpenResponseEvent_def early_return split: if_splits option.splits)
qed

lemma part_mismatch_ok:
  "part_mismatch parts j content = Inr () \<Longrightarrow> k < length content \<Longrightarrow>
   \<exists>p. map_of parts (of_nat (j + k)) = Some p \<and>
     (\<forall>t. part_Text (content ! k) = Some t \<longrightarrow> t = ps_text p)"
proof (induction content arbitrary: j k)
  case (Cons x content)
  then show ?case
    by (cases k) (fastforce split: option.splits if_splits)+
qed simp

text \<open>What the streamed deltas of an item must add up to.\<close>

fun streamed_as :: "json_codec \<Rightarrow> 32 word \<Rightarrow> (EventKind \<times> ItemEvent) list \<Rightarrow> CanonicalItem \<Rightarrow> bool" where
  "streamed_as codec n tr (message_item m) \<longleftrightarrow>
     (\<forall>k < length (mi_content m). \<forall>t. part_Text (mi_content m ! k) = Some t \<longrightarrow>
        t = text_deltas n (of_nat k) tr)"
| "streamed_as codec n tr (tool_call_item c) \<longleftrightarrow>
     (case tc_input c of
        object_input object \<Rightarrow> ParseJSONObject codec (args_deltas n tr) = Inr object
      | text_input t \<Rightarrow> t = args_deltas n tr
      | web_search_input _ \<Rightarrow> args_deltas n tr = []
      | zeroInput \<Rightarrow> False)"
| "streamed_as codec n tr _ \<longleftrightarrow> True"

lemma validateCompletedItem_streamed:
  assumes "validateCompletedItem codec s item = Inr ()" and "args_deltas n tr = ss_args s"
    and "\<forall>k. text_deltas n k tr = (case map_of (ss_parts s) k of None \<Rightarrow> [] | Some p \<Rightarrow> ps_text p)"
  shows "streamed_as codec n tr item"
proof (cases item)
  case (message_item m)
  then have "part_mismatch (ss_parts s) 0 (mi_content m) = Inr ()"
    using assms(1) by (auto simp: validateCompletedItem_def validate_message_def atomic_kind_def
        split: if_splits)
  then show ?thesis
    using part_mismatch_ok [of "ss_parts s" 0 "mi_content m"] assms(3) message_item by fastforce
next
  case (tool_call_item c)
  then show ?thesis
    using assms(1,2)
    by (cases "ss_start s"; cases "tc_input c")
      (auto simp: validateCompletedItem_def validate_tool_call_def atomic_kind_def split: if_splits)
qed auto

lemma completed_streamed:
  assumes "validate_events codec es NewValidatedResponseStream = Inr r"
    and "e \<in> set es" and "ev_Kind e = EventItemCompleted"
    and "ev_Payload e = item_event ie" and "ie_payload ie = Some (item_completed item)"
  shows "streamed_as codec (ie_item ie) (item_trace es) item"
proof -
  have mem: "(EventItemCompleted, ie) \<in> set (item_trace es)"
    using assms(2-4) by (force simp: item_trace_def List.map_filter_def)
  then obtain a where a: "trace_ok codec (item_trace es) a"
    using validate_events_trace [OF assms(1)] by (cases "vs_assembler r") auto
  then obtain s where s: "map_of a (ie_item ie) = Some s" "ss_completed s = Some item"
    using mem assms(5) unfolding trace_ok_def completed_kept_def by blast
  have "state_ok codec (item_trace es) (ie_item ie) (Some s)"
    using a s(1) unfolding trace_ok_def by metis
  then show ?thesis
    using s(2) by (intro validateCompletedItem_streamed [of codec s]) (simp_all add: state_ok_def)
qed

text \<open>
  C29: what is checkpointed is what was streamed. In every stream the validator accepts, the text
  of each content part of a completed message is the concatenation of the text deltas streamed
  at its position, and the input of a completed tool call is the text, or the canonical form of
  the object, whose arguments were streamed at its position; a web-search call has none.
\<close>

theorem checkpoint_matches_stream:
  assumes "validate_events codec es NewValidatedResponseStream = Inr r"
    and "e \<in> set es" and "ev_Kind e = EventItemCompleted"
    and "ev_Payload e = item_event ie" and "ie_payload ie = Some (item_completed item)"
  shows "streamed_as codec (ie_item ie) (item_trace es) item"
  using assms by (rule completed_streamed)

definition sample_streamed :: "Event list" where
  "sample_streamed = [sample_first,
     sample_event EventResponseIdentity ''r'' (response_identity sample_ref),
     sample_item_event EventItemStart 0 (item_start (message_start MessageRoleAssistant)),
     sample_item_event EventContentStart 0 (content_start ''text''),
     sample_item_event EventTextDelta 0 (text_delta ''he''),
     sample_item_event EventTextDelta 0 (text_delta ''llo''),
     sample_item_event EventItemCompleted 0 (item_completed (message_item
       \<lparr>mi_role = MessageRoleAssistant, mi_content = [text_part ''hello'' []],
        mi_scope = ContextScopeHistory\<rparr>)),
     sample_event EventFinish ''r'' (finish_payload sample_completion), sample_fin]"

lemma sample_streamed_ok:
  "is_ok (validate_events sample_codec sample_streamed NewValidatedResponseStream)"
  by code_simp

theorem checkpoint_matches_stream_witness:
  "streamed_as sample_codec 0 (item_trace sample_streamed) (message_item
     \<lparr>mi_role = MessageRoleAssistant, mi_content = [text_part ''hello'' []],
      mi_scope = ContextScopeHistory\<rparr>)"
proof -
  obtain r where r: "validate_events sample_codec sample_streamed NewValidatedResponseStream = Inr r"
    using sample_streamed_ok by (auto simp: is_ok_iff)
  show ?thesis
    using checkpoint_matches_stream [OF r, of "sample_streamed ! 6"
      "\<lparr>ie_item = 0, ie_part = 0, ie_payload = Some (item_completed (message_item
       \<lparr>mi_role = MessageRoleAssistant, mi_content = [text_part ''hello'' []],
        mi_scope = ContextScopeHistory\<rparr>))\<rparr>"]
    by (simp add: sample_streamed_def sample_item_event_def sample_event_def)
qed

end
