(* ===== verification/History_Fingerprint.thy ===== *)
theory History_Fingerprint
  imports Affinity Canonical_JSON
begin

text \<open>
  Client-visible history fingerprints (\<^verbatim>\<open>src/internal/domain/historyfingerprint/history.go\<close>): the
  chain that identifies a sequence of completed turns, and the deterministic material of a JSON
  value. SHA-256 is the parameter \<open>hash\<close>; the length-prefixed frames are those of
  \<open>Affinity\<close>, whose \<^verbatim>\<open>writeFrame\<close> this package repeats.
\<close>

section \<open>Leaves and histories\<close>

type_synonym Scheme = string

definition requestDomain :: string where "requestDomain = ''swobu/history-request''"
definition responseDomain :: string where "responseDomain = ''swobu/history-response''"
definition historyDomain :: string where "historyDomain = ''swobu/history''"

record History =
  hs_scheme :: Scheme
  hs_sum :: string

record RequestLeaf =
  rl_scheme :: Scheme
  rl_sum :: string

record ResponseLeaf =
  sl_scheme :: Scheme
  sl_sum :: string

definition leafSum :: "(string \<Rightarrow> string) \<Rightarrow> string \<Rightarrow> Scheme \<Rightarrow> string \<Rightarrow> string" where
  "leafSum hash domain scheme material = hash (frames [domain, scheme, material])"

definition FingerprintRequest :: "(string \<Rightarrow> string) \<Rightarrow> Scheme \<Rightarrow> string \<Rightarrow> go_error + RequestLeaf" where
  "FingerprintRequest hash scheme material =
     (if scheme = [] then Inl (Errorf ''history fingerprint scheme is empty'' [])
      else Inr \<lparr>rl_scheme = scheme, rl_sum = leafSum hash requestDomain scheme material\<rparr>)"

definition FingerprintResponse :: "(string \<Rightarrow> string) \<Rightarrow> Scheme \<Rightarrow> string \<Rightarrow> go_error + ResponseLeaf" where
  "FingerprintResponse hash scheme material =
     (if scheme = [] then Inl (Errorf ''history fingerprint scheme is empty'' [])
      else Inr \<lparr>sl_scheme = scheme, sl_sum = leafSum hash responseDomain scheme material\<rparr>)"

definition WithAdditionalMaterial ::
    "(string \<Rightarrow> string) \<Rightarrow> RequestLeaf \<Rightarrow> string \<Rightarrow> go_error + RequestLeaf" where
  "WithAdditionalMaterial hash r material =
     (if rl_scheme r = [] \<or> rl_sum r = zeroKey
      then Inl (Errorf ''history request fingerprint is invalid'' [])
      else FingerprintRequest hash (rl_scheme r) (frames [rl_sum r, material]))"

text \<open>The byte string that is hashed for one step of the chain.\<close>

definition advance_material :: "History option \<Rightarrow> RequestLeaf \<Rightarrow> ResponseLeaf \<Rightarrow> string" where
  "advance_material previous request response =
     frames ([historyDomain, rl_scheme request] @
       (case previous of None \<Rightarrow> [[CHR 0x00]] | Some h \<Rightarrow> [[CHR 0x01], hs_sum h]) @
       [rl_sum request, sl_sum response])"

definition Advance ::
    "(string \<Rightarrow> string) \<Rightarrow> History option \<Rightarrow> RequestLeaf \<Rightarrow> ResponseLeaf \<Rightarrow> go_error + History" where
  "Advance hash previous request response =
     (if rl_scheme request = [] \<or> sl_scheme response = [] \<or>
         rl_sum request = zeroKey \<or> sl_sum response = zeroKey
      then Inl (Errorf ''history fingerprint leaf is invalid'' [])
      else if rl_scheme request \<noteq> sl_scheme response
      then Inl (Errorf ''history fingerprint schemes do not match'' [])
      else and_then
        (case previous of
           None \<Rightarrow> Inr ()
         | Some h \<Rightarrow>
             if hs_scheme h = [] \<or> hs_sum h = zeroKey
             then Inl (Errorf ''previous history fingerprint is invalid'' [])
             else if hs_scheme h \<noteq> rl_scheme request
             then Inl (Errorf ''previous history fingerprint scheme does not match'' [])
             else Inr ())
        (\<lambda>_. Inr \<lparr>hs_scheme = rl_scheme request,
                  hs_sum = hash (advance_material previous request response)\<rparr>))"

section \<open>Material of a JSON value\<close>

definition appendSize :: "string \<Rightarrow> nat \<Rightarrow> string" where
  "appendSize dst n = dst @ big_endian 8 n"

definition appendSliceFrame :: "string \<Rightarrow> string \<Rightarrow> string" where
  "appendSliceFrame dst value = appendSize dst (length value) @ value"

definition appendByteFrame :: "string \<Rightarrow> char \<Rightarrow> string" where
  "appendByteFrame dst value = appendSliceFrame dst [value]"

text \<open>The map an object decodes to, as its members in key order: of repeated keys the last one counts.\<close>

definition object_members :: "(string \<times> 'a) list \<Rightarrow> (string \<times> 'a) list" where
  "object_members ms = sort_key fst (fold (\<lambda>(k, v). AList.update k v) ms [])"

lemma set_fold_update: "set (fold (\<lambda>(k, v). AList.update k v) ms m) \<subseteq> set m \<union> set ms"
proof (induction ms arbitrary: m)
  case (Cons x ms)
  have "set (AList.update (fst x) (snd x) m) \<subseteq> insert x (set m)"
    by (induction m) (auto split: if_splits)
  then show ?case using Cons [of "AList.update (fst x) (snd x) m"] by (auto simp: case_prod_beta)
qed simp

lemma object_members_subset: "set (object_members ms) \<subseteq> set ms"
  using set_fold_update [of ms "[]"] by (simp add: object_members_def)

lemma member_size: "m \<in> set ms \<Longrightarrow> size (snd m) < size (JObject ms)"
  by (induction ms) (auto simp: size_prod_def split: prod.splits)

function appendJSONValue :: "string \<Rightarrow> json \<Rightarrow> string" where
  "appendJSONValue dst JNull = appendByteFrame dst (CHR ''n'')"
| "appendJSONValue dst (JBool b) = appendByteFrame dst (if b then CHR ''t'' else CHR ''f'')"
| "appendJSONValue dst (JString s) = appendSliceFrame (appendByteFrame dst (CHR ''s'')) s"
| "appendJSONValue dst (JNumber n) = appendSliceFrame (appendByteFrame dst (CHR ''#'')) n"
| "appendJSONValue dst (JArray vs) =
     fold (\<lambda>item dst. appendJSONValue dst item) vs
       (appendSize (appendByteFrame dst (CHR ''['')) (length vs))"
| "appendJSONValue dst (JObject ms) =
     fold (\<lambda>(key, v) dst. appendJSONValue (appendSliceFrame dst key) v) (object_members ms)
       (appendSize (appendByteFrame dst (CHR ''{'')) (length (object_members ms)))"
  by pat_completeness auto
termination
proof (relation "measure (\<lambda>(dst, v). size v)", goal_cases)
  case (2 dst vs v d)
  then show ?case by (auto dest: size_list_estimation' [of _ _ _ size])
next
  case (3 dst ms m d k v)
  then have "m \<in> set ms" using object_members_subset by blast
  then have "size (snd m) < size (JObject ms)" by (rule member_size)
  then show ?case using 3 by (cases m) auto
qed simp

text \<open>
  The results of the successive \<^verbatim>\<open>Decode\<close> calls on the input, up to its end, are the parameter
  \<open>decodes\<close>; numbers keep their spelling (\<^verbatim>\<open>UseNumber\<close>).
\<close>

definition FrameJSONValue :: "(string \<Rightarrow> (go_error + json) list) \<Rightarrow> string \<Rightarrow> go_error + string" where
  "FrameJSONValue decodes raw =
     (case decodes raw of
        [] \<Rightarrow> Inl (Errorf ''EOF'' [])
      | Inl e # _ \<Rightarrow> Inl e
      | [Inr v] \<Rightarrow> Inr (appendJSONValue [] v)
      | Inr v # Inr _ # _ \<Rightarrow> Inl (Errorf ''history fingerprint JSON contains multiple values'' [])
      | Inr v # Inl e # _ \<Rightarrow> Inl e)"

section \<open>The material identifies the value\<close>

text \<open>A JSON value with the members of its objects in key order, and its frames.\<close>

function json_norm :: "json \<Rightarrow> json" where
  "json_norm JNull = JNull"
| "json_norm (JBool b) = JBool b"
| "json_norm (JString s) = JString s"
| "json_norm (JNumber n) = JNumber n"
| "json_norm (JArray vs) = JArray (map json_norm vs)"
| "json_norm (JObject ms) = JObject (object_members (map (\<lambda>m. (fst m, json_norm (snd m))) ms))"
  by pat_completeness auto
termination
proof (relation "measure size", goal_cases)
  case (2 vs v)
  then show ?case by (auto dest: size_list_estimation' [of _ _ _ size])
qed (auto dest: member_size)

function json_frames :: "json \<Rightarrow> string" where
  "json_frames JNull = writeFrame ''n''"
| "json_frames (JBool b) = writeFrame (if b then ''t'' else ''f'')"
| "json_frames (JString s) = writeFrame ''s'' @ writeFrame s"
| "json_frames (JNumber n) = writeFrame ''#'' @ writeFrame n"
| "json_frames (JArray vs) = writeFrame ''['' @ big_endian 8 (length vs) @ concat (map json_frames vs)"
| "json_frames (JObject ms) = writeFrame ''{'' @ big_endian 8 (length ms) @
     concat (map (\<lambda>m. writeFrame (fst m) @ json_frames (snd m)) ms)"
  by pat_completeness auto
termination
proof (relation "measure size", goal_cases)
  case (2 vs v)
  then show ?case by (auto dest: size_list_estimation' [of _ _ _ size])
qed (auto dest: member_size)

lemma append_frames:
  "appendSliceFrame dst v = dst @ writeFrame v" "appendByteFrame dst c = dst @ writeFrame [c]"
  by (simp_all add: appendByteFrame_def appendSliceFrame_def appendSize_def writeFrame_def)

lemma insort_key_map:
  "insort_key fst (fst x, f (snd x)) (map (\<lambda>m. (fst m, f (snd m))) ms) =
   map (\<lambda>m. (fst m, f (snd m))) (insort_key fst x ms)"
  by (induction ms) auto

lemma sort_key_map:
  "sort_key fst (map (\<lambda>m. (fst m, f (snd m))) ms) = map (\<lambda>m. (fst m, f (snd m))) (sort_key fst ms)"
  by (induction ms) (simp_all add: insort_key_map)

lemma update_map_values:
  "AList.update k (f v) (map (\<lambda>m. (fst m, f (snd m))) ms) =
   map (\<lambda>m. (fst m, f (snd m))) (AList.update k v ms)"
  by (induction ms) auto

lemma object_members_map:
  "object_members (map (\<lambda>m. (fst m, f (snd m))) ms) = map (\<lambda>m. (fst m, f (snd m))) (object_members ms)"
proof -
  have "fold (\<lambda>(k, v). AList.update k v) (map (\<lambda>m. (fst m, f (snd m))) ms)
      (map (\<lambda>m. (fst m, f (snd m))) acc) =
    map (\<lambda>m. (fst m, f (snd m))) (fold (\<lambda>(k, v). AList.update k v) ms acc)" for acc
    by (induction ms arbitrary: acc) (auto simp: update_map_values case_prod_beta)
  from this [of "[]"] show ?thesis by (simp add: object_members_def sort_key_map)
qed

lemma fold_append_concat:
  "\<forall>x \<in> set xs. \<forall>dst. g x dst = dst @ f x \<Longrightarrow> fold g xs dst = dst @ concat (map f xs)"
  by (induction xs arbitrary: dst) auto

lemma appendJSONValue_frames: "appendJSONValue dst v = dst @ json_frames (json_norm v)"
proof (induction dst v rule: appendJSONValue.induct)
  case (5 dst vs)
  have "fold (\<lambda>item dst. appendJSONValue dst item) vs d =
      d @ concat (map (\<lambda>v. json_frames (json_norm v)) vs)" for d
    by (rule fold_append_concat) (use 5 in auto)
  then show ?case by (simp add: append_frames appendSize_def comp_def)
next
  case (6 dst ms)
  have "fold (\<lambda>(key, v) dst. appendJSONValue (appendSliceFrame dst key) v) (object_members ms) d =
      d @ concat (map (\<lambda>m. writeFrame (fst m) @ json_frames (json_norm (snd m))) (object_members ms))" for d
    by (rule fold_append_concat) (use 6 in \<open>auto simp: append_frames\<close>)
  then show ?case by (simp add: append_frames appendSize_def object_members_map comp_def)
qed (simp_all add: append_frames)

text \<open>Every string and every container of the value has a length of 64 bits.\<close>

fun json_fits :: "json \<Rightarrow> bool" where
  "json_fits (JString s) \<longleftrightarrow> addressable s"
| "json_fits (JNumber n) \<longleftrightarrow> addressable n"
| "json_fits (JArray vs) \<longleftrightarrow> length vs < 2 ^ 64 \<and> list_all json_fits vs"
| "json_fits (JObject ms) \<longleftrightarrow>
     length ms < 2 ^ 64 \<and> list_all (\<lambda>m. addressable (fst m) \<and> json_fits (snd m)) ms"
| "json_fits _ \<longleftrightarrow> True"

lemma writeFrame_same [simp]: "addressable v \<Longrightarrow> addressable w \<Longrightarrow>
   writeFrame v @ r = writeFrame w @ s \<longleftrightarrow> v = w \<and> r = s"
  using writeFrame_inj by blast

lemma size_same: "m < 2 ^ 64 \<Longrightarrow> n < 2 ^ 64 \<Longrightarrow> big_endian 8 m = big_endian 8 n \<longleftrightarrow> m = n"
  using big_endian_inj [of 8 m n] by auto

lemma addressable_single [simp]: "addressable [c]" by (simp add: addressable_def)

lemma concat_map_inj:
  assumes "\<forall>v \<in> set vs. \<forall>w r s. P w \<longrightarrow> f v @ r = f w @ s \<longrightarrow> v = w \<and> r = s"
    and "list_all P ws" and "length vs = length ws"
    and "concat (map f vs) @ r = concat (map f ws) @ s"
  shows "vs = ws \<and> r = s"
  using assms(3,1,2,4)
proof (induction vs ws arbitrary: r s rule: list_induct2)
  case (Cons v vs w ws)
  have "f v @ concat (map f vs) @ r = f w @ concat (map f ws) @ s" using Cons.prems(3) by simp
  then have h: "v = w" "concat (map f vs) @ r = concat (map f ws) @ s"
    using Cons.prems(1) [rule_format, of v w] Cons.prems(2) by simp_all
  have "\<forall>v \<in> set vs. \<forall>w r s. P w \<longrightarrow> f v @ r = f w @ s \<longrightarrow> v = w \<and> r = s"
    using Cons.prems(1) by (meson list.set_intros(2))
  moreover have "list_all P ws" using Cons.prems(2) by simp
  ultimately have "vs = ws \<and> r = s" using h(2) by (rule Cons.IH)
  then show ?case using h(1) by blast
qed simp

lemma json_frames_inj:
  "json_fits v \<Longrightarrow> json_fits w \<Longrightarrow> json_frames v @ r = json_frames w @ s \<Longrightarrow> v = w \<and> r = s"
proof (induction v arbitrary: w r s rule: json_frames.induct)
  case (5 vs)
  show ?case
  proof (cases w)
    case (JArray ws)
    have l: "length vs = length ws" "concat (map json_frames vs) @ r = concat (map json_frames ws) @ s"
      using 5(2-4) JArray by (simp_all add: size_same)
    have "\<forall>v \<in> set vs. \<forall>w r s. json_fits w \<longrightarrow> json_frames v @ r = json_frames w @ s \<longrightarrow> v = w \<and> r = s"
      using 5(1,2) by (simp add: list_all_iff)
    moreover have "list_all json_fits ws" using 5(3) JArray by simp
    ultimately have "vs = ws \<and> r = s" using l by (rule concat_map_inj)
    then show ?thesis using JArray by blast
  qed (use 5(4) in \<open>auto split: if_splits\<close>)
next
  case (6 ms)
  show ?case
  proof (cases w)
    case (JObject ns)
    let ?f = "\<lambda>m. writeFrame (fst m) @ json_frames (snd m)"
    let ?P = "\<lambda>m. addressable (fst m) \<and> json_fits (snd m)"
    have l: "length ms = length ns" "concat (map ?f ms) @ r = concat (map ?f ns) @ s"
      using 6(2-4) JObject by (simp_all add: size_same)
    have "\<forall>m \<in> set ms. \<forall>n r s. ?P n \<longrightarrow> ?f m @ r = ?f n @ s \<longrightarrow> m = n \<and> r = s"
    proof (intro ballI allI impI)
      fix m n r s
      assume m: "m \<in> set ms" and n: "?P n" and eq: "?f m @ r = ?f n @ s"
      have "addressable (fst m)" "json_fits (snd m)" using m 6(2) by (auto simp: list_all_iff)
      then show "m = n \<and> r = s" using eq n 6(1) [OF m, of "snd n" r s] by (auto simp: prod_eq_iff)
    qed
    moreover have "list_all ?P ns" using 6(3) JObject by simp
    ultimately have "ms = ns \<and> r = s" using l by (rule concat_map_inj)
    then show ?thesis using JObject by blast
  qed (use 6(4) in \<open>auto split: if_splits\<close>)
qed (case_tac w; auto split: if_splits)+

lemma json_fits_norm: "json_fits v \<Longrightarrow> json_fits (json_norm v)"
proof (induction v rule: json_norm.induct)
  case (6 ms)
  let ?ns = "map (\<lambda>m. (fst m, json_norm (snd m))) ms"
  have "length (fold (\<lambda>(k, v). AList.update k v) ns m) \<le> length m + length ns" for ns m :: "(string \<times> json) list"
  proof (induction ns arbitrary: m)
    case (Cons n ns)
    have "length (AList.update (fst n) (snd n) m) \<le> Suc (length m)" by (induction m) auto
    then show ?case using Cons [of "AList.update (fst n) (snd n) m"] by (auto simp: case_prod_beta)
  qed simp
  from this [of ?ns "[]"] have "length (object_members ?ns) \<le> length ms" by (simp add: object_members_def)
  moreover have "\<forall>m \<in> set ?ns. addressable (fst m) \<and> json_fits (snd m)"
    using 6 by (auto simp: list_all_iff)
  then have "\<forall>m \<in> set (object_members ?ns). addressable (fst m) \<and> json_fits (snd m)"
    using object_members_subset by blast
  ultimately show ?case using 6(2) by (simp add: list_all_iff)
qed (auto simp: list_all_iff)

text \<open>
  The framed material of a JSON value identifies it. Two inputs that decode to one value
  each get the same bytes exactly when the values agree up to the order of object members
  (of repeated members the last counts): kinds, array order, keys and number spellings are kept
  apart, and no other value can produce the same bytes.
\<close>

theorem FrameJSONValue_identifies:
  assumes "decodes raw = [Inr v]" and "decodes raw' = [Inr w]" and "json_fits v" and "json_fits w"
  shows "FrameJSONValue decodes raw = FrameJSONValue decodes raw' \<longleftrightarrow> json_norm v = json_norm w"
proof -
  have "json_frames (json_norm v) = json_frames (json_norm w) \<longleftrightarrow> json_norm v = json_norm w"
    using json_frames_inj [of "json_norm v" "json_norm w" "[]" "[]"] json_fits_norm assms(3,4) by auto
  then show ?thesis using assms(1,2) by (simp add: FrameJSONValue_def appendJSONValue_frames)
qed

definition sample_decodes :: "string \<Rightarrow> (go_error + json) list" where
  "sample_decodes raw =
     (if raw = ''1'' then [Inr (JObject [(''a'', JNumber ''1''), (''b'', JNull)])]
      else [Inr (JObject [(''b'', JNull), (''a'', JNumber ''1'')])])"

theorem FrameJSONValue_identifies_witness:
  "FrameJSONValue sample_decodes ''1'' = FrameJSONValue sample_decodes ''2'' \<longleftrightarrow>
   json_norm (JObject [(''a'', JNumber ''1''), (''b'', JNull)]) =
   json_norm (JObject [(''b'', JNull), (''a'', JNumber ''1'')])"
  using FrameJSONValue_identifies [of sample_decodes "''1''" _ "''2''"]
  by (simp add: sample_decodes_def addressable_def)

section \<open>The chain identifies the history\<close>

text \<open>
  Fingerprinting a sequence of turns, each the material of a request and of its response, and
  the byte strings that are hashed on the way.
\<close>

definition advance_turn ::
    "(string \<Rightarrow> string) \<Rightarrow> Scheme \<Rightarrow> History option \<Rightarrow> string \<times> string \<Rightarrow> go_error + History" where
  "advance_turn hash scheme previous turn =
     and_then (FingerprintRequest hash scheme (fst turn)) (\<lambda>request.
       and_then (FingerprintResponse hash scheme (snd turn)) (\<lambda>response.
         Advance hash previous request response))"

fun advance_turns ::
    "(string \<Rightarrow> string) \<Rightarrow> Scheme \<Rightarrow> History option \<Rightarrow> (string \<times> string) list \<Rightarrow>
     go_error + History option" where
  "advance_turns hash scheme previous [] = Inr previous"
| "advance_turns hash scheme previous (t # ts) =
     and_then (advance_turn hash scheme previous t) (\<lambda>h. advance_turns hash scheme (Some h) ts)"

definition leaves :: "(string \<Rightarrow> string) \<Rightarrow> Scheme \<Rightarrow> string \<times> string \<Rightarrow> RequestLeaf \<times> ResponseLeaf" where
  "leaves hash scheme turn =
     (\<lparr>rl_scheme = scheme, rl_sum = leafSum hash requestDomain scheme (fst turn)\<rparr>,
      \<lparr>sl_scheme = scheme, sl_sum = leafSum hash responseDomain scheme (snd turn)\<rparr>)"

definition turn_inputs :: "(string \<Rightarrow> string) \<Rightarrow> Scheme \<Rightarrow> History option \<Rightarrow> string \<times> string \<Rightarrow> string list" where
  "turn_inputs hash scheme previous turn =
     [frames [requestDomain, scheme, fst turn], frames [responseDomain, scheme, snd turn],
      advance_material previous (fst (leaves hash scheme turn)) (snd (leaves hash scheme turn))]"

fun chain_inputs ::
    "(string \<Rightarrow> string) \<Rightarrow> Scheme \<Rightarrow> History option \<Rightarrow> (string \<times> string) list \<Rightarrow> string list" where
  "chain_inputs hash scheme previous [] = []"
| "chain_inputs hash scheme previous (t # ts) = turn_inputs hash scheme previous t @
     (case advance_turn hash scheme previous t of
        Inl _ \<Rightarrow> [] | Inr h \<Rightarrow> chain_inputs hash scheme (Some h) ts)"

lemma advance_turn_ok:
  "advance_turn hash scheme previous turn = Inr h \<Longrightarrow>
   h = \<lparr>hs_scheme = scheme, hs_sum = hash (advance_material previous
     (fst (leaves hash scheme turn)) (snd (leaves hash scheme turn)))\<rparr>"
  by (auto simp: advance_turn_def FingerprintRequest_def FingerprintResponse_def Advance_def leaves_def
      split: if_splits option.splits)

lemma advance_turns_snoc:
  "advance_turns hash scheme previous (ts @ [t]) =
     and_then (advance_turns hash scheme previous ts) (\<lambda>p.
       and_then (advance_turn hash scheme p t) (\<lambda>h. Inr (Some h)))"
  by (induction ts arbitrary: previous) (auto simp: and_then_def split: sum.splits)

lemma chain_inputs_snoc:
  "advance_turns hash scheme previous ts = Inr p \<Longrightarrow>
   chain_inputs hash scheme previous (ts @ [t]) =
     chain_inputs hash scheme previous ts @ turn_inputs hash scheme p t"
proof (induction ts arbitrary: previous)
  case Nil
  then show ?case by (auto split: sum.splits)
next
  case (Cons x ts)
  then show ?case by (cases "advance_turn hash scheme previous x") auto
qed

text \<open>One step of the chain determines what went into it.\<close>

lemma turn_inputs_inj:
  assumes inj: "inj_on hash (set (turn_inputs hash scheme p t) \<union> set (turn_inputs hash scheme' q u))"
    and digest: "\<forall>x. length (hash x) = 32"
    and fits: "\<forall>v \<in> {scheme, scheme', fst t, snd t, fst u, snd u}. addressable v"
    and sums: "\<forall>h. p = Some h \<or> q = Some h \<longrightarrow> addressable (hs_sum h)"
    and eq: "hash (advance_material p (fst (leaves hash scheme t)) (snd (leaves hash scheme t))) =
      hash (advance_material q (fst (leaves hash scheme' u)) (snd (leaves hash scheme' u)))"
  shows "scheme = scheme' \<and> t = u \<and> map_option hs_sum p = map_option hs_sum q"
proof -
  have d: "addressable (hash x)" for x using digest by (simp add: addressable_def)
  have c: "addressable historyDomain" "addressable requestDomain" "addressable responseDomain"
    by (simp_all add: addressable_def historyDomain_def requestDomain_def responseDomain_def)
  have "advance_material p (fst (leaves hash scheme t)) (snd (leaves hash scheme t)) =
      advance_material q (fst (leaves hash scheme' u)) (snd (leaves hash scheme' u))"
    using inj eq by (rule inj_onD) (simp_all add: turn_inputs_def)
  then have "[historyDomain, scheme] @
      (case p of None \<Rightarrow> [[CHR 0x00]] | Some h \<Rightarrow> [[CHR 0x01], hs_sum h]) @
      [leafSum hash requestDomain scheme (fst t), leafSum hash responseDomain scheme (snd t)] =
    [historyDomain, scheme'] @
      (case q of None \<Rightarrow> [[CHR 0x00]] | Some h \<Rightarrow> [[CHR 0x01], hs_sum h]) @
      [leafSum hash requestDomain scheme' (fst u), leafSum hash responseDomain scheme' (snd u)]"
    unfolding advance_material_def leaves_def prod.sel RequestLeaf.simps ResponseLeaf.simps
    by (rule frames_inj) (use d c fits sums in \<open>auto simp: leafSum_def split: option.splits\<close>)
  then have s: "scheme = scheme'" "map_option hs_sum p = map_option hs_sum q"
    and l: "hash (frames [requestDomain, scheme, fst t]) = hash (frames [requestDomain, scheme', fst u])"
      "hash (frames [responseDomain, scheme, snd t]) = hash (frames [responseDomain, scheme', snd u])"
    by (auto simp: leafSum_def split: option.splits)
  have "frames [requestDomain, scheme, fst t] = frames [requestDomain, scheme', fst u]"
    using inj l(1) by (rule inj_onD) (simp_all add: turn_inputs_def)
  then have "[requestDomain, scheme, fst t] = [requestDomain, scheme', fst u]"
    by (rule frames_inj) (use c fits in auto)
  moreover have "frames [responseDomain, scheme, snd t] = frames [responseDomain, scheme', snd u]"
    using inj l(2) by (rule inj_onD) (simp_all add: turn_inputs_def)
  then have "[responseDomain, scheme, snd t] = [responseDomain, scheme', snd u]"
    by (rule frames_inj) (use c fits in auto)
  ultimately show ?thesis using s by (simp add: prod_eq_iff)
qed

lemma advance_turns_last:
  assumes "advance_turns hash scheme None ts = Inr (Some h)"
  obtains us t p where "ts = us @ [t]" and "advance_turns hash scheme None us = Inr p"
    and "h = \<lparr>hs_scheme = scheme, hs_sum = hash (advance_material p
      (fst (leaves hash scheme t)) (snd (leaves hash scheme t)))\<rparr>"
proof (cases ts rule: rev_cases)
  case (snoc us t)
  with assms show ?thesis
    using that advance_turn_ok by (auto simp: advance_turns_snoc and_then_def split: sum.splits)
qed (use assms in simp)

lemma advance_turns_None: "advance_turns hash scheme None ts = Inr None \<Longrightarrow> ts = []"
  by (cases ts rule: rev_cases) (auto simp: advance_turns_snoc and_then_def split: sum.splits)

text \<open>
  C40: a history fingerprint identifies the ordered sequence of completed turns. If the hash does
  not collide on the byte strings that are hashed, two chains that end in the same fingerprint
  have the same scheme and the same request and response materials, turn by turn: no turn can
  be dropped, repeated, reordered or split differently, and requests are never confused with
  responses.
\<close>

theorem history_identifies:
  assumes "advance_turns hash scheme None ts = Inr (Some h)"
    and "advance_turns hash scheme' None us = Inr (Some h)"
    and "inj_on hash (set (chain_inputs hash scheme None ts) \<union> set (chain_inputs hash scheme' None us))"
    and "\<forall>x. length (hash x) = 32"
    and "\<forall>v \<in> {scheme, scheme'} \<union> fst ` set (ts @ us) \<union> snd ` set (ts @ us). addressable v"
  shows "scheme = scheme' \<and> ts = us"
  using assms(1-3,5)
proof (induction ts arbitrary: us h rule: rev_induct)
  case (snoc t ts)
  obtain p where p: "advance_turns hash scheme None ts = Inr p"
    and h: "h = \<lparr>hs_scheme = scheme, hs_sum = hash (advance_material p
      (fst (leaves hash scheme t)) (snd (leaves hash scheme t)))\<rparr>"
    using snoc.prems(1) by (rule advance_turns_last) auto
  obtain vs u q where us: "us = vs @ [u]" and q: "advance_turns hash scheme' None vs = Inr q"
    and h': "h = \<lparr>hs_scheme = scheme', hs_sum = hash (advance_material q
      (fst (leaves hash scheme' u)) (snd (leaves hash scheme' u)))\<rparr>"
    using snoc.prems(2) by (rule advance_turns_last)
  note inputs = chain_inputs_snoc [OF p] chain_inputs_snoc [OF q]
  have sums: "\<forall>h. p = Some h \<or> q = Some h \<longrightarrow> addressable (hs_sum h)"
    using p q assms(4) by (auto simp: addressable_def elim!: advance_turns_last)
  have "inj_on hash (set (turn_inputs hash scheme p t) \<union> set (turn_inputs hash scheme' q u))"
    by (rule inj_on_subset [OF snoc.prems(3)]) (auto simp: inputs us)
  then have same: "scheme = scheme' \<and> t = u \<and> map_option hs_sum p = map_option hs_sum q"
    by (rule turn_inputs_inj) (use assms(4) snoc.prems(4) us sums h h' in auto)
  have "ts = vs"
  proof (cases p)
    case None
    then have "q = None" using same by simp
    then show ?thesis using None p q advance_turns_None by metis
  next
    case (Some g)
    obtain g' where g': "q = Some g'" "hs_sum g = hs_sum g'" using same Some by (cases q) auto
    have "hs_scheme g = scheme" "hs_scheme g' = scheme'"
      using p q Some g'(1) by (auto elim!: advance_turns_last)
    then have "g = g'" using g'(2) same by (cases g; cases g') simp
    then have "scheme = scheme' \<and> ts = vs"
      using p q Some g'(1) snoc.prems(3,4)
      by (intro snoc.IH [of g]) (auto simp: inputs us elim!: inj_on_subset)
    then show ?thesis by blast
  qed
  then show ?case using same us by blast
qed simp

definition sample_digest :: "string \<Rightarrow> string" where
  "sample_digest s = (let t = replicate 31 (CHR 0x00) @ s
     in char_of (length s mod 256) # drop (length t - 31) t)"

lemma sample_digest_inj:
  "\<forall>x \<in> set (chain_inputs sample_digest ''s'' None [(''a'', ''bcd'')] @
        chain_inputs sample_digest ''s'' None [(''a'', ''xyz!'')]).
   \<forall>y \<in> set (chain_inputs sample_digest ''s'' None [(''a'', ''bcd'')] @
        chain_inputs sample_digest ''s'' None [(''a'', ''xyz!'')]).
     sample_digest x = sample_digest y \<longrightarrow> x = y"
  by code_simp

theorem history_identifies_witness:
  "advance_turns sample_digest ''s'' None [(''a'', ''bcd'')] \<noteq>
   advance_turns sample_digest ''s'' None [(''a'', ''xyz!'')]"
proof
  assume eq: "advance_turns sample_digest ''s'' None [(''a'', ''bcd'')] =
    advance_turns sample_digest ''s'' None [(''a'', ''xyz!'')]"
  have "is_ok (advance_turns sample_digest ''s'' None [(''a'', ''bcd'')])" by code_simp
  then obtain h where h: "advance_turns sample_digest ''s'' None [(''a'', ''bcd'')] = Inr (Some h)"
    by (auto simp: is_ok_iff and_then_def split: sum.splits)
  have "inj_on sample_digest (set (chain_inputs sample_digest ''s'' None [(''a'', ''bcd'')]) \<union>
      set (chain_inputs sample_digest ''s'' None [(''a'', ''xyz!'')]))"
    using sample_digest_inj unfolding set_append inj_on_def by blast
  moreover have "\<forall>x. length (sample_digest x) = 32" by (auto simp: sample_digest_def Let_def)
  ultimately show False
    using history_identifies [OF h eq [symmetric, unfolded h]] by (simp add: addressable_def)
qed

end
