(* ===== verification/Expiration_Heap.thy ===== *)
theory Expiration_Heap
  imports Prelude "HOL-Library.Multiset"
begin

text \<open>
  The expiration queue of the checkpoint store
  (\<^verbatim>\<open>expirationHeap\<close> of \<^verbatim>\<open>src/internal/continuity/store_memory.go\<close>): the operations \<^verbatim>\<open>Push\<close> and
  \<^verbatim>\<open>Pop\<close> of \<^verbatim>\<open>container/heap\<close> on a slice ordered by the key \<open>at\<close>. The locale
  \<open>expiration_queue\<close> is what the store relies on; the sift loops of the package are shown to
  provide it.
\<close>

section \<open>The operations\<close>

definition heap_swap :: "'a list \<Rightarrow> nat \<Rightarrow> nat \<Rightarrow> 'a list" where
  "heap_swap h i j = h[i := h ! j, j := h ! i]"

text \<open>
  \<^verbatim>\<open>up\<close>: the parent of an index is \<^verbatim>\<open>(j - 1) / 2\<close>; the root is its own parent, because the
  division truncates.
\<close>

function heap_up :: "('a \<Rightarrow> 'b :: linorder) \<Rightarrow> nat \<Rightarrow> 'a list \<Rightarrow> 'a list" where
  "heap_up at j h =
     (let i = (j - 1) div 2
      in if i = j \<or> \<not> at (h ! j) < at (h ! i) then h else heap_up at i (heap_swap h i j))"
  by pat_completeness auto
termination by (relation "measure (\<lambda>(at, j, h). j)") auto

function heap_down :: "('a \<Rightarrow> 'b :: linorder) \<Rightarrow> nat \<Rightarrow> nat \<Rightarrow> 'a list \<Rightarrow> 'a list" where
  "heap_down at i n h =
     (let j1 = 2 * i + 1
      in if j1 \<ge> n then h
         else let j = (if j1 + 1 < n \<and> at (h ! (j1 + 1)) < at (h ! j1) then j1 + 1 else j1)
              in if \<not> at (h ! j) < at (h ! i) then h else heap_down at j n (heap_swap h i j))"
  by pat_completeness auto
termination by (relation "measure (\<lambda>(at, i, n, h). n - i)") (auto simp: Let_def split: if_splits)

declare heap_up.simps [simp del] heap_down.simps [simp del]

definition heap_push :: "('a \<Rightarrow> 'b :: linorder) \<Rightarrow> 'a \<Rightarrow> 'a list \<Rightarrow> 'a list" where
  "heap_push at x h = heap_up at (length h) (h @ [x])"

text \<open>The popped element and the rest; callers check that the heap is not empty.\<close>

definition heap_pop :: "('a \<Rightarrow> 'b :: linorder) \<Rightarrow> 'a list \<Rightarrow> 'a \<times> 'a list" where
  "heap_pop at h =
     (let n = length h - 1; h' = heap_down at 0 n (heap_swap h 0 n) in (last h', butlast h'))"

section \<open>The interface\<close>

text \<open>A queue that releases an element with the smallest key.\<close>

locale expiration_queue =
  fixes key :: "'a \<Rightarrow> 'b :: linorder"
    and push :: "'a \<Rightarrow> 'q \<Rightarrow> 'q" and pop :: "'q \<Rightarrow> 'a \<times> 'q" and first :: "'q \<Rightarrow> 'a"
    and elements :: "'q \<Rightarrow> 'a multiset" and ordered :: "'q \<Rightarrow> bool"
  assumes push_elements: "elements (push x q) = add_mset x (elements q)"
    and push_ordered: "ordered q \<Longrightarrow> ordered (push x q)"
    and pop_elements: "elements q \<noteq> {#} \<Longrightarrow> pop q = (x, r) \<Longrightarrow> elements q = add_mset x (elements r)"
    and pop_first: "elements q \<noteq> {#} \<Longrightarrow> fst (pop q) = first q"
    and pop_ordered: "ordered q \<Longrightarrow> elements q \<noteq> {#} \<Longrightarrow> pop q = (x, r) \<Longrightarrow> ordered r"
    and first_least: "ordered q \<Longrightarrow> y \<in># elements q \<Longrightarrow> key (first q) \<le> key y"
begin

lemma pop_least:
  assumes "ordered q" and "elements q \<noteq> {#}" and "pop q = (x, r)" and "y \<in># elements r"
  shows "key x \<le> key y"
  using assms pop_elements [OF assms(2,3)] pop_first [OF assms(2)] first_least by force

end

section \<open>The heap property\<close>

definition heap_ok :: "('a \<Rightarrow> 'b :: linorder) \<Rightarrow> 'a list \<Rightarrow> bool" where
  "heap_ok at h \<longleftrightarrow> (\<forall>k. 0 < k \<and> k < length h \<longrightarrow> at (h ! ((k - 1) div 2)) \<le> at (h ! k))"

text \<open>Order everywhere but at an element that moves up, or but at the children of one that moves down.\<close>

definition up_ok :: "('a \<Rightarrow> 'b :: linorder) \<Rightarrow> nat \<Rightarrow> 'a list \<Rightarrow> bool" where
  "up_ok at j h \<longleftrightarrow>
     (\<forall>k. 0 < k \<and> k < length h \<and> k \<noteq> j \<longrightarrow> at (h ! ((k - 1) div 2)) \<le> at (h ! k)) \<and>
     (\<forall>k. 0 < j \<and> 0 < k \<and> k < length h \<and> (k - 1) div 2 = j \<longrightarrow>
        at (h ! ((j - 1) div 2)) \<le> at (h ! k))"

definition down_ok :: "('a \<Rightarrow> 'b :: linorder) \<Rightarrow> nat \<Rightarrow> nat \<Rightarrow> 'a list \<Rightarrow> bool" where
  "down_ok at i n h \<longleftrightarrow>
     (\<forall>k. 0 < k \<and> k < n \<and> (k - 1) div 2 \<noteq> i \<longrightarrow> at (h ! ((k - 1) div 2)) \<le> at (h ! k)) \<and>
     (\<forall>k. 0 < i \<and> 0 < k \<and> k < n \<and> (k - 1) div 2 = i \<longrightarrow>
        at (h ! ((i - 1) div 2)) \<le> at (h ! k))"

lemma length_heap_swap [simp]: "length (heap_swap h i j) = length h"
  by (simp add: heap_swap_def)

lemma mset_heap_swap [simp]: "i < length h \<Longrightarrow> j < length h \<Longrightarrow> mset (heap_swap h i j) = mset h"
  unfolding heap_swap_def by (rule mset_swap)

lemma nth_heap_swap:
  "i < length h \<Longrightarrow> j < length h \<Longrightarrow>
   heap_swap h i j ! k = (if k = j then h ! i else if k = i then h ! j else h ! k)"
  by (auto simp: heap_swap_def nth_list_update)

lemma heap_up_mset: "j < length h \<Longrightarrow> mset (heap_up at j h) = mset h \<and> length (heap_up at j h) = length h"
proof (induction at j h rule: heap_up.induct)
  case (1 at j h)
  then show ?case
    by (subst (1 2) heap_up.simps) (auto simp: Let_def div_le_dividend less_le_trans)
qed

lemma up_okD:
  assumes "up_ok at j h" and "0 < k" and "k < length h"
  shows "k \<noteq> j \<Longrightarrow> at (h ! ((k - 1) div 2)) \<le> at (h ! k)"
    and "0 < j \<Longrightarrow> (k - 1) div 2 = j \<Longrightarrow> at (h ! ((j - 1) div 2)) \<le> at (h ! k)"
  using assms by (auto simp: up_ok_def)

lemma up_swap:
  assumes ok: "up_ok at j h" and j: "j < length h" and i: "i = (j - 1) div 2" "i \<noteq> j"
    and less: "at (h ! j) < at (h ! i)"
  shows "up_ok at i (heap_swap h i j)"
proof -
  have lt: "i < j" using i by auto
  have nth: "heap_swap h i j ! k = (if k = j then h ! i else if k = i then h ! j else h ! k)" for k
    using lt j by (simp add: nth_heap_swap)
  have child: "at (h ! i) \<le> at (h ! k)" if "0 < k" "k < length h" "(k - 1) div 2 = i" "k \<noteq> j" for k
    using up_okD(1) [OF ok that(1,2,4)] that(3) by simp
  have grand: "at (h ! i) \<le> at (h ! k)" if "0 < k" "k < length h" "(k - 1) div 2 = j" for k
    using up_okD(2) [OF ok that(1,2)] that(3) lt i(1) by simp
  have above: "at (h ! ((i - 1) div 2)) \<le> at (h ! i)" if "0 < i"
    using up_okD(1) [OF ok that] lt j by simp
  have p: "(k - 1) div 2 < k" if "0 < k" for k :: nat using that by auto
  show ?thesis
    unfolding up_ok_def length_heap_swap
  proof (intro conjI allI impI)
    fix k assume k: "0 < k \<and> k < length h \<and> k \<noteq> i"
    show "at (heap_swap h i j ! ((k - 1) div 2)) \<le> at (heap_swap h i j ! k)"
    proof (cases "k = j")
      case True
      then show ?thesis using less lt i(1) [symmetric] by (simp add: nth)
    next
      case False
      then show ?thesis
        using k child [of k] grand [of k] less up_okD(1) [OF ok, of k] by (auto simp: nth)
    qed
  next
    fix k assume k: "0 < i \<and> 0 < k \<and> k < length h \<and> (k - 1) div 2 = i"
    have "(i - 1) div 2 < i" using k p by blast
    then show "at (heap_swap h i j ! ((i - 1) div 2)) \<le> at (heap_swap h i j ! k)"
      using k lt above child [of k] p [of k] by (auto simp: nth)
  qed
qed

lemma heap_up_ok: "up_ok at j h \<Longrightarrow> j < length h \<Longrightarrow> heap_ok at (heap_up at j h)"
proof (induction at j h rule: heap_up.induct)
  case (1 at j h)
  let ?i = "(j - 1) div 2"
  show ?case
  proof (cases "?i = j \<or> \<not> at (h ! j) < at (h ! ?i)")
    case True
    then have "heap_up at j h = h" by (subst heap_up.simps) simp
    moreover have "at (h ! ((k - 1) div 2)) \<le> at (h ! k)" if "0 < k" "k < length h" for k
      using True up_okD(1) [OF 1(2) that] that by (cases "k = j") auto
    ultimately show ?thesis by (simp add: heap_ok_def)
  next
    case False
    then have "heap_up at j h = heap_up at ?i (heap_swap h ?i j)"
      by (subst heap_up.simps) (auto simp: Let_def)
    moreover have "up_ok at ?i (heap_swap h ?i j)" using False 1(2,3) by (intro up_swap) auto
    ultimately show ?thesis using 1(1) [of ?i] False 1(3) by simp
  qed
qed

lemma down_okD:
  assumes "down_ok at i n h" and "0 < k" and "k < n"
  shows "(k - 1) div 2 \<noteq> i \<Longrightarrow> at (h ! ((k - 1) div 2)) \<le> at (h ! k)"
    and "0 < i \<Longrightarrow> (k - 1) div 2 = i \<Longrightarrow> at (h ! ((i - 1) div 2)) \<le> at (h ! k)"
  using assms by (auto simp: down_ok_def)

lemma down_swap:
  assumes ok: "down_ok at i n h" and n: "n \<le> length h" and j: "0 < j" "j < n" "(j - 1) div 2 = i"
    and least: "\<And>k. 0 < k \<Longrightarrow> k < n \<Longrightarrow> (k - 1) div 2 = i \<Longrightarrow> at (h ! j) \<le> at (h ! k)"
    and less: "at (h ! j) < at (h ! i)"
  shows "down_ok at j n (heap_swap h i j)"
proof -
  have lt: "i < j" using j by auto
  have nth: "heap_swap h i j ! k = (if k = j then h ! i else if k = i then h ! j else h ! k)" for k
    using lt j n by (simp add: nth_heap_swap)
  have p: "(k - 1) div 2 < k" if "0 < k" for k :: nat using that by auto
  show ?thesis
    unfolding down_ok_def
  proof (intro conjI allI impI)
    fix k assume k: "0 < k \<and> k < n \<and> (k - 1) div 2 \<noteq> j"
    consider "k = i" | "k = j" | "k \<noteq> i" "k \<noteq> j" "(k - 1) div 2 = i"
      | "k \<noteq> i" "k \<noteq> j" "(k - 1) div 2 \<noteq> i" by blast
    then show "at (heap_swap h i j ! ((k - 1) div 2)) \<le> at (heap_swap h i j ! k)"
    proof cases
      case 1
      then have "(k - 1) div 2 < i" using k p by blast
      then show ?thesis using 1 k lt down_okD(2) [OF ok j(1,2)] j(3) by (auto simp: nth)
    next
      case 2
      then show ?thesis using less lt j by (simp add: nth)
    next
      case 3
      then show ?thesis using k least by (simp add: nth)
    next
      case 4
      then show ?thesis using k down_okD(1) [OF ok, of k] by (simp add: nth)
    qed
  next
    fix k assume k: "0 < j \<and> 0 < k \<and> k < n \<and> (k - 1) div 2 = j"
    then have "j < k" using p by blast
    then show "at (heap_swap h i j ! ((j - 1) div 2)) \<le> at (heap_swap h i j ! k)"
      using k lt j down_okD(1) [OF ok, of k] by (simp add: nth)
  qed
qed

lemma heap_down_mset:
  "n \<le> length h \<Longrightarrow> mset (heap_down at i n h) = mset h \<and> length (heap_down at i n h) = length h \<and>
   (\<forall>k \<ge> n. i < n \<longrightarrow> heap_down at i n h ! k = h ! k)"
proof (induction at i n h rule: heap_down.induct)
  case (1 at i n h)
  then show ?case
    by (subst (1 2 3) heap_down.simps) (auto simp: Let_def nth_heap_swap)
qed

lemma children: "0 < k \<Longrightarrow> (k - 1) div 2 = i \<longleftrightarrow> k = 2 * i + 1 \<or> k = 2 * i + (2 :: nat)"
  by auto

lemma heap_down_ok:
  "down_ok at i n h \<Longrightarrow> n \<le> length h \<Longrightarrow> heap_ok at (take n (heap_down at i n h))"
proof (induction at i n h rule: heap_down.induct)
  case (1 at i n h)
  define j where "j = (if 2 * i + 1 + 1 < n \<and> at (h ! (2 * i + 1 + 1)) < at (h ! (2 * i + 1))
    then 2 * i + 1 + 1 else 2 * i + 1)"
  show ?case
  proof (cases "2 * i + 1 \<ge> n \<or> \<not> at (h ! j) < at (h ! i)")
    case True
    then have "heap_down at i n h = h" by (subst heap_down.simps) (auto simp: Let_def j_def)
    moreover have "at (h ! ((k - 1) div 2)) \<le> at (h ! k)" if "0 < k" "k < n" for k
    proof (cases "(k - 1) div 2 = i")
      case c: True
      then have "k = 2 * i + 1 \<or> k = 2 * i + 2" using that children by blast
      then show ?thesis using True that c by (auto simp: j_def split: if_splits)
    qed (use down_okD(1) [OF 1(2) that] in simp)
    ultimately show ?thesis by (auto simp: heap_ok_def)
  next
    case False
    then have eq: "heap_down at i n h = heap_down at j n (heap_swap h i j)"
      by (subst heap_down.simps) (auto simp: Let_def j_def)
    have j: "0 < j" "j < n" "(j - 1) div 2 = i" using False by (auto simp: j_def)
    have "down_ok at j n (heap_swap h i j)"
    proof (rule down_swap [OF 1(2,3) j])
      fix k assume k: "0 < k" "k < n" "(k - 1) div 2 = i"
      then have "k = 2 * i + 1 \<or> k = 2 * i + 2" using children by blast
      then show "at (h ! j) \<le> at (h ! k)" using k by (auto simp: j_def)
    qed (use False in simp)
    then show ?thesis
      using 1(1) [of "2 * i + 1" j] False 1(3) by (simp add: eq j_def)
  qed
qed

lemma heap_ok_root:
  assumes "heap_ok at h" and "k < length h"
  shows "at (h ! 0) \<le> at (h ! k)"
  using assms(2)
proof (induction k rule: less_induct)
  case (less k)
  show ?case
  proof (cases "k = 0")
    case False
    then have "at (h ! ((k - 1) div 2)) \<le> at (h ! k)" using assms(1) less.prems by (simp add: heap_ok_def)
    moreover have "at (h ! 0) \<le> at (h ! ((k - 1) div 2))" using False less by force
    ultimately show ?thesis by (rule order.trans [rotated])
  qed simp
qed

lemma heap_pop_parts:
  assumes "h \<noteq> []" and "heap_pop at h = (x, r)"
  shows "x = h ! 0" and "mset h = add_mset x (mset r)"
    and "r = take (length h - 1) (heap_down at 0 (length h - 1) (heap_swap h 0 (length h - 1)))"
proof -
  let ?n = "length h - 1"
  let ?s = "heap_swap h 0 ?n"
  let ?d = "heap_down at 0 ?n ?s"
  have m: "mset ?d = mset h" "length ?d = length h" "0 < ?n \<longrightarrow> ?d ! ?n = ?s ! ?n"
    using heap_down_mset [of ?n ?s at 0] assms(1) by auto
  have d: "?d \<noteq> []" using m(2) assms(1) by force
  have x: "x = ?d ! ?n" "r = butlast ?d"
    using assms(2) d m(2) by (auto simp: heap_pop_def Let_def last_conv_nth)
  have "?d ! ?n = h ! 0"
  proof (cases "?n = 0")
    case True
    then have "?d = ?s" by (subst heap_down.simps) simp
    then show ?thesis using True assms(1) by (simp add: heap_swap_def)
  qed (use m assms(1) in \<open>simp add: nth_heap_swap\<close>)
  then show "x = h ! 0" using x by simp
  show "r = take ?n ?d" using x m(2) by (simp add: butlast_conv_take)
  have "mset ?d = add_mset (last ?d) (mset (butlast ?d))"
    using append_butlast_last_id [OF d] by (metis mset.simps(2) mset_append mset.simps(1) union_mset_add_mset_right add.right_neutral)
  then show "mset h = add_mset x (mset r)" using m x d by (simp add: last_conv_nth)
qed

lemma heap_push_ok: "heap_ok at h \<Longrightarrow> heap_ok at (heap_push at x h)"
  unfolding heap_push_def
proof (rule heap_up_ok)
  assume ok: "heap_ok at h"
  have p: "(k - 1) div 2 < length h" if "0 < k" "k < Suc (length h)" for k using that by auto
  show "up_ok at (length h) (h @ [x])"
    using ok p by (fastforce simp: up_ok_def heap_ok_def nth_append)
qed simp

lemma heap_pop_ok:
  assumes "heap_ok at h" and "h \<noteq> []" and "heap_pop at h = (x, r)"
  shows "heap_ok at r"
proof -
  have "down_ok at 0 (length h - 1) (heap_swap h 0 (length h - 1))"
    using assms(1,2) by (auto simp: down_ok_def heap_ok_def nth_heap_swap)
  then show ?thesis using heap_down_ok heap_pop_parts(3) [OF assms(2,3)] by force
qed

interpretation heap_queue: expiration_queue key "heap_push key" "heap_pop key" "\<lambda>h. h ! 0" mset "heap_ok key"
  for key :: "'a \<Rightarrow> 'b :: linorder"
proof unfold_locales
  show "mset (heap_push key x q) = add_mset x (mset q)" for x q
    using heap_up_mset [of "length q" "q @ [x]" key] by (simp add: heap_push_def)
  show "fst (heap_pop key q) = q ! 0" if "mset q \<noteq> {#}" for q
    using heap_pop_parts(1) [of q key "fst (heap_pop key q)" "snd (heap_pop key q)"] that by simp
  show "key (q ! 0) \<le> key y" if "heap_ok key q" "y \<in># mset q" for q y
    using that heap_ok_root by (metis in_set_conv_nth set_mset_mset)
qed (use heap_push_ok heap_pop_ok heap_pop_parts(2) in auto)

end
