(* ===== verification/Checkpoint_Store.thy ===== *)
theory Checkpoint_Store
  imports Canonical_Request History_Fingerprint Expiration_Heap
begin

text \<open>
  The checkpoint store (\<^verbatim>\<open>checkpoint.go\<close>, \<^verbatim>\<open>store.go\<close> and \<^verbatim>\<open>store_memory.go\<close> of
  \<^verbatim>\<open>src/internal/continuity\<close>).

  A history segment is never changed after its construction, so a pointer to one is modelled by
  the segment together with its address; the store hands out fresh addresses. Instants are
  nanoseconds; the clock readings of an operation are its arguments, in the order in which the
  code takes them. The store's mutex makes every operation atomic, so a run of the store is a
  sequence of operations. The panic of a slice out of range is the error \<open>Panicked\<close>.
\<close>

section \<open>Checkpoints\<close>

datatype historySegment = historySegment
  (sg_address: nat) (sg_parent: "historySegment option") (sg_items: "CanonicalItem list") (sg_length: nat)

text \<open>The only token of the package, and any other implementation of the sealed interface.\<close>

datatype storageReuseToken =
    memoryStorageReuse (mr_store: nat) (mr_workspace: string) (mr_tail: "historySegment option")
  | foreignToken

record StorageReuse =
  sr_token :: "storageReuseToken option"
  sr_history :: "History option"
  sr_prefixLength :: int

definition zeroReuse :: StorageReuse where
  "zeroReuse = \<lparr>sr_token = None, sr_history = None, sr_prefixLength = 0\<rparr>"

record 'c Checkpoint =
  cp_History :: "History option"
  cp_ExecutionAffinity :: affinity_key
  cp_Request :: "'c CanonicalRequest"
  cp_Response :: CanonicalResponse
  cp_CreatedAt :: int
  cp_ExpiresAt :: "int option"
  cp_storageReuse :: StorageReuse

definition defaultCheckpointTTL :: int where "defaultCheckpointTTL = 24 * 3600 * 1000000000"

definition checkpoint_Clone :: "platform \<Rightarrow> 'c Checkpoint \<Rightarrow> 'c Checkpoint" where
  "checkpoint_Clone p r = r\<lparr>cp_Request := NewCanonicalRequest p (cp_Request r)\<rparr>"

definition ReuseCheckpoint :: "'c Checkpoint \<Rightarrow> StorageReuse" where
  "ReuseCheckpoint checkpoint = cp_storageReuse checkpoint"

definition ReuseVisibleHistory :: "History \<Rightarrow> int \<Rightarrow> StorageReuse" where
  "ReuseVisibleHistory history prefixLength =
     \<lparr>sr_token = None, sr_history = Some history, sr_prefixLength = prefixLength\<rparr>"

record 'c Commit =
  cm_Checkpoint :: "'c Checkpoint"
  cm_Reuse :: StorageReuse

abbreviation response_id :: "'c Checkpoint \<Rightarrow> SwobuResponseID" where
  "response_id r \<equiv> rr_SwobuID (cr_response (cp_Response r))"

section \<open>The memory store\<close>

definition maxMemoryStoreRecords :: nat where "maxMemoryStoreRecords = 1024"

record 'c storedCheckpoint =
  sc_checkpoint :: "'c Checkpoint"
  sc_prelude :: "CanonicalItem list"
  sc_requestTail :: "historySegment option"
  sc_afterTail :: "historySegment option"

type_synonym workspaceRecordID = "string \<times> SwobuResponseID"
type_synonym workspaceHistoryKey = "string \<times> History"
type_synonym expirationEntry = "workspaceRecordID \<times> int"

record 'c memoryStore =
  ms_self :: nat \<comment> \<open>the identity of the store\<close>
  ms_next :: nat \<comment> \<open>the next free address\<close>
  ms_records :: "(workspaceRecordID \<times> 'c storedCheckpoint) list"
  ms_byHistory :: "(workspaceHistoryKey \<times> SwobuResponseID list) list"
  ms_visibleHistory :: "(workspaceHistoryKey \<times> historySegment option) list"
  ms_expires :: "expirationEntry list"

definition newMemoryStore :: "nat \<Rightarrow> 'c memoryStore" where
  "newMemoryStore self = \<lparr>ms_self = self, ms_next = 0, ms_records = [], ms_byHistory = [],
     ms_visibleHistory = [], ms_expires = []\<rparr>"

definition normalizeWorkspace :: "string \<Rightarrow> go_error + string" where
  "normalizeWorkspace workspace =
     (let workspace = TrimSpace workspace
      in if workspace = [] then Inl (Errorf ''checkpoint workspace slug is empty'' []) else Inr workspace)"

section \<open>Segments\<close>

text \<open>A tail with the items appended, and the next free address.\<close>

definition appendSegment ::
    "nat \<Rightarrow> historySegment option \<Rightarrow> CanonicalItem list \<Rightarrow> historySegment option \<times> nat" where
  "appendSegment addr parent items =
     (if items = [] then (parent, addr)
      else (Some (historySegment addr parent items
              (length items + (case parent of None \<Rightarrow> 0 | Some s \<Rightarrow> sg_length s))), Suc addr))"

text \<open>The copy loop of \<open>materializeItems\<close>, from the tail to the root.\<close>

fun copy_segments :: "historySegment \<Rightarrow> CanonicalItem list \<Rightarrow> go_error + CanonicalItem list" where
  "copy_segments (historySegment addr parent its n) dst =
     (if n < length its \<or> length dst < n then Inl (Panicked ''slice bounds out of range'')
      else let dst = take (n - length its) dst @ its @ drop n dst
           in case parent of None \<Rightarrow> Inr dst | Some s \<Rightarrow> copy_segments s dst)"

definition materializeItems :: "historySegment option \<Rightarrow> go_error + CanonicalItem list" where
  "materializeItems tail =
     (case tail of
        None \<Rightarrow> Inr []
      | Some s \<Rightarrow> copy_segments s (replicate (sg_length s) zeroItem))"

definition materializeStoredCheckpoint ::
    "platform \<Rightarrow> 'c storedCheckpoint \<Rightarrow> go_error + 'c Checkpoint" where
  "materializeStoredCheckpoint p record =
     (let checkpoint = checkpoint_Clone p (sc_checkpoint record)
      in and_then (materializeItems (sc_requestTail record)) (\<lambda>items.
           Inr (checkpoint\<lparr>cp_Request := WithItems p (cp_Request checkpoint)
             (sc_prelude record @ items)\<rparr>)))"

text \<open>The segments from a tail to its root.\<close>

fun segment_chain :: "historySegment \<Rightarrow> historySegment list" where
  "segment_chain (historySegment addr parent its n) = historySegment addr parent its n #
     (case parent of None \<Rightarrow> [] | Some s \<Rightarrow> segment_chain s)"

definition tail_chain :: "historySegment option \<Rightarrow> historySegment list" where
  "tail_chain tail = (case tail of None \<Rightarrow> [] | Some s \<Rightarrow> segment_chain s)"

section \<open>Removal\<close>

definition deleteRecord ::
    "workspaceRecordID \<Rightarrow> 'c storedCheckpoint \<Rightarrow> 'c memoryStore \<Rightarrow> 'c memoryStore" where
  "deleteRecord key record s =
     (let s = s\<lparr>ms_records := AList.delete key (ms_records s)\<rparr>
      in case cp_History (sc_checkpoint record) of
           None \<Rightarrow> s
         | Some h \<Rightarrow>
             let historyKey = (fst key, h);
                 members = filter (\<lambda>i. i \<noteq> snd key)
                   (case map_of (ms_byHistory s) historyKey of None \<Rightarrow> [] | Some ids \<Rightarrow> ids)
             in s\<lparr>ms_byHistory := if members = [] then AList.delete historyKey (ms_byHistory s)
                  else AList.update historyKey members (ms_byHistory s)\<rparr>)"

text \<open>
  The addresses that live checkpoints reach. A nil tail is never among them. (The loop stops at
  a segment it has seen, whose chain it has added before.)
\<close>

definition reachable_addresses :: "'c memoryStore \<Rightarrow> nat set" where
  "reachable_addresses s =
     (\<Union>(key, record) \<in> set (ms_records s). sg_address ` set (tail_chain (sc_afterTail record)))"

definition sweepVisibleHistory :: "'c memoryStore \<Rightarrow> 'c memoryStore" where
  "sweepVisibleHistory s = s\<lparr>ms_visibleHistory :=
     filter (\<lambda>(key, tail). case tail of None \<Rightarrow> False | Some t \<Rightarrow> sg_address t \<in> reachable_addresses s)
       (ms_visibleHistory s)\<rparr>"

lemma heap_pop_shorter:
  assumes "(x, r) = heap_pop at h" and "h \<noteq> []"
  shows "length r < length h"
proof -
  have "size (mset h) = Suc (size (mset r))"
    using heap_pop_parts(2) [OF assms(2) assms(1) [symmetric]] by simp
  then show ?thesis by simp
qed

definition record_expired :: "int \<Rightarrow> 'c storedCheckpoint \<Rightarrow> bool" where
  "record_expired now record \<longleftrightarrow>
     (case cp_ExpiresAt (sc_checkpoint record) of None \<Rightarrow> False | Some e \<Rightarrow> \<not> e > now)"

function reclaim_loop :: "int \<Rightarrow> bool \<Rightarrow> 'c memoryStore \<Rightarrow> bool \<times> 'c memoryStore" where
  "reclaim_loop now deleted s =
     (if ms_expires s = [] \<or> snd (ms_expires s ! 0) > now then (deleted, s)
      else let (entry, rest) = heap_pop snd (ms_expires s); s = s\<lparr>ms_expires := rest\<rparr>
           in case map_of (ms_records s) (fst entry) of
                None \<Rightarrow> reclaim_loop now deleted s
              | Some record \<Rightarrow>
                  if record_expired now record
                  then reclaim_loop now True (deleteRecord (fst entry) record s)
                  else reclaim_loop now deleted s)"
  by pat_completeness auto
termination
  by (relation "measure (\<lambda>(now, deleted, s). length (ms_expires s))")
    (auto simp: deleteRecord_def Let_def split: option.splits intro: heap_pop_shorter)

definition reclaimExpired :: "int \<Rightarrow> 'c memoryStore \<Rightarrow> 'c memoryStore" where
  "reclaimExpired now s =
     (case reclaim_loop now False s of (deleted, s) \<Rightarrow> if deleted then sweepVisibleHistory s else s)"

declare reclaim_loop.simps [simp del]

text \<open>The loop drops entries that no longer name a record with their deadline.\<close>

function evictOldest :: "'c memoryStore \<Rightarrow> 'c memoryStore" where
  "evictOldest s =
     (if ms_expires s = [] then s
      else let (entry, rest) = heap_pop snd (ms_expires s); s = s\<lparr>ms_expires := rest\<rparr>
           in case map_of (ms_records s) (fst entry) of
                None \<Rightarrow> evictOldest s
              | Some record \<Rightarrow>
                  if cp_ExpiresAt (sc_checkpoint record) \<noteq> Some (snd entry) then evictOldest s
                  else sweepVisibleHistory (deleteRecord (fst entry) record s))"
  by pat_completeness auto
termination
  by (relation "measure (\<lambda>s. length (ms_expires s))") (auto intro: heap_pop_shorter)

declare evictOldest.simps [simp del]

section \<open>Storage reuse\<close>

text \<open>The base segment, the length of the prefix it replaces, the visible key, and the next free address.\<close>

definition resolveStorageReuse ::
    "'c memoryStore \<Rightarrow> string \<Rightarrow> StorageReuse \<Rightarrow> CanonicalItem list \<Rightarrow>
     go_error + historySegment option \<times> nat \<times> workspaceHistoryKey option \<times> nat" where
  "resolveStorageReuse s workspace reuse retained =
     (case sr_token reuse of
        Some token \<Rightarrow>
          if sr_history reuse \<noteq> None \<or> sr_prefixLength reuse \<noteq> 0
          then Inl (Errorf ''storage reuse evidence is contradictory'' [])
          else (case token of
             foreignToken \<Rightarrow> Inl (Errorf ''storage reuse belongs to another store'' [])
           | memoryStorageReuse store ws tail \<Rightarrow>
               if store \<noteq> ms_self s then Inl (Errorf ''storage reuse belongs to another store'' [])
               else if ws \<noteq> workspace
               then Inl (Errorf ''storage reuse belongs to another workspace'' [])
               else (case tail of
                  None \<Rightarrow> Inr (None, 0, None, ms_next s)
                | Some t \<Rightarrow>
                    if sg_length t > length retained
                    then Inl (Errorf ''storage reuse checkpoint exceeds retained history'' [])
                    else Inr (Some t, sg_length t, None, ms_next s)))
      | None \<Rightarrow>
          (case sr_history reuse of
             None \<Rightarrow> Inr (None, 0, None, ms_next s)
           | Some history \<Rightarrow>
               if sr_prefixLength reuse < 0 \<or> sr_prefixLength reuse > int (length retained)
               then Inl (Errorf ''visible-history storage prefix is invalid'' [])
               else let key = (workspace, history); prefix = nat (sr_prefixLength reuse)
                    in case map_of (ms_visibleHistory s) key of
                         Some (Some existing) \<Rightarrow> Inr (Some existing, prefix, Some key, ms_next s)
                       | _ \<Rightarrow> (case appendSegment (ms_next s) None (take prefix retained) of
                             (base, addr) \<Rightarrow> Inr (base, prefix, Some key, addr))))"

section \<open>The operations of the interface\<close>

text \<open>Clock readings: for the default deadline, for its check, and for the expiry of others.\<close>

definition prepareRecord :: "int \<Rightarrow> int \<Rightarrow> 'c Checkpoint \<Rightarrow> go_error + 'c Checkpoint" where
  "prepareRecord now1 now2 record =
     (case ValidateCommittedResponse (cr_response (cp_Response record)) of
        Inl e \<Rightarrow> Inl (Errorw ''invalid checkpoint response reference: %w'' [] e)
      | Inr _ \<Rightarrow>
          if (case cp_History record of None \<Rightarrow> False | Some h \<Rightarrow> hs_scheme h = [])
          then Inl (Errorf ''checkpoint history fingerprint is invalid'' [])
          else let expires = (case cp_ExpiresAt record of None \<Rightarrow> now1 + defaultCheckpointTTL | Some e \<Rightarrow> e)
               in if \<not> expires > now2
                  then Inl (Errorf ''checkpoint expiration must be in the future'' [])
                  else Inr (record\<lparr>cp_ExpiresAt := Some expires\<rparr>))"

definition index_history ::
    "string \<Rightarrow> SwobuResponseID \<Rightarrow> History option \<Rightarrow> 'c memoryStore \<Rightarrow> 'c memoryStore" where
  "index_history workspace i history s =
     (case history of
        None \<Rightarrow> s
      | Some h \<Rightarrow> s\<lparr>ms_byHistory := AList.update (workspace, h)
          (List.insert i (case map_of (ms_byHistory s) (workspace, h) of None \<Rightarrow> [] | Some ids \<Rightarrow> ids))
          (ms_byHistory s)\<rparr>)"

definition insert_stored ::
    "workspaceRecordID \<Rightarrow> 'c storedCheckpoint \<Rightarrow> workspaceHistoryKey option \<Rightarrow> historySegment option \<Rightarrow>
     'c memoryStore \<Rightarrow> 'c memoryStore" where
  "insert_stored key stored visibleKey base s =
     (let s = s\<lparr>ms_records := AList.update key stored (ms_records s)\<rparr>;
          s = (case visibleKey of None \<Rightarrow> s
               | Some k \<Rightarrow> s\<lparr>ms_visibleHistory := AList.update k base (ms_visibleHistory s)\<rparr>);
          s = index_history (fst key) (snd key) (cp_History (sc_checkpoint stored)) s
      in s\<lparr>ms_expires :=
           heap_push snd (key, the (cp_ExpiresAt (sc_checkpoint stored))) (ms_expires s)\<rparr>)"

text \<open>The part of \<open>Put\<close> that runs under the lock, on a prepared record.\<close>

definition put_record_locked ::
    "platform \<Rightarrow> string \<Rightarrow> StorageReuse \<Rightarrow> 'c Checkpoint \<Rightarrow> 'c memoryStore \<Rightarrow>
     'c memoryStore \<times> (go_error + unit)" where
  "put_record_locked p workspace reuse record s =
     (let i = response_id record; key = (workspace, i); items = rq_items (cp_Request record)
      in if map_of (ms_records s) key \<noteq> None
         then (s, Inl (Errorf ''checkpoint already exists'' []))
         else case SplitRequestPrelude items of
           Inl e \<Rightarrow> (s, Inl e)
         | Inr (prelude, _) \<Rightarrow>
         let retained = RetainedHistory items
         in case resolveStorageReuse s workspace reuse retained of
           Inl e \<Rightarrow> (s, Inl e)
         | Inr (base, prefix, visibleKey, addr) \<Rightarrow>
         let (requestTail, addr) = appendSegment addr base (drop prefix retained);
             (afterTail, addr) = appendSegment addr requestTail (cr_items (cp_Response record));
             record = record\<lparr>cp_Request := WithItems p (cp_Request record) [],
               cp_storageReuse := \<lparr>sr_token = Some (memoryStorageReuse (ms_self s) workspace afterTail),
                 sr_history = None, sr_prefixLength = 0\<rparr>\<rparr>;
             stored = \<lparr>sc_checkpoint = record, sc_prelude = pl_items prelude,
               sc_requestTail = requestTail, sc_afterTail = afterTail\<rparr>;
             s = s\<lparr>ms_next := addr\<rparr>;
             s = (if length (ms_records s) \<ge> maxMemoryStoreRecords then evictOldest s else s)
         in (insert_stored key stored visibleKey base s, Inr ()))"

definition store_Put ::
    "platform \<Rightarrow> int \<times> int \<times> int \<Rightarrow> string \<Rightarrow> 'c Commit \<Rightarrow> 'c memoryStore \<Rightarrow>
     'c memoryStore \<times> (go_error + unit)" where
  "store_Put p moments workspace commit s =
     (case normalizeWorkspace workspace of
        Inl e \<Rightarrow> (s, Inl e)
      | Inr workspace \<Rightarrow>
        (case prepareRecord (fst moments) (fst (snd moments)) (checkpoint_Clone p (cm_Checkpoint commit)) of
           Inl e \<Rightarrow> (s, Inl e)
         | Inr record \<Rightarrow>
             put_record_locked p workspace (cm_Reuse commit) record
               (reclaimExpired (snd (snd moments)) s)))"

definition store_Get ::
    "platform \<Rightarrow> int \<Rightarrow> string \<Rightarrow> SwobuResponseID \<Rightarrow> 'c memoryStore \<Rightarrow>
     'c memoryStore \<times> (go_error + 'c Checkpoint option)" where
  "store_Get p now workspace i s =
     (case normalizeWorkspace workspace of
        Inl e \<Rightarrow> (s, Inl e)
      | Inr workspace \<Rightarrow>
          let s = reclaimExpired now s
          in (s, case map_of (ms_records s) (workspace, i) of
                   None \<Rightarrow> Inr None
                 | Some record \<Rightarrow> and_then (materializeStoredCheckpoint p record) (\<lambda>c. Inr (Some c))))"

definition store_FindByHistory ::
    "platform \<Rightarrow> int \<Rightarrow> string \<Rightarrow> History \<Rightarrow> 'c memoryStore \<Rightarrow>
     'c memoryStore \<times> (go_error + 'c Checkpoint option)" where
  "store_FindByHistory p now workspace history s =
     (case normalizeWorkspace workspace of
        Inl e \<Rightarrow> (s, Inl e)
      | Inr workspace \<Rightarrow>
          if hs_scheme history = [] then (s, Inl (Errorf ''history fingerprint is invalid'' []))
          else let s = reclaimExpired now s
               in (s, case map_of (ms_byHistory s) (workspace, history) of
                        Some [i] \<Rightarrow>
                          (case map_of (ms_records s) (workspace, i) of
                             None \<Rightarrow> Inr None
                           | Some record \<Rightarrow>
                               and_then (materializeStoredCheckpoint p record) (\<lambda>c. Inr (Some c)))
                      | _ \<Rightarrow> Inr None))"

end
