(* ===== verification/Checkpoint_Refine.thy ===== *)
theory Checkpoint_Refine
  imports Checkpoint_Store
begin

text \<open>
  The memory store implements a map from workspaces and response identifiers to self-contained
  checkpoints: materialised segments, the invariant of the store, and the effect of every
  operation on the map it stands for.
\<close>

section \<open>Materialised segments\<close>

fun segment_items :: "historySegment \<Rightarrow> CanonicalItem list" where
  "segment_items (historySegment addr parent its n) =
     (case parent of None \<Rightarrow> [] | Some s \<Rightarrow> segment_items s) @ its"

definition tail_items :: "historySegment option \<Rightarrow> CanonicalItem list" where
  "tail_items tail = (case tail of None \<Rightarrow> [] | Some s \<Rightarrow> segment_items s)"

fun segment_ok :: "historySegment \<Rightarrow> bool" where
  "segment_ok (historySegment addr parent its n) \<longleftrightarrow>
     n = length its + (case parent of None \<Rightarrow> 0 | Some s \<Rightarrow> sg_length s) \<and>
     (case parent of None \<Rightarrow> True | Some s \<Rightarrow> segment_ok s)"

definition tail_ok :: "historySegment option \<Rightarrow> bool" where
  "tail_ok tail \<longleftrightarrow> (case tail of None \<Rightarrow> True | Some s \<Rightarrow> segment_ok s)"

lemma tail_simps [simp]:
  "tail_items None = []" "tail_items (Some s) = segment_items s" "tail_ok None" "tail_ok (Some s) = segment_ok s"
  by (simp_all add: tail_items_def tail_ok_def)

lemma segment_length: "segment_ok s \<Longrightarrow> sg_length s = length (segment_items s)"
  by (induction s rule: segment_ok.induct) (auto split: option.splits)

lemma copy_segments_ok:
  "segment_ok s \<Longrightarrow> sg_length s \<le> length dst \<Longrightarrow>
   copy_segments s dst = Inr (segment_items s @ drop (sg_length s) dst)"
proof (induction s dst rule: copy_segments.induct)
  case (1 addr parent its n dst)
  show ?case
  proof (cases parent)
    case None
    then show ?thesis using 1 by simp
  next
    case (Some s)
    have "copy_segments s (take (n - length its) dst @ its @ drop n dst) =
        Inr (segment_items s @ drop (sg_length s) (take (n - length its) dst @ its @ drop n dst))"
      using 1 Some by (intro 1(1)) auto
    then show ?thesis using 1(2,3) Some by (simp add: Let_def)
  qed
qed

lemma materializeItems_ok: "tail_ok tail \<Longrightarrow> materializeItems tail = Inr (tail_items tail)"
  using segment_length by (cases tail) (auto simp: materializeItems_def copy_segments_ok)

lemma appendSegment_ok:
  assumes "appendSegment addr parent items = (tail, next)" and "tail_ok parent"
  shows "tail_ok tail" and "tail_items tail = tail_items parent @ items"
  using assms by (auto simp: appendSegment_def split: if_splits option.splits)

section \<open>The invariant\<close>

definition record_ok :: "platform \<Rightarrow> nat \<Rightarrow> workspaceRecordID \<Rightarrow> 'c storedCheckpoint \<Rightarrow> bool" where
  "record_ok p self key r \<longleftrightarrow>
     snd key = response_id (sc_checkpoint r) \<and>
     tail_ok (sc_requestTail r) \<and> tail_ok (sc_afterTail r) \<and>
     tail_items (sc_afterTail r) = tail_items (sc_requestTail r) @ cr_items (cp_Response (sc_checkpoint r)) \<and>
     list_all request_scoped (sc_prelude r) \<and> RetainedHistory (tail_items (sc_requestTail r)) = tail_items (sc_requestTail r) \<and>
     cp_ExpiresAt (sc_checkpoint r) \<noteq> None \<and>
     NewCanonicalRequest p (cp_Request (sc_checkpoint r)) = cp_Request (sc_checkpoint r) \<and>
     cp_storageReuse (sc_checkpoint r) = \<lparr>sr_token = Some (memoryStorageReuse self (fst key) (sc_afterTail r)),
       sr_history = None, sr_prefixLength = 0\<rparr>"

text \<open>The deadlines of the records, and the identifiers that carry a history.\<close>

definition deadlines :: "(workspaceRecordID \<times> 'c storedCheckpoint) list \<Rightarrow> expirationEntry multiset" where
  "deadlines records = mset (map (\<lambda>(k, r). (k, the (cp_ExpiresAt (sc_checkpoint r)))) records)"

definition history_ids :: "'c memoryStore \<Rightarrow> string \<Rightarrow> History \<Rightarrow> SwobuResponseID set" where
  "history_ids s workspace h =
     {i. \<exists>r. map_of (ms_records s) (workspace, i) = Some r \<and> cp_History (sc_checkpoint r) = Some h}"

definition members_of :: "'c memoryStore \<Rightarrow> workspaceHistoryKey \<Rightarrow> SwobuResponseID list" where
  "members_of s k = (case map_of (ms_byHistory s) k of None \<Rightarrow> [] | Some ids \<Rightarrow> ids)"

definition index_ok :: "'c memoryStore \<Rightarrow> bool" where
  "index_ok s \<longleftrightarrow> gomap (ms_byHistory s) \<and>
     (\<forall>w h. set (members_of s (w, h)) = history_ids s w h \<and> distinct (members_of s (w, h))) \<and>
     (\<forall>k. map_of (ms_byHistory s) k \<noteq> Some [])"

definition store_ok :: "platform \<Rightarrow> 'c memoryStore \<Rightarrow> bool" where
  "store_ok p s \<longleftrightarrow>
     gomap (ms_records s) \<and> length (ms_records s) \<le> maxMemoryStoreRecords \<and>
     (\<forall>(k, r) \<in> set (ms_records s). record_ok p (ms_self s) k r) \<and>
     mset (ms_expires s) = deadlines (ms_records s) \<and> heap_ok snd (ms_expires s) \<and>
     index_ok s \<and>
     gomap (ms_visibleHistory s) \<and> (\<forall>(k, t) \<in> set (ms_visibleHistory s). tail_ok t)"

lemma newMemoryStore_ok: "store_ok p (newMemoryStore self)"
  by (simp add: store_ok_def newMemoryStore_def deadlines_def heap_ok_def index_ok_def members_of_def
      history_ids_def)

section \<open>The map the store stands for\<close>

definition stored_value :: "'c storedCheckpoint \<Rightarrow> 'c Checkpoint" where
  "stored_value r = (sc_checkpoint r)\<lparr>cp_Request := (cp_Request (sc_checkpoint r))
     \<lparr>rq_items := sc_prelude r @ tail_items (sc_requestTail r)\<rparr>\<rparr>"

definition checkpoints :: "'c memoryStore \<Rightarrow> workspaceRecordID \<rightharpoonup> 'c Checkpoint" where
  "checkpoints s k = map_option stored_value (map_of (ms_records s) k)"

text \<open>The checkpoints of a map that have not expired.\<close>

definition unexpired :: "int \<Rightarrow> (workspaceRecordID \<rightharpoonup> 'c Checkpoint) \<Rightarrow> workspaceRecordID \<rightharpoonup> 'c Checkpoint" where
  "unexpired now m k =
     (case m k of None \<Rightarrow> None | Some c \<Rightarrow> if the (cp_ExpiresAt c) > now then Some c else None)"

lemma checkpoints_Some:
  "checkpoints s k = Some c \<longleftrightarrow> (\<exists>r. map_of (ms_records s) k = Some r \<and> c = stored_value r)"
  by (auto simp: checkpoints_def)

lemma index_ok_cong:
  "ms_records s = ms_records t \<Longrightarrow> ms_byHistory s = ms_byHistory t \<Longrightarrow> index_ok s = index_ok t"
  by (simp add: index_ok_def members_of_def history_ids_def)

lemma record_okI: "store_ok p s \<Longrightarrow> map_of (ms_records s) k = Some r \<Longrightarrow> record_ok p (ms_self s) k r"
  by (auto simp: store_ok_def dest!: map_of_SomeD)

lemma materialize_record:
  assumes "record_ok p self k r"
  shows "materializeStoredCheckpoint p r = Inr (stored_value r)"
proof -
  let ?q = "cp_Request (sc_checkpoint r)"
  have n: "NewCanonicalRequest p ?q = ?q" "tail_ok (sc_requestTail r)"
    using assms by (simp_all add: record_ok_def)
  have "NewCanonicalRequest p (?q\<lparr>rq_items := its\<rparr>) = ?q\<lparr>rq_items := its\<rparr>" for its
    using n(1) by (cases ?q) (auto simp: NewCanonicalRequest_def)
  then show ?thesis
    using n by (simp add: materializeStoredCheckpoint_def checkpoint_Clone_def stored_value_def
        materializeItems_ok WithItems_def Let_def)
qed

section \<open>Removing records\<close>

lemma deleteRecord_fields [simp]:
  "ms_self (deleteRecord k r s) = ms_self s" "ms_next (deleteRecord k r s) = ms_next s"
  "ms_records (deleteRecord k r s) = AList.delete k (ms_records s)"
  "ms_visibleHistory (deleteRecord k r s) = ms_visibleHistory s"
  "ms_expires (deleteRecord k r s) = ms_expires s"
  by (auto simp: deleteRecord_def Let_def split: option.splits)

lemma sweep_fields [simp]:
  "ms_self (sweepVisibleHistory s) = ms_self s" "ms_next (sweepVisibleHistory s) = ms_next s"
  "ms_records (sweepVisibleHistory s) = ms_records s" "ms_byHistory (sweepVisibleHistory s) = ms_byHistory s"
  "ms_expires (sweepVisibleHistory s) = ms_expires s"
  by (simp_all add: sweepVisibleHistory_def)

lemma members_deleteRecord:
  assumes "\<forall>k. map_of (ms_byHistory s) k \<noteq> Some []"
  shows "members_of (deleteRecord (w, i) r s) (v, h) =
    (if w = v \<and> cp_History (sc_checkpoint r) = Some h then filter (\<lambda>j. j \<noteq> i) (members_of s (v, h))
     else members_of s (v, h))"
  by (auto simp: deleteRecord_def members_of_def Let_def gomap_simps split: option.splits)

lemma history_ids_delete:
  assumes "map_of (ms_records s) (w, i) = Some r"
  shows "history_ids (s\<lparr>ms_records := AList.delete (w, i) (ms_records s)\<rparr>) v h =
    (if w = v \<and> cp_History (sc_checkpoint r) = Some h then history_ids s v h - {i} else history_ids s v h)"
  using assms by (auto simp: history_ids_def gomap_simps)

lemma index_deleteRecord:
  assumes "index_ok s" and "map_of (ms_records s) k = Some r"
  shows "index_ok (deleteRecord k r s)"
proof -
  obtain w i where k: "k = (w, i)" by (cases k)
  have ids: "history_ids (deleteRecord k r s) v h =
      history_ids (s\<lparr>ms_records := AList.delete k (ms_records s)\<rparr>) v h" for v h
    by (simp add: history_ids_def)
  have ne: "\<forall>k. map_of (ms_byHistory s) k \<noteq> Some []" using assms(1) unfolding index_ok_def by blast
  have "gomap (ms_byHistory (deleteRecord k r s))"
    using assms(1) by (auto simp: index_ok_def deleteRecord_def Let_def split: option.splits)
  moreover have "\<forall>x. map_of (ms_byHistory (deleteRecord k r s)) x \<noteq> Some []"
    using ne by (auto simp: deleteRecord_def Let_def gomap_simps split: option.splits if_splits)
  moreover have "set (members_of (deleteRecord k r s) (v, h)) = history_ids (deleteRecord k r s) v h \<and>
      distinct (members_of (deleteRecord k r s) (v, h))" for v h
    using assms unfolding k ids [unfolded k] history_ids_delete [OF assms(2) [unfolded k]]
      members_deleteRecord [OF ne] by (auto simp: index_ok_def)
  ultimately show ?thesis by (simp add: index_ok_def)
qed

lemma deadlines_delete:
  assumes "gomap m" and "map_of m k = Some r"
  shows "deadlines m = add_mset (k, the (cp_ExpiresAt (sc_checkpoint r))) (deadlines (AList.delete k m))"
  using assms
proof (induction m)
  case (Cons x m)
  have "AList.delete k m = m" if "k \<notin> fst ` set m" using that by (simp add: delete_idem)
  then show ?case using Cons by (cases x) (auto simp: deadlines_def split: if_splits)
qed simp

lemma length_delete_gomap: "gomap m \<Longrightarrow> map_of m k = Some r \<Longrightarrow> Suc (length (AList.delete k m)) = length m"
  by (induction m) (auto simp: delete_idem)

lemma checkpoints_deleteRecord [simp]: "checkpoints (deleteRecord k r s) = (checkpoints s)(k := None)"
  by (auto simp: checkpoints_def gomap_simps fun_eq_iff)

lemma checkpoints_fields [simp]:
  "checkpoints (sweepVisibleHistory s) = checkpoints s" "checkpoints (s\<lparr>ms_expires := e\<rparr>) = checkpoints s"
  by (simp_all add: checkpoints_def fun_eq_iff)

lemma store_ok_sweep: "store_ok p s \<Longrightarrow> store_ok p (sweepVisibleHistory s)"
  using index_ok_cong [of "sweepVisibleHistory s" s]
  by (auto simp: store_ok_def sweepVisibleHistory_def intro: distinct_map_filter)

lemma first_deadline:
  assumes ok: "store_ok p s" and c: "checkpoints s k = Some c"
  shows "ms_expires s \<noteq> [] \<and> snd (ms_expires s ! 0) \<le> the (cp_ExpiresAt c)"
proof -
  have m: "mset (ms_expires s) = deadlines (ms_records s)" and h: "heap_ok snd (ms_expires s)"
    using ok by (simp_all add: store_ok_def)
  obtain r where "map_of (ms_records s) k = Some r" "c = stored_value r"
    using c unfolding checkpoints_Some by blast
  then have "(k, the (cp_ExpiresAt c)) \<in># mset (ms_expires s)"
    unfolding m deadlines_def using map_of_SomeD by (force simp: stored_value_def)
  then show ?thesis using heap_queue.first_least [OF h, of "(k, the (cp_ExpiresAt c))"] by auto
qed

text \<open>Every entry of the queue names a live record with its deadline, so a popped one removes it.\<close>

lemma popped_record:
  assumes ok: "store_ok p s" and ne: "ms_expires s \<noteq> []" and pop: "heap_pop snd (ms_expires s) = (entry, rest)"
  obtains r where "map_of (ms_records s) (fst entry) = Some r"
    and "cp_ExpiresAt (sc_checkpoint r) = Some (snd entry)"
    and "store_ok p (deleteRecord (fst entry) r (s\<lparr>ms_expires := rest\<rparr>))"
    and "\<forall>k c. checkpoints s k = Some c \<longrightarrow> snd entry \<le> the (cp_ExpiresAt c)"
proof -
  have g: "gomap (ms_records s)" and m: "mset (ms_expires s) = deadlines (ms_records s)"
    and h: "heap_ok snd (ms_expires s)" using ok by (simp_all add: store_ok_def)
  have e: "mset (ms_expires s) = add_mset entry (mset rest)" using ne pop by (rule heap_pop_parts(2))
  then have "entry \<in># deadlines (ms_records s)" using m by simp
  then obtain k r where kr: "(k, r) \<in> set (ms_records s)" "entry = (k, the (cp_ExpiresAt (sc_checkpoint r)))"
    by (auto simp: deadlines_def)
  then have f: "map_of (ms_records s) k = Some r" using g by simp
  have x: "cp_ExpiresAt (sc_checkpoint r) = Some (snd entry)"
    using record_okI [OF ok f] kr(2) by (auto simp: record_ok_def)
  have "mset rest = deadlines (AList.delete k (ms_records s))"
    using m e deadlines_delete [OF g f] kr(2) by simp
  moreover have "heap_ok snd rest" using h ne pop by (rule heap_pop_ok)
  moreover have "index_ok (deleteRecord k r (s\<lparr>ms_expires := rest\<rparr>))"
    using ok f index_ok_cong [of "s\<lparr>ms_expires := rest\<rparr>" s]
    by (intro index_deleteRecord) (simp_all add: store_ok_def)
  ultimately have "store_ok p (deleteRecord k r (s\<lparr>ms_expires := rest\<rparr>))"
    using ok length_delete_gomap [OF g f] by (auto simp: store_ok_def set_delete_gomap)
  moreover have "\<forall>k c. checkpoints s k = Some c \<longrightarrow> snd entry \<le> the (cp_ExpiresAt c)"
    using first_deadline [OF ok] heap_pop_parts(1) [OF ne pop] by simp
  ultimately show ?thesis using that f x kr(2) by force
qed

lemma unexpired_id: "\<forall>k c. m k = Some c \<longrightarrow> now < the (cp_ExpiresAt c) \<Longrightarrow> unexpired now m = m"
  by (auto simp: unexpired_def fun_eq_iff split: option.splits)

lemma unexpired_delete:
  "m k = Some c \<Longrightarrow> \<not> now < the (cp_ExpiresAt c) \<Longrightarrow> unexpired now (m(k := None)) = unexpired now m"
  by (auto simp: unexpired_def fun_eq_iff)

lemma reclaim_loop_ok:
  assumes "store_ok p s" and "reclaim_loop now deleted s = (d, s')"
  shows "store_ok p s' \<and> checkpoints s' = unexpired now (checkpoints s) \<and> ms_self s' = ms_self s"
  using assms
proof (induction now deleted s rule: reclaim_loop.induct)
  case (1 now deleted s)
  show ?case
  proof (cases "ms_expires s = [] \<or> now < snd (ms_expires s ! 0)")
    case True
    then have s': "s' = s" using 1(5) by (subst (asm) reclaim_loop.simps) auto
    have "\<forall>k c. checkpoints s k = Some c \<longrightarrow> now < the (cp_ExpiresAt c)"
      using first_deadline [OF 1(4)] True by fastforce
    then show ?thesis using 1(4) s' by (simp add: unexpired_id)
  next
    case False
    obtain entry rest where pop: "heap_pop snd (ms_expires s) = (entry, rest)" by fastforce
    from False have ne: "ms_expires s \<noteq> []" by simp
    obtain r where r: "map_of (ms_records s) (fst entry) = Some r"
        "cp_ExpiresAt (sc_checkpoint r) = Some (snd entry)"
        "store_ok p (deleteRecord (fst entry) r (s\<lparr>ms_expires := rest\<rparr>))"
      using 1(4) ne pop by (rule popped_record)
    have x: "record_expired now r" using r(2) False heap_pop_parts(1) [OF ne pop] by (simp add: record_expired_def)
    then have "reclaim_loop now True (deleteRecord (fst entry) r (s\<lparr>ms_expires := rest\<rparr>)) = (d, s')"
      using 1(5) False pop r(1) by (subst (asm) reclaim_loop.simps) simp
    then have "store_ok p s' \<and> checkpoints s' =
          unexpired now (checkpoints (deleteRecord (fst entry) r (s\<lparr>ms_expires := rest\<rparr>))) \<and> ms_self s' = ms_self s"
      using 1(2) [OF False pop [symmetric] refl _ _ x r(3)] r(1) by (simp add: fun_upd_def)
    moreover have "unexpired now ((checkpoints s)(fst entry := None)) = unexpired now (checkpoints s)"
      using r(1,2) x by (intro unexpired_delete) (auto simp: checkpoints_def stored_value_def record_expired_def)
    ultimately show ?thesis by simp
  qed
qed

lemma reclaimExpired_ok:
  assumes "store_ok p s"
  shows "store_ok p (reclaimExpired now s)" and "checkpoints (reclaimExpired now s) = unexpired now (checkpoints s)"
    and "ms_self (reclaimExpired now s) = ms_self s"
proof -
  obtain d t where t: "reclaim_loop now False s = (d, t)" by fastforce
  note ok = reclaim_loop_ok [OF assms t]
  have e: "reclaimExpired now s = (if d then sweepVisibleHistory t else t)"
    by (simp add: reclaimExpired_def t)
  show "store_ok p (reclaimExpired now s)" using ok store_ok_sweep e by auto
  show "checkpoints (reclaimExpired now s) = unexpired now (checkpoints s)" using ok e by simp
  show "ms_self (reclaimExpired now s) = ms_self s" using ok e by simp
qed

text \<open>Eviction removes exactly one record, with the earliest deadline.\<close>

lemma evictOldest_ok:
  assumes ok: "store_ok p s" and "ms_records s \<noteq> []"
  obtains k c where "checkpoints s k = Some c"
    and "\<forall>k' c'. checkpoints s k' = Some c' \<longrightarrow> the (cp_ExpiresAt c) \<le> the (cp_ExpiresAt c')"
    and "checkpoints (evictOldest s) = (checkpoints s)(k := None)" and "store_ok p (evictOldest s)"
    and "Suc (length (ms_records (evictOldest s))) = length (ms_records s)"
    and "ms_self (evictOldest s) = ms_self s"
proof -
  obtain entry rest where pop: "heap_pop snd (ms_expires s) = (entry, rest)" by fastforce
  have g: "gomap (ms_records s)" and "mset (ms_expires s) = deadlines (ms_records s)"
    using ok by (simp_all add: store_ok_def)
  then have ne: "ms_expires s \<noteq> []" using assms(2) by (auto simp: deadlines_def)
  obtain r where r: "map_of (ms_records s) (fst entry) = Some r"
      "cp_ExpiresAt (sc_checkpoint r) = Some (snd entry)"
      "store_ok p (deleteRecord (fst entry) r (s\<lparr>ms_expires := rest\<rparr>))"
      "\<forall>k c. checkpoints s k = Some c \<longrightarrow> snd entry \<le> the (cp_ExpiresAt c)"
    using ok ne pop by (rule popped_record)
  have e: "evictOldest s = sweepVisibleHistory (deleteRecord (fst entry) r (s\<lparr>ms_expires := rest\<rparr>))"
    using ne pop r by (subst evictOldest.simps) simp
  show ?thesis
  proof (rule that [of "fst entry" "stored_value r"])
    show "Suc (length (ms_records (evictOldest s))) = length (ms_records s)"
      using length_delete_gomap [OF g r(1)] by (simp add: e)
  qed (use r e store_ok_sweep in \<open>auto simp: checkpoints_def [of s] stored_value_def\<close>)
qed

section \<open>Storing a record\<close>

lemma insert_stored_fields [simp]:
  "ms_self (insert_stored key st vk base s) = ms_self s"
  "ms_records (insert_stored key st vk base s) = AList.update key st (ms_records s)"
  "ms_expires (insert_stored key st vk base s) =
     heap_push snd (key, the (cp_ExpiresAt (sc_checkpoint st))) (ms_expires s)"
  "ms_visibleHistory (insert_stored key st vk base s) =
     (case vk of None \<Rightarrow> ms_visibleHistory s | Some k \<Rightarrow> AList.update k base (ms_visibleHistory s))"
  by (simp_all add: insert_stored_def index_history_def Let_def split: option.splits)

lemma checkpoints_insert_stored [simp]:
  "checkpoints (insert_stored key st vk base s) = (checkpoints s)(key \<mapsto> stored_value st)"
  by (auto simp: checkpoints_def gomap_simps fun_eq_iff)

lemma members_insert_stored:
  "members_of (insert_stored (w, i) st vk base s) (v, h) =
    (if w = v \<and> cp_History (sc_checkpoint st) = Some h then List.insert i (members_of s (v, h))
     else members_of s (v, h))"
  by (auto simp: members_of_def insert_stored_def index_history_def Let_def gomap_simps split: option.splits)

lemma history_ids_insert_stored:
  assumes "map_of (ms_records s) (w, i) = None"
  shows "history_ids (insert_stored (w, i) st vk base s) v h =
    (if w = v \<and> cp_History (sc_checkpoint st) = Some h then insert i (history_ids s v h) else history_ids s v h)"
  using assms by (auto simp: history_ids_def gomap_simps)

lemma index_insert_stored:
  assumes "index_ok s" and "map_of (ms_records s) key = None"
  shows "index_ok (insert_stored key st vk base s)"
proof -
  obtain w i where k: "key = (w, i)" by (cases key)
  let ?s = "insert_stored key st vk base s"
  have "gomap (ms_byHistory ?s)"
    using assms(1) by (auto simp: index_ok_def insert_stored_def index_history_def Let_def split: option.splits)
  moreover have "\<forall>x. map_of (ms_byHistory ?s) x \<noteq> Some []"
    using assms(1) unfolding index_ok_def
    by (auto simp: insert_stored_def index_history_def Let_def gomap_simps List.insert_def
        split: option.splits if_splits)
  moreover have "set (members_of ?s (v, h)) = history_ids ?s v h \<and> distinct (members_of ?s (v, h))" for v h
    using assms(1) unfolding k members_insert_stored history_ids_insert_stored [OF assms(2) [unfolded k]]
    by (simp add: index_ok_def)
  ultimately show ?thesis by (simp add: index_ok_def)
qed

lemma update_missing: "map_of m k = None \<Longrightarrow> AList.update k v m = m @ [(k, v)]"
  by (induction m) (auto split: if_splits)

lemma store_ok_insert_stored:
  assumes ok: "store_ok p s" and new: "map_of (ms_records s) key = None"
    and room: "length (ms_records s) < maxMemoryStoreRecords"
    and st: "record_ok p (ms_self s) key st" and base: "tail_ok base"
  shows "store_ok p (insert_stored key st vk base s)"
proof -
  note u = update_missing [OF new, of st]
  have "gomap (ms_records s @ [(key, st)])" using ok new by (auto simp: store_ok_def map_of_eq_None_iff)
  moreover have "mset (heap_push snd (key, the (cp_ExpiresAt (sc_checkpoint st))) (ms_expires s)) =
      deadlines (ms_records s @ [(key, st)])"
    using ok by (simp add: store_ok_def heap_queue.push_elements deadlines_def)
  moreover have "index_ok (insert_stored key st vk base s)"
    using ok new by (simp add: store_ok_def index_insert_stored)
  moreover have "gomap (ms_visibleHistory (insert_stored key st vk base s))"
    using ok by (auto simp: store_ok_def split: option.splits)
  moreover have "\<forall>(k, t) \<in> set (ms_visibleHistory (insert_stored key st vk base s)). tail_ok t"
    using ok base by (auto simp: store_ok_def set_update_gomap split: option.splits)
  ultimately show ?thesis
    using ok st room by (auto simp: store_ok_def u heap_queue.push_ordered)
qed

text \<open>
  The evidence for storage reuse is sound when the segment it resolves to holds the prefix of the
  retained history that it replaces.
\<close>

definition reuse_sound :: "'c memoryStore \<Rightarrow> string \<Rightarrow> StorageReuse \<Rightarrow> CanonicalItem list \<Rightarrow> bool" where
  "reuse_sound s w reuse retained \<longleftrightarrow>
     (case resolveStorageReuse s w reuse retained of
        Inl _ \<Rightarrow> True
      | Inr (base, prefix, vk, addr) \<Rightarrow> tail_ok base \<and> tail_items base = take prefix retained)"

text \<open>Room for one more checkpoint: at the limit, one with the earliest deadline goes.\<close>

definition makes_room ::
    "(workspaceRecordID \<rightharpoonup> 'c Checkpoint) \<Rightarrow> (workspaceRecordID \<rightharpoonup> 'c Checkpoint) \<Rightarrow> bool" where
  "makes_room m m' \<longleftrightarrow>
     (if card (dom m) < maxMemoryStoreRecords then m' = m
      else \<exists>k c. m k = Some c \<and> m' = m(k := None) \<and>
        (\<forall>k' c'. m k' = Some c' \<longrightarrow> the (cp_ExpiresAt c) \<le> the (cp_ExpiresAt c')))"

lemma card_checkpoints: "gomap (ms_records s) \<Longrightarrow> card (dom (checkpoints s)) = length (ms_records s)"
proof -
  assume g: "gomap (ms_records s)"
  have "dom (checkpoints s) = dom (map_of (ms_records s))" by (auto simp: checkpoints_def dom_def)
  also have "\<dots> = set (map fst (ms_records s))" by (simp add: dom_map_of_conv_image_fst)
  finally show ?thesis using distinct_card [OF g] by simp
qed

lemma make_room_ok:
  assumes ok: "store_ok p s" and s': "s' = (if length (ms_records s) \<ge> maxMemoryStoreRecords then evictOldest s else s)"
  shows "store_ok p s' \<and> makes_room (checkpoints s) (checkpoints s') \<and>
    length (ms_records s') < maxMemoryStoreRecords \<and> ms_self s' = ms_self s"
proof (cases "length (ms_records s) \<ge> maxMemoryStoreRecords")
  case True
  have g: "gomap (ms_records s)" "length (ms_records s) \<le> maxMemoryStoreRecords" using ok by (simp_all add: store_ok_def)
  have "ms_records s \<noteq> []" using True by (auto simp: maxMemoryStoreRecords_def)
  with ok show ?thesis
    by (rule evictOldest_ok) (use True g s' card_checkpoints [OF g(1)] in \<open>auto simp: makes_room_def\<close>)
next
  case False
  then show ?thesis using ok s' card_checkpoints [of s] by (auto simp: makes_room_def store_ok_def)
qed

lemma makes_room_le: "makes_room m m' \<Longrightarrow> m k = None \<Longrightarrow> m' k = None"
  by (auto simp: makes_room_def split: if_splits)

text \<open>The checkpoint as the store returns it: it names its own tail for the next commit.\<close>

definition issued :: "nat \<Rightarrow> string \<Rightarrow> historySegment option \<Rightarrow> 'c Checkpoint \<Rightarrow> 'c Checkpoint" where
  "issued self w tail c = c\<lparr>cp_storageReuse := \<lparr>sr_token = Some (memoryStorageReuse self w tail),
     sr_history = None, sr_prefixLength = 0\<rparr>\<rparr>"

lemma put_record_locked_Inr:
  assumes "put_record_locked p w reuse record s = (s', Inr u)"
  obtains pl history base prefix vk addr rt a1 tail a2 where
    "map_of (ms_records s) (w, response_id record) = None"
    and "SplitRequestPrelude (rq_items (cp_Request record)) = Inr (pl, history)"
    and "resolveStorageReuse s w reuse (RetainedHistory (rq_items (cp_Request record))) =
      Inr (base, prefix, vk, addr)"
    and "appendSegment addr base (drop prefix (RetainedHistory (rq_items (cp_Request record)))) = (rt, a1)"
    and "appendSegment a1 rt (cr_items (cp_Response record)) = (tail, a2)"
    and "s' = insert_stored (w, response_id record)
      \<lparr>sc_checkpoint = issued (ms_self s) w tail (record\<lparr>cp_Request := WithItems p (cp_Request record) []\<rparr>),
       sc_prelude = pl_items pl, sc_requestTail = rt, sc_afterTail = tail\<rparr> vk base
      (if length (ms_records s) \<ge> maxMemoryStoreRecords then evictOldest (s\<lparr>ms_next := a2\<rparr>) else s\<lparr>ms_next := a2\<rparr>)"
  using assms that
  by (simp add: put_record_locked_def Let_def issued_def split: if_splits sum.splits prod.splits)

lemma put_record_locked_Inl:
  "put_record_locked p w reuse record s = (s', Inl e) \<Longrightarrow> s' = s"
  by (simp add: put_record_locked_def Let_def split: if_splits sum.splits prod.splits)

lemma store_ok_next: "store_ok p (s\<lparr>ms_next := a\<rparr>) = store_ok p s"
  using index_ok_cong [of "s\<lparr>ms_next := a\<rparr>" s] by (simp add: store_ok_def)

lemma checkpoints_next [simp]: "checkpoints (s\<lparr>ms_next := a\<rparr>) = checkpoints s"
  by (simp add: checkpoints_def fun_eq_iff)

lemma put_record_locked_ok:
  assumes ok: "store_ok p s" and norm: "NewCanonicalRequest p (cp_Request record) = cp_Request record"
    and exp: "cp_ExpiresAt record \<noteq> None"
    and sound: "reuse_sound s w reuse (RetainedHistory (rq_items (cp_Request record)))"
    and put: "put_record_locked p w reuse record s = (s', Inr u)"
  shows "store_ok p s'" and "ms_self s' = ms_self s" and "checkpoints s (w, response_id record) = None"
    and "\<exists>m tail. makes_room (checkpoints s) m \<and>
      checkpoints s' = m((w, response_id record) \<mapsto> issued (ms_self s) w tail record)"
proof -
  let ?items = "rq_items (cp_Request record)"
  let ?key = "(w, response_id record)"
  obtain pl history base prefix vk addr rt a1 tail a2 where
    new: "map_of (ms_records s) ?key = None"
    and split: "SplitRequestPrelude ?items = Inr (pl, history)"
    and reuse: "resolveStorageReuse s w reuse (RetainedHistory ?items) = Inr (base, prefix, vk, addr)"
    and rt: "appendSegment addr base (drop prefix (RetainedHistory ?items)) = (rt, a1)"
    and tail: "appendSegment a1 rt (cr_items (cp_Response record)) = (tail, a2)"
    and s': "s' = insert_stored ?key
      \<lparr>sc_checkpoint = issued (ms_self s) w tail (record\<lparr>cp_Request := WithItems p (cp_Request record) []\<rparr>),
       sc_prelude = pl_items pl, sc_requestTail = rt, sc_afterTail = tail\<rparr> vk base
      (if length (ms_records s) \<ge> maxMemoryStoreRecords then evictOldest (s\<lparr>ms_next := a2\<rparr>) else s\<lparr>ms_next := a2\<rparr>)"
    using put by (rule put_record_locked_Inr)
  define st where "st = \<lparr>sc_checkpoint = issued (ms_self s) w tail
      (record\<lparr>cp_Request := WithItems p (cp_Request record) []\<rparr>),
     sc_prelude = pl_items pl, sc_requestTail = rt, sc_afterTail = tail\<rparr>"
  define t where "t = (if length (ms_records s) \<ge> maxMemoryStoreRecords
     then evictOldest (s\<lparr>ms_next := a2\<rparr>) else s\<lparr>ms_next := a2\<rparr>)"
  have s'': "s' = insert_stored ?key st vk base t" by (simp add: s' st_def t_def)
  have base: "tail_ok base" "tail_items base = take prefix (RetainedHistory ?items)"
    using sound reuse by (simp_all add: reuse_sound_def)
  note rt_ok = appendSegment_ok [OF rt base(1)]
  note tail_ok = appendSegment_ok [OF tail rt_ok(1)]
  have req: "tail_items rt = RetainedHistory ?items" using rt_ok(2) base(2) by simp
  have t: "store_ok p t" "makes_room (checkpoints s) (checkpoints t)"
      "length (ms_records t) < maxMemoryStoreRecords" "ms_self t = ms_self s"
    using make_room_ok [of p "s\<lparr>ms_next := a2\<rparr>" t] ok by (simp_all add: store_ok_next t_def)
  show c: "checkpoints s ?key = None" using new by (simp add: checkpoints_def)
  then have "checkpoints t ?key = None" using t(2) makes_room_le by blast
  then have new': "map_of (ms_records t) ?key = None" by (simp add: checkpoints_def)
  have "record_ok p (ms_self t) ?key st"
    using rt_ok tail_ok req norm exp SplitRequestPrelude_ok [OF split]
    by (simp add: record_ok_def st_def issued_def t(4) WithItems_def)
  then show "store_ok p s'" unfolding s'' using t(1,3) new' base(1) by (intro store_ok_insert_stored)
  show "ms_self s' = ms_self s" by (simp add: s'' t(4))
  have "stored_value st = issued (ms_self s) w tail record"
    using SplitRequestPrelude_ok [OF split] norm req
    by (simp add: stored_value_def st_def issued_def WithItems_def)
  then show "\<exists>m tail. makes_room (checkpoints s) m \<and>
      checkpoints s' = m(?key \<mapsto> issued (ms_self s) w tail record)"
    using t(2) unfolding s'' checkpoints_insert_stored by auto
qed

end
