(* ===== verification/Checkpoint_Run.thy ===== *)
theory Checkpoint_Run
  imports Checkpoint_Refine
begin

text \<open>
  Runs of the checkpoint store: what its interface \<^verbatim>\<open>Store\<close> promises, as the locale
  \<open>checkpoint_store\<close> over the map of self-contained checkpoints, and that the memory store keeps
  these promises in every run in which the evidence for storage reuse is what the callers of the
  package can have.
\<close>

section \<open>The interface\<close>

text \<open>Two checkpoints with the same content; the storage token is private to the store.\<close>

definition same_checkpoint :: "'c Checkpoint \<Rightarrow> 'c Checkpoint \<Rightarrow> bool" where
  "same_checkpoint c d \<longleftrightarrow> c\<lparr>cp_storageReuse := zeroReuse\<rparr> = d\<lparr>cp_storageReuse := zeroReuse\<rparr>"

lemma same_checkpoint_fields:
  assumes "same_checkpoint c d"
  shows "cp_Request d = cp_Request c" "cp_Response d = cp_Response c" "cp_History d = cp_History c"
    "cp_ExecutionAffinity d = cp_ExecutionAffinity c" "cp_CreatedAt d = cp_CreatedAt c"
    "cp_ExpiresAt d = cp_ExpiresAt c"
  using assms by (cases c; cases d; simp add: same_checkpoint_def)+

text \<open>The record that a commit stores, for the two clock readings of its preparation.\<close>

definition prepared ::
    "platform \<Rightarrow> int \<times> int \<times> int \<Rightarrow> 'c Commit \<Rightarrow> go_error + 'c Checkpoint" where
  "prepared p moments commit =
     prepareRecord (fst moments) (fst (snd moments)) (checkpoint_Clone p (cm_Checkpoint commit))"

locale checkpoint_store =
  fixes p :: platform
    and get :: "int \<Rightarrow> string \<Rightarrow> SwobuResponseID \<Rightarrow> 's \<Rightarrow> 's \<times> (go_error + 'c Checkpoint option)"
    and find :: "int \<Rightarrow> string \<Rightarrow> History \<Rightarrow> 's \<Rightarrow> 's \<times> (go_error + 'c Checkpoint option)"
    and put :: "int \<times> int \<times> int \<Rightarrow> string \<Rightarrow> 'c Commit \<Rightarrow> 's \<Rightarrow> 's \<times> (go_error + unit)"
    and contents :: "'s \<Rightarrow> workspaceRecordID \<rightharpoonup> 'c Checkpoint"
    and valid :: "'s \<Rightarrow> bool" and sound :: "'s \<Rightarrow> string \<Rightarrow> 'c Commit \<Rightarrow> bool"
  assumes get_law: "valid s \<Longrightarrow> normalizeWorkspace ws = Inr w \<Longrightarrow> get now ws i s = (s', r) \<Longrightarrow>
      valid s' \<and> contents s' = unexpired now (contents s) \<and> r = Inr (unexpired now (contents s) (w, i))"
    and find_law: "valid s \<Longrightarrow> normalizeWorkspace ws = Inr w \<Longrightarrow> hs_scheme h \<noteq> [] \<Longrightarrow> find now ws h s = (s', r) \<Longrightarrow>
      valid s' \<and> contents s' = unexpired now (contents s) \<and>
      (let ids = {i. \<exists>c. unexpired now (contents s) (w, i) = Some c \<and> cp_History c = Some h}
       in r = Inr (if is_singleton ids then unexpired now (contents s) (w, the_elem ids) else None))"
    and put_law: "valid s \<Longrightarrow> normalizeWorkspace ws = Inr w \<Longrightarrow> sound s w commit \<Longrightarrow>
      put moments ws commit s = (s', Inr u) \<Longrightarrow>
      valid s' \<and> (\<exists>rcd m c. prepared p moments commit = Inr rcd \<and> same_checkpoint rcd c \<and>
        unexpired (snd (snd moments)) (contents s) (w, response_id rcd) = None \<and>
        makes_room (unexpired (snd (snd moments)) (contents s)) m \<and>
        contents s' = m((w, response_id rcd) \<mapsto> c))"
begin

text \<open>A successful commit can be loaded until its deadline, exactly as it was prepared.\<close>

lemma get_after_put:
  assumes "valid s" and "normalizeWorkspace ws = Inr w" and "sound s w commit"
    and "put moments ws commit s = (s', Inr u)" and "prepared p moments commit = Inr rcd"
    and "now < the (cp_ExpiresAt rcd)" and "get now ws (response_id rcd) s' = (s'', r)"
  shows "\<exists>c. r = Inr (Some c) \<and> same_checkpoint rcd c"
proof -
  obtain m c where c: "valid s'" "same_checkpoint rcd c" "contents s' = m((w, response_id rcd) \<mapsto> c)"
    using put_law [OF assms(1-4)] assms(5) by auto
  have "cp_ExpiresAt c = cp_ExpiresAt rcd"
    using c(2) by (rule same_checkpoint_fields)
  then have "unexpired now (contents s') (w, response_id rcd) = Some c"
    using c(3) assms(6) by (simp add: unexpired_def)
  then show ?thesis using get_law [OF c(1) assms(2,7)] c(2) by simp
qed

text \<open>Checkpoints are immutable: a commit under the identifier of a live one is refused.\<close>

lemma put_live_refused:
  assumes "valid s" and "normalizeWorkspace ws = Inr w" and "sound s w commit"
    and "prepared p moments commit = Inr rcd"
    and "unexpired (snd (snd moments)) (contents s) (w, response_id rcd) = Some c"
  shows "snd (put moments ws commit s) \<noteq> Inr u"
proof
  assume "snd (put moments ws commit s) = Inr u"
  then have "put moments ws commit s = (fst (put moments ws commit s), Inr u)" by (simp add: prod_eq_iff)
  from put_law [OF assms(1-3) this] show False using assms(4,5) by auto
qed

text \<open>Loading again, at a later time, gives the same checkpoint or nothing.\<close>

lemma get_again:
  assumes "valid s" and "normalizeWorkspace ws = Inr w"
    and "get now ws i s = (s', Inr (Some c))" and "get now' ws i s' = (s'', r)" and "now < now'"
  shows "r = Inr (if now' < the (cp_ExpiresAt c) then Some c else None)"
proof -
  have g: "valid s'" "contents s' = unexpired now (contents s)" "contents s' (w, i) = Some c"
    using get_law [OF assms(1-3)] by auto
  have "unexpired now' (contents s') (w, i) = (if now' < the (cp_ExpiresAt c) then Some c else None)"
    using g(3) by (simp add: unexpired_def)
  then show ?thesis using get_law [OF g(1) assms(2,4)] by simp
qed

end

section \<open>The memory store provides it\<close>

definition reuse_valid :: "platform \<Rightarrow> 'c memoryStore \<Rightarrow> string \<Rightarrow> 'c Commit \<Rightarrow> bool" where
  "reuse_valid p s w commit \<longleftrightarrow>
     (\<forall>now. reuse_sound (reclaimExpired now s) w (cm_Reuse commit)
       (RetainedHistory (rq_items (cp_Request (cm_Checkpoint commit)))))"

lemma store_Get_law:
  assumes "store_ok p s" and "normalizeWorkspace ws = Inr w" and "store_Get p now ws i s = (s', r)"
  shows "store_ok p s' \<and> checkpoints s' = unexpired now (checkpoints s) \<and>
    r = Inr (unexpired now (checkpoints s) (w, i))"
proof -
  let ?t = "reclaimExpired now s"
  note t = reclaimExpired_ok [OF assms(1), of now]
  have s': "s' = ?t" using assms(2,3) by (simp add: store_Get_def Let_def)
  have "r = Inr (checkpoints ?t (w, i))"
  proof (cases "map_of (ms_records ?t) (w, i)")
    case None
    then show ?thesis using assms(2,3) by (auto simp: store_Get_def Let_def checkpoints_def)
  next
    case (Some st)
    then have "materializeStoredCheckpoint p st = Inr (stored_value st)"
      using materialize_record record_okI [OF t(1)] by blast
    then show ?thesis using assms(2,3) Some by (auto simp: store_Get_def Let_def checkpoints_def)
  qed
  then show ?thesis using t s' by simp
qed

lemma history_ids_checkpoints:
  "history_ids s w h = {i. \<exists>c. checkpoints s (w, i) = Some c \<and> cp_History c = Some h}"
  by (auto simp: history_ids_def checkpoints_def stored_value_def)

lemma distinct_singleton: "distinct xs \<Longrightarrow> (\<exists>x. xs = [x]) \<longleftrightarrow> is_singleton (set xs)"
  by (cases xs rule: remdups_adj.cases) (auto simp: is_singleton_def)

lemma store_FindByHistory_law:
  assumes ok: "store_ok p s" and ws: "normalizeWorkspace ws = Inr w" and h: "hs_scheme h \<noteq> []"
    and find: "store_FindByHistory p now ws h s = (s', r)"
  shows "store_ok p s' \<and> checkpoints s' = unexpired now (checkpoints s) \<and>
    (let ids = {i. \<exists>c. unexpired now (checkpoints s) (w, i) = Some c \<and> cp_History c = Some h}
     in r = Inr (if is_singleton ids then unexpired now (checkpoints s) (w, the_elem ids) else None))"
proof -
  let ?t = "reclaimExpired now s"
  let ?ids = "history_ids ?t w h"
  note t = reclaimExpired_ok [OF ok, of now]
  have ids: "?ids = {i. \<exists>c. unexpired now (checkpoints s) (w, i) = Some c \<and> cp_History c = Some h}"
    by (simp add: history_ids_checkpoints t(2))
  have m: "set (members_of ?t (w, h)) = ?ids" "distinct (members_of ?t (w, h))"
    using t(1) by (simp_all add: store_ok_def index_ok_def)
  have s': "s' = ?t" using ws h find by (simp add: store_FindByHistory_def Let_def)
  have "r = Inr (if is_singleton ?ids then checkpoints ?t (w, the_elem ?ids) else None)"
  proof (cases "is_singleton ?ids")
    case True
    then obtain i where i: "members_of ?t (w, h) = [i]" using distinct_singleton [OF m(2)] m(1) by auto
    then have e: "map_of (ms_byHistory ?t) (w, h) = Some [i]" "?ids = {i}"
      using m(1) by (auto simp: members_of_def split: option.splits)
    then obtain st where st: "map_of (ms_records ?t) (w, i) = Some st" by (auto simp: history_ids_def)
    then have "materializeStoredCheckpoint p st = Inr (stored_value st)"
      using materialize_record record_okI [OF t(1)] by blast
    then show ?thesis
      using ws h find e st by (auto simp: store_FindByHistory_def Let_def checkpoints_def is_singleton_def)
  next
    case False
    then have "\<nexists>i. map_of (ms_byHistory ?t) (w, h) = Some [i]"
      using distinct_singleton [OF m(2)] m(1) by (auto simp: members_of_def)
    then have "r = Inr None"
      using ws h find by (auto simp: store_FindByHistory_def Let_def split: option.splits list.splits)
    then show ?thesis using False by simp
  qed
  then show ?thesis using t s' ids by (simp add: Let_def)
qed

lemma prepareRecord_ok:
  "prepareRecord now1 now2 r = Inr r' \<Longrightarrow>
   \<exists>e. r' = r\<lparr>cp_ExpiresAt := Some e\<rparr> \<and> now2 < e \<and> (cp_ExpiresAt r = Some e \<or>
     cp_ExpiresAt r = None \<and> e = now1 + defaultCheckpointTTL) \<and>
     ValidateCommittedResponse (cr_response (cp_Response r)) = Inr ()"
  by (cases "cp_ExpiresAt r") (force simp: prepareRecord_def Let_def split: sum.splits if_splits)+

lemma store_Put_law:
  assumes ok: "store_ok p s" and ws: "normalizeWorkspace ws = Inr w" and sound: "reuse_valid p s w commit"
    and put: "store_Put p moments ws commit s = (s', Inr u)"
  shows "store_ok p s' \<and> (\<exists>rcd m c. prepared p moments commit = Inr rcd \<and> same_checkpoint rcd c \<and>
      unexpired (snd (snd moments)) (checkpoints s) (w, response_id rcd) = None \<and>
      makes_room (unexpired (snd (snd moments)) (checkpoints s)) m \<and>
      checkpoints s' = m((w, response_id rcd) \<mapsto> c))"
proof -
  let ?t = "reclaimExpired (snd (snd moments)) s"
  note t = reclaimExpired_ok [OF ok, of "snd (snd moments)"]
  obtain rcd where r: "prepared p moments commit = Inr rcd"
      "put_record_locked p w (cm_Reuse commit) rcd ?t = (s', Inr u)"
    using put ws by (auto simp: store_Put_def prepared_def split: sum.splits)
  have pr: "cp_ExpiresAt rcd \<noteq> None"
      "cp_Request rcd = NewCanonicalRequest p (cp_Request (cm_Checkpoint commit))"
    using prepareRecord_ok [OF r(1) [unfolded prepared_def]]
    by (auto simp: checkpoint_Clone_def)
  have "reuse_sound ?t w (cm_Reuse commit) (RetainedHistory (rq_items (cp_Request rcd)))"
    using sound pr(2) by (simp add: reuse_valid_def)
  note put_ok = put_record_locked_ok [OF t(1) _ pr(1) this r(2)]
  have "same_checkpoint rcd (issued self w tail rcd)" for self tail
    by (simp add: same_checkpoint_def issued_def)
  then show ?thesis using put_ok pr(2) r(1) t(2) by auto
qed

interpretation memory: checkpoint_store p "store_Get p" "store_FindByHistory p" "store_Put p" checkpoints
  "store_ok p" "reuse_valid p" for p
  using store_Get_law store_FindByHistory_law store_Put_law by unfold_locales blast+

section \<open>Evidence that callers can have\<close>

text \<open>The history a checkpoint stands for: what it retained of its request, and its response.\<close>

definition checkpoint_history :: "'c Checkpoint \<Rightarrow> CanonicalItem list" where
  "checkpoint_history c = RetainedHistory (rq_items (cp_Request c)) @ cr_items (cp_Response c)"

text \<open>
  Storage reuse as the exchange obtains it: none, a checkpoint \<open>c\<close> that the store returned for the
  same workspace and whose history begins the retained items, or a visible history. For the last
  one \<open>visible\<close> gives the items that a history fingerprint stands for; that equal fingerprints
  mean equal items is the caller's obligation.
\<close>

definition legitimate ::
    "(workspaceHistoryKey \<Rightarrow> CanonicalItem list) \<Rightarrow> (string \<times> 'c Checkpoint) set \<Rightarrow> string \<Rightarrow>
     StorageReuse \<Rightarrow> CanonicalItem list \<Rightarrow> bool" where
  "legitimate visible delivered w reuse retained \<longleftrightarrow>
     reuse = zeroReuse \<or>
     (\<exists>c. (w, c) \<in> delivered \<and> reuse = ReuseCheckpoint c \<and>
        take (length (checkpoint_history c)) retained = checkpoint_history c) \<or>
     (\<exists>h n. reuse = ReuseVisibleHistory h n \<and> take (nat n) retained = visible (w, h))"

text \<open>The checkpoints an operation hands out.\<close>

definition handed_out :: "string \<Rightarrow> go_error + 'c Checkpoint option \<Rightarrow> (string \<times> 'c Checkpoint) set" where
  "handed_out ws r = {(w, c). normalizeWorkspace ws = Inr w \<and> r = Inr (Some c)}"

inductive store_run ::
    "platform \<Rightarrow> (workspaceHistoryKey \<Rightarrow> CanonicalItem list) \<Rightarrow> nat \<Rightarrow>
     'c memoryStore \<Rightarrow> (string \<times> 'c Checkpoint) set \<Rightarrow> bool"
  for p visible self where
  start: "store_run p visible self (newMemoryStore self) {}"
| got: "store_run p visible self s D \<Longrightarrow> store_Get p now ws i s = (s', r) \<Longrightarrow>
    store_run p visible self s' (D \<union> handed_out ws r)"
| found: "store_run p visible self s D \<Longrightarrow> store_FindByHistory p now ws h s = (s', r) \<Longrightarrow>
    store_run p visible self s' (D \<union> handed_out ws r)"
| committed: "store_run p visible self s D \<Longrightarrow>
    (\<And>w. normalizeWorkspace ws = Inr w \<Longrightarrow> legitimate visible D w (cm_Reuse commit)
      (RetainedHistory (rq_items (cp_Request (cm_Checkpoint commit))))) \<Longrightarrow>
    store_Put p moments ws commit s = (s', res) \<Longrightarrow> store_run p visible self s' D"

text \<open>A checkpoint from the store names a tail that holds exactly its history.\<close>

definition names_tail :: "nat \<Rightarrow> string \<Rightarrow> 'c Checkpoint \<Rightarrow> bool" where
  "names_tail self w c \<longleftrightarrow> (\<exists>tail. tail_ok tail \<and> tail_items tail = checkpoint_history c \<and>
     ReuseCheckpoint c = \<lparr>sr_token = Some (memoryStorageReuse self w tail),
       sr_history = None, sr_prefixLength = 0\<rparr>)"

definition visible_ok :: "(workspaceHistoryKey \<Rightarrow> CanonicalItem list) \<Rightarrow> 'c memoryStore \<Rightarrow> bool" where
  "visible_ok visible s \<longleftrightarrow> (\<forall>(k, t) \<in> set (ms_visibleHistory s). t \<noteq> None \<longrightarrow> tail_items t = visible k)"

lemma stored_names_tail:
  assumes "store_ok p s" and "checkpoints s (w, i) = Some c"
  shows "names_tail (ms_self s) w c"
proof -
  obtain r where r: "map_of (ms_records s) (w, i) = Some r" "c = stored_value r"
    using assms(2) unfolding checkpoints_Some by blast
  have ok: "record_ok p (ms_self s) (w, i) r" using record_okI [OF assms(1) r(1)] .
  then have "RetainedHistory (rq_items (cp_Request c)) = tail_items (sc_requestTail r)"
    using r(2) by (simp add: record_ok_def stored_value_def RetainedHistory_prelude)
  then show ?thesis
    using ok r(2)
    by (auto simp: names_tail_def record_ok_def stored_value_def checkpoint_history_def ReuseCheckpoint_def
        intro!: exI [of _ "sc_afterTail r"])
qed

lemma legitimate_sound:
  assumes ok: "store_ok p s" and vis: "visible_ok visible s"
    and D: "\<forall>(w, c) \<in> D. names_tail (ms_self s) w c"
    and legit: "legitimate visible D w reuse retained"
  shows "reuse_sound s w reuse retained"
proof -
  consider "reuse = zeroReuse"
    | c where "(w, c) \<in> D" "reuse = ReuseCheckpoint c"
        "take (length (checkpoint_history c)) retained = checkpoint_history c"
    | h n where "reuse = ReuseVisibleHistory h n" "take (nat n) retained = visible (w, h)"
    using legit unfolding legitimate_def by blast
  then show ?thesis
  proof cases
    case 1
    then show ?thesis by (simp add: reuse_sound_def resolveStorageReuse_def zeroReuse_def)
  next
    case 2
    then have "names_tail (ms_self s) w c" using D by blast
    then obtain tail where t: "tail_ok tail" "tail_items tail = checkpoint_history c"
        "reuse = \<lparr>sr_token = Some (memoryStorageReuse (ms_self s) w tail), sr_history = None, sr_prefixLength = 0\<rparr>"
      using 2(2) unfolding names_tail_def by metis
    show ?thesis
    proof (cases tail)
      case (Some a)
      then have "sg_length a = length (checkpoint_history c)" using segment_length t(1,2) by simp
      then show ?thesis using t 2(3) Some by (simp add: reuse_sound_def resolveStorageReuse_def)
    qed (use t in \<open>simp add: reuse_sound_def resolveStorageReuse_def\<close>)
  next
    case 3
    show ?thesis
    proof (cases "map_of (ms_visibleHistory s) (w, h)")
      case (Some t)
      then have "((w, h), t) \<in> set (ms_visibleHistory s)" by (rule map_of_SomeD)
      then have "tail_ok t" "t \<noteq> None \<longrightarrow> tail_items t = visible (w, h)"
        using ok vis by (auto simp: store_ok_def visible_ok_def)
      then show ?thesis
        using 3 Some by (cases t) (auto simp: reuse_sound_def resolveStorageReuse_def ReuseVisibleHistory_def
            Let_def appendSegment_def)
    qed (use 3 in \<open>auto simp: reuse_sound_def resolveStorageReuse_def ReuseVisibleHistory_def Let_def
        appendSegment_def\<close>)
  qed
qed

section \<open>Every run keeps the promises\<close>

lemma visible_ok_subset:
  "visible_ok visible s \<Longrightarrow> set (ms_visibleHistory t) \<subseteq> set (ms_visibleHistory s) \<Longrightarrow> visible_ok visible t"
  by (auto simp: visible_ok_def)

lemma visible_sweep: "set (ms_visibleHistory (sweepVisibleHistory s)) \<subseteq> set (ms_visibleHistory s)"
  by (auto simp: sweepVisibleHistory_def)

lemma visible_reclaim_loop: "ms_visibleHistory (snd (reclaim_loop now d s)) = ms_visibleHistory s"
proof (induction now d s rule: reclaim_loop.induct)
  case (1 now d s)
  then show ?case
    by (subst reclaim_loop.simps) (auto simp: Let_def split: prod.splits option.splits)
qed

lemma visible_reclaim: "set (ms_visibleHistory (reclaimExpired now s)) \<subseteq> set (ms_visibleHistory s)"
  using visible_sweep [of "snd (reclaim_loop now False s)"] visible_reclaim_loop [of now False s]
  by (auto simp: reclaimExpired_def split: prod.splits)

lemma visible_evict: "set (ms_visibleHistory (evictOldest s)) \<subseteq> set (ms_visibleHistory s)"
proof (induction s rule: evictOldest.induct)
  case (1 s)
  obtain entry rest where pop: "heap_pop snd (ms_expires s) = (entry, rest)" by fastforce
  let ?t = "s\<lparr>ms_expires := rest\<rparr>"
  show ?case
  proof (cases "ms_expires s = []")
    case True
    then show ?thesis by (subst evictOldest.simps) simp
  next
    case False
    show ?thesis
    proof (cases "map_of (ms_records s) (fst entry)")
      case None
      then have "evictOldest s = evictOldest ?t" using False pop by (subst evictOldest.simps) simp
      then show ?thesis using 1(1) [OF False pop [symmetric] refl refl] None by simp
    next
      case (Some r)
      show ?thesis
      proof (cases "cp_ExpiresAt (sc_checkpoint r) = Some (snd entry)")
        case True
        then have "evictOldest s = sweepVisibleHistory (deleteRecord (fst entry) r ?t)"
          using False pop Some by (subst evictOldest.simps) simp
        then show ?thesis using visible_sweep [of "deleteRecord (fst entry) r ?t"] by simp
      next
        case neq: False
        then have "evictOldest s = evictOldest ?t" using False pop Some by (subst evictOldest.simps) simp
        then show ?thesis using 1(2) [OF False pop [symmetric] refl refl _ neq] Some by simp
      qed
    qed
  qed
qed

lemma resolve_visible:
  assumes "resolveStorageReuse s w reuse retained = Inr (base, prefix, Some k, addr)"
  obtains h where "sr_history reuse = Some h" and "sr_token reuse = None" and "k = (w, h)"
    and "prefix = nat (sr_prefixLength reuse)"
  using assms by (auto simp: resolveStorageReuse_def Let_def
      split: option.splits storageReuseToken.splits if_splits prod.splits)

lemma visible_put:
  assumes vis: "visible_ok visible s" and ok: "gomap (ms_visibleHistory s)"
    and D: "\<forall>(w, c) \<in> D. names_tail (ms_self s) w c"
    and legit: "legitimate visible D w reuse (RetainedHistory (rq_items (cp_Request rcd)))"
    and sound: "reuse_sound s w reuse (RetainedHistory (rq_items (cp_Request rcd)))"
    and put: "put_record_locked p w reuse rcd s = (s', Inr u)"
  shows "visible_ok visible s'"
proof -
  let ?retained = "RetainedHistory (rq_items (cp_Request rcd))"
  obtain base prefix vk addr st a2 where
    reuse: "resolveStorageReuse s w reuse ?retained = Inr (base, prefix, vk, addr)"
    and s': "s' = insert_stored (w, response_id rcd) st vk base
      (if length (ms_records s) \<ge> maxMemoryStoreRecords then evictOldest (s\<lparr>ms_next := a2\<rparr>) else s\<lparr>ms_next := a2\<rparr>)"
    using put by (rule put_record_locked_Inr) blast
  have key: "tail_items base = visible k" if vk: "vk = Some k" for k
  proof -
    obtain h where h: "sr_history reuse = Some h" "sr_token reuse = None" "k = (w, h)"
        "prefix = nat (sr_prefixLength reuse)"
      using reuse [unfolded vk] by (rule resolve_visible)
    have "reuse \<noteq> zeroReuse" "\<forall>c. (w, c) \<in> D \<longrightarrow> reuse \<noteq> ReuseCheckpoint c"
      using h(1) D by (auto simp: zeroReuse_def names_tail_def)
    then obtain h' n where "reuse = ReuseVisibleHistory h' n" "take (nat n) ?retained = visible (w, h')"
      using legit unfolding legitimate_def by blast
    then show ?thesis using h reuse sound by (simp add: ReuseVisibleHistory_def reuse_sound_def)
  qed
  define t where "t = (if length (ms_records s) \<ge> maxMemoryStoreRecords
     then evictOldest (s\<lparr>ms_next := a2\<rparr>) else s\<lparr>ms_next := a2\<rparr>)"
  have t: "set (ms_visibleHistory t) \<subseteq> set (ms_visibleHistory s)"
    using visible_evict [of "s\<lparr>ms_next := a2\<rparr>"] by (auto simp: t_def)
  then have "visible_ok visible t" using vis visible_ok_subset by blast
  moreover have "set (AList.update k b m) \<subseteq> insert (k, b) (set m)" for k b and m :: "(workspaceHistoryKey \<times> historySegment option) list"
    by (induction m) (auto split: if_splits)
  ultimately show ?thesis
    using key unfolding s' t_def [symmetric] by (fastforce simp: visible_ok_def split: option.splits)
qed

definition run_ok ::
    "platform \<Rightarrow> (workspaceHistoryKey \<Rightarrow> CanonicalItem list) \<Rightarrow> nat \<Rightarrow> 'c memoryStore \<Rightarrow>
     (string \<times> 'c Checkpoint) set \<Rightarrow> bool" where
  "run_ok p visible self s D \<longleftrightarrow> store_ok p s \<and> ms_self s = self \<and> visible_ok visible s \<and>
     (\<forall>(w, c) \<in> D. names_tail self w c)"

lemma unexpired_Some: "unexpired now m k = Some c \<Longrightarrow> m k = Some c"
  by (auto simp: unexpired_def split: option.splits if_splits)

lemma run_ok_expire:
  assumes "run_ok p visible self s D"
  shows "run_ok p visible self (reclaimExpired now s) D"
  using assms reclaimExpired_ok [of p s now] visible_ok_subset [OF _ visible_reclaim]
  by (auto simp: run_ok_def)

lemma run_ok_load:
  assumes "run_ok p visible self s D" and "s' = s \<or> s' = reclaimExpired now s"
    and "\<And>w c. normalizeWorkspace ws = Inr w \<Longrightarrow> r = Inr (Some c) \<Longrightarrow> \<exists>i. checkpoints s (w, i) = Some c"
  shows "run_ok p visible self s' (D \<union> handed_out ws r)"
proof -
  have "run_ok p visible self s' D" using assms(1,2) run_ok_expire by blast
  moreover have "names_tail self w c" if h: "(w, c) \<in> handed_out ws r" for w c
  proof -
    have "\<exists>i. checkpoints s (w, i) = Some c" using h by (intro assms(3)) (simp_all add: handed_out_def)
    then obtain i where "checkpoints s (w, i) = Some c" ..
    then show ?thesis using stored_names_tail assms(1) by (metis run_ok_def)
  qed
  ultimately show ?thesis by (auto simp: run_ok_def)
qed

lemma run_ok_Get:
  assumes ok: "run_ok p visible self s D" and g: "store_Get p now ws i s = (s', r)"
  shows "run_ok p visible self s' (D \<union> handed_out ws r)"
proof (rule run_ok_load [OF ok])
  show "s' = s \<or> s' = reclaimExpired now s" using g by (auto simp: store_Get_def Let_def split: sum.splits)
  fix w c assume w: "normalizeWorkspace ws = Inr w" and c: "r = Inr (Some c)"
  have "store_ok p s" using ok by (simp add: run_ok_def)
  from store_Get_law [OF this w g] c show "\<exists>i. checkpoints s (w, i) = Some c"
    using unexpired_Some [of now "checkpoints s" "(w, i)" c] by auto
qed

lemma run_ok_Find:
  assumes ok: "run_ok p visible self s D" and g: "store_FindByHistory p now ws h s = (s', r)"
  shows "run_ok p visible self s' (D \<union> handed_out ws r)"
proof (rule run_ok_load [OF ok])
  show "s' = s \<or> s' = reclaimExpired now s"
    using g by (auto simp: store_FindByHistory_def Let_def split: sum.splits if_splits)
  fix w c assume w: "normalizeWorkspace ws = Inr w" and c: "r = Inr (Some c)"
  have "hs_scheme h \<noteq> []" using g w c by (auto simp: store_FindByHistory_def)
  moreover have "store_ok p s" using ok by (simp add: run_ok_def)
  ultimately have "r = Inr None \<or> (\<exists>i. r = Inr (unexpired now (checkpoints s) (w, i)))"
    using store_FindByHistory_law [OF _ w _ g] by (auto simp: Let_def split: if_splits)
  then show "\<exists>i. checkpoints s (w, i) = Some c" using c unexpired_Some by (metis Inr_inject option.distinct(1))
qed

lemma run_ok_sound:
  assumes "run_ok p visible self s D" and "legitimate visible D w (cm_Reuse commit)
    (RetainedHistory (rq_items (cp_Request (cm_Checkpoint commit))))"
  shows "reuse_valid p s w commit"
  unfolding reuse_valid_def
proof
  fix now
  have "run_ok p visible self (reclaimExpired now s) D" using assms(1) by (rule run_ok_expire)
  then show "reuse_sound (reclaimExpired now s) w (cm_Reuse commit)
      (RetainedHistory (rq_items (cp_Request (cm_Checkpoint commit))))"
    using legitimate_sound assms(2) by (metis run_ok_def)
qed

lemma store_Put_cases:
  assumes "store_Put p moments ws commit s = (s', res)"
  obtains "s' = s" | "s' = reclaimExpired (snd (snd moments)) s"
  | w rcd u where "normalizeWorkspace ws = Inr w" "prepared p moments commit = Inr rcd" "res = Inr u"
      "put_record_locked p w (cm_Reuse commit) rcd (reclaimExpired (snd (snd moments)) s) = (s', Inr u)"
proof (cases "normalizeWorkspace ws")
  case (Inl e)
  then show ?thesis using assms that by (simp add: store_Put_def)
next
  case w: (Inr w)
  show ?thesis
  proof (cases "prepared p moments commit")
    case (Inl e)
    then show ?thesis using assms w that by (simp add: store_Put_def prepared_def)
  next
    case r: (Inr rcd)
    then have put: "put_record_locked p w (cm_Reuse commit) rcd (reclaimExpired (snd (snd moments)) s) = (s', res)"
      using assms w by (simp add: store_Put_def prepared_def)
    then show ?thesis using that w r put_record_locked_Inl by (cases res) blast+
  qed
qed

lemma prepared_request:
  "prepared p moments commit = Inr rcd \<Longrightarrow>
   cp_Request rcd = NewCanonicalRequest p (cp_Request (cm_Checkpoint commit))"
  unfolding prepared_def by (drule prepareRecord_ok) (auto simp: checkpoint_Clone_def)

lemma run_ok_Put:
  assumes ok: "run_ok p visible self s D"
    and legit: "\<And>w. normalizeWorkspace ws = Inr w \<Longrightarrow> legitimate visible D w (cm_Reuse commit)
      (RetainedHistory (rq_items (cp_Request (cm_Checkpoint commit))))"
    and put: "store_Put p moments ws commit s = (s', res)"
  shows "run_ok p visible self s' D"
  using put
proof (cases rule: store_Put_cases)
  case (3 w rcd u)
  let ?t = "reclaimExpired (snd (snd moments)) s"
  have t: "run_ok p visible self ?t D" using ok by (rule run_ok_expire)
  have items: "rq_items (cp_Request rcd) = rq_items (cp_Request (cm_Checkpoint commit))"
    using prepared_request [OF 3(2)] by simp
  have valid: "reuse_valid p s w commit" using ok legit [OF 3(1)] by (rule run_ok_sound)
  have "store_ok p s'" using store_Put_law [OF _ 3(1) valid] put 3(3) ok by (auto simp: run_ok_def)
  moreover have sound: "reuse_sound ?t w (cm_Reuse commit) (RetainedHistory (rq_items (cp_Request rcd)))"
    using valid items by (simp add: reuse_valid_def)
  then have "visible_ok visible s'"
    using t legit [OF 3(1)] items by (intro visible_put [OF _ _ _ _ _ 3(4)]) (auto simp: run_ok_def store_ok_def)
  moreover have "ms_self s' = self"
    using put_record_locked_ok(2) [OF _ _ _ sound 3(4)] t prepared_request [OF 3(2)]
      prepareRecord_ok [OF 3(2) [unfolded prepared_def]] by (auto simp: run_ok_def)
  ultimately show ?thesis using ok by (simp add: run_ok_def)
qed (use ok run_ok_expire in auto)

lemma store_run_ok: "store_run p visible self s D \<Longrightarrow> run_ok p visible self s D"
proof (induction rule: store_run.induct)
  case start
  then show ?case by (simp add: run_ok_def newMemoryStore_ok visible_ok_def) (simp add: newMemoryStore_def)
qed (auto intro: run_ok_Get run_ok_Find run_ok_Put)

section \<open>The properties\<close>

text \<open>
  C9: the store implements a map. In every run, whatever was committed, evicted or shared
  before, loading a response identifier returns exactly what the map holds there and has not
  expired, without a panic; a history is found exactly when one live checkpoint of the workspace
  carries it; both leave the map as it was but for expired entries; and the store never holds
  more than 1024 checkpoints.
\<close>

theorem store_implements_map:
  assumes "store_run p visible self s D" and "normalizeWorkspace ws = Inr w"
  shows "(\<exists>s'. store_Get p now ws i s = (s', Inr (unexpired now (checkpoints s) (w, i))) \<and>
      checkpoints s' = unexpired now (checkpoints s)) \<and>
    (hs_scheme h \<noteq> [] \<longrightarrow> (\<exists>s'. store_FindByHistory p now ws h s = (s', Inr
      (let ids = {i. \<exists>c. unexpired now (checkpoints s) (w, i) = Some c \<and> cp_History c = Some h}
       in if is_singleton ids then unexpired now (checkpoints s) (w, the_elem ids) else None)) \<and>
      checkpoints s' = unexpired now (checkpoints s))) \<and>
    card (dom (checkpoints s)) \<le> maxMemoryStoreRecords"
proof -
  have ok: "store_ok p s" using store_run_ok [OF assms(1)] by (simp add: run_ok_def)
  obtain s1 r1 where g: "store_Get p now ws i s = (s1, r1)" by fastforce
  obtain s2 r2 where f: "store_FindByHistory p now ws h s = (s2, r2)" by fastforce
  have "card (dom (checkpoints s)) \<le> maxMemoryStoreRecords"
    using ok card_checkpoints [of s] by (simp add: store_ok_def)
  then show ?thesis
    using memory.get_law [OF ok assms(2) g] memory.find_law [OF ok assms(2) _ f] g f by (simp add: Let_def)
qed

lemma stored_loads:
  assumes "store_run p visible self s D" and "normalizeWorkspace ws = Inr w"
    and "legitimate visible D w (cm_Reuse commit)
      (RetainedHistory (rq_items (cp_Request (cm_Checkpoint commit))))"
    and "store_Put p moments ws commit s = (s', Inr ())"
    and "now < (case cp_ExpiresAt (cm_Checkpoint commit) of
      None \<Rightarrow> fst moments + defaultCheckpointTTL | Some e \<Rightarrow> e)"
  shows "\<exists>s'' c. store_Get p now ws (response_id (cm_Checkpoint commit)) s' = (s'', Inr (Some c)) \<and>
    cp_Request c = NewCanonicalRequest p (cp_Request (cm_Checkpoint commit)) \<and>
    cp_Response c = cp_Response (cm_Checkpoint commit) \<and>
    cp_History c = cp_History (cm_Checkpoint commit) \<and>
    cp_ExecutionAffinity c = cp_ExecutionAffinity (cm_Checkpoint commit) \<and>
    cp_CreatedAt c = cp_CreatedAt (cm_Checkpoint commit)"
proof -
  have run: "run_ok p visible self s D" using assms(1) by (rule store_run_ok)
  then have ok: "store_ok p s" by (simp add: run_ok_def)
  have valid: "reuse_valid p s w commit" using run assms(3) by (rule run_ok_sound)
  obtain rcd where rcd: "prepared p moments commit = Inr rcd"
    using memory.put_law [OF ok assms(2) valid assms(4)] by blast
  then obtain e where e: "rcd = (checkpoint_Clone p (cm_Checkpoint commit))\<lparr>cp_ExpiresAt := Some e\<rparr>" "now < e"
    using prepareRecord_ok [OF rcd [unfolded prepared_def]] assms(5)
    by (auto simp: checkpoint_Clone_def split: option.splits)
  obtain s'' r where g: "store_Get p now ws (response_id rcd) s' = (s'', r)" by fastforce
  obtain c where c: "r = Inr (Some c)" "same_checkpoint rcd c"
    using memory.get_after_put [OF ok assms(2) valid assms(4) rcd _ g] e by auto
  then show ?thesis
    using g e(1) same_checkpoint_fields [OF c(2)] by (auto simp: checkpoint_Clone_def)
qed

text \<open>
  What may happen to the store after a commit with the deadline \<open>e\<close>: loads, searches and commits
  of all workspaces, with clock readings before the deadline. A commit into a full store evicts
  the checkpoint with the earliest deadline; \<open>spares\<close> says that this is another one.
\<close>

definition spares :: "int \<Rightarrow> int \<Rightarrow> 'c memoryStore \<Rightarrow> bool" where
  "spares e now s \<longleftrightarrow> (let m = unexpired now (checkpoints s)
     in card (dom m) < maxMemoryStoreRecords \<or> (\<exists>k c. m k = Some c \<and> the (cp_ExpiresAt c) < e))"

inductive store_until ::
    "platform \<Rightarrow> (workspaceHistoryKey \<Rightarrow> CanonicalItem list) \<Rightarrow> int \<Rightarrow>
     'c memoryStore \<Rightarrow> (string \<times> 'c Checkpoint) set \<Rightarrow> 'c memoryStore \<Rightarrow> (string \<times> 'c Checkpoint) set \<Rightarrow> bool"
  for p visible e s0 D0 where
  start: "store_until p visible e s0 D0 s0 D0"
| got: "store_until p visible e s0 D0 s D \<Longrightarrow> now < e \<Longrightarrow> store_Get p now ws i s = (s', r) \<Longrightarrow>
    store_until p visible e s0 D0 s' (D \<union> handed_out ws r)"
| found: "store_until p visible e s0 D0 s D \<Longrightarrow> now < e \<Longrightarrow> store_FindByHistory p now ws h s = (s', r) \<Longrightarrow>
    store_until p visible e s0 D0 s' (D \<union> handed_out ws r)"
| committed: "store_until p visible e s0 D0 s D \<Longrightarrow> snd (snd moments) < e \<Longrightarrow>
    spares e (snd (snd moments)) s \<Longrightarrow>
    (\<And>w. normalizeWorkspace ws = Inr w \<Longrightarrow> legitimate visible D w (cm_Reuse commit)
      (RetainedHistory (rq_items (cp_Request (cm_Checkpoint commit))))) \<Longrightarrow>
    store_Put p moments ws commit s = (s', res) \<Longrightarrow> store_until p visible e s0 D0 s' D"

lemma until_run:
  assumes "store_until p visible e s0 D0 s D" "store_run p visible self s0 D0"
  shows "store_run p visible self s D"
  using assms(1) by induction (auto intro: assms(2) store_run.intros)

lemma makes_room_spares:
  assumes "makes_room (unexpired now (checkpoints s)) m" "spares e now s"
    and "unexpired now (checkpoints s) k = Some c" "cp_ExpiresAt c = Some e"
  shows "m k = Some c"
  using assms by (fastforce simp: makes_room_def spares_def Let_def split: if_splits)

lemma until_keeps:
  assumes "store_until p visible e s0 D0 s D" "store_run p visible self s0 D0"
    and "checkpoints s0 k = Some c" "cp_ExpiresAt c = Some e"
  shows "checkpoints s k = Some c"
  using assms(1)
proof induction
  case start
  show ?case by (rule assms(3))
next
  case (got s D now ws i s' r)
  have "store_ok p s" using store_run_ok [OF until_run [OF got(1) assms(2)]] by (simp add: run_ok_def)
  moreover have "s' = s \<or> s' = reclaimExpired now s"
    using got(3) by (auto simp: store_Get_def Let_def split: sum.splits)
  ultimately show ?case using got assms(4) reclaimExpired_ok(2) [of p s now] by (auto simp: unexpired_def)
next
  case (found s D now ws h s' r)
  have "store_ok p s" using store_run_ok [OF until_run [OF found(1) assms(2)]] by (simp add: run_ok_def)
  moreover have "s' = s \<or> s' = reclaimExpired now s"
    using found(3) by (auto simp: store_FindByHistory_def Let_def split: sum.splits if_splits)
  ultimately show ?case using found assms(4) reclaimExpired_ok(2) [of p s now] by (auto simp: unexpired_def)
next
  case (committed s D moments ws commit s' res)
  have run: "run_ok p visible self s D" using store_run_ok [OF until_run [OF committed(1) assms(2)]] .
  then have ok: "store_ok p s" by (simp add: run_ok_def)
  have alive: "unexpired (snd (snd moments)) (checkpoints s) k = Some c"
    using committed assms(4) by (simp add: unexpired_def)
  from committed(5) show ?case
  proof (cases rule: store_Put_cases)
    case (3 w rcd u)
    have "reuse_valid p s w commit" using run committed(4) [OF 3(1)] by (rule run_ok_sound)
    from memory.put_law [OF ok 3(1) this committed(5) [unfolded 3(3)]]
    obtain rcd' m d where "prepared p moments commit = Inr rcd'" and m: "unexpired (snd (snd moments)) (checkpoints s) (w, response_id rcd') = None"
      "makes_room (unexpired (snd (snd moments)) (checkpoints s)) m"
      "checkpoints s' = m((w, response_id rcd') \<mapsto> d)" by blast
    then show ?thesis using alive makes_room_spares [OF m(2) committed(3) alive assms(4)] by auto
  qed (use committed.IH alive reclaimExpired_ok(2) [OF ok] in auto)
qed

lemma stored_deadline:
  assumes "store_run p visible self s D" and "normalizeWorkspace ws = Inr w"
    and "legitimate visible D w (cm_Reuse commit)
      (RetainedHistory (rq_items (cp_Request (cm_Checkpoint commit))))"
    and "store_Put p moments ws commit s = (s', Inr ())"
    and "e = (case cp_ExpiresAt (cm_Checkpoint commit) of
      None \<Rightarrow> fst moments + defaultCheckpointTTL | Some e \<Rightarrow> e)"
  shows "\<exists>c. checkpoints s' (w, response_id (cm_Checkpoint commit)) = Some c \<and>
    same_checkpoint ((checkpoint_Clone p (cm_Checkpoint commit))\<lparr>cp_ExpiresAt := Some e\<rparr>) c"
proof -
  have run: "run_ok p visible self s D" using assms(1) by (rule store_run_ok)
  then have ok: "store_ok p s" by (simp add: run_ok_def)
  have "reuse_valid p s w commit" using run assms(3) by (rule run_ok_sound)
  from memory.put_law [OF ok assms(2) this assms(4)]
  obtain rcd m c where "prepared p moments commit = Inr rcd" "same_checkpoint rcd c"
    "checkpoints s' = m((w, response_id rcd) \<mapsto> c)" by blast
  moreover from this(1) have "rcd = (checkpoint_Clone p (cm_Checkpoint commit))\<lparr>cp_ExpiresAt := Some e\<rparr>"
    using prepareRecord_ok [of "fst moments" "fst (snd moments)" "checkpoint_Clone p (cm_Checkpoint commit)" rcd] assms(5)
    by (auto simp: prepared_def checkpoint_Clone_def split: option.splits)
  ultimately show ?thesis by (simp add: checkpoint_Clone_def)
qed

text \<open>
  C26: a committed checkpoint is loaded exactly until it expires. With evidence for storage reuse
  that a caller can have, after a successful commit, and after any further loads, searches and
  commits of any workspace before the deadline that do not evict the checkpoint from a full
  store (\<open>store_until\<close>), a load before the deadline returns it: the same items in the same
  order, prelude included, although the history is stored as a shared tail, the same response,
  affinity, history fingerprint and creation time, and as deadline the given one or one day after
  the commit.
\<close>

theorem Put_then_Get:
  assumes "store_run p visible self s D" and "normalizeWorkspace ws = Inr w"
    and "legitimate visible D w (cm_Reuse commit)
      (RetainedHistory (rq_items (cp_Request (cm_Checkpoint commit))))"
    and "store_Put p moments ws commit s = (s1, Inr ())"
    and "e = (case cp_ExpiresAt (cm_Checkpoint commit) of
      None \<Rightarrow> fst moments + defaultCheckpointTTL | Some e \<Rightarrow> e)"
    and "store_until p visible e s1 D s2 D2" and "now < e"
  shows "\<exists>s3 c. store_Get p now ws (response_id (cm_Checkpoint commit)) s2 = (s3, Inr (Some c)) \<and>
    cp_Request c = NewCanonicalRequest p (cp_Request (cm_Checkpoint commit)) \<and>
    cp_Response c = cp_Response (cm_Checkpoint commit) \<and>
    cp_History c = cp_History (cm_Checkpoint commit) \<and>
    cp_ExecutionAffinity c = cp_ExecutionAffinity (cm_Checkpoint commit) \<and>
    cp_CreatedAt c = cp_CreatedAt (cm_Checkpoint commit) \<and> cp_ExpiresAt c = Some e"
proof -
  obtain c where c: "checkpoints s1 (w, response_id (cm_Checkpoint commit)) = Some c"
    "same_checkpoint ((checkpoint_Clone p (cm_Checkpoint commit))\<lparr>cp_ExpiresAt := Some e\<rparr>) c"
    using stored_deadline [OF assms(1-5)] by blast
  note f = same_checkpoint_fields [OF c(2)]
  have run: "store_run p visible self s1 D"
    using assms(3) by (intro store_run.committed [OF assms(1) _ assms(4)]) (simp add: assms(2))
  have "checkpoints s2 (w, response_id (cm_Checkpoint commit)) = Some c"
    using until_keeps [OF assms(6) run c(1)] f by simp
  moreover have "store_ok p s2" using store_run_ok [OF until_run [OF assms(6) run]] by (simp add: run_ok_def)
  moreover obtain s3 r where g: "store_Get p now ws (response_id (cm_Checkpoint commit)) s2 = (s3, r)" by fastforce
  ultimately have "r = Inr (Some c)"
    using memory.get_law [OF _ assms(2) g] assms(7) f by (simp add: unexpired_def)
  then show ?thesis using g f by (simp add: checkpoint_Clone_def)
qed

section \<open>A concrete run\<close>

definition plain_platform :: platform where
  "plain_platform = \<lparr>unicode_lower = (\<lambda>s. s), url_Parse = (\<lambda>_. None), filepath_IsAbs = (\<lambda>_. False)\<rparr>"

definition user_says :: "string \<Rightarrow> CanonicalItem" where
  "user_says t = message_item \<lparr>mi_role = MessageRoleUser, mi_content = [text_part t []],
     mi_scope = ContextScopeHistory\<rparr>"

definition sample_checkpoint :: "string \<Rightarrow> CanonicalItem list \<Rightarrow> unit Checkpoint" where
  "sample_checkpoint i items = \<lparr>cp_History = None, cp_ExecutionAffinity = zeroKey,
     cp_Request = \<lparr>rq_model = Some ''gpt'', rq_items = items, rq_previousResponse = None, rq_toolPolicy = None,
       rq_toolBatch = None, rq_controls = (), rq_outputFormat = None, rq_store = None\<rparr>,
     cp_Response = \<lparr>cr_response = \<lparr>rr_SwobuID = i, rr_Responses = None, rr_Interactions = None\<rparr>,
       cr_model = ''gpt'', cr_items = [user_says ''answer''],
       cr_completion = \<lparr>cmp_class = CompletionCompleted, cmp_reason = ''stop''\<rparr>,
       cr_usage = NewUnknownTokenUsage\<rparr>,
     cp_CreatedAt = 0, cp_ExpiresAt = Some 100, cp_storageReuse = zeroReuse\<rparr>"

definition first_commit :: "unit Commit" where
  "first_commit = \<lparr>cm_Checkpoint = sample_checkpoint ''r1'' [user_says ''hello''], cm_Reuse = zeroReuse\<rparr>"

definition first_store :: "unit memoryStore" where
  "first_store = fst (store_Put plain_platform (0, 0, 0) ''ws'' first_commit (newMemoryStore 1))"

lemma first_put: "snd (store_Put plain_platform (0, 0, 0) ''ws'' first_commit (newMemoryStore 1)) = Inr ()"
  by code_simp

lemma ws_normal: "normalizeWorkspace ''ws'' = Inr ''ws''" by code_simp

definition second_get :: "unit Checkpoint" where
  "second_get = the (projr (snd (store_Get plain_platform 5 ''ws'' ''r1'' first_store)))"

lemma second_get: "snd (store_Get plain_platform 5 ''ws'' ''r1'' first_store) = Inr (Some second_get)"
  by code_simp

definition second_commit :: "unit Commit" where
  "second_commit = \<lparr>cm_Checkpoint =
     sample_checkpoint ''r2'' [user_says ''hello'', user_says ''answer'', user_says ''again''],
     cm_Reuse = ReuseCheckpoint second_get\<rparr>"

definition second_store :: "unit memoryStore" where
  "second_store = fst (store_Get plain_platform 5 ''ws'' ''r1'' first_store)"

lemma second_put: "snd (store_Put plain_platform (6, 6, 6) ''ws'' second_commit second_store) = Inr ()"
  by code_simp

lemma first_run: "store_run plain_platform visible 1 first_store {}"
proof (rule store_run.committed [OF store_run.start])
  show "store_Put plain_platform (0, 0, 0) ''ws'' first_commit (newMemoryStore 1) = (first_store, Inr ())"
    using first_put by (simp add: first_store_def prod_eq_iff)
qed (simp add: legitimate_def first_commit_def)

lemma second_run: "store_run plain_platform visible 1 second_store {(''ws'', second_get)}"
proof -
  have "store_Get plain_platform 5 ''ws'' ''r1'' first_store = (second_store, Inr (Some second_get))"
    using second_get by (simp add: second_store_def prod_eq_iff)
  from store_run.got [OF first_run this] show ?thesis
    by (simp add: handed_out_def ws_normal)
qed

theorem store_implements_map_witness:
  "(\<exists>s'. store_Get plain_platform 7 ''ws'' ''r1'' second_store =
      (s', Inr (unexpired 7 (checkpoints second_store) (''ws'', ''r1'')))) \<and>
   card (dom (checkpoints second_store)) \<le> maxMemoryStoreRecords"
  using store_implements_map [OF second_run ws_normal, of 7 "''r1''"] by blast

definition third_store :: "unit memoryStore" where
  "third_store = fst (store_Put plain_platform (6, 6, 6) ''ws'' second_commit second_store)"

theorem Put_then_Get_witness:
  "\<exists>s3 c. store_Get plain_platform 9 ''ws'' ''r2'' (fst (store_Get plain_platform 8 ''ws'' ''r1'' third_store)) =
      (s3, Inr (Some c)) \<and> cp_ExpiresAt c = Some 100 \<and>
    rq_items (cp_Request c) = [user_says ''hello'', user_says ''answer'', user_says ''again'']"
proof -
  have put: "store_Put plain_platform (6, 6, 6) ''ws'' second_commit second_store = (third_store, Inr ())"
    using second_put by (simp add: third_store_def prod_eq_iff)
  have get: "store_Get plain_platform 8 ''ws'' ''r1'' third_store =
      (fst (store_Get plain_platform 8 ''ws'' ''r1'' third_store), snd (store_Get plain_platform 8 ''ws'' ''r1'' third_store))"
    by simp
  note until = store_until.got [OF store_until.start _ get, of 100]
  have h: "checkpoint_history second_get = [user_says ''hello'', user_says ''answer'']" by code_simp
  have "RetainedHistory [user_says ''hello'', user_says ''answer'', user_says ''again''] =
      [user_says ''hello'', user_says ''answer'', user_says ''again'']" by code_simp
  then have "legitimate visible {(''ws'', second_get)} ''ws'' (cm_Reuse second_commit)
      (RetainedHistory (rq_items (cp_Request (cm_Checkpoint second_commit))))" for visible
    by (auto simp: legitimate_def second_commit_def h sample_checkpoint_def)
  from Put_then_Get [OF second_run ws_normal this put _ until, of 9]
  show ?thesis by (auto simp: second_commit_def sample_checkpoint_def)
qed

text \<open>
  The obligation on visible histories is needed: the store takes the segment it has for a
  fingerprint without comparing its length with the declared prefix, so evidence that repeats a
  fingerprint for another prefix yields a checkpoint with another history.
\<close>

definition visible_commit :: "string \<Rightarrow> CanonicalItem list \<Rightarrow> int \<Rightarrow> unit Commit" where
  "visible_commit i items n = \<lparr>cm_Checkpoint = sample_checkpoint i items,
     cm_Reuse = ReuseVisibleHistory \<lparr>hs_scheme = ''s'', hs_sum = ''x''\<rparr> n\<rparr>"

lemma visible_prefix_trusted:
  "case store_Put plain_platform (0, 0, 0) ''ws'' (visible_commit ''r1'' [user_says ''a'', user_says ''b''] 1)
      (newMemoryStore 1) of (s1, r1) \<Rightarrow>
   case store_Put plain_platform (0, 0, 0) ''ws''
      (visible_commit ''r2'' [user_says ''c'', user_says ''d'', user_says ''e''] 2) s1 of (s2, r2) \<Rightarrow>
   case store_Get plain_platform 1 ''ws'' ''r2'' s2 of (s3, r) \<Rightarrow>
     r1 = Inr () \<and> r2 = Inr () \<and>
     map_option (\<lambda>c. rq_items (cp_Request c)) (projr r) = Some [user_says ''a'', user_says ''e'']"
  by code_simp

end
