(* ===== verification/Continuity_Resolve.thy ===== *)
theory Continuity_Resolve
  imports Checkpoint_Run
begin

text \<open>
  Continuity resolution (\<^verbatim>\<open>src/internal/continuity/resolve.go\<close>): a request and, where it continues
  one, the loaded checkpoint become one complete request, with the exact range of items that a
  provider already knows. Item coordinates are 32-bit. \<^verbatim>\<open>reflect.DeepEqual\<close> is equality; a nil
  and an empty slice, which it tells apart, are both the empty list.
\<close>

section \<open>Resolved requests\<close>

record requestItemRange =
  ir_start :: "32 word"
  ir_end :: "32 word"

record previousHistory =
  ph_response :: ResponseRef
  ph_omitItems :: requestItemRange

record 'c ResolvedRequest =
  rs_request :: "'c CanonicalRequest"
  rs_previousHistory :: "previousHistory option"

record 'c Draft =
  dr_current :: "'c CanonicalRequest"
  dr_checkpoint :: "'c Checkpoint option"

definition checkedRequestItemIndex :: "nat \<Rightarrow> go_error + 32 word" where
  "checkedRequestItemIndex n =
     (if int n > 0xFFFFFFFF then Inl (Errorf ''resolved request item count exceeds coordinate range'' [])
      else Inr (of_nat n))"

definition newPreviousHistory :: "ResponseRef \<Rightarrow> requestItemRange \<Rightarrow> previousHistory option" where
  "newPreviousHistory response replaced =
     (if rr_Responses response = None \<and> rr_Interactions response = None then None
      else Some \<lparr>ph_response = response, ph_omitItems = replaced\<rparr>)"

definition validateFor :: "previousHistory \<Rightarrow> 'c CanonicalRequest \<Rightarrow> go_error + unit" where
  "validateFor ph request =
     (if rr_Responses (ph_response ph) = None \<and> rr_Interactions (ph_response ph) = None
      then Inl (Errorf ''previous history relation is missing provider continuation'' [])
      else let items = rq_items request; r = ph_omitItems ph
           in if ir_start r > ir_end r \<or> unat (ir_end r) > length items
              then Inl (Errorf ''previous history range is invalid'' [])
              else (case SplitRequestPrelude items of
                 Inl e \<Rightarrow> Inl (Errorw ''resolved request prelude is invalid: %w'' [] e)
               | Inr (pl, _) \<Rightarrow>
                   if of_nat (length (pl_items pl)) \<noteq> ir_start r
                   then Inl (Errorf ''previous history range does not follow request prelude'' [])
                   else Inr ()))"

definition responseAppliesTo :: "previousHistory \<Rightarrow> string \<Rightarrow> 64 word \<Rightarrow> bool" where
  "responseAppliesTo ph target version \<longleftrightarrow>
     (case rr_Responses (ph_response ph) of None \<Rightarrow> False | Some r \<Rightarrow> responses_AppliesTo r target version) \<or>
     (case rr_Interactions (ph_response ph) of None \<Rightarrow> False | Some r \<Rightarrow> interactions_AppliesTo r target version)"

definition newResolvedRequest ::
    "platform \<Rightarrow> json_codec \<Rightarrow> 'c CanonicalRequest \<Rightarrow> previousHistory option \<Rightarrow> go_error + 'c ResolvedRequest" where
  "newResolvedRequest p codec request previous =
     (if rq_previousResponse request \<noteq> None
      then Inl (Errorf ''resolved complete request contains previous response'' [])
      else and_then (ValidateMaterializedRequest p codec request) (\<lambda>_.
        and_then (case previous of None \<Rightarrow> Inr () | Some ph \<Rightarrow> validateFor ph request) (\<lambda>_.
          Inr \<lparr>rs_request = NewCanonicalRequest p request, rs_previousHistory = previous\<rparr>)))"

text \<open>What \<open>PreviousHistory\<close> hands to the provider for one exact target.\<close>

record provider_PreviousHistory =
  pv_Response :: ResponseRef
  pv_OmitStart :: "32 word"
  pv_OmitEnd :: "32 word"

definition PreviousHistory ::
    "'c ResolvedRequest \<Rightarrow> string \<Rightarrow> 64 word \<Rightarrow> provider_PreviousHistory option" where
  "PreviousHistory r target version =
     (case rs_previousHistory r of
        None \<Rightarrow> None
      | Some ph \<Rightarrow>
          if \<not> PersistenceEligible (rs_request r) \<or> \<not> responseAppliesTo ph target version then None
          else Some \<lparr>pv_Response = ph_response ph, pv_OmitStart = ir_start (ph_omitItems ph),
                     pv_OmitEnd = ir_end (ph_omitItems ph)\<rparr>)"

section \<open>Local results\<close>

definition ContinueAfterLocalResult ::
    "platform \<Rightarrow> json_codec \<Rightarrow> 'c ResolvedRequest \<Rightarrow> CanonicalResponse \<Rightarrow> CanonicalItem list \<Rightarrow>
     go_error + 'c ResolvedRequest" where
  "ContinueAfterLocalResult p codec r response results =
     (case ValidateCommittedResponse (cr_response response) of
        Inl e \<Rightarrow> Inl (Errorw ''local tool round response is invalid: %w'' [] e)
      | Inr _ \<Rightarrow>
        let items = rq_items (rs_request r) @ cr_items response
        in and_then (checkedRequestItemIndex (length items)) (\<lambda>omitEnd.
             let request = WithItems p (rs_request r) (items @ results)
             in and_then (SplitRequestPrelude (rq_items request)) (\<lambda>(pl, _).
                  and_then (checkedRequestItemIndex (length (pl_items pl))) (\<lambda>omitStart.
                    newResolvedRequest p codec request
                      (newPreviousHistory (cr_response response)
                        \<lparr>ir_start = omitStart, ir_end = omitEnd\<rparr>)))))"

section \<open>Drafts\<close>

definition PreviousSwobuResponseID :: "'c CanonicalRequest \<Rightarrow> go_error + SwobuResponseID option" where
  "PreviousSwobuResponseID request =
     (case rq_previousResponse request of
        None \<Rightarrow> Inr None
      | Some prev \<Rightarrow>
          (case ValidatePreviousResponseSelector prev of
             Inl _ \<Rightarrow> Inl (BadRequest ''previous_response_id is empty'')
           | Inr _ \<Rightarrow> Inr (Some (rr_SwobuID prev))))"

text \<open>Where the code reads a field with its zero value and specifies it again, the option becomes \<open>Some\<close>.\<close>

definition zeroBatch :: ToolCallBatchPolicy where "zeroBatch = []"

definition materializeBeginRequest :: "platform \<Rightarrow> 'c CanonicalRequest \<Rightarrow> go_error + 'c CanonicalRequest" where
  "materializeBeginRequest p request =
     and_then (EffectiveToolPolicy p request) (\<lambda>toolPolicy.
       Inr (NewCanonicalRequest p (request\<lparr>rq_model := Some (rq_Model request), rq_previousResponse := None,
         rq_toolPolicy := Some toolPolicy,
         rq_toolBatch := Some (case rq_toolBatch request of None \<Rightarrow> zeroBatch | Some b \<Rightarrow> b),
         rq_outputFormat := Some (case rq_outputFormat request of None \<Rightarrow> zeroOutputFormat | Some f \<Rightarrow> f)\<rparr>)))"

definition PrepareBegin :: "platform \<Rightarrow> json_codec \<Rightarrow> 'c CanonicalRequest \<Rightarrow> go_error + 'c Draft" where
  "PrepareBegin p codec request =
     (if rq_previousResponse request \<noteq> None
      then Inl (Errorf ''thread begin request contains previous response'' [])
      else and_then (materializeBeginRequest p request) (\<lambda>current.
        and_then (ValidateMaterializedRequest p codec current) (\<lambda>_.
          Inr \<lparr>dr_current = NewCanonicalRequest p current, dr_checkpoint = None\<rparr>)))"

definition withoutPreviousResponse :: "platform \<Rightarrow> 'c CanonicalRequest \<Rightarrow> 'c CanonicalRequest" where
  "withoutPreviousResponse p request = NewCanonicalRequest p (request\<lparr>rq_previousResponse := None\<rparr>)"

definition replaceRequestItems ::
    "platform \<Rightarrow> 'c CanonicalRequest \<Rightarrow> CanonicalItem list \<Rightarrow> 'c CanonicalRequest" where
  "replaceRequestItems p request items = NewCanonicalRequest p (request\<lparr>rq_items := items\<rparr>)"

definition repeatUnfinishedTurnContext ::
    "platform \<Rightarrow> 'c CanonicalRequest \<Rightarrow> 'c CanonicalRequest \<Rightarrow> go_error + 'c CanonicalRequest" where
  "repeatUnfinishedTurnContext p previous current =
     (case SplitRequestPrelude (rq_items previous) of
        Inl e \<Rightarrow> Inl (Errorw ''invalid checkpoint request context: %w'' [] e)
      | Inr (pp, _) \<Rightarrow>
        (case SplitRequestPrelude (rq_items current) of
           Inl _ \<Rightarrow> Inl (BadRequest ''request-scoped context must precede history'')
         | Inr (cp, currentHistory) \<Rightarrow>
             let directives = (if pl_directives cp = [] then pl_directives pp else pl_directives cp);
                 tools = (if pl_declarations cp = [] then pl_declarations pp else pl_declarations cp);
                 toolsFirst = (if pl_directives cp \<noteq> [] \<and> pl_declarations cp \<noteq> []
                   then pl_toolsFirst cp else pl_toolsFirst pp)
             in Inr (replaceRequestItems p current
                  ((if toolsFirst then tools @ directives else directives @ tools) @ currentHistory))))"

text \<open>The calls of the checkpoint's response, with their kinds; a repeated identifier keeps the last.\<close>

fun pending_calls :: "CanonicalItem list \<Rightarrow> (ToolCallID \<times> ToolKind) list" where
  "pending_calls [] = []"
| "pending_calls (item # items) =
     (case item of
        tool_call_item c \<Rightarrow>
          (if tc_callID c \<in> fst ` set (pending_calls items) then pending_calls items
           else (tc_callID c, tk_kind (tc_tool c)) # pending_calls items)
      | _ \<Rightarrow> pending_calls items)"

fun match_results ::
    "(ToolCallID \<times> ToolKind) list \<Rightarrow> CanonicalItem list \<Rightarrow> ToolCallID list \<Rightarrow> go_error + ToolCallID list" where
  "match_results calls [] matched = Inr matched"
| "match_results calls (item # items) matched =
     (case item of
        tool_result_item r \<Rightarrow>
          (case map_of calls (tr_callID r) of
             None \<Rightarrow> Inl (BadRequest ''tool result does not belong to the unfinished assistant turn'')
           | Some kind \<Rightarrow>
               if kind = ToolKindWebSearch
               then Inl (BadRequest ''client cannot resolve an exchange-resolved web-search call'')
               else if is_search_result r
               then Inl (BadRequest ''caller-resolved tool call requires a content result'')
               else if tr_callID r \<in> set matched
               then Inl (BadRequest ''unfinished assistant turn contains a duplicate tool result'')
               else match_results calls items (tr_callID r # matched))
      | _ \<Rightarrow> match_results calls items matched)"

definition resolveTurnContinuation ::
    "platform \<Rightarrow> 'c Checkpoint \<Rightarrow> 'c CanonicalRequest \<Rightarrow> go_error + 'c CanonicalRequest" where
  "resolveTurnContinuation p checkpoint current =
     and_then (match_results (pending_calls (cr_items (cp_Response checkpoint))) (rq_items current) [])
       (\<lambda>matched. if matched = [] then Inr (NewCanonicalRequest p current)
          else repeatUnfinishedTurnContext p (cp_Request checkpoint) current)"

definition PrepareResume ::
    "platform \<Rightarrow> 'c CanonicalRequest \<Rightarrow> 'c Checkpoint \<Rightarrow> go_error + 'c Draft" where
  "PrepareResume p request checkpoint =
     and_then (PreviousSwobuResponseID request) (\<lambda>requested.
       case ValidateCommittedResponse (cr_response (cp_Response checkpoint)) of
         Inl e \<Rightarrow> Inl (Errorw ''invalid thread checkpoint response reference: %w'' [] e)
       | Inr _ \<Rightarrow>
           if requested \<noteq> None \<and> requested \<noteq> Some (response_id checkpoint)
           then Inl (BadRequest ''unknown previous_response_id'')
           else and_then (resolveTurnContinuation p checkpoint (withoutPreviousResponse p request)) (\<lambda>effective.
             Inr \<lparr>dr_current = NewCanonicalRequest p effective,
                  dr_checkpoint = Some (checkpoint_Clone p checkpoint)\<rparr>))"

definition draft_Current :: "platform \<Rightarrow> 'c Draft \<Rightarrow> 'c CanonicalRequest" where
  "draft_Current p d = NewCanonicalRequest p (dr_current d)"

section \<open>Materialisation\<close>

definition inheritString :: "bool \<Rightarrow> string \<Rightarrow> string \<Rightarrow> string" where
  "inheritString present current previous = (if present then current else previous)"

definition materialize ::
    "platform \<Rightarrow> 'c Checkpoint \<Rightarrow> 'c CanonicalRequest \<Rightarrow> go_error + 'c CanonicalRequest \<times> requestItemRange" where
  "materialize p previous current =
     (case SplitRequestPrelude (rq_items current) of
        Inl _ \<Rightarrow> Inl (BadRequest ''request-scoped context must precede history'')
      | Inr (pl, currentHistory) \<Rightarrow>
          and_then (checkedRequestItemIndex (length (pl_items pl))) (\<lambda>start.
            let items = pl_items pl @ RetainedHistory (rq_items (cp_Request previous)) @
              cr_items (cp_Response previous)
            in and_then (checkedRequestItemIndex (length items)) (\<lambda>end'.
              Inr (NewCanonicalRequest p (current\<lparr>
                  rq_model := Some (inheritString (rq_model current \<noteq> None) (rq_Model current)
                    (rq_Model (cp_Request previous))),
                  rq_items := items @ currentHistory, rq_previousResponse := None\<rparr>),
                \<lparr>ir_start = start, ir_end = end'\<rparr>))))"

definition draft_Finalize ::
    "platform \<Rightarrow> json_codec \<Rightarrow> 'c Draft \<Rightarrow> 'c CanonicalRequest \<Rightarrow> go_error + 'c ResolvedRequest" where
  "draft_Finalize p codec d preparedRequest =
     (if rq_previousResponse preparedRequest \<noteq> None
      then Inl (Errorf ''prepared current request contains previous response'' [])
      else case SplitRequestPrelude (rq_items (dr_current d)) of
        Inl e \<Rightarrow> Inl (Errorw ''continuity draft current request is invalid: %w'' [] e)
      | Inr (_, originalHistory) \<Rightarrow>
      (case SplitRequestPrelude (rq_items preparedRequest) of
         Inl e \<Rightarrow> Inl (Errorw ''prepared request-scoped context must precede history: %w'' [] e)
       | Inr (_, preparedHistory) \<Rightarrow>
           if originalHistory \<noteq> preparedHistory
           then Inl (Errorf ''request-scoped preparation rewrote current history'' [])
           else if WithItems p (dr_current d) (rq_items preparedRequest) \<noteq> preparedRequest
           then Inl (Errorf ''request-scoped preparation changed non-item request state'' [])
           else case dr_checkpoint d of
             None \<Rightarrow> newResolvedRequest p codec preparedRequest None
           | Some checkpoint \<Rightarrow>
               and_then (materialize p checkpoint preparedRequest) (\<lambda>(request, omitted).
                 newResolvedRequest p codec request
                   (newPreviousHistory (cr_response (cp_Response checkpoint)) omitted))))"

definition Begin :: "platform \<Rightarrow> json_codec \<Rightarrow> 'c CanonicalRequest \<Rightarrow> go_error + 'c ResolvedRequest" where
  "Begin p codec request =
     and_then (PrepareBegin p codec request) (\<lambda>draft. draft_Finalize p codec draft (draft_Current p draft))"

definition Resume ::
    "platform \<Rightarrow> json_codec \<Rightarrow> 'c CanonicalRequest \<Rightarrow> 'c Checkpoint \<Rightarrow> go_error + 'c ResolvedRequest" where
  "Resume p codec request checkpoint =
     and_then (PrepareResume p request checkpoint) (\<lambda>draft.
       draft_Finalize p codec draft (draft_Current p draft))"

end
