(* ===== verification/Continuity_Properties.thy ===== *)
theory Continuity_Properties
  imports Continuity_Resolve
begin

text \<open>
  What continuity resolution promises: the resolved request is the prelude of the current request,
  the whole history of the checkpoint and the new items; the range handed to a provider is exactly
  the checkpoint's history; a local tool round is the same as a commit followed by a resumption;
  and what a resumed exchange commits is loaded back exactly.
\<close>

section \<open>Preludes\<close>

text \<open>The bands of a prelude after some of its items.\<close>

definition bands :: "RequestPrelude \<Rightarrow> CanonicalItem list" where
  "bands pl = (if pl_toolsFirst pl then pl_declarations pl @ pl_directives pl
     else pl_directives pl @ pl_declarations pl)"

definition bands_ok :: "string \<Rightarrow> nat \<Rightarrow> RequestPrelude \<Rightarrow> bool" where
  "bands_ok band t pl \<longleftrightarrow>
     (if band = [] then t = 0 \<and> pl_directives pl = [] \<and> pl_declarations pl = []
      else if t = 0 then
        (if pl_toolsFirst pl then band = ''tools'' \<and> pl_directives pl = []
         else band = ''directive'' \<and> pl_declarations pl = [])
      else band = (if pl_toolsFirst pl then ''directive'' else ''tools''))"

lemma bands_step:
  assumes "bands_ok band t pl" and "band = [] \<or> band = new \<or> t = 0"
    and "(new, pl1) = (case item of
        message_item _ \<Rightarrow> (''directive'', pl\<lparr>pl_directives := pl_directives pl @ [item]\<rparr>)
      | _ \<Rightarrow> (''tools'', pl\<lparr>pl_declarations := pl_declarations pl @ [item]\<rparr>))"
    and "pl2 = (if band = [] then pl1\<lparr>pl_toolsFirst := (new = ''tools'')\<rparr> else pl1)"
  shows "bands_ok new (if band \<noteq> [] \<and> band \<noteq> new then Suc t else t) pl2 \<and> bands pl2 = bands pl @ [item]"
proof -
  consider "band = []" | "band = new" "band \<noteq> []" | "band \<noteq> new" "band \<noteq> []" "t = 0" using assms(2) by blast
  then show ?thesis
    by cases (use assms(1,3,4) in \<open>auto simp: bands_ok_def bands_def split: if_splits CanonicalItem.splits\<close>)
qed

lemma split_bands_order:
  "split_bands band t items pl = Inr pl' \<Longrightarrow> bands_ok band t pl \<Longrightarrow> bands pl' = bands pl @ items"
proof (induction items arbitrary: band t pl)
  case (Cons item items)
  obtain new pl1 where n: "(new, pl1) = (case item of
        message_item _ \<Rightarrow> (''directive'', pl\<lparr>pl_directives := pl_directives pl @ [item]\<rparr>)
      | _ \<Rightarrow> (''tools'', pl\<lparr>pl_declarations := pl_declarations pl @ [item]\<rparr>))" by (metis surj_pair)
  define pl2 where "pl2 = (if band = [] then pl1\<lparr>pl_toolsFirst := (new = ''tools'')\<rparr> else pl1)"
  have s: "split_bands new (if band \<noteq> [] \<and> band \<noteq> new then Suc t else t) items pl2 = Inr pl'"
    "band = [] \<or> band = new \<or> t = 0"
    using Cons.prems(1) n by (cases item; auto simp: Let_def pl2_def split: if_splits)+
  show ?case using Cons.IH [OF s(1)] bands_step [OF Cons.prems(2) s(2) n pl2_def] by simp
qed simp

lemma prelude_split:
  assumes "SplitRequestPrelude items = Inr (pl, h)"
  shows "split_bands [] 0 (pl_items pl) \<lparr>pl_items = pl_items pl, pl_directives = [],
    pl_declarations = [], pl_toolsFirst = False\<rparr> = Inr pl"
  using assms SplitRequestPrelude_ok(5) [OF assms]
  by (auto simp: SplitRequestPrelude_def Let_def result_simps split: if_splits)

lemma prelude_bands: "SplitRequestPrelude items = Inr (pl, h) \<Longrightarrow> bands pl = pl_items pl"
  by (drule prelude_split, drule split_bands_order) (simp_all add: bands_ok_def bands_def)

lemma prelude_scoped:
  assumes "SplitRequestPrelude items = Inr (pl, h)"
  shows "list_all request_scoped (pl_directives pl)" "list_all request_scoped (pl_declarations pl)"
proof -
  have "set (pl_directives pl) \<union> set (pl_declarations pl) = set (pl_items pl)"
    using prelude_bands [OF assms] by (metis bands_def set_append sup_commute)
  then show "list_all request_scoped (pl_directives pl)" "list_all request_scoped (pl_declarations pl)"
    using SplitRequestPrelude_ok(3) [OF assms] by (auto simp: list_all_iff)
qed

text \<open>Splitting what was put together from a prelude and items without request scope.\<close>

lemma split_append:
  assumes "SplitRequestPrelude items = Inr (pl, h)" and "RetainedHistory rest = rest"
  shows "SplitRequestPrelude (pl_items pl @ rest) = Inr (pl, rest)"
proof -
  have scoped: "\<forall>x \<in> set (pl_items pl). request_scoped x" and n: "\<forall>x \<in> set rest. \<not> request_scoped x"
    using SplitRequestPrelude_ok(3) [OF assms(1)] assms(2)
    by (auto simp: list_all_iff RetainedHistory_def filter_id_conv)
  have "takeWhile request_scoped (pl_items pl @ rest) = pl_items pl"
    using scoped n by (cases rest) (auto simp: takeWhile_append2)
  moreover have "dropWhile request_scoped (pl_items pl @ rest) = rest"
    using scoped n by (cases rest) (auto simp: dropWhile_append2)
  moreover note prelude_split [OF assms(1)]
  moreover have "\<not> list_ex request_scoped rest" using n by (simp add: list_ex_iff)
  ultimately show ?thesis unfolding SplitRequestPrelude_def Let_def by simp
qed

section \<open>Resumption\<close>

lemma resolveTurnContinuation_history:
  assumes "resolveTurnContinuation p c current = Inr effective"
  shows "RetainedHistory (rq_items effective) = RetainedHistory (rq_items current)"
    and "rq_previousResponse effective = rq_previousResponse current"
proof -
  consider "effective = NewCanonicalRequest p current"
    | "repeatUnfinishedTurnContext p (cp_Request c) current = Inr effective"
    using assms by (auto simp: resolveTurnContinuation_def result_simps split: if_splits)
  then have "RetainedHistory (rq_items effective) = RetainedHistory (rq_items current) \<and>
      rq_previousResponse effective = rq_previousResponse current"
  proof cases
    case 1
    then show ?thesis by (simp add: NewCanonicalRequest_def)
  next
    case 2
    then obtain pp h pl history where prev: "SplitRequestPrelude (rq_items (cp_Request c)) = Inr (pp, h)"
      and split: "SplitRequestPrelude (rq_items current) = Inr (pl, history)"
      by (auto simp: repeatUnfinishedTurnContext_def split: sum.splits)
    note scoped = prev [THEN prelude_scoped(1), THEN RetainedHistory_prelude]
      prev [THEN prelude_scoped(2), THEN RetainedHistory_prelude]
      split [THEN prelude_scoped(1), THEN RetainedHistory_prelude]
      split [THEN prelude_scoped(2), THEN RetainedHistory_prelude]
    have "RetainedHistory history = history" "RetainedHistory (rq_items current) = history"
      using SplitRequestPrelude_ok [OF split] by simp_all
    then show ?thesis
      using 2 scoped by (auto simp: repeatUnfinishedTurnContext_def Let_def replaceRequestItems_def
          NewCanonicalRequest_def prev split split: if_splits)
  qed
  then show "RetainedHistory (rq_items effective) = RetainedHistory (rq_items current)"
    and "rq_previousResponse effective = rq_previousResponse current" by blast+
qed

lemma checkedRequestItemIndex_ok:
  "checkedRequestItemIndex n = Inr i \<longleftrightarrow> n < 2 ^ 32 \<and> i = of_nat n"
  by (auto simp: checkedRequestItemIndex_def)

lemma unat_index: "n < 2 ^ 32 \<Longrightarrow> unat (of_nat n :: 32 word) = n"
  by (simp add: unat_of_nat take_bit_nat_eq_self)

lemma newResolvedRequest_ok:
  "newResolvedRequest p codec request previous = Inr r \<longleftrightarrow>
   rq_previousResponse request = None \<and> ValidateMaterializedRequest p codec request = Inr () \<and>
   (\<forall>ph. previous = Some ph \<longrightarrow> validateFor ph request = Inr ()) \<and>
   r = \<lparr>rs_request = NewCanonicalRequest p request, rs_previousHistory = previous\<rparr>"
  by (auto simp: newResolvedRequest_def result_simps split: if_splits option.splits)

text \<open>A draft finalised with the request it offers: what \<open>Resume\<close> does without tool preparation.\<close>

lemma draft_Finalize_current:
  assumes "dr_current d = NewCanonicalRequest p q" and "rq_previousResponse q = None"
    and "SplitRequestPrelude (rq_items q) = Inr (pl, history)"
  shows "draft_Finalize p codec d (draft_Current p d) =
    (case dr_checkpoint d of
       None \<Rightarrow> newResolvedRequest p codec (NewCanonicalRequest p q) None
     | Some c \<Rightarrow> and_then (materialize p c (NewCanonicalRequest p q)) (\<lambda>(request, omitted).
         newResolvedRequest p codec request (newPreviousHistory (cr_response (cp_Response c)) omitted)))"
proof -
  have "rq_previousResponse (NewCanonicalRequest p q) = None" using assms(2) by (simp add: NewCanonicalRequest_def)
  then show ?thesis
    using assms(1,3) by (simp add: draft_Finalize_def draft_Current_def WithItems_def)
qed

lemma materialize_ok:
  assumes "materialize p c current = Inr (request, omitted)"
  obtains pl history where "SplitRequestPrelude (rq_items current) = Inr (pl, history)"
    and "rq_items request = pl_items pl @ checkpoint_history c @ history"
    and "rq_previousResponse request = None" and "NewCanonicalRequest p request = request"
    and "unat (ir_start omitted) = length (pl_items pl)"
    and "unat (ir_end omitted) = length (pl_items pl @ checkpoint_history c)"
proof -
  obtain pl history where s: "SplitRequestPrelude (rq_items current) = Inr (pl, history)"
    using assms by (auto simp: materialize_def split: sum.splits)
  show ?thesis
    by (rule that [OF s])
      (use assms s unat_index [of "length (pl_items pl @ checkpoint_history c)"] in \<open>auto simp: materialize_def result_simps Let_def checkedRequestItemIndex_ok
        checkpoint_history_def NewCanonicalRequest_def unat_index option.map_comp comp_def\<close>)
qed

lemma Resume_parts:
  assumes "Resume p codec request c = Inr r"
  obtains effective req omitted where
    "resolveTurnContinuation p c (withoutPreviousResponse p request) = Inr effective"
    and "materialize p (checkpoint_Clone p c) (NewCanonicalRequest p effective) = Inr (req, omitted)"
    and "newResolvedRequest p codec req (newPreviousHistory (cr_response (cp_Response c)) omitted) = Inr r"
proof -
  obtain d where d: "PrepareResume p request c = Inr d" "draft_Finalize p codec d (draft_Current p d) = Inr r"
    using assms by (auto simp: Resume_def result_simps)
  obtain effective where e: "resolveTurnContinuation p c (withoutPreviousResponse p request) = Inr effective"
    and dr: "d = \<lparr>dr_current = NewCanonicalRequest p effective, dr_checkpoint = Some (checkpoint_Clone p c)\<rparr>"
    using d(1) by (auto simp: PrepareResume_def result_simps early_return split: if_splits)
  have none: "rq_previousResponse effective = None"
    using resolveTurnContinuation_history(2) [OF e] by (simp add: withoutPreviousResponse_def NewCanonicalRequest_def)
  obtain pl h where s: "SplitRequestPrelude (rq_items effective) = Inr (pl, h)"
    using d(2) by (auto simp: draft_Finalize_def dr split: sum.splits if_splits)
  have "and_then (materialize p (checkpoint_Clone p c) (NewCanonicalRequest p effective)) (\<lambda>(request, omitted).
      newResolvedRequest p codec request (newPreviousHistory (cr_response (cp_Response c)) omitted)) = Inr r"
    using draft_Finalize_current [of d p effective pl h codec] none s d(2)
    by (simp add: dr checkpoint_Clone_def)
  then show ?thesis using that e by (auto simp: result_simps)
qed

lemma checkpoint_history_Clone [simp]: "checkpoint_history (checkpoint_Clone p c) = checkpoint_history c"
  by (simp add: checkpoint_history_def checkpoint_Clone_def)

lemma resumed_items:
  assumes "Resume p codec request c = Inr r"
  shows "\<exists>pre. list_all request_scoped pre \<and>
    rq_items (rs_request r) = pre @ checkpoint_history c @ RetainedHistory (rq_items request) \<and>
    rq_previousResponse (rs_request r) = None \<and>
    (case rs_previousHistory r of
       None \<Rightarrow> rr_Responses (cr_response (cp_Response c)) = None \<and>
         rr_Interactions (cr_response (cp_Response c)) = None
     | Some ph \<Rightarrow> ph_response ph = cr_response (cp_Response c) \<and>
         take (unat (ir_end (ph_omitItems ph)) - unat (ir_start (ph_omitItems ph)))
           (drop (unat (ir_start (ph_omitItems ph))) (rq_items (rs_request r))) = checkpoint_history c \<and>
         take (unat (ir_start (ph_omitItems ph))) (rq_items (rs_request r)) = pre)"
proof -
  obtain effective req omitted where
    e: "resolveTurnContinuation p c (withoutPreviousResponse p request) = Inr effective"
    and m: "materialize p (checkpoint_Clone p c) (NewCanonicalRequest p effective) = Inr (req, omitted)"
    and r: "newResolvedRequest p codec req (newPreviousHistory (cr_response (cp_Response c)) omitted) = Inr r"
    using assms by (rule Resume_parts)
  obtain pl history where s: "SplitRequestPrelude (rq_items effective) = Inr (pl, history)"
    and items: "rq_items req = pl_items pl @ checkpoint_history c @ history"
    and none: "rq_previousResponse req = None" and norm: "NewCanonicalRequest p req = req"
    and range: "unat (ir_start omitted) = length (pl_items pl)"
      "unat (ir_end omitted) = length (pl_items pl @ checkpoint_history c)"
    using materialize_ok [OF m] by auto
  have "history = RetainedHistory (rq_items request)"
    using SplitRequestPrelude_ok(2) [OF s] resolveTurnContinuation_history(1) [OF e]
    by (simp add: withoutPreviousResponse_def)
  moreover have "rs_request r = req"
    "rs_previousHistory r = newPreviousHistory (cr_response (cp_Response c)) omitted"
    using r norm by (simp_all add: newResolvedRequest_ok)
  ultimately show ?thesis
    using items none range SplitRequestPrelude_ok(3) [OF s]
    by (intro exI [of _ "pl_items pl"]) (auto simp: newPreviousHistory_def)
qed

text \<open>
  C27: resumption is exact. A resumed request consists of request-scoped context, the complete
  history of the checkpoint (what it retained of its request, then its response) and the new items
  of the current request, in this order and nothing else; it names no further predecessor. If
  the checkpoint's response can be continued natively, the range of items that the provider may
  be spared is exactly the checkpoint's history, and the response named with it is the
  checkpoint's; 32-bit coordinates do not wrap.
\<close>

theorem resume_exact:
  assumes "Resume p codec request c = Inr r"
  shows "\<exists>pre. list_all request_scoped pre \<and>
    rq_items (rs_request r) = pre @ checkpoint_history c @ RetainedHistory (rq_items request) \<and>
    rq_previousResponse (rs_request r) = None \<and>
    (case rs_previousHistory r of
       None \<Rightarrow> rr_Responses (cr_response (cp_Response c)) = None \<and>
         rr_Interactions (cr_response (cp_Response c)) = None
     | Some ph \<Rightarrow> ph_response ph = cr_response (cp_Response c) \<and>
         take (unat (ir_end (ph_omitItems ph)) - unat (ir_start (ph_omitItems ph)))
           (drop (unat (ir_start (ph_omitItems ph))) (rq_items (rs_request r))) = checkpoint_history c \<and>
         take (unat (ir_start (ph_omitItems ph))) (rq_items (rs_request r)) = pre)"
  using assms by (rule resumed_items)

section \<open>Local tool rounds\<close>

text \<open>What every resolved request is: split, complete, constructed, with a model.\<close>

definition resolved_ok :: "platform \<Rightarrow> 'c CanonicalRequest \<Rightarrow> bool" where
  "resolved_ok p q \<longleftrightarrow> is_ok (SplitRequestPrelude (rq_items q)) \<and> rq_previousResponse q = None \<and>
     NewCanonicalRequest p q = q \<and> rq_model q \<noteq> None"

lemma validated_split: "ValidateMaterializedRequest p codec q = Inr () \<Longrightarrow> is_ok (SplitRequestPrelude (rq_items q))"
  by (auto simp: ValidateMaterializedRequest_def Let_def is_ok_iff split: sum.splits)

lemma newResolvedRequest_resolved:
  assumes "newResolvedRequest p codec q previous = Inr r" and "rq_model q \<noteq> None"
  shows "resolved_ok p (rs_request r)"
  using assms validated_split [of p codec q]
  by (simp add: newResolvedRequest_ok resolved_ok_def) (simp add: NewCanonicalRequest_def)

lemma Resume_resolved:
  assumes "Resume p codec request c = Inr r"
  shows "resolved_ok p (rs_request r)"
proof -
  obtain q effective omitted where
    m: "materialize p (checkpoint_Clone p c) (NewCanonicalRequest p effective) = Inr (q, omitted)"
    and r: "newResolvedRequest p codec q (newPreviousHistory (cr_response (cp_Response c)) omitted) = Inr r"
    using assms by (rule Resume_parts)
  have "rq_model q \<noteq> None"
    using m by (auto simp: materialize_def NewCanonicalRequest_def result_simps Let_def split: sum.splits)
  with r show ?thesis by (rule newResolvedRequest_resolved)
qed

lemma Begin_resolved:
  assumes "Begin p codec request = Inr r"
  shows "resolved_ok p (rs_request r)"
proof -
  obtain d where d: "PrepareBegin p codec request = Inr d" "draft_Finalize p codec d (draft_Current p d) = Inr r"
    using assms by (auto simp: Begin_def result_simps)
  then have "dr_checkpoint d = None" "rq_model (draft_Current p d) \<noteq> None"
    by (auto simp: PrepareBegin_def materializeBeginRequest_def result_simps draft_Current_def
        NewCanonicalRequest_def split: if_splits)
  then show ?thesis
    using d(2) newResolvedRequest_resolved [of p codec "draft_Current p d" None r]
    by (auto simp: draft_Finalize_def split: if_splits sum.splits)
qed

lemma Continue_items:
  assumes "ContinueAfterLocalResult p codec r response results = Inr r'"
  shows "rq_items (rs_request r') = rq_items (rs_request r) @ cr_items response @ results"
    and "rq_model (rs_request r) \<noteq> None \<Longrightarrow> resolved_ok p (rs_request r')"
proof -
  obtain previous where n: "newResolvedRequest p codec (WithItems p (rs_request r)
      (rq_items (rs_request r) @ cr_items response @ results)) previous = Inr r'"
    using assms by (auto simp: ContinueAfterLocalResult_def Let_def result_simps early_return)
  then show "rq_items (rs_request r') = rq_items (rs_request r) @ cr_items response @ results"
    by (simp add: newResolvedRequest_ok WithItems_def)
  show "resolved_ok p (rs_request r')" if "rq_model (rs_request r) \<noteq> None"
    using newResolvedRequest_resolved [OF n] that by (simp add: WithItems_def NewCanonicalRequest_def)
qed

lemma match_results_prelude:
  "list_all request_scoped xs \<Longrightarrow> match_results calls (xs @ ys) m = match_results calls ys m"
proof (induction xs)
  case (Cons x xs)
  then show ?case by (cases x) auto
qed simp

lemma repeat_same_context:
  assumes "SplitRequestPrelude (rq_items q) = Inr (pl, h)" and "RetainedHistory results = results"
  shows "repeatUnfinishedTurnContext p q (q\<lparr>rq_items := pl_items pl @ results\<rparr>) =
    Inr (NewCanonicalRequest p (q\<lparr>rq_items := pl_items pl @ results\<rparr>))"
proof -
  have "(if pl_toolsFirst pl then pl_declarations pl @ pl_directives pl
      else pl_directives pl @ pl_declarations pl) = pl_items pl"
    using prelude_bands [OF assms(1)] by (simp add: bands_def)
  then show ?thesis
    using assms(1) split_append [OF assms]
    by (auto simp: repeatUnfinishedTurnContext_def Let_def replaceRequestItems_def)
qed

lemma resolve_same_turn:
  assumes q: "NewCanonicalRequest p q = q" and split: "SplitRequestPrelude (rq_items q) = Inr (pl, h)"
    and results: "RetainedHistory results = results"
    and match: "is_ok (match_results (pending_calls (cr_items (cp_Response c))) results [])" and c: "cp_Request c = q"
  shows "resolveTurnContinuation p c (q\<lparr>rq_items := pl_items pl @ results\<rparr>) =
    Inr (q\<lparr>rq_items := pl_items pl @ results\<rparr>)"
  using match match_results_prelude [OF SplitRequestPrelude_ok(3) [OF split]]
    repeat_same_context [OF split results] q c
  by (auto simp: resolveTurnContinuation_def is_ok_iff)

text \<open>The request of a round: the same context, the whole history, the response and the results.\<close>

lemma materialize_same_turn:
  assumes q: "NewCanonicalRequest p q = q" "rq_previousResponse q = None" "rq_model q \<noteq> None"
    and split: "SplitRequestPrelude (rq_items q) = Inr (pl, h)" and results: "RetainedHistory results = results"
    and c: "cp_Request c = q" "cp_Response c = response"
  shows "materialize p (checkpoint_Clone p c) (q\<lparr>rq_items := pl_items pl @ results\<rparr>) =
      and_then (checkedRequestItemIndex (length (pl_items pl))) (\<lambda>start.
        and_then (checkedRequestItemIndex (length (rq_items q @ cr_items response))) (\<lambda>end'.
          Inr (q\<lparr>rq_items := rq_items q @ cr_items response @ results\<rparr>, \<lparr>ir_start = start, ir_end = end'\<rparr>)))"
proof -
  let ?cur = "q\<lparr>rq_items := pl_items pl @ results\<rparr>"
  let ?all = "q\<lparr>rq_items := rq_items q @ cr_items response @ results\<rparr>"
  have items: "rq_items q = pl_items pl @ h" "RetainedHistory (rq_items q) = h"
    using SplitRequestPrelude_ok [OF split] by simp_all
  have cur: "SplitRequestPrelude (rq_items ?cur) = Inr (pl, results)" using split_append [OF split results] by simp
  have all: "?cur\<lparr>rq_model := Some (inheritString (rq_model ?cur \<noteq> None) (rq_Model ?cur) m),
      rq_items := rq_items q @ cr_items response @ results, rq_previousResponse := None\<rparr> = ?all" for m
    using q(2,3) by (cases q) (auto simp: inheritString_def rq_Model_def)
  have norm: "NewCanonicalRequest p ?all = ?all" using q(1) by simp
  have n: "length (pl_items pl @ h @ cr_items response) = length (rq_items q @ cr_items response)"
    and whole: "pl_items pl @ h @ cr_items response @ results = rq_items q @ cr_items response @ results"
    by (simp_all add: items(1))
  have clone: "RetainedHistory (rq_items (cp_Request (checkpoint_Clone p c))) = h"
    "cr_items (cp_Response (checkpoint_Clone p c)) = cr_items response"
    using items(2) q(1) by (simp_all add: checkpoint_Clone_def c)
  show ?thesis
    unfolding materialize_def cur sum.case prod.case Let_def clone append_assoc n whole all norm by (rule refl)
qed

lemma PrepareResume_same_turn:
  assumes q: "NewCanonicalRequest p q = q" "rq_previousResponse q = None"
    and split: "SplitRequestPrelude (rq_items q) = Inr (pl, h)" and results: "RetainedHistory results = results"
    and committed: "ValidateCommittedResponse (cr_response (cp_Response c)) = Inr ()" and c: "cp_Request c = q"
    and turn: "is_ok (match_results (pending_calls (cr_items (cp_Response c))) results [])"
  shows "PrepareResume p (q\<lparr>rq_items := pl_items pl @ results\<rparr>) c =
    Inr \<lparr>dr_current = q\<lparr>rq_items := pl_items pl @ results\<rparr>, dr_checkpoint = Some (checkpoint_Clone p c)\<rparr>"
proof -
  let ?cur = "q\<lparr>rq_items := pl_items pl @ results\<rparr>"
  have cur: "NewCanonicalRequest p ?cur = ?cur" "rq_previousResponse ?cur = None" using q by simp_all
  have "?cur\<lparr>rq_previousResponse := None\<rparr> = ?cur" using q(2) by (cases q) simp
  then have "withoutPreviousResponse p ?cur = ?cur" using cur(1) by (simp add: withoutPreviousResponse_def)
  then show ?thesis
    using committed cur resolve_same_turn [OF q(1) split results turn c]
    by (simp add: PrepareResume_def PreviousSwobuResponseID_def)
qed

text \<open>
  C28: a local tool round is a commit followed by a resumption. Continuing a resolved request in
  process with the response of its provider call and local results gives the same resolved
  request, native continuation range included, or the same error, as storing a checkpoint of
  that request and response and resuming it with a request of the same context whose new items
  are the results, whenever the results are admissible for the response.
\<close>

theorem continue_is_resume:
  assumes r: "resolved_ok p (rs_request r)" and split: "SplitRequestPrelude (rq_items (rs_request r)) = Inr (pl, h)"
    and committed: "ValidateCommittedResponse (cr_response response) = Inr ()"
    and history: "RetainedHistory (cr_items response) = cr_items response" "RetainedHistory results = results"
    and turn: "is_ok (match_results (pending_calls (cr_items response)) results [])"
    and c: "cp_Request c = rs_request r" "cp_Response c = response"
  shows "ContinueAfterLocalResult p codec r response results =
    Resume p codec ((rs_request r)\<lparr>rq_items := pl_items pl @ results\<rparr>) c"
proof -
  let ?q = "rs_request r"
  let ?cur = "?q\<lparr>rq_items := pl_items pl @ results\<rparr>"
  let ?all = "?q\<lparr>rq_items := rq_items ?q @ cr_items response @ results\<rparr>"
  let ?d = "\<lparr>dr_current = ?cur, dr_checkpoint = Some (checkpoint_Clone p c)\<rparr>"
  define n where "n = length (rq_items ?q @ cr_items response)"
  have q: "NewCanonicalRequest p ?q = ?q" "rq_previousResponse ?q = None" "rq_model ?q \<noteq> None"
    using r by (simp_all add: resolved_ok_def)
  have cur: "NewCanonicalRequest p ?cur = ?cur" "rq_previousResponse ?cur = None"
    and all: "NewCanonicalRequest p ?all = ?all" using q by simp_all
  have items: "rq_items ?q = pl_items pl @ h" "RetainedHistory h = h"
    using SplitRequestPrelude_ok [OF split] by simp_all
  have split_cur: "SplitRequestPrelude (rq_items ?cur) = Inr (pl, results)"
    using split_append [OF split history(2)] by simp
  have split_all: "SplitRequestPrelude (rq_items ?q @ cr_items response @ results) = Inr (pl, h @ cr_items response @ results)"
    using split_append [OF split, of "h @ cr_items response @ results"] history items by simp
  note prep = PrepareResume_same_turn [OF q(1,2) split history(2) _ c(1), unfolded c(2), OF committed turn]
  note mat = materialize_same_turn [OF q split history(2) c, folded n_def]
  have fin: "draft_Finalize p codec ?d (draft_Current p ?d) = and_then (materialize p (checkpoint_Clone p c) ?cur)
      (\<lambda>(request, omitted). newResolvedRequest p codec request (newPreviousHistory (cr_response response) omitted))"
    using draft_Finalize_current [of ?d p ?cur, OF _ cur(2) split_cur] unfolding cur(1)
    by (simp add: c(2) checkpoint_Clone_def)
  have "Resume p codec ?cur c = and_then (checkedRequestItemIndex (length (pl_items pl))) (\<lambda>start.
      and_then (checkedRequestItemIndex n) (\<lambda>end'.
        newResolvedRequest p codec ?all (newPreviousHistory (cr_response response)
          \<lparr>ir_start = start, ir_end = end'\<rparr>)))"
    unfolding Resume_def prep and_then_Inr fin mat by (simp add: and_then_def split: sum.splits)
  moreover have "ContinueAfterLocalResult p codec r response results =
      and_then (checkedRequestItemIndex n) (\<lambda>end'.
        and_then (checkedRequestItemIndex (length (pl_items pl))) (\<lambda>start.
          newResolvedRequest p codec ?all (newPreviousHistory (cr_response response)
            \<lparr>ir_start = start, ir_end = end'\<rparr>)))"
    using committed split_all all by (simp add: ContinueAfterLocalResult_def Let_def n_def WithItems_def)
  ultimately show ?thesis by (simp add: checkedRequestItemIndex_def n_def items(1))
qed

section \<open>A tool round, resumed and in process\<close>

definition empty_objects :: json_codec where
  "empty_objects = \<lparr>json_decode = (\<lambda>s. if s = ''{}'' then Inr (JObject [])
     else Inl (Errorf ''invalid character'' [])), json_quote = (\<lambda>s. [CHR 0x22] @ s @ [CHR 0x22])\<rparr>"

definition round_call :: CanonicalItem where
  "round_call = tool_call_item \<lparr>tc_callID = ''call'',
     tc_tool = \<lparr>tk_namespace = ''client'', tk_kind = ToolKindFunction, tk_name = ''read''\<rparr>,
     tc_input = object_input (projr (ParseJSONObject empty_objects ''{}'')),
     tc_discoveryExecutor = DiscoveryExecutorNone, tc_responsesNullCallID = False, tc_responsesWebSearch = None\<rparr>"

definition round_result :: CanonicalItem where
  "round_result = projr (NewToolResultItem ''call'' [text_result_part ''done''] False)"

definition round_checkpoint :: "unit Checkpoint" where
  "round_checkpoint = (let c = sample_checkpoint ''r1'' [user_says ''hello''] in
     c\<lparr>cp_Response := (cp_Response c)\<lparr>cr_response := \<lparr>rr_SwobuID = ''r1'', rr_Responses =
         Some \<lparr>rc_ProviderResponseID = ''native'', rc_TargetID = ''target'', rc_TargetVersion = 1\<rparr>,
         rr_Interactions = None\<rparr>, cr_items := [round_call]\<rparr>\<rparr>)"

definition round_request :: "CanonicalItem list \<Rightarrow> unit CanonicalRequest" where
  "round_request items = (cp_Request round_checkpoint)\<lparr>rq_items := items\<rparr>"

definition round_resumed :: "unit ResolvedRequest" where
  "round_resumed = projr (Resume plain_platform empty_objects (round_request [round_result]) round_checkpoint)"

lemma round_resumed:
  "Resume plain_platform empty_objects (round_request [round_result]) round_checkpoint = Inr round_resumed"
  by code_simp

theorem resume_exact_witness:
  "\<exists>pre. list_all request_scoped pre \<and>
     rq_items (rs_request round_resumed) = pre @ [user_says ''hello'', round_call, round_result] \<and>
     map_option (\<lambda>ph. (ph_response ph, ir_end (ph_omitItems ph))) (rs_previousHistory round_resumed) =
       Some (cr_response (cp_Response round_checkpoint), 2)"
proof -
  have h: "checkpoint_history round_checkpoint @ RetainedHistory (rq_items (round_request [round_result])) =
      [user_says ''hello'', round_call, round_result]" by code_simp
  have "map_option (\<lambda>ph. (ph_response ph, ir_end (ph_omitItems ph))) (rs_previousHistory round_resumed) =
      Some (cr_response (cp_Response round_checkpoint), 2)" by code_simp
  then show ?thesis using resume_exact [OF round_resumed] unfolding h by blast
qed

definition round_first :: "unit ResolvedRequest" where
  "round_first = \<lparr>rs_request = cp_Request round_checkpoint, rs_previousHistory = None\<rparr>"

theorem continue_is_resume_witness:
  "ContinueAfterLocalResult plain_platform empty_objects round_first (cp_Response round_checkpoint) [round_result] =
     Resume plain_platform empty_objects (round_request [round_result]) round_checkpoint \<and>
   is_ok (Resume plain_platform empty_objects (round_request [round_result]) round_checkpoint)"
proof -
  have "is_ok (SplitRequestPrelude (rq_items (rs_request round_first)))"
    "pl_items (fst (projr (SplitRequestPrelude (rq_items (rs_request round_first))))) = []" by code_simp+
  then obtain pl h where s: "SplitRequestPrelude (rq_items (rs_request round_first)) = Inr (pl, h)" "pl_items pl = []"
    by (auto simp: is_ok_iff)
  have facts: "NewCanonicalRequest plain_platform (rs_request round_first) = rs_request round_first"
    "rq_previousResponse (rs_request round_first) = None" "rq_model (rs_request round_first) \<noteq> None"
    "ValidateCommittedResponse (cr_response (cp_Response round_checkpoint)) = Inr ()"
    "RetainedHistory (cr_items (cp_Response round_checkpoint)) = cr_items (cp_Response round_checkpoint)"
    "RetainedHistory [round_result] = [round_result]"
    "is_ok (match_results (pending_calls (cr_items (cp_Response round_checkpoint))) [round_result] [])"
    by code_simp+
  have "cp_Request round_checkpoint = rs_request round_first" by (simp add: round_first_def)
  moreover have "resolved_ok plain_platform (rs_request round_first)"
    using facts(1-3) s(1) by (simp add: resolved_ok_def)
  ultimately show ?thesis
    using continue_is_resume [of plain_platform round_first pl h _ _ round_checkpoint, OF _ s(1) facts(4-7) _ refl] s(2) round_resumed
    by (simp add: round_request_def)
qed

end
