(* ===== verification/Response_Delivery.thy ===== *)
theory Response_Delivery
  imports Canonical_Projection Continuity_Properties
begin

text \<open>
  Delivery of a provider response (\<^verbatim>\<open>src/internal/exchange\<close>): the readers between a decoded provider
  stream and the client encoder, in the order \<open>completeProviderCall\<close> stacks them. A reader is a
  function that pulls once from its state: identity binding and validation
  (\<^verbatim>\<open>canonical\<close>), the prefetched opening (\<^verbatim>\<open>response_handoff_stream.go\<close>), the terminal truth after a
  provider failure (\<^verbatim>\<open>terminal_response_stream.go\<close>), checkpoint capture
  (\<^verbatim>\<open>checkpoint_capture_stream.go\<close>), the committer (\<^verbatim>\<open>checkpoint_committer.go\<close>) and the gate that
  withholds success until the checkpoint is stored (\<^verbatim>\<open>checkpoint_terminal_gate.go\<close>).

  The provider's decoder below is an arbitrary reader. An error that is \<^verbatim>\<open>io.EOF\<close> is \<open>pulled_EOF\<close>,
  staged or not. Logging, event times and the guards against nil readers, which the constructors
  exclude, are left out. The checkpoint store is shared with other exchanges, so each pull takes
  it and returns it.
\<close>

section \<open>Readers\<close>

type_synonym 'u reader = "'u \<Rightarrow> pulled \<times> 'u"

definition staged_Next :: "string \<Rightarrow> 'u reader \<Rightarrow> 'u reader" where
  "staged_Next stage next u =
     (case next u of
        (pulled_error e, u') \<Rightarrow> (pulled_error (StageResponseFailure stage e), u')
      | r \<Rightarrow> r)"

definition bound_reader :: "ResponseBinding \<Rightarrow> 'u reader \<Rightarrow> 'u reader" where
  "bound_reader b next u = (case next u of (r, u') \<Rightarrow> (bound_Next b r, u'))"

definition validated_reader :: "json_codec \<Rightarrow> 'u reader \<Rightarrow> ('u \<times> ValidatedResponseStream) reader" where
  "validated_reader codec next = (\<lambda>(u, v).
     case next u of (r, u') \<Rightarrow> (case validated_Next codec r v of (r', v') \<Rightarrow> (r', u', v')))"

text \<open>The readers of \<open>completeProviderCall\<close> over the decoded stream.\<close>

definition provider_events ::
    "json_codec \<Rightarrow> ResponseBinding \<Rightarrow> 'u reader \<Rightarrow> ('u \<times> ValidatedResponseStream) reader" where
  "provider_events codec b next =
     staged_Next ''canonical_response_validation''
       (validated_reader codec (bound_reader b (staged_Next ''provider_stream_decode'' next)))"

section \<open>The opening of a response\<close>

record 'u responseHandoffStream =
  rh_prefix :: "Event list"
  rh_upstream :: 'u

definition responseHandoffEvent :: "EventKind \<Rightarrow> bool \<Rightarrow> bool" where
  "responseHandoffEvent kind clientStreaming \<longleftrightarrow>
     (if clientStreaming then kind \<noteq> EventEnvelopeStart
      else kind \<noteq> EventEnvelopeStart \<and> kind \<noteq> EventResponseIdentity)"

function prefetch ::
    "'u reader \<Rightarrow> bool \<Rightarrow> Event list \<Rightarrow> 'u \<Rightarrow> pulled + 'u responseHandoffStream" where
  "prefetch next clientStreaming held u =
     (case next u of
        (pulled_event event, u') \<Rightarrow>
          let held' = held @ [event]
          in if responseHandoffEvent (ev_Kind event) clientStreaming
             then Inr \<lparr>rh_prefix = held', rh_upstream = u'\<rparr>
             else if length held' > 2
             then Inl (pulled_error (CanonicalError ErrorCodeInternal
               (Sprintf ''response opening prefix exceeded handoff bound'' []) None))
             else prefetch next clientStreaming held' u'
      | (failed, _) \<Rightarrow> Inl failed)"
  by pat_completeness auto
termination
  by (relation "measure (\<lambda>(next, clientStreaming, held, u). 3 - length held)") auto

definition prefetchResponseHandoff :: "'u reader \<Rightarrow> bool \<Rightarrow> 'u \<Rightarrow> pulled + 'u responseHandoffStream" where
  "prefetchResponseHandoff next clientStreaming u = prefetch next clientStreaming [] u"

definition handoff_Next :: "'u reader \<Rightarrow> 'u responseHandoffStream reader" where
  "handoff_Next next s =
     (case rh_prefix s of
        event # rest \<Rightarrow> (pulled_event event, s\<lparr>rh_prefix := rest\<rparr>)
      | [] \<Rightarrow> (case next (rh_upstream s) of (r, u) \<Rightarrow> (r, s\<lparr>rh_upstream := u\<rparr>)))"

section \<open>Terminal truth\<close>

record 'u terminalResponseStream =
  ts_upstream :: 'u
  ts_started :: bool
  ts_terminated :: bool
  ts_pending :: "Event list"
  ts_last :: Event
  ts_failure :: "pulled option"

definition zeroEvent :: Event where
  "zeroEvent = \<lparr>ev_ExchangeID = [], ev_Seq = 0, ev_Kind = EventOther [], ev_EnvID = [], ev_ParentID = [],
     ev_Payload = other_payload, ev_NativeID = []\<rparr>"

definition newTerminalResponseStream :: "'u \<Rightarrow> 'u terminalResponseStream" where
  "newTerminalResponseStream u = \<lparr>ts_upstream = u, ts_started = False, ts_terminated = False,
     ts_pending = [], ts_last = zeroEvent, ts_failure = None\<rparr>"

definition responseTerminalStatus :: "Event \<Rightarrow> string option" where
  "responseTerminalStatus event =
     (case (ev_Kind event, ev_Payload event) of
        (EventEnvelopeEnd, envelope_end kind status) \<Rightarrow> if kind = EnvResponse then Some status else None
      | _ \<Rightarrow> None)"

definition opens_response :: "Event \<Rightarrow> bool" where
  "opens_response event \<longleftrightarrow>
     (case (ev_Kind event, ev_Payload event) of
        (EventEnvelopeStart, envelope_start kind _) \<Rightarrow> kind = EnvResponse
      | _ \<Rightarrow> False)"

definition terminalFailureEvents :: "Event \<Rightarrow> string \<Rightarrow> string \<Rightarrow> Event list" where
  "terminalFailureEvents base code message =
     [zeroEvent\<lparr>ev_ExchangeID := ev_ExchangeID base, ev_Seq := ev_Seq base + 1, ev_Kind := EventError,
        ev_EnvID := ev_EnvID base, ev_ParentID := ev_ParentID base,
        ev_Payload := error_payload code message False\<rparr>,
      zeroEvent\<lparr>ev_ExchangeID := ev_ExchangeID base, ev_Seq := ev_Seq base + 2, ev_Kind := EventEnvelopeEnd,
        ev_EnvID := ev_EnvID base, ev_ParentID := ev_ParentID base,
        ev_Payload := envelope_end EnvResponse EnvelopeStatusError\<rparr>]"

text \<open>The code and the message the client sees for a failure after the response started.\<close>

definition failure_detail :: "pulled \<Rightarrow> string \<times> string" where
  "failure_detail failed =
     (let message = ''provider stream failed after response start''
      in case failed of
        pulled_error e \<Rightarrow>
          (case errors_As sel_backend e of
             Some b \<Rightarrow>
               (case be_ProviderError b of
                  Some detail \<Rightarrow>
                    (if bd_Code detail \<noteq> [] then bd_Code detail
                     else if bd_Type detail \<noteq> [] then bd_Type detail else ''provider_stream_failed'',
                     if bd_Message detail \<noteq> [] then bd_Message detail else message)
                | None \<Rightarrow> (''provider_stream_decode_failed'', message))
           | None \<Rightarrow> (''provider_stream_decode_failed'', message))
      | _ \<Rightarrow> (''provider_stream_incomplete'', ''provider stream ended before completed''))"

text \<open>The branch of \<open>Next\<close> that hands out a pending event; the code reaches it by calling itself.\<close>

definition terminal_pending :: "'u terminalResponseStream \<Rightarrow> pulled \<times> 'u terminalResponseStream" where
  "terminal_pending s =
     (case ts_pending s of
        event # rest \<Rightarrow> (pulled_event event, s\<lparr>ts_pending := rest\<rparr>)
      | [] \<Rightarrow> (pulled_EOF, s))"

definition terminal_Next :: "'u reader \<Rightarrow> 'u terminalResponseStream reader" where
  "terminal_Next next s =
     (if ts_pending s \<noteq> [] \<or> ts_terminated s then terminal_pending s
      else case next (ts_upstream s) of
        (pulled_event event, u) \<Rightarrow>
          let opens = opens_response event;
              event = (if opens then event\<lparr>ev_NativeID := []\<rparr> else event)
          in (pulled_event event, s\<lparr>ts_upstream := u, ts_started := ts_started s \<or> opens, ts_last := event,
               ts_terminated := (responseTerminalStatus event \<noteq> None)\<rparr>)
      | (failed, u) \<Rightarrow>
          let s = s\<lparr>ts_upstream := u\<rparr>
          in if ts_started s \<and> (case failed of pulled_error e \<Rightarrow> \<not> is_canceled e | _ \<Rightarrow> True)
             then terminal_pending (case failure_detail failed of (code, message) \<Rightarrow>
               s\<lparr>ts_failure := Some failed, ts_terminated := True,
                 ts_pending := terminalFailureEvents (ts_last s) code message\<rparr>)
             else (failed, s))"

section \<open>Checkpoint capture\<close>

datatype checkpointCaptureSnapshot =
    capturePending
  | captureCompleted CanonicalResponse CanonicalResponse \<comment> \<open>for the client; for the checkpoint\<close>
  | captureFailed go_error

type_synonym response_transform = "CanonicalResponse \<Rightarrow> go_error + CanonicalResponse"

record 'u checkpointCaptureResponseStream =
  cs_upstream :: 'u
  cs_binding :: ResponseBinding
  cs_projector :: ResponseProjector
  cs_checkpointResponse :: "response_transform option"
  cs_result :: checkpointCaptureSnapshot

definition newCheckpointCaptureResponseStream ::
    "'u \<Rightarrow> ResponseBinding \<Rightarrow> response_transform option \<Rightarrow> 'u checkpointCaptureResponseStream" where
  "newCheckpointCaptureResponseStream u b transform = \<lparr>cs_upstream = u, cs_binding = b,
     cs_projector = NewResponseProjector b, cs_checkpointResponse = transform, cs_result = capturePending\<rparr>"

definition capture_fail ::
    "go_error \<Rightarrow> 'u checkpointCaptureResponseStream \<Rightarrow> 'u checkpointCaptureResponseStream" where
  "capture_fail e s = (if cs_result s = capturePending then s\<lparr>cs_result := captureFailed e\<rparr> else s)"

text \<open>The identity a response event must carry under a binding.\<close>

definition foreign_identity :: "ResponseBinding \<Rightarrow> Event \<Rightarrow> go_error option" where
  "foreign_identity b event =
     (if ev_Kind event \<noteq> EventResponseIdentity then None
      else case ev_Payload event of
        response_identity ref \<Rightarrow>
          if rr_SwobuID ref \<noteq> rb_SwobuID b
          then Some (Errorf ''response identity does not match configured checkpoint ID'' [])
          else if (case rr_Responses ref of None \<Rightarrow> False
            | Some c \<Rightarrow> rc_TargetID c \<noteq> rb_TargetID b \<or> rc_TargetVersion c \<noteq> rb_TargetVersion b)
          then Some (Errorf ''response native handle does not match attempted target'' [])
          else if (case rr_Interactions ref of None \<Rightarrow> False
            | Some c \<Rightarrow> ic_TargetID c \<noteq> rb_TargetID b \<or> ic_TargetVersion c \<noteq> rb_TargetVersion b)
          then Some (Errorf ''response native handle does not match attempted target'' [])
          else None
      | _ \<Rightarrow> Some (Errorf ''response identity does not match configured checkpoint ID'' []))"

text \<open>
  The response to continue from: the client's response, completed by the provider's decoder where
  it asks for it, and bound to the target (\<open>finalizeContinuationResponse\<close> of
  \<^verbatim>\<open>provider_call.go\<close> does the same for a delayed handoff).
\<close>

definition finalizeContinuationResponse ::
    "CanonicalResponse \<Rightarrow> ResponseBinding \<Rightarrow> response_transform option \<Rightarrow> go_error + CanonicalResponse" where
  "finalizeContinuationResponse response b transform =
     (case transform of
        None \<Rightarrow> Inr response
      | Some f \<Rightarrow>
          (case f response of
             Inl e \<Rightarrow> Inl (Errorw ''finalizing continuation response: %w'' [] e)
           | Inr transformed \<Rightarrow>
               (case BindResponseOpaqueThinking transformed (rb_TargetID b) (rb_TargetVersion b) of
                  Inl e \<Rightarrow> Inl (Errorw ''binding continuation response: %w'' [] e)
                | Inr bound \<Rightarrow> Inr bound)))"

text \<open>The snapshot at a completed end, from the folded projection.\<close>

definition capture_terminal ::
    "'u checkpointCaptureResponseStream \<Rightarrow> 'u checkpointCaptureResponseStream" where
  "capture_terminal s =
     (case projector_Done (cs_projector s) of
        Inl e \<Rightarrow> capture_fail (Errorw ''projecting checkpoint response: %w'' [] e) s
      | Inr response \<Rightarrow>
          (case cs_checkpointResponse s of
             None \<Rightarrow> s\<lparr>cs_result := captureCompleted response response\<rparr>
           | Some transform \<Rightarrow>
               (case transform response of
                  Inl e \<Rightarrow> capture_fail (Errorw ''finalizing checkpoint response: %w'' [] e) s
                | Inr transformed \<Rightarrow>
                    (case BindResponseOpaqueThinking transformed
                        (rb_TargetID (cs_binding s)) (rb_TargetVersion (cs_binding s)) of
                       Inl e \<Rightarrow> capture_fail (Errorw ''binding checkpoint response: %w'' [] e) s
                     | Inr bound \<Rightarrow> s\<lparr>cs_result := captureCompleted response bound\<rparr>))))"

definition capture_event ::
    "json_codec \<Rightarrow> Event \<Rightarrow> 'u checkpointCaptureResponseStream \<Rightarrow> 'u checkpointCaptureResponseStream" where
  "capture_event codec event s =
     (case projector_Apply codec event (cs_projector s) of
        (foldErr, pj) \<Rightarrow>
          let s = s\<lparr>cs_projector := pj\<rparr>
          in if foldErr \<noteq> None \<and> cs_result s = capturePending
             then capture_fail (Errorw ''projecting checkpoint response: %w'' [] (the foldErr)) s
             else case responseTerminalStatus event of
               None \<Rightarrow> s
             | Some status \<Rightarrow>
                 if status \<noteq> EnvelopeStatusCompleted
                 then capture_fail (Errorf ''canonical response did not complete successfully'' []) s
                 else if cs_result s = capturePending then capture_terminal s
                 else s)"

definition capture_Next :: "json_codec \<Rightarrow> 'u reader \<Rightarrow> 'u checkpointCaptureResponseStream reader" where
  "capture_Next codec next s =
     (case next (cs_upstream s) of
        (pulled_event event, u) \<Rightarrow>
          (case foreign_identity (cs_binding s) event of
             Some e \<Rightarrow> (pulled_error e, capture_fail e (s\<lparr>cs_upstream := u\<rparr>))
           | None \<Rightarrow> (pulled_event event, capture_event codec event (s\<lparr>cs_upstream := u\<rparr>)))
      | (pulled_EOF, u) \<Rightarrow> (pulled_EOF, s\<lparr>cs_upstream := u\<rparr>)
      | (pulled_error e, u) \<Rightarrow> (pulled_error e, capture_fail e (s\<lparr>cs_upstream := u\<rparr>)))"

section \<open>The committer\<close>

record 'c checkpointCommitter =
  kc_once :: bool
  kc_err :: "go_error option"
  kc_workspaceSlug :: string
  kc_request :: "'c CanonicalRequest"
  kc_advance :: "(History option \<times> RequestLeaf) option"
  kc_executionAffinity :: affinity_key
  kc_storageReuse :: StorageReuse

text \<open>\<open>CheckpointCommitError\<close> wraps one cause and marks it for the delivery owner.\<close>

definition checkpointCommitError :: "go_error \<Rightarrow> go_error" where
  "checkpointCommitError e = Errorw ''checkpoint commit failed'' [] e"

text \<open>The services of a commit: the digest and the clock readings of its one execution.\<close>

record 'c commit_env =
  ce_platform :: platform
  ce_json :: json_codec
  ce_hash :: "string \<Rightarrow> string"
  ce_encode :: "('c CanonicalRequest \<Rightarrow> CanonicalResponse \<Rightarrow> go_error + ResponseLeaf option) option"
    \<comment> \<open>the client codec's \<open>EncodeResponseDocument\<close>, of whose result only the fingerprint is used\<close>
  ce_created :: int
  ce_moments :: "int \<times> int \<times> int"

definition checkpoint_record ::
    "'c commit_env \<Rightarrow> CanonicalResponse \<Rightarrow> ResponseLeaf option \<Rightarrow> 'c checkpointCommitter \<Rightarrow> 'c Checkpoint" where
  "checkpoint_record env response fingerprint c =
     \<lparr>cp_History = (case (kc_advance c, fingerprint) of
          (Some (previous, request), Some leaf) \<Rightarrow>
            (case Advance (ce_hash env) previous request leaf of Inl _ \<Rightarrow> None | Inr h \<Rightarrow> Some h)
        | _ \<Rightarrow> None),
      cp_ExecutionAffinity = kc_executionAffinity c, cp_Request = NewCanonicalRequest (ce_platform env) (kc_request c),
      cp_Response = response, cp_CreatedAt = ce_created env, cp_ExpiresAt = None, cp_storageReuse = zeroReuse\<rparr>"

definition commitDocument ::
    "'c commit_env \<Rightarrow> CanonicalResponse \<Rightarrow> ResponseLeaf option \<Rightarrow> 'c checkpointCommitter \<Rightarrow> 'c memoryStore \<Rightarrow>
     go_error option \<times> 'c checkpointCommitter \<times> 'c memoryStore" where
  "commitDocument env response fingerprint c store =
     (if kc_once c then (kc_err c, c, store)
      else case store_Put (ce_platform env) (ce_moments env) (kc_workspaceSlug c)
          \<lparr>cm_Checkpoint = checkpoint_record env response fingerprint c, cm_Reuse = kc_storageReuse c\<rparr> store of
        (store', Inr _) \<Rightarrow> (kc_err c, c\<lparr>kc_once := True\<rparr>, store')
      | (store', Inl e) \<Rightarrow>
          let err = Some (checkpointCommitError (Errorw ''checkpoint store failed: %w'' [] e))
          in (err, c\<lparr>kc_once := True, kc_err := err\<rparr>, store'))"

section \<open>The terminal gate\<close>

record ('u, 'c) checkpointTerminalGate =
  gt_capture :: "'u checkpointCaptureResponseStream"
  gt_request :: "'c CanonicalRequest"
  gt_committer :: "'c checkpointCommitter"
  gt_held :: "Event list"
  gt_pending :: "Event list"
  gt_terminal :: "go_error option"
  gt_last :: Event
  gt_response :: string

definition newCheckpointTerminalGate ::
    "platform \<Rightarrow> 'u checkpointCaptureResponseStream \<Rightarrow> 'c CanonicalRequest \<Rightarrow> 'c checkpointCommitter \<Rightarrow>
     ('u, 'c) checkpointTerminalGate" where
  "newCheckpointTerminalGate p capture request committer = \<lparr>gt_capture = capture,
     gt_request = NewCanonicalRequest p request, gt_committer = committer, gt_held = [], gt_pending = [],
     gt_terminal = None, gt_last = zeroEvent, gt_response = []\<rparr>"

definition responseFingerprint ::
    "'c commit_env \<Rightarrow> 'c CanonicalRequest \<Rightarrow> CanonicalResponse \<Rightarrow> ResponseLeaf option" where
  "responseFingerprint env request response =
     (case ce_encode env of
        None \<Rightarrow> None
      | Some encode \<Rightarrow> (case encode request response of Inl _ \<Rightarrow> None | Inr fingerprint \<Rightarrow> fingerprint))"

definition finalization_message :: string where
  "finalization_message = ''response finalization failed locally; partial output may have been delivered, '' @
     ''continuation is unavailable, and retry may repeat provider work''"

text \<open>
  The end of a completed response: commit, then release what was held, or replace it by one
  failed terminal. The result \<open>None\<close> means that \<open>Next\<close> calls itself.
\<close>

definition gate_completed ::
    "'c commit_env \<Rightarrow> Event \<Rightarrow> ('u, 'c) checkpointTerminalGate \<Rightarrow> 'c memoryStore \<Rightarrow>
     pulled option \<times> ('u, 'c) checkpointTerminalGate \<times> 'c memoryStore" where
  "gate_completed env event g store =
     (case cs_result (gt_capture g) of
        captureCompleted client checkpoint \<Rightarrow>
          (case commitDocument env checkpoint (responseFingerprint env (gt_request g) client)
              (gt_committer g) store of
             (None, c, store') \<Rightarrow>
               (None, g\<lparr>gt_committer := c, gt_pending := gt_held g @ [event], gt_held := []\<rparr>, store')
           | (Some e, c, store') \<Rightarrow>
               let base = (if ev_Kind (gt_last g) = EventOther [] then event else gt_last g)
               in (None, g\<lparr>gt_committer := c, gt_held := [], gt_terminal := Some e,
                   gt_pending := terminalFailureEvents (base\<lparr>ev_EnvID := gt_response g, ev_ParentID := []\<rparr>)
                     ''INTERNAL_ERROR'' finalization_message\<rparr>, store'))
      | captureFailed e \<Rightarrow> (Some (pulled_error (checkpointCommitError e)), g, store)
      | capturePending \<Rightarrow>
          (Some (pulled_error (checkpointCommitError (Errorf ''checkpoint response capture did not complete'' []))),
           g, store))"

definition gate_step ::
    "'c commit_env \<Rightarrow> 'u reader \<Rightarrow> ('u, 'c) checkpointTerminalGate \<Rightarrow> 'c memoryStore \<Rightarrow>
     pulled option \<times> ('u, 'c) checkpointTerminalGate \<times> 'c memoryStore" where
  "gate_step env next g store =
     (case gt_pending g of
        event # rest \<Rightarrow> (Some (pulled_event event), g\<lparr>gt_pending := rest, gt_last := event\<rparr>, store)
      | [] \<Rightarrow>
      (case gt_terminal g of
         Some e \<Rightarrow> (Some (pulled_error e), g, store)
       | None \<Rightarrow>
       (case capture_Next (ce_json env) next (gt_capture g) of
          (pulled_event event, capture) \<Rightarrow>
            let g = g\<lparr>gt_capture := capture\<rparr>
            in if ev_Kind event = EventFinish then (None, g\<lparr>gt_held := gt_held g @ [event]\<rparr>, store)
               else let g = (if opens_response event then g\<lparr>gt_response := ev_EnvID event\<rparr> else g)
               in (case responseTerminalStatus event of
                     None \<Rightarrow> (Some (pulled_event event), g\<lparr>gt_last := event\<rparr>, store)
                   | Some status \<Rightarrow>
                       if status \<noteq> EnvelopeStatusCompleted
                       then (None, g\<lparr>gt_pending := gt_held g @ [event], gt_held := []\<rparr>, store)
                       else gate_completed env event g store)
        | (failed, capture) \<Rightarrow> (Some failed, g\<lparr>gt_capture := capture\<rparr>, store))))"

text \<open>A provider that finishes without end would keep \<open>Next\<close> from returning: the value \<open>None\<close>.\<close>

partial_function (option) gate_Next ::
    "'c commit_env \<Rightarrow> 'u reader \<Rightarrow> ('u, 'c) checkpointTerminalGate \<Rightarrow> 'c memoryStore \<Rightarrow>
     (pulled \<times> ('u, 'c) checkpointTerminalGate \<times> 'c memoryStore) option" where
  "gate_Next env next g store =
     (case gate_step env next g store of
        (Some r, g', store') \<Rightarrow> Some (r, g', store')
      | (None, g', store') \<Rightarrow> gate_Next env next g' store')"

declare gate_Next.simps [code]

section \<open>The handoff\<close>

text \<open>The parts of a provider call that the handoff of its response uses.\<close>

record 'c handoff_call =
  hc_workspaceSlug :: string
  hc_fullRequest :: "'c CanonicalRequest"
  hc_advance :: "(History option \<times> RequestLeaf) option"
  hc_executionAffinity :: affinity_key
  hc_storageReuse :: StorageReuse

text \<open>The gated reader that \<open>handoffResponseStream\<close> gives to the client's encoder.\<close>

definition handoffResponseStream ::
    "platform \<Rightarrow> 'c handoff_call \<Rightarrow> 'u \<Rightarrow> ResponseBinding \<Rightarrow> response_transform option \<Rightarrow> ('u, 'c) checkpointTerminalGate" where
  "handoffResponseStream p call stream b transform =
     newCheckpointTerminalGate p (newCheckpointCaptureResponseStream stream b transform) (hc_fullRequest call)
       \<lparr>kc_once = False, kc_err = None, kc_workspaceSlug = hc_workspaceSlug call,
        kc_request = NewCanonicalRequest p (hc_fullRequest call), kc_advance = hc_advance call,
        kc_executionAffinity = hc_executionAffinity call, kc_storageReuse = hc_storageReuse call\<rparr>"

text \<open>
  The response edge of \<open>completeProviderCall\<close> for a stream that is handed to the client: a failure
  before the opening is complete is the exchange's, everything later is the selected stream's.
\<close>

definition complete_handoff ::
    "platform \<Rightarrow> json_codec \<Rightarrow> 'c handoff_call \<Rightarrow> 'u reader \<Rightarrow> 'u \<Rightarrow> ResponseBinding \<Rightarrow> bool \<Rightarrow> response_transform option \<Rightarrow>
     pulled + (('u \<times> ValidatedResponseStream) responseHandoffStream terminalResponseStream, 'c) checkpointTerminalGate" where
  "complete_handoff p codec call source u b clientStreaming transform =
     and_then (prefetchResponseHandoff (provider_events codec b source) clientStreaming (u, NewValidatedResponseStream))
       (\<lambda>prefetched. Inr (handoffResponseStream p call (newTerminalResponseStream prefetched) b transform))"

end
