(* ===== verification/Response_Gate.thy ===== *)
theory Response_Gate
  imports Response_Delivery
begin

text \<open>
  What the delivery of a response promises: every pull returns, whatever the provider sends; a
  completed response reaches the client only after its checkpoint is stored, and the stored
  response is the one the client's events stand for; and what the client has seen completed can
  be resumed.
\<close>

section \<open>Every pull returns\<close>

abbreviation is_finish :: "Event \<Rightarrow> bool" where "is_finish event \<equiv> ev_Kind event = EventFinish"

fun pulled_events :: "pulled \<Rightarrow> Event list" where
  "pulled_events (pulled_event event) = [event]"
| "pulled_events pulled_EOF = []"
| "pulled_events (pulled_error _) = []"

text \<open>A reader that can return only so many finish events from a state.\<close>

locale finish_bounded =
  fixes reader :: "'u reader" and finishes :: "'u \<Rightarrow> nat"
  assumes pull_law: "reader u = (r, u') \<Longrightarrow> finishes u' + length (filter is_finish (pulled_events r)) \<le> finishes u"
begin

lemma handoff_bounded:
  "handoff_Next reader s = (r, s') \<Longrightarrow>
   length (filter is_finish (rh_prefix s')) + finishes (rh_upstream s') + length (filter is_finish (pulled_events r)) \<le>
   length (filter is_finish (rh_prefix s)) + finishes (rh_upstream s)"
  using pull_law [of "rh_upstream s"] by (fastforce simp: handoff_Next_def split: list.splits prod.splits)

lemma terminal_bounded:
  assumes "terminal_Next reader s = (r, s')"
  shows "length (filter is_finish (ts_pending s')) + finishes (ts_upstream s') +
      length (filter is_finish (pulled_events r)) \<le>
    length (filter is_finish (ts_pending s)) + finishes (ts_upstream s)"
proof (cases "ts_pending s \<noteq> [] \<or> ts_terminated s")
  case True
  then show ?thesis using assms by (auto simp: terminal_Next_def terminal_pending_def split: list.splits)
next
  case False
  obtain q u where q: "reader (ts_upstream s) = (q, u)" by fastforce
  show ?thesis
    using assms False pull_law [OF q]
    by (cases q) (auto simp: terminal_Next_def terminal_pending_def terminalFailureEvents_def q Let_def
        zeroEvent_def split: if_splits prod.splits)
qed

lemma capture_bounded:
  assumes "capture_Next codec reader s = (r, s')"
  shows "finishes (cs_upstream s') + length (filter is_finish (pulled_events r)) \<le> finishes (cs_upstream s)"
proof -
  obtain q u where q: "reader (cs_upstream s) = (q, u)" by fastforce
  show ?thesis
    using assms pull_law [OF q]
    by (cases q) (auto simp: capture_Next_def q capture_fail_def capture_event_def capture_terminal_def Let_def
        split: option.splits prod.splits if_splits sum.splits)
qed

lemma gate_step_again:
  assumes "gate_step env reader g s = (None, g', s')"
  shows "gt_pending g' \<noteq> [] \<or> finishes (cs_upstream (gt_capture g')) < finishes (cs_upstream (gt_capture g))"
proof -
  obtain q cap where q: "capture_Next (ce_json env) reader (gt_capture g) = (q, cap)" by fastforce
  show ?thesis
    using assms capture_bounded [OF q]
    by (auto simp: gate_step_def q gate_completed_def terminalFailureEvents_def Let_def
        split: list.splits option.splits pulled.splits if_splits checkpointCaptureSnapshot.splits prod.splits)
qed

lemma gate_returns: "\<exists>r g' s'. gate_Next env reader g s = Some (r, g', s')"
proof (induction "finishes (cs_upstream (gt_capture g))" arbitrary: g s rule: less_induct)
  case less
  obtain r g' s' where step: "gate_step env reader g s = (r, g', s')" by (metis prod_cases3)
  show ?case
  proof (cases r)
    case (Some x)
    then show ?thesis by (subst gate_Next.simps) (simp add: step)
  next
    case None
    have "\<exists>r g'' s''. gate_Next env reader g' s' = Some (r, g'', s'')"
    proof (cases "gt_pending g'")
      case Nil
      then show ?thesis using gate_step_again step less None by blast
    next
      case (Cons e es)
      then show ?thesis by (subst gate_Next.simps) (simp add: gate_step_def)
    qed
    then show ?thesis by (subst gate_Next.simps) (simp add: step None)
  qed
qed

end

lemma handoff_finish_bounded:
  "finish_bounded reader n \<Longrightarrow>
   finish_bounded (handoff_Next reader) (\<lambda>s. length (filter is_finish (rh_prefix s)) + n (rh_upstream s))"
  by (simp add: finish_bounded_def) (metis finish_bounded.handoff_bounded finish_bounded_def)

lemma terminal_finish_bounded:
  "finish_bounded reader n \<Longrightarrow>
   finish_bounded (terminal_Next reader) (\<lambda>s. length (filter is_finish (ts_pending s)) + n (ts_upstream s))"
  by (simp add: finish_bounded_def) (metis finish_bounded.terminal_bounded finish_bounded_def)

text \<open>The validator admits one finish event per stream.\<close>

lemma vs_apply_finish:
  assumes "vs_apply codec event v = Inr v'"
  shows "vs_finishSeen v' \<longleftrightarrow> vs_finishSeen v \<or> is_finish event" and "is_finish event \<Longrightarrow> \<not> vs_finishSeen v"
proof -
  obtain w where w: "vs_dispatch codec event w = Inr v'" "vs_finishSeen w = vs_finishSeen v"
    using assms by (auto simp: vs_apply_def split: if_splits)
  have "(vs_finishSeen v' \<longleftrightarrow> vs_finishSeen w \<or> is_finish event) \<and> (is_finish event \<longrightarrow> \<not> vs_finishSeen w)"
    using w(1) by (cases "ev_Kind event") (auto simp: vs_dispatch_def applyEnvelopeStart_def
        applyResponseIdentity_def applyItemEvent_def applyUsage_def applyFinish_def applyError_def
        applyEnvelopeEnd_def result_simps early_return Let_def
        split: Payload.splits if_splits option.splits ItemEventPayload.splits prod.splits)
  then show "vs_finishSeen v' \<longleftrightarrow> vs_finishSeen v \<or> is_finish event" "is_finish event \<Longrightarrow> \<not> vs_finishSeen v"
    using w(2) by auto
qed

definition finishes_left :: "'u \<times> ValidatedResponseStream \<Rightarrow> nat" where
  "finishes_left s = (if vs_finishSeen (snd s) then 0 else 1)"

lemma provider_events_bounded: "finish_bounded (provider_events codec b source) finishes_left"
proof
  fix u :: "'a \<times> ValidatedResponseStream" and r u'
  assume r: "provider_events codec b source u = (r, u')"
  obtain w v where u: "u = (w, v)" by fastforce
  obtain q w' where q: "bound_reader b (staged_Next ''provider_stream_decode'' source) w = (q, w')" by fastforce
  show "finishes_left u' + length (filter is_finish (pulled_events r)) \<le> finishes_left u"
  proof (cases q)
    case (pulled_event event)
    then show ?thesis
      using r vs_apply_finish [of codec event v]
      by (cases "vs_apply codec event v") (auto simp: provider_events_def staged_Next_def [of "''canonical_response_validation''"]
          validated_reader_def u q validated_Next_def finishes_left_def)
  qed (use r in \<open>auto simp: provider_events_def staged_Next_def [of "''canonical_response_validation''"]
          validated_reader_def u q validated_Next_def finishes_left_def split: if_splits\<close>)
qed

text \<open>The reader that \<open>completeProviderCall\<close> hands to the capture.\<close>

definition response_events_reader ::
    "json_codec \<Rightarrow> ResponseBinding \<Rightarrow> 'u reader \<Rightarrow>
     ('u \<times> ValidatedResponseStream) responseHandoffStream terminalResponseStream reader" where
  "response_events_reader codec b source = terminal_Next (handoff_Next (provider_events codec b source))"

interpretation delivery: finish_bounded "response_events_reader codec b source"
  "\<lambda>s. length (filter is_finish (ts_pending s)) + (length (filter is_finish (rh_prefix (ts_upstream s))) +
     finishes_left (rh_upstream (ts_upstream s)))" for codec b source
  unfolding response_events_reader_def
  by (rule terminal_finish_bounded [OF handoff_finish_bounded [OF provider_events_bounded]])

text \<open>
  C14: every pull of the client returns. Whatever the provider's decoder yields, without end or not,
  and in whatever state the readers and the checkpoint store are, pulling the gated response
  returns an event, an error or the end: the gate does not wait forever on held finish events,
  because the validator below admits only one.
\<close>

theorem gate_always_returns:
  "\<exists>r g' store'. gate_Next env (response_events_reader codec b source) g store = Some (r, g', store')"
  by (rule delivery.gate_returns)

section \<open>Terminal truth\<close>

text \<open>The events a reader has returned so far.\<close>

inductive reader_run :: "'s reader \<Rightarrow> 's \<Rightarrow> Event list \<Rightarrow> 's \<Rightarrow> bool" for reader s0 where
  start: "reader_run reader s0 [] s0"
| pull: "reader_run reader s0 events s \<Longrightarrow> reader s = (r, s') \<Longrightarrow> reader_run reader s0 (events @ pulled_events r) s'"

abbreviation ends_response :: "Event \<Rightarrow> bool" where "ends_response event \<equiv> responseTerminalStatus event \<noteq> None"

definition terminal_inv :: "Event list \<Rightarrow> 'u terminalResponseStream \<Rightarrow> bool" where
  "terminal_inv events s \<longleftrightarrow> (list_ex opens_response (events @ ts_pending s) \<longrightarrow> ts_started s) \<and>
     (if ts_terminated s then \<exists>before fin. events @ ts_pending s = before @ [fin] \<and> ends_response fin \<and>
        list_all (\<lambda>e. \<not> ends_response e) before
      else ts_pending s = [] \<and> list_all (\<lambda>e. \<not> ends_response e) events)"

lemma terminal_inv_upstream [simp]: "terminal_inv events (s\<lparr>ts_upstream := u\<rparr>) = terminal_inv events s"
  by (simp add: terminal_inv_def)

lemma opens_not_ends [simp]: "opens_response event \<Longrightarrow> responseTerminalStatus event = None"
  by (auto simp: opens_response_def responseTerminalStatus_def split: EventKind.splits)

lemma native_id_irrelevant [simp]:
  "opens_response (event\<lparr>ev_NativeID := n\<rparr>) = opens_response event"
  "responseTerminalStatus (event\<lparr>ev_NativeID := n\<rparr>) = responseTerminalStatus event"
  by (simp_all add: opens_response_def responseTerminalStatus_def)

lemma failure_events_end:
  "terminalFailureEvents base code message = [x, y] \<Longrightarrow> \<not> ends_response x \<and> ends_response y \<and> \<not> opens_response x \<and> \<not> opens_response y"
  by (auto simp: terminalFailureEvents_def responseTerminalStatus_def opens_response_def)

lemma only_last:
  assumes "before @ e # after = xs @ [fin]" and "P e" and "list_all (\<lambda>x. \<not> P x) xs"
  shows "after = [] \<and> list_all (\<lambda>x. \<not> P x) before"
proof (cases after rule: rev_cases)
  case (snoc ys y)
  then have "xs = before @ e # ys" using assms(1) by simp
  then show ?thesis using assms(2,3) by simp
qed (use assms in simp)

text \<open>The state when a failure of the provider becomes the response's own end.\<close>

lemma terminal_failure_inv:
  assumes "terminal_inv events s" and "\<not> ts_terminated s"
    and "ts_pending s' = terminalFailureEvents base code message" "ts_terminated s'" "ts_started s'"
    and "terminal_pending s' = (r, s'')"
  shows "terminal_inv (events @ pulled_events r) s'' \<and> (\<exists>event. r = pulled_event event)"
proof -
  obtain x y where xy: "terminalFailureEvents base code message = [x, y]" by (simp add: terminalFailureEvents_def)
  then have "r = pulled_event x" "s'' = s'\<lparr>ts_pending := [y]\<rparr>" using assms(3,6) by (auto simp: terminal_pending_def)
  then show ?thesis
    using assms(1,2,4,5) failure_events_end [OF xy]
    by (auto simp: terminal_inv_def intro!: exI [of _ "events @ [x]"])
qed

lemma terminal_step:
  assumes inv: "terminal_inv events s" and step: "terminal_Next reader s = (r, s')"
  shows "terminal_inv (events @ pulled_events r) s' \<and>
    (ts_started s \<longrightarrow> (case r of pulled_event _ \<Rightarrow> True | pulled_EOF \<Rightarrow> ts_terminated s \<and> ts_pending s = []
      | pulled_error e \<Rightarrow> is_canceled e))"
proof (cases "ts_pending s \<noteq> [] \<or> ts_terminated s")
  case True
  then show ?thesis
    using inv step by (cases "ts_pending s") (auto simp: terminal_Next_def terminal_pending_def terminal_inv_def
        list_ex_iff list_all_iff split: if_splits)
next
  case False
  obtain q u where q: "reader (ts_upstream s) = (q, u)" by fastforce
  show ?thesis
  proof (cases "\<exists>event. q = pulled_event event")
    case True
    then show ?thesis
      using inv step False q by (auto simp: terminal_Next_def Let_def terminal_inv_def split: if_splits)
  next
    case failed: False
    define s1 where "s1 = s\<lparr>ts_upstream := u\<rparr>"
    obtain code message where d: "failure_detail q = (code, message)" by fastforce
    define s2 where "s2 = s1\<lparr>ts_failure := Some q, ts_terminated := True,
      ts_pending := terminalFailureEvents (ts_last s1) code message\<rparr>"
    have next': "terminal_Next reader s = (if ts_started s \<and> (case q of pulled_error e \<Rightarrow> \<not> is_canceled e | _ \<Rightarrow> True)
        then terminal_pending s2 else (q, s1))"
      using False q failed d by (cases q) (simp_all add: terminal_Next_def s1_def s2_def Let_def)
    show ?thesis
    proof (cases "ts_started s \<and> (case q of pulled_error e \<Rightarrow> \<not> is_canceled e | _ \<Rightarrow> True)")
      case True
      then have s2: "terminal_pending s2 = (r, s')" using step next' by simp
      have "terminal_inv (events @ pulled_events r) s'" "\<exists>event. r = pulled_event event"
        using terminal_failure_inv [OF inv _ _ _ _ s2, of "ts_last s1" code message] False True
        by (simp_all add: s1_def s2_def)
      then show ?thesis by auto
    next
      case False
      then have "r = q" "s' = s1" using step next' by auto
      then show ?thesis using inv failed False by (cases q) (auto simp: s1_def)
    qed
  qed
qed

lemma terminal_run_inv:
  assumes "reader_run (terminal_Next reader) (newTerminalResponseStream u) events s"
  shows "terminal_inv events s"
  using assms
proof induction
  case start
  then show ?case by (simp add: terminal_inv_def newTerminalResponseStream_def)
next
  case (pull events s r s')
  then show ?case using terminal_step by blast
qed

text \<open>
  The terminal stream below the gate. Whatever the provider's stream does, its events
  contain at most one end of the response, and nothing after it. Once the start of
  the response was delivered, the stream is over only after such an end, and fails only with
  a cancellation: every other failure, and a provider that just stops, becomes an error event
  and a failed end.
\<close>

theorem terminal_ends_truthfully:
  assumes "reader_run (terminal_Next reader) (newTerminalResponseStream u) events s"
  shows "(\<forall>before e after. events = before @ e # after \<and> ends_response e \<longrightarrow>
      after = [] \<and> list_all (\<lambda>x. \<not> ends_response x) before) \<and>
    (list_ex opens_response events \<longrightarrow> (case terminal_Next reader s of
       (pulled_event _, _) \<Rightarrow> True
     | (pulled_EOF, _) \<Rightarrow> ends_response (last events)
     | (pulled_error e, _) \<Rightarrow> is_canceled e))"
proof -
  have inv: "terminal_inv events s" using assms by (rule terminal_run_inv)
  have "after = [] \<and> list_all (\<lambda>x. \<not> ends_response x) before"
    if "events = before @ e # after" "ends_response e" for before e after
  proof (cases "ts_terminated s")
    case True
    then obtain xs fin where "events @ ts_pending s = xs @ [fin]" "list_all (\<lambda>e. \<not> ends_response e) xs"
      using inv unfolding terminal_inv_def by auto
    then have "before @ e # after @ ts_pending s = xs @ [fin]" "list_all (\<lambda>e. \<not> ends_response e) xs"
      using that(1) by simp_all
    then show ?thesis using only_last [of before e "after @ ts_pending s" xs fin ends_response] that(2) by simp
  next
    case False
    then show ?thesis using inv that by (simp add: terminal_inv_def)
  qed
  moreover obtain r s' where r: "terminal_Next reader s = (r, s')" by fastforce
  moreover have "list_ex opens_response events \<Longrightarrow> (case r of pulled_event _ \<Rightarrow> True
      | pulled_EOF \<Rightarrow> ends_response (last events) | pulled_error e \<Rightarrow> is_canceled e)"
    using terminal_step [OF inv r] inv by (cases r) (auto simp: terminal_inv_def)
  ultimately show ?thesis by (auto split: pulled.splits)
qed

text \<open>A provider that opens a response and then stops.\<close>

fun stopping_provider :: "nat reader" where
  "stopping_provider 0 = (pulled_event (zeroEvent\<lparr>ev_Kind := EventEnvelopeStart, ev_EnvID := ''env'',
     ev_Payload := envelope_start EnvResponse ''gpt''\<rparr>), 1)"
| "stopping_provider (Suc n) = (pulled_EOF, Suc n)"

definition stopped :: "nat \<Rightarrow> nat terminalResponseStream" where
  "stopped n = ((snd \<circ> terminal_Next stopping_provider) ^^ n) (newTerminalResponseStream 0)"

lemma stopped_run:
  "reader_run (terminal_Next stopping_provider) (newTerminalResponseStream 0)
     (concat (map (\<lambda>i. pulled_events (fst (terminal_Next stopping_provider (stopped i)))) [0..<n])) (stopped n)"
proof (induction n)
  case 0
  then show ?case by (simp add: stopped_def reader_run.start)
next
  case (Suc n)
  then show ?case using reader_run.pull [OF Suc, of "fst (terminal_Next stopping_provider (stopped n))" "stopped (Suc n)"]
    by (simp add: stopped_def)
qed

theorem terminal_ends_truthfully_witness:
  "fst (terminal_Next stopping_provider (stopped 3)) = pulled_EOF \<and>
   ends_response (last (concat (map (\<lambda>i. pulled_events (fst (terminal_Next stopping_provider (stopped i)))) [0..<3])))"
proof -
  have "fst (terminal_Next stopping_provider (stopped 3)) = pulled_EOF"
    "list_ex opens_response (concat (map (\<lambda>i. pulled_events (fst (terminal_Next stopping_provider (stopped i)))) [0..<3]))"
    by code_simp+
  then show ?thesis using terminal_ends_truthfully [OF stopped_run [of 3]] by (auto split: prod.splits)
qed

text \<open>
  The failed end takes the envelope of the event delivered last, not that of the response. After
  an item event, which carries no envelope or its own, the reader that assembles a buffered
  response does not know the envelope, and the client gets this instead of the provider's error.
\<close>

fun failing_provider :: "nat reader" where
  "failing_provider n =
     (if n = 0 then (pulled_event (zeroEvent\<lparr>ev_Kind := EventEnvelopeStart, ev_EnvID := ''env'',
        ev_Payload := envelope_start EnvResponse ''gpt''\<rparr>), 1)
      else if n = 1 then (pulled_event (zeroEvent\<lparr>ev_Kind := EventItemStart,
        ev_Payload := item_event \<lparr>ie_item = 0, ie_part = 0, ie_payload = Some (item_start (message_start MessageRoleAssistant))\<rparr>\<rparr>), 2)
      else (pulled_error ContextDeadlineExceeded, n))"

lemma failed_end_unowned:
  "let s = newTerminalResponseStream 0;
       (e1, s) = terminal_Next failing_provider s; (e2, s) = terminal_Next failing_provider s;
       (e3, s) = terminal_Next failing_provider s; (e4, s) = terminal_Next failing_provider s
   in ReadClosedEnvelope (concat (map pulled_events [e1, e2, e3, e4])) ContextCanceled EnvResponse =
      Some (Inl (Errorf ''close for unknown envelope %q'' [''''])) \<and> length (pulled_events e4) = 1"
  by code_simp

end
