(* ===== verification/Response_Commit.thy ===== *)
theory Response_Commit
  imports Response_Gate
begin

text \<open>
  Success is delivered only after the commit: the runs of one gated response over a checkpoint
  store that other exchanges use in between, and what the client may conclude from a completed
  end.
\<close>

section \<open>Projection with the finish events last\<close>

fun project_all :: "json_codec \<Rightarrow> Event list \<Rightarrow> ResponseProjector \<Rightarrow> go_error + ResponseProjector" where
  "project_all codec [] pj = Inr pj"
| "project_all codec (event # events) pj = and_then (project_event codec event pj) (project_all codec events)"

lemma project_all_append:
  "project_all codec (es @ fs) pj = and_then (project_all codec es pj) (project_all codec fs)"
  by (induction es arbitrary: pj) (simp_all add: and_then_def split: sum.splits)

definition projector_open :: "ResponseProjector \<Rightarrow> bool" where
  "projector_open pj \<longleftrightarrow> pj_err pj = None \<and> \<not> pj_ended pj"

lemma project_event_open:
  "project_event codec event pj = Inr pj' \<Longrightarrow> projector_open pj \<Longrightarrow> ev_Kind event \<noteq> EventEnvelopeEnd \<Longrightarrow> projector_open pj'"
  by (cases "ev_Kind event") (auto simp: project_event_def projector_open_def result_simps
      split: Payload.splits if_splits)

lemma project_finish:
  assumes "is_finish event"
  shows "project_event codec event pj = Inr pj' \<longleftrightarrow> (\<exists>c. ev_Payload event = finish_payload c \<and>
    pj' = pj\<lparr>pj_fold := (pj_fold pj)\<lparr>rf_completion := c\<rparr>\<rparr>)"
  using assms by (auto simp: project_event_def fold_apply_def result_simps split: Payload.splits)

lemma fold_item_completion:
  "fold_item codec event (f\<lparr>rf_completion := c\<rparr>) =
   and_then (fold_item codec event f) (\<lambda>f'. Inr (f'\<lparr>rf_completion := c\<rparr>))"
  by (cases "ev_Payload event") (simp_all add: fold_item_def and_then_def split: sum.splits)

text \<open>No other event reads or writes the completion.\<close>

lemma project_event_completion:
  assumes "\<not> is_finish event"
  shows "project_event codec event (pj\<lparr>pj_fold := (pj_fold pj)\<lparr>rf_completion := c\<rparr>\<rparr>) =
   and_then (project_event codec event pj) (\<lambda>pj'. Inr (pj'\<lparr>pj_fold := (pj_fold pj')\<lparr>rf_completion := c\<rparr>\<rparr>))"
  using assms
  by (cases "ev_Kind event"; cases "ev_Payload event")
    (simp_all add: project_event_def fold_apply_def fold_start_def fold_item_completion and_then_def split: sum.splits)

lemma project_finish_swap:
  assumes "is_finish f" and "\<not> is_finish e" and "project_all codec (f # e # es) pj = Inr pj'"
  shows "project_all codec (e # f # es) pj = Inr pj'"
  using assms project_event_completion [OF assms(2)] by (auto simp: project_finish result_simps)

lemma project_finish_past:
  "is_finish f \<Longrightarrow> list_all (\<lambda>e. \<not> is_finish e) es \<Longrightarrow> project_all codec (f # es @ fs) pj = Inr pj' \<Longrightarrow>
   project_all codec (es @ f # fs) pj = Inr pj'"
proof (induction es arbitrary: pj)
  case (Cons e es)
  from project_finish_swap [OF Cons.prems(1) _ Cons.prems(3) [simplified append_Cons]] Cons.prems(2)
  have swapped: "project_all codec (e # f # es @ fs) pj = Inr pj'" by simp
  then obtain pk where pk: "project_event codec e pj = Inr pk" "project_all codec (f # es @ fs) pk = Inr pj'"
    by (auto simp: and_then_eq_Inr simp del: project_all.simps(2) simp: project_all.simps(2) [of codec e])
  show ?case using Cons.IH [OF Cons.prems(1) _ pk(2)] Cons.prems(2) pk(1) by simp
qed simp

lemma project_finish_last:
  "project_all codec es pj = Inr pj' \<Longrightarrow>
   project_all codec (filter (\<lambda>e. \<not> is_finish e) es @ filter is_finish es) pj = Inr pj'"
proof (induction es arbitrary: pj)
  case (Cons e es)
  obtain pk where pk: "project_event codec e pj = Inr pk" "project_all codec es pk = Inr pj'"
    using Cons.prems by (auto simp: and_then_eq_Inr)
  have "project_all codec (e # filter (\<lambda>e. \<not> is_finish e) es @ filter is_finish es) pj = Inr pj'"
    using Cons.IH [OF pk(2)] pk(1) by simp
  then show ?case
    using project_finish_past [of e "filter (\<lambda>e. \<not> is_finish e) es" codec "filter is_finish es" pj pj']
    by (auto simp: list_all_iff)
qed simp

lemma project_loop_all:
  assumes "project_all codec es pj = Inr pj1" and "projector_open pj"
    and "list_all (\<lambda>e. ev_Kind e \<noteq> EventEnvelopeEnd) es" and "project_event codec fin pj1 = Inr pj2"
    and "ev_Kind fin = EventEnvelopeEnd"
  shows "project_loop codec (es @ [fin]) last' pj = projector_Done pj2"
  using assms(1-3)
proof (induction es arbitrary: pj)
  case Nil
  then show ?case using assms(4,5) by (simp add: projector_Apply_def projector_open_def)
next
  case (Cons e es)
  obtain pk where pk: "project_event codec e pj = Inr pk" "project_all codec es pk = Inr pj1"
    using Cons.prems(1) by (auto simp: and_then_eq_Inr)
  show ?case
    using Cons.IH [OF pk(2)] project_event_open [OF pk(1) Cons.prems(2)] Cons.prems(2,3) pk(1)
    by (simp add: projector_Apply_def projector_open_def)
qed

section \<open>Capture\<close>

abbreviation response_completed :: "Event \<Rightarrow> bool" where
  "response_completed event \<equiv> responseTerminalStatus event = Some EnvelopeStatusCompleted"

lemma terminal_is_end: "responseTerminalStatus event = Some status \<Longrightarrow>
    ev_Kind event = EventEnvelopeEnd \<and> ev_Payload event = envelope_end EnvResponse status"
  by (auto simp: responseTerminalStatus_def split: EventKind.splits Payload.splits if_splits)

lemma not_end_not_terminal: "ev_Kind event \<noteq> EventEnvelopeEnd \<Longrightarrow> responseTerminalStatus event = None"
  by (cases "responseTerminalStatus event") (use terminal_is_end [of event] in auto)

text \<open>Nothing but the events so far, none of them an end, is folded into an open capture.\<close>

definition capture_open ::
    "json_codec \<Rightarrow> ResponseBinding \<Rightarrow> Event list \<Rightarrow> 'u checkpointCaptureResponseStream \<Rightarrow> bool" where
  "capture_open codec b ups cap \<longleftrightarrow> cs_result cap = capturePending \<and>
     project_all codec ups (NewResponseProjector b) = Inr (cs_projector cap) \<and>
     list_all (\<lambda>e. ev_Kind e \<noteq> EventEnvelopeEnd) ups"

lemma project_all_open:
  "project_all codec es pj = Inr pj' \<Longrightarrow> projector_open pj \<Longrightarrow>
   list_all (\<lambda>e. ev_Kind e \<noteq> EventEnvelopeEnd) es \<Longrightarrow> projector_open pj'"
  by (induction es arbitrary: pj) (auto simp: and_then_eq_Inr intro: project_event_open)

lemma new_projector_open: "projector_open (NewResponseProjector b)"
  by (simp add: projector_open_def NewResponseProjector_def)

lemma capture_frame [simp]:
  "cs_binding (capture_fail e cap) = cs_binding cap"
  "cs_checkpointResponse (capture_fail e cap) = cs_checkpointResponse cap"
  "cs_binding (capture_event codec event cap) = cs_binding cap"
  "cs_checkpointResponse (capture_event codec event cap) = cs_checkpointResponse cap"
  by (auto simp: capture_fail_def capture_event_def capture_terminal_def Let_def
      split: prod.splits option.splits sum.splits)

lemma capture_settled:
  "cs_result cap \<noteq> capturePending \<Longrightarrow> cs_result (capture_fail e cap) = cs_result cap"
  "cs_result cap \<noteq> capturePending \<Longrightarrow> cs_result (capture_event codec event cap) = cs_result cap"
  by (auto simp: capture_fail_def capture_event_def Let_def split: prod.splits option.splits)

lemma capture_fail_pending: "cs_result cap = capturePending \<Longrightarrow> cs_result (capture_fail e cap) = captureFailed e"
  by (simp add: capture_fail_def)

lemma capture_terminal_completed:
  "cs_result cap = capturePending \<Longrightarrow> (\<exists>e. cs_result (capture_terminal cap) = captureFailed e) \<or>
   (\<exists>client response. projector_Done (cs_projector cap) = Inr client \<and>
      finalizeContinuationResponse client (cs_binding cap) (cs_checkpointResponse cap) = Inr response \<and>
      cs_result (capture_terminal cap) = captureCompleted client response)"
  by (auto simp: capture_terminal_def finalizeContinuationResponse_def capture_fail_def split: sum.splits option.splits)

text \<open>An event leaves the capture open, fails it, or completes it with what the events project to.\<close>

lemma capture_event_open:
  assumes "capture_open codec b ups cap"
  obtains (open') "capture_open codec b (ups @ [event]) (capture_event codec event cap)"
      "ev_Kind event \<noteq> EventEnvelopeEnd"
  | (failed) e where "cs_result (capture_event codec event cap) = captureFailed e"
  | (completed) client response pj where "response_completed event"
      "project_event codec event (cs_projector cap) = Inr pj" "projector_Done pj = Inr client"
      "finalizeContinuationResponse client (cs_binding cap) (cs_checkpointResponse cap) = Inr response"
      "cs_result (capture_event codec event cap) = captureCompleted client response"
proof -
  have pending: "cs_result cap = capturePending" and "projector_open (cs_projector cap)"
    using assms project_all_open new_projector_open by (auto simp: capture_open_def)
  then have app: "projector_Apply codec event (cs_projector cap) = (case project_event codec event (cs_projector cap) of
      Inl e \<Rightarrow> (Some e, (cs_projector cap)\<lparr>pj_err := Some e\<rparr>) | Inr pj \<Rightarrow> (None, pj))"
    by (simp add: projector_Apply_def projector_open_def)
  show ?thesis
  proof (cases "project_event codec event (cs_projector cap)")
    case (Inl e)
    then show ?thesis using failed pending app by (simp add: capture_event_def capture_fail_def)
  next
    case (Inr pj)
    show ?thesis
    proof (cases "ev_Kind event = EventEnvelopeEnd")
      case False
      then have "responseTerminalStatus event = None" by (rule not_end_not_terminal)
      then have "capture_event codec event cap = cap\<lparr>cs_projector := pj\<rparr>"
        using pending app Inr by (simp add: capture_event_def)
      then show ?thesis using open' False assms Inr by (simp add: capture_open_def project_all_append)
    next
      case True
      then have "response_completed event"
        using Inr by (auto simp: project_event_def responseTerminalStatus_def split: Payload.splits if_splits)
      moreover from this have "capture_event codec event cap = capture_terminal (cap\<lparr>cs_projector := pj\<rparr>)"
        using pending app Inr by (simp add: capture_event_def)
      ultimately show ?thesis
        using capture_terminal_completed [of "cap\<lparr>cs_projector := pj\<rparr>"] pending Inr failed completed by auto
    qed
  qed
qed

lemma completed_projects:
  assumes "capture_open codec b ups cap" and "project_event codec fin (cs_projector cap) = Inr pj"
    and "projector_Done pj = Inr client" and "response_completed fin"
  shows "ProjectStream codec (filter (\<lambda>e. \<not> is_finish e) ups @ filter is_finish ups @ [fin]) last' b = Inr client"
proof -
  have "project_all codec (filter (\<lambda>e. \<not> is_finish e) ups @ filter is_finish ups) (NewResponseProjector b) =
      Inr (cs_projector cap)" using assms(1) project_finish_last by (auto simp: capture_open_def)
  moreover have "list_all (\<lambda>e. ev_Kind e \<noteq> EventEnvelopeEnd) (filter (\<lambda>e. \<not> is_finish e) ups @ filter is_finish ups)"
    using assms(1) by (auto simp: capture_open_def list_all_iff)
  ultimately show ?thesis
    using project_loop_all [OF _ new_projector_open _ assms(2), of
        "filter (\<lambda>e. \<not> is_finish e) ups @ filter is_finish ups"] assms(3) terminal_is_end [OF assms(4)]
    by (simp add: ProjectStream_def)
qed

section \<open>Runs of the gate\<close>

text \<open>
  A run: the pulls of the client in order, each with the store before and after it; between two
  pulls the store may change arbitrarily.
\<close>

type_synonym 'c pulls = "('c memoryStore \<times> pulled \<times> 'c memoryStore) list"

inductive gate_run ::
    "'c commit_env \<Rightarrow> 'u reader \<Rightarrow> ('u, 'c) checkpointTerminalGate \<Rightarrow> 'c pulls \<Rightarrow> ('u, 'c) checkpointTerminalGate \<Rightarrow> bool"
  for env reader g0 where
  start: "gate_run env reader g0 [] g0"
| pull: "gate_run env reader g0 trace g \<Longrightarrow> gate_Next env reader g s = Some (r, g', s') \<Longrightarrow>
    gate_run env reader g0 (trace @ [(s, r, s')]) g'"

definition delivered :: "'c pulls \<Rightarrow> Event list" where
  "delivered trace = concat (map (\<lambda>(_, r, _). pulled_events r) trace)"

lemma delivered_simps [simp]:
  "delivered [] = []" "delivered (trace @ [(s, r, s')]) = delivered trace @ pulled_events r"
  by (simp_all add: delivered_def)

definition keeps_store :: "'c memoryStore \<times> pulled \<times> 'c memoryStore \<Rightarrow> bool" where
  "keeps_store pull \<longleftrightarrow> fst pull = snd (snd pull)"

text \<open>The commit that a gate makes, from the responses it captured.\<close>

definition gate_commit ::
    "'c commit_env \<Rightarrow> 'c CanonicalRequest \<Rightarrow> 'c checkpointCommitter \<Rightarrow> CanonicalResponse \<Rightarrow> CanonicalResponse \<Rightarrow> 'c Commit" where
  "gate_commit env request c client response =
     \<lparr>cm_Checkpoint = checkpoint_record env response (responseFingerprint env request client) c,
      cm_Reuse = kc_storageReuse c\<rparr>"

record 'c gate_setup =
  su_env :: "'c commit_env"
  su_binding :: ResponseBinding
  su_transform :: "response_transform option"
  su_request :: "'c CanonicalRequest"
  su_committer :: "'c checkpointCommitter"

definition gate_frame :: "'c gate_setup \<Rightarrow> ('u, 'c) checkpointTerminalGate \<Rightarrow> bool" where
  "gate_frame su g \<longleftrightarrow> gt_request g = su_request su \<and> cs_binding (gt_capture g) = su_binding su \<and>
     cs_checkpointResponse (gt_capture g) = su_transform su \<and>
     gt_committer g = (su_committer su)\<lparr>kc_once := kc_once (gt_committer g), kc_err := kc_err (gt_committer g)\<rparr>"

text \<open>Before a commit: the store is untouched and no success was delivered or is pending.\<close>

definition gate_open :: "'c gate_setup \<Rightarrow> 'c pulls \<Rightarrow> ('u, 'c) checkpointTerminalGate \<Rightarrow> bool" where
  "gate_open su trace g \<longleftrightarrow> gate_frame su g \<and> \<not> kc_once (gt_committer g) \<and> kc_err (gt_committer g) = None \<and>
     gt_terminal g = None \<and> list_all keeps_store trace \<and>
     list_all (\<lambda>e. \<not> response_completed e) (delivered trace @ gt_pending g @ gt_held g) \<and>
     ((\<exists>ups. capture_open (ce_json (su_env su)) (su_binding su) ups (gt_capture g) \<and> gt_pending g = [] \<and>
        delivered trace = filter (\<lambda>e. \<not> is_finish e) ups \<and> gt_held g = filter is_finish ups) \<or>
      (\<exists>e. cs_result (gt_capture g) = captureFailed e))"

text \<open>A commit after the pulls \<open>before\<close>, and what is delivered up to the first success.\<close>

definition commits ::
    "'c gate_setup \<Rightarrow> 'c pulls \<Rightarrow> 'c memoryStore \<Rightarrow> 'c memoryStore \<Rightarrow> Event list \<Rightarrow> bool" where
  "commits su before s s' events \<longleftrightarrow> list_all (\<lambda>e. \<not> response_completed e) (delivered before) \<and>
     (\<exists>seen fin rest client response.
        store_Put (ce_platform (su_env su)) (ce_moments (su_env su)) (kc_workspaceSlug (su_committer su))
          (gate_commit (su_env su) (su_request su) (su_committer su) client response) s = (s', Inr ()) \<and>
        events = seen @ fin # rest \<and> list_all (\<lambda>e. \<not> response_completed e) seen \<and> response_completed fin \<and>
        (\<forall>last'. ProjectStream (ce_json (su_env su)) (seen @ [fin]) last' (su_binding su) = Inr client) \<and>
        finalizeContinuationResponse client (su_binding su) (su_transform su) = Inr response)"

definition gate_committed :: "'c gate_setup \<Rightarrow> 'c pulls \<Rightarrow> Event list \<Rightarrow> bool" where
  "gate_committed su trace events \<longleftrightarrow> (\<exists>before s r s' after. trace = before @ (s, r, s') # after \<and>
     list_all keeps_store (before @ after) \<and> commits su before s s' events)"

definition gate_success :: "'c gate_setup \<Rightarrow> ('u, 'c) checkpointTerminalGate \<Rightarrow> bool" where
  "gate_success su g \<longleftrightarrow> gate_frame su g \<and> kc_once (gt_committer g) \<and> kc_err (gt_committer g) = None \<and>
     gt_terminal g = None"

text \<open>After a refused commit: one failed terminal follows what was delivered before.\<close>

definition gate_refused :: "'c gate_setup \<Rightarrow> 'c pulls \<Rightarrow> ('u, 'c) checkpointTerminalGate \<Rightarrow> bool" where
  "gate_refused su trace g \<longleftrightarrow> (\<exists>e seen base.
     gt_terminal g = Some (checkpointCommitError (Errorw ''checkpoint store failed: %w'' [] e)) \<and>
     delivered trace @ gt_pending g = seen @ terminalFailureEvents base ''INTERNAL_ERROR'' finalization_message \<and>
     list_all (\<lambda>x. ev_Kind x \<noteq> EventEnvelopeEnd \<and> \<not> is_finish x) seen)"

lemma commits_more: "commits su before s s' events \<Longrightarrow> commits su before s s' (events @ others)"
  unfolding commits_def by (metis append_assoc append_Cons)

lemma gate_committed_more: "gate_committed su trace events \<Longrightarrow> gate_committed su trace (events @ others)"
  unfolding gate_committed_def using commits_more by metis

lemma gate_committed_pull:
  assumes "gate_committed su trace events" and "keeps_store x"
  shows "gate_committed su (trace @ [x]) events"
proof -
  obtain before s r s' after where "trace = before @ (s, r, s') # after" "list_all keeps_store (before @ after)"
    "commits su before s s' events" using assms(1) unfolding gate_committed_def by blast
  then show ?thesis unfolding gate_committed_def using assms(2)
    by (intro exI [of _ before] exI [of _ s] exI [of _ r] exI [of _ s'] exI [of _ "after @ [x]"]) simp
qed

lemma gate_committed_result:
  assumes "gate_committed su (trace @ [(s0, r, s)]) events"
  shows "gate_committed su (trace @ [(s0, r', s)]) events"
proof -
  obtain before a q b after where split: "trace @ [(s0, r, s)] = before @ (a, q, b) # after"
    and keep: "list_all keeps_store (before @ after)" and c: "commits su before a b events"
    using assms unfolding gate_committed_def by blast
  have "\<exists>q' after'. trace @ [(s0, r', s)] = before @ (a, q', b) # after' \<and> list_all keeps_store (before @ after')"
  proof (cases after rule: rev_cases)
    case Nil
    then show ?thesis using split keep by auto
  next
    case (snoc xs x)
    then have "trace = before @ (a, q, b) # xs" "x = (s0, r, s)" using split by (auto simp: append_eq_append_conv2)
    then show ?thesis using keep snoc by (intro exI [of _ q] exI [of _ "xs @ [(s0, r', s)]"]) (simp add: keeps_store_def)
  qed
  then show ?thesis using c unfolding gate_committed_def by blast
qed

definition gate_inv :: "'c gate_setup \<Rightarrow> 'c pulls \<Rightarrow> ('u, 'c) checkpointTerminalGate \<Rightarrow> bool" where
  "gate_inv su trace g \<longleftrightarrow> gate_open su trace g \<or>
     gate_success su g \<and> gate_committed su trace (delivered trace @ gt_pending g) \<or> gate_refused su trace g"

text \<open>The same inside a pull that began with the store \<open>s0\<close>.\<close>

definition gate_pulling ::
    "'c gate_setup \<Rightarrow> 'c pulls \<Rightarrow> 'c memoryStore \<Rightarrow> ('u, 'c) checkpointTerminalGate \<Rightarrow> 'c memoryStore \<Rightarrow> bool" where
  "gate_pulling su trace s0 g s \<longleftrightarrow> gate_open su trace g \<and> s = s0 \<or>
     gate_success su g \<and> gate_committed su (trace @ [(s0, pulled_EOF, s)]) (delivered trace @ gt_pending g) \<or>
     gate_refused su trace g"

lemma gate_inv_pulling: "gate_inv su trace g \<Longrightarrow> gate_pulling su trace s g s"
  using gate_committed_pull [of su trace _ "(s, pulled_EOF, s)"]
  by (auto simp: gate_inv_def gate_pulling_def keeps_store_def)

lemma capture_open_upstream [simp]: "capture_open codec b ups (cap\<lparr>cs_upstream := u\<rparr>) = capture_open codec b ups cap"
  by (simp add: capture_open_def)

lemma capture_Next_cases:
  assumes "capture_Next codec reader cap = (q, cap')"
  obtains (event) event u where "q = pulled_event event" "cap' = capture_event codec event (cap\<lparr>cs_upstream := u\<rparr>)"
  | (eof) u where "q = pulled_EOF" "cap' = cap\<lparr>cs_upstream := u\<rparr>"
  | (error) e u where "q = pulled_error e" "cap' = capture_fail e (cap\<lparr>cs_upstream := u\<rparr>)"
  using assms by (auto simp: capture_Next_def split: prod.splits pulled.splits option.splits)

lemma gate_frame_updates:
  "gate_frame su g \<Longrightarrow> gate_frame su (g\<lparr>gt_pending := pe\<rparr>)"
  "gate_frame su g \<Longrightarrow> gate_frame su (g\<lparr>gt_held := he\<rparr>)"
  "gate_frame su g \<Longrightarrow> gate_frame su (g\<lparr>gt_last := la\<rparr>)"
  "gate_frame su g \<Longrightarrow> gate_frame su (g\<lparr>gt_response := re\<rparr>)"
  "gate_frame su g \<Longrightarrow> capture_Next codec reader (gt_capture g) = (q, cap) \<Longrightarrow> gate_frame su (g\<lparr>gt_capture := cap\<rparr>)"
  by (auto simp: gate_frame_def elim!: capture_Next_cases)

text \<open>What an unfinished capture makes of one pull.\<close>

lemma capture_Next_open:
  assumes "capture_Next codec reader cap = (q, cap')"
    and "capture_open codec b ups cap \<or> (\<exists>e. cs_result cap = captureFailed e)"
  obtains (failed) e where "cs_result cap' = captureFailed e"
  | (silent) "pulled_events q = []" "capture_open codec b ups cap" "capture_open codec b ups cap'"
  | (event) event where "q = pulled_event event" "capture_open codec b ups cap"
      "capture_open codec b (ups @ [event]) cap'" "ev_Kind event \<noteq> EventEnvelopeEnd"
  | (completed) event client response pj where "q = pulled_event event" "capture_open codec b ups cap"
      "response_completed event" "project_event codec event (cs_projector cap) = Inr pj" "projector_Done pj = Inr client"
      "finalizeContinuationResponse client (cs_binding cap) (cs_checkpointResponse cap) = Inr response"
      "cs_result cap' = captureCompleted client response"
proof (cases "capture_open codec b ups cap")
  case False
  then have "\<exists>e. cs_result cap = captureFailed e" using assms(2) by blast
  then show ?thesis using assms(1) failed by (auto elim!: capture_Next_cases simp: capture_settled)
next
  case True
  from assms(1) show ?thesis
  proof (cases rule: capture_Next_cases)
    case (event e u)
    from True have "capture_open codec b ups (cap\<lparr>cs_upstream := u\<rparr>)" by simp
    then show ?thesis
      by (rule capture_event_open [where event = e]) (use event True that in auto)
  qed (use True that in \<open>auto simp: capture_open_def capture_fail_def\<close>)
qed

section \<open>One step of the gate\<close>

text \<open>The outcome of a step, as an answer of the pull or as its continuation.\<close>

definition gate_outcome ::
    "'c gate_setup \<Rightarrow> 'c pulls \<Rightarrow> 'c memoryStore \<Rightarrow> pulled option \<Rightarrow> ('u, 'c) checkpointTerminalGate \<Rightarrow> 'c memoryStore \<Rightarrow> bool" where
  "gate_outcome su trace s0 r g s \<longleftrightarrow>
     (case r of Some q \<Rightarrow> gate_inv su (trace @ [(s0, q, s)]) g | None \<Rightarrow> gate_pulling su trace s0 g s)"

lemma outcome_open:
  assumes "gate_frame su g" "\<not> kc_once (gt_committer g)" "kc_err (gt_committer g) = None" "gt_terminal g = None"
    "list_all keeps_store trace" "cs_result (gt_capture g) = captureFailed e"
    and "list_all (\<lambda>e. \<not> response_completed e)
      (delivered trace @ (case r of None \<Rightarrow> [] | Some q \<Rightarrow> pulled_events q) @ gt_pending g @ gt_held g)"
  shows "gate_outcome su trace s r g s"
  using assms by (auto simp: gate_outcome_def gate_inv_def gate_pulling_def gate_open_def keeps_store_def split: option.splits)

lemma commit_once:
  assumes "\<not> kc_once c" and "kc_err c = None"
  obtains (stored) s' where "commitDocument env response fp c s = (None, c\<lparr>kc_once := True\<rparr>, s')"
      "store_Put (ce_platform env) (ce_moments env) (kc_workspaceSlug c)
        \<lparr>cm_Checkpoint = checkpoint_record env response fp c, cm_Reuse = kc_storageReuse c\<rparr> s = (s', Inr ())"
  | (refused) e s' where "commitDocument env response fp c s =
      (Some (checkpointCommitError (Errorw ''checkpoint store failed: %w'' [] e)),
       c\<lparr>kc_once := True, kc_err := Some (checkpointCommitError (Errorw ''checkpoint store failed: %w'' [] e))\<rparr>, s')"
proof -
  obtain s' res where "store_Put (ce_platform env) (ce_moments env) (kc_workspaceSlug c)
      \<lparr>cm_Checkpoint = checkpoint_record env response fp c, cm_Reuse = kc_storageReuse c\<rparr> s = (s', res)" by fastforce
  then show ?thesis using assms that by (cases res) (auto simp: commitDocument_def Let_def)
qed

lemma gate_record_frame:
  assumes "gate_frame su g"
  shows "checkpoint_record env response fp (gt_committer g) = checkpoint_record env response fp (su_committer su)"
    and "kc_workspaceSlug (gt_committer g) = kc_workspaceSlug (su_committer su)"
    and "kc_storageReuse (gt_committer g) = kc_storageReuse (su_committer su)"
proof -
  obtain once err where c: "gt_committer g = (su_committer su)\<lparr>kc_once := once, kc_err := err\<rparr>"
    using assms unfolding gate_frame_def by blast
  show "checkpoint_record env response fp (gt_committer g) = checkpoint_record env response fp (su_committer su)"
    "kc_workspaceSlug (gt_committer g) = kc_workspaceSlug (su_committer su)"
    "kc_storageReuse (gt_committer g) = kc_storageReuse (su_committer su)"
    by (simp_all add: c checkpoint_record_def)
qed

lemma gate_committedI:
  "commits su trace s s' events \<Longrightarrow> list_all keeps_store trace \<Longrightarrow> gate_committed su (trace @ [(s, r, s')]) events"
  unfolding gate_committed_def by fastforce

text \<open>At a completed end of an open response the commit decides.\<close>

lemma gate_completed_step:
  assumes frame: "gate_frame su g" and fresh: "\<not> kc_once (gt_committer g)" "kc_err (gt_committer g) = None"
    "gt_terminal g = None" and store: "list_all keeps_store trace"
    and cap: "capture_open (ce_json (su_env su)) (su_binding su) ups cap" "response_completed event"
      "project_event (ce_json (su_env su)) event (cs_projector cap) = Inr pj" "projector_Done pj = Inr client"
      "finalizeContinuationResponse client (su_binding su) (su_transform su) = Inr response"
      "cs_result (gt_capture g) = captureCompleted client response"
    and out: "delivered trace = filter (\<lambda>e. \<not> is_finish e) ups" "gt_held g = filter is_finish ups"
    and step: "gate_completed (su_env su) event g s = (r, g', s')"
  shows "gate_outcome su trace s r g' s'"
proof -
  let ?fp = "responseFingerprint (su_env su) (su_request su) client"
  have req: "gt_request g = su_request su" using frame by (simp add: gate_frame_def)
  have none: "list_all (\<lambda>e. \<not> response_completed e) ups" "list_all (\<lambda>e. ev_Kind e \<noteq> EventEnvelopeEnd) ups"
    using cap(1) terminal_is_end by (auto simp: capture_open_def list_all_iff)
  from fresh(1,2) show ?thesis
  proof (cases rule: commit_once [where response = response and fp = ?fp and s = s and env = "su_env su"])
    case (stored s2)
    have r: "r = None" "s' = s2" "gt_pending g' = gt_held g @ [event]" "gate_success su g'"
      using step stored(1) cap(6) req frame fresh by (auto simp: gate_completed_def gate_success_def gate_frame_def)
    have "commits su trace s s2 (delivered trace @ gt_pending g')"
      unfolding commits_def using none(1) stored(2) cap completed_projects [OF cap(1,3,4,2)] out r(3)
      by (intro conjI exI [of _ "filter (\<lambda>e. \<not> is_finish e) ups @ filter is_finish ups"] exI [of _ event]
          exI [of _ "[]"] exI [of _ client] exI [of _ response])
        (auto simp: list_all_iff gate_commit_def gate_record_frame [OF frame])
    from gate_committedI [OF this store] show ?thesis
      using r by (simp add: gate_outcome_def gate_pulling_def)
  next
    case (refused e s2)
    have "r = None" and "\<exists>base. gt_pending g' = terminalFailureEvents base ''INTERNAL_ERROR'' finalization_message \<and>
        gt_terminal g' = Some (checkpointCommitError (Errorw ''checkpoint store failed: %w'' [] e))"
      using step refused cap(6) req by (auto simp: gate_completed_def Let_def)
    moreover have "list_all (\<lambda>x. ev_Kind x \<noteq> EventEnvelopeEnd \<and> \<not> is_finish x) (delivered trace)"
      using out(1) none(2) by (auto simp: list_all_iff)
    ultimately have "gate_refused su trace g'" "r = None" unfolding gate_refused_def by blast+
    then show ?thesis by (simp add: gate_outcome_def gate_pulling_def)
  qed
qed

text \<open>Steps from an open gate whose capture has failed, or pulled an event and stays open.\<close>

lemma gate_open_failed:
  assumes q: "capture_Next (ce_json (su_env su)) reader (gt_capture g) = (q, cap)" and "gt_pending g = []"
    and frame: "gate_frame su g" "\<not> kc_once (gt_committer g)" "kc_err (gt_committer g) = None" "gt_terminal g = None"
    and store: "list_all keeps_store trace"
      "list_all (\<lambda>e. \<not> response_completed e) (delivered trace @ gt_pending g @ gt_held g)"
    and failed: "cs_result cap = captureFailed e" and step: "gate_step (su_env su) reader g s = (r, g', s')"
  shows "gate_outcome su trace s r g' s'"
  using step store frame(2-4) assms(2) failed gate_frame_updates(5) [OF frame(1) q]
  by (cases q) (auto simp: gate_step_def q Let_def gate_frame_updates gate_completed_def
      not_end_not_terminal split: if_splits option.splits intro!: outcome_open)

lemma gate_open_event:
  assumes q: "capture_Next (ce_json (su_env su)) reader (gt_capture g) = (pulled_event event, cap)" and "gt_pending g = []"
    and frame: "gate_frame su g" "\<not> kc_once (gt_committer g)" "kc_err (gt_committer g) = None" "gt_terminal g = None"
    and store: "list_all keeps_store trace"
      "list_all (\<lambda>e. \<not> response_completed e) (delivered trace @ gt_pending g @ gt_held g)"
    and event: "capture_open (ce_json (su_env su)) (su_binding su) (ups @ [event]) cap" "ev_Kind event \<noteq> EventEnvelopeEnd"
    and out: "delivered trace = filter (\<lambda>e. \<not> is_finish e) ups" "gt_held g = filter is_finish ups"
    and step: "gate_step (su_env su) reader g s = (r, g', s')"
  shows "gate_outcome su trace s r g' s'"
proof -
  have status: "responseTerminalStatus event = None" using event(2) by (rule not_end_not_terminal)
  define g2 where "g2 = (if is_finish event then g\<lparr>gt_capture := cap, gt_held := gt_held g @ [event]\<rparr>
    else if opens_response event then g\<lparr>gt_capture := cap, gt_response := ev_EnvID event, gt_last := event\<rparr>
    else g\<lparr>gt_capture := cap, gt_last := event\<rparr>)"
  have "gate_frame su g2" using gate_frame_updates(5) [OF frame(1) q] by (simp add: g2_def gate_frame_updates)
  moreover have "gt_committer g2 = gt_committer g" "gt_terminal g2 = None" "gt_capture g2 = cap" "gt_pending g2 = []"
    "gt_held g2 = filter is_finish (ups @ [event])" using assms(2) frame(4) out(2) by (simp_all add: g2_def)
  moreover have "(r, g', s') = (if is_finish event then None else Some (pulled_event event), g2, s)"
    using step status assms(2) frame(4) by (auto simp: gate_step_def q Let_def g2_def split: if_splits)
  ultimately show ?thesis
    using frame(2,3) store event out status
    by (auto simp: gate_outcome_def gate_pulling_def gate_inv_def gate_open_def keeps_store_def
        intro!: exI [of _ "ups @ [event]"] split: if_splits)
qed

lemma gate_open_step:
  assumes op: "gate_open su trace g" and step: "gate_step (su_env su) reader g s = (r, g', s')"
  shows "gate_outcome su trace s r g' s'"
proof -
  have fr: "gate_frame su g" "\<not> kc_once (gt_committer g)" "kc_err (gt_committer g) = None" "gt_terminal g = None"
    "list_all keeps_store trace" "list_all (\<lambda>e. \<not> response_completed e) (delivered trace @ gt_pending g @ gt_held g)"
    using op by (simp_all add: gate_open_def)
  show ?thesis
  proof (cases "gt_pending g")
    case (Cons e rest)
    then obtain x where "cs_result (gt_capture g) = captureFailed x" using op by (auto simp: gate_open_def)
    then show ?thesis
      using step fr Cons by (auto simp: gate_step_def gate_frame_updates intro!: outcome_open)
  next
    case Nil
    obtain q cap where q: "capture_Next (ce_json (su_env su)) reader (gt_capture g) = (q, cap)" by fastforce
    obtain ups where ups: "capture_open (ce_json (su_env su)) (su_binding su) ups (gt_capture g) \<and>
        delivered trace = filter (\<lambda>e. \<not> is_finish e) ups \<and> gt_held g = filter is_finish ups \<or>
        (\<exists>e. cs_result (gt_capture g) = captureFailed e)"
      using op unfolding gate_open_def by blast
    then have "capture_open (ce_json (su_env su)) (su_binding su) ups (gt_capture g) \<or>
      (\<exists>e. cs_result (gt_capture g) = captureFailed e)" by blast
    with q show ?thesis
    proof (cases rule: capture_Next_open)
      case (failed e)
      then show ?thesis using gate_open_failed [OF q Nil fr _ step] by blast
    next
      case silent
      then have "(r, g', s') = (Some q, g\<lparr>gt_capture := cap\<rparr>, s)"
        using step Nil fr(4) by (cases q) (auto simp: gate_step_def q)
      then show ?thesis
        using silent ups fr Nil gate_frame_updates(5) [OF fr(1) q]
        by (auto simp: gate_outcome_def gate_inv_def gate_open_def keeps_store_def capture_open_def)
    next
      case (event event)
      then show ?thesis
        using gate_open_event [of su reader g event cap trace ups s r g' s'] q Nil fr ups step by (auto simp: capture_open_def)
    next
      case (completed event client response pj)
      have "ev_Kind event = EventEnvelopeEnd" using terminal_is_end [OF completed(3)] by simp
      then have "gate_completed (su_env su) event (g\<lparr>gt_capture := cap\<rparr>) s = (r, g', s')"
        using step completed(1,3) Nil fr(4) by (simp add: gate_step_def q opens_response_def)
      then show ?thesis
        using completed ups fr gate_frame_updates(5) [OF fr(1) q]
          gate_completed_step [of su "g\<lparr>gt_capture := cap\<rparr>" trace ups "gt_capture g" event pj client response s r g' s']
        by (auto simp: capture_open_def gate_frame_def)
    qed
  qed
qed

text \<open>After a commit every further success is covered by it.\<close>

lemma gate_success_step:
  assumes ok: "gate_success su g"
    and c: "gate_committed su (trace @ [(s0, pulled_EOF, s)]) (delivered trace @ gt_pending g)"
    and step: "gate_step (su_env su) reader g s = (r, g', s')"
  shows "gate_outcome su trace s0 r g' s'"
proof -
  have fr: "gate_frame su g" "kc_once (gt_committer g)" "kc_err (gt_committer g) = None" "gt_terminal g = None"
    using ok by (simp_all add: gate_success_def)
  have "\<exists>others. s' = s \<and> gate_success su g' \<and> delivered trace @ (case r of None \<Rightarrow> [] | Some q \<Rightarrow> pulled_events q) @
      gt_pending g' = (delivered trace @ gt_pending g) @ others"
  proof (cases "gt_pending g")
    case (Cons e rest)
    then show ?thesis using step fr by (auto simp: gate_step_def gate_success_def gate_frame_updates)
  next
    case Nil
    obtain q cap where q: "capture_Next (ce_json (su_env su)) reader (gt_capture g) = (q, cap)" by fastforce
    show ?thesis
      using step fr(2-) Nil gate_frame_updates(5) [OF fr(1) q]
      by (cases q; cases "cs_result cap")
        (auto simp: gate_step_def q Let_def gate_success_def gate_frame_updates gate_completed_def commitDocument_def
          split: if_splits option.splits)
  qed
  then obtain others where o: "s' = s" "gate_success su g'" "delivered trace @ (case r of None \<Rightarrow> [] | Some q \<Rightarrow> pulled_events q) @
      gt_pending g' = (delivered trace @ gt_pending g) @ others" by blast
  have "gate_committed su (trace @ [(s0, pulled_EOF, s)]) ((delivered trace @ gt_pending g) @ others)"
    using c by (rule gate_committed_more)
  then have "gate_committed su (trace @ [(s0, pulled_EOF, s)])
      (delivered trace @ (case r of None \<Rightarrow> [] | Some q \<Rightarrow> pulled_events q) @ gt_pending g')" by (simp only: o(3))
  then show ?thesis
    using o(1,2) gate_committed_result by (cases r) (auto simp: gate_outcome_def gate_inv_def gate_pulling_def)
qed

lemma gate_refused_step:
  assumes "gate_refused su trace g" and "gate_step (su_env su) reader g s = (r, g', s')"
  shows "gate_outcome su trace s0 r g' s'"
proof -
  obtain e where "gt_terminal g = Some e" using assms(1) by (auto simp: gate_refused_def)
  then obtain q where q: "r = Some q" "gt_terminal g' = gt_terminal g" "pulled_events q @ gt_pending g' = gt_pending g"
    using assms(2) by (auto simp: gate_step_def split: list.splits)
  then have "gate_refused su (trace @ [(s0, q, s')]) g'"
    using assms(1) by (simp add: gate_refused_def)
  then show ?thesis using q(1) by (simp add: gate_outcome_def gate_inv_def)
qed

lemma gate_step_outcome:
  assumes "gate_pulling su trace s0 g s" and "gate_step (su_env su) reader g s = (r, g', s')"
  shows "gate_outcome su trace s0 r g' s'"
  using assms(1) gate_open_step [OF _ assms(2)] gate_success_step [OF _ _ assms(2)] gate_refused_step [OF _ assms(2)]
  by (auto simp: gate_pulling_def)

lemma gate_Next_inv:
  assumes "gate_Next env reader g s = Some y" and "env = su_env su" and "gate_pulling su trace s0 g s"
  shows "case y of (q, g', s') \<Rightarrow> gate_inv su (trace @ [(s0, q, s')]) g'"
  using assms(2,3)
proof (induction rule: gate_Next.raw_induct [OF _ assms(1), case_names step])
  case (step gate env reader g s y)
  obtain r g' s' where e: "gate_step env reader g s = (r, g', s')" by (metis prod_cases3)
  then have "gate_outcome su trace s0 r g' s'" using gate_step_outcome step.prems by blast
  then show ?case using step e by (cases r) (auto simp: gate_outcome_def)
qed

lemma gate_run_inv:
  assumes "gate_run (su_env su) reader g0 trace g" and "gate_open su [] g0"
  shows "gate_inv su trace g"
  using assms(1)
proof induction
  case start
  then show ?case using assms(2) by (simp add: gate_inv_def)
next
  case (pull trace g s r g' s')
  then show ?case using gate_Next_inv [OF pull(2) refl gate_inv_pulling] by simp
qed

section \<open>The client sees the truth\<close>

text \<open>
  Behind the gate the client sees the ends of the terminal stream, or the failed end that
  replaces a completed one whose commit was refused. \<open>failed\<close> says that a pull of the client has
  returned an error: after it the held end may be gone.
\<close>

abbreviation no_end :: "Event list \<Rightarrow> bool" where
  "no_end events \<equiv> list_all (\<lambda>e. \<not> ends_response e) events"

definition ends_once :: "Event list \<Rightarrow> bool" where
  "ends_once events \<longleftrightarrow> (\<exists>before fin. events = before @ [fin] \<and> ends_response fin \<and> no_end before)"

definition commit_error :: "go_error option \<Rightarrow> bool" where
  "commit_error err \<longleftrightarrow> (\<forall>e. err = Some e \<longrightarrow> (\<exists>cause. e = checkpointCommitError cause))"

definition gate_truth ::
    "ResponseBinding \<Rightarrow> Event list \<Rightarrow> bool \<Rightarrow> ('u terminalResponseStream, 'c) checkpointTerminalGate \<Rightarrow> bool" where
  "gate_truth b events failed g \<longleftrightarrow> cs_binding (gt_capture g) = b \<and>
     commit_error (kc_err (gt_committer g)) \<and> commit_error (gt_terminal g) \<and> list_all is_finish (gt_held g) \<and>
     (\<exists>ups. terminal_inv ups (cs_upstream (gt_capture g)) \<and>
        (list_ex opens_response (events @ gt_pending g) \<longrightarrow> list_ex opens_response ups) \<and>
        (if ends_once (events @ gt_pending g) then list_ex ends_response ups
         else gt_terminal g = None \<and> gt_pending g = [] \<and> no_end events \<and> (no_end ups \<or> failed)))"

fun fails :: "pulled \<Rightarrow> bool" where
  "fails (pulled_error _) \<longleftrightarrow> True" | "fails _ \<longleftrightarrow> False"

text \<open>An answer the client may get after the start of the response, if no pull has failed yet.\<close>

definition truthful :: "ResponseBinding \<Rightarrow> Event list \<Rightarrow> pulled \<Rightarrow> bool" where
  "truthful b events r \<longleftrightarrow>
     (case r of
        pulled_event _ \<Rightarrow> True
      | pulled_EOF \<Rightarrow> ends_once events
      | pulled_error e \<Rightarrow> is_canceled e \<or> (\<exists>cause. e = checkpointCommitError cause) \<or>
          (\<exists>event. foreign_identity b event = Some e))"

definition truthful_step ::
    "ResponseBinding \<Rightarrow> Event list \<Rightarrow> bool \<Rightarrow> pulled option \<Rightarrow>
     ('u terminalResponseStream, 'c) checkpointTerminalGate \<Rightarrow> bool" where
  "truthful_step b events failed r g \<longleftrightarrow>
     (case r of
        None \<Rightarrow> gate_truth b events failed g
      | Some q \<Rightarrow> gate_truth b (events @ pulled_events q) (failed \<or> fails q) g \<and>
          (list_ex opens_response events \<and> \<not> failed \<longrightarrow> truthful b events q))"

lemma finish_neutral [simp]:
  "is_finish event \<Longrightarrow> \<not> opens_response event" "is_finish event \<Longrightarrow> responseTerminalStatus event = None"
  by (simp_all add: opens_response_def responseTerminalStatus_def)

lemma ended_silent: "terminal_inv (ups @ [event]) s \<Longrightarrow> no_end ups"
  by (auto simp: terminal_inv_def list_all_iff append_eq_append_conv2 append_eq_Cons_conv split: if_splits)

lemma ends_once_no_end: "no_end events \<Longrightarrow> \<not> ends_once events"
  by (auto simp: ends_once_def)

lemma ends_once_snoc: "no_end events \<Longrightarrow> ends_once (events @ [event]) \<longleftrightarrow> ends_response event"
  by (auto simp: ends_once_def)

lemma commit_error_None [simp]: "commit_error None"
  by (simp add: commit_error_def)

lemma held_neutral: "list_all is_finish held \<Longrightarrow> no_end held \<and> \<not> list_ex opens_response held"
  by (auto simp: list_all_iff list_ex_iff)

text \<open>The pulls that only hand out what is pending, or repeat the terminal error.\<close>

lemma truth_pending:
  assumes "gate_truth b events failed g" "gt_pending g \<noteq> [] \<or> gt_terminal g \<noteq> None"
    and "gate_step env reader g s = (r, g', s')"
  shows "truthful_step b events failed r g'"
proof (cases "gt_pending g")
  case (Cons e rest)
  then have "r = Some (pulled_event e)" "g' = g\<lparr>gt_pending := rest, gt_last := e\<rparr>"
    using assms(3) by (auto simp: gate_step_def)
  then show ?thesis
    using assms(1) Cons by (auto simp: truthful_step_def truthful_def gate_truth_def split: if_splits)
next
  case Nil
  then obtain e where "gt_terminal g = Some e" using assms(2) by blast
  then have "r = Some (pulled_error e)" "g' = g" "\<exists>cause. e = checkpointCommitError cause"
    using assms(1,3) Nil by (auto simp: gate_step_def gate_truth_def commit_error_def)
  then show ?thesis
    using assms(1) by (auto simp: truthful_step_def truthful_def gate_truth_def split: if_splits)
qed

lemma commitDocument_error:
  assumes "commitDocument env response fp c s = (err, c', s')" "commit_error (kc_err c)"
  shows "commit_error err" "commit_error (kc_err c')"
  using assms by (auto simp: commitDocument_def commit_error_def Let_def split: if_splits prod.splits sum.splits)

lemma capture_upstream [simp]:
  "cs_upstream (capture_fail e cap) = cs_upstream cap"
  "cs_upstream (capture_event codec event cap) = cs_upstream cap"
  by (auto simp: capture_fail_def capture_event_def capture_terminal_def Let_def
      split: prod.splits option.splits sum.splits)

lemma foreign_not_end: "foreign_identity b event = Some e \<Longrightarrow> responseTerminalStatus event = None \<and> \<not> opens_response event"
  by (auto simp: foreign_identity_def responseTerminalStatus_def opens_response_def split: if_splits)

text \<open>The end of the terminal stream at the gate.\<close>

lemma truth_completed:
  assumes "cs_binding (gt_capture g) = b" "commit_error (kc_err (gt_committer g))" "gt_terminal g = None"
    and "list_all is_finish (gt_held g)" "gt_pending g = []" "no_end events"
    and "terminal_inv ups (cs_upstream (gt_capture g))" "list_ex ends_response ups" "ends_response event"
    and "list_ex opens_response events \<longrightarrow> list_ex opens_response ups" "\<not> opens_response event"
    and "gate_completed env event g s = (r, g', s')"
  shows "truthful_step b events failed r g'"
proof -
  have held: "no_end (gt_held g)" "\<not> list_ex opens_response (gt_held g)"
    using held_neutral [OF assms(4)] by simp_all
  show ?thesis
  proof (cases "cs_result (gt_capture g)")
    case (captureCompleted client checkpoint)
    obtain err c store' where c: "commitDocument env checkpoint (responseFingerprint env (gt_request g) client)
        (gt_committer g) s = (err, c, store')" by (metis prod_cases3)
    note err = commitDocument_error [OF c assms(2)]
    show ?thesis
    proof (cases err)
      case None
      then have "r = None" "g' = g\<lparr>gt_committer := c, gt_pending := gt_held g @ [event], gt_held := []\<rparr>"
        using assms(12) captureCompleted c by (simp_all add: gate_completed_def)
      moreover have "ends_once (events @ gt_held g @ [event])"
        using ends_once_snoc [of "events @ gt_held g" event] assms(6,9) held(1) by simp
      ultimately show ?thesis
        using err assms(1,3,7,8,10,11) held by (auto simp: truthful_step_def gate_truth_def intro!: exI [of _ ups])
    next
      case (Some e)
      then obtain base where "r = None" "gt_pending g' = terminalFailureEvents base ''INTERNAL_ERROR'' finalization_message"
        "gt_terminal g' = Some e" "gt_committer g' = c" "gt_held g' = []" "gt_capture g' = gt_capture g"
        using assms(12) captureCompleted c by (auto simp: gate_completed_def Let_def)
      moreover obtain x y where xy: "terminalFailureEvents base ''INTERNAL_ERROR'' finalization_message = [x, y]"
        by (simp add: terminalFailureEvents_def)
      moreover have "ends_once (events @ [x, y])"
        using ends_once_snoc [of "events @ [x]" y] assms(6) failure_events_end [OF xy] by simp
      ultimately show ?thesis
        using err Some assms(1,7,8,10) failure_events_end [OF xy]
        by (auto simp: truthful_step_def gate_truth_def intro!: exI [of _ ups])
    qed
  qed (use assms ends_once_no_end [OF assms(6)] in \<open>auto simp: gate_completed_def truthful_step_def truthful_def
      gate_truth_def commit_error_def intro!: exI [of _ ups]\<close>)
qed

lemma truth_step:
  assumes truth: "gate_truth b events failed g" and step: "gate_step env (terminal_Next reader) g s = (r, g', s')"
  shows "truthful_step b events failed r g'"
proof (cases "gt_pending g \<noteq> [] \<or> gt_terminal g \<noteq> None")
  case True
  then show ?thesis using truth_pending [OF truth _ step] by blast
next
  case False
  then have idle: "gt_pending g = []" "gt_terminal g = None" by simp_all
  obtain q u where q: "terminal_Next reader (cs_upstream (gt_capture g)) = (q, u)" by fastforce
  obtain ups where ups: "terminal_inv ups (cs_upstream (gt_capture g))"
      "list_ex opens_response events \<longrightarrow> list_ex opens_response ups"
      "if ends_once events then list_ex ends_response ups else no_end events \<and> (no_end ups \<or> failed)"
    and g: "cs_binding (gt_capture g) = b" "commit_error (kc_err (gt_committer g))" "list_all is_finish (gt_held g)"
    using truth idle by (auto simp: gate_truth_def split: if_splits)
  note inner = terminal_step [OF ups(1) q]
  have started: "list_ex opens_response ups \<Longrightarrow> ts_started (cs_upstream (gt_capture g))"
    using ups(1) by (simp add: terminal_inv_def)
  show ?thesis
  proof (cases q)
    case (pulled_event event)
    have inv: "terminal_inv (ups @ [event]) u" using inner pulled_event by simp
    then have none: "no_end ups" by (rule ended_silent)
    then have open': "no_end events" "\<not> ends_once events" using ups(3) by (auto simp: list_all_iff list_ex_iff split: if_splits)
    show ?thesis
    proof (cases "foreign_identity b event")
      case (Some e)
      then have "r = Some (pulled_error e)" "gt_capture g' = capture_fail e ((gt_capture g)\<lparr>cs_upstream := u\<rparr>)"
        "gt_pending g' = []" "gt_terminal g' = None" "gt_held g' = gt_held g" "gt_committer g' = gt_committer g"
        using step idle q pulled_event g(1) by (auto simp: gate_step_def capture_Next_def)
      then show ?thesis
        using inv none open' ups(2) g foreign_not_end [OF Some] Some
        by (auto simp: truthful_step_def truthful_def gate_truth_def commit_error_def intro!: exI [of _ "ups @ [event]"])
    next
      case None
      define g1 where "g1 = g\<lparr>gt_capture := capture_event (ce_json env) event ((gt_capture g)\<lparr>cs_upstream := u\<rparr>)\<rparr>"
      define g2 where "g2 = (if opens_response event then g1\<lparr>gt_response := ev_EnvID event\<rparr> else g1)"
      have same: "cs_upstream (gt_capture g2) = u" "cs_binding (gt_capture g2) = b" "gt_pending g2 = []"
        "gt_terminal g2 = None" "gt_held g2 = gt_held g" "gt_committer g2 = gt_committer g"
        using g(1) idle by (simp_all add: g1_def g2_def)
      have red: "(r, g', s') = (if is_finish event then (None, g1\<lparr>gt_held := gt_held g @ [event]\<rparr>, s)
          else (case responseTerminalStatus event of
              None \<Rightarrow> (Some (pulled_event event), g2\<lparr>gt_last := event\<rparr>, s)
            | Some status \<Rightarrow> if status \<noteq> EnvelopeStatusCompleted
                then (None, g2\<lparr>gt_pending := gt_held g @ [event], gt_held := []\<rparr>, s)
                else gate_completed env event g2 s))"
        using step idle q pulled_event None g(1)
        by (auto simp: gate_step_def capture_Next_def Let_def g1_def g2_def split: option.split)
      consider "is_finish event" | "\<not> is_finish event" "responseTerminalStatus event = None"
        | status where "\<not> is_finish event" "responseTerminalStatus event = Some status" "status \<noteq> EnvelopeStatusCompleted"
        | "\<not> is_finish event" "response_completed event" by blast
      then show ?thesis
      proof cases
        case 1
        then show ?thesis
          using red inv none open' ups(2) g idle
          by (auto simp: truthful_step_def gate_truth_def g1_def commit_error_def intro!: exI [of _ "ups @ [event]"])
      next
        case 2
        then show ?thesis
          using red inv none open' ups(2) g same ends_once_no_end [of "events @ [event]"]
          by (auto simp: truthful_step_def truthful_def gate_truth_def commit_error_def intro!: exI [of _ "ups @ [event]"])
      next
        case (3 status)
        have "ends_once (events @ gt_held g @ [event])" "\<not> list_ex opens_response (gt_held g)"
          using ends_once_snoc [of "events @ gt_held g" event] open'(1) held_neutral [OF g(3)] 3(2) by simp_all
        then show ?thesis
          using red 3 inv ups(2) g same
          by (auto simp: truthful_step_def gate_truth_def commit_error_def intro!: exI [of _ "ups @ [event]"])
      next
        case 4
        have "\<not> opens_response event" using 4(2) opens_not_ends by fastforce
        moreover have "gate_completed env event g2 s = (r, g', s')" using red 4 by simp
        ultimately show ?thesis
          using 4 inv ups(2) g same open'(1)
          by (intro truth_completed [of g2 b events "ups @ [event]" event env s r g' s']) auto
      qed
    qed
  next
    case pulled_EOF
    then have r: "r = Some pulled_EOF" "g' = g\<lparr>gt_capture := (gt_capture g)\<lparr>cs_upstream := u\<rparr>\<rparr>"
      using step idle q by (simp_all add: gate_step_def capture_Next_def)
    have "ends_once events" if "list_ex opens_response events" "\<not> failed"
    proof -
      have "ts_terminated (cs_upstream (gt_capture g))" "ts_pending (cs_upstream (gt_capture g)) = []"
        using inner pulled_EOF started ups(2) that(1) by auto
      then have "list_ex ends_response ups" using ups(1) by (auto simp: terminal_inv_def)
      then show ?thesis using ups(3) that(2) by (auto simp: list_all_iff list_ex_iff split: if_splits)
    qed
    then show ?thesis
      using r inner pulled_EOF ups g idle
      by (auto simp: truthful_step_def truthful_def gate_truth_def commit_error_def intro!: exI [of _ ups])
  next
    case (pulled_error e)
    then have r: "r = Some (pulled_error e)" "g' = g\<lparr>gt_capture := capture_fail e ((gt_capture g)\<lparr>cs_upstream := u\<rparr>)\<rparr>"
      using step idle q by (simp_all add: gate_step_def capture_Next_def)
    have u: "cs_upstream (gt_capture g') = u" using r(2) by (simp add: capture_fail_def)
    show ?thesis
      using r inner pulled_error ups g idle started u
      by (auto simp: truthful_step_def truthful_def gate_truth_def commit_error_def intro!: exI [of _ ups])
  qed
qed


lemma truth_Next:
  assumes "gate_Next env next g s = Some y" and "next = terminal_Next reader" and "gate_truth b events failed g"
  shows "case y of (q, g', s') \<Rightarrow> truthful_step b events failed (Some q) g'"
  using assms(2,3)
proof (induction rule: gate_Next.raw_induct [OF _ assms(1), case_names step])
  case (step gate env rd g s y)
  obtain r g' s' where e: "gate_step env rd g s = (r, g', s')" by (metis prod_cases3)
  then have "truthful_step b events failed r g'" using truth_step [OF step.prems(2)] step.prems(1) by blast
  then show ?case using step e by (cases r) (auto simp: truthful_step_def)
qed

definition pull_failed :: "'c pulls \<Rightarrow> bool" where
  "pull_failed trace \<longleftrightarrow> list_ex (\<lambda>(_, r, _). fails r) trace"

lemma gate_run_truth:
  assumes "gate_run env (terminal_Next reader) (handoffResponseStream p call (newTerminalResponseStream u) b transform) trace g"
  shows "gate_truth b (delivered trace) (pull_failed trace) g"
  using assms
proof induction
  case start
  then show ?case
    by (auto simp: gate_truth_def handoffResponseStream_def newCheckpointTerminalGate_def ends_once_def terminal_inv_def
        newCheckpointCaptureResponseStream_def newTerminalResponseStream_def pull_failed_def intro!: exI [of _ "[]"])
next
  case (pull trace g s r g' s')
  then show ?case
    using truth_Next [OF pull(2) refl pull.IH] by (simp add: truthful_step_def pull_failed_def disj_commute)
qed

text \<open>
  C13: a response that has started ends truthfully. Whatever the provider's stream does, the events
  a client pulls from the gated response contain at most one end of the response, and nothing
  after it. Once the start of the response was delivered, and as long as no pull has failed, the
  next pull returns the end of the stream only after such an end, and fails only with a
  cancellation, with the error of a commit that did not succeed, or with an identity that is not
  the response's own; every other failure, and a provider that just stops, becomes an error event
  and a failed end. (Of the failed end only its kind and status are claimed; its envelope can be
  the wrong one, see \<open>Response_Gate.failed_end_unowned\<close>.)
\<close>

theorem response_ends_truthfully:
  assumes "gate_run env (terminal_Next reader)
    (handoffResponseStream p call (newTerminalResponseStream u) b transform) trace g"
  shows "(\<forall>before e after. delivered trace = before @ e # after \<and> ends_response e \<longrightarrow>
      after = [] \<and> list_all (\<lambda>x. \<not> ends_response x) before) \<and>
    (list_ex opens_response (delivered trace) \<and> \<not> pull_failed trace \<longrightarrow>
     (case gate_Next env (terminal_Next reader) g store of
        Some (pulled_event _, _) \<Rightarrow> True
      | Some (pulled_EOF, _) \<Rightarrow> delivered trace \<noteq> [] \<and> ends_response (last (delivered trace))
      | Some (pulled_error e, _) \<Rightarrow> is_canceled e \<or> (\<exists>cause. e = checkpointCommitError cause) \<or>
          (\<exists>event. foreign_identity b event = Some e)
      | None \<Rightarrow> True))"
proof -
  have truth: "gate_truth b (delivered trace) (pull_failed trace) g" using assms by (rule gate_run_truth)
  have "after = [] \<and> list_all (\<lambda>x. \<not> ends_response x) before"
    if d: "delivered trace = before @ e # after" "ends_response e" for before e after
  proof -
    have "\<not> no_end (delivered trace)" using d by simp
    then obtain xs fin where "delivered trace @ gt_pending g = xs @ [fin]" "no_end xs"
      using truth by (auto simp: gate_truth_def ends_once_def split: if_splits)
    then show ?thesis
      using only_last [of before e "after @ gt_pending g" xs fin ends_response] d by simp
  qed
  moreover have "truthful b (delivered trace) r"
    if "list_ex opens_response (delivered trace)" "\<not> pull_failed trace"
      "gate_Next env (terminal_Next reader) g store = Some (r, g', s')" for r g' s'
    using truth_Next [OF that(3) refl truth] that(1,2) by (simp add: truthful_step_def)
  ultimately show ?thesis
    by (fastforce simp: truthful_def ends_once_def split: option.splits prod.splits pulled.splits)
qed

section \<open>Delivered success\<close>

definition setup_of ::
    "'c commit_env \<Rightarrow> 'c handoff_call \<Rightarrow> ResponseBinding \<Rightarrow> response_transform option \<Rightarrow> 'c gate_setup" where
  "setup_of env call b transform =
     (let g = handoffResponseStream (ce_platform env) call () b transform
      in \<lparr>su_env = env, su_binding = b, su_transform = transform, su_request = gt_request g, su_committer = gt_committer g\<rparr>)"

lemma handoff_open: "gate_open (setup_of env call b transform) [] (handoffResponseStream (ce_platform env) call u b transform)"
  by (auto simp: gate_open_def gate_frame_def setup_of_def handoffResponseStream_def newCheckpointTerminalGate_def
      newCheckpointCaptureResponseStream_def capture_open_def Let_def intro!: exI [of _ "[]"])

lemma first_success:
  assumes "xs @ ys = seen @ fin # rest" and "list_all (\<lambda>x. \<not> P x) seen" and "x \<in> set xs" and "P x"
  shows "\<exists>rest'. xs = seen @ fin # rest'"
proof (cases "length xs \<le> length seen")
  case True
  then have "set xs \<subseteq> set seen" using assms(1) by (metis append_eq_append_conv_if set_take_subset)
  then show ?thesis using assms(2-4) by (auto simp: list_all_iff)
next
  case False
  then show ?thesis using assms(1) by (auto simp: append_eq_append_conv2 append_eq_Cons_conv)
qed

lemma failure_not_completed: "list_all (\<lambda>e. \<not> response_completed e) (terminalFailureEvents base code message)"
  by (simp add: terminalFailureEvents_def responseTerminalStatus_def)

lemma refused_no_success:
  assumes "gate_refused su trace g"
  shows "list_all (\<lambda>e. \<not> response_completed e) (delivered trace)"
proof -
  obtain seen base where d: "delivered trace @ gt_pending g =
      seen @ terminalFailureEvents base ''INTERNAL_ERROR'' finalization_message"
    "list_all (\<lambda>x. ev_Kind x \<noteq> EventEnvelopeEnd \<and> \<not> is_finish x) seen"
    using assms by (auto simp: gate_refused_def)
  then have "list_all (\<lambda>e. \<not> response_completed e) (delivered trace @ gt_pending g)"
    using failure_not_completed not_end_not_terminal by (auto simp: list_all_iff)
  then show ?thesis by simp
qed

lemma success_commits:
  assumes "gate_run env reader (handoffResponseStream (ce_platform env) call u b transform) trace g"
    and "e \<in> set (delivered trace)" and "response_completed e"
  shows "gate_committed (setup_of env call b transform) trace (delivered trace)"
proof -
  let ?su = "setup_of env call b transform"
  have "gate_inv ?su trace g"
    using assms(1) gate_run_inv [OF _ handoff_open] by (metis gate_setup.select_convs(1) setup_of_def)
  then have "gate_committed ?su trace (delivered trace @ gt_pending g)"
    using assms(2,3) refused_no_success by (auto simp: gate_inv_def gate_open_def list_all_iff)
  then obtain before s r s' after where t: "trace = before @ (s, r, s') # after" "list_all keeps_store (before @ after)"
    and c: "commits ?su before s s' (delivered trace @ gt_pending g)"
    unfolding gate_committed_def by blast
  then have "commits ?su before s s' (delivered trace)"
    unfolding commits_def using first_success [OF _ _ assms(2), of _ _ _ _ response_completed] assms(3) by metis
  with t show ?thesis unfolding gate_committed_def by blast
qed

text \<open>The commit of a handoff, from the client's response and the one to continue from.\<close>

definition handoff_commit ::
    "'c commit_env \<Rightarrow> 'c handoff_call \<Rightarrow> CanonicalResponse \<Rightarrow> CanonicalResponse \<Rightarrow> 'c Commit" where
  "handoff_commit env call client response =
     \<lparr>cm_Checkpoint =
        \<lparr>cp_History = (case (hc_advance call, responseFingerprint env (NewCanonicalRequest (ce_platform env) (hc_fullRequest call)) client) of
            (Some (previous, request), Some leaf) \<Rightarrow>
              (case Advance (ce_hash env) previous request leaf of Inl _ \<Rightarrow> None | Inr h \<Rightarrow> Some h)
          | _ \<Rightarrow> None),
         cp_ExecutionAffinity = hc_executionAffinity call,
         cp_Request = NewCanonicalRequest (ce_platform env) (hc_fullRequest call), cp_Response = response,
         cp_CreatedAt = ce_created env, cp_ExpiresAt = None, cp_storageReuse = zeroReuse\<rparr>,
      cm_Reuse = hc_storageReuse call\<rparr>"

lemma setup_commit:
  "gate_commit (su_env (setup_of env call b transform)) (su_request (setup_of env call b transform))
     (su_committer (setup_of env call b transform)) client response = handoff_commit env call client response"
  by (simp add: setup_of_def Let_def gate_commit_def handoff_commit_def checkpoint_record_def handoffResponseStream_def
      newCheckpointTerminalGate_def NewCanonicalRequest_idem)

lemma success_details:
  assumes "gate_run env reader (handoffResponseStream (ce_platform env) call u b transform) trace g"
    and "e \<in> set (delivered trace)" and "response_completed e"
  shows "\<exists>before s r s' after seen fin rest client response.
    trace = before @ (s, r, s') # after \<and> list_all keeps_store (before @ after) \<and>
    list_all (\<lambda>e. \<not> response_completed e) (delivered before) \<and>
    store_Put (ce_platform env) (ce_moments env) (hc_workspaceSlug call)
      (handoff_commit env call client response) s = (s', Inr ()) \<and>
    delivered trace = seen @ fin # rest \<and> list_all (\<lambda>e. \<not> response_completed e) seen \<and> response_completed fin \<and>
    ProjectStream (ce_json env) (seen @ [fin]) last' b = Inr client \<and>
    finalizeContinuationResponse client b transform = Inr response"
proof -
  let ?su = "setup_of env call b transform"
  have su: "ce_platform (su_env ?su) = ce_platform env" "ce_moments (su_env ?su) = ce_moments env"
    "ce_json (su_env ?su) = ce_json env" "su_binding ?su = b" "su_transform ?su = transform"
    "kc_workspaceSlug (su_committer ?su) = hc_workspaceSlug call"
    by (simp_all add: setup_of_def Let_def handoffResponseStream_def newCheckpointTerminalGate_def)
  from success_commits [OF assms] show ?thesis
    unfolding gate_committed_def commits_def setup_commit su by blast
qed

text \<open>
  C7: success is delivered only after its checkpoint is stored. If the client has pulled a
  completed end, then exactly one of its pulls, not later than the one that returned the
  first completed end, changed the store, by a successful commit; and what was stored is the
  response that the events delivered up to that end project to, finalised for continuation. This
  holds for every provider stream and whatever other exchanges do to the store between pulls.
\<close>

theorem success_committed:
  assumes "gate_run env reader (handoffResponseStream (ce_platform env) call u b transform) trace g"
    and "e \<in> set (delivered trace)" and "response_completed e"
  shows "\<exists>before s r s' after seen fin rest client response.
    trace = before @ (s, r, s') # after \<and> list_all keeps_store (before @ after) \<and>
    list_all (\<lambda>e. \<not> response_completed e) (delivered before) \<and>
    store_Put (ce_platform env) (ce_moments env) (hc_workspaceSlug call)
      (handoff_commit env call client response) s = (s', Inr ()) \<and>
    delivered trace = seen @ fin # rest \<and> list_all (\<lambda>e. \<not> response_completed e) seen \<and> response_completed fin \<and>
    ProjectStream (ce_json env) (seen @ [fin]) last' b = Inr client \<and>
    finalizeContinuationResponse client b transform = Inr response"
  using assms by (rule success_details)

text \<open>
  C15: a refused commit is told to the client. Once the store has refused the checkpoint, what the
  client has pulled and will pull is what it got before, with no end and no finish, followed by one
  error and one failed end of the response, and then the error of the commit, on every further
  pull; the completed end and the finish of the provider are never delivered.
\<close>

theorem refused_commit_reported:
  assumes "gate_run env reader (handoffResponseStream (ce_platform env) call u b transform) trace g"
    and "kc_err (gt_committer g) \<noteq> None"
  shows "\<exists>e seen base. list_all (\<lambda>x. ev_Kind x \<noteq> EventEnvelopeEnd \<and> \<not> is_finish x) seen \<and>
    delivered trace @ gt_pending g = seen @ terminalFailureEvents base ''INTERNAL_ERROR'' finalization_message \<and>
    (gt_pending g = [] \<longrightarrow> gate_Next env reader g store = Some
      (pulled_error (checkpointCommitError (Errorw ''checkpoint store failed: %w'' [] e)), g, store))"
proof -
  let ?su = "setup_of env call b transform"
  have "gate_inv ?su trace g"
    using assms(1) gate_run_inv [OF _ handoff_open] by (metis gate_setup.select_convs(1) setup_of_def)
  then have "gate_refused ?su trace g" using assms(2) by (auto simp: gate_inv_def gate_open_def gate_success_def)
  then obtain e seen base where
    r: "gt_terminal g = Some (checkpointCommitError (Errorw ''checkpoint store failed: %w'' [] e))"
    "delivered trace @ gt_pending g = seen @ terminalFailureEvents base ''INTERNAL_ERROR'' finalization_message"
    "list_all (\<lambda>x. ev_Kind x \<noteq> EventEnvelopeEnd \<and> \<not> is_finish x) seen"
    unfolding gate_refused_def by blast
  have "gt_pending g = [] \<longrightarrow> gate_Next env reader g store = Some
      (pulled_error (checkpointCommitError (Errorw ''checkpoint store failed: %w'' [] e)), g, store)"
    using r(1) by (subst gate_Next.simps) (simp add: gate_step_def)
  with r(2,3) show ?thesis by blast
qed

section \<open>From one turn to the next\<close>

lemma resumed_history:
  assumes "Resume p codec request c = Inr r" and "RetainedHistory (cr_items (cp_Response c)) = cr_items (cp_Response c)"
  shows "RetainedHistory (rq_items (rs_request r)) = checkpoint_history c @ RetainedHistory (rq_items request)"
proof -
  obtain pre where "list_all request_scoped pre"
    "rq_items (rs_request r) = pre @ checkpoint_history c @ RetainedHistory (rq_items request)"
    using resumed_items [OF assms(1)] by blast
  then show ?thesis
    using assms(2) RetainedHistory_prelude by (simp add: RetainedHistory_append checkpoint_history_def)
qed

text \<open>
  C8: what the client has seen completed is where the next turn begins. Take an exchange that
  resumed a checkpoint \<open>c\<close> which the store had returned, and whose client has pulled a completed
  end. Then a commit among its pulls left a store from which the response's identifier, for a
  day, loads a checkpoint that holds the complete history of \<open>c\<close>, the new items of the resumed
  request and the items of the response that was finalised from what the client saw, in this
  order, although the store shares the tail of \<open>c\<close> instead of copying it.
\<close>

theorem resumed_turn_loads:
  assumes run: "gate_run env reader (handoffResponseStream (ce_platform env) call u b transform) trace g"
    and seen: "e \<in> set (delivered trace)" "response_completed e"
    and resumed: "Resume (ce_platform env) codec request c = Inr r"
      "RetainedHistory (cr_items (cp_Response c)) = cr_items (cp_Response c)"
    and call: "hc_fullRequest call = rs_request r" "hc_storageReuse call = ReuseCheckpoint c"
    and stores: "normalizeWorkspace (hc_workspaceSlug call) = Inr w"
      "\<forall>s \<in> fst ` set trace. \<exists>D. store_run (ce_platform env) visible self s D \<and> (w, c) \<in> D"
    and now: "now < fst (ce_moments env) + defaultCheckpointTTL"
  shows "\<exists>s' client response s'' c' fin before rest. s' \<in> snd ` snd ` set trace \<and>
    delivered trace = before @ fin # rest \<and> response_completed fin \<and>
    ProjectStream (ce_json env) (before @ [fin]) last' b = Inr client \<and>
    finalizeContinuationResponse client b transform = Inr response \<and>
    store_Get (ce_platform env) now (hc_workspaceSlug call) (rr_SwobuID (cr_response response)) s' = (s'', Inr (Some c')) \<and>
    checkpoint_history c' = checkpoint_history c @ RetainedHistory (rq_items request) @ cr_items response"
proof -
  let ?p = "ce_platform env"
  obtain before s x s' after seen fin rest client response where
    t: "trace = before @ (s, x, s') # after" and
    put: "store_Put ?p (ce_moments env) (hc_workspaceSlug call) (handoff_commit env call client response) s = (s', Inr ())" and
    d: "delivered trace = seen @ fin # rest" "response_completed fin" and
    out: "ProjectStream (ce_json env) (seen @ [fin]) last' b = Inr client"
      "finalizeContinuationResponse client b transform = Inr response"
    using success_details [OF run seen, where last' = last'] by blast
  obtain D where D: "store_run ?p visible self s D" "(w, c) \<in> D" using stores(2) t by auto
  have items: "RetainedHistory (rq_items (rs_request r)) = checkpoint_history c @ RetainedHistory (rq_items request)"
    using resumed by (rule resumed_history)
  have "legitimate visible D w (cm_Reuse (handoff_commit env call client response))
      (RetainedHistory (rq_items (cp_Request (cm_Checkpoint (handoff_commit env call client response)))))"
    unfolding legitimate_def using D(2) call items by (auto simp: handoff_commit_def)
  from stored_loads [OF D(1) stores(1) this put, of now] now
  obtain s'' c' where "store_Get ?p now (hc_workspaceSlug call) (rr_SwobuID (cr_response response)) s' = (s'', Inr (Some c'))"
    "checkpoint_history c' = checkpoint_history c @ RetainedHistory (rq_items request) @ cr_items response"
    using call(1) items by (auto simp: handoff_commit_def checkpoint_history_def)
  moreover have "s' \<in> snd ` snd ` set trace" using t by force
  ultimately show ?thesis using d out by blast
qed

section \<open>A delivered turn\<close>

fun gate_drain ::
    "nat \<Rightarrow> 'c commit_env \<Rightarrow> 'u reader \<Rightarrow> ('u, 'c) checkpointTerminalGate \<Rightarrow> 'c memoryStore \<Rightarrow> ('c pulls \<times> ('u, 'c) checkpointTerminalGate) option" where
  "gate_drain 0 env reader g s = Some ([], g)"
| "gate_drain (Suc n) env reader g s =
     (case gate_Next env reader g s of
        None \<Rightarrow> None
      | Some (r, g', s') \<Rightarrow> map_option (\<lambda>(trace, g''). ((s, r, s') # trace, g'')) (gate_drain n env reader g' s'))"

lemma gate_run_Cons:
  "gate_run env reader g' trace g'' \<Longrightarrow> gate_Next env reader g s = Some (r, g', s') \<Longrightarrow>
   gate_run env reader g ((s, r, s') # trace) g''"
proof (induction rule: gate_run.induct)
  case start
  then show ?case using gate_run.pull [OF gate_run.start] by fastforce
next
  case (pull trace h t q h' t')
  then show ?case using gate_run.pull [of env reader g "(s, r, s') # trace" h t q h' t'] by simp
qed

lemma gate_drain_run: "gate_drain n env reader g s = Some (trace, g') \<Longrightarrow> gate_run env reader g trace g'"
proof (induction n arbitrary: g s trace)
  case (Suc n)
  then show ?case by (auto split: option.splits intro: gate_run_Cons)
qed (simp add: gate_run.start)

definition list_reader :: "Event list reader" where
  "list_reader events = (case events of [] \<Rightarrow> (pulled_EOF, []) | e # es \<Rightarrow> (pulled_event e, es))"

definition turn_env :: "unit commit_env" where
  "turn_env = \<lparr>ce_platform = plain_platform, ce_json = empty_objects, ce_hash = (\<lambda>s. s), ce_encode = None,
     ce_created = 6, ce_moments = (6, 6, 6)\<rparr>"

definition turn_binding :: ResponseBinding where
  "turn_binding = \<lparr>rb_SwobuID = ''r2'', rb_TargetID = ''target'', rb_TargetVersion = 1\<rparr>"

definition turn_event :: "int \<Rightarrow> EventKind \<Rightarrow> Payload \<Rightarrow> Event" where
  "turn_event n kind payload = zeroEvent\<lparr>ev_Seq := n, ev_Kind := kind, ev_EnvID := ''env'', ev_Payload := payload\<rparr>"

definition turn_events :: "Event list" where
  "turn_events =
     [turn_event 1 EventEnvelopeStart (envelope_start EnvResponse ''gpt''),
      turn_event 2 EventResponseIdentity
        (response_identity \<lparr>rr_SwobuID = ''r2'', rr_Responses = None, rr_Interactions = None\<rparr>),
      turn_event 3 EventFinish (finish_payload \<lparr>cmp_class = CompletionCompleted, cmp_reason = ''stop''\<rparr>),
      turn_event 4 EventUsage (usage_payload NewUnknownTokenUsage),
      turn_event 5 EventEnvelopeEnd (envelope_end EnvResponse EnvelopeStatusCompleted)]"

definition turn_request :: "unit CanonicalRequest" where
  "turn_request = (cp_Request second_get)\<lparr>rq_items := [user_says ''again'']\<rparr>"

definition turn_resumed :: "unit ResolvedRequest" where
  "turn_resumed = projr (Resume plain_platform empty_objects turn_request second_get)"

definition turn_call :: "string \<Rightarrow> unit handoff_call" where
  "turn_call ws = \<lparr>hc_workspaceSlug = ws, hc_fullRequest = rs_request turn_resumed, hc_advance = None,
     hc_executionAffinity = zeroKey, hc_storageReuse = ReuseCheckpoint second_get\<rparr>"

definition turn_gate :: "string \<Rightarrow> (Event list, unit) checkpointTerminalGate" where
  "turn_gate ws = handoffResponseStream plain_platform (turn_call ws) turn_events turn_binding None"

lemma turn_resumed: "Resume plain_platform empty_objects turn_request second_get = Inr turn_resumed"
  by code_simp

lemma turn_delivered:
  "map_option (\<lambda>(trace, g). map ev_Kind (delivered trace)) (gate_drain 5 turn_env list_reader (turn_gate ''ws'') second_store) =
   Some [EventEnvelopeStart, EventResponseIdentity, EventUsage, EventFinish, EventEnvelopeEnd]"
  by code_simp

definition turn_response :: CanonicalResponse where
  "turn_response = projr (ProjectStream empty_objects turn_events ContextCanceled turn_binding)"

definition turn_commit :: "unit Commit" where
  "turn_commit = handoff_commit turn_env (turn_call ''ws'') turn_response turn_response"

definition turn_store :: "unit memoryStore" where
  "turn_store = fst (store_Put plain_platform (6, 6, 6) ''ws'' turn_commit second_store)"

lemma turn_put: "snd (store_Put plain_platform (6, 6, 6) ''ws'' turn_commit second_store) = Inr ()"
  by code_simp

lemma turn_store_run: "store_run plain_platform visible 1 turn_store {(''ws'', second_get)}"
proof (rule store_run.committed [OF second_run, where ws = "''ws''" and commit = turn_commit])
  show "store_Put plain_platform (6, 6, 6) ''ws'' turn_commit second_store = (turn_store, Inr ())"
    using turn_put by (simp add: turn_store_def prod_eq_iff)
  have "cm_Reuse turn_commit = ReuseCheckpoint second_get"
    "take (length (checkpoint_history second_get)) (RetainedHistory (rq_items (cp_Request (cm_Checkpoint turn_commit)))) =
     checkpoint_history second_get" by code_simp+
  then show "legitimate visible {(''ws'', second_get)} w (cm_Reuse turn_commit)
      (RetainedHistory (rq_items (cp_Request (cm_Checkpoint turn_commit))))" if "normalizeWorkspace ''ws'' = Inr w" for w
    using that by (auto simp: legitimate_def ws_normal)
qed

definition turn_trace :: "unit pulls" where
  "turn_trace = fst (the (gate_drain 5 turn_env list_reader (turn_gate ''ws'') second_store))"

lemma turn_trace:
  "map ev_Kind (delivered turn_trace) =
     [EventEnvelopeStart, EventResponseIdentity, EventUsage, EventFinish, EventEnvelopeEnd]"
  "response_completed (last (delivered turn_trace))"
  "map fst turn_trace = [second_store, second_store, second_store, second_store, turn_store]"
  "gate_drain 5 turn_env list_reader (turn_gate ''ws'') second_store \<noteq> None"
  by code_simp+

lemma turn_run: "\<exists>g. gate_run turn_env list_reader (turn_gate ''ws'') turn_trace g"
proof -
  obtain trace g where "gate_drain 5 turn_env list_reader (turn_gate ''ws'') second_store = Some (trace, g)"
    using turn_trace(4) by auto
  moreover from this have "trace = turn_trace" by (simp add: turn_trace_def)
  ultimately show ?thesis using gate_drain_run by blast
qed

lemma turn_fields:
  "ce_platform turn_env = plain_platform" "ce_moments turn_env = (6, 6, 6)" "hc_workspaceSlug (turn_call ws) = ws"
  by (simp_all add: turn_env_def turn_call_def)

lemma turn_last: "last (delivered turn_trace) \<in> set (delivered turn_trace)"
  using turn_trace(1) by (metis last_in_set list.map_disc_iff list.distinct(1))

theorem success_committed_witness:
  "\<exists>s r s' client response. (s, r, s') \<in> set turn_trace \<and>
     store_Put plain_platform (6, 6, 6) ''ws'' (handoff_commit turn_env (turn_call ''ws'') client response) s = (s', Inr ()) \<and>
     finalizeContinuationResponse client turn_binding None = Inr response"
proof -
  obtain g where "gate_run turn_env list_reader (turn_gate ''ws'') turn_trace g" using turn_run by blast
  then have "gate_run turn_env list_reader (handoffResponseStream (ce_platform turn_env) (turn_call ''ws'') turn_events turn_binding None) turn_trace g"
    by (simp add: turn_gate_def turn_env_def)
  from success_committed [OF this turn_last turn_trace(2)] obtain before s r s' after client response where
    t: "turn_trace = before @ (s, r, s') # after" and
    c: "store_Put (ce_platform turn_env) (ce_moments turn_env) (hc_workspaceSlug (turn_call ''ws''))
      (handoff_commit turn_env (turn_call ''ws'') client response) s = (s', Inr ())"
    "finalizeContinuationResponse client turn_binding None = Inr response" by blast
  have "(s, r, s') \<in> set turn_trace" unfolding t by simp
  with c show ?thesis unfolding turn_fields by blast
qed

theorem resumed_turn_loads_witness:
  "\<exists>s' client response s'' c' fin before rest. s' \<in> snd ` snd ` set turn_trace \<and>
    delivered turn_trace = before @ fin # rest \<and> response_completed fin \<and>
    ProjectStream (ce_json turn_env) (before @ [fin]) ContextCanceled turn_binding = Inr client \<and>
    finalizeContinuationResponse client turn_binding None = Inr response \<and>
    store_Get plain_platform 7 ''ws'' (rr_SwobuID (cr_response response)) s' = (s'', Inr (Some c')) \<and>
    checkpoint_history c' = [user_says ''hello'', user_says ''answer'', user_says ''again''] @ cr_items response"
proof -
  obtain g where "gate_run turn_env list_reader (turn_gate ''ws'') turn_trace g" using turn_run by blast
  then have run: "gate_run turn_env list_reader
      (handoffResponseStream (ce_platform turn_env) (turn_call ''ws'') turn_events turn_binding None) turn_trace g"
    by (simp add: turn_gate_def turn_env_def)
  have "fst ` set turn_trace = {second_store, turn_store}" using turn_trace(3) by (metis list.set(1,2) list.set_map insert_absorb2)
  then have stores: "\<forall>s \<in> fst ` set turn_trace. \<exists>D. store_run (ce_platform turn_env) visible 1 s D \<and> (''ws'', second_get) \<in> D" for visible
    using second_run turn_store_run by (auto simp: turn_env_def)
  have resumed: "Resume (ce_platform turn_env) empty_objects turn_request second_get = Inr turn_resumed"
    "RetainedHistory (cr_items (cp_Response second_get)) = cr_items (cp_Response second_get)"
    "checkpoint_history second_get @ RetainedHistory (rq_items turn_request) =
       [user_says ''hello'', user_says ''answer'', user_says ''again'']"
    using turn_resumed by (simp add: turn_env_def) code_simp+
  have call: "hc_fullRequest (turn_call ''ws'') = rs_request turn_resumed"
    "hc_storageReuse (turn_call ''ws'') = ReuseCheckpoint second_get"
    "normalizeWorkspace (hc_workspaceSlug (turn_call ''ws'')) = Inr ''ws''" "7 < fst (ce_moments turn_env) + defaultCheckpointTTL"
    by (simp_all add: turn_call_def ws_normal turn_env_def defaultCheckpointTTL_def)
  from resumed_turn_loads [OF run turn_last turn_trace(2) resumed(1,2) call(1-3) stores call(4), where last' = ContextCanceled]
  show ?thesis unfolding append_assoc [symmetric] resumed(3) turn_fields .
qed

definition refused_state :: "(Event list, unit) checkpointTerminalGate" where
  "refused_state = snd (the (gate_drain 6 turn_env list_reader (turn_gate '' '') second_store))"

lemma refused_drain:
  "gate_drain 6 turn_env list_reader (turn_gate '' '') second_store \<noteq> None"
  "kc_err (gt_committer refused_state) \<noteq> None" "gt_pending refused_state = []"
  by code_simp+

theorem refused_commit_reported_witness:
  "\<exists>e. gate_Next turn_env list_reader refused_state second_store = Some
     (pulled_error (checkpointCommitError (Errorw ''checkpoint store failed: %w'' [] e)), refused_state, second_store)"
proof -
  obtain trace g where d: "gate_drain 6 turn_env list_reader (turn_gate '' '') second_store = Some (trace, g)"
    using refused_drain(1) by auto
  then have g: "g = refused_state" by (simp add: refused_state_def)
  have "gate_run turn_env list_reader
      (handoffResponseStream (ce_platform turn_env) (turn_call '' '') turn_events turn_binding None) trace refused_state"
    using gate_drain_run [OF d] g by (simp add: turn_gate_def turn_env_def)
  from refused_commit_reported [OF this refused_drain(2), of second_store] refused_drain(3) show ?thesis by blast
qed

text \<open>A provider that opens a response and stops, behind the gate.\<close>

definition stopped_gate :: "(nat terminalResponseStream, unit) checkpointTerminalGate" where
  "stopped_gate = handoffResponseStream plain_platform (turn_call ''ws'') (newTerminalResponseStream 0) turn_binding None"

definition stopped_pulls :: "unit pulls \<times> (nat terminalResponseStream, unit) checkpointTerminalGate" where
  "stopped_pulls = the (gate_drain 3 turn_env (terminal_Next stopping_provider) stopped_gate second_store)"

lemma stopped_drain:
  "gate_drain 3 turn_env (terminal_Next stopping_provider) stopped_gate second_store \<noteq> None"
  "list_ex opens_response (delivered (fst stopped_pulls))" "\<not> pull_failed (fst stopped_pulls)"
  "map_option fst (gate_Next turn_env (terminal_Next stopping_provider) (snd stopped_pulls) second_store) =
     Some pulled_EOF"
  by code_simp+

theorem response_ends_truthfully_witness:
  "length (fst stopped_pulls) = 3 \<and> ends_response (last (delivered (fst stopped_pulls))) \<and>
   map_option fst (gate_Next turn_env (terminal_Next stopping_provider) (snd stopped_pulls) second_store) =
     Some pulled_EOF"
proof -
  have "gate_drain 3 turn_env (terminal_Next stopping_provider) stopped_gate second_store =
      Some (fst stopped_pulls, snd stopped_pulls)"
    using stopped_drain(1) by (simp add: stopped_pulls_def)
  then have run: "gate_run turn_env (terminal_Next stopping_provider)
      (handoffResponseStream plain_platform (turn_call ''ws'') (newTerminalResponseStream 0) turn_binding None)
      (fst stopped_pulls) (snd stopped_pulls)"
    unfolding stopped_gate_def by (rule gate_drain_run)
  have "length (fst stopped_pulls) = 3" by code_simp
  then show ?thesis
    using response_ends_truthfully [OF run, of second_store] stopped_drain(2-)
    by (auto split: option.splits prod.splits pulled.splits)
qed

end
