(* ===== verification/Canonical_Transform.thy ===== *)
theory Canonical_Transform
  imports Canonical_Request
begin

text \<open>
  The tools in force at the end of a request and the structural transformation of the
  declarations of a request (\<^verbatim>\<open>EffectiveTools\<close> and \<^verbatim>\<open>TransformToolContributions\<close> of
  \<^verbatim>\<open>src/internal/domain/canonical/context.go\<close>). A nil transformation is \<open>None\<close>.
\<close>

definition EffectiveTools :: "'c CanonicalRequest \<Rightarrow> go_error + ToolEnvironment" where
  "EffectiveTools request = ToolEnvironmentAt (rq_items request) (int (length (rq_items request)))"

definition transform_item ::
    "(ToolSet \<Rightarrow> go_error + ToolSet) \<Rightarrow> CanonicalItem \<Rightarrow> go_error + CanonicalItem" where
  "transform_item transform item =
     (case item of
        declarations_item occurrence \<Rightarrow>
          and_then (transform (di_tools occurrence)) (\<lambda>tools.
            and_then (retainToolVisibilityRefinements tools (di_visibility occurrence)) (\<lambda>visibility.
              NewToolDeclarationsItemWithVisibility tools (di_scope occurrence) visibility))
      | discovery_result_item result \<Rightarrow>
          and_then (transform (td_tools result)) (\<lambda>tools.
            and_then (WithTools result tools) (\<lambda>transformed.
              Inr (discovery_result_item transformed)))
      | _ \<Rightarrow> Inr item)"

definition TransformToolContributions ::
    "platform \<Rightarrow> 'c CanonicalRequest \<Rightarrow> (ToolSet \<Rightarrow> go_error + ToolSet) option \<Rightarrow>
     go_error + 'c CanonicalRequest" where
  "TransformToolContributions p request transform =
     (case transform of
        None \<Rightarrow> Inl (Errorf ''canonical tool contribution transform is nil'' [])
      | Some transform \<Rightarrow>
          and_then (map_result (transform_item transform) (rq_items request)) (\<lambda>items.
            Inr (WithItems p request items)))"

section \<open>What a transformation changes\<close>

text \<open>The declarations an item contributes, unless it reports a failed discovery.\<close>

definition carries_tools :: "CanonicalItem \<Rightarrow> ToolSet option" where
  "carries_tools item =
     (case item of
        declarations_item d \<Rightarrow> Some (di_tools d)
      | discovery_result_item r \<Rightarrow> if td_failure r = None then Some (td_tools r) else None
      | _ \<Rightarrow> None)"

lemma WithTools_tools:
  assumes "WithTools r tools = Inr r'"
  shows "if td_failure r = None then td_tools r' = tools \<and> td_failure r' = None else r' = r"
  using assms
  by (auto simp: WithTools_def NewToolDiscoveryResultItemWithVisibilityWireID_def result_simps
      split: if_splits)

lemma transform_item_carries:
  assumes "transform_item f item = Inr item'"
  shows "(case carries_tools item of
      None \<Rightarrow> carries_tools item' = None \<and> item' = item
    | Some tools \<Rightarrow> \<exists>tools'. f tools = Inr tools' \<and> carries_tools item' = Some tools')"
  using assms
  by (cases item)
    (auto simp: transform_item_def carries_tools_def result_simps
      NewToolDeclarationsItemWithVisibility_def dest!: WithTools_tools split: if_splits)

text \<open>The transformation goes item by item and leaves everything else of the request alone.\<close>

lemma TransformToolContributions_items:
  assumes "TransformToolContributions p request (Some f) = Inr request'"
  shows "list_all2 (\<lambda>i i'. transform_item f i = Inr i') (rq_items request) (rq_items request')"
    and "request' = WithItems p request (rq_items request')"
  using assms
  by (auto simp: TransformToolContributions_def result_simps map_result_ok WithItems_def
      NewCanonicalRequest_def)

end
