(* ===== verification/Tool_Names.thy ===== *)
theory Tool_Names
  imports Canonical_Transform Compat
begin

text \<open>
  Tool labels of one provider attempt: the flat spelling grammar
  (\<^verbatim>\<open>src/internal/wire/toolname/name.go\<close>) and the two-way dictionary between canonical tool keys
  and provider labels (\<^verbatim>\<open>src/internal/provider/tool_names.go\<close>). SHA-256 is the parameter \<open>hash\<close>;
  base-32 is spelled out. What is proved: every label is one a provider accepts, the two
  directions of the dictionary are inverse, a name that can be kept is kept, and only a collision
  of the truncated digests makes the allocation fail.
\<close>

section \<open>The spelling grammar\<close>

definition MaxLength :: nat where "MaxLength = 63"
definition GeneratedPrefix :: string where "GeneratedPrefix = ''s__''"
definition generatedHashLength :: nat where "generatedHashLength = 16"

definition Safe :: "string \<Rightarrow> bool" where
  "Safe name \<longleftrightarrow> \<not> (name = [] \<or> length name > MaxLength) \<and> list_all name_char name"

definition PreservableLiteral :: "string \<Rightarrow> bool" where
  "PreservableLiteral name \<longleftrightarrow> Safe name \<and> \<not> HasPrefix name GeneratedPrefix"

text \<open>Base-32 without padding: groups of five bits, the last one filled up with zeros.\<close>

definition base32_alphabet :: string where
  "base32_alphabet = ''ABCDEFGHIJKLMNOPQRSTUVWXYZ234567''"

definition char_bits :: "char \<Rightarrow> bool list" where
  "char_bits c = [digit7 c, digit6 c, digit5 c, digit4 c, digit3 c, digit2 c, digit1 c, digit0 c]"

definition base32_symbol :: "bool list \<Rightarrow> char" where
  "base32_symbol bs = base32_alphabet ! (foldl (\<lambda>n b. 2 * n + of_bool b) 0 bs)"

fun base32_groups :: "bool list \<Rightarrow> string" where
  "base32_groups (a # b # c # d # e # bs) = base32_symbol [a, b, c, d, e] # base32_groups bs"
| "base32_groups [] = []"
| "base32_groups bs = [base32_symbol (take 5 (bs @ replicate 5 False))]"

definition EncodeToString :: "string \<Rightarrow> string" where
  "EncodeToString s = base32_groups (concat (map char_bits s))"

definition toolname_normalize :: "string \<Rightarrow> string" where
  "toolname_normalize value =
     (let out = map (\<lambda>c. if name_char c then c else CHR ''_'') value
      in if out = [] then ''tool'' else out)"

text \<open>The collision guard of an identity. Base-32 symbols are ASCII, so lower-casing is bytewise.\<close>

definition identity_hash :: "(string \<Rightarrow> string) \<Rightarrow> string \<Rightarrow> string" where
  "identity_hash hash identity =
     take generatedHashLength
       (map ascii_lower (EncodeToString (hash (''swobu-tool-wire-v1'' @ [CHR 0x00] @ identity))))"

definition Generated :: "(string \<Rightarrow> string) \<Rightarrow> string \<Rightarrow> string list \<Rightarrow> string \<Rightarrow> string" where
  "Generated hash identity scope leaf =
     (let parts = filter (\<lambda>part. part \<noteq> []) (map toolname_normalize (scope @ [leaf]));
          readable = JoinWith parts ''__'';
          readable = (if readable = [] then ''tool'' else readable);
          h = identity_hash hash identity;
          limit = MaxLength - length GeneratedPrefix - 2 - length h;
          readable = (if length readable > limit then take limit readable else readable)
      in GeneratedPrefix @ readable @ ''__'' @ h)"

section \<open>The dictionary of an attempt\<close>

record AttemptToolNames =
  byCanonical :: "(ToolKey \<times> string) list"
  byWire :: "(string \<times> ToolKey) list"

definition zeroNames :: AttemptToolNames where
  "zeroNames = \<lparr>byCanonical = [], byWire = []\<rparr>"

definition appendUniqueToolKey :: "ToolKey list \<Rightarrow> ToolKey \<Rightarrow> ToolKey list" where
  "appendUniqueToolKey keys key = (if key \<in> set keys then keys else keys @ [key])"

text \<open>The allocated keys in order, and the set of the declared ones.\<close>

fun appendAttemptDeclarationKeys ::
    "ToolDeclaration \<Rightarrow> ToolKey list \<times> ToolKey list \<Rightarrow> ToolKey list \<times> ToolKey list"
  and append_children ::
    "ToolDeclaration list \<Rightarrow> ToolKey list \<times> ToolKey list \<Rightarrow> ToolKey list \<times> ToolKey list" where
  "appendAttemptDeclarationKeys (function_tool k d s c) (keys, declared) =
     (appendUniqueToolKey keys k, List.insert k declared)"
| "appendAttemptDeclarationKeys (custom_tool k d f) (keys, declared) =
     (appendUniqueToolKey keys k, List.insert k declared)"
| "appendAttemptDeclarationKeys (discovery_tool d s executor q) (keys, declared) =
     (if executor = DiscoveryExecutorClient
      then (appendUniqueToolKey keys ToolDiscoveryKey, List.insert ToolDiscoveryKey declared)
      else (keys, declared))"
| "appendAttemptDeclarationKeys (namespace_tool k d ts) st = append_children ts st"
| "appendAttemptDeclarationKeys (mcp_tool k d s ts) st = st"
| "appendAttemptDeclarationKeys (web_search_tool w) st = st"
| "appendAttemptDeclarationKeys zeroDeclaration st = st"
| "append_children [] st = st"
| "append_children (t # ts) st = append_children ts (appendAttemptDeclarationKeys t st)"

definition attemptCallable :: "ToolCallItem \<Rightarrow> bool" where
  "attemptCallable call \<longleftrightarrow>
     tk_kind (tc_tool call) = ToolKindFunction \<or> tk_kind (tc_tool call) = ToolKindCustom \<or>
     call_DiscoveryExecutor call = Some DiscoveryExecutorClient"

fun append_calls :: "CanonicalItem list \<Rightarrow> ToolKey list \<Rightarrow> ToolKey list" where
  "append_calls [] keys = keys"
| "append_calls (item # items) keys =
     (case item of
        tool_call_item call \<Rightarrow>
          append_calls items
            (if attemptCallable call then appendUniqueToolKey keys (tc_tool call) else keys)
      | _ \<Rightarrow> append_calls items keys)"

definition readableScope :: "string \<Rightarrow> string list" where
  "readableScope namespace =
     (let parts = dropWhile (\<lambda>p. p = ''request'') (Split (Trim namespace CHR ''/'') CHR ''/'')
      in if length parts > 2 then drop (length parts - 2) parts else parts)"

definition generated_name :: "(string \<Rightarrow> string) \<Rightarrow> ToolKey \<Rightarrow> string" where
  "generated_name hash key =
     Generated hash (key_String key) (readableScope (tk_namespace key)) (tk_name key)"

definition base_name :: "(string \<Rightarrow> string) \<Rightarrow> ToolKey \<Rightarrow> string" where
  "base_name hash key =
     (if tk_namespace key \<noteq> ''request'' \<or> \<not> PreservableLiteral (tk_name key)
      then generated_name hash key else tk_name key)"

definition wire_label :: "(string \<Rightarrow> string) \<Rightarrow> ToolKey list \<Rightarrow> ToolKey \<Rightarrow> string" where
  "wire_label hash keys key =
     (if count_list (map (base_name hash) keys) (base_name hash key) > 1
      then generated_name hash key else base_name hash key)"

definition tool_occurrence :: "ToolKey \<Rightarrow> string" where
  "tool_occurrence key = ''tool:'' @ key_String key"

definition collision :: go_error where
  "collision = canonical_Error ErrorCodeInternal ''attempt tool wire-name collision''"

fun allocate_names ::
    "(ToolKey \<Rightarrow> string) \<Rightarrow> ToolKey list \<Rightarrow> ToolKey list \<Rightarrow>
     AttemptToolNames \<times> (string \<times> ToolKey) list \<times> Change list \<Rightarrow>
     go_error + AttemptToolNames \<times> Change list" where
  "allocate_names label declared [] (names, used, changes) = Inr (names, changes)"
| "allocate_names label declared (key # keys) (names, used, changes) =
     (let wireName = label key
      in if (case map_of used wireName of None \<Rightarrow> False | Some prior \<Rightarrow> prior \<noteq> key)
         then Inl collision
         else if (case map_of (byWire names) wireName of None \<Rightarrow> False | Some prior \<Rightarrow> prior \<noteq> key)
         then Inl collision
         else allocate_names label declared keys
           (names\<lparr>byCanonical := AList.update key wireName (byCanonical names),
              byWire := AList.update wireName key (byWire names)\<rparr>,
            AList.update wireName key used,
            (if key \<in> set declared \<and> wireName \<noteq> tk_name key
             then changes @ [\<lparr>cg_Capability = ''request.tools.name'',
               cg_Occurrence = tool_occurrence key, cg_Kind = Approximation\<rparr>]
             else changes)))"

definition attempt_keys ::
    "ToolEnvironment \<Rightarrow> CanonicalItem list \<Rightarrow> ToolKey list \<times> ToolKey list" where
  "attempt_keys environment items =
     (let (keys, declared) =
            fold appendAttemptDeclarationKeys (set_ordered (env_declarations environment)) ([], [])
      in (append_calls items keys, declared))"

definition BuildAttemptToolNames ::
    "(string \<Rightarrow> string) \<Rightarrow> 'c CanonicalRequest \<Rightarrow> go_error + AttemptToolNames \<times> Change list" where
  "BuildAttemptToolNames hash semantic =
     and_then (EffectiveTools semantic) (\<lambda>environment.
       let (keys, declared) = attempt_keys environment (rq_items semantic)
       in allocate_names (wire_label hash keys) declared keys (zeroNames, [], []))"

definition WireName :: "AttemptToolNames \<Rightarrow> ToolKey \<Rightarrow> go_error + string" where
  "WireName n key =
     (case map_of (byCanonical n) key of
        None \<Rightarrow> Inl (Errorf ''attempt tool names have no canonical key %q'' [key_String key])
      | Some name \<Rightarrow> Inr name)"

definition CanonicalKey :: "AttemptToolNames \<Rightarrow> string \<Rightarrow> ToolKey option" where
  "CanonicalKey n wireName = map_of (byWire n) wireName"

section \<open>Labels are valid\<close>

lemma name_char_norm: "list_all name_char (toolname_normalize s)"
  by (auto simp: toolname_normalize_def Let_def list_all_iff name_char_def alnum_def
      lower_letters_def)

lemma toolname_normalize_nonempty [simp]: "toolname_normalize s \<noteq> []"
  by (simp add: toolname_normalize_def Let_def)

lemma JoinWith_all:
  "list_all P sep \<Longrightarrow> list_all (list_all P) ws \<Longrightarrow> list_all P (JoinWith ws sep)"
  by (induction ws sep rule: JoinWith.induct) auto

lemma base32_groups_length: "5 * length (base32_groups bs) \<ge> length bs"
  by (induction bs rule: base32_groups.induct) auto

lemma base32_symbol_in: "length bs = 5 \<Longrightarrow> base32_symbol bs \<in> set base32_alphabet"
proof -
  assume "length bs = 5"
  then obtain a b c d e where "bs = [a, b, c, d, e]"
    by (auto simp: length_Suc_conv numeral_eq_Suc)
  then show ?thesis
    by (cases a; cases b; cases c; cases d; cases e)
      (simp_all add: base32_symbol_def base32_alphabet_def numeral_eq_Suc)
qed

lemma base32_groups_alphabet: "set (base32_groups bs) \<subseteq> set base32_alphabet"
  by (induction bs rule: base32_groups.induct) (auto intro!: base32_symbol_in)

lemma base32_name_char: "c \<in> set base32_alphabet \<Longrightarrow> name_char (ascii_lower c)"
  by (auto simp: base32_alphabet_def ascii_lower_def name_char_def alnum_def lower_letters_def
      upper_letters_def digits_def)

lemma char_bits_length: "length (concat (map char_bits s)) = 8 * length s"
  by (induction s) (auto simp: char_bits_def)

text \<open>A digest has 32 bytes, which is more than the sixteen symbols of the guard.\<close>

definition digest32 :: "(string \<Rightarrow> string) \<Rightarrow> bool" where
  "digest32 hash \<longleftrightarrow> (\<forall>s. length (hash s) = 32)"

lemma identity_hash_props:
  assumes "digest32 hash"
  shows "length (identity_hash hash i) = generatedHashLength"
    and "list_all name_char (identity_hash hash i)"
proof -
  let ?e = "EncodeToString (hash (''swobu-tool-wire-v1'' @ [CHR 0x00] @ i))"
  have "5 * length ?e \<ge> 256"
    using base32_groups_length [of "concat (map char_bits (hash (''swobu-tool-wire-v1'' @ [CHR 0x00] @ i)))"]
    using assms by (simp add: EncodeToString_def char_bits_length digest32_def)
  then show "length (identity_hash hash i) = generatedHashLength"
    by (simp add: identity_hash_def generatedHashLength_def)
  have "set ?e \<subseteq> set base32_alphabet"
    by (simp add: EncodeToString_def base32_groups_alphabet)
  then have "list_all name_char (map ascii_lower ?e)"
    by (auto simp: list_all_iff base32_name_char)
  then show "list_all name_char (identity_hash hash i)"
    unfolding identity_hash_def list_all_iff by (meson in_set_takeD)
qed

lemma Generated_shape:
  assumes "digest32 hash"
  obtains r where "Generated hash i scope leaf = GeneratedPrefix @ r @ ''__'' @ identity_hash hash i"
    and "list_all name_char r" and "length r \<le> 42"
proof -
  let ?parts = "filter (\<lambda>part. part \<noteq> []) (map toolname_normalize (scope @ [leaf]))"
  let ?j = "JoinWith ?parts ''__''"
  let ?r = "if ?j = [] then ''tool'' else ?j"
  have "list_all name_char ?j"
    by (rule JoinWith_all) (auto simp: name_char_norm list_all_iff [of "list_all name_char"] name_char_def [of "CHR ''_''"])
  then have "list_all name_char ?r"
    by (auto simp: name_char_def alnum_def lower_letters_def)
  then have "list_all name_char (take 42 ?r)"
    by (auto simp: list_all_iff dest: in_set_takeD)
  moreover have "Generated hash i scope leaf = GeneratedPrefix @ take 42 ?r @ ''__'' @ identity_hash hash i"
    using identity_hash_props(1) [OF assms, where i = i]
    by (simp add: Generated_def Let_def MaxLength_def GeneratedPrefix_def generatedHashLength_def)
  ultimately show thesis using that [of "take 42 ?r"] by simp
qed

lemma Generated_Safe:
  assumes "digest32 hash"
  shows "Safe (Generated hash i scope leaf)"
    and "HasPrefix (Generated hash i scope leaf) GeneratedPrefix"
proof -
  obtain r where "Generated hash i scope leaf = GeneratedPrefix @ r @ ''__'' @ identity_hash hash i"
    and "list_all name_char r" and "length r \<le> 42"
    using Generated_shape [OF assms] .
  then show "Safe (Generated hash i scope leaf)"
    and "HasPrefix (Generated hash i scope leaf) GeneratedPrefix"
    using identity_hash_props [OF assms, where i = i]
    by (auto simp: Safe_def MaxLength_def GeneratedPrefix_def generatedHashLength_def name_char_def
        alnum_def lower_letters_def)
qed

lemma Generated_identity:
  assumes "digest32 hash"
    and "Generated hash i scope leaf = Generated hash i' scope' leaf'"
  shows "identity_hash hash i = identity_hash hash i'"
proof -
  obtain r where "Generated hash i scope leaf = GeneratedPrefix @ r @ ''__'' @ identity_hash hash i"
    using Generated_shape [OF assms(1)] .
  moreover obtain r' where
    "Generated hash i' scope' leaf' = GeneratedPrefix @ r' @ ''__'' @ identity_hash hash i'"
    using Generated_shape [OF assms(1)] .
  ultimately have "(GeneratedPrefix @ r @ ''__'') @ identity_hash hash i =
      (GeneratedPrefix @ r' @ ''__'') @ identity_hash hash i'"
    using assms(2) by simp
  then show ?thesis
    using identity_hash_props(1) [OF assms(1), where i = i]
      identity_hash_props(1) [OF assms(1), where i = i']
    by (metis append_eq_append_conv)
qed

lemma base_name_literal:
  assumes "digest32 hash" and "\<not> HasPrefix w GeneratedPrefix" and "base_name hash k = w"
  shows "tk_namespace k = ''request'' \<and> tk_name k = w"
  using assms(2,3) Generated_Safe(2) [OF assms(1)]
  by (auto simp: base_name_def generated_name_def split: if_splits)

lemma wire_label_Safe:
  assumes "digest32 hash"
  shows "Safe (wire_label hash keys k)"
  using Generated_Safe(1) [OF assms]
  by (auto simp: wire_label_def base_name_def generated_name_def PreservableLiteral_def)

lemma count_two: "x \<in> set xs \<Longrightarrow> y \<in> set xs \<Longrightarrow> x \<noteq> y \<Longrightarrow> f x = f y \<Longrightarrow> count_list (map f xs) (f x) > 1"
proof -
  assume a: "x \<in> set xs" "y \<in> set xs" "x \<noteq> y" "f x = f y"
  then obtain i j where ij: "i < length xs" "j < length xs" "xs ! i = x" "xs ! j = y" "i \<noteq> j"
    by (metis in_set_conv_nth)
  have "{i, j} \<subseteq> {n. n < length (map f xs) \<and> map f xs ! n = f x}" using a ij by auto
  moreover have "finite {n. n < length (map f xs) \<and> map f xs ! n = f x}" by simp
  ultimately have "card {i, j} \<le> card {n. n < length (map f xs) \<and> map f xs ! n = f x}"
    by (rule card_mono [rotated])
  then show ?thesis
    using ij by (simp add: count_list_eq_length_filter length_filter_conv_card eq_commute)
qed

text \<open>Two keys get the same label only if their digests collide.\<close>

lemma wire_label_inj:
  assumes "digest32 hash" and "inj_on (\<lambda>k. identity_hash hash (key_String k)) (set keys)"
  shows "inj_on (wire_label hash keys) (set keys)"
proof (rule inj_onI, rule ccontr)
  fix k k' assume a: "k \<in> set keys" "k' \<in> set keys" "wire_label hash keys k = wire_label hash keys k'"
    and ne: "k \<noteq> k'"
  then have diff: "generated_name hash k \<noteq> generated_name hash k'"
    using Generated_identity [OF assms(1)] assms(2) unfolding generated_name_def by (metis inj_onD)
  have both: "\<not> (base_name hash k = base_name hash k')"
    using a diff ne count_two [of k keys k' "base_name hash"] by (auto simp: wire_label_def)
  have lit: "base_name hash x = generated_name hash x \<or> \<not> HasPrefix (base_name hash x) GeneratedPrefix"
    for x by (auto simp: base_name_def PreservableLiteral_def)
  have gen: "HasPrefix (generated_name hash x) GeneratedPrefix" for x
    unfolding generated_name_def by (rule Generated_Safe(2) [OF assms(1)])
  have either: "wire_label hash keys x = generated_name hash x \<or>
      wire_label hash keys x = base_name hash x \<and> \<not> HasPrefix (wire_label hash keys x) GeneratedPrefix"
    for x using lit [of x] by (simp add: wire_label_def)
  show False
    using either [of k]
  proof
    assume g: "wire_label hash keys k = generated_name hash k"
    then have "wire_label hash keys k' = generated_name hash k'"
      using either [of k'] a(3) gen [of k] by simp
    then show False using g a(3) diff by simp
  next
    assume b: "wire_label hash keys k = base_name hash k \<and>
      \<not> HasPrefix (wire_label hash keys k) GeneratedPrefix"
    then have "wire_label hash keys k' = base_name hash k'"
      using either [of k'] a(3) gen [of k'] by auto
    then show False using b a(3) both by simp
  qed
qed

section \<open>The dictionary\<close>

text \<open>The keys a provider attempt must be able to name.\<close>

fun label_keys :: "ToolDeclaration \<Rightarrow> ToolKey list" where
  "label_keys (function_tool k d s c) = [k]"
| "label_keys (custom_tool k d f) = [k]"
| "label_keys (discovery_tool d s executor q) =
     (if executor = DiscoveryExecutorClient then [ToolDiscoveryKey] else [])"
| "label_keys (namespace_tool k d ts) = concat (map label_keys ts)"
| "label_keys _ = []"

definition called_keys :: "CanonicalItem list \<Rightarrow> ToolKey set" where
  "called_keys items = {tc_tool c | c. tool_call_item c \<in> set items \<and> attemptCallable c}"

lemma append_declaration_keys:
  "appendAttemptDeclarationKeys d (keys, declared) = (keys', declared') \<Longrightarrow>
     set keys' = set keys \<union> set (label_keys d) \<and> set declared' = set declared \<union> set (label_keys d) \<and>
     (distinct keys \<longrightarrow> distinct keys')"
  "append_children ds (keys, declared) = (keys', declared') \<Longrightarrow>
     set keys' = set keys \<union> (\<Union>d \<in> set ds. set (label_keys d)) \<and>
     set declared' = set declared \<union> (\<Union>d \<in> set ds. set (label_keys d)) \<and>
     (distinct keys \<longrightarrow> distinct keys')"
proof (induction d "(keys, declared)" and ds "(keys, declared)" arbitrary: keys declared keys' declared'
    and keys declared keys' declared' rule: appendAttemptDeclarationKeys_append_children.induct)
  case (9 t ts keys declared)
  obtain k2 d2 where "appendAttemptDeclarationKeys t (keys, declared) = (k2, d2)" by fastforce
  with 9 show ?case by fastforce
qed (auto simp: appendUniqueToolKey_def split: if_splits)

lemma fold_declaration_keys:
  "fold appendAttemptDeclarationKeys ds st = append_children ds st"
  by (induction ds arbitrary: st) auto

lemma append_calls_keys:
  "set (append_calls items keys) = set keys \<union> called_keys items"
  "distinct keys \<Longrightarrow> distinct (append_calls items keys)"
  by (induction items arbitrary: keys)
    (auto simp: called_keys_def appendUniqueToolKey_def split: CanonicalItem.splits)

lemma attempt_keys_spec:
  assumes "attempt_keys environment items = (keys, declared)"
  shows "set declared = (\<Union>d \<in> set (set_ordered (env_declarations environment)). set (label_keys d))"
    and "set keys = set declared \<union> called_keys items" and "distinct keys"
proof -
  obtain k2 d2 where a: "append_children (set_ordered (env_declarations environment)) ([], []) = (k2, d2)"
    by fastforce
  with assms have "keys = append_calls items k2" "declared = d2"
    by (auto simp: attempt_keys_def fold_declaration_keys)
  then show "set declared = (\<Union>d \<in> set (set_ordered (env_declarations environment)). set (label_keys d))"
    and "set keys = set declared \<union> called_keys items" and "distinct keys"
    using append_declaration_keys(2) [OF a] by (auto simp: append_calls_keys)
qed

definition inverse_names :: "AttemptToolNames \<Rightarrow> bool" where
  "inverse_names n \<longleftrightarrow>
     (\<forall>k w. map_of (byCanonical n) k = Some w \<longleftrightarrow> map_of (byWire n) w = Some k)"

definition renamed :: "(ToolKey \<Rightarrow> string) \<Rightarrow> ToolKey list \<Rightarrow> ToolKey list \<Rightarrow> Change list" where
  "renamed label declared keys =
     map (\<lambda>k. \<lparr>cg_Capability = ''request.tools.name'', cg_Occurrence = tool_occurrence k,
         cg_Kind = Approximation\<rparr>)
       (filter (\<lambda>k. k \<in> set declared \<and> label k \<noteq> tk_name k) keys)"

lemma inverse_update:
  assumes "\<forall>k w. c k = Some w \<longleftrightarrow> v w = Some k" and "\<forall>k w. c k = Some w \<longrightarrow> w = label k"
    and "v (label key) \<in> {None, Some key}"
  shows "(c(key \<mapsto> label key)) k = Some w \<longleftrightarrow> (v(label key \<mapsto> key)) w = Some k"
  using assms by (auto simp: fun_upd_def)

lemma inverse_names_step:
  assumes "inverse_names names" and "\<forall>k w. map_of (byCanonical names) k = Some w \<longrightarrow> w = label k"
    and "map_of (byWire names) (label key) \<in> {None, Some key}"
  defines "n \<equiv> names\<lparr>byCanonical := AList.update key (label key) (byCanonical names),
      byWire := AList.update (label key) key (byWire names)\<rparr>"
  shows "inverse_names n" and "\<forall>k w. map_of (byCanonical n) k = Some w \<longrightarrow> w = label k"
  using assms inverse_update [where label = label and key = key and
      c = "map_of (byCanonical names)" and v = "map_of (byWire names)"]
  by (simp_all add: inverse_names_def update_conv')

lemma allocate_names_result:
  assumes "allocate_names label declared keys (names, used, changes) = Inr (names', changes')"
    and "inverse_names names" and "\<forall>k w. map_of (byCanonical names) k = Some w \<longrightarrow> w = label k"
  shows "(\<forall>k. map_of (byCanonical names') k =
      (if k \<in> set keys then Some (label k) else map_of (byCanonical names) k)) \<and>
    inverse_names names' \<and> changes' = changes @ renamed label declared keys"
  using assms
proof (induction keys arbitrary: names used changes)
  case Nil
  then show ?case by (simp add: renamed_def)
next
  case (Cons key keys)
  let ?n = "names\<lparr>byCanonical := AList.update key (label key) (byCanonical names),
      byWire := AList.update (label key) key (byWire names)\<rparr>"
  have "map_of (byWire names) (label key) \<in> {None, Some key}"
    using Cons.prems(1) by (auto simp: Let_def split: if_splits option.splits)
  note st = inverse_names_step [OF Cons.prems(2,3) this]
  have "allocate_names label declared keys (?n, AList.update (label key) key used,
      changes @ renamed label declared [key]) = Inr (names', changes')"
    using Cons.prems(1) unfolding allocate_names.simps Let_def renamed_def
    by (auto split: if_split_asm)
  from Cons.IH [OF this st] show ?case by (simp add: update_conv' renamed_def)
qed

lemma allocate_names_total:
  assumes "inj_on label (S \<union> set keys)"
    and "\<And>w k. map_of used w = Some k \<Longrightarrow> k \<in> S \<and> w = label k"
    and "\<And>w k. map_of (byWire names) w = Some k \<Longrightarrow> k \<in> S \<and> w = label k"
  shows "is_ok (allocate_names label declared keys (names, used, changes))"
  using assms
proof (induction keys arbitrary: names used changes S)
  case (Cons key keys)
  have clash: "prior = key" if "map_of m (label key) = Some prior"
    and "\<And>w k. map_of m w = Some k \<Longrightarrow> k \<in> S \<and> w = label k" for m :: "(string \<times> ToolKey) list" and prior
    using that Cons.prems(1) by (metis Un_iff inj_onD list.set_intros(1))
  have 1: "\<not> (case map_of used (label key) of None \<Rightarrow> False | Some prior \<Rightarrow> prior \<noteq> key)"
    using clash [of used] Cons.prems(2) by (auto split: option.split)
  have 2: "\<not> (case map_of (byWire names) (label key) of None \<Rightarrow> False | Some prior \<Rightarrow> prior \<noteq> key)"
    using clash [of "byWire names"] Cons.prems(3) by (auto split: option.split)
  show ?case
    unfolding allocate_names.simps Let_def if_not_P [OF 1] if_not_P [OF 2]
    using Cons.prems by (intro Cons.IH [where S = "insert key S"]) (auto simp: update_conv' split: if_splits)
qed simp

section \<open>What the dictionary promises\<close>

definition needed_keys :: "ToolEnvironment \<Rightarrow> CanonicalItem list \<Rightarrow> ToolKey set" where
  "needed_keys environment items =
     (\<Union>d \<in> set (set_ordered (env_declarations environment)). set (label_keys d)) \<union> called_keys items"

lemma BuildAttemptToolNames_parts:
  assumes "BuildAttemptToolNames hash semantic = Inr (names, changes)"
    and "EffectiveTools semantic = Inr environment"
  obtains keys declared where "attempt_keys environment (rq_items semantic) = (keys, declared)"
    and "set keys = needed_keys environment (rq_items semantic)" and "distinct keys"
    and "\<And>k. map_of (byCanonical names) k = (if k \<in> set keys then Some (wire_label hash keys k) else None)"
    and "inverse_names names" and "changes = renamed (wire_label hash keys) declared keys"
proof -
  obtain keys declared where k: "attempt_keys environment (rq_items semantic) = (keys, declared)"
    by fastforce
  then have run: "allocate_names (wire_label hash keys) declared keys (zeroNames, [], []) = Inr (names, changes)"
    using assms by (simp add: BuildAttemptToolNames_def)
  have zero: "inverse_names zeroNames" "\<forall>k w. map_of (byCanonical zeroNames) k = Some w \<longrightarrow> w = wire_label hash keys k"
    by (simp_all add: inverse_names_def zeroNames_def)
  show thesis
    using that [OF k] attempt_keys_spec [OF k] allocate_names_result [OF run zero]
    by (simp add: needed_keys_def zeroNames_def)
qed

lemma kept_literal:
  assumes "digest32 hash" and "k \<in> set keys" and "distinct keys"
    and "tk_namespace k = ''request''" and "PreservableLiteral (tk_name k)"
    and "\<And>k'. k' \<in> set keys \<Longrightarrow> tk_namespace k' = ''request'' \<Longrightarrow> tk_name k' = tk_name k \<Longrightarrow> k' = k"
  shows "wire_label hash keys k = tk_name k"
proof -
  have b: "base_name hash k = tk_name k" using assms(4,5) by (simp add: base_name_def)
  have "filter (\<lambda>k'. base_name hash k' = tk_name k) keys = filter (\<lambda>k'. k' = k) keys"
  proof (rule filter_cong [OF refl])
    fix k' assume k': "k' \<in> set keys"
    have "k' = k" if "base_name hash k' = tk_name k"
    proof -
      have "\<not> HasPrefix (tk_name k) GeneratedPrefix" using assms(5) by (simp add: PreservableLiteral_def)
      from base_name_literal [OF assms(1) this that] show ?thesis using assms(6) [OF k'] by blast
    qed
    then show "(base_name hash k' = tk_name k) = (k' = k)" using b by blast
  qed
  moreover have "length (filter (\<lambda>k'. k' = k) keys) \<le> 1"
    using distinct_length_filter [OF assms(3), of "\<lambda>k'. k' = k"]
      card_mono [of "{k}" "{x. x = k} \<inter> set keys"] by simp
  moreover have "count_list (map (base_name hash) keys) (tk_name k) =
      length (filter (\<lambda>k'. base_name hash k' = tk_name k) keys)"
    by (induction keys) auto
  ultimately have "count_list (map (base_name hash) keys) (tk_name k) \<le> 1" by simp
  then show ?thesis by (simp add: wire_label_def b)
qed

text \<open>
  C33: The label dictionary of a provider attempt. Exactly the callable tools get a label: the
  function, custom and client-executed discovery declarations in force, those inside namespaces
  included, and the tools of historical calls. Every label is one a provider accepts: non-empty, at
  most 63 bytes, letters, digits, underscore and hyphen. A label resolves to the tool that carries
  it, and to no other. A request-scoped tool whose own name is acceptable and unique keeps it.
\<close>

theorem tool_labels_sound:
  assumes "digest32 hash"
    and "EffectiveTools semantic = Inr environment"
    and "BuildAttemptToolNames hash semantic = Inr (names, changes)"
  shows "(\<forall>k. is_ok (WireName names k) \<longleftrightarrow> k \<in> needed_keys environment (rq_items semantic)) \<and>
    (\<forall>k w. WireName names k = Inr w \<longleftrightarrow> CanonicalKey names w = Some k) \<and>
    (\<forall>k w. WireName names k = Inr w \<longrightarrow> Safe w) \<and>
    (\<forall>k \<in> needed_keys environment (rq_items semantic).
      tk_namespace k = ''request'' \<and> PreservableLiteral (tk_name k) \<and>
      (\<forall>k' \<in> needed_keys environment (rq_items semantic).
        tk_namespace k' = ''request'' \<and> tk_name k' = tk_name k \<longrightarrow> k' = k) \<longrightarrow>
      WireName names k = Inr (tk_name k))"
proof -
  obtain keys declared where keys: "set keys = needed_keys environment (rq_items semantic)"
      "distinct keys"
    and lookup: "\<And>k. map_of (byCanonical names) k =
      (if k \<in> set keys then Some (wire_label hash keys k) else None)"
    and inv: "inverse_names names"
    using BuildAttemptToolNames_parts [OF assms(3,2)] by metis
  have wire: "WireName names k = Inr w \<longleftrightarrow> map_of (byCanonical names) k = Some w" for k w
    by (auto simp: WireName_def split: option.split)
  show ?thesis
  proof (intro conjI allI ballI impI)
    show "is_ok (WireName names k) \<longleftrightarrow> k \<in> needed_keys environment (rq_items semantic)" for k
      by (simp add: WireName_def lookup keys)
    show "WireName names k = Inr w \<longleftrightarrow> CanonicalKey names w = Some k" for k w
      using inv by (simp add: wire CanonicalKey_def inverse_names_def)
    show "WireName names k = Inr w \<Longrightarrow> Safe w" for k w
      using wire_label_Safe [OF assms(1), of keys k] by (auto simp: wire lookup split: if_splits)
    show "WireName names k = Inr (tk_name k)"
      if "k \<in> needed_keys environment (rq_items semantic)"
        and "tk_namespace k = ''request'' \<and> PreservableLiteral (tk_name k) \<and>
          (\<forall>k' \<in> needed_keys environment (rq_items semantic).
            tk_namespace k' = ''request'' \<and> tk_name k' = tk_name k \<longrightarrow> k' = k)" for k
      using that kept_literal [OF assms(1) _ keys(2)] by (simp add: wire lookup keys(1))
  qed
qed

text \<open>
  The allocation of labels fails only where the tool environment is ambiguous or the
  sixteen-symbol digests of two tool identities collide; a clash of readable names never makes it
  fail.
\<close>

theorem tool_labels_total:
  assumes "digest32 hash" and "EffectiveTools semantic = Inr environment"
    and "inj_on (\<lambda>k. identity_hash hash (key_String k)) (needed_keys environment (rq_items semantic))"
  shows "is_ok (BuildAttemptToolNames hash semantic)"
proof -
  obtain keys declared where k: "attempt_keys environment (rq_items semantic) = (keys, declared)"
    by fastforce
  have "set keys = needed_keys environment (rq_items semantic)"
    using attempt_keys_spec [OF k] by (simp add: needed_keys_def)
  then have "inj_on (wire_label hash keys) ({} \<union> set keys)"
    using wire_label_inj [OF assms(1), of keys] assms(3) by simp
  then have "is_ok (allocate_names (wire_label hash keys) declared keys (zeroNames, [], []))"
    by (rule allocate_names_total) (simp_all add: zeroNames_def)
  then show ?thesis using assms(2) k by (simp add: BuildAttemptToolNames_def)
qed

section \<open>A concrete attempt\<close>

text \<open>
  Four tools: one keeps its name, one has a name no provider accepts, and two of different kinds
  share a name. The digest of the sample is the reversed text, cut or filled up to 32 bytes.
\<close>

definition sample_hash :: "string \<Rightarrow> string" where
  "sample_hash s = take 32 (rev s @ replicate 32 CHR ''x'')"

definition sample_key :: "string \<Rightarrow> string \<Rightarrow> ToolKey" where
  "sample_key kind name = \<lparr>tk_namespace = ''request'', tk_kind = kind, tk_name = name\<rparr>"

definition sample_tools :: "ToolDeclaration list" where
  "sample_tools =
     [function_tool (sample_key ToolKindFunction ''get'') [] (Some ''{}'') \<lparr>sc_Profile = 1, sc_Conformance = 0\<rparr>,
      function_tool (sample_key ToolKindFunction ''a b'') [] (Some ''{}'') \<lparr>sc_Profile = 1, sc_Conformance = 0\<rparr>,
      function_tool (sample_key ToolKindFunction ''run'') [] (Some ''{}'') \<lparr>sc_Profile = 1, sc_Conformance = 0\<rparr>,
      custom_tool (sample_key ToolKindCustom ''run'') [] None]"

definition sample_request :: "unit CanonicalRequest" where
  "sample_request = \<lparr>rq_model = None,
     rq_items = [declarations_item \<lparr>di_tools = \<lparr>set_ordered = sample_tools, set_byKey = []\<rparr>,
       di_scope = ContextScopeRequest, di_visibility = []\<rparr>],
     rq_previousResponse = None, rq_toolPolicy = None, rq_toolBatch = None, rq_controls = (),
     rq_outputFormat = None, rq_store = None\<rparr>"

lemma label_sample_digest: "digest32 sample_hash"
  by (auto simp: digest32_def sample_hash_def min_def)

definition sample_needed :: "ToolKey set" where
  "sample_needed = {sample_key ToolKindFunction ''get'', sample_key ToolKindFunction ''a b'',
     sample_key ToolKindFunction ''run'', sample_key ToolKindCustom ''run''}"

lemma label_sample_environment:
  obtains e where "EffectiveTools sample_request = Inr e"
    and "needed_keys e (rq_items sample_request) = sample_needed"
proof -
  have "map_sum id (\<lambda>e. set_ordered (env_declarations e)) (EffectiveTools sample_request) = Inr sample_tools"
    by code_simp
  then obtain e where e: "EffectiveTools sample_request = Inr e" "set_ordered (env_declarations e) = sample_tools"
    by (cases "EffectiveTools sample_request") auto
  have "needed_keys e (rq_items sample_request) = sample_needed"
    by (auto simp: needed_keys_def e(2) called_keys_def sample_request_def sample_tools_def sample_needed_def)
  with e(1) show thesis using that by blast
qed

lemma sample_builds: "is_ok (BuildAttemptToolNames sample_hash sample_request)"
  by code_simp

theorem tool_labels_sound_witness:
  "\<exists>names changes. BuildAttemptToolNames sample_hash sample_request = Inr (names, changes) \<and>
     WireName names (sample_key ToolKindFunction ''get'') = Inr ''get'' \<and>
     (\<exists>w. WireName names (sample_key ToolKindCustom ''run'') = Inr w \<and> Safe w \<and>
        CanonicalKey names w = Some (sample_key ToolKindCustom ''run''))"
proof -
  obtain names changes where b: "BuildAttemptToolNames sample_hash sample_request = Inr (names, changes)"
    using sample_builds by (auto simp: is_ok_iff)
  obtain e where e: "EffectiveTools sample_request = Inr e"
    and n: "needed_keys e (rq_items sample_request) = sample_needed"
    using label_sample_environment .
  note sound = tool_labels_sound [OF label_sample_digest e b, unfolded n]
  have "PreservableLiteral ''get''" by code_simp
  with sound have "WireName names (sample_key ToolKindFunction ''get'') = Inr ''get''"
    by (auto simp: sample_needed_def sample_key_def)
  moreover have "is_ok (WireName names (sample_key ToolKindCustom ''run''))"
    using sound by (simp add: sample_needed_def)
  ultimately show ?thesis using b sound by (auto simp: is_ok_iff)
qed

theorem tool_labels_total_witness: "is_ok (BuildAttemptToolNames sample_hash sample_request)"
proof -
  obtain e where e: "EffectiveTools sample_request = Inr e"
    and n: "needed_keys e (rq_items sample_request) = sample_needed"
    using label_sample_environment .
  have "distinct (map (\<lambda>k. identity_hash sample_hash (key_String k))
      [sample_key ToolKindFunction ''get'', sample_key ToolKindFunction ''a b'',
       sample_key ToolKindFunction ''run'', sample_key ToolKindCustom ''run''])"
    by code_simp
  then have "inj_on (\<lambda>k. identity_hash sample_hash (key_String k)) sample_needed"
    by (simp only: distinct_map sample_needed_def list.set)
  then show ?thesis
    using tool_labels_total [OF label_sample_digest e] n by simp
qed

end
