(* ===== verification/MCP_Client.thy ===== *)
theory MCP_Client
  imports Tool_Names
begin

text \<open>
  The client side of one remote MCP source (\<^verbatim>\<open>src/internal/mcp/access.go\<close> and \<^verbatim>\<open>client.go\<close>):
  request-private credentials, the listing of a remote catalog within its bounds, the projection
  of tool results, and the guard against internal network addresses. The MCP SDK is a parameter:
  what it answers to the n-th page request, to a call and to \<^verbatim>\<open>Close\<close>. A value the code only
  marshals is represented by the result of marshalling it.
\<close>

section \<open>Credentials of a request\<close>

text \<open>
  \<^verbatim>\<open>strings.EqualFold\<close>: bytewise on ASCII strings; the Unicode folding of other strings is the
  parameter \<open>ufold\<close>.
\<close>

definition EqualFold :: "(string \<Rightarrow> string \<Rightarrow> bool) \<Rightarrow> string \<Rightarrow> string \<Rightarrow> bool" where
  "EqualFold ufold s t =
     (if list_all ascii_char s \<and> list_all ascii_char t then map ascii_lower s = map ascii_lower t
      else ufold s t)"

record SourceAccess =
  sa_Authorization :: string
  sa_Headers :: "(string \<times> string) list"

type_synonym Access = "(ToolKey \<times> SourceAccess) list"

definition ForSource :: "Access \<Rightarrow> ToolKey \<Rightarrow> SourceAccess" where
  "ForSource a source =
     (case map_of a source of
        None \<Rightarrow> \<lparr>sa_Authorization = [], sa_Headers = []\<rparr> | Some value \<Rightarrow> value)"

definition withSource ::
    "Access \<Rightarrow> ToolKey \<Rightarrow> (SourceAccess \<Rightarrow> go_error + SourceAccess) \<Rightarrow> go_error + Access" where
  "withSource a source update =
     and_then (update (ForSource a source)) (\<lambda>next'. Inr (AList.update source next' a))"

definition contradictory_bearer :: go_error where
  "contradictory_bearer = BadRequest ''responses MCP source has contradictory bearer authorization''"

definition bearer_conflict ::
    "(string \<Rightarrow> string \<Rightarrow> bool) \<Rightarrow> string \<Rightarrow> string \<times> string \<Rightarrow> bool" where
  "bearer_conflict ufold bearer header \<longleftrightarrow>
     EqualFold ufold (fst header) ''Authorization'' \<and>
     \<not> EqualFold ufold (TrimSpace (snd header)) (''Bearer '' @ bearer)"

definition WithBearer ::
    "(string \<Rightarrow> string \<Rightarrow> bool) \<Rightarrow> Access \<Rightarrow> ToolKey \<Rightarrow> string \<Rightarrow> go_error + Access" where
  "WithBearer ufold a source bearer =
     (let bearer = TrimSpace bearer
      in if key_IsZero source \<or> tk_kind source \<noteq> ToolKindMCP \<or> bearer = []
         then Inl (BadRequest ''responses MCP authorization is invalid'')
         else withSource a source (\<lambda>current.
           if sa_Authorization current \<noteq> [] \<and> sa_Authorization current \<noteq> bearer
           then Inl contradictory_bearer
           else if list_ex (bearer_conflict ufold bearer) (sa_Headers current)
           then Inl contradictory_bearer
           else Inr (current\<lparr>sa_Authorization := bearer\<rparr>)))"

text \<open>A prior spelling of the same header name is replaced when its value agrees.\<close>

fun merge_headers ::
    "(string \<Rightarrow> string \<Rightarrow> bool) \<Rightarrow> (string \<times> string) list \<Rightarrow> SourceAccess \<Rightarrow>
     go_error + SourceAccess" where
  "merge_headers ufold [] current = Inr current"
| "merge_headers ufold ((name, value) # headers) current =
     (if sa_Authorization current \<noteq> [] \<and> bearer_conflict ufold (sa_Authorization current) (name, value)
      then Inl contradictory_bearer
      else case find (\<lambda>h. EqualFold ufold (fst h) name) (sa_Headers current) of
        None \<Rightarrow> merge_headers ufold headers
          (current\<lparr>sa_Headers := AList.update name value (sa_Headers current)\<rparr>)
      | Some (priorName, priorValue) \<Rightarrow>
          if priorValue \<noteq> value
          then Inl (BadRequest ''responses MCP source has contradictory headers'')
          else merge_headers ufold headers
            (current\<lparr>sa_Headers :=
               AList.update name value (AList.delete priorName (sa_Headers current))\<rparr>))"

definition WithHeaders ::
    "(string \<Rightarrow> string \<Rightarrow> bool) \<Rightarrow> Access \<Rightarrow> ToolKey \<Rightarrow> (string \<times> string) list \<Rightarrow> go_error + Access" where
  "WithHeaders ufold a source headers =
     (if key_IsZero source \<or> tk_kind source \<noteq> ToolKindMCP
      then Inl (BadRequest ''responses MCP headers are invalid'')
      else withSource a source (merge_headers ufold headers))"

section \<open>Listing a catalog\<close>

definition MaxListPages :: nat where "MaxListPages = 32"
definition MaxToolsPerSource :: nat where "MaxToolsPerSource = 256"
definition MaxSchemaBytes :: int where "MaxSchemaBytes = 262144"
definition MaxCatalogBytesPerSource :: int where "MaxCatalogBytesPerSource = 4194304"
definition MaxToolResultBytes :: int where "MaxToolResultBytes = 1048576"

record MCPToolSource =
  mt_key :: ToolKey
  mt_description :: string
  mt_source :: MCPSource
  mt_tools :: "ToolDeclaration list"

definition errAuthenticationRequired :: go_error where
  "errAuthenticationRequired = Errorf ''MCP source requires authentication'' []"

record sdk_tool =
  sdk_Name :: string
  sdk_Description :: string
  sdk_InputSchema :: "go_error + string"
  sdk_OutputSchema :: "(go_error + string) option"

record toolListBounds =
  tb_pages :: nat
  tb_tools :: nat
  tb_bytes :: int
  tb_seenCursors :: "string list"

definition observeBytes :: "toolListBounds \<Rightarrow> int \<Rightarrow> go_error + toolListBounds" where
  "observeBytes b byteCount =
     (if byteCount < 0 \<or> tb_bytes b > MaxCatalogBytesPerSource - byteCount
      then Inl (Errorf ''exceeded the catalog byte limit'' [])
      else Inr (b\<lparr>tb_bytes := tb_bytes b + byteCount\<rparr>))"

definition bounds_observe :: "toolListBounds \<Rightarrow> nat \<Rightarrow> string \<Rightarrow> go_error + toolListBounds" where
  "bounds_observe b toolCount nextCursor =
     (let b = b\<lparr>tb_pages := Suc (tb_pages b)\<rparr>
      in if tb_pages b > MaxListPages then Inl (Errorf ''exceeded the tool-list page limit'' [])
      else let b = b\<lparr>tb_tools := tb_tools b + toolCount\<rparr>
      in if tb_tools b > MaxToolsPerSource then Inl (Errorf ''exceeded the tool limit'' [])
      else if nextCursor \<noteq> [] then
        (if nextCursor \<in> set (tb_seenCursors b) then Inl (Errorf ''repeated a tool-list cursor'' [])
         else Inr (b\<lparr>tb_seenCursors := nextCursor # tb_seenCursors b\<rparr>))
      else Inr b)"

definition expanded_description :: "string \<Rightarrow> string \<Rightarrow> string" where
  "expanded_description sourceDescription description =
     (if sourceDescription \<noteq> [] then
        (if description \<noteq> [] then sourceDescription @ [CHR 0x0A, CHR 0x0A] @ description
         else sourceDescription)
      else description)"

definition sdkToolRetainedBytes :: "string \<Rightarrow> sdk_tool \<Rightarrow> go_error + int" where
  "sdkToolRetainedBytes sourceDescription tool =
     and_then (sdk_InputSchema tool) (\<lambda>input.
       and_then (case sdk_OutputSchema tool of None \<Rightarrow> Inr [] | Some output \<Rightarrow> output) (\<lambda>output.
         Inr (int (length (sdk_Name tool) + length (sdk_Description tool) + length input +
           length output + length (expanded_description sourceDescription (sdk_Description tool))))))"

definition schemaFromSDK :: "json_codec \<Rightarrow> go_error + string \<Rightarrow> go_error + ToolSchema" where
  "schemaFromSDK codec value =
     and_then value (\<lambda>raw.
       if int (length raw) > MaxSchemaBytes then Inl (Errorf ''schema exceeds %d bytes'' [])
       else and_then (ParseJSONObject codec raw) (\<lambda>object. Inr (Some object)))"

definition declarationFromSDKTool ::
    "json_codec \<Rightarrow> MCPToolSource \<Rightarrow> sdk_tool \<Rightarrow> go_error + ToolDeclaration \<times> Change list" where
  "declarationFromSDKTool codec source tool =
     (case schemaFromSDK codec (sdk_InputSchema tool) of
        Inl e \<Rightarrow> Inl (Errorw ''MCP tool %q input schema: %w'' [sdk_Name tool] e)
      | Inr input \<Rightarrow>
          and_then (NewToolKey (tk_namespace (mt_key source) @ ''/'' @ tk_name (mt_key source))
              ToolKindFunction (sdk_Name tool)) (\<lambda>key.
            and_then (NewFunctionTool key (sdk_Description tool) input
                \<lparr>sc_Profile = SchemaProfileUnprofiled, sc_Conformance = 0\<rparr>) (\<lambda>declaration.
              Inr (declaration, case sdk_OutputSchema tool of None \<Rightarrow> []
                | Some _ \<Rightarrow> [\<lparr>cg_Capability = ''request.tools'', cg_Occurrence = tool_occurrence key,
                    cg_Kind = Approximation\<rparr>]))))"

record listing =
  ls_bounds :: toolListBounds
  ls_discovered :: "(string \<times> ToolDeclaration \<times> Change list) list"
    \<comment> \<open>by tool name, in the order of discovery\<close>

definition source_error :: "MCPToolSource \<Rightarrow> go_error \<Rightarrow> go_error" where
  "source_error source e = Errorw ''MCP source %q: %w'' [tk_name (mt_key source)] e"

definition add_tool ::
    "json_codec \<Rightarrow> MCPToolSource \<Rightarrow> sdk_tool option \<Rightarrow> listing \<Rightarrow> go_error + listing" where
  "add_tool codec source tool st =
     (case tool of
        None \<Rightarrow> Inl (Errorf ''MCP source %q returned an empty tool'' [tk_name (mt_key source)])
      | Some tool \<Rightarrow>
          (case sdkToolRetainedBytes (mt_description source) tool of
             Inl e \<Rightarrow> Inl (Errorw ''MCP tool %q catalog size: %w'' [sdk_Name tool] e)
           | Inr retainedBytes \<Rightarrow>
               (case observeBytes (ls_bounds st) retainedBytes of
                  Inl e \<Rightarrow> Inl (source_error source e)
                | Inr b \<Rightarrow>
                    and_then (declarationFromSDKTool codec source tool) (\<lambda>decl.
                      if map_of (ls_discovered st) (sdk_Name tool) \<noteq> None
                      then Inl (Errorf ''MCP source %q returned duplicate tool %q''
                        [tk_name (mt_key source), sdk_Name tool])
                      else Inr \<lparr>ls_bounds = b,
                        ls_discovered = ls_discovered st @ [(sdk_Name tool, decl)]\<rparr>))))"

fun add_tools ::
    "json_codec \<Rightarrow> MCPToolSource \<Rightarrow> sdk_tool option list \<Rightarrow> listing \<Rightarrow> go_error + listing" where
  "add_tools codec source [] st = Inr st"
| "add_tools codec source (tool # tools) st =
     and_then (add_tool codec source tool st) (\<lambda>st. add_tools codec source tools st)"

text \<open>
  The answer of the SDK to the n-th page request with a cursor: an error and whether the transport
  saw a denial, or a page.
\<close>

type_synonym sdk_list = "nat \<Rightarrow> string \<Rightarrow> (go_error \<times> bool) + (sdk_tool option list \<times> string)"

definition list_error :: "MCPToolSource \<Rightarrow> go_error \<times> bool \<Rightarrow> go_error" where
  "list_error source failure =
     (if snd failure
      then Errorw ''%w: list MCP source %q tools: %v'' [tk_name (mt_key source)] errAuthenticationRequired
      else Errorw ''list MCP source %q tools: %w'' [tk_name (mt_key source)] (fst failure))"

definition list_page ::
    "json_codec \<Rightarrow> MCPToolSource \<Rightarrow> sdk_list \<Rightarrow> string \<Rightarrow> listing \<Rightarrow> go_error + listing \<times> string" where
  "list_page codec source ListTools cursor st =
     (case ListTools (tb_pages (ls_bounds st)) cursor of
        Inl failure \<Rightarrow> Inl (list_error source failure)
      | Inr (tools, nextCursor) \<Rightarrow>
          (case bounds_observe (ls_bounds st) (length tools) nextCursor of
             Inl e \<Rightarrow> Inl (source_error source e)
           | Inr b \<Rightarrow>
               and_then (add_tools codec source tools (st\<lparr>ls_bounds := b\<rparr>)) (\<lambda>st.
                 Inr (st, nextCursor))))"

lemma add_tools_pages:
  "add_tools codec source tools st = Inr st' \<Longrightarrow> tb_pages (ls_bounds st') = tb_pages (ls_bounds st)"
  by (induction tools arbitrary: st)
    (auto simp: result_simps add_tool_def observeBytes_def split: option.splits sum.splits if_splits)

lemma list_page_pages:
  assumes "list_page codec source L cursor st = Inr (st', nextCursor)"
  shows "tb_pages (ls_bounds st') = Suc (tb_pages (ls_bounds st))" "tb_pages (ls_bounds st') \<le> MaxListPages"
  using assms
  by (auto simp: list_page_def result_simps bounds_observe_def Let_def
      dest!: add_tools_pages split: sum.splits prod.splits if_splits)

lemma list_page_decreases:
  "list_page codec source L cursor st = Inr (st', nextCursor) \<Longrightarrow>
     MaxListPages - tb_pages (ls_bounds st') < MaxListPages - tb_pages (ls_bounds st)"
  using list_page_pages [of codec source L cursor st st' nextCursor] by simp

function list_pages ::
    "json_codec \<Rightarrow> MCPToolSource \<Rightarrow> sdk_list \<Rightarrow> string \<Rightarrow> listing \<Rightarrow> go_error + listing" where
  "list_pages codec source L cursor st =
     (case list_page codec source L cursor st of
        Inl e \<Rightarrow> Inl e
      | Inr (st', nextCursor) \<Rightarrow>
          if nextCursor = [] then Inr st' else list_pages codec source L nextCursor st')"
  by pat_completeness auto
termination
  by (relation "measure (\<lambda>(codec, source, L, cursor, st). MaxListPages - tb_pages (ls_bounds st))")
    (auto dest!: list_page_decreases)

declare list_pages.simps [simp del]

fun select_tools ::
    "MCPToolSource \<Rightarrow> (string \<times> ToolDeclaration \<times> Change list) list \<Rightarrow> string list \<Rightarrow>
     go_error + (ToolDeclaration \<times> Change list) list" where
  "select_tools source discovered [] = Inr []"
| "select_tools source discovered (name # names) =
     (case map_of discovered name of
        None \<Rightarrow> Inl (Errorf ''MCP source %q did not declare selected tool %q''
          [tk_name (mt_key source), name])
      | Some decl \<Rightarrow> and_then (select_tools source discovered names) (\<lambda>rest. Inr (decl # rest)))"

definition listTools ::
    "json_codec \<Rightarrow> MCPToolSource \<Rightarrow> sdk_list \<Rightarrow> go_error + ToolDeclaration list \<times> Change list" where
  "listTools codec source ListTools =
     and_then (list_pages codec source ListTools []
         \<lparr>ls_bounds = \<lparr>tb_pages = 0, tb_tools = 0, tb_bytes = int (length (mt_description source)),
            tb_seenCursors = []\<rparr>, ls_discovered = []\<rparr>) (\<lambda>st.
       and_then (case ms_allowedTools (mt_source source) of
           Some allowed \<Rightarrow> select_tools source (ls_discovered st) allowed
         | None \<Rightarrow> Inr (map snd (ls_discovered st))) (\<lambda>chosen.
         Inr (map fst chosen, concat (map snd chosen))))"

section \<open>Calling a tool\<close>

datatype sdk_content = TextContent string | OtherContent

record sdk_result =
  cr_Content :: "sdk_content list"
  cr_StructuredContent :: "(go_error + string) option"
  cr_IsError :: bool

definition projectionFailureResult :: "ToolResultPart list" where
  "projectionFailureResult = [text_result_part
     ''The MCP tool may have completed, but Swobu could not project its result content type.'']"

text \<open>\<open>None\<close>: content that is not text; the last component is the running total of bytes.\<close>

fun text_parts ::
    "string \<Rightarrow> sdk_content list \<Rightarrow> nat \<Rightarrow> go_error + (ToolResultPart list \<times> nat) option" where
  "text_parts remoteName [] totalBytes = Inr (Some ([], totalBytes))"
| "text_parts remoteName (OtherContent # rest) totalBytes = Inr None"
| "text_parts remoteName (TextContent t # rest) totalBytes =
     (if int (totalBytes + length t) > MaxToolResultBytes
      then Inl (Errorf ''MCP tool %q exceeded the result limit'' [remoteName])
      else and_then (text_parts remoteName rest (totalBytes + length t)) (\<lambda>r.
        Inr (case r of None \<Rightarrow> None | Some (parts, n) \<Rightarrow> Some (text_result_part t # parts, n))))"

definition callWithTimeout ::
    "json_codec \<Rightarrow> (string \<Rightarrow> JSONObject \<Rightarrow> go_error + sdk_result) \<Rightarrow> string \<Rightarrow> JSONObject \<Rightarrow>
     go_error + ToolResultPart list \<times> bool" where
  "callWithTimeout codec CallTool remoteName input =
     and_then (json_decode codec input) (\<lambda>_.
       case CallTool remoteName input of
         Inl e \<Rightarrow> Inl (Errorw ''call MCP tool %q: %w'' [remoteName] e)
       | Inr result \<Rightarrow>
           and_then (text_parts remoteName (cr_Content result) 0) (\<lambda>r.
             case r of
               None \<Rightarrow> Inr (projectionFailureResult, True)
             | Some (parts, totalBytes) \<Rightarrow>
                 (case cr_StructuredContent result of
                    None \<Rightarrow> Inr (parts, cr_IsError result)
                  | Some (Inl e) \<Rightarrow> Inr (projectionFailureResult, True)
                  | Some (Inr raw) \<Rightarrow>
                      if int (totalBytes + length raw) > MaxToolResultBytes
                      then Inr (projectionFailureResult, True)
                      else Inr (parts @ [text_result_part raw], cr_IsError result))))"

section \<open>The guard against internal addresses\<close>

text \<open>
  \<^verbatim>\<open>netip.Addr\<close>: no address, an IPv4 address, or an IPv6 address with its zone. The
  predicates are those of \<^verbatim>\<open>net/netip\<close>.
\<close>

datatype Addr = AddrZero | Addr4 "32 word" | Addr6 "128 word" string

abbreviation octet0 :: "32 word \<Rightarrow> 32 word" where "octet0 a \<equiv> drop_bit 24 a"
abbreviation octet1 :: "32 word \<Rightarrow> 32 word" where "octet1 a \<equiv> take_bit 8 (drop_bit 16 a)"

definition Unmap :: "Addr \<Rightarrow> Addr" where
  "Unmap ip =
     (case ip of
        Addr6 a zone \<Rightarrow> if drop_bit 32 a = 0xFFFF then Addr4 (ucast a) else ip
      | _ \<Rightarrow> ip)"

fun IsLoopback :: "Addr \<Rightarrow> bool" where
  "IsLoopback (Addr4 a) \<longleftrightarrow> octet0 a = 127"
| "IsLoopback (Addr6 a zone) \<longleftrightarrow> a = 1"
| "IsLoopback AddrZero \<longleftrightarrow> False"

fun IsMulticast :: "Addr \<Rightarrow> bool" where
  "IsMulticast (Addr4 a) \<longleftrightarrow> drop_bit 4 (octet0 a) = 0xE"
| "IsMulticast (Addr6 a zone) \<longleftrightarrow> drop_bit 120 a = 0xFF"
| "IsMulticast AddrZero \<longleftrightarrow> False"

fun IsLinkLocalUnicast :: "Addr \<Rightarrow> bool" where
  "IsLinkLocalUnicast (Addr4 a) \<longleftrightarrow> octet0 a = 169 \<and> octet1 a = 254"
| "IsLinkLocalUnicast (Addr6 a zone) \<longleftrightarrow> drop_bit 118 a = drop_bit 6 0xFE80"
| "IsLinkLocalUnicast AddrZero \<longleftrightarrow> False"

fun IsLinkLocalMulticast :: "Addr \<Rightarrow> bool" where
  "IsLinkLocalMulticast (Addr4 a) \<longleftrightarrow> octet0 a = 224 \<and> octet1 a = 0 \<and> take_bit 8 (drop_bit 8 a) = 0"
| "IsLinkLocalMulticast (Addr6 a zone) \<longleftrightarrow>
     drop_bit 120 a = 0xFF \<and> take_bit 4 (drop_bit 112 a) = 2"
| "IsLinkLocalMulticast AddrZero \<longleftrightarrow> False"

fun IsPrivate :: "Addr \<Rightarrow> bool" where
  "IsPrivate (Addr4 a) \<longleftrightarrow>
     octet0 a = 10 \<or> octet0 a = 172 \<and> drop_bit 4 (octet1 a) = 1 \<or> octet0 a = 192 \<and> octet1 a = 168"
| "IsPrivate (Addr6 a zone) \<longleftrightarrow> drop_bit 121 a = drop_bit 1 0xFC"
| "IsPrivate AddrZero \<longleftrightarrow> False"

definition IsUnspecified :: "Addr \<Rightarrow> bool" where
  "IsUnspecified ip \<longleftrightarrow> ip = Addr4 0 \<or> ip = Addr6 0 []"

fun IsGlobalUnicast :: "Addr \<Rightarrow> bool" where
  "IsGlobalUnicast AddrZero \<longleftrightarrow> False"
| "IsGlobalUnicast (Addr4 a) \<longleftrightarrow> \<not> (a = 0 \<or> a = 0xFFFFFFFF) \<and>
     \<not> IsLoopback (Addr4 a) \<and> \<not> IsMulticast (Addr4 a) \<and> \<not> IsLinkLocalUnicast (Addr4 a)"
| "IsGlobalUnicast (Addr6 a zone) \<longleftrightarrow> Addr6 a zone \<noteq> Addr6 0 [] \<and>
     \<not> IsLoopback (Addr6 a zone) \<and> \<not> IsMulticast (Addr6 a zone) \<and> \<not> IsLinkLocalUnicast (Addr6 a zone)"

datatype Prefix = Prefix4 "32 word" nat | Prefix6 "128 word" nat

fun prefix_Contains :: "Prefix \<Rightarrow> Addr \<Rightarrow> bool" where
  "prefix_Contains (Prefix4 base n) (Addr4 a) \<longleftrightarrow> drop_bit (32 - n) a = drop_bit (32 - n) base"
| "prefix_Contains (Prefix6 base n) (Addr6 a zone) \<longleftrightarrow>
     zone = [] \<and> drop_bit (128 - n) a = drop_bit (128 - n) base"
| "prefix_Contains _ _ \<longleftrightarrow> False"

definition prohibitedMCPPrefixes :: "Prefix list" where
  "prohibitedMCPPrefixes =
     [Prefix4 0x64400000 10, Prefix4 0xC0000000 24, Prefix4 0xC6120000 15,
      Prefix6 0x20010DB8000000000000000000000000 32]"

definition publicMCPAddress :: "Addr \<Rightarrow> bool" where
  "publicMCPAddress ip =
     (let ip = Unmap ip
      in if ip = AddrZero \<or> \<not> IsGlobalUnicast ip \<or> IsPrivate ip \<or> IsLoopback ip \<or>
           IsLinkLocalUnicast ip \<or> IsLinkLocalMulticast ip \<or> IsMulticast ip \<or> IsUnspecified ip
         then False
         else \<not> list_ex (\<lambda>prefix. prefix_Contains prefix ip) prohibitedMCPPrefixes)"

definition publicMCPResolution :: "Addr list \<Rightarrow> bool" where
  "publicMCPResolution addresses \<longleftrightarrow> addresses \<noteq> [] \<and> list_all publicMCPAddress addresses"

text \<open>The refused IPv4 ranges as intervals.\<close>

definition refused4 :: "(nat \<times> nat) list" where
  "refused4 =
     [(0x00000000, 0x00000000), (0x0A000000, 0x0AFFFFFF), (0x64400000, 0x647FFFFF),
      (0x7F000000, 0x7FFFFFFF), (0xA9FE0000, 0xA9FEFFFF), (0xAC100000, 0xAC1FFFFF),
      (0xC0000000, 0xC00000FF), (0xC0A80000, 0xC0A8FFFF), (0xC6120000, 0xC613FFFF),
      (0xE0000000, 0xEFFFFFFF), (0xFFFFFFFF, 0xFFFFFFFF)]"

lemma div_interval: "0 < d \<Longrightarrow> (n::nat) div d = c \<longleftrightarrow> c * d \<le> n \<and> n \<le> c * d + (d - 1)"
proof -
  assume d: "0 < d"
  have "n div d = c \<longleftrightarrow> c * d \<le> n \<and> n < Suc c * d"
    using d by (metis div_nat_eqI dividend_less_times_div less_eq_div_iff_mult_less_eq less_mult_imp_div_less
        mult.commute order_refl times_div_less_eq_dividend mult_Suc)
  then show ?thesis using d by (simp, linarith)
qed

lemma unat_drop: "unat (drop_bit n (a :: 'a::len word)) = unat a div 2 ^ n"
  unfolding unat_drop_bit_eq by (simp add: drop_bit_eq_div)

lemma unat_take: "unat (take_bit n (a :: 'a::len word)) = unat a mod 2 ^ n"
  unfolding unsigned_take_bit_eq by (simp add: take_bit_eq_mod)

lemmas word_to_nat = word_unat_eq_iff unat_drop unat_take

lemma octet_pair: "y < 256 \<Longrightarrow> (n::nat) div 16777216 = x \<and> n div 65536 mod 256 = y \<longleftrightarrow> n div 65536 = x * 256 + y"
proof -
  have "n div 16777216 = n div 65536 div 256" by (simp flip: div_mult2_eq)
  then show "y < 256 \<Longrightarrow> ?thesis" by auto
qed
lemma octet_nibble: "(n::nat) div 16777216 = 172 \<and> n div 65536 mod 256 div 16 = 1 \<longleftrightarrow> n div 1048576 = 2753"
proof -
  have 1: "n div 16777216 = n div 65536 div 256" by (simp flip: div_mult2_eq)
  have 2: "n div 1048576 = n div 65536 div 16" by (simp flip: div_mult2_eq)
  have "m div 256 = 172 \<and> m mod 256 div 16 = 1 \<longleftrightarrow> m div 16 = 2753" for m :: nat
  proof -
    have a: "m div 256 = m div 16 div 16" by (simp flip: div_mult2_eq)
    have b: "m mod 256 div 16 = m div 16 mod 16" using mod_mult2_eq [of m 16 16] by simp
    have "k = 2753" if "k div 16 = 172" "k mod 16 = 1" for k :: nat
      using div_mult_mod_eq [of k 16, symmetric] unfolding that by simp
    then have "k div 16 = 172 \<and> k mod 16 = 1 \<longleftrightarrow> k = 2753" for k :: nat by auto
    then show ?thesis unfolding a b .
  qed
  then show ?thesis unfolding 1 2 .
qed
lemma octet_intervals:
  fixes n :: nat
  shows "n div 16777216 = 127 \<longleftrightarrow> 0x7F000000 \<le> n \<and> n \<le> 0x7FFFFFFF"
    and "n div 268435456 = 14 \<longleftrightarrow> 0xE0000000 \<le> n \<and> n \<le> 0xEFFFFFFF"
    and "n div 16777216 = 10 \<longleftrightarrow> 0x0A000000 \<le> n \<and> n \<le> 0x0AFFFFFF"
    and "n div 16777216 = 169 \<and> n div 65536 mod 256 = 254 \<longleftrightarrow> 0xA9FE0000 \<le> n \<and> n \<le> 0xA9FEFFFF"
    and "n div 16777216 = 172 \<and> n div 65536 mod 256 div 16 = 1 \<longleftrightarrow> 0xAC100000 \<le> n \<and> n \<le> 0xAC1FFFFF"
    and "n div 16777216 = 192 \<and> n div 65536 mod 256 = 168 \<longleftrightarrow> 0xC0A80000 \<le> n \<and> n \<le> 0xC0A8FFFF"
    and "n div 4194304 = 401 \<longleftrightarrow> 0x64400000 \<le> n \<and> n \<le> 0x647FFFFF"
    and "n div 256 = 12582912 \<longleftrightarrow> 0xC0000000 \<le> n \<and> n \<le> 0xC00000FF"
    and "n div 131072 = 25353 \<longleftrightarrow> 0xC6120000 \<le> n \<and> n \<le> 0xC613FFFF"
  by (linarith, linarith, linarith, simp only: octet_pair, simp, linarith,
      simp only: octet_nibble, linarith, simp only: octet_pair, simp, linarith,
      linarith, linarith, linarith)

lemma local_multicast: "n div 16777216 = 224 \<Longrightarrow> 0xE0000000 \<le> n \<and> n \<le> (0xEFFFFFFF :: nat)"
  by linarith

lemma list_ex_rules: "list_ex P [] \<longleftrightarrow> False" "list_ex P (x # xs) \<longleftrightarrow> P x \<or> list_ex P xs"
  by simp_all

text \<open>
  C36: The address guard of the MCP client. An IPv4 address passes exactly when it lies in none of
  the listed intervals: private, loopback, link-local, carrier-grade, benchmarking, protocol
  assignment, multicast, the unspecified and the broadcast address.
\<close>

theorem public_address_ranges:
  "publicMCPAddress (Addr4 a) \<longleftrightarrow>
     \<not> list_ex (\<lambda>(low, high). low \<le> unat a \<and> unat a \<le> high) refused4"
proof -
  obtain n where n: "unat a = n" by blast
  have "unat a < 2 ^ LENGTH(32)" by (rule unsigned_less)
  then have top: "4294967295 \<le> n \<and> n \<le> 4294967295 \<longleftrightarrow> n = 4294967295" using n by (simp, linarith)
  have p: "IsLoopback (Addr4 a) \<longleftrightarrow> n div 16777216 = 127"
    "IsMulticast (Addr4 a) \<longleftrightarrow> n div 268435456 = 14"
    "IsLinkLocalUnicast (Addr4 a) \<longleftrightarrow> n div 16777216 = 169 \<and> n div 65536 mod 256 = 254"
    "IsLinkLocalMulticast (Addr4 a) \<Longrightarrow> n div 16777216 = 224"
    "IsPrivate (Addr4 a) \<longleftrightarrow> n div 16777216 = 10 \<or>
       n div 16777216 = 172 \<and> n div 65536 mod 256 div 16 = 1 \<or>
       n div 16777216 = 192 \<and> n div 65536 mod 256 = 168"
    "IsUnspecified (Addr4 a) \<longleftrightarrow> n = 0" "a = 0 \<longleftrightarrow> n = 0" "a = 0xFFFFFFFF \<longleftrightarrow> n = 4294967295"
    "prefix_Contains (Prefix4 0x64400000 10) (Addr4 a) \<longleftrightarrow> n div 4194304 = 401"
    "prefix_Contains (Prefix4 0xC0000000 24) (Addr4 a) \<longleftrightarrow> n div 256 = 12582912"
    "prefix_Contains (Prefix4 0xC6120000 15) (Addr4 a) \<longleftrightarrow> n div 131072 = 25353"
    by (simp_all add: word_to_nat n IsUnspecified_def)
  have pub: "publicMCPAddress (Addr4 a) \<longleftrightarrow> \<not> (a = 0 \<or> a = 0xFFFFFFFF \<or> IsLoopback (Addr4 a) \<or>
      IsMulticast (Addr4 a) \<or> IsLinkLocalUnicast (Addr4 a) \<or> IsLinkLocalMulticast (Addr4 a) \<or>
      IsPrivate (Addr4 a) \<or> IsUnspecified (Addr4 a) \<or>
      prefix_Contains (Prefix4 0x64400000 10) (Addr4 a) \<or>
      prefix_Contains (Prefix4 0xC0000000 24) (Addr4 a) \<or>
      prefix_Contains (Prefix4 0xC6120000 15) (Addr4 a))"
    unfolding publicMCPAddress_def Unmap_def prohibitedMCPPrefixes_def Let_def Addr.case
      list_ex_rules IsGlobalUnicast.simps prefix_Contains.simps(4)
    by (simp only: Addr.distinct if_bool_eq_conj) blast
  have low: "0 \<le> n \<and> n \<le> 0 \<longleftrightarrow> n = 0" by simp
  have ref: "list_ex (\<lambda>(low, high). low \<le> n \<and> n \<le> high) refused4 \<longleftrightarrow>
      n = 0 \<or> 0x0A000000 \<le> n \<and> n \<le> 0x0AFFFFFF \<or> 0x64400000 \<le> n \<and> n \<le> 0x647FFFFF \<or>
      0x7F000000 \<le> n \<and> n \<le> 0x7FFFFFFF \<or> 0xA9FE0000 \<le> n \<and> n \<le> 0xA9FEFFFF \<or>
      0xAC100000 \<le> n \<and> n \<le> 0xAC1FFFFF \<or> 0xC0000000 \<le> n \<and> n \<le> 0xC00000FF \<or>
      0xC0A80000 \<le> n \<and> n \<le> 0xC0A8FFFF \<or> 0xC6120000 \<le> n \<and> n \<le> 0xC613FFFF \<or>
      0xE0000000 \<le> n \<and> n \<le> 0xEFFFFFFF \<or> n = 4294967295"
    unfolding refused4_def list_ex_rules prod.case low top by blast
  show ?thesis
    unfolding n ref pub p(1-3,5-) octet_intervals using p(4) local_multicast [of n] by blast
qed

section \<open>What listing and credentials promise\<close>

text \<open>Every listed tool is a function in the namespace of its source.\<close>

definition listed_ok :: "MCPToolSource \<Rightarrow> string \<times> ToolDeclaration \<times> Change list \<Rightarrow> bool" where
  "listed_ok source entry \<longleftrightarrow>
     (case entry of (name, d, changes) \<Rightarrow>
        decl_Kind d = ToolKindFunction \<and>
        NewToolKey (tk_namespace (mt_key source) @ ''/'' @ tk_name (mt_key source))
          ToolKindFunction name = Inr (decl_Key d))"

definition listing_ok :: "MCPToolSource \<Rightarrow> listing \<Rightarrow> bool" where
  "listing_ok source st \<longleftrightarrow> list_all (listed_ok source) (ls_discovered st) \<and>
     distinct (map fst (ls_discovered st)) \<and> tb_bytes (ls_bounds st) \<le> MaxCatalogBytesPerSource"

lemma declarationFromSDKTool_ok:
  "declarationFromSDKTool codec source tool = Inr entry \<Longrightarrow> listed_ok source (sdk_Name tool, entry)"
  by (cases entry)
    (auto simp: declarationFromSDKTool_def listed_ok_def NewFunctionTool_def result_simps
      split: sum.splits if_splits)

lemma add_tool_ok:
  assumes "add_tool codec source tool st = Inr st'" and "listing_ok source st"
  shows "listing_ok source st' \<and> length (ls_discovered st') = Suc (length (ls_discovered st)) \<and>
    tb_tools (ls_bounds st') = tb_tools (ls_bounds st)"
  using assms
  by (auto simp: add_tool_def listing_ok_def observeBytes_def result_simps map_of_eq_None_iff
      intro: declarationFromSDKTool_ok split: option.splits sum.splits if_splits)

lemma add_tools_ok:
  assumes "add_tools codec source tools st = Inr st'" and "listing_ok source st"
  shows "listing_ok source st' \<and>
    length (ls_discovered st') = length (ls_discovered st) + length tools \<and>
    tb_tools (ls_bounds st') = tb_tools (ls_bounds st)"
  using assms
proof (induction tools arbitrary: st)
  case (Cons tool tools)
  then obtain mid where "add_tool codec source tool st = Inr mid" "add_tools codec source tools mid = Inr st'"
    by (auto simp: result_simps)
  with Cons add_tool_ok show ?case by fastforce
qed simp

lemma list_page_ok:
  assumes "list_page codec source L cursor st = Inr (st', nextCursor)"
    and "listing_ok source st" and "length (ls_discovered st) = tb_tools (ls_bounds st)"
  shows "listing_ok source st'" and "length (ls_discovered st') = tb_tools (ls_bounds st')"
    and "tb_tools (ls_bounds st') \<le> MaxToolsPerSource"
proof -
  obtain tools b where b: "bounds_observe (ls_bounds st) (length tools) nextCursor = Inr b"
    and run: "add_tools codec source tools (st\<lparr>ls_bounds := b\<rparr>) = Inr st'"
    using assms(1) by (auto simp: list_page_def result_simps split: sum.splits)
  have "listing_ok source (st\<lparr>ls_bounds := b\<rparr>)" "tb_tools b = tb_tools (ls_bounds st) + length tools"
    "tb_tools b \<le> MaxToolsPerSource"
    using b assms(2) by (auto simp: bounds_observe_def listing_ok_def Let_def split: if_splits)
  with add_tools_ok [OF run] assms(3) show "listing_ok source st'"
    "length (ls_discovered st') = tb_tools (ls_bounds st')" "tb_tools (ls_bounds st') \<le> MaxToolsPerSource"
    by auto
qed

lemma list_pages_ok:
  assumes "list_pages codec source L cursor st = Inr st'"
    and "listing_ok source st" and "length (ls_discovered st) = tb_tools (ls_bounds st)"
  shows "listing_ok source st' \<and> length (ls_discovered st') \<le> MaxToolsPerSource"
  using assms
proof (induction codec source L cursor st rule: list_pages.induct)
  case (1 codec source L cursor st)
  obtain mid nextCursor where page: "list_page codec source L cursor st = Inr (mid, nextCursor)"
    using 1(2) by (subst (asm) list_pages.simps) (auto split: sum.splits)
  note ok = list_page_ok [OF page 1(3,4)]
  show ?case
  proof (cases "nextCursor = []")
    case True
    then show ?thesis
      using 1(2) page ok by (subst (asm) list_pages.simps) simp
  next
    case False
    then have "list_pages codec source L nextCursor mid = Inr st'"
      using 1(2) page by (subst (asm) list_pages.simps) simp
    then show ?thesis using 1(1) [OF page _ False] ok by blast
  qed
qed

lemma select_tools_ok:
  "select_tools source discovered names = Inr chosen \<Longrightarrow>
     length chosen = length names \<and> set chosen \<subseteq> snd ` set discovered"
proof (induction names arbitrary: chosen)
  case (Cons name names)
  then obtain decl rest where d: "map_of discovered name = Some decl"
    and "select_tools source discovered names = Inr rest" "chosen = decl # rest"
    by (auto simp: result_simps split: option.splits)
  moreover have "decl \<in> snd ` set discovered" using map_of_SomeD [OF d] by force
  ultimately show ?case using Cons.IH by simp
qed simp

text \<open>
  Listing a remote catalog always ends, whatever the server answers, and a listing that
  succeeds is within the limits of a source: without a selection at most 256 tools, with one
  exactly the selected tools, each of them a function whose key is in the namespace of the source.
\<close>

theorem listTools_bounded:
  assumes "listTools codec source L = Inr (tools, changes)"
    and "int (length (mt_description source)) \<le> MaxCatalogBytesPerSource"
  shows "(case ms_allowedTools (mt_source source) of
      None \<Rightarrow> length tools \<le> MaxToolsPerSource | Some names \<Rightarrow> length tools = length names) \<and>
    (\<forall>d \<in> set tools. decl_Kind d = ToolKindFunction \<and>
      (\<exists>name. NewToolKey (tk_namespace (mt_key source) @ ''/'' @ tk_name (mt_key source))
         ToolKindFunction name = Inr (decl_Key d)))"
proof -
  let ?st = "\<lparr>ls_bounds = \<lparr>tb_pages = 0, tb_tools = 0, tb_bytes = int (length (mt_description source)),
      tb_seenCursors = []\<rparr>, ls_discovered = []\<rparr>"
  obtain st chosen where run: "list_pages codec source L [] ?st = Inr st"
    and chosen: "(case ms_allowedTools (mt_source source) of
        Some allowed \<Rightarrow> select_tools source (ls_discovered st) allowed
      | None \<Rightarrow> Inr (map snd (ls_discovered st))) = Inr chosen" and tools: "tools = map fst chosen"
    using assms(1) unfolding listTools_def by (auto simp: result_simps)
  have ok: "listing_ok source st" "length (ls_discovered st) \<le> MaxToolsPerSource"
    using list_pages_ok [OF run] assms(2) by (auto simp: listing_ok_def)
  have sub: "set chosen \<subseteq> snd ` set (ls_discovered st)"
    using chosen select_tools_ok by (auto split: option.splits)
  have "decl_Kind d = ToolKindFunction \<and>
      (\<exists>name. NewToolKey (tk_namespace (mt_key source) @ ''/'' @ tk_name (mt_key source))
         ToolKindFunction name = Inr (decl_Key d))" if "d \<in> set tools" for d
  proof -
    from that tools sub obtain name ch where "(name, d, ch) \<in> set (ls_discovered st)" by force
    with ok(1) show ?thesis by (auto simp: listing_ok_def list_all_iff listed_ok_def)
  qed
  moreover have "case ms_allowedTools (mt_source source) of
      None \<Rightarrow> length tools \<le> MaxToolsPerSource | Some names \<Rightarrow> length tools = length names"
    using chosen tools ok(2) select_tools_ok by (auto split: option.splits)
  ultimately show ?thesis by blast
qed

text \<open>The two ways of authorising a source never disagree.\<close>

definition access_consistent :: "(string \<Rightarrow> string \<Rightarrow> bool) \<Rightarrow> SourceAccess \<Rightarrow> bool" where
  "access_consistent ufold s \<longleftrightarrow>
     sa_Authorization s \<noteq> [] \<longrightarrow> \<not> list_ex (bearer_conflict ufold (sa_Authorization s)) (sa_Headers s)"

lemma set_update_subset: "set (AList.update k v xs) \<subseteq> insert (k, v) (set xs)"
  by (induction xs) auto

lemma merge_headers_consistent:
  "merge_headers ufold headers s = Inr s' \<Longrightarrow> access_consistent ufold s \<Longrightarrow> access_consistent ufold s'"
proof (induction ufold headers s rule: merge_headers.induct)
  case (2 ufold name v headers current)
  have keep: "access_consistent ufold (current\<lparr>sa_Headers := hs\<rparr>)"
    if "set hs \<subseteq> insert (name, v) (set (sa_Headers current))" for hs
    using that 2(3,4) by (force simp: access_consistent_def list_ex_iff split: if_splits option.splits)
  have "set (AList.update name v (AList.delete k (sa_Headers current)))
      \<subseteq> insert (name, v) (set (sa_Headers current))" for k
    using set_update_subset [of name v "AList.delete k (sa_Headers current)"]
    by (auto simp: set_delete_gomap)
  with 2 keep set_update_subset [of name v "sa_Headers current"] show ?case
    by (auto split: if_splits option.splits prod.splits)
qed simp

text \<open>The credentials the operations can build.\<close>

inductive granted :: "(string \<Rightarrow> string \<Rightarrow> bool) \<Rightarrow> Access \<Rightarrow> bool" for ufold where
  granted_none: "granted ufold []"
| granted_bearer: "granted ufold a \<Longrightarrow> WithBearer ufold a source bearer = Inr a' \<Longrightarrow> granted ufold a'"
| granted_headers: "granted ufold a \<Longrightarrow> WithHeaders ufold a source headers = Inr a' \<Longrightarrow> granted ufold a'"

lemma withSource_consistent:
  assumes "withSource a source update = Inr a'"
    and "\<And>k. access_consistent ufold (ForSource a k)"
    and "\<And>s s'. update s = Inr s' \<Longrightarrow> access_consistent ufold s \<Longrightarrow> access_consistent ufold s'"
  shows "access_consistent ufold (ForSource a' k)"
proof -
  obtain s' where s': "update (ForSource a source) = Inr s'" "a' = AList.update source s' a"
    using assms(1) by (auto simp: withSource_def result_simps)
  show ?thesis
    using assms(3) [OF s'(1) assms(2)] assms(2) [of k] s'(2)
    by (auto simp: ForSource_def update_conv')
qed

text \<open>
  Credentials of a request. Along any sequence of bearer tokens and headers, in any order and
  spelling, a source that has a bearer token has no authorization header with another value:
  a contradiction is refused when it is added.
\<close>

theorem credentials_consistent:
  assumes "granted ufold a"
  shows "access_consistent ufold (ForSource a source)"
  using assms
proof (induction arbitrary: source)
  case granted_none
  show ?case by (simp add: ForSource_def access_consistent_def)
next
  case (granted_bearer a src bearer a')
  then have "withSource a src (\<lambda>current.
      if sa_Authorization current \<noteq> [] \<and> sa_Authorization current \<noteq> TrimSpace bearer
      then Inl contradictory_bearer
      else if list_ex (bearer_conflict ufold (TrimSpace bearer)) (sa_Headers current)
      then Inl contradictory_bearer
      else Inr (current\<lparr>sa_Authorization := TrimSpace bearer\<rparr>)) = Inr a'"
    by (auto simp: WithBearer_def Let_def split: if_splits)
  then show ?case
    by (rule withSource_consistent [OF _ granted_bearer.IH])
      (auto simp: access_consistent_def split: if_splits)
next
  case (granted_headers a src headers a')
  then have "withSource a src (merge_headers ufold headers) = Inr a'"
    by (auto simp: WithHeaders_def split: if_splits)
  then show ?case
    by (rule withSource_consistent [OF _ granted_headers.IH merge_headers_consistent])
qed

definition client_sample_source :: MCPToolSource where
  "client_sample_source = \<lparr>mt_key = \<lparr>tk_namespace = ''request'', tk_kind = ToolKindMCP, tk_name = ''docs''\<rparr>,
     mt_description = [], mt_source = \<lparr>ms_kind = ''url'', ms_reference = ''https://d'',
       ms_allowedTools = None, ms_approval = \<lparr>ma_kind = ''never'', ma_always = None, ma_never = None\<rparr>,
       ms_loading = ''eager'', ms_allowedCallers = None\<rparr>, mt_tools = []\<rparr>"

definition client_sample_codec :: json_codec where
  "client_sample_codec = \<lparr>json_decode = \<lambda>s. Inr (JObject []), json_quote = \<lambda>s. s\<rparr>"

text \<open>A server that pages: one tool on each of two pages.\<close>

definition client_sample_list :: sdk_list where
  "client_sample_list n cursor =
     (if n = 0 then Inr ([Some \<lparr>sdk_Name = ''a'', sdk_Description = [], sdk_InputSchema = Inr ''{}'',
        sdk_OutputSchema = None\<rparr>], ''next'')
      else Inr ([Some \<lparr>sdk_Name = ''b'', sdk_Description = [], sdk_InputSchema = Inr ''{}'',
        sdk_OutputSchema = Some (Inr ''{}'')\<rparr>], []))"

theorem listTools_bounded_witness:
  "\<exists>tools changes. listTools client_sample_codec client_sample_source client_sample_list = Inr (tools, changes) \<and>
     length tools \<le> MaxToolsPerSource"
proof -
  have "is_ok (listTools client_sample_codec client_sample_source client_sample_list)" by code_simp
  then obtain tools changes where
    r: "listTools client_sample_codec client_sample_source client_sample_list = Inr (tools, changes)"
    by (auto simp: is_ok_iff)
  have "int (length (mt_description client_sample_source)) \<le> MaxCatalogBytesPerSource" by code_simp
  from listTools_bounded [OF r this] r show ?thesis by (auto simp: client_sample_source_def)
qed

theorem credentials_consistent_witness:
  "\<exists>a. WithBearer (=) [] (mt_key client_sample_source) ''t'' = Inr a \<and>
     access_consistent (=) (ForSource a (mt_key client_sample_source))"
proof -
  have "is_ok (WithBearer (=) [] (mt_key client_sample_source) ''t'')" by code_simp
  then obtain a where a: "WithBearer (=) [] (mt_key client_sample_source) ''t'' = Inr a"
    by (auto simp: is_ok_iff)
  have "granted (=) a" by (rule granted_bearer [OF granted_none a])
  from credentials_consistent [OF this] a show ?thesis by blast
qed

end
