(* ===== verification/MCP_Run.thy ===== *)
theory MCP_Run
  imports MCP_Client
begin

text \<open>
  The MCP aggregate of one exchange (\<^verbatim>\<open>src/internal/mcp/run.go\<close>): opening every source of a
  request, the attempt view that providers see, the classification and budget of remote calls,
  and closing. The SDK is the record \<open>mcp_sdk\<close>; the text of a Go error is the parameter
  \<open>errtext\<close>. The sessions opened and closed are logged in the results, so that a leak would show.
\<close>

section \<open>State\<close>

definition MaxSourcesPerRequest :: nat where "MaxSourcesPerRequest = 8"
definition MaxRemoteCallsPerRun :: nat where "MaxRemoteCallsPerRun = 16"
definition MaxRemoteRoundsPerRun :: nat where "MaxRemoteRoundsPerRun = 8"
definition MaxCatalogBytesPerRun :: int where "MaxCatalogBytesPerRun = 16777216"
definition MaxDependencyEvidenceBytes :: int where "MaxDependencyEvidenceBytes = 65536"

record mcp_binding =
  bn_source :: ToolKey
  bn_remoteName :: string

record 's session =
  se_source :: MCPToolSource
  se_sdk :: 's

record 's sourceResolution =
  sr_session :: "'s session"
  sr_catalog :: MCPToolSource
  sr_catalogBytes :: int
  sr_changes :: "Change list"

record 's MCPRun =
  run_sessions :: "(ToolKey \<times> 's session) list"
  run_bindings :: "(ToolKey \<times> mcp_binding) list"
  run_attemptTools :: "(ToolKey \<times> ToolDeclaration list) list"
  run_localSources :: "ToolKey list"
  run_callCount :: nat
  run_roundCount :: nat
  run_firstUnavailable :: "go_error option"

record 's mcp_sdk =
  sdk_Connect :: "MCPToolSource \<Rightarrow> SourceAccess \<Rightarrow> go_error + 's"
  sdk_List :: "'s \<Rightarrow> sdk_list"
  sdk_Call :: "'s \<Rightarrow> string \<Rightarrow> JSONObject \<Rightarrow> go_error + sdk_result"
  sdk_Close :: "'s \<Rightarrow> go_error option"

definition decl_MCP :: "ToolDeclaration \<Rightarrow> MCPToolSource option" where
  "decl_MCP d =
     (case d of
        mcp_tool k desc s ts \<Rightarrow>
          Some \<lparr>mt_key = k, mt_description = desc, mt_source = s, mt_tools = ts\<rparr>
      | _ \<Rightarrow> None)"

section \<open>Errors of a source\<close>

text \<open>\<^verbatim>\<open>utf8.ValidString\<close>.\<close>

definition byte_in :: "nat \<Rightarrow> nat \<Rightarrow> char \<Rightarrow> bool" where
  "byte_in low high c \<longleftrightarrow> low \<le> of_char c \<and> of_char c \<le> high"

abbreviation continuation :: "char \<Rightarrow> bool" where "continuation \<equiv> byte_in 0x80 0xBF"

fun utf8_valid :: "string \<Rightarrow> bool" where
  "utf8_valid [] = True"
| "utf8_valid (a # s) =
     (if byte_in 0 0x7F a then utf8_valid s
      else case s of
        [] \<Rightarrow> False
      | b # s \<Rightarrow>
          if byte_in 0xC2 0xDF a then continuation b \<and> utf8_valid s
          else case s of
            [] \<Rightarrow> False
          | c # s \<Rightarrow>
              if byte_in 0xE0 0xEF a then
                byte_in (if byte_in 0xE0 0xE0 a then 0xA0 else 0x80)
                  (if byte_in 0xED 0xED a then 0x9F else 0xBF) b \<and> continuation c \<and> utf8_valid s
              else case s of
                [] \<Rightarrow> False
              | d # s \<Rightarrow>
                  byte_in 0xF0 0xF4 a \<and>
                  byte_in (if byte_in 0xF0 0xF0 a then 0x90 else 0x80)
                    (if byte_in 0xF4 0xF4 a then 0x8F else 0xBF) b \<and>
                  continuation c \<and> continuation d \<and> utf8_valid s)"

fun valid_limit :: "string \<Rightarrow> nat \<Rightarrow> nat" where
  "valid_limit message' 0 = 0"
| "valid_limit message' (Suc limit) =
     (if utf8_valid (take (Suc limit) message') then Suc limit else valid_limit message' limit)"

definition boundedDependencyEvidence :: "string \<Rightarrow> string" where
  "boundedDependencyEvidence message' =
     (if int (length message') \<le> MaxDependencyEvidenceBytes then message'
      else take (valid_limit message' (nat MaxDependencyEvidenceBytes)) message')"

definition dependencyError :: "(go_error \<Rightarrow> string) \<Rightarrow> MCPToolSource \<Rightarrow> go_error \<Rightarrow> go_error" where
  "dependencyError errtext source err =
     (if errors_As sel_canonical err = Some ErrorCodeNotImplemented \<or>
         errors_As sel_canonical err = Some ErrorCodeInternal
      then err
      else case errors_As sel_backend err of
        Some backendError \<Rightarrow>
          BackendError (backendError\<lparr>be_Message :=
            boundedDependencyEvidence (be_Message backendError)\<rparr>)
      | None \<Rightarrow> backend_error (''mcp:'' @ tk_name (mt_key source)) 502
          (boundedDependencyEvidence (errtext err)))"

definition sourceError :: "(go_error \<Rightarrow> string) \<Rightarrow> MCPToolSource \<Rightarrow> go_error \<Rightarrow> go_error" where
  "sourceError errtext source err =
     (if errors_As sel_canonical err \<noteq> None then err else dependencyError errtext source err)"

definition sourceFailureIsInvariant :: "go_error \<Rightarrow> bool" where
  "sourceFailureIsInvariant err \<longleftrightarrow>
     (case errors_As sel_canonical err of
        None \<Rightarrow> False
      | Some code \<Rightarrow> code = ErrorCodeBadRequest \<or> code = ErrorCodeInternal)"

section \<open>Sources of a request\<close>

definition sourceOwnsTool :: "MCPToolSource \<Rightarrow> ToolKey \<Rightarrow> bool" where
  "sourceOwnsTool source tool \<longleftrightarrow>
     tk_namespace tool = tk_namespace (mt_key source) @ ''/'' @ tk_name (mt_key source)"

definition result_ids :: "CanonicalItem list \<Rightarrow> ToolCallID list" where
  "result_ids items =
     List.map_filter (\<lambda>item. case item of tool_result_item r \<Rightarrow> Some (tr_callID r) | _ \<Rightarrow> None) items"

definition requestRequiresSource ::
    "platform \<Rightarrow> 'c CanonicalRequest \<Rightarrow> ToolEnvironment \<Rightarrow> MCPToolSource \<Rightarrow> bool" where
  "requestRequiresSource p request environment source =
     (case SpecificID (rq_ToolPolicy p request) of
        Some specific \<Rightarrow> sourceOwnsTool source specific
      | None \<Rightarrow>
          list_ex (\<lambda>item. case item of
              tool_call_item call \<Rightarrow> sourceOwnsTool source (tc_tool call) \<and>
                env_Lookup environment (tc_tool call) \<noteq> None \<and>
                tc_callID call \<notin> set (result_ids (rq_items request))
            | _ \<Rightarrow> False) (rq_items request))"

definition NotImplemented :: "string \<Rightarrow> go_error" where
  "NotImplemented msg = canonical_Error ErrorCodeNotImplemented msg"

definition locally_executable :: "ToolDeclaration \<Rightarrow> go_error + unit" where
  "locally_executable declaration =
     (case decl_MCP declaration of
        None \<Rightarrow> Inr ()
      | Some d \<Rightarrow>
          let source = mt_source d
          in if ms_kind source \<noteq> ''url''
             then Inl (NotImplemented ''Swobu MCP execution supports URL sources only'')
             else if ma_kind (ms_approval source) \<noteq> ''never''
             then Inl (NotImplemented
               ''Swobu MCP execution does not yet support approval-bearing sources'')
             else if ms_allowedCallers source \<noteq> None
             then Inl (NotImplemented
               ''Swobu MCP execution does not yet support caller-restricted sources'')
             else Inr ())"

definition validateLocallyExecutableSources :: "ToolEnvironment \<Rightarrow> go_error + unit" where
  "validateLocallyExecutableSources environment =
     check_all locally_executable (set_ordered (env_declarations environment))"

fun local_sources :: "ToolDeclaration list \<Rightarrow> ToolKey list \<Rightarrow> MCPToolSource list" where
  "local_sources [] seen = []"
| "local_sources (declaration # rest) seen =
     (case decl_MCP declaration of
        None \<Rightarrow> local_sources rest seen
      | Some d \<Rightarrow>
          if ms_kind (mt_source d) \<noteq> ''url'' \<or> ma_kind (ms_approval (mt_source d)) \<noteq> ''never'' \<or>
            ms_allowedCallers (mt_source d) \<noteq> None \<or> mt_key d \<in> set seen
          then local_sources rest seen
          else d # local_sources rest (mt_key d # seen))"

definition localMCPSources :: "ToolEnvironment \<Rightarrow> MCPToolSource list" where
  "localMCPSources environment = local_sources (set_ordered (env_declarations environment)) []"

definition requiredSourcesFirst ::
    "platform \<Rightarrow> 'c CanonicalRequest \<Rightarrow> ToolEnvironment \<Rightarrow> MCPToolSource list \<Rightarrow> MCPToolSource list" where
  "requiredSourcesFirst p request environment sources =
     filter (requestRequiresSource p request environment) sources @
     filter (\<lambda>s. \<not> requestRequiresSource p request environment s) sources"

text \<open>A source is left alone when the policy or its own selection allows no tool.\<close>

definition source_active :: "ToolPolicy \<Rightarrow> MCPToolSource \<Rightarrow> bool" where
  "source_active policy source \<longleftrightarrow>
     \<not> (tp_Mode policy = ToolPolicyNone \<or> ms_allowedTools (mt_source source) = Some [])"

section \<open>Resolving a source\<close>

definition retainedCatalogBytes :: "MCPToolSource \<Rightarrow> int" where
  "retainedCatalogBytes catalog =
     int (length (mt_description catalog)) +
     sum_list (map (\<lambda>d. case d of
         function_tool key description schema contract \<Rightarrow>
           int (length (tk_name key) + length description + length (RawObject schema) +
             length (expanded_description (mt_description catalog) description))
       | _ \<Rightarrow> 0) (mt_tools catalog))"

record 's resolution_log =
  rl_opened :: "'s session list"
  rl_closed :: "'s session list"

type_synonym ('s) sourceResolver =
  "MCPToolSource \<Rightarrow> SourceAccess \<Rightarrow> (go_error + 's sourceResolution) \<times> 's resolution_log"

definition resolveRemoteSource ::
    "json_codec \<Rightarrow> (go_error \<Rightarrow> string) \<Rightarrow> 's mcp_sdk \<Rightarrow> 's sourceResolver" where
  "resolveRemoteSource codec errtext sdk source access =
     (case sdk_Connect sdk source access of
        Inl err \<Rightarrow> (Inl (sourceError errtext source err), \<lparr>rl_opened = [], rl_closed = []\<rparr>)
      | Inr handle \<Rightarrow>
          let opened = \<lparr>se_source = source, se_sdk = handle\<rparr>;
              failed = (\<lambda>err. (Inl (dependencyError errtext source err),
                \<lparr>rl_opened = [opened], rl_closed = [opened]\<rparr>))
          in case (if mt_tools source = [] then listTools codec source (sdk_List sdk handle)
                   else Inr (mt_tools source, [])) of
               Inl err \<Rightarrow> failed err
             | Inr (children, changes) \<Rightarrow>
                 (case NewMCPToolSource (mt_key source) (mt_description source) (mt_source source)
                     children of
                    Inl err \<Rightarrow> failed err
                  | Inr declaration \<Rightarrow>
                      (case decl_MCP declaration of
                         None \<Rightarrow> failed (Panicked ''unreachable'')
                       | Some catalog \<Rightarrow>
                           (Inr \<lparr>sr_session = opened, sr_catalog = catalog,
                              sr_catalogBytes = retainedCatalogBytes catalog, sr_changes = changes\<rparr>,
                            \<lparr>rl_opened = [opened], rl_closed = []\<rparr>))))"

fun catalog_bindings ::
    "MCPToolSource \<Rightarrow> ToolDeclaration list \<Rightarrow>
     go_error + ((ToolKey \<times> mcp_binding) list \<times> ToolDeclaration list)" where
  "catalog_bindings catalog [] = Inr ([], [])"
| "catalog_bindings catalog (declaration # rest) =
     (case declaration of
        function_tool key description schema contract \<Rightarrow>
          let description =
                (let sourceDescription = TrimSpace (mt_description catalog)
                 in if sourceDescription \<noteq> [] then
                      (if TrimSpace description = [] then sourceDescription
                       else sourceDescription @ [CHR 0x0A, CHR 0x0A] @ description)
                    else description)
          in and_then (NewFunctionTool key description schema contract) (\<lambda>attemptDeclaration.
            and_then (catalog_bindings catalog rest) (\<lambda>(bindings, attemptTools).
              Inr ((key, \<lparr>bn_source = mt_key catalog, bn_remoteName = tk_name key\<rparr>) # bindings,
                attemptDeclaration # attemptTools)))
      | _ \<Rightarrow> Inl (Errorf ''MCP catalog contains a non-function child'' []))"

definition bindingsForCatalog ::
    "MCPToolSource \<Rightarrow>
     go_error + ((ToolKey \<times> mcp_binding) list \<times> ToolDeclaration list \<times> Change list)" where
  "bindingsForCatalog catalog =
     and_then (catalog_bindings catalog (mt_tools catalog)) (\<lambda>(bindings, attemptTools).
       Inr (bindings, attemptTools,
         if TrimSpace (mt_description catalog) \<noteq> [] \<and> bindings \<noteq> []
         then [\<lparr>cg_Capability = ''request.tools'', cg_Occurrence = tool_occurrence (mt_key catalog),
                cg_Kind = Approximation\<rparr>]
         else []))"

definition droppedSourceDecision :: "ToolKey \<Rightarrow> Change" where
  "droppedSourceDecision key =
     \<lparr>cg_Capability = ''request.tools'', cg_Occurrence = tool_occurrence key, cg_Kind = Omission\<rparr>"

section \<open>Opening\<close>

record 's openState =
  os_run :: "'s MCPRun"
  os_catalogs :: "(ToolKey \<times> MCPToolSource) list"
  os_changes :: "Change list"
  os_catalogBytes :: int
  os_opened :: "'s session list"
  os_closed :: "'s session list"

definition close_sessions :: "'s openState \<Rightarrow> 's openState" where
  "close_sessions st =
     st\<lparr>os_closed := os_closed st @ map snd (run_sessions (os_run st)),
        os_run := (os_run st)\<lparr>run_sessions := []\<rparr>\<rparr>"

text \<open>A source that cannot be used: terminal when the request requires it, otherwise dropped.\<close>

definition source_failed ::
    "bool \<Rightarrow> ToolKey \<Rightarrow> go_error \<Rightarrow> 's openState \<Rightarrow> (go_error \<times> 's openState) + 's openState" where
  "source_failed terminal key err st =
     (if terminal then Inl (err, close_sessions st)
      else Inr (st\<lparr>os_run := (os_run st)\<lparr>run_firstUnavailable :=
            (case run_firstUnavailable (os_run st) of None \<Rightarrow> Some err | Some e \<Rightarrow> Some e)\<rparr>,
          os_changes := os_changes st @ [droppedSourceDecision key]\<rparr>))"

definition open_resolved ::
    "(go_error \<Rightarrow> string) \<Rightarrow> bool \<Rightarrow> MCPToolSource \<Rightarrow> 's sourceResolution \<Rightarrow> 's openState \<Rightarrow>
     (go_error \<times> 's openState) + 's openState" where
  "open_resolved errtext required source resolved st =
     (let key = mt_key source;
          bytes = (if sr_catalogBytes resolved = 0 then retainedCatalogBytes (sr_catalog resolved)
            else sr_catalogBytes resolved);
          session_closed = st\<lparr>os_closed := os_closed st @ [sr_session resolved]\<rparr>
      in if bytes > MaxCatalogBytesPerSource \<or> os_catalogBytes st > MaxCatalogBytesPerRun - bytes
         then source_failed required key (dependencyError errtext source
           (Errorf ''MCP catalog exceeds the exchange byte limit'' [])) session_closed
         else case bindingsForCatalog (sr_catalog resolved) of
           Inl bindingErr \<Rightarrow>
             source_failed required key (dependencyError errtext source bindingErr)
               (session_closed\<lparr>os_catalogBytes := os_catalogBytes st + bytes,
                  os_catalogs := AList.delete key (os_catalogs st),
                  os_run := (os_run st)\<lparr>run_sessions :=
                    AList.delete key (run_sessions (os_run st))\<rparr>\<rparr>)
         | Inr (bindings, attemptTools, bindingDecisions) \<Rightarrow>
             Inr (st\<lparr>os_catalogBytes := os_catalogBytes st + bytes,
               os_catalogs := AList.update key (sr_catalog resolved) (os_catalogs st),
               os_run := (os_run st)\<lparr>
                 run_sessions := AList.update key (sr_session resolved) (run_sessions (os_run st)),
                 run_bindings := AList.updates (map fst bindings) (map snd bindings)
                   (run_bindings (os_run st)),
                 run_attemptTools := AList.update key attemptTools (run_attemptTools (os_run st))\<rparr>,
               os_changes := os_changes st @ sr_changes resolved @ bindingDecisions @
                 (if ms_loading (mt_source source) = ''deferred''
                  then [\<lparr>cg_Capability = ''request.tools'', cg_Occurrence = tool_occurrence key,
                         cg_Kind = Approximation\<rparr>]
                  else [])\<rparr>))"

definition open_source ::
    "(go_error \<Rightarrow> string) \<Rightarrow> (MCPToolSource \<Rightarrow> bool) \<Rightarrow> ToolPolicy \<Rightarrow> Access \<Rightarrow> 's sourceResolver \<Rightarrow>
     MCPToolSource \<Rightarrow> 's openState \<Rightarrow> (go_error \<times> 's openState) + 's openState" where
  "open_source errtext requires policy access resolve source st =
     (let key = mt_key source;
          st = st\<lparr>os_run := (os_run st)\<lparr>run_localSources :=
            List.insert key (run_localSources (os_run st))\<rparr>\<rparr>
      in if \<not> source_active policy source then Inr st
         else let (result, log) = resolve source (ForSource access key);
                  st = st\<lparr>os_opened := os_opened st @ rl_opened log,
                    os_closed := os_closed st @ rl_closed log\<rparr>
         in case result of
              Inl resolveErr \<Rightarrow>
                source_failed (sourceFailureIsInvariant resolveErr \<or> requires source) key resolveErr st
            | Inr resolved \<Rightarrow> open_resolved errtext (requires source) source resolved st)"

fun open_sources ::
    "(go_error \<Rightarrow> string) \<Rightarrow> (MCPToolSource \<Rightarrow> bool) \<Rightarrow> ToolPolicy \<Rightarrow> Access \<Rightarrow> 's sourceResolver \<Rightarrow>
     MCPToolSource list \<Rightarrow> 's openState \<Rightarrow> (go_error \<times> 's openState) + 's openState" where
  "open_sources errtext requires policy access resolve [] st = Inr st"
| "open_sources errtext requires policy access resolve (source # sources) st =
     and_then (open_source errtext requires policy access resolve source st) (\<lambda>st.
       open_sources errtext requires policy access resolve sources st)"

definition apply_catalog ::
    "(ToolKey \<times> MCPToolSource) list \<Rightarrow> ToolDeclaration \<Rightarrow> go_error + ToolDeclaration" where
  "apply_catalog catalogs declaration =
     (case decl_MCP declaration of
        None \<Rightarrow> Inr declaration
      | Some source \<Rightarrow>
          (case map_of catalogs (mt_key source) of
             None \<Rightarrow> Inr declaration
           | Some catalog \<Rightarrow> NewMCPToolSource (mt_key catalog) (mt_description catalog)
               (mt_source catalog) (mt_tools catalog)))"

definition applyCatalogs ::
    "platform \<Rightarrow> 'c CanonicalRequest \<Rightarrow> (ToolKey \<times> MCPToolSource) list \<Rightarrow>
     go_error + 'c CanonicalRequest" where
  "applyCatalogs p request catalogs =
     TransformToolContributions p request (Some (\<lambda>tools.
       and_then (map_result (apply_catalog catalogs) (set_ordered tools)) NewToolSet))"

definition project_declaration :: "'s MCPRun \<Rightarrow> ToolDeclaration \<Rightarrow> ToolDeclaration list" where
  "project_declaration r declaration =
     (case decl_MCP declaration of
        None \<Rightarrow> [declaration]
      | Some source \<Rightarrow>
          if mt_key source \<notin> set (run_localSources r) then [declaration]
          else case map_of (run_attemptTools r) (mt_key source) of None \<Rightarrow> [] | Some tools \<Rightarrow> tools)"

definition rewriteAttempt ::
    "platform \<Rightarrow> 's MCPRun \<Rightarrow> 'c CanonicalRequest \<Rightarrow> go_error + 'c CanonicalRequest" where
  "rewriteAttempt p r request =
     TransformToolContributions p request (Some (\<lambda>tools.
       NewToolSet (concat (map (project_declaration r) (set_ordered tools)))))"

definition validateAttemptPolicy ::
    "platform \<Rightarrow> 's MCPRun \<Rightarrow> 'c CanonicalRequest \<Rightarrow> go_error + unit" where
  "validateAttemptPolicy p r attempt =
     and_then (EffectiveTools attempt) (\<lambda>environment.
       case ValidateForTools p (rq_ToolPolicy p attempt) (set_ordered (env_declarations environment)) of
         Inr _ \<Rightarrow> Inr ()
       | Inl policyErr \<Rightarrow>
           (case run_firstUnavailable r of
              Some unavailable \<Rightarrow>
                if tp_Mode (rq_ToolPolicy p attempt) = ToolPolicyRequired \<or>
                  tp_Mode (rq_ToolPolicy p attempt) = ToolPolicySpecific
                then Inl unavailable else Inl policyErr
            | None \<Rightarrow> Inl policyErr))"

record ('c, 's) opened =
  op_result :: "go_error + 'c CanonicalRequest \<times> 's MCPRun option"
  op_changes :: "Change list"
  op_opened :: "'s session list"
  op_closed :: "'s session list"

definition refused :: "go_error \<Rightarrow> ('c, 's) opened" where
  "refused err = \<lparr>op_result = Inl err, op_changes = [], op_opened = [], op_closed = []\<rparr>"

definition opened_failed :: "go_error \<Rightarrow> 's openState \<Rightarrow> ('c, 's) opened" where
  "opened_failed err st =
     \<lparr>op_result = Inl err, op_changes = os_changes st, op_opened = os_opened st,
      op_closed = os_closed st\<rparr>"

definition finish_open ::
    "platform \<Rightarrow> 'c CanonicalRequest \<Rightarrow> 's openState \<Rightarrow> ('c, 's) opened" where
  "finish_open p request st =
     (case and_then (applyCatalogs p request (os_catalogs st)) (\<lambda>prepared.
        and_then (rewriteAttempt p (os_run st) prepared) (\<lambda>attempt.
          and_then (validateAttemptPolicy p (os_run st) attempt) (\<lambda>_. Inr prepared))) of
        Inl err \<Rightarrow> opened_failed err (close_sessions st)
      | Inr prepared \<Rightarrow>
          \<lparr>op_result = Inr (prepared, Some (os_run st)), op_changes = os_changes st,
           op_opened = os_opened st, op_closed = os_closed st\<rparr>)"

definition zeroRun :: "'s MCPRun" where
  "zeroRun = \<lparr>run_sessions = [], run_bindings = [], run_attemptTools = [], run_localSources = [],
     run_callCount = 0, run_roundCount = 0, run_firstUnavailable = None\<rparr>"

definition zeroOpenState :: "'s openState" where
  "zeroOpenState = \<lparr>os_run = zeroRun, os_catalogs = [], os_changes = [], os_catalogBytes = 0,
     os_opened = [], os_closed = []\<rparr>"

definition openWith ::
    "platform \<Rightarrow> (go_error \<Rightarrow> string) \<Rightarrow> 'c CanonicalRequest \<Rightarrow> Access \<Rightarrow> 's sourceResolver option \<Rightarrow>
     ('c, 's) opened" where
  "openWith p errtext request access resolver =
     (case resolver of
        None \<Rightarrow> refused (canonical_Error ErrorCodeInternal ''MCP source resolver is nil'')
      | Some resolve \<Rightarrow>
          (case EffectiveTools request of
             Inl err \<Rightarrow> refused err
           | Inr environment \<Rightarrow>
               (case validateLocallyExecutableSources environment of
                  Inl err \<Rightarrow> refused err
                | Inr _ \<Rightarrow>
                    let sources = localMCPSources environment
                    in if sources = []
                       then \<lparr>op_result = Inr (request, None), op_changes = [], op_opened = [],
                             op_closed = []\<rparr>
                       else (case EffectiveToolPolicy p request of
                          Inl err \<Rightarrow> refused err
                        | Inr policy \<Rightarrow>
                            if length (filter (source_active policy) sources) > MaxSourcesPerRequest
                            then refused (BadRequest
                              ''responses request exceeds the remote MCP source limit'')
                            else (case open_sources errtext (requestRequiresSource p request environment)
                                policy access resolve
                                (requiredSourcesFirst p request environment sources) zeroOpenState of
                               Inl (err, st) \<Rightarrow> opened_failed err st
                             | Inr st \<Rightarrow> finish_open p request st)))))"

definition mcp_Open ::
    "platform \<Rightarrow> json_codec \<Rightarrow> (go_error \<Rightarrow> string) \<Rightarrow> 's mcp_sdk \<Rightarrow> 'c CanonicalRequest \<Rightarrow> Access \<Rightarrow>
     ('c, 's) opened" where
  "mcp_Open p codec errtext sdk request access =
     openWith p errtext request access (Some (resolveRemoteSource codec errtext sdk))"

section \<open>Using a run\<close>

definition CanExecute :: "'s MCPRun option \<Rightarrow> bool" where
  "CanExecute r = (case r of None \<Rightarrow> False | Some r \<Rightarrow> run_bindings r \<noteq> [])"

definition AttemptRequest ::
    "platform \<Rightarrow> 's MCPRun option \<Rightarrow> 'c CanonicalRequest \<Rightarrow> go_error + 'c CanonicalRequest" where
  "AttemptRequest p r request = (case r of None \<Rightarrow> Inr request | Some r \<Rightarrow> rewriteAttempt p r request)"

definition callerExecutes :: "ToolCallItem \<Rightarrow> bool" where
  "callerExecutes call =
     (if tk_kind (tc_tool call) = ToolKindFunction \<or> tk_kind (tc_tool call) = ToolKindCustom then True
      else if tk_kind (tc_tool call) = ToolKindDiscovery
      then call_DiscoveryExecutor call \<in> {None, Some DiscoveryExecutorClient}
      else False)"

definition tool_calls :: "CanonicalItem list \<Rightarrow> ToolCallItem list" where
  "tool_calls items =
     List.map_filter (\<lambda>item. case item of tool_call_item call \<Rightarrow> Some call | _ \<Rightarrow> None) items"

definition owned :: "'s MCPRun \<Rightarrow> ToolCallItem \<Rightarrow> bool" where
  "owned r call \<longleftrightarrow> map_of (run_bindings r) (tc_tool call) \<noteq> None"

definition Calls :: "'s MCPRun option \<Rightarrow> CanonicalItem list \<Rightarrow> go_error + ToolCallItem list" where
  "Calls r items =
     (case r of
        None \<Rightarrow> Inr []
      | Some r \<Rightarrow>
          let remote = filter (owned r) (tool_calls items);
              callerOwned = filter (\<lambda>c. \<not> owned r c \<and> callerExecutes c) (tool_calls items)
          in if remote \<noteq> [] \<and> callerOwned \<noteq> []
             then Inl (NotImplemented
               ''Swobu does not implement assistant rounds that mix remote MCP and caller-owned tool calls'')
             else Inr remote)"

definition BeginBatch ::
    "'s MCPRun option \<Rightarrow> ToolCallItem list \<Rightarrow> go_error + 's MCPRun" where
  "BeginBatch r calls =
     (case r of
        None \<Rightarrow> Inl (canonical_Error ErrorCodeInternal ''MCP batch requires an open runtime'')
      | Some r \<Rightarrow>
          if calls = [] then Inl (canonical_Error ErrorCodeInternal ''MCP batch is empty'')
          else if list_ex (\<lambda>c. \<not> owned r c) calls
          then Inl (canonical_Error ErrorCodeInternal
            ''MCP batch contains a call not owned by this runtime'')
          else if run_roundCount r \<ge> MaxRemoteRoundsPerRun \<or>
            run_callCount r + length calls > MaxRemoteCallsPerRun
          then Inl (backend_error ''mcp'' 502
            ''remote MCP execution exceeded the exchange side-effect budget'')
          else Inr (r\<lparr>run_roundCount := Suc (run_roundCount r),
            run_callCount := run_callCount r + length calls\<rparr>))"

definition mcp_Call ::
    "json_codec \<Rightarrow> (go_error \<Rightarrow> string) \<Rightarrow> 's mcp_sdk \<Rightarrow> 's MCPRun option \<Rightarrow> ToolCallItem \<Rightarrow>
     go_error + CanonicalItem" where
  "mcp_Call codec errtext sdk r call =
     (case r of
        None \<Rightarrow> Inl (canonical_Error ErrorCodeInternal ''MCP call requires an open runtime'')
      | Some r \<Rightarrow>
          (case map_of (run_bindings r) (tc_tool call) of
             None \<Rightarrow> Inl (canonical_Error ErrorCodeInternal
               ''MCP call has no request-owned execution binding'')
           | Some b \<Rightarrow>
               (case map_of (run_sessions r) (bn_source b) of
                  None \<Rightarrow> Inl (backend_error (''mcp:'' @ tk_name (bn_source b)) 401
                    ''MCP source is not authorized for this request'')
                | Some active \<Rightarrow>
                    (case tc_input call of
                       object_input input \<Rightarrow>
                         (case callWithTimeout codec (sdk_Call sdk (se_sdk active)) (bn_remoteName b) input of
                            Inl err \<Rightarrow> Inl (dependencyError errtext (se_source active) err)
                          | Inr (parts, isError) \<Rightarrow>
                              (case NewToolResultItem (tc_callID call) parts isError of
                                 Inl err \<Rightarrow> Inl (CanonicalError ErrorCodeInternal (error_text err) None)
                               | Inr result \<Rightarrow> Inr result))
                     | _ \<Rightarrow> Inl (canonical_Error ErrorCodeInternal
                         ''MCP tool call input is not an object'')))))"

text \<open>\<^verbatim>\<open>Close\<close>: the joined errors, the emptied run and the sessions closed.\<close>

definition mcp_Close ::
    "'s mcp_sdk \<Rightarrow> 's MCPRun option \<Rightarrow> go_error list \<times> 's MCPRun option \<times> 's session list" where
  "mcp_Close sdk r =
     (case r of
        None \<Rightarrow> ([], None, [])
      | Some r \<Rightarrow>
          let sessions = map snd (run_sessions r)
          in (List.map_filter (\<lambda>s. sdk_Close sdk (se_sdk s)) sessions,
              Some (r\<lparr>run_sessions := []\<rparr>), sessions))"

end
