(* ===== verification/MCP_Properties.thy ===== *)
theory MCP_Properties
  imports MCP_Run "HOL-Library.Multiset"
begin

text \<open>
  What the MCP aggregate promises: no session is left open, a provider never sees a remote
  source, a call is executed in one place only, and the remote effects of an exchange are bounded.
  The locale \<open>source_resolver\<close> is the contract between opening and the resolution of one source.
\<close>

section \<open>Sessions\<close>

locale source_resolver =
  fixes resolve :: "'s sourceResolver"
  assumes failure_closed:
      "resolve source a = (Inl e, log) \<Longrightarrow> mset (rl_opened log) = mset (rl_closed log)"
    and success_held:
      "resolve source a = (Inr r, log) \<Longrightarrow>
         mset (rl_opened log) = add_mset (sr_session r) (mset (rl_closed log))"
    and same_source: "resolve source a = (Inr r, log) \<Longrightarrow> mt_key (sr_catalog r) = mt_key source"

definition sessions_balanced :: "'s openState \<Rightarrow> bool" where
  "sessions_balanced st \<longleftrightarrow>
     mset (os_opened st) = mset (os_closed st) + mset (map snd (run_sessions (os_run st)))"

definition session_keys :: "'s openState \<Rightarrow> ToolKey set" where
  "session_keys st = fst ` set (run_sessions (os_run st))"

text \<open>The state a step leaves, whether it ended the opening or not.\<close>

definition left_state :: "(go_error \<times> 's openState) + 's openState \<Rightarrow> 's openState" where
  "left_state r = (case r of Inl (_, st) \<Rightarrow> st | Inr st \<Rightarrow> st)"

definition settled :: "(go_error \<times> 's openState) + 's openState \<Rightarrow> bool" where
  "settled r \<longleftrightarrow> sessions_balanced (left_state r) \<and>
     (\<forall>e st. r = Inl (e, st) \<longrightarrow> run_sessions (os_run st) = [])"

lemma source_failed_settled:
  "sessions_balanced st \<Longrightarrow> settled (source_failed terminal key err st)"
  by (auto simp: source_failed_def settled_def left_state_def sessions_balanced_def close_sessions_def)

lemma source_failed_keys: "session_keys (left_state (source_failed t key err st)) \<subseteq> session_keys st"
  by (auto simp: source_failed_def left_state_def session_keys_def close_sessions_def)

lemma update_fresh_key: "k \<notin> fst ` set m \<Longrightarrow> AList.update k v m = m @ [(k, v)]"
  by (induction m) auto

lemma delete_fresh: "k \<notin> fst ` set m \<Longrightarrow> AList.delete k m = m"
  by (simp add: AList.delete_id)

text \<open>A step is sound when it settles and opens at most the session of its source.\<close>

definition sound_step :: "ToolKey \<Rightarrow> 's openState \<Rightarrow> (go_error \<times> 's openState) + 's openState \<Rightarrow> bool" where
  "sound_step key st r \<longleftrightarrow> settled r \<and> session_keys (left_state r) \<subseteq> insert key (session_keys st)"

lemma source_failed_sound:
  assumes "sessions_balanced st'" and "session_keys st' \<subseteq> insert key (session_keys st)"
  shows "sound_step key st (source_failed terminal k err st')"
  unfolding sound_step_def
  using source_failed_settled [OF assms(1)] source_failed_keys [of terminal k err st'] assms(2) by blast

lemma open_resolved_sound:
  assumes "mset (os_opened st) =
      add_mset (sr_session resolved) (mset (os_closed st) + mset (map snd (run_sessions (os_run st))))"
    and "mt_key source \<notin> session_keys st"
  shows "sound_step (mt_key source) st (open_resolved errtext required source resolved st)"
proof -
  have fresh: "mt_key source \<notin> fst ` set (run_sessions (os_run st))"
    using assms(2) by (simp add: session_keys_def)
  define bytes where "bytes = (if sr_catalogBytes resolved = 0
      then retainedCatalogBytes (sr_catalog resolved) else sr_catalogBytes resolved)"
  consider (big) "bytes > MaxCatalogBytesPerSource \<or> os_catalogBytes st > MaxCatalogBytesPerRun - bytes"
    | (bad) e where "\<not> (bytes > MaxCatalogBytesPerSource \<or> os_catalogBytes st > MaxCatalogBytesPerRun - bytes)"
        "bindingsForCatalog (sr_catalog resolved) = Inl e"
    | (good) b t d where "\<not> (bytes > MaxCatalogBytesPerSource \<or> os_catalogBytes st > MaxCatalogBytesPerRun - bytes)"
        "bindingsForCatalog (sr_catalog resolved) = Inr (b, t, d)"
    by (cases "bindingsForCatalog (sr_catalog resolved)") auto
  then show ?thesis
  proof cases
    case big
    show ?thesis
      unfolding open_resolved_def Let_def bytes_def [symmetric] if_P [OF big]
      by (rule source_failed_sound) (use assms(1) in \<open>auto simp: sessions_balanced_def session_keys_def\<close>)
  next
    case (bad e)
    show ?thesis
      unfolding open_resolved_def Let_def bytes_def [symmetric] if_not_P [OF bad(1)] bad(2) sum.case
      by (rule source_failed_sound)
        (use assms(1) in \<open>auto simp: sessions_balanced_def session_keys_def delete_fresh [OF fresh]\<close>)
  next
    case (good b t d)
    show ?thesis
      unfolding open_resolved_def Let_def bytes_def [symmetric] if_not_P [OF good(1)] good(2) sum.case
      using assms(1)
      by (simp add: sound_step_def settled_def left_state_def sessions_balanced_def session_keys_def
          update_fresh_key [OF fresh])
  qed
qed

lemma disjoint_step: "B \<subseteq> insert k A \<Longrightarrow> k \<notin> S \<Longrightarrow> S \<inter> A = {} \<Longrightarrow> S \<inter> B = {}"
  by blast

context source_resolver
begin

lemma open_source_sound:
  assumes "sessions_balanced st" and "mt_key source \<notin> session_keys st"
  shows "sound_step (mt_key source) st (open_source errtext requires policy access resolve source st)"
proof -
  let ?st = "st\<lparr>os_run := (os_run st)\<lparr>run_localSources :=
      List.insert (mt_key source) (run_localSources (os_run st))\<rparr>\<rparr>"
  obtain result log where r: "resolve source (ForSource access (mt_key source)) = (result, log)"
    by fastforce
  define st2 where "st2 = ?st\<lparr>os_opened := os_opened ?st @ rl_opened log, os_closed := os_closed ?st @ rl_closed log\<rparr>"
  have keys: "session_keys st2 = session_keys st" by (simp add: session_keys_def st2_def)
  show ?thesis
  proof (cases "source_active policy source")
    case False
    then show ?thesis
      using assms(1)
      by (auto simp: open_source_def sound_step_def settled_def left_state_def sessions_balanced_def
          session_keys_def)
  next
    case active: True
    show ?thesis
    proof (cases result)
      case (Inl e)
      have "sessions_balanced st2"
        using assms(1) failure_closed [OF r [unfolded Inl]] by (simp add: sessions_balanced_def st2_def)
      then have "sound_step (mt_key source) st (source_failed (sourceFailureIsInvariant e \<or> requires source)
          (mt_key source) e st2)"
        by (rule source_failed_sound) (simp add: keys subset_insertI)
      then show ?thesis using active Inl r by (simp add: open_source_def Let_def st2_def)
    next
      case (Inr resolved)
      have "mset (os_opened st2) = add_mset (sr_session resolved)
          (mset (os_closed st2) + mset (map snd (run_sessions (os_run st2))))"
        using assms(1) success_held [OF r [unfolded Inr]] by (simp add: sessions_balanced_def st2_def)
      from open_resolved_sound [OF this, of source errtext "requires source"]
      have "sound_step (mt_key source) st (open_resolved errtext (requires source) source resolved st2)"
        using assms(2) by (simp add: sound_step_def keys)
      then show ?thesis using active Inr r by (simp add: open_source_def Let_def st2_def)
    qed
  qed
qed

lemma open_sources_settled:
  assumes "sessions_balanced st" and "distinct (map mt_key sources)"
    and "mt_key ` set sources \<inter> session_keys st = {}"
  shows "settled (open_sources errtext requires policy access resolve sources st)"
  using assms
proof (induction sources arbitrary: st)
  case (Cons source sources)
  have fresh: "mt_key source \<notin> session_keys st" using Cons.prems(3) by auto
  note step = open_source_sound [OF Cons.prems(1) fresh, of errtext requires policy access,
      unfolded sound_step_def]
  show ?case
  proof (cases "open_source errtext requires policy access resolve source st")
    case (Inl e)
    then show ?thesis using step by simp
  next
    case (Inr st')
    have bal: "sessions_balanced st'" using step Inr by (simp add: settled_def left_state_def)
    have sub: "session_keys st' \<subseteq> insert (mt_key source) (session_keys st)"
      using step Inr by (simp add: left_state_def)
    have "mt_key source \<notin> mt_key ` set sources" using Cons.prems(2) by simp
    moreover have "mt_key ` set sources \<inter> session_keys st = {}" using Cons.prems(3) by simp
    ultimately have "mt_key ` set sources \<inter> session_keys st' = {}" by (rule disjoint_step [OF sub])
    with bal show ?thesis using Cons.IH [of st'] Cons.prems(2) Inr by simp
  qed
qed (simp add: settled_def left_state_def)

end

lemma resolveRemoteSource_cases:
  "resolveRemoteSource codec errtext sdk source access = (result, log) \<Longrightarrow>
     (case result of
        Inl e \<Rightarrow> mset (rl_opened log) = mset (rl_closed log)
      | Inr r \<Rightarrow> mset (rl_opened log) = add_mset (sr_session r) (mset (rl_closed log)) \<and>
          mt_key (sr_catalog r) = mt_key source)"
  by (auto simp: resolveRemoteSource_def Let_def decl_MCP_def NewMCPToolSource_def
      split: sum.splits option.splits ToolDeclaration.splits if_splits prod.splits)

interpretation remote: source_resolver "resolveRemoteSource codec errtext sdk" for codec errtext sdk
  using resolveRemoteSource_cases by unfold_locales fastforce+

section \<open>What a successful step adds\<close>

definition run_wf :: "'s openState \<Rightarrow> bool" where
  "run_wf st \<longleftrightarrow>
     (\<forall>t b. map_of (run_bindings (os_run st)) t = Some b \<longrightarrow>
        bn_source b \<in> session_keys st \<and> bn_remoteName b = tk_name t) \<and>
     (\<forall>k ts. map_of (run_attemptTools (os_run st)) k = Some ts \<longrightarrow> (\<forall>d \<in> set ts. decl_MCP d = None)) \<and>
     (\<forall>k c. map_of (os_catalogs st) k = Some c \<longrightarrow> mt_key c = k) \<and>
     run_callCount (os_run st) = 0 \<and> run_roundCount (os_run st) = 0"

definition accounted :: "(MCPToolSource \<Rightarrow> bool) \<Rightarrow> ToolPolicy \<Rightarrow> 's openState \<Rightarrow> MCPToolSource \<Rightarrow> bool" where
  "accounted requires policy st source \<longleftrightarrow>
     mt_key source \<in> set (run_localSources (os_run st)) \<and>
     (source_active policy source \<longrightarrow> mt_key source \<in> session_keys st \<or>
        \<not> requires source \<and> droppedSourceDecision (mt_key source) \<in> set (os_changes st))"

definition grows :: "'s openState \<Rightarrow> 's openState \<Rightarrow> bool" where
  "grows st st' \<longleftrightarrow> session_keys st \<subseteq> session_keys st' \<and> set (os_changes st) \<subseteq> set (os_changes st') \<and>
     set (run_localSources (os_run st)) \<subseteq> set (run_localSources (os_run st'))"

lemma grows_accounted: "grows st st' \<Longrightarrow> accounted requires policy st s \<Longrightarrow> accounted requires policy st' s"
  unfolding grows_def accounted_def by blast

lemma grows_trans: "grows a b \<Longrightarrow> grows b c \<Longrightarrow> grows a c"
  unfolding grows_def by blast

lemma source_failed_adds:
  assumes "source_failed terminal key err st = Inr st'"
  shows "\<not> terminal" and "grows st st'" and "droppedSourceDecision key \<in> set (os_changes st')"
    and "run_wf st \<Longrightarrow> run_wf st'" and "run_localSources (os_run st') = run_localSources (os_run st)"
  using assms
  by (auto simp: source_failed_def grows_def run_wf_def session_keys_def split: if_splits)

lemma updates_Some:
  "map_of (AList.updates ks vs m) t = Some b \<Longrightarrow>
     map_of m t = Some b \<or> (t, b) \<in> set (zip ks vs)"
proof (induction ks arbitrary: vs m)
  case (Cons k ks)
  then show ?case by (cases vs) (fastforce simp: update_conv' split: if_splits)+
qed simp

lemma catalog_bindings_ok:
  "catalog_bindings catalog ds = Inr (bindings, attemptTools) \<Longrightarrow>
     (\<forall>(t, b) \<in> set bindings. bn_source b = mt_key catalog \<and> bn_remoteName b = tk_name t) \<and>
     (\<forall>d \<in> set attemptTools. decl_MCP d = None)"
proof (induction ds arbitrary: bindings attemptTools)
  case (Cons d ds)
  then show ?case
    by (cases d) (auto simp: result_simps Let_def NewFunctionTool_def decl_MCP_def split: if_splits)
qed simp

lemma zip_fst_snd: "zip (map fst xs) (map snd xs) = xs"
  by (induction xs) auto

lemma open_resolved_adds:
  assumes "open_resolved errtext required source resolved st = Inr st'"
    and "mt_key (sr_catalog resolved) = mt_key source"
    and "mt_key source \<notin> session_keys st" and "run_wf st"
  shows "grows st st'" and "run_wf st'"
    and "mt_key source \<in> session_keys st' \<or> \<not> required \<and> droppedSourceDecision (mt_key source) \<in> set (os_changes st')"
proof -
  have fresh: "mt_key source \<notin> fst ` set (run_sessions (os_run st))"
    using assms(3) by (simp add: session_keys_def)
  have same: "grows st s \<and> run_wf s" if "os_run s = os_run st" "os_changes s = os_changes st"
      "\<And>k c. map_of (os_catalogs s) k = Some c \<Longrightarrow> map_of (os_catalogs st) k = Some c" for s
    using that assms(4) by (auto simp: grows_def run_wf_def session_keys_def)
  consider (failed) err s where "source_failed required (mt_key source) err s = Inr st'"
      "os_run s = os_run st" "os_changes s = os_changes st"
      "\<And>k c. map_of (os_catalogs s) k = Some c \<Longrightarrow> map_of (os_catalogs st) k = Some c"
    | (good) bindings tools b c where "catalog_bindings (sr_catalog resolved) (mt_tools (sr_catalog resolved)) =
        Inr (bindings, tools)"
      "st' = st\<lparr>os_catalogBytes := b, os_catalogs := AList.update (mt_key source) (sr_catalog resolved) (os_catalogs st),
        os_run := (os_run st)\<lparr>
          run_sessions := AList.update (mt_key source) (sr_session resolved) (run_sessions (os_run st)),
          run_bindings := AList.updates (map fst bindings) (map snd bindings) (run_bindings (os_run st)),
          run_attemptTools := AList.update (mt_key source) tools (run_attemptTools (os_run st))\<rparr>,
        os_changes := os_changes st @ c\<rparr>"
  proof -
    define bytes where "bytes = (if sr_catalogBytes resolved = 0
        then retainedCatalogBytes (sr_catalog resolved) else sr_catalogBytes resolved)"
    let ?big = "bytes > MaxCatalogBytesPerSource \<or> os_catalogBytes st > MaxCatalogBytesPerRun - bytes"
    note run = assms(1) [unfolded open_resolved_def Let_def, folded bytes_def]
    show thesis
    proof (cases ?big)
      case True
      show thesis
        by (rule failed [OF run [unfolded if_P [OF True]]]) simp_all
    next
      case small: False
      show thesis
      proof (cases "bindingsForCatalog (sr_catalog resolved)")
        case (Inl e)
        show thesis
          by (rule failed [OF run [unfolded if_not_P [OF small] Inl sum.case]])
            (simp_all add: delete_fresh [OF fresh] delete_conv' split: if_splits)
      next
        case (Inr r)
        obtain bindings tools d where r: "r = (bindings, tools, d)" by (cases r)
        with Inr have "catalog_bindings (sr_catalog resolved) (mt_tools (sr_catalog resolved)) = Inr (bindings, tools)"
          by (auto simp: bindingsForCatalog_def result_simps)
        from good [OF this] run [unfolded if_not_P [OF small] Inr r sum.case prod.case]
        show thesis by auto
      qed
    qed
  qed
  then have "grows st st' \<and> run_wf st' \<and> (mt_key source \<in> session_keys st' \<or>
      \<not> required \<and> droppedSourceDecision (mt_key source) \<in> set (os_changes st'))"
  proof cases
    case (failed err s)
    note f = source_failed_adds [OF failed(1)] same [OF failed(2-4)]
    show ?thesis using f grows_trans by blast
  next
    case (good bindings tools b c)
    have keys: "session_keys st' = insert (mt_key source) (session_keys st)"
      by (auto simp: good(2) session_keys_def update_fresh_key [OF fresh])
    have "run_wf st'"
      using assms(2,4) catalog_bindings_ok [OF good(1)] unfolding run_wf_def keys
      by (auto simp: good(2) update_conv' zip_fst_snd dest!: updates_Some split: if_splits)
    with keys show ?thesis by (auto simp: grows_def good(2))
  qed
  then show "grows st st'" "run_wf st'" "mt_key source \<in> session_keys st' \<or>
      \<not> required \<and> droppedSourceDecision (mt_key source) \<in> set (os_changes st')" by blast+
qed

context source_resolver
begin

lemma open_source_adds:
  assumes "open_source errtext requires policy access resolve source st = Inr st'"
    and "mt_key source \<notin> session_keys st" and "run_wf st"
  shows "grows st st' \<and> run_wf st' \<and> accounted requires policy st' source"
proof -
  define st1 where "st1 = st\<lparr>os_run := (os_run st)\<lparr>run_localSources :=
      List.insert (mt_key source) (run_localSources (os_run st))\<rparr>\<rparr>"
  have g1: "grows st st1" "run_wf st1" "session_keys st1 = session_keys st"
      "mt_key source \<in> set (run_localSources (os_run st1))"
    using assms(3) by (auto simp: st1_def grows_def run_wf_def session_keys_def)
  show ?thesis
  proof (cases "source_active policy source")
    case False
    then have "st' = st1" using assms(1) by (simp add: open_source_def st1_def)
    with False g1 show ?thesis by (simp add: accounted_def)
  next
    case active: True
    obtain result log where r: "resolve source (ForSource access (mt_key source)) = (result, log)"
      by fastforce
    define st2 where "st2 = st1\<lparr>os_opened := os_opened st1 @ rl_opened log, os_closed := os_closed st1 @ rl_closed log\<rparr>"
    have g2: "grows st st2" "run_wf st2" "session_keys st2 = session_keys st"
        "mt_key source \<in> set (run_localSources (os_run st2))"
      using g1 by (auto simp: st2_def grows_def run_wf_def session_keys_def)
    show ?thesis
    proof (cases result)
      case (Inl e)
      then have "source_failed (sourceFailureIsInvariant e \<or> requires source) (mt_key source) e st2 = Inr st'"
        using assms(1) active r by (simp add: open_source_def Let_def st1_def [symmetric] st2_def [symmetric])
      note f = source_failed_adds [OF this]
      then show ?thesis using g2 grows_trans unfolding accounted_def grows_def by blast
    next
      case (Inr resolved)
      then have run: "open_resolved errtext (requires source) source resolved st2 = Inr st'"
        using assms(1) active r by (simp add: open_source_def Let_def st1_def [symmetric] st2_def [symmetric])
      note f = open_resolved_adds [OF run same_source [OF r [unfolded Inr]] _ g2(2)]
      then show ?thesis
        using g2 assms(2) grows_trans unfolding accounted_def grows_def by blast
    qed
  qed
qed

lemma open_sources_adds:
  assumes "open_sources errtext requires policy access resolve sources st = Inr st'"
    and "distinct (map mt_key sources)" and "mt_key ` set sources \<inter> session_keys st = {}"
    and "sessions_balanced st" and "run_wf st"
  shows "grows st st' \<and> run_wf st' \<and> list_all (accounted requires policy st') sources"
  using assms
proof (induction sources arbitrary: st)
  case (Cons source sources)
  obtain mid where step: "open_source errtext requires policy access resolve source st = Inr mid"
    and rest: "open_sources errtext requires policy access resolve sources mid = Inr st'"
    using Cons.prems(1) by (auto simp: result_simps)
  have fresh: "mt_key source \<notin> session_keys st" using Cons.prems(3) by simp
  note one = open_source_adds [OF step fresh Cons.prems(5)]
  have snd: "sound_step (mt_key source) st (Inr mid)"
    using open_source_sound [OF Cons.prems(4) fresh, of errtext requires policy access] step by simp
  then have sub: "session_keys mid \<subseteq> insert (mt_key source) (session_keys st)" "sessions_balanced mid"
    by (simp_all add: sound_step_def settled_def left_state_def)
  have "mt_key ` set sources \<inter> session_keys mid = {}"
    by (rule disjoint_step [OF sub(1)]) (use Cons.prems(2,3) in simp_all)
  from Cons.IH [OF rest _ this sub(2)] Cons.prems(2) one grows_accounted grows_trans
  show ?case by fastforce
qed (simp add: grows_def)

end

section \<open>Sources of a request and their declarations\<close>

lemma local_sources_keys: "mt_key ` set (local_sources ds seen) \<inter> set seen = {}"
  by (induction ds seen rule: local_sources.induct) (auto split: option.splits if_splits)

lemma local_sources_distinct: "distinct (map mt_key (local_sources ds seen))"
proof (induction ds arbitrary: seen)
  case (Cons d ds)
  show ?case
  proof (cases "decl_MCP d")
    case None
    then show ?thesis using Cons.IH by simp
  next
    case (Some s)
    have "mt_key s \<notin> mt_key ` set (local_sources ds (mt_key s # seen))"
      using local_sources_keys [of ds "mt_key s # seen"] by simp
    with Some Cons.IH [of seen] Cons.IH [of "mt_key s # seen"] show ?thesis by simp
  qed
qed simp

lemma requiredSourcesFirst_perm: "mset (requiredSourcesFirst p request environment sources) = mset sources"
  by (simp add: requiredSourcesFirst_def)

lemma opening_sources:
  "distinct (map mt_key (requiredSourcesFirst p request e (localMCPSources e)))"
  "set (requiredSourcesFirst p request e (localMCPSources e)) = set (localMCPSources e)"
proof -
  let ?o = "requiredSourcesFirst p request e (localMCPSources e)"
  have m: "mset ?o = mset (localMCPSources e)" by (rule requiredSourcesFirst_perm)
  then show "set ?o = set (localMCPSources e)" by (rule mset_eq_setD)
  have "mset (map mt_key ?o) = mset (map mt_key (localMCPSources e))" using m by simp
  then show "distinct (map mt_key ?o)"
    using local_sources_distinct by (metis localMCPSources_def mset_eq_imp_distinct_iff)
qed

text \<open>A remote source never stands inside another declaration: no constructor builds one there.\<close>

fun flat_mcp :: "ToolDeclaration \<Rightarrow> bool" where
  "flat_mcp (namespace_tool k d ts) \<longleftrightarrow> list_all (\<lambda>t. decl_MCP t = None \<and> flat_mcp t) ts"
| "flat_mcp (mcp_tool k d s ts) \<longleftrightarrow> list_all (\<lambda>t. decl_MCP t = None \<and> flat_mcp t) ts"
| "flat_mcp _ \<longleftrightarrow> True"

definition request_flat :: "'c CanonicalRequest \<Rightarrow> bool" where
  "request_flat request \<longleftrightarrow> list_all (\<lambda>i. list_all flat_mcp (contribution i)) (rq_items request)"

definition mcp_known :: "ToolDeclaration list \<Rightarrow> (ToolKey \<times> resolvedTool) list \<Rightarrow> bool" where
  "mcp_known ordered byKey \<longleftrightarrow>
     (\<forall>k r. map_of byKey k = Some r \<longrightarrow> decl_MCP (rt_declaration r) \<noteq> None \<longrightarrow>
        decl_Key (rt_declaration r) = k \<and> rt_declaration r \<in> set ordered)"

lemma admit_known:
  assumes "admit d parent byKey = Inr r" and "mcp_known ordered byKey" and "decl_MCP d = None \<or> d \<in> set ordered"
  shows "case r of None \<Rightarrow> True | Some m \<Rightarrow> mcp_known ordered m"
  using assms by (auto simp: admit_def mcp_known_def update_conv' split: option.splits if_splits)

fun decl_children :: "ToolDeclaration \<Rightarrow> ToolDeclaration list" where
  "decl_children (namespace_tool k d ts) = ts"
| "decl_children (mcp_tool k d s ts) = ts"
| "decl_children _ = []"

lemma observe_tool_step:
  assumes "observe_tool d parent byKey = Inr m"
  obtains r where "admit d parent byKey = Inr r"
    and "case r of None \<Rightarrow> m = byKey | Some m1 \<Rightarrow> observe_tools (decl_children d) (decl_Key d) m1 = Inr m"
  using assms by (cases d) (auto simp: result_simps split: option.splits)

lemma observe_tools_known:
  assumes "\<And>t parent byKey m. t \<in> set ds \<Longrightarrow> observe_tool t parent byKey = Inr m \<Longrightarrow>
      mcp_known ordered byKey \<Longrightarrow> mcp_known ordered m"
    and "observe_tools ds parent byKey = Inr m" and "mcp_known ordered byKey"
  shows "mcp_known ordered m"
  using assms
proof (induction ds arbitrary: byKey)
  case (Cons t ts)
  then obtain mid where mid: "observe_tool t parent byKey = Inr mid" "observe_tools ts parent mid = Inr m"
    by (auto simp: result_simps)
  have "mcp_known ordered mid"
    using Cons.prems(1) [OF _ mid(1) Cons.prems(3)] by simp
  then show ?case using Cons.IH [OF _ mid(2)] Cons.prems(1) by (meson list.set_intros(2))
qed simp

lemma flat_children: "flat_mcp d \<Longrightarrow> t \<in> set (decl_children d) \<Longrightarrow> decl_MCP t = None \<and> flat_mcp t"
  by (cases d) (auto simp: list_all_iff)

lemma observe_known:
  "observe_tool d parent byKey = Inr m \<Longrightarrow> flat_mcp d \<Longrightarrow> mcp_known ordered byKey \<Longrightarrow>
     decl_MCP d = None \<or> d \<in> set ordered \<Longrightarrow> mcp_known ordered m"
proof (induction "size d" arbitrary: d parent byKey m rule: less_induct)
  case less
  obtain r where a: "admit d parent byKey = Inr r"
    and r: "case r of None \<Rightarrow> m = byKey | Some m1 \<Rightarrow> observe_tools (decl_children d) (decl_Key d) m1 = Inr m"
    using observe_tool_step [OF less.prems(1)] .
  show ?case
  proof (cases r)
    case None
    then show ?thesis using r less.prems(3) by simp
  next
    case (Some m1)
    have known: "mcp_known ordered m1" using admit_known [OF a less.prems(3,4)] Some by simp
    have small: "size t < size d" if "t \<in> set (decl_children d)" for t
      using that by (cases d) (auto dest: size_list_estimation' [where f = size and y = "size t"])
    have "mcp_known ordered m'" if "t \<in> set (decl_children d)" "observe_tool t p' b' = Inr m'" "mcp_known ordered b'"
      for t p' b' m'
      using less.hyps [OF small [OF that(1)] that(2)] flat_children [OF less.prems(2) that(1)] that(3) by blast
    then show ?thesis
      using observe_tools_known [of "decl_children d" ordered "decl_Key d" m1 m] r Some known by simp
  qed
qed

lemma mcp_known_mono: "mcp_known ordered m \<Longrightarrow> set ordered \<subseteq> set ordered' \<Longrightarrow> mcp_known ordered' m"
  by (auto simp: mcp_known_def)

definition covered :: "ToolDeclaration list \<Rightarrow> ToolDeclaration \<Rightarrow> bool" where
  "covered ordered d \<longleftrightarrow> decl_MCP d = None \<or>
     (\<exists>d' \<in> set ordered. decl_MCP d' \<noteq> None \<and> decl_Key d' = decl_Key d)"

lemma covered_mono: "covered ordered d \<Longrightarrow> set ordered \<subseteq> set ordered' \<Longrightarrow> covered ordered' d"
  by (auto simp: covered_def)

lemma Equivalent_mcp: "Equivalent d' d \<Longrightarrow> decl_MCP d \<noteq> None \<Longrightarrow> decl_MCP d' \<noteq> None"
  by (cases d; cases d') (auto simp: decl_MCP_def)

lemma add_declarations_covered:
  "add_declarations ds (ordered, byKey) = Inr (ordered', byKey') \<Longrightarrow> list_all flat_mcp ds \<Longrightarrow>
     mcp_known ordered byKey \<Longrightarrow>
     mcp_known ordered' byKey' \<and> set ordered \<subseteq> set ordered' \<and> list_all (covered ordered') ds"
proof (induction ds arbitrary: ordered byKey)
  case (Cons d ds)
  show ?case
  proof (cases "map_of byKey (decl_Key d)")
    case None
    then obtain m where m: "observe_tool d zeroToolKey byKey = Inr m"
      "add_declarations ds (ordered @ [d], m) = Inr (ordered', byKey')"
      using Cons.prems(1) by (auto simp: result_simps)
    have "mcp_known (ordered @ [d]) m"
      by (rule observe_known [OF m(1)]) (use Cons.prems(2) mcp_known_mono [OF Cons.prems(3), of "ordered @ [d]"] in auto)
    from Cons.IH [OF m(2) _ this] Cons.prems(2) show ?thesis
      by (auto simp: covered_def)
  next
    case (Some prior)
    then have eq: "Equivalent (rt_declaration prior) d"
      and rest: "add_declarations ds (ordered, byKey) = Inr (ordered', byKey')"
      using Cons.prems(1) by (auto split: if_splits)
    have "covered ordered d"
    proof (cases "decl_MCP d = None")
      case False
      then have "decl_MCP (rt_declaration prior) \<noteq> None" using Equivalent_mcp [OF eq] by simp
      then show ?thesis using Cons.prems(3) Some unfolding mcp_known_def covered_def by blast
    qed (simp add: covered_def)
    with Cons.IH [OF rest] Cons.prems(2,3) covered_mono show ?thesis by fastforce
  qed
qed simp

lemma fold_contributions_covered:
  "fold_contributions items (ordered, byKey) = Inr (ordered', byKey') \<Longrightarrow>
     list_all (\<lambda>i. list_all flat_mcp (contribution i)) items \<Longrightarrow> mcp_known ordered byKey \<Longrightarrow>
     set ordered \<subseteq> set ordered' \<and> list_all (\<lambda>i. list_all (covered ordered') (contribution i)) items"
proof (induction items arbitrary: ordered byKey)
  case (Cons i items)
  then obtain o2 b2 where one: "add_declarations (contribution i) (ordered, byKey) = Inr (o2, b2)"
    and rest: "fold_contributions items (o2, b2) = Inr (ordered', byKey')"
    by (auto simp: result_simps)
  note a = add_declarations_covered [OF one] and b = Cons.IH [OF rest]
  show ?case using a b Cons.prems(2,3) covered_mono by (fastforce simp: list_all_iff)
qed simp

lemma EffectiveTools_covers:
  assumes "EffectiveTools request = Inr environment" and "request_flat request"
    and "item \<in> set (rq_items request)" and "d \<in> set (contribution item)"
  shows "covered (set_ordered (env_declarations environment)) d"
proof -
  obtain ordered byKey declarations where "fold_contributions (rq_items request) ([], []) = Inr (ordered, byKey)"
    "NewToolSet ordered = Inr declarations" "env_declarations environment = declarations"
    using assms(1) by (auto simp: EffectiveTools_def ToolEnvironmentAt_def result_simps)
  moreover from this(2) have "set_ordered declarations = ordered"
    by (auto simp: NewToolSet_def result_simps)
  moreover have "mcp_known [] []" by (simp add: mcp_known_def)
  ultimately show ?thesis
    using fold_contributions_covered assms(2-4) by (fastforce simp: request_flat_def list_all_iff)
qed

lemma local_sources_complete:
  assumes "d \<in> set ds" and "decl_MCP d = Some s" and "locally_executable d = Inr ()"
  shows "mt_key s \<in> set seen \<or> mt_key s \<in> mt_key ` set (local_sources ds seen)"
  using assms(1)
proof (induction ds arbitrary: seen)
  case (Cons x xs)
  have ok: "ms_kind (mt_source s) = ''url''" "ma_kind (ms_approval (mt_source s)) = ''never''"
      "ms_allowedCallers (mt_source s) = None"
    using assms(2,3) by (auto simp: locally_executable_def Let_def split: if_splits)
  show ?case
  proof (cases "x = d")
    case True
    then show ?thesis using assms(2) ok by simp
  next
    case False
    then have "d \<in> set xs" using Cons.prems by simp
    note ih = Cons.IH [OF this]
    show ?thesis
    proof (cases "decl_MCP x")
      case None
      then show ?thesis using ih by simp
    next
      case (Some y)
      then show ?thesis using ih [of seen] ih [of "mt_key y # seen"] by (simp, blast)
    qed
  qed
qed simp

section \<open>What opening promises\<close>

lemma zeroOpenState_ok: "sessions_balanced zeroOpenState" "run_wf zeroOpenState" "session_keys zeroOpenState = {}"
  by (simp_all add: zeroOpenState_def zeroRun_def sessions_balanced_def run_wf_def session_keys_def)

lemma mcp_Open_success:
  assumes "op_result (mcp_Open p codec errtext sdk request access) = Inr (prepared, run)"
  obtains environment where "EffectiveTools request = Inr environment"
    and "validateLocallyExecutableSources environment = Inr ()"
    and "run = None \<Longrightarrow> localMCPSources environment = [] \<and> prepared = request"
    and "\<And>r. run = Some r \<Longrightarrow> \<exists>policy st. EffectiveToolPolicy p request = Inr policy \<and> r = os_run st \<and>
      open_sources errtext (requestRequiresSource p request environment) policy access
        (resolveRemoteSource codec errtext sdk)
        (requiredSourcesFirst p request environment (localMCPSources environment)) zeroOpenState = Inr st \<and>
      op_changes (mcp_Open p codec errtext sdk request access) = os_changes st \<and>
      applyCatalogs p request (os_catalogs st) = Inr prepared \<and> is_ok (rewriteAttempt p r prepared)"
proof -
  obtain environment where e: "EffectiveTools request = Inr environment"
    using assms by (cases "EffectiveTools request") (auto simp: mcp_Open_def openWith_def refused_def)
  have v: "validateLocallyExecutableSources environment = Inr ()"
    using assms e by (cases "validateLocallyExecutableSources environment")
      (auto simp: mcp_Open_def openWith_def refused_def)
  note unf = mcp_Open_def openWith_def refused_def opened_failed_def finish_open_def Let_def
  show thesis
  proof (rule that [OF e v])
    show "localMCPSources environment = [] \<and> prepared = request" if "run = None"
      using assms that e v
      by (auto simp: unf split: if_splits sum.splits prod.splits)
    show "\<exists>policy st. EffectiveToolPolicy p request = Inr policy \<and> r = os_run st \<and>
      open_sources errtext (requestRequiresSource p request environment) policy access
        (resolveRemoteSource codec errtext sdk)
        (requiredSourcesFirst p request environment (localMCPSources environment)) zeroOpenState = Inr st \<and>
      op_changes (mcp_Open p codec errtext sdk request access) = os_changes st \<and>
      applyCatalogs p request (os_catalogs st) = Inr prepared \<and> is_ok (rewriteAttempt p r prepared)"
      if "run = Some r" for r
      using assms that e v
      by (auto simp: unf result_simps is_ok_iff split: if_splits sum.splits prod.splits)
  qed
qed

definition no_leak :: "'s mcp_sdk \<Rightarrow> ('c, 's) opened \<Rightarrow> bool" where
  "no_leak sdk o' \<longleftrightarrow>
     (case op_result o' of
        Inl _ \<Rightarrow> mset (op_opened o') = mset (op_closed o')
      | Inr (_, run) \<Rightarrow>
          mset (op_opened o') = mset (op_closed o') + mset (snd (snd (mcp_Close sdk run))))"

lemma no_leak_simple:
  "no_leak sdk (refused err)"
  "no_leak sdk \<lparr>op_result = Inr (request, None), op_changes = [], op_opened = [], op_closed = []\<rparr>"
  by (simp_all add: no_leak_def refused_def mcp_Close_def)

lemma no_leak_failed: "settled (Inl (err', st)) \<Longrightarrow> no_leak sdk (opened_failed err st)"
  by (simp add: no_leak_def opened_failed_def settled_def left_state_def sessions_balanced_def)

lemma no_leak_finish: "settled (Inr st) \<Longrightarrow> no_leak sdk (finish_open p request st)"
  by (auto simp: no_leak_def finish_open_def opened_failed_def close_sessions_def settled_def
      left_state_def sessions_balanced_def mcp_Close_def Let_def split: sum.split)

text \<open>
  C22: No MCP session is left open. Whatever the SDK answers, when opening fails every session it
  opened has been closed, and when it succeeds every session it opened is either closed or closed
  by closing the run; no session is closed twice.
\<close>

theorem mcp_open_no_leak: "no_leak sdk (mcp_Open p codec errtext sdk request access)"
proof -
  have settled: "settled (open_sources errtext (requestRequiresSource p request e) policy access
      (resolveRemoteSource codec errtext sdk) (requiredSourcesFirst p request e (localMCPSources e))
      zeroOpenState)" for e policy
    by (rule remote.open_sources_settled) (simp_all add: zeroOpenState_ok opening_sources)
  have "no_leak sdk (case open_sources errtext (requestRequiresSource p request e) policy access
      (resolveRemoteSource codec errtext sdk) (requiredSourcesFirst p request e (localMCPSources e))
      zeroOpenState of Inl (err, st) \<Rightarrow> opened_failed err st | Inr st \<Rightarrow> finish_open p request st)"
    for e policy
    using settled [of e policy] by (auto intro: no_leak_failed no_leak_finish split: sum.split)
  then show ?thesis
    by (auto simp: mcp_Open_def openWith_def Let_def no_leak_simple split: sum.split)
qed

lemma opened_run:
  assumes "op_result (mcp_Open p codec errtext sdk request access) = Inr (prepared, Some r)"
    and "EffectiveTools request = Inr environment"
  obtains policy st where "EffectiveToolPolicy p request = Inr policy" and "r = os_run st" and "run_wf st"
    and "op_changes (mcp_Open p codec errtext sdk request access) = os_changes st"
    and "applyCatalogs p request (os_catalogs st) = Inr prepared"
    and "is_ok (rewriteAttempt p r prepared)"
    and "\<And>s. s \<in> set (localMCPSources environment) \<Longrightarrow>
      accounted (requestRequiresSource p request environment) policy st s"
proof -
  obtain policy st where *: "EffectiveToolPolicy p request = Inr policy" "r = os_run st"
    "open_sources errtext (requestRequiresSource p request environment) policy access
        (resolveRemoteSource codec errtext sdk)
        (requiredSourcesFirst p request environment (localMCPSources environment)) zeroOpenState = Inr st"
    "op_changes (mcp_Open p codec errtext sdk request access) = os_changes st"
    "applyCatalogs p request (os_catalogs st) = Inr prepared" "is_ok (rewriteAttempt p r prepared)"
  proof -
    obtain e where e: "EffectiveTools request = Inr e" and x: "\<And>r'. Some r = Some r' \<Longrightarrow>
      \<exists>policy st. EffectiveToolPolicy p request = Inr policy \<and> r' = os_run st \<and>
      open_sources errtext (requestRequiresSource p request e) policy access
        (resolveRemoteSource codec errtext sdk)
        (requiredSourcesFirst p request e (localMCPSources e)) zeroOpenState = Inr st \<and>
      op_changes (mcp_Open p codec errtext sdk request access) = os_changes st \<and>
      applyCatalogs p request (os_catalogs st) = Inr prepared \<and> is_ok (rewriteAttempt p r' prepared)"
      using mcp_Open_success [OF assms(1)] by metis
    have "e = environment" using e assms(2) by simp
    then show thesis using x [OF refl] that by blast
  qed
  have "grows zeroOpenState st \<and> run_wf st \<and> list_all (accounted (requestRequiresSource p request environment) policy st)
      (requiredSourcesFirst p request environment (localMCPSources environment))"
    by (rule remote.open_sources_adds [OF *(3)]) (simp_all add: zeroOpenState_ok opening_sources)
  then show thesis using that * by (simp add: list_all_iff opening_sources)
qed

text \<open>
  C25: No MCP source is dropped silently. When opening succeeds, every source whose tools the
  request allows has an open session, or the request does not depend on it and its omission is
  recorded as a compatibility change; a source the request depends on is always open.
\<close>

theorem mcp_sources_accounted:
  assumes "op_result (mcp_Open p codec errtext sdk request access) = Inr (prepared, Some r)"
    and "EffectiveTools request = Inr environment" and "EffectiveToolPolicy p request = Inr policy"
    and "source \<in> set (localMCPSources environment)" and "source_active policy source"
  shows "mt_key source \<in> fst ` set (run_sessions r) \<or>
    \<not> requestRequiresSource p request environment source \<and>
    droppedSourceDecision (mt_key source) \<in> set (op_changes (mcp_Open p codec errtext sdk request access))"
proof -
  obtain policy' st where "EffectiveToolPolicy p request = Inr policy'" "r = os_run st"
    "op_changes (mcp_Open p codec errtext sdk request access) = os_changes st"
    "accounted (requestRequiresSource p request environment) policy' st source"
    using opened_run [OF assms(1,2)] assms(4) by metis
  then show ?thesis using assms(3,5) by (simp add: accounted_def session_keys_def)
qed

lemma apply_catalog_key:
  assumes "apply_catalog catalogs d = Inr d'" and "decl_MCP d' \<noteq> None"
    and "\<And>k c. map_of catalogs k = Some c \<Longrightarrow> mt_key c = k"
  shows "decl_MCP d \<noteq> None" and "decl_Key d' = decl_Key d"
proof -
  show m: "decl_MCP d \<noteq> None" using assms(1,2) by (auto simp: apply_catalog_def split: option.splits)
  then obtain s where s: "decl_MCP d = Some s" by blast
  then have "mt_key s = decl_Key d" by (cases d) (auto simp: decl_MCP_def)
  then show "decl_Key d' = decl_Key d"
    using assms(1,3) s
    by (auto simp: apply_catalog_def NewMCPToolSource_def split: option.splits if_splits sum.splits)
qed

lemma carries_contribution: "carries_tools item = Some tools \<Longrightarrow> contribution item = set_ordered tools"
  by (cases item) (auto simp: carries_tools_def contribution_def split: if_splits)

lemma NewToolSet_ordered: "NewToolSet ds = Inr tools \<Longrightarrow> set_ordered tools = ds"
  by (auto simp: NewToolSet_def result_simps)

lemma transformed_tools:
  assumes "TransformToolContributions p request (Some f) = Inr request'"
    and "item' \<in> set (rq_items request')" and "carries_tools item' = Some tools'"
  obtains item tools where "item \<in> set (rq_items request)" and "carries_tools item = Some tools"
    and "f tools = Inr tools'"
proof -
  obtain item where "item \<in> set (rq_items request)" and t: "transform_item f item = Inr item'"
    using list_all2_in_right [OF TransformToolContributions_items(1) [OF assms(1)] assms(2)] by blast
  then show thesis
    using transform_item_carries [OF t] assms(3) that by (auto split: option.splits)
qed

lemma mcp_key_eq: "decl_MCP d = Some s \<Longrightarrow> mt_key s = decl_Key d"
  by (cases d) (auto simp: decl_MCP_def)

lemma prepared_sources_local:
  assumes "EffectiveTools request = Inr environment"
    and "validateLocallyExecutableSources environment = Inr ()" and "request_flat request"
    and "applyCatalogs p request catalogs = Inr prepared"
    and "\<And>k c. map_of catalogs k = Some c \<Longrightarrow> mt_key c = k"
    and "item \<in> set (rq_items prepared)" and "carries_tools item = Some tools"
    and "d \<in> set (set_ordered tools)" and "decl_MCP d \<noteq> None"
  shows "decl_Key d \<in> mt_key ` set (localMCPSources environment)"
proof -
  obtain item0 tools0 where i: "item0 \<in> set (rq_items request)" "carries_tools item0 = Some tools0"
    and f: "and_then (map_result (apply_catalog catalogs) (set_ordered tools0)) NewToolSet = Inr tools"
    using transformed_tools [OF assms(4) [unfolded applyCatalogs_def] assms(6,7)] .
  then obtain ds where ds: "map_result (apply_catalog catalogs) (set_ordered tools0) = Inr ds"
    and "NewToolSet ds = Inr tools" by (auto simp: result_simps)
  then have "d \<in> set ds" using assms(8) NewToolSet_ordered by blast
  then obtain d0 where d0: "d0 \<in> set (set_ordered tools0)" "apply_catalog catalogs d0 = Inr d"
    using list_all2_in_right [OF ds [unfolded map_result_ok]] by blast
  note k = apply_catalog_key [OF d0(2) assms(9) assms(5)]
  have "covered (set_ordered (env_declarations environment)) d0"
    using EffectiveTools_covers [OF assms(1,3) i(1)] carries_contribution [OF i(2)] d0(1) by simp
  then obtain d' where d': "d' \<in> set (set_ordered (env_declarations environment))"
    "decl_MCP d' \<noteq> None" "decl_Key d' = decl_Key d"
    using k by (auto simp: covered_def)
  then obtain s where s: "decl_MCP d' = Some s" by blast
  have "locally_executable d' = Inr ()"
    using assms(2) d'(1) by (simp add: validateLocallyExecutableSources_def check_all_ok)
  from local_sources_complete [OF d'(1) s this, of "[]"] mcp_key_eq [OF s] d'(3) show ?thesis
    by (simp add: localMCPSources_def)
qed

lemma rewritten_sources:
  assumes "rewriteAttempt p r prepared = Inr attempt"
    and "\<And>k ts d. map_of (run_attemptTools r) k = Some ts \<Longrightarrow> d \<in> set ts \<Longrightarrow> decl_MCP d = None"
    and "\<And>item tools d. item \<in> set (rq_items prepared) \<Longrightarrow> carries_tools item = Some tools \<Longrightarrow>
      d \<in> set (set_ordered tools) \<Longrightarrow> decl_MCP d \<noteq> None \<Longrightarrow> decl_Key d \<in> set (run_localSources r)"
    and "item \<in> set (rq_items attempt)" and "carries_tools item = Some tools"
    and "d \<in> set (set_ordered tools)"
  shows "decl_MCP d = None"
proof -
  obtain item0 tools0 where i: "item0 \<in> set (rq_items prepared)" "carries_tools item0 = Some tools0"
    and f: "NewToolSet (concat (map (project_declaration r) (set_ordered tools0))) = Inr tools"
    using transformed_tools [OF assms(1) [unfolded rewriteAttempt_def] assms(4,5)] .
  then obtain d0 where d0: "d0 \<in> set (set_ordered tools0)" "d \<in> set (project_declaration r d0)"
    using assms(6) NewToolSet_ordered [OF f] by auto
  show ?thesis
  proof (cases "decl_MCP d0")
    case None
    then show ?thesis using d0(2) by (simp add: project_declaration_def)
  next
    case (Some s)
    then have "mt_key s \<in> set (run_localSources r)"
      using assms(3) [OF i d0(1)] mcp_key_eq by simp
    then obtain ts where "map_of (run_attemptTools r) (mt_key s) = Some ts" "d \<in> set ts"
      using d0(2) Some
      by (cases "map_of (run_attemptTools r) (mt_key s)") (auto simp: project_declaration_def)
    then show ?thesis by (rule assms(2))
  qed
qed

text \<open>
  The requests of the provider attempts of one exchange. The resolved request holds the items of
  the prepared one, and besides them the history of a checkpoint and, in later rounds, the
  responses and results so far.
\<close>

definition source_free :: "CanonicalItem \<Rightarrow> bool" where
  "source_free item \<longleftrightarrow>
     (case carries_tools item of None \<Rightarrow> True
      | Some tools \<Rightarrow> list_all (\<lambda>d. decl_MCP d = None) (set_ordered tools))"

definition extends_prepared :: "'c CanonicalRequest \<Rightarrow> 'c CanonicalRequest \<Rightarrow> bool" where
  "extends_prepared prepared request \<longleftrightarrow>
     list_all (\<lambda>item. item \<in> set (rq_items prepared) \<or> source_free item) (rq_items request)"

lemma source_freeI:
  "(\<And>tools d. carries_tools item = Some tools \<Longrightarrow> d \<in> set (set_ordered tools) \<Longrightarrow> decl_MCP d = None) \<Longrightarrow>
   source_free item"
  by (auto simp: source_free_def list_all_iff split: option.splits)

lemma source_freeD:
  "source_free item \<Longrightarrow> carries_tools item = Some tools \<Longrightarrow> d \<in> set (set_ordered tools) \<Longrightarrow> decl_MCP d = None"
  by (auto simp: source_free_def list_all_iff)

text \<open>
  C24: A provider never sees a remote MCP source of the request. For a request whose MCP sources
  do not stand inside other declarations (no constructor builds such ones) and that opening
  accepts, the prepared request can be rewritten for an attempt. In every round, the request that
  the run hands to a provider attempt declares no MCP source: each is replaced by the callable
  functions of its catalog or, when it is unavailable, by nothing. The request of a round is the
  resolved one: items of the prepared request, and further items (the history of a checkpoint,
  earlier responses and results) that declare no MCP source themselves. A source that such a
  further item declares under a key that was not opened is left as it is.
\<close>

theorem provider_sees_no_source:
  assumes "op_result (mcp_Open p codec errtext sdk request access) = Inr (prepared, run)"
    and "request_flat request" and "extends_prepared prepared resolved"
    and "AttemptRequest p run resolved = Inr attempt"
  shows "list_all source_free (rq_items attempt) \<and> is_ok (AttemptRequest p run prepared)"
proof -
  obtain environment where e: "EffectiveTools request = Inr environment"
    and v: "validateLocallyExecutableSources environment = Inr ()"
    and none: "run = None \<Longrightarrow> localMCPSources environment = [] \<and> prepared = request"
    using mcp_Open_success [OF assms(1)] by metis
  show ?thesis
  proof (cases run)
    case None
    then have p: "prepared = request" "localMCPSources environment = []" using none by auto
    have "source_free item" if i: "item \<in> set (rq_items request)" for item
    proof (rule source_freeI)
      fix tools d assume that: "carries_tools item = Some tools" "d \<in> set (set_ordered tools)"
      have "covered (set_ordered (env_declarations environment)) d"
        using EffectiveTools_covers [OF e assms(2) i] carries_contribution [OF that(1)] that(2) by simp
      moreover have "decl_MCP d' = None" if "d' \<in> set (set_ordered (env_declarations environment))" for d'
        using that v p(2) local_sources_complete [of d' _ _ "[]"]
        by (cases "decl_MCP d'") (fastforce simp: validateLocallyExecutableSources_def check_all_ok
            localMCPSources_def)+
      ultimately show "decl_MCP d = None" by (auto simp: covered_def)
    qed
    then show ?thesis using None p assms(3,4) by (auto simp: AttemptRequest_def extends_prepared_def list_all_iff)
  next
    case (Some r)
    obtain policy st where r: "r = os_run st" "run_wf st"
      "applyCatalogs p request (os_catalogs st) = Inr prepared" "is_ok (rewriteAttempt p r prepared)"
      and acc: "\<And>s. s \<in> set (localMCPSources environment) \<Longrightarrow>
        accounted (requestRequiresSource p request environment) policy st s"
      using opened_run [OF assms(1) [unfolded Some] e] by metis
    have attempt: "rewriteAttempt p r resolved = Inr attempt" using assms(4) Some by (simp add: AttemptRequest_def)
    have cat: "\<And>k c. map_of (os_catalogs st) k = Some c \<Longrightarrow> mt_key c = k"
      and tools: "\<And>k ts d. map_of (run_attemptTools r) k = Some ts \<Longrightarrow> d \<in> set ts \<Longrightarrow> decl_MCP d = None"
      using r(1,2) unfolding run_wf_def by blast+
    have loc: "decl_Key d \<in> set (run_localSources r)" if "item \<in> set (rq_items prepared)"
      "carries_tools item = Some ts" "d \<in> set (set_ordered ts)" "decl_MCP d \<noteq> None" for item ts d
      using prepared_sources_local [OF e v assms(2) r(3) cat that] acc r(1) by (auto simp: accounted_def)
    have local: "decl_Key d \<in> set (run_localSources r)" if "item \<in> set (rq_items resolved)"
      "carries_tools item = Some ts" "d \<in> set (set_ordered ts)" "decl_MCP d \<noteq> None" for item ts d
    proof -
      have "item \<in> set (rq_items prepared)"
        using that source_freeD [OF _ that(2,3)] assms(3) by (auto simp: extends_prepared_def list_all_iff)
      then show ?thesis using loc that(2-4) by blast
    qed
    have "source_free item" if "item \<in> set (rq_items attempt)" for item
    proof (rule source_freeI)
      fix ts d assume "carries_tools item = Some ts" "d \<in> set (set_ordered ts)"
      with rewritten_sources [OF attempt tools local that] show "decl_MCP d = None" by simp
    qed
    then show ?thesis using r(4) Some by (auto simp: AttemptRequest_def list_all_iff)
  qed
qed

section \<open>Remote effects are bounded\<close>

text \<open>The batches an exchange begins, one after the other; the first refusal ends it.\<close>

fun begin_batches :: "'s MCPRun \<Rightarrow> ToolCallItem list list \<Rightarrow> go_error + 's MCPRun" where
  "begin_batches r [] = Inr r"
| "begin_batches r (calls # batches) =
     and_then (BeginBatch (Some r) calls) (\<lambda>r. begin_batches r batches)"

lemma begin_batches_counts:
  "begin_batches r batches = Inr r' \<Longrightarrow> run_roundCount r \<le> MaxRemoteRoundsPerRun \<Longrightarrow>
     run_callCount r \<le> MaxRemoteCallsPerRun \<Longrightarrow>
     run_roundCount r + length batches \<le> MaxRemoteRoundsPerRun \<and>
     run_callCount r + sum_list (map length batches) \<le> MaxRemoteCallsPerRun \<and>
     (\<forall>calls \<in> set batches. \<forall>c \<in> set calls. owned r c) \<and>
     run_sessions r' = run_sessions r \<and> run_bindings r' = run_bindings r"
proof (induction batches arbitrary: r)
  case (Cons calls batches)
  then obtain mid where b: "BeginBatch (Some r) calls = Inr mid" and rest: "begin_batches mid batches = Inr r'"
    by (auto simp: result_simps)
  then have mid: "mid = r\<lparr>run_roundCount := Suc (run_roundCount r), run_callCount := run_callCount r + length calls\<rparr>"
    "run_roundCount r < MaxRemoteRoundsPerRun" "run_callCount r + length calls \<le> MaxRemoteCallsPerRun"
    "\<forall>c \<in> set calls. owned r c"
    by (auto simp: BeginBatch_def list_ex_iff split: if_splits)
  then have "owned mid = owned r" by (simp add: owned_def fun_eq_iff)
  with Cons.IH [OF rest] mid show ?case by simp
qed simp

text \<open>
  C23: The remote side effects of one exchange are bounded: however many assistant rounds it has,
  at most eight batches and sixteen remote calls are begun, and each of these calls belongs to a
  source that has an open session.
\<close>

theorem mcp_effects_bounded:
  assumes "op_result (mcp_Open p codec errtext sdk request access) = Inr (prepared, Some r)"
    and "begin_batches r batches = Inr r'"
  shows "length batches \<le> 8 \<and> sum_list (map length batches) \<le> 16 \<and>
    (\<forall>calls \<in> set batches. \<forall>c \<in> set calls. \<exists>b s. map_of (run_bindings r') (tc_tool c) = Some b \<and>
       bn_remoteName b = tk_name (tc_tool c) \<and> map_of (run_sessions r') (bn_source b) = Some s)"
proof -
  obtain environment where e: "EffectiveTools request = Inr environment"
    using mcp_Open_success [OF assms(1)] by metis
  obtain policy st where r: "r = os_run st" "run_wf st"
    using opened_run [OF assms(1) e] by metis
  have z: "run_roundCount r = 0" "run_callCount r = 0" using r by (simp_all add: run_wf_def)
  note counts = begin_batches_counts [OF assms(2), unfolded z MaxRemoteRoundsPerRun_def MaxRemoteCallsPerRun_def]
  have "\<exists>b s. map_of (run_bindings r') (tc_tool c) = Some b \<and>
       bn_remoteName b = tk_name (tc_tool c) \<and> map_of (run_sessions r') (bn_source b) = Some s"
    if c: "calls \<in> set batches" "c \<in> set calls" for calls c
  proof -
    have "owned r c" using counts c by simp
    then obtain b where b: "map_of (run_bindings r) (tc_tool c) = Some b" by (auto simp: owned_def)
    then have "bn_source b \<in> session_keys st" "bn_remoteName b = tk_name (tc_tool c)"
      using r unfolding run_wf_def by blast+
    moreover from this(1) obtain s where "map_of (run_sessions r) (bn_source b) = Some s"
      using r(1) by (metis map_of_eq_None_iff option.exhaust session_keys_def)
    ultimately show ?thesis using b counts by simp
  qed
  with counts show ?thesis by simp
qed

section \<open>A concrete exchange\<close>

text \<open>Two sources: one answers with a catalog of one tool, the other cannot be reached.\<close>

definition mcp_sample_source :: "string \<Rightarrow> MCPSource" where
  "mcp_sample_source url = \<lparr>ms_kind = ''url'', ms_reference = url, ms_allowedTools = None,
     ms_approval = \<lparr>ma_kind = ''never'', ma_always = None, ma_never = None\<rparr>, ms_loading = ''eager'',
     ms_allowedCallers = None\<rparr>"

definition mcp_sample_key :: "string \<Rightarrow> ToolKey" where
  "mcp_sample_key name = \<lparr>tk_namespace = ''request'', tk_kind = ToolKindMCP, tk_name = name\<rparr>"

definition mcp_sample_request :: "unit CanonicalRequest" where
  "mcp_sample_request = sample_request\<lparr>rq_items := [declarations_item
     \<lparr>di_tools = \<lparr>set_ordered =
        [mcp_tool (mcp_sample_key ''bad'') [] (mcp_sample_source ''https://b'') [],
         mcp_tool (mcp_sample_key ''good'') ''docs'' (mcp_sample_source ''https://g'') []],
        set_byKey = []\<rparr>,
      di_scope = ContextScopeRequest, di_visibility = []\<rparr>]\<rparr>"

definition mcp_sample_platform :: platform where
  "mcp_sample_platform = \<lparr>unicode_lower = \<lambda>s. s, url_Parse = \<lambda>s. None, filepath_IsAbs = \<lambda>s. False\<rparr>"

definition mcp_sample_codec :: json_codec where
  "mcp_sample_codec = \<lparr>json_decode = \<lambda>s. Inr (JObject []), json_quote = \<lambda>s. s\<rparr>"

definition mcp_sample_tool :: sdk_tool where
  "mcp_sample_tool = \<lparr>sdk_Name = ''find'', sdk_Description = [], sdk_InputSchema = Inr ''{}'',
     sdk_OutputSchema = None\<rparr>"

definition mcp_sample_sdk :: "nat mcp_sdk" where
  "mcp_sample_sdk = \<lparr>
     sdk_Connect = \<lambda>source access. if tk_name (mt_key source) = ''good'' then Inr 1
       else Inl (Errorf ''refused'' []),
     sdk_List = \<lambda>s n cursor. Inr ([Some mcp_sample_tool], []),
     sdk_Call = \<lambda>s name input. Inr \<lparr>cr_Content = [], cr_StructuredContent = None, cr_IsError = False\<rparr>,
     sdk_Close = \<lambda>s. None\<rparr>"

abbreviation mcp_sample_open :: "(unit, nat) opened" where
  "mcp_sample_open \<equiv> mcp_Open mcp_sample_platform mcp_sample_codec (\<lambda>e. []) mcp_sample_sdk mcp_sample_request []"

definition mcp_sample_call :: ToolCallItem where
  "mcp_sample_call = \<lparr>tc_callID = ''c1'',
     tc_tool = \<lparr>tk_namespace = ''request/good'', tk_kind = ToolKindFunction, tk_name = ''find''\<rparr>,
     tc_input = object_input ''{}'', tc_discoveryExecutor = DiscoveryExecutorNone,
     tc_responsesNullCallID = False, tc_responsesWebSearch = None\<rparr>"

definition batch_of :: "('c, 's) opened \<Rightarrow> ToolCallItem list list \<Rightarrow> go_error + 's MCPRun" where
  "batch_of o' batches =
     (case op_result o' of
        Inr (_, Some r) \<Rightarrow> begin_batches r batches
      | _ \<Rightarrow> Inl (Errorf [] []))"

lemma mcp_sample_batch: "is_ok (batch_of mcp_sample_open [[mcp_sample_call]])"
  by code_simp

lemma mcp_sample_opened:
  obtains prepared r r' where "op_result mcp_sample_open = Inr (prepared, Some r)"
    and "begin_batches r [[mcp_sample_call]] = Inr r'"
  using mcp_sample_batch by (auto simp: batch_of_def is_ok_iff split: sum.splits option.splits)

lemma mcp_sample_flat: "request_flat mcp_sample_request"
  by code_simp

text \<open>A later round, in which an answer of the assistant has joined the prepared request.\<close>

definition mcp_round :: "unit CanonicalRequest \<Rightarrow> unit CanonicalRequest" where
  "mcp_round prepared = prepared\<lparr>rq_items := rq_items prepared @
     [message_item \<lparr>mi_role = MessageRoleAssistant, mi_content = [text_part ''found'' []],
       mi_scope = ContextScopeHistory\<rparr>]\<rparr>"

lemma mcp_round_attempt:
  "(case op_result mcp_sample_open of Inl _ \<Rightarrow> False
    | Inr (prepared, run) \<Rightarrow> is_ok (AttemptRequest mcp_sample_platform run (mcp_round prepared)))"
  by code_simp

theorem provider_sees_no_source_witness:
  "\<exists>prepared run attempt. op_result mcp_sample_open = Inr (prepared, run) \<and>
     AttemptRequest mcp_sample_platform run (mcp_round prepared) = Inr attempt \<and>
     list_all source_free (rq_items attempt)"
proof -
  obtain prepared run attempt where o': "op_result mcp_sample_open = Inr (prepared, run)"
    and a: "AttemptRequest mcp_sample_platform run (mcp_round prepared) = Inr attempt"
    using mcp_round_attempt by (auto simp: is_ok_iff split: sum.splits)
  have "extends_prepared prepared (mcp_round prepared)"
    by (simp add: extends_prepared_def mcp_round_def source_free_def carries_tools_def list_all_iff)
  from provider_sees_no_source [OF o' mcp_sample_flat this a] o' a show ?thesis by blast
qed

theorem mcp_effects_bounded_witness:
  "\<exists>prepared r r'. op_result mcp_sample_open = Inr (prepared, Some r) \<and>
     begin_batches r [[mcp_sample_call]] = Inr r' \<and>
     (\<exists>b s. map_of (run_bindings r') (tc_tool mcp_sample_call) = Some b \<and>
        map_of (run_sessions r') (bn_source b) = Some s)"
proof -
  obtain prepared r r' where o': "op_result mcp_sample_open = Inr (prepared, Some r)"
    and b: "begin_batches r [[mcp_sample_call]] = Inr r'"
    using mcp_sample_opened .
  from mcp_effects_bounded [OF o' b] o' b show ?thesis by auto
qed

definition mcp_sample_bad :: MCPToolSource where
  "mcp_sample_bad = \<lparr>mt_key = mcp_sample_key ''bad'', mt_description = [],
     mt_source = mcp_sample_source ''https://b'', mt_tools = []\<rparr>"

lemma mcp_sample_environment:
  obtains environment where "EffectiveTools mcp_sample_request = Inr environment"
    and "mcp_sample_bad \<in> set (localMCPSources environment)"
proof -
  have "(case EffectiveTools mcp_sample_request of Inl _ \<Rightarrow> False
      | Inr environment \<Rightarrow> mcp_sample_bad \<in> set (localMCPSources environment))"
    by code_simp
  then show thesis using that by (auto split: sum.splits)
qed

theorem mcp_sources_accounted_witness:
  "\<exists>prepared r. op_result mcp_sample_open = Inr (prepared, Some r) \<and>
     (mcp_sample_key ''bad'' \<in> fst ` set (run_sessions r) \<or>
      droppedSourceDecision (mcp_sample_key ''bad'') \<in> set (op_changes mcp_sample_open))"
proof -
  obtain prepared r where o': "op_result mcp_sample_open = Inr (prepared, Some r)"
    using mcp_sample_opened .
  obtain environment where e: "EffectiveTools mcp_sample_request = Inr environment"
    "mcp_sample_bad \<in> set (localMCPSources environment)"
    using mcp_sample_environment .
  have pol: "EffectiveToolPolicy mcp_sample_platform mcp_sample_request =
      Inr (NewToolPolicy mcp_sample_platform ToolPolicyAuto None)"
    by code_simp
  have "source_active (NewToolPolicy mcp_sample_platform ToolPolicyAuto None) mcp_sample_bad" by code_simp
  from mcp_sources_accounted [OF o' e(1) pol e(2) this] o' show ?thesis
    by (auto simp: mcp_sample_bad_def)
qed

end
