(* ===== verification/SSE_Framing.thy ===== *)
theory SSE_Framing
  imports Canonical_Projection "HOL-Library.Sublist"
begin

text \<open>
  \<^verbatim>\<open>wire/framing/sse\<close> and \<^verbatim>\<open>wire/primitives/sse.go\<close>: the frames of a server-sent event stream, the
  reader of such a stream, and the adapter that turns canonical response events into the stream
  events the client encoders consume. The reader gives back what the writer framed; on every
  stream the validator accepts the adapter does not fail and keeps the lifecycle, the text, the
  arguments and the completed items.
\<close>

section \<open>Frames\<close>

definition newline :: char where "newline = CHR 0x0A"
definition carriage_return :: char where "carriage_return = CHR 0x0D"

definition SSEData :: "string \<Rightarrow> string" where
  "SSEData raw = ''data: '' @ raw @ [newline, newline]"

definition SSEEventFrame :: "string \<Rightarrow> string \<Rightarrow> string" where
  "SSEEventFrame event raw =
     ''event: '' @ event @ [newline] @ ''data: '' @ raw @ [newline, newline]"

definition FallbackID :: "string \<Rightarrow> string \<Rightarrow> string" where
  "FallbackID v fallback = (if TrimSpace v = [] then fallback else v)"

definition DefaultFinishReason :: "string \<Rightarrow> string \<Rightarrow> string" where
  "DefaultFinishReason v fallback = (if TrimSpace v = [] then fallback else v)"

definition OutputText :: "CanonicalItem list \<Rightarrow> string" where
  "OutputText items = concat (map (\<lambda>item. case item of
       message_item m \<Rightarrow> concat (map (\<lambda>part. case part_Text part of None \<Rightarrow> [] | Some t \<Rightarrow> t)
         (mi_content m))
     | _ \<Rightarrow> []) items)"

definition ContainsToolUseOutput :: "CanonicalItem list \<Rightarrow> bool" where
  "ContainsToolUseOutput items = list_ex (\<lambda>item. item_Kind item = ItemKindToolCall) items"

section \<open>The reader\<close>

text \<open>
  \<^verbatim>\<open>bufio.Scanner\<close> over a body: the bytes that arrive before the body ends, and the error it ends
  with unless that is \<^verbatim>\<open>io.EOF\<close>. Lines lose one trailing carriage return, a last line without
  newline is a line unless it is empty, and a line that fills the buffer of one mebibyte stops the
  scan with an error.
\<close>

definition maxTokenSize :: int where "maxTokenSize = 1024 * 1024"

fun raw_lines :: "string \<Rightarrow> string \<Rightarrow> string list" where
  "raw_lines acc [] = (if acc = [] then [] else [acc])"
| "raw_lines acc (c # cs) =
     (if c = newline then acc # raw_lines [] cs else raw_lines (acc @ [c]) cs)"

definition dropCR :: "string \<Rightarrow> string" where
  "dropCR line = (if line \<noteq> [] \<and> last line = carriage_return then butlast line else line)"

definition ErrTooLong :: go_error where
  "ErrTooLong = Errorf ''bufio.Scanner: token too long'' []"

definition fits :: "string \<Rightarrow> bool" where "fits line \<longleftrightarrow> int (length line) < maxTokenSize"

record Scanner =
  sc_lines :: "string list"
  sc_err :: "go_error option"

definition NewScanner :: "string \<Rightarrow> go_error option \<Rightarrow> Scanner" where
  "NewScanner body err =
     (let raw = raw_lines [] body
      in \<lparr>sc_lines = map dropCR (takeWhile fits raw),
          sc_err = (if list_all fits raw then err else Some ErrTooLong)\<rparr>)"

record SSEEvent =
  sse_Event :: string
  sse_Data :: string

datatype read_event = read_some SSEEvent | read_EOF | read_error go_error

text \<open>The loop of \<^verbatim>\<open>next\<close> with its two local variables; it returns the lines that are left.\<close>

fun reader_scan :: "go_error option \<Rightarrow> string \<Rightarrow> string list \<Rightarrow> string list \<Rightarrow> read_event \<times> string list" where
  "reader_scan err eventName data [] =
     (case err of
        Some e \<Rightarrow> (read_error e, [])
      | None \<Rightarrow>
          if data = [] then (read_EOF, [])
          else (read_some \<lparr>sse_Event = eventName, sse_Data = JoinWith data [newline]\<rparr>, []))"
| "reader_scan err eventName data (line # lines) =
     (if line = [] then
        (if data = [] then reader_scan err eventName data lines
         else (read_some \<lparr>sse_Event = eventName, sse_Data = JoinWith data [newline]\<rparr>, lines))
      else if HasPrefix line '':'' then reader_scan err eventName data lines
      else if HasPrefix line ''event:''
      then reader_scan err (TrimSpace (TrimPrefix line ''event:'')) data lines
      else if HasPrefix line ''data:''
      then reader_scan err eventName (data @ [TrimSpace (TrimPrefix line ''data:'')]) lines
      else reader_scan err eventName data lines)"

definition reader_next :: "Scanner \<Rightarrow> read_event \<times> Scanner" where
  "reader_next sc =
     (case reader_scan (sc_err sc) [] [] (sc_lines sc) of (r, lines) \<Rightarrow> (r, sc\<lparr>sc_lines := lines\<rparr>))"

lemma reader_scan_shorter:
  "reader_scan err name data lines = (read_some e, rest) \<Longrightarrow>
   length rest < length lines \<or> lines = [] \<and> rest = [] \<and> data \<noteq> []"
proof (induction lines arbitrary: name data)
  case (Cons line lines)
  show ?case
    using Cons.prems Cons.IH [of name data] Cons.IH [of "TrimSpace (TrimPrefix line ''event:'')" data]
      Cons.IH [of name "data @ [TrimSpace (TrimPrefix line ''data:'')]"]
    by (simp only: reader_scan.simps split: if_splits) auto
qed (auto split: option.splits if_splits)

text \<open>A client of the reader: pull until the end, or until an error.\<close>

function read_all :: "Scanner \<Rightarrow> SSEEvent list \<times> go_error option" where
  "read_all sc =
     (case reader_next sc of
        (read_some e, sc') \<Rightarrow> (case read_all sc' of (es, r) \<Rightarrow> (e # es, r))
      | (read_EOF, _) \<Rightarrow> ([], None)
      | (read_error e, _) \<Rightarrow> ([], Some e))"
  by pat_completeness auto
termination
proof (relation "measure (\<lambda>sc. length (sc_lines sc))", goal_cases)
  case (2 sc r sc' e)
  then have "reader_scan (sc_err sc) [] [] (sc_lines sc) = (read_some e, sc_lines sc')"
    by (auto simp: reader_next_def split: prod.splits)
  from reader_scan_shorter [OF this] show ?case by simp
qed simp

declare read_all.simps [simp del]

section \<open>Stream events\<close>

datatype StreamEventKind =
    StreamEventNone | StreamEventStarted | StreamEventItemStarted | StreamEventContentStarted
  | StreamEventTextDelta | StreamEventToolUseArgumentsDelta | StreamEventItemCompleted
  | StreamEventCompleted | StreamEventFailed

record StreamEvent =
  st_Kind :: StreamEventKind
  st_ResultID :: string
  st_Model :: string
  st_ItemKind :: ItemKind
  st_ItemID :: string
  st_CompletedItem :: "CanonicalItem option"
  st_ItemOrdinal :: "32 word"
  st_PartOrdinal :: "32 word"
  st_PartKind :: string
  st_TextDelta :: string
  st_ToolUseID :: string
  st_Name :: string
  st_Namespace :: string
  st_ToolType :: string
  st_ArgumentsDelta :: string
  st_Completion :: Completion
  st_Usage :: TokenUsage
  st_ErrorCode :: string
  st_ErrorMessage :: string

definition stream_event :: "StreamEventKind \<Rightarrow> StreamEvent" where
  "stream_event kind = \<lparr>st_Kind = kind, st_ResultID = [], st_Model = [], st_ItemKind = ItemKindNone,
     st_ItemID = [], st_CompletedItem = None, st_ItemOrdinal = 0, st_PartOrdinal = 0,
     st_PartKind = [], st_TextDelta = [], st_ToolUseID = [], st_Name = [], st_Namespace = [],
     st_ToolType = [], st_ArgumentsDelta = [], st_Completion = zeroCompletion,
     st_Usage = NewUnknownTokenUsage, st_ErrorCode = [], st_ErrorMessage = []\<rparr>"

section \<open>The adapter\<close>

record EnvelopeEventAdapter =
  ad_started :: bool
  ad_responseOpen :: bool
  ad_resultID :: string
  ad_model :: string
  ad_itemKinds :: "(32 word \<times> ItemKind) list"
  ad_itemIDs :: "(32 word \<times> string) list"
  ad_completion :: Completion
  ad_usage :: TokenUsage
  ad_errorCode :: string
  ad_errorText :: string
  ad_completed :: bool

definition NewEnvelopeEventAdapter :: EnvelopeEventAdapter where
  "NewEnvelopeEventAdapter = \<lparr>ad_started = False, ad_responseOpen = False, ad_resultID = [],
     ad_model = [], ad_itemKinds = [], ad_itemIDs = [], ad_completion = zeroCompletion,
     ad_usage = NewUnknownTokenUsage, ad_errorCode = [], ad_errorText = [], ad_completed = False\<rparr>"

definition item_id :: "32 word \<Rightarrow> string" where
  "item_id ordinal = ''item_'' @ decimal (unat ordinal)"

definition itemIDForOrdinal :: "EnvelopeEventAdapter \<Rightarrow> 32 word \<Rightarrow> string" where
  "itemIDForOrdinal a ordinal =
     (case map_of (ad_itemIDs a) ordinal of
        Some itemID \<Rightarrow> if itemID = [] then item_id ordinal else itemID
      | None \<Rightarrow> item_id ordinal)"

definition translateEnvelopeStart :: "Event \<Rightarrow> EnvelopeEventAdapter \<Rightarrow> EnvelopeEventAdapter" where
  "translateEnvelopeStart ev a =
     (case ev_Payload ev of
        envelope_start kind model \<Rightarrow>
          if kind = EnvResponse then a\<lparr>ad_model := model, ad_responseOpen := True\<rparr> else a
      | _ \<Rightarrow> a)"

definition ensureStarted :: "EnvelopeEventAdapter \<Rightarrow> StreamEvent list \<times> EnvelopeEventAdapter" where
  "ensureStarted a =
     (if \<not> ad_responseOpen a \<or> ad_started a then ([], a)
      else ([(stream_event StreamEventStarted)\<lparr>st_ResultID := ad_resultID a, st_Model := ad_model a\<rparr>],
        a\<lparr>ad_started := True\<rparr>))"

definition translateItemStart ::
    "Event \<Rightarrow> EnvelopeEventAdapter \<Rightarrow> go_error + StreamEvent list \<times> EnvelopeEventAdapter" where
  "translateItemStart ev a =
     (case ev_Payload ev of
        item_event ie \<Rightarrow>
          (case ie_payload ie of
             Some (item_start start) \<Rightarrow>
               if start_Kind start = ItemKindNone
               then Inl (Errorf ''item.start ordinal %d is invalid'' [])
               else let itemID = item_id (ie_item ie);
                 base = (stream_event StreamEventItemStarted)\<lparr>st_ItemKind := start_Kind start,
                   st_ItemID := itemID, st_ItemOrdinal := ie_item ie\<rparr>
               in Inr ([case start of
                    tool_call_start callID tool \<Rightarrow> base\<lparr>st_ToolUseID := callID,
                      st_Name := tk_name tool, st_Namespace := tk_namespace tool,
                      st_ToolType := tk_kind tool\<rparr>
                  | _ \<Rightarrow> base],
                 a\<lparr>ad_itemKinds := AList.update (ie_item ie) (start_Kind start) (ad_itemKinds a),
                   ad_itemIDs := AList.update (ie_item ie) itemID (ad_itemIDs a)\<rparr>)
           | _ \<Rightarrow> Inl (Errorf ''item.start ordinal %d is invalid'' []))
      | _ \<Rightarrow> Inl (Errorf ''item.start payload type %T is unsupported'' []))"

definition translateResponseIdentity ::
    "Event \<Rightarrow> EnvelopeEventAdapter \<Rightarrow> go_error + EnvelopeEventAdapter" where
  "translateResponseIdentity ev a =
     (case ev_Payload ev of
        response_identity ref \<Rightarrow>
          if ad_resultID a \<noteq> [] then Inl (Errorf ''response.identity is duplicated'' [])
          else if rr_SwobuID ref = []
          then Inl (Errorf ''response.identity requires a non-empty Swobu response ID'' [])
          else Inr (a\<lparr>ad_resultID := rr_SwobuID ref\<rparr>)
      | _ \<Rightarrow> Inl (Errorf ''response.identity payload type %T is unsupported'' []))"

text \<open>The events of one item or part: the position they share.\<close>

definition positioned :: "StreamEventKind \<Rightarrow> ItemEvent \<Rightarrow> EnvelopeEventAdapter \<Rightarrow> StreamEvent" where
  "positioned kind ie a = (stream_event kind)\<lparr>st_ItemID := itemIDForOrdinal a (ie_item ie),
     st_ItemOrdinal := ie_item ie, st_PartOrdinal := ie_part ie\<rparr>"

definition translateContentStart ::
    "Event \<Rightarrow> EnvelopeEventAdapter \<Rightarrow> go_error + StreamEvent list" where
  "translateContentStart ev a =
     (case ev_Payload ev of
        item_event ie \<Rightarrow>
          (case ie_payload ie of
             Some (content_start kind) \<Rightarrow>
               if kind = []
               then Inl (Errorf ''content.start item payload has empty content kind'' [])
               else Inr [(positioned StreamEventContentStarted ie a)\<lparr>st_PartKind := kind\<rparr>]
           | _ \<Rightarrow> Inl (Errorf ''content.start item payload type %T is unsupported'' []))
      | _ \<Rightarrow> Inl (Errorf ''content.start payload type %T is unsupported'' []))"

definition translateTextDelta :: "Event \<Rightarrow> EnvelopeEventAdapter \<Rightarrow> go_error + StreamEvent list" where
  "translateTextDelta ev a =
     (case ev_Payload ev of
        item_event ie \<Rightarrow>
          (case ie_payload ie of
             Some (text_delta text) \<Rightarrow>
               Inr [(positioned StreamEventTextDelta ie a)\<lparr>st_TextDelta := text\<rparr>]
           | _ \<Rightarrow> Inl (Errorf ''text.delta item payload type %T is unsupported'' []))
      | _ \<Rightarrow> Inl (Errorf ''text.delta payload type %T is unsupported'' []))"

definition translateArgsDelta :: "Event \<Rightarrow> EnvelopeEventAdapter \<Rightarrow> go_error + StreamEvent list" where
  "translateArgsDelta ev a =
     (case ev_Payload ev of
        item_event ie \<Rightarrow>
          (case ie_payload ie of
             Some (args_delta args) \<Rightarrow>
               Inr [(positioned StreamEventToolUseArgumentsDelta ie a)\<lparr>st_ArgumentsDelta := args\<rparr>]
           | _ \<Rightarrow> Inl (Errorf ''args.delta item payload type %T is unsupported'' []))
      | _ \<Rightarrow> Inl (Errorf ''args.delta payload type %T is unsupported'' []))"

definition translateItemCompleted ::
    "Event \<Rightarrow> EnvelopeEventAdapter \<Rightarrow> go_error + StreamEvent list \<times> EnvelopeEventAdapter" where
  "translateItemCompleted ev a =
     (case ev_Payload ev of
        item_event ie \<Rightarrow>
          (case ie_payload ie of
             Some (item_completed item) \<Rightarrow>
               if item_Kind item = ItemKindNone
               then Inl (Errorf ''item.completed ordinal %d is invalid'' [])
               else Inr ([(stream_event StreamEventItemCompleted)\<lparr>
                   st_ItemID := itemIDForOrdinal a (ie_item ie), st_ItemKind := item_Kind item,
                   st_ItemOrdinal := ie_item ie, st_CompletedItem := Some item\<rparr>],
                 a\<lparr>ad_itemKinds := AList.delete (ie_item ie) (ad_itemKinds a),
                   ad_itemIDs := AList.delete (ie_item ie) (ad_itemIDs a)\<rparr>)
           | _ \<Rightarrow> Inl (Errorf ''item.completed ordinal %d is invalid'' []))
      | _ \<Rightarrow> Inl (Errorf ''item.completed payload type %T is unsupported'' []))"

definition failedEvent :: "EnvelopeEventAdapter \<Rightarrow> StreamEvent" where
  "failedEvent a = (stream_event StreamEventFailed)\<lparr>st_ResultID := ad_resultID a,
     st_Model := ad_model a,
     st_ErrorCode := (if ad_errorCode a = [] then ''stream_error'' else ad_errorCode a),
     st_ErrorMessage := (if ad_errorText a = [] then ''output stream failed'' else ad_errorText a)\<rparr>"

definition translateEnvelopeEnd ::
    "Event \<Rightarrow> EnvelopeEventAdapter \<Rightarrow> StreamEvent list \<times> EnvelopeEventAdapter" where
  "translateEnvelopeEnd ev a =
     (case ev_Payload ev of
        envelope_end kind status \<Rightarrow>
          if kind = EnvResponse \<and> \<not> ad_completed a then
            (if status = EnvelopeStatusError then ([failedEvent a], a\<lparr>ad_completed := True\<rparr>)
             else ([(stream_event StreamEventCompleted)\<lparr>st_ResultID := ad_resultID a,
                 st_Model := ad_model a, st_Completion := ad_completion a, st_Usage := ad_usage a\<rparr>],
               a\<lparr>ad_completed := True\<rparr>))
          else ([], a)
      | _ \<Rightarrow> ([], a))"

text \<open>A payload of another type reads as the zero value of the expected one.\<close>

definition translateUsage :: "Event \<Rightarrow> EnvelopeEventAdapter \<Rightarrow> EnvelopeEventAdapter" where
  "translateUsage ev a =
     a\<lparr>ad_usage := (case ev_Payload ev of usage_payload u \<Rightarrow> u | _ \<Rightarrow> NewUnknownTokenUsage)\<rparr>"

definition translateFinish ::
    "Event \<Rightarrow> EnvelopeEventAdapter \<Rightarrow> StreamEvent list \<Rightarrow> StreamEvent list \<times> EnvelopeEventAdapter" where
  "translateFinish ev a emitted =
     (let completion = (case ev_Payload ev of finish_payload c \<Rightarrow> c | _ \<Rightarrow> zeroCompletion)
      in (map (\<lambda>e. if st_Kind e = StreamEventCompleted then e\<lparr>st_Completion := completion\<rparr> else e)
            emitted, a\<lparr>ad_completion := completion\<rparr>))"

definition translateError ::
    "Event \<Rightarrow> EnvelopeEventAdapter \<Rightarrow> StreamEvent list \<times> EnvelopeEventAdapter" where
  "translateError ev a =
     (let a' = (case ev_Payload ev of
          error_payload code msg _ \<Rightarrow> a\<lparr>ad_errorCode := code, ad_errorText := msg\<rparr> | _ \<Rightarrow> a)
      in if ad_completed a' then ([], a')
         else ([failedEvent a'], a'\<lparr>ad_completed := True\<rparr>))"

definition Translate ::
    "Event \<Rightarrow> EnvelopeEventAdapter \<Rightarrow> go_error + StreamEvent list \<times> EnvelopeEventAdapter" where
  "Translate ev a =
     (case ev_Kind ev of
        EventEnvelopeStart \<Rightarrow> Inr ([], translateEnvelopeStart ev a)
      | EventResponseIdentity \<Rightarrow>
          and_then (translateResponseIdentity ev a) (\<lambda>a. Inr (ensureStarted a))
      | EventItemStart \<Rightarrow>
          if ad_resultID a = []
          then Inl (Errorf ''item.start arrived before response.identity'' [])
          else (case ensureStarted a of (started, a) \<Rightarrow>
            and_then (translateItemStart ev a) (\<lambda>(out, a). Inr (started @ out, a)))
      | EventContentStart \<Rightarrow> and_then (translateContentStart ev a) (\<lambda>out. Inr (out, a))
      | EventTextDelta \<Rightarrow> and_then (translateTextDelta ev a) (\<lambda>out. Inr (out, a))
      | EventArgsDelta \<Rightarrow> and_then (translateArgsDelta ev a) (\<lambda>out. Inr (out, a))
      | EventItemCompleted \<Rightarrow> translateItemCompleted ev a
      | EventEnvelopeEnd \<Rightarrow>
          if ad_responseOpen a \<and> ad_resultID a = []
          then Inl (Errorf ''response envelope ended without response.identity'' [])
          else (case ensureStarted a of (started, a) \<Rightarrow>
            (case translateEnvelopeEnd ev a of (out, a) \<Rightarrow> Inr (started @ out, a)))
      | EventUsage \<Rightarrow> Inr ([], translateUsage ev a)
      | EventFinish \<Rightarrow> Inr (translateFinish ev a [])
      | EventError \<Rightarrow> Inr (translateError ev a)
      | EventOther _ \<Rightarrow> Inr ([], a))"

text \<open>A stream of events through the adapter; an encoder stops at the first error.\<close>

fun translate_all ::
    "Event list \<Rightarrow> EnvelopeEventAdapter \<Rightarrow> go_error + StreamEvent list \<times> EnvelopeEventAdapter" where
  "translate_all [] a = Inr ([], a)"
| "translate_all (e # es) a =
     and_then (Translate e a) (\<lambda>(out, a).
       and_then (translate_all es a) (\<lambda>(rest, a). Inr (out @ rest, a)))"

section \<open>Reading what was written\<close>

lemma raw_lines_line:
  "newline \<notin> set s \<Longrightarrow> raw_lines acc (s @ newline # t) = (acc @ s) # raw_lines [] t"
  by (induction s arbitrary: acc) auto

lemma raw_lines_rest:
  "newline \<notin> set s \<Longrightarrow> raw_lines acc s = (if acc @ s = [] then [] else [acc @ s])"
  by (induction s arbitrary: acc) auto

lemma strip_space: "strip_leading white_space (CHR 0x20 # s) = strip_leading white_space s"
  by (subst strip_leading.simps) (simp add: white_space_def ascii_space_def)

lemma TrimSpace_space: "TrimSpace s = s \<Longrightarrow> TrimSpace (CHR 0x20 # s) = s"
  by (metis TrimSpace_def strip_space)

lemma trimmed_no_CR:
  assumes "TrimSpace s = s" and "s \<noteq> []"
  shows "last s \<noteq> carriage_return"
proof -
  have "stripped (map rev white_space) (rev s)"
    by (metis TrimSpace_def assms(1) rev_rev_ident strip_leading_stripped)
  moreover have "[carriage_return] \<in> set (map rev white_space)"
    by (simp add: white_space_def ascii_space_def carriage_return_def)
  ultimately have "\<not> HasPrefix (rev s) [carriage_return]"
    unfolding stripped_def by blast
  then show ?thesis using assms(2) by (cases s rule: rev_cases) auto
qed

text \<open>A frame as the encoders write it, with or without an event name.\<close>

type_synonym frame = "string option \<times> string"

fun frame_bytes :: "frame \<Rightarrow> string" where
  "frame_bytes (None, raw) = SSEData raw"
| "frame_bytes (Some event, raw) = SSEEventFrame event raw"

fun frame_event :: "frame \<Rightarrow> SSEEvent" where
  "frame_event (event, raw) =
     \<lparr>sse_Event = (case event of None \<Rightarrow> [] | Some e \<Rightarrow> e), sse_Data = raw\<rparr>"

text \<open>One trimmed line that fits the buffer with its field name, as a JSON document without
  raw newlines is.\<close>

definition one_line :: "string \<Rightarrow> bool" where
  "one_line s \<longleftrightarrow> newline \<notin> set s \<and> TrimSpace s = s \<and> fits (''event: '' @ s)"

fun frame_ok :: "frame \<Rightarrow> bool" where
  "frame_ok (event, raw) \<longleftrightarrow> one_line raw \<and> (case event of None \<Rightarrow> True | Some e \<Rightarrow> one_line e)"

fun frame_lines :: "frame \<Rightarrow> string list" where
  "frame_lines (event, raw) =
     (case event of None \<Rightarrow> [] | Some e \<Rightarrow> [''event: '' @ e]) @ [''data: '' @ raw, []]"

lemma not_newline [simp]: "newline \<notin> set ''event: ''" "newline \<notin> set ''data: ''"
  by (simp_all add: newline_def)

lemma raw_lines_frame:
  assumes "frame_ok f"
  shows "raw_lines [] (frame_bytes f @ t) = frame_lines f @ raw_lines [] t"
proof -
  obtain event raw where f: "f = (event, raw)" by (cases f)
  have data: "raw_lines [] (''data: '' @ raw @ newline # newline # t) = (''data: '' @ raw) # [] # raw_lines [] t"
    using raw_lines_line [of "''data: '' @ raw" "[]" "newline # t"] assms f
    by (simp add: one_line_def newline_def)
  show ?thesis
  proof (cases event)
    case None
    then show ?thesis using data f by (simp add: SSEData_def)
  next
    case (Some e)
    then show ?thesis
      using data f assms raw_lines_line [of "''event: '' @ e" "[]" "''data: '' @ raw @ newline # newline # t"]
      by (simp add: SSEEventFrame_def one_line_def newline_def)
  qed
qed

lemma raw_lines_frames:
  "list_all frame_ok fs \<Longrightarrow>
   raw_lines [] (concat (map frame_bytes fs) @ t) = concat (map frame_lines fs) @ raw_lines [] t"
  by (induction fs) (auto simp: raw_lines_frame)

lemma frame_lines_fit: "frame_ok f \<Longrightarrow> list_all fits (frame_lines f) \<and> map dropCR (frame_lines f) = frame_lines f"
  using trimmed_no_CR
  by (cases f) (fastforce simp: one_line_def fits_def maxTokenSize_def dropCR_def carriage_return_def
      split: option.splits)

lemma frames_lines_fit:
  "list_all frame_ok fs \<Longrightarrow> list_all fits (concat (map frame_lines fs)) \<and>
   map dropCR (concat (map frame_lines fs)) = concat (map frame_lines fs)"
  by (induction fs) (auto simp: frame_lines_fit map_concat [symmetric])

lemma scan_frame:
  assumes "frame_ok f"
  shows "reader_scan err [] [] (frame_lines f @ rest) = (read_some (frame_event f), rest)"
  using assms
  by (cases f) (auto simp: one_line_def TrimPrefix_def TrimSpace_space split: option.splits)

lemma read_frames:
  "list_all frame_ok fs \<Longrightarrow>
   read_all \<lparr>sc_lines = concat (map frame_lines fs) @ rest, sc_err = err\<rparr> =
   (case read_all \<lparr>sc_lines = rest, sc_err = err\<rparr> of (es, r) \<Rightarrow> (map frame_event fs @ es, r))"
proof (induction fs)
  case (Cons f fs)
  then have "reader_next \<lparr>sc_lines = concat (map frame_lines (f # fs)) @ rest, sc_err = err\<rparr> =
    (read_some (frame_event f), \<lparr>sc_lines = concat (map frame_lines fs) @ rest, sc_err = err\<rparr>)"
    by (simp add: reader_next_def scan_frame del: frame_event.simps frame_lines.simps)
  then show ?case
    using Cons by (subst read_all.simps) (simp split: prod.splits)
qed simp

lemma NewScanner_frames:
  assumes "list_all frame_ok fs" and "list_all fits (raw_lines [] t)"
  shows "NewScanner (concat (map frame_bytes fs) @ t) err =
    \<lparr>sc_lines = concat (map frame_lines fs) @ map dropCR (raw_lines [] t), sc_err = err\<rparr>"
proof -
  have "list_all fits (concat (map frame_lines fs) @ raw_lines [] t)"
    using assms frames_lines_fit by simp
  then show ?thesis
    using assms frames_lines_fit [OF assms(1)]
    by (simp add: NewScanner_def raw_lines_frames takeWhile_eq_all_conv [THEN iffD2] list_all_iff)
qed

text \<open>A stream that breaks off inside a frame: no blank line after the data, so no event.\<close>

lemma scan_unfinished:
  "list_all (\<lambda>l. l \<noteq> []) lines \<Longrightarrow> fst (reader_scan (Some e) name data lines) = read_error e"
  by (induction lines arbitrary: name data) auto

lemma read_unfinished:
  assumes "list_all (\<lambda>l. l \<noteq> []) lines"
  shows "read_all \<lparr>sc_lines = lines, sc_err = Some e\<rparr> = ([], Some e)"
  using scan_unfinished [OF assms, of e "[]" "[]"]
  by (subst read_all.simps) (auto simp: reader_next_def split: prod.splits)

definition solid_line :: "string \<Rightarrow> bool" where
  "solid_line l \<longleftrightarrow> l \<noteq> [] \<and> hd l \<noteq> carriage_return \<and> fits l"

lemma solid_dropCR: "solid_line l \<Longrightarrow> dropCR l \<noteq> []"
  by (cases l) (auto simp: solid_line_def dropCR_def)

lemma prefix_line:
  assumes "prefix p (l @ [newline])" and "newline \<notin> set l" and "solid_line l"
  shows "list_all solid_line (raw_lines [] p)"
proof (cases "p = l @ [newline]")
  case True
  then show ?thesis using raw_lines_line [of l "[]" "[]"] assms by simp
next
  case False
  then have "prefix p l" using assms(1) prefix_snoc by metis
  then obtain u where l: "l = p @ u" by (auto simp: prefix_def)
  then have "p = [] \<or> solid_line p"
    using assms(3) by (auto simp: solid_line_def fits_def)
  then show ?thesis using raw_lines_rest [of p "[]"] assms(2) l by auto
qed

lemma prefix_frame:
  assumes "strict_prefix p (frame_bytes f)" and "frame_ok f"
  shows "list_all solid_line (raw_lines [] p)"
proof -
  obtain event raw where f: "f = (event, raw)" by (cases f)
  let ?d = "''data: '' @ raw"
  have d: "newline \<notin> set ?d" "solid_line ?d"
    using assms(2) f by (auto simp: one_line_def solid_line_def fits_def newline_def carriage_return_def)
  have data: "list_all solid_line (raw_lines [] q)" if "strict_prefix q (?d @ [newline, newline])" for q
  proof -
    have "prefix q (?d @ [newline])"
      using that prefix_snoc [of q "?d @ [newline]" newline] by (auto simp: strict_prefix_def)
    then show ?thesis using prefix_line d by blast
  qed
  show ?thesis
  proof (cases event)
    case None
    then show ?thesis using data assms(1) f by (simp add: SSEData_def)
  next
    case (Some e)
    let ?e = "''event: '' @ e"
    have e: "newline \<notin> set ?e" "solid_line ?e"
      using assms(2) f Some by (auto simp: one_line_def solid_line_def newline_def carriage_return_def)
    have p: "strict_prefix p ((?e @ [newline]) @ ?d @ [newline, newline])"
      using assms(1) f Some by (simp add: SSEEventFrame_def)
    show ?thesis
    proof (cases "prefix p (?e @ [newline])")
      case True
      then show ?thesis using prefix_line e by blast
    next
      case False
      then obtain q where q: "p = (?e @ [newline]) @ q" "strict_prefix q (?d @ [newline, newline])"
        using p prefix_append [of p "?e @ [newline]" "?d @ [newline, newline]"]
        unfolding strict_prefix_def by metis
      then show ?thesis using data raw_lines_line [OF e(1), of "[]" q] e(2) by simp
    qed
  qed
qed

text \<open>Where a cut of the byte stream falls.\<close>

lemma take_concat:
  "n < length (concat xs) \<Longrightarrow>
   \<exists>k p. k < length xs \<and> take n (concat xs) = concat (take k xs) @ p \<and> strict_prefix p (xs ! k)"
proof (induction xs arbitrary: n)
  case (Cons x xs)
  show ?case
  proof (cases "n < length x")
    case True
    then have "strict_prefix (take n x) x"
      by (simp add: strict_prefix_def take_is_prefix)
    with True show ?thesis by (intro exI [of _ 0] exI [of _ "take n x"]) simp
  next
    case False
    then obtain k p where "k < length xs" "take (n - length x) (concat xs) = concat (take k xs) @ p"
      "strict_prefix p (xs ! k)"
      using Cons.IH [of "n - length x"] Cons.prems by (auto simp: not_less less_diff_conv2)
    with False show ?thesis by (intro exI [of _ "Suc k"] exI [of _ p]) simp
  qed
qed simp

text \<open>
  C34: a reader gets back exactly what the encoders framed. Every sequence of frames whose payloads
  are one trimmed line each, as marshalled JSON is, and fit the line buffer, is read as the
  same events in the same order and then the end. When the connection breaks at any byte, the
  reader delivers exactly the events whose frames arrived completely and then the error: a
  truncated payload is never delivered.
\<close>

theorem sse_roundtrip:
  assumes "list_all frame_ok fs"
  shows "read_all (NewScanner (concat (map frame_bytes fs)) None) = (map frame_event fs, None) \<and>
    (\<forall>n e. \<exists>k. n \<ge> length (concat (map frame_bytes (take k fs))) \<and>
       (k < length fs \<longrightarrow> n < length (concat (map frame_bytes (take (Suc k) fs)))) \<and>
       read_all (NewScanner (take n (concat (map frame_bytes fs))) (Some e)) =
         (map frame_event (take k fs), Some e))"
proof (intro conjI allI)
  have nil: "read_all \<lparr>sc_lines = [], sc_err = err\<rparr> = ([], err)" for err
    by (subst read_all.simps) (simp add: reader_next_def split: option.split)
  have all: "read_all (NewScanner (concat (map frame_bytes fs)) err) = (map frame_event fs, err)" for err
    using NewScanner_frames [OF assms, of "[]" err] read_frames [OF assms, of "[]" err] nil by simp
  then show "read_all (NewScanner (concat (map frame_bytes fs)) None) = (map frame_event fs, None)" .
  fix n e
  let ?xs = "map frame_bytes fs"
  show "\<exists>k. n \<ge> length (concat (map frame_bytes (take k fs))) \<and>
       (k < length fs \<longrightarrow> n < length (concat (map frame_bytes (take (Suc k) fs)))) \<and>
       read_all (NewScanner (take n (concat ?xs)) (Some e)) = (map frame_event (take k fs), Some e)"
  proof (cases "n < length (concat ?xs)")
    case False
    then show ?thesis using all by (intro exI [of _ "length fs"]) simp
  next
    case True
    then obtain k p where k: "k < length fs" "take n (concat ?xs) = concat (take k ?xs) @ p"
      "strict_prefix p (frame_bytes (fs ! k))" using take_concat [OF True] by auto
    have ok: "list_all frame_ok (take k fs)" "frame_ok (fs ! k)"
      using assms k(1) by (auto simp: list_all_iff dest: in_set_takeD)
    have solid: "list_all solid_line (raw_lines [] p)" using prefix_frame [OF k(3) ok(2)] .
    have len: "n = length (concat (take k ?xs)) + length p"
      using arg_cong [OF k(2), of length] True by simp
    have "length p < length (frame_bytes (fs ! k))"
      using k(3) prefix_length_less by blast
    then have "n < length (concat (map frame_bytes (take (Suc k) fs)))"
      using len k(1) by (simp add: take_Suc_conv_app_nth take_map)
    moreover have "read_all (NewScanner (concat (map frame_bytes (take k fs)) @ p) (Some e)) =
        (map frame_event (take k fs), Some e)"
      using solid solid_dropCR ok(1)
      by (subst NewScanner_frames)
        (auto simp: read_frames list_all_iff solid_line_def read_unfinished)
    ultimately show ?thesis
      using len k(2) by (intro exI [of _ k]) (simp add: take_map)
  qed
qed

definition sample_frames :: "frame list" where
  "sample_frames = [(Some ''message_start'', ''{}''), (None, ''[DONE]'')]"

theorem sse_roundtrip_witness:
  "read_all (NewScanner (concat (map frame_bytes sample_frames)) None) =
     (map frame_event sample_frames, None)"
proof -
  have "list_all frame_ok sample_frames" by code_simp
  then show ?thesis using sse_roundtrip by blast
qed

section \<open>The lifecycle a client encoder sees\<close>

lemma translate_all_append:
  "translate_all (es @ fs) a = and_then (translate_all es a) (\<lambda>(out, a).
     and_then (translate_all fs a) (\<lambda>(rest, a). Inr (out @ rest, a)))"
  by (induction es arbitrary: a) (auto simp: and_then_def split: sum.split prod.split)

definition start_event :: "string \<Rightarrow> string \<Rightarrow> StreamEvent" where
  "start_event rid model = (stream_event StreamEventStarted)\<lparr>st_ResultID := rid, st_Model := model\<rparr>"

definition body_event :: "StreamEvent \<Rightarrow> bool" where
  "body_event e \<longleftrightarrow> st_Kind e \<in> {StreamEventItemStarted, StreamEventContentStarted,
     StreamEventTextDelta, StreamEventToolUseArgumentsDelta, StreamEventItemCompleted} \<and>
     st_ItemID e = item_id (st_ItemOrdinal e)"

definition terminal_event :: "string \<Rightarrow> string \<Rightarrow> ValidatedResponseStream \<Rightarrow> StreamEvent \<Rightarrow> bool" where
  "terminal_event rid model r e \<longleftrightarrow> st_ResultID e = rid \<and> st_Model e = model \<and>
     (if vs_errorSeen r then st_Kind e = StreamEventFailed \<and> st_ErrorCode e \<noteq> [] \<and> st_ErrorMessage e \<noteq> []
      else st_Kind e = StreamEventCompleted \<and> st_Completion e = vs_completion r)"

definition ended :: "ValidatedResponseStream \<Rightarrow> bool" where
  "ended r \<longleftrightarrow> vs_errorSeen r \<or> vs_responseDone r"

text \<open>The start, the body and, once the response has ended, one terminal event.\<close>

definition stream_shape ::
    "string \<Rightarrow> string \<Rightarrow> ValidatedResponseStream \<Rightarrow> StreamEvent list \<Rightarrow> bool" where
  "stream_shape rid model r out \<longleftrightarrow>
     (if \<not> vs_identitySeen r then out = []
      else \<exists>body fin. out = start_event rid model # body @ fin \<and> list_all body_event body \<and>
        (if ended r then \<exists>e. fin = [e] \<and> terminal_event rid model r e else fin = []))"

text \<open>The state of the adapter against that of the validator.\<close>

definition adapter_sim :: "ValidatedResponseStream \<Rightarrow> EnvelopeEventAdapter \<Rightarrow> bool" where
  "adapter_sim r a \<longleftrightarrow>
     ad_responseOpen a = (vs_assembler r \<noteq> None) \<and>
     (vs_responseDone r \<or> (vs_responseID r \<noteq> []) = (vs_assembler r \<noteq> None)) \<and>
     ad_started a = vs_identitySeen r \<and> (ad_resultID a \<noteq> []) = vs_identitySeen r \<and>
     (vs_identitySeen r \<longrightarrow> vs_assembler r \<noteq> None) \<and>
     (vs_errorSeen r \<or> vs_finishSeen r \<or> vs_responseDone r \<longrightarrow> vs_identitySeen r) \<and>
     ad_completed a = ended r \<and> list_all (\<lambda>(n, i). i = item_id n) (ad_itemIDs a) \<and>
     (vs_finishSeen r \<longrightarrow> ad_completion a = vs_completion r)"

text \<open>What one event adds to the output of the adapter.\<close>

definition step_output ::
    "ValidatedResponseStream \<Rightarrow> ValidatedResponseStream \<Rightarrow> EnvelopeEventAdapter \<Rightarrow>
     EnvelopeEventAdapter \<Rightarrow> StreamEvent list \<Rightarrow> bool" where
  "step_output r r' a a' out \<longleftrightarrow>
     (if \<not> vs_identitySeen r' then out = []
      else if \<not> vs_identitySeen r then
        out = [start_event (ad_resultID a') (ad_model a')] \<and> \<not> ended r'
      else ad_resultID a' = ad_resultID a \<and> ad_model a' = ad_model a \<and>
        (if ended r then out = [] \<and> vs_errorSeen r' = vs_errorSeen r \<and> vs_completion r' = vs_completion r
         else if ended r' then \<exists>e. out = [e] \<and> terminal_event (ad_resultID a) (ad_model a) r' e
         else list_all body_event out))"

lemma shape_step:
  assumes "stream_shape (ad_resultID a) (ad_model a) r out"
    and "step_output r r' a a' new" and "vs_identitySeen r \<Longrightarrow> vs_identitySeen r'"
    and "ended r \<Longrightarrow> ended r'"
  shows "stream_shape (ad_resultID a') (ad_model a') r' (out @ new)"
  using assms unfolding stream_shape_def step_output_def
  by (fastforce simp: terminal_event_def split: if_splits)

lemma itemID_sim: "adapter_sim r a \<Longrightarrow> itemIDForOrdinal a n = item_id n"
  by (auto simp: adapter_sim_def itemIDForOrdinal_def list_all_iff split: option.splits dest!: map_of_SomeD)


lemmas adapter_defs = Translate_def translateEnvelopeStart_def translateResponseIdentity_def
  translateItemStart_def translateContentStart_def translateTextDelta_def translateArgsDelta_def
  translateItemCompleted_def translateEnvelopeEnd_def translateUsage_def translateFinish_def
  translateError_def ensureStarted_def

lemma asm_apply_payload:
  assumes "asm_apply codec kind ie a = Inr a'"
  shows "(case kind of
      EventItemStart \<Rightarrow> \<exists>s. ie_payload ie = Some (item_start s) \<and> start_Kind s \<noteq> ItemKindNone
    | EventContentStart \<Rightarrow> \<exists>k. ie_payload ie = Some (content_start k) \<and> k \<noteq> []
    | EventTextDelta \<Rightarrow> \<exists>t. ie_payload ie = Some (text_delta t)
    | EventArgsDelta \<Rightarrow> \<exists>t. ie_payload ie = Some (args_delta t)
    | EventItemCompleted \<Rightarrow> \<exists>i. ie_payload ie = Some (item_completed i) \<and> item_Kind i \<noteq> ItemKindNone
    | _ \<Rightarrow> False)"
proof (cases "ie_payload ie")
  case (Some p)
  then show ?thesis
    using assms
    by (cases kind; cases p) (auto simp: asm_apply_def asm_start_def asm_content_def asm_text_def
        asm_args_def asm_completed_def result_simps split: if_splits option.splits)
qed (use assms in \<open>simp add: asm_apply_def\<close>)

text \<open>The events of a response other than those of its items.\<close>

lemma applyItemEvent_ok:
  assumes "applyItemEvent codec e r = Inr r'"
  obtains ie asm where "ev_Payload e = item_event ie" "vs_identitySeen r" "\<not> vs_finishSeen r"
    "\<not> vs_errorSeen r" "vs_assembler r' \<noteq> None" "asm_apply codec (ev_Kind e) ie asm = Inr (the (vs_assembler r'))"
    "vs_identitySeen r'" "vs_finishSeen r' = vs_finishSeen r" "vs_errorSeen r' = vs_errorSeen r"
    "vs_responseDone r' = vs_responseDone r" "vs_responseID r' = vs_responseID r"
    "vs_completion r' = vs_completion r" "vs_assembler r \<noteq> None"
  using assms
  by (cases "ev_Payload e")
    (auto simp: applyItemEvent_def requireOpenResponseEvent_def early_return split: if_splits option.splits)

lemma translate_item:
  assumes "applyItemEvent codec e r = Inr r'" and "adapter_sim r a" and "\<not> vs_responseDone r"
    and "ev_Kind e \<in> {EventItemStart, EventContentStart, EventTextDelta, EventArgsDelta, EventItemCompleted}"
  shows "\<exists>out a'. Translate e a = Inr (out, a') \<and> adapter_sim r' a' \<and> step_output r r' a a' out"
proof -
  obtain ie asm where ok: "ev_Payload e = item_event ie" "vs_identitySeen r" "\<not> vs_finishSeen r"
    "\<not> vs_errorSeen r" "vs_assembler r' \<noteq> None" "asm_apply codec (ev_Kind e) ie asm = Inr (the (vs_assembler r'))"
    "vs_identitySeen r'" "vs_finishSeen r' = vs_finishSeen r" "vs_errorSeen r' = vs_errorSeen r"
    "vs_responseDone r' = vs_responseDone r" "vs_responseID r' = vs_responseID r"
    "vs_completion r' = vs_completion r" "vs_assembler r \<noteq> None"
    using applyItemEvent_ok [OF assms(1)] by metis
  have started: "ensureStarted a = ([], a)" "ad_resultID a \<noteq> []"
    using assms(2) ok(2) by (auto simp: adapter_sim_def ensureStarted_def)
  have id: "itemIDForOrdinal a n = item_id n" for n using itemID_sim [OF assms(2)] .
  have ids: "list_all (\<lambda>(n, i). i = item_id n) (AList.update k (item_id k) al)"
    "list_all (\<lambda>(n, i). i = item_id n) (AList.delete k al)"
    if "list_all (\<lambda>(n, i). i = item_id n) al" for k al
    using that by (induction al) (auto simp: AList.delete_eq)
  note sim = assms(2) [unfolded adapter_sim_def ended_def]
  from assms(4) asm_apply_payload [OF ok(6)] show ?thesis
    using sim ok started assms(3) ids
    by (auto simp: Translate_def translateItemStart_def translateContentStart_def
        translateTextDelta_def translateArgsDelta_def translateItemCompleted_def adapter_sim_def
        step_output_def ended_def body_event_def positioned_def stream_event_def id Let_def
        split: ItemStartPayload.split)
qed


lemma translate_other:
  assumes "vs_dispatch codec e r = Inr r'" and "adapter_sim r a" and "\<not> vs_responseDone r"
    and "ev_Kind e \<notin> {EventItemStart, EventContentStart, EventTextDelta, EventArgsDelta, EventItemCompleted}"
  shows "\<exists>out a'. Translate e a = Inr (out, a') \<and> adapter_sim r' a' \<and> step_output r r' a a' out"
proof -
  note sim = assms(2) [unfolded adapter_sim_def ended_def]
  note defs = vs_dispatch_def adapter_sim_def step_output_def ended_def adapter_defs early_return
  show ?thesis
  proof (cases "ev_Kind e")
    case EventEnvelopeStart
    with assms sim show ?thesis
      by (cases "ev_Payload e") (auto simp: defs applyEnvelopeStart_def split: if_splits)
  next
    case EventResponseIdentity
    with assms sim show ?thesis
      by (cases "ev_Payload e") (auto simp: defs applyResponseIdentity_def start_event_def
          responseID_IsZero_def strip_leading.simps TrimSpace_solid split: if_splits)
  next
    case EventUsage
    with assms sim show ?thesis
      by (cases "ev_Payload e") (auto simp: defs applyUsage_def requireOpenResponseEvent_def split: if_splits)
  next
    case EventFinish
    with assms sim show ?thesis
      by (cases "ev_Payload e") (auto simp: defs applyFinish_def requireOpenResponseEvent_def Let_def split: if_splits)
  next
    case EventError
    with assms sim show ?thesis
      by (cases "ev_Payload e") (auto simp: defs applyError_def requireOpenResponseEvent_def Let_def
          terminal_event_def failedEvent_def stream_event_def split: if_splits)
  next
    case EventEnvelopeEnd
    with assms sim show ?thesis
      by (cases "ev_Payload e") (auto simp: defs applyEnvelopeEnd_def validateTerminalStatus_def
          terminal_event_def failedEvent_def stream_event_def split: if_splits)
  qed (use assms in \<open>auto simp: vs_dispatch_def\<close>)
qed

lemma translate_step:
  assumes "vs_apply codec e r = Inr r'" and "adapter_sim r a"
  shows "\<exists>out a'. Translate e a = Inr (out, a') \<and> adapter_sim r' a' \<and> step_output r r' a a' out"
proof -
  define r0 where "r0 = (if ev_Seq e > 0 then r\<lparr>vs_lastSequence := ev_Seq e\<rparr> else r)"
  have d: "vs_dispatch codec e r0 = Inr r'" "\<not> vs_responseDone r0"
    using assms(1) by (auto simp: vs_apply_def r0_def split: if_splits)
  have same: "adapter_sim r0 = adapter_sim r" "step_output r0 = step_output r"
    by (auto simp: fun_eq_iff r0_def adapter_sim_def step_output_def ended_def)
  show ?thesis
  proof (cases "ev_Kind e \<in> {EventItemStart, EventContentStart, EventTextDelta, EventArgsDelta, EventItemCompleted}")
    case True
    then have "applyItemEvent codec e r0 = Inr r'" using d(1) by (auto simp: vs_dispatch_def)
    from translate_item [OF this _ d(2) True] assms(2) same show ?thesis by metis
  next
    case False
    from translate_other [OF d(1) _ d(2) False] assms(2) same show ?thesis by metis
  qed
qed


lemma vs_monotone:
  assumes "vs_apply codec e r = Inr r'"
  shows "(vs_identitySeen r \<longrightarrow> vs_identitySeen r') \<and> (ended r \<longrightarrow> ended r')"
proof -
  define r0 where "r0 = (if ev_Seq e > 0 then r\<lparr>vs_lastSequence := ev_Seq e\<rparr> else r)"
  have d: "vs_dispatch codec e r0 = Inr r'"
    using assms by (auto simp: vs_apply_def r0_def split: if_splits)
  have "(vs_identitySeen r0 \<longrightarrow> vs_identitySeen r') \<and> (ended r0 \<longrightarrow> ended r')"
    using d by (cases "ev_Kind e"; cases "ev_Payload e")
      (auto simp: vs_dispatch_def ended_def applyEnvelopeStart_def applyResponseIdentity_def
        applyItemEvent_def applyUsage_def applyFinish_def applyError_def applyEnvelopeEnd_def
        early_return split: if_splits)
  then show ?thesis by (auto simp: r0_def ended_def)
qed

lemma adapter_run:
  assumes "validate_events codec es NewValidatedResponseStream = Inr r"
  shows "\<exists>out a. translate_all es NewEnvelopeEventAdapter = Inr (out, a) \<and> adapter_sim r a \<and>
    stream_shape (ad_resultID a) (ad_model a) r out"
  using assms
proof (induction es arbitrary: r rule: rev_induct)
  case Nil
  then show ?case
    by (auto simp: adapter_sim_def stream_shape_def ended_def NewValidatedResponseStream_def
        NewEnvelopeEventAdapter_def)
next
  case (snoc e es)
  then obtain r0 where r0: "validate_events codec es NewValidatedResponseStream = Inr r0"
    "vs_apply codec e r0 = Inr r" by (auto simp: validate_events_append result_simps)
  from snoc.IH [OF r0(1)] obtain out a where IH: "translate_all es NewEnvelopeEventAdapter = Inr (out, a)"
    "adapter_sim r0 a" "stream_shape (ad_resultID a) (ad_model a) r0 out" by blast
  from translate_step [OF r0(2) IH(2)] obtain new a' where
    "Translate e a = Inr (new, a')" "adapter_sim r a'" "step_output r0 r a a' new" by blast
  then show ?case
    using IH(1) shape_step [OF IH(3)] vs_monotone [OF r0(2)]
    by (auto simp: translate_all_append)
qed

text \<open>
  C35: the client encoders see a well-formed stream. On every sequence of events the validator
  accepts, the adapter does not fail; it emits nothing before the response is identified, then
  the start of the response with its identifier and model, then events of items, each under the
  identifier of its ordinal, and exactly one terminal event, as the last one, once the response
  has ended or failed: failed with a code and a message after an error, and completed with the
  completion of the stream otherwise.
\<close>

theorem adapter_lifecycle:
  assumes "validate_events codec es NewValidatedResponseStream = Inr r"
  shows "\<exists>out a. translate_all es NewEnvelopeEventAdapter = Inr (out, a) \<and>
    stream_shape (ad_resultID a) (ad_model a) r out"
  using adapter_run [OF assms] by blast

definition sample_out :: "StreamEvent list" where
  "sample_out = (case translate_all sample_streamed NewEnvelopeEventAdapter of
     Inl _ \<Rightarrow> [] | Inr (out, _) \<Rightarrow> out)"

lemma sample_streamed_r:
  obtains r where "validate_events sample_codec sample_streamed NewValidatedResponseStream = Inr r"
  using sample_streamed_ok by (auto simp: is_ok_iff)

theorem adapter_lifecycle_witness:
  "map st_Kind sample_out = [StreamEventStarted, StreamEventItemStarted, StreamEventContentStarted,
     StreamEventTextDelta, StreamEventTextDelta, StreamEventItemCompleted, StreamEventCompleted] \<and>
   (\<exists>rid model r. stream_shape rid model r sample_out)"
proof -
  obtain r where "validate_events sample_codec sample_streamed NewValidatedResponseStream = Inr r"
    by (rule sample_streamed_r)
  from adapter_lifecycle [OF this] have "\<exists>rid model r. stream_shape rid model r sample_out"
    unfolding sample_out_def by fastforce
  moreover have "map st_Kind sample_out = [StreamEventStarted, StreamEventItemStarted,
     StreamEventContentStarted, StreamEventTextDelta, StreamEventTextDelta,
     StreamEventItemCompleted, StreamEventCompleted]" by code_simp
  ultimately show ?thesis by blast
qed

section \<open>The content a client encoder sees\<close>

text \<open>The deltas and the completed items among the emitted events, as item events.\<close>

definition client_trace :: "StreamEvent list \<Rightarrow> (EventKind \<times> ItemEvent) list" where
  "client_trace out = List.map_filter (\<lambda>e. case st_Kind e of
       StreamEventTextDelta \<Rightarrow> Some (EventTextDelta, \<lparr>ie_item = st_ItemOrdinal e,
         ie_part = st_PartOrdinal e, ie_payload = Some (text_delta (st_TextDelta e))\<rparr>)
     | StreamEventToolUseArgumentsDelta \<Rightarrow> Some (EventArgsDelta, \<lparr>ie_item = st_ItemOrdinal e,
         ie_part = st_PartOrdinal e, ie_payload = Some (args_delta (st_ArgumentsDelta e))\<rparr>)
     | _ \<Rightarrow> None) out"

definition client_items :: "StreamEvent list \<Rightarrow> (32 word \<times> CanonicalItem) list" where
  "client_items out = List.map_filter (\<lambda>e. if st_Kind e = StreamEventItemCompleted
     then map_option (Pair (st_ItemOrdinal e)) (st_CompletedItem e) else None) out"

definition items_completed :: "Event list \<Rightarrow> (32 word \<times> CanonicalItem) list" where
  "items_completed es = List.map_filter (\<lambda>e. case (ev_Kind e, ev_Payload e) of
       (EventItemCompleted, item_event ie) \<Rightarrow>
         (case ie_payload ie of Some (item_completed item) \<Rightarrow> Some (ie_item ie, item) | _ \<Rightarrow> None)
     | _ \<Rightarrow> None) es"

lemmas trace_defs = client_trace_def client_items_def items_completed_def item_trace_def
  List.map_filter_def

lemma no_item_content:
  assumes "ev_Kind e \<notin> {EventTextDelta, EventArgsDelta, EventItemCompleted}"
  shows "text_deltas n k (item_trace [e]) = [] \<and> args_deltas n (item_trace [e]) = [] \<and>
    items_completed [e] = []"
  using assms
  by (cases "ev_Kind e"; cases "ev_Payload e")
    (simp_all add: trace_defs text_deltas_def args_deltas_def)

lemma started_quiet: "ensureStarted a = (out, a') \<Longrightarrow> client_trace out = [] \<and> client_items out = []"
  by (auto simp: ensureStarted_def trace_defs stream_event_def split: if_splits)

lemma item_start_quiet:
  "translateItemStart ev a = Inr (out, a') \<Longrightarrow> client_trace out = [] \<and> client_items out = []"
  by (cases "ev_Payload ev")
    (auto simp: translateItemStart_def trace_defs stream_event_def Let_def
      split: option.splits ItemEventPayload.splits if_splits ItemStartPayload.splits)

lemma content_start_quiet:
  "translateContentStart ev a = Inr out \<Longrightarrow> client_trace out = [] \<and> client_items out = []"
  by (cases "ev_Payload ev")
    (auto simp: translateContentStart_def trace_defs positioned_def stream_event_def
      split: option.splits ItemEventPayload.splits if_splits)

lemma terminal_quiet:
  "translateEnvelopeEnd ev a = (out, a') \<Longrightarrow> client_trace out = [] \<and> client_items out = []"
  "translateError ev a = (out, a') \<Longrightarrow> client_trace out = [] \<and> client_items out = []"
  by (cases "ev_Payload ev"; auto simp: translateEnvelopeEnd_def translateError_def trace_defs
      failedEvent_def stream_event_def Let_def split: if_splits)+

lemma trace_append:
  "client_trace (o1 @ o2) = client_trace o1 @ client_trace o2"
  "client_items (o1 @ o2) = client_items o1 @ client_items o2"
  "client_trace [] = []" "client_items [] = []"
  by (simp_all add: trace_defs)

lemma translate_quiet:
  assumes "Translate e a = Inr (out, a')"
    and "ev_Kind e \<notin> {EventTextDelta, EventArgsDelta, EventItemCompleted}"
  shows "client_trace out = [] \<and> client_items out = []"
  using assms
  by (cases "ev_Kind e")
    (auto simp: Translate_def trace_append translateFinish_def Let_def result_simps
      dest: started_quiet item_start_quiet content_start_quiet terminal_quiet
      split: if_splits prod.splits)

lemma translate_content:
  assumes "Translate e a = Inr (out, a')"
  shows "text_deltas n k (client_trace out) = text_deltas n k (item_trace [e]) \<and>
    args_deltas n (client_trace out) = args_deltas n (item_trace [e]) \<and>
    client_items out = items_completed [e]"
proof (cases "ev_Kind e \<in> {EventTextDelta, EventArgsDelta, EventItemCompleted}")
  case False
  then show ?thesis
    using translate_quiet [OF assms] no_item_content [of e n k]
    by (simp add: text_deltas_def args_deltas_def)
next
  case True
  then obtain ie p where ie: "ev_Payload e = item_event ie" "ie_payload ie = Some p"
    using assms
    by (cases "ev_Payload e")
      (auto simp: Translate_def translateTextDelta_def translateArgsDelta_def
        translateItemCompleted_def split: option.splits)
  have texts: "text_deltas n k [x] = text_of n k x" "args_deltas n [x] = args_of n x" for x
    by (simp_all add: text_deltas_def args_deltas_def)
  from True consider "ev_Kind e = EventTextDelta" | "ev_Kind e = EventArgsDelta" | "ev_Kind e = EventItemCompleted"
    by blast
  then show ?thesis
  proof cases
    case 1
    then obtain t where "p = text_delta t" and "out = [(positioned StreamEventTextDelta ie a)\<lparr>st_TextDelta := t\<rparr>]"
      using assms ie by (cases p) (auto simp: Translate_def translateTextDelta_def)
    with 1 ie show ?thesis by (simp add: trace_defs texts positioned_def stream_event_def)
  next
    case 2
    then obtain t where "p = args_delta t"
      and "out = [(positioned StreamEventToolUseArgumentsDelta ie a)\<lparr>st_ArgumentsDelta := t\<rparr>]"
      using assms ie by (cases p) (auto simp: Translate_def translateArgsDelta_def)
    with 2 ie show ?thesis by (simp add: trace_defs texts positioned_def stream_event_def)
  next
    case 3
    then obtain item x where "p = item_completed item" and "out = [x]"
      and "x = (stream_event StreamEventItemCompleted)\<lparr>st_ItemID := itemIDForOrdinal a (ie_item ie),
        st_ItemKind := item_Kind item, st_ItemOrdinal := ie_item ie, st_CompletedItem := Some item\<rparr>"
      using assms ie by (cases p) (auto simp: Translate_def translateItemCompleted_def split: if_splits)
    with 3 ie show ?thesis by (simp add: trace_defs texts stream_event_def)
  qed
qed

lemma translate_all_content:
  "translate_all es a = Inr (out, a') \<Longrightarrow>
   text_deltas n k (client_trace out) = text_deltas n k (item_trace es) \<and>
   args_deltas n (client_trace out) = args_deltas n (item_trace es) \<and>
   client_items out = items_completed es"
proof (induction es arbitrary: a out)
  case Nil
  then show ?case by (simp add: trace_defs)
next
  case (Cons e es)
  then obtain o1 a1 o2 where step: "Translate e a = Inr (o1, a1)" "translate_all es a1 = Inr (o2, a')"
    "out = o1 @ o2" by (auto simp: result_simps)
  have app: "client_trace (o1 @ o2) = client_trace o1 @ client_trace o2"
    "client_items (o1 @ o2) = client_items o1 @ client_items o2"
    "item_trace (e # es) = item_trace [e] @ item_trace es"
    "items_completed (e # es) = items_completed [e] @ items_completed es"
    by (simp_all add: trace_defs)
  show ?case
    using translate_content [OF step(1), of n k] Cons.IH [OF step(2)] step(3)
    by (simp add: app text_deltas_def args_deltas_def)
qed


lemma streamed_as_cong:
  assumes "\<And>n k. text_deltas n k tr = text_deltas n k tr'" and "\<And>n. args_deltas n tr = args_deltas n tr'"
  shows "streamed_as codec n tr item = streamed_as codec n tr' item"
  by (cases item) (simp_all add: assms split: ToolInput.split)

lemma items_completed_mem:
  assumes "(n, item) \<in> set (items_completed es)"
  shows "\<exists>e ie. e \<in> set es \<and> ev_Kind e = EventItemCompleted \<and> ev_Payload e = item_event ie \<and>
    ie_payload ie = Some (item_completed item) \<and> n = ie_item ie"
proof -
  have one: "ev_Kind e = EventItemCompleted \<and> (\<exists>ie. ev_Payload e = item_event ie \<and>
      ie_payload ie = Some (item_completed item) \<and> n = ie_item ie)"
    if "(n, item) \<in> set (items_completed [e])" for e
    using that by (cases "ev_Kind e"; cases "ev_Payload e")
      (auto simp: trace_defs split: option.splits ItemEventPayload.splits)
  have "items_completed es = concat (map (\<lambda>e. items_completed [e]) es)"
    by (induction es) (auto simp: trace_defs)
  then obtain e where "e \<in> set es" "(n, item) \<in> set (items_completed [e])" using assms by auto
  with one show ?thesis by blast
qed

text \<open>
  C21: what a client is shown while it streams is what it is given in the end. On every sequence of
  events the validator accepts, the adapter hands on exactly the completed items, in their
  order and at their ordinals, and the text and argument deltas it has emitted for an item add
  up to the text of each of its parts and to the input of its call.
\<close>

theorem client_content_exact:
  assumes "validate_events codec es NewValidatedResponseStream = Inr r"
  shows "\<exists>out a. translate_all es NewEnvelopeEventAdapter = Inr (out, a) \<and>
    client_items out = items_completed es \<and>
    (\<forall>(n, item) \<in> set (client_items out). streamed_as codec n (client_trace out) item)"
proof -
  obtain out a where out: "translate_all es NewEnvelopeEventAdapter = Inr (out, a)"
    using adapter_run [OF assms] by blast
  have same: "streamed_as codec n (client_trace out) item = streamed_as codec n (item_trace es) item" for n item
    using translate_all_content [OF out] by (intro streamed_as_cong) blast+
  have "streamed_as codec n (client_trace out) item" if "(n, item) \<in> set (items_completed es)" for n item
  proof -
    from items_completed_mem [OF that] obtain e ie where "e \<in> set es" "ev_Kind e = EventItemCompleted"
      "ev_Payload e = item_event ie" "ie_payload ie = Some (item_completed item)" "n = ie_item ie"
      by blast
    then show ?thesis using completed_streamed [OF assms] same by blast
  qed
  then show ?thesis using out translate_all_content [OF out] by auto
qed

lemma sample_out_items:
  "client_items sample_out = [(0, message_item \<lparr>mi_role = MessageRoleAssistant,
     mi_content = [text_part ''hello'' []], mi_scope = ContextScopeHistory\<rparr>)]"
  by code_simp

theorem client_content_exact_witness:
  "client_items sample_out = [(0, message_item \<lparr>mi_role = MessageRoleAssistant,
     mi_content = [text_part ''hello'' []], mi_scope = ContextScopeHistory\<rparr>)] \<and>
   streamed_as sample_codec 0 (client_trace sample_out) (message_item \<lparr>mi_role = MessageRoleAssistant,
     mi_content = [text_part ''hello'' []], mi_scope = ContextScopeHistory\<rparr>)"
proof -
  obtain r where "validate_events sample_codec sample_streamed NewValidatedResponseStream = Inr r"
    by (rule sample_streamed_r)
  from client_content_exact [OF this] have
    "\<forall>(n, item) \<in> set (client_items sample_out). streamed_as sample_codec n (client_trace sample_out) item"
    unfolding sample_out_def by fastforce
  then show ?thesis unfolding sample_out_items by simp
qed

end
