(* ===== verification/Chat_Encode.thy ===== *)
theory Chat_Encode
  imports SSE_Framing History_Fingerprint Compat
begin

text \<open>
  \<^verbatim>\<open>wire/chatcompletions\<close>: what a Chat Completions client is sent. The document encoder turns a
  completed canonical response into one chat completion; the stream encoder turns canonical
  response events into chunks. \<^verbatim>\<open>encoding/json\<close> is the parameter \<open>marshal\<close> (\<open>None\<close> is its error).
\<close>

section \<open>Wire documents\<close>

record chatCompletionsResponseFunctionDTO =
  fn_Name :: string
  fn_Arguments :: string

record chatCompletionsResponseCustomDTO =
  cu_Name :: string
  cu_Input :: string

record chatCompletionsResponseToolCallDTO =
  rt_ID :: string
  rt_Type :: string
  rt_Function :: "chatCompletionsResponseFunctionDTO option"
  rt_Custom :: "chatCompletionsResponseCustomDTO option"

record chatCompletionsResponseMessageDTO =
  rm_Role :: string
  rm_Content :: string
  rm_ToolCalls :: "chatCompletionsResponseToolCallDTO list"

text \<open>The delta of a call has the fields of the call and its index.\<close>

record chatCompletionsDeltaToolCallDTO =
  dt_Index :: nat
  dt_ID :: string
  dt_Type :: string
  dt_Function :: "chatCompletionsResponseFunctionDTO option"
  dt_Custom :: "chatCompletionsResponseCustomDTO option"

record chatCompletionsDeltaDTO =
  dl_Role :: string
  dl_Content :: string
  dl_ToolCalls :: "chatCompletionsDeltaToolCallDTO list"

record chatCompletionsPromptTokenDetailsDTO =
  pd_CachedTokens :: int
  pd_CacheWriteTokens :: int

record chatCompletionsUsageDTO =
  us_PromptTokens :: int
  us_CompletionTokens :: int
  us_TotalTokens :: int
  us_PromptDetails :: "chatCompletionsPromptTokenDetailsDTO option"
  us_CompletionDetails :: "int option"

record chatCompletionsStreamChoiceDTO =
  sh_Index :: nat
  sh_Delta :: chatCompletionsDeltaDTO
  sh_FinishReason :: "string option"

record chatCompletionsStreamResponseDTO =
  sd_ID :: string
  sd_Object :: string
  sd_Model :: string
  sd_Choices :: "chatCompletionsStreamChoiceDTO list"
  sd_Usage :: "chatCompletionsUsageDTO option"

record chatCompletionsBufferedChoiceDTO =
  bh_Index :: nat
  bh_Message :: chatCompletionsResponseMessageDTO
  bh_FinishReason :: string

record chatCompletionsResponseDTO =
  bd_ID :: string
  bd_Object :: string
  bd_Model :: string
  bd_Choices :: "chatCompletionsBufferedChoiceDTO list"
  bd_Usage :: "chatCompletionsUsageDTO option"

datatype chat_document =
    stream_document chatCompletionsStreamResponseDTO
  | buffered_document chatCompletionsResponseDTO
  | error_document string string string

definition zeroDelta :: chatCompletionsDeltaDTO where
  "zeroDelta = \<lparr>dl_Role = [], dl_Content = [], dl_ToolCalls = []\<rparr>"

definition zeroDeltaCall :: "nat \<Rightarrow> chatCompletionsDeltaToolCallDTO" where
  "zeroDeltaCall index = \<lparr>dt_Index = index, dt_ID = [], dt_Type = [], dt_Function = None, dt_Custom = None\<rparr>"

section \<open>Shared projections\<close>

definition chatUsageFromCanonical :: "TokenUsage \<Rightarrow> chatCompletionsUsageDTO option" where
  "chatUsageFromCanonical usage =
     (case (tu_input usage, tu_output usage) of
        (Some input, Some output) \<Rightarrow>
          Some \<lparr>us_PromptTokens = input, us_CompletionTokens = output,
            us_TotalTokens = wrap64 (input + output),
            us_PromptDetails =
              (if tu_cacheRead usage \<noteq> None \<or> tu_cacheWrite usage \<noteq> None
               then Some \<lparr>pd_CachedTokens = (case tu_cacheRead usage of None \<Rightarrow> 0 | Some n \<Rightarrow> n),
                 pd_CacheWriteTokens = (case tu_cacheWrite usage of None \<Rightarrow> 0 | Some n \<Rightarrow> n)\<rparr>
               else None),
            us_CompletionDetails = tu_reasoning usage\<rparr>
      | _ \<Rightarrow> None)"

definition chatClientFinishReason :: "Completion \<Rightarrow> bool \<Rightarrow> go_error + string" where
  "chatClientFinishReason completion hasToolCalls =
     (if cmp_class completion = CompletionCompleted
      then Inr (if hasToolCalls then ''tool_calls'' else ''stop'')
      else if cmp_class completion = CompletionIncomplete then Inr ''length''
      else if cmp_class completion = CompletionDeclined then Inr ''content_filter''
      else if cmp_class completion = CompletionFailed
      then Inl (backend_error [] 0 (''backend response failed: '' @ cmp_reason completion))
      else Inl (canonical_InternalError ''canonical completion class cannot be projected to Chat Completions''))"

definition omission :: "string \<Rightarrow> string \<Rightarrow> Change" where
  "omission capability occurrence =
     \<lparr>cg_Capability = capability, cg_Occurrence = occurrence, cg_Kind = Omission\<rparr>"

definition ResponseItemOccurrence :: "32 word \<Rightarrow> string" where
  "ResponseItemOccurrence index = ''response:'' @ decimal (unat index)"

definition ResponsePartOccurrence :: "32 word \<Rightarrow> 32 word \<Rightarrow> string" where
  "ResponsePartOccurrence item part =
     ''response:'' @ decimal (unat item) @ '':'' @ decimal (unat part)"

text \<open>The decisions come with the error.\<close>

definition finalizeChatClientProjection :: "bool \<Rightarrow> bool \<Rightarrow> string \<Rightarrow> Change list \<times> go_error option" where
  "finalizeChatClientProjection sawReasoning sawVisible finishReason =
     ((if sawReasoning then [omission ''response.items.reasoning'' []] else []),
      (if \<not> sawVisible \<and> finishReason \<noteq> ''content_filter''
       then Some (backend_error [] 0
         ''backend response has no Chat Completions semantics after client projection'')
       else None))"

fun citation_drops :: "32 word \<Rightarrow> nat \<Rightarrow> MessagePart list \<Rightarrow> Change list" where
  "citation_drops item k [] = []"
| "citation_drops item k (part # parts) =
     (case part of
        text_part _ citations \<Rightarrow> if citations = [] then [] else
          [omission ''response.items.message.content.text.citations'' (ResponsePartOccurrence item (of_nat k))]
      | _ \<Rightarrow> []) @ citation_drops item (Suc k) parts"

definition chatCompletionsCitationDropDecisions :: "32 word \<Rightarrow> CanonicalItem \<Rightarrow> Change list" where
  "chatCompletionsCitationDropDecisions itemOrdinal item =
     (case item of message_item m \<Rightarrow> citation_drops itemOrdinal 0 (mi_content m) | _ \<Rightarrow> [])"

section \<open>The document encoder\<close>

definition search_effect :: "ToolEffect \<Rightarrow> bool" where
  "search_effect e \<longleftrightarrow> te_Kind e = ToolKindWebSearch"

definition search_omission :: "ToolEffect \<Rightarrow> Change" where
  "search_omission e = omission ''response.items.kind'' (ResponseItemOccurrence (of_int (te_CallIndex e)))"

text \<open>The indices to drop, and their decisions; an unresolved search is an error.\<close>

definition dropped_indices :: "ToolEffect list \<Rightarrow> int list" where
  "dropped_indices effects =
     concat (map (\<lambda>e. [te_CallIndex e, te_ResultIndex e]) (filter search_effect effects))"

text \<open>\<open>errtext\<close> is the \<^verbatim>\<open>Error()\<close> method of the error values.\<close>

definition projectChatCompletionsWebSearchLifecycles ::
    "(go_error \<Rightarrow> string) \<Rightarrow> CanonicalItem list \<Rightarrow> go_error + CanonicalItem list \<times> Change list" where
  "projectChatCompletionsWebSearchLifecycles errtext items =
     (case MatchToolEffects items of
        Inl e \<Rightarrow> Inl (backend_error [] 0 (''backend returned an invalid tool-effect lifecycle: '' @ errtext e))
      | Inr effects \<Rightarrow>
          if list_ex (\<lambda>e. te_ResultIndex e < 0) (filter search_effect effects)
          then Inl (backend_error [] 0
            ''backend returned an unresolved web-search lifecycle to a Chat Completions client'')
          else let drop' = dropped_indices effects;
            kept = filter (\<lambda>(i, _). int i \<notin> set drop') (enumerate 0 items)
          in if drop' \<noteq> [] \<and> kept = []
             then Inl (backend_error [] 0
               ''backend response has no Chat Completions semantics after web-search projection'')
             else Inr (map snd kept, map search_omission (filter search_effect effects) @
               concat (map (\<lambda>(i, item). chatCompletionsCitationDropDecisions (of_nat i) item) kept)))"

definition image_refused :: "string \<Rightarrow> go_error" where
  "image_refused surface =
     backend_error ''chat_completions'' 0 (surface @ '' cannot represent the backend image response'')"

fun chatClientTextContent :: "MessagePart list \<Rightarrow> string \<Rightarrow> go_error + string" where
  "chatClientTextContent [] surface = Inr []"
| "chatClientTextContent (part # parts) surface =
     (case part_Text part of
        None \<Rightarrow> Inl (image_refused surface)
      | Some t \<Rightarrow> and_then (chatClientTextContent parts surface) (\<lambda>rest. Inr (t @ rest)))"

definition chatToolCallFromOutputItem :: "CanonicalItem \<Rightarrow> go_error + chatCompletionsResponseToolCallDTO" where
  "chatToolCallFromOutputItem item =
     (case item of
        tool_call_item call \<Rightarrow>
          if tk_kind (tc_tool call) = ToolKindFunction then
            (case tc_input call of
               object_input object \<Rightarrow> Inr \<lparr>rt_ID = tc_callID call, rt_Type = ''function'',
                 rt_Function = Some \<lparr>fn_Name = tk_name (tc_tool call), fn_Arguments = object\<rparr>,
                 rt_Custom = None\<rparr>
             | _ \<Rightarrow> Inl (BadRequest ''chat completions response function call requires object input''))
          else if tk_kind (tc_tool call) = ToolKindCustom then
            (case tc_input call of
               text_input text \<Rightarrow> Inr \<lparr>rt_ID = tc_callID call, rt_Type = ''custom'', rt_Function = None,
                 rt_Custom = Some \<lparr>cu_Name = tk_name (tc_tool call), cu_Input = text\<rparr>\<rparr>
             | _ \<Rightarrow> Inl (BadRequest ''chat completions response custom call requires text input''))
          else Inl (canonical_InternalError ''Chat Completions output received an unknown canonical tool-call kind'')
      | _ \<Rightarrow> Inl (canonical_InternalError ''chat completions tool-call item payload is invalid''))"

text \<open>One item appended to the text and the calls of the message.\<close>

definition message_append ::
    "CanonicalItem \<Rightarrow> string \<times> chatCompletionsResponseToolCallDTO list \<Rightarrow>
     go_error + string \<times> chatCompletionsResponseToolCallDTO list" where
  "message_append item = (\<lambda>(text, calls).
     case item of
       message_item m \<Rightarrow>
         if mi_role m \<noteq> MessageRoleAssistant
         then Inl (canonical_InternalError
           ''canonical response contains a non-assistant Chat Completions output message'')
         else and_then (chatClientTextContent (mi_content m) ''chat completions responses'')
           (\<lambda>content. Inr (text @ content, calls))
     | tool_call_item _ \<Rightarrow>
         and_then (chatToolCallFromOutputItem item) (\<lambda>wire. Inr (text, calls @ [wire]))
     | reasoning_item _ \<Rightarrow> Inr (text, calls)
     | _ \<Rightarrow> Inl (canonical_InternalError ''Chat Completions output received an unsupported canonical item kind''))"

fun message_items ::
    "CanonicalItem list \<Rightarrow> string \<times> chatCompletionsResponseToolCallDTO list \<Rightarrow>
     go_error + string \<times> chatCompletionsResponseToolCallDTO list" where
  "message_items [] st = Inr st"
| "message_items (item # items) st = and_then (message_append item st) (message_items items)"

definition chatMessageFromItems :: "CanonicalItem list \<Rightarrow> go_error + chatCompletionsResponseMessageDTO" where
  "chatMessageFromItems items =
     and_then (message_items items ([], [])) (\<lambda>(text, calls).
       Inr \<lparr>rm_Role = ''assistant'', rm_Content = text, rm_ToolCalls = calls\<rparr>)"

definition chatItemsContainReasoning :: "CanonicalItem list \<Rightarrow> bool" where
  "chatItemsContainReasoning items = list_ex (\<lambda>item. item_Kind item = ItemKindReasoning) items"


definition buffered_response ::
    "CanonicalResponse \<Rightarrow> chatCompletionsResponseMessageDTO \<Rightarrow> string \<Rightarrow> chatCompletionsResponseDTO" where
  "buffered_response output message finishReason =
     \<lparr>bd_ID = FallbackID (rr_SwobuID (cr_response output)) ''chatcmpl_swobu'',
      bd_Object = ''chat.completion'', bd_Model = cr_model output,
      bd_Choices = [\<lparr>bh_Index = 0, bh_Message = message, bh_FinishReason = finishReason\<rparr>],
      bd_Usage = chatUsageFromCanonical (cr_usage output)\<rparr>"

text \<open>The projected items, the document before marshalling and the decisions. An error of the last
  check also carries the decisions; the caller reads them only without an error.\<close>

definition project_document ::
    "(go_error \<Rightarrow> string) \<Rightarrow> CanonicalResponse \<Rightarrow>
     go_error + CanonicalItem list \<times> chatCompletionsResponseDTO \<times> Change list" where
  "project_document errtext output =
     and_then (projectChatCompletionsWebSearchLifecycles errtext (cr_items output)) (\<lambda>(items, changes).
     and_then (chatMessageFromItems items) (\<lambda>message.
     and_then (chatClientFinishReason (cr_completion output) (rm_ToolCalls message \<noteq> [])) (\<lambda>finishReason.
       case finalizeChatClientProjection (chatItemsContainReasoning items)
           (rm_Content message \<noteq> [] \<or> rm_ToolCalls message \<noteq> []) finishReason of
         (decisions, Some e) \<Rightarrow> Inl e
       | (decisions, None) \<Rightarrow>
           Inr (items, buffered_response output message finishReason, changes @ decisions))))"

section \<open>The stream encoder\<close>

record chatCompletionsEnvelopeStreamEncoder =
  en_resultID :: string
  en_model :: string
  en_started :: bool
  en_toolByID :: "(string \<times> nat) list"
  en_toolKind :: "(string \<times> string) list"
  en_adapter :: EnvelopeEventAdapter
  en_pendingWebSearchCalls :: "(string \<times> 32 word) list"
  en_sawReasoning :: bool
  en_sawVisibleOutput :: bool
  en_changes :: "Change list"
  en_includeUsageFrame :: bool

definition newStreamState :: "bool \<Rightarrow> chatCompletionsEnvelopeStreamEncoder" where
  "newStreamState includeUsageFrame = \<lparr>en_resultID = [], en_model = [], en_started = False,
     en_toolByID = [], en_toolKind = [], en_adapter = NewEnvelopeEventAdapter,
     en_pendingWebSearchCalls = [], en_sawReasoning = False, en_sawVisibleOutput = False,
     en_changes = [], en_includeUsageFrame = includeUsageFrame\<rparr>"

type_synonym marshaller = "chat_document \<Rightarrow> string option"

definition stream_response ::
    "chatCompletionsEnvelopeStreamEncoder \<Rightarrow> chatCompletionsStreamChoiceDTO list \<Rightarrow>
     chatCompletionsUsageDTO option \<Rightarrow> chatCompletionsStreamResponseDTO" where
  "stream_response s choices usage = \<lparr>sd_ID = FallbackID (en_resultID s) ''chatcmpl_swobu'',
     sd_Object = ''chat.completion.chunk'', sd_Model = en_model s, sd_Choices = choices,
     sd_Usage = usage\<rparr>"

definition encodeChunk ::
    "marshaller \<Rightarrow> chatCompletionsDeltaDTO \<Rightarrow> string option \<Rightarrow> chatCompletionsUsageDTO option \<Rightarrow>
     chatCompletionsEnvelopeStreamEncoder \<Rightarrow> go_error + string list" where
  "encodeChunk marshal delta finishReason usage s =
     (case marshal (stream_document (stream_response s
         [\<lparr>sh_Index = 0, sh_Delta = delta, sh_FinishReason = finishReason\<rparr>] usage)) of
        None \<Rightarrow> Inl (canonical_InternalError ''Chat Completions stream chunk could not be encoded'')
      | Some raw \<Rightarrow> Inr [SSEData raw])"

definition encodeUsageChunk ::
    "marshaller \<Rightarrow> chatCompletionsUsageDTO \<Rightarrow> chatCompletionsEnvelopeStreamEncoder \<Rightarrow> go_error + string" where
  "encodeUsageChunk marshal usage s =
     (case marshal (stream_document (stream_response s [] (Some usage))) of
        None \<Rightarrow> Inl (canonical_InternalError ''Chat Completions usage chunk could not be encoded'')
      | Some raw \<Rightarrow> Inr (SSEData raw))"

type_synonym encoded = "go_error + string list \<times> chatCompletionsEnvelopeStreamEncoder"

definition with_state :: "chatCompletionsEnvelopeStreamEncoder \<Rightarrow> go_error + string list \<Rightarrow> encoded" where
  "with_state s r = and_then r (\<lambda>out. Inr (out, s))"

definition started_state ::
    "StreamEvent \<Rightarrow> chatCompletionsEnvelopeStreamEncoder \<Rightarrow> chatCompletionsEnvelopeStreamEncoder" where
  "started_state event s = s\<lparr>en_resultID := FallbackID (st_ResultID event) ''chatcmpl_swobu'',
     en_model := st_Model event, en_started := True\<rparr>"

definition encode_started ::
    "marshaller \<Rightarrow> StreamEvent \<Rightarrow> chatCompletionsEnvelopeStreamEncoder \<Rightarrow> go_error + string list" where
  "encode_started marshal event s =
     encodeChunk marshal (zeroDelta\<lparr>dl_Role := ''assistant''\<rparr>) None None (started_state event s)"

text \<open>The first chunk of a call names it; the later ones carry its input.\<close>

definition encode_call_start ::
    "platform \<Rightarrow> marshaller \<Rightarrow> StreamEvent \<Rightarrow> chatCompletionsEnvelopeStreamEncoder \<Rightarrow> encoded" where
  "encode_call_start p marshal event s =
     (let kind = ToLower p (TrimSpace (st_ToolType event))
      in if kind = ''web_search''
         then Inr ([], s\<lparr>en_pendingWebSearchCalls :=
           AList.update (st_ToolUseID event) (st_ItemOrdinal event) (en_pendingWebSearchCalls s)\<rparr>)
         else let index = length (en_toolByID s);
           s' = s\<lparr>en_toolByID := AList.update (st_ItemID event) index (en_toolByID s),
             en_toolKind := AList.update (st_ItemID event) kind (en_toolKind s)\<rparr>;
           call = (zeroDeltaCall index)\<lparr>dt_ID := st_ToolUseID event, dt_Type := kind\<rparr>;
           emit = (\<lambda>call. let s' = s'\<lparr>en_sawVisibleOutput := True\<rparr> in
             with_state s' (encodeChunk marshal (zeroDelta\<lparr>dl_ToolCalls := [call]\<rparr>) None None s'))
         in if kind = ''function''
            then emit (call\<lparr>dt_Function := Some \<lparr>fn_Name = st_Name event, fn_Arguments = []\<rparr>\<rparr>)
            else if kind = ''custom''
            then emit (call\<lparr>dt_Custom := Some \<lparr>cu_Name = st_Name event, cu_Input = []\<rparr>\<rparr>)
            else Inl (canonical_InternalError
              ''Chat Completions stream received an unsupported canonical tool-call kind''))"

definition encode_item_started ::
    "platform \<Rightarrow> marshaller \<Rightarrow> StreamEvent \<Rightarrow> chatCompletionsEnvelopeStreamEncoder \<Rightarrow> encoded" where
  "encode_item_started p marshal event s =
     (if st_ItemKind event = ItemKindReasoning then Inr ([], s\<lparr>en_sawReasoning := True\<rparr>)
      else if st_ItemKind event = ItemKindToolCall then encode_call_start p marshal event s
      else Inr ([], s))"

definition encode_text_chunk ::
    "marshaller \<Rightarrow> StreamEvent \<Rightarrow> chatCompletionsEnvelopeStreamEncoder \<Rightarrow> encoded" where
  "encode_text_chunk marshal event s =
     (let s' = (if st_TextDelta event \<noteq> [] then s\<lparr>en_sawVisibleOutput := True\<rparr> else s)
      in with_state s' (encodeChunk marshal (zeroDelta\<lparr>dl_Content := st_TextDelta event\<rparr>) None None s'))"

text \<open>A text delta before the start of the response starts it; an error of this start is dropped.\<close>

definition encode_text ::
    "marshaller \<Rightarrow> StreamEvent \<Rightarrow> chatCompletionsEnvelopeStreamEncoder \<Rightarrow> encoded" where
  "encode_text marshal event s =
     (if en_started s then encode_text_chunk marshal event s
      else let first = (stream_event StreamEventStarted)\<lparr>st_ResultID := en_resultID s, st_Model := en_model s\<rparr>;
             chunks = (case encode_started marshal first s of Inl _ \<Rightarrow> [] | Inr chunks \<Rightarrow> chunks)
        in and_then (encode_text_chunk marshal event (started_state first s)) (\<lambda>(out, s).
             Inr (chunks @ out, s)))"

definition encode_args_chunk ::
    "marshaller \<Rightarrow> StreamEvent \<Rightarrow> nat \<Rightarrow> chatCompletionsEnvelopeStreamEncoder \<Rightarrow> encoded" where
  "encode_args_chunk marshal event index s =
     (let kind = (case map_of (en_toolKind s) (st_ItemID event) of None \<Rightarrow> [] | Some k \<Rightarrow> k);
          emit = (\<lambda>call. with_state s (encodeChunk marshal (zeroDelta\<lparr>dl_ToolCalls := [call]\<rparr>) None None s))
      in if kind = ''function''
         then emit ((zeroDeltaCall index)\<lparr>dt_Function :=
           Some \<lparr>fn_Name = [], fn_Arguments = st_ArgumentsDelta event\<rparr>\<rparr>)
         else if kind = ''custom''
         then emit ((zeroDeltaCall index)\<lparr>dt_Custom :=
           Some \<lparr>cu_Name = [], cu_Input = st_ArgumentsDelta event\<rparr>\<rparr>)
         else Inl (canonical_InternalError
           ''Chat Completions stream received an unknown canonical tool-input kind''))"

text \<open>
  Arguments of a call that was not started start it first. The encoder then calls itself on the
  same event; a start that records no index (a web search) would repeat this for ever.
\<close>

definition encode_args ::
    "platform \<Rightarrow> marshaller \<Rightarrow> StreamEvent \<Rightarrow> chatCompletionsEnvelopeStreamEncoder \<Rightarrow> encoded" where
  "encode_args p marshal event s =
     (case map_of (en_toolByID s) (st_ItemID event) of
        Some index \<Rightarrow> encode_args_chunk marshal event index s
      | None \<Rightarrow>
          let start = (stream_event StreamEventItemStarted)\<lparr>st_ItemKind := ItemKindToolCall,
            st_ResultID := en_resultID s, st_Model := en_model s, st_ItemID := st_ItemID event,
            st_ToolUseID := st_ToolUseID event, st_Name := st_Name event,
            st_ToolType := st_ToolType event\<rparr>
          in and_then (encode_item_started p marshal start s) (\<lambda>(chunks, s).
            case map_of (en_toolByID s) (st_ItemID event) of
              Some index \<Rightarrow> and_then (encode_args_chunk marshal event index s) (\<lambda>(out, s).
                Inr (chunks @ out, s))
            | None \<Rightarrow> Inl (Panicked ''stack overflow'')))"

definition is_search_call :: "CanonicalItem \<Rightarrow> bool" where
  "is_search_call item =
     (case item of tool_call_item c \<Rightarrow> tk_kind (tc_tool c) = ToolKindWebSearch | _ \<Rightarrow> False)"

definition encode_completed_item ::
    "StreamEvent \<Rightarrow> CanonicalItem \<Rightarrow> chatCompletionsEnvelopeStreamEncoder \<Rightarrow> encoded" where
  "encode_completed_item event item s =
     (let record_drops = Inr ([], s\<lparr>en_changes := en_changes s @
        chatCompletionsCitationDropDecisions (st_ItemOrdinal event) item\<rparr>)
      in if item_Kind item = ItemKindReasoning then Inr ([], s\<lparr>en_sawReasoning := True\<rparr>)
         else if is_search_call item then Inr ([], s)
         else case item of
           tool_result_item result \<Rightarrow>
             if is_search_result result then
               (case map_of (en_pendingWebSearchCalls s) (tr_callID result) of
                  None \<Rightarrow> Inl (backend_error [] 0
                    ''backend returned an orphan web-search result to a Chat Completions client'')
                | Some callOrdinal \<Rightarrow> Inr ([], s\<lparr>
                    en_pendingWebSearchCalls := AList.delete (tr_callID result) (en_pendingWebSearchCalls s),
                    en_changes := en_changes s @
                      [omission ''response.items.kind'' (ResponseItemOccurrence callOrdinal)]\<rparr>))
             else record_drops
         | _ \<Rightarrow> record_drops)"

definition done_frame :: string where
  "done_frame = ''data: [DONE]'' @ [newline, newline]"

definition encode_completed ::
    "marshaller \<Rightarrow> StreamEvent \<Rightarrow> chatCompletionsEnvelopeStreamEncoder \<Rightarrow> encoded" where
  "encode_completed marshal event s =
     (if en_pendingWebSearchCalls s \<noteq> []
      then Inl (backend_error [] 0
        ''backend returned an unresolved web-search lifecycle to a Chat Completions client'')
      else and_then (chatClientFinishReason (st_Completion event) (en_toolByID s \<noteq> [])) (\<lambda>clientFinishReason.
        case finalizeChatClientProjection (en_sawReasoning s) (en_sawVisibleOutput s) clientFinishReason of
          (decisions, Some e) \<Rightarrow> Inl e
        | (decisions, None) \<Rightarrow>
            let s' = s\<lparr>en_changes := en_changes s @ decisions\<rparr>
            in and_then (encodeChunk marshal zeroDelta (Some clientFinishReason) None s') (\<lambda>chunks.
              and_then (case (if en_includeUsageFrame s then chatUsageFromCanonical (st_Usage event) else None) of
                  None \<Rightarrow> Inr []
                | Some usage \<Rightarrow> and_then (encodeUsageChunk marshal usage s') (\<lambda>f. Inr [f])) (\<lambda>usageChunks.
                Inr (chunks @ usageChunks @ [done_frame], s')))))"

definition encode_failed :: "marshaller \<Rightarrow> StreamEvent \<Rightarrow> string list" where
  "encode_failed marshal event =
     [SSEData (case marshal (error_document (FallbackID (st_ErrorMessage event) ''output stream failed'')
         ''swobu_stream_error'' (FallbackID (st_ErrorCode event) ''stream_error'')) of
        None \<Rightarrow> [] | Some raw \<Rightarrow> raw),
      done_frame]"

definition Encode ::
    "platform \<Rightarrow> marshaller \<Rightarrow> StreamEvent \<Rightarrow> chatCompletionsEnvelopeStreamEncoder \<Rightarrow> encoded" where
  "Encode p marshal event s =
     (case st_Kind event of
        StreamEventStarted \<Rightarrow> with_state (started_state event s) (encode_started marshal event s)
      | StreamEventItemStarted \<Rightarrow> encode_item_started p marshal event s
      | StreamEventContentStarted \<Rightarrow> Inr ([], s)
      | StreamEventTextDelta \<Rightarrow> encode_text marshal event s
      | StreamEventToolUseArgumentsDelta \<Rightarrow> encode_args p marshal event s
      | StreamEventItemCompleted \<Rightarrow>
          (case st_CompletedItem event of
             None \<Rightarrow> Inr ([], s) | Some item \<Rightarrow> encode_completed_item event item s)
      | StreamEventCompleted \<Rightarrow> encode_completed marshal event s
      | StreamEventFailed \<Rightarrow> Inr (encode_failed marshal event, s)
      | StreamEventNone \<Rightarrow>
          Inl (canonical_InternalError ''Chat Completions stream received an unknown canonical event kind''))"

fun encode_all ::
    "platform \<Rightarrow> marshaller \<Rightarrow> StreamEvent list \<Rightarrow> chatCompletionsEnvelopeStreamEncoder \<Rightarrow> encoded" where
  "encode_all p marshal [] s = Inr ([], s)"
| "encode_all p marshal (e # es) s =
     and_then (Encode p marshal e s) (\<lambda>(out, s).
       and_then (encode_all p marshal es s) (\<lambda>(rest, s). Inr (out @ rest, s)))"

definition EncodeEnvelopeEvent ::
    "platform \<Rightarrow> marshaller \<Rightarrow> Event \<Rightarrow> chatCompletionsEnvelopeStreamEncoder \<Rightarrow> encoded" where
  "EncodeEnvelopeEvent p marshal event s =
     and_then (Translate event (en_adapter s)) (\<lambda>(streamEvents, adapter).
       encode_all p marshal streamEvents (s\<lparr>en_adapter := adapter\<rparr>))"

text \<open>A whole response: what \<open>EncodedResponseBody\<close> pulls through the encoder up to its first error.\<close>

fun encode_stream ::
    "platform \<Rightarrow> marshaller \<Rightarrow> Event list \<Rightarrow> chatCompletionsEnvelopeStreamEncoder \<Rightarrow> encoded" where
  "encode_stream p marshal [] s = Inr ([], s)"
| "encode_stream p marshal (e # es) s =
     and_then (EncodeEnvelopeEvent p marshal e s) (\<lambda>(out, s).
       and_then (encode_stream p marshal es s) (\<lambda>(rest, s). Inr (out @ rest, s)))"

end
