(* ===== verification/Chat_Equivalence.thy ===== *)
theory Chat_Equivalence
  imports Chat_Encode
begin

text \<open>
  A Chat Completions client that streams is sent the same completion as one that asked for a
  document, up to the spelling of call inputs: reading the chunks of a completed response, as a
  client accumulates them, gives the text, the calls, the finish reason and, when asked for, the
  usage of the document, and the same compatibility decisions. The inputs of calls are those that
  were streamed; a synthesised stream has them as the document has.
\<close>

section \<open>Reading chunks\<close>

record chat_view =
  cv_ID :: string
  cv_Model :: string
  cv_Message :: chatCompletionsResponseMessageDTO
  cv_Finish :: "string option"
  cv_Usage :: "chatCompletionsUsageDTO option"

definition empty_view :: chat_view where
  "empty_view = \<lparr>cv_ID = [], cv_Model = [],
     cv_Message = \<lparr>rm_Role = [], rm_Content = [], rm_ToolCalls = []\<rparr>, cv_Finish = None, cv_Usage = None\<rparr>"

fun join_function ::
    "chatCompletionsResponseFunctionDTO option \<Rightarrow> chatCompletionsResponseFunctionDTO option \<Rightarrow>
     chatCompletionsResponseFunctionDTO option" where
  "join_function (Some f) (Some g) =
     Some \<lparr>fn_Name = fn_Name f @ fn_Name g, fn_Arguments = fn_Arguments f @ fn_Arguments g\<rparr>"
| "join_function f None = f"
| "join_function None g = g"

fun join_custom ::
    "chatCompletionsResponseCustomDTO option \<Rightarrow> chatCompletionsResponseCustomDTO option \<Rightarrow>
     chatCompletionsResponseCustomDTO option" where
  "join_custom (Some f) (Some g) =
     Some \<lparr>cu_Name = cu_Name f @ cu_Name g, cu_Input = cu_Input f @ cu_Input g\<rparr>"
| "join_custom f None = f"
| "join_custom None g = g"

text \<open>A delta with a new index begins a call, one with a known index extends it.\<close>

definition add_call ::
    "chatCompletionsDeltaToolCallDTO \<Rightarrow> chatCompletionsResponseToolCallDTO list \<Rightarrow>
     chatCompletionsResponseToolCallDTO list" where
  "add_call d calls =
     (if dt_Index d < length calls then
        (let c = calls ! dt_Index d
         in calls[dt_Index d := \<lparr>rt_ID = rt_ID c @ dt_ID d, rt_Type = rt_Type c @ dt_Type d,
              rt_Function = join_function (rt_Function c) (dt_Function d),
              rt_Custom = join_custom (rt_Custom c) (dt_Custom d)\<rparr>])
      else calls @ [\<lparr>rt_ID = dt_ID d, rt_Type = dt_Type d, rt_Function = dt_Function d,
        rt_Custom = dt_Custom d\<rparr>])"

definition add_choice :: "chatCompletionsStreamChoiceDTO \<Rightarrow> chat_view \<Rightarrow> chat_view" where
  "add_choice c v =
     (let d = sh_Delta c; m = cv_Message v
      in v\<lparr>cv_Message := \<lparr>rm_Role = (if dl_Role d = [] then rm_Role m else dl_Role d),
             rm_Content = rm_Content m @ dl_Content d,
             rm_ToolCalls = fold add_call (dl_ToolCalls d) (rm_ToolCalls m)\<rparr>,
           cv_Finish := (case sh_FinishReason c of None \<Rightarrow> cv_Finish v | Some f \<Rightarrow> Some f)\<rparr>)"

definition add_chunk :: "chatCompletionsStreamResponseDTO \<Rightarrow> chat_view \<Rightarrow> chat_view" where
  "add_chunk d v =
     (fold add_choice (sd_Choices d) v)\<lparr>cv_ID := sd_ID d, cv_Model := sd_Model d,
       cv_Usage := (case sd_Usage d of None \<Rightarrow> cv_Usage v | Some u \<Rightarrow> Some u)\<rparr>"

definition read_chunks :: "chatCompletionsStreamResponseDTO list \<Rightarrow> chat_view" where
  "read_chunks ds = fold add_chunk ds empty_view"

lemma read_chunks_snoc [simp]: "read_chunks (ds @ [d]) = add_chunk d (read_chunks ds)"
  by (simp add: read_chunks_def)

text \<open>The frames of a list of chunks.\<close>

definition chunk_frames ::
    "(chat_document \<Rightarrow> string) \<Rightarrow> chatCompletionsStreamResponseDTO list \<Rightarrow> string list" where
  "chunk_frames enc ds = map (\<lambda>d. SSEData (enc (stream_document d))) ds"

section \<open>Identifiers\<close>

definition digit_value :: "char \<Rightarrow> nat" where
  "digit_value c = the (map_of (zip digits [0..<10]) c)"

lemma digit_value_nth: "i < 10 \<Longrightarrow> digit_value (digits ! i) = i"
proof -
  assume "i < 10"
  then have "i \<in> set [0..<10]" by simp
  moreover have "\<forall>i \<in> set [0..<10]. digit_value (digits ! i) = i"
    by (simp add: digit_value_def digits_def upt_rec)
  ultimately show ?thesis by blast
qed

lemma decimal_value: "foldl (\<lambda>a c. 10 * a + digit_value c) 0 (decimal n) = n"
proof (induction n rule: decimal.induct)
  case (1 n)
  then show ?case
    by (subst decimal.simps) (simp add: digit_value_nth)
qed

lemma decimal_inj: "decimal m = decimal n \<longleftrightarrow> m = n"
  by (metis decimal_value)

lemma item_id_inj: "item_id a = item_id b \<longleftrightarrow> a = b"
  by (simp add: item_id_def decimal_inj word_unat_eq_iff)

section \<open>Which items the document drops\<close>

fun search_item :: "CanonicalItem \<Rightarrow> bool" where
  "search_item (tool_call_item c) \<longleftrightarrow> tk_kind (tc_tool c) = ToolKindWebSearch"
| "search_item (tool_result_item r) \<longleftrightarrow> is_search_result r"
| "search_item _ \<longleftrightarrow> False"

lemma MatchToolEffects_matcher:
  assumes "MatchToolEffects items = Inr effects"
  obtains m where "accept_items 0 items newMatcher = Inr m" "effects = em_effects m" "matcher_ok items m"
  using assms accept_items_ok [of "[]" items newMatcher] new_matcher_ok
  by (auto simp: MatchToolEffects_def result_simps)

lemma dropped_are_searches:
  assumes m: "matcher_ok items m" and settled: "\<forall>e \<in> set (em_effects m). search_effect e \<longrightarrow> 0 \<le> te_ResultIndex e"
    and i: "i < length items"
  shows "int i \<in> set (dropped_indices (em_effects m)) \<longleftrightarrow> search_item (items ! i)"
proof
  assume "int i \<in> set (dropped_indices (em_effects m))"
  then obtain e where e: "e \<in> set (em_effects m)" "search_effect e" "int i = te_CallIndex e \<or> int i = te_ResultIndex e"
    by (auto simp: dropped_indices_def)
  then have "effect_ok items e" using m by (simp add: matcher_ok_def list_all_iff)
  moreover have "search_item x" if "answers e x" for x
    using that e(2) by (cases x) (auto simp: search_effect_def split: if_splits)
  ultimately show "search_item (items ! i)"
    using e(2,3) settled e(1) by (auto simp: effect_ok_def search_effect_def)
next
  assume s: "search_item (items ! i)"
  have "\<exists>e \<in> set (em_effects m). search_effect e \<and> (int i = te_CallIndex e \<or> int i = te_ResultIndex e)"
  proof (cases "items ! i")
    case (tool_call_item c)
    then have "int i \<in> set (call_indices items)" using i by (simp add: call_indices_def)
    then obtain e where e: "e \<in> set (em_effects m)" "te_CallIndex e = int i"
      using m by (metis (no_types, lifting) image_iff list.set_map matcher_ok_def)
    then have "effect_ok items e" using m by (simp add: matcher_ok_def list_all_iff)
    with e tool_call_item s show ?thesis by (auto simp: effect_ok_def search_effect_def)
  next
    case (tool_result_item r)
    then obtain k where k: "k < length (em_effects m)" "te_ResultIndex (em_effects m ! k) = int i"
      using m i by (auto simp: matcher_ok_def results_matched_def)
    then have "effect_ok items (em_effects m ! k)" using m by (simp add: matcher_ok_def list_all_length)
    with k tool_result_item s have "search_effect (em_effects m ! k)"
      by (auto simp: effect_ok_def search_effect_def)
    with k show ?thesis using nth_mem by metis
  qed (use s in auto)
  then show "int i \<in> set (dropped_indices (em_effects m))" by (force simp: dropped_indices_def)
qed

text \<open>What a successful projection of a document consists of.\<close>

lemma project_lifecycles_ok:
  assumes "projectChatCompletionsWebSearchLifecycles errtext items = Inr (kept, changes)"
  obtains m where "accept_items 0 items newMatcher = Inr m" "matcher_ok items m"
    "\<forall>e \<in> set (em_effects m). search_effect e \<longrightarrow> 0 \<le> te_ResultIndex e"
    "kept = filter (\<lambda>x. \<not> search_item x) items"
    "set changes = search_omission ` {e \<in> set (em_effects m). search_effect e} \<union>
      (\<Union>i < length items. set (chatCompletionsCitationDropDecisions (of_nat i) (items ! i)))"
proof -
  obtain effects where eff: "MatchToolEffects items = Inr effects"
    using assms by (auto simp: projectChatCompletionsWebSearchLifecycles_def split: sum.splits)
  obtain m where m: "accept_items 0 items newMatcher = Inr m" "effects = em_effects m" "matcher_ok items m"
    using MatchToolEffects_matcher [OF eff] by blast
  let ?kept = "filter (\<lambda>(i, _). int i \<notin> set (dropped_indices effects)) (enumerate 0 items)"
  have ok: "\<forall>e \<in> set (em_effects m). search_effect e \<longrightarrow> 0 \<le> te_ResultIndex e"
    "kept = map snd ?kept"
    "changes = map search_omission (filter search_effect effects) @
      concat (map (\<lambda>(i, item). chatCompletionsCitationDropDecisions (of_nat i) item) ?kept)"
    using assms eff m(2)
    by (auto simp: projectChatCompletionsWebSearchLifecycles_def Let_def list_ex_iff not_less split: if_splits)
  have drop': "int i \<in> set (dropped_indices effects) \<longleftrightarrow> search_item (items ! i)" if "i < length items" for i
    using dropped_are_searches [OF m(3) ok(1) that] m(2) by simp
  have f: "?kept = filter (\<lambda>(i, x). \<not> search_item x) (enumerate 0 items)"
    using drop' by (intro filter_cong) (auto simp: in_set_enumerate_eq)
  have "map snd (filter (\<lambda>(i, x). \<not> search_item x) (enumerate k xs)) = filter (\<lambda>x. \<not> search_item x) xs" for k xs
    by (induction xs arbitrary: k) auto
  then have kept: "kept = filter (\<lambda>x. \<not> search_item x) items" using ok(2) f by simp
  have none: "chatCompletionsCitationDropDecisions n x = []" if "search_item x" for n x
    using that by (cases x) (auto simp: chatCompletionsCitationDropDecisions_def)
  have "set (concat (map (\<lambda>(i, item). chatCompletionsCitationDropDecisions (of_nat i) item) ?kept)) =
      (\<Union>i < length items. set (chatCompletionsCitationDropDecisions (of_nat i) (items ! i)))"
  proof -
    have "set ?kept = {(i, items ! i) | i. i < length items \<and> \<not> search_item (items ! i)}"
      unfolding f by (auto simp: in_set_enumerate_eq)
    then show ?thesis using none by force
  qed
  with ok(3) m(2) have "set changes = search_omission ` {e \<in> set (em_effects m). search_effect e} \<union>
      (\<Union>i < length items. set (chatCompletionsCitationDropDecisions (of_nat i) (items ! i)))" by auto
  with m ok(1) kept that show ?thesis by blast
qed

section \<open>Responses in fragments\<close>

text \<open>
  \<open>pieces n k\<close> are the pieces in which a stream carries part \<open>k\<close> of item \<open>n\<close>, and \<open>pieces n 0\<close> the
  pieces of the input of a call. The events are those of \<^verbatim>\<open>SynthesizeResponseEnvelopeEvents\<close>, with any
  number of deltas for a text; the reader of Chat Completions provider streams produces a completed
  response in the same order. The input of a call is whatever the provider wrote: the pieces need
  not add up to the canonical arguments of the completed item.
\<close>

type_synonym fragments = "nat \<Rightarrow> nat \<Rightarrow> string list"

fun live_parts :: "fragments \<Rightarrow> nat \<Rightarrow> nat \<Rightarrow> MessagePart list \<Rightarrow> (EventKind \<times> Payload) list" where
  "live_parts pieces n k [] = []"
| "live_parts pieces n k (part # parts) =
     item_ev EventContentStart n k (content_start (part_Kind part)) #
     (case part_Text part of
        Some _ \<Rightarrow> map (\<lambda>t. item_ev EventTextDelta n k (text_delta t)) (pieces n k) | None \<Rightarrow> []) @
     live_parts pieces n (Suc k) parts"

definition live_start :: "fragments \<Rightarrow> nat \<Rightarrow> CanonicalItem \<Rightarrow> (EventKind \<times> Payload) list" where
  "live_start pieces n item =
     (case item of
        message_item m \<Rightarrow>
          item_ev EventItemStart n 0 (item_start (message_start (mi_role m))) # live_parts pieces n 0 (mi_content m)
      | tool_call_item c \<Rightarrow>
          item_ev EventItemStart n 0 (item_start (tool_call_start (tc_callID c) (tc_tool c))) #
          (case tc_input c of
             object_input _ \<Rightarrow> map (\<lambda>t. item_ev EventArgsDelta n 0 (args_delta t)) (pieces n 0)
           | text_input _ \<Rightarrow> map (\<lambda>t. item_ev EventArgsDelta n 0 (args_delta t)) (pieces n 0)
           | _ \<Rightarrow> [])
      | _ \<Rightarrow> [])"

definition live_item :: "fragments \<Rightarrow> nat \<Rightarrow> CanonicalItem \<Rightarrow> (EventKind \<times> Payload) list" where
  "live_item pieces n item = live_start pieces n item @ [item_ev EventItemCompleted n 0 (item_completed item)]"

fun live_items :: "fragments \<Rightarrow> nat \<Rightarrow> CanonicalItem list \<Rightarrow> (EventKind \<times> Payload) list" where
  "live_items pieces n [] = []"
| "live_items pieces n (item # items) = live_item pieces n item @ live_items pieces (Suc n) items"

definition live_events ::
    "fragments \<Rightarrow> ResponseRef \<Rightarrow> string \<Rightarrow> CanonicalItem list \<Rightarrow> Completion \<Rightarrow> TokenUsage \<Rightarrow>
     (EventKind \<times> Payload) list" where
  "live_events pieces ref model items completion usage =
     [(EventEnvelopeStart, envelope_start EnvResponse model), (EventResponseIdentity, response_identity ref)] @
     live_items pieces 0 items @
     [(EventUsage, usage_payload usage), (EventFinish, finish_payload completion),
      (EventEnvelopeEnd, envelope_end EnvResponse EnvelopeStatusCompleted)]"

text \<open>The deltas of a text add up to it, which the validator of the stream enforces.\<close>

fun texts_cut :: "fragments \<Rightarrow> nat \<Rightarrow> nat \<Rightarrow> MessagePart list \<Rightarrow> bool" where
  "texts_cut pieces n k [] \<longleftrightarrow> True"
| "texts_cut pieces n k (part # parts) \<longleftrightarrow>
     (case part_Text part of Some t \<Rightarrow> concat (pieces n k) = t | None \<Rightarrow> True) \<and> texts_cut pieces n (Suc k) parts"

fun texts_whole :: "fragments \<Rightarrow> nat \<Rightarrow> CanonicalItem list \<Rightarrow> bool" where
  "texts_whole pieces n [] \<longleftrightarrow> True"
| "texts_whole pieces n (item # items) \<longleftrightarrow>
     (case item of message_item m \<Rightarrow> texts_cut pieces n 0 (mi_content m) | _ \<Rightarrow> True) \<and>
     texts_whole pieces (Suc n) items"

text \<open>The inputs as streamed, of the calls that reach the client, and a call with such an input.\<close>

fun streamed_inputs :: "fragments \<Rightarrow> nat \<Rightarrow> CanonicalItem list \<Rightarrow> string list" where
  "streamed_inputs pieces n [] = []"
| "streamed_inputs pieces n (item # items) =
     (case item of
        tool_call_item c \<Rightarrow> if tk_kind (tc_tool c) = ToolKindWebSearch then [] else [concat (pieces n 0)]
      | _ \<Rightarrow> []) @ streamed_inputs pieces (Suc n) items"

definition streamed_call ::
    "string \<Rightarrow> chatCompletionsResponseToolCallDTO \<Rightarrow> chatCompletionsResponseToolCallDTO" where
  "streamed_call t w = w\<lparr>
     rt_Function := map_option (\<lambda>f. f\<lparr>fn_Arguments := t\<rparr>) (rt_Function w),
     rt_Custom := map_option (\<lambda>f. f\<lparr>cu_Input := t\<rparr>) (rt_Custom w)\<rparr>"

definition call_input :: "chatCompletionsResponseToolCallDTO \<Rightarrow> string" where
  "call_input w = (case rt_Function w of Some f \<Rightarrow> fn_Arguments f
     | None \<Rightarrow> (case rt_Custom w of Some f \<Rightarrow> cu_Input f | None \<Rightarrow> []))"

definition streamed_message ::
    "string list \<Rightarrow> chatCompletionsResponseMessageDTO \<Rightarrow> chatCompletionsResponseMessageDTO" where
  "streamed_message ts m = m\<lparr>rm_ToolCalls := map2 streamed_call ts (rm_ToolCalls m)\<rparr>"

section \<open>One item through the stream encoder\<close>

definition bare :: "EventKind \<Rightarrow> Payload \<Rightarrow> Event" where
  "bare kind payload = \<lparr>ev_ExchangeID = [], ev_Seq = 0, ev_Kind = kind, ev_EnvID = [], ev_ParentID = [],
     ev_Payload = payload, ev_NativeID = []\<rparr>"

fun encode_pairs ::
    "platform \<Rightarrow> marshaller \<Rightarrow> (EventKind \<times> Payload) list \<Rightarrow> chatCompletionsEnvelopeStreamEncoder \<Rightarrow> encoded" where
  "encode_pairs p marshal [] s = Inr ([], s)"
| "encode_pairs p marshal ((kind, payload) # es) s =
     and_then (EncodeEnvelopeEvent p marshal (bare kind payload) s) (\<lambda>(out, s).
       and_then (encode_pairs p marshal es s) (\<lambda>(rest, s). Inr (out @ rest, s)))"

lemma Translate_cong:
  "ev_Kind e = ev_Kind e' \<Longrightarrow> ev_Payload e = ev_Payload e' \<Longrightarrow> Translate e a = Translate e' a"
  by (cases "ev_Kind e'") (simp_all add: adapter_defs)

abbreviation event_content :: "Event \<Rightarrow> EventKind \<times> Payload" where
  "event_content e \<equiv> (ev_Kind e, ev_Payload e)"

lemma encode_content:
  "encode_stream p marshal es s = encode_pairs p marshal (map event_content es) s"
proof (induction es arbitrary: s)
  case (Cons e es)
  have "EncodeEnvelopeEvent p marshal e s = EncodeEnvelopeEvent p marshal (bare (ev_Kind e) (ev_Payload e)) s"
    unfolding EncodeEnvelopeEvent_def using Translate_cong [of e "bare (ev_Kind e) (ev_Payload e)"]
    by (simp add: bare_def)
  with Cons show ?case by simp
qed simp

lemma content_number [simp]: "map event_content (number_events x rid seq evs) = evs"
  by (induction evs arbitrary: seq) auto

lemma encode_pairs_append:
  "encode_pairs p marshal (es @ fs) s = and_then (encode_pairs p marshal es s) (\<lambda>(out, s).
     and_then (encode_pairs p marshal fs s) (\<lambda>(rest, s). Inr (out @ rest, s)))"
  by (induction p marshal es s rule: encode_pairs.induct) (auto simp: and_then_def split: sum.split prod.split)

definition adapter_ready :: "EnvelopeEventAdapter \<Rightarrow> bool" where
  "adapter_ready a \<longleftrightarrow> ad_responseOpen a \<and> ad_started a \<and> ad_resultID a \<noteq> [] \<and> \<not> ad_completed a \<and>
     list_all (\<lambda>(n, i). i = item_id n) (ad_itemIDs a)"

lemma ready_id: "adapter_ready a \<Longrightarrow> itemIDForOrdinal a n = item_id n"
  by (auto simp: adapter_ready_def itemIDForOrdinal_def list_all_iff split: option.splits dest!: map_of_SomeD)

lemma ready_ids:
  assumes "list_all (\<lambda>(n, i). i = item_id n) al"
  shows "list_all (\<lambda>(n, i). i = item_id n) (AList.update k (item_id k) al)"
    "list_all (\<lambda>(n, i). i = item_id n) (AList.delete k al)"
  using assms by (induction al) (auto simp: AList.delete_eq)

definition plain_chunk ::
    "chatCompletionsEnvelopeStreamEncoder \<Rightarrow> chatCompletionsDeltaDTO \<Rightarrow> chatCompletionsStreamResponseDTO" where
  "plain_chunk s d = stream_response s [\<lparr>sh_Index = 0, sh_Delta = d, sh_FinishReason = None\<rparr>] None"

lemma stream_response_cong:
  "en_resultID s = en_resultID s' \<Longrightarrow> en_model s = en_model s' \<Longrightarrow> stream_response s = stream_response s'"
  by (simp add: fun_eq_iff stream_response_def)

text \<open>The start of a message, its content and the end of an item.\<close>

lemma encode_message_start:
  assumes "adapter_ready (en_adapter s)"
  shows "\<exists>a. adapter_ready a \<and> EncodeEnvelopeEvent p marshal (bare EventItemStart (item_event
    \<lparr>ie_item = n, ie_part = 0, ie_payload = Some (item_start (message_start r))\<rparr>)) s =
    Inr ([], s\<lparr>en_adapter := a\<rparr>)"
proof -
  define a where "a = (en_adapter s)\<lparr>
    ad_itemKinds := AList.update n ItemKindMessage (ad_itemKinds (en_adapter s)),
    ad_itemIDs := AList.update n (item_id n) (ad_itemIDs (en_adapter s))\<rparr>"
  have "adapter_ready a" using assms ready_ids by (simp add: adapter_ready_def a_def)
  with assms show ?thesis
    by (intro exI [of _ a]) (simp add: EncodeEnvelopeEvent_def bare_def Translate_def ensureStarted_def
        translateItemStart_def adapter_ready_def Encode_def encode_item_started_def stream_event_def
        Let_def a_def)
qed

lemma encode_content_start:
  "kind \<noteq> [] \<Longrightarrow> EncodeEnvelopeEvent p marshal (bare EventContentStart (item_event
    \<lparr>ie_item = n, ie_part = k, ie_payload = Some (content_start kind)\<rparr>)) s = Inr ([], s)"
  by (simp add: EncodeEnvelopeEvent_def bare_def Translate_def translateContentStart_def positioned_def
      stream_event_def Encode_def)

lemma encode_text_delta:
  assumes "\<And>d. marshal d = Some (enc d)" and "en_started s"
  shows "EncodeEnvelopeEvent p marshal (bare EventTextDelta (item_event
    \<lparr>ie_item = n, ie_part = k, ie_payload = Some (text_delta t)\<rparr>)) s =
    Inr (chunk_frames enc [plain_chunk s (zeroDelta\<lparr>dl_Content := t\<rparr>)],
      s\<lparr>en_sawVisibleOutput := (en_sawVisibleOutput s \<or> t \<noteq> [])\<rparr>)"
proof -
  have "stream_response (s\<lparr>en_sawVisibleOutput := True\<rparr>) = stream_response s"
    by (rule stream_response_cong) simp_all
  then show ?thesis
    using assms by (cases s) (simp add: EncodeEnvelopeEvent_def bare_def Translate_def translateTextDelta_def
        positioned_def stream_event_def Encode_def encode_text_def encode_text_chunk_def with_state_def
        encodeChunk_def chunk_frames_def plain_chunk_def Let_def)
qed

lemma encode_texts:
  assumes "\<And>d. marshal d = Some (enc d)" and "en_started s"
  shows "encode_pairs p marshal (map (\<lambda>t. item_ev EventTextDelta n k (text_delta t)) ts) s =
    Inr (chunk_frames enc (map (\<lambda>t. plain_chunk s (zeroDelta\<lparr>dl_Content := t\<rparr>)) ts),
      s\<lparr>en_sawVisibleOutput := (en_sawVisibleOutput s \<or> concat ts \<noteq> [])\<rparr>)"
  using assms(2)
proof (induction ts arbitrary: s)
  case (Cons t ts)
  define s1 where "s1 = s\<lparr>en_sawVisibleOutput := (en_sawVisibleOutput s \<or> t \<noteq> [])\<rparr>"
  have same: "plain_chunk s1 = plain_chunk s"
    by (simp add: fun_eq_iff plain_chunk_def s1_def stream_response_def)
  have "en_started s1" using Cons.prems by (simp add: s1_def)
  from Cons.IH [OF this] show ?case
    using encode_text_delta [OF assms(1) Cons.prems]
    by (simp add: item_ev_def s1_def [symmetric] same chunk_frames_def) (auto simp: s1_def)
qed (simp add: chunk_frames_def)

lemma encode_parts:
  assumes "\<And>d. marshal d = Some (enc d)" and "en_started s"
    and "chatClientTextContent parts surface = Inr text" and "texts_cut pieces n k parts"
  shows "\<exists>ts. concat ts = text \<and> encode_pairs p marshal (live_parts pieces n k parts) s =
    Inr (chunk_frames enc (map (\<lambda>t. plain_chunk s (zeroDelta\<lparr>dl_Content := t\<rparr>)) ts),
      s\<lparr>en_sawVisibleOutput := (en_sawVisibleOutput s \<or> text \<noteq> [])\<rparr>)"
  using assms(2-4)
proof (induction parts arbitrary: k s "text")
  case Nil
  then show ?case by (intro exI [of _ "[]"]) (simp add: chunk_frames_def)
next
  case (Cons part parts)
  then obtain t rest where t: "part_Text part = Some t" "chatClientTextContent parts surface = Inr rest"
    "text = t @ rest" by (auto simp: result_simps split: option.splits)
  then have kind: "part_Kind part \<noteq> []" using part_Text_kind by fastforce
  have pieces: "concat (pieces n k) = t" "texts_cut pieces n (Suc k) parts" using Cons.prems(3) t(1) by simp_all
  define s1 where "s1 = s\<lparr>en_sawVisibleOutput := (en_sawVisibleOutput s \<or> t \<noteq> [])\<rparr>"
  have same: "plain_chunk s1 = plain_chunk s"
    by (simp add: fun_eq_iff plain_chunk_def s1_def stream_response_def)
  have started: "en_started s1" using Cons.prems(1) by (simp add: s1_def)
  from Cons.IH [OF this t(2) pieces(2)] obtain ts where ts: "concat ts = rest"
    "encode_pairs p marshal (live_parts pieces n (Suc k) parts) s1 =
      Inr (chunk_frames enc (map (\<lambda>t. plain_chunk s (zeroDelta\<lparr>dl_Content := t\<rparr>)) ts),
        s1\<lparr>en_sawVisibleOutput := (en_sawVisibleOutput s1 \<or> rest \<noteq> [])\<rparr>)" unfolding same by blast
  have "s1\<lparr>en_sawVisibleOutput := (en_sawVisibleOutput s1 \<or> rest \<noteq> [])\<rparr> =
      s\<lparr>en_sawVisibleOutput := (en_sawVisibleOutput s \<or> text \<noteq> [])\<rparr>"
    using t(3) by (auto simp: s1_def)
  moreover have "encode_pairs p marshal [item_ev EventContentStart n k (content_start (part_Kind part))] s = Inr ([], s)"
    using encode_content_start [OF kind] by (simp add: item_ev_def)
  moreover have "encode_pairs p marshal (map (\<lambda>t. item_ev EventTextDelta n k (text_delta t)) (pieces n k)) s =
      Inr (chunk_frames enc (map (\<lambda>t. plain_chunk s (zeroDelta\<lparr>dl_Content := t\<rparr>)) (pieces n k)), s1)"
    using encode_texts [where marshal = marshal and enc = enc, OF assms(1) Cons.prems(1)] pieces(1)
    by (simp add: s1_def del: concat_eq_Nil_conv)
  ultimately have "encode_pairs p marshal ([item_ev EventContentStart n k (content_start (part_Kind part))] @
      map (\<lambda>t. item_ev EventTextDelta n k (text_delta t)) (pieces n k) @ live_parts pieces n (Suc k) parts) s =
      Inr (chunk_frames enc (map (\<lambda>t. plain_chunk s (zeroDelta\<lparr>dl_Content := t\<rparr>)) (pieces n k @ ts)),
        s\<lparr>en_sawVisibleOutput := (en_sawVisibleOutput s \<or> text \<noteq> [])\<rparr>)"
    using ts(2) unfolding encode_pairs_append by (simp add: chunk_frames_def)
  then show ?case using t(1,3) ts(1) pieces(1) by (intro exI [of _ "pieces n k @ ts"]) simp
qed

lemma encode_item_end:
  assumes "adapter_ready (en_adapter s)" and "item_Kind item \<noteq> ItemKindNone"
    and "encode_completed_item (stream_event StreamEventItemCompleted\<lparr>st_ItemID := item_id n,
      st_ItemKind := item_Kind item, st_ItemOrdinal := n, st_CompletedItem := Some item\<rparr>) item s = Inr (out, s')"
  shows "\<exists>a. adapter_ready a \<and> EncodeEnvelopeEvent p marshal (bare EventItemCompleted (item_event
    \<lparr>ie_item = n, ie_part = 0, ie_payload = Some (item_completed item)\<rparr>)) s =
    Inr (out, s'\<lparr>en_adapter := a\<rparr>)"
proof -
  define a where "a = (en_adapter s)\<lparr>ad_itemKinds := AList.delete n (ad_itemKinds (en_adapter s)),
    ad_itemIDs := AList.delete n (ad_itemIDs (en_adapter s))\<rparr>"
  have ready: "adapter_ready a" using assms(1) ready_ids by (simp add: adapter_ready_def a_def)
  have "encode_completed_item ev item (s\<lparr>en_adapter := a\<rparr>) = Inr (out, s'\<lparr>en_adapter := a\<rparr>)"
    if "encode_completed_item ev item s = Inr (out, s')" for ev
    using that by (cases item)
      (auto simp: encode_completed_item_def Let_def split: if_splits option.splits)
  with assms ready_id [OF assms(1)] ready show ?thesis
    by (intro exI [of _ a]) (simp add: EncodeEnvelopeEvent_def bare_def Translate_def
        translateItemCompleted_def a_def [symmetric] Encode_def stream_event_def)
qed

section \<open>The invariant of the stream encoder\<close>

text \<open>What a call is sent as, and the state it leaves.\<close>

lemma kinds_lower: "ToLower p (TrimSpace ''function'') = ''function''"
  "ToLower p (TrimSpace ''custom'') = ''custom''" "ToLower p (TrimSpace ''web_search'') = ''web_search''"
proof -
  have trim: "TrimSpace ''function'' = ''function''" "TrimSpace ''custom'' = ''custom''"
    "TrimSpace ''web_search'' = ''web_search''"
    by (intro TrimSpace_solid; simp add: solid_char_def ascii_char_def ascii_space_def)+
  show "ToLower p (TrimSpace ''function'') = ''function''"
    "ToLower p (TrimSpace ''custom'') = ''custom''" "ToLower p (TrimSpace ''web_search'') = ''web_search''"
    unfolding trim ToLower_def
    by (simp_all add: ascii_char_def ascii_lower_def upper_letters_def lower_letters_def)
qed

lemma encode_call_begin:
  assumes "adapter_ready (en_adapter s)" and "tc_callID c \<noteq> []" and "\<not> key_IsZero (tc_tool c)"
    and "encode_call_start p marshal (stream_event StreamEventItemStarted\<lparr>st_ItemKind := ItemKindToolCall,
      st_ItemID := item_id n, st_ItemOrdinal := n, st_ToolUseID := tc_callID c, st_Name := tk_name (tc_tool c),
      st_Namespace := tk_namespace (tc_tool c), st_ToolType := tk_kind (tc_tool c)\<rparr>) s = Inr (out, s')"
  shows "\<exists>a. adapter_ready a \<and> EncodeEnvelopeEvent p marshal (bare EventItemStart (item_event
    \<lparr>ie_item = n, ie_part = 0, ie_payload = Some (item_start (tool_call_start (tc_callID c) (tc_tool c)))\<rparr>)) s =
    Inr (out, s'\<lparr>en_adapter := a\<rparr>)"
proof -
  define a where "a = (en_adapter s)\<lparr>
    ad_itemKinds := AList.update n ItemKindToolCall (ad_itemKinds (en_adapter s)),
    ad_itemIDs := AList.update n (item_id n) (ad_itemIDs (en_adapter s))\<rparr>"
  have ready: "adapter_ready a" using assms(1) ready_ids by (simp add: adapter_ready_def a_def)
  have "encode_call_start p marshal ev (s\<lparr>en_adapter := a\<rparr>) = Inr (out, s'\<lparr>en_adapter := a\<rparr>)"
    if "encode_call_start p marshal ev s = Inr (out, s')" for ev
    using that by (auto simp: encode_call_start_def Let_def with_state_def encodeChunk_def
        stream_response_def early_return split: if_splits option.splits)
  with assms ready show ?thesis
    by (intro exI [of _ a]) (simp add: EncodeEnvelopeEvent_def bare_def Translate_def ensureStarted_def
        translateItemStart_def adapter_ready_def a_def [symmetric] Encode_def encode_item_started_def
        stream_event_def Let_def)
qed

lemma encode_args_delta:
  assumes "adapter_ready (en_adapter s)" and "map_of (en_toolByID s) (item_id n) = Some index"
    and "encode_args_chunk marshal (positioned StreamEventToolUseArgumentsDelta
      \<lparr>ie_item = n, ie_part = 0, ie_payload = Some (args_delta t)\<rparr> (en_adapter s)\<lparr>st_ArgumentsDelta := t\<rparr>) index s = r"
  shows "EncodeEnvelopeEvent p marshal (bare EventArgsDelta (item_event
    \<lparr>ie_item = n, ie_part = 0, ie_payload = Some (args_delta t)\<rparr>)) s = and_then r Inr"
  using assms ready_id [OF assms(1)]
  by (cases r) (auto simp: EncodeEnvelopeEvent_def bare_def Translate_def translateArgsDelta_def Encode_def
      encode_args_def positioned_def stream_event_def)

text \<open>
  After the items \<open>done\<close>: the message so far, its view by the client, the searches under way and
  the decisions taken. \<open>m\<close> is the matcher of the document encoder after these items.
\<close>

definition encoder_inv ::
    "CanonicalItem list \<Rightarrow> ToolEffectMatcher \<Rightarrow> string \<times> chatCompletionsResponseToolCallDTO list \<Rightarrow>
     chatCompletionsEnvelopeStreamEncoder \<Rightarrow> chat_view \<Rightarrow> bool" where
  "encoder_inv don m st s v \<longleftrightarrow>
     en_started s \<and> adapter_ready (en_adapter s) \<and> matcher_ok don m \<and>
     v = \<lparr>cv_ID = FallbackID (en_resultID s) ''chatcmpl_swobu'', cv_Model = en_model s,
       cv_Message = \<lparr>rm_Role = ''assistant'', rm_Content = fst st, rm_ToolCalls = snd st\<rparr>,
       cv_Finish = None, cv_Usage = None\<rparr> \<and>
     length (en_toolByID s) = length (snd st) \<and>
     (\<forall>i \<in> fst ` set (en_toolByID s). \<exists>j < length don. i = item_id (of_nat j)) \<and>
     en_sawVisibleOutput s = (fst st \<noteq> [] \<or> snd st \<noteq> []) \<and>
     (\<forall>i n. map_of (en_pendingWebSearchCalls s) i = Some n \<longleftrightarrow>
        (\<exists>k. map_of (em_pending m) i = Some k \<and> search_effect (em_effects m ! k) \<and>
          n = of_int (te_CallIndex (em_effects m ! k)))) \<and>
     en_sawReasoning s = chatItemsContainReasoning don \<and>
     set (en_changes s) =
       search_omission ` {e \<in> set (em_effects m). search_effect e \<and> te_ResultIndex e \<noteq> -1} \<union>
       (\<Union>i < length don. set (chatCompletionsCitationDropDecisions (of_nat i) (don ! i)))"

lemma encoder_invD:
  assumes "encoder_inv don m st s v"
  shows "en_started s" "adapter_ready (en_adapter s)" "matcher_ok don m"
    "v = \<lparr>cv_ID = FallbackID (en_resultID s) ''chatcmpl_swobu'', cv_Model = en_model s,
       cv_Message = \<lparr>rm_Role = ''assistant'', rm_Content = fst st, rm_ToolCalls = snd st\<rparr>,
       cv_Finish = None, cv_Usage = None\<rparr>"
    "length (en_toolByID s) = length (snd st)"
    "\<forall>i \<in> fst ` set (en_toolByID s). \<exists>j < length don. i = item_id (of_nat j)"
    "en_sawVisibleOutput s = (fst st \<noteq> [] \<or> snd st \<noteq> [])"
    "\<forall>i n. map_of (en_pendingWebSearchCalls s) i = Some n \<longleftrightarrow>
        (\<exists>k. map_of (em_pending m) i = Some k \<and> search_effect (em_effects m ! k) \<and>
          n = of_int (te_CallIndex (em_effects m ! k)))"
    "en_sawReasoning s = chatItemsContainReasoning don"
    "set (en_changes s) =
       search_omission ` {e \<in> set (em_effects m). search_effect e \<and> te_ResultIndex e \<noteq> -1} \<union>
       (\<Union>i < length don. set (chatCompletionsCitationDropDecisions (of_nat i) (don ! i)))"
  using assms unfolding encoder_inv_def by - (elim conjE, assumption)+

lemma keys_grow:
  "\<forall>i \<in> K. \<exists>j < length don. i = item_id (of_nat j) \<Longrightarrow>
   \<forall>i \<in> K. \<exists>j < length (don @ [x]). i = item_id (of_nat j)"
  by (auto intro: less_SucI)

lemma view_text:
  assumes "cv_ID v = FallbackID (en_resultID s) ''chatcmpl_swobu''" and "cv_Model v = en_model s"
  shows "fold add_chunk (map (\<lambda>t. plain_chunk s (zeroDelta\<lparr>dl_Content := t\<rparr>)) ts) v =
    v\<lparr>cv_Message := (cv_Message v)\<lparr>rm_Content := rm_Content (cv_Message v) @ concat ts\<rparr>\<rparr>"
  using assms
proof (induction ts arbitrary: v)
  case (Cons t ts)
  have "add_chunk (plain_chunk s (zeroDelta\<lparr>dl_Content := t\<rparr>)) v =
      v\<lparr>cv_Message := (cv_Message v)\<lparr>rm_Content := rm_Content (cv_Message v) @ t\<rparr>\<rparr>"
    using Cons.prems
    by (cases v) (simp add: add_chunk_def add_choice_def plain_chunk_def stream_response_def zeroDelta_def Let_def)
  with Cons show ?case by simp
qed simp

lemma citations_snoc:
  "(\<Union>i < length (don @ [item]). set (chatCompletionsCitationDropDecisions (of_nat i) ((don @ [item]) ! i))) =
   (\<Union>i < length don. set (chatCompletionsCitationDropDecisions (of_nat i) (don ! i))) \<union>
   set (chatCompletionsCitationDropDecisions (of_nat (length don)) item)"
  by (simp add: lessThan_Suc nth_append Un_commute)

lemma reasoning_snoc:
  "chatItemsContainReasoning (don @ [item]) =
     (chatItemsContainReasoning don \<or> item_Kind item = ItemKindReasoning)"
  by (auto simp: chatItemsContainReasoning_def)

section \<open>Each kind of item keeps the invariant\<close>

text \<open>The last event of an item that neither searches nor reasons.\<close>

lemma completed_drops:
  assumes "\<not> search_item item" and "item_Kind item \<noteq> ItemKindReasoning" and "st_ItemOrdinal ev = n"
  shows "encode_completed_item ev item s = Inr ([], s\<lparr>en_changes := en_changes s @
    chatCompletionsCitationDropDecisions n item\<rparr>)"
  using assms by (cases item) (auto simp: encode_completed_item_def is_search_call_def Let_def)

lemma inv_message:
  assumes marsh: "\<And>d. marshal d = Some (enc d)" and inv: "encoder_inv don m st s v"
    and app: "message_append (message_item mi) st = Inr st'" and pieces: "texts_cut pieces (length don) 0 (mi_content mi)"
  shows "\<exists>ds s'. encode_pairs p marshal (live_item pieces (length don) (message_item mi)) s =
      Inr (chunk_frames enc ds, s') \<and>
    encoder_inv (don @ [message_item mi]) m st' s' (fold add_chunk ds v)"
proof -
  let ?item = "message_item mi" and ?n = "of_nat (length don) :: 32 word"
  obtain body where body: "chatClientTextContent (mi_content mi) ''chat completions responses'' = Inr body"
    "st' = (fst st @ body, snd st)"
    using app by (cases st) (auto simp: message_append_def result_simps split: if_splits)
  note I = encoder_invD [OF inv]
  obtain a1 where a1: "adapter_ready a1" "EncodeEnvelopeEvent p marshal (bare EventItemStart (item_event
    \<lparr>ie_item = ?n, ie_part = 0, ie_payload = Some (item_start (message_start (mi_role mi)))\<rparr>)) s =
    Inr ([], s\<lparr>en_adapter := a1\<rparr>)"
    using encode_message_start [OF I(2)] by blast
  define s1 where "s1 = s\<lparr>en_adapter := a1\<rparr>"
  define s2 where "s2 = s1\<lparr>en_sawVisibleOutput := (en_sawVisibleOutput s1 \<or> body \<noteq> [])\<rparr>"
  obtain ts where ts: "concat ts = body" "encode_pairs p marshal (live_parts pieces (length don) 0 (mi_content mi)) s1 =
      Inr (chunk_frames enc (map (\<lambda>t. plain_chunk s1 (zeroDelta\<lparr>dl_Content := t\<rparr>)) ts), s2)"
    using encode_parts [where marshal = marshal and enc = enc and s = s1 and p = p and n = "length don" and k = 0, OF marsh _ body(1) pieces] I(1) unfolding s2_def
    by (auto simp: s1_def)
  define s3 where "s3 = s2\<lparr>en_changes := en_changes s2 @ chatCompletionsCitationDropDecisions ?n ?item\<rparr>"
  obtain a4 where a4: "adapter_ready a4" "EncodeEnvelopeEvent p marshal (bare EventItemCompleted (item_event
    \<lparr>ie_item = ?n, ie_part = 0, ie_payload = Some (item_completed ?item)\<rparr>)) s2 = Inr ([], s3\<lparr>en_adapter := a4\<rparr>)"
    using encode_item_end [of s2 ?item ?n "[]" s3 p marshal] completed_drops [of ?item _ ?n s2] a1(1)
    by (auto simp: s1_def s2_def s3_def)
  let ?ds = "map (\<lambda>t. plain_chunk s1 (zeroDelta\<lparr>dl_Content := t\<rparr>)) ts"
  have run: "encode_pairs p marshal (live_item pieces (length don) ?item) s = Inr (chunk_frames enc ?ds, s3\<lparr>en_adapter := a4\<rparr>)"
    using a1(2) ts(2) a4(2) by (simp add: live_item_def live_start_def item_ev_def encode_pairs_append s1_def [symmetric])
  have ready: "en_resultID s1 = en_resultID s" "en_model s1 = en_model s" by (simp_all add: s1_def)
  have view: "fold add_chunk ?ds v = v\<lparr>cv_Message := (cv_Message v)\<lparr>rm_Content := rm_Content (cv_Message v) @ body\<rparr>\<rparr>"
    using view_text [of v s1 ts] ts(1) I(4) by (simp add: ready)
  have m: "matcher_ok (don @ [?item]) m" using I(3) skip_matcher_ok by simp
  have "encoder_inv (don @ [?item]) m st' (s3\<lparr>en_adapter := a4\<rparr>) (fold add_chunk ?ds v)"
    unfolding encoder_inv_def citations_snoc reasoning_snoc view
    using I(1) a4(1) m body(2) I(4-10) keys_grow [OF I(6), of ?item]
    by (intro conjI, simp_all add: s1_def s2_def s3_def Un_assoc) blast
  with run show ?thesis by blast
qed

lemma inv_reasoning:
  assumes inv: "encoder_inv don m st s v"
  shows "\<exists>s'. encode_pairs p marshal (live_item pieces (length don) (reasoning_item ri)) s =
      Inr (chunk_frames enc [], s') \<and> encoder_inv (don @ [reasoning_item ri]) m st s' v"
proof -
  let ?item = "reasoning_item ri"
  note I = encoder_invD [OF inv]
  define s1 where "s1 = s\<lparr>en_sawReasoning := True\<rparr>"
  obtain a where a: "adapter_ready a" "EncodeEnvelopeEvent p marshal (bare EventItemCompleted (item_event
    \<lparr>ie_item = of_nat (length don), ie_part = 0, ie_payload = Some (item_completed ?item)\<rparr>)) s =
    Inr ([], s1\<lparr>en_adapter := a\<rparr>)"
    using encode_item_end [of s ?item "of_nat (length don)" "[]" s1 p marshal] I(2)
    by (auto simp: encode_completed_item_def s1_def Let_def)
  have "matcher_ok (don @ [?item]) m" using I(3) skip_matcher_ok by simp
  then have "encoder_inv (don @ [?item]) m st (s1\<lparr>en_adapter := a\<rparr>) v"
    unfolding encoder_inv_def citations_snoc reasoning_snoc
    using I a(1) keys_grow [OF I(6), of ?item]
    by (intro conjI) (simp_all add: s1_def chatCompletionsCitationDropDecisions_def)
  with a(2) show ?thesis
    by (auto simp: live_item_def live_start_def item_ev_def chunk_frames_def)
qed

text \<open>The searches under way, against the matcher.\<close>

definition searching :: "ToolEffectMatcher \<Rightarrow> (string \<times> 32 word) list \<Rightarrow> bool" where
  "searching m pend \<longleftrightarrow> (\<forall>i n. map_of pend i = Some n \<longleftrightarrow>
     (\<exists>k. map_of (em_pending m) i = Some k \<and> search_effect (em_effects m ! k) \<and>
       n = of_int (te_CallIndex (em_effects m ! k))))"

definition settled_searches :: "ToolEffectMatcher \<Rightarrow> ToolEffect set" where
  "settled_searches m = {e \<in> set (em_effects m). search_effect e \<and> te_ResultIndex e \<noteq> -1}"

lemma searching_call:
  assumes acc: "acceptCall (int n) c m = Inr m'" and ok: "pending_ok m" and s: "searching m pend"
  shows "searching m' (if tk_kind (tc_tool c) = ToolKindWebSearch
      then AList.update (tc_callID c) (of_nat n) pend else pend)"
    and "settled_searches m' = settled_searches m"
proof -
  define e where "e = (\<lparr>te_CallIndex = int n, te_ResultIndex = -1, te_CallID = tc_callID c,
    te_Kind = tk_kind (tc_tool c), te_Executor = call_DiscoveryExecutor c\<rparr> :: ToolEffect)"
  have fresh: "map_of (em_pending m) (tc_callID c) = None"
    and es: "em_effects m' = em_effects m @ [e]"
    and pend': "em_pending m' = AList.update (tc_callID c) (length (em_effects m)) (em_pending m)"
    using acceptCall_cases [OF acc, folded e_def] by simp_all
  have old: "k < length (em_effects m)" if "map_of (em_pending m) i = Some k" for i k
    using ok that by (simp add: pending_ok_def)
  have none: "map_of pend (tc_callID c) = None"
    using s fresh by (cases "map_of pend (tc_callID c)") (auto simp: searching_def)
  have kind: "search_effect e \<longleftrightarrow> tk_kind (tc_tool c) = ToolKindWebSearch"
    by (simp add: e_def search_effect_def)
  have idx: "te_CallIndex e = int n" by (simp add: e_def)
  show "searching m' (if tk_kind (tc_tool c) = ToolKindWebSearch
      then AList.update (tc_callID c) (of_nat n) pend else pend)"
    unfolding searching_def
  proof (intro allI)
    fix i x
    show "map_of (if tk_kind (tc_tool c) = ToolKindWebSearch
        then AList.update (tc_callID c) (of_nat n) pend else pend) i = Some x \<longleftrightarrow>
      (\<exists>k. map_of (em_pending m') i = Some k \<and> search_effect (em_effects m' ! k) \<and>
        x = of_int (te_CallIndex (em_effects m' ! k)))"
    proof (cases "i = tc_callID c")
      case True
      then show ?thesis using none kind idx by (auto simp: pend' es update_conv' nth_append)
    next
      case False
      have "(\<exists>k. map_of (em_pending m) i = Some k \<and> search_effect ((em_effects m @ [e]) ! k) \<and>
          x = of_int (te_CallIndex ((em_effects m @ [e]) ! k))) \<longleftrightarrow> map_of pend i = Some x"
        using s old by (auto simp: searching_def nth_append)
      then show ?thesis using False by (simp add: pend' es update_conv')
    qed
  qed
  show "settled_searches m' = settled_searches m"
    by (auto simp: settled_searches_def es e_def)
qed

lemma searching_result:
  assumes acc: "acceptToolResult (int n) r m = Inr (x, m')" and ok: "matcher_ok don m"
    and s: "searching m pend" and r: "is_search_result r"
  obtains q where "map_of pend (tr_callID r) = Some q" "searching m' (AList.delete (tr_callID r) pend)"
    "search_omission ` settled_searches m' = insert (omission ''response.items.kind'' (ResponseItemOccurrence q))
      (search_omission ` settled_searches m)"
proof -
  from acceptToolResult_cases [OF acc] obtain k where k: "map_of (em_pending m) (tr_callID r) = Some k"
    "m' = snd (complete (int n) k m)"
    "te_CallID (em_effects m ! k) = tr_callID r \<longrightarrow> answers (em_effects m ! k) (tool_result_item r)" by blast
  have p: "pending_ok m" using ok by (simp add: matcher_ok_def)
  have kp: "k < length (em_effects m)" "te_CallID (em_effects m ! k) = tr_callID r"
    "te_ResultIndex (em_effects m ! k) = -1" using p k(1) by (auto simp: pending_ok_def)
  have kind: "search_effect (em_effects m ! k)" using k(3) kp(2) r by (simp add: search_effect_def)
  define e where "e = (em_effects m ! k)\<lparr>te_ResultIndex := int n\<rparr>"
  have m': "em_effects m' = (em_effects m)[k := e]" "em_pending m' = AList.delete (tr_callID r) (em_pending m)"
    using k(2) kp(2) by (simp_all add: complete_def Let_def e_def)
  define q where "q = (of_int (te_CallIndex (em_effects m ! k)) :: 32 word)"
  have pend: "map_of pend (tr_callID r) = Some q" using s k(1) kind by (auto simp: searching_def q_def)
  have other: "j \<noteq> k" if "map_of (em_pending m) i = Some j" "i \<noteq> tr_callID r" for i j
    using p that kp(2) by (auto simp: pending_ok_def)
  have "searching m' (AList.delete (tr_callID r) pend)"
    unfolding searching_def
  proof (intro allI)
    fix i x
    show "map_of (AList.delete (tr_callID r) pend) i = Some x \<longleftrightarrow>
      (\<exists>j. map_of (em_pending m') i = Some j \<and> search_effect (em_effects m' ! j) \<and>
        x = of_int (te_CallIndex (em_effects m' ! j)))"
    proof (cases "i = tr_callID r")
      case False
      have "(\<exists>j. map_of (em_pending m) i = Some j \<and> search_effect ((em_effects m)[k := e] ! j) \<and>
          x = of_int (te_CallIndex ((em_effects m)[k := e] ! j))) \<longleftrightarrow> map_of pend i = Some x"
        using s other [OF _ False] by (auto simp: searching_def)
      with False show ?thesis by (simp add: m' delete_conv')
    qed (simp add: m' delete_conv')
  qed
  moreover have "settled_searches m' = insert e (settled_searches m)"
  proof -
    have "em_effects m ! k \<notin> settled_searches m" using kp(3) by (simp add: settled_searches_def)
    moreover have "set ((em_effects m)[k := e]) \<subseteq> insert e (set (em_effects m))" by (rule set_update_subset_insert)
    moreover have "y \<in> set ((em_effects m)[k := e])" if "y \<in> set (em_effects m)" "y \<noteq> em_effects m ! k" for y
      using that by (metis in_set_conv_nth length_list_update nth_list_update_neq)
    moreover have "e \<in> set ((em_effects m)[k := e])" using kp(1) by (rule set_update_memI)
    moreover have "search_effect e" "te_ResultIndex e \<noteq> -1" using kind by (simp_all add: e_def search_effect_def)
    ultimately show ?thesis unfolding settled_searches_def m' by auto
  qed
  moreover have "search_omission e = omission ''response.items.kind'' (ResponseItemOccurrence q)"
    by (simp add: search_omission_def e_def q_def)
  ultimately show ?thesis using pend that by auto
qed

lemma fresh_item:
  assumes "\<forall>i \<in> fst ` set al. \<exists>j < length don. i = item_id (of_nat j)" and "length don < 2 ^ 32"
  shows "item_id (of_nat (length don)) \<notin> fst ` set al"
proof
  assume "item_id (of_nat (length don)) \<in> fst ` set al"
  then obtain j where "j < length don" "item_id (of_nat (length don)) = item_id (of_nat j)"
    using assms(1) by blast
  then show False using assms(2) ordinal_inj [of "length don" j] by (simp add: item_id_inj)
qed

lemma length_update_fresh: "k \<notin> fst ` set al \<Longrightarrow> length (AList.update k v al) = Suc (length al)"
  by (induction al) auto

text \<open>The two chunks of a call, and what a client makes of them.\<close>

definition call_chunks ::
    "chatCompletionsEnvelopeStreamEncoder \<Rightarrow> nat \<Rightarrow> chatCompletionsResponseToolCallDTO \<Rightarrow> string list \<Rightarrow>
     chatCompletionsStreamResponseDTO list" where
  "call_chunks s index w ts = map (\<lambda>d. plain_chunk s (zeroDelta\<lparr>dl_ToolCalls := [d]\<rparr>))
     (\<lparr>dt_Index = index, dt_ID = rt_ID w, dt_Type = rt_Type w,
       dt_Function = map_option (\<lambda>f. f\<lparr>fn_Arguments := []\<rparr>) (rt_Function w),
       dt_Custom = map_option (\<lambda>f. f\<lparr>cu_Input := []\<rparr>) (rt_Custom w)\<rparr> #
      map (\<lambda>t. \<lparr>dt_Index = index, dt_ID = [], dt_Type = [],
        dt_Function = map_option (\<lambda>f. f\<lparr>fn_Name := [], fn_Arguments := t\<rparr>) (rt_Function w),
        dt_Custom = map_option (\<lambda>f. f\<lparr>cu_Name := [], cu_Input := t\<rparr>) (rt_Custom w)\<rparr>) ts)"

lemma view_call:
  assumes "cv_ID v = FallbackID (en_resultID s) ''chatcmpl_swobu''" and "cv_Model v = en_model s"
    and "index = length (rm_ToolCalls (cv_Message v))"
  shows "fold add_chunk (call_chunks s index w ts) v =
    v\<lparr>cv_Message := (cv_Message v)\<lparr>rm_ToolCalls :=
      rm_ToolCalls (cv_Message v) @ [streamed_call (concat ts) w]\<rparr>\<rparr>"
proof -
  have one: "add_chunk (plain_chunk s (zeroDelta\<lparr>dl_ToolCalls := [d]\<rparr>)) v' =
      v'\<lparr>cv_Message := (cv_Message v')\<lparr>rm_ToolCalls := add_call d (rm_ToolCalls (cv_Message v'))\<rparr>\<rparr>"
    if "cv_ID v' = cv_ID v" "cv_Model v' = cv_Model v" for v' d
    using assms(1,2) that by (cases v'; cases "cv_Message v'")
      (simp add: add_chunk_def add_choice_def plain_chunk_def stream_response_def zeroDelta_def Let_def)
  have chunks: "fold add_chunk (map (\<lambda>d. plain_chunk s (zeroDelta\<lparr>dl_ToolCalls := [d]\<rparr>)) ds) v' =
      v'\<lparr>cv_Message := (cv_Message v')\<lparr>rm_ToolCalls := fold add_call ds (rm_ToolCalls (cv_Message v'))\<rparr>\<rparr>"
    if "cv_ID v' = cv_ID v" "cv_Model v' = cv_Model v" for v' ds
    using that by (induction ds arbitrary: v') (simp_all add: one)
  have more: "add_call \<lparr>dt_Index = length calls, dt_ID = [], dt_Type = [],
        dt_Function = map_option (\<lambda>f. f\<lparr>fn_Name := [], fn_Arguments := t\<rparr>) (rt_Function w),
        dt_Custom = map_option (\<lambda>f. f\<lparr>cu_Name := [], cu_Input := t\<rparr>) (rt_Custom w)\<rparr> (calls @ [streamed_call a w]) =
      calls @ [streamed_call (a @ t) w]" for calls a t
    by (cases w; cases "rt_Function w"; cases "rt_Custom w")
      (simp_all add: add_call_def Let_def nth_append streamed_call_def)
  have rest: "fold add_call (map (\<lambda>t. \<lparr>dt_Index = length calls, dt_ID = [], dt_Type = [],
        dt_Function = map_option (\<lambda>f. f\<lparr>fn_Name := [], fn_Arguments := t\<rparr>) (rt_Function w),
        dt_Custom = map_option (\<lambda>f. f\<lparr>cu_Name := [], cu_Input := t\<rparr>) (rt_Custom w)\<rparr>) ts)
      (calls @ [streamed_call a w]) = calls @ [streamed_call (a @ concat ts) w]" for calls a
    by (induction ts arbitrary: a) (simp_all add: more)
  have first: "add_call \<lparr>dt_Index = length calls, dt_ID = rt_ID w, dt_Type = rt_Type w,
        dt_Function = map_option (\<lambda>f. f\<lparr>fn_Arguments := []\<rparr>) (rt_Function w),
        dt_Custom = map_option (\<lambda>f. f\<lparr>cu_Input := []\<rparr>) (rt_Custom w)\<rparr> calls = calls @ [streamed_call [] w]" for calls
    by (cases w) (simp add: add_call_def streamed_call_def)
  show ?thesis
    unfolding call_chunks_def assms(3) by (simp add: chunks first rest del: list.map)
qed

lemmas call_encoding = call_chunks_def encode_call_start_def with_state_def encodeChunk_def
  chunk_frames_def plain_chunk_def stream_response_def zeroDeltaCall_def stream_event_def
  encode_args_chunk_def Let_def

lemma encode_call:
  assumes marsh: "\<And>d. marshal d = Some (enc d)" and ready: "adapter_ready (en_adapter s)"
    and wf: "tc_callID c \<noteq> []" "\<not> key_IsZero (tc_tool c)"
    and w: "chatToolCallFromOutputItem (tool_call_item c) = Inr w"
    and fresh: "item_id (of_nat n) \<notin> fst ` set (en_toolByID s)"
  shows "\<exists>a. adapter_ready a \<and> encode_pairs p marshal (live_item pieces n (tool_call_item c)) s =
    Inr (chunk_frames enc (call_chunks s (length (en_toolByID s)) w (pieces n 0)),
      s\<lparr>en_toolByID := AList.update (item_id (of_nat n)) (length (en_toolByID s)) (en_toolByID s),
        en_toolKind := AList.update (item_id (of_nat n)) (tk_kind (tc_tool c)) (en_toolKind s),
        en_sawVisibleOutput := True, en_adapter := a\<rparr>)"
proof -
  let ?n = "of_nat n :: 32 word" and ?i = "length (en_toolByID s)"
  define s1 where "s1 = s\<lparr>en_toolByID := AList.update (item_id ?n) ?i (en_toolByID s),
    en_toolKind := AList.update (item_id ?n) (tk_kind (tc_tool c)) (en_toolKind s), en_sawVisibleOutput := True\<rparr>"
  define d1 where "d1 = hd (call_chunks s ?i w [])"
  define d2 where "d2 t = call_chunks s ?i w [t] ! 1" for t
  have d: "call_chunks s ?i w ts = d1 # map d2 ts" for ts by (simp add: d1_def d2_def call_chunks_def)
  consider (object_call) t where "tc_input c = object_input t" "tk_kind (tc_tool c) = ToolKindFunction"
      "w = \<lparr>rt_ID = tc_callID c, rt_Type = ''function'',
         rt_Function = Some \<lparr>fn_Name = tk_name (tc_tool c), fn_Arguments = t\<rparr>, rt_Custom = None\<rparr>"
    | (text_call) t where "tc_input c = text_input t" "tk_kind (tc_tool c) = ToolKindCustom"
      "w = \<lparr>rt_ID = tc_callID c, rt_Type = ''custom'', rt_Function = None,
         rt_Custom = Some \<lparr>cu_Name = tk_name (tc_tool c), cu_Input = t\<rparr>\<rparr>"
    using w by (cases "tc_input c") (auto simp: chatToolCallFromOutputItem_def split: if_splits)
  note form = this
  have start: "encode_call_start p marshal (stream_event StreamEventItemStarted\<lparr>st_ItemKind := ItemKindToolCall,
        st_ItemID := item_id ?n, st_ItemOrdinal := ?n, st_ToolUseID := tc_callID c, st_Name := tk_name (tc_tool c),
        st_Namespace := tk_namespace (tc_tool c), st_ToolType := tk_kind (tc_tool c)\<rparr>) s =
      Inr (chunk_frames enc [d1], s1)"
    by (cases rule: form) (simp_all add: marsh d1_def s1_def call_encoding kinds_lower)
  have t: "live_start pieces n (tool_call_item c) =
      item_ev EventItemStart n 0 (item_start (tool_call_start (tc_callID c) (tc_tool c))) #
      map (\<lambda>t. item_ev EventArgsDelta n 0 (args_delta t)) (pieces n 0)"
    by (cases rule: form) (simp_all add: live_start_def)
  have args: "encode_args_chunk marshal (positioned StreamEventToolUseArgumentsDelta
        \<lparr>ie_item = ?n, ie_part = 0, ie_payload = Some (args_delta t)\<rparr> a\<lparr>st_ArgumentsDelta := t\<rparr>)
        ?i (s1\<lparr>en_adapter := a\<rparr>) = Inr (chunk_frames enc [d2 t], s1\<lparr>en_adapter := a\<rparr>)"
    if "adapter_ready a" for a t
    using that
    by (cases rule: form) (simp_all add: marsh d2_def s1_def call_encoding positioned_def ready_id update_conv')
  from encode_call_begin [OF ready wf start] obtain a1 where a1: "adapter_ready a1"
    "EncodeEnvelopeEvent p marshal (bare EventItemStart (item_event \<lparr>ie_item = ?n, ie_part = 0,
      ie_payload = Some (item_start (tool_call_start (tc_callID c) (tc_tool c)))\<rparr>)) s =
     Inr (chunk_frames enc [d1], s1\<lparr>en_adapter := a1\<rparr>)" by blast
  define s2 where "s2 = s1\<lparr>en_adapter := a1\<rparr>"
  have known: "map_of (en_toolByID s2) (item_id ?n) = Some ?i"
    by (simp add: s2_def s1_def update_conv')
  have "EncodeEnvelopeEvent p marshal (bare EventArgsDelta (item_event
      \<lparr>ie_item = ?n, ie_part = 0, ie_payload = Some (args_delta t)\<rparr>)) s2 = Inr (chunk_frames enc [d2 t], s2)" for t
    using encode_args_delta [of s2 ?n ?i marshal t _ p] known a1(1) args [OF a1(1), of t]
    by (simp add: s2_def)
  then have two: "encode_pairs p marshal (map (\<lambda>t. item_ev EventArgsDelta n 0 (args_delta t)) ts) s2 =
      Inr (chunk_frames enc (map d2 ts), s2)" for ts
    by (induction ts) (simp_all add: item_ev_def chunk_frames_def)
  have not_search: "\<not> search_item (tool_call_item c)"
    using w by (auto simp: chatToolCallFromOutputItem_def split: if_splits)
  obtain a3 where a3: "adapter_ready a3" "EncodeEnvelopeEvent p marshal (bare EventItemCompleted (item_event
    \<lparr>ie_item = ?n, ie_part = 0, ie_payload = Some (item_completed (tool_call_item c))\<rparr>)) s2 =
    Inr ([], s2\<lparr>en_adapter := a3\<rparr>)"
    using encode_item_end [of s2 "tool_call_item c" ?n "[]" s2 p marshal]
      completed_drops [OF not_search, of _ ?n s2] a1(1)
    by (auto simp: s2_def chatCompletionsCitationDropDecisions_def)
  have "encode_pairs p marshal [item_ev EventItemStart n 0 (item_start (tool_call_start (tc_callID c) (tc_tool c)))] s =
      Inr (chunk_frames enc [d1], s2)"
    "encode_pairs p marshal [item_ev EventItemCompleted n 0 (item_completed (tool_call_item c))] s2 =
      Inr ([], s2\<lparr>en_adapter := a3\<rparr>)"
    using a1(2) a3(2) by (simp_all add: item_ev_def s2_def)
  then have "encode_pairs p marshal ([item_ev EventItemStart n 0 (item_start (tool_call_start (tc_callID c) (tc_tool c)))] @
      map (\<lambda>t. item_ev EventArgsDelta n 0 (args_delta t)) (pieces n 0) @
      [item_ev EventItemCompleted n 0 (item_completed (tool_call_item c))]) s =
      Inr (chunk_frames enc (d1 # map d2 (pieces n 0)), s2\<lparr>en_adapter := a3\<rparr>)"
    unfolding encode_pairs_append by (simp add: two chunk_frames_def)
  then have "encode_pairs p marshal (live_item pieces n (tool_call_item c)) s =
      Inr (chunk_frames enc (d1 # map d2 (pieces n 0)), s2\<lparr>en_adapter := a3\<rparr>)"
    by (simp add: live_item_def t)
  with a3(1) show ?thesis by (intro exI [of _ a3]) (simp add: d s2_def s1_def)
qed

lemma inv_call:
  assumes marsh: "\<And>d. marshal d = Some (enc d)" and inv: "encoder_inv don m st s v"
    and len: "length don < 2 ^ 32" and wf: "tc_callID c \<noteq> []" "\<not> key_IsZero (tc_tool c)"
    and w: "chatToolCallFromOutputItem (tool_call_item c) = Inr w"
    and acc: "acceptCall (int (length don)) c m = Inr m'"
  shows "\<exists>ds s'. encode_pairs p marshal (live_item pieces (length don) (tool_call_item c)) s =
      Inr (chunk_frames enc ds, s') \<and>
    encoder_inv (don @ [tool_call_item c]) m'
      (fst st, snd st @ [streamed_call (concat (pieces (length don) 0)) w]) s' (fold add_chunk ds v)"
proof -
  let ?item = "tool_call_item c" and ?id = "item_id (of_nat (length don))" and ?i = "length (en_toolByID s)"
  let ?ts = "pieces (length don) 0"
  note I = encoder_invD [OF inv]
  have fresh: "?id \<notin> fst ` set (en_toolByID s)" using fresh_item [OF I(6) len] .
  from encode_call [where marshal = marshal and enc = enc and p = p, OF marsh I(2) wf w fresh] obtain a where a: "adapter_ready a"
    "encode_pairs p marshal (live_item pieces (length don) ?item) s = Inr (chunk_frames enc (call_chunks s ?i w ?ts),
      s\<lparr>en_toolByID := AList.update ?id ?i (en_toolByID s),
        en_toolKind := AList.update ?id (tk_kind (tc_tool c)) (en_toolKind s),
        en_sawVisibleOutput := True, en_adapter := a\<rparr>)" by blast
  define s' where "s' = s\<lparr>en_toolByID := AList.update ?id ?i (en_toolByID s),
    en_toolKind := AList.update ?id (tk_kind (tc_tool c)) (en_toolKind s), en_sawVisibleOutput := True, en_adapter := a\<rparr>"
  have view: "fold add_chunk (call_chunks s ?i w ?ts) v =
      v\<lparr>cv_Message := (cv_Message v)\<lparr>rm_ToolCalls := rm_ToolCalls (cv_Message v) @ [streamed_call (concat ?ts) w]\<rparr>\<rparr>"
    using I(4,5) by (intro view_call) simp_all
  have m': "matcher_ok (don @ [?item]) m'" using call_matcher_ok [OF I(3) acc] .
  have "tk_kind (tc_tool c) \<noteq> ToolKindWebSearch"
    using w by (auto simp: chatToolCallFromOutputItem_def split: if_splits)
  then have searches: "searching m' (en_pendingWebSearchCalls s)" "settled_searches m' = settled_searches m"
    using searching_call [OF acc] I(3,8) by (simp_all add: matcher_ok_def searching_def)
  have keys: "\<forall>i \<in> fst ` set (en_toolByID s'). \<exists>j < length (don @ [?item]). i = item_id (of_nat j)"
    using keys_grow [OF I(6), of ?item] by (auto simp: s'_def dom_update)
  have "encoder_inv (don @ [?item]) m' (fst st, snd st @ [streamed_call (concat ?ts) w]) s' (fold add_chunk (call_chunks s ?i w ?ts) v)"
    unfolding encoder_inv_def citations_snoc reasoning_snoc view
    using I(1) a(1) m' I(4,5,7,9,10) keys searches length_update_fresh [OF fresh]
    by (intro conjI) (simp_all add: s'_def searching_def settled_searches_def chatCompletionsCitationDropDecisions_def)
  with a(2) show ?thesis unfolding s'_def by blast
qed

lemma inv_search_call:
  assumes inv: "encoder_inv don m st s v" and wf: "tc_callID c \<noteq> []" "\<not> key_IsZero (tc_tool c)"
    and kind: "tk_kind (tc_tool c) = ToolKindWebSearch" "tc_input c = web_search_input x"
    and acc: "acceptCall (int (length don)) c m = Inr m'"
  shows "\<exists>s'. encode_pairs p marshal (live_item pieces (length don) (tool_call_item c)) s = Inr ([], s') \<and>
    encoder_inv (don @ [tool_call_item c]) m' st s' v"
proof -
  let ?item = "tool_call_item c" and ?n = "of_nat (length don) :: 32 word"
  note I = encoder_invD [OF inv]
  define s1 where "s1 = s\<lparr>en_pendingWebSearchCalls := AList.update (tc_callID c) ?n (en_pendingWebSearchCalls s)\<rparr>"
  have "encode_call_start p marshal (stream_event StreamEventItemStarted\<lparr>st_ItemKind := ItemKindToolCall,
      st_ItemID := item_id ?n, st_ItemOrdinal := ?n, st_ToolUseID := tc_callID c, st_Name := tk_name (tc_tool c),
      st_Namespace := tk_namespace (tc_tool c), st_ToolType := tk_kind (tc_tool c)\<rparr>) s = Inr ([], s1)"
    by (simp add: encode_call_start_def kind(1) kinds_lower stream_event_def s1_def)
  from encode_call_begin [OF I(2) wf this] obtain a1 where a1: "adapter_ready a1"
    "EncodeEnvelopeEvent p marshal (bare EventItemStart (item_event \<lparr>ie_item = ?n, ie_part = 0,
      ie_payload = Some (item_start (tool_call_start (tc_callID c) (tc_tool c)))\<rparr>)) s =
     Inr ([], s1\<lparr>en_adapter := a1\<rparr>)" by blast
  obtain a2 where a2: "adapter_ready a2" "EncodeEnvelopeEvent p marshal (bare EventItemCompleted (item_event
    \<lparr>ie_item = ?n, ie_part = 0, ie_payload = Some (item_completed ?item)\<rparr>)) (s1\<lparr>en_adapter := a1\<rparr>) =
    Inr ([], s1\<lparr>en_adapter := a2\<rparr>)"
    using encode_item_end [of "s1\<lparr>en_adapter := a1\<rparr>" ?item ?n "[]" "s1\<lparr>en_adapter := a1\<rparr>" p marshal] a1(1) kind(1)
    by (auto simp: encode_completed_item_def is_search_call_def)
  have m': "matcher_ok (don @ [?item]) m'" using call_matcher_ok [OF I(3) acc] .
  have searches: "searching m' (en_pendingWebSearchCalls s1)" "settled_searches m' = settled_searches m"
    using searching_call [OF acc, of "en_pendingWebSearchCalls s"] I(3,8) kind(1)
    by (simp_all add: matcher_ok_def searching_def s1_def)
  have "encoder_inv (don @ [?item]) m' st (s1\<lparr>en_adapter := a2\<rparr>) v"
    unfolding encoder_inv_def citations_snoc reasoning_snoc
    using I(1) a2(1) m' I(4,5,7,9,10) keys_grow [OF I(6), of ?item] searches
    by (intro conjI) (simp_all add: s1_def searching_def settled_searches_def chatCompletionsCitationDropDecisions_def)
  with a1(2) a2(2) kind(2) show ?thesis
    by (auto simp: live_item_def live_start_def item_ev_def)
qed

lemma inv_search_result:
  assumes inv: "encoder_inv don m st s v" and r: "is_search_result r"
    and acc: "acceptToolResult (int (length don)) r m = Inr (x, m')"
  shows "\<exists>s'. encode_pairs p marshal (live_item pieces (length don) (tool_result_item r)) s = Inr ([], s') \<and>
    encoder_inv (don @ [tool_result_item r]) m' st s' v"
proof -
  let ?item = "tool_result_item r" and ?n = "of_nat (length don) :: 32 word"
  note I = encoder_invD [OF inv]
  have "searching m (en_pendingWebSearchCalls s)" using I(8) by (simp add: searching_def)
  from searching_result [OF acc I(3) this r] obtain q where q:
    "map_of (en_pendingWebSearchCalls s) (tr_callID r) = Some q"
    "searching m' (AList.delete (tr_callID r) (en_pendingWebSearchCalls s))"
    "search_omission ` settled_searches m' = insert (omission ''response.items.kind'' (ResponseItemOccurrence q))
      (search_omission ` settled_searches m)" by blast
  define s1 where "s1 = s\<lparr>
    en_pendingWebSearchCalls := AList.delete (tr_callID r) (en_pendingWebSearchCalls s),
    en_changes := en_changes s @ [omission ''response.items.kind'' (ResponseItemOccurrence q)]\<rparr>"
  obtain a where a: "adapter_ready a" "EncodeEnvelopeEvent p marshal (bare EventItemCompleted (item_event
    \<lparr>ie_item = ?n, ie_part = 0, ie_payload = Some (item_completed ?item)\<rparr>)) s = Inr ([], s1\<lparr>en_adapter := a\<rparr>)"
    using encode_item_end [of s ?item ?n "[]" s1 p marshal] I(2) r q(1)
    by (auto simp: encode_completed_item_def is_search_call_def s1_def)
  have "Accept (int (length don)) ?item m = Inr (Some x, m')" using acc by simp
  then have m': "matcher_ok (don @ [?item]) m'" using Accept_matcher_ok [OF I(3)] by blast
  have "encoder_inv (don @ [?item]) m' st (s1\<lparr>en_adapter := a\<rparr>) v"
    unfolding encoder_inv_def citations_snoc reasoning_snoc
    using I(1) a(1) m' I(4,5,7,9,10) keys_grow [OF I(6), of ?item] q(2,3)
    by (intro conjI) (simp_all add: s1_def searching_def settled_searches_def chatCompletionsCitationDropDecisions_def)
  with a(2) show ?thesis
    by (auto simp: live_item_def live_start_def item_ev_def)
qed

section \<open>A whole response\<close>

text \<open>As the constructors build them: calls with their identities, and searches with search input.\<close>

fun chat_item :: "CanonicalItem \<Rightarrow> bool" where
  "chat_item (tool_call_item c) \<longleftrightarrow> tc_callID c \<noteq> [] \<and> \<not> key_IsZero (tc_tool c) \<and>
     (tk_kind (tc_tool c) = ToolKindWebSearch \<longrightarrow> (case tc_input c of web_search_input _ \<Rightarrow> True | _ \<Rightarrow> False))"
| "chat_item _ \<longleftrightarrow> True"

text \<open>The message of the items as they are streamed, one item at a time.\<close>

definition live_append ::
    "fragments \<Rightarrow> nat \<Rightarrow> CanonicalItem \<Rightarrow> string \<times> chatCompletionsResponseToolCallDTO list \<Rightarrow>
     go_error + string \<times> chatCompletionsResponseToolCallDTO list" where
  "live_append pieces n item st =
     (if search_item item then Inr st
      else case item of
        tool_call_item _ \<Rightarrow> and_then (chatToolCallFromOutputItem item) (\<lambda>w.
          Inr (fst st, snd st @ [streamed_call (concat (pieces n 0)) w]))
      | _ \<Rightarrow> message_append item st)"

fun live_message ::
    "fragments \<Rightarrow> nat \<Rightarrow> CanonicalItem list \<Rightarrow> string \<times> chatCompletionsResponseToolCallDTO list \<Rightarrow>
     go_error + string \<times> chatCompletionsResponseToolCallDTO list" where
  "live_message pieces n [] st = Inr st"
| "live_message pieces n (item # items) st =
     and_then (live_append pieces n item st) (live_message pieces (Suc n) items)"

lemma live_message_items:
  assumes "message_items (filter (\<lambda>x. \<not> search_item x) items) (body, ws) = Inr st'"
  shows "\<exists>body' us. st' = (body', ws @ us) \<and> length (streamed_inputs pieces n items) = length us \<and>
    live_message pieces n items (body, vs) =
      Inr (body', vs @ map2 streamed_call (streamed_inputs pieces n items) us)"
  using assms
proof (induction items arbitrary: n body ws vs)
  case (Cons item items)
  show ?case
  proof (cases "search_item item")
    case True
    then have "streamed_inputs pieces n (item # items) = streamed_inputs pieces (Suc n) items" by (cases item) auto
    then show ?thesis using Cons.IH [of body ws "Suc n" vs] Cons.prems True by (simp add: live_append_def)
  next
    case keep: False
    then obtain body1 ws1 where one: "message_append item (body, ws) = Inr (body1, ws1)"
      "message_items (filter (\<lambda>x. \<not> search_item x) items) (body1, ws1) = Inr st'"
      using Cons.prems by (auto simp: result_simps)
    show ?thesis
    proof (cases item)
      case (tool_call_item c)
      obtain w where w: "chatToolCallFromOutputItem item = Inr w" "body1 = body" "ws1 = ws @ [w]"
        using one(1) tool_call_item by (auto simp: message_append_def result_simps)
      have "streamed_inputs pieces n (item # items) = concat (pieces n 0) # streamed_inputs pieces (Suc n) items"
        using keep tool_call_item by simp
      then show ?thesis
        using Cons.IH [OF one(2), of "Suc n" "vs @ [streamed_call (concat (pieces n 0)) w]"] w keep tool_call_item
        by (auto simp: live_append_def)
    qed (use one Cons.IH [OF one(2), of "Suc n" vs] keep in
        \<open>auto simp: live_append_def message_append_def result_simps split: if_splits\<close>)
  qed
qed simp

lemma inv_item:
  assumes marsh: "\<And>d. marshal d = Some (enc d)" and inv: "encoder_inv don m st s v"
    and len: "length don < 2 ^ 32" and wf: "chat_item item"
    and app: "live_append pieces (length don) item st = Inr st'" and pieces: "texts_whole pieces (length don) [item]"
    and acc: "Accept (int (length don)) item m = Inr (x, m')"
  shows "\<exists>ds s'. encode_pairs p marshal (live_item pieces (length don) item) s = Inr (chunk_frames enc ds, s') \<and>
    encoder_inv (don @ [item]) m' st' s' (fold add_chunk ds v)"
proof (cases item)
  case (message_item mi)
  have "m' = m" using acc message_item by simp
  then show ?thesis
    using inv_message [where marshal = marshal and enc = enc and p = p, OF marsh inv] app pieces message_item
    by (simp add: live_append_def)
next
  case (reasoning_item ri)
  have "m' = m" "st' = st" using acc app reasoning_item by (cases st; simp add: live_append_def message_append_def)+
  then show ?thesis
    using inv_reasoning [OF inv, of p marshal pieces ri enc] reasoning_item
    by (metis (no_types, lifting) fold_simps(1))
next
  case (tool_call_item c)
  have a: "acceptCall (int (length don)) c m = Inr m'" using acc tool_call_item by (auto simp: result_simps)
  have w: "tc_callID c \<noteq> []" "\<not> key_IsZero (tc_tool c)" using wf tool_call_item by simp_all
  show ?thesis
  proof (cases "tk_kind (tc_tool c) = ToolKindWebSearch")
    case True
    then obtain y where y: "tc_input c = web_search_input y"
      using wf tool_call_item by (cases "tc_input c") auto
    have "st' = st" using app True tool_call_item by (simp add: live_append_def)
    with inv_search_call [OF inv w True y a, of p marshal pieces] tool_call_item show ?thesis
      by (intro exI [of _ "[]"]) (simp add: chunk_frames_def)
  next
    case False
    then obtain w' where w': "chatToolCallFromOutputItem (tool_call_item c) = Inr w'"
      "st' = (fst st, snd st @ [streamed_call (concat (pieces (length don) 0)) w'])"
      using app tool_call_item by (auto simp: live_append_def result_simps)
    then show ?thesis
      using inv_call [where marshal = marshal and enc = enc and p = p and pieces = pieces, OF marsh inv len w w'(1) a]
        tool_call_item by simp
  qed
next
  case (tool_result_item r)
  have search: "is_search_result r" "st' = st"
    using app tool_result_item by (cases st; auto simp: live_append_def message_append_def split: if_splits)+
  obtain y where "acceptToolResult (int (length don)) r m = Inr (y, m')"
    using acc tool_result_item by (auto simp: result_simps)
  from inv_search_result [OF inv search(1) this, of p marshal pieces] search(2) tool_result_item show ?thesis
    by (intro exI [of _ "[]"]) (simp add: chunk_frames_def)
qed (use app in \<open>cases st; simp add: live_append_def message_append_def\<close>)+

lemma inv_items:
  assumes marsh: "\<And>d. marshal d = Some (enc d)"
  shows "encoder_inv don m st s v \<Longrightarrow> length (don @ items) < 2 ^ 32 \<Longrightarrow> list_all chat_item items \<Longrightarrow>
    texts_whole pieces (length don) items \<Longrightarrow> live_message pieces (length don) items st = Inr st' \<Longrightarrow>
    accept_items (length don) items m = Inr m' \<Longrightarrow>
    \<exists>ds s'. encode_pairs p marshal (live_items pieces (length don) items) s = Inr (chunk_frames enc ds, s') \<and>
      encoder_inv (don @ items) m' st' s' (fold add_chunk ds v)"
proof (induction items arbitrary: don m st s v)
  case Nil
  then show ?case by (intro exI [of _ "[]"] exI [of _ s]) (simp add: chunk_frames_def)
next
  case (Cons item items)
  obtain x m1 where acc: "Accept (int (length don)) item m = Inr (x, m1)"
    "accept_items (Suc (length don)) items m1 = Inr m'" using Cons.prems(6) by (auto simp: result_simps)
  obtain st1 where st1: "live_append pieces (length don) item st = Inr st1"
    "live_message pieces (Suc (length don)) items st1 = Inr st'"
    using Cons.prems(5) by (auto simp: result_simps)
  have pieces: "texts_whole pieces (length don) [item]" "texts_whole pieces (length (don @ [item])) items"
    using Cons.prems(4) by simp_all
  have len: "length don < 2 ^ 32" using Cons.prems(2) by simp
  obtain d1 s1 where one: "encode_pairs p marshal (live_item pieces (length don) item) s = Inr (chunk_frames enc d1, s1)"
    "encoder_inv (don @ [item]) m1 st1 s1 (fold add_chunk d1 v)"
    using inv_item [where marshal = marshal and enc = enc and p = p, OF marsh Cons.prems(1) len _ st1(1) pieces(1) acc(1)] Cons.prems(3)
    by auto
  obtain d2 s2 where two: "encode_pairs p marshal (live_items pieces (Suc (length don)) items) s1 = Inr (chunk_frames enc d2, s2)"
    "encoder_inv (don @ item # items) m' st' s2 (fold add_chunk d2 (fold add_chunk d1 v))"
    using Cons.IH [OF one(2) _ _ pieces(2)] st1(2) Cons.prems(2,3) acc(2) by auto
  show ?case
    using one(1) two
    by (intro exI [of _ "d1 @ d2"] exI [of _ s2]) (simp add: encode_pairs_append chunk_frames_def)
qed

text \<open>What no event after the start changes.\<close>

definition same_identity ::
    "chatCompletionsEnvelopeStreamEncoder \<Rightarrow> chatCompletionsEnvelopeStreamEncoder \<Rightarrow> bool" where
  "same_identity s s' \<longleftrightarrow> en_resultID s' = en_resultID s \<and> en_model s' = en_model s \<and>
     en_includeUsageFrame s' = en_includeUsageFrame s \<and> en_started s'"

lemma Encode_identity:
  assumes "Encode p marshal e s = Inr (out, s')" and "en_started s" and "st_Kind e \<notin> {StreamEventStarted, StreamEventCompleted}"
  shows "same_identity s s' \<and> en_adapter s' = en_adapter s"
proof (cases "st_Kind e")
  case StreamEventItemCompleted
  then show ?thesis
    using assms by (cases "st_CompletedItem e")
      (auto simp: Encode_def encode_completed_item_def same_identity_def Let_def
        split: if_splits option.splits CanonicalItem.splits)
qed (use assms in \<open>auto simp: Encode_def encode_item_started_def encode_call_start_def encode_text_def
    encode_text_chunk_def encode_args_def encode_args_chunk_def with_state_def same_identity_def Let_def
    early_return split: if_splits option.splits\<close>)

lemma encode_all_identity:
  "encode_all p marshal es s = Inr (out, s') \<Longrightarrow> en_started s \<Longrightarrow>
   list_all (\<lambda>e. st_Kind e \<notin> {StreamEventStarted, StreamEventCompleted}) es \<Longrightarrow>
   same_identity s s' \<and> en_adapter s' = en_adapter s"
proof (induction es arbitrary: s out)
  case (Cons e es)
  then obtain o1 s1 o2 where "Encode p marshal e s = Inr (o1, s1)" "encode_all p marshal es s1 = Inr (o2, s')"
    by (auto simp: result_simps)
  with Cons Encode_identity [of p marshal e s o1 s1] show ?case by (auto simp: same_identity_def)
qed (simp add: same_identity_def)

lemma Translate_item_started:
  assumes "Translate e a = Inr (out, a')" and "ad_started a" and "ad_responseOpen a"
    and "ev_Kind e \<in> {EventItemStart, EventContentStart, EventTextDelta, EventArgsDelta, EventItemCompleted}"
  shows "ad_started a' \<and> ad_responseOpen a' \<and> list_all (\<lambda>e. st_Kind e \<notin> {StreamEventStarted, StreamEventCompleted}) out"
proof -
  have "ensureStarted a = ([], a)" using assms(2) by (simp add: ensureStarted_def)
  then show ?thesis
    using assms
    by (cases "ev_Payload e") (auto simp: Translate_def translateItemStart_def translateContentStart_def
        translateTextDelta_def translateArgsDelta_def translateItemCompleted_def positioned_def
        stream_event_def Let_def split: if_splits option.splits ItemEventPayload.splits ItemStartPayload.splits)
qed

definition item_kind :: "EventKind \<Rightarrow> bool" where
  "item_kind kind \<longleftrightarrow> kind \<in> {EventItemStart, EventContentStart, EventTextDelta, EventArgsDelta, EventItemCompleted}"

lemma live_parts_kinds: "(kind, payload) \<in> set (live_parts pieces n k parts) \<Longrightarrow> kind = EventContentStart \<or> kind = EventTextDelta"
  by (induction pieces n k parts rule: live_parts.induct) (auto simp: item_ev_def split: option.splits)

lemma live_start_kinds:
  assumes "(kind, payload) \<in> set (live_start pieces n item)"
  shows "item_kind kind \<and> kind \<noteq> EventItemCompleted"
  using assms live_parts_kinds
  by (fastforce simp: live_start_def item_ev_def item_kind_def split: CanonicalItem.splits ToolInput.splits)

lemma live_items_kinds: "list_all (\<lambda>(kind, _). item_kind kind) (live_items pieces n items)"
proof (induction pieces n items rule: live_items.induct)
  case (2 pieces n item items)
  have "list_all (\<lambda>(kind, _). item_kind kind) (live_start pieces n item)"
    using live_start_kinds by (auto simp: list_all_iff)
  then show ?case using 2 by (simp add: live_item_def item_ev_def item_kind_def)
qed simp

lemma encode_pairs_identity:
  "encode_pairs p marshal evs s = Inr (out, s') \<Longrightarrow> en_started s \<Longrightarrow> ad_started (en_adapter s) \<Longrightarrow>
   ad_responseOpen (en_adapter s) \<Longrightarrow> list_all (\<lambda>(kind, _). item_kind kind) evs \<Longrightarrow> same_identity s s'"
proof (induction evs arbitrary: s out)
  case (Cons ev evs)
  then obtain kind payload where ev: "ev = (kind, payload)" by (cases ev)
  obtain o1 s1 o2 where step: "EncodeEnvelopeEvent p marshal (bare kind payload) s = Inr (o1, s1)"
    "encode_pairs p marshal evs s1 = Inr (o2, s')" using Cons.prems(1) ev by (auto simp: result_simps)
  obtain es a where tr: "Translate (bare kind payload) (en_adapter s) = Inr (es, a)"
    "encode_all p marshal es (s\<lparr>en_adapter := a\<rparr>) = Inr (o1, s1)"
    using step(1) by (auto simp: EncodeEnvelopeEvent_def result_simps)
  have kind: "kind \<in> {EventItemStart, EventContentStart, EventTextDelta, EventArgsDelta, EventItemCompleted}"
    using Cons.prems(5) ev by (simp add: item_kind_def)
  have a: "ad_started a" "ad_responseOpen a" "list_all (\<lambda>e. st_Kind e \<notin> {StreamEventStarted, StreamEventCompleted}) es"
    using Translate_item_started [OF tr(1)] Cons.prems(3,4) kind by (simp_all add: bare_def)
  have "same_identity (s\<lparr>en_adapter := a\<rparr>) s1 \<and> en_adapter s1 = a"
    using encode_all_identity [OF tr(2) _ a(3)] Cons.prems(2) by simp
  then show ?case using Cons.IH [OF step(2)] Cons.prems(5) a by (simp add: same_identity_def)
qed (simp add: same_identity_def)

text \<open>The opening and the closing of a synthesised stream.\<close>

lemma encode_opening:
  assumes marsh: "\<And>d. marshal d = Some (enc d)" and id: "\<not> responseID_IsZero (rr_SwobuID ref)"
  shows "\<exists>d s. encode_pairs p marshal [(EventEnvelopeStart, envelope_start EnvResponse model),
      (EventResponseIdentity, response_identity ref)] (newStreamState inc) = Inr (chunk_frames enc [d], s) \<and>
    encoder_inv [] newMatcher ([], []) s (read_chunks [d]) \<and>
    en_resultID s = rr_SwobuID ref \<and> en_model s = model \<and> en_includeUsageFrame s = inc"
proof -
  have nz: "rr_SwobuID ref \<noteq> []" "FallbackID (rr_SwobuID ref) ''chatcmpl_swobu'' = rr_SwobuID ref"
    using id by (auto simp: responseID_IsZero_def FallbackID_def TrimSpace_solid)
  define a where "a = NewEnvelopeEventAdapter\<lparr>ad_model := model, ad_responseOpen := True,
    ad_resultID := rr_SwobuID ref, ad_started := True\<rparr>"
  define s where "s = (newStreamState inc)\<lparr>en_resultID := rr_SwobuID ref, en_model := model, en_started := True,
    en_adapter := a\<rparr>"
  define d where "d = plain_chunk s (zeroDelta\<lparr>dl_Role := ''assistant''\<rparr>)"
  have "encode_pairs p marshal [(EventEnvelopeStart, envelope_start EnvResponse model),
      (EventResponseIdentity, response_identity ref)] (newStreamState inc) = Inr (chunk_frames enc [d], s)"
    using nz marsh
    by (simp add: EncodeEnvelopeEvent_def bare_def Translate_def translateEnvelopeStart_def
        translateResponseIdentity_def ensureStarted_def NewEnvelopeEventAdapter_def newStreamState_def
        Encode_def stream_event_def with_state_def started_state_def encode_started_def encodeChunk_def
        chunk_frames_def d_def plain_chunk_def stream_response_def s_def a_def)
  moreover have "encoder_inv [] newMatcher ([], []) s (read_chunks [d])"
    using nz new_matcher_ok
    by (simp add: encoder_inv_def adapter_ready_def s_def a_def newStreamState_def NewEnvelopeEventAdapter_def
        newMatcher_def chatItemsContainReasoning_def read_chunks_def d_def plain_chunk_def stream_response_def
        add_chunk_def add_choice_def empty_view_def zeroDelta_def Let_def)
  ultimately show ?thesis by (intro exI [of _ d] exI [of _ s]) (simp add: s_def newStreamState_def)
qed

lemma encode_closing:
  assumes marsh: "\<And>d. marshal d = Some (enc d)" and ready: "adapter_ready (en_adapter s)"
    and idle: "en_pendingWebSearchCalls s = []"
    and fin: "chatClientFinishReason completion (en_toolByID s \<noteq> []) = Inr reason"
    and vis: "finalizeChatClientProjection (en_sawReasoning s) (en_sawVisibleOutput s) reason = (decisions, None)"
  shows "\<exists>ds s'. encode_pairs p marshal [(EventUsage, usage_payload usage), (EventFinish, finish_payload completion),
      (EventEnvelopeEnd, envelope_end EnvResponse EnvelopeStatusCompleted)] s =
      Inr (chunk_frames enc ds @ [done_frame], s') \<and> en_changes s' = en_changes s @ decisions \<and>
    fold add_chunk ds v = v\<lparr>cv_ID := FallbackID (en_resultID s) ''chatcmpl_swobu'', cv_Model := en_model s,
      cv_Finish := Some reason,
      cv_Usage := (case (if en_includeUsageFrame s then chatUsageFromCanonical usage else None) of
        None \<Rightarrow> cv_Usage v | Some u \<Rightarrow> Some u)\<rparr>"
proof -
  define a where "a = (en_adapter s)\<lparr>ad_usage := usage, ad_completion := completion, ad_completed := True\<rparr>"
  define s' where "s' = s\<lparr>en_adapter := a, en_changes := en_changes s @ decisions\<rparr>"
  let ?u = "if en_includeUsageFrame s then chatUsageFromCanonical usage else None"
  define ds where "ds = stream_response s [\<lparr>sh_Index = 0, sh_Delta = zeroDelta, sh_FinishReason = Some reason\<rparr>] None #
    (case ?u of None \<Rightarrow> [] | Some u \<Rightarrow> [stream_response s [] (Some u)])"
  have sr: "stream_response s' = stream_response s"
    by (rule stream_response_cong) (simp_all add: s'_def)
  have "encode_pairs p marshal [(EventUsage, usage_payload usage), (EventFinish, finish_payload completion),
      (EventEnvelopeEnd, envelope_end EnvResponse EnvelopeStatusCompleted)] s =
      and_then (encode_completed marshal ((stream_event StreamEventCompleted)\<lparr>st_ResultID := ad_resultID (en_adapter s),
        st_Model := ad_model (en_adapter s), st_Completion := completion, st_Usage := usage\<rparr>) (s\<lparr>en_adapter := a\<rparr>)) Inr"
    using ready
    by (simp add: EncodeEnvelopeEvent_def bare_def Translate_def translateUsage_def translateFinish_def
        translateEnvelopeEnd_def ensureStarted_def adapter_ready_def Encode_def stream_event_def a_def Let_def)
      (simp add: and_then_def split: sum.split)
  also have "\<dots> = Inr (chunk_frames enc ds @ [done_frame], s')"
    using idle fin vis marsh
    by (simp add: encode_completed_def stream_event_def encodeChunk_def encodeUsageChunk_def chunk_frames_def
        ds_def sr [symmetric] s'_def Let_def split: option.split)
  finally show ?thesis
    by (intro exI [of _ ds] exI [of _ s']) (cases v; cases "cv_Message v"; simp add: s'_def ds_def stream_response_def
        add_chunk_def add_choice_def zeroDelta_def Let_def split: option.split)
qed

lemma reasoning_kept: "chatItemsContainReasoning (filter (\<lambda>x. \<not> search_item x) items) = chatItemsContainReasoning items"
proof -
  have "\<not> search_item x" if "item_Kind x = ItemKindReasoning" for x using that by (cases x) auto
  then show ?thesis by (auto simp: chatItemsContainReasoning_def list_ex_iff)
qed

lemma no_search_left:
  assumes inv: "encoder_inv items m st s v"
    and settled: "\<forall>e \<in> set (em_effects m). search_effect e \<longrightarrow> 0 \<le> te_ResultIndex e"
  shows "en_pendingWebSearchCalls s = []"
proof -
  note I = encoder_invD [OF inv]
  have "map_of (en_pendingWebSearchCalls s) i = None" for i
  proof (rule ccontr)
    assume "map_of (en_pendingWebSearchCalls s) i \<noteq> None"
    then obtain k where k: "map_of (em_pending m) i = Some k" "search_effect (em_effects m ! k)" using I(8) by blast
    then have "k < length (em_effects m)" "te_ResultIndex (em_effects m ! k) = -1"
      using I(3) by (simp_all add: matcher_ok_def pending_ok_def)
    with settled k(2) show False using nth_mem by fastforce
  qed
  then have "map_of (en_pendingWebSearchCalls s) = Map.empty" by blast
  then show ?thesis by simp
qed

text \<open>A document that could be projected, taken apart.\<close>

lemma project_document_ok:
  assumes "project_document errtext output = Inr (kept, doc, changes)"
  obtains changes1 st reason decisions where
    "projectChatCompletionsWebSearchLifecycles errtext (cr_items output) = Inr (kept, changes1)"
    "message_items kept ([], []) = Inr st"
    "chatClientFinishReason (cr_completion output) (snd st \<noteq> []) = Inr reason"
    "finalizeChatClientProjection (chatItemsContainReasoning kept) (fst st \<noteq> [] \<or> snd st \<noteq> []) reason = (decisions, None)"
    "doc = buffered_response output \<lparr>rm_Role = ''assistant'', rm_Content = fst st, rm_ToolCalls = snd st\<rparr> reason"
    "changes = changes1 @ decisions"
proof -
  obtain items1 changes1 where p: "projectChatCompletionsWebSearchLifecycles errtext (cr_items output) = Inr (items1, changes1)"
    using assms by (cases "projectChatCompletionsWebSearchLifecycles errtext (cr_items output)")
      (auto simp: project_document_def)
  obtain st where st: "message_items items1 ([], []) = Inr st"
    using assms by (cases "message_items items1 ([], [])") (auto simp: project_document_def p chatMessageFromItems_def)
  define message where "message = \<lparr>rm_Role = ''assistant'', rm_Content = fst st, rm_ToolCalls = snd st\<rparr>"
  have msg: "chatMessageFromItems items1 = Inr message"
    by (simp add: chatMessageFromItems_def st message_def split: prod.split)
  obtain reason where reason: "chatClientFinishReason (cr_completion output) (snd st \<noteq> []) = Inr reason"
    using assms by (cases "chatClientFinishReason (cr_completion output) (snd st \<noteq> [])")
      (auto simp: project_document_def p msg message_def)
  obtain decisions e where d: "finalizeChatClientProjection (chatItemsContainReasoning items1)
      (fst st \<noteq> [] \<or> snd st \<noteq> []) reason = (decisions, e)" by (meson surj_pair)
  have "e = None" "kept = items1" "doc = buffered_response output message reason" "changes = changes1 @ decisions"
    using assms d by (cases e; simp add: project_document_def p msg message_def reason)+
  with p st reason d that show ?thesis unfolding message_def by blast
qed

text \<open>The run of the stream encoder over the events of a response the document encoder accepts.\<close>

lemma chat_stream_run:
  assumes resp: "NewCanonicalResponse ref model items completion usage = Inr response"
    and wf: "list_all chat_item items" and len: "length items < 2 ^ 32"
    and doc: "project_document errtext response = Inr (kept, doc, changes)"
    and marsh: "\<And>d. marshal d = Some (enc d)"
    and es: "map event_content es = live_events pieces ref model items completion usage" and pieces: "texts_whole pieces 0 items"
  shows "\<exists>ds s message' reason. encode_stream p marshal es (newStreamState inc) =
      Inr (chunk_frames enc ds @ [done_frame], s) \<and>
    bd_Choices doc = [\<lparr>bh_Index = 0, bh_Message = message', bh_FinishReason = reason\<rparr>] \<and>
    length (streamed_inputs pieces 0 items) = length (rm_ToolCalls message') \<and>
    read_chunks ds = \<lparr>cv_ID = bd_ID doc, cv_Model = bd_Model doc,
      cv_Message = streamed_message (streamed_inputs pieces 0 items) message', cv_Finish = Some reason,
      cv_Usage = (if inc then bd_Usage doc else None)\<rparr> \<and>
    set (en_changes s) = set changes"
proof -
  obtain g where g: "\<not> responseID_IsZero (rr_SwobuID ref)" "validate_response_items 0 items newMatcher = Inr g"
    using resp by (rule NewCanonicalResponse_ok)
  have r: "response = \<lparr>cr_response = ref, cr_model = model, cr_items = items, cr_completion = completion, cr_usage = usage\<rparr>"
    using resp by (auto simp: NewCanonicalResponse_def result_simps split: if_splits)
  have fields: "cr_items response = items" "cr_completion response = completion" by (simp_all add: r)
  obtain changes1 st reason decisions where D0:
    "projectChatCompletionsWebSearchLifecycles errtext (cr_items response) = Inr (kept, changes1)"
    "message_items kept ([], []) = Inr st" "chatClientFinishReason (cr_completion response) (snd st \<noteq> []) = Inr reason"
    "finalizeChatClientProjection (chatItemsContainReasoning kept) (fst st \<noteq> [] \<or> snd st \<noteq> []) reason = (decisions, None)"
    "doc = buffered_response response \<lparr>rm_Role = ''assistant'', rm_Content = fst st, rm_ToolCalls = snd st\<rparr> reason"
    "changes = changes1 @ decisions"
    by (rule project_document_ok [OF doc])
  note D = D0 [unfolded fields]
  obtain m where m: "accept_items 0 items newMatcher = Inr m" "matcher_ok items m"
    "\<forall>e \<in> set (em_effects m). search_effect e \<longrightarrow> 0 \<le> te_ResultIndex e"
    "kept = filter (\<lambda>x. \<not> search_item x) items"
    "set changes1 = search_omission ` {e \<in> set (em_effects m). search_effect e} \<union>
      (\<Union>i < length items. set (chatCompletionsCitationDropDecisions (of_nat i) (items ! i)))"
    using D(1) by (rule project_lifecycles_ok)
  obtain d0 s0 where o: "encode_pairs p marshal [(EventEnvelopeStart, envelope_start EnvResponse model),
      (EventResponseIdentity, response_identity ref)] (newStreamState inc) = Inr (chunk_frames enc [d0], s0)"
    "encoder_inv [] newMatcher ([], []) s0 (read_chunks [d0])"
    "en_resultID s0 = rr_SwobuID ref" "en_model s0 = model" "en_includeUsageFrame s0 = inc"
    using encode_opening [where marshal = marshal and enc = enc, OF marsh g(1)] by metis
  obtain body calls where st: "st = (body, calls)" by (cases st)
  let ?calls = "map2 streamed_call (streamed_inputs pieces 0 items) calls"
  have lm: "length (streamed_inputs pieces 0 items) = length calls"
    "live_message pieces 0 items ([], []) = Inr (body, ?calls)"
    using live_message_items [of items "[]" "[]" st pieces 0 "[]"] D(2) m(4) st by auto
  obtain ds1 s1 where b: "encode_pairs p marshal (live_items pieces 0 items) s0 = Inr (chunk_frames enc ds1, s1)"
    "encoder_inv items m (body, ?calls) s1 (fold add_chunk ds1 (read_chunks [d0]))"
    using inv_items [where marshal = marshal and enc = enc and p = p and st' = "(body, ?calls)" and m' = m
      and pieces = pieces, OF marsh o(2) _ wf] lm(2) pieces m(1) len by auto
  note I = encoder_invD [OF b(2)]
  have same: "same_identity s0 s1"
    using encode_pairs_identity [OF b(1)] live_items_kinds encoder_invD [OF o(2)] by (simp add: adapter_ready_def)
  have calls: "(en_toolByID s1 \<noteq> []) = (calls \<noteq> [])" "(?calls \<noteq> []) = (calls \<noteq> [])"
    using I(5) lm(1) by (auto simp flip: length_greater_0_conv)
  have fin: "chatClientFinishReason completion (en_toolByID s1 \<noteq> []) = Inr reason" using D(3) st by (simp add: calls)
  have vis: "finalizeChatClientProjection (en_sawReasoning s1) (en_sawVisibleOutput s1) reason = (decisions, None)"
    using D(4) unfolding I(7,9) m(4) reasoning_kept 
    by (simp only: st calls(2) fst_conv snd_conv)
  from encode_closing [where marshal = marshal and enc = enc and p = p and usage = usage
      and v = "fold add_chunk ds1 (read_chunks [d0])", OF marsh I(2) no_search_left [OF b(2) m(3)] fin vis]
  obtain ds2 s2 where c: "encode_pairs p marshal [(EventUsage, usage_payload usage),
      (EventFinish, finish_payload completion), (EventEnvelopeEnd, envelope_end EnvResponse EnvelopeStatusCompleted)] s1 =
      Inr (chunk_frames enc ds2 @ [done_frame], s2)" "en_changes s2 = en_changes s1 @ decisions"
    "fold add_chunk ds2 (fold add_chunk ds1 (read_chunks [d0])) = (fold add_chunk ds1 (read_chunks [d0]))\<lparr>
      cv_ID := FallbackID (en_resultID s1) ''chatcmpl_swobu'', cv_Model := en_model s1, cv_Finish := Some reason,
      cv_Usage := (case (if en_includeUsageFrame s1 then chatUsageFromCanonical usage else None) of
        None \<Rightarrow> cv_Usage (fold add_chunk ds1 (read_chunks [d0])) | Some u \<Rightarrow> Some u)\<rparr>"
    by blast
  let ?ds = "d0 # ds1 @ ds2"
  have run: "encode_stream p marshal es (newStreamState inc) = Inr (chunk_frames enc ?ds @ [done_frame], s2)"
    unfolding encode_content es live_events_def
    using o(1) b(1) c(1) by (simp only: encode_pairs_append and_then_Inr split_conv) (simp add: chunk_frames_def)
  have "read_chunks ?ds = fold add_chunk ds2 (fold add_chunk ds1 (read_chunks [d0]))" by (simp add: read_chunks_def)
  also have "\<dots> = \<lparr>cv_ID = FallbackID (rr_SwobuID ref) ''chatcmpl_swobu'', cv_Model = model,
      cv_Message = \<lparr>rm_Role = ''assistant'', rm_Content = body, rm_ToolCalls = ?calls\<rparr>,
      cv_Finish = Some reason, cv_Usage = (if inc then chatUsageFromCanonical usage else None)\<rparr>"
    unfolding c(3) unfolding I(4) using same o(3-5) by (simp add: same_identity_def split: option.split)
  finally have view: "read_chunks ?ds = \<dots>" .
  have changes: "set (en_changes s2) = set changes"
  proof -
    have "{e \<in> set (em_effects m). search_effect e \<and> te_ResultIndex e \<noteq> -1} = {e \<in> set (em_effects m). search_effect e}"
      using m(3) by fastforce
    then show ?thesis using c(2) I(10) m(5) D(6) by simp
  qed
  let ?message = "\<lparr>rm_Role = ''assistant'', rm_Content = body, rm_ToolCalls = calls\<rparr>"
  have "bd_ID doc = FallbackID (rr_SwobuID ref) ''chatcmpl_swobu'' \<and> bd_Model doc = model \<and>
      bd_Usage doc = chatUsageFromCanonical usage \<and>
      bd_Choices doc = [\<lparr>bh_Index = 0, bh_Message = ?message, bh_FinishReason = reason\<rparr>]"
    by (simp add: D(5) buffered_response_def r st)
  moreover have "streamed_message (streamed_inputs pieces 0 items) ?message =
      \<lparr>rm_Role = ''assistant'', rm_Content = body, rm_ToolCalls = ?calls\<rparr>" by (simp add: streamed_message_def)
  ultimately show ?thesis
    using run changes view lm(1)
    by (intro exI [of _ ?ds] exI [of _ s2] exI [of _ ?message] exI [of _ reason]) simp
qed

text \<open>Inputs that are streamed as the document has them leave its message as it is.\<close>

lemma streamed_call_own: "streamed_call (call_input w) w = w"
  if "rt_Function w = None \<or> rt_Custom w = None"
  using that by (cases w; cases "rt_Function w"; cases "rt_Custom w") (simp_all add: streamed_call_def call_input_def)

lemma streamed_message_own:
  assumes "ts = map call_input (rm_ToolCalls message')"
    and "list_all (\<lambda>w. rt_Function w = None \<or> rt_Custom w = None) (rm_ToolCalls message')"
  shows "streamed_message ts message' = message'"
proof -
  have "map2 streamed_call (map call_input ws) ws = ws"
    if "list_all (\<lambda>w. rt_Function w = None \<or> rt_Custom w = None) ws" for ws
    using that by (induction ws) (simp_all add: streamed_call_own)
  then show ?thesis using assms by (simp add: streamed_message_def)
qed

lemma document_calls_single:
  assumes "message_items items (body, ws) = Inr (body', ws')"
    and "list_all (\<lambda>w. rt_Function w = None \<or> rt_Custom w = None) ws"
  shows "list_all (\<lambda>w. rt_Function w = None \<or> rt_Custom w = None) ws'"
  using assms
proof (induction items arbitrary: body ws)
  case (Cons item items)
  then obtain body1 ws1 where one: "message_append item (body, ws) = Inr (body1, ws1)"
    "message_items items (body1, ws1) = Inr (body', ws')" by (auto simp: result_simps)
  have "list_all (\<lambda>w. rt_Function w = None \<or> rt_Custom w = None) ws1"
    using one(1) Cons.prems(2)
    by (auto simp: message_append_def result_simps chatToolCallFromOutputItem_def
        split: CanonicalItem.splits if_splits ToolInput.splits)
  then show ?case using Cons.IH one(2) by blast
qed simp

lemma document_message_single:
  assumes "project_document errtext response = Inr (kept, doc, changes)"
    and "bd_Choices doc = [\<lparr>bh_Index = 0, bh_Message = message', bh_FinishReason = reason\<rparr>]"
  shows "list_all (\<lambda>w. rt_Function w = None \<or> rt_Custom w = None) (rm_ToolCalls message')"
proof -
  obtain changes1 st reason' decisions where "message_items kept ([], []) = Inr st"
    "doc = buffered_response response \<lparr>rm_Role = ''assistant'', rm_Content = fst st, rm_ToolCalls = snd st\<rparr> reason'"
    by (rule project_document_ok [OF assms(1)]) (rule that)
  then show ?thesis
    using document_calls_single [of kept "[]" "[]" "fst st" "snd st"] assms(2) by (auto simp: buffered_response_def)
qed

text \<open>
  C16: streaming and buffered Chat Completions clients are sent the same completion, up to the
  spelling of call inputs. Let a valid response, with calls as their constructors build them, be one
  that the document encoder can represent, and let its completed stream come in the order of
  \<^verbatim>\<open>SynthesizeResponseEnvelopeEvents\<close> (which is also the order of the reader of Chat Completions
  provider streams), with the text of every part and the input of every call in any number of
  pieces; the pieces of a text add up to it. With a marshaller that never fails, the stream encoder
  accepts the events; its frames are chunks followed by the end marker. The chunks, accumulated as a
  client does, give the identifier, the model, the finish reason and the message of the document,
  except that each call carries its input as it was streamed; they give the usage of the document
  when the usage frame is asked for and none otherwise. Both encoders record the same compatibility
  decisions. When every input was streamed as the document spells it, the message is the message of
  the document; a provider that orders the keys of its arguments otherwise gets them through to a
  streaming client unchanged, while the document has them canonical.
\<close>

theorem chat_stream_matches_document:
  assumes resp: "NewCanonicalResponse ref model items completion usage = Inr response"
    and wf: "list_all chat_item items" and len: "length items < 2 ^ 32"
    and doc: "project_document errtext response = Inr (kept, doc, changes)"
    and marsh: "\<And>d. marshal d = Some (enc d)"
    and es: "map event_content es = live_events pieces ref model items completion usage" and pieces: "texts_whole pieces 0 items"
  shows "\<exists>ds s message' reason. encode_stream p marshal es (newStreamState inc) =
      Inr (chunk_frames enc ds @ [done_frame], s) \<and>
    bd_Choices doc = [\<lparr>bh_Index = 0, bh_Message = message', bh_FinishReason = reason\<rparr>] \<and>
    read_chunks ds = \<lparr>cv_ID = bd_ID doc, cv_Model = bd_Model doc,
      cv_Message = streamed_message (streamed_inputs pieces 0 items) message', cv_Finish = Some reason,
      cv_Usage = (if inc then bd_Usage doc else None)\<rparr> \<and>
    (streamed_inputs pieces 0 items = map call_input (rm_ToolCalls message') \<longrightarrow>
       cv_Message (read_chunks ds) = message') \<and>
    set (en_changes s) = set changes"
proof -
  obtain ds s message' reason where r: "encode_stream p marshal es (newStreamState inc) =
      Inr (chunk_frames enc ds @ [done_frame], s)"
    and c: "bd_Choices doc = [\<lparr>bh_Index = 0, bh_Message = message', bh_FinishReason = reason\<rparr>]"
    and v: "read_chunks ds = \<lparr>cv_ID = bd_ID doc, cv_Model = bd_Model doc,
      cv_Message = streamed_message (streamed_inputs pieces 0 items) message', cv_Finish = Some reason,
      cv_Usage = (if inc then bd_Usage doc else None)\<rparr>"
    and ch: "set (en_changes s) = set changes"
    using chat_stream_run [where marshal = marshal and p = p and inc = inc, OF resp wf len doc marsh es pieces] by metis
  have "streamed_message (streamed_inputs pieces 0 items) message' = message'"
    if "streamed_inputs pieces 0 items = map call_input (rm_ToolCalls message')"
    using streamed_message_own [OF that document_message_single [OF doc c]] .
  with r c v ch show ?thesis by (metis chat_view.select_convs(3))
qed

text \<open>
  The events that \<^verbatim>\<open>SynthesizeResponseEnvelopeEvents\<close> makes of a response carry every text and every
  input in one piece, as the document has them: a client of a synthesised stream (of a provider that
  answered with a document, or of a response that was held back for the rounds of the broker) gets
  exactly the message of the document.
\<close>

fun whole_pieces :: "CanonicalItem \<Rightarrow> nat \<Rightarrow> string list" where
  "whole_pieces (message_item m) k =
     (if k < length (mi_content m) then (case part_Text (mi_content m ! k) of Some t \<Rightarrow> [t] | None \<Rightarrow> []) else [])"
| "whole_pieces (tool_call_item c) k =
     (case tc_input c of object_input t \<Rightarrow> [t] | text_input t \<Rightarrow> [t] | _ \<Rightarrow> [])"
| "whole_pieces _ k = []"

definition in_one_piece :: "CanonicalItem list \<Rightarrow> fragments" where
  "in_one_piece items n k = (if n < length items then whole_pieces (items ! n) k else [])"

lemma part_events_live:
  assumes "\<forall>i < length parts. pieces n (k + i) = (case part_Text (parts ! i) of Some t \<Rightarrow> [t] | None \<Rightarrow> [])"
  shows "live_parts pieces n k parts = part_events n k parts \<and> texts_cut pieces n k parts"
  using assms
proof (induction parts arbitrary: k)
  case (Cons part parts)
  have "\<forall>i < length parts. pieces n (Suc k + i) = (case part_Text (parts ! i) of Some t \<Rightarrow> [t] | None \<Rightarrow> [])"
    using Cons.prems by auto
  then have "live_parts pieces n (Suc k) parts = part_events n (Suc k) parts \<and> texts_cut pieces n (Suc k) parts"
    by (rule Cons.IH)
  moreover have "pieces n k = (case part_Text part of Some t \<Rightarrow> [t] | None \<Rightarrow> [])" using Cons.prems by force
  ultimately show ?case by (auto split: option.split)
qed simp

lemma item_events_live:
  assumes "pieces n = whole_pieces item" and "validateResponseItem item = Inr ()"
  shows "live_item pieces n item = item_events n item \<and> texts_whole pieces n [item]"
proof (cases item)
  case (message_item m)
  then show ?thesis
    using part_events_live [of "mi_content m" pieces n 0] assms(1)
    by (simp add: live_item_def live_start_def item_events_def start_events_def)
next
  case (tool_call_item c)
  then show ?thesis
    using assms(1)
    by (simp add: live_item_def live_start_def item_events_def start_events_def split: ToolInput.split)
qed (use assms in \<open>simp_all add: live_item_def live_start_def item_events_def start_events_def validateResponseItem_def\<close>)

lemma items_events_live:
  assumes "\<forall>i < length items. pieces (n + i) = whole_pieces (items ! i)"
    and "list_all (\<lambda>i. validateResponseItem i = Inr ()) items"
  shows "live_items pieces n items = items_events n items \<and> texts_whole pieces n items"
  using assms
proof (induction items arbitrary: n)
  case (Cons item items)
  have "\<forall>i < length items. pieces (Suc n + i) = whole_pieces (items ! i)" using Cons.prems(1) by auto
  then have "live_items pieces (Suc n) items = items_events (Suc n) items \<and> texts_whole pieces (Suc n) items"
    using Cons.IH Cons.prems(2) by simp
  moreover have "pieces n = whole_pieces item" using Cons.prems(1) by force
  then have "live_item pieces n item = item_events n item \<and> texts_whole pieces n [item]"
    using item_events_live Cons.prems(2) by simp
  ultimately show ?case by simp
qed simp

lemma synthesised_live:
  assumes "NewCanonicalResponse ref model items completion usage = Inr response"
  shows "map event_content (SynthesizeResponseEnvelopeEvents x ref model items completion usage) =
      live_events (in_one_piece items) ref model items completion usage"
    and "texts_whole (in_one_piece items) 0 items"
proof -
  obtain g where "validate_response_items 0 items newMatcher = Inr g"
    using assms by (rule NewCanonicalResponse_ok)
  then have "list_all (\<lambda>i. validateResponseItem i = Inr ()) items" by (rule validate_response_items_sound)
  then have "live_items (in_one_piece items) 0 items = items_events 0 items \<and> texts_whole (in_one_piece items) 0 items"
    by (intro items_events_live) (auto simp: in_one_piece_def fun_eq_iff)
  then show "map event_content (SynthesizeResponseEnvelopeEvents x ref model items completion usage) =
      live_events (in_one_piece items) ref model items completion usage"
    and "texts_whole (in_one_piece items) 0 items"
    by (simp_all add: SynthesizeResponseEnvelopeEvents_def response_events_def live_events_def)
qed

lemma inputs_whole:
  assumes "message_items (filter (\<lambda>x. \<not> search_item x) items) (body, ws) = Inr (body', ws')"
    and "\<forall>i < length items. pieces (n + i) = whole_pieces (items ! i)"
  shows "\<exists>us. ws' = ws @ us \<and> streamed_inputs pieces n items = map call_input us"
  using assms
proof (induction items arbitrary: n body ws)
  case (Cons item items)
  have rest: "\<forall>i < length items. pieces (Suc n + i) = whole_pieces (items ! i)" using Cons.prems(2) by auto
  have own: "pieces n = whole_pieces item" using Cons.prems(2) by force
  show ?case
  proof (cases "search_item item")
    case True
    then have "streamed_inputs pieces n (item # items) = streamed_inputs pieces (Suc n) items" by (cases item) auto
    then show ?thesis using Cons.IH [OF _ rest] Cons.prems(1) True by simp
  next
    case keep: False
    then obtain body1 ws1 where one: "message_append item (body, ws) = Inr (body1, ws1)"
      "message_items (filter (\<lambda>x. \<not> search_item x) items) (body1, ws1) = Inr (body', ws')"
      using Cons.prems(1) by (auto simp: result_simps)
    obtain us where us: "ws' = ws1 @ us" "streamed_inputs pieces (Suc n) items = map call_input us"
      using Cons.IH [OF one(2) rest] by blast
    show ?thesis
    proof (cases item)
      case (tool_call_item c)
      obtain w where w: "chatToolCallFromOutputItem item = Inr w" "ws1 = ws @ [w]"
        using one(1) tool_call_item by (auto simp: message_append_def result_simps)
      have "call_input w = concat (pieces n 0)"
        using w(1) own tool_call_item
        by (auto simp: chatToolCallFromOutputItem_def call_input_def split: if_splits ToolInput.splits)
      then show ?thesis using us w(2) keep tool_call_item by simp
    qed (use one(1) us in \<open>auto simp: message_append_def result_simps split: if_splits\<close>)
  qed
qed simp

lemma synthesised_inputs:
  assumes resp: "NewCanonicalResponse ref model items completion usage = Inr response"
    and doc: "project_document errtext response = Inr (kept, doc, changes)"
    and choice: "bd_Choices doc = [\<lparr>bh_Index = 0, bh_Message = message', bh_FinishReason = reason\<rparr>]"
  shows "streamed_inputs (in_one_piece items) 0 items = map call_input (rm_ToolCalls message')"
proof -
  have items: "cr_items response = items"
    using resp by (auto simp: NewCanonicalResponse_def result_simps split: if_splits)
  obtain changes1 st reason' decisions where d:
    "projectChatCompletionsWebSearchLifecycles errtext (cr_items response) = Inr (kept, changes1)"
    "message_items kept ([], []) = Inr st"
    "doc = buffered_response response \<lparr>rm_Role = ''assistant'', rm_Content = fst st, rm_ToolCalls = snd st\<rparr> reason'"
    by (rule project_document_ok [OF doc]) (rule that)
  have "kept = filter (\<lambda>x. \<not> search_item x) items"
    using project_lifecycles_ok [OF d(1)] items by metis
  then obtain us where "snd st = us" "streamed_inputs (in_one_piece items) 0 items = map call_input us"
    using inputs_whole [of items "[]" "[]" "fst st" "snd st" "in_one_piece items" 0] d(2)
    by (auto simp: in_one_piece_def fun_eq_iff)
  moreover have "rm_ToolCalls message' = snd st" using d(3) choice by (auto simp: buffered_response_def)
  ultimately show ?thesis by simp
qed

lemma synthesised_stream_matches:
  assumes resp: "NewCanonicalResponse ref model items completion usage = Inr response"
    and wf: "list_all chat_item items" and len: "length items < 2 ^ 32"
    and doc: "project_document errtext response = Inr (kept, doc, changes)"
    and marsh: "\<And>d. marshal d = Some (enc d)"
  shows "\<exists>ds s reason. encode_stream p marshal (SynthesizeResponseEnvelopeEvents x ref model items completion usage)
      (newStreamState inc) = Inr (chunk_frames enc ds @ [done_frame], s) \<and>
    bd_Choices doc = [\<lparr>bh_Index = 0, bh_Message = cv_Message (read_chunks ds), bh_FinishReason = reason\<rparr>] \<and>
    cv_Finish (read_chunks ds) = Some reason \<and> set (en_changes s) = set changes"
proof -
  obtain ds s message' reason where r: "encode_stream p marshal
      (SynthesizeResponseEnvelopeEvents x ref model items completion usage) (newStreamState inc) =
        Inr (chunk_frames enc ds @ [done_frame], s)"
    and c: "bd_Choices doc = [\<lparr>bh_Index = 0, bh_Message = message', bh_FinishReason = reason\<rparr>]"
    and v: "read_chunks ds = \<lparr>cv_ID = bd_ID doc, cv_Model = bd_Model doc,
      cv_Message = streamed_message (streamed_inputs (in_one_piece items) 0 items) message', cv_Finish = Some reason,
      cv_Usage = (if inc then bd_Usage doc else None)\<rparr>"
    and ch: "set (en_changes s) = set changes"
    using chat_stream_run [where marshal = marshal and p = p and inc = inc,
      OF resp wf len doc marsh synthesised_live(1) [OF resp, of x] synthesised_live(2) [OF resp]] by metis
  have "streamed_message (streamed_inputs (in_one_piece items) 0 items) message' = message'"
    using streamed_message_own [OF synthesised_inputs [OF resp doc c] document_message_single [OF doc c]] .
  with r c v ch show ?thesis by (metis chat_view.select_convs(3,4))
qed

section \<open>Examples\<close>

definition chat_platform :: platform where
  "chat_platform = \<lparr>unicode_lower = (\<lambda>s. s), url_Parse = (\<lambda>_. None), filepath_IsAbs = (\<lambda>_. False)\<rparr>"

definition chat_sample_items :: "CanonicalItem list" where
  "chat_sample_items = [sample_search_call, sample_search_result, sample_message, sample_call ''a'']"

definition chat_sample_response :: CanonicalResponse where
  "chat_sample_response = \<lparr>cr_response = sample_ref, cr_model = ''gpt'', cr_items = chat_sample_items,
     cr_completion = sample_completion, cr_usage = NewUnknownTokenUsage\<rparr>"

definition chat_sample_message :: chatCompletionsResponseMessageDTO where
  "chat_sample_message = \<lparr>rm_Role = ''assistant'', rm_Content = ''helloworld'',
     rm_ToolCalls = [\<lparr>rt_ID = ''a'', rt_Type = ''function'',
       rt_Function = Some \<lparr>fn_Name = ''f'', fn_Arguments = ''{}''\<rparr>, rt_Custom = None\<rparr>]\<rparr>"

lemma chat_sample_ok:
  "NewCanonicalResponse sample_ref ''gpt'' chat_sample_items sample_completion NewUnknownTokenUsage =
     Inr chat_sample_response"
  "list_all chat_item chat_sample_items"
  "map_sum (\<lambda>_. ()) (\<lambda>(kept, doc, changes). bd_Choices doc) (project_document (\<lambda>_. []) chat_sample_response) =
     Inr [\<lparr>bh_Index = 0, bh_Message = chat_sample_message, bh_FinishReason = ''tool_calls''\<rparr>]"
  by code_simp+

text \<open>
  A live stream of this response: the text in three pieces, and the arguments of the call with a
  space that the canonical object has not.
\<close>

definition live_sample_pieces :: fragments where
  "live_sample_pieces n k = (if n = 2 then (if k = 0 then [''he'', ''llo''] else [''world'']) else [''{'', '' }''])"

definition live_sample :: "Event list" where
  "live_sample = map (\<lambda>(kind, payload). bare kind payload)
     (live_events live_sample_pieces sample_ref ''gpt'' chat_sample_items sample_completion NewUnknownTokenUsage)"

lemma live_sample_ok:
  "map event_content live_sample =
     live_events live_sample_pieces sample_ref ''gpt'' chat_sample_items sample_completion NewUnknownTokenUsage"
  "texts_whole live_sample_pieces 0 chat_sample_items"
  "streamed_inputs live_sample_pieces 0 chat_sample_items = [''{ }'']"
proof -
  show "map event_content live_sample =
     live_events live_sample_pieces sample_ref ''gpt'' chat_sample_items sample_completion NewUnknownTokenUsage"
    by (simp add: live_sample_def bare_def case_prod_beta comp_def)
qed code_simp+

theorem chat_stream_matches_document_witness:
  "\<exists>ds s. encode_stream chat_platform (\<lambda>d. Some ''{}'') live_sample (newStreamState True) =
     Inr (chunk_frames (\<lambda>d. ''{}'') ds @ [done_frame], s) \<and>
   cv_Message (read_chunks ds) = streamed_message [''{ }''] chat_sample_message \<and>
   cv_Finish (read_chunks ds) = Some ''tool_calls''"
proof -
  obtain kept doc changes where doc: "project_document (\<lambda>_. []) chat_sample_response = Inr (kept, doc, changes)"
    "bd_Choices doc = [\<lparr>bh_Index = 0, bh_Message = chat_sample_message, bh_FinishReason = ''tool_calls''\<rparr>]"
    using chat_sample_ok(3) by (cases "project_document (\<lambda>_. []) chat_sample_response") auto
  have "length chat_sample_items < 2 ^ 32" by (simp add: chat_sample_items_def)
  from chat_stream_matches_document [where marshal = "\<lambda>d. Some ''{}''" and enc = "\<lambda>d. ''{}''" and p = chat_platform
      and inc = True, OF chat_sample_ok(1,2) this doc(1) refl live_sample_ok(1,2)] doc(2) live_sample_ok(3)
  show ?thesis by fastforce
qed

text \<open>The client of this stream sees the arguments of the provider, not those of the document.\<close>

lemma live_arguments_differ: "streamed_message [''{ }''] chat_sample_message \<noteq> chat_sample_message"
  by (simp add: streamed_message_def streamed_call_def chat_sample_message_def)

text \<open>
  The two encoders do not refuse the same responses: a response that only searched and was then
  declined is refused by the document encoder, since nothing is left after the projection, while the
  stream encoder ends it with \<^verbatim>\<open>content_filter\<close>.
\<close>

lemma declined_search_differs:
  "is_ok (encode_stream chat_platform (\<lambda>d. Some ''{}'') (SynthesizeResponseEnvelopeEvents ''x'' sample_ref ''gpt''
     [sample_search_call, sample_search_result] \<lparr>cmp_class = CompletionDeclined, cmp_reason = ''refusal''\<rparr>
     NewUnknownTokenUsage) (newStreamState True)) \<and>
   \<not> is_ok (project_document (\<lambda>_. []) (chat_sample_response\<lparr>cr_items := [sample_search_call, sample_search_result],
     cr_completion := \<lparr>cmp_class = CompletionDeclined, cmp_reason = ''refusal''\<rparr>\<rparr>))"
  by code_simp

end
