(* ===== verification/Chat_History.thy ===== *)
theory Chat_History
  imports Chat_Equivalence
begin

text \<open>
  \<^verbatim>\<open>wire/chatcompletions/history_fingerprint.go\<close>: how a conversation that a Chat Completions client
  repeats in full is recognised. Completed turns are folded into a history fingerprint; the
  response encoders fingerprint the assistant message a client will append. The calls of
  \<^verbatim>\<open>encoding/json\<close> and SHA-256 are the parameter \<open>j\<close>.
\<close>

section \<open>Messages\<close>

record chatCompletionsToolFunctionDTO =
  tf_Name :: string
  tf_Arguments :: string

record chatCompletionsToolCallDTO =
  td_ID :: string
  td_Type :: string
  td_Function :: "chatCompletionsToolFunctionDTO option"
  td_Custom :: "chatCompletionsResponseCustomDTO option"

record chatCompletionsMessageDTO =
  cq_Role :: string
  cq_Content :: string
  cq_ToolCalls :: "chatCompletionsToolCallDTO list"
  cq_ToolCallID :: string

record chatCompletionsHistoryMessageDTO =
  ch_Role :: string
  ch_Content :: string
  ch_ToolCalls :: "chatCompletionsToolCallDTO list"
  ch_ToolCallID :: string

record chatCompletionsHistoryResult =
  hr_previous :: "History option"
  hr_request :: RequestLeaf
  hr_current :: "chatCompletionsMessageDTO list"

record history_json =
  hj_messages :: "chatCompletionsHistoryMessageDTO list \<Rightarrow> go_error + string"
  hj_string :: "string \<Rightarrow> go_error + string"
  hj_read_parts :: "string \<Rightarrow> go_error + string list"
  hj_parts :: "string list \<Rightarrow> go_error + string"
  hj_read_object :: "string \<Rightarrow> go_error + (string \<times> string) list"
  hj_object :: "(string \<times> string) list \<Rightarrow> go_error + string"
  hj_decodes :: "string \<Rightarrow> (go_error + json) list"
  hj_hash :: "string \<Rightarrow> string"

definition fingerprintScheme :: Scheme where "fingerprintScheme = ''chat-completions/v1''"

definition normalize_part :: "history_json \<Rightarrow> string \<Rightarrow> go_error + string" where
  "normalize_part j raw =
     (let part = TrimSpace raw
      in if part = [] \<or> hd part \<noteq> CHR ''{'' then Inr raw
         else and_then (hj_read_object j part) (\<lambda>object.
           hj_object j (AList.delete ''prompt_cache_breakpoint'' object)))"

definition normalizeChatHistoryContent :: "history_json \<Rightarrow> string \<Rightarrow> go_error + string" where
  "normalizeChatHistoryContent j raw =
     (let trimmed = TrimSpace raw
      in if trimmed = [] \<or> hd trimmed \<noteq> CHR ''['' then Inr raw
         else and_then (hj_read_parts j trimmed) (\<lambda>parts.
           and_then (map_result (normalize_part j) parts) (hj_parts j)))"

definition chatHistoryMessageFromRequest ::
    "history_json \<Rightarrow> chatCompletionsMessageDTO \<Rightarrow> go_error + chatCompletionsHistoryMessageDTO" where
  "chatHistoryMessageFromRequest j message' =
     and_then (normalizeChatHistoryContent j (cq_Content message')) (\<lambda>content.
       Inr \<lparr>ch_Role = cq_Role message', ch_Content = content, ch_ToolCalls = cq_ToolCalls message',
         ch_ToolCallID = cq_ToolCallID message'\<rparr>)"

definition history_material ::
    "history_json \<Rightarrow> chatCompletionsHistoryMessageDTO list \<Rightarrow> go_error + string" where
  "history_material j history = and_then (hj_messages j history) (FrameJSONValue (hj_decodes j))"

definition fingerprintChatCompletionsRequest ::
    "history_json \<Rightarrow> chatCompletionsMessageDTO list \<Rightarrow> go_error + RequestLeaf" where
  "fingerprintChatCompletionsRequest j messages =
     and_then (map_result (chatHistoryMessageFromRequest j) messages) (\<lambda>history.
     and_then (history_material j history) (\<lambda>material.
       FingerprintRequest (hj_hash j) fingerprintScheme material))"

definition fingerprintChatCompletionsResponseMessages ::
    "history_json \<Rightarrow> chatCompletionsMessageDTO list \<Rightarrow> go_error + ResponseLeaf" where
  "fingerprintChatCompletionsResponseMessages j messages =
     and_then (map_result (chatHistoryMessageFromRequest j) messages) (\<lambda>history.
     and_then (history_material j history) (\<lambda>material.
       FingerprintResponse (hj_hash j) fingerprintScheme material))"

section \<open>The turns of a conversation\<close>

definition leading_role :: "chatCompletionsMessageDTO \<Rightarrow> bool" where
  "leading_role message' \<longleftrightarrow> TrimSpace (cq_Role message') \<in> {''system'', ''developer''}"

definition chatCompletionsLeadingContextEnd :: "chatCompletionsMessageDTO list \<Rightarrow> nat" where
  "chatCompletionsLeadingContextEnd messages = length (takeWhile leading_role messages)"

definition assistant_role :: "chatCompletionsMessageDTO \<Rightarrow> bool" where
  "assistant_role message' \<longleftrightarrow> TrimSpace (cq_Role message') = ''assistant''"

text \<open>
  The loop over the messages after the leading context. \<open>pending\<close> are the messages since the last
  completed turn; the last message never completes one.
\<close>

fun history_turns ::
    "history_json \<Rightarrow> History option \<Rightarrow> chatCompletionsMessageDTO list \<Rightarrow> chatCompletionsMessageDTO list \<Rightarrow>
     go_error + History option \<times> chatCompletionsMessageDTO list" where
  "history_turns j previous pending [] = Inr (previous, pending)"
| "history_turns j previous pending (message' # rest) =
     (if rest = [] \<or> \<not> assistant_role message'
      then history_turns j previous (pending @ [message']) rest
      else and_then (fingerprintChatCompletionsRequest j pending) (\<lambda>request.
        and_then (fingerprintChatCompletionsResponseMessages j [message']) (\<lambda>response.
        and_then (Advance (hj_hash j) previous request response) (\<lambda>history.
          history_turns j (Some history) [] rest))))"

definition fingerprintChatCompletionsHistory ::
    "history_json \<Rightarrow> chatCompletionsMessageDTO list \<Rightarrow> go_error + chatCompletionsHistoryResult" where
  "fingerprintChatCompletionsHistory j messages =
     (let contextEnd = chatCompletionsLeadingContextEnd messages
      in and_then (history_turns j None [] (drop contextEnd messages)) (\<lambda>(previous, pending).
         and_then (fingerprintChatCompletionsRequest j pending) (\<lambda>current.
           Inr \<lparr>hr_previous = previous, hr_request = current,
             hr_current = take contextEnd messages @ pending\<rparr>)))"

section \<open>The response\<close>

record chatCompletionsResponseHistoryState =
  hx_text :: string
  hx_toolCalls :: "chatCompletionsToolCallDTO list"

definition history_call ::
    "history_json \<Rightarrow> chatCompletionsResponseToolCallDTO \<Rightarrow> go_error + chatCompletionsToolCallDTO" where
  "history_call j call =
     and_then (case rt_Function call of
         None \<Rightarrow> Inr None
       | Some f \<Rightarrow> and_then (hj_string j (fn_Arguments f)) (\<lambda>arguments.
           Inr (Some \<lparr>tf_Name = fn_Name f, tf_Arguments = arguments\<rparr>))) (\<lambda>function'.
       Inr \<lparr>td_ID = rt_ID call, td_Type = rt_Type call, td_Function = function',
         td_Custom = rt_Custom call\<rparr>)"

definition history_appendItem ::
    "history_json \<Rightarrow> CanonicalItem \<Rightarrow> chatCompletionsResponseHistoryState \<Rightarrow>
     go_error + chatCompletionsResponseHistoryState" where
  "history_appendItem j item s =
     (case item of
        message_item m \<Rightarrow>
          if mi_role m \<noteq> MessageRoleAssistant
          then Inl (canonical_InternalError
            ''canonical response contains a non-assistant Chat Completions output message'')
          else and_then (chatClientTextContent (mi_content m) ''chat completions responses'')
            (\<lambda>content. Inr (s\<lparr>hx_text := hx_text s @ content\<rparr>))
      | tool_call_item _ \<Rightarrow>
          and_then (chatToolCallFromOutputItem item) (\<lambda>call.
          and_then (history_call j call) (\<lambda>converted.
            Inr (s\<lparr>hx_toolCalls := hx_toolCalls s @ [converted]\<rparr>)))
      | reasoning_item _ \<Rightarrow> Inr s
      | _ \<Rightarrow> Inl (canonical_InternalError
          ''Chat Completions response history received an unsupported canonical item kind''))"

definition history_content ::
    "history_json \<Rightarrow> chatCompletionsResponseHistoryState \<Rightarrow> go_error + string" where
  "history_content j s =
     (if hx_text s \<noteq> [] then hj_string j (hx_text s)
      else Inr (if hx_toolCalls s \<noteq> [] then ''null'' else []))"

definition history_fingerprint ::
    "history_json \<Rightarrow> chatCompletionsResponseHistoryState \<Rightarrow> go_error + ResponseLeaf" where
  "history_fingerprint j s =
     and_then (history_content j s) (\<lambda>content.
     and_then (history_material j [\<lparr>ch_Role = ''assistant'', ch_Content = content,
         ch_ToolCalls = hx_toolCalls s, ch_ToolCallID = []\<rparr>]) (\<lambda>material.
       FingerprintResponse (hj_hash j) fingerprintScheme material))"

fun history_items ::
    "history_json \<Rightarrow> CanonicalItem list \<Rightarrow> chatCompletionsResponseHistoryState \<Rightarrow>
     go_error + chatCompletionsResponseHistoryState" where
  "history_items j [] s = Inr s"
| "history_items j (item # items) s = and_then (history_appendItem j item s) (history_items j items)"

definition fingerprintChatCompletionsResponseItems ::
    "history_json \<Rightarrow> CanonicalItem list \<Rightarrow> go_error + ResponseLeaf" where
  "fingerprintChatCompletionsResponseItems j items =
     and_then (history_items j items \<lparr>hx_text = [], hx_toolCalls = []\<rparr>) (history_fingerprint j)"

definition fingerprintChatCompletionsResponse ::
    "history_json \<Rightarrow> CanonicalResponse \<Rightarrow> go_error + ResponseLeaf" where
  "fingerprintChatCompletionsResponse j output = fingerprintChatCompletionsResponseItems j (cr_items output)"

section \<open>The encoders with their fingerprints\<close>

definition EncodeResponseDocument ::
    "history_json \<Rightarrow> (go_error \<Rightarrow> string) \<Rightarrow> (chatCompletionsResponseDTO \<Rightarrow> go_error + string) \<Rightarrow> CanonicalResponse \<Rightarrow>
     go_error + string \<times> Change list \<times> ResponseLeaf" where
  "EncodeResponseDocument j errtext marshal output =
     and_then (project_document errtext output) (\<lambda>(items, document, changes).
     and_then (fingerprintChatCompletionsResponseItems j items) (\<lambda>leaf.
     and_then (marshal document) (\<lambda>raw. Inr (raw, changes, leaf))))"

datatype completion_call = complete_call ResponseLeaf "Change list" | fail_call go_error

record fingerprinting =
  fe_encoder :: chatCompletionsEnvelopeStreamEncoder
  fe_completedItems :: "CanonicalItem list"
  fe_calls :: "completion_call list"

definition newFingerprinting :: "bool \<Rightarrow> fingerprinting" where
  "newFingerprinting includeUsageFrame =
     \<lparr>fe_encoder = newStreamState includeUsageFrame, fe_completedItems = [], fe_calls = []\<rparr>"

definition chatCompletionsResponseTerminalStatus :: "Event \<Rightarrow> string option" where
  "chatCompletionsResponseTerminalStatus event =
     (if ev_Kind event \<noteq> EventEnvelopeEnd then None
      else case ev_Payload event of
        envelope_end kind status \<Rightarrow> if kind = EnvResponse then Some status else None
      | _ \<Rightarrow> None)"

definition completed_payload :: "Event \<Rightarrow> CanonicalItem option" where
  "completed_payload event =
     (case ev_Payload event of
        item_event ie \<Rightarrow> (case ie_payload ie of Some (item_completed item) \<Rightarrow> Some item | _ \<Rightarrow> None)
      | _ \<Rightarrow> None)"

type_synonym fingerprinted = "go_error \<times> completion_call list + string list \<times> fingerprinting"

definition fingerprint_terminal ::
    "history_json \<Rightarrow> (go_error \<Rightarrow> string) \<Rightarrow> string \<Rightarrow> string list \<Rightarrow> fingerprinting \<Rightarrow> fingerprinted" where
  "fingerprint_terminal j errtext status encoded f =
     (if status \<noteq> EnvelopeStatusCompleted
      then Inr (encoded, f\<lparr>fe_calls := fe_calls f @
        [fail_call (Errorf ''chat completions response did not complete successfully'' [])]\<rparr>)
      else case projectChatCompletionsWebSearchLifecycles errtext (fe_completedItems f) of
        Inl e \<Rightarrow> Inl (e, fe_calls f @ [fail_call e])
      | Inr (projected, _) \<Rightarrow>
          (case fingerprintChatCompletionsResponseItems j projected of
             Inl e \<Rightarrow> Inr (encoded, f\<lparr>fe_calls := fe_calls f @ [fail_call e]\<rparr>)
           | Inr leaf \<Rightarrow> Inr (encoded, f\<lparr>fe_calls := fe_calls f @
               [complete_call leaf (en_changes (fe_encoder f))]\<rparr>)))"

definition chatCompletionsFingerprintingEncoder ::
    "history_json \<Rightarrow> (go_error \<Rightarrow> string) \<Rightarrow> platform \<Rightarrow> marshaller \<Rightarrow> Event \<Rightarrow> fingerprinting \<Rightarrow> fingerprinted" where
  "chatCompletionsFingerprintingEncoder j errtext p marshal event f =
     (case EncodeEnvelopeEvent p marshal event (fe_encoder f) of
        Inl e \<Rightarrow> Inl (e, fe_calls f @ [fail_call e])
      | Inr (encoded, s) \<Rightarrow>
          (let f = f\<lparr>fe_encoder := s\<rparr>;
               invalid = Errorf ''chat completions item completion payload is invalid'' []
           in if ev_Kind event = EventItemCompleted \<and> completed_payload event = None
              then Inl (invalid, fe_calls f @ [fail_call invalid])
              else let f = (if ev_Kind event = EventItemCompleted
                     then f\<lparr>fe_completedItems := fe_completedItems f @ [the (completed_payload event)]\<rparr> else f)
                in case chatCompletionsResponseTerminalStatus event of
                     None \<Rightarrow> Inr (encoded, f)
                   | Some status \<Rightarrow> fingerprint_terminal j errtext status encoded f))"

fun fingerprint_stream ::
    "history_json \<Rightarrow> (go_error \<Rightarrow> string) \<Rightarrow> platform \<Rightarrow> marshaller \<Rightarrow> Event list \<Rightarrow> fingerprinting \<Rightarrow> fingerprinted" where
  "fingerprint_stream j errtext p marshal [] f = Inr ([], f)"
| "fingerprint_stream j errtext p marshal (e # es) f =
     (case chatCompletionsFingerprintingEncoder j errtext p marshal e f of
        Inl failure \<Rightarrow> Inl failure
      | Inr (out, f) \<Rightarrow>
          (case fingerprint_stream j errtext p marshal es f of
             Inl failure \<Rightarrow> Inl failure
           | Inr (rest, f) \<Rightarrow> Inr (out @ rest, f)))"

section \<open>A client that repeats the conversation\<close>

text \<open>
  The message a client appends after a response: the assistant message of the document, as it is
  decoded again from the client's next request. The text and the arguments are JSON strings; a
  message with calls and no text has the content null.
\<close>

definition echoed :: "history_json \<Rightarrow> chatCompletionsResponseMessageDTO \<Rightarrow> go_error + chatCompletionsMessageDTO" where
  "echoed j message' =
     and_then (map_result (history_call j) (rm_ToolCalls message')) (\<lambda>calls.
     and_then (if rm_Content message' \<noteq> [] then hj_string j (rm_Content message')
               else Inr (if calls \<noteq> [] then ''null'' else [])) (\<lambda>content.
       Inr \<lparr>cq_Role = rm_Role message', cq_Content = content, cq_ToolCalls = calls, cq_ToolCallID = []\<rparr>))"

lemma map_result_snoc:
  "map_result f (xs @ [x]) = and_then (map_result f xs) (\<lambda>ys. and_then (f x) (\<lambda>y. Inr (ys @ [y])))"
  by (induction xs) (auto simp: and_then_def split: sum.splits)

lemma history_items_message:
  assumes "history_items j items s = Inr s'" and "message_items items st = Inr st'"
    and "hx_text s = fst st" and "map_result (history_call j) (snd st) = Inr (hx_toolCalls s)"
  shows "hx_text s' = fst st' \<and> map_result (history_call j) (snd st') = Inr (hx_toolCalls s')"
  using assms
proof (induction items arbitrary: s st)
  case (Cons item items)
  obtain s1 st1 where s1: "history_appendItem j item s = Inr s1" "history_items j items s1 = Inr s'"
    and st1: "message_append item st = Inr st1" "message_items items st1 = Inr st'"
    using Cons.prems(1,2) by (auto simp: result_simps)
  have "hx_text s1 = fst st1 \<and> map_result (history_call j) (snd st1) = Inr (hx_toolCalls s1)"
    using s1(1) st1(1) Cons.prems(3,4)
    by (cases item)
      (auto simp: history_appendItem_def message_append_def result_simps map_result_snoc
        split: prod.splits if_splits)
  then show ?case using Cons.IH [OF s1(2) st1(2)] by simp
qed auto

lemma normalize_scalar:
  assumes "raw = [] \<or> solid_char (hd raw) \<and> solid_char (last raw) \<and> hd raw \<noteq> CHR ''[''"
  shows "normalizeChatHistoryContent j raw = Inr raw"
  using assms by (auto simp: normalizeChatHistoryContent_def TrimSpace_solid)

lemma assistant_echo: "echoed j message' = Inr m \<Longrightarrow> cq_Role m = rm_Role message'"
  by (auto simp: echoed_def result_simps)

text \<open>The fingerprint of the items is the fingerprint of the message the client sends back.\<close>

lemma echo_fingerprint:
  assumes quoted: "\<And>s raw. hj_string j s = Inr raw \<Longrightarrow> \<exists>body. raw = CHR 0x22 # body @ [CHR 0x22]"
    and "chatMessageFromItems items = Inr message'" and "echoed j message' = Inr m"
    and "fingerprintChatCompletionsResponseItems j items = Inr leaf"
  shows "fingerprintChatCompletionsResponseMessages j [m] = Inr leaf"
proof -
  obtain st where st: "message_items items ([], []) = Inr st"
    and message': "message' = \<lparr>rm_Role = ''assistant'', rm_Content = fst st, rm_ToolCalls = snd st\<rparr>"
    using assms(2) by (auto simp: chatMessageFromItems_def result_simps)
  obtain s where s: "history_items j items \<lparr>hx_text = [], hx_toolCalls = []\<rparr> = Inr s"
    and leaf: "history_fingerprint j s = Inr leaf"
    using assms(4) by (auto simp: fingerprintChatCompletionsResponseItems_def result_simps)
  have same: "hx_text s = fst st" "map_result (history_call j) (snd st) = Inr (hx_toolCalls s)"
    using history_items_message [OF s st] by simp_all
  obtain content where c: "history_content j s = Inr content"
    using leaf by (auto simp: history_fingerprint_def result_simps)
  have m: "m = \<lparr>cq_Role = ''assistant'', cq_Content = content, cq_ToolCalls = hx_toolCalls s, cq_ToolCallID = []\<rparr>"
    using assms(3) message' same c by (auto simp: echoed_def history_content_def result_simps split: if_splits)
  have "normalizeChatHistoryContent j content = Inr content"
  proof (rule normalize_scalar)
    show "content = [] \<or> solid_char (hd content) \<and> solid_char (last content) \<and> hd content \<noteq> CHR ''[''"
      using c quoted
      by (fastforce simp: history_content_def solid_char_def ascii_char_def ascii_space_def split: if_splits)
  qed
  then show ?thesis using leaf c m
    by (simp add: fingerprintChatCompletionsResponseMessages_def chatHistoryMessageFromRequest_def
        history_fingerprint_def)
qed

text \<open>Messages after a conversation that does not end in an assistant message.\<close>

lemma history_turns_append:
  assumes "history_turns j previous pending es = Inr (previous', pending')"
    and "es = [] \<or> \<not> assistant_role (last es)" and "rest \<noteq> []"
  shows "history_turns j previous pending (es @ rest) = history_turns j previous' pending' rest"
  using assms
proof (induction es arbitrary: previous pending)
  case (Cons m es)
  then show ?case by (cases "es = []") (auto simp: result_simps split: if_splits)
qed simp

lemma history_turns_open:
  assumes "list_all (\<lambda>m. \<not> assistant_role m) (butlast es)"
  shows "history_turns j previous pending es = Inr (previous, pending @ es)"
  using assms by (induction es arbitrary: pending) (auto split: if_splits)

lemma leading_context_append:
  assumes "\<not> leading_role m"
  shows "chatCompletionsLeadingContextEnd (es @ m # new) = chatCompletionsLeadingContextEnd es"
  using assms by (induction es) (auto simp: chatCompletionsLeadingContextEnd_def)

lemma echo_roles: "cq_Role m = ''assistant'' \<Longrightarrow> assistant_role m \<and> \<not> leading_role m"
proof -
  have "TrimSpace ''assistant'' = ''assistant''"
    by (rule TrimSpace_solid) (simp add: solid_char_def ascii_char_def ascii_space_def)
  then show "cq_Role m = ''assistant'' \<Longrightarrow> assistant_role m \<and> \<not> leading_role m"
    by (simp add: assistant_role_def leading_role_def)
qed

text \<open>
  C18: a client that repeats the conversation exactly is recognised. The encoder records a response
  under the history that advances the history of the request by its own fingerprint. Suppose the
  client sends its messages again, then an assistant message that is byte for byte the message of
  the document (\<open>echoed\<close>: its content and arguments as marshalled by the server), then new messages.
  If the earlier messages do not end in an assistant message, which the code takes for a prefill, if
  there is at least one new message, and if none of them but possibly the last is an assistant message,
  decoding finds exactly this history as the completed part, and only the new messages, with the
  leading instructions, remain as the current turn. A client that was streamed the inputs of calls in
  another spelling than the canonical one (\<open>streamed_message\<close>) and repeats that spelling is not covered:
  the request side takes the arguments as they are, the response side takes the canonical object.
\<close>

theorem client_history_recognised:
  assumes quoted: "\<And>s raw. hj_string j s = Inr raw \<Longrightarrow> \<exists>body. raw = CHR 0x22 # body @ [CHR 0x22]"
    and earlier: "fingerprintChatCompletionsHistory j es = Inr r"
    and no_prefill: "es = [] \<or> \<not> assistant_role (last es)"
    and sent: "chatMessageFromItems items = Inr message'"
    and leaf: "fingerprintChatCompletionsResponseItems j items = Inr leaf"
    and recorded: "Advance (hj_hash j) (hr_previous r) (hr_request r) leaf = Inr h"
    and echo: "echoed j message' = Inr m"
    and new: "new \<noteq> []" "list_all (\<lambda>m. \<not> assistant_role m) (butlast new)"
      "fingerprintChatCompletionsRequest j new = Inr request"
  shows "fingerprintChatCompletionsHistory j (es @ m # new) =
    Inr \<lparr>hr_previous = Some h, hr_request = request,
      hr_current = take (chatCompletionsLeadingContextEnd es) es @ new\<rparr>"
proof -
  have role: "assistant_role m" "\<not> leading_role m"
    using echo_roles [of m] assistant_echo [OF echo] sent
    by (auto simp: chatMessageFromItems_def result_simps)
  let ?k = "chatCompletionsLeadingContextEnd es"
  have k: "?k \<le> length es" by (simp add: chatCompletionsLeadingContextEnd_def length_takeWhile_le)
  obtain previous pending where t: "history_turns j None [] (drop ?k es) = Inr (previous, pending)"
    and r: "fingerprintChatCompletionsRequest j pending = Inr (hr_request r)" "hr_previous r = previous"
    using earlier by (auto simp: fingerprintChatCompletionsHistory_def Let_def result_simps)
  have "drop ?k es = [] \<or> \<not> assistant_role (last (drop ?k es))"
    using no_prefill by (cases "?k < length es") (auto simp: last_drop)
  from history_turns_append [OF t this, of "m # new"]
  have "history_turns j None [] (drop ?k es @ m # new) = history_turns j (Some h) [] new"
    using role(1) new(1) r recorded echo_fingerprint [OF quoted sent echo leaf] by simp
  then show ?thesis
    using new(2,3) k leading_context_append [OF role(2), of es new]
    by (simp add: fingerprintChatCompletionsHistory_def Let_def history_turns_open)
qed

section \<open>Both deliveries record the same fingerprint\<close>

lemma fingerprint_stream_append:
  "fingerprint_stream j errtext p marshal (es @ es') f =
     (case fingerprint_stream j errtext p marshal es f of
        Inl failure \<Rightarrow> Inl failure
      | Inr (out, f) \<Rightarrow>
          (case fingerprint_stream j errtext p marshal es' f of
             Inl failure \<Rightarrow> Inl failure
           | Inr (rest, f) \<Rightarrow> Inr (out @ rest, f)))"
  by (induction es arbitrary: f) (auto split: sum.splits prod.splits)

definition inner_chat_event :: "Event \<Rightarrow> bool" where
  "inner_chat_event e \<longleftrightarrow> chatCompletionsResponseTerminalStatus e = None \<and>
     (ev_Kind e = EventItemCompleted \<longrightarrow> completed_payload e \<noteq> None)"

lemma completed_payload_items:
  "ev_Kind e = EventItemCompleted \<Longrightarrow> completed_payload e = Some item \<Longrightarrow>
     map snd (items_completed (e # es)) = item # map snd (items_completed es)"
  "ev_Kind e \<noteq> EventItemCompleted \<Longrightarrow> items_completed (e # es) = items_completed es"
  by (auto simp: completed_payload_def items_completed_def List.map_filter_def
      split: Payload.splits option.splits ItemEventPayload.splits EventKind.splits)

lemma fingerprint_run:
  assumes "encode_stream p marshal es (fe_encoder f) = Inr (out, s')" and "list_all inner_chat_event es"
  shows "fingerprint_stream j errtext p marshal es f =
    Inr (out, f\<lparr>fe_encoder := s', fe_completedItems := fe_completedItems f @ map snd (items_completed es)\<rparr>)"
  using assms
proof (induction es arbitrary: f out)
  case Nil
  then show ?case by (simp add: items_completed_def)
next
  case (Cons e es)
  obtain o1 s1 o2 where e: "EncodeEnvelopeEvent p marshal e (fe_encoder f) = Inr (o1, s1)"
    "encode_stream p marshal es s1 = Inr (o2, s')" "out = o1 @ o2"
    using Cons.prems(1) by (auto simp: result_simps)
  let ?items = "fe_completedItems f @
    (if ev_Kind e = EventItemCompleted then [the (completed_payload e)] else [])"
  let ?f = "f\<lparr>fe_encoder := s1, fe_completedItems := ?items\<rparr>"
  have step: "chatCompletionsFingerprintingEncoder j errtext p marshal e f = Inr (o1, ?f)"
    using e(1) Cons.prems(2) by (simp add: chatCompletionsFingerprintingEncoder_def inner_chat_event_def Let_def)
  have "fingerprint_stream j errtext p marshal es ?f =
    Inr (o2, ?f\<lparr>fe_encoder := s', fe_completedItems := ?items @ map snd (items_completed es)\<rparr>)"
    using Cons.IH [of ?f o2] e(2) Cons.prems(2) by simp
  moreover have "?items @ map snd (items_completed es) = fe_completedItems f @ map snd (items_completed (e # es))"
    using Cons.prems(2) completed_payload_items [of e] by (auto simp: inner_chat_event_def)
  ultimately show ?case using step e(3) by simp
qed

text \<open>The events of a streamed response: their completed items are the items of the response.\<close>

lemma bare_fields [simp]: "ev_Kind (bare kind payload) = kind" "ev_Payload (bare kind payload) = payload"
  by (simp_all add: bare_def)

lemma inner_content:
  "inner_chat_event e \<longleftrightarrow> inner_chat_event (bare (ev_Kind e) (ev_Payload e))"
  by (simp add: inner_chat_event_def chatCompletionsResponseTerminalStatus_def completed_payload_def)

lemma items_completed_append: "items_completed (es @ es') = items_completed es @ items_completed es'"
  by (simp add: items_completed_def List.map_filter_def)

lemma items_completed_content:
  "items_completed es = items_completed (map (\<lambda>(kind, payload). bare kind payload) (map event_content es))"
proof (induction es)
  case (Cons e es)
  have one: "items_completed [e] = items_completed [bare (ev_Kind e) (ev_Payload e)]"
    by (cases "ev_Kind e") (simp_all add: items_completed_def List.map_filter_def)
  have app: "items_completed (x # xs) = items_completed [x] @ items_completed xs" for x xs
    using items_completed_append [of "[x]" xs] by simp
  let ?rest = "map (\<lambda>(kind, payload). bare kind payload) (map event_content es)"
  have "items_completed (e # es) = items_completed [bare (ev_Kind e) (ev_Payload e)] @ items_completed ?rest"
    using app [of e es] one Cons.IH by (simp only:)
  also have "\<dots> = items_completed (bare (ev_Kind e) (ev_Payload e) # ?rest)" by (rule app [symmetric])
  finally show ?case by simp
qed simp

lemma items_completed_none: "\<forall>e \<in> set es. ev_Kind e \<noteq> EventItemCompleted \<Longrightarrow> items_completed es = []"
  by (induction es) (simp_all add: completed_payload_items(2), simp add: items_completed_def List.map_filter_def)

lemma live_item_completed:
  "list_all (\<lambda>(kind, payload). inner_chat_event (bare kind payload)) (live_item pieces n item)"
  "map snd (items_completed (map (\<lambda>(kind, payload). bare kind payload) (live_item pieces n item))) = [item]"
proof -
  have "inner_chat_event (bare kind payload)" if "(kind, payload) \<in> set (live_start pieces n item)" for kind payload
    using live_start_kinds [OF that]
    by (auto simp: item_kind_def inner_chat_event_def chatCompletionsResponseTerminalStatus_def)
  then show "list_all (\<lambda>(kind, payload). inner_chat_event (bare kind payload)) (live_item pieces n item)"
    unfolding live_item_def by (fastforce simp: list_all_iff item_ev_def inner_chat_event_def completed_payload_def
        chatCompletionsResponseTerminalStatus_def)
  have "items_completed (map (\<lambda>(kind, payload). bare kind payload) (live_start pieces n item)) = []"
    using live_start_kinds [of _ _ pieces n item] by (intro items_completed_none) fastforce
  then show "map snd (items_completed (map (\<lambda>(kind, payload). bare kind payload) (live_item pieces n item))) = [item]"
    unfolding live_item_def
    by (simp add: items_completed_append) (simp add: items_completed_def List.map_filter_def item_ev_def)
qed

lemma live_items_completed:
  "list_all (\<lambda>(kind, payload). inner_chat_event (bare kind payload)) (live_items pieces n items) \<and>
    map snd (items_completed (map (\<lambda>(kind, payload). bare kind payload) (live_items pieces n items))) = items"
proof (induction items arbitrary: n)
  case Nil
  then show ?case by (simp add: items_completed_def List.map_filter_def)
next
  case (Cons item items)
  then show ?case using live_item_completed [of pieces n item] by (simp add: items_completed_append)
qed

lemma map_snoc: "map f xs = ys @ [y] \<Longrightarrow> \<exists>zs z. xs = zs @ [z] \<and> map f zs = ys \<and> f z = y"
  by (auto simp: map_eq_append_conv)

lemma live_inner:
  assumes "map event_content events = live_events pieces ref model items completion usage"
  obtains es e where "events = es @ [e]" and "list_all inner_chat_event es" and "map snd (items_completed es) = items"
    and "ev_Kind e = EventEnvelopeEnd" and "ev_Payload e = envelope_end EnvResponse EnvelopeStatusCompleted"
proof -
  let ?ps = "[(EventEnvelopeStart, envelope_start EnvResponse model), (EventResponseIdentity, response_identity ref)] @
    live_items pieces 0 items @ [(EventUsage, usage_payload usage), (EventFinish, finish_payload completion)]"
  have "map event_content events = ?ps @ [(EventEnvelopeEnd, envelope_end EnvResponse EnvelopeStatusCompleted)]"
    using assms by (simp add: live_events_def)
  from map_snoc [OF this] obtain es e where ev: "events = es @ [e]" "map event_content es = ?ps"
    "event_content e = (EventEnvelopeEnd, envelope_end EnvResponse EnvelopeStatusCompleted)"
    by (elim exE conjE)
  have "list_all (\<lambda>(kind, payload). inner_chat_event (bare kind payload)) ?ps"
    using live_items_completed [of pieces 0 items]
    by (simp add: inner_chat_event_def chatCompletionsResponseTerminalStatus_def)
  then have inner: "list_all inner_chat_event es"
    unfolding ev(2) [symmetric] by (simp add: list_all_iff) (metis inner_content)
  have "map snd (items_completed es) = items"
    using live_items_completed [of pieces 0 items]
    unfolding items_completed_content [of es] ev(2) map_append items_completed_append
    by (simp add: completed_payload_items(2)) (simp add: items_completed_def List.map_filter_def)
  with ev(1,3) inner show ?thesis by (intro that) auto
qed

lemma encode_stream_append:
  "encode_stream p marshal (es @ es') s =
     and_then (encode_stream p marshal es s) (\<lambda>(out, s).
       and_then (encode_stream p marshal es' s) (\<lambda>(rest, s). Inr (out @ rest, s)))"
  by (induction es arbitrary: s) (auto simp: and_then_def split: sum.splits prod.splits)

text \<open>
  The fingerprint of a response does not depend on how it is delivered. For a valid response
  that the document encoder can represent, with calls as their constructors build them, streamed in
  any pieces, the stream encoder reports completion exactly once, with the fingerprint and the
  compatibility decisions that the document encoder returns: the fingerprint is that of the
  completed items, whatever spelling of the call inputs was streamed.
\<close>

theorem fingerprint_delivery_independent:
  assumes resp: "NewCanonicalResponse ref model items completion usage = Inr response"
    and wf: "list_all chat_item items" and len: "length items < 2 ^ 32"
    and doc: "EncodeResponseDocument j errtext render response = Inr (raw, changes, leaf)"
    and marsh: "\<And>d. marshal d = Some (enc d)"
    and events: "map event_content events = live_events pieces ref model items completion usage"
    and texts: "texts_whole pieces 0 items"
  shows "\<exists>out f decisions. fingerprint_stream j errtext p marshal events (newFingerprinting inc) = Inr (out, f) \<and>
    fe_calls f = [complete_call leaf decisions] \<and> set decisions = set changes"
proof -
  obtain kept document where d: "project_document errtext response = Inr (kept, document, changes)"
    and l: "fingerprintChatCompletionsResponseItems j kept = Inr leaf"
    using doc by (auto simp: EncodeResponseDocument_def result_simps)
  have response: "cr_items response = items"
    using resp by (auto simp: NewCanonicalResponse_def result_simps split: if_splits)
  obtain cs where kept: "projectChatCompletionsWebSearchLifecycles errtext items = Inr (kept, cs)"
    using project_document_ok [OF d] response by metis
  from live_inner [OF events] obtain es e where
    es: "events = es @ [e]"
    and inner: "list_all inner_chat_event es" "map snd (items_completed es) = items"
    and e: "ev_Kind e = EventEnvelopeEnd" "ev_Payload e = envelope_end EnvResponse EnvelopeStatusCompleted"
    by metis
  obtain out s where run: "encode_stream p marshal (es @ [e]) (newStreamState inc) = Inr (out, s)"
    and same: "set (en_changes s) = set changes"
    using chat_stream_run [where marshal = marshal and p = p and inc = inc, OF resp wf len d marsh events texts]
    unfolding es by blast
  obtain o1 s1 o2 where r1: "encode_stream p marshal es (newStreamState inc) = Inr (o1, s1)"
    and r2: "EncodeEnvelopeEvent p marshal e s1 = Inr (o2, s)"
    using run unfolding encode_stream_append by (auto simp: result_simps)
  let ?f = "(newFingerprinting inc)\<lparr>fe_encoder := s1, fe_completedItems := items\<rparr>"
  have "fingerprint_stream j errtext p marshal es (newFingerprinting inc) = Inr (o1, ?f)"
    using fingerprint_run [of p marshal es "newFingerprinting inc" o1 s1 j errtext] r1 inner
    by (simp add: newFingerprinting_def)
  moreover have "fingerprint_stream j errtext p marshal [e] ?f =
      Inr (o2, ?f\<lparr>fe_encoder := s, fe_calls := [complete_call leaf (en_changes s)]\<rparr>)"
    using r2 l kept e
    by (simp add: chatCompletionsFingerprintingEncoder_def chatCompletionsResponseTerminalStatus_def
        fingerprint_terminal_def newFingerprinting_def)
  ultimately show ?thesis
    unfolding es fingerprint_stream_append using same by simp
qed

section \<open>Examples\<close>

definition history_sample_json :: history_json where
  "history_sample_json = \<lparr>
     hj_messages = (\<lambda>history. Inr (concat (map (\<lambda>m. ch_Role m @ ch_Content m @
       concat (map td_ID (ch_ToolCalls m)) @ ch_ToolCallID m) history))),
     hj_string = (\<lambda>s. Inr (CHR 0x22 # s @ [CHR 0x22])),
     hj_read_parts = (\<lambda>raw. Inr [raw]), hj_parts = (\<lambda>parts. Inr (concat parts)),
     hj_read_object = (\<lambda>raw. Inr []), hj_object = (\<lambda>object. Inr ''{}''),
     hj_decodes = (\<lambda>raw. [Inr (JString raw)]), hj_hash = (\<lambda>s. CHR ''h'' # rev s)\<rparr>"

definition chat_says :: "string \<Rightarrow> string \<Rightarrow> chatCompletionsMessageDTO" where
  "chat_says role content = \<lparr>cq_Role = role, cq_Content = content, cq_ToolCalls = [], cq_ToolCallID = []\<rparr>"

definition earlier_messages :: "chatCompletionsMessageDTO list" where
  "earlier_messages = [chat_says ''system'' ''x'', chat_says ''user'' ''y'']"

definition sample_echo :: chatCompletionsMessageDTO where
  "sample_echo = \<lparr>cq_Role = ''assistant'', cq_Content = CHR 0x22 # ''helloworld'' @ [CHR 0x22],
     cq_ToolCalls = [\<lparr>td_ID = ''a'', td_Type = ''function'',
       td_Function = Some \<lparr>tf_Name = ''f'', tf_Arguments = CHR 0x22 # ''{}'' @ [CHR 0x22]\<rparr>, td_Custom = None\<rparr>],
     cq_ToolCallID = []\<rparr>"

lemmas history_defs = fingerprintChatCompletionsRequest_def fingerprintChatCompletionsResponseItems_def
  history_material_def FrameJSONValue_def chatHistoryMessageFromRequest_def FingerprintRequest_def
  FingerprintResponse_def history_fingerprint_def history_content_def fingerprintScheme_def

lemma history_sample_roles:
  "\<not> assistant_role (chat_says ''user'' x)" "leading_role (chat_says ''system'' x)"
  "\<not> leading_role (chat_says ''user'' x)"
  by (simp_all add: assistant_role_def leading_role_def chat_says_def, code_simp+)

lemma history_sample_content:
  "normalizeChatHistoryContent j ''x'' = Inr ''x''" "normalizeChatHistoryContent j ''y'' = Inr ''y''"
  "normalizeChatHistoryContent j ''z'' = Inr ''z''"
  by (rule normalize_scalar, simp add: solid_char_def ascii_char_def ascii_space_def)+

lemma history_sample_message:
  "chatMessageFromItems [sample_message, sample_call ''a''] = Inr chat_sample_message"
  "map_sum (\<lambda>_. ()) id (history_items history_sample_json [sample_message, sample_call ''a'']
     \<lparr>hx_text = [], hx_toolCalls = []\<rparr>) = Inr \<lparr>hx_text = ''helloworld'', hx_toolCalls = cq_ToolCalls sample_echo\<rparr>"
  "echoed history_sample_json chat_sample_message = Inr sample_echo"
  by code_simp+

lemma history_sample_hash: "hj_hash history_sample_json s \<noteq> zeroKey"
  by (simp add: history_sample_json_def zeroKey_def numeral_eq_Suc)

lemma history_sample_request:
  assumes "set messages \<subseteq> {chat_says ''user'' ''y'', chat_says ''user'' ''z''}"
  obtains request where "fingerprintChatCompletionsRequest history_sample_json messages = Inr request"
    and "rl_scheme request = fingerprintScheme" and "rl_sum request \<noteq> zeroKey"
proof -
  have "\<exists>hs. map_result (chatHistoryMessageFromRequest history_sample_json) messages = Inr hs"
    using assms
    by (induction messages) (auto simp: chatHistoryMessageFromRequest_def chat_says_def history_sample_content)
  then obtain hs where "map_result (chatHistoryMessageFromRequest history_sample_json) messages = Inr hs" ..
  then show thesis using that history_sample_hash
    by (auto simp: history_defs leafSum_def history_sample_json_def)
qed

lemma history_sample_response:
  obtains leaf where
    "fingerprintChatCompletionsResponseItems history_sample_json [sample_message, sample_call ''a''] = Inr leaf"
    and "sl_scheme leaf = fingerprintScheme" and "sl_sum leaf \<noteq> zeroKey"
proof -
  have "history_items history_sample_json [sample_message, sample_call ''a''] \<lparr>hx_text = [], hx_toolCalls = []\<rparr> =
      Inr \<lparr>hx_text = ''helloworld'', hx_toolCalls = cq_ToolCalls sample_echo\<rparr>"
    using history_sample_message(2)
    by (cases "history_items history_sample_json [sample_message, sample_call ''a''] \<lparr>hx_text = [], hx_toolCalls = []\<rparr>") auto
  then show thesis using that history_sample_hash
    by (auto simp: history_defs leafSum_def history_sample_json_def)
qed

lemma history_sample_earlier:
  obtains request where "fingerprintChatCompletionsHistory history_sample_json earlier_messages =
      Inr \<lparr>hr_previous = None, hr_request = request, hr_current = earlier_messages\<rparr>"
    and "rl_scheme request = fingerprintScheme" and "rl_sum request \<noteq> zeroKey"
proof -
  obtain request where "fingerprintChatCompletionsRequest history_sample_json [chat_says ''user'' ''y''] = Inr request"
    "rl_scheme request = fingerprintScheme" "rl_sum request \<noteq> zeroKey"
    by (rule history_sample_request [of "[chat_says ''user'' ''y'']"]) simp
  then show thesis
    by (intro that) (simp_all add: fingerprintChatCompletionsHistory_def earlier_messages_def history_sample_roles
        chatCompletionsLeadingContextEnd_def)
qed

theorem client_history_recognised_witness:
  "\<exists>r leaf h. fingerprintChatCompletionsHistory history_sample_json earlier_messages = Inr r \<and>
     fingerprintChatCompletionsResponseItems history_sample_json [sample_message, sample_call ''a''] = Inr leaf \<and>
     Advance (hj_hash history_sample_json) (hr_previous r) (hr_request r) leaf = Inr h \<and>
     map_sum (\<lambda>_. ()) (\<lambda>r. (hr_previous r, hr_current r))
       (fingerprintChatCompletionsHistory history_sample_json
         (earlier_messages @ [sample_echo, chat_says ''user'' ''z''])) =
       Inr (Some h, [chat_says ''system'' ''x'', chat_says ''user'' ''z''])"
proof -
  obtain request where r: "fingerprintChatCompletionsHistory history_sample_json earlier_messages =
      Inr \<lparr>hr_previous = None, hr_request = request, hr_current = earlier_messages\<rparr>" (is "_ = Inr ?r")
    "rl_scheme request = fingerprintScheme" "rl_sum request \<noteq> zeroKey"
    by (rule history_sample_earlier)
  obtain leaf where l:
    "fingerprintChatCompletionsResponseItems history_sample_json [sample_message, sample_call ''a''] = Inr leaf"
    "sl_scheme leaf = fingerprintScheme" "sl_sum leaf \<noteq> zeroKey"
    by (rule history_sample_response)
  obtain h where h: "Advance (hj_hash history_sample_json) (hr_previous ?r) (hr_request ?r) leaf = Inr h"
    using r(2,3) l(2,3) by (simp add: Advance_def fingerprintScheme_def)
  obtain request' where n: "fingerprintChatCompletionsRequest history_sample_json [chat_says ''user'' ''z''] = Inr request'"
    by (rule history_sample_request [of "[chat_says ''user'' ''z'']"]) simp
  have q: "\<exists>body. raw = CHR 0x22 # body @ [CHR 0x22]" if "hj_string history_sample_json s = Inr raw" for s raw
    using that by (auto simp: history_sample_json_def)
  have last: "earlier_messages = [] \<or> \<not> assistant_role (last earlier_messages)"
    by (simp add: earlier_messages_def history_sample_roles)
  have lead: "take (chatCompletionsLeadingContextEnd earlier_messages) earlier_messages = [chat_says ''system'' ''x'']"
    by (simp add: chatCompletionsLeadingContextEnd_def earlier_messages_def history_sample_roles)
  have "fingerprintChatCompletionsHistory history_sample_json (earlier_messages @ [sample_echo, chat_says ''user'' ''z'']) =
      Inr \<lparr>hr_previous = Some h, hr_request = request',
        hr_current = [chat_says ''system'' ''x'', chat_says ''user'' ''z'']\<rparr>"
    using client_history_recognised [where j = history_sample_json, OF q r(1) last history_sample_message(1) l(1) h
        history_sample_message(3) _ _ n] lead by simp
  then show ?thesis using r(1) l(1) h by simp
qed

lemma delivery_sample_kept:
  "map_sum (\<lambda>_. ()) fst (project_document (\<lambda>_. []) chat_sample_response) = Inr [sample_message, sample_call ''a'']"
  by code_simp

lemma delivery_sample:
  obtains raw changes leaf where
    "EncodeResponseDocument history_sample_json (\<lambda>_. []) (\<lambda>_. Inr ''{}'') chat_sample_response = Inr (raw, changes, leaf)"
proof -
  obtain document changes where "project_document (\<lambda>_. []) chat_sample_response =
      Inr ([sample_message, sample_call ''a''], document, changes)"
    using delivery_sample_kept by (cases "project_document (\<lambda>_. []) chat_sample_response") auto
  moreover obtain leaf where
    "fingerprintChatCompletionsResponseItems history_sample_json [sample_message, sample_call ''a''] = Inr leaf"
    by (rule history_sample_response)
  ultimately show thesis using that by (simp add: EncodeResponseDocument_def)
qed

theorem fingerprint_delivery_independent_witness:
  "\<exists>leaf changes out f decisions.
     EncodeResponseDocument history_sample_json (\<lambda>_. []) (\<lambda>_. Inr ''{}'') chat_sample_response =
       Inr (''{}'', changes, leaf) \<and>
     fingerprint_stream history_sample_json (\<lambda>_. []) chat_platform (\<lambda>d. Some ''{}'')
       live_sample (newFingerprinting True) = Inr (out, f) \<and>
     fe_calls f = [complete_call leaf decisions] \<and> set decisions = set changes"
proof -
  obtain raw changes leaf where doc:
    "EncodeResponseDocument history_sample_json (\<lambda>_. []) (\<lambda>_. Inr ''{}'') chat_sample_response = Inr (raw, changes, leaf)"
    by (rule delivery_sample)
  then have "raw = ''{}''" by (auto simp: EncodeResponseDocument_def result_simps)
  moreover have "length chat_sample_items < 2 ^ 32" by (simp add: chat_sample_items_def)
  ultimately show ?thesis
    using fingerprint_delivery_independent [where marshal = "\<lambda>d. Some ''{}''" and enc = "\<lambda>d. ''{}''"
      and p = chat_platform and inc = True, OF chat_sample_ok(1,2) _ doc refl live_sample_ok(1,2)] doc by metis
qed

end
