(* ===== verification/Encoded_Body.thy ===== *)
theory Encoded_Body
  imports Chat_History
begin

text \<open>
  \<^verbatim>\<open>wire/codec.go\<close>, \<^verbatim>\<open>encoded_response_body.go\<close>, \<^verbatim>\<open>encoded_response_messages.go\<close>: the write-once cell
  that says how a streamed response ended, and the bodies from which the HTTP server and the
  websocket pull its bytes. A mutex-protected method of the cell is one operation; its callbacks are
  named by numbers and their invocations are recorded.
\<close>

section \<open>The completion cell\<close>

datatype CompletionState = CompletionPending | CompletionCompleted | CompletionFailed

record ResponseCompletionSnapshot =
  sn_State :: CompletionState
  sn_Err :: "go_error option"
  sn_ResponseFingerprint :: "ResponseLeaf option"
  sn_Changes :: "Change list"
  sn_Usage :: TokenUsage

datatype notification =
    notify_complete nat
  | notify_terminal nat ResponseCompletionSnapshot

record ResponseCompletion =
  rc_snapshot :: ResponseCompletionSnapshot
  rc_baseChanges :: "Change list"
  rc_progressiveChanges :: bool \<comment> \<open>whether a source is installed; what it returns is an argument of \<open>complete\<close>\<close>
  rc_onComplete :: "nat option"
  rc_onTerminal :: "nat option"
  rc_notified :: "notification list"

definition zeroResponseSnapshot :: ResponseCompletionSnapshot where
  "zeroResponseSnapshot = \<lparr>sn_State = CompletionPending, sn_Err = None, sn_ResponseFingerprint = None,
     sn_Changes = [], sn_Usage = NewUnknownTokenUsage\<rparr>"

definition NewResponseCompletion :: ResponseCompletion where
  "NewResponseCompletion = \<lparr>rc_snapshot = zeroResponseSnapshot, rc_baseChanges = [], rc_progressiveChanges = False,
     rc_onComplete = None, rc_onTerminal = None, rc_notified = []\<rparr>"

definition completion_state :: "ResponseCompletion \<Rightarrow> CompletionState" where
  "completion_state c = sn_State (rc_snapshot c)"

definition ObserveUsage :: "TokenUsage \<Rightarrow> ResponseCompletion \<Rightarrow> ResponseCompletion" where
  "ObserveUsage usage c =
     (if completion_state c = CompletionFailed then c
      else c\<lparr>rc_snapshot := (rc_snapshot c)\<lparr>sn_Usage := usage\<rparr>\<rparr>)"

definition OnTerminal :: "nat \<Rightarrow> ResponseCompletion \<Rightarrow> ResponseCompletion" where
  "OnTerminal fn c =
     (if completion_state c \<noteq> CompletionPending
      then c\<lparr>rc_notified := rc_notified c @ [notify_terminal fn (rc_snapshot c)]\<rparr>
      else c\<lparr>rc_onTerminal := Some fn\<rparr>)"

definition ConfigureCompatibility :: "Change list \<Rightarrow> bool \<Rightarrow> ResponseCompletion \<Rightarrow> ResponseCompletion" where
  "ConfigureCompatibility base progressive c =
     (if completion_state c \<noteq> CompletionPending then c
      else c\<lparr>rc_baseChanges := base, rc_progressiveChanges := progressive\<rparr>)"

definition OnComplete :: "nat \<Rightarrow> ResponseCompletion \<Rightarrow> ResponseCompletion" where
  "OnComplete fn c =
     (case completion_state c of
        CompletionCompleted \<Rightarrow> c\<lparr>rc_notified := rc_notified c @ [notify_complete fn]\<rparr>
      | CompletionPending \<Rightarrow> c\<lparr>rc_onComplete := Some fn\<rparr>
      | CompletionFailed \<Rightarrow> c)"

definition notify_observer :: "ResponseCompletionSnapshot \<Rightarrow> nat option \<Rightarrow> notification list" where
  "notify_observer snapshot terminal = (case terminal of None \<Rightarrow> [] | Some fn \<Rightarrow> [notify_terminal fn snapshot])"

definition settle_failed :: "go_error \<Rightarrow> ResponseCompletion \<Rightarrow> ResponseCompletion" where
  "settle_failed err c =
     (let snapshot = zeroResponseSnapshot\<lparr>sn_State := CompletionFailed, sn_Err := Some err\<rparr>
      in c\<lparr>rc_snapshot := snapshot, rc_onTerminal := None,
           rc_notified := rc_notified c @ notify_observer snapshot (rc_onTerminal c)\<rparr>)"

definition completion_complete ::
    "ResponseLeaf option \<Rightarrow> Change list \<Rightarrow> Change list \<Rightarrow> ResponseCompletion \<Rightarrow> ResponseCompletion" where
  "completion_complete fingerprint changes progressive c =
     (if completion_state c \<noteq> CompletionPending then c
      else let allChanges = rc_baseChanges c @ (if rc_progressiveChanges c then progressive else []) @ changes
        in case ValidateChanges allChanges of
             Inl (index, e) \<Rightarrow> settle_failed (StageResponseFailure ''canonical_response_validation''
               (Errorf ''compatibility change %d: %w'' [decimal index, e])) c
           | Inr _ \<Rightarrow>
               (let snapshot = zeroResponseSnapshot\<lparr>sn_State := CompletionCompleted, sn_ResponseFingerprint := fingerprint,
                  sn_Changes := allChanges, sn_Usage := sn_Usage (rc_snapshot c)\<rparr>
                in c\<lparr>rc_snapshot := snapshot, rc_onComplete := None, rc_onTerminal := None,
                     rc_notified := rc_notified c @
                       (case rc_onComplete c of None \<Rightarrow> [] | Some fn \<Rightarrow> [notify_complete fn]) @
                       notify_observer snapshot (rc_onTerminal c)\<rparr>))"

definition completion_fail :: "go_error \<Rightarrow> ResponseCompletion \<Rightarrow> ResponseCompletion" where
  "completion_fail err c = (if completion_state c \<noteq> CompletionPending then c else settle_failed err c)"

section \<open>The byte body\<close>

text \<open>
  What one iteration of the loop in \<^verbatim>\<open>Read\<close> meets: a cancelled context, an event, the end of the
  stream or its error. An exhausted stream keeps returning the end.
\<close>

datatype body_pull = pull_ctx go_error | pull_event Event | pull_EOF | pull_error go_error

text \<open>The encoder's result, with the errors that \<^verbatim>\<open>IsTerminalProjectionUnrepresentable\<close> recognises apart.\<close>

datatype encode_result = encode_ok "string list" | encode_unrepresentable go_error | encode_err go_error

type_synonym 'f encoder = "Event \<Rightarrow> 'f \<Rightarrow> encode_result \<times> completion_call list \<times> 'f"

definition ErrUnexpectedEOF :: go_error where "ErrUnexpectedEOF = Errorf ''unexpected EOF'' []"

datatype read_end = end_EOF | end_error go_error

fun settle_call :: "Change list \<Rightarrow> completion_call \<Rightarrow> ResponseCompletion \<Rightarrow> ResponseCompletion" where
  "settle_call progressive (complete_call leaf changes) c = completion_complete (Some leaf) changes progressive c"
| "settle_call progressive (fail_call e) c = completion_fail e c"

definition observe_usage_event :: "Event \<Rightarrow> ResponseCompletion \<Rightarrow> ResponseCompletion" where
  "observe_usage_event event c =
     (if ev_Kind event = EventUsage
      then (case ev_Payload event of usage_payload usage \<Rightarrow> ObserveUsage usage c | _ \<Rightarrow> c) else c)"

text \<open>
  The loop: it pulls until an event encodes to at least one byte. \<open>cause\<close> is the terminal failure the
  stream reports, if it has one.
\<close>

definition encode_failure :: "go_error option \<Rightarrow> encode_result \<Rightarrow> go_error" where
  "encode_failure cause r =
     (case r of
        encode_unrepresentable e \<Rightarrow>
          (case cause of Some f \<Rightarrow> f | None \<Rightarrow> StageResponseFailure ''client_stream_encode'' e)
      | encode_err e \<Rightarrow> StageResponseFailure ''client_stream_encode'' e
      | encode_ok _ \<Rightarrow> ErrUnexpectedEOF)"

definition at_EOF :: "ResponseCompletion \<Rightarrow> ResponseCompletion" where
  "at_EOF c = (if completion_state c = CompletionPending then completion_fail ErrUnexpectedEOF c else c)"

fun body_fill ::
    "'f encoder \<Rightarrow> Change list \<Rightarrow> go_error option \<Rightarrow> body_pull list \<Rightarrow> 'f \<Rightarrow> ResponseCompletion \<Rightarrow>
     (read_end + string) \<times> body_pull list \<times> 'f \<times> ResponseCompletion" where
  "body_fill encode progressive cause [] f c = (Inl end_EOF, [], f, at_EOF c)"
| "body_fill encode progressive cause (pull # pulls) f c =
     (case pull of
        pull_ctx e \<Rightarrow> (Inl (end_error e), pulls, f, completion_fail e c)
      | pull_error e \<Rightarrow> (Inl (end_error e), pulls, f, completion_fail e c)
      | pull_EOF \<Rightarrow> (Inl end_EOF, pulls, f, at_EOF c)
      | pull_event event \<Rightarrow>
          (case encode event f of (r, calls, f) \<Rightarrow>
            let c = fold (settle_call progressive) calls (observe_usage_event event c)
            in case r of
                 encode_ok out \<Rightarrow>
                   if concat out = [] then body_fill encode progressive cause pulls f c
                   else (Inr (concat out), pulls, f, c)
               | _ \<Rightarrow> (let e = encode_failure cause r in (Inl (end_error e), pulls, f, completion_fail e c))))"

record 'f EncodedResponseBody =
  eb_events :: "body_pull list"
  eb_encoder :: 'f
  eb_completion :: ResponseCompletion
  eb_pending :: string
  eb_closed :: bool

definition NewEncodedResponseBody ::
    "body_pull list \<Rightarrow> 'f \<Rightarrow> ResponseCompletion \<Rightarrow> 'f EncodedResponseBody" where
  "NewEncodedResponseBody events f completion = \<lparr>eb_events = events, eb_encoder = f,
     eb_completion = completion, eb_pending = [], eb_closed = False\<rparr>"

definition body_Read ::
    "'f encoder \<Rightarrow> Change list \<Rightarrow> go_error option \<Rightarrow> nat \<Rightarrow> 'f EncodedResponseBody \<Rightarrow>
     (read_end + string) \<times> 'f EncodedResponseBody" where
  "body_Read encode progressive cause n b =
     (if n = 0 then (Inr [], b)
      else if eb_pending b \<noteq> []
      then (Inr (take n (eb_pending b)), b\<lparr>eb_pending := drop n (eb_pending b)\<rparr>)
      else case body_fill encode progressive cause (eb_events b) (eb_encoder b) (eb_completion b) of
        (r, pulls, f, c) \<Rightarrow>
          (let b = b\<lparr>eb_events := pulls, eb_encoder := f, eb_completion := c\<rparr>
           in case r of
                Inl e \<Rightarrow> (Inl e, b)
              | Inr pending \<Rightarrow> (Inr (take n pending), b\<lparr>eb_pending := drop n pending\<rparr>)))"

definition body_Close :: "'f EncodedResponseBody \<Rightarrow> 'f EncodedResponseBody" where
  "body_Close b =
     (if eb_closed b then b
      else b\<lparr>eb_closed := True, eb_completion :=
        (if completion_state (eb_completion b) = CompletionPending
         then completion_fail ContextCanceled (eb_completion b) else eb_completion b)\<rparr>)"

section \<open>The message body\<close>

text \<open>
  The same loop for message-oriented delivery: \<^verbatim>\<open>Next\<close> returns one encoded message at a time. An
  encoding failure is staged without asking the stream for its cause.
\<close>

record 'f EncodedResponseMessages =
  eg_events :: "body_pull list"
  eg_encoder :: 'f
  eg_completion :: ResponseCompletion
  eg_pending :: "string list"
  eg_closed :: bool

definition message_failure :: "encode_result \<Rightarrow> go_error" where
  "message_failure r = encode_failure None r"

fun messages_fill ::
    "'f encoder \<Rightarrow> Change list \<Rightarrow> body_pull list \<Rightarrow> 'f \<Rightarrow> ResponseCompletion \<Rightarrow>
     (read_end + string list) \<times> body_pull list \<times> 'f \<times> ResponseCompletion" where
  "messages_fill encode progressive [] f c = (Inl end_EOF, [], f, at_EOF c)"
| "messages_fill encode progressive (pull # pulls) f c =
     (case pull of
        pull_ctx e \<Rightarrow> (Inl (end_error e), pulls, f, completion_fail e c)
      | pull_error e \<Rightarrow> (Inl (end_error e), pulls, f, completion_fail e c)
      | pull_EOF \<Rightarrow> (Inl end_EOF, pulls, f, at_EOF c)
      | pull_event event \<Rightarrow>
          (case encode event f of (r, calls, f) \<Rightarrow>
            let c = fold (settle_call progressive) calls (observe_usage_event event c)
            in case r of
                 encode_ok out \<Rightarrow>
                   if out = [] then messages_fill encode progressive pulls f c
                   else (Inr out, pulls, f, c)
               | _ \<Rightarrow> (let e = message_failure r in (Inl (end_error e), pulls, f, completion_fail e c))))"

definition messages_Next ::
    "'f encoder \<Rightarrow> Change list \<Rightarrow> 'f EncodedResponseMessages \<Rightarrow>
     (read_end + string) \<times> 'f EncodedResponseMessages" where
  "messages_Next encode progressive s =
     (case eg_pending s of
        message' # rest \<Rightarrow> (Inr message', s\<lparr>eg_pending := rest\<rparr>)
      | [] \<Rightarrow>
          (case messages_fill encode progressive (eg_events s) (eg_encoder s) (eg_completion s) of
             (r, pulls, f, c) \<Rightarrow>
               (let s = s\<lparr>eg_events := pulls, eg_encoder := f, eg_completion := c\<rparr>
                in case r of
                     Inl e \<Rightarrow> (Inl e, s)
                   | Inr out \<Rightarrow> (Inr (hd out), s\<lparr>eg_pending := tl out\<rparr>))))"

definition messages_Close :: "'f EncodedResponseMessages \<Rightarrow> 'f EncodedResponseMessages" where
  "messages_Close s =
     (if eg_closed s then s
      else s\<lparr>eg_closed := True, eg_completion :=
        (if completion_state (eg_completion s) = CompletionPending
         then completion_fail ContextCanceled (eg_completion s) else eg_completion s)\<rparr>)"

section \<open>The cell is written once\<close>

datatype completion_op =
    op_usage TokenUsage
  | op_on_terminal nat
  | op_configure "Change list" bool
  | op_on_complete nat
  | op_complete "ResponseLeaf option" "Change list" "Change list"
  | op_fail go_error

fun completion_step :: "completion_op \<Rightarrow> ResponseCompletion \<Rightarrow> ResponseCompletion" where
  "completion_step (op_usage usage) = ObserveUsage usage"
| "completion_step (op_on_terminal fn) = OnTerminal fn"
| "completion_step (op_configure base progressive) = ConfigureCompatibility base progressive"
| "completion_step (op_on_complete fn) = OnComplete fn"
| "completion_step (op_complete fingerprint changes progressive) =
     completion_complete fingerprint changes progressive"
| "completion_step (op_fail e) = completion_fail e"

definition run_completion :: "completion_op list \<Rightarrow> ResponseCompletion" where
  "run_completion ops = fold completion_step ops NewResponseCompletion"

definition verdict :: "ResponseCompletionSnapshot \<Rightarrow>
    CompletionState \<times> go_error option \<times> ResponseLeaf option \<times> Change list" where
  "verdict s = (sn_State s, sn_Err s, sn_ResponseFingerprint s, sn_Changes s)"

definition observers :: "completion_op list \<Rightarrow> nat list" where
  "observers ops = List.map_filter (\<lambda>x. case x of op_on_terminal fn \<Rightarrow> Some fn | _ \<Rightarrow> None) ops"

definition terminal_calls :: "ResponseCompletion \<Rightarrow> nat list" where
  "terminal_calls c = List.map_filter (\<lambda>x. case x of notify_terminal fn _ \<Rightarrow> Some fn | _ \<Rightarrow> None) (rc_notified c)"

lemmas completion_defs = ObserveUsage_def OnTerminal_def ConfigureCompatibility_def OnComplete_def
  completion_complete_def completion_fail_def settle_failed_def notify_observer_def completion_state_def
  Let_def zeroResponseSnapshot_def

lemma completion_step_settled:
  assumes "completion_state c \<noteq> CompletionPending"
  shows "verdict (rc_snapshot (completion_step x c)) = verdict (rc_snapshot c)"
  using assms by (cases x) (auto simp: completion_defs verdict_def split: CompletionState.splits)

lemma completion_run_settled:
  assumes "completion_state c \<noteq> CompletionPending"
  shows "verdict (rc_snapshot (fold completion_step ops c)) = verdict (rc_snapshot c)"
  using assms
proof (induction ops arbitrary: c)
  case (Cons x ops)
  have v: "verdict (rc_snapshot (completion_step x c)) = verdict (rc_snapshot c)"
    using Cons.prems by (rule completion_step_settled)
  then have "completion_state (completion_step x c) \<noteq> CompletionPending"
    using Cons.prems by (simp add: verdict_def completion_state_def)
  from Cons.IH [OF this] v show ?case by simp
qed simp

text \<open>Every notification sent carries the verdict, and none is sent before it is known.\<close>

definition notified_truly :: "ResponseCompletion \<Rightarrow> bool" where
  "notified_truly c \<longleftrightarrow>
     (completion_state c = CompletionPending \<longrightarrow> rc_notified c = []) \<and>
     (\<forall>fn s. notify_terminal fn s \<in> set (rc_notified c) \<longrightarrow> verdict s = verdict (rc_snapshot c)) \<and>
     (\<forall>fn. notify_complete fn \<in> set (rc_notified c) \<longrightarrow> completion_state c = CompletionCompleted)"

lemma settle_failed_effect:
  "rc_snapshot (settle_failed e c) = zeroResponseSnapshot\<lparr>sn_State := CompletionFailed, sn_Err := Some e\<rparr>"
  "rc_notified (settle_failed e c) = rc_notified c @ notify_observer (rc_snapshot (settle_failed e c)) (rc_onTerminal c)"
  "completion_state (settle_failed e c) = CompletionFailed"
  by (simp_all add: settle_failed_def completion_state_def Let_def)

lemma completion_complete_cases:
  assumes "completion_state c = CompletionPending"
  obtains (failed) e where "completion_complete fingerprint changes progressive c = settle_failed e c"
  | (completed) "completion_state (completion_complete fingerprint changes progressive c) = CompletionCompleted"
    "rc_notified (completion_complete fingerprint changes progressive c) = rc_notified c @
       (case rc_onComplete c of None \<Rightarrow> [] | Some fn \<Rightarrow> [notify_complete fn]) @
       notify_observer (rc_snapshot (completion_complete fingerprint changes progressive c)) (rc_onTerminal c)"
  using assms
  by (cases "ValidateChanges (rc_baseChanges c @ (if rc_progressiveChanges c then progressive else []) @ changes)")
    (auto simp: completion_complete_def Let_def completion_state_def)

lemma notify_observer_set [simp]:
  "notify_terminal fn s \<in> set (notify_observer s' t) \<longleftrightarrow> t = Some fn \<and> s = s'"
  "notify_complete fn \<notin> set (notify_observer s' t)"
  by (auto simp: notify_observer_def split: option.splits)

lemma notified_truly_failed: "rc_notified c = [] \<Longrightarrow> notified_truly (settle_failed e c)"
  by (auto simp: notified_truly_def settle_failed_effect)

lemma notified_truly_complete:
  assumes "completion_state c = CompletionPending" and "rc_notified c = []"
  shows "notified_truly (completion_complete fingerprint changes progressive c)"
proof (rule completion_complete_cases [OF assms(1), of fingerprint changes progressive])
  fix e assume "completion_complete fingerprint changes progressive c = settle_failed e c"
  then show ?thesis using notified_truly_failed [OF assms(2)] by simp
qed (use assms(2) in \<open>auto simp: notified_truly_def split: option.splits\<close>)

lemma notified_truly_step:
  assumes "notified_truly c"
  shows "notified_truly (completion_step x c)"
proof (cases "completion_state c")
  case CompletionPending
  then have "rc_notified c = []" using assms by (simp add: notified_truly_def)
  with CompletionPending show ?thesis
    using notified_truly_complete notified_truly_failed
    by (cases x) (simp_all add: completion_fail_def, simp_all add: ObserveUsage_def OnTerminal_def
      ConfigureCompatibility_def OnComplete_def notified_truly_def completion_state_def)
qed (use assms in \<open>cases x; auto simp: notified_truly_def completion_defs verdict_def\<close>)+

lemma notified_truly_run: "notified_truly (run_completion ops)"
proof -
  have base: "notified_truly NewResponseCompletion"
    by (simp add: notified_truly_def NewResponseCompletion_def)
  have "notified_truly (fold completion_step ops c)" if "notified_truly c" for c
    using that by (induction ops arbitrary: c) (simp_all add: notified_truly_step)
  with base show ?thesis by (simp add: run_completion_def)
qed

text \<open>The observer installed last is called at the transition, and only then.\<close>

definition observed :: "nat list \<Rightarrow> ResponseCompletion \<Rightarrow> bool" where
  "observed obs c \<longleftrightarrow>
     (if completion_state c = CompletionPending
      then terminal_calls c = [] \<and> rc_onTerminal c = (if obs = [] then None else Some (last obs))
      else (length obs \<le> 1 \<longrightarrow> terminal_calls c = obs))"

lemma observed_transition:
  assumes "completion_state c = CompletionPending" and "observed obs c"
    and "rc_notified c' = rc_notified c @ ns @ notify_observer s (rc_onTerminal c)"
    and "\<forall>n \<in> set ns. \<exists>fn. n = notify_complete fn" and "completion_state c' \<noteq> CompletionPending"
  shows "observed obs c'"
proof -
  have "List.map_filter (\<lambda>x. case x of notify_terminal fn _ \<Rightarrow> Some fn | _ \<Rightarrow> None) ns = []"
    using assms(4) by (induction ns) (auto simp: List.map_filter_def)
  moreover have "obs = [] \<or> obs = [last obs]" if "length obs \<le> 1" using that by (cases obs) auto
  ultimately show ?thesis
    using assms(1-3,5)
    by (auto simp: observed_def terminal_calls_def map_filter_simps notify_observer_def List.map_filter_def
        split: if_splits)
qed

lemma observed_complete:
  assumes "completion_state c = CompletionPending" and "observed obs c"
  shows "observed obs (completion_complete fingerprint changes progressive c)"
proof (rule completion_complete_cases [OF assms(1), of fingerprint changes progressive])
  fix e assume "completion_complete fingerprint changes progressive c = settle_failed e c"
  then show ?thesis
    using observed_transition [OF assms, of "settle_failed e c" "[]"] by (simp add: settle_failed_effect)
next
  assume "completion_state (completion_complete fingerprint changes progressive c) = CompletionCompleted"
    "rc_notified (completion_complete fingerprint changes progressive c) = rc_notified c @
       (case rc_onComplete c of None \<Rightarrow> [] | Some fn \<Rightarrow> [notify_complete fn]) @
       notify_observer (rc_snapshot (completion_complete fingerprint changes progressive c)) (rc_onTerminal c)"
  then show ?thesis by (intro observed_transition [OF assms]) (auto split: option.splits)
qed

lemma observed_step:
  assumes "observed obs c"
  shows "observed (obs @ observers [x]) (completion_step x c)"
proof (cases "completion_state c = CompletionPending")
  case True
  have failed: "observed obs (settle_failed e c)" for e
    using observed_transition [OF True assms, of "settle_failed e c" "[]"] by (simp add: settle_failed_effect)
  show ?thesis
    using assms True observed_complete [OF True assms] failed
    by (cases x) (simp_all add: completion_fail_def observers_def map_filter_simps, simp_all add: observed_def
      ObserveUsage_def OnTerminal_def ConfigureCompatibility_def OnComplete_def completion_state_def terminal_calls_def)
next
  case False
  then have state: "completion_state (completion_step x c) \<noteq> CompletionPending"
    using completion_step_settled [OF False, of x] by (simp add: verdict_def completion_state_def)
  have "terminal_calls (completion_step x c) = terminal_calls c @ observers [x]"
    using False
    by (cases x; cases "completion_state c")
      (simp_all add: completion_defs terminal_calls_def observers_def map_filter_simps List.map_filter_def)
  with assms False state show ?thesis by (auto simp: observed_def)
qed

lemma observers_append: "observers (xs @ ys) = observers xs @ observers ys"
  by (simp add: observers_def List.map_filter_def)

lemma observed_run: "observed (observers ops) (run_completion ops)"
proof (induction ops rule: rev_induct)
  case Nil
  then show ?case
    by (simp add: observed_def observers_def terminal_calls_def run_completion_def NewResponseCompletion_def
        completion_state_def zeroResponseSnapshot_def List.map_filter_def)
next
  case (snoc x ops)
  then show ?case using observed_step [OF snoc] by (simp add: observers_append run_completion_def)
qed

text \<open>
  C19: the end of a streamed response is decided once. Under every sequence of operations on the
  completion cell the first completion or failure stands: later operations change neither the
  state nor the error, the fingerprint or the recorded changes. Every observer that was called was
  given this verdict, the completion callback runs only for a completed response, and the only
  registered observer is called exactly once, when the response has ended.
\<close>

theorem completion_write_once:
  "(completion_state (run_completion ops) \<noteq> CompletionPending \<longrightarrow>
      verdict (rc_snapshot (run_completion (ops @ later))) = verdict (rc_snapshot (run_completion ops))) \<and>
   (\<forall>fn s. notify_terminal fn s \<in> set (rc_notified (run_completion ops)) \<longrightarrow>
      verdict s = verdict (rc_snapshot (run_completion ops)) \<and> sn_State s \<noteq> CompletionPending) \<and>
   (\<forall>fn. notify_complete fn \<in> set (rc_notified (run_completion ops)) \<longrightarrow>
      completion_state (run_completion ops) = CompletionCompleted) \<and>
   (\<forall>fn. observers ops = [fn] \<longrightarrow> terminal_calls (run_completion ops) =
      (if completion_state (run_completion ops) = CompletionPending then [] else [fn]))"
proof (intro conjI allI impI)
  assume "completion_state (run_completion ops) \<noteq> CompletionPending"
  then show "verdict (rc_snapshot (run_completion (ops @ later))) = verdict (rc_snapshot (run_completion ops))"
    using completion_run_settled by (simp add: run_completion_def)
next
  fix fn s assume n: "notify_terminal fn s \<in> set (rc_notified (run_completion ops))"
  note truly = notified_truly_run [of ops, unfolded notified_truly_def]
  show v: "verdict s = verdict (rc_snapshot (run_completion ops))" using n truly by blast
  have "completion_state (run_completion ops) \<noteq> CompletionPending" using n truly by force
  then show "sn_State s \<noteq> CompletionPending" using v by (simp add: verdict_def completion_state_def)
next
  fix fn assume "notify_complete fn \<in> set (rc_notified (run_completion ops))"
  then show "completion_state (run_completion ops) = CompletionCompleted"
    using notified_truly_run [of ops] unfolding notified_truly_def by blast
next
  fix fn assume "observers ops = [fn]"
  then show "terminal_calls (run_completion ops) =
      (if completion_state (run_completion ops) = CompletionPending then [] else [fn])"
    using observed_run [of ops] by (simp add: observed_def split: if_splits)
qed

theorem completion_write_once_witness:
  "sn_State (rc_snapshot (run_completion [op_on_terminal 7, op_fail ErrUnexpectedEOF])) = CompletionFailed \<and>
   terminal_calls (run_completion [op_on_terminal 7, op_fail ErrUnexpectedEOF]) = [7] \<and>
   verdict (rc_snapshot (run_completion ([op_on_terminal 7, op_fail ErrUnexpectedEOF] @ [op_complete None [] []]))) =
     (CompletionFailed, Some ErrUnexpectedEOF, None, [])"
proof -
  let ?ops = "[op_on_terminal 7, op_fail ErrUnexpectedEOF]"
  have s: "completion_state (run_completion ?ops) \<noteq> CompletionPending"
    "rc_snapshot (run_completion ?ops) = zeroResponseSnapshot\<lparr>sn_State := CompletionFailed, sn_Err := Some ErrUnexpectedEOF\<rparr>"
    by (simp_all add: run_completion_def completion_defs NewResponseCompletion_def)
  have "observers ?ops = [7]" by (simp add: observers_def List.map_filter_def)
  with completion_write_once [of ?ops "[op_complete None [] []]"] s
  show ?thesis by (simp add: verdict_def zeroResponseSnapshot_def)
qed

text \<open>After closing, the cell has ended: a response that was not read to its end is cancelled.\<close>

lemma body_Close_settled:
  assumes "eb_closed b \<longrightarrow> completion_state (eb_completion b) \<noteq> CompletionPending"
  shows "completion_state (eb_completion (body_Close b)) \<noteq> CompletionPending \<and> eb_closed (body_Close b)"
  using assms
  by (auto simp: body_Close_def completion_fail_def settle_failed_effect)

lemma messages_Close_settled:
  assumes "eg_closed s \<longrightarrow> completion_state (eg_completion s) \<noteq> CompletionPending"
  shows "completion_state (eg_completion (messages_Close s)) \<noteq> CompletionPending \<and> eg_closed (messages_Close s)"
  using assms
  by (auto simp: messages_Close_def completion_fail_def settle_failed_effect)

section \<open>Reading does not depend on the buffers\<close>

text \<open>All bytes of a response and how it ends, without a buffer in between.\<close>

fun body_output ::
    "'f encoder \<Rightarrow> Change list \<Rightarrow> go_error option \<Rightarrow> body_pull list \<Rightarrow> 'f \<Rightarrow> ResponseCompletion \<Rightarrow>
     string \<times> read_end \<times> body_pull list \<times> 'f \<times> ResponseCompletion" where
  "body_output encode progressive cause [] f c = ([], end_EOF, [], f, at_EOF c)"
| "body_output encode progressive cause (pull # pulls) f c =
     (case pull of
        pull_ctx e \<Rightarrow> ([], end_error e, pulls, f, completion_fail e c)
      | pull_error e \<Rightarrow> ([], end_error e, pulls, f, completion_fail e c)
      | pull_EOF \<Rightarrow> ([], end_EOF, pulls, f, at_EOF c)
      | pull_event event \<Rightarrow>
          (case encode event f of (r, calls, f) \<Rightarrow>
            let c = fold (settle_call progressive) calls (observe_usage_event event c)
            in case r of
                 encode_ok out \<Rightarrow>
                   apfst (append (concat out)) (body_output encode progressive cause pulls f c)
               | _ \<Rightarrow> (let e = encode_failure cause r in ([], end_error e, pulls, f, completion_fail e c))))"

fun body_reads ::
    "'f encoder \<Rightarrow> Change list \<Rightarrow> go_error option \<Rightarrow> nat list \<Rightarrow> 'f EncodedResponseBody \<Rightarrow>
     string \<times> read_end option \<times> 'f EncodedResponseBody" where
  "body_reads encode progressive cause [] b = ([], None, b)"
| "body_reads encode progressive cause (n # sizes) b =
     (case body_Read encode progressive cause n b of
        (Inl e, b) \<Rightarrow> ([], Some e, b)
      | (Inr s, b) \<Rightarrow>
          (case body_reads encode progressive cause sizes b of (bytes, stop, b) \<Rightarrow> (s @ bytes, stop, b)))"

lemma apfst_append [simp]: "apfst (append []) r = r"
  "apfst (append xs) (apfst (append ys) r) = apfst (append (xs @ ys)) r"
  by (simp_all add: apfst_def map_prod_def split: prod.splits)

lemma body_fill_output:
  "body_fill encode progressive cause pulls f c = (Inl e, rest) \<Longrightarrow>
     body_output encode progressive cause pulls f c = ([], e, rest)"
  "body_fill encode progressive cause pulls f c = (Inr chunk, pulls', f', c') \<Longrightarrow> chunk \<noteq> [] \<and>
     body_output encode progressive cause pulls f c =
       apfst (append chunk) (body_output encode progressive cause pulls' f' c')"
proof (induction encode progressive cause pulls f c rule: body_fill.induct)
  case (2 encode progressive cause pull pulls f c)
  {
    case 1
    then show ?case
      using 2(1) by (cases pull) (auto simp: Let_def split: prod.splits encode_result.splits if_splits)
  next
    case 2
    then show ?case
      using "2.IH"(2) by (cases pull) (auto simp: Let_def split: prod.splits encode_result.splits if_splits)
  }
qed simp_all

definition remaining ::
    "'f encoder \<Rightarrow> Change list \<Rightarrow> go_error option \<Rightarrow> 'f EncodedResponseBody \<Rightarrow>
     string \<times> read_end \<times> body_pull list \<times> 'f \<times> ResponseCompletion" where
  "remaining encode progressive cause b = apfst (append (eb_pending b))
     (body_output encode progressive cause (eb_events b) (eb_encoder b) (eb_completion b))"

text \<open>One read takes bytes off the front of what remains, at least one when the buffer has room.\<close>

lemma body_Read_end:
  assumes "body_Read encode progressive cause n b = (Inl e, b')"
  shows "0 < n \<and> remaining encode progressive cause b = ([], e, eb_events b', eb_encoder b', eb_completion b')"
  using assms body_fill_output(1) [of encode progressive cause "eb_events b" "eb_encoder b" "eb_completion b" e]
  by (auto simp: body_Read_def remaining_def Let_def split: prod.splits sum.splits if_splits)

lemma body_Read_bytes:
  assumes "body_Read encode progressive cause n b = (Inr s, b')"
  shows "(0 < n \<longrightarrow> s \<noteq> []) \<and>
    remaining encode progressive cause b = apfst (append s) (remaining encode progressive cause b')"
proof (cases "n = 0 \<or> eb_pending b \<noteq> []")
  case True
  then show ?thesis using assms by (auto simp: body_Read_def remaining_def split: if_splits)
next
  case False
  then obtain chunk pulls f c where
    fill: "body_fill encode progressive cause (eb_events b) (eb_encoder b) (eb_completion b) = (Inr chunk, pulls, f, c)"
    and "s = take n chunk"
    "b' = b\<lparr>eb_events := pulls, eb_encoder := f, eb_completion := c, eb_pending := drop n chunk\<rparr>"
    using assms by (auto simp: body_Read_def Let_def split: prod.splits sum.splits)
  then show ?thesis using body_fill_output(2) [OF fill] False by (simp add: remaining_def)
qed

lemma body_reads_remaining:
  "\<exists>bytes e rest got stop b'.
     remaining encode progressive cause b = (bytes, e, rest) \<and>
     body_reads encode progressive cause sizes b = (got, stop, b') \<and> prefix got bytes \<and>
     (stop \<noteq> None \<longrightarrow> got = bytes \<and> stop = Some e \<and> rest = (eb_events b', eb_encoder b', eb_completion b')) \<and>
     (length bytes < length (filter (\<lambda>n. 0 < n) sizes) \<longrightarrow> stop \<noteq> None)"
proof (induction sizes arbitrary: b)
  case Nil
  then show ?case by (cases "remaining encode progressive cause b") auto
next
  case (Cons n sizes)
  obtain r b1 where r: "body_Read encode progressive cause n b = (r, b1)" by fastforce
  show ?case
  proof (cases r)
    case (Inl e)
    then show ?thesis using body_Read_end [of encode progressive cause n b e b1] r by simp
  next
    case (Inr s)
    obtain bytes e rest got stop b' where I: "remaining encode progressive cause b1 = (bytes, e, rest)"
      "body_reads encode progressive cause sizes b1 = (got, stop, b')" "prefix got bytes"
      "stop \<noteq> None \<longrightarrow> got = bytes \<and> stop = Some e \<and> rest = (eb_events b', eb_encoder b', eb_completion b')"
      "length bytes < length (filter (\<lambda>n. 0 < n) sizes) \<longrightarrow> stop \<noteq> None"
      using Cons [of b1] by blast
    have R: "0 < n \<longrightarrow> s \<noteq> []"
      "remaining encode progressive cause b = apfst (append s) (remaining encode progressive cause b1)"
      using body_Read_bytes [of encode progressive cause n b s b1] r Inr by simp_all
    have "0 < n \<longrightarrow> Suc 0 \<le> length s" using R(1) by (cases s) auto
    then have "length (s @ bytes) < length (filter (\<lambda>n. 0 < n) (n # sizes)) \<longrightarrow> stop \<noteq> None"
      using I(5) by (cases "n = 0") auto
    then show ?thesis using R Inr I r by (intro exI [of _ "s @ bytes"] exI [of _ e] exI [of _ rest]
      exI [of _ "s @ got"] exI [of _ stop] exI [of _ b']) simp
  qed
qed

text \<open>
  C20: a client reads the encoded response exactly, whatever its buffers. Any sequence of reads
  returns a prefix of the bytes that the encoder produces for the events; when a read reports the
  end or an error, all bytes have been returned before, and the end, the encoder and the completion
  are those of an unbuffered run. Enough reads with room for a byte always reach the end.
\<close>

theorem body_reads_exact:
  "\<exists>bytes e rest got stop b'.
     remaining encode progressive cause b = (bytes, e, rest) \<and>
     body_reads encode progressive cause sizes b = (got, stop, b') \<and> prefix got bytes \<and>
     (stop \<noteq> None \<longrightarrow> got = bytes \<and> stop = Some e \<and> rest = (eb_events b', eb_encoder b', eb_completion b')) \<and>
     (length bytes < length (filter (\<lambda>n. 0 < n) sizes) \<longrightarrow> stop \<noteq> None)"
  by (rule body_reads_remaining)

section \<open>A Chat Completions response, from the events to the bytes\<close>

definition chat_body_encoder ::
    "history_json \<Rightarrow> (go_error \<Rightarrow> string) \<Rightarrow> platform \<Rightarrow> marshaller \<Rightarrow> fingerprinting encoder" where
  "chat_body_encoder j errtext p marshal event f =
     (case chatCompletionsFingerprintingEncoder j errtext p marshal event f of
        Inl (e, calls) \<Rightarrow> (encode_err e, drop (length (fe_calls f)) calls, f)
      | Inr (out, f') \<Rightarrow> (encode_ok out, drop (length (fe_calls f)) (fe_calls f'), f'))"

definition EncodeResponseStream :: "Event list \<Rightarrow> bool \<Rightarrow> ResponseCompletion \<Rightarrow> fingerprinting EncodedResponseBody" where
  "EncodeResponseStream events includeUsageFrame completion =
     NewEncodedResponseBody (map pull_event events) (newFingerprinting includeUsageFrame) completion"

lemma body_output_inner:
  assumes "encode_stream p marshal es (fe_encoder f) = Inr (out, s')" and "list_all inner_chat_event es"
  shows "body_output (chat_body_encoder j errtext p marshal) progressive cause (map pull_event es @ rest) f c =
    apfst (append (concat out)) (body_output (chat_body_encoder j errtext p marshal) progressive cause rest
      (f\<lparr>fe_encoder := s', fe_completedItems := fe_completedItems f @ map snd (items_completed es)\<rparr>)
      (fold observe_usage_event es c))"
  using assms
proof (induction es arbitrary: f out c)
  case Nil
  then have "f\<lparr>fe_encoder := s'\<rparr> = f" "out = []" by auto
  then show ?case by (simp add: items_completed_def apfst_def map_prod_def split: prod.splits)
next
  case (Cons e es)
  obtain o1 s1 o2 where e: "EncodeEnvelopeEvent p marshal e (fe_encoder f) = Inr (o1, s1)"
    "encode_stream p marshal es s1 = Inr (o2, s')" "out = o1 @ o2"
    using Cons.prems(1) by (auto simp: result_simps)
  let ?f = "f\<lparr>fe_encoder := s1, fe_completedItems := fe_completedItems f @ map snd (items_completed [e])\<rparr>"
  have "encode_stream p marshal [e] (fe_encoder f) = Inr (o1, s1)" using e(1) by simp
  from fingerprint_run [OF this, of j errtext] Cons.prems(2)
  have step: "chatCompletionsFingerprintingEncoder j errtext p marshal e f = Inr (o1, ?f)"
    by (auto split: sum.splits)
  have "items_completed (e # es) = items_completed [e] @ items_completed es"
    using items_completed_append [of "[e]" es] by simp
  then show ?case
    using Cons.IH [of ?f o2] e(2,3) Cons.prems(2) step by (simp add: chat_body_encoder_def Let_def)
qed

lemma observe_usage_pending:
  assumes "completion_state c = CompletionPending"
  shows "completion_state (fold observe_usage_event es c) = CompletionPending \<and>
    rc_baseChanges (fold observe_usage_event es c) = rc_baseChanges c \<and>
    rc_progressiveChanges (fold observe_usage_event es c) = rc_progressiveChanges c"
  using assms
proof (induction es arbitrary: c)
  case (Cons e es)
  have "completion_state (observe_usage_event e c) = CompletionPending \<and>
      rc_baseChanges (observe_usage_event e c) = rc_baseChanges c \<and>
      rc_progressiveChanges (observe_usage_event e c) = rc_progressiveChanges c"
    using Cons.prems by (cases "ev_Payload e")
      (simp_all add: observe_usage_event_def ObserveUsage_def completion_state_def)
  then show ?case using Cons.IH [of "observe_usage_event e c"] by simp
qed simp

text \<open>What the encoder leaves out is recorded as valid changes.\<close>

lemma chat_changes_ok:
  assumes "project_document errtext response = Inr (kept, document, changes)"
  shows "list_all change_ok changes"
proof -
  obtain changes1 reason decisions and st :: "string \<times> chatCompletionsResponseToolCallDTO list" where
    items: "projectChatCompletionsWebSearchLifecycles errtext (cr_items response) = Inr (kept, changes1)"
    and final: "finalizeChatClientProjection (chatItemsContainReasoning kept) (fst st \<noteq> [] \<or> snd st \<noteq> []) reason =
      (decisions, None)"
    and changes: "changes = changes1 @ decisions"
    by (rule project_document_ok [OF assms], rule that)
  obtain m :: ToolEffectMatcher where m: "set changes1 = search_omission ` {e \<in> set (em_effects m). search_effect e} \<union>
      (\<Union>i < length (cr_items response). set (chatCompletionsCitationDropDecisions (of_nat i) (cr_items response ! i)))"
    by (rule project_lifecycles_ok [OF items], rule that)
  have drops: "\<forall>d \<in> set (citation_drops n k parts). change_ok d" for n k parts
    by (induction n k parts rule: citation_drops.induct) (auto simp: omission_def change_ok_def)
  have "\<forall>d \<in> set changes1. change_ok d"
    unfolding m using drops
    by (auto simp: search_omission_def omission_def change_ok_def chatCompletionsCitationDropDecisions_def
        split: CanonicalItem.splits)
  moreover have "\<forall>d \<in> set decisions. change_ok d"
    using final by (auto simp: finalizeChatClientProjection_def omission_def change_ok_def split: if_splits)
  ultimately show ?thesis using changes by (auto simp: list_all_iff)
qed

lemma completion_complete_ok:
  assumes "completion_state c = CompletionPending" and "list_all change_ok (rc_baseChanges c @ progressive @ changes)"
  shows "completion_state (completion_complete fingerprint changes progressive c) = CompletionCompleted"
    and "sn_ResponseFingerprint (rc_snapshot (completion_complete fingerprint changes progressive c)) = fingerprint"
    and "sn_Changes (rc_snapshot (completion_complete fingerprint changes progressive c)) =
      rc_baseChanges c @ (if rc_progressiveChanges c then progressive else []) @ changes"
proof -
  have "list_all change_ok (rc_baseChanges c @ (if rc_progressiveChanges c then progressive else []) @ changes)"
    using assms(2) by auto
  then have "ValidateChanges (rc_baseChanges c @ (if rc_progressiveChanges c then progressive else []) @ changes) = Inr ()"
    using ValidateChanges_iff by blast
  then show "completion_state (completion_complete fingerprint changes progressive c) = CompletionCompleted"
    "sn_ResponseFingerprint (rc_snapshot (completion_complete fingerprint changes progressive c)) = fingerprint"
    "sn_Changes (rc_snapshot (completion_complete fingerprint changes progressive c)) =
      rc_baseChanges c @ (if rc_progressiveChanges c then progressive else []) @ changes"
    using assms(1) by (simp_all add: completion_complete_def Let_def completion_state_def)
qed

definition delivered_as ::
    "ResponseCompletion \<Rightarrow> Change list \<Rightarrow> ResponseLeaf \<Rightarrow> Change list \<Rightarrow> ResponseCompletion \<Rightarrow> bool" where
  "delivered_as c progressive leaf changes c' \<longleftrightarrow>
     completion_state c' = CompletionCompleted \<and> sn_ResponseFingerprint (rc_snapshot c') = Some leaf \<and>
     set (sn_Changes (rc_snapshot c')) =
       set (rc_baseChanges c @ (if rc_progressiveChanges c then progressive else []) @ changes)"

text \<open>The last event of the response: its frames, and the completion of the cell.\<close>

lemma body_output_last:
  assumes "EncodeEnvelopeEvent p marshal e s = Inr (out, s')"
    and "ev_Kind e = EventEnvelopeEnd" and "ev_Payload e = envelope_end EnvResponse EnvelopeStatusCompleted"
    and "projectChatCompletionsWebSearchLifecycles errtext items = Inr (kept, cs)"
    and "fingerprintChatCompletionsResponseItems j kept = Inr leaf"
    and "completion_state c = CompletionPending" and "list_all change_ok (rc_baseChanges c @ progressive @ en_changes s')"
  shows "\<exists>f c'. body_output (chat_body_encoder j errtext p marshal) progressive cause [pull_event e]
      \<lparr>fe_encoder = s, fe_completedItems = items, fe_calls = []\<rparr> c = (concat out, end_EOF, [], f, c') \<and>
    delivered_as c progressive leaf (en_changes s') c'"
proof -
  let ?f = "\<lparr>fe_encoder = s, fe_completedItems = items, fe_calls = []\<rparr>"
  let ?c = "completion_complete (Some leaf) (en_changes s') progressive c"
  have step: "chatCompletionsFingerprintingEncoder j errtext p marshal e ?f =
      Inr (out, ?f\<lparr>fe_encoder := s', fe_calls := [complete_call leaf (en_changes s')]\<rparr>)"
    using assms(1-5)
    by (simp add: chatCompletionsFingerprintingEncoder_def chatCompletionsResponseTerminalStatus_def fingerprint_terminal_def)
  have quiet: "observe_usage_event e c = c" using assms(2) by (simp add: observe_usage_event_def)
  have state: "completion_state ?c = CompletionCompleted" by (rule completion_complete_ok [OF assms(6,7)])
  have "delivered_as c progressive leaf (en_changes s') ?c"
    using completion_complete_ok [OF assms(6,7), of "Some leaf"] by (simp add: delivered_as_def)
  then show ?thesis
    using step quiet state by (simp add: chat_body_encoder_def Let_def at_EOF_def)
qed

lemma chat_body_remaining:
  assumes resp: "NewCanonicalResponse ref model items completion usage = Inr response"
    and wf: "list_all chat_item items" and len: "length items < 2 ^ 32"
    and doc: "project_document errtext response = Inr (kept, document, changes)"
    and leaf: "fingerprintChatCompletionsResponseItems j kept = Inr leaf"
    and marsh: "\<And>d. marshal d = Some (enc d)"
    and cell: "completion_state c = CompletionPending" "list_all change_ok (rc_baseChanges c @ progressive)"
    and events: "map event_content events = live_events pieces ref model items completion usage"
    and texts: "texts_whole pieces 0 items"
  shows "\<exists>ds message' reason f c'. remaining (chat_body_encoder j errtext p marshal) progressive cause
      (EncodeResponseStream events inc c) =
        (concat (chunk_frames enc ds @ [done_frame]), end_EOF, [], f, c') \<and>
    bd_Choices document = [\<lparr>bh_Index = 0, bh_Message = message', bh_FinishReason = reason\<rparr>] \<and>
    cv_Message (read_chunks ds) = streamed_message (streamed_inputs pieces 0 items) message' \<and>
    delivered_as c progressive leaf changes c'"
proof -
  have items: "cr_items response = items"
    using resp by (auto simp: NewCanonicalResponse_def result_simps split: if_splits)
  obtain cs where kept: "projectChatCompletionsWebSearchLifecycles errtext items = Inr (kept, cs)"
    using project_document_ok [OF doc] items by metis
  from live_inner [OF events] obtain es e where
    es: "events = es @ [e]"
    and inner: "list_all inner_chat_event es" "map snd (items_completed es) = items"
    and e: "ev_Kind e = EventEnvelopeEnd" "ev_Payload e = envelope_end EnvResponse EnvelopeStatusCompleted"
    by metis
  obtain ds s message' reason where run: "encode_stream p marshal (es @ [e]) (newStreamState inc) =
      Inr (chunk_frames enc ds @ [done_frame], s)"
    and same: "set (en_changes s) = set changes"
    and choice: "bd_Choices document = [\<lparr>bh_Index = 0, bh_Message = message', bh_FinishReason = reason\<rparr>]"
      "cv_Message (read_chunks ds) = streamed_message (streamed_inputs pieces 0 items) message'"
    using chat_stream_run [where marshal = marshal and p = p and inc = inc, OF resp wf len doc marsh events texts]
    unfolding es by (metis chat_view.select_convs(3))
  obtain o1 s1 o2 where r: "encode_stream p marshal es (newStreamState inc) = Inr (o1, s1)"
    "EncodeEnvelopeEvent p marshal e s1 = Inr (o2, s)" "chunk_frames enc ds @ [done_frame] = o1 @ o2"
    using run unfolding encode_stream_append by (auto simp: result_simps)
  let ?c = "fold observe_usage_event es c"
  note pending = observe_usage_pending [OF cell(1), of es]
  have "list_all change_ok (rc_baseChanges ?c @ progressive @ en_changes s)"
    using cell(2) pending chat_changes_ok [OF doc] same by (auto simp: list_all_iff)
  from body_output_last [OF r(2) e kept leaf conjunct1 [OF pending] this] obtain f c' where
    last: "body_output (chat_body_encoder j errtext p marshal) progressive cause [pull_event e]
      \<lparr>fe_encoder = s1, fe_completedItems = items, fe_calls = []\<rparr> ?c = (concat o2, end_EOF, [], f, c')"
    and d: "delivered_as ?c progressive leaf (en_changes s) c'" by blast
  have "delivered_as c progressive leaf changes c'"
    using d pending same by (simp add: delivered_as_def)
  moreover have "remaining (chat_body_encoder j errtext p marshal) progressive cause
      (EncodeResponseStream (es @ [e]) inc c) = (concat (chunk_frames enc ds @ [done_frame]), end_EOF, [], f, c')"
    unfolding r(3) using body_output_inner [of p marshal es "newFingerprinting inc" o1 s1 j errtext progressive cause "[pull_event e]" c]
      r(1) inner last
    by (simp add: remaining_def EncodeResponseStream_def NewEncodedResponseBody_def newFingerprinting_def)
  ultimately show ?thesis unfolding es using choice by blast
qed

text \<open>
  C17: a completed Chat Completions stream is delivered whole or not reported as delivered. For the
  streams of the previous theorem about them (a valid response that the document encoder can
  represent, whose events arrive in the order of the synthesised ones, in any pieces, with neither an
  error event nor a cancellation, and a marshaller that never fails) and whatever buffers the client
  reads with, the bytes are a prefix of the encoded chunks and the end marker; once a read reports
  the end all of them have been read, they accumulate to the message of the document with the call
  inputs as they were streamed, and the completion cell, pending before, is completed with the
  fingerprint of the document and with the changes of the route and of the encoder. As many reads
  with room for a byte as there are bytes, and one more, reach this end. (A reader without stream,
  encoder or completion, which \<^verbatim>\<open>fill\<close> refuses, is not modelled: the constructor sets all three.)
\<close>

theorem chat_body_delivers:
  assumes resp: "NewCanonicalResponse ref model items completion usage = Inr response"
    and wf: "list_all chat_item items" and len: "length items < 2 ^ 32"
    and doc: "project_document errtext response = Inr (kept, document, changes)"
    and leaf: "fingerprintChatCompletionsResponseItems j kept = Inr leaf"
    and marsh: "\<And>d. marshal d = Some (enc d)"
    and cell: "completion_state c = CompletionPending" "list_all change_ok (rc_baseChanges c @ progressive)"
    and events: "map event_content events = live_events pieces ref model items completion usage"
    and texts: "texts_whole pieces 0 items"
  shows "\<exists>ds message' reason.
    bd_Choices document = [\<lparr>bh_Index = 0, bh_Message = message', bh_FinishReason = reason\<rparr>] \<and>
    cv_Message (read_chunks ds) = streamed_message (streamed_inputs pieces 0 items) message' \<and>
    (\<forall>sizes. \<exists>got stop b.
      body_reads (chat_body_encoder j errtext p marshal) progressive cause sizes
        (EncodeResponseStream events inc c) =
          (got, stop, b) \<and>
      prefix got (concat (chunk_frames enc ds @ [done_frame])) \<and>
      (stop \<noteq> None \<longrightarrow> got = concat (chunk_frames enc ds @ [done_frame]) \<and> stop = Some end_EOF \<and>
         delivered_as c progressive leaf changes (eb_completion b)) \<and>
      (length (concat (chunk_frames enc ds @ [done_frame])) < length (filter (\<lambda>n. 0 < n) sizes) \<longrightarrow> stop \<noteq> None))"
proof -
  let ?body = "EncodeResponseStream events inc c"
  let ?enc = "chat_body_encoder j errtext p marshal"
  obtain ds message' reason f c' where r: "remaining ?enc progressive cause ?body =
        (concat (chunk_frames enc ds @ [done_frame]), end_EOF, [], f, c')"
    and d: "bd_Choices document = [\<lparr>bh_Index = 0, bh_Message = message', bh_FinishReason = reason\<rparr>]"
      "cv_Message (read_chunks ds) = streamed_message (streamed_inputs pieces 0 items) message'"
      "delivered_as c progressive leaf changes c'"
    using chat_body_remaining [where marshal = marshal and p = p and inc = inc and cause = cause,
      OF resp wf len doc leaf marsh cell events texts] by blast
  have "\<exists>got stop b. body_reads ?enc progressive cause sizes ?body = (got, stop, b) \<and>
      prefix got (concat (chunk_frames enc ds @ [done_frame])) \<and>
      (stop \<noteq> None \<longrightarrow> got = concat (chunk_frames enc ds @ [done_frame]) \<and> stop = Some end_EOF \<and> eb_completion b = c') \<and>
      (length (concat (chunk_frames enc ds @ [done_frame])) < length (filter (\<lambda>n. 0 < n) sizes) \<longrightarrow> stop \<noteq> None)" for sizes
    using body_reads_remaining [of ?enc progressive cause ?body sizes] r by auto
  then show ?thesis using d by metis
qed

section \<open>Examples\<close>

definition sample_encoder :: "nat encoder" where
  "sample_encoder event n = (encode_ok (if n = 0 then [] else [''ab'', ''c'']), [], Suc n)"

definition sample_body :: "nat EncodedResponseBody" where
  "sample_body = NewEncodedResponseBody [pull_event (bare EventFinish other_payload),
     pull_event (bare EventFinish other_payload), pull_EOF] 0 NewResponseCompletion"

theorem body_reads_exact_witness:
  "\<exists>b'. body_reads sample_encoder [] None [1, 0, 1, 5, 1] sample_body = (''abc'', Some end_EOF, b') \<and>
     completion_state (eb_completion b') = CompletionFailed"
proof -
  have r: "remaining sample_encoder [] None sample_body = (''abc'', end_EOF, [], 2, at_EOF NewResponseCompletion)"
    by (simp add: remaining_def sample_body_def NewEncodedResponseBody_def sample_encoder_def observe_usage_event_def)
  have "completion_state (at_EOF NewResponseCompletion) = CompletionFailed"
    by (simp add: at_EOF_def completion_fail_def settle_failed_effect NewResponseCompletion_def completion_state_def
        zeroResponseSnapshot_def)
  moreover have "length ''abc'' < length (filter (\<lambda>n. 0 < n) [1, 0, 1, 5, 1 :: nat])" by simp
  ultimately show ?thesis
    using body_reads_exact [of sample_encoder "[]" None sample_body "[1, 0, 1, 5, 1]"] r by auto
qed

theorem chat_body_delivers_witness:
  "\<exists>ds sizes leaf changes b. cv_Message (read_chunks ds) = streamed_message [''{ }''] chat_sample_message \<and>
     body_reads (chat_body_encoder history_sample_json (\<lambda>_. []) chat_platform (\<lambda>d. Some ''{}'')) [] None sizes
       (EncodeResponseStream live_sample True NewResponseCompletion) =
       (concat (chunk_frames (\<lambda>d. ''{}'') ds @ [done_frame]), Some end_EOF, b) \<and>
     delivered_as NewResponseCompletion [] leaf changes (eb_completion b)"
proof -
  obtain document changes where doc: "project_document (\<lambda>_. []) chat_sample_response =
      Inr ([sample_message, sample_call ''a''], document, changes)"
    "bd_Choices document = [\<lparr>bh_Index = 0, bh_Message = chat_sample_message, bh_FinishReason = ''tool_calls''\<rparr>]"
    using delivery_sample_kept chat_sample_ok(3) by (cases "project_document (\<lambda>_. []) chat_sample_response") auto
  obtain leaf where leaf:
    "fingerprintChatCompletionsResponseItems history_sample_json [sample_message, sample_call ''a''] = Inr leaf"
    by (rule history_sample_response)
  have cell: "completion_state NewResponseCompletion = CompletionPending"
    "list_all change_ok (rc_baseChanges NewResponseCompletion @ [])"
    by (simp_all add: NewResponseCompletion_def completion_state_def zeroResponseSnapshot_def)
  have "length chat_sample_items < 2 ^ 32" by (simp add: chat_sample_items_def)
  from chat_body_delivers [where marshal = "\<lambda>d. Some ''{}''" and enc = "\<lambda>d. ''{}''" and p = chat_platform
      and inc = True and cause = None, OF chat_sample_ok(1,2) this doc(1) leaf refl cell live_sample_ok(1,2)]
  obtain ds message' reason where d: "bd_Choices document =
      [\<lparr>bh_Index = 0, bh_Message = message', bh_FinishReason = reason\<rparr>]"
      "cv_Message (read_chunks ds) = streamed_message [''{ }''] message'"
    and all: "\<And>sizes. \<exists>got stop b.
      body_reads (chat_body_encoder history_sample_json (\<lambda>_. []) chat_platform (\<lambda>d. Some ''{}'')) [] None sizes
        (EncodeResponseStream live_sample True NewResponseCompletion) = (got, stop, b) \<and>
      (stop \<noteq> None \<longrightarrow> got = concat (chunk_frames (\<lambda>d. ''{}'') ds @ [done_frame]) \<and> stop = Some end_EOF \<and>
         delivered_as NewResponseCompletion [] leaf changes (eb_completion b)) \<and>
      (length (concat (chunk_frames (\<lambda>d. ''{}'') ds @ [done_frame])) < length (filter (\<lambda>n. 0 < n) sizes) \<longrightarrow> stop \<noteq> None)"
    unfolding live_sample_ok(3) by blast
  let ?n = "Suc (length (concat (chunk_frames (\<lambda>d. ''{}'') ds @ [done_frame])))"
  have n: "length (filter (\<lambda>n. 0 < n) (replicate ?n (1 :: nat))) = ?n" by simp
  obtain got stop b where reads:
      "body_reads (chat_body_encoder history_sample_json (\<lambda>_. []) chat_platform (\<lambda>d. Some ''{}'')) [] None (replicate ?n 1)
        (EncodeResponseStream live_sample True NewResponseCompletion) = (got, stop, b)"
    "stop \<noteq> None \<longrightarrow> got = concat (chunk_frames (\<lambda>d. ''{}'') ds @ [done_frame]) \<and> stop = Some end_EOF \<and>
       delivered_as NewResponseCompletion [] leaf changes (eb_completion b)" "stop \<noteq> None"
    using all [of "replicate ?n 1", unfolded n] by blast
  moreover have "cv_Message (read_chunks ds) = streamed_message [''{ }''] chat_sample_message" using d doc(2) by simp
  ultimately show ?thesis by metis
qed

end
