(* ===== verification/Spec2Isabelle.thy ===== *)
theory Spec2Isabelle
  imports Routing_History Routing_Finalize Exchange_Claims Response_Commit MCP_Properties Encoded_Body
begin

text \<open>
  Verification library for \<^verbatim>\<open>swobu\<close>, a local gateway between LLM clients and model providers.

  \<^bold>\<open>The program.\<close> A client speaks one of several wire protocols to the gateway. The inbound
  adapter decodes its request into a \<^emph>\<open>canonical\<close> request; the client's workspace and route name
  select a route, whose tiers of targets become an ordered attempt plan; the exchange calls the
  targets in this order, fails over where a failure justifies it, runs remote MCP tool rounds,
  and hands the canonical response events back to the client's encoder. Before a client sees a
  completed response its history is committed to the checkpoint store, so that a later request
  can name the response and continue from it.

  \<^bold>\<open>Theories, in the order of the code's dependencies\<close> (paths under \<^verbatim>\<open>src/internal\<close>).

    \<^item> \<open>Prelude\<close>: errors as values (\<open>and_then\<close> is Go's early return), the functions of \<^verbatim>\<open>strings\<close>
      the sources use, Go maps as association lists, the platform functions, shared lemmas.
    \<^item> \<open>Credential_Ref\<close> (\<^verbatim>\<open>domain/credentialref\<close>); \<open>Routing_Connection\<close>, \<open>Routing_Model\<close>,
      \<open>Routing_Reconcile\<close>, \<open>Routing_Edit\<close>, \<open>Routing_Finalize\<close>, \<open>Routing_Plan\<close>
      (\<^verbatim>\<open>routing/connection.go\<close>, \<^verbatim>\<open>model.go\<close>, \<^verbatim>\<open>reconcile.go\<close>, \<^verbatim>\<open>edit.go\<close>, \<^verbatim>\<open>finalize.go\<close>, \<^verbatim>\<open>plan.go\<close>):
      the configuration aggregate and every operation that changes it. \<open>Routing_History\<close> makes the
      public edits the steps of a state machine: all reachable configurations are well-formed, and
      a target identifier with its version names one effective configuration for ever.
    \<^item> \<open>Provider_Failure\<close>, \<open>Target_Knowledge\<close>, \<open>Provider_Target\<close> (\<^verbatim>\<open>provider/failure.go\<close>,
      \<^verbatim>\<open>target_facts.go\<close>, \<^verbatim>\<open>target.go\<close>, \<^verbatim>\<open>delivery\<close>), \<open>Target_Backoff\<close>
      (\<^verbatim>\<open>exchange/target_backoff.go\<close>): the failure algebra and the process-wide availability ledger,
      with its epochs, its doubling delays and the claim that each observation touches one group.
    \<^item> \<open>Affinity\<close>, \<open>Compat\<close> (\<^verbatim>\<open>domain/executionaffinity\<close>, \<^verbatim>\<open>domain/cachelocality\<close>, \<^verbatim>\<open>compat\<close>).
    \<^item> \<open>Exchange_State\<close>, \<open>Exchange_Reduce\<close>, \<open>Exchange_Loop\<close> (\<^verbatim>\<open>exchange/exchange_state.go\<close>,
      \<^verbatim>\<open>provider_call_attempt.go\<close>, \<^verbatim>\<open>provider_call.go\<close>, \<^verbatim>\<open>mcp_preparation.go\<close>, \<^verbatim>\<open>mcp_tool_loop.go\<close>,
      \<^verbatim>\<open>exchange_loop.go\<close>): the pure reducer of one exchange and the loop that drives it; what the
      outside world answers to each command is an argument. \<open>Exchange_Invariant\<close>,
      \<open>Exchange_Safety\<close>, \<open>Exchange_Properties\<close> and \<open>Exchange_Claims\<close> show which targets are called, how
      often, why a failover happens, that no internal error or panic is reachable when the services
      return and every target has a valid connection of its provider's shape (a target without one
      makes the code panic, and the model with it), that the loop ends, and that it leaves on the
      shared ledger no call of its own, whatever other exchanges do there meanwhile.
    \<^item> \<open>Canonical_JSON\<close>, \<open>Canonical_Tool\<close>, \<open>Canonical_Item\<close>, \<open>Canonical_Response\<close>,
      \<open>Canonical_Request\<close>, \<open>Canonical_Stream\<close> (\<^verbatim>\<open>domain/canonical\<close>): the protocol-neutral data model,
      the matcher of tool calls and results, and the lifecycle validator, fold and incremental
      projector of response events. \<open>Canonical_Projection\<close>: what the validator admits is projected
      to the response it stands for, the two projectors agree, and synthesis is inverted.
    \<^item> \<open>History_Fingerprint\<close> (\<^verbatim>\<open>domain/historyfingerprint\<close>), \<open>Expiration_Heap\<close>, \<open>Checkpoint_Store\<close>,
      \<open>Continuity_Resolve\<close> (\<^verbatim>\<open>continuity\<close>): fingerprints, the store with its capacity, its expiry
      queue and its shared history segments, and the resolution of a request against a checkpoint.
      \<open>Checkpoint_Refine\<close> and \<open>Checkpoint_Run\<close> show that the store implements a map from response
      identifiers to self-contained checkpoints; \<open>Continuity_Properties\<close> that resumption gives the
      whole conversation, exactly.
    \<^item> \<open>Response_Delivery\<close> (\<^verbatim>\<open>exchange/response_handoff_stream.go\<close>, \<^verbatim>\<open>terminal_response_stream.go\<close>,
      \<^verbatim>\<open>checkpoint_capture_stream.go\<close>, \<^verbatim>\<open>checkpoint_committer.go\<close>, \<^verbatim>\<open>checkpoint_terminal_gate.go\<close>):
      the readers between a provider stream and the client. \<open>Response_Gate\<close>: every pull returns, and
      the reader under the gate ends a response with the truth; \<open>Response_Commit\<close>: so does the gate, a
      completed end is delivered only after the commit, a refused commit is reported, and what the
      client has seen completed can be loaded back.
    \<^item> \<open>Canonical_Transform\<close>, \<open>Tool_Names\<close> (\<^verbatim>\<open>domain/canonical/context.go\<close>, \<^verbatim>\<open>provider/tool_names.go\<close>,
      \<^verbatim>\<open>wire/toolname\<close>): the tools in force for a request and the flat labels under which a provider
      sees them; the labels are acceptable, unambiguous and total up to digest collisions.
    \<^item> \<open>MCP_Client\<close>, \<open>MCP_Run\<close> (\<^verbatim>\<open>mcp/access.go\<close>, \<^verbatim>\<open>client.go\<close>, \<^verbatim>\<open>run.go\<close>): credentials of remote
      sources, the address guard, the bounded listing of a remote catalog, and the run of one
      exchange that opens the sources, rewrites the request and dispatches remote calls. The model
      logs the sessions opened and closed; \<open>MCP_Properties\<close> shows that none is left open, that a
      provider sees no source, that dropped sources are recorded and that effects are bounded.
    \<^item> \<open>SSE_Framing\<close> (\<^verbatim>\<open>wire/framing/sse\<close>, \<^verbatim>\<open>wire/primitives/sse.go\<close>): event-stream frames and their
      reader, and the adapter from canonical events to stream events. \<open>Chat_Encode\<close>
      (\<^verbatim>\<open>wire/chatcompletions/codec.go\<close>, \<^verbatim>\<open>response_encode.go\<close>, \<^verbatim>\<open>web_search_projection.go\<close>): the two
      encoders of responses for Chat Completions clients; \<open>Chat_Equivalence\<close>: what the chunks of the
      stream encoder add up to, for a completed response in any fragments, is the document of the
      other with the call inputs as they were streamed, which for a synthesised stream is the document.
    \<^item> \<open>Chat_History\<close> (\<^verbatim>\<open>wire/chatcompletions/history_fingerprint.go\<close>): the fingerprints of repeated turns
      and of responses; a client that repeats the conversation byte for byte is recognised, and the
      fingerprint of a response does not depend on the delivery. \<open>Encoded_Body\<close> (\<^verbatim>\<open>wire/codec.go\<close>, \<^verbatim>\<open>encoded_response_body.go\<close>,
      \<^verbatim>\<open>encoded_response_messages.go\<close>): the completion cell and the bodies a client reads; the cell is
      written once, reading is exact for all buffers, and a Chat Completions response is delivered
      whole, with its fingerprint, or not reported as completed.

  \<^bold>\<open>Modelling.\<close> A struct is a record, a sealed interface or tagged union a datatype, an error a value
  of a sum type, a panic an error value of its own that no error handler of the model catches. A mutex-protected operation is one step of a
  state machine, so that an interleaving of goroutines is a sequence of operations. Code outside
  the repository is an argument: SHA-256 and the text encodings, \<^verbatim>\<open>encoding/json\<close>, \<^verbatim>\<open>net/url\<close>,
  Unicode lower-casing, the clock, the provider catalog, and the answers of providers, of the MCP
  servers and of the client's socket. Clone methods are the identity, since the values are
  immutable.

  \<^bold>\<open>Interfaces.\<close> The locales are the contracts between the components: the expiration queue of the
  store, the checkpoint store as a map, the finishing of a bounded delivery, the resolver of MCP
  sources; each is interpreted on the definitions of the component that provides it.

  \<^bold>\<open>Bounds and fuel.\<close> The scan over candidates gets the number of targets plus two, more than the
  targets it can visit; the loop of the exchange has the code's own limit of 1000 steps, shown not
  to be reached for routes with at most 249 targets; the walk to the ancestors of an envelope gets
  the number of open envelopes plus one. The sift loops of the heap and the reclamation loop
  terminate by a measure, as do the reader of event streams and the listing of a remote catalog,
  which the code stops after 32 pages. The gate reads until a visible event: it is a partial function, and it
  is proved that each pull returns.

  \<^bold>\<open>Not modelled.\<close> The wire codecs other than the response encoders of Chat Completions
  (\<^verbatim>\<open>wire/responses\<close>, \<^verbatim>\<open>messages\<close>, \<^verbatim>\<open>generatecontent\<close>, \<^verbatim>\<open>openai\<close>, the decoders and request encoders
  of \<^verbatim>\<open>chatcompletions\<close>) and the provider adapters: they translate between canonical values and JSON
  documents through the reflection of \<^verbatim>\<open>encoding/json\<close> over tagged structures. The HTTP, CLI and
  terminal user interfaces, the files, sockets and processes of the platform packages, telemetry
  and sharing: their behaviour is input and output. Cancellation and deadlines appear only as the
  errors they cause.
\<close>

section \<open>Configured targets can be called\<close>

text \<open>
  The loop of the exchange is free of panics for targets with a valid connection of their provider's
  shape. Finalization produces only such targets, when the catalog gives the Bedrock and the custom
  shape to the providers of these names and to no other, as the program's own catalog does.
\<close>

definition own_shapes :: "TargetConstructionFacts \<Rightarrow> bool" where
  "own_shapes facts \<longleftrightarrow> (\<forall>shapeOf k shape. fact_ConnectionShape facts = Some shapeOf \<and> shapeOf k = Some shape \<longrightarrow>
     (k = ''bedrock'' \<longleftrightarrow> shape = ConnectionShapeBedrock) \<and> (k = ''custom'' \<longleftrightarrow> shape = ConnectionShapeCustom))"

lemma finalized_target_projects:
  assumes "platform_ok p" and "FinalizeTarget p draft facts = Inr t" and "own_shapes facts"
  shows "projectable t"
proof -
  obtain c where c: "FinalizeConnection p (td_Connection draft) facts = Inr c" "target_connection t = Some c"
    using assms(2) by (auto simp: FinalizeTarget_def NewTarget_Restore RestoreTarget_iff result_simps Let_def)
  note ok = FinalizeConnection_ok [OF c(1) assms(1)]
  then have "shape_key c"
    using assms(3) by (auto simp: shape_key_def fits_facts_def own_shapes_def)
  with ok c(2) show ?thesis by (simp add: projectable_def)
qed

end
